(* ===== verification/Prelude.thy ===== *)
theory Prelude
  imports Main "HOL-Library.Word"
begin

text \<open>
  Shared vocabulary of the development: the firmware's integer types at their
  width, the two return codes, faults as values, big-endian packing as the code
  writes it out by hand in many places, and list lemmas for byte buffers.

  The collection \<open>bytes_eq\<close> holds the equations that compute packed and
  unpacked bytes; \<open>faults\<close> holds the unfolding of the sequencing of steps that
  may fault.
\<close>

unbundle bit_operations_syntax

named_theorems bytes_eq "equations for packing and unpacking bytes"
named_theorems faults "unfolding of steps that may fault"

section \<open>Machine types and return codes\<close>

type_synonym u8 = "8 word"
type_synonym u16 = "16 word"
type_synonym u32 = "32 word"
type_synonym bytes = "u8 list"

text \<open>The two results of every \<open>int\<close> function of the firmware: \<open>SUCC\<close> is 0 and
  \<open>FAIL\<close> is -1 (\<open>BSP/inc/bsp.h\<close>).\<close>

datatype status = SUCC | FAIL

text \<open>What stops a call from returning: it waits for a semaphore that nobody posts, it
  accesses memory outside an object, it is still running when the trace of its
  surroundings ends, or a floating-point division leaves the finite numbers.\<close>

datatype fault = Blocked | OutOfBounds | Unfinished | NonFinite

definition bind_f :: "fault + 'a \<Rightarrow> ('a \<Rightarrow> fault + 'b) \<Rightarrow> fault + 'b" where
  "bind_f m k = (case m of Inl e \<Rightarrow> Inl e | Inr x \<Rightarrow> k x)"

lemma bind_f_simps [simp]: "bind_f (Inl e) k = Inl e" "bind_f (Inr x) k = k x"
  by (simp_all add: bind_f_def)

lemma bind_f_Inr [faults]: "bind_f m k = Inr y \<longleftrightarrow> (\<exists>x. m = Inr x \<and> k x = Inr y)"
  by (cases m) auto

lemma bind_f_Inl [faults]: "bind_f m k = Inl e \<longleftrightarrow> m = Inl e \<or> (\<exists>x. m = Inr x \<and> k x = Inl e)"
  by (cases m) auto

text \<open>Steps on a state: they return a value and the next state, or fault.\<close>

type_synonym ('a, 's) st = "'s \<Rightarrow> fault + 'a \<times> 's"

definition ret_io :: "'a \<Rightarrow> ('a, 's) st" where
  "ret_io x w = Inr (x, w)"

definition bind_io :: "('a, 's) st \<Rightarrow> ('a \<Rightarrow> ('b, 's) st) \<Rightarrow> ('b, 's) st" where
  "bind_io m k w = bind_f (m w) (\<lambda>(x, w1). k x w1)"

lemma bind_io_simps [simp]:
  "m w = Inr (x, w1) \<Longrightarrow> bind_io m k w = k x w1"
  "m w = Inl e \<Longrightarrow> bind_io m k w = Inl e"
  "bind_io (ret_io x) k = k x"
  by (auto simp: bind_io_def ret_io_def)

lemma bind_io_Inr [faults]:
  "bind_io m k w = Inr y \<longleftrightarrow> (\<exists>x w1. m w = Inr (x, w1) \<and> k x w1 = Inr y)"
  by (auto simp: bind_io_def bind_f_Inr)

lemma ret_io_Inr [simp]: "ret_io x w = Inr y \<longleftrightarrow> y = (x, w)"
  by (auto simp: ret_io_def)

section \<open>Words as natural numbers\<close>

lemma u8_bound: "unat (x :: u8) < 256"
  using unsigned_less [where 'a = nat and w = x] by simp

lemma u16_bound: "unat (x :: u16) < 65536"
  using unsigned_less [where 'a = nat and w = x] by simp

lemma u32_bound: "unat (x :: u32) < 4294967296"
  using unsigned_less [where 'a = nat and w = x] by simp

lemma u8_le: "unat (x :: u8) \<le> 255"
  using u8_bound [of x] by simp

lemma unat_u8_of_u32 [bytes_eq]: "unat (ucast (x :: u32) :: u8) = unat x mod 256"
  by (simp add: unsigned_ucast_eq take_bit_eq_mod)

lemma unat_u8_of_u16 [bytes_eq]: "unat (ucast (x :: u16) :: u8) = unat x mod 256"
  by (simp add: unsigned_ucast_eq take_bit_eq_mod)

lemma unat_u32_of_u8 [simp]: "unat (ucast (x :: u8) :: u32) = unat x"
  using u8_bound [of x] by (simp add: unsigned_ucast_eq take_bit_eq_mod)

lemma unat_u16_of_u8 [simp]: "unat (ucast (x :: u8) :: u16) = unat x"
  using u8_bound [of x] by (simp add: unsigned_ucast_eq take_bit_eq_mod)

section \<open>Big-endian packing\<close>

text \<open>The four masked shifts \<open>(x & 0xFF000000)>>24\<close> to \<open>x & 0xFF\<close> that every save
  function writes out, and the sum of shifts every read function computes.\<close>

definition be32 :: "u32 \<Rightarrow> bytes" where
  "be32 d = [ucast (drop_bit 24 (d AND 0xFF000000)), ucast (drop_bit 16 (d AND 0x00FF0000)),
             ucast (drop_bit 8 (d AND 0x0000FF00)), ucast (d AND 0x000000FF)]"

definition be16 :: "u16 \<Rightarrow> bytes" where
  "be16 d = [ucast (drop_bit 8 (d AND 0xFF00)), ucast (d AND 0x00FF)]"

definition un32 :: "u8 \<Rightarrow> u8 \<Rightarrow> u8 \<Rightarrow> u8 \<Rightarrow> u32" where
  "un32 a b c d = push_bit 24 (ucast a) + push_bit 16 (ucast b) + push_bit 8 (ucast c) + ucast d"

definition un16 :: "u8 \<Rightarrow> u8 \<Rightarrow> u16" where
  "un16 a b = push_bit 8 (ucast a) + ucast b"

text \<open>\<open>(b[i] << 24) + (b[i+1] << 16) + (b[i+2] << 8) + b[i+3]\<close>.\<close>

definition int32_at :: "bytes \<Rightarrow> nat \<Rightarrow> u32" where
  "int32_at b i = un32 (b ! i) (b ! (i + 1)) (b ! (i + 2)) (b ! (i + 3))"

lemma byte_masks:
  "(0xFF000000 :: u32) = push_bit 24 (mask 8)" "(0xFF0000 :: u32) = push_bit 16 (mask 8)"
  "(0xFF00 :: u32) = push_bit 8 (mask 8)" "(0xFF :: u32) = mask 8"
  "(0xFF00 :: u16) = push_bit 8 (mask 8)" "(0xFF :: u16) = mask 8"
  by (simp_all add: mask_eq_exp_minus_1 push_bit_eq_mult)

lemma masked_byte_3: "(ucast (drop_bit 24 (d AND 0xFF000000)) :: u8) = ucast (drop_bit 24 (d :: u32))"
  unfolding byte_masks by (rule bit_word_eqI) (auto simp: bit_simps)

lemma masked_byte_2: "(ucast (drop_bit 16 (d AND 0x00FF0000)) :: u8) = ucast (drop_bit 16 (d :: u32))"
  unfolding byte_masks by (rule bit_word_eqI) (auto simp: bit_simps)

lemma masked_byte_1: "(ucast (drop_bit 8 (d AND 0x0000FF00)) :: u8) = ucast (drop_bit 8 (d :: u32))"
  unfolding byte_masks by (rule bit_word_eqI) (auto simp: bit_simps)

lemma masked_byte_0: "(ucast (d AND 0x000000FF) :: u8) = ucast (d :: u32)"
  unfolding byte_masks by (rule bit_word_eqI) (auto simp: bit_simps)

lemma masked_half_1: "(ucast (drop_bit 8 (d AND 0xFF00)) :: u8) = ucast (drop_bit 8 (d :: u16))"
  unfolding byte_masks by (rule bit_word_eqI) (auto simp: bit_simps)

lemma masked_half_0: "(ucast (d AND 0x00FF) :: u8) = ucast (d :: u16)"
  unfolding byte_masks by (rule bit_word_eqI) (auto simp: bit_simps)

lemma be32_eq:
  "be32 d = [ucast (drop_bit 24 d), ucast (drop_bit 16 d), ucast (drop_bit 8 d), ucast d]"
  by (simp add: be32_def masked_byte_3 masked_byte_2 masked_byte_1 masked_byte_0)

lemma be16_eq: "be16 d = [ucast (drop_bit 8 d), ucast d]"
  by (simp add: be16_def masked_half_1 masked_half_0)

lemma length_be32 [simp]: "length (be32 d) = 4"
  by (simp add: be32_eq)

lemma length_be16 [simp]: "length (be16 d) = 2"
  by (simp add: be16_eq)

lemma unat_un32 [bytes_eq]:
  "unat (un32 a b c d) = unat a * 16777216 + unat b * 65536 + unat c * 256 + unat d"
  using u8_bound [of a] u8_bound [of b] u8_bound [of c] u8_bound [of d]
  by (simp add: un32_def push_bit_eq_mult unat_word_ariths)

lemma unat_un16 [bytes_eq]: "unat (un16 a b) = unat a * 256 + unat b"
  using u8_bound [of a] u8_bound [of b]
  by (simp add: un16_def push_bit_eq_mult unat_word_ariths)

lemma unat_drop_bit_u32: "unat (drop_bit n (x :: u32)) = unat x div 2 ^ n"
  by (simp add: unat_drop_bit_eq drop_bit_nat_def)

lemma unat_drop_bit_u16: "unat (drop_bit n (x :: u16)) = unat x div 2 ^ n"
  by (simp add: unat_drop_bit_eq drop_bit_nat_def)

lemma numeral_bytes: "(2 :: nat) ^ 24 = 16777216" "(2 :: nat) ^ 16 = 65536" "(2 :: nat) ^ 8 = 256"
  by simp_all

text \<open>Base-256 digits of a number below \<open>2 ^ 32\<close>, and the number from its digits.\<close>

lemma digits_256:
  assumes "(n :: nat) < 4294967296"
  shows "n div 16777216 mod 256 * 16777216 + n div 65536 mod 256 * 65536 + n div 256 mod 256 * 256
    + n mod 256 = n"
proof -
  have s: "n div 65536 = n div 256 div 256" "n div 16777216 = n div 256 div 256 div 256"
    by (simp_all add: div_mult2_eq [symmetric])
  have "n div 256 div 256 div 256 < 256" using assms by (simp add: div_mult2_eq [symmetric])
  moreover have "n = n div 256 * 256 + n mod 256"
    "n div 256 = n div 256 div 256 * 256 + n div 256 mod 256"
    "n div 256 div 256 = n div 256 div 256 div 256 * 256 + n div 256 div 256 mod 256"
    by simp_all
  ultimately show ?thesis unfolding s by (simp only: mod_less)
qed

lemma digits_256_of:
  fixes a b c d :: nat
  assumes "a < 256" "b < 256" "c < 256" "d < 256"
  defines "n \<equiv> a * 16777216 + b * 65536 + c * 256 + d"
  shows "n div 16777216 mod 256 = a" "n div 65536 mod 256 = b" "n div 256 mod 256 = c"
    "n mod 256 = d"
proof -
  have n: "n = ((a * 256 + b) * 256 + c) * 256 + d" by (simp add: n_def)
  have s: "n div 65536 = n div 256 div 256" "n div 16777216 = n div 256 div 256 div 256"
    by (simp_all add: div_mult2_eq [symmetric])
  have 1: "n div 256 = (a * 256 + b) * 256 + c" unfolding n using assms by simp
  have 2: "n div 256 div 256 = a * 256 + b" unfolding 1 using assms by simp
  have 3: "n div 256 div 256 div 256 = a" unfolding 2 using assms by simp
  show "n div 16777216 mod 256 = a" unfolding s 3 using assms by simp
  show "n div 65536 mod 256 = b" unfolding s 2 using assms by simp
  show "n div 256 mod 256 = c" unfolding 1 using assms(3) by (metis mod_less mod_mult_self3)
  show "n mod 256 = d" unfolding n using assms(4) by (metis mod_less mod_mult_self3)
qed

lemma un32_be32 [simp]:
  "un32 (be32 d ! 0) (be32 d ! Suc 0) (be32 d ! 2) (be32 d ! 3) = d"
proof -
  have "unat (un32 (ucast (drop_bit 24 d)) (ucast (drop_bit 16 d)) (ucast (drop_bit 8 d)) (ucast d))
      = unat d"
    using digits_256 [OF u32_bound [of d]]
    by (simp only: unat_un32 unat_u8_of_u32 unat_drop_bit_u32 numeral_bytes)
  then show ?thesis by (simp add: be32_eq word_unat_eq_iff)
qed

lemma un16_be16 [simp]: "un16 (be16 d ! 0) (be16 d ! Suc 0) = d"
proof -
  have "unat (un16 (ucast (drop_bit 8 d)) (ucast d)) = unat d"
    using u16_bound [of d] by (simp only: unat_un16 unat_u8_of_u16 unat_drop_bit_u16) simp
  then show ?thesis by (simp add: be16_eq word_unat_eq_iff)
qed

lemma be32_un32 [simp]: "be32 (un32 a b c d) = [a, b, c, d]"
proof -
  have "unat (ucast (drop_bit 24 (un32 a b c d)) :: u8) = unat a"
    "unat (ucast (drop_bit 16 (un32 a b c d)) :: u8) = unat b"
    "unat (ucast (drop_bit 8 (un32 a b c d)) :: u8) = unat c"
    "unat (ucast (un32 a b c d) :: u8) = unat d"
    using digits_256_of [OF u8_bound [of a] u8_bound [of b] u8_bound [of c] u8_bound [of d]]
    by (simp_all only: unat_un32 unat_u8_of_u32 unat_drop_bit_u32) simp_all
  then show ?thesis by (simp add: be32_eq word_unat_eq_iff)
qed

lemma be32_split: "\<exists>a b c e. be32 d = [a, b, c, e] \<and> un32 a b c e = d"
  using un32_be32 [of d] by (simp add: be32_eq del: un32_be32)

lemma be16_split: "\<exists>a b. be16 d = [a, b] \<and> un16 a b = d"
  using un16_be16 [of d] by (simp add: be16_eq del: un16_be16)

lemma be32_inject: "be32 x = be32 y \<longleftrightarrow> x = y"
  by (metis un32_be32)

section \<open>Byte buffers\<close>

text \<open>Copying \<open>xs\<close> over the start of a fixed buffer, as \<open>memcpy\<close> does; the rest
  of the buffer keeps what it held.\<close>

definition copy_over :: "'a list \<Rightarrow> 'a list \<Rightarrow> 'a list" where
  "copy_over buf xs = xs @ drop (length xs) buf"

lemma length_copy_over [simp]: "length xs \<le> length buf \<Longrightarrow> length (copy_over buf xs) = length buf"
  by (simp add: copy_over_def)

lemma take_copy_over [simp]: "take (length xs) (copy_over buf xs) = xs"
  by (simp add: copy_over_def)

lemma nth_copy_over: "i < length xs \<Longrightarrow> copy_over buf xs ! i = xs ! i"
  by (simp add: copy_over_def nth_append)

text \<open>A memory of byte cells after the bytes \<open>xs\<close> are stored from \<open>a\<close> on.\<close>

definition store_bytes :: "(nat \<Rightarrow> u8) \<Rightarrow> nat \<Rightarrow> bytes \<Rightarrow> nat \<Rightarrow> u8" where
  "store_bytes m a xs = (\<lambda>c. if a \<le> c \<and> c < a + length xs then xs ! (c - a) else m c)"

lemma store_bytes_Nil [simp]: "store_bytes m a [] = m"
  by (rule ext) (auto simp: store_bytes_def)

lemma store_bytes_Cons: "store_bytes (m(a := x)) (Suc a) xs = store_bytes m a (x # xs)"
proof
  fix c
  have "Suc a \<le> c \<Longrightarrow> c - a = Suc (c - Suc a)" by simp
  then show "store_bytes (m(a := x)) (Suc a) xs c = store_bytes m a (x # xs) c"
    by (cases "c = a") (auto simp: store_bytes_def)
qed

lemma store_bytes_append:
  "store_bytes (store_bytes m a xs) (a + length xs) ys = store_bytes m a (xs @ ys)"
  by (rule ext) (auto simp: store_bytes_def nth_append)

text \<open>An indexed read that says when the index is outside the buffer.\<close>

definition rd :: "'a list \<Rightarrow> nat \<Rightarrow> fault + 'a" where
  "rd xs i = (if i < length xs then Inr (xs ! i) else Inl OutOfBounds)"

lemma rd_in [simp]: "i < length xs \<Longrightarrow> rd xs i = Inr (xs ! i)"
  by (simp add: rd_def)

lemma rd_out [simp]: "length xs \<le> i \<Longrightarrow> rd xs i = Inl OutOfBounds"
  by (simp add: rd_def)

end
