(* ===== verification/FP32.thy ===== *)
theory FP32
  imports Complex_Main Prelude "HOL-Library.Log_Nat"
begin

text \<open>
  The firmware's \<open>FP32\<close> and the double arithmetic its constants bring in, built with
  \<open>-msoft-float\<close>: IEEE 754 binary32 and binary64, round to nearest, ties to even.
  A finite float is the rational number it denotes and every operation is the
  exact result rounded, so the theory is executable. Angles, longitudes and
  powers never reach infinity or NaN, which are not represented; signed zeros
  are one number.

  \<open>fround\<close> is the rounding for a precision and a least exponent; \<open>f32\<close> and \<open>f64\<close>
  are its two instances. The main lemmas bound the rounding error.
\<close>

section \<open>Rounding\<close>

definition pow2i :: "int \<Rightarrow> rat" where
  "pow2i e = (if 0 \<le> e then 2 ^ nat e else 1 / 2 ^ nat (- e))"

text \<open>The integer nearest to a rational, ties to the even one.\<close>

definition round_even :: "rat \<Rightarrow> int" where
  "round_even x =
     (let f = \<lfloor>x\<rfloor>; r = x - of_int f
      in if r < 1 / 2 then f else if 1 / 2 < r then f + 1 else if even f then f else f + 1)"

text \<open>The exponent of the leading bit of a positive rational.\<close>

definition ilog2 :: "rat \<Rightarrow> int" where
  "ilog2 x =
     (let (n, d) = quotient_of x; k = int (floorlog 2 (nat n)) - int (floorlog 2 (nat d))
      in if pow2i k \<le> x then k else k - 1)"

definition fround :: "nat \<Rightarrow> int \<Rightarrow> rat \<Rightarrow> rat" where
  "fround p emin x =
     (if x = 0 then 0
      else let e = max emin (ilog2 \<bar>x\<bar> + 1 - int p)
           in of_int (round_even (x / pow2i e)) * pow2i e)"

abbreviation f32 :: "rat \<Rightarrow> rat" where "f32 \<equiv> fround 24 (-149)"
abbreviation f64 :: "rat \<Rightarrow> rat" where "f64 \<equiv> fround 53 (-1074)"

type_synonym fp32 = rat

section \<open>The operations the code uses\<close>

text \<open>\<open>(FP32)u\<close> of an unsigned and of a signed 32-bit integer.\<close>

definition fp_of_u32 :: "u32 \<Rightarrow> fp32" where
  "fp_of_u32 u = f32 (of_nat (unat u))"

definition fp_of_s32 :: "u32 \<Rightarrow> fp32" where
  "fp_of_s32 u = f32 (of_int (sint u))"

text \<open>\<open>x * 1000\<close>: the integer constant is converted to \<open>FP32\<close>, the product is a float.\<close>

definition fp_mul1000 :: "fp32 \<Rightarrow> fp32" where
  "fp_mul1000 x = f32 (x * 1000)"

text \<open>\<open>x / 1000\<close> is a float division; in \<open>x / 1000.0\<close> the constant is a double, so the
  division is a double one and the assignment rounds a second time.\<close>

definition fp_div1000 :: "fp32 \<Rightarrow> fp32" where
  "fp_div1000 x = f32 (x / 1000)"

definition fp_div1000d :: "fp32 \<Rightarrow> fp32" where
  "fp_div1000d x = f32 (f64 (x / 1000))"

text \<open>
  \<open>(INT32U)x\<close> and \<open>(INT32S)x\<close> truncate towards zero. Outside the target's range the
  conversion is undefined in C; the two functions saturate there, as the ARM run-time
  routines do, and theorems about them stay within the range.
\<close>

definition trunc_rat :: "rat \<Rightarrow> int" where
  "trunc_rat x = (if 0 \<le> x then \<lfloor>x\<rfloor> else - \<lfloor>- x\<rfloor>)"

definition fp_to_u32 :: "fp32 \<Rightarrow> u32" where
  "fp_to_u32 x = word_of_int (max 0 (min 4294967295 (trunc_rat x)))"

definition fp_to_s32 :: "fp32 \<Rightarrow> u32" where
  "fp_to_s32 x = word_of_int (max (-2147483648) (min 2147483647 (trunc_rat x)))"

text \<open>
  \<open>sqrt\<close> of a double. \<open>isqrt\<close> is the integer square root; the argument is scaled so that
  the root has at least 60 bits, and a last bit records whether it is exact, which is all
  that the rounding to 53 bits needs.
\<close>

function isqrt :: "nat \<Rightarrow> nat" where
  "isqrt n = (if n = 0 then 0
     else let r = 2 * isqrt (n div 4) in if (r + 1) * (r + 1) \<le> n then r + 1 else r)"
  by pat_completeness auto
termination
  by (relation "measure id") auto

definition f64_sqrt :: "rat \<Rightarrow> rat" where
  "f64_sqrt x =
     (if x \<le> 0 then 0
      else let k = 60 - ilog2 x div 2; y = x * pow2i (2 * k); q = isqrt (nat \<lfloor>y\<rfloor>)
      in f64 (of_nat (2 * q + (if of_nat (q * q) = y then 0 else 1)) * pow2i (- k - 1)))"

section \<open>Rounding error\<close>

lemma pow2i_pos [simp]: "0 < pow2i e"
  by (simp add: pow2i_def)

lemma pow2i_neq_0 [simp]: "pow2i e \<noteq> 0"
  by (metis less_irrefl pow2i_pos)

lemma pow2i_power_int: "pow2i e = 2 powi e"
  by (auto simp: pow2i_def power_int_def inverse_eq_divide power_one_over)

lemma pow2i_less_iff: "pow2i a < pow2i b \<longleftrightarrow> a < b"
  unfolding pow2i_power_int
  by (metis linorder_not_less one_less_numeral_iff order_less_imp_le power_int_increasing
      power_int_strict_increasing semiring_norm(76))

lemma pow2i_add: "pow2i (a + b) = pow2i a * pow2i b"
  by (simp add: pow2i_power_int power_int_add)

lemma round_even_error: "\<bar>of_int (round_even x) - x\<bar> \<le> 1 / 2"
proof -
  have "of_int \<lfloor>x\<rfloor> \<le> x" "x < of_int \<lfloor>x\<rfloor> + 1" by linarith+
  then show ?thesis by (auto simp: round_even_def Let_def abs_le_iff)
qed

lemma round_even_of_int [simp]: "round_even (of_int k) = k"
  by (simp add: round_even_def)

lemma pow2i_of_nat: "pow2i (int n) = 2 ^ n"
  by (simp add: pow2i_def)

lemma floorlog_pow2i:
  assumes "0 < n"
  shows "pow2i (int (floorlog 2 n) - 1) \<le> of_nat n" "of_nat n < pow2i (int (floorlog 2 n))"
proof -
  have f: "0 < floorlog 2 n" using assms by (simp add: floorlog_def)
  have b: "2 ^ (floorlog 2 n - 1) \<le> n" "n < 2 ^ floorlog 2 n"
    using floorlog_bounds [of n 2] assms by simp_all
  have "pow2i (int (floorlog 2 n) - 1) = 2 ^ (floorlog 2 n - 1)"
    using f pow2i_of_nat [of "floorlog 2 n - 1"] by (simp add: of_nat_diff)
  also have "\<dots> = of_nat (2 ^ (floorlog 2 n - 1))" by simp
  also have "\<dots> \<le> of_nat n" using b(1) by (simp only: of_nat_le_iff)
  finally show "pow2i (int (floorlog 2 n) - 1) \<le> of_nat n" .
  have "of_nat n < (of_nat (2 ^ floorlog 2 n) :: rat)" using b(2) by (simp only: of_nat_less_iff)
  then show "of_nat n < pow2i (int (floorlog 2 n))" by (simp add: pow2i_of_nat)
qed

lemma ilog2_bounds:
  assumes x: "0 < x"
  shows "pow2i (ilog2 x) \<le> x" "x < pow2i (ilog2 x + 1)"
proof -
  obtain n d where q: "quotient_of x = (n, d)" by (cases "quotient_of x")
  have d: "0 < d" using q by (rule quotient_of_denom_pos)
  have xnd: "x = of_int n / of_int d" using q by (rule quotient_of_div)
  with x d have n: "0 < n" by (simp add: zero_less_divide_iff)
  define a b where "a = int (floorlog 2 (nat n))" and "b = int (floorlog 2 (nat d))"
  have n2: "pow2i (a - 1) \<le> of_int n" "of_int n < pow2i a"
    using floorlog_pow2i [of "nat n"] n by (simp_all add: a_def)
  have d2: "pow2i (b - 1) \<le> of_int d" "of_int d < pow2i b"
    using floorlog_pow2i [of "nat d"] d by (simp_all add: b_def)
  have dp: "(0 :: rat) < of_int d" using d by simp
  have "pow2i (a - b - 1) * of_int d < pow2i (a - b - 1) * pow2i b"
    using d2 by simp
  also have "\<dots> = pow2i (a - 1)" by (simp add: pow2i_add [symmetric])
  also have "\<dots> \<le> of_int n" by (rule n2)
  finally have low: "pow2i (a - b - 1) \<le> x" using dp by (simp add: xnd pos_le_divide_eq)
  have "of_int n < pow2i a" by (rule n2)
  also have "pow2i a = pow2i (a - b + 1) * pow2i (b - 1)" by (simp add: pow2i_add [symmetric])
  also have "\<dots> \<le> pow2i (a - b + 1) * of_int d"
    by (rule mult_left_mono [OF d2(1)]) (simp add: less_imp_le)
  finally have high: "x < pow2i (a - b + 1)" using dp by (simp add: xnd pos_divide_less_eq)
  have i: "ilog2 x = (if pow2i (a - b) \<le> x then a - b else a - b - 1)"
    by (simp add: ilog2_def q a_def b_def)
  show "pow2i (ilog2 x) \<le> x" using low by (simp add: i)
  show "x < pow2i (ilog2 x + 1)" using high by (simp add: i)
qed

text \<open>Relative error: rounding moves a number that is not subnormal by at most its
  \<open>2 ^ p\<close>-th part.\<close>

lemma fround_error:
  assumes x: "pow2i (emin + int p - 1) \<le> \<bar>x\<bar>" and p: "0 < p"
  shows "\<bar>fround p emin x - x\<bar> \<le> \<bar>x\<bar> / 2 ^ p"
proof -
  have xp: "0 < \<bar>x\<bar>" using x pow2i_pos [of "emin + int p - 1"] by linarith
  define e where "e = ilog2 \<bar>x\<bar> + 1 - int p"
  have "pow2i (emin + int p - 1) < pow2i (ilog2 \<bar>x\<bar> + 1)"
    using x ilog2_bounds(2) [OF xp] by linarith
  then have "emin + int p - 1 < ilog2 \<bar>x\<bar> + 1"
    by (simp add: pow2i_less_iff)
  then have me: "max emin (ilog2 \<bar>x\<bar> + 1 - int p) = e" by (simp add: e_def)
  have fr: "fround p emin x = of_int (round_even (x / pow2i e)) * pow2i e"
    using xp by (simp add: fround_def me)
  have "\<bar>fround p emin x - x\<bar> = \<bar>(of_int (round_even (x / pow2i e)) - x / pow2i e) * pow2i e\<bar>"
    by (simp add: fr left_diff_distrib)
  also have "\<dots> = \<bar>of_int (round_even (x / pow2i e)) - x / pow2i e\<bar> * pow2i e"
    by (simp add: abs_mult less_imp_le)
  also have "\<dots> \<le> 1 / 2 * pow2i e"
    by (rule mult_right_mono [OF round_even_error]) (simp add: less_imp_le)
  also have "\<dots> = pow2i (ilog2 \<bar>x\<bar>) / 2 ^ p"
    using p by (simp add: e_def pow2i_power_int power_int_diff power_int_add)
  also have "\<dots> \<le> \<bar>x\<bar> / 2 ^ p"
    using ilog2_bounds(1) [OF xp] by (simp add: divide_right_mono)
  finally show ?thesis .
qed

lemma fround_0 [simp]: "fround p emin 0 = 0"
  by (simp add: fround_def)

text \<open>Integers below \<open>2 ^ p\<close> are exact.\<close>

lemma fround_int:
  assumes k: "\<bar>k\<bar> < 2 ^ p" and emin: "emin \<le> 0"
  shows "fround p emin (of_int k) = of_int k"
proof (cases "k = 0")
  case False
  then have kp: "0 < \<bar>of_int k :: rat\<bar>" by simp
  define e where "e = max emin (ilog2 \<bar>of_int k\<bar> + 1 - int p)"
  have "pow2i (ilog2 \<bar>of_int k\<bar>) \<le> \<bar>of_int k\<bar>" by (rule ilog2_bounds(1) [OF kp])
  also have "\<dots> < of_int (2 ^ p)" using k by (simp only: of_int_abs [symmetric] of_int_less_iff)
  also have "\<dots> = pow2i (int p)" by (simp add: pow2i_of_nat)
  finally have "ilog2 \<bar>of_int k\<bar> < int p"
    by (simp add: pow2i_less_iff)
  then have e: "e \<le> 0" using emin by (simp add: e_def)
  have "of_int k / pow2i e = of_int (k * 2 ^ nat (- e))"
    using e by (cases "e = 0") (simp_all add: pow2i_def)
  then have "of_int (round_even (of_int k / pow2i e)) = of_int k / pow2i e"
    by (simp del: of_int_mult)
  then show ?thesis using False by (simp add: fround_def Let_def e_def [symmetric])
qed simp

text \<open>Rounding keeps the sign of a number that is not below the least subnormal.\<close>

lemma round_even_mono1: "1 \<le> x \<Longrightarrow> 1 \<le> round_even x"
  by (simp add: round_even_def Let_def)

lemma round_even_nonneg: "0 \<le> x \<Longrightarrow> 0 \<le> round_even x"
  by (simp add: round_even_def Let_def)

lemma round_even_neg1: "x \<le> - 1 \<Longrightarrow> round_even x \<le> - 1"
  by (simp add: round_even_def Let_def) linarith

lemma round_even_nonpos: "x \<le> 0 \<Longrightarrow> round_even x \<le> 0"
  by (simp add: round_even_def Let_def)

lemma fround_nonneg: "0 \<le> x \<Longrightarrow> 0 \<le> fround p emin x"
  by (simp add: fround_def Let_def round_even_nonneg divide_nonneg_nonneg less_imp_le)

lemma fround_nonpos: "x \<le> 0 \<Longrightarrow> fround p emin x \<le> 0"
  by (simp add: fround_def Let_def round_even_nonpos divide_nonpos_pos mult_nonpos_nonneg less_imp_le)

lemma fround_neg:
  assumes "x \<le> - pow2i emin" "0 < p"
  shows "fround p emin x < 0"
proof -
  define e where "e = max emin (ilog2 \<bar>x\<bar> + 1 - int p)"
  have x: "0 < \<bar>x\<bar>" "x < 0" "pow2i emin \<le> \<bar>x\<bar>" using assms(1) pow2i_pos [of emin] by linarith+
  have "pow2i emin < pow2i (ilog2 \<bar>x\<bar> + 1)" using x(3) ilog2_bounds(2) [OF x(1)] by linarith
  then have "e \<le> ilog2 \<bar>x\<bar>" using assms(2) by (simp add: e_def pow2i_less_iff)
  then have "pow2i e \<le> pow2i (ilog2 \<bar>x\<bar>)" by (metis linorder_not_less pow2i_less_iff)
  also have "\<dots> \<le> \<bar>x\<bar>" by (rule ilog2_bounds(1) [OF x(1)])
  finally have "x / pow2i e \<le> - 1" using x(2) by (simp add: field_simps)
  then have "round_even (x / pow2i e) \<le> - 1" by (rule round_even_neg1)
  moreover have "fround p emin x = of_int (round_even (x / pow2i e)) * pow2i e"
    using x by (simp add: fround_def Let_def e_def)
  ultimately show ?thesis by (simp add: mult_neg_pos)
qed

text \<open>A number of the format is a multiple of its least subnormal.\<close>

lemma fround_grid: "\<exists>k :: int. fround p emin x = of_int k * pow2i emin"
proof (cases "x = 0")
  case False
  define e where "e = max emin (ilog2 \<bar>x\<bar> + 1 - int p)"
  have "pow2i e = of_int (2 ^ nat (e - emin)) * pow2i emin"
    using pow2i_add [of "e - emin" emin] by (simp add: e_def pow2i_def)
  then have "fround p emin x = of_int (round_even (x / pow2i e) * 2 ^ nat (e - emin)) * pow2i emin"
    using False by (simp add: fround_def e_def [symmetric])
  then show ?thesis by blast
qed (auto intro: exI [of _ 0])

text \<open>So the sign of the double difference of two floats is that of the exact one.\<close>

lemma f32_diff_sign: "0 \<le> f64 (f32 x - f32 y) \<longleftrightarrow> f32 y \<le> f32 x"
proof -
  obtain i j where ij: "f32 x = of_int i * pow2i (-149)" "f32 y = of_int j * pow2i (-149)"
    using fround_grid by metis
  show ?thesis
  proof (cases "f32 y \<le> f32 x")
    case True
    then show ?thesis using fround_nonneg [of "f32 x - f32 y"] by simp
  next
    case False
    then have "of_int i * pow2i (-149) < of_int j * pow2i (-149)" by (simp add: ij)
    then have "i + 1 \<le> j" by (simp add: mult_less_cancel_right_pos)
    then have "(of_int (i + 1) :: rat) \<le> of_int j" by (simp only: of_int_le_iff)
    then have "(of_int i - of_int j) * pow2i (-149) \<le> - 1 * pow2i (-149)"
      by (intro mult_right_mono) (simp_all add: less_imp_le)
    also have "\<dots> \<le> - pow2i (-1074)" by (simp add: pow2i_def)
    finally have "f32 x - f32 y \<le> - pow2i (-1074)" by (simp add: ij left_diff_distrib)
    from fround_neg [OF this, of 53] show ?thesis using False by (simp add: not_le)
  qed
qed

section \<open>Thousandths stored as floats\<close>

lemma f32_error: "1 / 1000 \<le> x \<Longrightarrow> \<bar>f32 x - x\<bar> \<le> x / 16777216"
  using fround_error [of "-149" 24 x] by (simp add: pow2i_def)

lemma f64_error: "1 / 1000 \<le> x \<Longrightarrow> \<bar>f64 x - x\<bar> \<le> x / 9007199254740992"
  using fround_error [of "-1074" 53 x] by (simp add: pow2i_def)

lemma f32_of_nat: "n < 16777216 \<Longrightarrow> f32 (of_nat n) = of_nat n"
  using fround_int [of "int n" 24 "-149"] by simp

lemma fp_of_u32_exact: "unat u < 16777216 \<Longrightarrow> fp_of_u32 u = of_nat (unat u)"
  unfolding fp_of_u32_def by (rule f32_of_nat)

lemma fp_to_u32_range:
  assumes "of_nat n \<le> y" "y < of_nat n + 1" "n < 4294967296"
  shows "fp_to_u32 y = of_nat n"
proof -
  have f: "\<lfloor>y\<rfloor> = int n" using assms(1,2) by (simp add: floor_eq_iff)
  have "0 \<le> y" using assms(1) by (meson of_nat_0_le_iff order_trans)
  with f assms(3) show ?thesis by (simp add: fp_to_u32_def trunc_rat_def)
qed

lemma fp_milli_cases:
  assumes k: "0 < k" "k < 4194304" and x: "\<bar>x - of_nat k / 1000\<bar> \<le> of_nat k / 1000 / 8388608"
  shows "fp_to_u32 (fp_mul1000 x) = of_nat k \<or> fp_to_u32 (fp_mul1000 x) = of_nat (k - 1)"
proof -
  define y where "y = fp_mul1000 x"
  have k1: "(1 :: rat) \<le> of_nat k" "of_nat k < (4194304 :: rat)" using k by simp_all
  have x1: "1 / 1000 \<le> x * 1000" using x k1 unfolding abs_le_iff by (simp add: field_simps)
  have "\<bar>y - x * 1000\<bar> \<le> x * 1000 / 16777216" unfolding y_def fp_mul1000_def by (rule f32_error [OF x1])
  then have "\<bar>y - of_nat k\<bar> < 1" using x k1 unfolding abs_le_iff abs_less_iff by (simp add: field_simps)
  then have y: "of_nat k - 1 < y" "y < of_nat k + 1" unfolding abs_less_iff by simp_all
  show ?thesis
  proof (cases "of_nat k \<le> y")
    case True
    then show ?thesis using fp_to_u32_range [of k y] y k by (simp add: y_def)
  next
    case False
    then show ?thesis using fp_to_u32_range [of "k - 1" y] y k by (simp add: y_def of_nat_diff)
  qed
qed

lemma fp_milli_stored:
  assumes "0 < unat u" "unat u < 4194304"
  shows "fp_to_u32 (fp_mul1000 (fp_div1000 (fp_of_u32 u))) \<in> {u, u - 1}"
proof -
  define k where "k = unat u"
  have k: "0 < k" "k < 4194304" using assms by (simp_all add: k_def)
  have u: "u = of_nat k" "u - 1 = of_nat (k - 1)" using k by (simp_all add: k_def of_nat_diff)
  have "\<bar>f32 (of_nat k / 1000) - of_nat k / 1000\<bar> \<le> of_nat k / 1000 / 16777216"
    using k by (intro f32_error) simp
  then have "\<bar>fp_div1000 (fp_of_u32 u) - of_nat k / 1000\<bar> \<le> of_nat k / 1000 / 8388608"
    using k by (simp add: fp_div1000_def fp_of_u32_exact k_def [symmetric])
  from fp_milli_cases [OF k this] show ?thesis by (simp only: u [symmetric] insert_iff) blast
qed

lemma fp_zero_stored [simp]: "fp_to_u32 (fp_mul1000 (fp_div1000 (fp_of_u32 0))) = 0"
  by (simp add: fp_of_u32_def fp_div1000_def fp_mul1000_def fp_to_u32_def trunc_rat_def)

text \<open>Evaluating a rounding: the integer significand and the exponent determine it.\<close>

lemma ilog2_eqI: "pow2i k \<le> x \<Longrightarrow> x < pow2i (k + 1) \<Longrightarrow> ilog2 x = k"
  using ilog2_bounds [of x] pow2i_less_iff [of k "ilog2 x + 1"] pow2i_less_iff [of "ilog2 x" "k + 1"]
    pow2i_pos [of k] by linarith

lemma round_even_eqI:
  assumes "\<bar>of_int m - x\<bar> < 1 / 2"
  shows "round_even x = m"
proof -
  have "\<bar>of_int (round_even x) - of_int m\<bar> < (1 :: rat)"
    using round_even_error [of x] assms by linarith
  then have "\<bar>round_even x - m\<bar> < 1" by (simp only: of_int_diff [symmetric] of_int_abs [symmetric] of_int_less_1_iff)
  then show ?thesis by simp
qed

lemma fround_eqI:
  assumes "pow2i (e + int p - 1) \<le> x" "x < pow2i (e + int p)" "emin \<le> e"
    "\<bar>of_int m - x / pow2i e\<bar> < 1 / 2"
  shows "fround p emin x = of_int m * pow2i e"
proof -
  have xp: "0 < x" using assms(1) pow2i_pos [of "e + int p - 1"] by linarith
  have "ilog2 \<bar>x\<bar> = e + int p - 1" using assms(1,2) xp by (intro ilog2_eqI) simp_all
  then show ?thesis using xp assms(3) round_even_eqI [OF assms(4)] by (simp add: fround_def)
qed

lemma fp_251: "fp_to_u32 (fp_mul1000 (fp_div1000 (fp_of_u32 251))) = 250"
proof -
  have 1: "fp_div1000 (fp_of_u32 251) = 8422162 * pow2i (-25)"
    using fround_eqI [of "-25" 24 "251 / 1000" "-149" 8422162]
    by (simp add: fp_of_u32_exact fp_div1000_def pow2i_def abs_less_iff)
  have 2: "fp_mul1000 (fp_div1000 (fp_of_u32 251)) = 16449535 * pow2i (-16)"
    unfolding 1 using fround_eqI [of "-16" 24 "8422162 * pow2i (-25) * 1000" "-149" 16449535]
    by (simp add: fp_mul1000_def pow2i_def abs_less_iff)
  show ?thesis unfolding 2 using fp_to_u32_range [of 250] by (simp add: pow2i_def)
qed

section \<open>Rounding is monotone\<close>

lemma round_even_le: "of_int (round_even x) \<le> (of_int \<lfloor>x\<rfloor> + 1 :: rat)" "\<lfloor>x\<rfloor> \<le> round_even x" "round_even x \<le> \<lfloor>x\<rfloor> + 1"
  by (simp_all add: round_even_def Let_def)

lemma round_even_mono: "x \<le> y \<Longrightarrow> round_even x \<le> round_even y"
proof -
  assume xy: "x \<le> y"
  show ?thesis
  proof (cases "\<lfloor>x\<rfloor> = \<lfloor>y\<rfloor>")
    case True
    then show ?thesis using xy by (auto simp: round_even_def Let_def)
  next
    case False
    then have "\<lfloor>x\<rfloor> + 1 \<le> \<lfloor>y\<rfloor>" using floor_mono [OF xy] by simp
    then show ?thesis using round_even_le(3) [of x] round_even_le(2) [of y] by simp
  qed
qed

lemma round_even_minus: "round_even (- x) = - round_even x"
proof (cases "x = of_int \<lfloor>x\<rfloor>")
  case True
  then have "- x = of_int (- \<lfloor>x\<rfloor>)" by simp
  then show ?thesis using True by (metis round_even_of_int)
next
  case False
  have b: "of_int \<lfloor>x\<rfloor> < x" "x < of_int \<lfloor>x\<rfloor> + 1" using False of_int_floor_le [of x] floor_correct [of x] by linarith+
  then have "\<lfloor>- x\<rfloor> = - \<lfloor>x\<rfloor> - 1" by (intro floor_unique) simp_all
  then show ?thesis by (simp add: round_even_def Let_def)
qed

lemma fround_minus: "fround p emin (- x) = - fround p emin x"
  by (simp add: fround_def Let_def round_even_minus)

lemma ilog2_mono: "0 < x \<Longrightarrow> x \<le> y \<Longrightarrow> ilog2 x \<le> ilog2 y"
proof -
  assume a: "0 < x" "x \<le> y"
  then have "pow2i (ilog2 x) < pow2i (ilog2 y + 1)"
    using ilog2_bounds(1) [of x] ilog2_bounds(2) [of y] by linarith
  then show ?thesis by (simp add: pow2i_less_iff)
qed

lemma pow2i_split: "0 \<le> k \<Longrightarrow> pow2i (e + k) = of_int (2 ^ nat k) * pow2i e"
  unfolding pow2i_add by (simp add: pow2i_def)

lemma fround_mono_pos:
  assumes "0 < x" "x \<le> y" "0 < p"
  shows "fround p emin x \<le> fround p emin y"
proof -
  define k l where "k = ilog2 x" and "l = ilog2 y"
  define d e where "d = max emin (k + 1 - int p)" and "e = max emin (l + 1 - int p)"
  have f: "fround p emin x = of_int (round_even (x / pow2i d)) * pow2i d"
    "fround p emin y = of_int (round_even (y / pow2i e)) * pow2i e"
    using assms by (simp_all add: fround_def Let_def d_def e_def k_def l_def)
  have kl: "k \<le> l" using ilog2_mono [OF assms(1,2)] by (simp add: k_def l_def)
  then have de: "d \<le> e" by (simp add: d_def e_def)
  show ?thesis
  proof (cases "d = e")
    case True
    have "x / pow2i e \<le> y / pow2i e" using assms(2) by (simp add: divide_right_mono less_imp_le)
    then show ?thesis using f True by (simp add: mult_right_mono round_even_mono less_imp_le)
  next
    case False
    then have e: "e = l + 1 - int p" "k < l" "0 \<le> l - d" "0 \<le> l - e" using de kl assms(3) by (auto simp: d_def e_def max_def split: if_splits)
    have "x < pow2i (k + 1)" "pow2i l \<le> y" using ilog2_bounds [of x] ilog2_bounds [of y] assms by (simp_all add: k_def l_def)
    moreover have "pow2i (k + 1) \<le> pow2i l" using e(2) pow2i_less_iff [of l "k + 1"] by linarith
    ultimately have xl: "x \<le> pow2i l" "pow2i l \<le> y" by simp_all
    have ld: "pow2i l = of_int (2 ^ nat (l - d)) * pow2i d" "pow2i l = of_int (2 ^ nat (l - e)) * pow2i e"
      using pow2i_split [OF e(3), of d] pow2i_split [OF e(4), of e] by simp_all
    have "x / pow2i d \<le> of_int (2 ^ nat (l - d))" using xl(1) ld(1) by (simp add: divide_le_eq)
    then have "round_even (x / pow2i d) \<le> 2 ^ nat (l - d)" using round_even_mono [of "x / pow2i d" "of_int (2 ^ nat (l - d))"] by (simp only: round_even_of_int)
    then have 1: "fround p emin x \<le> pow2i l"
      unfolding f(1) ld(1) by (intro mult_right_mono) (simp_all only: of_int_le_iff less_imp_le pow2i_pos)
    have "of_int (2 ^ nat (l - e)) \<le> y / pow2i e" using xl(2) ld(2) by (simp add: le_divide_eq)
    then have "2 ^ nat (l - e) \<le> round_even (y / pow2i e)" using round_even_mono [of "of_int (2 ^ nat (l - e))" "y / pow2i e"] by (simp only: round_even_of_int)
    then have "pow2i l \<le> fround p emin y"
      unfolding f(2) ld(2) by (intro mult_right_mono) (simp_all only: of_int_le_iff less_imp_le pow2i_pos)
    with 1 show ?thesis by simp
  qed
qed

lemma fround_mono:
  assumes "x \<le> y" "0 < p"
  shows "fround p emin x \<le> fround p emin y"
proof (cases "0 < x")
  case True
  then show ?thesis using fround_mono_pos assms by simp
next
  case False
  show ?thesis
  proof (cases "y < 0")
    case True
    then have "fround p emin (- y) \<le> fround p emin (- x)" using assms by (intro fround_mono_pos) simp_all
    then show ?thesis by (simp add: fround_minus)
  next
    case y: False
    then show ?thesis using fround_nonpos [of x] fround_nonneg [of y] False by (meson linorder_not_less order_trans)
  qed
qed

end
