(* ===== verification/DevDef.thy ===== *)
theory DevDef
  imports FP32
begin

text \<open>
  The data model of \<open>APP/inc/devdef.h\<close>: every structure of the antenna control
  unit's global state \<open>ACUDevInfo\<close> as a record. A field whose name several
  structures share carries a prefix for its structure (\<open>sat_lon\<close> is \<open>lon\<close> of
  \<open>strSatParam\<close>). Arrays are lists, of the length the header gives them in
  \<open>acu_wf\<close>; \<open>INT32S\<close> and \<open>INT8S\<close> fields are words read with \<open>sint\<close>.
  \<open>zero_strACUDevInfo\<close> is the global as C initialises it.
\<close>

section \<open>Constants\<close>

abbreviation (input) COMM_LINK :: u8 where "COMM_LINK \<equiv> 0"
abbreviation (input) COMM_UNLINK :: u8 where "COMM_UNLINK \<equiv> 1"
abbreviation (input) motor_position_id :: u8 where "motor_position_id \<equiv> 1"
abbreviation (input) motor_cabrage_id :: u8 where "motor_cabrage_id \<equiv> 2"
abbreviation (input) motor_polar_id :: u8 where "motor_polar_id \<equiv> 3"
abbreviation (input) ANTENNA_DIR_LEFT_DOWN_ANTICLOCK :: u8 where "ANTENNA_DIR_LEFT_DOWN_ANTICLOCK \<equiv> 1"
abbreviation (input) ANTENNA_DIR_RIGHT_UP_CLOCK :: u8 where "ANTENNA_DIR_RIGHT_UP_CLOCK \<equiv> 2"
abbreviation (input) SAT_MAX_NUM :: nat where "SAT_MAX_NUM \<equiv> 100"
abbreviation (input) ANTENNA_RECORD_MAX_NUM :: nat where "ANTENNA_RECORD_MAX_NUM \<equiv> 10"

section \<open>Structures\<close>

record strPCCommStat =
  pc_link_stat :: u8
  pc_comm_stat :: u8
  pc_mcu_busy :: u8
  pc_dst_IP_addr :: u32
  pc_dst_IP_port :: u32

record strPDUCommStat =
  pdu_link_stat :: u8
  pdu_comm_stat :: u8
  pdu_mcu_busy :: u8

record strNetWork =
  nw_ip_addr :: u32
  nw_mask :: u32
  nw_gate :: u32
  nw_mac :: "u8 list"
  nw_ip_port :: u32

record strBeaconConf =
  bc_comm_interface :: u8
  bc_comm_rate :: u32
  bc_lo_freq :: u32
  bc_work_freq :: u32
  bc_agc_output_range :: u8

record strBeaconStat =
  bs_link_stat :: u8
  bs_dev_stat :: u32
  bs_comm_stat :: u32

record strBeaconData =
  data_dbm :: u32
  data_mv :: u32

record strGPSConf =
  gpsc_comm_interface :: u8
  gpsc_comm_rate :: u32

record strGPSStat =
  gpss_link_stat :: u8
  gpss_dev_stat :: u32
  gpss_comm_stat :: u32

record strGPSData =
  gps_year :: u16
  gps_month :: u8
  gps_day :: u8
  gps_hour :: u8
  gps_min :: u8
  gps_sec :: u8
  gps_ms :: u16
  gps_lat_flag :: u8
  gps_lat :: u32
  gps_lon_flag :: u8
  gps_lon :: u32
  gps_height :: u32
  gps_valid :: u8

record strEleccoderConf =
  ec_comm_interface :: u8
  ec_comm_rate :: u32
  ec_addr :: u8
  ec_bit_num :: u8
  ec_count_mode :: u8

record strEleccoderStat =
  es_link_stat :: u8
  es_dev_stat :: u32
  es_comm_stat :: u32
  es_comm_idle :: u8

record strEleccoderData =
  ed_data :: u32
  ed_degree :: fp32

record strElecCoderMapAntenna =
  ElecCoder_count_mode :: u8
  ElecCoder_degree :: fp32
  Antenna_degree :: fp32

record strAntennaDirMapMotor =
  antenna_part :: u8
  motor_dir :: "u8 list"

record strBeaconInfo =
  BeaconConf :: strBeaconConf
  BeaconStat :: strBeaconStat
  BeaconData :: strBeaconData

record strGPSInfo =
  GPSConf :: strGPSConf
  GPSStat :: strGPSStat
  GPSData :: strGPSData

record strEleccoderInfo =
  EleccoderConf :: strEleccoderConf
  EleccoderStat :: strEleccoderStat
  EleccoderData :: strEleccoderData

record strEEPROMInfo =
  ee_total_size :: u32
  ee_link_stat :: u8
  ee_comm_stat :: u8

record strSPIFlashInfo =
  fl_total_size :: u32
  fl_sector_size :: u32
  fl_link_stat :: u8
  fl_comm_stat :: u8

record strBuzzerInfo =
  bz_buzzer_switch :: u8
  bz_on_off_status :: u8
  bz_flick_flag :: u8
  bz_beep_ms :: u16
  bz_period_ms :: u16
  bz_beep_cnt :: u32

record strSatParam =
  sat_id :: u8
  sat_name :: "u8 list"
  sat_lon_flag :: u8
  sat_lon :: fp32
  sat_freq :: u32
  sat_polar_type :: u8

record strLocalPositionParam =
  lp_lon_flag :: u8
  lp_lon :: fp32
  lp_lat_flag :: u8
  lp_lat :: fp32
  lp_height :: u32
  lp_valid_flag :: u8
  lp_data_src_flag :: u8

record strHandLocalPositionParam =
  hp_lon_flag :: u8
  hp_lon :: fp32
  hp_lat_flag :: u8
  hp_lat :: fp32
  hp_height :: u32
  hp_valid_flag :: u8

record strAntennaParam =
  ant_type :: u8
  ant_offset_angle :: u32
  ant_caliber :: u8
  ant_lo_freq :: u32
  ant_gain_range_flag :: u8
  ant_elec_coder_num :: u8
  motor_cabrage_start :: fp32
  motor_cabrage_end :: fp32
  motor_position_start :: fp32
  motor_position_end :: fp32
  motor_polar_start :: fp32
  motor_polar_end :: fp32
  aim_cabrage :: fp32
  aim_position :: fp32
  aim_polar :: fp32
  aim_cabrage_hand :: fp32
  aim_position_hand :: fp32
  aim_polar_hand :: fp32
  AntennaDirMapMotor :: "strAntennaDirMapMotor list"

record strDevAlarm =
  alarm_cnt :: u8
  alarm_refresh :: u8
  alarm_ptr :: "u32 list"

record strDevAdmin =
  adm_admin_sta :: u8
  adm_mode_sta :: u8
  adm_stop_flag :: u8
  adm_pc_admin_deal_sta :: u8
  adm_pc_admin_ip_addr :: u32
  adm_pc_admin_ask_ip_addr :: u32
  adm_pc_admin_link_cnt :: u32

record strAllElecCoderMapAntenna =
  ElecCoderMapAntenna :: "strElecCoderMapAntenna list"
  SatPolarType :: u8

record strSeekSatParam =
  SeekSat_Mode :: u8
  Urgent_Stop :: u8
  ScanRange_param :: "u8 list"
  AimAtSat_Limit_mv :: u32

record strLogInfo =
  li_log_sys_addr :: u32
  li_log_total_num :: u32
  li_currlog_addr :: u32
  li_currlog_size :: u32
  li_currlog_index :: u32
  li_beforelog_addr :: u32
  li_beforelog_index :: u32
  li_beforelog_size :: u32

record strDeviceInfo =
  dev_work_stat :: u8
  PCCommStat :: strPCCommStat
  PDUommStat :: strPDUCommStat
  NetWork :: strNetWork
  BeaconInfo :: strBeaconInfo
  GPSInfo :: strGPSInfo
  HandLocalPositionParam :: strHandLocalPositionParam
  EleccoderInfo :: "strEleccoderInfo list"
  EEPROMInfo :: strEEPROMInfo
  SPIFlashInfo :: strSPIFlashInfo
  BuzzerInfo :: strBuzzerInfo
  AllElecCoderMapAntenna :: strAllElecCoderMapAntenna

record strACUSeekSatParam =
  CurrSatParam :: strSatParam
  LocalPositionParam :: strLocalPositionParam
  AntennaParam :: strAntennaParam
  SeekSatParam :: strSeekSatParam

record strSATList =
  Sat_Total_num :: u16
  Sat_ID :: "u8 list"
  SatList_Refresh_flag :: u8

record strAntennaRecordList =
  record_Total_num :: u32
  record_ID :: "u8 list"

record strACUCurrSta =
  beacon_rxpower_db :: fp32
  beacon_rxpower_mv :: fp32
  history_max_mv :: fp32
  antenna_position :: fp32
  antenna_cabrage :: fp32
  antenna_polar :: fp32
  antenna_position_sta :: u8
  antenna_cabrage_sta :: u8
  antenna_polar_sta :: u8
  dev_admin_sta :: u8
  dev_move_sta :: u8
  dev_work_sta :: u8
  dev_alarm_flag :: u8
  dev_alarm_reflash_flag :: "u8 list"
  dev_alarm_buff :: "u8 list"
  dev_param_reflash_flag :: "u8 list"
  DevAdmin :: strDevAdmin
  DevAlarm :: strDevAlarm
  AGC_max_mv :: fp32
  motor_move :: "u8 list"
  motor_limit_sta :: "u8 list"
  temperature :: u32

record strVersion =
  ver_hardver :: "u8 list"
  ver_softver :: "u8 list"
  ver_datetime :: "u8 list"

record strSysDateTime =
  sdt_year :: u16
  sdt_month :: u8
  sdt_day :: u8
  sdt_hour :: u8
  sdt_min :: u8
  sdt_senc :: u8
  sdt_ms :: u16
  sdt_systick :: u32
  sdt_src_flag :: u32

record strACUDevInfo =
  DeviceInfo :: strDeviceInfo
  ACUParam :: strACUSeekSatParam
  SATList :: strSATList
  AntennaRecordList :: strAntennaRecordList
  ACUCurrSta :: strACUCurrSta
  SysDateTime :: strSysDateTime
  Version :: "strVersion list"

record strPCCOMMPro =
  pro_head :: u8
  pro_datalen :: u8
  pro_databuff :: "u8 list"
  pro_checksum :: u8
  pro_end :: u8
  pro_ip_addr :: u32
  pro_port :: u32

section \<open>The zero-initialised global\<close>

definition zero_strPCCommStat :: strPCCommStat where
  "zero_strPCCommStat =
   \<lparr>pc_link_stat = 0, pc_comm_stat = 0, pc_mcu_busy = 0,
    pc_dst_IP_addr = 0, pc_dst_IP_port = 0\<rparr>"

definition zero_strPDUCommStat :: strPDUCommStat where
  "zero_strPDUCommStat =
   \<lparr>pdu_link_stat = 0, pdu_comm_stat = 0, pdu_mcu_busy = 0\<rparr>"

definition zero_strNetWork :: strNetWork where
  "zero_strNetWork =
   \<lparr>nw_ip_addr = 0, nw_mask = 0, nw_gate = 0,
    nw_mac = replicate 6 0, nw_ip_port = 0\<rparr>"

definition zero_strBeaconConf :: strBeaconConf where
  "zero_strBeaconConf =
   \<lparr>bc_comm_interface = 0, bc_comm_rate = 0, bc_lo_freq = 0,
    bc_work_freq = 0, bc_agc_output_range = 0\<rparr>"

definition zero_strBeaconStat :: strBeaconStat where
  "zero_strBeaconStat =
   \<lparr>bs_link_stat = 0, bs_dev_stat = 0, bs_comm_stat = 0\<rparr>"

definition zero_strBeaconData :: strBeaconData where
  "zero_strBeaconData =
   \<lparr>data_dbm = 0, data_mv = 0\<rparr>"

definition zero_strGPSConf :: strGPSConf where
  "zero_strGPSConf =
   \<lparr>gpsc_comm_interface = 0, gpsc_comm_rate = 0\<rparr>"

definition zero_strGPSStat :: strGPSStat where
  "zero_strGPSStat =
   \<lparr>gpss_link_stat = 0, gpss_dev_stat = 0, gpss_comm_stat = 0\<rparr>"

definition zero_strGPSData :: strGPSData where
  "zero_strGPSData =
   \<lparr>gps_year = 0, gps_month = 0, gps_day = 0,
    gps_hour = 0, gps_min = 0, gps_sec = 0,
    gps_ms = 0, gps_lat_flag = 0, gps_lat = 0,
    gps_lon_flag = 0, gps_lon = 0, gps_height = 0,
    gps_valid = 0\<rparr>"

definition zero_strEleccoderConf :: strEleccoderConf where
  "zero_strEleccoderConf =
   \<lparr>ec_comm_interface = 0, ec_comm_rate = 0, ec_addr = 0,
    ec_bit_num = 0, ec_count_mode = 0\<rparr>"

definition zero_strEleccoderStat :: strEleccoderStat where
  "zero_strEleccoderStat =
   \<lparr>es_link_stat = 0, es_dev_stat = 0, es_comm_stat = 0,
    es_comm_idle = 0\<rparr>"

definition zero_strEleccoderData :: strEleccoderData where
  "zero_strEleccoderData =
   \<lparr>ed_data = 0, ed_degree = 0\<rparr>"

definition zero_strElecCoderMapAntenna :: strElecCoderMapAntenna where
  "zero_strElecCoderMapAntenna =
   \<lparr>ElecCoder_count_mode = 0, ElecCoder_degree = 0, Antenna_degree = 0\<rparr>"

definition zero_strAntennaDirMapMotor :: strAntennaDirMapMotor where
  "zero_strAntennaDirMapMotor =
   \<lparr>antenna_part = 0, motor_dir = replicate 2 0\<rparr>"

definition zero_strBeaconInfo :: strBeaconInfo where
  "zero_strBeaconInfo =
   \<lparr>BeaconConf = zero_strBeaconConf, BeaconStat = zero_strBeaconStat, BeaconData = zero_strBeaconData\<rparr>"

definition zero_strGPSInfo :: strGPSInfo where
  "zero_strGPSInfo =
   \<lparr>GPSConf = zero_strGPSConf, GPSStat = zero_strGPSStat, GPSData = zero_strGPSData\<rparr>"

definition zero_strEleccoderInfo :: strEleccoderInfo where
  "zero_strEleccoderInfo =
   \<lparr>EleccoderConf = zero_strEleccoderConf, EleccoderStat = zero_strEleccoderStat, EleccoderData = zero_strEleccoderData\<rparr>"

definition zero_strEEPROMInfo :: strEEPROMInfo where
  "zero_strEEPROMInfo =
   \<lparr>ee_total_size = 0, ee_link_stat = 0, ee_comm_stat = 0\<rparr>"

definition zero_strSPIFlashInfo :: strSPIFlashInfo where
  "zero_strSPIFlashInfo =
   \<lparr>fl_total_size = 0, fl_sector_size = 0, fl_link_stat = 0,
    fl_comm_stat = 0\<rparr>"

definition zero_strBuzzerInfo :: strBuzzerInfo where
  "zero_strBuzzerInfo =
   \<lparr>bz_buzzer_switch = 0, bz_on_off_status = 0, bz_flick_flag = 0,
    bz_beep_ms = 0, bz_period_ms = 0, bz_beep_cnt = 0\<rparr>"

definition zero_strSatParam :: strSatParam where
  "zero_strSatParam =
   \<lparr>sat_id = 0, sat_name = replicate 16 0, sat_lon_flag = 0,
    sat_lon = 0, sat_freq = 0, sat_polar_type = 0\<rparr>"

definition zero_strLocalPositionParam :: strLocalPositionParam where
  "zero_strLocalPositionParam =
   \<lparr>lp_lon_flag = 0, lp_lon = 0, lp_lat_flag = 0,
    lp_lat = 0, lp_height = 0, lp_valid_flag = 0,
    lp_data_src_flag = 0\<rparr>"

definition zero_strHandLocalPositionParam :: strHandLocalPositionParam where
  "zero_strHandLocalPositionParam =
   \<lparr>hp_lon_flag = 0, hp_lon = 0, hp_lat_flag = 0,
    hp_lat = 0, hp_height = 0, hp_valid_flag = 0\<rparr>"

definition zero_strAntennaParam :: strAntennaParam where
  "zero_strAntennaParam =
   \<lparr>ant_type = 0, ant_offset_angle = 0, ant_caliber = 0,
    ant_lo_freq = 0, ant_gain_range_flag = 0, ant_elec_coder_num = 0,
    motor_cabrage_start = 0, motor_cabrage_end = 0, motor_position_start = 0,
    motor_position_end = 0, motor_polar_start = 0, motor_polar_end = 0,
    aim_cabrage = 0, aim_position = 0, aim_polar = 0,
    aim_cabrage_hand = 0, aim_position_hand = 0, aim_polar_hand = 0,
    AntennaDirMapMotor = replicate 3 zero_strAntennaDirMapMotor\<rparr>"

definition zero_strDevAlarm :: strDevAlarm where
  "zero_strDevAlarm =
   \<lparr>alarm_cnt = 0, alarm_refresh = 0, alarm_ptr = replicate 0 0\<rparr>"

definition zero_strDevAdmin :: strDevAdmin where
  "zero_strDevAdmin =
   \<lparr>adm_admin_sta = 0, adm_mode_sta = 0, adm_stop_flag = 0,
    adm_pc_admin_deal_sta = 0, adm_pc_admin_ip_addr = 0, adm_pc_admin_ask_ip_addr = 0,
    adm_pc_admin_link_cnt = 0\<rparr>"

definition zero_strAllElecCoderMapAntenna :: strAllElecCoderMapAntenna where
  "zero_strAllElecCoderMapAntenna =
   \<lparr>ElecCoderMapAntenna = replicate 3 zero_strElecCoderMapAntenna, SatPolarType = 0\<rparr>"

definition zero_strSeekSatParam :: strSeekSatParam where
  "zero_strSeekSatParam =
   \<lparr>SeekSat_Mode = 0, Urgent_Stop = 0, ScanRange_param = replicate 3 0,
    AimAtSat_Limit_mv = 0\<rparr>"

definition zero_strDeviceInfo :: strDeviceInfo where
  "zero_strDeviceInfo =
   \<lparr>dev_work_stat = 0, PCCommStat = zero_strPCCommStat, PDUommStat = zero_strPDUCommStat,
    NetWork = zero_strNetWork, BeaconInfo = zero_strBeaconInfo, GPSInfo = zero_strGPSInfo,
    HandLocalPositionParam = zero_strHandLocalPositionParam, EleccoderInfo = replicate 3 zero_strEleccoderInfo, EEPROMInfo = zero_strEEPROMInfo,
    SPIFlashInfo = zero_strSPIFlashInfo, BuzzerInfo = zero_strBuzzerInfo, AllElecCoderMapAntenna = zero_strAllElecCoderMapAntenna\<rparr>"

definition zero_strACUSeekSatParam :: strACUSeekSatParam where
  "zero_strACUSeekSatParam =
   \<lparr>CurrSatParam = zero_strSatParam, LocalPositionParam = zero_strLocalPositionParam, AntennaParam = zero_strAntennaParam,
    SeekSatParam = zero_strSeekSatParam\<rparr>"

definition zero_strSATList :: strSATList where
  "zero_strSATList =
   \<lparr>Sat_Total_num = 0, Sat_ID = replicate 100 0, SatList_Refresh_flag = 0\<rparr>"

definition zero_strAntennaRecordList :: strAntennaRecordList where
  "zero_strAntennaRecordList =
   \<lparr>record_Total_num = 0, record_ID = replicate 10 0\<rparr>"

definition zero_strACUCurrSta :: strACUCurrSta where
  "zero_strACUCurrSta =
   \<lparr>beacon_rxpower_db = 0, beacon_rxpower_mv = 0, history_max_mv = 0,
    antenna_position = 0, antenna_cabrage = 0, antenna_polar = 0,
    antenna_position_sta = 0, antenna_cabrage_sta = 0, antenna_polar_sta = 0,
    dev_admin_sta = 0, dev_move_sta = 0, dev_work_sta = 0,
    dev_alarm_flag = 0, dev_alarm_reflash_flag = replicate 2 0, dev_alarm_buff = replicate 6 0,
    dev_param_reflash_flag = replicate 2 0, DevAdmin = zero_strDevAdmin, DevAlarm = zero_strDevAlarm,
    AGC_max_mv = 0, motor_move = replicate 3 0, motor_limit_sta = replicate 3 0,
    temperature = 0\<rparr>"

definition zero_strVersion :: strVersion where
  "zero_strVersion =
   \<lparr>ver_hardver = replicate 16 0, ver_softver = replicate 16 0, ver_datetime = replicate 6 0\<rparr>"

definition zero_strSysDateTime :: strSysDateTime where
  "zero_strSysDateTime =
   \<lparr>sdt_year = 0, sdt_month = 0, sdt_day = 0,
    sdt_hour = 0, sdt_min = 0, sdt_senc = 0,
    sdt_ms = 0, sdt_systick = 0, sdt_src_flag = 0\<rparr>"

definition zero_strACUDevInfo :: strACUDevInfo where
  "zero_strACUDevInfo =
   \<lparr>DeviceInfo = zero_strDeviceInfo, ACUParam = zero_strACUSeekSatParam, SATList = zero_strSATList,
    AntennaRecordList = zero_strAntennaRecordList, ACUCurrSta = zero_strACUCurrSta, SysDateTime = zero_strSysDateTime,
    Version = replicate 2 zero_strVersion\<rparr>"

text \<open>The lengths of the arrays inside the global.\<close>

definition acu_wf :: "strACUDevInfo \<Rightarrow> bool" where
  "acu_wf a \<longleftrightarrow>
     length (nw_mac (NetWork (DeviceInfo a))) = 6 \<and>
     length (EleccoderInfo (DeviceInfo a)) = 3 \<and>
     length (ElecCoderMapAntenna (AllElecCoderMapAntenna (DeviceInfo a))) = 3 \<and>
     length (AntennaDirMapMotor (AntennaParam (ACUParam a))) = 3 \<and>
     (\<forall>m \<in> set (AntennaDirMapMotor (AntennaParam (ACUParam a))). length (motor_dir m) = 2) \<and>
     length (ScanRange_param (SeekSatParam (ACUParam a))) = 3 \<and>
     length (sat_name (CurrSatParam (ACUParam a))) = 16 \<and>
     length (Sat_ID (SATList a)) = SAT_MAX_NUM \<and>
     length (record_ID (AntennaRecordList a)) = ANTENNA_RECORD_MAX_NUM \<and>
     length (motor_move (ACUCurrSta a)) = 3 \<and>
     length (Version a) = 2"

lemma zero_acu_wf: "acu_wf zero_strACUDevInfo"
  by (simp add: acu_wf_def zero_strACUDevInfo_def zero_strDeviceInfo_def zero_strNetWork_def
      zero_strAllElecCoderMapAntenna_def zero_strACUSeekSatParam_def zero_strAntennaParam_def
      zero_strAntennaDirMapMotor_def zero_strSeekSatParam_def zero_strSatParam_def
      zero_strSATList_def zero_strAntennaRecordList_def zero_strACUCurrSta_def)

end
