(* ===== verification/Tool.thy ===== *)
theory Tool
  imports DevDef
begin

text \<open>
  \<open>APP/src/app_tool.c\<close>: the 8-bit checksum every frame and log record carries, and
  the conversions between integers, dates and byte buffers. Reads go through \<open>rd\<close>, so
  a read outside the caller's buffer is the fault \<open>OutOfBounds\<close>.
\<close>

section \<open>Checksum\<close>

text \<open>\<open>while(len--) checksum += *buff++\<close>, with the pointer as the rest of the buffer.\<close>

fun checksum_loop :: "u8 \<Rightarrow> bytes \<Rightarrow> nat \<Rightarrow> fault + u8" where
  "checksum_loop checksum buff 0 = Inr checksum"
| "checksum_loop checksum [] (Suc len) = Inl OutOfBounds"
| "checksum_loop checksum (b # buff) (Suc len) = checksum_loop (checksum + b) buff len"

definition TOOL_CheckSum8BitGet :: "bytes \<Rightarrow> nat \<Rightarrow> fault + u8" where
  "TOOL_CheckSum8BitGet buff len = checksum_loop 0 buff len"

lemma checksum_loop_eq:
  "checksum_loop c buff len =
     (if len \<le> length buff then Inr (c + sum_list (take len buff)) else Inl OutOfBounds)"
  by (induction c buff len rule: checksum_loop.induct) (auto simp: add.assoc)

lemma TOOL_CheckSum8BitGet_eq:
  "TOOL_CheckSum8BitGet buff len =
     (if len \<le> length buff then Inr (sum_list (take len buff)) else Inl OutOfBounds)"
  by (simp add: TOOL_CheckSum8BitGet_def checksum_loop_eq)

lemma checksum_prefix [simp]: "TOOL_CheckSum8BitGet (xs @ ys) (length xs) = Inr (sum_list xs)"
  by (simp add: TOOL_CheckSum8BitGet_eq)

lemma checksum_whole [simp]: "TOOL_CheckSum8BitGet xs (length xs) = Inr (sum_list xs)"
  by (simp add: TOOL_CheckSum8BitGet_eq)

lemma sum_list_update_u8:
  "i < length xs \<Longrightarrow> sum_list (xs[i := v]) = sum_list xs - xs ! i + (v :: u8)"
  by (induction xs arbitrary: i) (auto split: nat.split)

section \<open>Integers to bytes\<close>

definition TOOL_INT32Data2Bytebuff :: "u32 \<Rightarrow> u8 \<Rightarrow> bytes" where
  "TOOL_INT32Data2Bytebuff data save_mode =
     (if save_mode \<noteq> 0 then
        [ucast (drop_bit 24 (data AND 0xFF000000)), ucast (drop_bit 16 (data AND 0x00FF0000)),
         ucast (drop_bit 8 (data AND 0x0000FF00)), ucast (data AND 0x000000FF)]
      else
        [ucast (data AND 0x000000FF), ucast (drop_bit 8 (data AND 0x0000FF00)),
         ucast (drop_bit 16 (data AND 0x00FF0000)), ucast (drop_bit 24 (data AND 0xFF000000))])"

definition TOOL_INT16Data2Bytebuff :: "u16 \<Rightarrow> u8 \<Rightarrow> bytes" where
  "TOOL_INT16Data2Bytebuff data save_mode =
     (if save_mode \<noteq> 0 then [ucast (drop_bit 8 (data AND 0xFF00)), ucast (data AND 0x00FF)]
      else [ucast (data AND 0x00FF), ucast (drop_bit 8 (data AND 0xFF00))])"

section \<open>Bytes to integers\<close>

text \<open>\<open>data = (data << 8) + buff[i]\<close> over a list of indices, in the loop's order.\<close>

fun shift_in :: "bytes \<Rightarrow> nat list \<Rightarrow> u32 \<Rightarrow> fault + u32" where
  "shift_in buff [] data = Inr data"
| "shift_in buff (i # is) data =
     bind_f (rd buff i) (\<lambda>b. shift_in buff is (push_bit 8 data + ucast b))"

text \<open>The big-endian loop is \<open>for(i=0;i<4;i++)\<close>, the little-endian one
  \<open>for(i=4;i!=0;i--)\<close>: it reads the indices 4 to 1.\<close>

definition TOOL_Bytebuff2INT32Data :: "bytes \<Rightarrow> u8 \<Rightarrow> fault + u32" where
  "TOOL_Bytebuff2INT32Data buff save_mode =
     (if save_mode \<noteq> 0 then shift_in buff [0, 1, 2, 3] 0 else shift_in buff [4, 3, 2, 1] 0)"

text \<open>The 16-bit reader's big-endian loop runs over four bytes as well.\<close>

definition TOOL_Bytebuff2INT16Data :: "bytes \<Rightarrow> u8 \<Rightarrow> fault + u16" where
  "TOOL_Bytebuff2INT16Data buff save_mode =
     bind_f (if save_mode \<noteq> 0 then shift_in buff [0, 1, 2, 3] 0 else shift_in buff [2, 1] 0)
       (\<lambda>d. Inr (ucast d))"

section \<open>Dates to bytes\<close>

definition TOOL_DateTime2Bytebuff :: "strSysDateTime \<Rightarrow> nat \<Rightarrow> bytes" where
  "TOOL_DateTime2Bytebuff t buff_len =
     (if buff_len > 6 then [ucast (drop_bit 8 (sdt_year t AND 0xFF00)), ucast (sdt_year t AND 0x00FF)]
      else [ucast (sdt_year t mod 100)])
     @ [sdt_month t, sdt_day t, sdt_hour t, sdt_min t, sdt_senc t]"

lemma length_DateTime2Bytebuff [simp]: "length (TOOL_DateTime2Bytebuff t 7) = 7"
  by (simp add: TOOL_DateTime2Bytebuff_def)

section \<open>Properties\<close>

lemma INT32Data2Bytebuff_be [simp]: "save_mode \<noteq> 0 \<Longrightarrow> TOOL_INT32Data2Bytebuff d save_mode = be32 d"
  by (simp add: TOOL_INT32Data2Bytebuff_def be32_def)

lemma INT32Data2Bytebuff_le: "TOOL_INT32Data2Bytebuff d 0 = rev (be32 d)"
  by (simp add: TOOL_INT32Data2Bytebuff_def be32_def)

lemma shift_in_four:
  "push_bit 8 (push_bit 8 (push_bit 8 (ucast a) + ucast b) + ucast c) + ucast e = un32 a b c e"
  by (simp add: un32_def push_bit_eq_mult algebra_simps)

lemma shift_in_4: "length buff > max i (max j (max k l)) \<Longrightarrow>
    shift_in buff [i, j, k, l] 0 = Inr (un32 (buff ! i) (buff ! j) (buff ! k) (buff ! l))"
  by (simp add: shift_in_four)

lemma Bytebuff2INT32Data_be:
  "save_mode \<noteq> 0 \<Longrightarrow> TOOL_Bytebuff2INT32Data (a # b # c # d # rest) save_mode = Inr (un32 a b c d)"
  by (simp add: TOOL_Bytebuff2INT32Data_def shift_in_four)

lemma Bytebuff2INT32Data_le:
  "TOOL_Bytebuff2INT32Data (a # b # c # d # e # rest) 0 = Inr (un32 e d c b)"
  by (simp add: TOOL_Bytebuff2INT32Data_def shift_in_four)

text \<open>A frame or record closed with its checksum and end byte, as several modules do.\<close>

definition sealed :: "bytes \<Rightarrow> fault + bytes" where
  "sealed buff = bind_f (TOOL_CheckSum8BitGet buff (length buff)) (\<lambda>checksum. Inr (buff @ [checksum, 0xCB]))"

lemma sealed_eq [simp]: "sealed buff = Inr (buff @ [sum_list buff, 0xCB])"
  by (simp add: sealed_def)

text \<open>what \<open>TOOL_INT32Data2Bytebuff\<close> stores big-endian, \<open>TOOL_Bytebuff2INT32Data\<close>
  reads back, whatever follows in the buffer.\<close>

theorem int32_be_roundtrip:
  "TOOL_Bytebuff2INT32Data (TOOL_INT32Data2Bytebuff d 1 @ rest) 1 = Inr d"
proof -
  obtain a b c e where "be32 d = [a, b, c, e]" "un32 a b c e = d" using be32_split by blast
  then show ?thesis by (simp add: Bytebuff2INT32Data_be)
qed

text \<open>The little-endian reader takes the bytes at 1 to 4 instead of 0 to 3. After a
  little-endian store it returns the stored value shifted down by a byte with the byte
  behind the field on top, and when the field ends the buffer it reads past the end.\<close>

theorem int32_le_reader_shifted:
  "TOOL_Bytebuff2INT32Data (TOOL_INT32Data2Bytebuff d 0 @ [b]) 0
     = Inr (push_bit 24 (ucast b) + drop_bit 8 d)
   \<and> TOOL_Bytebuff2INT32Data (TOOL_INT32Data2Bytebuff d 0) 0 = Inl OutOfBounds"
proof
  obtain x y z w where d: "be32 d = [x, y, z, w]" "un32 x y z w = d" using be32_split by blast
  have "unat d div 256 = unat x * 65536 + unat y * 256 + unat z"
    unfolding d(2) [symmetric] unat_un32 using u8_bound [of w] by simp
  moreover have "unat (un32 b x y z) = unat b * 16777216 + (unat x * 65536 + unat y * 256 + unat z)"
    by (simp add: unat_un32)
  moreover have "unat (push_bit 24 (ucast b) + drop_bit 8 d) = unat b * 16777216 + unat d div 256"
    using u8_bound [of b] u32_bound [of d]
    by (simp add: push_bit_eq_mult unat_word_ariths unat_drop_bit_u32 del: drop_bit_eq_div)
  ultimately have "un32 b x y z = push_bit 24 (ucast b) + drop_bit 8 d"
    by (simp add: word_unat_eq_iff)
  with d show "TOOL_Bytebuff2INT32Data (TOOL_INT32Data2Bytebuff d 0 @ [b]) 0
      = Inr (push_bit 24 (ucast b) + drop_bit 8 d)"
    by (simp add: INT32Data2Bytebuff_le Bytebuff2INT32Data_le)
  show "TOOL_Bytebuff2INT32Data (TOOL_INT32Data2Bytebuff d 0) 0 = Inl OutOfBounds"
    by (simp add: TOOL_Bytebuff2INT32Data_def INT32Data2Bytebuff_le)
qed

text \<open>The 16-bit big-endian reader runs its loop four times: the two bytes it is meant
  to read are shifted out of the 16-bit result.\<close>

lemma int16_be_reader_skips:
  "TOOL_Bytebuff2INT16Data (TOOL_INT16Data2Bytebuff d 1 @ [x, y]) 1 = Inr (un16 x y)"
proof -
  have "ucast (un32 a b x y) = un16 x y" for a b
  proof -
    have "unat (un32 a b x y) = (unat a * 256 + unat b) * 65536 + unat (un16 x y)"
      by (simp add: unat_un32 unat_un16)
    then have "unat (un32 a b x y) mod 65536 = unat (un16 x y)"
      using u16_bound [of "un16 x y"] by (metis mod_less mod_mult_self3)
    then show ?thesis by (simp add: word_unat_eq_iff unsigned_ucast_eq take_bit_eq_mod)
  qed
  then show ?thesis
    by (simp add: TOOL_Bytebuff2INT16Data_def TOOL_INT16Data2Bytebuff_def shift_in_four)
qed

text \<open>The checksum detects every change of a single byte among those it covers.\<close>

theorem checksum_detects_byte_change:
  assumes "len \<le> length buff" "i < len" "v \<noteq> buff ! i"
  shows "TOOL_CheckSum8BitGet (buff[i := v]) len \<noteq> TOOL_CheckSum8BitGet buff len"
proof -
  have "sum_list (take len (buff[i := v])) = sum_list (take len buff) - buff ! i + v"
    using assms by (simp add: take_update_swap sum_list_update_u8)
  also have "\<dots> \<noteq> sum_list (take len buff)" using assms(3) by (simp add: algebra_simps)
  finally show ?thesis using assms by (simp add: TOOL_CheckSum8BitGet_eq)
qed

theorem checksum_detects_byte_change_witness:
  "TOOL_CheckSum8BitGet ([0xBC, 3, 0x0C, 1, 0] [2 := 0x0D]) 5
     \<noteq> TOOL_CheckSum8BitGet [0xBC, 3, 0x0C, 1, 0] 5"
  by (rule checksum_detects_byte_change) simp_all

end
