(* ===== verification/Calendar.thy ===== *)
theory Calendar
  imports DevDef
begin

text \<open>
  \<open>DATETIME_RefreshBySec\<close> (\<open>APP/src/app_datetime.c\<close>), the once-a-second software
  clock, and \<open>APP_GPS_UTC2BeijingTime\<close> (\<open>APP/src/app_gps.c\<close>), the shift from the GPS
  receiver's UTC to local time. Both end with the same roll-over of day, month and
  year, \<open>date_rollover\<close>. The specification is the number of seconds since the
  start of year 0, \<open>abs_seconds\<close>.
\<close>

section \<open>The code\<close>

definition leap_year :: "u16 \<Rightarrow> bool" where
  "leap_year y \<longleftrightarrow> (0 = y mod 4 \<and> 0 \<noteq> y mod 100) \<or> 0 = y mod 400"

definition date_rollover :: "strSysDateTime \<Rightarrow> strSysDateTime" where
  "date_rollover t =
     (let next_month = t\<lparr>sdt_day := 1, sdt_month := sdt_month t + 1\<rparr>;
          t1 = (if sdt_month t = 1 \<or> sdt_month t = 3 \<or> sdt_month t = 5 \<or> sdt_month t = 7
                   \<or> sdt_month t = 8 \<or> sdt_month t = 10 \<or> sdt_month t = 12
                then (if sdt_day t > 31 then next_month else t)
                else if sdt_month t = 4 \<or> sdt_month t = 6 \<or> sdt_month t = 9 \<or> sdt_month t = 11
                then (if sdt_day t > 30 then next_month else t)
                else if sdt_month t = 2
                then (if leap_year (sdt_year t) then (if sdt_day t > 29 then next_month else t)
                      else (if sdt_day t > 28 then next_month else t))
                else t)
      in if sdt_month t1 > 12 then t1\<lparr>sdt_month := 1, sdt_year := sdt_year t1 + 1\<rparr> else t1)"

definition DATETIME_RefreshBySec :: "strSysDateTime \<Rightarrow> strSysDateTime" where
  "DATETIME_RefreshBySec t0 =
     (let t1 = t0\<lparr>sdt_senc := sdt_senc t0 + 1\<rparr>;
          t2 = (if sdt_senc t1 \<ge> 60 then t1\<lparr>sdt_senc := 0, sdt_min := sdt_min t1 + 1\<rparr> else t1);
          t3 = (if sdt_min t2 \<ge> 60 then t2\<lparr>sdt_min := 0, sdt_hour := sdt_hour t2 + 1\<rparr> else t2);
          t4 = (if sdt_hour t3 \<ge> 24 then t3\<lparr>sdt_hour := 0, sdt_day := sdt_day t3 + 1\<rparr> else t3)
      in date_rollover t4)"

definition APP_GPS_UTC2BeijingTime :: "strGPSData \<Rightarrow> strSysDateTime \<Rightarrow> strSysDateTime" where
  "APP_GPS_UTC2BeijingTime g s =
     (let t1 = s\<lparr>sdt_year := (if gps_year g > 100 then gps_year g else 2000 + gps_year g),
                 sdt_month := gps_month g, sdt_day := gps_day g, sdt_hour := gps_hour g + 8,
                 sdt_min := gps_min g, sdt_senc := gps_sec g, sdt_ms := gps_ms g\<rparr>;
          t2 = (if sdt_hour t1 \<ge> 24
                then t1\<lparr>sdt_hour := sdt_hour t1 - 24, sdt_day := sdt_day t1 + 1\<rparr> else t1)
      in date_rollover t2)"

section \<open>The calendar as a count of seconds\<close>

definition leap :: "nat \<Rightarrow> bool" where
  "leap y \<longleftrightarrow> (y mod 4 = 0 \<and> y mod 100 \<noteq> 0) \<or> y mod 400 = 0"

definition month_len :: "bool \<Rightarrow> nat \<Rightarrow> nat" where
  "month_len l m = (if m = 2 then (if l then 29 else 28) else if m \<in> {4, 6, 9, 11} then 30 else 31)"

primrec days_before_year :: "nat \<Rightarrow> nat" where
  "days_before_year 0 = 0"
| "days_before_year (Suc y) = days_before_year y + (if leap y then 366 else 365)"

definition days_before_month :: "bool \<Rightarrow> nat \<Rightarrow> nat" where
  "days_before_month l m = sum_list (map (month_len l) [1 ..< m])"

definition abs_day :: "strSysDateTime \<Rightarrow> nat" where
  "abs_day t = days_before_year (unat (sdt_year t))
     + days_before_month (leap (unat (sdt_year t))) (unat (sdt_month t)) + unat (sdt_day t)"

definition abs_seconds :: "strSysDateTime \<Rightarrow> nat" where
  "abs_seconds t = ((abs_day t * 24 + unat (sdt_hour t)) * 60 + unat (sdt_min t)) * 60 + unat (sdt_senc t)"

definition valid_date :: "strSysDateTime \<Rightarrow> bool" where
  "valid_date t \<longleftrightarrow> 1 \<le> unat (sdt_month t) \<and> unat (sdt_month t) \<le> 12 \<and> 1 \<le> unat (sdt_day t)
     \<and> unat (sdt_day t) \<le> month_len (leap (unat (sdt_year t))) (unat (sdt_month t))"

definition valid_time :: "strSysDateTime \<Rightarrow> bool" where
  "valid_time t \<longleftrightarrow> valid_date t \<and> sdt_hour t < 24 \<and> sdt_min t < 60 \<and> sdt_senc t < 60"

section \<open>Lemmas\<close>

lemma leap_year_leap: "leap_year y = leap (unat y)"
proof -
  have "unat (y mod 4) = unat y mod 4" "unat (y mod 100) = unat y mod 100"
    "unat (y mod 400) = unat y mod 400"
    by (simp_all add: unat_mod_distrib)
  then show ?thesis
    by (auto simp: leap_year_def leap_def word_unat_eq_iff)
qed

lemma month_cases:
  fixes m :: u8
  assumes "1 \<le> unat m" "unat m \<le> 12"
  shows "m = 1 \<or> m = 2 \<or> m = 3 \<or> m = 4 \<or> m = 5 \<or> m = 6 \<or> m = 7 \<or> m = 8 \<or> m = 9 \<or> m = 10
    \<or> m = 11 \<or> m = 12"
proof -
  have "unat m = 1 \<or> unat m = 2 \<or> unat m = 3 \<or> unat m = 4 \<or> unat m = 5 \<or> unat m = 6 \<or> unat m = 7
    \<or> unat m = 8 \<or> unat m = 9 \<or> unat m = 10 \<or> unat m = 11 \<or> unat m = 12"
    using assms by presburger
  then show ?thesis by (simp add: word_unat_eq_iff)
qed

lemmas month_sums = days_before_month_def month_len_def upt_conv_Cons

text \<open>One day past the end of a month is the first of the next one: the roll-over keeps
  the day number and restores validity.\<close>

lemma date_rollover_day:
  assumes m: "1 \<le> unat (sdt_month t)" "unat (sdt_month t) \<le> 12"
    and d: "1 \<le> unat (sdt_day t)"
      "unat (sdt_day t) \<le> month_len (leap (unat (sdt_year t))) (unat (sdt_month t)) + 1"
    and y: "unat (sdt_year t) < 65535"
  shows "abs_day (date_rollover t) = abs_day t \<and> valid_date (date_rollover t)"
proof -
  have y1: "unat (sdt_year t + 1) = Suc (unat (sdt_year t))"
    using y by (simp add: unat_word_ariths)
  show ?thesis
    using month_cases [OF m] d
    by (elim disjE)
      (auto simp: date_rollover_def leap_year_leap abs_day_def valid_date_def month_sums y1
        word_less_nat_alt Let_def split: if_splits)
qed

lemma date_rollover_frame [simp]:
  "sdt_hour (date_rollover t) = sdt_hour t" "sdt_min (date_rollover t) = sdt_min t"
  "sdt_senc (date_rollover t) = sdt_senc t"
  by (simp_all add: date_rollover_def Let_def)


text \<open>A time of day before the roll-over: the date may be one day past the month's end.\<close>

definition almost_valid :: "strSysDateTime \<Rightarrow> bool" where
  "almost_valid t \<longleftrightarrow> 1 \<le> unat (sdt_month t) \<and> unat (sdt_month t) \<le> 12 \<and> 1 \<le> unat (sdt_day t)
     \<and> unat (sdt_day t) \<le> month_len (leap (unat (sdt_year t))) (unat (sdt_month t)) + 1
     \<and> unat (sdt_year t) < 65535 \<and> sdt_hour t < 24 \<and> sdt_min t < 60"

lemma rollover_seconds:
  assumes "almost_valid t"
  shows "abs_seconds (date_rollover t) = abs_seconds t"
    "sdt_senc t < 60 \<Longrightarrow> valid_time (date_rollover t)"
  using assms date_rollover_day [of t]
  by (auto simp: almost_valid_def abs_seconds_def valid_time_def)

lemma month_len_u8: "month_len l m \<le> 31"
  by (simp add: month_len_def)

lemma next_day:
  fixes d :: u8
  assumes "unat d \<le> month_len l m"
  shows "unat (d + 1) = Suc (unat d)"
  using assms month_len_u8 [of l m] by (simp add: unat_word_ariths)

section \<open>Properties\<close>

text \<open>On a valid date and time before the year 65535, one call of
  \<open>DATETIME_RefreshBySec\<close> is exactly one second later in the Gregorian calendar,
  and the result is valid again.\<close>

theorem refresh_adds_one_second:
  assumes v: "valid_time t" and y: "unat (sdt_year t) < 65535"
  shows "abs_seconds (DATETIME_RefreshBySec t) = abs_seconds t + 1
    \<and> valid_time (DATETIME_RefreshBySec t)"
proof -
  have d: "unat (sdt_day t) \<le> month_len (leap (unat (sdt_year t))) (unat (sdt_month t))"
    and h: "unat (sdt_hour t) < 24" "unat (sdt_min t) < 60" "unat (sdt_senc t) < 60"
    using v by (simp_all add: valid_time_def valid_date_def word_less_nat_alt)
  have inc: "unat (sdt_hour t + 1) = Suc (unat (sdt_hour t))" "unat (sdt_min t + 1) = Suc (unat (sdt_min t))"
    "unat (sdt_senc t + 1) = Suc (unat (sdt_senc t))" "unat (sdt_day t + 1) = Suc (unat (sdt_day t))"
    using h next_day [OF d] by (simp_all add: unat_word_ariths)
  obtain t4 where t4: "DATETIME_RefreshBySec t = date_rollover t4" "almost_valid t4"
    "abs_seconds t4 = abs_seconds t + 1" "sdt_senc t4 < 60"
    using v y h inc
    by (simp add: DATETIME_RefreshBySec_def Let_def split: if_splits)
      (auto simp: almost_valid_def valid_time_def valid_date_def abs_seconds_def abs_day_def
        word_less_nat_alt word_le_nat_alt)
  then show ?thesis using rollover_seconds [OF t4(2)] by simp
qed

lemma refresh_witness_time:
  "valid_time (zero_strSysDateTime\<lparr>sdt_year := 2024, sdt_month := 2, sdt_day := 29, sdt_hour := 23,
     sdt_min := 59, sdt_senc := 59\<rparr>)"
  by (simp add: valid_time_def valid_date_def zero_strSysDateTime_def month_len_def leap_def)

theorem refresh_adds_one_second_witness:
  "abs_seconds (DATETIME_RefreshBySec (zero_strSysDateTime\<lparr>sdt_year := 2024, sdt_month := 2,
      sdt_day := 29, sdt_hour := 23, sdt_min := 59, sdt_senc := 59\<rparr>))
   = abs_seconds (zero_strSysDateTime\<lparr>sdt_year := 2024, sdt_month := 2,
      sdt_day := 29, sdt_hour := 23, sdt_min := 59, sdt_senc := 59\<rparr>) + 1"
  using refresh_adds_one_second [OF refresh_witness_time] by (simp add: zero_strSysDateTime_def)

text \<open>The receiver's UTC time read as a date and time of the panel.\<close>

definition gps_time :: "strGPSData \<Rightarrow> strSysDateTime \<Rightarrow> strSysDateTime" where
  "gps_time g s = s\<lparr>sdt_year := gps_year g, sdt_month := gps_month g, sdt_day := gps_day g,
     sdt_hour := gps_hour g, sdt_min := gps_min g, sdt_senc := gps_sec g, sdt_ms := gps_ms g\<rparr>"

lemma gps_time_sel [simp]:
  "sdt_year (gps_time g s) = gps_year g" "sdt_month (gps_time g s) = gps_month g"
  "sdt_day (gps_time g s) = gps_day g" "sdt_hour (gps_time g s) = gps_hour g"
  "sdt_min (gps_time g s) = gps_min g" "sdt_senc (gps_time g s) = gps_sec g"
  by (simp_all add: gps_time_def)

text \<open>\<open>APP_GPS_UTC2BeijingTime\<close> turns a valid UTC date and time of the receiver
  (with a four-digit year) into the local time eight hours later.\<close>

theorem utc_to_beijing_adds_eight_hours:
  assumes v: "valid_time (gps_time g s)" and y: "100 < gps_year g" "unat (gps_year g) < 65535"
  shows "abs_seconds (APP_GPS_UTC2BeijingTime g s) = abs_seconds (gps_time g s) + 8 * 3600
    \<and> valid_time (APP_GPS_UTC2BeijingTime g s)"
proof -
  have d: "unat (gps_day g) \<le> month_len (leap (unat (gps_year g))) (unat (gps_month g))"
    and h: "unat (gps_hour g) < 24" "unat (gps_min g) < 60" "unat (gps_sec g) < 60"
    using v by (simp_all add: valid_time_def valid_date_def word_less_nat_alt)
  have h8: "unat (gps_hour g + 8) = unat (gps_hour g) + 8"
    using h by (simp add: unat_word_ariths)
  have h24: "24 \<le> gps_hour g + 8 \<Longrightarrow> unat (gps_hour g + 8 - 24) = unat (gps_hour g) + 8 - 24"
    by (subst unat_sub) (simp_all add: h8)
  let ?t1 = "s\<lparr>sdt_year := gps_year g, sdt_month := gps_month g, sdt_day := gps_day g,
    sdt_hour := gps_hour g + 8, sdt_min := gps_min g, sdt_senc := gps_sec g, sdt_ms := gps_ms g\<rparr>"
  define t2 where "t2 = (if 24 \<le> gps_hour g + 8
    then ?t1\<lparr>sdt_hour := gps_hour g + 8 - 24, sdt_day := gps_day g + 1\<rparr> else ?t1)"
  have t2: "APP_GPS_UTC2BeijingTime g s = date_rollover t2"
    using y by (simp add: APP_GPS_UTC2BeijingTime_def Let_def t2_def)
  moreover have "almost_valid t2" "abs_seconds t2 = abs_seconds (gps_time g s) + 8 * 3600"
    "sdt_senc t2 < 60"
    using v y h h8 h24 next_day [OF d]
    by (auto simp: t2_def almost_valid_def valid_time_def valid_date_def abs_seconds_def abs_day_def
        word_less_nat_alt word_le_nat_alt)
  ultimately show ?thesis using rollover_seconds [of t2] by simp
qed

definition new_year_utc :: strGPSData where
  "new_year_utc = zero_strGPSData\<lparr>gps_year := 2023, gps_month := 12, gps_day := 31, gps_hour := 20\<rparr>"

theorem utc_to_beijing_witness:
  "abs_seconds (APP_GPS_UTC2BeijingTime new_year_utc zero_strSysDateTime)
   = abs_seconds (gps_time new_year_utc zero_strSysDateTime) + 8 * 3600"
proof -
  have "valid_time (gps_time new_year_utc zero_strSysDateTime)"
    by (simp add: valid_time_def valid_date_def new_year_utc_def zero_strGPSData_def month_len_def)
  then show ?thesis
    using utc_to_beijing_adds_eight_hours [of new_year_utc zero_strSysDateTime]
    by (simp add: new_year_utc_def zero_strGPSData_def)
qed

end
