(* ===== verification/Eeprom.thy ===== *)
theory Eeprom
  imports DevDef
begin

text \<open>
  \<open>HW/hw_eeprom.c\<close>: the AT24CM01 EEPROM behind the I2C peripheral and two DMA streams.

  The hardware is a parameter, the record \<open>eew\<close>: the cells of the chip, what a page
  write does to them (an arbitrary function), how many polls each busy loop needs, whether
  a device acknowledges, and the value a caller finds when a function has fallen off its
  end without a \<open>return\<close>. The stream positions advance with \<open>tick\<close>. A transfer that a DMA
  stream has begun is complete when the caller's delay of some milliseconds has passed
  (a byte takes 22.5 microseconds at 400 kHz).
\<close>

section \<open>The hardware\<close>

record eew =
  acu :: strACUDevInfo
  EEPROM_COMM_err_cnt :: u8
  chip_mem :: "nat \<Rightarrow> u8"
  chip_write :: "nat \<Rightarrow> (nat \<Rightarrow> u8) \<Rightarrow> nat \<Rightarrow> bytes \<Rightarrow> nat \<Rightarrow> u8"
  i2c_wait :: "nat \<Rightarrow> nat"
  i2c_ack :: "nat \<Rightarrow> bool"
  indet :: "nat \<Rightarrow> status"
  tick :: nat

text \<open>Bytes that a sequential read delivers; the address counter rolls over at the end
  of the 128 KiB.\<close>

definition chip_bytes :: "(nat \<Rightarrow> u8) \<Rightarrow> nat \<Rightarrow> nat \<Rightarrow> bytes" where
  "chip_bytes m a n = map (\<lambda>i. m ((a + i) mod 131072)) [0..<n]"

text \<open>Bit 1 of the device address is the upper address bit of the cell.\<close>

definition cell_of :: "u8 \<Rightarrow> u32 \<Rightarrow> nat" where
  "cell_of dev_addr addr =
     (if dev_addr AND 0x02 \<noteq> 0 then 65536 else 0) + unat (addr AND 0xFFFF)"

section \<open>Busy loops\<close>

abbreviation (input) sEE_PAGESIZE :: nat where "sEE_PAGESIZE \<equiv> 256"
abbreviation (input) sEEAddress :: u8 where "sEEAddress \<equiv> 0xA0"
abbreviation (input) sEE_FLAG_TIMEOUT :: u32 where "sEE_FLAG_TIMEOUT \<equiv> 0x1000"
abbreviation (input) sEE_LONG_TIMEOUT :: u32 where "sEE_LONG_TIMEOUT \<equiv> 0xA000"
abbreviation (input) sEE_MAX_TRIALS_NUMBER :: nat where "sEE_MAX_TRIALS_NUMBER \<equiv> 300"

text \<open>\<open>while(!flag) if((sEETimeout--) == 0) return FAIL;\<close> when the flag is set after
  \<open>n\<close> polls.\<close>

fun poll :: "u32 \<Rightarrow> nat \<Rightarrow> bool" where
  "poll sEETimeout 0 = True"
| "poll sEETimeout (Suc n) = (if sEETimeout = 0 then False else poll (sEETimeout - 1) n)"

lemma poll_iff: "poll t n \<longleftrightarrow> n \<le> unat t"
proof (induction t n rule: poll.induct)
  case (2 t n)
  show ?case
  proof (cases "t = 0")
    case False
    then have "unat t = Suc (unat (t - 1))"
      by (simp add: unat_minus_one unat_gt_0)
    then show ?thesis using 2 False by simp
  qed simp
qed simp

definition wait_flag :: "u32 \<Rightarrow> eew \<Rightarrow> bool \<times> eew" where
  "wait_flag limit w = (poll limit (i2c_wait w (tick w)), w\<lparr>tick := Suc (tick w)\<rparr>)"

fun wait_all :: "u32 list \<Rightarrow> eew \<Rightarrow> bool \<times> eew" where
  "wait_all [] w = (True, w)"
| "wait_all (l # ls) w = (case wait_flag l w of (ok, w1) \<Rightarrow> if ok then wait_all ls w1 else (False, w1))"

declare wait_all.simps [simp del]

section \<open>Reading\<close>

text \<open>The waits are for the bus, the start bit, the device address, the two address bytes
  and the repeated start; then, for a single byte, for the address bit, the byte and the
  stop bit, and otherwise for the receiver mode, after which the DMA stream is started.
  The result carries the bytes written to \<open>pBuffer\<close>.\<close>

definition HW_EEPROM_ReadBuffer :: "u32 \<Rightarrow> nat \<Rightarrow> eew \<Rightarrow> (status \<times> bytes) \<times> eew" where
  "HW_EEPROM_ReadBuffer ReadAddr NumByteToRead w =
     (let dev_addr = (if ReadAddr AND 0x10000 \<noteq> 0 then sEEAddress OR 0x02 else sEEAddress AND NOT 0x02);
          cell = cell_of dev_addr ReadAddr
      in case wait_all [sEE_FLAG_TIMEOUT, sEE_FLAG_TIMEOUT, sEE_FLAG_TIMEOUT, sEE_FLAG_TIMEOUT,
           sEE_FLAG_TIMEOUT, sEE_FLAG_TIMEOUT] w of (ok, w1) \<Rightarrow>
         if \<not> ok then ((FAIL, []), w1)
         else if NumByteToRead < 2 then
           (case wait_all [sEE_FLAG_TIMEOUT, sEE_FLAG_TIMEOUT] w1 of (ok, w2) \<Rightarrow>
              if \<not> ok then ((FAIL, []), w2)
              else (case wait_flag sEE_FLAG_TIMEOUT w2 of (ok, w3) \<Rightarrow>
                ((if ok then SUCC else FAIL, chip_bytes (chip_mem w2) cell 1), w3)))
         else
           (case wait_flag sEE_FLAG_TIMEOUT w1 of (ok, w2) \<Rightarrow>
              if ok then ((SUCC, chip_bytes (chip_mem w2) cell NumByteToRead), w2)
              else ((FAIL, []), w2)))"

section \<open>Writing\<close>

text \<open>One page write of \<open>*NumByteToWrite\<close> bytes. The code computes \<open>dev_addr\<close> with the
  upper address bit and then sends \<open>sEEAddress\<close> without it. A DMA stream with a count of
  zero transfers nothing.\<close>

definition HW_EEPROM_WritePage :: "u32 \<Rightarrow> bytes \<Rightarrow> u8 \<Rightarrow> eew \<Rightarrow> status \<times> eew" where
  "HW_EEPROM_WritePage WriteAddr pBuffer NumByteToWrite w =
     (case wait_all [sEE_LONG_TIMEOUT, sEE_FLAG_TIMEOUT, sEE_FLAG_TIMEOUT, sEE_FLAG_TIMEOUT,
          sEE_FLAG_TIMEOUT] w of (ok, w1) \<Rightarrow>
        if \<not> ok then (FAIL, w1)
        else if NumByteToWrite = 0 then (SUCC, w1)
        else (SUCC, w1\<lparr>chip_mem := chip_write w1 (tick w1) (chip_mem w1) (cell_of sEEAddress WriteAddr)
                (take (unat NumByteToWrite) pBuffer)\<rparr>))"

text \<open>The transfer-complete interrupt, from its flag and whether the byte-transfer-finished
  flag came in time: the new value of \<open>sEEDataNum\<close>.\<close>

definition HW_EEPROM_I2C_DMA_TX_IRQHandler :: "bool \<Rightarrow> bool \<Rightarrow> u8 \<Rightarrow> u8" where
  "HW_EEPROM_I2C_DMA_TX_IRQHandler tcif btf sEEDataNum = (if tcif \<and> btf then 0 else sEEDataNum)"

text \<open>\<open>while (sEEDataNum > 0)\<close>: what is left in \<open>sEEDataNum\<close> when the loop ends or times
  out. Without a started stream no interrupt comes.\<close>

definition wait_sent :: "status \<Rightarrow> u8 \<Rightarrow> eew \<Rightarrow> u8 \<times> eew" where
  "wait_sent started sEEDataNum w =
     (if sEEDataNum = 0 \<or> started = FAIL then (sEEDataNum, w)
      else case wait_flag sEE_LONG_TIMEOUT w of (irq, w1) \<Rightarrow>
        (case wait_flag sEE_LONG_TIMEOUT w1 of (btf, w2) \<Rightarrow>
           (if irq then HW_EEPROM_I2C_DMA_TX_IRQHandler True btf sEEDataNum else sEEDataNum, w2)))"

text \<open>Polling the chip until it acknowledges, \<open>trials\<close> more times after this one.\<close>

fun standby_loop :: "nat \<Rightarrow> eew \<Rightarrow> status \<times> eew" where
  "standby_loop trials w =
     (case wait_all [sEE_FLAG_TIMEOUT, sEE_LONG_TIMEOUT - 1] w of (ok, w1) \<Rightarrow>
        if \<not> ok then (FAIL, w1)
        else if i2c_ack w1 (tick w1) then (SUCC, w1)
        else (case trials of 0 \<Rightarrow> (FAIL, w1) | Suc n \<Rightarrow> standby_loop n w1))"

declare standby_loop.simps [simp del]

definition HW_EEPROM_WaitEepromStandbyState :: "eew \<Rightarrow> status \<times> eew" where
  "HW_EEPROM_WaitEepromStandbyState w =
     (case wait_flag sEE_LONG_TIMEOUT w of (ok, w1) \<Rightarrow>
        if \<not> ok then (FAIL, w1) else standby_loop sEE_MAX_TRIALS_NUMBER w1)"

text \<open>The block that \<open>HW_EEPROM_WriteBuffer\<close> repeats for every piece: load the counter,
  start the page write (its result is ignored), wait for the counter, wait for the chip
  (its result is ignored). \<open>False\<close> stands for the early \<open>return FAIL\<close>.\<close>

definition write_piece :: "u32 \<Rightarrow> bytes \<Rightarrow> u8 \<Rightarrow> eew \<Rightarrow> bool \<times> eew" where
  "write_piece WriteAddr pBuffer sEEDataNum w =
     (case HW_EEPROM_WritePage WriteAddr pBuffer sEEDataNum w of (started, w1) \<Rightarrow>
        case wait_sent started sEEDataNum w1 of (rest, w2) \<Rightarrow>
          if rest > 0 then (False, w2) else (True, snd (HW_EEPROM_WaitEepromStandbyState w2)))"

text \<open>\<open>while(NumOfPage--)\<close>: \<open>sEEDataNum = sEE_PAGESIZE\<close> stores 256 into an 8-bit counter.\<close>

fun write_pages :: "nat \<Rightarrow> u32 \<Rightarrow> bytes \<Rightarrow> eew \<Rightarrow> (bool \<times> u32 \<times> bytes) \<times> eew" where
  "write_pages 0 WriteAddr pBuffer w = ((True, WriteAddr, pBuffer), w)"
| "write_pages (Suc NumOfPage) WriteAddr pBuffer w =
     (case write_piece WriteAddr pBuffer (of_nat sEE_PAGESIZE) w of (ok, w1) \<Rightarrow>
        if ok then write_pages NumOfPage (WriteAddr + of_nat sEE_PAGESIZE) (drop sEE_PAGESIZE pBuffer) w1
        else ((False, WriteAddr, pBuffer), w1))"

text \<open>\<open>Some FAIL\<close> is the early return; \<open>None\<close> is the end of the function, which has no
  \<open>return\<close> statement.\<close>

definition ends :: "bool \<times> eew \<Rightarrow> status option \<times> eew" where
  "ends r = (if fst r then None else Some FAIL, snd r)"

definition pages_then_rest :: "u8 \<Rightarrow> u8 \<Rightarrow> u32 \<Rightarrow> bytes \<Rightarrow> eew \<Rightarrow> status option \<times> eew" where
  "pages_then_rest NumOfPage NumOfSingle WriteAddr pBuffer w =
     (case write_pages (unat NumOfPage) WriteAddr pBuffer w of ((ok, WriteAddr', pBuffer'), w1) \<Rightarrow>
        if \<not> ok then (Some FAIL, w1)
        else if NumOfSingle \<noteq> 0 then ends (write_piece WriteAddr' pBuffer' NumOfSingle w1)
        else (None, w1))"

definition HW_EEPROM_WriteBuffer :: "u32 \<Rightarrow> bytes \<Rightarrow> nat \<Rightarrow> eew \<Rightarrow> status option \<times> eew" where
  "HW_EEPROM_WriteBuffer WriteAddr pBuffer NumByteToWrite w =
     (let Addr = unat WriteAddr mod sEE_PAGESIZE;
          count = (of_nat (sEE_PAGESIZE - Addr) :: u8);
          NumOfPage = (of_nat (NumByteToWrite div sEE_PAGESIZE) :: u8);
          NumOfSingle = (of_nat (NumByteToWrite mod sEE_PAGESIZE) :: u8)
      in if Addr = 0 then
           (if NumOfPage = 0 then ends (write_piece WriteAddr pBuffer NumOfSingle w)
            else pages_then_rest NumOfPage NumOfSingle WriteAddr pBuffer w)
         else if NumOfPage = 0 then
           (if NumByteToWrite > unat count then
              (case write_piece WriteAddr pBuffer count w of (ok, w1) \<Rightarrow>
                 if \<not> ok then (Some FAIL, w1)
                 else ends (write_piece (WriteAddr + ucast count) (drop (unat count) pBuffer)
                        (of_nat (NumByteToWrite - unat count)) w1))
            else ends (write_piece WriteAddr pBuffer NumOfSingle w))
         else
           (let rest = NumByteToWrite - unat count;
                NumOfPage' = (of_nat (rest div sEE_PAGESIZE) :: u8);
                NumOfSingle' = (of_nat (rest mod sEE_PAGESIZE) :: u8)
            in if count \<noteq> 0 then
                 (case write_piece WriteAddr pBuffer count w of (ok, w1) \<Rightarrow>
                    if \<not> ok then (Some FAIL, w1)
                    else pages_then_rest NumOfPage' NumOfSingle' (WriteAddr + ucast count)
                           (drop (unat count) pBuffer) w1)
               else pages_then_rest NumOfPage' NumOfSingle' WriteAddr pBuffer w))"


section \<open>What the hardware documents\<close>

text \<open>A page write stores the bytes one by one; its address counter stays in the page.\<close>

fun page_write :: "(nat \<Rightarrow> u8) \<Rightarrow> nat \<Rightarrow> bytes \<Rightarrow> nat \<Rightarrow> u8" where
  "page_write m a [] = m"
| "page_write m a (x # xs) =
     page_write (m(a := x)) (a div sEE_PAGESIZE * sEE_PAGESIZE + (a + 1) mod sEE_PAGESIZE) xs"

definition at24cm01 :: "eew \<Rightarrow> bool" where
  "at24cm01 w \<longleftrightarrow> (\<forall>t m a xs. chip_write w t m a xs = page_write m a xs)"

text \<open>A bus without timeouts, a chip that acknowledges, and a return register that does not
  happen to hold \<open>FAIL\<close> where a function forgets to return.\<close>

definition bus_ok :: "eew \<Rightarrow> bool" where
  "bus_ok w \<longleftrightarrow> (\<forall>i. i2c_wait w i \<le> 4096 \<and> i2c_ack w i \<and> indet w i = SUCC)"

lemma env_update [simp]:
  "bus_ok (w\<lparr>tick := t\<rparr>) = bus_ok w" "bus_ok (w\<lparr>chip_mem := m\<rparr>) = bus_ok w"
  "bus_ok (w\<lparr>acu := d\<rparr>) = bus_ok w" "bus_ok (w\<lparr>EEPROM_COMM_err_cnt := c\<rparr>) = bus_ok w"
  "at24cm01 (w\<lparr>tick := t\<rparr>) = at24cm01 w" "at24cm01 (w\<lparr>chip_mem := m\<rparr>) = at24cm01 w"
  "at24cm01 (w\<lparr>acu := d\<rparr>) = at24cm01 w" "at24cm01 (w\<lparr>EEPROM_COMM_err_cnt := c\<rparr>) = at24cm01 w"
  by (simp_all add: bus_ok_def at24cm01_def)

section \<open>Cells\<close>

lemma page_write_store:
  "a mod 256 + length xs \<le> 256 \<Longrightarrow> page_write m a xs = store_bytes m a xs"
proof (induction m a xs rule: page_write.induct)
  case (2 m a x xs)
  show ?case
  proof (cases xs)
    case Nil
    then show ?thesis using store_bytes_Cons [of m a x "[]"] by simp
  next
    case (Cons y ys)
    then have "a mod 256 + 1 < 256" using 2(2) by simp
    then have n: "(a + 1) mod 256 = a mod 256 + 1" by (simp add: mod_Suc)
    then have "a div 256 * 256 + (a + 1) mod 256 = Suc a" by simp
    then show ?thesis using 2 n by (simp add: store_bytes_Cons del: fun_upd_apply)
  qed
qed simp

lemma length_chip_bytes [simp]: "length (chip_bytes m a n) = n"
  by (simp add: chip_bytes_def)

lemma chip_bytes_store:
  assumes "a + length xs \<le> 131072"
  shows "chip_bytes (store_bytes m a xs) a (length xs) = xs"
  using assms by (intro nth_equalityI) (auto simp: chip_bytes_def store_bytes_def)

lemma chip_bytes_store_other:
  assumes "b + n \<le> a \<or> a + length xs \<le> b" "b + n \<le> 131072"
  shows "chip_bytes (store_bytes m a xs) b n = chip_bytes m b n"
  using assms by (auto simp: chip_bytes_def store_bytes_def)

lemma unat_and_0xFFFF: "unat (addr AND 0xFFFF) = unat (addr :: u32) mod 65536"
proof -
  have "(0xFFFF :: u32) = mask 16" by (simp add: mask_eq_exp_minus_1)
  then have "addr AND 0xFFFF = take_bit 16 addr" by (simp add: take_bit_eq_mask)
  then show ?thesis by (simp add: unsigned_take_bit_eq take_bit_eq_mod unat_mod_distrib)
qed

lemma cell_write [simp]: "cell_of 0xA0 addr = unat addr mod 65536"
  and cell_upper [simp]: "cell_of 0xA2 addr = 65536 + unat addr mod 65536"
  by (simp_all add: cell_of_def unat_and_0xFFFF)

section \<open>What the routines change\<close>

text \<open>Reads only consume waits; writes also change cells. Nothing else is touched.\<close>

definition reads :: "eew \<Rightarrow> eew \<Rightarrow> bool" where
  "reads w w' \<longleftrightarrow> (\<exists>t. w' = w\<lparr>tick := t\<rparr>)"

definition writes :: "eew \<Rightarrow> eew \<Rightarrow> bool" where
  "writes w w' \<longleftrightarrow> (\<exists>m t. w' = w\<lparr>chip_mem := m, tick := t\<rparr>)"

lemma reads_tick [simp, intro]: "reads w w" "reads w (w\<lparr>tick := t\<rparr>)"
  unfolding reads_def by (rule exI [of _ "tick w"], simp) blast

lemma writes_tick [simp, intro]: "writes w w" "writes w (w\<lparr>tick := t\<rparr>)" "writes w (w\<lparr>chip_mem := m\<rparr>)"
  unfolding writes_def
  by (rule exI [of _ "chip_mem w"], rule exI [of _ "tick w"], simp,
      rule exI [of _ "chip_mem w"], rule exI [of _ t], simp,
      rule exI [of _ m], rule exI [of _ "tick w"], simp)

lemma reads_trans [trans]: "reads a b \<Longrightarrow> reads b c \<Longrightarrow> reads a c"
  by (auto simp: reads_def)

lemma writes_trans [trans]: "writes a b \<Longrightarrow> writes b c \<Longrightarrow> writes a c"
  by (auto simp: writes_def) blast

lemma reads_writes: "reads a b \<Longrightarrow> writes a b"
  by (auto simp: reads_def)

lemma reads_cells: "reads w w' \<Longrightarrow> chip_mem w' = chip_mem w"
  by (auto simp: reads_def)

lemma wait_all_reads: "reads w (snd (wait_all ls w))"
proof (induction ls arbitrary: w)
  case (Cons l ls)
  show ?case
    using Cons [of "w\<lparr>tick := Suc (tick w)\<rparr>"] by (auto simp: wait_flag_def reads_def wait_all.simps)
qed (simp add: wait_all.simps)

lemma wait_flag_reads: "reads w (snd (wait_flag l w))"
  by (simp add: wait_flag_def)

text \<open>Rewriting with these turns a run into its value and an unknown intermediate state.\<close>

lemma wait_all_cases: obtains ok w1 where "wait_all ls w = (ok, w1)" "reads w w1"
  using wait_all_reads [of w ls] by (cases "wait_all ls w") auto

lemma wait_flag_cases: obtains ok w1 where "wait_flag l w = (ok, w1)" "reads w w1"
  using wait_flag_reads [of w l] by (cases "wait_flag l w") auto

lemma ReadBuffer_reads:
  assumes "HW_EEPROM_ReadBuffer addr n w = ((r, got), w')"
  shows "reads w w'"
    and "r = SUCC \<Longrightarrow> got = chip_bytes (chip_mem w)
      (cell_of (if addr AND 0x10000 \<noteq> 0 then 0xA2 else 0xA0) addr) (max 1 n)"
    and "length got \<le> max 1 n"
proof -
  obtain ok1 w1 where 1: "wait_all [0x1000, 0x1000, 0x1000, 0x1000, 0x1000, 0x1000] w = (ok1, w1)"
    "reads w w1" by (rule wait_all_cases)
  obtain ok2 w2 where 2: "wait_all [0x1000, 0x1000] w1 = (ok2, w2)" "reads w1 w2"
    by (rule wait_all_cases)
  obtain ok3 w3 where 3: "wait_flag 0x1000 w2 = (ok3, w3)" "reads w2 w3" by (rule wait_flag_cases)
  obtain ok4 w4 where 4: "wait_flag 0x1000 w1 = (ok4, w4)" "reads w1 w4" by (rule wait_flag_cases)
  have m: "chip_mem w2 = chip_mem w" "chip_mem w4 = chip_mem w"
    using 1(2) 2(2) 4(2) by (simp_all add: reads_cells)
  have dev: "(0xA0 OR 2 :: u8) = 0xA2" "(0xA0 AND NOT 2 :: u8) = 0xA0" by simp_all
  have "reads w w2" "reads w w3" "reads w w4"
    using 1(2) 2(2) 3(2) 4(2) reads_trans by blast+
  then show "reads w w'"
    using assms 1(2)
    by (auto simp: HW_EEPROM_ReadBuffer_def 1(1) 2(1) 3(1) 4(1) Let_def split: if_splits)
  have mx: "max 1 n = (if n < 2 then 1 else n)" by auto
  show "r = SUCC \<Longrightarrow> got = chip_bytes (chip_mem w)
      (cell_of (if addr AND 0x10000 \<noteq> 0 then 0xA2 else 0xA0) addr) (max 1 n)"
    and "length got \<le> max 1 n"
    using assms unfolding mx
    by (auto simp: HW_EEPROM_ReadBuffer_def 1(1) 2(1) 3(1) 4(1) m dev Let_def split: if_splits)
qed

lemma WritePage_writes: "writes w (snd (HW_EEPROM_WritePage addr buf n w))"
proof -
  obtain ok w1 where 1: "wait_all [0xA000, 0x1000, 0x1000, 0x1000, 0x1000] w = (ok, w1)" "reads w w1"
    by (rule wait_all_cases)
  have "writes w (w1\<lparr>chip_mem := m\<rparr>)" for m
    using reads_writes [OF 1(2)] by (rule writes_trans) simp
  then show ?thesis using reads_writes [OF 1(2)] by (simp add: HW_EEPROM_WritePage_def 1(1))
qed

lemma wait_sent_reads: "reads w (snd (wait_sent started n w))"
proof -
  obtain ok1 w1 where 1: "wait_flag 0xA000 w = (ok1, w1)" "reads w w1" by (rule wait_flag_cases)
  obtain ok2 w2 where 2: "wait_flag 0xA000 w1 = (ok2, w2)" "reads w1 w2" by (rule wait_flag_cases)
  show ?thesis using reads_trans [OF 1(2) 2(2)] by (simp add: wait_sent_def 1(1) 2(1))
qed

lemma standby_loop_reads: "reads w (snd (standby_loop n w))"
proof (induction n w rule: standby_loop.induct)
  case (1 n w)
  obtain ok w1 where w1: "wait_all [0x1000, 0x9FFF] w = (ok, w1)" "reads w w1"
    by (rule wait_all_cases)
  then show ?case
    using 1 reads_trans [OF w1(2)]
    by (subst standby_loop.simps) (auto split: nat.split)
qed

lemma Standby_reads: "reads w (snd (HW_EEPROM_WaitEepromStandbyState w))"
proof -
  obtain ok1 w1 where 1: "wait_flag 0xA000 w = (ok1, w1)" "reads w w1" by (rule wait_flag_cases)
  show ?thesis using 1(2) reads_trans [OF 1(2) standby_loop_reads]
    by (simp add: HW_EEPROM_WaitEepromStandbyState_def 1(1))
qed

lemma write_piece_writes: "writes w (snd (write_piece addr buf n w))"
proof -
  obtain r w1 where 1: "HW_EEPROM_WritePage addr buf n w = (r, w1)" "writes w w1"
    using WritePage_writes [of w addr buf n] by (cases "HW_EEPROM_WritePage addr buf n w") auto
  obtain k w2 where 2: "wait_sent r n w1 = (k, w2)" "reads w1 w2"
    using wait_sent_reads [of w1 r n] by (cases "wait_sent r n w1") auto
  have "writes w w2" using 1(2) reads_writes [OF 2(2)] writes_trans by blast
  moreover from this have "writes w (snd (HW_EEPROM_WaitEepromStandbyState w2))"
    by (rule writes_trans) (rule reads_writes [OF Standby_reads])
  ultimately show ?thesis by (simp add: write_piece_def 1(1) 2(1))
qed

lemma ends_snd [simp]: "snd (ends r) = snd r"
  by (simp add: ends_def)

lemma write_pages_writes: "writes w (snd (write_pages k addr buf w))"
proof (induction k addr buf w rule: write_pages.induct)
  case (2 k addr buf w)
  obtain ok w1 where 1: "write_piece addr buf (of_nat 256) w = (ok, w1)" "writes w w1"
    using write_piece_writes [of w addr buf "of_nat 256"]
    by (cases "write_piece addr buf (of_nat 256) w") auto
  then show ?case using 2 [OF 1(1) [symmetric]] writes_trans by (auto simp del: of_nat_numeral)
qed simp

lemma pages_then_rest_writes: "writes w (snd (pages_then_rest p s addr buf w))"
proof -
  obtain ok a' b' w1 where 1: "write_pages (unat p) addr buf w = ((ok, a', b'), w1)" "writes w w1"
    using write_pages_writes [of w "unat p" addr buf]
    by (cases "write_pages (unat p) addr buf w") auto
  then show ?thesis using writes_trans [OF 1(2) write_piece_writes]
    by (simp add: pages_then_rest_def)
qed

lemma WriteBuffer_writes: "writes w (snd (HW_EEPROM_WriteBuffer addr buf n w))"
proof -
  have *: "writes w (snd (case write_piece addr buf c w of (ok, w1) \<Rightarrow> if \<not> ok then (Some FAIL, w1) else f w1))"
    if "\<And>w1. writes w1 (snd (f w1))" for c f
  proof -
    obtain ok w1 where 1: "write_piece addr buf c w = (ok, w1)" "writes w w1"
      using write_piece_writes [of w addr buf c] by (cases "write_piece addr buf c w") auto
    then show ?thesis using writes_trans [OF 1(2) that] by simp
  qed
  show ?thesis
    by (simp add: HW_EEPROM_WriteBuffer_def Let_def * write_piece_writes pages_then_rest_writes)
qed

section \<open>Runs on working hardware\<close>

lemma wait_flag_ok:
  "bus_ok w \<Longrightarrow> 4096 \<le> unat l \<Longrightarrow> wait_flag l w = (True, w\<lparr>tick := Suc (tick w)\<rparr>)"
  unfolding wait_flag_def bus_ok_def poll_iff by (simp, meson order_trans)

lemma wait_all_ok:
  "bus_ok w \<Longrightarrow> \<forall>l \<in> set ls. 4096 \<le> unat l
    \<Longrightarrow> wait_all ls w = (True, w\<lparr>tick := tick w + length ls\<rparr>)"
  by (induction ls arbitrary: w) (simp_all add: wait_all.simps wait_flag_ok)

lemma ReadBuffer_ok:
  assumes "bus_ok w"
  shows "\<exists>t. HW_EEPROM_ReadBuffer addr n w = ((SUCC, chip_bytes (chip_mem w)
    (cell_of (if addr AND 0x10000 \<noteq> 0 then 0xA2 else 0xA0) addr) (max 1 n)), w\<lparr>tick := t\<rparr>)"
proof (cases "n < 2")
  case True
  then have "max 1 n = 1" by simp
  with True assms show ?thesis
    by (simp add: HW_EEPROM_ReadBuffer_def wait_all_ok wait_flag_ok Let_def) blast
next
  case False
  then have "max 1 n = n" by simp
  with False assms show ?thesis
    by (simp add: HW_EEPROM_ReadBuffer_def wait_all_ok wait_flag_ok Let_def) blast
qed

lemma WritePage_ok:
  assumes "bus_ok w" "at24cm01 w"
  shows "HW_EEPROM_WritePage addr buf n w = (SUCC, w\<lparr>chip_mem := page_write (chip_mem w)
    (cell_of 0xA0 addr) (take (unat n) buf), tick := tick w + 5\<rparr>)"
  using assms by (simp add: HW_EEPROM_WritePage_def wait_all_ok at24cm01_def)

lemma some_tick: "\<exists>t. w = w\<lparr>tick := t\<rparr>"
  by (rule exI [of _ "tick w"]) simp

lemma wait_sent_ok: "bus_ok w \<Longrightarrow> \<exists>t. wait_sent SUCC n w = (0, w\<lparr>tick := t\<rparr>)"
  by (cases "n = 0")
    (simp_all add: wait_sent_def wait_flag_ok HW_EEPROM_I2C_DMA_TX_IRQHandler_def some_tick, blast)

lemma Standby_ok: "bus_ok w \<Longrightarrow> \<exists>t. HW_EEPROM_WaitEepromStandbyState w = (SUCC, w\<lparr>tick := t\<rparr>)"
proof -
  assume w: "bus_ok w"
  then have "i2c_ack w i" for i by (simp add: bus_ok_def)
  with w show ?thesis
    by (simp add: HW_EEPROM_WaitEepromStandbyState_def wait_flag_ok standby_loop.simps wait_all_ok)
      blast
qed

lemma write_piece_ok:
  assumes "bus_ok w" "at24cm01 w"
  shows "\<exists>t. write_piece addr buf n w = (True, w\<lparr>chip_mem := page_write (chip_mem w)
    (cell_of 0xA0 addr) (take (unat n) buf), tick := t\<rparr>)"
proof -
  let ?w1 = "w\<lparr>chip_mem := page_write (chip_mem w) (cell_of 0xA0 addr) (take (unat n) buf), tick := tick w + 5\<rparr>"
  obtain t where t: "wait_sent SUCC n ?w1 = (0, ?w1\<lparr>tick := t\<rparr>)"
    using wait_sent_ok [of ?w1 n] assms by auto
  obtain t' where "HW_EEPROM_WaitEepromStandbyState (?w1\<lparr>tick := t\<rparr>) = (SUCC, ?w1\<lparr>tick := t\<rparr>\<lparr>tick := t'\<rparr>)"
    using Standby_ok [of "?w1\<lparr>tick := t\<rparr>"] assms by auto
  with t show ?thesis by (simp add: write_piece_def WritePage_ok [OF assms]) blast
qed

lemma unat_count: "a mod 256 \<noteq> 0 \<Longrightarrow> unat (of_nat (256 - a mod 256) :: u8) = 256 - a mod 256"
  by (simp add: unat_of_nat del: of_nat_diff)

lemma piece_stores:
  assumes "bus_ok w" "at24cm01 w" "unat addr mod 256 + unat n \<le> 256"
  shows "\<exists>t. write_piece addr buf n w
    = (True, w\<lparr>chip_mem := store_bytes (chip_mem w) (unat addr mod 65536) (take (unat n) buf), tick := t\<rparr>)"
proof -
  have "unat addr mod 65536 mod 256 = unat addr mod 256"
    by (rule mod_mod_cancel) simp
  then show ?thesis
    using write_piece_ok [OF assms(1,2), of addr buf n] assms(3) by (simp add: page_write_store)
qed

lemma two_pieces_store:
  assumes w: "bus_ok w" "at24cm01 w" and a: "unat addr mod 256 \<noteq> 0" "unat c = 256 - unat addr mod 256"
    and k: "unat k \<le> 256" "unat addr mod 65536 + unat c + unat k \<le> 65536" "0 < unat k"
    and b: "unat c + unat k \<le> length buf"
  shows "\<exists>t. (case write_piece addr buf c w of (ok, w1) \<Rightarrow> if \<not> ok then (Some FAIL, w1)
      else ends (write_piece (addr + ucast c) (drop (unat c) buf) k w1))
    = (None, w\<lparr>chip_mem := store_bytes (chip_mem w) (unat addr mod 65536) (take (unat c + unat k) buf),
        tick := t\<rparr>)"
proof -
  let ?m = "store_bytes (chip_mem w) (unat addr mod 65536) (take (unat c) buf)"
  obtain t1 where 1: "write_piece addr buf c w = (True, w\<lparr>chip_mem := ?m, tick := t1\<rparr>)"
    using piece_stores [OF w, of addr c buf] a by auto
  have s: "unat (addr + ucast c) mod 65536 = (unat addr + unat c) mod 65536"
    "unat (addr + ucast c) mod 256 = (unat addr + unat c) mod 256"
    by (simp_all add: unat_word_ariths mod_mod_cancel)
  have "(unat addr + unat c) mod 65536 = (unat addr mod 65536 + unat c) mod 65536"
    by (simp add: mod_add_left_eq)
  then have u: "unat (addr + ucast c) mod 65536 = unat addr mod 65536 + unat c"
    using s(1) k by simp
  have "(unat addr + unat c) mod 256 = (unat addr mod 256 + unat c) mod 256"
    by (simp add: mod_add_left_eq)
  then have "unat (addr + ucast c) mod 256 + unat k \<le> 256"
    using s(2) a k(1) by simp
  then obtain t2 where "write_piece (addr + ucast c) (drop (unat c) buf) k (w\<lparr>chip_mem := ?m, tick := t1\<rparr>)
      = (True, w\<lparr>chip_mem := store_bytes ?m (unat addr mod 65536 + unat c) (take (unat k) (drop (unat c) buf)),
          tick := t2\<rparr>)"
    using piece_stores [of "w\<lparr>chip_mem := ?m, tick := t1\<rparr>" "addr + ucast c" k "drop (unat c) buf"] w u
    by auto
  moreover have "store_bytes ?m (unat addr mod 65536 + unat c) (take (unat k) (drop (unat c) buf))
      = store_bytes (chip_mem w) (unat addr mod 65536) (take (unat c + unat k) buf)"
    using store_bytes_append [of "chip_mem w" "unat addr mod 65536" "take (unat c) buf"
        "take (unat k) (drop (unat c) buf)"] b
    by (simp add: take_add)
  ultimately show ?thesis by (simp add: 1 ends_def) blast
qed

text \<open>Between 1 and 255 bytes that stay in the lower 64 KiB of a bank are stored exactly.\<close>

lemma write_buffer_cells:
  assumes w: "bus_ok w" "at24cm01 w" and n: "0 < n" "n < 256" "n \<le> length buf"
    and a: "unat addr mod 65536 + n \<le> 65536"
  shows "\<exists>t. HW_EEPROM_WriteBuffer addr buf n w
    = (None, w\<lparr>chip_mem := store_bytes (chip_mem w) (unat addr mod 65536) (take n buf), tick := t\<rparr>)"
proof (cases "unat addr mod 256 = 0 \<or> n \<le> 256 - unat addr mod 256")
  case True
  have "HW_EEPROM_WriteBuffer addr buf n w = ends (write_piece addr buf (of_nat n) w)"
    using True n unat_count [of "unat addr"]
    by (auto simp: HW_EEPROM_WriteBuffer_def Let_def not_less simp del: of_nat_diff)
  moreover have "unat (of_nat n :: u8) = n" using n by (simp add: unat_of_nat)
  moreover have "unat addr mod 256 + n \<le> 256" using True n mod_less_divisor [of 256 "unat addr"] by linarith
  ultimately show ?thesis
    using piece_stores [OF w, of addr "of_nat n" buf] by (auto simp: ends_def)
next
  case False
  define c :: u8 where "c = of_nat (256 - unat addr mod 256)"
  define k :: u8 where "k = of_nat (n - unat c)"
  have c: "unat c = 256 - unat addr mod 256" using False unat_count by (simp add: c_def)
  then have k: "unat k = n - (256 - unat addr mod 256)"
    using n by (simp add: k_def unat_of_nat del: of_nat_diff)
  have wb: "HW_EEPROM_WriteBuffer addr buf n w
    = (case write_piece addr buf c w of (ok, w1) \<Rightarrow> if \<not> ok then (Some FAIL, w1)
      else ends (write_piece (addr + ucast c) (drop (unat c) buf) k w1))"
    using False n c
    by (simp add: HW_EEPROM_WriteBuffer_def Let_def k_def c_def [symmetric] del: of_nat_diff cong: if_cong)
  have sum: "unat c + unat k = n" and k0: "unat k \<le> 256" "0 < unat k" "unat addr mod 256 \<noteq> 0"
    using c k False n by linarith+
  have le: "unat addr mod 65536 + unat c + unat k \<le> 65536" "unat c + unat k \<le> length buf"
    using sum a n by linarith+
  show ?thesis
    using two_pieces_store [OF w k0(3) c k0(1) le(1) k0(2) le(2)] unfolding wb sum .
qed

text \<open>A piece of 256 bytes has the counter 0: nothing is sent.\<close>

lemma cells_tick [simp]: "w\<lparr>chip_mem := chip_mem w, tick := t\<rparr> = w\<lparr>tick := t\<rparr>"
  by (cases w) simp

lemma write_pages_nothing:
  assumes "bus_ok w" "at24cm01 w"
  shows "\<exists>t. write_pages k addr buf w
    = ((True, addr + of_nat (256 * k), drop (256 * k) buf), w\<lparr>tick := t\<rparr>)"
  using assms
proof (induction k arbitrary: addr buf w)
  case 0
  then show ?case using some_tick [of w] by (auto simp: eq_commute)
next
  case (Suc k)
  obtain t where t: "write_piece addr buf 0 w = (True, w\<lparr>tick := t\<rparr>)"
    using write_piece_ok [OF Suc.prems, of addr buf 0] by auto
  have z: "(256 :: u8) = 0" by simp
  have "addr + 256 + of_nat (256 * k) = addr + of_nat (256 * Suc k)" by (simp add: algebra_simps)
  moreover have "drop (256 * k) (drop 256 buf) = drop (256 * Suc k) buf" by (simp add: add.commute)
  ultimately show ?case
    using Suc.IH [of "w\<lparr>tick := t\<rparr>" "addr + 256" "drop 256 buf"] Suc.prems t
    by (simp add: z add.assoc cong: if_cong del: drop_drop mult_Suc_right)
qed

section \<open>Properties\<close>

text \<open>C38: on working hardware \<open>HW_EEPROM_WriteBuffer\<close> stores a buffer of 1 to 255 bytes that lies in the lower 64 KiB exactly:
  those cells hold the bytes, every other cell is unchanged, also when the buffer crosses a page boundary and is written in two
  pieces. Nothing is claimed for addresses in the upper 64 KiB (\<open>hw_eeprom.c:322\<close>).\<close>

theorem write_buffer_exact:
  assumes "bus_ok w" "at24cm01 w" "0 < n" "n < 256" "n \<le> length buf" "unat addr + n \<le> 65536"
  shows "\<exists>t. HW_EEPROM_WriteBuffer addr buf n w
    = (None, w\<lparr>chip_mem := store_bytes (chip_mem w) (unat addr) (take n buf), tick := t\<rparr>)"
proof -
  have "unat addr mod 65536 = unat addr" using assms by simp
  then show ?thesis using write_buffer_cells [OF assms(1-5), of addr] assms(6) by simp
qed

text \<open>A board with a blank chip, a short wait before every flag and the chip as documented.\<close>

definition fresh_board :: eew where
  "fresh_board = \<lparr>acu = zero_strACUDevInfo, EEPROM_COMM_err_cnt = 0, chip_mem = (\<lambda>c. 0xFF),
     chip_write = (\<lambda>t. page_write), i2c_wait = (\<lambda>i. 3), i2c_ack = (\<lambda>i. True),
     indet = (\<lambda>i. SUCC), tick = 0\<rparr>"

lemma fresh_board_ok [simp]: "bus_ok fresh_board" "at24cm01 fresh_board"
  by (simp_all add: fresh_board_def bus_ok_def at24cm01_def)

theorem write_buffer_exact_witness:
  "\<exists>t. HW_EEPROM_WriteBuffer 0xFE [1, 2, 3, 4] 4 fresh_board
    = (None, fresh_board\<lparr>chip_mem := store_bytes (\<lambda>c. 0xFF) 254 [1, 2, 3, 4], tick := t\<rparr>)"
  using write_buffer_exact [of fresh_board 4 "[1, 2, 3, 4]" "0xFE"]
  by (simp add: fresh_board_def [THEN arg_cong [where f = chip_mem]])

text \<open>A page-aligned buffer of one or more whole pages is not written at all, although
  \<open>HW_EEPROM_WriteBuffer\<close> runs to its end: the 8-bit counter \<open>sEEDataNum\<close> holds 0 for a page
  of 256 bytes.\<close>

theorem whole_pages_not_written:
  assumes "bus_ok w" "at24cm01 w" "unat addr mod 256 = 0" "0 < k" "k < 256"
  shows "\<exists>t. HW_EEPROM_WriteBuffer addr buf (256 * k) w = (None, w\<lparr>tick := t\<rparr>)"
proof -
  have k: "unat (of_nat k :: u8) = k" using assms by (simp add: unat_of_nat)
  then have "(of_nat k :: u8) \<noteq> 0" using assms(4) by (metis neq0_conv unat_0)
  then show ?thesis
    using write_pages_nothing [OF assms(1,2), of k addr buf] assms(3) k
    by (auto simp: HW_EEPROM_WriteBuffer_def Let_def pages_then_rest_def)
qed

theorem whole_pages_not_written_witness:
  "\<exists>t. HW_EEPROM_WriteBuffer 0x200 (replicate 256 7) (256 * 1) fresh_board = (None, fresh_board\<lparr>tick := t\<rparr>)"
  by (rule whole_pages_not_written) simp_all

text \<open>\<open>HW_EEPROM_WritePage\<close> drops the upper address bit that \<open>HW_EEPROM_ReadBuffer\<close>
  sends: a write to the upper 64 KiB replaces the cells 64 KiB below, and reading it back
  delivers what the upper cells held before.\<close>

theorem upper_bank_write_goes_low:
  assumes "bus_ok w" "at24cm01 w" "0 < n" "n < 256" "n \<le> length buf"
    "65536 \<le> unat addr" "unat addr + n \<le> 131072" "addr AND 0x10000 \<noteq> 0"
  shows "\<exists>w1 t. HW_EEPROM_WriteBuffer addr buf n w = (None, w1)
    \<and> chip_mem w1 = store_bytes (chip_mem w) (unat addr - 65536) (take n buf)
    \<and> HW_EEPROM_ReadBuffer addr n w1 = ((SUCC, chip_bytes (chip_mem w) (unat addr) n), w1\<lparr>tick := t\<rparr>)"
proof -
  have a: "unat addr mod 65536 = unat addr - 65536"
    using assms(6,7,3) by (simp add: mod_if)
  have le: "unat addr - 65536 + n \<le> 65536" using assms(6,7) by linarith
  let ?m = "store_bytes (chip_mem w) (unat addr - 65536) (take n buf)"
  obtain t where t: "HW_EEPROM_WriteBuffer addr buf n w = (None, w\<lparr>chip_mem := ?m, tick := t\<rparr>)"
    using write_buffer_cells [OF assms(1-5), of addr] le unfolding a by blast
  have "chip_bytes ?m (unat addr) n = chip_bytes (chip_mem w) (unat addr) n"
    by (rule chip_bytes_store_other) (use assms in \<open>simp_all, linarith\<close>)
  moreover have "max 1 n = n" using assms(3) by simp
  ultimately show ?thesis
    using t ReadBuffer_ok [of "w\<lparr>chip_mem := ?m, tick := t\<rparr>" addr n] assms a by auto
qed

theorem upper_bank_write_goes_low_witness:
  "\<exists>w1 t. HW_EEPROM_WriteBuffer 0x10010 [1, 2] 2 fresh_board = (None, w1)
    \<and> chip_mem w1 = store_bytes (chip_mem fresh_board) 16 [1, 2]
    \<and> HW_EEPROM_ReadBuffer 0x10010 2 w1 = ((SUCC, chip_bytes (chip_mem fresh_board) 65552 2), w1\<lparr>tick := t\<rparr>)"
  using upper_bank_write_goes_low [of fresh_board 2 "[1, 2]" "0x10010"] by simp

end
