(* ===== verification/ParamStore.thy ===== *)
theory ParamStore
  imports Eeprom
begin

text \<open>
  \<open>APP_PARAM_Save\<close> and \<open>APP_PARAM_Read\<close> of \<open>APP/src/app_param_save_read.c\<close>: writing a
  parameter with read-back verification, reading one in pieces of at most 256 bytes, and
  the counter of consecutive communication errors. A transfer longer than the buffer it
  fills is the fault \<open>OutOfBounds\<close>.

  The locale \<open>verified_store\<close> is the contract the typed save and read functions rely on;
  \<open>working_store\<close> adds what holds on working hardware and derives the behaviour of a whole
  sequence of saves.
\<close>

section \<open>The code\<close>

type_synonym 'a io = "('a, eew) st"

text \<open>\<open>EEPROM_COMM_err_cnt++\<close>; more than ten errors in a row mark the EEPROM as unlinked.\<close>

definition set_link :: "u8 \<Rightarrow> eew \<Rightarrow> eew" where
  "set_link s w = w\<lparr>acu := (acu w)\<lparr>DeviceInfo := (DeviceInfo (acu w))\<lparr>
     EEPROMInfo := (EEPROMInfo (DeviceInfo (acu w)))\<lparr>ee_link_stat := s\<rparr>\<rparr>\<rparr>\<rparr>"

definition comm_err :: "eew \<Rightarrow> eew" where
  "comm_err w =
     (let w1 = w\<lparr>EEPROM_COMM_err_cnt := EEPROM_COMM_err_cnt w + 1\<rparr>
      in if EEPROM_COMM_err_cnt w1 > 10 then set_link COMM_UNLINK w1 else w1)"

text \<open>The return value of \<open>HW_EEPROM_WriteBuffer\<close> is whatever the register holds when the
  function has run to its end.\<close>

definition returned :: "status option \<Rightarrow> eew \<Rightarrow> status" where
  "returned r w = (case r of Some s \<Rightarrow> s | None \<Rightarrow> indet w (tick w))"

definition APP_PARAM_Save :: "u16 \<Rightarrow> bytes \<Rightarrow> u16 \<Rightarrow> status io" where
  "APP_PARAM_Save addr savebuff len w =
     (if unat len > length savebuff then Inl OutOfBounds
      else case HW_EEPROM_WriteBuffer (ucast addr) savebuff (unat len) w of (r, w1) \<Rightarrow>
        if returned r w1 = FAIL then Inr (FAIL, comm_err w1)
        else case HW_EEPROM_ReadBuffer (ucast addr) (unat len) w1 of ((r2, got), w2) \<Rightarrow>
          if length got > 80 then Inl OutOfBounds
          else if r2 = FAIL then Inr (FAIL, comm_err w2)
          else if take (unat len) savebuff \<noteq> take (unat len) (copy_over (replicate 80 0) got)
          then Inr (FAIL, comm_err w2)
          else Inr (SUCC, w2\<lparr>EEPROM_COMM_err_cnt := 0\<rparr>))"

text \<open>The loop of \<open>APP_PARAM_Read\<close>: \<open>sun_len2\<close> is the size of the next piece.\<close>

definition put_at :: "bytes \<Rightarrow> nat \<Rightarrow> bytes \<Rightarrow> bytes" where
  "put_at buff i xs = take i buff @ xs @ drop (i + length xs) buff"

function read_loop :: "u16 \<Rightarrow> bytes \<Rightarrow> nat \<Rightarrow> nat \<Rightarrow> (status \<times> bytes) io" where
  "read_loop a_addr Readbuff index readlen w =
     (if readlen = 0 then Inr ((SUCC, Readbuff), w)
      else let sun_len2 = (if readlen > 256 then 256 else readlen)
      in case HW_EEPROM_ReadBuffer (ucast a_addr) sun_len2 w of ((r, got), w1) \<Rightarrow>
        if index + length got > length Readbuff then Inl OutOfBounds
        else if r = FAIL then Inr ((FAIL, put_at Readbuff index got), comm_err w1)
        else read_loop (a_addr + of_nat sun_len2) (put_at Readbuff index got) (index + sun_len2)
               (readlen - sun_len2) w1)"
  by pat_completeness auto

termination by (relation "measure (\<lambda>(a, b, i, n, w). n)") auto

declare read_loop.simps [simp del]

definition APP_PARAM_Read :: "u16 \<Rightarrow> bytes \<Rightarrow> u16 \<Rightarrow> (status \<times> bytes) io" where
  "APP_PARAM_Read addr Readbuff len =
     bind_io (read_loop addr Readbuff 0 (unat len)) (\<lambda>(r, buff) w.
       if r = FAIL then Inr ((FAIL, buff), w)
       else Inr ((SUCC, buff), set_link COMM_LINK (w\<lparr>EEPROM_COMM_err_cnt := 0\<rparr>)))"

section \<open>Reading\<close>

lemma cell_of_u16 [simp]:
  "(ucast (a :: u16) :: u32) AND 0x10000 = 0"
  "unat (ucast a :: u32) mod 65536 = unat a"
proof -
  have p: "(0x10000 :: u32) = push_bit 16 1" by simp
  have "\<not> bit a 16" using bit_imp_le_length [of a 16] by auto
  then have "\<not> bit (ucast a :: u32) 16" by (simp add: bit_ucast_iff)
  then show "(ucast a :: u32) AND 0x10000 = 0"
    unfolding p using bit_iff_and_push_bit_not_eq_0 [of "ucast a :: u32" 16] by blast
  show "unat (ucast a :: u32) mod 65536 = unat a"
    using u16_bound [of a] by (simp add: unsigned_ucast_eq take_bit_eq_mod)
qed

lemma unat_u32_of_u16 [simp]: "unat (ucast (a :: u16) :: u32) = unat a"
  using u16_bound [of a] by (simp add: unsigned_ucast_eq take_bit_eq_mod)

text \<open>A read of at most 256 bytes is one piece.\<close>

lemma APP_PARAM_Read_one:
  assumes "0 < unat len" "unat len \<le> 256"
  shows "APP_PARAM_Read addr buff len w =
    (case HW_EEPROM_ReadBuffer (ucast addr) (unat len) w of ((r, got), w1) \<Rightarrow>
      if length got > length buff then Inl OutOfBounds
      else if r = FAIL then Inr ((FAIL, copy_over buff got), comm_err w1)
      else Inr ((SUCC, copy_over buff got), set_link COMM_LINK (w1\<lparr>EEPROM_COMM_err_cnt := 0\<rparr>)))"
  using assms
  by (simp add: APP_PARAM_Read_def bind_io_def read_loop.simps [of addr] read_loop.simps [of _ _ _ 0]
      put_at_def copy_over_def split: prod.split)

section \<open>The contract\<close>

text \<open>What the bytes of a region are.\<close>

definition region :: "eew \<Rightarrow> u16 \<Rightarrow> nat \<Rightarrow> bytes" where
  "region w a n = chip_bytes (chip_mem w) (unat a) n"

lemma length_region [simp]: "length (region w a n) = n"
  by (simp add: region_def)

text \<open>A save that reports success has stored its bytes; a load that reports success delivers
  the stored bytes and changes none.\<close>

locale verified_store =
  fixes save :: "u16 \<Rightarrow> bytes \<Rightarrow> u16 \<Rightarrow> status io"
    and load :: "u16 \<Rightarrow> bytes \<Rightarrow> u16 \<Rightarrow> (status \<times> bytes) io"
    and view :: "eew \<Rightarrow> u16 \<Rightarrow> nat \<Rightarrow> bytes"
  assumes save_view: "save a xs n w = Inr (SUCC, w1) \<Longrightarrow> 0 < unat n \<Longrightarrow> view w1 a (unat n) = take (unat n) xs"
    and load_view: "load a buff n w = Inr ((SUCC, ys), w1) \<Longrightarrow> 0 < unat n \<Longrightarrow> unat n \<le> 256
      \<Longrightarrow> ys = copy_over buff (view w a (unat n))"
    and load_keeps: "load a buff n w = Inr (r, w1) \<Longrightarrow> 0 < unat n \<Longrightarrow> unat n \<le> 256 \<Longrightarrow> view w1 = view w"
begin

lemma load_after_save:
  assumes "save a xs n w = Inr (SUCC, w1)" "load a buff n w1 = Inr ((SUCC, ys), w2)"
    "0 < unat n" "unat n \<le> 256"
  shows "ys = copy_over buff (take (unat n) xs)"
  using load_view [OF assms(2-4)] save_view [OF assms(1,3)] by simp

lemma load_twice:
  assumes "load a buff n w = Inr ((SUCC, ys), w1)" "load a buff n w1 = Inr ((SUCC, zs), w2)"
    "0 < unat n" "unat n \<le> 256"
  shows "zs = ys"
  using load_view [OF assms(1,3,4)] load_view [OF assms(2-4)] load_keeps [OF assms(1,3,4)] by simp

end

text \<open>A sequence of saves, each with its address, buffer and length, and the last one that
  wrote to an address.\<close>

fun save_all :: "(u16 \<Rightarrow> bytes \<Rightarrow> u16 \<Rightarrow> status io) \<Rightarrow> (u16 \<times> bytes \<times> u16) list \<Rightarrow> status list io" where
  "save_all save [] = ret_io []"
| "save_all save ((a, xs, n) # ops) =
     bind_io (save a xs n) (\<lambda>r. bind_io (save_all save ops) (\<lambda>rs. ret_io (r # rs)))"

fun last_saved :: "(u16 \<times> bytes \<times> u16) list \<Rightarrow> u16 \<Rightarrow> bytes \<Rightarrow> bytes" where
  "last_saved [] a old = old"
| "last_saved ((b, xs, n) # ops) a old = last_saved ops a (if b = a then take (unat n) xs else old)"

definition apart :: "u16 \<Rightarrow> nat \<Rightarrow> u16 \<Rightarrow> nat \<Rightarrow> bool" where
  "apart a m b n \<longleftrightarrow> unat a + m \<le> unat b \<or> unat b + n \<le> unat a"

definition fits :: "u16 \<times> bytes \<times> u16 \<Rightarrow> bool" where
  "fits op = (case op of (a, xs, n) \<Rightarrow> 0 < unat n \<and> unat n \<le> 80 \<and> unat n \<le> length xs \<and> unat a + unat n \<le> 65536)"

text \<open>On working hardware a save succeeds and leaves the regions apart from its own alone.\<close>

locale working_store = verified_store +
  fixes works :: "eew \<Rightarrow> bool"
  assumes save_works: "works w \<Longrightarrow> fits (a, xs, n) \<Longrightarrow> \<exists>w1. save a xs n w = Inr (SUCC, w1) \<and> works w1
      \<and> (\<forall>b k. apart a (unat n) b k \<longrightarrow> unat b + k \<le> 65536 \<longrightarrow> view w1 b k = view w b k)"
    and load_works: "works w \<Longrightarrow> 0 < unat n \<Longrightarrow> unat n \<le> 256 \<Longrightarrow> unat n \<le> length buff
      \<Longrightarrow> \<exists>ys w1. load a buff n w = Inr ((SUCC, ys), w1) \<and> works w1"
begin

text \<open>After any sequence of saves into regions that are equal to or apart from the one of
  interest, that one holds what was last saved to it.\<close>

lemma save_all_works:
  assumes "works w" "\<forall>op \<in> set ops. fits op" "unat b + k \<le> 65536"
    "\<forall>(a, xs, n) \<in> set ops. a = b \<and> unat n = k \<or> a \<noteq> b \<and> apart a (unat n) b k"
  shows "\<exists>w1. save_all save ops w = Inr (replicate (length ops) SUCC, w1) \<and> works w1
    \<and> view w1 b k = last_saved ops b (view w b k)"
  using assms
proof (induction ops arbitrary: w)
  case (Cons op ops)
  obtain a xs n where op: "op = (a, xs, n)" by (cases op)
  obtain w1 where w1: "save a xs n w = Inr (SUCC, w1)" "works w1"
    "\<forall>b k. apart a (unat n) b k \<longrightarrow> unat b + k \<le> 65536 \<longrightarrow> view w1 b k = view w b k"
    using save_works [OF Cons.prems(1), of a xs n] Cons.prems(2) op by auto
  have "view w1 b k = (if a = b then take (unat n) xs else view w b k)"
    using Cons.prems op w1(3) save_view [OF w1(1)] by (auto simp: fits_def)
  then show ?case
    using Cons.IH [OF w1(2)] Cons.prems(2-4) w1(1) op by (auto simp: bind_io_def ret_io_def)
qed (simp add: ret_io_def)

lemma load_last_saved:
  assumes "works w" "\<forall>op \<in> set ops. fits op" "unat b + unat k \<le> 65536" "0 < unat k" "unat k \<le> 256"
    "unat k \<le> length buff"
    "\<forall>(a, xs, n) \<in> set ops. a = b \<and> unat n = unat k \<or> a \<noteq> b \<and> apart a (unat n) b (unat k)"
  shows "\<exists>w1 w2. save_all save ops w = Inr (replicate (length ops) SUCC, w1)
    \<and> load b buff k w1 = Inr ((SUCC, copy_over buff (last_saved ops b (view w b (unat k)))), w2)"
proof -
  obtain w1 where w1: "save_all save ops w = Inr (replicate (length ops) SUCC, w1)" "works w1"
    "view w1 b (unat k) = last_saved ops b (view w b (unat k))"
    using save_all_works [OF assms(1,2,3,7)] by auto
  obtain ys w2 where "load b buff k w1 = Inr ((SUCC, ys), w2)"
    using load_works [OF w1(2) assms(4-6), of b] by auto
  with w1 load_view [OF this assms(4,5)] show ?thesis by auto
qed

end

section \<open>The code meets the contract\<close>

lemma set_link_cells [simp]: "chip_mem (set_link s w) = chip_mem w" "region (set_link s w) = region w"
  by (simp_all add: set_link_def region_def fun_eq_iff)

lemma comm_err_cells [simp]: "chip_mem (comm_err w) = chip_mem w" "region (comm_err w) = region w"
  by (simp_all add: comm_err_def Let_def region_def fun_eq_iff)

lemma region_cnt [simp]: "region (w\<lparr>EEPROM_COMM_err_cnt := c\<rparr>) = region w"
  by (simp add: region_def fun_eq_iff)

lemma reads_region: "reads w w1 \<Longrightarrow> region w1 = region w"
  by (simp add: region_def fun_eq_iff reads_cells)

lemma ReadBuffer_region:
  assumes "HW_EEPROM_ReadBuffer (ucast a) n w = ((SUCC, got), w1)" "0 < n"
  shows "got = region w a n" "region w1 = region w"
proof -
  have "max 1 n = n" "unat a mod 65536 = unat a" using assms(2) u16_bound [of a] by simp_all
  with ReadBuffer_reads [OF assms(1)] show "got = region w a n" "region w1 = region w"
    by (simp_all add: region_def reads_region)
qed

interpretation ee: verified_store APP_PARAM_Save APP_PARAM_Read region
proof
  fix a xs n w w1
  assume s: "APP_PARAM_Save a xs n w = Inr (SUCC, w1)" and n: "0 < unat n"
  obtain r w2 where wr: "HW_EEPROM_WriteBuffer (ucast a) xs (unat n) w = (r, w2)" by fastforce
  obtain r2 got w3 where rd: "HW_EEPROM_ReadBuffer (ucast a) (unat n) w2 = ((r2, got), w3)"
    by (metis surj_pair)
  have g: "r2 = SUCC" "length got \<le> 80" "take (unat n) xs = take (unat n) (copy_over (replicate 80 0) got)"
    "w1 = w3\<lparr>EEPROM_COMM_err_cnt := 0\<rparr>"
    using s by (auto simp: APP_PARAM_Save_def wr rd split: if_splits) (cases r2, auto)
  have "got = region w2 a (unat n)" "region w3 = region w2"
    using ReadBuffer_region [OF rd [unfolded g(1)] n] by auto
  then show "region w1 a (unat n) = take (unat n) xs"
    using g(3,4) take_copy_over [of got "replicate 80 0"] by simp
next
  fix a buff n w ys w1
  assume l: "APP_PARAM_Read a buff n w = Inr ((SUCC, ys), w1)" and n: "0 < unat n" "unat n \<le> 256"
  obtain r got w2 where rd: "HW_EEPROM_ReadBuffer (ucast a) (unat n) w = ((r, got), w2)"
    by (metis surj_pair)
  have "r = SUCC" "ys = copy_over buff got"
    using l by (auto simp: APP_PARAM_Read_one [OF n] rd split: if_splits) (cases r, auto)
  then show "ys = copy_over buff (region w a (unat n))"
    using ReadBuffer_region(1) [of a "unat n" w got w2] rd n by simp
next
  fix a buff n w r w1
  assume l: "APP_PARAM_Read a buff n w = Inr (r, w1)" and n: "0 < unat n" "unat n \<le> 256"
  obtain r' got w2 where rd: "HW_EEPROM_ReadBuffer (ucast a) (unat n) w = ((r', got), w2)"
    by (metis surj_pair)
  show "region w1 = region w"
    using l reads_region [OF ReadBuffer_reads(1) [OF rd]]
    by (auto simp: APP_PARAM_Read_one [OF n] rd split: if_splits)
qed

definition board_ok :: "eew \<Rightarrow> bool" where
  "board_ok w \<longleftrightarrow> bus_ok w \<and> at24cm01 w"

lemma board_ok_update [simp]:
  "board_ok (w\<lparr>tick := t\<rparr>) = board_ok w" "board_ok (w\<lparr>chip_mem := m\<rparr>) = board_ok w"
  "board_ok (w\<lparr>EEPROM_COMM_err_cnt := c\<rparr>) = board_ok w" "board_ok (set_link s w) = board_ok w"
  by (simp_all add: board_ok_def set_link_def)

text \<open>The whole of a save on working hardware.\<close>

lemma APP_PARAM_Save_works:
  assumes w: "board_ok w" and f: "fits (a, xs, n)"
  shows "\<exists>t. APP_PARAM_Save a xs n w = Inr (SUCC, w\<lparr>chip_mem := store_bytes (chip_mem w) (unat a)
    (take (unat n) xs), tick := t, EEPROM_COMM_err_cnt := 0\<rparr>)"
proof -
  have n: "0 < unat n" "unat n \<le> 80" "unat n \<le> length xs" "unat a + unat n \<le> 65536"
    using f by (simp_all add: fits_def)
  let ?m = "store_bytes (chip_mem w) (unat a) (take (unat n) xs)"
  have "unat a mod 65536 = unat a" using u16_bound [of a] by simp
  then obtain t1 where 1: "HW_EEPROM_WriteBuffer (ucast a) xs (unat n) w
      = (None, w\<lparr>chip_mem := ?m, tick := t1\<rparr>)"
    using write_buffer_cells [of w "unat n" xs "ucast a"] w n by (auto simp: board_ok_def)
  have mx: "max 1 (unat n) = unat n" using n by simp
  have "chip_bytes ?m (unat a) (unat n) = take (unat n) xs"
    using chip_bytes_store [of "unat a" "take (unat n) xs" "chip_mem w"] n by simp
  then obtain t2 where 2: "HW_EEPROM_ReadBuffer (ucast a) (unat n) (w\<lparr>chip_mem := ?m, tick := t1\<rparr>)
      = ((SUCC, take (unat n) xs), w\<lparr>chip_mem := ?m, tick := t2\<rparr>)"
    using ReadBuffer_ok [of "w\<lparr>chip_mem := ?m, tick := t1\<rparr>" "ucast a" "unat n"] w
      u16_bound [of a] unfolding mx by (auto simp: board_ok_def)
  have "indet w i = SUCC" for i using w by (simp add: board_ok_def bus_ok_def)
  then have "returned None (w\<lparr>chip_mem := ?m, tick := t1\<rparr>) = SUCC" by (simp add: returned_def)
  moreover have "take (unat n) (copy_over (replicate 80 0) (take (unat n) xs)) = take (unat n) xs"
    using take_copy_over [of "take (unat n) xs" "replicate 80 0"] n(3) by simp
  ultimately show ?thesis using n by (simp add: APP_PARAM_Save_def 1 2) blast
qed

lemma APP_PARAM_Read_works:
  assumes w: "board_ok w" and n: "0 < unat n" "unat n \<le> 256" "unat n \<le> length buff"
  shows "\<exists>t. APP_PARAM_Read a buff n w = Inr ((SUCC, copy_over buff (region w a (unat n))),
    set_link COMM_LINK (w\<lparr>tick := t, EEPROM_COMM_err_cnt := 0\<rparr>))"
proof -
  have "max 1 (unat n) = unat n" "unat a mod 65536 = unat a" using n u16_bound [of a] by simp_all
  then obtain t where "HW_EEPROM_ReadBuffer (ucast a) (unat n) w = ((SUCC, region w a (unat n)), w\<lparr>tick := t\<rparr>)"
    using ReadBuffer_ok [of w "ucast a" "unat n"] w by (auto simp: region_def board_ok_def)
  then show ?thesis using n by (simp add: APP_PARAM_Read_one) blast
qed

interpretation ee: working_store APP_PARAM_Save APP_PARAM_Read region board_ok
proof
  fix w a xs n
  assume "board_ok w" "fits (a, xs, n)"
  then obtain t where t: "APP_PARAM_Save a xs n w = Inr (SUCC, w\<lparr>chip_mem := store_bytes (chip_mem w)
      (unat a) (take (unat n) xs), tick := t, EEPROM_COMM_err_cnt := 0\<rparr>)"
    using APP_PARAM_Save_works by blast
  have "chip_bytes (store_bytes (chip_mem w) (unat a) (take (unat n) xs)) (unat b) k
      = chip_bytes (chip_mem w) (unat b) k"
    if "apart a (unat n) b k" "unat b + k \<le> 65536" for b k
    using that \<open>fits (a, xs, n)\<close> by (intro chip_bytes_store_other) (auto simp: apart_def fits_def)
  then show "\<exists>w1. APP_PARAM_Save a xs n w = Inr (SUCC, w1) \<and> board_ok w1
      \<and> (\<forall>b k. apart a (unat n) b k \<longrightarrow> unat b + k \<le> 65536 \<longrightarrow> region w1 b k = region w b k)"
    using t \<open>board_ok w\<close> by (simp add: region_def)
next
  fix w and n :: u16 and buff :: bytes and a
  assume "board_ok w" "0 < unat n" "unat n \<le> 256" "unat n \<le> length buff"
  then show "\<exists>ys w1. APP_PARAM_Read a buff n w = Inr ((SUCC, ys), w1) \<and> board_ok w1"
    using APP_PARAM_Read_works [of w n buff a] by auto
qed

end
