(* ===== verification/Params.thy ===== *)
theory Params
  imports ParamStore Tool
begin

text \<open>
  The typed save and read functions of \<open>APP/src/app_param_save_read.c\<close>, one definition
  per function, with the addresses of \<open>APP/inc/app_param_save_read.h\<close>. A save function
  packs its fields into a zeroed 32-byte buffer; a read function returns \<open>FAIL\<close> with its
  argument unchanged, or \<open>SUCC\<close> with the fields unpacked from its zeroed buffer.
\<close>

section \<open>Addresses\<close>

abbreviation (input) APP_EEPROM_Antenna_Param_ADDR :: u16 where "APP_EEPROM_Antenna_Param_ADDR \<equiv> 0x0000"
abbreviation (input) APP_EEPROM_HISTORY_MAX_MV_ADDR :: u16 where "APP_EEPROM_HISTORY_MAX_MV_ADDR \<equiv> 0x000C"
abbreviation (input) APP_EEPROM_ElecCode_Map_AntennaDegree_Addr :: u16 where
  "APP_EEPROM_ElecCode_Map_AntennaDegree_Addr \<equiv> 0x0010"
abbreviation (input) APP_EEPROM_LocallParamSrc_ADDR :: u16 where "APP_EEPROM_LocallParamSrc_ADDR \<equiv> 0x0030"
abbreviation (input) APP_EEPROM_LocallParam_ADDR :: u16 where "APP_EEPROM_LocallParam_ADDR \<equiv> 0x0031"
abbreviation (input) APP_EEPROM_DevSysDateTimeSrc_ADDR :: u16 where "APP_EEPROM_DevSysDateTimeSrc_ADDR \<equiv> 0x0070"
abbreviation (input) APP_EEPROM_AimAtSatMode_ADDR :: u16 where "APP_EEPROM_AimAtSatMode_ADDR \<equiv> 0x0074"
abbreviation (input) APP_EEPROM_AimAtSatWorkSta_ADDR :: u16 where "APP_EEPROM_AimAtSatWorkSta_ADDR \<equiv> 0x0075"
abbreviation (input) APP_EEPROM_AimAtSatLimitMv_ADDR :: u16 where "APP_EEPROM_AimAtSatLimitMv_ADDR \<equiv> 0x0078"
abbreviation (input) APP_EEPROM_NetWork_ADDR :: u16 where "APP_EEPROM_NetWork_ADDR \<equiv> 0x0080"
abbreviation (input) APP_EEPROM_MAC_ADDR :: u16 where "APP_EEPROM_MAC_ADDR \<equiv> 0x0090"
abbreviation (input) APP_EEPROM_PositionHardLimit_ADDR :: u16 where "APP_EEPROM_PositionHardLimit_ADDR \<equiv> 0x00A0"
abbreviation (input) APP_EEPROM_AntennaDir_Map_MotorDir_ADDR :: u16 where
  "APP_EEPROM_AntennaDir_Map_MotorDir_ADDR \<equiv> 0x00D0"
abbreviation (input) APP_EEPROM_ELECCODER_COUNT_MODE_ADDR :: u16 where
  "APP_EEPROM_ELECCODER_COUNT_MODE_ADDR \<equiv> 0x00DA"
abbreviation (input) APP_EEPROM_Dev_PowerOn_SysDateTime_ADDR :: u16 where
  "APP_EEPROM_Dev_PowerOn_SysDateTime_ADDR \<equiv> 0x00E0"
abbreviation (input) APP_EEPROM_AntennaRecord_TotalNum_ADDR :: u16 where
  "APP_EEPROM_AntennaRecord_TotalNum_ADDR \<equiv> 0x0100"
abbreviation (input) APP_EEPROM_AntennaRecord_Base_ADDR :: u16 where "APP_EEPROM_AntennaRecord_Base_ADDR \<equiv> 0x0110"
abbreviation (input) APP_EEPROM_AntennaRecord_Offset_ADDR :: u16 where
  "APP_EEPROM_AntennaRecord_Offset_ADDR \<equiv> 0x0050"
abbreviation (input) APP_EEPROM_OPTLog_TotalNum_ADDR :: u16 where "APP_EEPROM_OPTLog_TotalNum_ADDR \<equiv> 0x0800"
abbreviation (input) APP_EEPROM_OPTLog_CurrID_ADDR :: u16 where "APP_EEPROM_OPTLog_CurrID_ADDR \<equiv> 0x0804"
abbreviation (input) APP_EEPROM_WarnLog_TotalNum_ADDR :: u16 where "APP_EEPROM_WarnLog_TotalNum_ADDR \<equiv> 0x0810"
abbreviation (input) APP_EEPROM_WarnLog_CurrID_ADDR :: u16 where "APP_EEPROM_WarnLog_CurrID_ADDR \<equiv> 0x0814"
abbreviation (input) APP_EEPROM_Reset_Flag_ADDR :: u16 where "APP_EEPROM_Reset_Flag_ADDR \<equiv> 0x0820"
abbreviation (input) APP_EEPROM_Sat_TotalNum_ADDR :: u16 where "APP_EEPROM_Sat_TotalNum_ADDR \<equiv> 0x0A00"
abbreviation (input) APP_EEPROM_Sat_CurrID_ADDR :: u16 where "APP_EEPROM_Sat_CurrID_ADDR \<equiv> 0x0A08"
abbreviation (input) APP_EEPROM_CurrSatParam_ADDR :: u16 where "APP_EEPROM_CurrSatParam_ADDR \<equiv> 0x0A20"
abbreviation (input) APP_EEPROM_SatParam_Base_ADDR :: u16 where "APP_EEPROM_SatParam_Base_ADDR \<equiv> 0x0A40"
abbreviation (input) APP_EEPROM_SatParam_OffSet_ADDR :: u16 where "APP_EEPROM_SatParam_OffSet_ADDR \<equiv> 0x0020"

section \<open>Buffers\<close>

text \<open>\<open>INT8U savebuff[32] = {0}\<close> with \<open>index\<close> bytes put into it, passed with \<open>index\<close>.\<close>

definition savebuff :: "bytes \<Rightarrow> bytes" where
  "savebuff xs = copy_over (replicate 32 0) xs"

definition save_param :: "u16 \<Rightarrow> bytes \<Rightarrow> status io" where
  "save_param addr xs = APP_PARAM_Save addr (savebuff xs) (of_nat (length xs))"

text \<open>\<open>INT8U readbuff[bufsize] = {0}; if(APP_PARAM_Read(addr,readbuff,len) == FAIL) return FAIL;\<close>
  and the assignments that follow.\<close>

definition read_param :: "u16 \<Rightarrow> nat \<Rightarrow> u16 \<Rightarrow> 'a \<Rightarrow> (bytes \<Rightarrow> 'a) \<Rightarrow> (status \<times> 'a) io" where
  "read_param addr bufsize len old unpack =
     bind_io (APP_PARAM_Read addr (replicate bufsize 0) len) (\<lambda>(r, readbuff).
       ret_io (if r = FAIL then (FAIL, old) else (SUCC, unpack readbuff)))"

section \<open>Save functions\<close>

definition APP_PARAM_DevPowerOnSysDateTime_Save :: "strSysDateTime \<Rightarrow> status io" where
  "APP_PARAM_DevPowerOnSysDateTime_Save t =
     save_param APP_EEPROM_Dev_PowerOn_SysDateTime_ADDR
       (be16 (sdt_year t) @ [sdt_month t, sdt_day t, sdt_hour t, sdt_min t, sdt_senc t])"

definition APP_PARAM_AntennaParam_Save :: "strAntennaParam \<Rightarrow> status io" where
  "APP_PARAM_AntennaParam_Save p =
     save_param APP_EEPROM_Antenna_Param_ADDR
       ([ant_type p] @ be32 (ant_offset_angle p) @ [ant_caliber p] @ be32 (ant_lo_freq p)
        @ [ant_gain_range_flag p, ant_elec_coder_num p])"

definition APP_PARAM_ElecCode_count_mode_Save :: "u8 \<Rightarrow> u8 \<Rightarrow> status io" where
  "APP_PARAM_ElecCode_count_mode_Save ElecCode_addr count_mode =
     save_param (APP_EEPROM_ELECCODER_COUNT_MODE_ADDR + ucast ElecCode_addr - 1) [count_mode]"

definition elec_map_bytes :: "(fp32 \<Rightarrow> u32) \<Rightarrow> strElecCoderMapAntenna \<Rightarrow> bytes" where
  "elec_map_bytes conv e = be32 (conv (fp_mul1000 (Antenna_degree e)))
     @ be32 (conv (fp_mul1000 (ElecCoder_degree e))) @ [ElecCoder_count_mode e]"

definition APP_PARAM_ElecCode_Map_AntennaDegree_Save :: "strAllElecCoderMapAntenna \<Rightarrow> status io" where
  "APP_PARAM_ElecCode_Map_AntennaDegree_Save a =
     save_param APP_EEPROM_ElecCode_Map_AntennaDegree_Addr
       (elec_map_bytes fp_to_u32 (ElecCoderMapAntenna a ! 0)
        @ elec_map_bytes fp_to_u32 (ElecCoderMapAntenna a ! 1)
        @ elec_map_bytes fp_to_s32 (ElecCoderMapAntenna a ! 2) @ [SatPolarType a])"

definition APP_PARAM_AntennaDir_Map_MotorDir_Save :: "u8 \<Rightarrow> strAntennaDirMapMotor \<Rightarrow> status io" where
  "APP_PARAM_AntennaDir_Map_MotorDir_Save AntennaPart m =
     save_param (APP_EEPROM_AntennaDir_Map_MotorDir_ADDR + (ucast AntennaPart - 1) * 2)
       [motor_dir m ! 0, motor_dir m ! 1]"

definition APP_PARAM_LocallParamSrc_Save :: "u8 \<Rightarrow> status io" where
  "APP_PARAM_LocallParamSrc_Save src_flag = save_param APP_EEPROM_LocallParamSrc_ADDR [src_flag]"

definition APP_PARAM_LocallHandParam_Save :: "strHandLocalPositionParam \<Rightarrow> status io" where
  "APP_PARAM_LocallHandParam_Save p =
     save_param APP_EEPROM_LocallParam_ADDR
       ([hp_lon_flag p] @ be32 (fp_to_u32 (fp_mul1000 (hp_lon p)))
        @ [hp_lat_flag p] @ be32 (fp_to_u32 (fp_mul1000 (hp_lat p))) @ be32 (hp_height p))"

definition APP_PARAM_DevSysDateTimeSrc_Save :: "u8 \<Rightarrow> status io" where
  "APP_PARAM_DevSysDateTimeSrc_Save src_flag = save_param APP_EEPROM_DevSysDateTimeSrc_ADDR [src_flag]"

definition APP_PARAM_AimAtSatMode_Save :: "u8 \<Rightarrow> status io" where
  "APP_PARAM_AimAtSatMode_Save mode = save_param APP_EEPROM_AimAtSatMode_ADDR [mode]"

definition APP_PARAM_AimAtSatWorkSta_Save :: "u8 \<Rightarrow> status io" where
  "APP_PARAM_AimAtSatWorkSta_Save sta = save_param APP_EEPROM_AimAtSatWorkSta_ADDR [sta]"

definition APP_PARAM_NetWork_Save :: "strNetWork \<Rightarrow> status io" where
  "APP_PARAM_NetWork_Save n =
     save_param APP_EEPROM_NetWork_ADDR (be32 (nw_ip_addr n) @ be32 (nw_mask n) @ be32 (nw_gate n))"

definition APP_PARAM_MAC_Save :: "strNetWork \<Rightarrow> status io" where
  "APP_PARAM_MAC_Save n = save_param APP_EEPROM_MAC_ADDR (map (\<lambda>i. nw_mac n ! i) [0..<6])"

definition APP_PARAM_HardWareLimit_Save :: "u8 \<Rightarrow> u8 \<Rightarrow> u32 \<Rightarrow> status io" where
  "APP_PARAM_HardWareLimit_Save part limit_part limit_data =
     save_param (APP_EEPROM_PositionHardLimit_ADDR + (ucast part - 1) * 16
       + ucast (limit_part AND 0x0F) * 4) (be32 limit_data)"

definition APP_PARAM_AntennaRecord_TotalNum_Save :: "u32 \<Rightarrow> status io" where
  "APP_PARAM_AntennaRecord_TotalNum_Save n = save_param APP_EEPROM_AntennaRecord_TotalNum_ADDR (be32 n)"

definition antenna_record_addr :: "u8 \<Rightarrow> u16" where
  "antenna_record_addr rid = APP_EEPROM_AntennaRecord_Base_ADDR
     + (ucast rid - 1) * APP_EEPROM_AntennaRecord_Offset_ADDR"

definition APP_PARAM_AntennaRecord_Save :: "u8 \<Rightarrow> bytes \<Rightarrow> u16 \<Rightarrow> status io" where
  "APP_PARAM_AntennaRecord_Save rid buff len = APP_PARAM_Save (antenna_record_addr rid) buff len"

fun clear_records :: "nat \<Rightarrow> u16 \<Rightarrow> status io" where
  "clear_records 0 addr = ret_io SUCC"
| "clear_records (Suc n) addr =
     bind_io (APP_PARAM_Save addr (replicate 64 0) 64)
       (\<lambda>_. clear_records n (addr + APP_EEPROM_AntennaRecord_Offset_ADDR))"

definition APP_PARAM_AntennaRecord_AllClear :: "status io" where
  "APP_PARAM_AntennaRecord_AllClear = clear_records ANTENNA_RECORD_MAX_NUM APP_EEPROM_AntennaRecord_Base_ADDR"

definition APP_PARAM_OPTLog_TotalNum_Save :: "u32 \<Rightarrow> status io" where
  "APP_PARAM_OPTLog_TotalNum_Save n = save_param APP_EEPROM_OPTLog_TotalNum_ADDR (be32 n)"

definition APP_PARAM_OPTLog_CurrID_Save :: "u32 \<Rightarrow> status io" where
  "APP_PARAM_OPTLog_CurrID_Save rid = save_param APP_EEPROM_OPTLog_CurrID_ADDR (be32 rid)"

definition APP_PARAM_WarnLog_TotalNum_Save :: "u32 \<Rightarrow> status io" where
  "APP_PARAM_WarnLog_TotalNum_Save n = save_param APP_EEPROM_WarnLog_TotalNum_ADDR (be32 n)"

definition APP_PARAM_WarnLog_CurrID_Save :: "u32 \<Rightarrow> status io" where
  "APP_PARAM_WarnLog_CurrID_Save rid = save_param APP_EEPROM_WarnLog_CurrID_ADDR (be32 rid)"

definition APP_PARAM_SatTotalNum_Save :: "u16 \<Rightarrow> status io" where
  "APP_PARAM_SatTotalNum_Save n = save_param APP_EEPROM_Sat_TotalNum_ADDR (be16 n)"

definition APP_PARAM_SatCurrID_Save :: "u8 \<Rightarrow> status io" where
  "APP_PARAM_SatCurrID_Save rid = save_param APP_EEPROM_Sat_CurrID_ADDR [rid]"

definition sat_bytes :: "u8 \<Rightarrow> strSatParam \<Rightarrow> bytes" where
  "sat_bytes rid s = [rid] @ sat_name s @ [sat_lon_flag s] @ be32 (fp_to_u32 (fp_mul1000 (sat_lon s)))
     @ be32 (sat_freq s) @ [sat_polar_type s]"

definition APP_PARAM_CurrSatParam_Save :: "strSatParam \<Rightarrow> status io" where
  "APP_PARAM_CurrSatParam_Save s = save_param APP_EEPROM_CurrSatParam_ADDR (sat_bytes 0x00 s)"

definition sat_addr :: "u8 \<Rightarrow> u16" where
  "sat_addr rid = (ucast rid - 1) * APP_EEPROM_SatParam_OffSet_ADDR + APP_EEPROM_SatParam_Base_ADDR"

definition APP_PARAM_SatParam_Save :: "strSatParam \<Rightarrow> status io" where
  "APP_PARAM_SatParam_Save s =
     (if sat_id s \<le> 0 then ret_io FAIL else save_param (sat_addr (sat_id s)) (sat_bytes (sat_id s) s))"

definition APP_PARAM_EthRelinkResetMCUFlagSet_Save :: "status io" where
  "APP_PARAM_EthRelinkResetMCUFlagSet_Save = save_param APP_EEPROM_Reset_Flag_ADDR [1]"

definition APP_PARAM_EthRelinkResetMCUFlag_Del :: "status io" where
  "APP_PARAM_EthRelinkResetMCUFlag_Del = save_param APP_EEPROM_Reset_Flag_ADDR [0]"

definition APP_PARAM_Sat_Del :: "strSatParam \<Rightarrow> status io" where
  "APP_PARAM_Sat_Del s =
     (if sat_id s \<le> 0 then ret_io FAIL else APP_PARAM_Save (sat_addr (sat_id s)) (replicate 32 0) 1)"

definition APP_PARAM_AimAtSatParamLimitmv_Save :: "strSeekSatParam \<Rightarrow> status io" where
  "APP_PARAM_AimAtSatParamLimitmv_Save s = save_param APP_EEPROM_AimAtSatLimitMv_ADDR (be32 (AimAtSat_Limit_mv s))"

text \<open>\<open>(INT32U)history_max_mv\<close> converts the pointer: \<open>ptr\<close> is the address the caller
  passes, \<open>value\<close> what it points to.\<close>

definition APP_PARAM_HistoryMaxMv_Save :: "u32 \<Rightarrow> fp32 \<Rightarrow> status io" where
  "APP_PARAM_HistoryMaxMv_Save ptr value w =
     save_param APP_EEPROM_HISTORY_MAX_MV_ADDR (be32 ptr)
       (w\<lparr>acu := (acu w)\<lparr>ACUCurrSta := (ACUCurrSta (acu w))\<lparr>history_max_mv := value, AGC_max_mv := value\<rparr>\<rparr>\<rparr>)"

section \<open>Read functions\<close>

definition clamp_coder_num :: "u8 \<Rightarrow> u8" where
  "clamp_coder_num n = (if n < 2 \<or> n > 3 then 2 else n)"

definition APP_PARAM_AntennaParam_Read :: "strAntennaParam \<Rightarrow> (status \<times> strAntennaParam) io" where
  "APP_PARAM_AntennaParam_Read p =
     read_param APP_EEPROM_Antenna_Param_ADDR 32 12 p (\<lambda>b.
       p\<lparr>ant_type := b ! 0, ant_offset_angle := int32_at b 1, ant_caliber := b ! 5,
         ant_lo_freq := int32_at b 6, ant_gain_range_flag := b ! 10,
         ant_elec_coder_num := clamp_coder_num (b ! 11)\<rparr>)"

definition elec_map_at :: "(u32 \<Rightarrow> fp32) \<Rightarrow> bytes \<Rightarrow> nat \<Rightarrow> strElecCoderMapAntenna" where
  "elec_map_at conv b i =
     \<lparr>ElecCoder_count_mode = b ! (i + 8), ElecCoder_degree = fp_div1000d (conv (int32_at b (i + 4))),
      Antenna_degree = fp_div1000d (conv (int32_at b i))\<rparr>"

definition APP_PARAM_ElecCode_Map_AntennaDegree_Read ::
    "strAllElecCoderMapAntenna \<Rightarrow> (status \<times> strAllElecCoderMapAntenna) io" where
  "APP_PARAM_ElecCode_Map_AntennaDegree_Read a =
     read_param APP_EEPROM_ElecCode_Map_AntennaDegree_Addr 32 28 a (\<lambda>b.
       a\<lparr>ElecCoderMapAntenna := (ElecCoderMapAntenna a)[0 := elec_map_at fp_of_u32 b 0,
           1 := elec_map_at fp_of_u32 b 9, 2 := elec_map_at fp_of_s32 b 18],
         SatPolarType := b ! 27\<rparr>)"

definition APP_PARAM_LocallParamSrc_Read :: "u8 \<Rightarrow> (status \<times> u8) io" where
  "APP_PARAM_LocallParamSrc_Read old = read_param APP_EEPROM_LocallParamSrc_ADDR 32 1 old (\<lambda>b. b ! 0)"

definition APP_PARAM_LocallHandParam_Read ::
    "strHandLocalPositionParam \<Rightarrow> (status \<times> strHandLocalPositionParam) io" where
  "APP_PARAM_LocallHandParam_Read p =
     read_param APP_EEPROM_LocallParam_ADDR 32 14 p (\<lambda>b.
       p\<lparr>hp_lon_flag := b ! 0, hp_lon := fp_div1000 (fp_of_u32 (int32_at b 1)),
         hp_lat_flag := b ! 5, hp_lat := fp_div1000 (fp_of_u32 (int32_at b 6)),
         hp_height := int32_at b 10\<rparr>)"

definition APP_PARAM_DevSysDateTimeSrc_Read :: "u8 \<Rightarrow> (status \<times> u8) io" where
  "APP_PARAM_DevSysDateTimeSrc_Read old = read_param APP_EEPROM_DevSysDateTimeSrc_ADDR 32 1 old (\<lambda>b. b ! 0)"

definition APP_PARAM_AimAtSatMode_Read :: "u8 \<Rightarrow> (status \<times> u8) io" where
  "APP_PARAM_AimAtSatMode_Read old = read_param APP_EEPROM_AimAtSatMode_ADDR 32 1 old (\<lambda>b. b ! 0)"

definition APP_PARAM_AimAtSatWorkSta_Read :: "u8 \<Rightarrow> (status \<times> u8) io" where
  "APP_PARAM_AimAtSatWorkSta_Read old = read_param APP_EEPROM_AimAtSatWorkSta_ADDR 32 1 old (\<lambda>b. b ! 0)"

definition APP_PARAM_NetWork_Read :: "strNetWork \<Rightarrow> (status \<times> strNetWork) io" where
  "APP_PARAM_NetWork_Read n =
     read_param APP_EEPROM_NetWork_ADDR 32 12 n (\<lambda>b.
       n\<lparr>nw_ip_addr := int32_at b 0, nw_mask := int32_at b 4, nw_gate := int32_at b 8\<rparr>)"

definition APP_PARAM_MAC_Read :: "strNetWork \<Rightarrow> (status \<times> strNetWork) io" where
  "APP_PARAM_MAC_Read n =
     read_param APP_EEPROM_MAC_ADDR 32 6 n (\<lambda>b. n\<lparr>nw_mac := copy_over (nw_mac n) (take 6 b)\<rparr>)"

definition APP_PARAM_ElecCode_count_mode_Read :: "u8 \<Rightarrow> u8 \<Rightarrow> (status \<times> u8) io" where
  "APP_PARAM_ElecCode_count_mode_Read ElecCode_addr old =
     read_param (APP_EEPROM_ELECCODER_COUNT_MODE_ADDR + ucast ElecCode_addr - 1) 32 1 old (\<lambda>b.
       if b ! 0 \<noteq> 0xE1 \<and> b ! 0 \<noteq> 0xE2 then 0xE1 else b ! 0)"

definition APP_PARAM_HardWareLimit_Read :: "u8 \<Rightarrow> u8 \<Rightarrow> u32 \<Rightarrow> (status \<times> u32) io" where
  "APP_PARAM_HardWareLimit_Read part limit_part old =
     read_param (APP_EEPROM_PositionHardLimit_ADDR + (ucast part - 1) * 16
       + ucast (limit_part AND 0x0F) * 4) 32 4 old (\<lambda>b. int32_at b 0)"

definition APP_PARAM_AntennaRecord_TotalNum_Read :: "u32 \<Rightarrow> (status \<times> u32) io" where
  "APP_PARAM_AntennaRecord_TotalNum_Read old =
     read_param APP_EEPROM_AntennaRecord_TotalNum_ADDR 32 4 old (\<lambda>b. int32_at b 0)"

text \<open>Reads into the caller's buffer.\<close>

definition APP_PARAM_AntennaRecord_Read :: "u8 \<Rightarrow> bytes \<Rightarrow> (status \<times> bytes) io" where
  "APP_PARAM_AntennaRecord_Read rid p = APP_PARAM_Read (antenna_record_addr rid) p 80"

definition APP_PARAM_AntennaRecord_Read2Struct ::
    "u8 \<Rightarrow> strSatParam \<times> strAntennaParam \<times> fp32 \<times> fp32 \<times> fp32
      \<Rightarrow> (status \<times> strSatParam \<times> strAntennaParam \<times> fp32 \<times> fp32 \<times> fp32) io" where
  "APP_PARAM_AntennaRecord_Read2Struct rid old =
     read_param (antenna_record_addr rid) 100 80 old (\<lambda>b.
       (case old of (s, a, _) \<Rightarrow>
         (s\<lparr>sat_name := take 16 (drop 8 b), sat_lon_flag := b ! 24,
            sat_lon := fp_div1000d (fp_of_u32 (int32_at b 25)), sat_freq := int32_at b 29,
            sat_polar_type := b ! 33\<rparr>,
          a\<lparr>ant_type := b ! 34, ant_offset_angle := int32_at b 35, ant_caliber := b ! 39,
            ant_lo_freq := int32_at b 40, ant_gain_range_flag := b ! 44,
            ant_elec_coder_num := clamp_coder_num (b ! 45)\<rparr>,
          fp_div1000d (fp_of_u32 (int32_at b 54)), fp_div1000d (fp_of_u32 (int32_at b 58)),
          fp_div1000d (fp_of_s32 (int32_at b 62)))))"

definition APP_PARAM_OPTLog_TotalNum_Read :: "u32 \<Rightarrow> (status \<times> u32) io" where
  "APP_PARAM_OPTLog_TotalNum_Read old = read_param APP_EEPROM_OPTLog_TotalNum_ADDR 32 4 old (\<lambda>b. int32_at b 0)"

definition APP_PARAM_OPTLog_CurrID_Read :: "u32 \<Rightarrow> (status \<times> u32) io" where
  "APP_PARAM_OPTLog_CurrID_Read old = read_param APP_EEPROM_OPTLog_CurrID_ADDR 32 4 old (\<lambda>b. int32_at b 0)"

definition APP_PARAM_WarnLog_TotalNum_Read :: "u32 \<Rightarrow> (status \<times> u32) io" where
  "APP_PARAM_WarnLog_TotalNum_Read old = read_param APP_EEPROM_WarnLog_TotalNum_ADDR 32 4 old (\<lambda>b. int32_at b 0)"

definition APP_PARAM_WarnLog_CurrID_Read :: "u32 \<Rightarrow> (status \<times> u32) io" where
  "APP_PARAM_WarnLog_CurrID_Read old = read_param APP_EEPROM_WarnLog_CurrID_ADDR 32 4 old (\<lambda>b. int32_at b 0)"

definition APP_PARAM_SatTotalNum_Read :: "u16 \<Rightarrow> (status \<times> u16) io" where
  "APP_PARAM_SatTotalNum_Read old =
     read_param APP_EEPROM_Sat_TotalNum_ADDR 32 2 old (\<lambda>b. un16 (b ! 0) (b ! 1))"

definition APP_PARAM_SatCurrID_Read :: "u8 \<Rightarrow> (status \<times> u8) io" where
  "APP_PARAM_SatCurrID_Read old = read_param APP_EEPROM_Sat_CurrID_ADDR 32 1 old (\<lambda>b. b ! 0)"

definition sat_at :: "bytes \<Rightarrow> strSatParam" where
  "sat_at b = \<lparr>sat_id = b ! 0, sat_name = take 16 (drop 1 b), sat_lon_flag = b ! 17,
     sat_lon = fp_div1000 (fp_of_u32 (int32_at b 18)), sat_freq = int32_at b 22, sat_polar_type = b ! 26\<rparr>"

definition APP_PARAM_CurrSatParam_Read :: "strSatParam \<Rightarrow> (status \<times> strSatParam) io" where
  "APP_PARAM_CurrSatParam_Read s = read_param APP_EEPROM_CurrSatParam_ADDR 32 27 s sat_at"

definition APP_PARAM_AimAtSatParamLimitmv_Read :: "strSeekSatParam \<Rightarrow> (status \<times> strSeekSatParam) io" where
  "APP_PARAM_AimAtSatParamLimitmv_Read s =
     read_param APP_EEPROM_AimAtSatLimitMv_ADDR 32 4 s (\<lambda>b. s\<lparr>AimAtSat_Limit_mv := int32_at b 0\<rparr>)"

definition set_motor_dir :: "strAntennaDirMapMotor \<Rightarrow> u8 \<Rightarrow> u8 \<Rightarrow> strAntennaDirMapMotor" where
  "set_motor_dir m x y = m\<lparr>motor_dir := (motor_dir m)[0 := x, 1 := y]\<rparr>"

definition APP_PARAM_AntennaDir_Map_MotorDir_Read :: "strAntennaParam \<Rightarrow> (status \<times> strAntennaParam) io" where
  "APP_PARAM_AntennaDir_Map_MotorDir_Read p =
     read_param APP_EEPROM_AntennaDir_Map_MotorDir_ADDR 32 6 p (\<lambda>b.
       let ms = AntennaDirMapMotor p
       in p\<lparr>AntennaDirMapMotor := ms[0 := set_motor_dir (ms ! 0) (b ! 0) (b ! 1),
              1 := set_motor_dir (ms ! 1) (b ! 2) (b ! 3), 2 := set_motor_dir (ms ! 2) (b ! 4) (b ! 5)]\<rparr>)"

definition APP_PARAM_SatParam_Read :: "strSatParam \<Rightarrow> (status \<times> strSatParam) io" where
  "APP_PARAM_SatParam_Read s =
     (if sat_id s \<le> 0 then ret_io (FAIL, s)
      else bind_io (APP_PARAM_Read (sat_addr (sat_id s)) (replicate 32 0) 27) (\<lambda>(r, b).
        ret_io (if r = FAIL then (FAIL, s) else if sat_id s \<noteq> b ! 0 then (FAIL, s) else (SUCC, sat_at b))))"

text \<open>The sum of shifts is a signed \<open>int\<close> here.\<close>

definition APP_PARAM_HistoryMaxMv_Read :: "fp32 \<Rightarrow> (status \<times> fp32) io" where
  "APP_PARAM_HistoryMaxMv_Read old =
     read_param APP_EEPROM_HISTORY_MAX_MV_ADDR 32 4 old (\<lambda>b. fp_of_s32 (int32_at b 0))"

text \<open>Returns an \<open>INT8U\<close>: \<open>FAIL\<close> becomes 255.\<close>

definition APP_PARAM_EthRelinkResetMCUFlag_Read :: "u8 io" where
  "APP_PARAM_EthRelinkResetMCUFlag_Read =
     bind_io (APP_PARAM_Read APP_EEPROM_Reset_Flag_ADDR (replicate 32 0) 1) (\<lambda>(r, b).
       ret_io (if r = FAIL then 255 else b ! 0))"

definition APP_PARAM_DevPowerOnSysDateTime_Read :: "strSysDateTime \<Rightarrow> (status \<times> strSysDateTime) io" where
  "APP_PARAM_DevPowerOnSysDateTime_Read t =
     read_param APP_EEPROM_Dev_PowerOn_SysDateTime_ADDR 32 7 t (\<lambda>b.
       t\<lparr>sdt_year := un16 (b ! 0) (b ! 1), sdt_month := b ! 2, sdt_day := b ! 3, sdt_hour := b ! 4,
         sdt_min := b ! 5, sdt_senc := b ! 6\<rparr>)"

section \<open>The address map\<close>

text \<open>Start and size of every slot the functions above write, in the order of the
  addresses: ten antenna records of 80 bytes and 100 satellites of 27.\<close>

definition param_layout :: "(u16 \<times> nat) list" where
  "param_layout =
     [(APP_EEPROM_Antenna_Param_ADDR, 12), (APP_EEPROM_HISTORY_MAX_MV_ADDR, 4),
      (APP_EEPROM_ElecCode_Map_AntennaDegree_Addr, 28), (APP_EEPROM_LocallParamSrc_ADDR, 1),
      (APP_EEPROM_LocallParam_ADDR, 14), (APP_EEPROM_DevSysDateTimeSrc_ADDR, 1),
      (APP_EEPROM_AimAtSatMode_ADDR, 1), (APP_EEPROM_AimAtSatWorkSta_ADDR, 1),
      (APP_EEPROM_AimAtSatLimitMv_ADDR, 4), (APP_EEPROM_NetWork_ADDR, 12), (APP_EEPROM_MAC_ADDR, 6)]
     @ [(APP_EEPROM_PositionHardLimit_ADDR, 4), (APP_EEPROM_PositionHardLimit_ADDR + 4, 4),
        (APP_EEPROM_PositionHardLimit_ADDR + 16, 4), (APP_EEPROM_PositionHardLimit_ADDR + 20, 4),
        (APP_EEPROM_PositionHardLimit_ADDR + 32, 4), (APP_EEPROM_PositionHardLimit_ADDR + 36, 4)]
     @ [(APP_EEPROM_AntennaDir_Map_MotorDir_ADDR, 2), (APP_EEPROM_AntennaDir_Map_MotorDir_ADDR + 2, 2),
        (APP_EEPROM_AntennaDir_Map_MotorDir_ADDR + 4, 2), (APP_EEPROM_ELECCODER_COUNT_MODE_ADDR, 1),
        (APP_EEPROM_ELECCODER_COUNT_MODE_ADDR + 1, 1), (APP_EEPROM_ELECCODER_COUNT_MODE_ADDR + 2, 1),
        (APP_EEPROM_Dev_PowerOn_SysDateTime_ADDR, 7), (APP_EEPROM_AntennaRecord_TotalNum_ADDR, 4)]
     @ map (\<lambda>i. (antenna_record_addr (of_nat i), 80)) [1..<Suc ANTENNA_RECORD_MAX_NUM]
     @ [(APP_EEPROM_OPTLog_TotalNum_ADDR, 4), (APP_EEPROM_OPTLog_CurrID_ADDR, 4),
        (APP_EEPROM_WarnLog_TotalNum_ADDR, 4), (APP_EEPROM_WarnLog_CurrID_ADDR, 4),
        (APP_EEPROM_Reset_Flag_ADDR, 1), (APP_EEPROM_Sat_TotalNum_ADDR, 2),
        (APP_EEPROM_Sat_CurrID_ADDR, 1), (APP_EEPROM_CurrSatParam_ADDR, 27)]
     @ map (\<lambda>i. (sat_addr (of_nat i), 27)) [1..<Suc SAT_MAX_NUM]"

definition below :: "u16 \<times> nat \<Rightarrow> u16 \<times> nat \<Rightarrow> bool" where
  "below r q \<longleftrightarrow> unat (fst r) + snd r \<le> unat (fst q)"

lemma sorted_apart:
  "sorted_wrt below rs \<Longrightarrow> (a, m) \<in> set rs \<Longrightarrow> (b, n) \<in> set rs \<Longrightarrow> a \<noteq> b \<Longrightarrow> apart a m b n"
  by (induction rs) (auto simp: apart_def below_def)

lemma unat_sat_addr: "unat (sat_addr i) = 0xA20 + 32 * unat i"
proof -
  have "sat_addr i = 0xA20 + 32 * ucast i" by (simp add: sat_addr_def algebra_simps)
  then show ?thesis using u8_bound [of i] by (simp add: unat_word_ariths)
qed

lemma unat_record_addr: "unat (antenna_record_addr i) = 0xC0 + 80 * unat i"
proof -
  have "antenna_record_addr i = 0xC0 + 80 * ucast i" by (simp add: antenna_record_addr_def algebra_simps)
  then show ?thesis using u8_bound [of i] by (simp add: unat_word_ariths)
qed

lemma slots_sorted:
  "sorted_wrt below (map (\<lambda>i. (sat_addr (of_nat i), 27)) [1..<Suc 100])"
  "sorted_wrt below (map (\<lambda>i. (antenna_record_addr (of_nat i), 80)) [1..<Suc 10])"
  by (simp_all only: sorted_wrt_map, rule sorted_wrt_mono_rel [OF _ sorted_wrt_upt],
      auto simp: below_def unat_sat_addr unat_of_nat,
      rule sorted_wrt_mono_rel [OF _ sorted_wrt_upt], auto simp: below_def unat_record_addr unat_of_nat)

lemma layout_sorted: "sorted_wrt below param_layout"
  unfolding param_layout_def using slots_sorted
  by (simp add: sorted_wrt_append below_def ball_Un unat_sat_addr unat_record_addr unat_of_nat del: upt_Suc)

lemma layout_bounds: "(a, m) \<in> set param_layout \<Longrightarrow> 0 < m \<and> m \<le> 80 \<and> unat a + m \<le> 65536"
  by (auto simp: param_layout_def unat_sat_addr unat_record_addr unat_of_nat)

end
