(* ===== verification/ParamLaws.thy ===== *)
theory ParamLaws
  imports Params
begin

text \<open>
  What the typed parameter functions of \<open>Params\<close> guarantee: round trips of every kind of
  record, the drift of coordinates stored in thousandths, deletion, the address map, and
  the whole store as a map from slots to what was last saved in them.
\<close>

section \<open>From bytes to typed values\<close>

lemma length_savebuff [simp]: "length xs \<le> 32 \<Longrightarrow> length (savebuff xs) = 32"
  by (simp add: savebuff_def)

lemma take_savebuff [simp]: "take (length xs) (savebuff xs) = xs"
  by (simp add: savebuff_def)

lemma unat_length_u16: "length xs \<le> 32 \<Longrightarrow> unat (of_nat (length xs) :: u16) = length xs"
  by (simp add: unat_of_nat)

lemma read_param_SUCC [faults]:
  "read_param addr bufsize len old unpack w = Inr ((SUCC, v), w2) \<longleftrightarrow>
     (\<exists>ys. APP_PARAM_Read addr (replicate bufsize 0) len w = Inr ((SUCC, ys), w2) \<and> v = unpack ys)"
  by (auto simp: read_param_def bind_io_Inr split: if_splits) (metis status.exhaust)+

text \<open>What was saved is what is unpacked, whatever the hardware does in between calls that
  report success.\<close>

lemma save_then_read:
  assumes s: "save_param addr xs w = Inr (SUCC, w1)"
    and r: "read_param addr bufsize len old unpack w1 = Inr ((SUCC, v), w2)"
    and len: "0 < length xs" "length xs \<le> 32" "unat len = length xs"
  shows "v = unpack (copy_over (replicate bufsize 0) xs)"
proof -
  obtain ys where ys: "APP_PARAM_Read addr (replicate bufsize 0) len w1 = Inr ((SUCC, ys), w2)"
    "v = unpack ys" using r by (auto simp: read_param_SUCC)
  have "len = of_nat (length xs)"
    using len unat_length_u16 [OF len(2)] by (simp add: word_unat_eq_iff)
  with ee.load_after_save [OF s [unfolded save_param_def], of "replicate bufsize 0" ys w2] ys len
  show ?thesis by (simp add: unat_length_u16)
qed

lemma un32_be32_Suc [simp]:
  "un32 (be32 d ! 0) (be32 d ! Suc 0) (be32 d ! Suc (Suc 0)) (be32 d ! 3) = d"
  using un32_be32 [of d] by (simp only: numeral_2_eq_2)

lemmas unpacked = copy_over_def int32_at_def nth_append nth_Cons'

section \<open>Properties\<close>

text \<open>Whatever the hardware does, a parameter whose save reported success is read back
  byte for byte by a read that reports success.\<close>

theorem saved_bytes_are_read:
  assumes "APP_PARAM_Save a xs n w = Inr (SUCC, w1)" "APP_PARAM_Read a buff n w1 = Inr ((SUCC, ys), w2)"
    "0 < unat n" "unat n \<le> 256"
  shows "ys = copy_over buff (take (unat n) xs)"
  using assms by (rule ee.load_after_save)

text \<open>a network configuration that was saved is read back field by field; the port and
  the hardware address are not part of it.\<close>

theorem network_roundtrip:
  assumes "APP_PARAM_NetWork_Save n w = Inr (SUCC, w1)" "APP_PARAM_NetWork_Read m w1 = Inr ((SUCC, m'), w2)"
  shows "m' = m\<lparr>nw_ip_addr := nw_ip_addr n, nw_mask := nw_mask n, nw_gate := nw_gate n\<rparr>"
proof -
  have "m' = (\<lambda>b. m\<lparr>nw_ip_addr := int32_at b 0, nw_mask := int32_at b 4, nw_gate := int32_at b 8\<rparr>)
      (copy_over (replicate 32 0) (be32 (nw_ip_addr n) @ be32 (nw_mask n) @ be32 (nw_gate n)))"
    using save_then_read [OF assms [unfolded APP_PARAM_NetWork_Save_def APP_PARAM_NetWork_Read_def]]
    by simp
  then show ?thesis by (simp add: unpacked)
qed

text \<open>The antenna parameters are read back as saved, with the number of encoders
  forced to 2 unless it is 2 or 3.\<close>

theorem antenna_param_roundtrip:
  assumes "APP_PARAM_AntennaParam_Save p w = Inr (SUCC, w1)"
    "APP_PARAM_AntennaParam_Read q w1 = Inr ((SUCC, q'), w2)"
  shows "q' = q\<lparr>ant_type := ant_type p, ant_offset_angle := ant_offset_angle p,
    ant_caliber := ant_caliber p, ant_lo_freq := ant_lo_freq p,
    ant_gain_range_flag := ant_gain_range_flag p,
    ant_elec_coder_num := (if ant_elec_coder_num p \<in> {2, 3} then ant_elec_coder_num p else 2)\<rparr>"
proof -
  have "n < 2 \<or> 3 < n \<longleftrightarrow> n \<notin> {2, 3}" for n :: u8
    by (auto simp: word_less_nat_alt word_unat_eq_iff)
  then have "clamp_coder_num n = (if n \<in> {2, 3} then n else 2)" for n
    by (simp add: clamp_coder_num_def)
  with save_then_read [OF assms [unfolded APP_PARAM_AntennaParam_Save_def APP_PARAM_AntennaParam_Read_def]]
  show ?thesis by (simp add: unpacked)
qed

text \<open>A coordinate after it has been stored in thousandths and read back.\<close>

definition stored_milli :: "fp32 \<Rightarrow> fp32" where
  "stored_milli x = fp_div1000 (fp_of_u32 (fp_to_u32 (fp_mul1000 x)))"

text \<open>A satellite that was saved is read back under its number: name, frequency and
  polarisation are exact, the longitude is the saved one cut to thousandths of a degree.\<close>

theorem satellite_roundtrip:
  assumes s: "APP_PARAM_SatParam_Save s w = Inr (SUCC, w1)" and name: "length (sat_name s) = 16"
    and r: "sat_id old = sat_id s" "APP_PARAM_SatParam_Read old w1 = Inr ((SUCC, s'), w2)"
  shows "s' = s\<lparr>sat_lon := stored_milli (sat_lon s)\<rparr>"
proof -
  have i: "sat_id s \<noteq> 0" using s by (auto simp: APP_PARAM_SatParam_Save_def)
  have "read_param (sat_addr (sat_id s)) 32 27 old sat_at w1 = Inr ((SUCC, s'), w2)"
    using r i by (auto simp: APP_PARAM_SatParam_Read_def read_param_def bind_io_Inr split: if_splits)
  then have "s' = sat_at (copy_over (replicate 32 0) (sat_bytes (sat_id s) s))"
    using save_then_read [of "sat_addr (sat_id s)" "sat_bytes (sat_id s) s" w w1 32 27 old sat_at s' w2] s i name
    by (simp add: APP_PARAM_SatParam_Save_def sat_bytes_def)
  then show ?thesis using name by (simp add: sat_at_def sat_bytes_def unpacked stored_milli_def)
qed

text \<open>a position entered by hand is read back with its height exact and its coordinates
  cut to thousandths of a degree.\<close>

theorem hand_position_roundtrip:
  assumes "APP_PARAM_LocallHandParam_Save p w = Inr (SUCC, w1)"
    "APP_PARAM_LocallHandParam_Read q w1 = Inr ((SUCC, q'), w2)"
  shows "q' = q\<lparr>hp_lon_flag := hp_lon_flag p, hp_lon := stored_milli (hp_lon p),
    hp_lat_flag := hp_lat_flag p, hp_lat := stored_milli (hp_lat p), hp_height := hp_height p\<rparr>"
  using save_then_read [OF assms [unfolded APP_PARAM_LocallHandParam_Save_def APP_PARAM_LocallHandParam_Read_def]]
  by (simp add: unpacked stored_milli_def)

text \<open>the date of the last power-on is read back field by field.\<close>

theorem power_on_date_roundtrip:
  assumes "APP_PARAM_DevPowerOnSysDateTime_Save t w = Inr (SUCC, w1)"
    "APP_PARAM_DevPowerOnSysDateTime_Read u w1 = Inr ((SUCC, u'), w2)"
  shows "u' = u\<lparr>sdt_year := sdt_year t, sdt_month := sdt_month t, sdt_day := sdt_day t,
    sdt_hour := sdt_hour t, sdt_min := sdt_min t, sdt_senc := sdt_senc t\<rparr>"
  using save_then_read [OF assms [unfolded APP_PARAM_DevPowerOnSysDateTime_Save_def
      APP_PARAM_DevPowerOnSysDateTime_Read_def]]
  by (simp add: unpacked)

text \<open>The mapping of the three encoders to antenna angles is read back with its counting
  modes; the angles of azimuth and elevation pass through an unsigned, those of the
  polarisation through a signed number of thousandths.\<close>

theorem encoder_map_roundtrip:
  assumes "APP_PARAM_ElecCode_Map_AntennaDegree_Save a w = Inr (SUCC, w1)"
    "APP_PARAM_ElecCode_Map_AntennaDegree_Read b w1 = Inr ((SUCC, b'), w2)"
    "length (ElecCoderMapAntenna b) = 3"
  defines "u \<equiv> \<lambda>x. fp_div1000d (fp_of_u32 (fp_to_u32 (fp_mul1000 x)))"
    and "v \<equiv> \<lambda>x. fp_div1000d (fp_of_s32 (fp_to_s32 (fp_mul1000 x)))"
    and "m \<equiv> \<lambda>f e. \<lparr>ElecCoder_count_mode = ElecCoder_count_mode e,
      ElecCoder_degree = f (ElecCoder_degree e), Antenna_degree = f (Antenna_degree e)\<rparr>"
  shows "b' = \<lparr>ElecCoderMapAntenna = [m u (ElecCoderMapAntenna a ! 0), m u (ElecCoderMapAntenna a ! 1),
    m v (ElecCoderMapAntenna a ! 2)], SatPolarType = SatPolarType a\<rparr>"
proof -
  obtain x y z where b: "ElecCoderMapAntenna b = [x, y, z]"
    using assms(3) by (auto simp: numeral_3_eq_3 length_Suc_conv)
  show ?thesis
    using save_then_read [OF assms(1,2) [unfolded APP_PARAM_ElecCode_Map_AntennaDegree_Save_def
        APP_PARAM_ElecCode_Map_AntennaDegree_Read_def]]
    by (simp add: unpacked elec_map_bytes_def elec_map_at_def b u_def v_def m_def)
qed

text \<open>A longitude that was loaded as \<open>k\<close> thousandths and is saved again comes back as
  \<open>k\<close> or \<open>k - 1\<close> thousandths.\<close>

theorem longitude_resave:
  assumes "APP_PARAM_SatParam_Save s w = Inr (SUCC, w1)" "length (sat_name s) = 16"
    "sat_id old = sat_id s" "APP_PARAM_SatParam_Read old w1 = Inr ((SUCC, s'), w2)"
    "sat_lon s = fp_div1000 (fp_of_u32 k)" "0 < unat k" "unat k < 4194304"
  shows "sat_lon s' \<in> {fp_div1000 (fp_of_u32 k), fp_div1000 (fp_of_u32 (k - 1))}"
proof -
  have i: "sat_id s \<noteq> 0" using assms(1) by (auto simp: APP_PARAM_SatParam_Save_def)
  have "read_param (sat_addr (sat_id s)) 32 27 old sat_at w1 = Inr ((SUCC, s'), w2)"
    using assms(3,4) i by (auto simp: APP_PARAM_SatParam_Read_def read_param_def bind_io_Inr split: if_splits)
  then have "s' = sat_at (copy_over (replicate 32 0) (sat_bytes (sat_id s) s))"
    using save_then_read [of "sat_addr (sat_id s)" "sat_bytes (sat_id s) s" w w1 32 27 old sat_at s' w2]
      assms(1,2) i by (simp add: APP_PARAM_SatParam_Save_def sat_bytes_def)
  then have "sat_lon s' = stored_milli (sat_lon s)"
    using assms(2) by (simp add: sat_at_def sat_bytes_def unpacked stored_milli_def)
  then show ?thesis using fp_milli_stored [OF assms(6,7)] assms(5) by (auto simp: stored_milli_def)
qed

lemma region_head: "0 < n \<Longrightarrow> region w a n ! 0 = region w a 1 ! 0"
  by (simp add: region_def chip_bytes_def)

text \<open>After a deletion that reported success, reading the satellite of that number
  fails and leaves the caller's structure as it was.\<close>

theorem deleted_satellite_not_found:
  assumes d: "APP_PARAM_Sat_Del s w = Inr (SUCC, w1)"
    and r: "sat_id old = sat_id s" "APP_PARAM_SatParam_Read old w1 = Inr ((r, s'), w2)"
  shows "r = FAIL \<and> s' = old"
proof -
  have i: "sat_id s \<noteq> 0" and "APP_PARAM_Save (sat_addr (sat_id s)) (replicate 32 0) 1 w = Inr (SUCC, w1)"
    using d by (auto simp: APP_PARAM_Sat_Del_def split: if_splits)
  then have z: "region w1 (sat_addr (sat_id s)) 1 ! 0 = 0"
    using ee.save_view [of "sat_addr (sat_id s)" "replicate 32 0" 1 w w1] by simp
  obtain q ys where q: "APP_PARAM_Read (sat_addr (sat_id s)) (replicate 32 0) 27 w1 = Inr ((q, ys), w2)"
    "(r, s') = (if q = FAIL then (FAIL, old) else if sat_id s \<noteq> ys ! 0 then (FAIL, old) else (SUCC, sat_at ys))"
    using r i by (auto simp: APP_PARAM_SatParam_Read_def bind_io_Inr)
  show ?thesis
  proof (cases q)
    case SUCC
    then have "ys = copy_over (replicate 32 0) (region w1 (sat_addr (sat_id s)) 27)"
      using ee.load_view [of "sat_addr (sat_id s)" "replicate 32 0" 27 w1 ys w2] q(1) by simp
    then have "ys ! 0 = 0" using z region_head [of 27 w1] by (simp add: nth_copy_over)
    with q(2) i SUCC show ?thesis by (auto split: if_splits)
  qed (use q(2) in auto)
qed

text \<open>\<open>APP_PARAM_HistoryMaxMv_Save\<close> stores the address of the value instead of the
  value: what is read back is the converted pointer, whatever the value was.\<close>

theorem history_stores_pointer:
  assumes "APP_PARAM_HistoryMaxMv_Save ptr value w = Inr (SUCC, w1)"
    "APP_PARAM_HistoryMaxMv_Read old w1 = Inr ((SUCC, v), w2)"
  shows "v = fp_of_s32 ptr"
  using save_then_read [OF assms [unfolded APP_PARAM_HistoryMaxMv_Save_def APP_PARAM_HistoryMaxMv_Read_def]]
  by (simp add: unpacked)

text \<open>Every slot of the address map lies apart from every other one, below 64 KiB.\<close>

theorem parameter_slots_disjoint:
  assumes "(a, m) \<in> set param_layout" "(b, n) \<in> set param_layout" "a \<noteq> b"
  shows "apart a m b n \<and> unat a + m \<le> 65536"
  using sorted_apart [OF layout_sorted assms] layout_bounds [OF assms(1)] by simp

text \<open>C8: on working hardware the parameter area is a map from slots to their last saved bytes: any sequence of saves into slots of
  the layout, none longer than its slot, succeeds; and a read of a slot, of as many bytes as the saves into it wrote, delivers what
  was last saved there, or what it held before if nothing was.\<close>

theorem parameter_store_is_map:
  assumes w: "board_ok w" and ops: "\<forall>(a, xs, n) \<in> set ops. fits (a, xs, n)
      \<and> (\<exists>m. (a, m) \<in> set param_layout \<and> unat n \<le> m) \<and> (a = b \<longrightarrow> n = k)"
    and b: "(b, m) \<in> set param_layout" "0 < unat k" "unat k \<le> m" "unat k \<le> length buff"
  shows "\<exists>w1 w2. save_all APP_PARAM_Save ops w = Inr (replicate (length ops) SUCC, w1)
    \<and> APP_PARAM_Read b buff k w1
        = Inr ((SUCC, copy_over buff (last_saved ops b (region w b (unat k)))), w2)"
proof (rule ee.load_last_saved [OF w])
  show "\<forall>op \<in> set ops. fits op" using ops by auto
  show "unat b + unat k \<le> 65536" "unat k \<le> 256" using layout_bounds [OF b(1)] b(3) by auto
  show "\<forall>(a, xs, n) \<in> set ops. a = b \<and> unat n = unat k \<or> a \<noteq> b \<and> apart a (unat n) b (unat k)"
  proof (clarify)
    fix a xs n
    assume "(a, xs, n) \<in> set ops" "\<not> (a \<noteq> b \<and> apart a (unat n) b (unat k))"
    moreover from this(1) ops obtain m' where m': "(a, m') \<in> set param_layout" "unat n \<le> m'" "a = b \<longrightarrow> n = k"
      by blast
    ultimately show "a = b \<and> unat n = unat k"
      using sorted_apart [OF layout_sorted m'(1) b(1)] b(3) by (cases "a = b") (auto simp: apart_def)
  qed
qed (use b in auto)

section \<open>Runs on a fresh board\<close>

lemma fresh_ok [simp]: "board_ok fresh_board"
  by (simp add: board_ok_def)

lemma save_param_works:
  assumes "board_ok w" "0 < length xs" "length xs \<le> 32" "unat a + length xs \<le> 65536"
  shows "\<exists>w1. save_param a xs w = Inr (SUCC, w1) \<and> board_ok w1"
  using ee.save_works [OF assms(1), of a "savebuff xs" "of_nat (length xs)"] assms
  by (auto simp: save_param_def fits_def unat_length_u16)

lemma read_param_works:
  assumes "board_ok w" "0 < unat len" "unat len \<le> bufsize" "bufsize \<le> 100"
  shows "\<exists>v w1. read_param a bufsize len old unpack w = Inr ((SUCC, v), w1)"
  using ee.load_works [OF assms(1), of len "replicate bufsize 0" a] assms
  by (auto simp: read_param_SUCC)

lemma save_read_run:
  assumes "0 < length xs" "length xs \<le> 32" "unat a + length xs \<le> 65536" "0 < unat len" "unat len \<le> 32"
  shows "\<exists>w1 w2 v. save_param a xs fresh_board = Inr (SUCC, w1)
    \<and> read_param a 32 len old unpack w1 = Inr ((SUCC, v), w2)"
proof -
  obtain w1 where 1: "save_param a xs fresh_board = Inr (SUCC, w1)" "board_ok w1"
    using save_param_works [OF fresh_ok assms(1-3)] by blast
  then show ?thesis using read_param_works [OF 1(2) assms(4,5), of a old unpack] by auto
qed

theorem saved_bytes_witness:
  "\<exists>w1 w2 ys. APP_PARAM_Save 0x1F8 (replicate 16 7) 16 fresh_board = Inr (SUCC, w1)
    \<and> APP_PARAM_Read 0x1F8 (replicate 20 0) 16 w1 = Inr ((SUCC, ys), w2)
    \<and> ys = replicate 16 7 @ replicate 4 0"
proof -
  obtain w1 where 1: "APP_PARAM_Save 0x1F8 (replicate 16 7) 16 fresh_board = Inr (SUCC, w1)" "board_ok w1"
    using ee.save_works [OF fresh_ok, of "0x1F8" "replicate 16 7" 16] by (auto simp: fits_def)
  obtain ys w2 where 2: "APP_PARAM_Read 0x1F8 (replicate 20 0) 16 w1 = Inr ((SUCC, ys), w2)"
    using ee.load_works [OF 1(2), of 16 "replicate 20 0" "0x1F8"] by auto
  with 1 saved_bytes_are_read [OF 1(1) 2] show ?thesis by (simp add: copy_over_def)
qed

theorem network_witness:
  "\<exists>w1 w2 m. APP_PARAM_NetWork_Save (zero_strNetWork\<lparr>nw_ip_addr := 0xC0A80107\<rparr>) fresh_board = Inr (SUCC, w1)
    \<and> APP_PARAM_NetWork_Read zero_strNetWork w1 = Inr ((SUCC, m), w2) \<and> nw_ip_addr m = 0xC0A80107"
proof -
  have "\<exists>w1 w2 m. APP_PARAM_NetWork_Save (zero_strNetWork\<lparr>nw_ip_addr := 0xC0A80107\<rparr>) fresh_board = Inr (SUCC, w1)
      \<and> APP_PARAM_NetWork_Read zero_strNetWork w1 = Inr ((SUCC, m), w2)"
    unfolding APP_PARAM_NetWork_Save_def APP_PARAM_NetWork_Read_def by (rule save_read_run) simp_all
  then show ?thesis using network_roundtrip by fastforce
qed

theorem antenna_param_witness:
  "\<exists>w1 w2 q. APP_PARAM_AntennaParam_Save (zero_strAntennaParam\<lparr>ant_elec_coder_num := 9\<rparr>) fresh_board = Inr (SUCC, w1)
    \<and> APP_PARAM_AntennaParam_Read zero_strAntennaParam w1 = Inr ((SUCC, q), w2) \<and> ant_elec_coder_num q = 2"
proof -
  have "\<exists>w1 w2 q. APP_PARAM_AntennaParam_Save (zero_strAntennaParam\<lparr>ant_elec_coder_num := 9\<rparr>) fresh_board = Inr (SUCC, w1)
      \<and> APP_PARAM_AntennaParam_Read zero_strAntennaParam w1 = Inr ((SUCC, q), w2)"
    unfolding APP_PARAM_AntennaParam_Save_def APP_PARAM_AntennaParam_Read_def by (rule save_read_run) simp_all
  then show ?thesis using antenna_param_roundtrip by fastforce
qed

definition demo_sat :: strSatParam where
  "demo_sat = \<lparr>sat_id = 7, sat_name = replicate 16 0x41, sat_lon_flag = 0,
     sat_lon = fp_div1000 (fp_of_u32 251), sat_freq = 12500000, sat_polar_type = 1\<rparr>"

lemma demo_sat_sel [simp]:
  "sat_id demo_sat = 7" "length (sat_name demo_sat) = 16" "sat_lon demo_sat = fp_div1000 (fp_of_u32 251)"
  by (simp_all add: demo_sat_def)

lemma demo_sat_run:
  "\<exists>w1 w2 s. APP_PARAM_SatParam_Save demo_sat fresh_board = Inr (SUCC, w1)
    \<and> APP_PARAM_SatParam_Read demo_sat w1 = Inr ((SUCC, s), w2)"
proof -
  have l: "length (sat_bytes 7 demo_sat) = 27" by (simp add: sat_bytes_def)
  obtain w1 where 1: "save_param (sat_addr 7) (sat_bytes 7 demo_sat) fresh_board = Inr (SUCC, w1)" "board_ok w1"
    using save_param_works [OF fresh_ok, of "sat_bytes 7 demo_sat" "sat_addr 7"] l
    by (auto simp: unat_sat_addr)
  obtain ys w2 where 2: "APP_PARAM_Read (sat_addr 7) (replicate 32 0) 27 w1 = Inr ((SUCC, ys), w2)"
    using ee.load_works [OF 1(2), of 27 "replicate 32 0" "sat_addr 7"] by auto
  have "ys = copy_over (replicate 32 0) (sat_bytes 7 demo_sat)"
    using ee.load_after_save [OF 1(1) [unfolded save_param_def], of "replicate 32 0" ys w2] 2 l
      take_savebuff [of "sat_bytes 7 demo_sat"] by simp
  then have "ys ! 0 = 7" by (simp add: sat_bytes_def nth_copy_over)
  with 1 2 show ?thesis
    by (simp add: APP_PARAM_SatParam_Save_def APP_PARAM_SatParam_Read_def)
qed

theorem satellite_witness:
  "\<exists>w1 w2 s. APP_PARAM_SatParam_Save demo_sat fresh_board = Inr (SUCC, w1)
    \<and> APP_PARAM_SatParam_Read demo_sat w1 = Inr ((SUCC, s), w2)
    \<and> s = demo_sat\<lparr>sat_lon := fp_div1000 (fp_of_u32 250)\<rparr>"
  using demo_sat_run satellite_roundtrip [of demo_sat fresh_board _ demo_sat] fp_251
  by (fastforce simp: stored_milli_def)

theorem longitude_witness:
  "\<exists>w1 w2 s. APP_PARAM_SatParam_Save demo_sat fresh_board = Inr (SUCC, w1)
    \<and> APP_PARAM_SatParam_Read demo_sat w1 = Inr ((SUCC, s), w2)
    \<and> sat_lon s \<in> {fp_div1000 (fp_of_u32 251), fp_div1000 (fp_of_u32 250)}"
  using demo_sat_run longitude_resave [of demo_sat fresh_board _ demo_sat _ _ 251] by fastforce

theorem hand_position_witness:
  "\<exists>w1 w2 q. APP_PARAM_LocallHandParam_Save (zero_strHandLocalPositionParam\<lparr>hp_height := 1200\<rparr>) fresh_board = Inr (SUCC, w1)
    \<and> APP_PARAM_LocallHandParam_Read zero_strHandLocalPositionParam w1 = Inr ((SUCC, q), w2) \<and> hp_height q = 1200"
proof -
  have "\<exists>w1 w2 q. APP_PARAM_LocallHandParam_Save (zero_strHandLocalPositionParam\<lparr>hp_height := 1200\<rparr>) fresh_board = Inr (SUCC, w1)
      \<and> APP_PARAM_LocallHandParam_Read zero_strHandLocalPositionParam w1 = Inr ((SUCC, q), w2)"
    unfolding APP_PARAM_LocallHandParam_Save_def APP_PARAM_LocallHandParam_Read_def by (rule save_read_run) simp_all
  then show ?thesis using hand_position_roundtrip by fastforce
qed

theorem power_on_date_witness:
  "\<exists>w1 w2 u. APP_PARAM_DevPowerOnSysDateTime_Save (zero_strSysDateTime\<lparr>sdt_year := 2024\<rparr>) fresh_board = Inr (SUCC, w1)
    \<and> APP_PARAM_DevPowerOnSysDateTime_Read zero_strSysDateTime w1 = Inr ((SUCC, u), w2) \<and> sdt_year u = 2024"
proof -
  have "\<exists>w1 w2 u. APP_PARAM_DevPowerOnSysDateTime_Save (zero_strSysDateTime\<lparr>sdt_year := 2024\<rparr>) fresh_board = Inr (SUCC, w1)
      \<and> APP_PARAM_DevPowerOnSysDateTime_Read zero_strSysDateTime w1 = Inr ((SUCC, u), w2)"
    unfolding APP_PARAM_DevPowerOnSysDateTime_Save_def APP_PARAM_DevPowerOnSysDateTime_Read_def
    by (rule save_read_run) simp_all
  then show ?thesis using power_on_date_roundtrip by fastforce
qed

definition demo_map :: strAllElecCoderMapAntenna where
  "demo_map = zero_strAllElecCoderMapAntenna\<lparr>SatPolarType := 2\<rparr>"

lemma demo_map_length [simp]: "length (ElecCoderMapAntenna demo_map) = 3"
  by (simp add: demo_map_def zero_strAllElecCoderMapAntenna_def)

theorem encoder_map_witness:
  "\<exists>w1 w2 b. APP_PARAM_ElecCode_Map_AntennaDegree_Save demo_map fresh_board = Inr (SUCC, w1)
    \<and> APP_PARAM_ElecCode_Map_AntennaDegree_Read demo_map w1 = Inr ((SUCC, b), w2)
    \<and> SatPolarType b = 2 \<and> length (ElecCoderMapAntenna b) = 3"
proof -
  have "\<exists>w1 w2 b. APP_PARAM_ElecCode_Map_AntennaDegree_Save demo_map fresh_board = Inr (SUCC, w1)
      \<and> APP_PARAM_ElecCode_Map_AntennaDegree_Read demo_map w1 = Inr ((SUCC, b), w2)"
    unfolding APP_PARAM_ElecCode_Map_AntennaDegree_Save_def APP_PARAM_ElecCode_Map_AntennaDegree_Read_def
    by (rule save_read_run) (simp_all add: elec_map_bytes_def)
  then obtain w1 w2 b where r: "APP_PARAM_ElecCode_Map_AntennaDegree_Save demo_map fresh_board = Inr (SUCC, w1)"
    "APP_PARAM_ElecCode_Map_AntennaDegree_Read demo_map w1 = Inr ((SUCC, b), w2)" by blast
  then show ?thesis using encoder_map_roundtrip [OF r demo_map_length] by (auto simp: demo_map_def)
qed

theorem deleted_satellite_witness:
  "\<exists>w1 w2. APP_PARAM_Sat_Del demo_sat fresh_board = Inr (SUCC, w1)
    \<and> APP_PARAM_SatParam_Read demo_sat w1 = Inr ((FAIL, demo_sat), w2)"
proof -
  obtain w1 where 1: "APP_PARAM_Sat_Del demo_sat fresh_board = Inr (SUCC, w1)" "board_ok w1"
    using ee.save_works [OF fresh_ok, of "sat_addr 7" "replicate 32 0" 1]
    by (auto simp: APP_PARAM_Sat_Del_def fits_def unat_sat_addr)
  obtain r s w2 where 2: "APP_PARAM_SatParam_Read demo_sat w1 = Inr ((r, s), w2)"
    using ee.load_works [OF 1(2), of 27 "replicate 32 0" "sat_addr 7"]
    by (force simp: APP_PARAM_SatParam_Read_def)
  with 1 deleted_satellite_not_found [OF 1(1) _ 2] show ?thesis by simp
qed

theorem history_witness:
  "\<exists>w1 w2. APP_PARAM_HistoryMaxMv_Save 0x2000 1500 fresh_board = Inr (SUCC, w1)
    \<and> APP_PARAM_HistoryMaxMv_Read 0 w1 = Inr ((SUCC, fp_of_s32 0x2000), w2)"
proof -
  let ?w = "fresh_board\<lparr>acu := (acu fresh_board)\<lparr>ACUCurrSta := (ACUCurrSta (acu fresh_board))
    \<lparr>history_max_mv := 1500, AGC_max_mv := 1500\<rparr>\<rparr>\<rparr>"
  have "board_ok ?w" by (simp add: board_ok_def)
  then obtain w1 where 1: "APP_PARAM_HistoryMaxMv_Save 0x2000 1500 fresh_board = Inr (SUCC, w1)" "board_ok w1"
    using save_param_works [of ?w "be32 0x2000" "0xC"] by (auto simp: APP_PARAM_HistoryMaxMv_Save_def)
  obtain v w2 where 2: "APP_PARAM_HistoryMaxMv_Read 0 w1 = Inr ((SUCC, v), w2)"
    using read_param_works [OF 1(2), of 4 32 "0xC"] by (fastforce simp: APP_PARAM_HistoryMaxMv_Read_def)
  with 1 history_stores_pointer [OF 1(1) 2] show ?thesis by blast
qed

lemma layout_some: "(0x80, 12) \<in> set param_layout" "(0xE0, 7) \<in> set param_layout"
  by (simp_all add: param_layout_def)

theorem parameter_slots_disjoint_witness: "apart 0x80 12 0xE0 7 \<and> unat (0x80 :: u16) + 12 \<le> 65536"
  using parameter_slots_disjoint [OF layout_some] by simp

theorem parameter_store_is_map_witness:
  "\<exists>w1 w2. save_all APP_PARAM_Save [(0x80, replicate 32 1, 12), (0xE0, replicate 32 2, 7), (0x80, replicate 32 3, 12)]
      fresh_board = Inr ([SUCC, SUCC, SUCC], w1)
    \<and> APP_PARAM_Read 0x80 (replicate 12 0) 12 w1 = Inr ((SUCC, replicate 12 3), w2)"
  using parameter_store_is_map [OF fresh_ok, of "[(0x80, replicate 32 1, 12), (0xE0, replicate 32 2, 7),
      (0x80, replicate 32 3, 12)]" "0x80" 12 12 "replicate 12 0"] layout_some
  by (auto simp: fits_def copy_over_def numeral_3_eq_3)

end
