(* ===== verification/PduUart.thy ===== *)
theory PduUart
  imports Prelude
begin

text \<open>
  The receive side of \<open>HW/hw_pducomm.c\<close>: the interrupt handler that collects a frame of
  the power and drive unit (PDU) byte by byte, and the routines that take or clear the
  buffer. A frame is \<open>0xBC\<close>, the number of data bytes, the data, a checksum and \<open>0xCB\<close>.
  \<open>frame_posts\<close> counts the posts of the receive semaphore. A run is a list of events in
  the order the processor takes them; \<open>uart_reach\<close> are the reachable states.
\<close>

section \<open>The code\<close>

abbreviation (input) SWIFTUART4BuffSize :: nat where "SWIFTUART4BuffSize \<equiv> 64"

record uart =
  pbuff :: bytes
  write_p :: nat
  frame_posts :: nat
  pdu_linked :: bool

text \<open>\<open>SWIFT_UART4_RecvBuff\<close> copies into the caller's buffer of \<open>room\<close> bytes.\<close>

definition SWIFT_UART4_RecvBuff :: "nat \<Rightarrow> (bytes, uart) st" where
  "SWIFT_UART4_RecvBuff room u =
     (if write_p u > room then Inl OutOfBounds
      else Inr (take (write_p u) (pbuff u), u\<lparr>write_p := 0\<rparr>))"

definition SWIFT_UART4_RecvBuff_Clear :: "uart \<Rightarrow> uart" where
  "SWIFT_UART4_RecvBuff_Clear u = u\<lparr>write_p := 0, pbuff := replicate SWIFTUART4BuffSize 0\<rparr>"

text \<open>All cases of the command switch are commented out: what is left is the copy into
  \<open>rxbuff[32]\<close> and the link status.\<close>

definition SWIFT_UART4_UrgentDeal :: "uart \<Rightarrow> fault + uart" where
  "SWIFT_UART4_UrgentDeal u =
     bind_f (SWIFT_UART4_RecvBuff 32 u) (\<lambda>(rxbuff, u1). Inr (u1\<lparr>pdu_linked := True\<rparr>))"

definition SWITFT_UART4_IntHandler :: "u8 \<Rightarrow> uart \<Rightarrow> fault + uart" where
  "SWITFT_UART4_IntHandler b u0 =
     (if write_p u0 \<ge> length (pbuff u0) then Inl OutOfBounds
      else let u1 = u0\<lparr>pbuff := (pbuff u0)[write_p u0 := b], write_p := write_p u0 + 1\<rparr>;
               u = (if write_p u1 \<ge> SWIFTUART4BuffSize then u1\<lparr>write_p := 0\<rparr> else u1)
      in if pbuff u ! 0 = 0xBC then
           (if write_p u \<ge> 2 \<and> write_p u \<ge> unat (pbuff u ! 1) + 4 then
              bind_f (rd (pbuff u) (unat (pbuff u ! 1) + 3)) (\<lambda>e.
                if e = 0xCB then
                  (if (pbuff u ! 2) AND 0x0F = 0x0D then SWIFT_UART4_UrgentDeal u
                   else Inr (u\<lparr>frame_posts := frame_posts u + 1\<rparr>))
                else Inr (u\<lparr>write_p := 0\<rparr>))
            else Inr u)
         else Inr (u\<lparr>write_p := 0\<rparr>))"

fun receive_all :: "bytes \<Rightarrow> uart \<Rightarrow> fault + uart" where
  "receive_all [] u = Inr u"
| "receive_all (b # bs) u = bind_f (SWITFT_UART4_IntHandler b u) (receive_all bs)"

text \<open>A byte arrives, a task takes the buffer into an array of \<open>room\<close> bytes, or a task
  clears it before it sends.\<close>

inductive uart_step :: "uart \<Rightarrow> uart \<Rightarrow> bool" where
  byte: "SWITFT_UART4_IntHandler b u = Inr u' \<Longrightarrow> uart_step u u'"
| recv: "SWIFT_UART4_RecvBuff room u = Inr (bs, u') \<Longrightarrow> uart_step u u'"
| clear: "uart_step u (SWIFT_UART4_RecvBuff_Clear u)"

definition uart_init :: uart where
  "uart_init = \<lparr>pbuff = replicate SWIFTUART4BuffSize 0, write_p = 0, frame_posts = 0, pdu_linked = False\<rparr>"

inductive uart_reach :: "uart \<Rightarrow> bool" where
  init: "uart_reach uart_init"
| step: "uart_reach u \<Longrightarrow> uart_step u u' \<Longrightarrow> uart_reach u'"

inductive_simps uart_step_simps: "uart_step u u'"

section \<open>Invariant\<close>

definition uart_inv :: "uart \<Rightarrow> bool" where
  "uart_inv u \<longleftrightarrow> length (pbuff u) = SWIFTUART4BuffSize \<and> write_p u < SWIFTUART4BuffSize"

lemma recv_Inr [faults]:
  "SWIFT_UART4_RecvBuff room u = Inr (bs, u') \<longleftrightarrow>
     write_p u \<le> room \<and> bs = take (write_p u) (pbuff u) \<and> u' = u\<lparr>write_p := 0\<rparr>"
  by (auto simp: SWIFT_UART4_RecvBuff_def)

lemma urgent_Inr [faults]:
  "SWIFT_UART4_UrgentDeal u = Inr u' \<longleftrightarrow> write_p u \<le> 32 \<and> u' = u\<lparr>write_p := 0, pdu_linked := True\<rparr>"
  by (auto simp: SWIFT_UART4_UrgentDeal_def faults)

lemma int_handler_inv:
  assumes "uart_inv u" "SWITFT_UART4_IntHandler b u = Inr u'"
  shows "uart_inv u'"
  using assms
  by (auto simp: SWITFT_UART4_IntHandler_def uart_inv_def Let_def bind_f_Inr urgent_Inr split: if_splits)

lemma uart_step_inv: "uart_step u u' \<Longrightarrow> uart_inv u \<Longrightarrow> uart_inv u'"
  by (auto simp: uart_step_simps recv_Inr SWIFT_UART4_RecvBuff_Clear_def intro: int_handler_inv)
    (auto simp: uart_inv_def)

lemma uart_reach_inv: "uart_reach u \<Longrightarrow> uart_inv u"
proof (induction rule: uart_reach.induct)
  case init
  show ?case by (simp add: uart_init_def uart_inv_def)
qed (rule uart_step_inv)

section \<open>Receiving a frame\<close>

lemma receive_all_append:
  "receive_all (xs @ ys) u = bind_f (receive_all xs u) (receive_all ys)"
  by (induction xs arbitrary: u) (auto simp: bind_f_def split: sum.splits)

lemma bind_receive_Nil [simp]: "bind_f m (receive_all []) = m"
  by (cases m) simp_all

definition frame :: "bytes \<Rightarrow> u8 \<Rightarrow> bytes" where
  "frame data c = [0xBC, of_nat (length data)] @ data @ [c, 0xCB]"

lemma length_frame [simp]: "length (frame data c) = length data + 4"
  by (simp add: frame_def)

lemma frame_nth:
  "frame data c ! 0 = 0xBC" "frame data c ! 1 = of_nat (length data)"
  "frame data c ! (length data + 3) = 0xCB"
  by (simp_all add: frame_def nth_append nth_Cons')

definition fill :: "nat \<Rightarrow> bytes \<Rightarrow> uart \<Rightarrow> uart" where
  "fill k bs u = u\<lparr>pbuff := take k bs @ drop k (pbuff u), write_p := k\<rparr>"

text \<open>Until its last byte, a frame is only collected.\<close>

lemma collect:
  assumes u: "uart_inv u" "write_p u = 0" and n: "length data \<le> 59"
    and k: "k \<le> length data + 3"
  shows "receive_all (take k (frame data c)) u = Inr (fill k (frame data c) u)"
  using k
proof (induction k)
  case 0
  then show ?case using u by (cases u) (simp add: fill_def)
next
  case (Suc k)
  let ?f = "frame data c"
  have k: "k < length data + 3" "k < 62" using Suc.prems n by simp_all
  have t: "take (Suc k) ?f = take k ?f @ [?f ! k]" using k by (simp add: take_Suc_conv_app_nth)
  have b: "(take k ?f @ drop k (pbuff u))[k := ?f ! k] = take (Suc k) ?f @ drop (Suc k) (pbuff u)"
    using u k unfolding t by (simp add: uart_inv_def list_update_append upd_conv_take_nth_drop)
  have l: "length (take k ?f @ drop k (pbuff u)) = 64" using u k by (simp add: uart_inv_def)
  have h: "(take (Suc k) ?f @ drop (Suc k) (pbuff u)) ! 0 = 0xBC"
    using frame_nth(1) [of data c] by (simp add: nth_append)
  have "(take (Suc k) ?f @ drop (Suc k) (pbuff u)) ! 1 = of_nat (length data)" if "2 \<le> Suc k"
    using that frame_nth(2) [of data c] k by (simp add: nth_append)
  then have "\<not> (2 \<le> Suc k \<and> unat ((take (Suc k) ?f @ drop (Suc k) (pbuff u)) ! 1) + 4 \<le> Suc k)"
    using k n by (auto simp: unat_of_nat)
  then have "SWITFT_UART4_IntHandler (?f ! k) (fill k ?f u) = Inr (fill (Suc k) ?f u)"
    using k l h b by (auto simp: SWITFT_UART4_IntHandler_def fill_def Let_def)
  then show ?case using Suc k unfolding t by (simp add: receive_all_append)
qed

lemma frame_end:
  assumes u: "uart_inv u" "write_p u = 0" and n: "length data \<le> 59"
  shows "receive_all (frame data c) u =
    (let v = fill (length data + 4) (frame data c) u
     in if (frame data c ! 2) AND 0x0F = 0x0D then SWIFT_UART4_UrgentDeal v
        else Inr (v\<lparr>frame_posts := frame_posts v + 1\<rparr>))"
proof -
  let ?f = "frame data c" and ?k = "length data + 3"
  have t: "?f = take ?k ?f @ [0xCB]" by (simp add: frame_def take_Cons')
  have b: "(take ?k ?f @ drop ?k (pbuff u))[?k := 0xCB] = ?f @ drop (length data + 4) (pbuff u)"
    using u n by (subst (2) t) (simp add: uart_inv_def list_update_append upd_conv_take_nth_drop add.commute)
  have l: "length (take ?k ?f @ drop ?k (pbuff u)) = 64" using u n by (simp add: uart_inv_def)
  have nth: "(?f @ ys) ! 0 = 0xBC" "unat ((?f @ ys) ! 1) = length data"
    "(?f @ ys) ! (length data + 3) = 0xCB" "(?f @ ys) ! 2 = ?f ! 2" for ys
    using n by (simp_all add: frame_def nth_append nth_Cons' unat_of_nat)
  have "receive_all ?f u = SWITFT_UART4_IntHandler 0xCB (fill ?k ?f u)"
    using collect [OF u n order_refl] by (subst t) (simp add: receive_all_append)
  also have "\<dots> = (let v = fill (length data + 4) ?f u
     in if (?f ! 2) AND 0x0F = 0x0D then SWIFT_UART4_UrgentDeal v
        else Inr (v\<lparr>frame_posts := frame_posts v + 1\<rparr>))"
    using l b nth n u by (simp add: SWITFT_UART4_IntHandler_def fill_def Let_def uart_inv_def
        add.commute [of _ "length data"])
  finally show ?thesis .
qed

section \<open>Properties\<close>

text \<open>C34: in every reachable state the interrupt handler stays within its 64-byte buffer:
  the only fault a byte can cause is the copy of an urgent frame of more than 32 bytes into
  \<open>rxbuff[32]\<close>.\<close>

theorem uart_handler_safe:
  assumes "uart_reach u"
  shows "uart_inv u \<and> (SWITFT_UART4_IntHandler b u = Inl e \<longrightarrow> e = OutOfBounds \<and> 32 \<le> write_p u
    \<and> ((pbuff u)[write_p u := b] ! 2) AND 0x0F = 0x0D)"
proof -
  have i: "uart_inv u" using uart_reach_inv [OF assms] .
  then show ?thesis
    by (auto simp: SWITFT_UART4_IntHandler_def Let_def bind_f_Inl uart_inv_def rd_def nth_list_update
        SWIFT_UART4_UrgentDeal_def SWIFT_UART4_RecvBuff_def split: if_splits)
qed

text \<open>A frame of up to 59 data bytes that is not urgent, received into an empty buffer,
  posts the receive semaphore exactly once, at its last byte, and a task then takes exactly
  its bytes. The checksum plays no part.\<close>

theorem frame_received_once:
  assumes "uart_reach u" "write_p u = 0" "length data \<le> 59" "(frame data c ! 2) AND 0x0F \<noteq> 0x0D"
    "length data + 4 \<le> room"
  shows "\<exists>u' u''. receive_all (frame data c) u = Inr u' \<and> frame_posts u' = frame_posts u + 1
    \<and> SWIFT_UART4_RecvBuff room u' = Inr (frame data c, u'') \<and> write_p u'' = 0
    \<and> (\<forall>k \<le> length data + 3. \<exists>v. receive_all (take k (frame data c)) u = Inr v \<and> frame_posts v = frame_posts u)"
proof -
  have i: "uart_inv u" using uart_reach_inv [OF assms(1)] .
  have "\<exists>v. receive_all (take k (frame data c)) u = Inr v \<and> frame_posts v = frame_posts u"
    if "k \<le> length data + 3" for k
    using collect [OF i assms(2,3) that] by (auto simp: fill_def)
  then show ?thesis
    using frame_end [OF i assms(2,3), of c] assms(4,5) by (auto simp: recv_Inr fill_def)
qed

text \<open>An urgent frame of 29 to 59 data bytes makes the interrupt handler write past the
  end of its local array.\<close>

theorem long_urgent_frame_overflows:
  assumes "uart_reach u" "write_p u = 0" "29 \<le> length data" "length data \<le> 59"
    "(frame data c ! 2) AND 0x0F = 0x0D"
  shows "receive_all (frame data c) u = Inl OutOfBounds"
  using frame_end [OF uart_reach_inv [OF assms(1)] assms(2,4), of c] assms(3,5)
  by (simp add: SWIFT_UART4_UrgentDeal_def SWIFT_UART4_RecvBuff_def fill_def)

section \<open>Concrete frames\<close>

theorem uart_handler_safe_witness:
  "\<forall>e. uart_inv uart_init \<and> (SWITFT_UART4_IntHandler 0xBC uart_init = Inl e \<longrightarrow> e = OutOfBounds
    \<and> 32 \<le> write_p uart_init \<and> ((pbuff uart_init)[write_p uart_init := 0xBC] ! 2) AND 0x0F = 0x0D)"
  using uart_handler_safe [OF uart_reach.init] by blast

theorem frame_received_once_witness:
  "\<exists>u' u''. receive_all (frame [0x84, 0x01, 0x00] 0x44) uart_init = Inr u' \<and> frame_posts u' = 1
    \<and> SWIFT_UART4_RecvBuff 32 u' = Inr ([0xBC, 3, 0x84, 0x01, 0x00, 0x44, 0xCB], u'')"
  using frame_received_once [OF uart_reach.init, of "[0x84, 0x01, 0x00]" "0x44" 32]
  by (auto simp: uart_init_def frame_def)

theorem long_urgent_frame_witness:
  "receive_all (frame (0x0D # replicate 39 0) 0) uart_init = Inl OutOfBounds"
  by (rule long_urgent_frame_overflows [OF uart_reach.init])
    (simp_all add: uart_init_def frame_def)

end
