(* ===== verification/PduLink.thy ===== *)
theory PduLink
  imports Tool
begin

text \<open>
  The tasks' side of the link to the power and drive unit: \<open>APP/src/app_motor.c\<close>,
  \<open>APP/src/app_pducomm.c\<close> and the receiver query of \<open>APP/src/app_gps.c\<close>. Every command
  is one transaction: a frame is sent and a reply awaited.

  \<open>replies\<close> are the buffers that the coming transactions find, \<open>None\<close> for a timeout;
  \<open>junk\<close> is what a local array holds before a reply is copied into it. A wait without a
  timeout for a semaphore that nobody will post is the fault \<open>Blocked\<close>. Delays have no
  effect on the state.
\<close>

section \<open>State\<close>

record pdu =
  dev :: strACUDevInfo
  APP_PDU_Send_Sem :: nat
  SWIFT_UART4_Send_Sem :: nat
  sent :: "bytes list"
  replies :: "bytes option list"
  junk :: "nat \<Rightarrow> u8"
  opt_log :: "u32 list"

type_synonym 'a pio = "('a, pdu) st"

definition modify :: "(pdu \<Rightarrow> pdu) \<Rightarrow> unit pio" where
  "modify f s = Inr ((), f s)"

definition upd_info :: "(strDeviceInfo \<Rightarrow> strDeviceInfo) \<Rightarrow> pdu \<Rightarrow> pdu" where
  "upd_info f s = s\<lparr>dev := (dev s)\<lparr>DeviceInfo := f (DeviceInfo (dev s))\<rparr>\<rparr>"

definition upd_sta :: "(strACUCurrSta \<Rightarrow> strACUCurrSta) \<Rightarrow> pdu \<Rightarrow> pdu" where
  "upd_sta f s = s\<lparr>dev := (dev s)\<lparr>ACUCurrSta := f (ACUCurrSta (dev s))\<rparr>\<rparr>"

definition upd_param :: "(strACUSeekSatParam \<Rightarrow> strACUSeekSatParam) \<Rightarrow> pdu \<Rightarrow> pdu" where
  "upd_param f s = s\<lparr>dev := (dev s)\<lparr>ACUParam := f (ACUParam (dev s))\<rparr>\<rparr>"

definition link_stat :: "u8 \<Rightarrow> pdu \<Rightarrow> pdu" where
  "link_stat v = upd_info (\<lambda>i. i\<lparr>PDUommStat := (PDUommStat i)\<lparr>pdu_link_stat := v\<rparr>\<rparr>)"

definition comm_stat :: "u8 \<Rightarrow> pdu \<Rightarrow> pdu" where
  "comm_stat v = upd_info (\<lambda>i. i\<lparr>PDUommStat := (PDUommStat i)\<lparr>pdu_comm_stat := v\<rparr>\<rparr>)"

text \<open>The call of \<open>APP_OptLOG_SaveCode\<close>, by the code it stores.\<close>

definition opt_log_event :: "u32 \<Rightarrow> pdu \<Rightarrow> pdu" where
  "opt_log_event code s = s\<lparr>opt_log := opt_log s @ [code]\<rparr>"

section \<open>Semaphores, frames and replies\<close>

definition sem_pend :: "unit pio" where
  "sem_pend s = (if APP_PDU_Send_Sem s = 0 then Inl Blocked
     else Inr ((), s\<lparr>APP_PDU_Send_Sem := APP_PDU_Send_Sem s - 1\<rparr>))"

definition sem_post :: "pdu \<Rightarrow> pdu" where
  "sem_post s = s\<lparr>APP_PDU_Send_Sem := APP_PDU_Send_Sem s + 1\<rparr>"

text \<open>\<open>SWIFT_UART4_SendBuff\<close>: the transmission is bracketed by its own semaphore.\<close>

definition send_command :: "bytes \<Rightarrow> unit pio" where
  "send_command cmd s =
     (if SWIFT_UART4_Send_Sem s = 0 then Inl Blocked
      else bind_f (sealed cmd) (\<lambda>f. Inr ((), s\<lparr>sent := sent s @ [f]\<rparr>)))"

text \<open>\<open>BSP_OS_Sem_Pend(&SWIFT_UART4_Rev_Sem, timeout)\<close>.\<close>

definition await_reply :: "bytes option pio" where
  "await_reply s = (case replies s of [] \<Rightarrow> Inr (None, s) | r # rs \<Rightarrow> Inr (r, s\<lparr>replies := rs\<rparr>))"

text \<open>\<open>SWIFT_UART4_RecvBuff\<close> into a local array of \<open>room\<close> bytes.\<close>

definition take_reply :: "nat \<Rightarrow> bytes \<Rightarrow> bytes pio" where
  "take_reply room r s =
     (if length r > room then Inl OutOfBounds
      else Inr (copy_over (map (junk s) [0..<room]) r, s))"

section \<open>Motor commands\<close>

definition Motor_DriveStart :: "u8 \<Rightarrow> u8 \<Rightarrow> status pio" where
  "Motor_DriveStart Motor_num direction =
     bind_io (send_command [0xBC, 0x05, 0x04, 0x01, 0x02, Motor_num, direction]) (\<lambda>_.
     bind_io await_reply (\<lambda>reply. case reply of
       None \<Rightarrow> bind_io (modify (link_stat COMM_UNLINK)) (\<lambda>_. ret_io FAIL)
     | Some r \<Rightarrow>
         bind_io (modify (link_stat COMM_LINK)) (\<lambda>_.
         bind_io (take_reply 32 r) (\<lambda>revbuff.
           ret_io (if revbuff ! 2 = 0x84 \<and> revbuff ! 3 = 0x01 then SUCC else FAIL)))))"

definition Motor_DriveEnd :: "u8 \<Rightarrow> u8 \<Rightarrow> status pio" where
  "Motor_DriveEnd Motor_num direction =
     bind_io (send_command [0xBC, 0x04, 0x04, 0x02, 0x01, Motor_num]) (\<lambda>_.
     bind_io await_reply (\<lambda>reply. case reply of
       None \<Rightarrow> bind_io (modify (link_stat COMM_UNLINK)) (\<lambda>_. ret_io FAIL)
     | Some r \<Rightarrow>
         bind_io (take_reply 32 r) (\<lambda>revbuff.
         bind_io (modify (link_stat COMM_LINK)) (\<lambda>_.
           ret_io (if revbuff ! 2 = 0x84 \<and> revbuff ! 3 = 0x02 then SUCC else FAIL)))))"

text \<open>The soft limits: a command that would move an axis further out is refused.\<close>

definition soft_limit_refuses :: "strACUDevInfo \<Rightarrow> u8 \<Rightarrow> u8 \<Rightarrow> bool" where
  "soft_limit_refuses d part direction =
     (let c = ACUCurrSta d; a = AntennaParam (ACUParam d) in
      if part = motor_position_id then
        (if antenna_position c \<le> motor_position_start a then direction = ANTENNA_DIR_LEFT_DOWN_ANTICLOCK
         else if antenna_position c \<ge> motor_position_end a then direction = ANTENNA_DIR_RIGHT_UP_CLOCK
         else False)
      else if part = motor_cabrage_id then
        (if antenna_cabrage c \<le> motor_cabrage_start a then direction = ANTENNA_DIR_LEFT_DOWN_ANTICLOCK
         else if antenna_cabrage c \<ge> motor_cabrage_end a then direction = ANTENNA_DIR_RIGHT_UP_CLOCK
         else False)
      else if part = motor_polar_id then
        (if antenna_polar c \<le> motor_polar_start a then direction = ANTENNA_DIR_LEFT_DOWN_ANTICLOCK
         else if antenna_polar c \<ge> motor_polar_end a then direction = ANTENNA_DIR_RIGHT_UP_CLOCK
         else False)
      else False)"

definition set_motor_move :: "u8 \<Rightarrow> u8 \<Rightarrow> pdu \<Rightarrow> pdu" where
  "set_motor_move part v =
     upd_sta (\<lambda>c. c\<lparr>motor_move := (motor_move c)[unat part - 1 := v]\<rparr>)"

definition is_part :: "u8 \<Rightarrow> bool" where
  "is_part p \<longleftrightarrow> \<not> (p \<noteq> motor_position_id \<and> p \<noteq> motor_cabrage_id \<and> p \<noteq> motor_polar_id)"

definition Antenna_DriveStart :: "u8 \<Rightarrow> u8 \<Rightarrow> status pio" where
  "Antenna_DriveStart part direction s =
     (if \<not> is_part part then Inr (FAIL, s)
      else if direction \<noteq> ANTENNA_DIR_LEFT_DOWN_ANTICLOCK \<and> direction \<noteq> ANTENNA_DIR_RIGHT_UP_CLOCK
      then Inr (FAIL, s)
      else if soft_limit_refuses (dev s) part direction then Inr (FAIL, s)
      else
        let map_entry = AntennaDirMapMotor (AntennaParam (ACUParam (dev s))) ! (unat part - 1);
            dir_of_motor = motor_dir map_entry ! (unat direction - 1)
        in bind_io sem_pend (\<lambda>_.
           bind_io (Motor_DriveStart part dir_of_motor) (\<lambda>sta.
           bind_io (modify (if sta = SUCC then set_motor_move part direction else (\<lambda>s. s))) (\<lambda>_.
           bind_io (modify sem_post) (\<lambda>_. ret_io sta)))) s)"

definition Antenna_DriveEnd :: "u8 \<Rightarrow> u8 \<Rightarrow> status pio" where
  "Antenna_DriveEnd part direction =
     bind_io sem_pend (\<lambda>_.
       if \<not> is_part part then bind_io (modify sem_post) (\<lambda>_. ret_io FAIL)
       else
         bind_io (Motor_DriveEnd part ANTENNA_DIR_LEFT_DOWN_ANTICLOCK) (\<lambda>sta.
         bind_io (modify (if sta = SUCC then set_motor_move part 0x00 else (\<lambda>s. s))) (\<lambda>_.
         bind_io (modify sem_post) (\<lambda>_. ret_io sta))))"

definition Motor_TimeConfigDrive :: "u8 \<Rightarrow> u8 \<Rightarrow> status pio" where
  "Motor_TimeConfigDrive Motor_num drection =
     bind_io (Antenna_DriveStart Motor_num drection) (\<lambda>r.
       if r = FAIL then ret_io FAIL
       else bind_io (Antenna_DriveEnd Motor_num drection) (\<lambda>r2.
         ret_io (if r2 = FAIL then FAIL else SUCC)))"

text \<open>One axis of \<open>Antenna_AllDriveEnd\<close>: stop it, and once more if that failed.\<close>

definition stop_axis :: "u8 \<Rightarrow> status \<Rightarrow> status pio" where
  "stop_axis part sta =
     bind_io (Antenna_DriveEnd part 0) (\<lambda>r.
       if r = FAIL then bind_io (Antenna_DriveEnd part 0) (\<lambda>r2. ret_io (if r2 = FAIL then FAIL else sta))
       else ret_io sta)"

definition Antenna_AllDriveEnd :: "status pio" where
  "Antenna_AllDriveEnd =
     bind_io (stop_axis motor_position_id SUCC) (\<lambda>sta1.
     bind_io (stop_axis motor_cabrage_id sta1) (\<lambda>sta2. stop_axis motor_polar_id sta2))"

section \<open>Queries\<close>

abbreviation (input) LOG_OPT_PDU_ADMIN_ENABLE :: u32 where "LOG_OPT_PDU_ADMIN_ENABLE \<equiv> 0x022121"
abbreviation (input) LOG_OPT_PDU_ADMIN_DISABLE :: u32 where "LOG_OPT_PDU_ADMIN_DISABLE \<equiv> 0x022122"

definition set_pdu_version :: "bytes \<Rightarrow> pdu \<Rightarrow> pdu" where
  "set_pdu_version b s = s\<lparr>dev := (dev s)\<lparr>Version := (Version (dev s))[1 :=
     (Version (dev s) ! 1)\<lparr>ver_softver := take 16 (drop 5 b), ver_hardver := take 16 (drop 21 b)\<rparr>]\<rparr>\<rparr>"

text \<open>The path with an unexpected answer returns without posting the semaphore.\<close>

definition APP_PDUCOMM_VersionQue :: "status pio" where
  "APP_PDUCOMM_VersionQue =
     bind_io sem_pend (\<lambda>_.
     bind_io (send_command [0xBC, 0x03, 0x0C, 0x0A, 0x00]) (\<lambda>_.
     bind_io await_reply (\<lambda>reply. case reply of
       None \<Rightarrow> bind_io (modify sem_post) (\<lambda>_. ret_io FAIL)
     | Some r \<Rightarrow>
         bind_io (take_reply 50 r) (\<lambda>revbuff.
           if revbuff ! 2 \<noteq> 0x8C \<or> revbuff ! 3 \<noteq> 0x0A \<or> revbuff ! 4 \<noteq> 32 then ret_io FAIL
           else bind_io (modify (set_pdu_version revbuff)) (\<lambda>_.
             bind_io (modify sem_post) (\<lambda>_. ret_io SUCC))))))"

definition set_admin :: "u8 \<Rightarrow> u8 \<Rightarrow> u8 \<Rightarrow> u8 \<Rightarrow> pdu \<Rightarrow> pdu" where
  "set_admin dev_sta adm mode seek s =
     upd_param (\<lambda>p. p\<lparr>SeekSatParam := (SeekSatParam p)\<lparr>SeekSat_Mode := seek\<rparr>\<rparr>)
       (upd_sta (\<lambda>c. c\<lparr>dev_admin_sta := dev_sta, DevAdmin := (DevAdmin c)\<lparr>adm_admin_sta := adm,
          adm_mode_sta := mode, adm_pc_admin_ip_addr := 0, adm_pc_admin_link_cnt := 0,
          adm_pc_admin_ask_ip_addr := 0\<rparr>\<rparr>) s)"

definition pdu_admin :: "u8 \<Rightarrow> pdu \<Rightarrow> pdu" where
  "pdu_admin v s =
     (if v > 0x00 then
        (if dev_admin_sta (ACUCurrSta (dev s)) \<noteq> 0x02
         then opt_log_event LOG_OPT_PDU_ADMIN_ENABLE (set_admin 0x02 0x02 0x02 0x01 s) else s)
      else if dev_admin_sta (ACUCurrSta (dev s)) = 0x02
      then opt_log_event LOG_OPT_PDU_ADMIN_DISABLE
             (upd_sta (\<lambda>c. c\<lparr>dev_work_sta := 0x00\<rparr>) (set_admin 0x00 0x00 0x00 0x00 s))
      else s)"

definition pdu_axes :: "bytes \<Rightarrow> pdu \<Rightarrow> pdu" where
  "pdu_axes b = upd_sta (\<lambda>c. c\<lparr>DevAdmin := (DevAdmin c)\<lparr>adm_stop_flag := b ! 6\<rparr>,
     antenna_position_sta := b ! 7, antenna_cabrage_sta := b ! 8, antenna_polar_sta := b ! 9\<rparr>)"

definition APP_PDUCOMM_PDUDevStaQue :: "status pio" where
  "APP_PDUCOMM_PDUDevStaQue =
     bind_io sem_pend (\<lambda>_.
     bind_io (send_command [0xBC, 0x03, 0x0C, 0x02, 0x00]) (\<lambda>_.
     bind_io await_reply (\<lambda>reply. case reply of
       None \<Rightarrow> bind_io (modify (\<lambda>s. sem_post (link_stat COMM_UNLINK (comm_stat COMM_UNLINK s)))) (\<lambda>_. ret_io FAIL)
     | Some r \<Rightarrow>
         bind_io (modify (\<lambda>s. link_stat COMM_LINK (comm_stat COMM_LINK s))) (\<lambda>_.
         bind_io (take_reply 50 r) (\<lambda>revbuff.
           if revbuff ! 2 \<noteq> 0x8C \<or> revbuff ! 3 \<noteq> 0x02 then bind_io (modify sem_post) (\<lambda>_. ret_io FAIL)
           else bind_io (modify (\<lambda>s. sem_post (pdu_axes revbuff (pdu_admin (revbuff ! 5) s)))) (\<lambda>_. ret_io SUCC))))))"

definition set_gps_valid :: "u8 \<Rightarrow> pdu \<Rightarrow> pdu" where
  "set_gps_valid v = upd_info (\<lambda>i. i\<lparr>GPSInfo := (GPSInfo i)\<lparr>GPSData := (GPSData (GPSInfo i))\<lparr>gps_valid := v\<rparr>\<rparr>\<rparr>)"

definition set_gps :: "bytes \<Rightarrow> pdu \<Rightarrow> pdu" where
  "set_gps b s =
     (let lon = int32_at b 7; lat = int32_at b 12; h = int32_at b 16
      in upd_param (\<lambda>p. p\<lparr>LocalPositionParam := (LocalPositionParam p)\<lparr>lp_data_src_flag := 0x00,
           lp_valid_flag := 0x01, lp_lon_flag := b ! 6, lp_lon := fp_div1000d (fp_of_u32 lon),
           lp_lat_flag := b ! 11, lp_lat := fp_div1000d (fp_of_u32 lat),
           lp_height := fp_to_u32 (fp_of_u32 h)\<rparr>\<rparr>)
         (upd_info (\<lambda>i. i\<lparr>GPSInfo := (GPSInfo i)\<lparr>GPSData := (GPSData (GPSInfo i))\<lparr>gps_lon_flag := b ! 6,
            gps_lon := lon, gps_lat_flag := b ! 11, gps_lat := lat, gps_height := h,
            gps_year := un16 (b ! 20) (b ! 21), gps_month := b ! 22, gps_day := b ! 23, gps_hour := b ! 24,
            gps_min := b ! 25, gps_sec := b ! 26 + 1\<rparr>\<rparr>\<rparr>) s))"

text \<open>The answer is only rejected when all three of its marks are wrong.\<close>

definition APP_GPS_DataGet :: "status pio" where
  "APP_GPS_DataGet =
     bind_io (send_command [0xBC, 0x03, 0x0C, 0x01, 0x00]) (\<lambda>_.
     bind_io await_reply (\<lambda>reply. case reply of
       None \<Rightarrow> bind_io (modify (link_stat COMM_UNLINK)) (\<lambda>_. ret_io FAIL)
     | Some r \<Rightarrow>
         bind_io (take_reply 32 r) (\<lambda>revbuff.
         bind_io (modify (link_stat COMM_LINK)) (\<lambda>_.
           if revbuff ! 2 \<noteq> 0x8C \<and> revbuff ! 3 \<noteq> 0x01 \<and> revbuff ! 4 \<noteq> 0x16 then ret_io FAIL
           else bind_io (modify (set_gps_valid (revbuff ! 5))) (\<lambda>_.
             if revbuff ! 5 \<noteq> 0x41 then ret_io FAIL
             else bind_io (modify (set_gps revbuff)) (\<lambda>_. ret_io SUCC))))))"

end
