(* ===== verification/PduLaws.thy ===== *)
theory PduLaws
  imports PduLink
begin

text \<open>
  What the commands over the link to the drive unit guarantee: the soft limits, the frames
  sent and what an acknowledgement changes, stopping all axes, and the balance of the
  semaphore that guards the link. The locale \<open>link_commands\<close> is the contract of a command
  that leaves the link free; the version query does not meet it. The locale \<open>prompt_commands\<close> is
  that of a command that returns if no answer is too long.
\<close>

section \<open>Balance of the semaphore\<close>

definition link_free :: "pdu \<Rightarrow> bool" where
  "link_free s \<longleftrightarrow> 0 < APP_PDU_Send_Sem s \<and> 0 < SWIFT_UART4_Send_Sem s"

text \<open>A step that never blocks while the transmitter is free, and changes the semaphore's
  counter by \<open>k\<close> when it returns.\<close>

definition calm :: "int \<Rightarrow> 'a pio \<Rightarrow> bool" where
  "calm k m \<longleftrightarrow> (\<forall>s. 0 < SWIFT_UART4_Send_Sem s \<longrightarrow> m s \<noteq> Inl Blocked
     \<and> (\<forall>x s'. m s = Inr (x, s') \<longrightarrow> int (APP_PDU_Send_Sem s') = int (APP_PDU_Send_Sem s) + k
          \<and> SWIFT_UART4_Send_Sem s' = SWIFT_UART4_Send_Sem s))"

lemma calmD:
  assumes "calm k m" "0 < SWIFT_UART4_Send_Sem s"
  shows "m s \<noteq> Inl Blocked"
    "m s = Inr (x, s') \<Longrightarrow> int (APP_PDU_Send_Sem s') = int (APP_PDU_Send_Sem s) + k"
    "m s = Inr (x, s') \<Longrightarrow> SWIFT_UART4_Send_Sem s' = SWIFT_UART4_Send_Sem s"
  using assms(1) [unfolded calm_def, THEN spec [of _ s], THEN mp, OF assms(2)] by simp_all

lemma calm_bind:
  assumes "calm a m" "\<And>x. calm b (k x)"
  shows "calm (a + b) (bind_io m k)"
  unfolding calm_def
proof (intro allI impI)
  fix s :: pdu
  assume s: "0 < SWIFT_UART4_Send_Sem s"
  show "bind_io m k s \<noteq> Inl Blocked
    \<and> (\<forall>x s'. bind_io m k s = Inr (x, s') \<longrightarrow> int (APP_PDU_Send_Sem s') = int (APP_PDU_Send_Sem s) + (a + b)
        \<and> SWIFT_UART4_Send_Sem s' = SWIFT_UART4_Send_Sem s)"
  proof (cases "m s")
    case (Inl e)
    then show ?thesis using calmD(1) [OF assms(1) s] by (simp add: bind_io_def)
  next
    case (Inr p)
    obtain x s1 where p: "p = (x, s1)" by (cases p)
    note 1 = calmD(2,3) [OF assms(1) s Inr [unfolded p]]
    with s have "0 < SWIFT_UART4_Send_Sem s1" by simp
    note 2 = calmD [OF assms(2) [of x] this]
    have "bind_io m k s = k x s1" using Inr p by (simp add: bind_io_def)
    then show ?thesis using 1 2 by auto
  qed
qed

lemma calm_bind0: "calm 0 m \<Longrightarrow> (\<And>x. calm b (k x)) \<Longrightarrow> calm b (bind_io m k)"
  using calm_bind [of 0 m b k] by simp

lemma calm_if: "(c \<Longrightarrow> calm k a) \<Longrightarrow> (\<not> c \<Longrightarrow> calm k b) \<Longrightarrow> calm k (if c then a else b)"
  by simp

lemma calm_option: "calm k a \<Longrightarrow> (\<And>x. calm k (f x)) \<Longrightarrow> calm k (case r of None \<Rightarrow> a | Some x \<Rightarrow> f x)"
  by (cases r) simp_all

lemma modify_Inr [simp]: "modify f s = Inr (x, s') \<longleftrightarrow> s' = f s"
  by (auto simp: modify_def)

lemma calm_ret: "calm 0 (ret_io x)"
  by (simp add: calm_def ret_io_def)

text \<open>Updates of the device record leave both semaphores alone.\<close>

definition keeps_sems :: "(pdu \<Rightarrow> pdu) \<Rightarrow> bool" where
  "keeps_sems f \<longleftrightarrow> (\<forall>s. APP_PDU_Send_Sem (f s) = APP_PDU_Send_Sem s
     \<and> SWIFT_UART4_Send_Sem (f s) = SWIFT_UART4_Send_Sem s)"

lemma keeps_sems_updates [simp]:
  "keeps_sems (\<lambda>s. s)" "keeps_sems (link_stat v)" "keeps_sems (comm_stat v)" "keeps_sems (set_motor_move p v)"
  "keeps_sems (set_pdu_version b)" "keeps_sems (pdu_axes b)" "keeps_sems (pdu_admin v)"
  "keeps_sems (set_gps_valid v)" "keeps_sems (set_gps b)"
  by (auto simp: keeps_sems_def link_stat_def comm_stat_def upd_info_def set_motor_move_def upd_sta_def
      set_pdu_version_def pdu_axes_def pdu_admin_def set_admin_def upd_param_def opt_log_event_def
      set_gps_valid_def set_gps_def Let_def)

lemma calm_modify: "keeps_sems f \<Longrightarrow> calm 0 (modify f)"
  by (simp add: calm_def keeps_sems_def) (simp add: modify_def)

lemma calm_post: "calm 1 (modify sem_post)"
  by (simp add: calm_def sem_post_def) (simp add: modify_def)

lemma calm_post_after: "keeps_sems f \<Longrightarrow> calm 1 (modify (\<lambda>s. sem_post (f s)))"
  by (simp add: calm_def sem_post_def keeps_sems_def) (simp add: modify_def)

lemma calm_post_ret:
  "calm 1 (bind_io (modify sem_post) (\<lambda>_. ret_io r))"
  "keeps_sems f \<Longrightarrow> calm 1 (bind_io (modify (\<lambda>s. sem_post (f s))) (\<lambda>_. ret_io r))"
  using calm_bind [where k = "\<lambda>_. ret_io r", OF calm_post calm_ret]
    calm_bind [where k = "\<lambda>_. ret_io r", OF calm_post_after calm_ret]
  by simp_all

lemma keeps_sems_comp [simp]:
  "keeps_sems (\<lambda>s. link_stat v (comm_stat u s))" "keeps_sems (\<lambda>s. pdu_axes b (pdu_admin v s))"
  using keeps_sems_updates by (simp_all add: keeps_sems_def)

lemma calm_send: "calm 0 (send_command cmd)"
  by (auto simp: calm_def send_command_def)

lemma calm_await: "calm 0 await_reply"
  by (auto simp: calm_def await_reply_def split: list.splits)

lemma calm_take: "calm 0 (take_reply room r)"
  by (auto simp: calm_def take_reply_def)

lemmas calm_intros = calm_send calm_await calm_take calm_ret calm_modify calm_bind0 calm_option calm_if

lemma calm_DriveStart: "calm 0 (Motor_DriveStart n d)"
  unfolding Motor_DriveStart_def by (intro calm_intros) simp_all

lemma calm_DriveEnd: "calm 0 (Motor_DriveEnd n d)"
  unfolding Motor_DriveEnd_def by (intro calm_intros) simp_all

text \<open>A command that takes the link and gives it back.\<close>

definition leaves_free :: "status pio \<Rightarrow> bool" where
  "leaves_free c \<longleftrightarrow> (\<forall>s. link_free s \<longrightarrow> c s \<noteq> Inl Blocked \<and> (\<forall>r s'. c s = Inr (r, s') \<longrightarrow> link_free s'))"

lemma bracket_leaves_free:
  assumes "\<And>x. calm 1 (body x)"
  shows "leaves_free (bind_io sem_pend body)"
proof -
  have "bind_io sem_pend body s \<noteq> Inl Blocked \<and> (\<forall>r s'. bind_io sem_pend body s = Inr (r, s') \<longrightarrow> link_free s')"
    if s: "link_free s" for s
  proof -
    let ?s = "s\<lparr>APP_PDU_Send_Sem := APP_PDU_Send_Sem s - 1\<rparr>"
    have b: "bind_io sem_pend body s = body () ?s"
      using s by (simp add: bind_io_def sem_pend_def link_free_def)
    have u: "0 < SWIFT_UART4_Send_Sem ?s" using s by (simp add: link_free_def)
    show ?thesis
      unfolding b using calmD [OF assms [of "()"] u] u by (fastforce simp: link_free_def)
  qed
  then show ?thesis by (simp add: leaves_free_def)
qed

lemma leaves_free_bind:
  assumes "leaves_free m" "\<And>x. leaves_free (k x)"
  shows "leaves_free (bind_io m k)"
  unfolding leaves_free_def
proof (intro allI impI)
  fix s assume s: "link_free s"
  show "bind_io m k s \<noteq> Inl Blocked \<and> (\<forall>r s'. bind_io m k s = Inr (r, s') \<longrightarrow> link_free s')"
  proof (cases "m s")
    case (Inr p)
    obtain x s1 where p: "p = (x, s1)" by (cases p)
    then have "link_free s1" using assms(1) s Inr by (auto simp: leaves_free_def)
    then show ?thesis using assms(2) [of x] Inr p by (auto simp: leaves_free_def bind_io_def)
  qed (use assms(1) s in \<open>auto simp: leaves_free_def bind_io_def\<close>)
qed

lemma leaves_free_ret: "leaves_free (ret_io x)"
  by (auto simp: leaves_free_def ret_io_def)

section \<open>Commands that leave the link free\<close>

fun run_commands :: "status pio list \<Rightarrow> status list pio" where
  "run_commands [] = ret_io []"
| "run_commands (c # cs) = bind_io c (\<lambda>r. bind_io (run_commands cs) (\<lambda>rs. ret_io (r # rs)))"

locale link_commands =
  fixes command :: "status pio \<Rightarrow> bool" and free :: "pdu \<Rightarrow> bool"
  assumes returns: "command c \<Longrightarrow> free s \<Longrightarrow> c s \<noteq> Inl Blocked"
    and gives_back: "command c \<Longrightarrow> free s \<Longrightarrow> c s = Inr (r, s') \<Longrightarrow> free s'"
begin

lemma run_returns:
  "free s \<Longrightarrow> \<forall>c \<in> set cs. command c \<Longrightarrow> run_commands cs s \<noteq> Inl Blocked
    \<and> (\<forall>rs s'. run_commands cs s = Inr (rs, s') \<longrightarrow> free s' \<and> length rs = length cs)"
proof (induction cs arbitrary: s)
  case (Cons c cs)
  show ?case
  proof (cases "c s")
    case (Inl e)
    then show ?thesis using returns [of c s] Cons.prems by (auto simp: bind_io_def)
  next
    case (Inr p)
    obtain r s1 where p: "p = (r, s1)" by (cases p)
    then have "free s1" using gives_back Cons.prems Inr by auto
    then show ?thesis
      using Cons.IH [of s1] Cons.prems(2) Inr p
      by (cases "run_commands cs s1") (auto simp: bind_io_def ret_io_def)
  qed
qed (simp add: ret_io_def)

end

text \<open>The commands of the tasks, except the version query.\<close>

definition link_user :: "status pio \<Rightarrow> bool" where
  "link_user c \<longleftrightarrow> (\<exists>p d. c = Antenna_DriveStart p d) \<or> (\<exists>p d. c = Antenna_DriveEnd p d)
     \<or> (\<exists>p d. c = Motor_TimeConfigDrive p d) \<or> c = Antenna_AllDriveEnd \<or> c = APP_PDUCOMM_PDUDevStaQue"

lemma DriveStart_free: "leaves_free (Antenna_DriveStart p d)"
proof -
  let ?b = "\<lambda>e _. bind_io (Motor_DriveStart p e) (\<lambda>sta.
    bind_io (modify (if sta = SUCC then set_motor_move p d else (\<lambda>s. s))) (\<lambda>_.
    bind_io (modify sem_post) (\<lambda>_. ret_io sta)))"
  have "calm 1 (?b e x)" for e x
    by (intro calm_bind0 calm_DriveStart calm_modify calm_post_ret) auto
  then have "leaves_free (bind_io sem_pend (?b e))" for e by (rule bracket_leaves_free)
  then show ?thesis
    unfolding leaves_free_def Antenna_DriveStart_def Let_def by auto
qed

lemma DriveEnd_free: "leaves_free (Antenna_DriveEnd p d)"
  unfolding Antenna_DriveEnd_def
  by (intro bracket_leaves_free calm_if calm_post_ret(1) calm_bind0 calm_DriveEnd calm_modify) auto

lemma stop_axis_free: "leaves_free (stop_axis p r)"
  unfolding stop_axis_def
  by (intro leaves_free_bind DriveEnd_free) (auto intro: leaves_free_bind DriveEnd_free leaves_free_ret)

lemma AllDriveEnd_free: "leaves_free Antenna_AllDriveEnd"
  unfolding Antenna_AllDriveEnd_def by (intro leaves_free_bind stop_axis_free)

lemma TimeConfigDrive_free: "leaves_free (Motor_TimeConfigDrive p d)"
  unfolding Motor_TimeConfigDrive_def
  by (intro leaves_free_bind DriveStart_free)
    (auto intro: leaves_free_bind DriveEnd_free leaves_free_ret)

lemma PDUDevStaQue_free: "leaves_free APP_PDUCOMM_PDUDevStaQue"
  unfolding APP_PDUCOMM_PDUDevStaQue_def
  by (intro bracket_leaves_free calm_option calm_if calm_post_ret calm_bind0 calm_send calm_await calm_take
      calm_modify) simp_all

lemma link_user_free: "link_user c \<Longrightarrow> leaves_free c"
  by (auto simp: link_user_def intro: DriveStart_free DriveEnd_free TimeConfigDrive_free AllDriveEnd_free
      PDUDevStaQue_free)

interpretation link: link_commands link_user link_free
  by unfold_locales (use link_user_free in \<open>auto simp: leaves_free_def\<close>)

section \<open>Commands whose answers fit\<close>

text \<open>A free link, on which no answer to come is longer than the smallest of the arrays that take them.\<close>

definition link_ok :: "pdu \<Rightarrow> bool" where
  "link_ok p \<longleftrightarrow> link_free p \<and> (\<forall>r. Some r \<in> set (replies p) \<longrightarrow> length r \<le> 32)"

text \<open>A command that returns on such a link.\<close>

definition prompt :: "status pio \<Rightarrow> bool" where
  "prompt c \<longleftrightarrow> (\<forall>s. link_ok s \<longrightarrow> (\<exists>r s'. c s = Inr (r, s') \<and> link_ok s'))"

lemma link_ok_start: "link_ok p \<Longrightarrow> \<exists>r p'. Antenna_DriveStart n d p = Inr (r, p') \<and> link_ok p'"
  by (cases "replies p"; cases "hd (replies p)")
    (auto simp: link_ok_def link_free_def Antenna_DriveStart_def Motor_DriveStart_def Let_def bind_io_def
      sem_pend_def send_command_def await_reply_def take_reply_def modify_def ret_io_def sem_post_def
      link_stat_def upd_info_def set_motor_move_def upd_sta_def)

lemma link_ok_end: "link_ok p \<Longrightarrow> \<exists>r p'. Antenna_DriveEnd n d p = Inr (r, p') \<and> link_ok p'"
  by (cases "replies p"; cases "hd (replies p)")
    (auto simp: link_ok_def link_free_def Antenna_DriveEnd_def Motor_DriveEnd_def Let_def bind_io_def
      sem_pend_def send_command_def await_reply_def take_reply_def modify_def ret_io_def sem_post_def
      link_stat_def upd_info_def set_motor_move_def upd_sta_def)

lemma link_ok_status: "link_ok p \<Longrightarrow> \<exists>r p'. APP_PDUCOMM_PDUDevStaQue p = Inr (r, p') \<and> link_ok p'"
  by (cases "replies p"; cases "hd (replies p)")
    (auto simp: link_ok_def link_free_def APP_PDUCOMM_PDUDevStaQue_def Let_def bind_io_def
      sem_pend_def send_command_def await_reply_def take_reply_def modify_def ret_io_def sem_post_def
      link_stat_def comm_stat_def upd_info_def pdu_axes_def pdu_admin_def set_admin_def upd_param_def opt_log_event_def upd_sta_def)

lemma prompt_ret: "prompt (ret_io x)"
  by (auto simp: prompt_def ret_io_def)

lemma prompt_bind: "prompt m \<Longrightarrow> (\<And>x. prompt (k x)) \<Longrightarrow> prompt (bind_io m k)"
  unfolding prompt_def bind_io_def by fastforce

lemma prompt_if: "prompt a \<Longrightarrow> prompt b \<Longrightarrow> prompt (if c then a else b)"
  by simp

lemma link_user_prompt: "link_user c \<Longrightarrow> prompt c"
proof -
  have "prompt (Antenna_DriveStart p d)" "prompt (Antenna_DriveEnd p d)" "prompt APP_PDUCOMM_PDUDevStaQue" for p d
    using link_ok_start link_ok_end link_ok_status by (simp_all add: prompt_def)
  then show "link_user c \<Longrightarrow> prompt c"
    unfolding link_user_def Motor_TimeConfigDrive_def Antenna_AllDriveEnd_def stop_axis_def
    by (elim disjE exE; hypsubst) (auto intro!: prompt_bind prompt_if prompt_ret)
qed

locale prompt_commands =
  fixes command :: "status pio \<Rightarrow> bool" and fits :: "pdu \<Rightarrow> bool"
  assumes answers: "command c \<Longrightarrow> fits s \<Longrightarrow> \<exists>r s'. c s = Inr (r, s') \<and> fits s'"
begin

lemma run_answers: "fits s \<Longrightarrow> \<forall>c \<in> set cs. command c \<Longrightarrow> \<exists>rs s'. run_commands cs s = Inr (rs, s')"
proof (induction cs arbitrary: s)
  case (Cons c cs)
  obtain r s1 where 1: "c s = Inr (r, s1)" "fits s1" using answers [of c s] Cons.prems by auto
  obtain rs s2 where "run_commands cs s1 = Inr (rs, s2)" using Cons.IH [OF 1(2)] Cons.prems(2) by auto
  then show ?case using 1(1) by (simp add: bind_io_def ret_io_def)
qed (simp add: ret_io_def)

end

interpretation answering: prompt_commands link_user link_ok
  by unfold_locales (use link_user_prompt in \<open>auto simp: prompt_def\<close>)

section \<open>Properties\<close>

text \<open>C16: with the link free at the start no sequence of drive, stop and status commands waits for it for ever, whatever the
  drive unit answers or fails to answer; a sequence that returns has left the link free, and it returns if no answer is longer
  than 32 bytes, the smallest of the arrays that take the answers.\<close>

theorem link_never_blocks:
  assumes "link_free s" "\<forall>c \<in> set cs. link_user c"
  shows "run_commands cs s \<noteq> Inl Blocked
    \<and> (\<forall>rs s'. run_commands cs s = Inr (rs, s') \<longrightarrow> link_free s' \<and> length rs = length cs)
    \<and> ((\<forall>r. Some r \<in> set (replies s) \<longrightarrow> length r \<le> 32) \<longrightarrow> (\<exists>rs s'. run_commands cs s = Inr (rs, s')))"
  using link.run_returns [OF assms] answering.run_answers [of s cs] assms by (simp add: link_ok_def)

text \<open>C39: one unexpected answer to the version query takes the link for good: the query
  returns \<open>FAIL\<close> without posting the semaphore, and every later attempt to stop an axis
  waits for it for ever.\<close>

theorem version_query_leak_blocks_stop:
  assumes "APP_PDU_Send_Sem s = 1" "0 < SWIFT_UART4_Send_Sem s" "replies s = Some r # rs"
    "5 \<le> length r" "length r \<le> 50" "\<not> (r ! 2 = 0x8C \<and> r ! 3 = 0x0A \<and> r ! 4 = 32)"
  shows "\<exists>s'. APP_PDUCOMM_VersionQue s = Inr (FAIL, s') \<and> (\<forall>p d. Antenna_DriveEnd p d s' = Inl Blocked)
    \<and> Antenna_AllDriveEnd s' = Inl Blocked"
proof -
  let ?s = "s\<lparr>APP_PDU_Send_Sem := 0, sent := sent s @ [[0xBC, 3, 0x0C, 0x0A, 0, sum_list [0xBC, 3, 0x0C, 0x0A, 0], 0xCB]],
    replies := rs\<rparr>"
  have r: "copy_over (map (junk s) [0..<50]) r ! i = r ! i" if "i < 5" for i
    using assms(4) that by (intro nth_copy_over) simp
  have "APP_PDUCOMM_VersionQue s = Inr (FAIL, ?s)"
    using assms r
    by (auto simp: APP_PDUCOMM_VersionQue_def bind_io_def sem_pend_def send_command_def await_reply_def
        take_reply_def ret_io_def)
  moreover have "Antenna_DriveEnd p d ?s = Inl Blocked" for p d
    by (simp add: Antenna_DriveEnd_def bind_io_def sem_pend_def)
  ultimately show ?thesis
    by (auto simp: Antenna_AllDriveEnd_def stop_axis_def bind_io_def)
qed

text \<open>Position and soft limits of an axis.\<close>

definition axis :: "strACUDevInfo \<Rightarrow> u8 \<Rightarrow> fp32 \<times> fp32 \<times> fp32" where
  "axis d p = (let c = ACUCurrSta d; a = AntennaParam (ACUParam d) in
     if p = 1 then (antenna_position c, motor_position_start a, motor_position_end a)
     else if p = 2 then (antenna_cabrage c, motor_cabrage_start a, motor_cabrage_end a)
     else (antenna_polar c, motor_polar_start a, motor_polar_end a))"

lemma axis_refused:
  assumes "axis d p = (x, lo, hi)" "lo < hi"
  shows "soft_limit_refuses d p dir \<longleftrightarrow> is_part p
    \<and> (x \<le> lo \<and> dir = ANTENNA_DIR_LEFT_DOWN_ANTICLOCK \<or> hi \<le> x \<and> dir = ANTENNA_DIR_RIGHT_UP_CLOCK)"
proof -
  have t: "(if x \<le> lo then dir = 1 else if hi \<le> x then dir = 2 else False)
      \<longleftrightarrow> x \<le> lo \<and> dir = 1 \<or> hi \<le> x \<and> dir = 2"
    using assms(2) by (cases "x \<le> lo") auto
  consider "p = 1" | "p = 2" | "p = 3" | "p \<noteq> 1 \<and> p \<noteq> 2 \<and> p \<noteq> 3" by blast
  then show ?thesis
  proof cases
    case 1
    then show ?thesis using assms(1) t by (auto simp: soft_limit_refuses_def is_part_def axis_def Let_def)
  next
    case 2
    then show ?thesis using assms(1) t by (auto simp: soft_limit_refuses_def is_part_def axis_def Let_def)
  next
    case 3
    then show ?thesis using assms(1) t by (auto simp: soft_limit_refuses_def is_part_def axis_def Let_def)
  qed (simp add: soft_limit_refuses_def is_part_def)
qed

text \<open>C17: a drive command towards the limit an axis has reached or passed is refused: \<open>FAIL\<close>,
  nothing is sent and nothing changes.\<close>

theorem soft_limits_respected:
  assumes "is_part p" "axis (dev s) p = (x, lo, hi)" "lo < hi"
    "x \<le> lo \<and> d = ANTENNA_DIR_LEFT_DOWN_ANTICLOCK \<or> hi \<le> x \<and> d = ANTENNA_DIR_RIGHT_UP_CLOCK"
  shows "Antenna_DriveStart p d s = Inr (FAIL, s)"
  using axis_refused [OF assms(2,3)] assms(1,4) by (simp add: Antenna_DriveStart_def)

text \<open>What the drive unit has acknowledged: the command and its number.\<close>

definition acks :: "bytes \<Rightarrow> u8 \<Rightarrow> bool" where
  "acks r cmd \<longleftrightarrow> r ! 2 = 0x84 \<and> r ! 3 = cmd"

definition moving :: "pdu \<Rightarrow> u8 list" where
  "moving s = motor_move (ACUCurrSta (dev s))"

lemma moving_updates [simp]:
  "moving (link_stat v s) = moving s" "moving (sem_post s) = moving s"
  "moving (set_motor_move p v s) = (moving s)[unat p - 1 := v]"
  "moving (s\<lparr>APP_PDU_Send_Sem := n\<rparr>) = moving s" "moving (s\<lparr>sent := fs\<rparr>) = moving s"
  "moving (s\<lparr>replies := rs\<rparr>) = moving s"
  by (simp_all add: moving_def link_stat_def upd_info_def sem_post_def set_motor_move_def upd_sta_def)

lemma field_updates [simp]:
  "sent (link_stat v s) = sent s" "sent (sem_post s) = sent s" "sent (set_motor_move p v s) = sent s"
  "junk (link_stat v s) = junk s" "replies (link_stat v s) = replies s"
  "replies (sem_post s) = replies s" "replies (set_motor_move p v s) = replies s"
  "APP_PDU_Send_Sem (link_stat v s) = APP_PDU_Send_Sem s"
  "APP_PDU_Send_Sem (set_motor_move p v s) = APP_PDU_Send_Sem s"
  "APP_PDU_Send_Sem (sem_post s) = APP_PDU_Send_Sem s + 1"
  "SWIFT_UART4_Send_Sem (link_stat v s) = SWIFT_UART4_Send_Sem s"
  by (simp_all add: link_stat_def upd_info_def sem_post_def set_motor_move_def upd_sta_def)

text \<open>A drive command within the limits sends one frame with the mapped motor direction;
  the axis counts as moving in the commanded direction exactly if the answer acknowledges a
  start, and the link is given back.\<close>

theorem drive_start_effect:
  assumes "link_free s" "is_part p" "d = 1 \<or> d = 2" "\<not> soft_limit_refuses (dev s) p d"
    and r: "replies s = Some r # rs" "4 \<le> length r" "length r \<le> 32"
  defines "m \<equiv> motor_dir (AntennaDirMapMotor (AntennaParam (ACUParam (dev s))) ! (unat p - 1)) ! (unat d - 1)"
  shows "\<exists>s'. Antenna_DriveStart p d s = Inr (if acks r 0x01 then SUCC else FAIL, s')
    \<and> sent s' = sent s @ [[0xBC, 5, 4, 1, 2, p, m, 0xBC + 5 + 4 + 1 + 2 + p + m, 0xCB]]
    \<and> moving s' = (if acks r 0x01 then (moving s)[unat p - 1 := d] else moving s)
    \<and> APP_PDU_Send_Sem s' = APP_PDU_Send_Sem s \<and> replies s' = rs"
proof -
  have n: "copy_over (map (junk s) [0..<32]) r ! i = r ! i" if "i < 4" for i
    using r(2) that by (intro nth_copy_over) simp
  have free: "0 < APP_PDU_Send_Sem s" "0 < SWIFT_UART4_Send_Sem s"
    using assms(1) by (simp_all add: link_free_def)
  show ?thesis
    using assms(2-4) r free n
    by (auto simp: Antenna_DriveStart_def Motor_DriveStart_def Let_def bind_io_def sem_pend_def
        send_command_def await_reply_def take_reply_def modify_def ret_io_def acks_def m_def)
qed

definition stop_frame :: "u8 \<Rightarrow> bytes" where
  "stop_frame p = [0xBC, 4, 4, 2, 1, p, 0xBC + 4 + 4 + 2 + 1 + p, 0xCB]"

lemma DriveEnd_effect:
  assumes "Antenna_DriveEnd p d s = Inr (r, s')" "is_part p"
  shows "sent s' = sent s @ [stop_frame p]
    \<and> moving s' = (if r = SUCC then (moving s)[unat p - 1 := 0] else moving s)"
  using assms
  by (auto simp: Antenna_DriveEnd_def Motor_DriveEnd_def bind_io_Inr sem_pend_def send_command_def
      await_reply_def take_reply_def stop_frame_def split: if_splits list.splits option.splits)

lemma stop_axis_effect:
  assumes "stop_axis p q s = Inr (r, s')" "is_part p"
  shows "\<exists>fs. sent s' = sent s @ fs \<and> stop_frame p \<in> set fs" "r = SUCC \<longrightarrow> q = SUCC"
    "moving s' = moving s \<or> moving s' = (moving s)[unat p - 1 := 0]"
    "r = SUCC \<longrightarrow> moving s' = (moving s)[unat p - 1 := 0]"
proof -
  obtain r1 s1 where 1: "Antenna_DriveEnd p 0 s = Inr (r1, s1)"
    "(if r1 = FAIL then bind_io (Antenna_DriveEnd p 0) (\<lambda>r2. ret_io (if r2 = FAIL then FAIL else q))
      else ret_io q) s1 = Inr (r, s')"
    using assms(1) by (auto simp: stop_axis_def bind_io_Inr)
  note e1 = DriveEnd_effect [OF 1(1) assms(2)]
  have "(\<exists>fs. sent s' = sent s @ fs \<and> stop_frame p \<in> set fs) \<and> (r = SUCC \<longrightarrow> q = SUCC)
    \<and> (moving s' = moving s \<or> moving s' = (moving s)[unat p - 1 := 0])
    \<and> (r = SUCC \<longrightarrow> moving s' = (moving s)[unat p - 1 := 0])"
  proof (cases r1)
    case SUCC
    then show ?thesis using 1(2) e1 by auto
  next
    case FAIL
    then obtain r2 where 2: "Antenna_DriveEnd p 0 s1 = Inr (r2, s')" "r = (if r2 = FAIL then FAIL else q)"
      using 1(2) by (auto simp: bind_io_Inr)
    show ?thesis using DriveEnd_effect [OF 2(1) assms(2)] e1 FAIL 2(2) by (cases r2) auto
  qed
  then show "\<exists>fs. sent s' = sent s @ fs \<and> stop_frame p \<in> set fs" "r = SUCC \<longrightarrow> q = SUCC"
    "moving s' = moving s \<or> moving s' = (moving s)[unat p - 1 := 0]"
    "r = SUCC \<longrightarrow> moving s' = (moving s)[unat p - 1 := 0]" by auto
qed

text \<open>C3: \<open>Antenna_AllDriveEnd\<close> sends a stop to every axis whatever the answers are, and if
  it reports success no axis counts as moving.\<close>

theorem all_stop:
  assumes "Antenna_AllDriveEnd s = Inr (r, s')" "length (moving s) = 3"
  shows "\<exists>fs. sent s' = sent s @ fs \<and> {stop_frame 1, stop_frame 2, stop_frame 3} \<subseteq> set fs
    \<and> (r = SUCC \<longrightarrow> moving s' = [0, 0, 0])"
proof -
  obtain r1 s1 r2 s2 where s: "stop_axis 1 SUCC s = Inr (r1, s1)" "stop_axis 2 r1 s1 = Inr (r2, s2)"
    "stop_axis 3 r2 s2 = Inr (r, s')"
    using assms(1) by (auto simp: Antenna_AllDriveEnd_def bind_io_Inr)
  have p: "is_part 1" "is_part 2" "is_part 3" by (simp_all add: is_part_def)
  note a = stop_axis_effect [OF s(1) p(1)] and b = stop_axis_effect [OF s(2) p(2)]
    and c = stop_axis_effect [OF s(3) p(3)]
  obtain x y z where m: "moving s = [x, y, z]"
    using assms(2) by (auto simp: numeral_3_eq_3 length_Suc_conv)
  have "r = SUCC \<longrightarrow> moving s' = [0, 0, 0]"
    using a(2,4) b(2,4) c(2,4) m by auto
  moreover obtain f1 f2 f3 where "sent s' = sent s @ f1 @ f2 @ f3" "stop_frame 1 \<in> set f1"
    "stop_frame 2 \<in> set f2" "stop_frame 3 \<in> set f3"
    using a(1) b(1) c(1) by auto
  ultimately show ?thesis by auto
qed

text \<open>The answer to a motor start passes for a position of the receiver: the check
  rejects an answer only if command, number and length are all wrong. The seconds are
  stored one higher than received, up to 60.\<close>

theorem gps_accepts_motor_answer:
  assumes "0 < SWIFT_UART4_Send_Sem s" "replies s = Some r # rs" "27 \<le> length r" "length r \<le> 32"
    "acks r 0x01" "r ! 5 = 0x41"
  shows "\<exists>s'. APP_GPS_DataGet s = Inr (SUCC, s')
    \<and> lp_valid_flag (LocalPositionParam (ACUParam (dev s'))) = 1
    \<and> gps_lon (GPSData (GPSInfo (DeviceInfo (dev s')))) = int32_at r 7
    \<and> gps_sec (GPSData (GPSInfo (DeviceInfo (dev s')))) = r ! 26 + 1"
proof -
  have n: "copy_over (map (junk s) [0..<32]) r ! i = r ! i" if "i < 27" for i
    using assms(3) that by (intro nth_copy_over) simp
  show ?thesis
    using assms n
    by (auto simp: APP_GPS_DataGet_def bind_io_def send_command_def await_reply_def take_reply_def
        modify_def ret_io_def acks_def set_gps_def set_gps_valid_def upd_info_def upd_param_def link_stat_def
        int32_at_def Let_def)
qed

section \<open>Concrete runs\<close>

definition idle_link :: "bytes option list \<Rightarrow> pdu" where
  "idle_link rs = \<lparr>dev = zero_strACUDevInfo, APP_PDU_Send_Sem = 1, SWIFT_UART4_Send_Sem = 1, sent = [],
     replies = rs, junk = (\<lambda>i. 0), opt_log = []\<rparr>"

lemma idle_link_sel [simp]:
  "link_free (idle_link rs)" "replies (idle_link rs) = rs" "sent (idle_link rs) = []"
  "APP_PDU_Send_Sem (idle_link rs) = 1" "SWIFT_UART4_Send_Sem (idle_link rs) = 1"
  "moving (idle_link rs) = [0, 0, 0]" "axis (dev (idle_link rs)) p = (0, 0, 0)"
  by (simp_all add: idle_link_def link_free_def moving_def axis_def Let_def zero_strACUDevInfo_def
      zero_strACUCurrSta_def zero_strACUSeekSatParam_def zero_strAntennaParam_def numeral_3_eq_3)

theorem link_never_blocks_witness:
  "\<exists>rs s'. run_commands [Antenna_DriveStart 1 2, APP_PDUCOMM_PDUDevStaQue, Antenna_AllDriveEnd]
      (idle_link [Some [0xBC, 3, 0x84, 2, 0, 0x45, 0xCB], None]) = Inr (rs, s') \<and> link_free s' \<and> length rs = 3"
proof -
  let ?cs = "[Antenna_DriveStart 1 2, APP_PDUCOMM_PDUDevStaQue, Antenna_AllDriveEnd]"
  have "link_user (Antenna_DriveStart 1 2)" "link_user APP_PDUCOMM_PDUDevStaQue" "link_user Antenna_AllDriveEnd"
    unfolding link_user_def by blast+
  then show ?thesis
    using link_never_blocks [of "idle_link [Some [0xBC, 3, 0x84, 2, 0, 0x45, 0xCB], None]" ?cs]
    by (auto simp del: run_commands.simps)
qed

theorem version_query_leak_witness:
  "\<exists>s'. APP_PDUCOMM_VersionQue (idle_link [Some [0xBC, 3, 0x84, 2, 0, 0x45, 0xCB]]) = Inr (FAIL, s')
    \<and> (\<forall>p d. Antenna_DriveEnd p d s' = Inl Blocked) \<and> Antenna_AllDriveEnd s' = Inl Blocked"
  using version_query_leak_blocks_stop [of "idle_link [Some [0xBC, 3, 0x84, 2, 0, 0x45, 0xCB]]"
      "[0xBC, 3, 0x84, 2, 0, 0x45, 0xCB]" "[]"] by simp

definition at_limit :: pdu where
  "at_limit = upd_param (\<lambda>p. p\<lparr>AntennaParam := (AntennaParam p)\<lparr>motor_position_end := 260\<rparr>\<rparr>) (idle_link [])"

theorem soft_limits_witness: "Antenna_DriveStart 1 1 at_limit = Inr (FAIL, at_limit)"
proof (rule soft_limits_respected)
  show "axis (dev at_limit) 1 = (0, 0, 260)"
    by (simp add: at_limit_def upd_param_def axis_def idle_link_def Let_def zero_strACUDevInfo_def
        zero_strACUCurrSta_def zero_strACUSeekSatParam_def zero_strAntennaParam_def)
qed (simp_all add: is_part_def)

theorem drive_start_witness:
  "\<exists>s'. Antenna_DriveStart 1 2 (idle_link [Some [0xBC, 3, 0x84, 1, 0, 0x44, 0xCB]]) = Inr (SUCC, s')
    \<and> moving s' = [2, 0, 0] \<and> APP_PDU_Send_Sem s' = 1"
proof -
  let ?s = "idle_link [Some [0xBC, 3, 0x84, 1, 0, 0x44, 0xCB]]"
  have "\<not> soft_limit_refuses (dev ?s) 1 2"
    by (simp add: soft_limit_refuses_def idle_link_def Let_def zero_strACUDevInfo_def
        zero_strACUCurrSta_def zero_strACUSeekSatParam_def zero_strAntennaParam_def)
  then show ?thesis
    using drive_start_effect [of ?s 1 2 "[0xBC, 3, 0x84, 1, 0, 0x44, 0xCB]" "[]"]
    by (auto simp: is_part_def acks_def)
qed

theorem all_stop_witness:
  "\<exists>s' fs. Antenna_AllDriveEnd (idle_link []) = Inr (FAIL, s')
    \<and> sent s' = fs \<and> {stop_frame 1, stop_frame 2, stop_frame 3} \<subseteq> set fs"
proof -
  have e: "Antenna_DriveEnd p 0 s = Inr (FAIL, (link_stat COMM_UNLINK (s\<lparr>sent := sent s @ [stop_frame p]\<rparr>)))"
    if "is_part p" "link_free s" "replies s = []" for p s
    using that
    by (simp add: Antenna_DriveEnd_def Motor_DriveEnd_def bind_io_def sem_pend_def send_command_def link_free_def
        await_reply_def modify_def ret_io_def stop_frame_def sem_post_def link_stat_def upd_info_def)
  have f: "link_free (link_stat v (s\<lparr>sent := fs\<rparr>)) = link_free s"
    "replies (link_stat v (s\<lparr>sent := fs\<rparr>)) = replies s" for v s fs
    by (simp_all add: link_free_def)
  obtain s' where "Antenna_AllDriveEnd (idle_link []) = Inr (FAIL, s')"
    using e f by (simp add: Antenna_AllDriveEnd_def stop_axis_def bind_io_def ret_io_def is_part_def)
  with all_stop [OF this] show ?thesis by auto
qed

theorem gps_accepts_motor_answer_witness:
  "\<exists>s'. APP_GPS_DataGet (idle_link [Some ([0xBC, 23, 0x84, 1, 0, 0x41] @ replicate 22 59)]) = Inr (SUCC, s')
    \<and> gps_sec (GPSData (GPSInfo (DeviceInfo (dev s')))) = 60"
  using gps_accepts_motor_answer [of "idle_link [Some ([0xBC, 23, 0x84, 1, 0, 0x41] @ replicate 22 59)]"
      "[0xBC, 23, 0x84, 1, 0, 0x41] @ replicate 22 59" "[]"]
  by (fastforce simp: acks_def nth_append)

end
