(* ===== verification/SemLock.thy ===== *)
theory SemLock
  imports Prelude
begin

text \<open>
  The semaphore that guards the link to the drive unit, as several tasks use it:
  \<open>BSP_OS_Sem_Pend\<close> and \<open>BSP_OS_Sem_Post\<close> of \<open>BSP/src/bsp_os.c\<close> over \<open>OSSemPend\<close> and
  \<open>OS_SemPost\<close> of \<open>uCOS-III/Source/os_sem.c\<close>. A task is its priority; the pend list is
  ordered by it. \<open>owners\<close> are the tasks between a pend and the matching post, the ones
  that may use the link. A step is one task entering or leaving; \<open>lock_reach\<close> are the
  states reachable from a semaphore created with the counter 1.
\<close>

section \<open>The code\<close>

datatype os_opt = OS_OPT_POST_1 | OS_OPT_POST_ALL

record os_sem =
  Ctr :: nat
  PendList :: "nat list"

text \<open>Whether the caller goes on at once.\<close>

definition OSSemPend :: "nat \<Rightarrow> os_sem \<Rightarrow> bool \<times> os_sem" where
  "OSSemPend t p =
     (if Ctr p > 0 then (True, p\<lparr>Ctr := Ctr p - 1\<rparr>)
      else (False, p\<lparr>PendList := insort t (PendList p)\<rparr>))"

text \<open>The result carries the tasks made ready, or nothing on an overflow of the counter.\<close>

definition OS_SemPost :: "os_opt \<Rightarrow> os_sem \<Rightarrow> (nat list \<times> os_sem) option" where
  "OS_SemPost opt p =
     (if PendList p = [] then
        (if Ctr p = 4294967295 then None else Some ([], p\<lparr>Ctr := Ctr p + 1\<rparr>))
      else
        let cnt = (if opt = OS_OPT_POST_ALL then length (PendList p) else 1)
        in Some (take cnt (PendList p), p\<lparr>PendList := drop cnt (PendList p)\<rparr>))"

definition BSP_OS_Sem_Post :: "os_sem \<Rightarrow> (nat list \<times> os_sem) option" where
  "BSP_OS_Sem_Post = OS_SemPost OS_OPT_POST_ALL"

definition BSP_OS_Sem_Pend :: "nat \<Rightarrow> os_sem \<Rightarrow> bool \<times> os_sem" where
  "BSP_OS_Sem_Pend = OSSemPend"

section \<open>Tasks that take and give back the link\<close>

record lock =
  sem :: os_sem
  owners :: "nat list"

definition task_enters :: "nat \<Rightarrow> lock \<Rightarrow> lock" where
  "task_enters t l = (case BSP_OS_Sem_Pend t (sem l) of (goes_on, p) \<Rightarrow>
     l\<lparr>sem := p, owners := (if goes_on then t # owners l else owners l)\<rparr>)"

text \<open>The post as a parameter: the code's is \<open>BSP_OS_Sem_Post\<close>.\<close>

definition task_leaves :: "(os_sem \<Rightarrow> (nat list \<times> os_sem) option) \<Rightarrow> nat \<Rightarrow> lock \<Rightarrow> lock" where
  "task_leaves post t l = (case post (sem l) of
     None \<Rightarrow> l\<lparr>owners := remove1 t (owners l)\<rparr>
   | Some (woken, p) \<Rightarrow> l\<lparr>sem := p, owners := woken @ remove1 t (owners l)\<rparr>)"

inductive lock_reach :: "(os_sem \<Rightarrow> (nat list \<times> os_sem) option) \<Rightarrow> lock \<Rightarrow> bool"
  for post where
  created: "lock_reach post \<lparr>sem = \<lparr>Ctr = 1, PendList = []\<rparr>, owners = []\<rparr>"
| enter: "lock_reach post l \<Longrightarrow> t \<notin> set (owners l) \<Longrightarrow> t \<notin> set (PendList (sem l))
    \<Longrightarrow> lock_reach post (task_enters t l)"
| leave: "lock_reach post l \<Longrightarrow> t \<in> set (owners l) \<Longrightarrow> lock_reach post (task_leaves post t l)"

lemma post_1_invariant:
  "lock_reach (OS_SemPost OS_OPT_POST_1) l \<Longrightarrow> Ctr (sem l) + length (owners l) = 1
    \<and> (PendList (sem l) \<noteq> [] \<longrightarrow> Ctr (sem l) = 0)"
proof (induction rule: lock_reach.induct)
  case created
  show ?case by simp
next
  case (enter l t)
  then have "Ctr (sem l) = 0 \<or> Ctr (sem l) = 1 \<and> owners l = []"
    by (cases "owners l") auto
  then show ?case
    using enter by (auto simp: task_enters_def BSP_OS_Sem_Pend_def OSSemPend_def)
next
  case (leave l t)
  then have o: "owners l = [t]" "Ctr (sem l) = 0"
    by (cases "owners l"; auto)+
  show ?case
    by (cases "PendList (sem l)") (auto simp: task_leaves_def OS_SemPost_def o)
qed

text \<open>What three tasks do: the first takes the link, two more wait, the first gives it back.\<close>

definition three_tasks :: lock where
  "three_tasks = task_leaves BSP_OS_Sem_Post 11 (task_enters 13 (task_enters 12 (task_enters 11
     \<lparr>sem = \<lparr>Ctr = 1, PendList = []\<rparr>, owners = []\<rparr>)))"

lemmas lock_eval = task_leaves_def task_enters_def BSP_OS_Sem_Post_def BSP_OS_Sem_Pend_def OSSemPend_def OS_SemPost_def

lemma three_tasks_eq: "three_tasks = \<lparr>sem = \<lparr>Ctr = 0, PendList = []\<rparr>, owners = [12, 13]\<rparr>"
  by (simp add: three_tasks_def lock_eval)

lemma three_tasks_reach: "lock_reach BSP_OS_Sem_Post three_tasks"
  unfolding three_tasks_def
  by (intro lock_reach.intros) (simp_all add: lock_eval)

section \<open>Properties\<close>

text \<open>With the option \<open>OS_OPT_POST_ALL\<close> that \<open>BSP_OS_Sem_Post\<close> uses, the semaphore does
  not exclude: one post wakes every waiting task, so two tasks use the link at once, and the
  counter stays above 1 when they are done. With \<open>OS_OPT_POST_1\<close> never more than one task
  would own the link.\<close>

theorem post_all_breaks_exclusion:
  "(\<exists>l. lock_reach BSP_OS_Sem_Post l \<and> length (owners l) = 2)
   \<and> (\<exists>l. lock_reach BSP_OS_Sem_Post l \<and> owners l = [] \<and> PendList (sem l) = [] \<and> Ctr (sem l) = 2)
   \<and> \<not> (\<exists>l. lock_reach (OS_SemPost OS_OPT_POST_1) l \<and> 2 \<le> length (owners l))"
proof (intro conjI)
  show "\<exists>l. lock_reach BSP_OS_Sem_Post l \<and> length (owners l) = 2"
    by (intro exI [of _ three_tasks] conjI three_tasks_reach) (simp add: three_tasks_eq)
  let ?l = "task_leaves BSP_OS_Sem_Post 13 (task_leaves BSP_OS_Sem_Post 12 three_tasks)"
  have "lock_reach BSP_OS_Sem_Post ?l"
    by (intro lock_reach.leave three_tasks_reach) (simp_all add: three_tasks_eq lock_eval)
  moreover have "owners ?l = [] \<and> PendList (sem ?l) = [] \<and> Ctr (sem ?l) = 2"
    by (simp add: three_tasks_eq lock_eval)
  ultimately show "\<exists>l. lock_reach BSP_OS_Sem_Post l \<and> owners l = [] \<and> PendList (sem l) = [] \<and> Ctr (sem l) = 2"
    by blast
  show "\<not> (\<exists>l. lock_reach (OS_SemPost OS_OPT_POST_1) l \<and> 2 \<le> length (owners l))"
    using post_1_invariant by fastforce
qed

end
