(* ===== verification/Flash.thy ===== *)
theory Flash
  imports Prelude
begin

text \<open>
  \<open>HW/ic_n25q128.c\<close>: the N25Q128 serial flash. The driver sends command bytes between a
  falling and a rising edge of the chip select and clocks answers in.

  The chip is a parameter, the function \<open>spi\<close>: what one such transaction does, from the
  state of the chip, the bytes sent and the number of bytes clocked in. \<open>n25q128\<close> states
  the commands of the data sheet that the driver uses. A chip that stays busy for ever
  makes the driver's polling loops endless: the fault \<open>Blocked\<close>. The semaphore around the
  chip select is waited for with a timeout whose result is ignored, so it never stops a
  transaction and is left out.
\<close>

section \<open>The chip and the bus\<close>

record nor =
  ncell :: "nat \<Rightarrow> u8"
  nwel :: bool
  nbusy :: nat

record flash =
  chip :: nor
  spi :: "nor \<Rightarrow> bytes \<Rightarrow> nat \<Rightarrow> bytes \<times> nor"

type_synonym 'a fio = "('a, flash) st"

text \<open>One transaction: chip select, the bytes sent, the bytes read, chip deselect.\<close>

definition transact :: "bytes \<Rightarrow> nat \<Rightarrow> bytes fio" where
  "transact out n w = (case spi w (chip w) out n of (inp, c) \<Rightarrow> Inr (inp, w\<lparr>chip := c\<rparr>))"

section \<open>The driver\<close>

abbreviation (input) SPI_FLASH_PageSize :: nat where "SPI_FLASH_PageSize \<equiv> 256"
abbreviation (input) SPI_FLASH_SectorSize :: nat where "SPI_FLASH_SectorSize \<equiv> 4096"

definition MICRON_FLASH_WriteEnable :: "unit fio" where
  "MICRON_FLASH_WriteEnable = bind_io (transact [0x06] 0) (\<lambda>_. ret_io ())"

definition MICRON_FLASH_WriteDisable :: "unit fio" where
  "MICRON_FLASH_WriteDisable = bind_io (transact [0x04] 0) (\<lambda>_. ret_io ())"

definition MICRON_FLASH_Read_StaReg :: "u8 fio" where
  "MICRON_FLASH_Read_StaReg = bind_io (transact [0x05] 1) (\<lambda>inp. ret_io (inp ! 0))"

definition MICRON_FLASH_ReadID :: "bytes fio" where
  "MICRON_FLASH_ReadID = transact [0x9F] 3"

text \<open>\<open>while(MICRON_FLASH_Read_StaReg() & 0x01);\<close> with \<open>None\<close> for an endless loop. The
  waits after a page program, a sector erase and a bulk erase are the same loop.\<close>

partial_function (option) wait_loop :: "flash \<Rightarrow> flash option" where
  "wait_loop w = (case MICRON_FLASH_Read_StaReg w of
     Inl e \<Rightarrow> None
   | Inr (sta, w1) \<Rightarrow> if sta AND 0x01 \<noteq> 0 then wait_loop w1 else Some w1)"

definition MICRON_FLASH_WaitPageProgram :: "unit fio" where
  "MICRON_FLASH_WaitPageProgram w = (case wait_loop w of None \<Rightarrow> Inl Blocked | Some w1 \<Rightarrow> Inr ((), w1))"

definition MICRON_FLASH_WaitSectorErase :: "unit fio" where
  "MICRON_FLASH_WaitSectorErase = MICRON_FLASH_WaitPageProgram"

text \<open>The three address bytes of a command.\<close>

definition addr3 :: "u32 \<Rightarrow> bytes" where
  "addr3 addr = [ucast (drop_bit 16 (addr AND 0x00FF0000)), ucast (drop_bit 8 (addr AND 0x0000FF00)),
                 ucast (addr AND 0x000000FF)]"

text \<open>A buffer is the list of its \<open>len\<close> bytes; \<open>buff += n; len -= n\<close> drops \<open>n\<close> of them.\<close>

definition MICRON_FLASH_B3PageWrite :: "u32 \<Rightarrow> bytes \<Rightarrow> unit fio" where
  "MICRON_FLASH_B3PageWrite addr buff =
     (let len = (if length buff > 256 then 256 else length buff) in
      bind_io MICRON_FLASH_WriteEnable (\<lambda>_.
      bind_io (transact ([0x02] @ addr3 addr @ take len buff) 0) (\<lambda>_.
        MICRON_FLASH_WaitPageProgram)))"

definition MICRON_FLASH_B3ReadDataBuff :: "u32 \<Rightarrow> nat \<Rightarrow> bytes fio" where
  "MICRON_FLASH_B3ReadDataBuff addr len =
     (if len > SPI_FLASH_PageSize
      then bind_io (transact ([0x0B] @ addr3 addr) (len + 1)) (\<lambda>inp. ret_io (drop 1 inp))
      else transact ([0x03] @ addr3 addr) len)"

definition MICRON_FLASH_B3ReadDataByte :: "u32 \<Rightarrow> u8 fio" where
  "MICRON_FLASH_B3ReadDataByte addr = bind_io (transact ([0x03] @ addr3 addr) 1) (\<lambda>inp. ret_io (inp ! 0))"

definition MICRON_FLASH_B3WriteDataByte :: "u32 \<Rightarrow> u8 \<Rightarrow> status fio" where
  "MICRON_FLASH_B3WriteDataByte addr byte =
     bind_io MICRON_FLASH_WriteEnable (\<lambda>_.
     bind_io (transact ([0x02] @ addr3 addr @ [byte]) 0) (\<lambda>_.
     bind_io MICRON_FLASH_WaitPageProgram (\<lambda>_.
     bind_io (MICRON_FLASH_B3ReadDataByte addr) (\<lambda>b. ret_io (if b \<noteq> byte then FAIL else SUCC)))))"

text \<open>\<open>while(len > SPI_FLASH_PageSize)\<close> a page, then the rest.\<close>

function page_loop :: "u32 \<Rightarrow> bytes \<Rightarrow> unit fio" where
  "page_loop flash_addr buff =
     (if length buff > SPI_FLASH_PageSize then
        bind_io (MICRON_FLASH_B3PageWrite flash_addr (take SPI_FLASH_PageSize buff)) (\<lambda>_.
          page_loop (flash_addr + of_nat SPI_FLASH_PageSize) (drop SPI_FLASH_PageSize buff))
      else if length buff > 0 then MICRON_FLASH_B3PageWrite flash_addr buff
      else ret_io ())"
  by pat_completeness auto
termination by (relation "measure (\<lambda>(a, b). length b)") simp_all

declare page_loop.simps [simp del]

text \<open>The check after writing: whether all bytes read back as written.\<close>

function check_loop :: "u32 \<Rightarrow> bytes \<Rightarrow> bool fio" where
  "check_loop flash_addr checksrcbuff =
     (if checksrcbuff = [] then ret_io True
      else let checkpagelen = (if length checksrcbuff > SPI_FLASH_PageSize then SPI_FLASH_PageSize
                               else length checksrcbuff)
      in bind_io (MICRON_FLASH_B3ReadDataBuff flash_addr checkpagelen) (\<lambda>checkbuff.
           if checkbuff \<noteq> take checkpagelen checksrcbuff then ret_io False
           else check_loop (flash_addr + of_nat checkpagelen) (drop checkpagelen checksrcbuff)))"
  by pat_completeness auto
termination by (relation "measure (\<lambda>(a, b). length b)") (simp_all split: if_splits)

declare check_loop.simps [simp del]

definition MICRON_FLASH_B3WriteDataBuff :: "u32 \<Rightarrow> bytes \<Rightarrow> status fio" where
  "MICRON_FLASH_B3WriteDataBuff addr buff =
     bind_io
       (let pagelen = SPI_FLASH_PageSize - unat addr mod SPI_FLASH_PageSize in
        if unat addr mod SPI_FLASH_PageSize = 0 then page_loop addr buff
        else if length buff > pagelen then
          bind_io (MICRON_FLASH_B3PageWrite addr (take pagelen buff)) (\<lambda>_.
            page_loop (addr + of_nat pagelen) (drop pagelen buff))
        else page_loop addr buff)
       (\<lambda>_. bind_io (check_loop addr buff) (\<lambda>same.
          if same then bind_io MICRON_FLASH_WriteDisable (\<lambda>_. ret_io SUCC) else ret_io FAIL))"

definition MICRON_FLASH_B3SubSectorErase :: "u32 \<Rightarrow> unit fio" where
  "MICRON_FLASH_B3SubSectorErase addr =
     bind_io MICRON_FLASH_WriteEnable (\<lambda>_.
     bind_io (transact ([0x20] @ addr3 addr) 0) (\<lambda>_.
     bind_io MICRON_FLASH_WaitSectorErase (\<lambda>_. MICRON_FLASH_WriteDisable)))"

definition MICRON_FLASH_B3Write4ByteData :: "u32 \<Rightarrow> u32 \<Rightarrow> status fio" where
  "MICRON_FLASH_B3Write4ByteData addr data = MICRON_FLASH_B3WriteDataBuff addr (be32 data)"

definition MICRON_FLASH_B3Read4ByteData :: "u32 \<Rightarrow> u32 fio" where
  "MICRON_FLASH_B3Read4ByteData addr =
     bind_io (MICRON_FLASH_B3ReadDataBuff addr 4) (\<lambda>buff. ret_io (int32_at buff 0))"

definition MICRON_FLASH_B3Write2ByteData :: "u32 \<Rightarrow> u16 \<Rightarrow> status fio" where
  "MICRON_FLASH_B3Write2ByteData addr data = MICRON_FLASH_B3WriteDataBuff addr (be16 data)"

definition MICRON_FLASH_B3Read2ByteData :: "u32 \<Rightarrow> u16 fio" where
  "MICRON_FLASH_B3Read2ByteData addr =
     bind_io (MICRON_FLASH_B3ReadDataBuff addr 2) (\<lambda>buff. ret_io (un16 (buff ! 0) (buff ! 1)))"

section \<open>What the data sheet says\<close>

definition addr24 :: "u8 \<Rightarrow> u8 \<Rightarrow> u8 \<Rightarrow> nat" where
  "addr24 a b c = unat a * 65536 + unat b * 256 + unat c"

text \<open>Programming clears bits; the address counter stays in the page.\<close>

fun nor_program :: "(nat \<Rightarrow> u8) \<Rightarrow> nat \<Rightarrow> bytes \<Rightarrow> nat \<Rightarrow> u8" where
  "nor_program m a [] = m"
| "nor_program m a (x # xs) =
     nor_program (m(a := m a AND x)) (a div SPI_FLASH_PageSize * SPI_FLASH_PageSize + (a + 1) mod SPI_FLASH_PageSize) xs"

definition nor_erase :: "(nat \<Rightarrow> u8) \<Rightarrow> nat \<Rightarrow> nat \<Rightarrow> u8" where
  "nor_erase m a = (\<lambda>c. if c div SPI_FLASH_SectorSize = a div SPI_FLASH_SectorSize then 0xFF else m c)"

definition nor_read :: "(nat \<Rightarrow> u8) \<Rightarrow> nat \<Rightarrow> nat \<Rightarrow> bytes" where
  "nor_read m a n = map (\<lambda>i. m ((a + i) mod 16777216)) [0..<n]"

definition n25q128 :: "(nor \<Rightarrow> bytes \<Rightarrow> nat \<Rightarrow> bytes \<times> nor) \<Rightarrow> bool" where
  "n25q128 f \<longleftrightarrow>
     (\<forall>c. \<exists>s. f c [0x05] 1 = ([s], c\<lparr>nbusy := nbusy c - 1\<rparr>) \<and> (s AND 0x01 \<noteq> 0 \<longleftrightarrow> 0 < nbusy c))
   \<and> (\<forall>c. nbusy c = 0 \<longrightarrow> snd (f c [0x06] 0) = c\<lparr>nwel := True\<rparr>)
   \<and> (\<forall>c. nbusy c = 0 \<longrightarrow> snd (f c [0x04] 0) = c\<lparr>nwel := False\<rparr>)
   \<and> (\<forall>c a b d xs. nbusy c = 0 \<and> nwel c \<and> xs \<noteq> [] \<and> length xs \<le> 256 \<longrightarrow> (\<exists>t. snd (f c (0x02 # a # b # d # xs) 0) =
        c\<lparr>ncell := nor_program (ncell c) (addr24 a b d) xs, nwel := False, nbusy := t\<rparr>))
   \<and> (\<forall>c a b d. nbusy c = 0 \<and> nwel c \<longrightarrow> (\<exists>t. snd (f c [0x20, a, b, d] 0) =
        c\<lparr>ncell := nor_erase (ncell c) (addr24 a b d), nwel := False, nbusy := t\<rparr>))
   \<and> (\<forall>c a b d n. nbusy c = 0 \<longrightarrow> f c [0x03, a, b, d] n = (nor_read (ncell c) (addr24 a b d) n, c))
   \<and> (\<forall>c a b d n. nbusy c = 0 \<longrightarrow> (\<exists>x. f c [0x0B, a, b, d] (Suc n) = (x # nor_read (ncell c) (addr24 a b d) n, c)))"

definition ready :: "flash \<Rightarrow> bool" where
  "ready w \<longleftrightarrow> n25q128 (spi w) \<and> nbusy (chip w) = 0"

definition cells :: "flash \<Rightarrow> nat \<Rightarrow> u8" where
  "cells w = ncell (chip w)"

section \<open>What the driver does on that chip\<close>

lemma n25q128D:
  assumes "n25q128 f"
  shows "\<exists>s. f c [0x05] 1 = ([s], c\<lparr>nbusy := nbusy c - 1\<rparr>) \<and> (s AND 0x01 \<noteq> 0 \<longleftrightarrow> 0 < nbusy c)"
    "nbusy c = 0 \<Longrightarrow> snd (f c [0x06] 0) = c\<lparr>nwel := True\<rparr>"
    "nbusy c = 0 \<Longrightarrow> snd (f c [0x04] 0) = c\<lparr>nwel := False\<rparr>"
    "nbusy c = 0 \<Longrightarrow> nwel c \<Longrightarrow> xs \<noteq> [] \<Longrightarrow> length xs \<le> 256 \<Longrightarrow> \<exists>t. snd (f c (0x02 # a # b # d # xs) 0) =
        c\<lparr>ncell := nor_program (ncell c) (addr24 a b d) xs, nwel := False, nbusy := t\<rparr>"
    "nbusy c = 0 \<Longrightarrow> nwel c \<Longrightarrow> \<exists>t. snd (f c [0x20, a, b, d] 0) =
        c\<lparr>ncell := nor_erase (ncell c) (addr24 a b d), nwel := False, nbusy := t\<rparr>"
    "nbusy c = 0 \<Longrightarrow> f c [0x03, a, b, d] n = (nor_read (ncell c) (addr24 a b d) n, c)"
    "nbusy c = 0 \<Longrightarrow> \<exists>x. f c [0x0B, a, b, d] (Suc n) = (x # nor_read (ncell c) (addr24 a b d) n, c)"
proof -
  note n = assms [unfolded n25q128_def]
  show "\<exists>s. f c [0x05] 1 = ([s], c\<lparr>nbusy := nbusy c - 1\<rparr>) \<and> (s AND 0x01 \<noteq> 0 \<longleftrightarrow> 0 < nbusy c)"
    using n [THEN conjunct1, THEN spec [of _ c]] .
  show "nbusy c = 0 \<Longrightarrow> snd (f c [0x06] 0) = c\<lparr>nwel := True\<rparr>"
    by (rule n [THEN conjunct2, THEN conjunct1, rule_format])
  show "nbusy c = 0 \<Longrightarrow> snd (f c [0x04] 0) = c\<lparr>nwel := False\<rparr>"
    by (rule n [THEN conjunct2, THEN conjunct2, THEN conjunct1, rule_format])
  note m = n [THEN conjunct2, THEN conjunct2, THEN conjunct2]
  show "nbusy c = 0 \<Longrightarrow> nwel c \<Longrightarrow> xs \<noteq> [] \<Longrightarrow> length xs \<le> 256 \<Longrightarrow> \<exists>t. snd (f c (0x02 # a # b # d # xs) 0) =
        c\<lparr>ncell := nor_program (ncell c) (addr24 a b d) xs, nwel := False, nbusy := t\<rparr>"
    by (rule m [THEN conjunct1, rule_format]) simp
  show "nbusy c = 0 \<Longrightarrow> nwel c \<Longrightarrow> \<exists>t. snd (f c [0x20, a, b, d] 0) =
        c\<lparr>ncell := nor_erase (ncell c) (addr24 a b d), nwel := False, nbusy := t\<rparr>"
    by (rule m [THEN conjunct2, THEN conjunct1, rule_format]) simp
  show "nbusy c = 0 \<Longrightarrow> f c [0x03, a, b, d] n = (nor_read (ncell c) (addr24 a b d) n, c)"
    by (rule m [THEN conjunct2, THEN conjunct2, THEN conjunct1, rule_format])
  show "nbusy c = 0 \<Longrightarrow> \<exists>x. f c [0x0B, a, b, d] (Suc n) = (x # nor_read (ncell c) (addr24 a b d) n, c)"
    by (rule m [THEN conjunct2, THEN conjunct2, THEN conjunct2, rule_format])
qed

lemma wait_loop_ends: "n25q128 (spi w) \<Longrightarrow> wait_loop w = Some (w\<lparr>chip := (chip w)\<lparr>nbusy := 0\<rparr>\<rparr>)"
proof (induction "nbusy (chip w)" arbitrary: w)
  case 0
  obtain s where s: "spi w (chip w) [0x05] 1 = ([s], (chip w)\<lparr>nbusy := 0\<rparr>)" "s AND 1 = 0"
    using n25q128D(1) [OF 0(2), of "chip w"] 0(1) by auto
  then show ?case
    by (subst wait_loop.simps) (simp add: MICRON_FLASH_Read_StaReg_def transact_def bind_io_def ret_io_def)
next
  case (Suc n)
  let ?w = "w\<lparr>chip := (chip w)\<lparr>nbusy := n\<rparr>\<rparr>"
  obtain s where s: "spi w (chip w) [0x05] 1 = ([s], (chip w)\<lparr>nbusy := n\<rparr>)" "s AND 1 \<noteq> 0"
    using n25q128D(1) [OF Suc(3), of "chip w"] Suc(2) [symmetric] by auto
  have "wait_loop w = wait_loop ?w"
    using s by (subst wait_loop.simps) (simp add: MICRON_FLASH_Read_StaReg_def transact_def bind_io_def ret_io_def)
  then show ?case using Suc(1) [of ?w] Suc(3) by simp
qed

lemma wait_ok:
  "n25q128 (spi w) \<Longrightarrow> MICRON_FLASH_WaitPageProgram w = Inr ((), w\<lparr>chip := (chip w)\<lparr>nbusy := 0\<rparr>\<rparr>)"
  by (simp add: MICRON_FLASH_WaitPageProgram_def wait_loop_ends)

lemma enable_ok: "ready w \<Longrightarrow> MICRON_FLASH_WriteEnable w = Inr ((), w\<lparr>chip := (chip w)\<lparr>nwel := True\<rparr>\<rparr>)"
  using n25q128D(2) [of "spi w" "chip w"]
  by (auto simp: ready_def MICRON_FLASH_WriteEnable_def transact_def bind_io_def ret_io_def split: prod.splits)

lemma disable_ok: "ready w \<Longrightarrow> MICRON_FLASH_WriteDisable w = Inr ((), w\<lparr>chip := (chip w)\<lparr>nwel := False\<rparr>\<rparr>)"
  using n25q128D(3) [of "spi w" "chip w"]
  by (auto simp: ready_def MICRON_FLASH_WriteDisable_def transact_def bind_io_def ret_io_def split: prod.splits)

lemma addr24_addr3: "addr3 addr = [a, b, c] \<Longrightarrow> addr24 a b c = unat addr mod 16777216"
proof -
  assume "addr3 addr = [a, b, c]"
  then have b: "a = ucast (drop_bit 16 addr)" "b = ucast (drop_bit 8 addr)" "c = ucast addr"
    by (simp_all add: addr3_def masked_byte_2 masked_byte_1 masked_byte_0)
  have "unat addr mod (65536 * 256) = 65536 * (unat addr div 65536 mod 256) + unat addr mod (256 * 256)"
    "unat addr mod (256 * 256) = 256 * (unat addr div 256 mod 256) + unat addr mod 256"
    using mod_mult2_eq [of "unat addr" 65536 256] mod_mult2_eq [of "unat addr" 256 256] by simp_all
  then show ?thesis
    by (simp only: b addr24_def unat_u8_of_u32 unat_drop_bit_u32 numeral_bytes) simp
qed

text \<open>The outcome of a step: it returns \<open>x\<close>, the chip is idle again and holds \<open>m\<close>.\<close>

definition yields :: "'a fio \<Rightarrow> flash \<Rightarrow> 'a \<Rightarrow> (nat \<Rightarrow> u8) \<Rightarrow> bool" where
  "yields f w x m \<longleftrightarrow> (\<exists>w'. f w = Inr (x, w') \<and> ready w' \<and> cells w' = m)"

lemma yields_bind:
  assumes "yields f w x m" "\<And>w1. ready w1 \<Longrightarrow> cells w1 = m \<Longrightarrow> yields (k x) w1 y m'"
  shows "yields (bind_io f k) w y m'"
  using assms by (fastforce simp: yields_def)

lemma yields_ret: "ready w \<Longrightarrow> yields (ret_io x) w x (cells w)"
  by (simp add: yields_def ret_io_def)

lemma ready_update [simp]:
  "ready w \<Longrightarrow> ready (w\<lparr>chip := (chip w)\<lparr>nwel := b\<rparr>\<rparr>)"
  by (simp add: ready_def)

lemma page_yields:
  assumes w: "ready w" and xs: "xs \<noteq> []" "length xs \<le> 256"
  shows "yields (MICRON_FLASH_B3PageWrite addr xs) w () (nor_program (cells w) (unat addr mod 16777216) xs)"
proof -
  let ?c = "(chip w)\<lparr>nwel := True\<rparr>"
  obtain a b d where a: "addr3 addr = [a, b, d]" by (simp add: addr3_def)
  have n: "n25q128 (spi w)" "nbusy ?c = 0" using w by (simp_all add: ready_def)
  obtain t where t: "snd (spi w ?c (0x02 # a # b # d # xs) 0) =
      ?c\<lparr>ncell := nor_program (ncell ?c) (addr24 a b d) xs, nwel := False, nbusy := t\<rparr>"
    using n25q128D(4) [OF n _ xs, of a b d] by auto
  then show ?thesis
    using xs n addr24_addr3 [OF a]
    by (auto simp: yields_def MICRON_FLASH_B3PageWrite_def Let_def enable_ok [OF w] bind_io_def a transact_def
        wait_ok cells_def ready_def split: prod.splits)
qed

lemma erase_yields:
  assumes w: "ready w"
  shows "yields (MICRON_FLASH_B3SubSectorErase addr) w () (nor_erase (cells w) (unat addr mod 16777216))"
proof -
  let ?c = "(chip w)\<lparr>nwel := True\<rparr>"
  obtain a b d where a: "addr3 addr = [a, b, d]" by (simp add: addr3_def)
  have n: "n25q128 (spi w)" "nbusy ?c = 0" using w by (simp_all add: ready_def)
  obtain t where t: "snd (spi w ?c [0x20, a, b, d] 0) =
      ?c\<lparr>ncell := nor_erase (ncell ?c) (addr24 a b d), nwel := False, nbusy := t\<rparr>"
    using n25q128D(5) [OF n, of a b d] by auto
  then show ?thesis
    using n addr24_addr3 [OF a]
    by (auto simp: yields_def MICRON_FLASH_B3SubSectorErase_def enable_ok [OF w] bind_io_def a transact_def
        MICRON_FLASH_WaitSectorErase_def wait_ok cells_def ready_def disable_ok split: prod.splits)
qed

lemma read_yields:
  assumes w: "ready w"
  shows "yields (MICRON_FLASH_B3ReadDataBuff addr n) w (nor_read (cells w) (unat addr mod 16777216) n) (cells w)"
    "yields (MICRON_FLASH_B3ReadDataByte addr) w (cells w (unat addr mod 16777216)) (cells w)"
proof -
  obtain a b d where a: "addr3 addr = [a, b, d]" by (simp add: addr3_def)
  have c: "n25q128 (spi w)" "nbusy (chip w) = 0" using w by (simp_all add: ready_def)
  note r = n25q128D(6) [OF c, of a b d]
  obtain x where x: "spi w (chip w) [0x0B, a, b, d] (Suc n) = (x # nor_read (ncell (chip w)) (addr24 a b d) n, chip w)"
    using n25q128D(7) [OF c, of a b d n] by blast
  show "yields (MICRON_FLASH_B3ReadDataBuff addr n) w (nor_read (cells w) (unat addr mod 16777216) n) (cells w)"
    using c r x addr24_addr3 [OF a]
    by (auto simp: yields_def MICRON_FLASH_B3ReadDataBuff_def bind_io_def a transact_def cells_def ready_def)
  show "yields (MICRON_FLASH_B3ReadDataByte addr) w (cells w (unat addr mod 16777216)) (cells w)"
    using c r [of 1] addr24_addr3 [OF a]
    by (auto simp: yields_def MICRON_FLASH_B3ReadDataByte_def bind_io_def a transact_def cells_def ready_def nor_read_def)
qed

section \<open>Whole buffers\<close>

text \<open>Programming ANDs the new bytes into the cells.\<close>

definition and_bytes :: "(nat \<Rightarrow> u8) \<Rightarrow> nat \<Rightarrow> bytes \<Rightarrow> nat \<Rightarrow> u8" where
  "and_bytes m a xs = (\<lambda>c. if a \<le> c \<and> c < a + length xs then m c AND xs ! (c - a) else m c)"

lemma and_bytes_Nil [simp]: "and_bytes m a [] = m"
  by (rule ext) (auto simp: and_bytes_def)

lemma and_bytes_Cons: "and_bytes (m(a := m a AND x)) (Suc a) xs = and_bytes m a (x # xs)"
proof
  fix c
  have "Suc a \<le> c \<Longrightarrow> c - a = Suc (c - Suc a)" by simp
  then show "and_bytes (m(a := m a AND x)) (Suc a) xs c = and_bytes m a (x # xs) c"
    by (cases "c = a") (auto simp: and_bytes_def)
qed

lemma and_bytes_append:
  "and_bytes (and_bytes m a xs) (a + length xs) ys = and_bytes m a (xs @ ys)"
  by (rule ext) (auto simp: and_bytes_def nth_append)

lemma nor_program_and:
  "a mod 256 + length xs \<le> 256 \<Longrightarrow> nor_program m a xs = and_bytes m a xs"
proof (induction m a xs rule: nor_program.induct)
  case (2 m a x xs)
  show ?case
  proof (cases xs)
    case Nil
    then show ?thesis using and_bytes_Cons [of m a x "[]"] by simp
  next
    case (Cons y ys)
    then have "a mod 256 + 1 < 256" using 2(2) by simp
    then have n: "(a + 1) mod 256 = a mod 256 + 1" by (simp add: mod_Suc)
    then have "a div 256 * 256 + (a + 1) mod 256 = Suc a" by simp
    then show ?thesis using 2 n by (simp add: and_bytes_Cons del: fun_upd_apply)
  qed
qed simp

lemma page_and:
  assumes "ready w" "xs \<noteq> []" "unat addr mod 256 + length xs \<le> 256" "unat addr + length xs \<le> 16777216"
  shows "yields (MICRON_FLASH_B3PageWrite addr xs) w () (and_bytes (cells w) (unat addr) xs)"
proof -
  have "unat addr < 16777216" using assms(2,4) by (cases xs) auto
  then show ?thesis
    using page_yields [OF assms(1,2), of addr] assms(3) by (simp add: nor_program_and)
qed

lemma unat_plus_u32:
  "unat (addr :: u32) + n \<le> 16777216 \<Longrightarrow> unat (addr + of_nat n) = unat addr + n"
  by (simp add: unat_word_ariths unat_of_nat)

lemma page_loop_yields:
  assumes "ready w" "unat addr mod 256 + length xs \<le> 256 \<or> unat addr mod 256 = 0"
    "unat addr + length xs \<le> 16777216"
  shows "yields (page_loop addr xs) w () (and_bytes (cells w) (unat addr) xs)"
  using assms
proof (induction addr xs arbitrary: w rule: page_loop.induct)
  case (1 addr xs)
  show ?case
  proof (cases "256 < length xs")
    case True
    have a: "unat (addr + 256) = unat addr + 256" using True 1(4) unat_plus_u32 [of addr 256] by simp
    have f: "yields (MICRON_FLASH_B3PageWrite addr (take 256 xs)) w () (and_bytes (cells w) (unat addr) (take 256 xs))"
      using True 1(2-4) by (intro page_and) auto
    have "yields (page_loop (addr + 256) (drop 256 xs)) w1 () (and_bytes (cells w) (unat addr) xs)"
      if "ready w1" "cells w1 = and_bytes (cells w) (unat addr) (take 256 xs)" for w1
      using 1(1) [OF True, of w1] that True 1(2-4) and_bytes_append [of "cells w" "unat addr" "take 256 xs" "drop 256 xs"]
      by (simp add: a)
    from yields_bind [OF f, of "\<lambda>_. page_loop (addr + 256) (drop 256 xs)", OF this]
    show ?thesis using True by (subst page_loop.simps) simp
  next
    case False
    then show ?thesis
      using 1(2-4) by (subst page_loop.simps) (auto simp: yields_ret intro!: page_and)
  qed
qed

lemma length_nor_read [simp]: "length (nor_read m a n) = n"
  by (simp add: nor_read_def)

lemma nor_read_append: "nor_read m a (n + k) = nor_read m a n @ nor_read m (a + n) k"
  by (rule nth_equalityI) (auto simp: nor_read_def nth_append)

lemma check_loop_yields:
  assumes "ready w" "unat addr + length xs \<le> 16777216"
  shows "yields (check_loop addr xs) w (nor_read (cells w) (unat addr) (length xs) = xs) (cells w)"
  using assms
proof (induction addr xs arbitrary: w rule: check_loop.induct)
  case (1 addr xs)
  show ?case
  proof (cases "xs = []")
    case True
    then show ?thesis using 1(2) by (subst check_loop.simps) (simp add: yields_ret nor_read_def)
  next
    case False
    define n where "n = (if length xs > 256 then 256 else length xs)"
    have n: "0 < n" "n \<le> length xs" using False by (auto simp: n_def)
    have a: "unat (addr + of_nat n) = unat addr + n" "unat addr < 16777216"
      using n 1(3) by (auto intro: unat_plus_u32)
    have r: "yields (MICRON_FLASH_B3ReadDataBuff addr n) w (nor_read (cells w) (unat addr) n) (cells w)"
      using read_yields(1) [OF 1(2), of addr n] a by simp
    have s: "nor_read (cells w) (unat addr) (length xs) = xs \<longleftrightarrow>
      nor_read (cells w) (unat addr) n = take n xs
      \<and> nor_read (cells w) (unat addr + n) (length xs - n) = drop n xs"
      using nor_read_append [of "cells w" "unat addr" n "length xs - n"] n
      by (auto simp: append_eq_conv_conj)
    have "yields (if nor_read (cells w) (unat addr) n \<noteq> take n xs then ret_io False
        else check_loop (addr + of_nat n) (drop n xs)) w1
        (nor_read (cells w) (unat addr) (length xs) = xs) (cells w)"
      if "ready w1" "cells w1 = cells w" for w1
      using 1(1) [OF False n_def, of "take n xs" w1] that n 1(3) a s yields_ret [of w1 False] by auto
    then show ?thesis
      using False by (subst check_loop.simps) (simp add: n_def [symmetric] Let_def yields_bind [OF r])
  qed
qed

lemma nor_read_and:
  assumes "a + length xs \<le> 16777216"
  shows "nor_read (and_bytes m a xs) a (length xs) = xs \<longleftrightarrow> (\<forall>i < length xs. m (a + i) AND xs ! i = xs ! i)"
proof -
  have "nor_read (and_bytes m a xs) a (length xs) ! i = m (a + i) AND xs ! i" if "i < length xs" for i
    using that assms by (simp add: nor_read_def and_bytes_def)
  then show ?thesis by (simp add: list_eq_iff_nth_eq)
qed

lemma next_page: "(a + (256 - a mod 256)) mod 256 = (0 :: nat)"
proof -
  have "a + (256 - a mod 256) = 256 * (a div 256 + 1)"
    using mult_div_mod_eq [of 256 a] mod_less_divisor [of 256 a, OF zero_less_numeral]
    unfolding distrib_left by linarith
  then show ?thesis by simp
qed

text \<open>The outcome of writing a buffer, whatever the cells held before.\<close>

lemma write_buff_yields:
  assumes "ready w" "unat addr + length xs \<le> 16777216"
  shows "yields (MICRON_FLASH_B3WriteDataBuff addr xs) w
    (if \<forall>i < length xs. cells w (unat addr + i) AND xs ! i = xs ! i then SUCC else FAIL)
    (and_bytes (cells w) (unat addr) xs)"
proof -
  let ?m = "and_bytes (cells w) (unat addr) xs"
  let ?p = "256 - unat addr mod 256"
  have c: "yields (bind_io (check_loop addr xs) (\<lambda>same. if same then bind_io MICRON_FLASH_WriteDisable (\<lambda>_. ret_io SUCC)
      else ret_io FAIL)) w1 (if nor_read ?m (unat addr) (length xs) = xs then SUCC else FAIL) ?m"
    if "ready w1" "cells w1 = ?m" for w1
  proof (rule yields_bind)
    show "yields (check_loop addr xs) w1 (nor_read ?m (unat addr) (length xs) = xs) ?m"
      using check_loop_yields [OF that(1) assms(2)] that(2) by simp
    show "yields (if nor_read ?m (unat addr) (length xs) = xs then bind_io MICRON_FLASH_WriteDisable (\<lambda>_. ret_io SUCC)
        else ret_io FAIL) w2 (if nor_read ?m (unat addr) (length xs) = xs then SUCC else FAIL) ?m"
      if "ready w2" "cells w2 = ?m" for w2
      using that by (auto simp: yields_def disable_ok bind_io_def cells_def)
  qed
  have r: "nor_read ?m (unat addr) (length xs) = xs \<longleftrightarrow>
      (\<forall>i < length xs. cells w (unat addr + i) AND xs ! i = xs ! i)"
    by (rule nor_read_and [OF assms(2)])
  have "yields (if length xs > ?p then bind_io (MICRON_FLASH_B3PageWrite addr (take ?p xs)) (\<lambda>_.
        page_loop (addr + of_nat ?p) (drop ?p xs)) else page_loop addr xs) w () ?m"
    if "unat addr mod 256 \<noteq> 0"
  proof (cases "length xs > ?p")
    case True
    have a: "unat (addr + of_nat ?p) = unat addr + ?p" using True assms(2) by (intro unat_plus_u32) simp
    have f: "yields (MICRON_FLASH_B3PageWrite addr (take ?p xs)) w () (and_bytes (cells w) (unat addr) (take ?p xs))"
      using True assms by (intro page_and) auto
    note m = next_page [of "unat addr"]
    have d: "and_bytes (and_bytes (cells w) (unat addr) (take ?p xs)) (unat addr + ?p) (drop ?p xs) = ?m"
      using True and_bytes_append [of "cells w" "unat addr" "take ?p xs" "drop ?p xs"] by simp
    have "yields (page_loop (addr + of_nat ?p) (drop ?p xs)) w1 () ?m"
      if "ready w1" "cells w1 = and_bytes (cells w) (unat addr) (take ?p xs)" for w1
      using page_loop_yields [OF that(1), of "addr + of_nat ?p" "drop ?p xs"] True assms(2) m
      unfolding a that(2) d by simp
    with f have "yields (bind_io (MICRON_FLASH_B3PageWrite addr (take ?p xs)) (\<lambda>_.
        page_loop (addr + of_nat ?p) (drop ?p xs))) w () ?m"
      by (rule yields_bind)
    then show ?thesis by (simp only: True if_True)
  next
    case False
    moreover have "unat addr mod 256 < 256" by simp
    ultimately have "unat addr mod 256 + length xs \<le> 256" by linarith
    then show ?thesis using False page_loop_yields [OF assms(1) _ assms(2)] by simp
  qed
  moreover have "yields (page_loop addr xs) w () ?m" if "unat addr mod 256 = 0"
    using page_loop_yields [OF assms(1) _ assms(2)] that by simp
  ultimately have p: "yields (let pagelen = ?p in if unat addr mod 256 = 0 then page_loop addr xs
      else if length xs > pagelen then bind_io (MICRON_FLASH_B3PageWrite addr (take pagelen xs)) (\<lambda>_.
        page_loop (addr + of_nat pagelen) (drop pagelen xs)) else page_loop addr xs) w () ?m"
    by (simp add: Let_def)
  show ?thesis
    unfolding MICRON_FLASH_B3WriteDataBuff_def r [symmetric] by (rule yields_bind [OF p c])
qed

lemma and_0xFF: "(0xFF :: u8) AND x = x"
proof -
  have "(0xFF :: u8) = - 1" by simp
  then show ?thesis by (simp only: and.left_neutral)
qed

lemma and_bytes_erased:
  assumes "\<forall>i < length xs. m (a + i) = 0xFF"
  shows "and_bytes m a xs = store_bytes m a xs"
proof
  fix c
  have "a \<le> c \<Longrightarrow> c < a + length xs \<Longrightarrow> m c = 0xFF" using assms [rule_format, of "c - a"] by simp
  then show "and_bytes m a xs c = store_bytes m a xs c"
    by (simp add: and_bytes_def store_bytes_def and_0xFF)
qed

lemma nor_read_store:
  "a + length xs \<le> 16777216 \<Longrightarrow> nor_read (store_bytes m a xs) a (length xs) = xs"
  by (intro nth_equalityI) (auto simp: nor_read_def store_bytes_def)

lemma write_erased_yields:
  assumes "ready w" "unat addr + length xs \<le> 16777216" "\<forall>i < length xs. cells w (unat addr + i) = 0xFF"
  shows "yields (MICRON_FLASH_B3WriteDataBuff addr xs) w SUCC (store_bytes (cells w) (unat addr) xs)"
proof -
  have "\<forall>i < length xs. cells w (unat addr + i) AND xs ! i = xs ! i" using assms(3) by (simp add: and_0xFF)
  then show ?thesis
    using write_buff_yields [OF assms(1,2)] and_bytes_erased [OF assms(3)] by simp
qed

section \<open>Properties\<close>

text \<open>C37: writing a buffer across any number of pages changes no cell outside it and reports
  success exactly if every byte stands in its cell afterwards, which is certain where the
  cells were erased.\<close>

theorem flash_write_exact:
  assumes "ready w" "unat addr + length buff \<le> 16777216"
  shows "\<exists>r w'. MICRON_FLASH_B3WriteDataBuff addr buff w = Inr (r, w') \<and> ready w'
    \<and> (r = SUCC \<longleftrightarrow> (\<forall>i < length buff. cells w' (unat addr + i) = buff ! i))
    \<and> (\<forall>c. c < unat addr \<or> unat addr + length buff \<le> c \<longrightarrow> cells w' c = cells w c)
    \<and> ((\<forall>i < length buff. cells w (unat addr + i) = 0xFF) \<longrightarrow> r = SUCC)"
  using write_buff_yields [OF assms] and_0xFF
  by (auto simp: yields_def and_bytes_def)

lemma int32_at_be32: "int32_at (be32 d) 0 = d"
  using un32_be32 [of d] by (simp add: int32_at_def numeral_2_eq_2)

text \<open>After a sub-sector is erased, a 32-bit value written in it is read back, and the
  rest of that sub-sector reads as erased.\<close>

theorem flash_word_roundtrip:
  assumes "ready w" "unat addr mod 4096 + 4 \<le> 4096" "unat addr < 16777216"
  shows "\<exists>w1 w2 w3. MICRON_FLASH_B3SubSectorErase addr w = Inr ((), w1)
    \<and> MICRON_FLASH_B3Write4ByteData addr data w1 = Inr (SUCC, w2)
    \<and> MICRON_FLASH_B3Read4ByteData addr w2 = Inr (data, w3) \<and> cells w3 = cells w2
    \<and> (\<forall>c. c div 4096 = unat addr div 4096 \<and> (c < unat addr \<or> unat addr + 4 \<le> c) \<longrightarrow> cells w3 c = 0xFF)"
proof -
  have d: "(unat addr + i) div 4096 = unat addr div 4096" if "i < 4" for i
    by (rule div_nat_eqI; (unfold mult_Suc_right)?;
        use mult_div_mod_eq [of 4096 "unat addr"] assms(2) that in linarith)
  have "unat addr div 4096 < 4096" using assms(3) by (simp add: less_mult_imp_div_less)
  then have b: "unat addr + 4 \<le> 16777216"
    using assms(2) mult_div_mod_eq [of 4096 "unat addr"] by linarith
  obtain w1 where w1: "MICRON_FLASH_B3SubSectorErase addr w = Inr ((), w1)" "ready w1"
      "cells w1 = nor_erase (cells w) (unat addr)"
    using erase_yields [OF assms(1), of addr] assms(3) by (auto simp: yields_def)
  obtain w2 where w2: "MICRON_FLASH_B3WriteDataBuff addr (be32 data) w1 = Inr (SUCC, w2)" "ready w2"
      "cells w2 = store_bytes (cells w1) (unat addr) (be32 data)"
    using write_erased_yields [OF w1(2), of addr "be32 data"] b d by (auto simp: yields_def w1(3) nor_erase_def)
  obtain w3 where w3: "MICRON_FLASH_B3ReadDataBuff addr 4 w2 = Inr (be32 data, w3)" "cells w3 = cells w2"
    using read_yields(1) [OF w2(2), of addr 4] b nor_read_store [of "unat addr" "be32 data" "cells w1"]
    by (auto simp: yields_def w2(3))
  show ?thesis
    using w1(1) w2(1) w3
    by (auto simp: MICRON_FLASH_B3Write4ByteData_def MICRON_FLASH_B3Read4ByteData_def bind_io_def ret_io_def
        int32_at_be32 w2(3) w1(3) store_bytes_def nor_erase_def)
qed

section \<open>A chip\<close>

text \<open>A chip as the data sheet describes it, which is busy for three polls after every
  program and erase.\<close>

definition nor_chip :: "nor \<Rightarrow> bytes \<Rightarrow> nat \<Rightarrow> bytes \<times> nor" where
  "nor_chip c out n =
     (if out = [0x05] then ([if 0 < nbusy c then 1 else 0], c\<lparr>nbusy := nbusy c - 1\<rparr>)
      else if 0 < nbusy c then (replicate n 0xFF, c)
      else if out = [0x06] then (replicate n 0xFF, c\<lparr>nwel := True\<rparr>)
      else if out = [0x04] then (replicate n 0xFF, c\<lparr>nwel := False\<rparr>)
      else if length out < 4 then (replicate n 0xFF, c)
      else let a = addr24 (out ! 1) (out ! 2) (out ! 3) in
        if out ! 0 = 0x02 then (replicate n 0xFF, if nwel c
          then c\<lparr>ncell := nor_program (ncell c) a (drop 4 out), nwel := False, nbusy := 3\<rparr> else c)
        else if out ! 0 = 0x20 then (replicate n 0xFF, if nwel c
          then c\<lparr>ncell := nor_erase (ncell c) a, nwel := False, nbusy := 3\<rparr> else c)
        else if out ! 0 = 0x03 then (nor_read (ncell c) a n, c)
        else if out ! 0 = 0x0B then (replicate (min 1 n) 0xFF @ nor_read (ncell c) a (n - 1), c)
        else (replicate n 0xFF, c))"

lemma nor_chip_n25q128: "n25q128 nor_chip"
  unfolding n25q128_def by (intro conjI) (auto simp: nor_chip_def Let_def)

definition blank_flash :: flash where
  "blank_flash = \<lparr>chip = \<lparr>ncell = (\<lambda>c. 0xFF), nwel = False, nbusy = 0\<rparr>, spi = nor_chip\<rparr>"

lemma blank_flash_ready [simp]: "ready blank_flash" "cells blank_flash = (\<lambda>c. 0xFF)"
  by (simp_all add: ready_def blank_flash_def nor_chip_n25q128 cells_def)

theorem flash_write_exact_witness:
  "\<exists>w'. MICRON_FLASH_B3WriteDataBuff 250 [1, 2, 3, 4, 5, 6, 7, 8, 9] blank_flash = Inr (SUCC, w')
    \<and> cells w' 256 = 7"
proof -
  obtain r w' where r: "MICRON_FLASH_B3WriteDataBuff 250 [1, 2, 3, 4, 5, 6, 7, 8, 9] blank_flash = Inr (r, w')"
    "r = SUCC \<longleftrightarrow> (\<forall>i < 9. cells w' (250 + i) = [1, 2, 3, 4, 5, 6, 7, 8, 9] ! i)" "r = SUCC"
    using flash_write_exact [of blank_flash 250 "[1, 2, 3, 4, 5, 6, 7, 8, 9]"] by auto
  from r(2) [unfolded r(3), simplified, THEN spec [of _ 6]] have "cells w' 256 = 7"
    by (simp add: eval_nat_numeral)
  then show ?thesis using r(1,3) by blast
qed

theorem flash_word_roundtrip_witness:
  "\<exists>w1 w2 w3. MICRON_FLASH_B3SubSectorErase 0x12FFC blank_flash = Inr ((), w1)
    \<and> MICRON_FLASH_B3Write4ByteData 0x12FFC 77 w1 = Inr (SUCC, w2)
    \<and> MICRON_FLASH_B3Read4ByteData 0x12FFC w2 = Inr (77, w3)"
  using flash_word_roundtrip [of blank_flash "0x12FFC" 77] by auto

end
