(* ===== verification/Log.thy ===== *)
theory Log
  imports DevDef Tool Flash FP32
begin

text \<open>
  \<open>APP/src/app_log.c\<close>, the operation log and the warning log on the serial flash, and the
  log queries of \<open>APP/src/app_pccomm.c\<close>. The two logs run the same code on different
  regions and a different \<open>strLogInfo\<close>; here the code has the kind of log as an argument.

  A log has two regions. In the log region each entry is a record that carries the address
  and size of the entry before it. In the info region every save appends a copy of
  \<open>strLogInfo\<close>, from which \<open>APP_LOG_Init\<close> finds the end of the log after a restart.

  \<open>rtc\<close> is what the clock chip delivers at each reading. A result \<open>None\<close> says that the
  processor was restarted. The semaphore is waited for with a timeout, so a counter of zero
  is a failure.
\<close>

section \<open>State\<close>

datatype log_kind = OptLog | WarnLog

record logw =
  ldev :: strACUDevInfo
  fl :: flash
  OptLogInfo :: strLogInfo
  WarnLogInfo :: strLogInfo
  Log_Sem :: nat
  Log_Err_cnt :: u8
  rtc :: "nat \<Rightarrow> strSysDateTime"
  rtc_reads :: nat
  datagrams :: "bytes list"

type_synonym 'a lio = "('a, logw) st"

fun LOG_INFO_FLASH_ADDR_BEGIN :: "log_kind \<Rightarrow> u32" where
  "LOG_INFO_FLASH_ADDR_BEGIN OptLog = 0x00000000"
| "LOG_INFO_FLASH_ADDR_BEGIN WarnLog = 0x002EE000"

fun LOG_INFO_FLASH_ADDR_END :: "log_kind \<Rightarrow> u32" where
  "LOG_INFO_FLASH_ADDR_END OptLog = 0x000FA000"
| "LOG_INFO_FLASH_ADDR_END WarnLog = 0x003E8000"

fun LOG_FLASH_ADDR_BEGIN :: "log_kind \<Rightarrow> u32" where
  "LOG_FLASH_ADDR_BEGIN OptLog = 0x000FA000"
| "LOG_FLASH_ADDR_BEGIN WarnLog = 0x003E8000"

fun LOG_FLASH_ADDR_END :: "log_kind \<Rightarrow> u32" where
  "LOG_FLASH_ADDR_END OptLog = 0x002EE000"
| "LOG_FLASH_ADDR_END WarnLog = 0x005DC000"

abbreviation (input) LOG_SYS_RECORD_SIZE :: u32 where "LOG_SYS_RECORD_SIZE \<equiv> 32"

fun log_info :: "log_kind \<Rightarrow> logw \<Rightarrow> strLogInfo" where
  "log_info OptLog w = OptLogInfo w"
| "log_info WarnLog w = WarnLogInfo w"

fun set_log_info :: "log_kind \<Rightarrow> strLogInfo \<Rightarrow> logw \<Rightarrow> logw" where
  "set_log_info OptLog i w = w\<lparr>OptLogInfo := i\<rparr>"
| "set_log_info WarnLog i w = w\<lparr>WarnLogInfo := i\<rparr>"

definition change :: "(logw \<Rightarrow> logw) \<Rightarrow> unit lio" where
  "change f w = Inr ((), f w)"

definition flash_op :: "'a fio \<Rightarrow> 'a lio" where
  "flash_op f w = bind_f (f (fl w)) (\<lambda>(x, s). Inr (x, w\<lparr>fl := s\<rparr>))"

definition flash_comm_stat :: "logw \<Rightarrow> u8" where
  "flash_comm_stat w = fl_comm_stat (SPIFlashInfo (DeviceInfo (ldev w)))"

definition set_flash_stat :: "u8 \<Rightarrow> logw \<Rightarrow> logw" where
  "set_flash_stat v w = w\<lparr>ldev := (ldev w)\<lparr>DeviceInfo := (DeviceInfo (ldev w))\<lparr>SPIFlashInfo :=
     (SPIFlashInfo (DeviceInfo (ldev w)))\<lparr>fl_link_stat := v, fl_comm_stat := v\<rparr>\<rparr>\<rparr>\<rparr>"

definition DATETIME_ReadFromRtcIC :: "strSysDateTime lio" where
  "DATETIME_ReadFromRtcIC w = (let t = rtc w (rtc_reads w) in
     Inr (t, w\<lparr>rtc_reads := rtc_reads w + 1, ldev := (ldev w)\<lparr>SysDateTime := t\<rparr>\<rparr>))"

section \<open>Saving an entry\<close>

text \<open>\<open>((addr + n) & 0xFFFFF000) != (addr & 0xFFFFF000)\<close>.\<close>

definition crosses :: "u32 \<Rightarrow> u32 \<Rightarrow> bool" where
  "crosses addr n \<longleftrightarrow> (addr + n) AND 0xFFFFF000 \<noteq> addr AND 0xFFFFF000"

definition erase_ahead :: "u32 \<Rightarrow> u32 \<Rightarrow> unit lio" where
  "erase_ahead addr n =
     (if crosses addr n then flash_op (MICRON_FLASH_B3SubSectorErase (addr + n)) else ret_io ())"

text \<open>Where the entry goes, its index, and the info as changed so far. (The first check of
  the address against the region is overwritten in both branches.)\<close>

definition log_place :: "log_kind \<Rightarrow> u32 \<Rightarrow> strLogInfo \<Rightarrow> u32 \<times> u32 \<times> strLogInfo" where
  "log_place k log_size info =
     (if li_log_total_num info = 0 then
        (LOG_FLASH_ADDR_BEGIN k, 1, info\<lparr>li_currlog_addr := LOG_FLASH_ADDR_BEGIN k,
           li_currlog_index := 1, li_currlog_size := log_size\<rparr>)
      else
        (let flash_addr = li_currlog_addr info + li_currlog_size info in
         (if flash_addr \<ge> LOG_FLASH_ADDR_END k then LOG_FLASH_ADDR_BEGIN k else flash_addr,
          li_currlog_index info + 1, info)))"

text \<open>The check that the cells are erased; otherwise the entry moves one sub-sector on.\<close>

definition claim_cells :: "u32 \<Rightarrow> u32 \<Rightarrow> u32 lio" where
  "claim_cells flash_addr log_size =
     (if unat log_size > 256 then (\<lambda>w. Inl OutOfBounds)
      else bind_io (flash_op (MICRON_FLASH_B3ReadDataBuff flash_addr (unat log_size))) (\<lambda>logbuff.
        if \<exists>b \<in> set logbuff. b \<noteq> 0xFF then
          bind_io (flash_op (MICRON_FLASH_B3SubSectorErase (flash_addr + of_nat SPI_FLASH_SectorSize))) (\<lambda>_.
            ret_io (flash_addr + of_nat SPI_FLASH_SectorSize))
        else ret_io flash_addr))"

definition log_record :: "u32 \<Rightarrow> u32 \<Rightarrow> strSysDateTime \<Rightarrow> bytes \<Rightarrow> strLogInfo \<Rightarrow> fault + bytes" where
  "log_record log_size log_index date data info =
     sealed ([0xBC] @ be32 log_size @ be32 log_index @ TOOL_DateTime2Bytebuff date 7 @ data
       @ be32 (li_currlog_addr info) @ be32 (li_currlog_size info))"

definition note_entry :: "log_kind \<Rightarrow> u32 \<Rightarrow> u32 \<Rightarrow> u32 \<Rightarrow> strLogInfo \<Rightarrow> strLogInfo" where
  "note_entry k flash_addr log_index log_size i =
     (let total = li_log_total_num i + 1;
          sys = (if total > 1 then li_log_sys_addr i + LOG_SYS_RECORD_SIZE else LOG_INFO_FLASH_ADDR_BEGIN k)
      in i\<lparr>li_beforelog_addr := li_currlog_addr i, li_beforelog_index := li_currlog_index i,
           li_beforelog_size := li_currlog_size i, li_currlog_addr := flash_addr,
           li_currlog_index := log_index, li_currlog_size := log_size, li_log_total_num := total,
           li_log_sys_addr := (if sys \<ge> LOG_INFO_FLASH_ADDR_END k then LOG_INFO_FLASH_ADDR_BEGIN k else sys)\<rparr>)"

definition info_record :: "strLogInfo \<Rightarrow> bytes" where
  "info_record i = [0xBC] @ be32 (li_log_total_num i) @ be32 (li_currlog_index i) @ be32 (li_currlog_addr i)
     @ be32 (li_currlog_size i) @ be32 (li_beforelog_index i) @ be32 (li_beforelog_addr i)
     @ be32 (li_beforelog_size i) @ [0xCB]"

definition set_sys_addr :: "log_kind \<Rightarrow> u32 \<Rightarrow> logw \<Rightarrow> logw" where
  "set_sys_addr k a w = set_log_info k ((log_info k w)\<lparr>li_log_sys_addr := a\<rparr>) w"

definition save_info :: "log_kind \<Rightarrow> status lio" where
  "save_info k w =
     (let flash_addr = li_log_sys_addr (log_info k w); logbuff = info_record (log_info k w) in
      bind_io (erase_ahead flash_addr LOG_SYS_RECORD_SIZE) (\<lambda>_.
      bind_io (flash_op (MICRON_FLASH_B3WriteDataBuff flash_addr logbuff)) (\<lambda>r.
        if r = FAIL then
          bind_io (flash_op (MICRON_FLASH_B3WriteDataBuff (flash_addr + LOG_SYS_RECORD_SIZE) logbuff)) (\<lambda>r2.
            if r2 = FAIL then ret_io FAIL
            else bind_io (change (set_sys_addr k (flash_addr + LOG_SYS_RECORD_SIZE))) (\<lambda>_. ret_io SUCC))
        else bind_io (change (set_sys_addr k flash_addr)) (\<lambda>_. ret_io SUCC))) w)"

text \<open>\<open>APP_OptLOG_Save2Flash\<close> and \<open>APP_WarnLOG_Save2Flash\<close>: \<open>len\<close> bytes of \<open>buff\<close>.\<close>

definition APP_LOG_Save2Flash :: "log_kind \<Rightarrow> bytes \<Rightarrow> u8 \<Rightarrow> status lio" where
  "APP_LOG_Save2Flash k buff len w =
     (if flash_comm_stat w = 0x01 then Inr (FAIL, w)
      else let log_size = ucast len + 26 in
        case log_place k log_size (log_info k w) of (addr, log_index, info) \<Rightarrow>
          bind_io (change (set_log_info k info)) (\<lambda>_.
          bind_io (erase_ahead addr log_size) (\<lambda>_.
          bind_io (claim_cells addr log_size) (\<lambda>flash_addr.
          bind_io DATETIME_ReadFromRtcIC (\<lambda>date.
          bind_io (\<lambda>s. bind_f (log_record log_size log_index date (take (unat len) buff) info) (\<lambda>b. Inr (b, s))) (\<lambda>logbuff.
          bind_io (flash_op (MICRON_FLASH_B3WriteDataBuff flash_addr logbuff)) (\<lambda>r.
            if r = FAIL then ret_io FAIL
            else bind_io (change (set_log_info k (note_entry k flash_addr log_index log_size info))) (\<lambda>_.
              save_info k))))))) w)"

definition APP_OptLOG_Save2Flash :: "bytes \<Rightarrow> u8 \<Rightarrow> status lio" where
  "APP_OptLOG_Save2Flash = APP_LOG_Save2Flash OptLog"

definition APP_WarnLOG_Save2Flash :: "bytes \<Rightarrow> u8 \<Rightarrow> status lio" where
  "APP_WarnLOG_Save2Flash = APP_LOG_Save2Flash WarnLog"

section \<open>The guarded save\<close>

text \<open>\<open>Log_Err_cnt++; if( Log_Err_cnt >= 2 ) APP_LOG_Reset();\<close> then the \<open>return\<close>. The
  parameters that \<open>APP_LOG_Reset\<close> stores in the EEPROM are left out.\<close>

definition log_error :: "status option lio" where
  "log_error w = (let n = Log_Err_cnt w + 1; w1 = w\<lparr>Log_Err_cnt := n\<rparr> in
     Inr (if n \<ge> 2 then None else Some FAIL, w1))"

definition BSP_OS_Sem_Pend_Log :: "status lio" where
  "BSP_OS_Sem_Pend_Log w = (if Log_Sem w = 0 then Inr (FAIL, w) else Inr (SUCC, w\<lparr>Log_Sem := Log_Sem w - 1\<rparr>))"

definition BSP_OS_Sem_Post_Log :: "status lio" where
  "BSP_OS_Sem_Post_Log w =
     (if Log_Sem w = 4294967295 then Inr (FAIL, w) else Inr (SUCC, w\<lparr>Log_Sem := Log_Sem w + 1\<rparr>))"

definition guarded_save :: "status lio \<Rightarrow> status option lio" where
  "guarded_save save =
     bind_io BSP_OS_Sem_Pend_Log (\<lambda>p.
       if p = FAIL then log_error
       else bind_io save (\<lambda>sta.
         bind_io BSP_OS_Sem_Post_Log (\<lambda>q.
           if q = FAIL then ret_io (Some FAIL)
           else if sta = FAIL then log_error
           else bind_io (change (\<lambda>w. w\<lparr>Log_Err_cnt := 0\<rparr>)) (\<lambda>_. ret_io (Some sta)))))"

text \<open>The code and \<open>n\<close> bytes at \<open>buff\<close> in the local \<open>logbuff[256]\<close>; \<open>APP_WarnLOG_Save\<close>
  copies four bytes more than the length it was given.\<close>

definition code_and_data :: "u32 \<Rightarrow> bytes \<Rightarrow> nat \<Rightarrow> bytes lio" where
  "code_and_data code buff n w =
     (if n > 252 \<or> n > length buff then Inl OutOfBounds
      else Inr (copy_over (replicate 256 0) (TOOL_INT32Data2Bytebuff code 1 @ take n buff), w))"

definition APP_OptLOG_Save :: "u32 \<Rightarrow> bytes \<Rightarrow> u8 \<Rightarrow> status option lio" where
  "APP_OptLOG_Save code buff len =
     guarded_save (bind_io (code_and_data code buff (unat len)) (\<lambda>logbuff. APP_OptLOG_Save2Flash logbuff (len + 4)))"

definition APP_OptLOG_SaveCode :: "u32 \<Rightarrow> status option lio" where
  "APP_OptLOG_SaveCode code =
     guarded_save (bind_io (code_and_data code [] 0) (\<lambda>logbuff. APP_OptLOG_Save2Flash logbuff 4))"

definition APP_WarnLOG_Save :: "u32 \<Rightarrow> bytes \<Rightarrow> u8 \<Rightarrow> status option lio" where
  "APP_WarnLOG_Save code buff len =
     guarded_save (bind_io (code_and_data code buff (unat len + 4)) (\<lambda>logbuff. APP_WarnLOG_Save2Flash logbuff (len + 4)))"

definition APP_WarnLOG_SaveCode :: "u32 \<Rightarrow> status option lio" where
  "APP_WarnLOG_SaveCode code =
     guarded_save (bind_io (code_and_data code [] 0) (\<lambda>logbuff. APP_WarnLOG_Save2Flash logbuff 4))"

section \<open>Reading entries\<close>

text \<open>\<open>APP_LOG_Read1Log\<close> into a buffer of \<open>room\<close> bytes: the buffer's contents and \<open>*len\<close>.\<close>

definition APP_LOG_Read1Log :: "nat \<Rightarrow> strLogInfo \<Rightarrow> (status \<times> bytes \<times> u8) lio" where
  "APP_LOG_Read1Log room i w =
     (if flash_comm_stat w = 0x01 then Inr ((FAIL, [], 0), w)
      else if li_currlog_size i \<le> 0 \<or> li_currlog_size i > 1000 then Inr ((FAIL, [], 0), w)
      else if unat (li_currlog_size i) > room then Inl OutOfBounds
      else bind_io (flash_op (MICRON_FLASH_B3ReadDataBuff (li_currlog_addr i) (unat (li_currlog_size i)))) (\<lambda>logbuff.
        if logbuff ! 0 \<noteq> 0xBC then ret_io (FAIL, logbuff, 0)
        else (\<lambda>s. bind_f (TOOL_CheckSum8BitGet logbuff (unat (li_currlog_size i - 2))) (\<lambda>checksum8bit.
          Inr (if checksum8bit \<noteq> logbuff ! unat (li_currlog_size i - 2) then (FAIL, logbuff, 0)
               else (SUCC, logbuff, ucast (li_currlog_size i)), s)))) w)"

text \<open>The two queries differ in the kind of log and the number of the command,
  \<open>OperationLogQueID\<close> or \<open>WarnLogQueID\<close>.\<close>

fun log_que_id :: "log_kind \<Rightarrow> u16" where
  "log_que_id OptLog = 0x0902"
| "log_que_id WarnLog = 0x0901"

definition reply_id :: "log_kind \<Rightarrow> bytes" where
  "reply_id k = [ucast (drop_bit 8 ((log_que_id k OR 0x8000) AND 0xFF00)), ucast ((log_que_id k OR 0x8000) AND 0x00FF)]"

text \<open>The frame for one entry: index, time and data of the record.\<close>

definition log_frame :: "log_kind \<Rightarrow> bytes \<Rightarrow> u8 \<Rightarrow> fault + bytes" where
  "log_frame k logbuff len =
     (if len < 15 then Inl OutOfBounds
      else sealed ([0xBC, len - 15 + 3] @ reply_id k @ [len - 15] @ take (unat (len - 15)) (drop 5 logbuff)))"

definition APP_UDP_Sendto :: "bytes \<Rightarrow> logw \<Rightarrow> logw" where
  "APP_UDP_Sendto b w = w\<lparr>datagrams := datagrams w @ [b]\<rparr>"

definition flush_tx :: "bytes \<Rightarrow> unit lio" where
  "flush_tx tx = change (if tx \<noteq> [] then APP_UDP_Sendto tx else (\<lambda>w. w))"

text \<open>\<open>n\<close> entries are still to be sent; \<open>tx\<close> is \<open>PCCOMMTxBuff[1500]\<close> up to \<open>index\<close>.\<close>

fun query_loop :: "log_kind \<Rightarrow> nat \<Rightarrow> strLogInfo \<Rightarrow> bytes \<Rightarrow> unit lio" where
  "query_loop k 0 scan tx = flush_tx tx"
| "query_loop k (Suc n) scan tx =
     bind_io (APP_LOG_Read1Log 256 scan) (\<lambda>(sta, logbuff, len).
       if sta = FAIL then flush_tx tx
       else (\<lambda>w. bind_f (log_frame k logbuff len) (\<lambda>frame.
         if length (tx @ frame) > 1500 then Inl OutOfBounds
         else let scan' = scan\<lparr>li_currlog_addr := int32_at logbuff (unat len - 10),
                             li_currlog_size := int32_at logbuff (unat len - 6)\<rparr>
         in if length (tx @ frame) \<ge> 700
            then bind_io (change (APP_UDP_Sendto (tx @ frame))) (\<lambda>_. query_loop k n scan' []) w
            else query_loop k n scan' (tx @ frame) w)))"

text \<open>\<open>APP_PCCOMM_OptLogQue\<close> and \<open>APP_PCCOMM_WarnLogQue\<close>: the result carries \<open>txbuff\<close>.\<close>

definition APP_PCCOMM_LogQue :: "log_kind \<Rightarrow> bytes \<Rightarrow> (status \<times> bytes) lio" where
  "APP_PCCOMM_LogQue k rxbuff w =
     (if un16 (rxbuff ! 0) (rxbuff ! 1) \<noteq> log_que_id k then Inr ((FAIL, []), w)
      else let asked = int32_at rxbuff 3;
               que_log_num = (if asked > li_log_total_num (log_info k w) then li_log_total_num (log_info k w) else asked)
      in bind_io (query_loop k (unat que_log_num) (log_info k w) []) (\<lambda>_.
           ret_io (SUCC, reply_id k @ [32] @ replicate 32 0xFF)) w)"

definition APP_PCCOMM_OptLogQue :: "bytes \<Rightarrow> (status \<times> bytes) lio" where
  "APP_PCCOMM_OptLogQue = APP_PCCOMM_LogQue OptLog"

definition APP_PCCOMM_WarnLogQue :: "bytes \<Rightarrow> (status \<times> bytes) lio" where
  "APP_PCCOMM_WarnLogQue = APP_PCCOMM_LogQue WarnLog"

section \<open>Restart\<close>

definition read_info :: "u32 \<Rightarrow> (u8 \<times> strLogInfo \<times> u8) lio" where
  "read_info a =
     bind_io (flash_op (MICRON_FLASH_B3ReadDataByte a)) (\<lambda>head.
     bind_io (flash_op (MICRON_FLASH_B3Read4ByteData (a + 1))) (\<lambda>total.
     bind_io (flash_op (MICRON_FLASH_B3Read4ByteData (a + 5))) (\<lambda>cindex.
     bind_io (flash_op (MICRON_FLASH_B3Read4ByteData (a + 9))) (\<lambda>caddr.
     bind_io (flash_op (MICRON_FLASH_B3Read4ByteData (a + 13))) (\<lambda>csize.
     bind_io (flash_op (MICRON_FLASH_B3Read4ByteData (a + 17))) (\<lambda>bindex.
     bind_io (flash_op (MICRON_FLASH_B3Read4ByteData (a + 21))) (\<lambda>baddr.
     bind_io (flash_op (MICRON_FLASH_B3Read4ByteData (a + 25))) (\<lambda>bsize.
     bind_io (flash_op (MICRON_FLASH_B3ReadDataByte (a + 29))) (\<lambda>tail.
       ret_io (head, \<lparr>li_log_sys_addr = a, li_log_total_num = total, li_currlog_addr = caddr,
         li_currlog_size = csize, li_currlog_index = cindex, li_beforelog_addr = baddr,
         li_beforelog_index = bindex, li_beforelog_size = bsize\<rparr>, tail))))))))))"

text \<open>A damaged record: the first sub-sector of the region is rewritten with the last good
  record, and the processor restarted; \<open>True\<close> means that it was.\<close>

definition rewrite_info :: "log_kind \<Rightarrow> bool lio" where
  "rewrite_info k w =
     (let attempt = bind_io (flash_op (MICRON_FLASH_B3SubSectorErase (LOG_INFO_FLASH_ADDR_BEGIN k))) (\<lambda>_.
        flash_op (MICRON_FLASH_B3WriteDataBuff (LOG_INFO_FLASH_ADDR_BEGIN k) (info_record (log_info k w))))
      in bind_io attempt (\<lambda>r. if r = SUCC then ret_io True
         else bind_io attempt (\<lambda>r2. if r2 = SUCC then ret_io True
           else bind_io (change (set_flash_stat COMM_UNLINK)) (\<lambda>_. ret_io False))) w)"

function scan_info :: "log_kind \<Rightarrow> u32 \<Rightarrow> bool lio" where
  "scan_info k a =
     (if a < LOG_INFO_FLASH_ADDR_END k then
        bind_io (read_info a) (\<lambda>(head, info, tail).
          if head = 0xBC \<and> tail = 0xCB then
            bind_io (change (set_log_info k info)) (\<lambda>_. scan_info k (a + LOG_SYS_RECORD_SIZE))
          else if head = 0xFF \<and> tail = 0xFF then ret_io False
          else if head \<noteq> 0xFF then rewrite_info k
          else ret_io False)
      else ret_io False)"
  by pat_completeness auto
termination
proof (relation "measure (\<lambda>(k, a). 4294967296 - unat a)")
  fix k :: log_kind and a :: u32
  assume "a < LOG_INFO_FLASH_ADDR_END k"
  then have "unat a < 0x3E8000" by (cases k) (simp_all add: word_less_nat_alt)
  then have "unat (a + 32) = unat a + 32" by (simp add: unat_word_ariths)
  then show "((k, a + LOG_SYS_RECORD_SIZE), (k, a)) \<in> measure (\<lambda>(k, a). 4294967296 - unat a)"
    using u32_bound [of "a + 32"] by simp
qed simp

declare scan_info.simps [simp del]

definition zero_info :: strLogInfo where
  "zero_info = \<lparr>li_log_sys_addr = 0, li_log_total_num = 0, li_currlog_addr = 0, li_currlog_size = 0,
     li_currlog_index = 0, li_beforelog_addr = 0, li_beforelog_index = 0, li_beforelog_size = 0\<rparr>"

definition first_entry :: "log_kind \<Rightarrow> strLogInfo \<Rightarrow> strLogInfo" where
  "first_entry k i =
     (if li_log_total_num i = 0 then i\<lparr>li_currlog_addr := LOG_FLASH_ADDR_BEGIN k, li_currlog_index := 1,
        li_currlog_size := 0, li_log_sys_addr := LOG_INFO_FLASH_ADDR_BEGIN k\<rparr> else i)"

text \<open>The part of \<open>APP_LOG_Init\<close> for one log; \<open>None\<close> for a restart.\<close>

definition init_log :: "log_kind \<Rightarrow> unit option lio" where
  "init_log k =
     bind_io (change (set_log_info k zero_info)) (\<lambda>_.
     bind_io (scan_info k (LOG_INFO_FLASH_ADDR_BEGIN k)) (\<lambda>restarted.
       if restarted then ret_io None
       else bind_io (change (\<lambda>w. set_log_info k (first_entry k (log_info k w)) w)) (\<lambda>_. ret_io (Some ()))))"

definition APP_LOG_Init :: "unit option lio" where
  "APP_LOG_Init =
     bind_io (change (\<lambda>w. w\<lparr>Log_Err_cnt := 0\<rparr>)) (\<lambda>_.
     bind_io (flash_op MICRON_FLASH_ReadID) (\<lambda>readbuff.
     bind_io (change (set_flash_stat (if readbuff ! 0 = 0x20 \<and> readbuff ! 1 = 0xBA \<and> readbuff ! 2 = 0x18
                                     then COMM_LINK else COMM_UNLINK))) (\<lambda>_.
     bind_io (change (\<lambda>w. w\<lparr>Log_Sem := 1\<rparr>)) (\<lambda>_.
     bind_io (init_log OptLog) (\<lambda>r. case r of None \<Rightarrow> ret_io None | Some u \<Rightarrow> init_log WarnLog)))))"

section \<open>Entries of the operation log\<close>

definition APP_LOG_SatParam2Logbuff :: "strSatParam \<Rightarrow> bytes" where
  "APP_LOG_SatParam2Logbuff s = sat_name s @ [sat_lon_flag s] @ be32 (fp_to_u32 (fp_mul1000 (sat_lon s)))
     @ be32 (sat_freq s) @ [sat_polar_type s]"

definition APP_LOG_LocallParam2Logbuff :: "strHandLocalPositionParam \<Rightarrow> bytes" where
  "APP_LOG_LocallParam2Logbuff p = [hp_lon_flag p] @ be32 (fp_to_u32 (fp_mul1000 (hp_lon p)))
     @ [hp_lat_flag p] @ be32 (fp_to_u32 (fp_mul1000 (hp_lat p))) @ be32 (hp_height p)"

definition APP_LOG_AntennaPoseData2Logbuff :: "fp32 \<Rightarrow> fp32 \<Rightarrow> fp32 \<Rightarrow> bytes" where
  "APP_LOG_AntennaPoseData2Logbuff AZ EL PL = be32 (fp_to_s32 (fp_mul1000 AZ)) @ be32 (fp_to_s32 (fp_mul1000 EL))
     @ be32 (fp_to_s32 (fp_mul1000 PL))"

definition APP_LOG_AntennaParam2Logbuff :: "strAntennaParam \<Rightarrow> bytes" where
  "APP_LOG_AntennaParam2Logbuff a = [ant_type a] @ be32 (ant_offset_angle a * 1000) @ [ant_caliber a]
     @ be32 (ant_lo_freq a) @ [ant_gain_range_flag a] @ [ant_elec_coder_num a]"

text \<open>The callers pass a zeroed \<open>logbuff[256]\<close> that starts with the bytes.\<close>

definition save_bytes :: "u32 \<Rightarrow> bytes \<Rightarrow> status option lio" where
  "save_bytes code bs = APP_OptLOG_Save code (copy_over (replicate 256 0) bs) (of_nat (length bs))"

definition APP_OptLOG_Save_PowerOn :: "status option lio" where
  "APP_OptLOG_Save_PowerOn = bind_io DATETIME_ReadFromRtcIC (\<lambda>_. save_bytes 0x022101 [])"

definition APP_OptLOG_Save_SatOpt :: "u32 \<Rightarrow> strSatParam \<Rightarrow> status option lio" where
  "APP_OptLOG_Save_SatOpt code s = save_bytes code (APP_LOG_SatParam2Logbuff s)"

definition APP_OptLOG_Save_LocallParamOpt :: "u32 \<Rightarrow> strHandLocalPositionParam \<Rightarrow> status option lio" where
  "APP_OptLOG_Save_LocallParamOpt code p = save_bytes code (APP_LOG_LocallParam2Logbuff p)"

definition APP_OptLOG_Save_AntennaParamOpt :: "u32 \<Rightarrow> strAntennaParam \<Rightarrow> status option lio" where
  "APP_OptLOG_Save_AntennaParamOpt code a = save_bytes code (APP_LOG_AntennaParam2Logbuff a)"

definition APP_OptLOG_Save_AntennaPoseOpt ::
  "u32 \<Rightarrow> strSatParam \<Rightarrow> strAntennaParam \<Rightarrow> fp32 \<Rightarrow> fp32 \<Rightarrow> fp32 \<Rightarrow> status option lio" where
  "APP_OptLOG_Save_AntennaPoseOpt code s a AZ EL PL =
     save_bytes code (APP_LOG_SatParam2Logbuff s @ APP_LOG_AntennaParam2Logbuff a
       @ APP_LOG_AntennaPoseData2Logbuff AZ EL PL)"

end
