(* ===== verification/LogLaws.thy ===== *)
theory LogLaws
  imports Log
begin

text \<open>
  What the two logs guarantee while they fill an erased region: entries are stored one after
  the other, a query walks them back newest first, and a restart finds the end of the log.
  Then the ends of the regions, where the code erases cells it does not own.
\<close>

section \<open>Steps on the flash\<close>

lemma log_info_set [simp]:
  "log_info k (set_log_info k i w) = i" "fl (set_log_info k i w) = fl w"
  "ldev (set_log_info k i w) = ldev w" "log_info k (w\<lparr>fl := s\<rparr>) = log_info k w"
  "rtc (set_log_info k i w) = rtc w" "rtc_reads (set_log_info k i w) = rtc_reads w"
  "datagrams (set_log_info k i w) = datagrams w" "log_info k (w\<lparr>datagrams := ds\<rparr>) = log_info k w"
  "set_log_info k j (set_log_info k i w) = set_log_info k j w"
  by (cases k; simp)+

lemma set_log_info_same [simp]: "set_log_info k (log_info k w) w = w"
  by (cases k) simp_all

lemma flash_comm_stat_simps [simp]:
  "flash_comm_stat (w\<lparr>fl := s\<rparr>) = flash_comm_stat w" "flash_comm_stat (set_log_info k i w) = flash_comm_stat w"
  by (simp_all add: flash_comm_stat_def)

lemma flash_op_yields:
  "yields f (fl w) x m \<Longrightarrow> \<exists>s. flash_op f w = Inr (x, w\<lparr>fl := s\<rparr>) \<and> ready s \<and> cells s = m"
  by (auto simp: yields_def flash_op_def)

lemma change_Inr [simp]: "change f w = Inr ((), f w)"
  by (simp add: change_def)

text \<open>From \<open>a\<close> to the end of its sub-sector all cells are erased.\<close>

definition tail_free :: "(nat \<Rightarrow> u8) \<Rightarrow> nat \<Rightarrow> bool" where
  "tail_free m a \<longleftrightarrow> (\<forall>c. a \<le> c \<and> c div 4096 = a div 4096 \<longrightarrow> m c = 0xFF)"

lemma crosses_iff:
  assumes "unat addr + unat n < 16777216"
  shows "crosses addr n \<longleftrightarrow> (unat addr + unat n) div 4096 \<noteq> unat addr div 4096"
proof -
  have m: "(0xFFFFF000 :: u32) = push_bit 12 (mask 20)" by (simp add: mask_eq_exp_minus_1 push_bit_eq_mult)
  have e: "x AND 0xFFFFF000 = push_bit 12 (drop_bit 12 x)" for x :: u32
    unfolding m by (rule bit_word_eqI) (auto simp: bit_simps)
  have f: "drop_bit 12 (x AND 0xFFFFF000) = drop_bit 12 x" for x :: u32
    unfolding m by (rule bit_word_eqI) (auto simp: bit_simps dest: bit_imp_le_length)
  have d: "x AND 0xFFFFF000 = y AND 0xFFFFF000 \<longleftrightarrow> drop_bit 12 x = drop_bit 12 y" for x y :: u32
    using e f by metis
  have "unat (addr + n) = unat addr + unat n" using assms by (simp add: unat_word_ariths)
  then show ?thesis
    unfolding crosses_def d by (simp add: word_unat_eq_iff unat_drop_bit_u32)
qed

text \<open>The sub-sector ahead is erased before it is reached: \<open>ahead m a n\<close> are the cells then.\<close>

definition ahead :: "(nat \<Rightarrow> u8) \<Rightarrow> nat \<Rightarrow> nat \<Rightarrow> nat \<Rightarrow> u8" where
  "ahead m a n = (if (a + n) div 4096 \<noteq> a div 4096 then nor_erase m (a + n) else m)"

lemma ahead_cells:
  assumes "tail_free m a" "n \<le> 4096"
  shows "a \<le> c \<Longrightarrow> c < a + n \<Longrightarrow> ahead m a n c = 0xFF"
    "tail_free (ahead m a n) (a + n)"
    "c < a \<Longrightarrow> ahead m a n c = m c"
    "(a + n) div 4096 < c div 4096 \<Longrightarrow> ahead m a n c = m c"
proof -
  have s: "(a + n) div 4096 \<le> a div 4096 + 1"
    using div_le_mono [of "a + n" "a + 4096" 4096] assms(2) by simp
  show "ahead m a n c = 0xFF" if c: "a \<le> c" "c < a + n"
  proof -
    have l: "a div 4096 \<le> c div 4096" "c div 4096 \<le> (a + n) div 4096"
      using c by (intro div_le_mono; simp)+
    show ?thesis
      using l s assms(1) c(1) unfolding ahead_def nor_erase_def tail_free_def by auto
  qed
  show "tail_free (ahead m a n) (a + n)"
    using assms(1) unfolding ahead_def nor_erase_def tail_free_def by auto
  show "ahead m a n c = m c" if c: "c < a"
  proof -
    have "c div 4096 \<le> a div 4096" using c by (intro div_le_mono) simp
    moreover have "a div 4096 \<le> (a + n) div 4096" by (intro div_le_mono) simp
    ultimately show ?thesis by (auto simp: ahead_def nor_erase_def)
  qed
  show "(a + n) div 4096 < c div 4096 \<Longrightarrow> ahead m a n c = m c"
    by (simp add: ahead_def nor_erase_def)
qed

lemma erase_ahead_ok:
  assumes "ready (fl w)" "unat addr + unat n < 16777216"
  shows "\<exists>s. erase_ahead addr n w = Inr ((), w\<lparr>fl := s\<rparr>) \<and> ready s
    \<and> cells s = ahead (cells (fl w)) (unat addr) (unat n)"
proof -
  have u: "unat (addr + n) = unat addr + unat n" using assms(2) by (simp add: unat_word_ariths)
  show ?thesis
  proof (cases "crosses addr n")
    case True
    then show ?thesis
      using flash_op_yields [OF erase_yields [OF assms(1), of "addr + n"]] crosses_iff [OF assms(2)] assms(2)
      by (simp add: erase_ahead_def u ahead_def)
  next
    case False
    then have "erase_ahead addr n w = Inr ((), w\<lparr>fl := fl w\<rparr>)"
      by (simp add: erase_ahead_def ret_io_def)
    then show ?thesis
      using False crosses_iff [OF assms(2)] assms(1) by (intro exI [of _ "fl w"]) (simp add: ahead_def)
  qed
qed

lemma claim_ok:
  assumes "ready (fl w)" "unat addr + unat n \<le> 16777216" "unat n \<le> 256"
    and free: "\<And>c. unat addr \<le> c \<Longrightarrow> c < unat addr + unat n \<Longrightarrow> cells (fl w) c = 0xFF"
  shows "\<exists>s. claim_cells addr n w = Inr (addr, w\<lparr>fl := s\<rparr>) \<and> ready s \<and> cells s = cells (fl w)"
proof (cases "unat n = 0")
  case False
  then have "unat addr mod 16777216 = unat addr" using assms(2) by simp
  moreover have "b = 0xFF" if "b \<in> set (nor_read (cells (fl w)) (unat addr) (unat n))" for b
    using that assms(2) free by (auto simp: nor_read_def)
  ultimately show ?thesis
    using flash_op_yields [OF read_yields(1) [OF assms(1), of addr "unat n"]] assms(3)
    by (auto simp: claim_cells_def bind_io_def ret_io_def)
next
  case True
  then show ?thesis
    using flash_op_yields [OF read_yields(1) [OF assms(1), of addr "unat n"]]
    by (auto simp: claim_cells_def bind_io_def ret_io_def nor_read_def)
qed

lemma write_ok:
  assumes "ready (fl w)" "unat addr + length xs \<le> 16777216"
    and "\<And>c. unat addr \<le> c \<Longrightarrow> c < unat addr + length xs \<Longrightarrow> cells (fl w) c = 0xFF"
  shows "\<exists>s. flash_op (MICRON_FLASH_B3WriteDataBuff addr xs) w = Inr (SUCC, w\<lparr>fl := s\<rparr>) \<and> ready s
    \<and> cells s = store_bytes (cells (fl w)) (unat addr) xs"
  using flash_op_yields [OF write_erased_yields [OF assms(1,2)]] assms(3) by simp

section \<open>Appending\<close>

text \<open>The cells after \<open>xs\<close> is written at \<open>a\<close> with \<open>n\<close> cells erased ahead.\<close>

definition appended :: "(nat \<Rightarrow> u8) \<Rightarrow> nat \<Rightarrow> nat \<Rightarrow> bytes \<Rightarrow> nat \<Rightarrow> u8" where
  "appended m a n xs = store_bytes (ahead m a n) a xs"

lemma appended_cells:
  assumes "tail_free m a" "n \<le> 4096" "length xs \<le> n"
  shows "tail_free (appended m a n xs) (a + n)"
    "c < a \<Longrightarrow> appended m a n xs c = m c"
    "(a + n) div 4096 < c div 4096 \<Longrightarrow> appended m a n xs c = m c"
    "i < length xs \<Longrightarrow> appended m a n xs (a + i) = xs ! i"
proof -
  note h = ahead_cells [OF assms(1,2)]
  show "tail_free (appended m a n xs) (a + n)"
    using h(2) assms(3) by (auto simp: tail_free_def appended_def store_bytes_def)
  show "c < a \<Longrightarrow> appended m a n xs c = m c"
    by (simp add: appended_def store_bytes_def h(3))
  show "appended m a n xs c = m c" if "(a + n) div 4096 < c div 4096"
  proof -
    have "\<not> c < a + n" using that div_le_mono [of c "a + n" 4096] by force
    then show ?thesis using that assms(3) by (simp add: appended_def store_bytes_def h(4))
  qed
  show "i < length xs \<Longrightarrow> appended m a n xs (a + i) = xs ! i"
    by (simp add: appended_def store_bytes_def)
qed

lemma length_info_record [simp]: "length (info_record i) = 30"
  by (simp add: info_record_def)

lemma save_info_ok:
  assumes "ready (fl w)" "tail_free (cells (fl w)) (unat (li_log_sys_addr (log_info k w)))"
    "unat (li_log_sys_addr (log_info k w)) + 32 < 16777216"
  shows "\<exists>s. save_info k w = Inr (SUCC, w\<lparr>fl := s\<rparr>) \<and> ready s \<and>
    cells s = appended (cells (fl w)) (unat (li_log_sys_addr (log_info k w))) 32 (info_record (log_info k w))"
proof -
  let ?a = "li_log_sys_addr (log_info k w)" and ?i = "log_info k w"
  obtain s where s: "erase_ahead ?a 32 w = Inr ((), w\<lparr>fl := s\<rparr>)" "ready s"
    "cells s = ahead (cells (fl w)) (unat ?a) 32"
    using erase_ahead_ok [OF assms(1), of ?a 32] assms(3) by auto
  obtain s' where s': "flash_op (MICRON_FLASH_B3WriteDataBuff ?a (info_record ?i)) (w\<lparr>fl := s\<rparr>) = Inr (SUCC, w\<lparr>fl := s'\<rparr>)"
    "ready s'" "cells s' = store_bytes (cells s) (unat ?a) (info_record ?i)"
    using write_ok [of "w\<lparr>fl := s\<rparr>" ?a "info_record ?i"] s(2,3) ahead_cells(1) [OF assms(2), of 32] assms(3)
    by auto
  have "set_sys_addr k ?a (w\<lparr>fl := s'\<rparr>) = w\<lparr>fl := s'\<rparr>"
    by (cases k) (simp_all add: set_sys_addr_def)
  then show ?thesis
    using s s' by (intro exI [of _ s']) (simp add: save_info_def Let_def ret_io_def appended_def)
qed

text \<open>The record of an entry and its length.\<close>

definition record_bytes :: "u32 \<Rightarrow> u32 \<Rightarrow> strSysDateTime \<Rightarrow> bytes \<Rightarrow> u32 \<Rightarrow> u32 \<Rightarrow> bytes" where
  "record_bytes n idx date data baddr bsize =
     (let body = [0xBC] @ be32 n @ be32 idx @ TOOL_DateTime2Bytebuff date 7 @ data @ be32 baddr @ be32 bsize
      in body @ [sum_list body, 0xCB])"

lemma length_record_bytes [simp]: "length (record_bytes n idx date data ba bs) = length data + 26"
  by (simp add: record_bytes_def Let_def)

lemma log_record_eq:
  "log_record n idx date data i = Inr (record_bytes n idx date data (li_currlog_addr i) (li_currlog_size i))"
  by (simp add: log_record_def record_bytes_def Let_def)

lemma entry_written:
  fixes w :: logw and len :: u8
  defines "n \<equiv> ucast len + 26 :: u32" and "m \<equiv> cells (fl w)"
  assumes w: "ready (fl w)" "flash_comm_stat w \<noteq> 1"
    and len: "unat len \<le> 229" "unat len \<le> length buff"
    and place: "log_place k n (log_info k w) = (addr, idx, info)"
    and addr: "tail_free m (unat addr)" "unat addr + unat n < 16777216"
  defines "m1 \<equiv> appended m (unat addr) (unat n)
      (record_bytes n idx (rtc w (rtc_reads w)) (take (unat len) buff) (li_currlog_addr info) (li_currlog_size info))"
  shows "\<exists>w'. APP_LOG_Save2Flash k buff len w = save_info k w' \<and> ready (fl w') \<and> cells (fl w') = m1
    \<and> log_info k w' = note_entry k addr idx n info \<and> flash_comm_stat w' = flash_comm_stat w
    \<and> rtc w' = rtc w \<and> rtc_reads w' = rtc_reads w + 1 \<and> datagrams w' = datagrams w"
proof -
  have n: "unat n = unat len + 26" using len u8_bound [of len] by (simp add: n_def unat_word_ariths)
  let ?w = "set_log_info k info w" and ?i = "note_entry k addr idx n info"
  let ?date = "rtc w (rtc_reads w)"
  let ?rec = "record_bytes n idx ?date (take (unat len) buff) (li_currlog_addr info) (li_currlog_size info)"
  have l: "length ?rec = unat n" using len by (simp add: n)
  obtain s where s: "erase_ahead addr n ?w = Inr ((), ?w\<lparr>fl := s\<rparr>)" "ready s"
    "cells s = ahead m (unat addr) (unat n)"
    using erase_ahead_ok [of ?w addr n] w addr(2) by (auto simp: m_def)
  have free: "cells s c = 0xFF" if "unat addr \<le> c" "c < unat addr + unat n" for c
    using ahead_cells(1) [OF addr(1), of "unat n" c] that n len s(3) by simp
  obtain s2 where s2: "claim_cells addr n (?w\<lparr>fl := s\<rparr>) = Inr (addr, ?w\<lparr>fl := s2\<rparr>)" "ready s2" "cells s2 = cells s"
    using claim_ok [of "?w\<lparr>fl := s\<rparr>" addr n] s(2) free addr(2) n len by auto
  define w3 where "w3 = ?w\<lparr>fl := s2, rtc_reads := rtc_reads w + 1, ldev := (ldev w)\<lparr>SysDateTime := ?date\<rparr>\<rparr>"
  have w3: "DATETIME_ReadFromRtcIC (?w\<lparr>fl := s2\<rparr>) = Inr (?date, w3)"
    by (simp add: DATETIME_ReadFromRtcIC_def w3_def Let_def)
  obtain s4 where s4: "flash_op (MICRON_FLASH_B3WriteDataBuff addr ?rec) w3 = Inr (SUCC, w3\<lparr>fl := s4\<rparr>)"
    "ready s4" "cells s4 = store_bytes (cells s2) (unat addr) ?rec"
    using write_ok [of w3 addr ?rec] s2 s free addr(2) l by (auto simp: w3_def)
  let ?w5 = "set_log_info k ?i (w3\<lparr>fl := s4\<rparr>)"
  have "APP_LOG_Save2Flash k buff len w = save_info k ?w5"
    using w(2) s(1) s2(1) w3 s4(1) place
    by (simp add: APP_LOG_Save2Flash_def n_def [symmetric] log_record_eq)
  moreover have "cells s4 = m1" using s4(3) s2(3) s(3) by (simp add: m1_def appended_def)
  ultimately show ?thesis
    using s4(2) by (intro exI [of _ ?w5]) (simp add: w3_def flash_comm_stat_def)
qed

lemma Save2Flash_ok:
  fixes w :: logw and len :: u8
  defines "n \<equiv> ucast len + 26 :: u32" and "m \<equiv> cells (fl w)"
  assumes w: "ready (fl w)" "flash_comm_stat w \<noteq> 1"
    and len: "unat len \<le> 229" "unat len \<le> length buff"
    and place: "log_place k n (log_info k w) = (addr, idx, info)"
    and addr: "tail_free m (unat addr)" "unat addr + unat n < 16777216"
  defines "m1 \<equiv> appended m (unat addr) (unat n)
      (record_bytes n idx (rtc w (rtc_reads w)) (take (unat len) buff) (li_currlog_addr info) (li_currlog_size info))"
    and "i \<equiv> note_entry k addr idx n info"
  assumes sys: "tail_free m1 (unat (li_log_sys_addr i))" "unat (li_log_sys_addr i) + 32 < 16777216"
  shows "\<exists>w'. APP_LOG_Save2Flash k buff len w = Inr (SUCC, w') \<and> ready (fl w') \<and> flash_comm_stat w' = flash_comm_stat w
    \<and> log_info k w' = i \<and> rtc w' = rtc w \<and> rtc_reads w' = rtc_reads w + 1 \<and> datagrams w' = datagrams w
    \<and> cells (fl w') = appended m1 (unat (li_log_sys_addr i)) 32 (info_record i)"
proof -
  obtain v where v: "APP_LOG_Save2Flash k buff len w = save_info k v" "ready (fl v)" "cells (fl v) = m1"
    "log_info k v = i" "flash_comm_stat v = flash_comm_stat w" "rtc v = rtc w" "rtc_reads v = rtc_reads w + 1"
    "datagrams v = datagrams w"
    using entry_written [OF w len place [unfolded n_def] addr [unfolded n_def m_def]]
    unfolding m1_def i_def n_def m_def by blast
  obtain s where "save_info k v = Inr (SUCC, v\<lparr>fl := s\<rparr>)" "ready s"
    "cells s = appended m1 (unat (li_log_sys_addr i)) 32 (info_record i)"
    using save_info_ok [of v k] v(2-4) sys by auto
  then show ?thesis using v by (intro exI [of _ "v\<lparr>fl := s\<rparr>"]) simp
qed

section \<open>The log as a list of entries\<close>

text \<open>Entries are given newest first. In an erased region they lie one after the other from
  the begin of the region.\<close>

type_synonym entry = "strSysDateTime \<times> bytes"

fun sector :: "log_kind \<Rightarrow> nat" where
  "sector OptLog = 0"
| "sector WarnLog = 750"

lemma regions [simp]:
  "unat (LOG_INFO_FLASH_ADDR_BEGIN k) = 4096 * sector k"
  "unat (LOG_INFO_FLASH_ADDR_END k) = 4096 * (sector k + 250)"
  "unat (LOG_FLASH_ADDR_BEGIN k) = 4096 * (sector k + 250)"
  "unat (LOG_FLASH_ADDR_END k) = 4096 * (sector k + 750)"
  by (cases k; simp)+

lemma sector_bound: "sector k \<le> 750"
  by (cases k) simp_all

abbreviation (input) log_begin :: "log_kind \<Rightarrow> nat" where "log_begin k \<equiv> 4096 * (sector k + 250)"
abbreviation (input) log_end :: "log_kind \<Rightarrow> nat" where "log_end k \<equiv> 4096 * (sector k + 750)"

definition esize :: "entry \<Rightarrow> nat" where
  "esize e = length (snd e) + 26"

fun end_of :: "nat \<Rightarrow> entry list \<Rightarrow> nat" where
  "end_of b [] = b"
| "end_of b (e # es) = end_of b es + esize e"

text \<open>What an entry of \<open>n\<close> bytes has as the entry before it; the first one names itself.\<close>

fun before_of :: "nat \<Rightarrow> nat \<Rightarrow> entry list \<Rightarrow> nat \<times> nat" where
  "before_of b n [] = (b, n)"
| "before_of b n (e # es) = (end_of b es, esize e)"

fun top_record :: "nat \<Rightarrow> entry list \<Rightarrow> bytes" where
  "top_record b [] = []"
| "top_record b (e # es) =
     record_bytes (of_nat (esize e)) (of_nat (Suc (length es))) (fst e) (snd e)
       (of_nat (fst (before_of b (esize e) es))) (of_nat (snd (before_of b (esize e) es)))"

fun stored :: "(nat \<Rightarrow> u8) \<Rightarrow> nat \<Rightarrow> entry list \<Rightarrow> bool" where
  "stored m b [] = True"
| "stored m b (e # es) \<longleftrightarrow> (\<forall>i < esize e. m (end_of b es + i) = top_record b (e # es) ! i) \<and> stored m b es"

fun info_of :: "log_kind \<Rightarrow> entry list \<Rightarrow> strLogInfo" where
  "info_of k [] = zero_info"
| "info_of k (e # es) =
     \<lparr>li_log_sys_addr = of_nat (4096 * sector k + 32 * length es), li_log_total_num = of_nat (Suc (length es)),
      li_currlog_addr = of_nat (end_of (log_begin k) es), li_currlog_size = of_nat (esize e),
      li_currlog_index = of_nat (Suc (length es)),
      li_beforelog_addr = of_nat (fst (before_of (log_begin k) (esize e) es)),
      li_beforelog_index = of_nat (max 1 (length es)),
      li_beforelog_size = of_nat (snd (before_of (log_begin k) (esize e) es))\<rparr>"

fun infos :: "log_kind \<Rightarrow> (nat \<Rightarrow> u8) \<Rightarrow> entry list \<Rightarrow> bool" where
  "infos k m [] = True"
| "infos k m (e # es) \<longleftrightarrow>
     (\<forall>i < 30. m (4096 * sector k + 32 * length es + i) = info_record (info_of k (e # es)) ! i) \<and> infos k m es"

text \<open>A log that holds the entries \<open>es\<close>; with no entries, a log in an erased region.\<close>

definition log_holds :: "log_kind \<Rightarrow> entry list \<Rightarrow> logw \<Rightarrow> bool" where
  "log_holds k es w \<longleftrightarrow> ready (fl w) \<and> flash_comm_stat w \<noteq> 1
     \<and> (if es = [] then li_log_total_num (log_info k w) = 0 else log_info k w = info_of k es)
     \<and> end_of (log_begin k) es < log_end k \<and> length es < 32000 \<and> (\<forall>e \<in> set es. length (snd e) \<le> 229)
     \<and> stored (cells (fl w)) (log_begin k) es \<and> tail_free (cells (fl w)) (end_of (log_begin k) es)
     \<and> infos k (cells (fl w)) es \<and> tail_free (cells (fl w)) (4096 * sector k + 32 * length es)"

lemma end_of_ge: "b \<le> end_of b es"
  by (induction es) auto

lemma end_of_mono: "end_of b es \<le> end_of b (e # es)"
  by simp

lemma stored_cong:
  "(\<And>c. b \<le> c \<Longrightarrow> c < end_of b es \<Longrightarrow> m' c = m c) \<Longrightarrow> stored m' b es = stored m b es"
proof (induction es)
  case (Cons e es)
  then have "stored m' b es = stored m b es" by simp
  moreover have "m' (end_of b es + i) = m (end_of b es + i)" if "i < esize e" for i
    using Cons.prems [of "end_of b es + i"] that end_of_ge [of b es] by simp
  ultimately show ?case by simp
qed simp

lemma infos_cong:
  "(\<And>c. 4096 * sector k \<le> c \<Longrightarrow> c < 4096 * sector k + 32 * length es \<Longrightarrow> m' c = m c)
    \<Longrightarrow> infos k m' es = infos k m es"
  by (induction es) simp_all

lemma of_nat_less_u8: "x < 256 \<Longrightarrow> unat (of_nat x :: u8) = x"
  by (simp add: unat_of_nat)

text \<open>Where the next entry goes and what the info is then.\<close>

lemma of_nat_less_u32: "x < 4294967296 \<Longrightarrow> unat (of_nat x :: u32) = x"
  by (simp add: unat_of_nat)

lemma place_next:
  assumes h: "log_holds k es w" and d: "length d \<le> 229" "end_of (log_begin k) es + length d + 26 < log_end k"
    and len: "length es < 31999"
  shows "\<exists>info. log_place k (of_nat (length d + 26)) (log_info k w)
      = (of_nat (end_of (log_begin k) es), of_nat (Suc (length es)), info)
    \<and> li_currlog_addr info = of_nat (fst (before_of (log_begin k) (length d + 26) es))
    \<and> li_currlog_size info = of_nat (snd (before_of (log_begin k) (length d + 26) es))
    \<and> note_entry k (of_nat (end_of (log_begin k) es)) (of_nat (Suc (length es))) (of_nat (length d + 26)) info
      = info_of k ((t, d) # es)"
proof (cases es)
  case Nil
  then show ?thesis using h
    by (cases k) (simp_all add: log_holds_def log_place_def note_entry_def Let_def esize_def)
next
  case (Cons e es')
  let ?i = "info_of k es"
  have i: "log_info k w = ?i" using h Cons by (simp add: log_holds_def)
  have e: "end_of (log_begin k) es < log_end k" using h by (simp add: log_holds_def)
  have a: "li_currlog_addr ?i + li_currlog_size ?i = of_nat (end_of (log_begin k) es)"
    by (simp add: Cons)
  have t: "li_log_total_num ?i \<noteq> 0"
  proof
    assume "li_log_total_num ?i = 0"
    then have "unat (of_nat (length es) :: u32) = 0" by (simp add: Cons)
    then show False using of_nat_less_u32 [of "length es"] len Cons by simp
  qed
  have l: "\<not> LOG_FLASH_ADDR_END k \<le> of_nat (end_of (log_begin k) es)"
    using e sector_bound [of k] of_nat_less_u32 [of "end_of (log_begin k) es"] by (simp add: word_le_nat_alt)
  have "log_place k (of_nat (length d + 26)) ?i = (of_nat (end_of (log_begin k) es), of_nat (Suc (length es)), ?i)"
    using t l a by (simp add: log_place_def Let_def) (simp add: Cons)
  moreover have "note_entry k (of_nat (end_of (log_begin k) es)) (of_nat (Suc (length es))) (of_nat (length d + 26)) ?i
      = info_of k ((t, d) # es)"
  proof -
    have s: "(of_nat (4096 * sector k + 32 * length es') :: u32) + 32 = of_nat (4096 * sector k + 32 * length es)"
      by (simp add: Cons)
    have u: "unat (of_nat (4096 * sector k + 32 * length es) :: u32) = 4096 * sector k + 32 * length es"
      using len sector_bound [of k] by (intro of_nat_less_u32) simp
    have "\<not> LOG_INFO_FLASH_ADDR_END k \<le> of_nat (4096 * sector k + 32 * length es)"
      unfolding word_le_nat_alt u regions using len by simp
    moreover have "(of_nat (Suc (length es)) :: u32) > 1"
      using len Cons of_nat_less_u32 [of "Suc (length es)"] by (simp add: word_less_nat_alt)
    ultimately show ?thesis
      using s by (simp add: note_entry_def Let_def Cons esize_def add_ac)
  qed
  ultimately show ?thesis unfolding i by (intro exI [of _ ?i]) (simp add: Cons)
qed

section \<open>A save adds an entry\<close>

lemma tail_free_cong:
  "tail_free m a \<Longrightarrow> (\<And>c. a \<le> c \<Longrightarrow> c div 4096 = a div 4096 \<Longrightarrow> m' c = m c) \<Longrightarrow> tail_free m' a"
  by (simp add: tail_free_def)

lemma div_4096_less: "x < 4096 * q \<Longrightarrow> x div 4096 < (q :: nat)"
  and div_4096_le: "4096 * q \<le> x \<Longrightarrow> q \<le> x div 4096"
  using div_le_mono [of "4096 * q" x 4096] by (simp_all add: less_mult_imp_div_less)

lemma length_top_record [simp]: "length (top_record b (e # es)) = esize e"
  by (simp add: esize_def)

lemma save_adds_entry:
  assumes h: "log_holds k es w" and d: "length d \<le> 229" "end_of (log_begin k) es + length d + 26 < log_end k"
    and len: "length es < 31999"
  shows "\<exists>w'. APP_LOG_Save2Flash k d (of_nat (length d)) w = Inr (SUCC, w')
    \<and> log_holds k ((rtc w (rtc_reads w), d) # es) w' \<and> rtc w' = rtc w \<and> rtc_reads w' = rtc_reads w + 1
    \<and> datagrams w' = datagrams w
    \<and> (\<forall>c. c < 4096 * sector k \<or> log_end k \<le> c \<longrightarrow> cells (fl w') c = cells (fl w) c)"
proof -
  let ?b = "log_begin k" and ?n = "length d + 26" and ?e = "(rtc w (rtc_reads w), d)"
  let ?a = "end_of ?b es" and ?s = "4096 * sector k + 32 * length es" and ?m = "cells (fl w)"
  let ?info = "info_of k (?e # es)"
  note H = h [unfolded log_holds_def]
  have free: "tail_free ?m ?a" "tail_free ?m ?s" using H by simp_all
  have ul: "unat (of_nat (length d) :: u8) = length d" using d(1) by (simp add: unat_of_nat)
  have n: "ucast (of_nat (length d) :: u8) + 26 = (of_nat ?n :: u32)"
    using d(1) by (simp add: word_unat_eq_iff unat_word_ariths unat_of_nat)
  have un: "unat (of_nat ?n :: u32) = ?n" using d(1) by (intro of_nat_less_u32) simp
  have ua: "unat (of_nat ?a :: u32) = ?a"
    using d(2) sector_bound [of k] by (intro of_nat_less_u32) simp
  have us: "unat (of_nat ?s :: u32) = ?s"
    using len sector_bound [of k] by (intro of_nat_less_u32) simp
  obtain info where info: "log_place k (of_nat ?n) (log_info k w) = (of_nat ?a, of_nat (Suc (length es)), info)"
    "li_currlog_addr info = of_nat (fst (before_of ?b ?n es))" "li_currlog_size info = of_nat (snd (before_of ?b ?n es))"
    "note_entry k (of_nat ?a) (of_nat (Suc (length es))) (of_nat ?n) info = ?info"
    using place_next [OF h d len] by blast
  define m1 where "m1 = appended ?m ?a ?n (top_record ?b (?e # es))"
  define m2 where "m2 = appended m1 ?s 32 (info_record ?info)"
  have rec: "top_record ?b (?e # es) = record_bytes (of_nat ?n) (of_nat (Suc (length es))) (rtc w (rtc_reads w)) (take (length d) d)
      (li_currlog_addr info) (li_currlog_size info)"
    using info(2,3) by (simp add: esize_def)
  have A: "?b \<le> ?a" "?s + 32 < ?b" "?a + ?n < log_end k" using end_of_ge [of ?b es] len d(2) by simp_all
  have sec: "?s div 4096 < sector k + 250" "(?s + 32) div 4096 < sector k + 250" "(?a + ?n) div 4096 < sector k + 750"
    using A by (intro div_4096_less; simp)+
  note 1 = appended_cells [OF free(1), of ?n "top_record ?b (?e # es)", folded m1_def]
  have 1: "tail_free m1 (?a + ?n)" "\<And>c. c < ?a \<Longrightarrow> m1 c = ?m c"
    "\<And>c. (?a + ?n) div 4096 < c div 4096 \<Longrightarrow> m1 c = ?m c"
    "\<And>i. i < ?n \<Longrightarrow> m1 (?a + i) = top_record ?b (?e # es) ! i"
    using 1 d(1) by (simp_all add: esize_def)
  have f1: "tail_free m1 ?s"
  proof (rule tail_free_cong [OF free(2)])
    fix c assume "c div 4096 = ?s div 4096"
    then have "c < ?b" using sec(1) div_4096_le [of "sector k + 250" c] by (force simp: not_less)
    then show "m1 c = ?m c" using 1(2) A(1) by simp
  qed
  have 2: "tail_free m2 (?s + 32)" "\<And>c. c < ?s \<Longrightarrow> m2 c = m1 c"
    "\<And>c. (?s + 32) div 4096 < c div 4096 \<Longrightarrow> m2 c = m1 c"
    "\<And>i. i < 30 \<Longrightarrow> m2 (?s + i) = info_record ?info ! i"
    using appended_cells [OF f1, of 32 "info_record ?info", folded m2_def] by simp_all
  have 3: "m2 c = m1 c" if "?b \<le> c" for c
    using 2(3) [of c] sec(2) div_4096_le [OF that] by simp
  have sys: "li_log_sys_addr ?info = of_nat ?s" by simp
  have P: "ready (fl w)" "flash_comm_stat w \<noteq> 1" "length d \<le> 229" "length d \<le> length d"
    "?a + ?n < 16777216" "?s + 32 < 16777216"
    using H d A len sector_bound [of k] by simp_all
  obtain w' where w': "APP_LOG_Save2Flash k d (of_nat (length d)) w = Inr (SUCC, w')" "ready (fl w')"
      "flash_comm_stat w' = flash_comm_stat w" "log_info k w' = ?info" "rtc w' = rtc w"
      "rtc_reads w' = rtc_reads w + 1" "datagrams w' = datagrams w" "cells (fl w') = m2"
    using Save2Flash_ok [of w "of_nat (length d)" d k "of_nat ?a" "of_nat (Suc (length es))" info,
        unfolded ul n un ua rec [symmetric] info(4) sys us, folded m1_def, folded m2_def,
        OF P(1,2,3,4) info(1) free(1) P(5) f1 P(6)]
    by blast
  have "log_holds k (?e # es) w'"
  proof -
    have "stored m2 ?b es"
      using H stored_cong [of ?b es m2 ?m] 3 1(2) by simp
    moreover have "m2 (?a + i) = top_record ?b (?e # es) ! i" if "i < ?n" for i
      using 1(4) [OF that] 3 [of "?a + i"] A(1) by simp
    moreover have "infos k m2 es"
      using H infos_cong [of k es m2 ?m] 2(2) 1(2) A by simp
    moreover have "tail_free m2 (?a + ?n)"
    proof (rule tail_free_cong [OF 1(1)])
      show "?a + ?n \<le> c \<Longrightarrow> m2 c = m1 c" for c using 3 [of c] A(1) by simp
    qed
    moreover have "tail_free m2 (4096 * sector k + 32 * length (?e # es))"
      using 2(1) by (simp add: algebra_simps)
    ultimately show ?thesis
      using w' 2(4) H d len A(3) by (simp add: log_holds_def esize_def add.assoc)
  qed
  moreover have "m2 c = ?m c" if c: "c < 4096 * sector k \<or> log_end k \<le> c" for c
  proof (cases "c < 4096 * sector k")
    case True
    then show ?thesis using 2(2) [of c] 1(2) [of c] A by simp
  next
    case False
    then have "log_end k \<le> c" using c by simp
    then show ?thesis using 3 [of c] 1(3) [of c] sec(3) div_4096_le [of "sector k + 750" c] A by simp
  qed
  ultimately show ?thesis using w' by blast
qed

section \<open>A query walks back\<close>

definition entry_frame :: "log_kind \<Rightarrow> u32 \<Rightarrow> entry \<Rightarrow> bytes" where
  "entry_frame k idx e =
     (let p = be32 idx @ TOOL_DateTime2Bytebuff (fst e) 7 @ snd e;
          body = [0xBC, of_nat (length p + 3)] @ reply_id k @ [of_nat (length p)] @ p
      in body @ [sum_list body, 0xCB])"

fun frames :: "log_kind \<Rightarrow> entry list \<Rightarrow> bytes list" where
  "frames k [] = []"
| "frames k (e # es) = entry_frame k (of_nat (Suc (length es))) e # frames k es"

lemma length_reply_id [simp]: "length (reply_id k) = 2"
  by (simp add: reply_id_def)

lemma length_entry_frame: "length (entry_frame k idx e) = length (snd e) + 18"
  by (simp add: entry_frame_def Let_def)

text \<open>The parts of a record that a query uses.\<close>

lemma record_parts:
  fixes n idx ba bs :: u32 and date :: strSysDateTime and data :: bytes
  defines "r \<equiv> record_bytes n idx date data ba bs"
  shows "r ! 0 = 0xBC"
    "TOOL_CheckSum8BitGet r (length data + 24) = Inr (r ! (length data + 24))"
    "take (length data + 11) (drop 5 r) = be32 idx @ TOOL_DateTime2Bytebuff date 7 @ data"
    "int32_at r (length data + 16) = ba" "int32_at r (length data + 20) = bs"
proof -
  define body where "body = [0xBC] @ be32 n @ be32 idx @ TOOL_DateTime2Bytebuff date 7 @ data @ be32 ba @ be32 bs"
  have r: "r = body @ [sum_list body, 0xCB]" by (simp add: r_def record_bytes_def body_def Let_def)
  have l: "length body = length data + 24" by (simp add: body_def)
  show "r ! 0 = 0xBC" by (simp add: r body_def)
  show "TOOL_CheckSum8BitGet r (length data + 24) = Inr (r ! (length data + 24))"
    by (simp add: TOOL_CheckSum8BitGet_eq r l nth_append flip: l)
  obtain x1 x2 x3 x4 where x: "be32 n = [x1, x2, x3, x4]" using be32_split by blast
  show "take (length data + 11) (drop 5 r) = be32 idx @ TOOL_DateTime2Bytebuff date 7 @ data"
    by (simp add: r body_def x)
  obtain a1 a2 a3 a4 where a: "be32 ba = [a1, a2, a3, a4]" "un32 a1 a2 a3 a4 = ba" using be32_split by blast
  obtain b1 b2 b3 b4 where b: "be32 bs = [b1, b2, b3, b4]" "un32 b1 b2 b3 b4 = bs" using be32_split by blast
  define pre where "pre = [0xBC] @ be32 n @ be32 idx @ TOOL_DateTime2Bytebuff date 7 @ data"
  have p: "r = pre @ [a1, a2, a3, a4, b1, b2, b3, b4] @ [sum_list body, 0xCB]" "length pre = length data + 16"
    by (simp_all add: r body_def pre_def a(1) b(1))
  show "int32_at r (length data + 16) = ba" "int32_at r (length data + 20) = bs"
    using a(2) b(2) unfolding p(1) by (simp_all add: int32_at_def nth_append p(2))
qed

lemma read_entry:
  assumes w: "ready (fl w)" "flash_comm_stat w \<noteq> 1"
    and s: "stored (cells (fl w)) b (e # es)" "length (snd e) \<le> 229" "end_of b (e # es) \<le> 16777216"
    and i: "li_currlog_addr i = of_nat (end_of b es)" "li_currlog_size i = of_nat (esize e)"
  shows "\<exists>f. APP_LOG_Read1Log 256 i w = Inr ((SUCC, top_record b (e # es), of_nat (esize e)), w\<lparr>fl := f\<rparr>)
    \<and> ready f \<and> cells f = cells (fl w)"
proof -
  let ?r = "top_record b (e # es)"
  have z: "26 \<le> esize e" "esize e \<le> 255" using s(2) by (simp_all add: esize_def)
  have ua: "unat (li_currlog_addr i) = end_of b es" using s(3) z by (simp add: i of_nat_less_u32)
  have us: "unat (li_currlog_size i) = esize e" using z by (simp add: i of_nat_less_u32)
  have us2: "unat (li_currlog_size i - 2) = length (snd e) + 24"
    using us z by (simp add: unat_sub word_le_nat_alt esize_def)
  have ul: "ucast (li_currlog_size i) = (of_nat (esize e) :: u8)"
    by (simp add: word_unat_eq_iff unat_u8_of_u32 us unat_of_nat)
  have "nor_read (cells (fl w)) (end_of b es) (esize e) = ?r"
    using s(1,3) z by (intro nth_equalityI) (auto simp: nor_read_def simp del: top_record.simps)
  then obtain f where f: "flash_op (MICRON_FLASH_B3ReadDataBuff (li_currlog_addr i) (unat (li_currlog_size i))) w
      = Inr (?r, w\<lparr>fl := f\<rparr>)" "ready f" "cells f = cells (fl w)"
    using flash_op_yields [OF read_yields(1) [OF w(1), of "li_currlog_addr i" "esize e"]] ua us s(3) z
    by auto
  have c: "?r ! 0 = 0xBC" "TOOL_CheckSum8BitGet ?r (length (snd e) + 24) = Inr (?r ! (length (snd e) + 24))"
    using record_parts(1,2) by simp_all
  have "\<not> li_currlog_size i \<le> 0" "\<not> li_currlog_size i > 1000"
    using us z by (simp_all add: word_le_nat_alt word_less_nat_alt)
  then have "APP_LOG_Read1Log 256 i w = Inr ((SUCC, ?r, of_nat (esize e)), w\<lparr>fl := f\<rparr>)"
    using w(2) us z f(1) c by (simp add: APP_LOG_Read1Log_def us2 ul del: top_record.simps)
  then show ?thesis using f by blast
qed

lemma frame_of_record:
  assumes "length (snd e) \<le> 229"
  shows "log_frame k (top_record b (e # es)) (of_nat (esize e)) = Inr (entry_frame k (of_nat (Suc (length es))) e)"
proof -
  have l: "(of_nat (esize e) :: u8) - 15 = of_nat (length (snd e) + 11)"
    by (simp add: esize_def)
  have u: "unat (of_nat (length (snd e) + 11) :: u8) = length (snd e) + 11"
    using assms by (intro of_nat_less_u8) simp
  have "unat (of_nat (esize e) :: u8) = esize e"
    using assms by (intro of_nat_less_u8) (simp add: esize_def)
  then have "\<not> (of_nat (esize e) :: u8) < 15"
    unfolding word_less_nat_alt by (simp add: esize_def)
  then show ?thesis
    unfolding log_frame_def l u using record_parts(3)
    by (simp add: entry_frame_def Let_def add_ac)
qed

lemma query_loop_ok:
  assumes "ready (fl w)" "flash_comm_stat w \<noteq> 1" "stored (cells (fl w)) b es" "end_of b es \<le> 16777216"
    "\<forall>e \<in> set es. length (snd e) \<le> 229" "n \<le> length es" "length tx < 700"
    "es \<noteq> [] \<Longrightarrow> li_currlog_addr i = of_nat (end_of b (tl es)) \<and> li_currlog_size i = of_nat (esize (hd es))"
  shows "\<exists>w' ds. query_loop k n i tx w = Inr ((), w') \<and> datagrams w' = datagrams w @ ds
    \<and> concat ds = tx @ concat (take n (frames k es)) \<and> (\<forall>d \<in> set ds. length d < 1000)
    \<and> ready (fl w') \<and> cells (fl w') = cells (fl w) \<and> (\<forall>j. log_info j w' = log_info j w)
    \<and> flash_comm_stat w' = flash_comm_stat w"
  using assms
proof (induction es arbitrary: n i tx w)
  case Nil
  then show ?case
    by (cases tx) (auto simp: flush_tx_def APP_UDP_Sendto_def flash_comm_stat_def)
next
  case (Cons e es)
  show ?case
  proof (cases n)
    case 0
    have "log_info j (APP_UDP_Sendto tx w) = log_info j w" for j by (cases j) (simp_all add: APP_UDP_Sendto_def)
    then show ?thesis using 0 Cons.prems
      by (cases "tx = []") (auto simp: flush_tx_def APP_UDP_Sendto_def flash_comm_stat_def)
  next
    case (Suc n')
    let ?r = "top_record b (e # es)" and ?f = "entry_frame k (of_nat (Suc (length es))) e"
    have d: "length (snd e) \<le> 229" using Cons.prems(5) by simp
    have i: "li_currlog_addr i = of_nat (end_of b es)" "li_currlog_size i = of_nat (esize e)"
      using Cons.prems(8) by simp_all
    obtain g where g: "APP_LOG_Read1Log 256 i w = Inr ((SUCC, ?r, of_nat (esize e)), w\<lparr>fl := g\<rparr>)" "ready g"
      "cells g = cells (fl w)"
      using read_entry [OF Cons.prems(1,2,3) d Cons.prems(4) i] by blast
    let ?w = "w\<lparr>fl := g\<rparr>"
    let ?i = "i\<lparr>li_currlog_addr := int32_at ?r (unat (of_nat (esize e) :: u8) - 10),
                li_currlog_size := int32_at ?r (unat (of_nat (esize e) :: u8) - 6)\<rparr>"
    have ul: "unat (of_nat (esize e) :: u8) = length (snd e) + 26"
      using d unfolding esize_def by (intro of_nat_less_u8) simp
    have i': "es \<noteq> [] \<Longrightarrow> li_currlog_addr ?i = of_nat (end_of b (tl es)) \<and> li_currlog_size ?i = of_nat (esize (hd es))"
      unfolding ul using record_parts(4,5) [where data = "snd e"] by (cases es) (simp_all add: add.commute)
    have l: "length ?f \<le> 247" using d by (simp add: length_entry_frame)
    have nl: "\<not> 1500 < length (tx @ ?f)" using l Cons.prems(7) by simp
    have IH: "\<exists>w' ds. query_loop k n' ?i tx' v = Inr ((), w') \<and> datagrams w' = datagrams v @ ds
        \<and> concat ds = tx' @ concat (take n' (frames k es)) \<and> (\<forall>d \<in> set ds. length d < 1000)
        \<and> ready (fl w') \<and> cells (fl w') = cells (fl v) \<and> (\<forall>j. log_info j w' = log_info j v)
        \<and> flash_comm_stat w' = flash_comm_stat v"
      if "fl v = g" "flash_comm_stat v = flash_comm_stat w" "length tx' < 700" for v tx'
      using Cons.IH [of v n' tx' ?i] that g Cons.prems(2-6) i' Suc by simp
    note q = frame_of_record [OF d, of k b es] g(1) nl
    show ?thesis
    proof (cases "700 \<le> length (tx @ ?f)")
      case True
      let ?v = "APP_UDP_Sendto (tx @ ?f) ?w"
      have v: "fl ?v = g" "flash_comm_stat ?v = flash_comm_stat w" "datagrams ?v = datagrams w @ [tx @ ?f]"
        "\<And>j. log_info j ?v = log_info j w"
        by (simp_all add: APP_UDP_Sendto_def flash_comm_stat_def)
      have e: "query_loop k n i tx w = query_loop k n' ?i [] ?v"
        using q True by (simp add: Suc Let_def del: top_record.simps)
      obtain w' ds where "query_loop k n' ?i [] ?v = Inr ((), w')" "datagrams w' = datagrams ?v @ ds"
        "concat ds = concat (take n' (frames k es))" "\<forall>d \<in> set ds. length d < 1000" "ready (fl w')"
        "cells (fl w') = cells (fl ?v)" "\<forall>j. log_info j w' = log_info j ?v" "flash_comm_stat w' = flash_comm_stat ?v"
        using IH [of ?v "[]"] v(1,2) by auto
      then show ?thesis
        unfolding e using v g(3) l Cons.prems(7) Suc
        by (intro exI [of _ w'] exI [of _ "(tx @ ?f) # ds"]) simp
    next
      case False
      have e: "query_loop k n i tx w = query_loop k n' ?i (tx @ ?f) ?w"
        using q False by (simp add: Suc Let_def del: top_record.simps)
      show ?thesis
        unfolding e using IH [of ?w "tx @ ?f"] False g(3) Suc by (simp add: flash_comm_stat_def)
    qed
  qed
qed

section \<open>A restart finds the end of the log\<close>

definition word_at :: "(nat \<Rightarrow> u8) \<Rightarrow> nat \<Rightarrow> u32" where
  "word_at m a = un32 (m a) (m (a + 1)) (m (a + 2)) (m (a + 3))"

definition info_at :: "(nat \<Rightarrow> u8) \<Rightarrow> u32 \<Rightarrow> strLogInfo" where
  "info_at m a = \<lparr>li_log_sys_addr = a, li_log_total_num = word_at m (unat a + 1),
     li_currlog_addr = word_at m (unat a + 9), li_currlog_size = word_at m (unat a + 13),
     li_currlog_index = word_at m (unat a + 5), li_beforelog_addr = word_at m (unat a + 21),
     li_beforelog_index = word_at m (unat a + 17), li_beforelog_size = word_at m (unat a + 25)\<rparr>"

lemma read4_yields:
  assumes "ready w" "unat a + 4 \<le> 16777216"
  shows "yields (MICRON_FLASH_B3Read4ByteData a) w (word_at (cells w) (unat a)) (cells w)"
  unfolding MICRON_FLASH_B3Read4ByteData_def
proof (rule yields_bind [OF read_yields(1) [OF assms(1)]])
  have l: "[0..<4] = [0, 1, 2, 3 :: nat]" by (simp add: upt_conv_Cons)
  have "int32_at (nor_read (cells w) (unat a mod 16777216) 4) 0 = word_at (cells w) (unat a)"
    using assms(2) by (simp add: int32_at_def nor_read_def l word_at_def)
  then show "yields (ret_io (int32_at (nor_read (cells w) (unat a mod 16777216) 4) 0)) w1
      (word_at (cells w) (unat a)) (cells w)" if "ready w1" "cells w1 = cells w" for w1
    using yields_ret [OF that(1)] that(2) by simp
qed

text \<open>Reading steps of the log compose.\<close>

definition reads_as :: "'a lio \<Rightarrow> logw \<Rightarrow> 'a \<Rightarrow> bool" where
  "reads_as f w x \<longleftrightarrow> (\<exists>s. f w = Inr (x, w\<lparr>fl := s\<rparr>) \<and> ready s \<and> cells s = cells (fl w))"

lemma reads_as_bind:
  assumes "reads_as f w x" "\<And>s. ready s \<Longrightarrow> cells s = cells (fl w) \<Longrightarrow> reads_as (k x) (w\<lparr>fl := s\<rparr>) y"
  shows "reads_as (bind_io f k) w y"
  using assms by (fastforce simp: reads_as_def)

lemma reads_as_op: "yields f (fl w) x (cells (fl w)) \<Longrightarrow> reads_as (flash_op f) w x"
  using flash_op_yields by (auto simp: reads_as_def)

lemma reads_as_ret: "ready (fl w) \<Longrightarrow> reads_as (ret_io x) w x"
  by (auto simp: reads_as_def ret_io_def intro: exI [of _ "fl w"])

lemma read_info_ok:
  assumes "ready (fl w)" "unat a + 32 \<le> 16777216"
  shows "reads_as (read_info a) w
    (cells (fl w) (unat a), info_at (cells (fl w)) a, cells (fl w) (unat a + 29))"
proof -
  have u: "unat (a + 1) = unat a + 1" "unat (a + 5) = unat a + 5" "unat (a + 9) = unat a + 9"
    "unat (a + 13) = unat a + 13" "unat (a + 17) = unat a + 17" "unat (a + 21) = unat a + 21"
    "unat (a + 25) = unat a + 25" "unat (a + 29) = unat a + 29"
    using assms(2) by (simp_all add: unat_word_ariths)
  have b: "reads_as (flash_op (MICRON_FLASH_B3ReadDataByte x)) v (cells (fl v) (unat x))"
    if "ready (fl v)" "unat x < 16777216" for v x
    using read_yields(2) [OF that(1), of x] that(2) by (intro reads_as_op) simp
  have r: "reads_as (flash_op (MICRON_FLASH_B3Read4ByteData x)) v (word_at (cells (fl v)) (unat x))"
    if "ready (fl v)" "unat x + 4 \<le> 16777216" for v x
    using read4_yields [OF that] by (rule reads_as_op)
  show ?thesis
    unfolding read_info_def
    by ((rule reads_as_bind, rule b r, use assms u in simp, use assms u in simp)+,
        simp add: u info_at_def reads_as_ret)
qed

lemma info_record_at:
  assumes "\<forall>i < 30. m (unat a + i) = info_record x ! i"
  shows "m (unat a) = 0xBC" "m (unat a + 29) = 0xCB" "info_at m a = x\<lparr>li_log_sys_addr := a\<rparr>"
proof -
  have n: "m (unat a + i) = info_record x ! i" if "i < 30" for i using assms that by blast
  have w: "word_at m (unat a + (1 + 4 * j)) = f"
    if "j < 7" "take 4 (drop (1 + 4 * j) (info_record x)) = be32 f" for j f
  proof -
    have "info_record x ! (1 + 4 * j + i) = be32 f ! i" if "i < 4" for i
      using \<open>j < 7\<close> that \<open>take 4 _ = _\<close> [THEN arg_cong, of "\<lambda>l. l ! i"] by simp
    from this [of 0] this [of 1] this [of 2] this [of 3] show ?thesis
      using n [of "1 + 4 * j"] n [of "1 + 4 * j + 1"] n [of "1 + 4 * j + 2"] n [of "1 + 4 * j + 3"] \<open>j < 7\<close>
        un32_be32 [of f]
      by (simp add: word_at_def add_ac)
  qed
  show "m (unat a) = 0xBC" using n [of 0] by (simp add: info_record_def)
  show "m (unat a + 29) = 0xCB" using n [of 29] by (simp add: info_record_def nth_append)
  show "info_at m a = x\<lparr>li_log_sys_addr := a\<rparr>"
    using w [of 0 "li_log_total_num x"] w [of 1 "li_currlog_index x"] w [of 2 "li_currlog_addr x"]
      w [of 3 "li_currlog_size x"] w [of 4 "li_beforelog_index x"] w [of 5 "li_beforelog_addr x"]
      w [of 6 "li_beforelog_size x"]
    by (simp add: info_at_def info_record_def)
qed

lemma infos_slot:
  "infos k m es \<Longrightarrow> j < length es \<Longrightarrow> i < 30 \<Longrightarrow>
    m (4096 * sector k + 32 * j + i) = info_record (info_of k (drop (length es - Suc j) es)) ! i"
proof (induction es)
  case (Cons e es)
  show ?case
  proof (cases "j = length es")
    case False
    then have "length (e # es) - Suc j = Suc (length es - Suc j)" using Cons.prems(2) by simp
    then show ?thesis using Cons False by simp
  qed (use Cons.prems in simp)
qed simp

lemma same_slot: "(4096 * q + 32 * j + 29) div 4096 = (4096 * q + 32 * j) div (4096 :: nat)"
proof -
  have "x div 4096 = x div 32 div 128" for x :: nat by (simp add: div_mult2_eq [symmetric])
  moreover have "(4096 * q + 32 * j + 29) div 32 = (4096 * q + 32 * j) div 32" by simp
  ultimately show ?thesis by simp
qed

lemma scan_ok:
  assumes "ready (fl w)" "infos k (cells (fl w)) es" "tail_free (cells (fl w)) (4096 * sector k + 32 * length es)"
    "length es < 32000" "j \<le> length es"
  shows "\<exists>s. scan_info k (of_nat (4096 * sector k + 32 * j)) w
      = Inr (False, (if j < length es then set_log_info k (info_of k es) w else w)\<lparr>fl := s\<rparr>)
    \<and> ready s \<and> cells s = cells (fl w)"
  using assms
proof (induction "length es - j" arbitrary: j w)
  case 0
  let ?a = "of_nat (4096 * sector k + 32 * j) :: u32"
  have j: "j = length es" using 0 by simp
  have ua: "unat ?a = 4096 * sector k + 32 * j"
    using 0(5) j sector_bound [of k] by (intro of_nat_less_u32) simp
  obtain s where s: "read_info ?a w = Inr ((0xFF, info_at (cells (fl w)) ?a, 0xFF), w\<lparr>fl := s\<rparr>)"
    "ready s" "cells s = cells (fl w)"
    using read_info_ok [OF 0(2), of ?a] 0(4,5) ua j sector_bound [of k] same_slot [of "sector k" j]
    by (auto simp: reads_as_def tail_free_def)
  have "?a < LOG_INFO_FLASH_ADDR_END k"
    unfolding word_less_nat_alt ua regions using 0(5) j by simp
  then have "scan_info k ?a w = Inr (False, w\<lparr>fl := s\<rparr>)"
    using s(1) by (subst scan_info.simps) (simp add: ret_io_def)
  then show ?case using s(2,3) j by auto
next
  case (Suc d)
  let ?a = "of_nat (4096 * sector k + 32 * j) :: u32"
  let ?x = "info_of k (drop (length es - Suc j) es)"
  have j: "j < length es" using Suc(2) by simp
  have ua: "unat ?a = 4096 * sector k + 32 * j"
    using Suc(6) j sector_bound [of k] by (intro of_nat_less_u32) simp
  have "\<forall>i < 30. cells (fl w) (unat ?a + i) = info_record ?x ! i"
    unfolding ua using infos_slot [OF Suc(4) j] by simp
  note c = info_record_at [OF this]
  have l: "length (drop (length es - Suc j) es) = Suc j" using j by simp
  then obtain e es' where x: "drop (length es - Suc j) es = e # es'" by (cases "drop (length es - Suc j) es") auto
  then have i: "?x\<lparr>li_log_sys_addr := ?a\<rparr> = ?x" using l by simp
  obtain s where s: "read_info ?a w = Inr ((0xBC, ?x, 0xCB), w\<lparr>fl := s\<rparr>)" "ready s" "cells s = cells (fl w)"
    using read_info_ok [OF Suc(3), of ?a] c i ua Suc(6) j sector_bound [of k] by (auto simp: reads_as_def)
  let ?w = "set_log_info k ?x (w\<lparr>fl := s\<rparr>)"
  have n: "?a + 32 = of_nat (4096 * sector k + 32 * Suc j)" by simp
  have "?a < LOG_INFO_FLASH_ADDR_END k"
    unfolding word_less_nat_alt ua regions using Suc(6) j by simp
  then have e: "scan_info k ?a w = scan_info k (of_nat (4096 * sector k + 32 * Suc j)) ?w"
    using s(1) n by (subst scan_info.simps) (simp add: add_ac)
  have "\<exists>s'. scan_info k (of_nat (4096 * sector k + 32 * Suc j)) ?w
      = Inr (False, (if Suc j < length es then set_log_info k (info_of k es) ?w else ?w)\<lparr>fl := s'\<rparr>)
      \<and> ready s' \<and> cells s' = cells (fl ?w)"
    by (rule Suc(1)) (use Suc(2,4-6) s(2,3) j in simp_all)
  then obtain s' where s': "scan_info k (of_nat (4096 * sector k + 32 * Suc j)) ?w
      = Inr (False, (if Suc j < length es then set_log_info k (info_of k es) ?w else ?w)\<lparr>fl := s'\<rparr>)"
    "ready s'" "cells s' = cells (fl w)"
    using s(3) by auto
  have "(if Suc j < length es then set_log_info k (info_of k es) ?w else ?w)\<lparr>fl := s'\<rparr>
      = set_log_info k (info_of k es) w\<lparr>fl := s'\<rparr>"
    using j by (cases "Suc j = length es"; cases k) simp_all
  then show ?case unfolding e s'(1) using s'(2,3) j by auto
qed

lemma restart_ok:
  assumes h: "log_holds k es w0" and w: "fl w = fl w0" "flash_comm_stat w \<noteq> 1"
  shows "\<exists>w'. init_log k w = Inr (Some (), w') \<and> log_holds k es w' \<and> cells (fl w') = cells (fl w)
    \<and> (es \<noteq> [] \<longrightarrow> log_info k w' = log_info k w0)"
proof -
  note H = h [unfolded log_holds_def, folded w(1)]
  have a: "of_nat (4096 * sector k + 32 * 0) = LOG_INFO_FLASH_ADDR_BEGIN k" by (cases k) simp_all
  let ?w = "set_log_info k zero_info w"
  obtain s where s: "scan_info k (LOG_INFO_FLASH_ADDR_BEGIN k) ?w
      = Inr (False, (if 0 < length es then set_log_info k (info_of k es) ?w else ?w)\<lparr>fl := s\<rparr>)"
    "ready s" "cells s = cells (fl w)"
    using scan_ok [of ?w k es 0, unfolded a] H by auto
  let ?i = "first_entry k (info_of k es)"
  have i: "init_log k w = Inr (Some (), set_log_info k ?i w\<lparr>fl := s\<rparr>)"
  proof -
    obtain v where v: "scan_info k (LOG_INFO_FLASH_ADDR_BEGIN k) ?w = Inr (False, v)"
      "v = (if 0 < length es then set_log_info k (info_of k es) ?w else ?w)\<lparr>fl := s\<rparr>"
      using s(1) by blast
    have "set_log_info k (first_entry k (log_info k v)) v = set_log_info k ?i w\<lparr>fl := s\<rparr>"
      unfolding v(2) by (cases es; cases k) simp_all
    then show ?thesis using v(1) by (simp add: init_log_def ret_io_def bind_io_def)
  qed
  have n: "?i = info_of k es" if ne: "es \<noteq> []"
  proof -
    obtain e es' where e: "es = e # es'" using ne by (cases es) auto
    have "unat (of_nat (length es) :: u32) = length es" using H by (intro of_nat_less_u32) simp
    then have "li_log_total_num (info_of k es) \<noteq> 0" using e by (metis info_of.simps(2) length_Cons nat.simps(3) strLogInfo.select_convs(2) unsigned_0)
    then show ?thesis by (simp add: first_entry_def)
  qed
  have "li_log_total_num (first_entry k zero_info) = 0" by (simp add: first_entry_def zero_info_def)
  then have "log_holds k es (set_log_info k ?i w\<lparr>fl := s\<rparr>)"
    using H w(2) s(2,3) n by (simp add: log_holds_def)
  moreover have "log_info k w0 = info_of k es" if "es \<noteq> []" using h that by (simp add: log_holds_def)
  ultimately show ?thesis using i s(3) n by auto
qed

end
