(* ===== verification/LogProps.thy ===== *)
theory LogProps
  imports LogLaws
begin

text \<open>
  The properties of the two logs. The locale \<open>append_log\<close> is the contract of a store that
  keeps its entries as a list and appends one per save; both logs meet it while the erased
  region lasts. At the ends of their regions they do not: the last properties show what is
  lost there.
\<close>

section \<open>An append-only log\<close>

fun save_all :: "('d \<Rightarrow> (status, 's) st) \<Rightarrow> 'd list \<Rightarrow> (status list, 's) st" where
  "save_all save [] = ret_io []"
| "save_all save (d # ds) = bind_io (save d) (\<lambda>r. bind_io (save_all save ds) (\<lambda>rs. ret_io (r # rs)))"

locale append_log =
  fixes holds :: "('t \<times> 'd) list \<Rightarrow> 's \<Rightarrow> bool" and save :: "'d \<Rightarrow> (status, 's) st"
    and fits :: "'d list \<Rightarrow> ('t \<times> 'd) list \<Rightarrow> bool"
  assumes save_one: "holds es s \<Longrightarrow> fits [d] es \<Longrightarrow> \<exists>t s'. save d s = Inr (SUCC, s') \<and> holds ((t, d) # es) s'"
    and fits_Cons: "fits (d # ds) es \<Longrightarrow> fits [d] es \<and> fits ds ((t, d) # es)"
begin

lemma save_many:
  "holds es s \<Longrightarrow> fits ds es \<Longrightarrow> \<exists>ts s'. save_all save ds s = Inr (replicate (length ds) SUCC, s')
    \<and> holds (ts @ es) s' \<and> map snd ts = rev ds"
proof (induction ds arbitrary: es s)
  case Nil
  then show ?case by (intro exI [of _ "[]"]) (simp add: ret_io_def)
next
  case (Cons d ds)
  obtain t s1 where 1: "save d s = Inr (SUCC, s1)" "holds ((t, d) # es) s1"
    using save_one [OF Cons.prems(1)] fits_Cons [OF Cons.prems(2)] by blast
  obtain ts s' where 2: "save_all save ds s1 = Inr (replicate (length ds) SUCC, s')"
    "holds (ts @ (t, d) # es) s'" "map snd ts = rev ds"
    using Cons.IH [OF 1(2)] fits_Cons [OF Cons.prems(2)] by blast
  then show ?case
    using 1(1) by (intro exI [of _ "ts @ [(t, d)]"] exI [of _ s']) (simp add: ret_io_def)
qed

end

text \<open>Room for more entries: the records stay short of the end of the region, and one slot
  of the info region stays free.\<close>

definition log_fits :: "log_kind \<Rightarrow> bytes list \<Rightarrow> entry list \<Rightarrow> bool" where
  "log_fits k ds es \<longleftrightarrow> (\<forall>d \<in> set ds. length d \<le> 229) \<and> length es + length ds < 32000
     \<and> (ds \<noteq> [] \<longrightarrow> end_of (log_begin k) es + sum_list (map (\<lambda>d. length d + 26) ds) < log_end k)"

text \<open>A log with the entries \<open>es\<close> whose flash has the cells of \<open>m\<close> outside the two regions.\<close>

definition log_in :: "log_kind \<Rightarrow> (nat \<Rightarrow> u8) \<Rightarrow> entry list \<Rightarrow> logw \<Rightarrow> bool" where
  "log_in k m es w \<longleftrightarrow> log_holds k es w
     \<and> (\<forall>c. c < 4096 * sector k \<or> log_end k \<le> c \<longrightarrow> cells (fl w) c = m c)"

definition save_data :: "log_kind \<Rightarrow> bytes \<Rightarrow> status lio" where
  "save_data k d = APP_LOG_Save2Flash k d (of_nat (length d))"

interpretation logs: append_log "log_in k m" "save_data k" "log_fits k" for k m
proof unfold_locales
  fix es w d
  assume "log_in k m es w" "log_fits k [d] es"
  then show "\<exists>t w'. save_data k d w = Inr (SUCC, w') \<and> log_in k m ((t, d) # es) w'"
    using save_adds_entry [of k es w d] by (fastforce simp: log_in_def log_fits_def save_data_def)
next
  fix d ds es t
  assume "log_fits k (d # ds) es"
  then show "log_fits k [d] es \<and> log_fits k ds ((t, d) # es)"
    by (auto simp: log_fits_def esize_def)
qed

section \<open>Properties\<close>

text \<open>C7: while the region lasts, a log is a list: saving any data one after the other
  succeeds, the entries are prepended in that order, and no cell outside the log's two
  regions changes.\<close>

theorem log_refines_list:
  assumes "log_holds k es w" "log_fits k ds es"
  shows "\<exists>ts w'. save_all (save_data k) ds w = Inr (replicate (length ds) SUCC, w')
    \<and> log_holds k (ts @ es) w' \<and> map snd ts = rev ds
    \<and> (\<forall>c. c < 4096 * sector k \<or> log_end k \<le> c \<longrightarrow> cells (fl w') c = cells (fl w) c)"
proof -
  have "log_in k (cells (fl w)) es w" using assms(1) by (simp add: log_in_def)
  from logs.save_many [OF this assms(2)] show ?thesis by (auto simp: log_in_def)
qed

text \<open>C26: a query for \<open>n\<close> entries sends the frames of the \<open>n\<close> newest entries, newest first,
  packed into datagrams of less than 1000 bytes; asking for more sends them all.\<close>

theorem log_query_newest_first:
  assumes "log_holds k es w" "un16 (rxbuff ! 0) (rxbuff ! 1) = log_que_id k"
  shows "\<exists>w' ds. APP_PCCOMM_LogQue k rxbuff w = Inr ((SUCC, reply_id k @ [32] @ replicate 32 0xFF), w')
    \<and> datagrams w' = datagrams w @ ds \<and> concat ds = concat (take (unat (int32_at rxbuff 3)) (frames k es))
    \<and> (\<forall>d \<in> set ds. length d < 1000) \<and> log_holds k es w'"
proof -
  note H = assms(1) [unfolded log_holds_def]
  let ?total = "li_log_total_num (log_info k w)"
  let ?n = "if int32_at rxbuff 3 > ?total then ?total else int32_at rxbuff 3"
  have t: "unat ?total = length es"
    using H of_nat_less_u32 [of "length es"] by (cases es) simp_all
  have "length (frames k es) = length es" for es by (induction es) simp_all
  then have n: "unat ?n \<le> length es" "take (unat ?n) (frames k es) = take (unat (int32_at rxbuff 3)) (frames k es)"
    using t by (auto simp: word_less_nat_alt)
  have i: "es \<noteq> [] \<Longrightarrow> li_currlog_addr (log_info k w) = of_nat (end_of (log_begin k) (tl es))
      \<and> li_currlog_size (log_info k w) = of_nat (esize (hd es))"
    using H by (cases es) simp_all
  have e: "end_of (log_begin k) es \<le> 16777216" using H sector_bound [of k] by simp
  obtain w' ds where q: "query_loop k (unat ?n) (log_info k w) [] w = Inr ((), w')" "datagrams w' = datagrams w @ ds"
    "concat ds = concat (take (unat ?n) (frames k es))" "\<forall>d \<in> set ds. length d < 1000"
    "ready (fl w')" "cells (fl w') = cells (fl w)" "\<forall>j. log_info j w' = log_info j w"
    "flash_comm_stat w' = flash_comm_stat w"
    using query_loop_ok [of w "log_begin k" es "unat ?n" "[]" "log_info k w" k] H e n(1) i by auto
  then have "log_holds k es w'" using H by (simp add: log_holds_def)
  then show ?thesis
    using q assms(2) n(2) by (auto simp: APP_PCCOMM_LogQue_def Let_def bind_io_def ret_io_def)
qed

text \<open>C27: a restart finds the log again from the flash alone: whatever the memory held, the
  initialisation recovers the entries and the info of the last save.\<close>

theorem log_survives_restart:
  assumes "log_holds k es w0" "fl w = fl w0" "flash_comm_stat w \<noteq> 1"
  shows "\<exists>w'. init_log k w = Inr (Some (), w') \<and> log_holds k es w' \<and> cells (fl w') = cells (fl w)
    \<and> (es \<noteq> [] \<longrightarrow> log_info k w' = log_info k w0)"
  using assms by (rule restart_ok)

section \<open>The ends of the regions\<close>

lemma place_later:
  assumes "li_log_total_num i \<noteq> 0" "unat (li_currlog_addr i) + unat (li_currlog_size i) < log_end k"
  shows "log_place k n i = (li_currlog_addr i + li_currlog_size i, li_currlog_index i + 1, i)"
    "unat (li_currlog_addr i + li_currlog_size i) = unat (li_currlog_addr i) + unat (li_currlog_size i)"
proof -
  show u: "unat (li_currlog_addr i + li_currlog_size i) = unat (li_currlog_addr i) + unat (li_currlog_size i)"
    using assms(2) sector_bound [of k] by (simp add: unat_word_ariths)
  show "log_place k n i = (li_currlog_addr i + li_currlog_size i, li_currlog_index i + 1, i)"
    using assms by (simp add: log_place_def Let_def word_le_nat_alt u)
qed

lemma unat_log_size: "unat (len :: u8) \<le> 229 \<Longrightarrow> unat (ucast len + 26 :: u32) = unat len + 26"
  by (simp add: unat_word_ariths)

text \<open>An operation entry that reaches the end of its region erases the first sub-sector of
  the warning log's info region, which begins there. If it ends exactly there, the warning
  log is empty after the next restart.\<close>

theorem opt_log_end_erases_warn_info:
  fixes w :: logw
  defines "i \<equiv> OptLogInfo w"
  defines "a \<equiv> unat (li_currlog_addr i) + unat (li_currlog_size i)"
  assumes w: "ready (fl w)" "flash_comm_stat w \<noteq> 1" and len: "unat len \<le> 229" "unat len \<le> length buff"
    and i: "0 < unat (li_log_total_num i)" "unat (li_log_total_num i) < 32000"
    and a: "0xFA000 \<le> a" "a < 0x2EE000" "0x2EE000 \<le> a + unat len + 26" "tail_free (cells (fl w)) a"
    and sys: "unat (li_log_sys_addr i) + 64 < 0xFA000" "tail_free (cells (fl w)) (unat (li_log_sys_addr i) + 32)"
  shows "\<exists>w'. APP_OptLOG_Save2Flash buff len w = Inr (SUCC, w')
    \<and> (\<forall>c. a + unat len + 26 \<le> c \<and> c < 0x2EF000 \<longrightarrow> cells (fl w') c = 0xFF)
    \<and> (a + unat len + 26 = 0x2EE000 \<longrightarrow>
        (\<exists>w''. init_log WarnLog w' = Inr (Some (), w'') \<and> li_log_total_num (WarnLogInfo w'') = 0))"
proof -
  let ?n = "ucast len + 26 :: u32" and ?m = "cells (fl w)"
  let ?addr = "li_currlog_addr i + li_currlog_size i"
  note un = unat_log_size [OF len(1)]
  have t: "li_log_total_num i \<noteq> 0" using i(1) by (auto simp: unat_eq_0)
  have p: "log_place OptLog ?n (log_info OptLog w) = (?addr, li_currlog_index i + 1, i)" and ua: "unat ?addr = a"
    using place_later [OF t, where k = OptLog] a(2) by (simp_all add: a_def i_def)
  let ?rec = "record_bytes ?n (li_currlog_index i + 1) (rtc w (rtc_reads w)) (take (unat len) buff) (li_currlog_addr i) (li_currlog_size i)"
  let ?j = "note_entry OptLog ?addr (li_currlog_index i + 1) ?n i"
  define m1 where "m1 = appended ?m a (unat ?n) ?rec"
  have us: "unat (li_log_sys_addr i + 32) = unat (li_log_sys_addr i) + 32"
    using sys(1) by (simp add: unat_word_ariths)
  have "unat (li_log_total_num i + 1) = unat (li_log_total_num i) + 1"
    using i(2) by (simp add: unat_word_ariths)
  then have j: "li_log_sys_addr ?j = li_log_sys_addr i + 32"
    using i(1) sys(1) us by (simp add: note_entry_def Let_def word_less_nat_alt word_le_nat_alt)
  have sec: "(a + unat ?n) div 4096 = 750"
    using a(2,3) len(1) un by (intro div_nat_eqI) simp_all
  have l: "length ?rec \<le> unat ?n" "unat ?n \<le> 4096" using len un by simp_all
  note 1 = appended_cells [OF a(4) l(2,1), folded m1_def]
  have f1: "tail_free m1 (unat (li_log_sys_addr ?j))"
  proof (rule tail_free_cong [OF sys(2) [folded us, folded j]])
    fix c assume "c div 4096 = unat (li_log_sys_addr ?j) div 4096"
    moreover have "unat (li_log_sys_addr ?j) div 4096 < 250" using sys(1) us j by (intro div_4096_less) simp
    ultimately have "c < 0xFA000" using div_4096_le [of 250 c] by (force simp: not_less)
    then show "m1 c = ?m c" using 1(2) a(1) by simp
  qed
  have P: "tail_free ?m (unat ?addr)" "unat ?addr + unat ?n < 16777216" "unat (li_log_sys_addr ?j) + 32 < 16777216"
    using a(2,4) ua un len sys(1) us j by simp_all
  obtain w' where w': "APP_LOG_Save2Flash OptLog buff len w = Inr (SUCC, w')" "ready (fl w')"
    "flash_comm_stat w' = flash_comm_stat w"
    "cells (fl w') = appended m1 (unat (li_log_sys_addr ?j)) 32 (info_record ?j)"
    using Save2Flash_ok [OF w len p P(1,2) f1 [unfolded m1_def, folded ua] P(3)] unfolding m1_def ua by blast
  have k: "cells (fl w') c = m1 c" if "0xFA000 \<le> c" for c
  proof -
    have "(unat (li_log_sys_addr ?j) + 32) div 4096 < 250" using sys(1) us j by (intro div_4096_less) simp
    then show ?thesis
      using appended_cells(3) [OF f1, of 32 "info_record ?j" c] div_4096_le [of 250 c] that w'(4) by simp
  qed
  have ff: "cells (fl w') c = 0xFF" if "a + unat len + 26 \<le> c" "c < 0x2EF000" for c
  proof -
    have "c div 4096 = 750" using that a(3) by (intro div_nat_eqI) simp_all
    then have "m1 c = 0xFF" using 1(1) that(1) sec un by (simp add: tail_free_def)
    then show ?thesis using k [of c] that a(1) by simp
  qed
  have "\<exists>w''. init_log WarnLog w' = Inr (Some (), w'') \<and> li_log_total_num (WarnLogInfo w'') = 0"
    if e: "a + unat len + 26 = 0x2EE000"
  proof -
    have "tail_free (cells (fl w')) (4096 * sector WarnLog)"
      unfolding tail_free_def using ff e dividend_less_div_times [of 4096] by fastforce
    then obtain s where "scan_info WarnLog (LOG_INFO_FLASH_ADDR_BEGIN WarnLog) (set_log_info WarnLog zero_info w')
        = Inr (False, set_log_info WarnLog zero_info w'\<lparr>fl := s\<rparr>)"
      using scan_ok [of "set_log_info WarnLog zero_info w'" WarnLog "[]" 0] w'(2) by auto
    then show ?thesis
      by (simp add: init_log_def bind_io_def ret_io_def first_entry_def zero_info_def)
  qed
  then show ?thesis using w'(1) ff by (auto simp: APP_OptLOG_Save2Flash_def)
qed

lemma write_fails:
  assumes "ready (fl w)" "unat addr + length xs \<le> 16777216" "i < length xs"
    "cells (fl w) (unat addr + i) AND xs ! i \<noteq> xs ! i"
  shows "\<exists>s. flash_op (MICRON_FLASH_B3WriteDataBuff addr xs) w = Inr (FAIL, w\<lparr>fl := s\<rparr>) \<and> ready s
    \<and> cells s = and_bytes (cells (fl w)) (unat addr) xs"
proof -
  have "\<not> (\<forall>i < length xs. cells (fl w) (unat addr + i) AND xs ! i = xs ! i)" using assms(3,4) by blast
  with flash_op_yields [OF write_buff_yields [OF assms(1,2)]] show ?thesis by (simp only: if_False)
qed

text \<open>When the 32000 slots of the info region are used, no save succeeds any more: the
  address returns to the first slot without erasing it, the copy of the info cannot be
  written there nor in the second slot, and the save fails although the entry is stored.\<close>

theorem info_slots_exhausted:
  fixes w :: logw and k :: log_kind
  defines "i \<equiv> log_info k w"
  defines "a \<equiv> unat (li_currlog_addr i) + unat (li_currlog_size i)"
  assumes w: "ready (fl w)" "flash_comm_stat w \<noteq> 1" and len: "unat len \<le> 229" "unat len \<le> length buff"
    and i: "li_log_total_num i = 32000" "li_log_sys_addr i = LOG_INFO_FLASH_ADDR_END k - 32"
    and a: "log_begin k \<le> a" "a + unat len + 26 < log_end k" "tail_free (cells (fl w)) a"
    and slots: "cells (fl w) (4096 * sector k + 3) = 0" "cells (fl w) (4096 * sector k + 35) = 0"
  shows "\<exists>w'. APP_LOG_Save2Flash k buff len w = Inr (FAIL, w') \<and> li_log_total_num (log_info k w') = 32001"
proof -
  let ?n = "ucast len + 26 :: u32" and ?m = "cells (fl w)"
  let ?addr = "li_currlog_addr i + li_currlog_size i"
  note un = unat_log_size [OF len(1)]
  have p: "log_place k ?n (log_info k w) = (?addr, li_currlog_index i + 1, i)" and ua: "unat ?addr = a"
    using place_later [of i k] i(1) a(2) by (simp_all add: a_def i_def)
  let ?rec = "record_bytes ?n (li_currlog_index i + 1) (rtc w (rtc_reads w)) (take (unat len) buff) (li_currlog_addr i) (li_currlog_size i)"
  let ?j = "note_entry k ?addr (li_currlog_index i + 1) ?n i"
  define m1 where "m1 = appended ?m a (unat ?n) ?rec"
  have j: "li_log_total_num ?j = 32001" "li_log_sys_addr ?j = LOG_INFO_FLASH_ADDR_BEGIN k"
    using i by (cases k; simp add: note_entry_def Let_def)+
  have l: "length ?rec \<le> unat ?n" "unat ?n \<le> 4096" using len un by simp_all
  have m1: "m1 c = ?m c" if "c < log_begin k" for c
    unfolding m1_def using appended_cells(2) [OF a(3) l(2,1)] a(1) that by simp
  have P: "tail_free ?m (unat ?addr)" "unat ?addr + unat ?n < 16777216"
    using a(2,3) ua un sector_bound [of k] by simp_all
  obtain v where v: "APP_LOG_Save2Flash k buff len w = save_info k v" "ready (fl v)" "cells (fl v) = m1"
    "log_info k v = ?j"
    using entry_written [OF w len p P] unfolding m1_def ua by blast
  let ?b = "LOG_INFO_FLASH_ADDR_BEGIN k" and ?r = "info_record ?j"
  have r3: "?r ! 3 = 125"
  proof -
    have "be32 32001 ! 2 = (125 :: u8)" by (simp add: be32_def)
    then show ?thesis by (simp add: info_record_def j(1) nth_append)
  qed
  have ub: "unat (?b + 32) = 4096 * sector k + 32" by (cases k) simp_all
  obtain s where s: "erase_ahead ?b 32 v = Inr ((), v\<lparr>fl := s\<rparr>)" "ready s" "cells s = m1"
    using erase_ahead_ok [OF v(2), of ?b 32] v(3) sector_bound [of k] by (auto simp: ahead_def)
  have z: "m1 (4096 * sector k + 3) = 0" "m1 (4096 * sector k + 35) = 0"
    using m1 slots by simp_all
  obtain s2 where s2: "flash_op (MICRON_FLASH_B3WriteDataBuff ?b ?r) (v\<lparr>fl := s\<rparr>) = Inr (FAIL, v\<lparr>fl := s2\<rparr>)"
    "ready s2" "cells s2 = and_bytes m1 (4096 * sector k) ?r"
    using write_fails [of "v\<lparr>fl := s\<rparr>" ?b ?r 3] s(2,3) z(1) r3 sector_bound [of k] by auto
  have n0: "(125 :: u8) \<noteq> 0" by simp
  have "cells s2 (4096 * sector k + 35) = 0" using s2(3) z(2) by (simp add: and_bytes_def)
  then have c: "cells s2 (unat (?b + 32) + 3) AND ?r ! 3 \<noteq> ?r ! 3" 
    unfolding r3 using n0 by (simp only: ub add.commute add.assoc) simp
  then obtain s3 where s3: "flash_op (MICRON_FLASH_B3WriteDataBuff (?b + 32) ?r) (v\<lparr>fl := s2\<rparr>) = Inr (FAIL, v\<lparr>fl := s3\<rparr>)"
    using write_fails [of "v\<lparr>fl := s2\<rparr>" "?b + 32" ?r 3] s2(2) c ub sector_bound [of k] by auto
  have "save_info k v = Inr (FAIL, v\<lparr>fl := s3\<rparr>)"
    using s(1) s2(1) s3 by (simp add: save_info_def Let_def v(4) j(2) ret_io_def)
  then show ?thesis using v(1,4) j(1) by simp
qed

section \<open>Concrete logs\<close>

definition new_log :: logw where
  "new_log = \<lparr>ldev = zero_strACUDevInfo, fl = blank_flash, OptLogInfo = zero_info, WarnLogInfo = zero_info,
     Log_Sem = 1, Log_Err_cnt = 0, rtc = (\<lambda>i. SysDateTime zero_strACUDevInfo), rtc_reads = 0, datagrams = []\<rparr>"

lemma new_log_sel [simp]:
  "fl new_log = blank_flash" "OptLogInfo new_log = zero_info" "flash_comm_stat new_log \<noteq> 1"
  by (simp_all add: new_log_def flash_comm_stat_def zero_strACUDevInfo_def zero_strDeviceInfo_def zero_strSPIFlashInfo_def)

lemma new_log_holds: "log_holds k [] new_log"
  by (cases k) (simp_all add: log_holds_def new_log_def flash_comm_stat_def zero_strACUDevInfo_def
      zero_strDeviceInfo_def zero_strSPIFlashInfo_def zero_info_def tail_free_def)

lemma one_entry: "\<exists>t w. log_holds OptLog [(t, [7])] w"
proof -
  have "log_in OptLog (cells (fl new_log)) [] new_log" using new_log_holds by (simp add: log_in_def)
  from logs.save_many [OF this, of "[[7]]"] obtain ts w where "log_holds OptLog ts w" "map snd ts = [[7]]"
    by (auto simp: log_fits_def log_in_def)
  then have "log_holds OptLog [(fst (hd ts), [7])] w" by (cases ts) auto
  then show ?thesis by blast
qed

theorem log_refines_list_witness:
  "\<exists>ts w'. save_all (save_data OptLog) [[1], [2, 3]] new_log = Inr ([SUCC, SUCC], w')
    \<and> log_holds OptLog ts w' \<and> map snd ts = [[2, 3], [1]]"
proof -
  have "log_fits OptLog [[1], [2, 3]] []" by (simp add: log_fits_def)
  from log_refines_list [OF new_log_holds this] obtain ts w' where
    "save_all (save_data OptLog) [[1], [2, 3]] new_log = Inr (replicate (length [[1], [2, 3 :: u8]]) SUCC, w')"
    "log_holds OptLog (ts @ []) w'" "map snd ts = rev [[1], [2, 3]]"
    by (elim exE conjE) (rule that)
  then show ?thesis by (intro exI [of _ ts] exI [of _ w']) (simp del: save_all.simps)
qed

theorem log_query_witness:
  "\<exists>t w w' ds. log_holds OptLog [(t, [7])] w
    \<and> APP_PCCOMM_LogQue OptLog [0x09, 0x02, 4, 0, 0, 0, 5] w = Inr ((SUCC, [0x89, 0x02, 32] @ replicate 32 0xFF), w')
    \<and> datagrams w' = datagrams w @ ds \<and> concat ds = entry_frame OptLog 1 (t, [7])"
proof -
  obtain t w where h: "log_holds OptLog [(t, [7])] w" using one_entry by blast
  have id: "un16 9 2 = log_que_id OptLog" "int32_at [9, 2, 4, 0, 0, 0, 5] 3 = 5" "reply_id OptLog = [0x89, 2]"
    by (simp_all add: un16_def int32_at_def un32_def reply_id_def push_bit_eq_mult)
  show ?thesis
    using log_query_newest_first [OF h, of "[9, 2, 4, 0, 0, 0, 5]"] h id by fastforce
qed

theorem log_survives_restart_witness:
  "\<exists>t w0 w'. log_holds OptLog [(t, [7])] w0 \<and> init_log OptLog (new_log\<lparr>fl := fl w0\<rparr>) = Inr (Some (), w')
    \<and> log_holds OptLog [(t, [7])] w'"
proof -
  obtain t w0 where h: "log_holds OptLog [(t, [7])] w0" using one_entry by blast
  show ?thesis
    using log_survives_restart [OF h, of "new_log\<lparr>fl := fl w0\<rparr>"] h by auto
qed

definition nearly_full :: logw where
  "nearly_full = new_log\<lparr>OptLogInfo := zero_info\<lparr>li_log_total_num := 5, li_currlog_addr := 0x2EDFC4,
     li_currlog_size := 30, li_log_sys_addr := 128\<rparr>\<rparr>"

lemma nearly_full_sel [simp]:
  "fl nearly_full = blank_flash" "flash_comm_stat nearly_full \<noteq> 1"
  "OptLogInfo nearly_full = zero_info\<lparr>li_log_total_num := 5, li_currlog_addr := 0x2EDFC4,
     li_currlog_size := 30, li_log_sys_addr := 128\<rparr>"
  using new_log_sel(3) by (simp_all add: nearly_full_def flash_comm_stat_def)

theorem opt_log_end_witness:
  "\<exists>w' w''. APP_OptLOG_Save2Flash [1, 2, 3, 4] 4 nearly_full = Inr (SUCC, w') \<and> cells (fl w') 0x2EE000 = 0xFF
    \<and> init_log WarnLog w' = Inr (Some (), w'') \<and> li_log_total_num (WarnLogInfo w'') = 0"
  using opt_log_end_erases_warn_info [of nearly_full 4 "[1, 2, 3, 4]"] by (auto simp: tail_free_def)

definition slots_full :: logw where
  "slots_full = new_log\<lparr>OptLogInfo := zero_info\<lparr>li_log_total_num := 32000, li_currlog_addr := 0x1EDFC4,
     li_currlog_size := 30, li_log_sys_addr := 0xF9FE0\<rparr>,
     fl := blank_flash\<lparr>chip := (chip blank_flash)\<lparr>ncell := (\<lambda>c. if c < 0xFA000 then 0 else 0xFF)\<rparr>\<rparr>\<rparr>"

lemma slots_full_sel [simp]:
  "ready (fl slots_full)" "flash_comm_stat slots_full \<noteq> 1"
  "cells (fl slots_full) = (\<lambda>c. if c < 0xFA000 then 0 else 0xFF)"
  "OptLogInfo slots_full = zero_info\<lparr>li_log_total_num := 32000, li_currlog_addr := 0x1EDFC4,
     li_currlog_size := 30, li_log_sys_addr := 0xF9FE0\<rparr>"
  using new_log_sel(3) by (simp_all add: slots_full_def flash_comm_stat_def ready_def blank_flash_def nor_chip_n25q128
      cells_def)

theorem info_slots_exhausted_witness:
  "\<exists>w'. APP_LOG_Save2Flash OptLog [1, 2, 3, 4] 4 slots_full = Inr (FAIL, w')"
  using info_slots_exhausted [of slots_full 4 "[1, 2, 3, 4]" OptLog] by (auto simp: tail_free_def)

end
