(* ===== verification/Track.thy ===== *)
theory Track
  imports FP32 PduLink Params
begin

text \<open>
  \<open>APP/src/app_satellite_track.c\<close>: driving the antenna to an angle, the sweeps that look
  for the strongest signal, the three tracking methods and the loop that keeps the antenna
  on the satellite. \<open>_SIMULATION_\<close> is not defined.

  The angles and the received power are written by other tasks while this one runs:
  \<open>feed\<close> is the trace of what the coming readings see. A call that is still reading when
  the trace ends is the fault \<open>Unfinished\<close>, so that a loop that never ends is
  \<open>Unfinished\<close> on every trace. Readings, and all functions built on them, always report
  success; the failure branches behind a reading are dead code and left out. \<open>None\<close> is
  \<open>FAIL\<close> of a function that returns its results through pointers: no caller looks at
  them then. Delays only let time pass.
\<close>

section \<open>State and readings\<close>

record snapshot =
  seen_position :: fp32
  seen_cabrage :: fp32
  seen_polar :: fp32
  seen_mv :: fp32

record trk =
  base :: pdu
  ee :: eew
  feed :: "snapshot list"
  rainFlag :: u8
  follow_log :: "(u32 \<times> bytes) list"
  follow_ret :: "nat \<Rightarrow> status"
  stack_addr :: u32

type_synonym 'a tio = "('a, trk) st"

definition observe :: "unit tio" where
  "observe s = (case feed s of [] \<Rightarrow> Inl Unfinished
     | x # xs \<Rightarrow> Inr ((), s\<lparr>feed := xs, base := upd_sta (\<lambda>c. c\<lparr>antenna_position := seen_position x,
         antenna_cabrage := seen_cabrage x, antenna_polar := seen_polar x,
         beacon_rxpower_mv := seen_mv x\<rparr>) (base s)\<rparr>))"

definition sta :: "trk \<Rightarrow> strACUCurrSta" where
  "sta s = ACUCurrSta (dev (base s))"

definition par :: "trk \<Rightarrow> strACUSeekSatParam" where
  "par s = ACUParam (dev (base s))"

definition alter :: "(trk \<Rightarrow> trk) \<Rightarrow> unit tio" where
  "alter f s = Inr ((), f s)"

definition get_io :: "(trk \<Rightarrow> 'a) \<Rightarrow> 'a tio" where
  "get_io f s = Inr (f s, s)"

definition set_sta :: "(strACUCurrSta \<Rightarrow> strACUCurrSta) \<Rightarrow> trk \<Rightarrow> trk" where
  "set_sta f s = s\<lparr>base := upd_sta f (base s)\<rparr>"

text \<open>Operations of the drive unit link and of the parameter store on their part of the
  state; the two share the device record.\<close>

definition on_pdu :: "'a pio \<Rightarrow> 'a tio" where
  "on_pdu m s = bind_f (m (base s)) (\<lambda>(x, p). Inr (x, s\<lparr>base := p\<rparr>))"

definition on_eeprom :: "'a io \<Rightarrow> 'a tio" where
  "on_eeprom m s = bind_f (m ((ee s)\<lparr>acu := dev (base s)\<rparr>)) (\<lambda>(x, w).
     Inr (x, s\<lparr>ee := w, base := (base s)\<lparr>dev := acu w\<rparr>\<rparr>))"

text \<open>\<open>if (f() == FAIL) return FAIL;\<close>\<close>

definition ok_then :: "status tio \<Rightarrow> 'a option tio \<Rightarrow> 'a option tio" where
  "ok_then m k = bind_io m (\<lambda>r. if r = FAIL then ret_io None else k)"

definition some_then :: "'a option tio \<Rightarrow> ('a \<Rightarrow> 'b option tio) \<Rightarrow> 'b option tio" where
  "some_then m k = bind_io m (\<lambda>r. case r of None \<Rightarrow> ret_io None | Some x \<Rightarrow> k x)"

text \<open>
  A loop: the body continues with a new value (\<open>Inl\<close>) or leaves with a result (\<open>Inr\<close>).
  Every body of the program takes a reading in each turn, so the length of the trace bounds
  the number of turns (\<open>loop_unfold\<close> in theory \<open>TrackLaws\<close>).
\<close>

fun loop_n :: "nat \<Rightarrow> ('a \<Rightarrow> ('a + 'b) tio) \<Rightarrow> 'a \<Rightarrow> 'b tio" where
  "loop_n 0 body x s = Inl Unfinished"
| "loop_n (Suc n) body x s = bind_io (body x) (\<lambda>r. case r of Inl y \<Rightarrow> loop_n n body y | Inr z \<Rightarrow> ret_io z) s"

definition loop :: "('a \<Rightarrow> ('a + 'b) tio) \<Rightarrow> 'a \<Rightarrow> 'b tio" where
  "loop body x s = loop_n (Suc (length (feed s))) body x s"

section \<open>Comparisons\<close>

abbreviation (input) ANG_POSITION :: u8 where "ANG_POSITION \<equiv> 1"
abbreviation (input) ANG_CABRAGE :: u8 where "ANG_CABRAGE \<equiv> 2"
abbreviation (input) ANG_POLARIZATION :: u8 where "ANG_POLARIZATION \<equiv> 3"
abbreviation (input) Drec_anticlockwise_down :: u8 where "Drec_anticlockwise_down \<equiv> 1"
abbreviation (input) Drec_clockwise_up :: u8 where "Drec_clockwise_up \<equiv> 2"

text \<open>The float constant \<open>0.01f\<close>.\<close>

definition ACCEPTENCE_DOMAIN :: rat where
  "ACCEPTENCE_DOMAIN = f32 (1 / 100)"

text \<open>The arguments are doubles; a float argument is the same number.\<close>

definition APP_GE :: "rat \<Rightarrow> rat \<Rightarrow> rat \<Rightarrow> bool" where
  "APP_GE a b segma = (f64 (a - b) \<ge> segma)"

definition APP_LE :: "rat \<Rightarrow> rat \<Rightarrow> rat \<Rightarrow> bool" where
  "APP_LE a b segma = (f64 (a - b) \<le> segma)"

definition APP_NB :: "rat \<Rightarrow> rat \<Rightarrow> rat \<Rightarrow> bool" where
  "APP_NB a b segma = (\<bar>f64 (a - b)\<bar> \<le> segma)"

definition APP_BT :: "rat \<Rightarrow> rat \<Rightarrow> rat \<Rightarrow> rat \<Rightarrow> bool" where
  "APP_BT a b segma0 segma1 = (let d = \<bar>f64 (a - b)\<bar> in d \<ge> segma0 \<and> d \<le> segma1)"

definition scan_range :: "nat \<Rightarrow> trk \<Rightarrow> fp32" where
  "scan_range i s = f32 (of_nat (unat (ScanRange_param (SeekSatParam (par s)) ! i)))"

definition getScanRadius :: "fp32 \<Rightarrow> fp32 \<Rightarrow> fp32 \<Rightarrow> fp32 tio" where
  "getScanRadius radius agc0 agc_opt = get_io (\<lambda>s.
     if APP_BT agc0 agc_opt (5 / 2) 4 then scan_range 0 s
     else if \<not> APP_NB agc0 agc_opt 4 then scan_range 1 s
     else radius)"

section \<open>Motors, angles and power\<close>

definition APP_MotorStart :: "u8 \<Rightarrow> u8 \<Rightarrow> status tio" where
  "APP_MotorStart obj dir =
     bind_io (on_pdu (Antenna_DriveStart obj dir)) (\<lambda>r.
       if r = FAIL then on_pdu (Antenna_DriveStart obj dir) else ret_io SUCC)"

definition APP_MotorEnd :: "u8 \<Rightarrow> u8 \<Rightarrow> status tio" where
  "APP_MotorEnd obj dir =
     bind_io (on_pdu (Antenna_DriveEnd obj dir)) (\<lambda>r.
       if r = FAIL then on_pdu (Antenna_DriveEnd obj dir) else ret_io SUCC)"

definition degree_of :: "u8 \<Rightarrow> strACUCurrSta \<Rightarrow> fp32" where
  "degree_of num c = (if num = ANG_POSITION then antenna_position c
     else if num = ANG_CABRAGE then antenna_cabrage c else antenna_polar c)"

text \<open>Called with the three angle numbers only.\<close>

definition APP_CurrDegree_Get_FP :: "u8 \<Rightarrow> fp32 tio" where
  "APP_CurrDegree_Get_FP num = bind_io observe (\<lambda>_. get_io (\<lambda>s. degree_of num (sta s)))"

definition APP_Power_Get :: "fp32 tio" where
  "APP_Power_Get = bind_io observe (\<lambda>_. get_io (\<lambda>s. f32 (beacon_rxpower_mv (sta s) / 1000)))"

text \<open>Mean of a number of samples, and of their squared distances from a value.\<close>

fun mean_loop :: "nat \<Rightarrow> fp32 \<Rightarrow> fp32 \<Rightarrow> fp32 tio" where
  "mean_loop 0 samp_count power_ag = ret_io power_ag"
| "mean_loop (Suc n) samp_count power_ag =
     bind_io APP_Power_Get (\<lambda>p. mean_loop n samp_count (f32 (power_ag + f32 (p / samp_count))))"

definition APP_Power_AG_Get :: "fp32 tio" where
  "APP_Power_AG_Get = mean_loop 30 30 0"

definition APP_Power_AG_Get_4_PURS :: "fp32 tio" where
  "APP_Power_AG_Get_4_PURS = mean_loop 20 20 0"

fun deviation_loop :: "nat \<Rightarrow> fp32 \<Rightarrow> fp32 \<Rightarrow> fp32 tio" where
  "deviation_loop 0 p power_ag = ret_io power_ag"
| "deviation_loop (Suc n) p power_ag =
     bind_io APP_Power_Get (\<lambda>power_cur.
       deviation_loop n p (f32 (power_ag + f32 (f32 (f32 (power_cur - p) * f32 (power_cur - p)) / 50))))"

definition APP_Power_Deviation :: "fp32 \<Rightarrow> fp32 tio" where
  "APP_Power_Deviation p = bind_io (deviation_loop 50 p 0) (\<lambda>v. ret_io (f32 (f64_sqrt v)))"

datatype drift = UNDERPOWER | FULLPOWER

definition APP_Satellite_Drift_Check :: "fp32 \<Rightarrow> fp32 \<Rightarrow> (drift \<times> fp32) tio" where
  "APP_Satellite_Drift_Check p_obj segma =
     bind_io APP_Power_AG_Get (\<lambda>p0. ret_io (if APP_GE p_obj p0 segma then UNDERPOWER else FULLPOWER, p0))"

section \<open>Driving to an angle\<close>

definition out_of_range :: "trk \<Rightarrow> fp32 \<Rightarrow> fp32 \<Rightarrow> fp32 \<Rightarrow> bool \<Rightarrow> bool" where
  "out_of_range s tar_Az tar_El tar_Pol stop_f_Pol =
     (let a = AntennaParam (par s) in
      \<not> stop_f_Pol \<and> (tar_Pol < motor_polar_start a \<or> tar_Pol > motor_polar_end a)
      \<or> tar_Az < motor_position_start a \<or> tar_Az > motor_position_end a
      \<or> tar_El < motor_cabrage_start a \<or> tar_El > motor_cabrage_end a)"

definition dir_to :: "fp32 \<Rightarrow> fp32 \<Rightarrow> u8" where
  "dir_to x obj = (if APP_GE x obj 0 then Drec_anticlockwise_down else Drec_clockwise_up)"

definition there :: "u8 \<Rightarrow> fp32 \<Rightarrow> fp32 \<Rightarrow> bool" where
  "there dir x obj = (if dir = Drec_anticlockwise_down then APP_LE x obj ACCEPTENCE_DOMAIN
     else APP_LE obj x ACCEPTENCE_DOMAIN)"

definition start_unless :: "bool \<Rightarrow> u8 \<Rightarrow> u8 \<Rightarrow> 'a option tio \<Rightarrow> 'a option tio" where
  "start_unless stopped obj dir k = (if \<not> stopped then ok_then (APP_MotorStart obj dir) k else k)"

text \<open>One axis in one turn of the loop: its stop flag after it.\<close>

definition stop_when_there :: "u8 \<Rightarrow> u8 \<Rightarrow> fp32 \<Rightarrow> bool \<Rightarrow> bool option tio" where
  "stop_when_there num dir obj stopped =
     (if stopped then ret_io (Some True)
      else bind_io (APP_CurrDegree_Get_FP num) (\<lambda>x.
        if there dir x obj then ok_then (APP_MotorEnd num dir) (ret_io (Some True))
        else ret_io (Some False)))"

definition approach :: "u8 \<Rightarrow> fp32 \<Rightarrow> u8 \<Rightarrow> fp32 \<Rightarrow> u8 \<Rightarrow> fp32 \<Rightarrow> bool \<times> bool \<times> bool
    \<Rightarrow> ((bool \<times> bool \<times> bool) + unit option) tio" where
  "approach Az_dir Az_obj El_dir El_obj Pol_dir Pol_obj = (\<lambda>(az, el, pol).
     if az \<and> el \<and> pol then ret_io (Inr (Some ()))
     else bind_io
       (some_then (stop_when_there motor_position_id Az_dir Az_obj az) (\<lambda>az1.
        some_then (stop_when_there motor_cabrage_id El_dir El_obj el) (\<lambda>el1.
        some_then (stop_when_there motor_polar_id Pol_dir Pol_obj pol) (\<lambda>pol1.
          ret_io (Some (az1, el1, pol1))))))
       (\<lambda>r. ret_io (case r of None \<Rightarrow> Inr None | Some f \<Rightarrow> Inl f)))"

text \<open>A failure in between leaves the motors that were started running.\<close>

definition adapt_target_angle :: "fp32 \<Rightarrow> fp32 \<Rightarrow> fp32 \<Rightarrow> bool \<Rightarrow> bool \<Rightarrow> bool \<Rightarrow> unit option tio" where
  "adapt_target_angle tar_Az tar_El tar_Pol stop_f_Az stop_f_El stop_f_Pol s =
     (if out_of_range s tar_Az tar_El tar_Pol stop_f_Pol then Inr (None, s)
      else
        bind_io (APP_CurrDegree_Get_FP ANG_POSITION) (\<lambda>Az.
        bind_io (APP_CurrDegree_Get_FP ANG_CABRAGE) (\<lambda>El.
        bind_io (APP_CurrDegree_Get_FP ANG_POLARIZATION) (\<lambda>Pol.
          start_unless stop_f_Az motor_position_id (dir_to Az tar_Az)
          (start_unless stop_f_El motor_cabrage_id (dir_to El tar_El)
          (start_unless stop_f_Pol motor_polar_id (dir_to Pol tar_Pol)
          (loop (approach (dir_to Az tar_Az) tar_Az (dir_to El tar_El) tar_El (dir_to Pol tar_Pol) tar_Pol)
             (stop_f_Az, stop_f_El, stop_f_Pol))))))) s)"

section \<open>Sweeps\<close>

text \<open>\<open>do read while (APP_GE(x, bound, ACCEPTENCE_DOMAIN) == TRUE)\<close>.\<close>

definition drive_down :: "u8 \<Rightarrow> fp32 \<Rightarrow> fp32 tio" where
  "drive_down num bound =
     loop (\<lambda>_. bind_io (APP_CurrDegree_Get_FP num) (\<lambda>x.
       ret_io (if APP_GE x bound ACCEPTENCE_DOMAIN then Inl () else Inr x))) ()"

text \<open>The sweep upwards: the last angle, the highest power so far and its angle.\<close>

definition sweep_body :: "u8 \<Rightarrow> fp32 \<Rightarrow> fp32 \<times> fp32 \<Rightarrow> ((fp32 \<times> fp32) + fp32 \<times> fp32 \<times> fp32) tio" where
  "sweep_body num bound = (\<lambda>(p, best).
       bind_io (APP_CurrDegree_Get_FP num) (\<lambda>x.
       bind_io APP_Power_Get (\<lambda>p0.
         let p1 = (if APP_GE p0 p 0 then p0 else p); best1 = (if APP_GE p0 p 0 then x else best) in
         ret_io (if APP_GE bound x ACCEPTENCE_DOMAIN then Inl (p1, best1) else Inr (x, p1, best1)))))"

definition sweep_up :: "u8 \<Rightarrow> fp32 \<Rightarrow> fp32 \<times> fp32 \<Rightarrow> (fp32 \<times> fp32 \<times> fp32) tio" where
  "sweep_up num bound = loop (sweep_body num bound)"

definition down_to :: "u8 \<Rightarrow> fp32 \<Rightarrow> unit option tio" where
  "down_to num bound =
     ok_then (APP_MotorStart num Drec_anticlockwise_down)
       (bind_io (drive_down num bound) (\<lambda>_.
        ok_then (APP_MotorEnd num Drec_anticlockwise_down) (ret_io (Some ()))))"

definition up_to :: "u8 \<Rightarrow> fp32 \<Rightarrow> fp32 \<times> fp32 \<Rightarrow> (fp32 \<times> fp32 \<times> fp32) option tio" where
  "up_to num bound pb =
     ok_then (APP_MotorStart num Drec_clockwise_up)
       (bind_io (sweep_up num bound pb) (\<lambda>r.
        ok_then (APP_MotorEnd num Drec_clockwise_up) (ret_io (Some r))))"

text \<open>One axis of the cross: down, up with measurements, back to the best angle unless it is
  the last one. Returns the highest power.\<close>

definition scan_axis :: "u8 \<Rightarrow> fp32 \<Rightarrow> fp32 \<Rightarrow> fp32 \<Rightarrow> fp32 \<Rightarrow> fp32 option tio" where
  "scan_axis num lo hi p x0 =
     some_then (down_to num lo) (\<lambda>_.
     some_then (up_to num hi (p, x0)) (\<lambda>(x, p1, best).
       if \<not> APP_GE best x 0 then some_then (down_to num best) (\<lambda>_. ret_io (Some p1))
       else ret_io (Some p1)))"

definition cross_scan :: "fp32 \<Rightarrow> fp32 \<Rightarrow> unit option tio" where
  "cross_scan delta_Az delta_El =
     bind_io (get_io (\<lambda>s. AntennaParam (par s))) (\<lambda>a.
     bind_io (APP_CurrDegree_Get_FP ANG_POSITION) (\<lambda>Az0.
     bind_io (APP_CurrDegree_Get_FP ANG_CABRAGE) (\<lambda>EL0.
     bind_io APP_Power_Get (\<lambda>_.
       let Az_lBound = f32 (motor_position_start a + 1); Az_uBound = f32 (motor_position_end a - 1);
           EL_lBound = f32 (motor_cabrage_start a + 1); EL_uBound = f32 (motor_cabrage_end a - 1);
           Az_min = (if f32 (Az0 - delta_Az) < Az_lBound then Az_lBound else f32 (Az0 - delta_Az));
           Az_max = (if f32 (Az0 + delta_Az) > Az_uBound then Az_uBound else f32 (Az0 + delta_Az));
           EL_min = (if f32 (EL0 - delta_El) < EL_lBound then EL_lBound else f32 (EL0 - delta_El));
           EL_max = (if f32 (EL0 + delta_El) > EL_uBound then EL_uBound else f32 (EL0 + delta_El))
       in some_then (scan_axis motor_cabrage_id EL_min EL_max (-1) EL0) (\<lambda>p.
          some_then (scan_axis motor_position_id Az_min Az_max p Az0) (\<lambda>_. ret_io (Some ())))))))"

text \<open>The polarisation sweep always drives back.\<close>

definition pl_scan :: "unit option tio" where
  "pl_scan =
     bind_io (APP_CurrDegree_Get_FP ANG_POLARIZATION) (\<lambda>PL0.
     bind_io (get_io (\<lambda>s. AntennaParam (par s))) (\<lambda>a.
       let u = f32 (20 + PL0); ue = f32 (motor_polar_end a - 1); PL_uBound = (if u \<ge> ue then ue else u);
           l = f32 (- 20 + PL0); ls = f32 (motor_polar_start a + 1); PL_lBound = (if l \<le> ls then ls else l)
       in bind_io APP_Power_AG_Get (\<lambda>_.
          some_then (down_to motor_polar_id PL_lBound) (\<lambda>_.
          some_then (up_to motor_polar_id PL_uBound (-1, 0)) (\<lambda>(x, p, PL).
            down_to motor_polar_id PL)))))"

section \<open>First aim and triangle tracking\<close>

definition APP_Preliminary_Aim :: "unit option tio" where
  "APP_Preliminary_Aim =
     bind_io (get_io (\<lambda>s. AntennaParam (par s))) (\<lambda>a.
       adapt_target_angle (aim_position a) (aim_cabrage a) (aim_polar a) False False
         (\<not> ant_elec_coder_num a \<ge> 3))"

text \<open>A corner of the triangle: azimuth, elevation, power.\<close>

type_synonym corner = "fp32 \<times> fp32 \<times> fp32"

text \<open>Where a new measurement goes among the highest, the middle and the lowest corner.\<close>

fun insert_corner :: "corner \<Rightarrow> corner \<times> corner \<times> corner \<Rightarrow> corner \<times> corner \<times> corner" where
  "insert_corner (Az, El, P) ((hA, hE, P_H), (mA, mE, P_M), l) =
     (if P \<ge> P_H then ((Az, El, P), (hA, hE, P_H), (mA, mE, P_M))
      else if P \<ge> P_M then ((hA, hE, P_H), (Az, El, P), (mA, mE, P_M))
      else ((hA, hE, P_H), (mA, mE, P_M), (Az, El, P)))"

definition goto_corner :: "fp32 \<Rightarrow> fp32 \<Rightarrow> unit option tio" where
  "goto_corner az el = adapt_target_angle az el 0 False False True"

definition read_corner :: "fp32 tio \<Rightarrow> corner tio" where
  "read_corner get_p =
     bind_io (APP_CurrDegree_Get_FP ANG_POSITION) (\<lambda>az.
     bind_io (APP_CurrDegree_Get_FP ANG_CABRAGE) (\<lambda>el.
     bind_io get_p (\<lambda>p. ret_io (az, el, p))))"

definition delta_P :: rat where "delta_P = f32 (3 / 10)"

fun all_near :: "corner \<times> corner \<times> corner \<Rightarrow> bool" where
  "all_near ((_, _, P_H), (_, _, P_M), (_, _, P_L)) =
     (APP_NB P_L P_M delta_P \<and> APP_NB P_M P_H delta_P \<and> APP_NB P_H P_L delta_P)"

text \<open>The corner opposite to the lowest one.\<close>

definition mirrored :: "fp32 \<Rightarrow> fp32 \<Rightarrow> fp32 \<Rightarrow> fp32" where
  "mirrored h m l = f32 (f32 (h - l) + m)"

text \<open>\<open>cosBeta > 0.98\<close> by the law of cosines. A zero denominator gives an infinity or a NaN,
  whose comparison is decided by the sign of the numerator.\<close>

definition straight_on :: "fp32 \<times> fp32 \<Rightarrow> fp32 \<times> fp32 \<Rightarrow> fp32 \<times> fp32 \<Rightarrow> bool" where
  "straight_on t b c =
     (let sq = (\<lambda>x y. f32 (f32 (f32 (fst x - fst y) * f32 (fst x - fst y))
                     + f32 (f32 (snd x - snd y) * f32 (snd x - snd y))));
          eg_t = sq t b; eg_h = sq c b; eg_m = sq t c;
          num = f32 (f32 (eg_t + eg_h) - eg_m); den = f32 (2 * f32 (f64_sqrt (f32 (eg_t * eg_h))))
      in if den = 0 then num > 0 else f32 (num / den) > f64 (98 / 100))"

text \<open>The loop's variables: the corners, \<open>C0\<close>, the azimuth \<open>beta\<close> to compare with and the
  current position. The test against \<open>beta\<close> is written twice for the azimuth. \<open>C0\<close> starts
  again from 0 with every new highest corner.\<close>

type_synonym tri = "(corner \<times> corner \<times> corner) \<times> u8 \<times> fp32 \<times> fp32 \<times> fp32"

definition triangle_turn :: "tri \<Rightarrow> (tri + corner option) tio" where
  "triangle_turn = (\<lambda>(hml, C0, beta_Az, Az, El).
     case hml of ((hA, hE, P_H), (mA, mE, P_M), (lA, lE, P_L)) \<Rightarrow>
       if \<not> (\<not> all_near hml \<and> C0 \<noteq> 6) then ret_io (Inr (Some (hA, hE, P_H)))
       else
         let swap = APP_NB (mirrored hA mA lA) beta_Az (f32 (5 / 100));
             (m1, l1) = (if swap then ((lA, lE, P_L), (mA, mE, P_M)) else ((mA, mE, P_M), (lA, lE, P_L)));
             C1 = (if swap then C0 + 1 else C0);
             tar_Az = mirrored hA (fst m1) (fst l1);
             tar_El = mirrored hE (fst (snd m1)) (fst (snd l1))
         in if straight_on (tar_Az, tar_El) (fst l1, fst (snd l1)) (Az, El)
            then ret_io (Inr (Some (hA, hE, P_H)))
            else bind_io (goto_corner tar_Az tar_El) (\<lambda>r. case r of None \<Rightarrow> ret_io (Inr None)
              | Some _ \<Rightarrow> bind_io (read_corner APP_Power_AG_Get_4_PURS) (\<lambda>(Az1, El1, P).
                  ret_io (Inl (insert_corner (Az1, El1, P) ((hA, hE, P_H), m1, l1),
                     (if P \<ge> P_H then 0 else C1), fst l1, Az1, El1)))))"

text \<open>The assignments behind \<open>if(*pc<P_H);\<close> and \<open>if(*pc>=P_H);\<close> are unconditional: the
  semicolon ends the condition.\<close>

definition APP_Triangle_Track :: "corner option tio" where
  "APP_Triangle_Track =
     bind_io (read_corner APP_Power_Get) (\<lambda>h0.
     some_then (goto_corner (f32 (fst h0 + f32 (- 3 / 100)))
        (f32 (fst (snd h0) + f32 (f64 (f64 (3 / 100) * f32 (17320508 / 10000000)))))) (\<lambda>_.
     bind_io (read_corner APP_Power_Get) (\<lambda>c1.
       let (h1, m1) = (if snd (snd c1) \<ge> snd (snd h0) then (c1, h0) else (h0, c1)) in
       some_then (goto_corner (f32 (fst c1 + f32 (6 / 100))) (f32 (fst (snd c1) + 0))) (\<lambda>_.
       bind_io (read_corner APP_Power_Get) (\<lambda>c2.
       some_then (loop triangle_turn
           (insert_corner c2 (h1, m1, (0, 0, 0)), 0, fst h0, fst c2, fst (snd c2))) (\<lambda>(hA, hE, P_H).
       some_then (goto_corner hA hE) (\<lambda>_.
       bind_io (read_corner APP_Power_AG_Get_4_PURS) (\<lambda>c. ret_io (Some c)))))))))"

definition APP_Satellite_Cap_Scan :: "corner option tio" where
  "APP_Satellite_Cap_Scan =
     bind_io (get_io (scan_range 0)) (\<lambda>delta_Az.
     some_then (cross_scan delta_Az delta_Az) (\<lambda>_.
     bind_io (APP_CurrDegree_Get_FP ANG_CABRAGE) (\<lambda>_.
     bind_io (APP_CurrDegree_Get_FP ANG_POLARIZATION) (\<lambda>_.
     bind_io APP_Power_AG_Get (\<lambda>_.
       APP_Triangle_Track)))))"

section \<open>Gradient tracking\<close>

definition fdiv :: "fp32 \<Rightarrow> fp32 \<Rightarrow> fp32 tio" where
  "fdiv a b s = (if b = 0 then Inl NonFinite else Inr (f32 (a / b), s))"

definition segma0 :: rat where "segma0 = f32 (1 / 100)"

text \<open>The gradient of the power from two displacements \<open>(delta_Az, delta_El, delta_p)\<close>. The
  added \<open>segma0\<close> keeps the determinant away from 0 when the antenna stands still.\<close>

definition gradient :: "corner \<Rightarrow> corner \<Rightarrow> (fp32 \<times> fp32) tio" where
  "gradient new old =
     (case (new, old) of ((aN, eN, pN), (aO, eO, pO)) \<Rightarrow>
        let d_Az_El = f32 (f32 (aN * eO) - f32 (eN * aO)) in
        bind_io (fdiv (f32 (f32 (pN * eO) - f32 (pO * eN))) d_Az_El) (\<lambda>d_Az.
        bind_io (fdiv (f32 (f32 (pO * aN) - f32 (pN * aO))) d_Az_El) (\<lambda>d_El.
          ret_io (d_Az, d_El))))"

definition displacement :: "corner \<Rightarrow> corner \<Rightarrow> corner" where
  "displacement new old = (case (new, old) of ((aN, eN, pN), (aO, eO, pO)) \<Rightarrow>
     (f32 (aN - aO), f32 (eN - eO), f32 (pN - pO)))"

definition with_Az :: "corner \<Rightarrow> corner" where
  "with_Az d = (case d of (a, e, p) \<Rightarrow> (f32 (a + segma0), e, p))"

definition with_El :: "corner \<Rightarrow> corner" where
  "with_El d = (case d of (a, e, p) \<Rightarrow> (a, f32 (e + segma0), p))"

definition norm2 :: "fp32 \<Rightarrow> fp32 \<Rightarrow> rat" where
  "norm2 x y = f64 (f64 (x * x) + f64 (y * y))"

text \<open>A step of length \<open>delta_r\<close> along the gradient, at least a little on each axis.\<close>

definition step_along :: "fp32 \<Rightarrow> fp32 \<Rightarrow> rat \<Rightarrow> fp32 tio" where
  "step_along d len smallest =
     bind_io (fdiv d len) (\<lambda>n.
       let delta = f32 (n * f32 (8 / 100)) in
       ret_io (if \<bar>delta\<bar> < f32 (1373 / 1000000) then smallest else delta))"

text \<open>The loop's variables: the gradient, the last position and displacement, \<open>step\<close>. The
  results are only written after the loop's regular end.\<close>

type_synonym grad = "(fp32 \<times> fp32) \<times> corner \<times> corner \<times> u8"

definition gradient_turn :: "grad \<Rightarrow> (grad + bool option) tio" where
  "gradient_turn = (\<lambda>((d_Az, d_El), new, delta_new, step).
     if \<not> norm2 d_Az d_El > 1 / 2 then ret_io (Inr (Some True))
     else
       let len = f32 (f64_sqrt (norm2 d_Az d_El)) in
       bind_io (step_along d_Az len (f32 (3 / 100))) (\<lambda>delta_Az.
       bind_io (step_along d_El len (f32 (2 / 100))) (\<lambda>delta_El.
       bind_io (goto_corner (f32 (fst new + delta_Az)) (f32 (fst (snd new) + delta_El))) (\<lambda>r.
         case r of None \<Rightarrow> ret_io (Inr None)
         | Some _ \<Rightarrow>
             bind_io (read_corner APP_Power_AG_Get_4_PURS) (\<lambda>new1.
               if step > 30 then ret_io (Inr (Some False))
               else
                 let old1 = with_El delta_new; delta1 = with_Az (displacement new1 new) in
                 bind_io (gradient delta1 old1) (\<lambda>d. ret_io (Inl (d, new1, delta1, step + 1))))))))"

definition nudge :: "u8 \<Rightarrow> u8 \<Rightarrow> u8 \<Rightarrow> corner option tio" where
  "nudge az_dir el_dir first =
     ok_then (APP_MotorStart motor_position_id az_dir)
     (ok_then (APP_MotorStart motor_cabrage_id el_dir)
     (bind_io (if first = motor_position_id then APP_MotorEnd motor_position_id az_dir
                 else APP_MotorEnd motor_cabrage_id el_dir) (\<lambda>_.
      bind_io (if first = motor_position_id then APP_MotorEnd motor_cabrage_id el_dir
                 else APP_MotorEnd motor_position_id az_dir) (\<lambda>_.
      bind_io (read_corner APP_Power_AG_Get_4_PURS) (\<lambda>c. ret_io (Some c))))))"

text \<open>\<open>APP_Gradient_Track\<close> from the values its three pointers have; after more than 30 steps
  it returns \<open>SUCC\<close> without writing them.\<close>

definition APP_Gradient_Track :: "corner \<Rightarrow> corner option tio" where
  "APP_Gradient_Track c =
     bind_io (read_corner APP_Power_Get) (\<lambda>old_I.
     some_then (nudge Drec_anticlockwise_down Drec_clockwise_up motor_position_id) (\<lambda>old.
     some_then (nudge Drec_clockwise_up Drec_anticlockwise_down motor_cabrage_id) (\<lambda>new.
       let delta_new = with_Az (displacement new old); delta_old = with_El (displacement old old_I) in
       bind_io (gradient delta_new delta_old) (\<lambda>d.
       some_then (loop gradient_turn (d, new, delta_new, 0)) (\<lambda>ended.
         if \<not> ended then ret_io (Some c)
         else
           bind_io (APP_CurrDegree_Get_FP ANG_CABRAGE) (\<lambda>el.
           bind_io (APP_CurrDegree_Get_FP ANG_POSITION) (\<lambda>az.
           bind_io APP_Power_AG_Get_4_PURS (\<lambda>p. ret_io (Some (az, el, p))))))))))"

section \<open>Keeping on the satellite\<close>

text \<open>\<open>(FP32)AimAtSat_Limit_mv/1000.0\<close> and \<open>history_max_mv/1000.0\<close>, stored in floats.\<close>

definition aim_limit :: "trk \<Rightarrow> fp32" where
  "aim_limit s = f32 (f64 (f32 (of_nat (unat (AimAtSat_Limit_mv (SeekSatParam (par s))))) / 1000))"

definition history_max :: "trk \<Rightarrow> fp32" where
  "history_max s = f32 (f64 (history_max_mv (sta s) / 1000))"

definition APP_DScale_Cross_Scan_Track :: "fp32 \<Rightarrow> fp32 \<Rightarrow> corner option tio" where
  "APP_DScale_Cross_Scan_Track pc pMax =
     bind_io (get_io aim_limit) (\<lambda>limit.
     bind_io (getScanRadius 0 pc pMax) (\<lambda>delta.
     some_then (cross_scan delta delta) (\<lambda>_.
     bind_io (read_corner APP_Power_AG_Get) (\<lambda>_.
     some_then APP_Triangle_Track (\<lambda>(Azc, ELc, pc1).
       if \<not> APP_NB pc1 pMax limit then bind_io APP_Preliminary_Aim (\<lambda>_. ret_io None)
       else ret_io (Some (Azc, ELc, pc1)))))))"

definition be_of :: "fp32 \<Rightarrow> bytes" where
  "be_of x = be32 (fp_to_u32 (fp_mul1000 x))"

text \<open>\<open>APP_LOG_FollowSatRecord\<close> of \<open>APP/src/app_log.c\<close> has no return statement: what its
  caller compares with \<open>FAIL\<close> is indeterminate, \<open>follow_ret\<close>.\<close>

definition APP_LOG_FollowSatRecord :: "u32 \<Rightarrow> status tio" where
  "APP_LOG_FollowSatRecord code s =
     (let p = par s; c = sta s;
          savebuff = [sat_lon_flag (CurrSatParam p)] @ be_of (sat_lon (CurrSatParam p))
            @ be32 (sat_freq (CurrSatParam p)) @ [sat_polar_type (CurrSatParam p)]
            @ be_of (antenna_position c) @ be_of (antenna_cabrage c) @ be_of (antenna_polar c)
            @ be32 (AimAtSat_Limit_mv (SeekSatParam p)) @ be32 (fp_to_u32 (beacon_rxpower_mv c))
            @ be_of (beacon_rxpower_db c)
      in Inr (follow_ret s (length (follow_log s)), s\<lparr>follow_log := follow_log s @ [(code, savebuff)]\<rparr>))"

definition APP_LogFollowSatRecord :: "u32 \<Rightarrow> status tio" where
  "APP_LogFollowSatRecord code =
     bind_io (APP_LOG_FollowSatRecord code) (\<lambda>r.
       if r = FAIL then APP_LOG_FollowSatRecord code else ret_io SUCC)"

abbreviation (input) LOG_PURS_START :: u32 where "LOG_PURS_START \<equiv> 0xB1B1B1"
abbreviation (input) LOG_PURS_END :: u32 where "LOG_PURS_END \<equiv> 0xB1B3B3"

definition set_work_sta :: "u8 \<Rightarrow> unit tio" where
  "set_work_sta v = alter (set_sta (\<lambda>c. c\<lparr>dev_work_sta := v\<rparr>))"

definition set_rain :: "u8 \<Rightarrow> unit tio" where
  "set_rain v = alter (\<lambda>s. s\<lparr>rainFlag := v\<rparr>)"

text \<open>What is done about a loss of power: a gradient search while it is small, a cross scan
  otherwise or when the gradient search did not regain it.\<close>

definition regain :: "fp32 \<Rightarrow> fp32 \<Rightarrow> corner \<Rightarrow> corner option tio" where
  "regain p_opt limit c =
     (if APP_NB (snd (snd c)) p_opt 3 then
        some_then (APP_Gradient_Track c) (\<lambda>c1.
          if APP_NB (snd (snd c1)) p_opt limit then bind_io (set_rain 0) (\<lambda>_. ret_io (Some c1))
          else if APP_GE p_opt (snd (snd c1)) limit \<and> APP_LE p_opt (snd (snd c1)) (5 / 2)
          then bind_io (set_rain 1) (\<lambda>_. ret_io (Some c1))
          else APP_DScale_Cross_Scan_Track (snd (snd c1)) p_opt)
      else APP_DScale_Cross_Scan_Track (snd (snd c)) p_opt)"

definition track_turn :: "fp32 \<Rightarrow> fp32 \<Rightarrow> corner \<Rightarrow> (corner + unit option) tio" where
  "track_turn p_opt limit = (\<lambda>(Az0, EL0, _).
     bind_io (APP_Satellite_Drift_Check p_opt limit) (\<lambda>(chk_res, p0).
       if chk_res \<noteq> UNDERPOWER then
         bind_io (set_rain 0) (\<lambda>_. bind_io (set_work_sta 0x31) (\<lambda>_. ret_io (Inl (Az0, EL0, p0))))
       else
         bind_io (APP_Power_Deviation p0) (\<lambda>p_dev.
           if p_dev > 1 / 2 then ret_io (Inl (Az0, EL0, p0))
           else
             bind_io (set_work_sta 0x30) (\<lambda>_.
             bind_io (APP_LogFollowSatRecord LOG_PURS_START) (\<lambda>_.
             bind_io (regain p_opt limit (Az0, EL0, p0)) (\<lambda>r. case r of
               None \<Rightarrow> ret_io (Inr None)
             | Some c \<Rightarrow>
                 bind_io (set_work_sta 0x31) (\<lambda>_.
                 bind_io (APP_LogFollowSatRecord LOG_PURS_END) (\<lambda>_. ret_io (Inl c)))))))))"

definition APP_Sat_GradientTrack :: "unit option tio" where
  "APP_Sat_GradientTrack =
     bind_io (get_io (\<lambda>s. (history_max s, aim_limit s))) (\<lambda>(p_opt, limit).
     bind_io (alter (set_sta (\<lambda>c. c\<lparr>AGC_max_mv := f32 (f64 (p_opt * 1000))\<rparr>))) (\<lambda>_.
     bind_io (set_rain 0) (\<lambda>_.
     bind_io (APP_CurrDegree_Get_FP ANG_POSITION) (\<lambda>Az0.
     bind_io (APP_CurrDegree_Get_FP ANG_CABRAGE) (\<lambda>EL0.
       loop (track_turn p_opt limit) (Az0, EL0, 0))))))"

definition APP_Satellite_Track_Start :: "unit option tio" where
  "APP_Satellite_Track_Start =
     bind_io (set_work_sta 0x20) (\<lambda>_.
     bind_io APP_Power_AG_Get (\<lambda>agc_cur.
     bind_io (get_io history_max) (\<lambda>agc_old_max.
       let agc_max = (if APP_GE agc_old_max 0 2 then agc_old_max else 10) in
       some_then
         (if \<not> APP_NB agc_max agc_cur (f64 (2 / 10)) then
            some_then
              (if \<not> APP_NB agc_max agc_cur (5 / 4) then
                 some_then APP_Preliminary_Aim (\<lambda>_.
                 some_then APP_Satellite_Cap_Scan (\<lambda>(az, el, agc). ret_io (Some agc)))
               else ret_io (Some agc_cur)) (\<lambda>agc.
            bind_io (get_io (\<lambda>s. ant_elec_coder_num (AntennaParam (par s)))) (\<lambda>n.
              if n \<ge> 3 then some_then pl_scan (\<lambda>_. ret_io (Some agc)) else ret_io (Some agc)))
          else ret_io (Some agc_cur)) (\<lambda>agc.
       bind_io (if agc > agc_old_max then
            bind_io (get_io stack_addr) (\<lambda>ptr.
              bind_io (on_eeprom (APP_PARAM_HistoryMaxMv_Save ptr (f32 (agc * 1000)))) (\<lambda>_. ret_io ()))
          else ret_io ()) (\<lambda>_.
       bind_io (alter (set_sta (\<lambda>c. c\<lparr>AGC_max_mv := f32 (agc * 1000)\<rparr>))) (\<lambda>_.
       bind_io (set_work_sta 0x21) (\<lambda>_. ret_io (Some ()))))))))"

end
