(* ===== verification/TrackLaws.thy ===== *)
theory TrackLaws
  imports Track PduLaws
begin

text \<open>
  What the antenna drive and the sweeps guarantee: when a drive to an angle returns and what
  it leaves behind, what a sweep finds, and how the tracking loop ends.
  The locale \<open>turning\<close> is the contract of a loop body: every turn takes a reading.
\<close>

section \<open>Loops\<close>

text \<open>A step that never adds readings and leaves the work status alone.\<close>

definition steady :: "'a tio \<Rightarrow> bool" where
  "steady m \<longleftrightarrow> (\<forall>s x s'. m s = Inr (x, s') \<longrightarrow>
     length (feed s') \<le> length (feed s) \<and> dev_work_sta (sta s') = dev_work_sta (sta s))"

locale turning =
  fixes body :: "'a \<Rightarrow> ('a + 'b) tio"
  assumes takes: "body x s = Inr (Inl y, s') \<Longrightarrow> length (feed s') < length (feed s)"
begin

lemma loop_n_enough:
  "length (feed s) < n \<Longrightarrow> length (feed s) < m \<Longrightarrow> loop_n n body x s = loop_n m body x s"
proof (induction n arbitrary: m x s)
  case (Suc n)
  then obtain k where m: "m = Suc k" by (cases m) auto
  show ?case
  proof (cases "body x s")
    case (Inr p)
    obtain r s' where p: "p = (r, s')" by (cases p)
    show ?thesis
    proof (cases r)
      case (Inl y)
      with Inr p takes have "length (feed s') < length (feed s)" by auto
      then show ?thesis using Suc.IH [of s' k y] Suc.prems Inr p Inl by (simp add: m)
    next
      case r: (Inr z)
      then show ?thesis using Inr p by (simp add: m)
    qed
  qed (simp add: m)
qed simp

lemma loop_unfold:
  "loop body x s = bind_io (body x) (\<lambda>r. case r of Inl y \<Rightarrow> loop body y | Inr z \<Rightarrow> ret_io z) s"
proof (cases "body x s")
  case (Inr p)
  obtain r s' where p: "p = (r, s')" by (cases p)
  show ?thesis
  proof (cases r)
    case (Inl y)
    with Inr p takes have "length (feed s') < length (feed s)" by auto
    then show ?thesis
      using loop_n_enough [of s' "length (feed s)" "Suc (length (feed s'))" y] Inr p Inl by (simp add: loop_def)
  qed (simp add: loop_def Inr p)
qed (simp add: loop_def)

end

text \<open>Whatever every turn keeps holds when the loop is left.\<close>

lemma loop_n_inv:
  assumes "loop_n n body x s = Inr (z, s')" "I x s"
    and "\<And>x s y s'. I x s \<Longrightarrow> body x s = Inr (Inl y, s') \<Longrightarrow> I y s'"
    and "\<And>x s z s'. I x s \<Longrightarrow> body x s = Inr (Inr z, s') \<Longrightarrow> Q z s'"
  shows "Q z s'"
  using assms(1,2)
proof (induction n arbitrary: x s)
  case (Suc n)
  then obtain r s1 where r: "body x s = Inr (r, s1)"
    "(case r of Inl y \<Rightarrow> loop_n n body y | Inr z \<Rightarrow> ret_io z) s1 = Inr (z, s')"
    by (auto simp: bind_io_Inr)
  show ?case
  proof (cases r)
    case (Inl y)
    then show ?thesis using r Suc.IH [of y s1] assms(3) [OF Suc.prems(2)] by simp
  next
    case (Inr w)
    then show ?thesis using r assms(4) [OF Suc.prems(2)] by simp
  qed
qed simp

lemma loop_inv:
  assumes "loop body x s = Inr (z, s')" "I x s"
    and "\<And>x s y s'. I x s \<Longrightarrow> body x s = Inr (Inl y, s') \<Longrightarrow> I y s'"
    and "\<And>x s z s'. I x s \<Longrightarrow> body x s = Inr (Inr z, s') \<Longrightarrow> Q z s'"
  shows "Q z s'"
  using loop_n_inv [OF assms(1) [unfolded loop_def], of I Q] assms(2-) by blast

section \<open>Steady steps\<close>

lemma steady_bind: "steady m \<Longrightarrow> (\<And>x. steady (k x)) \<Longrightarrow> steady (bind_io m k)"
  unfolding steady_def by (fastforce simp: bind_io_Inr)

lemma steady_ret: "steady (ret_io x)"
  by (simp add: steady_def)

lemma steady_get: "steady (get_io f)"
  by (simp add: steady_def get_io_def)

lemma steady_if: "(c \<Longrightarrow> steady a) \<Longrightarrow> (\<not> c \<Longrightarrow> steady b) \<Longrightarrow> steady (if c then a else b)"
  by simp

lemma steady_ok_then: "steady m \<Longrightarrow> steady k \<Longrightarrow> steady (ok_then m k)"
  unfolding ok_then_def by (intro steady_bind steady_if steady_ret) simp_all

lemma steady_option: "steady a \<Longrightarrow> (\<And>x. steady (f x)) \<Longrightarrow> steady (case r of None \<Rightarrow> a | Some x \<Rightarrow> f x)"
  by (cases r) simp_all

lemma steady_some_then: "steady m \<Longrightarrow> (\<And>x. steady (k x)) \<Longrightarrow> steady (some_then m k)"
  unfolding some_then_def by (intro steady_bind steady_option steady_ret) simp_all

lemma steady_pair: "(\<And>x y. steady (f x y)) \<Longrightarrow> steady (case p of (x, y) \<Rightarrow> f x y)"
  by (cases p) simp

lemma steady_observe: "steady observe"
  by (auto simp: steady_def observe_def sta_def upd_sta_def split: list.splits)

lemma steady_loop:
  assumes "\<And>x. steady (body x)"
  shows "steady (loop body x)"
  unfolding steady_def
proof (intro allI impI)
  fix s z s'
  assume "loop body x s = Inr (z, s')"
  then show "length (feed s') \<le> length (feed s) \<and> dev_work_sta (sta s') = dev_work_sta (sta s)"
    by (rule loop_inv [where I = "\<lambda>_ t. length (feed t) \<le> length (feed s) \<and> dev_work_sta (sta t) = dev_work_sta (sta s)"])
      (use assms in \<open>fastforce simp: steady_def\<close>)+
qed

text \<open>The commands of the link keep the work status.\<close>

definition keeps_work :: "'a pio \<Rightarrow> bool" where
  "keeps_work m \<longleftrightarrow> (\<forall>s x s'. m s = Inr (x, s') \<longrightarrow>
     dev_work_sta (ACUCurrSta (dev s')) = dev_work_sta (ACUCurrSta (dev s)))"

lemma steady_pdu: "keeps_work m \<Longrightarrow> steady (on_pdu m)"
  unfolding steady_def keeps_work_def by (fastforce simp: on_pdu_def bind_f_Inr sta_def)

lemma keeps_work_DriveStart: "keeps_work (Antenna_DriveStart p d)"
  by (auto simp: keeps_work_def Antenna_DriveStart_def Motor_DriveStart_def Let_def bind_io_Inr sem_pend_def
      send_command_def await_reply_def take_reply_def link_stat_def upd_info_def set_motor_move_def upd_sta_def
      sem_post_def split: if_splits list.splits option.splits)

lemma keeps_work_DriveEnd: "keeps_work (Antenna_DriveEnd p d)"
  by (auto simp: keeps_work_def Antenna_DriveEnd_def Motor_DriveEnd_def Let_def bind_io_Inr sem_pend_def
      send_command_def await_reply_def take_reply_def link_stat_def upd_info_def set_motor_move_def upd_sta_def
      sem_post_def split: if_splits list.splits option.splits)

lemma steady_MotorStart: "steady (APP_MotorStart p d)"
  unfolding APP_MotorStart_def
  by (intro steady_bind steady_if steady_ret steady_pdu keeps_work_DriveStart)

lemma steady_MotorEnd: "steady (APP_MotorEnd p d)"
  unfolding APP_MotorEnd_def
  by (intro steady_bind steady_if steady_ret steady_pdu keeps_work_DriveEnd)

lemma steady_degree: "steady (APP_CurrDegree_Get_FP n)"
  unfolding APP_CurrDegree_Get_FP_def by (intro steady_bind steady_observe steady_get)

lemma steady_power: "steady APP_Power_Get"
  unfolding APP_Power_Get_def by (intro steady_bind steady_observe steady_get)

lemma steady_mean: "steady (mean_loop n c p)"
  by (induction n arbitrary: p) (auto intro: steady_ret steady_bind steady_power)

lemma steady_deviation: "steady (deviation_loop n c p)"
  by (induction n arbitrary: p) (auto intro: steady_ret steady_bind steady_power)

lemmas steady_intros = steady_ret steady_get steady_option steady_pair steady_if steady_observe
  steady_MotorStart steady_MotorEnd steady_degree steady_power steady_mean steady_deviation
  steady_ok_then steady_some_then steady_bind steady_loop

lemma steady_stop: "steady (stop_when_there n d x b)"
  unfolding stop_when_there_def by (intro steady_intros)

lemma steady_approach: "steady (approach a b c d e f x)"
  unfolding approach_def by (intro steady_intros steady_stop)

lemma steady_start_unless: "steady k \<Longrightarrow> steady (start_unless b n d k)"
  unfolding start_unless_def by (intro steady_intros)

lemma steady_adapt: "steady (adapt_target_angle a e p x y z)"
proof -
  have "steady (bind_io (APP_CurrDegree_Get_FP ANG_POSITION) (\<lambda>Az.
        bind_io (APP_CurrDegree_Get_FP ANG_CABRAGE) (\<lambda>El.
        bind_io (APP_CurrDegree_Get_FP ANG_POLARIZATION) (\<lambda>Pol.
          start_unless x motor_position_id (dir_to Az a)
          (start_unless y motor_cabrage_id (dir_to El e)
          (start_unless z motor_polar_id (dir_to Pol p)
          (loop (approach (dir_to Az a) a (dir_to El e) e (dir_to Pol p) p) (x, y, z))))))))"
    by (intro steady_intros steady_start_unless steady_approach)
  then show ?thesis by (auto simp: steady_def adapt_target_angle_def split: if_splits)
qed

lemma steady_goto: "steady (goto_corner a e)"
  unfolding goto_corner_def by (rule steady_adapt)

lemma steady_read_corner: "steady m \<Longrightarrow> steady (read_corner m)"
  unfolding read_corner_def by (intro steady_intros)

lemma steady_ag: "steady APP_Power_AG_Get" "steady APP_Power_AG_Get_4_PURS"
  unfolding APP_Power_AG_Get_def APP_Power_AG_Get_4_PURS_def by (rule steady_mean)+

lemma steady_fdiv: "steady (fdiv a b)"
  by (simp add: steady_def fdiv_def)

lemma steady_gradient: "steady (gradient a b)"
  unfolding gradient_def by (simp add: split_beta Let_def) (intro steady_intros steady_fdiv)

lemma steady_step_along: "steady (step_along a b c)"
  unfolding step_along_def Let_def by (intro steady_intros steady_fdiv)

lemma steady_down_to: "steady (down_to n x)"
  unfolding down_to_def drive_down_def by (intro steady_intros)

lemma steady_up_to: "steady (up_to n x y)"
  unfolding up_to_def sweep_up_def sweep_body_def Let_def by (intro steady_intros)

lemma steady_scan_axis: "steady (scan_axis n a b c d)"
  unfolding scan_axis_def by (intro steady_intros steady_down_to steady_up_to)

lemma steady_cross_scan: "steady (cross_scan a e)"
  unfolding cross_scan_def Let_def by (intro steady_intros steady_scan_axis)

lemma steady_aim: "steady APP_Preliminary_Aim"
  unfolding APP_Preliminary_Aim_def by (intro steady_intros steady_adapt)

lemma steady_triangle_turn: "steady (triangle_turn x)"
  unfolding triangle_turn_def Let_def
  by (intro steady_intros steady_goto steady_read_corner steady_ag)

lemma steady_triangle: "steady APP_Triangle_Track"
  unfolding APP_Triangle_Track_def Let_def
  by (intro steady_intros steady_goto steady_read_corner steady_ag steady_triangle_turn)

lemma steady_gradient_turn: "steady (gradient_turn x)"
proof -
  obtain a e new delta step where x: "x = ((a, e), new, delta, step)" by (metis prod.collapse)
  show ?thesis
    unfolding x gradient_turn_def Let_def prod.case
    by (intro steady_intros steady_goto steady_read_corner steady_ag steady_step_along steady_gradient)
qed

lemma steady_nudge: "steady (nudge a b c)"
  unfolding nudge_def by (intro steady_intros steady_read_corner steady_ag)

lemma steady_gradient_track: "steady (APP_Gradient_Track c)"
  unfolding APP_Gradient_Track_def Let_def
  by (intro steady_intros steady_nudge steady_gradient steady_read_corner steady_ag steady_gradient_turn)

lemma steady_radius: "steady (getScanRadius a b c)"
  unfolding getScanRadius_def by (rule steady_get)

lemma steady_dscale: "steady (APP_DScale_Cross_Scan_Track a b)"
  unfolding APP_DScale_Cross_Scan_Track_def
  by (intro steady_intros steady_radius steady_cross_scan steady_read_corner steady_ag steady_triangle steady_aim)

lemma steady_rain: "steady (set_rain v)"
  by (simp add: steady_def set_rain_def alter_def sta_def)

lemma steady_regain: "steady (regain a b c)"
  unfolding regain_def by (intro steady_intros steady_gradient_track steady_rain steady_dscale)

section \<open>Driving to an angle: what success means\<close>

definition moves :: "trk \<Rightarrow> u8 list" where
  "moves s = moving (base s)"

lemma on_pdu_Inr: "on_pdu m s = Inr (x, s') \<longleftrightarrow> (\<exists>p. m (base s) = Inr (x, p) \<and> s' = s\<lparr>base := p\<rparr>)"
  by (auto simp: on_pdu_def bind_f_Inr)

lemma observe_Inr: "observe s = Inr (u, s') \<longleftrightarrow>
    (\<exists>v vs. feed s = v # vs \<and> s' = set_sta (\<lambda>c. c\<lparr>antenna_position := seen_position v,
       antenna_cabrage := seen_cabrage v, antenna_polar := seen_polar v, beacon_rxpower_mv := seen_mv v\<rparr>)
       (s\<lparr>feed := vs\<rparr>))"
  by (auto simp: observe_def set_sta_def split: list.splits)

lemma moves_simps [simp]:
  "moves (s\<lparr>feed := f\<rparr>) = moves s" "moves (s\<lparr>base := p\<rparr>) = moving p"
  "moves (set_sta (\<lambda>c. c\<lparr>antenna_position := a, antenna_cabrage := b, antenna_polar := d, beacon_rxpower_mv := e\<rparr>) s) = moves s"
  by (simp_all add: moves_def moving_def set_sta_def upd_sta_def)

lemma degree_moves: "APP_CurrDegree_Get_FP n s = Inr (x, s') \<Longrightarrow> moves s' = moves s"
  by (auto simp: APP_CurrDegree_Get_FP_def bind_io_Inr observe_Inr get_io_def)

lemma length_start: "Antenna_DriveStart n d p = Inr (r, p') \<Longrightarrow> length (moving p') = length (moving p)"
  by (auto simp: Antenna_DriveStart_def Motor_DriveStart_def Let_def bind_io_Inr sem_pend_def
      send_command_def await_reply_def take_reply_def link_stat_def upd_info_def set_motor_move_def upd_sta_def
      sem_post_def moving_def split: if_splits list.splits option.splits)

lemma not_FAIL [simp]: "r \<noteq> FAIL \<longleftrightarrow> r = SUCC" "r \<noteq> SUCC \<longleftrightarrow> r = FAIL"
  by (cases r; simp)+

lemma MotorStart_length: "APP_MotorStart n d s = Inr (r, s') \<Longrightarrow> length (moves s') = length (moves s)"
  by (auto simp: APP_MotorStart_def bind_io_Inr on_pdu_Inr moves_def length_start split: if_splits)

lemma MotorEnd_effect:
  assumes "APP_MotorEnd n d s = Inr (r, s')" "is_part n"
  shows "moves s' = (if r = SUCC then (moves s)[unat n - 1 := 0] else moves s)"
proof -
  obtain r1 s1 where 1: "on_pdu (Antenna_DriveEnd n d) s = Inr (r1, s1)"
    "(if r1 = FAIL then on_pdu (Antenna_DriveEnd n d) else ret_io SUCC) s1 = Inr (r, s')"
    using assms(1) by (auto simp: APP_MotorEnd_def bind_io_Inr)
  have e: "moves t' = (if q = SUCC then (moves t)[unat n - 1 := 0] else moves t)"
    if "on_pdu (Antenna_DriveEnd n d) t = Inr (q, t')" for q t t'
    using that DriveEnd_effect [OF _ assms(2)] by (auto simp: on_pdu_Inr moves_def)
  show ?thesis using e [OF 1(1)] e [of s1 r s'] 1(2) by (cases r1) auto
qed

lemma stop_effect:
  assumes "stop_when_there n d x b s = Inr (Some b1, s')" "is_part n"
  shows "moves s' = (if b1 \<and> \<not> b then (moves s)[unat n - 1 := 0] else moves s)" "b \<longrightarrow> b1"
  using assms
  by (auto simp: stop_when_there_def bind_io_Inr ok_then_def dest!: degree_moves MotorEnd_effect split: if_splits)

lemma some_then_Inr: "some_then m k s = Inr (Some y, s') \<longleftrightarrow>
    (\<exists>x s1. m s = Inr (Some x, s1) \<and> k x s1 = Inr (Some y, s'))"
proof
  assume "some_then m k s = Inr (Some y, s')"
  then obtain r s1 where "m s = Inr (r, s1)" "(case r of None \<Rightarrow> ret_io None | Some x \<Rightarrow> k x) s1 = Inr (Some y, s')"
    by (auto simp: some_then_def bind_io_Inr)
  then show "\<exists>x s1. m s = Inr (Some x, s1) \<and> k x s1 = Inr (Some y, s')" by (cases r) auto
qed (auto simp: some_then_def bind_io_Inr)

lemma start_unless_length:
  assumes "start_unless b n d k s = Inr (Some y, s')"
  obtains s1 where "k s1 = Inr (Some y, s')" "length (moves s1) = length (moves s)"
  using assms MotorStart_length
  by (auto simp: start_unless_def ok_then_def bind_io_Inr split: if_splits)

definition stopped_axes :: "bool \<times> bool \<times> bool \<Rightarrow> bool \<times> bool \<times> bool \<Rightarrow> trk \<Rightarrow> bool" where
  "stopped_axes stay = (\<lambda>(az, el, pol) s. length (moves s) = 3
     \<and> (az \<and> \<not> fst stay \<longrightarrow> moves s ! 0 = 0) \<and> (el \<and> \<not> fst (snd stay) \<longrightarrow> moves s ! 1 = 0)
     \<and> (pol \<and> \<not> snd (snd stay) \<longrightarrow> moves s ! 2 = 0))"

lemma approach_stops:
  assumes "approach a b c d e f x s = Inr (Inl y, s')" "stopped_axes stay x s"
  shows "stopped_axes stay y s'"
proof -
  obtain az el pol where x: "x = (az, el, pol)" by (cases x)
  obtain az1 el1 pol1 where y: "y = (az1, el1, pol1)" by (cases y)
  obtain s1 s2 where s: "stop_when_there 1 a b az s = Inr (Some az1, s1)"
    "stop_when_there 2 c d el s1 = Inr (Some el1, s2)" "stop_when_there 3 e f pol s2 = Inr (Some pol1, s')"
    using assms(1) by (auto simp: approach_def x y bind_io_Inr some_then_Inr split: if_splits option.splits)
  have p: "is_part 1" "is_part 2" "is_part 3" by (simp_all add: is_part_def)
  show ?thesis
    using assms(2) stop_effect [OF s(1) p(1)] stop_effect [OF s(2) p(2)] stop_effect [OF s(3) p(3)]
    by (auto simp: stopped_axes_def x y nth_list_update)
qed

text \<open>C2: \<open>adapt_target_angle\<close> succeeds only for a target within the antenna's limits, and
  then every axis that it was to move counts as stopped.\<close>

theorem adapt_success_stops:
  assumes "adapt_target_angle tAz tEl tPol sAz sEl sPol s = Inr (Some (), s')" "length (moves s) = 3"
  shows "\<not> out_of_range s tAz tEl tPol sPol \<and> (\<not> sAz \<longrightarrow> moves s' ! 0 = 0)
    \<and> (\<not> sEl \<longrightarrow> moves s' ! 1 = 0) \<and> (\<not> sPol \<longrightarrow> moves s' ! 2 = 0)"
proof -
  have r: "\<not> out_of_range s tAz tEl tPol sPol" using assms(1) by (auto simp: adapt_target_angle_def split: if_splits)
  then obtain Az El Pol s1 s2 s3 where d: "APP_CurrDegree_Get_FP 1 s = Inr (Az, s1)"
      "APP_CurrDegree_Get_FP 2 s1 = Inr (El, s2)" "APP_CurrDegree_Get_FP 3 s2 = Inr (Pol, s3)"
    and k: "start_unless sAz 1 (dir_to Az tAz) (start_unless sEl 2 (dir_to El tEl)
      (start_unless sPol 3 (dir_to Pol tPol)
      (loop (approach (dir_to Az tAz) tAz (dir_to El tEl) tEl (dir_to Pol tPol) tPol) (sAz, sEl, sPol)))) s3
      = Inr (Some (), s')"
    using assms(1) by (auto simp: adapt_target_angle_def bind_io_Inr)
  obtain s4 where s4: "loop (approach (dir_to Az tAz) tAz (dir_to El tEl) tEl (dir_to Pol tPol) tPol)
      (sAz, sEl, sPol) s4 = Inr (Some (), s')" "length (moves s4) = length (moves s3)"
    using k by (elim start_unless_length) simp
  have "stopped_axes (sAz, sEl, sPol) (sAz, sEl, sPol) s4"
    using s4(2) d assms(2) by (auto simp: stopped_axes_def dest!: degree_moves)
  with s4(1) have "Some () = Some () \<longrightarrow> stopped_axes (sAz, sEl, sPol) (True, True, True) s'"
  proof (rule loop_inv [where I = "stopped_axes (sAz, sEl, sPol)"
        and Q = "\<lambda>z t. z = Some () \<longrightarrow> stopped_axes (sAz, sEl, sPol) (True, True, True) t"])
    fix x s y t
    assume "stopped_axes (sAz, sEl, sPol) x s"
      "approach (dir_to Az tAz) tAz (dir_to El tEl) tEl (dir_to Pol tPol) tPol x s = Inr (Inl y, t)"
    then show "stopped_axes (sAz, sEl, sPol) y t" using approach_stops by blast
  next
    fix x s z t
    assume "stopped_axes (sAz, sEl, sPol) x s"
      "approach (dir_to Az tAz) tAz (dir_to El tEl) tEl (dir_to Pol tPol) tPol x s = Inr (Inr z, t)"
    then show "z = Some () \<longrightarrow> stopped_axes (sAz, sEl, sPol) (True, True, True) t"
      by (auto simp: approach_def bind_io_Inr split: if_splits option.splits prod.splits)
  qed
  with r show ?thesis by (simp add: stopped_axes_def)
qed

section \<open>How tracking ends\<close>

lemma not_Some_triple: "(\<forall>a b c. r \<noteq> Some (a, b, c)) \<longleftrightarrow> r = None" "u \<noteq> Some () \<longleftrightarrow> u = None"
  by (cases r; auto) (cases u; simp)

text \<open>\<open>APP_Sat_GradientTrack\<close> never reports success, and when it gives up the work status
  still says that the antenna is being adjusted (\<open>0x30\<close>).\<close>

theorem tracking_ends_in_failure:
  assumes "APP_Sat_GradientTrack s = Inr (r, s')"
  shows "r = None \<and> dev_work_sta (sta s') = 0x30"
proof -
  obtain p l x s1 where "loop (track_turn p l) x s1 = Inr (r, s')"
    using assms by (auto simp: APP_Sat_GradientTrack_def bind_io_Inr get_io_def)
  then show ?thesis
  proof (rule loop_inv [where I = "\<lambda>_ _. True"])
    fix y s z s'
    assume t: "track_turn p l y s = Inr (Inr z, s')"
    obtain a e q where y: "y = (a, e, q)" by (cases y)
    obtain s1 s2 s3 r3 c where z: "z = None" and 1: "set_work_sta 0x30 s1 = Inr ((), s2)"
      and "APP_LogFollowSatRecord LOG_PURS_START s2 = Inr (r3, s3)" "regain p l c s3 = Inr (None, s')"
      using t by (auto simp: track_turn_def y bind_io_Inr not_Some_triple split: if_splits option.splits)
    then have 2: "bind_io (APP_LogFollowSatRecord LOG_PURS_START) (\<lambda>_. regain p l c) s2 = Inr (None, s')"
      by simp
    have "steady (APP_LOG_FollowSatRecord v)" for v
      by (simp add: steady_def APP_LOG_FollowSatRecord_def Let_def sta_def)
    then have "steady (bind_io (APP_LogFollowSatRecord LOG_PURS_START) (\<lambda>_. regain p l c))"
      unfolding APP_LogFollowSatRecord_def by (intro steady_intros steady_regain)
    then have "dev_work_sta (sta s') = dev_work_sta (sta s2)" using 2 by (simp add: steady_def)
    also have "\<dots> = 0x30" using 1 by (auto simp: set_work_sta_def alter_def set_sta_def sta_def upd_sta_def)
    finally show "z = None \<and> dev_work_sta (sta s') = 0x30" using z by simp
  qed simp_all
qed

end
