(* ===== verification/TrackProps.thy ===== *)
theory TrackProps
  imports TrackLaws
begin

text \<open>
  When the antenna drive returns, what the sweeps find, and two ways in which driving to an
  angle goes wrong. The witnesses of theory \<open>TrackLaws\<close>'s properties are here too, on a
  drive unit that acknowledges, or one that does not answer.
\<close>

section \<open>The link returns\<close>

text \<open>A step of the link, and its second try.\<close>

definition obliging :: "status tio \<Rightarrow> bool" where
  "obliging m \<longleftrightarrow> (\<forall>s. link_ok (base s) \<longrightarrow>
     (\<exists>r s'. m s = Inr (r, s') \<and> link_ok (base s') \<and> feed s' = feed s))"

lemma obligingE:
  assumes "obliging m" "link_ok (base s)"
  obtains r s' where "m s = Inr (r, s')" "link_ok (base s')" "feed s' = feed s"
  using assms unfolding obliging_def by blast

lemma obliging_pdu:
  assumes "\<And>p. link_ok p \<Longrightarrow> \<exists>r p'. m p = Inr (r, p') \<and> link_ok p'"
  shows "obliging (on_pdu m)"
  unfolding obliging_def
proof (intro allI impI)
  fix s :: trk assume "link_ok (base s)"
  then obtain r p where "m (base s) = Inr (r, p)" "link_ok p" using assms by blast
  then show "\<exists>r s'. on_pdu m s = Inr (r, s') \<and> link_ok (base s') \<and> feed s' = feed s"
    by (simp add: on_pdu_def)
qed

lemma obliging_retry:
  assumes "obliging m"
  shows "obliging (bind_io m (\<lambda>r. if r = FAIL then m else ret_io SUCC))"
  unfolding obliging_def
proof (intro allI impI)
  fix s :: trk assume "link_ok (base s)"
  with assms obtain r s1 where 1: "m s = Inr (r, s1)" "link_ok (base s1)" "feed s1 = feed s" by (rule obligingE)
  from assms 1(2) obtain r2 s2 where 2: "m s1 = Inr (r2, s2)" "link_ok (base s2)" "feed s2 = feed s1" by (rule obligingE)
  show "\<exists>r s'. bind_io m (\<lambda>r. if r = FAIL then m else ret_io SUCC) s = Inr (r, s') \<and> link_ok (base s') \<and> feed s' = feed s"
    using 1 2 by (cases r) (simp_all add: ret_io_def)
qed

lemma obliging_MotorStart: "obliging (APP_MotorStart n d)"
  unfolding APP_MotorStart_def by (intro obliging_retry obliging_pdu link_ok_start)

lemma obliging_MotorEnd: "obliging (APP_MotorEnd n d)"
  unfolding APP_MotorEnd_def by (intro obliging_retry obliging_pdu link_ok_end)

section \<open>Driving to an angle returns once the readings settle\<close>

lemma loop_returns:
  assumes "I x s"
    and "\<And>x s. I x s \<Longrightarrow> \<exists>r s'. body x s = Inr (r, s')
        \<and> (\<forall>y. r = Inl y \<longrightarrow> I y s' \<and> length (feed s') < length (feed s))"
  shows "\<exists>z s'. loop body x s = Inr (z, s')"
proof -
  have "\<exists>z s'. loop_n n body x s = Inr (z, s')" if "I x s" "length (feed s) < n" for n x s
    using that
  proof (induction n arbitrary: x s)
    case (Suc n)
    obtain r s' where r: "body x s = Inr (r, s')"
      "\<And>y. r = Inl y \<Longrightarrow> I y s' \<and> length (feed s') < length (feed s)"
      using assms(2) [OF Suc.prems(1)] by blast
    show ?case
    proof (cases r)
      case (Inl y)
      have "length (feed s') < n" using r(2) [OF Inl] Suc.prems(2) by simp
      then show ?thesis using Suc.IH [of y s'] r Inl by simp
    next
      case (Inr z)
      then show ?thesis using r(1) by (simp add: ret_io_def)
    qed
  qed simp
  then show ?thesis using assms(1) by (simp add: loop_def del: loop_n.simps)
qed

definition target :: "fp32 \<times> fp32 \<times> fp32 \<Rightarrow> u8 \<Rightarrow> fp32" where
  "target t n = (case t of (a, e, p) \<Rightarrow> if n = 1 then a else if n = 2 then e else p)"

definition seen :: "u8 \<Rightarrow> snapshot \<Rightarrow> fp32" where
  "seen n v = (if n = 1 then seen_position v else if n = 2 then seen_cabrage v else seen_polar v)"

text \<open>A reading that counts as arrived on all axes, whatever direction it is reached from.\<close>

definition arrived :: "fp32 \<times> fp32 \<times> fp32 \<Rightarrow> snapshot \<Rightarrow> bool" where
  "arrived t v \<longleftrightarrow> (\<forall>n. there 1 (seen n v) (target t n) \<and> there 2 (seen n v) (target t n))"

text \<open>The trace ends with \<open>k\<close> arrived readings.\<close>

definition settles :: "fp32 \<times> fp32 \<times> fp32 \<Rightarrow> nat \<Rightarrow> trk \<Rightarrow> bool" where
  "settles t k s \<longleftrightarrow> (\<exists>pre post. feed s = pre @ post \<and> k \<le> length post \<and> (\<forall>v\<in>set post. arrived t v))"

lemma settles_feed: "feed s' = feed s \<Longrightarrow> settles t k s' = settles t k s"
  by (simp add: settles_def)

lemma there_cases: "there d x y \<longleftrightarrow> (if d = 1 then there 1 x y else there 2 x y)"
  by (simp add: there_def)

lemma read_settled:
  assumes "settles t (Suc k) s" "link_ok (base s)"
  obtains x s' where "APP_CurrDegree_Get_FP n s = Inr (x, s')" "link_ok (base s')"
    "length (feed s') < length (feed s)"
    "settles t (Suc k) s' \<or> settles t k s' \<and> (\<forall>d. there d x (target t n))" "settles t k s'"
proof -
  obtain pre post where f: "feed s = pre @ post" "Suc k \<le> length post" "\<forall>v\<in>set post. arrived t v"
    using assms(1) by (auto simp: settles_def)
  have "feed s \<noteq> []" using f(1,2) by auto
  then obtain v vs where v: "feed s = v # vs" by (auto simp: neq_Nil_conv)
  define s' where "s' = set_sta (\<lambda>c. c\<lparr>antenna_position := seen_position v, antenna_cabrage := seen_cabrage v,
      antenna_polar := seen_polar v, beacon_rxpower_mv := seen_mv v\<rparr>) (s\<lparr>feed := vs\<rparr>)"
  have "observe s = Inr ((), s')" using v by (simp add: observe_def s'_def set_sta_def)
  then have r: "APP_CurrDegree_Get_FP n s = Inr (seen n v, s')"
    by (simp add: APP_CurrDegree_Get_FP_def get_io_def degree_of_def seen_def s'_def sta_def set_sta_def upd_sta_def)
  have l: "link_ok (base s')" "feed s' = vs"
    using assms(2) by (simp_all add: s'_def set_sta_def upd_sta_def link_ok_def link_free_def)
  have st: "settles t (Suc k) s' \<or> settles t k s' \<and> (\<forall>d. there d (seen n v) (target t n))"
  proof (cases pre)
    case Nil
    then have "arrived t v" "vs = tl post" using f v by (cases post; auto)+
    moreover have "settles t k s'"
      unfolding settles_def l(2) using f(2,3) \<open>vs = tl post\<close>
      by (intro exI [of _ "[]"] exI [of _ "tl post"]) (cases post; auto)
    ultimately show ?thesis using there_cases by (metis arrived_def)
  next
    case (Cons u us)
    then show ?thesis using f v l(2) unfolding settles_def by auto
  qed
  have "settles t k s'" if "settles t (Suc k) s'" using that unfolding settles_def by (meson Suc_leD)
  then show thesis using that [OF r l(1)] st l(2) v by auto
qed

lemma settles_mono: "settles t k s \<Longrightarrow> j \<le> k \<Longrightarrow> settles t j s"
  unfolding settles_def by (meson order_trans)

lemma stop_returns:
  assumes "settles t (k + of_bool (\<not> b)) s" "link_ok (base s)"
  obtains r s' where "stop_when_there n d (target t n) b s = Inr (r, s')" "link_ok (base s')"
    "\<And>b1. r = Some b1 \<Longrightarrow> settles t (k + of_bool (\<not> b1)) s'"
    "length (feed s') + of_bool (\<not> b) \<le> length (feed s)"
proof (cases b)
  case True
  then show thesis using that [of "Some True" s] assms by (simp add: stop_when_there_def ret_io_def)
next
  case False
  with assms have "settles t (Suc k) s" by simp
  from this assms(2) obtain x s1 where x: "APP_CurrDegree_Get_FP n s = Inr (x, s1)" "link_ok (base s1)"
    "length (feed s1) < length (feed s)"
    "settles t (Suc k) s1 \<or> settles t k s1 \<and> (\<forall>d. there d x (target t n))" "settles t k s1"
    by (rule read_settled)
  show thesis
  proof (cases "there d x (target t n)")
    case True
    obtain r s2 where r: "APP_MotorEnd n d s1 = Inr (r, s2)" "link_ok (base s2)" "feed s2 = feed s1"
      using obligingE [OF obliging_MotorEnd x(2)] by blast
    have "stop_when_there n d (target t n) b s = Inr (if r = FAIL then None else Some True, s2)"
      using False True x(1) r(1) by (simp add: stop_when_there_def ok_then_def ret_io_def)
    then show thesis using that r x(3,5) settles_feed [OF r(3), of t k] by (auto split: if_splits)
  next
    case nt: False
    then have "stop_when_there n d (target t n) b s = Inr (Some False, s1)"
      using False x(1) by (simp add: stop_when_there_def ret_io_def)
    then show thesis using that [of "Some False" s1] x(2-4) nt by (auto simp: False)
  qed
qed

definition open_axes :: "bool \<times> bool \<times> bool \<Rightarrow> nat" where
  "open_axes x = (case x of (az, el, pol) \<Rightarrow> of_bool (\<not> az) + of_bool (\<not> el) + of_bool (\<not> pol))"

lemma approach_returns:
  assumes "settles t (open_axes x) s" "link_ok (base s)"
  shows "\<exists>r s'. approach d1 (target t 1) d2 (target t 2) d3 (target t 3) x s = Inr (r, s')
    \<and> (\<forall>y. r = Inl y \<longrightarrow> (settles t (open_axes y) s' \<and> link_ok (base s')) \<and> length (feed s') < length (feed s))"
proof -
  obtain az el pol where x: "x = (az, el, pol)" by (cases x)
  show ?thesis
  proof (cases "az \<and> el \<and> pol")
    case True
    then show ?thesis by (simp add: approach_def x ret_io_def)
  next
    case False
    have "settles t (of_bool (\<not> el) + of_bool (\<not> pol) + of_bool (\<not> az)) s"
      using assms(1) by (simp add: open_axes_def x add_ac)
    with assms(2) obtain r1 s1 where 1: "stop_when_there 1 d1 (target t 1) az s = Inr (r1, s1)" "link_ok (base s1)"
      "\<And>b1. r1 = Some b1 \<Longrightarrow> settles t (of_bool (\<not> el) + of_bool (\<not> pol) + of_bool (\<not> b1)) s1"
      "length (feed s1) + of_bool (\<not> az) \<le> length (feed s)"
      using stop_returns [of t "of_bool (\<not> el) + of_bool (\<not> pol)" az s 1 d1] by blast
    show ?thesis
    proof (cases r1)
      case None
      then show ?thesis using False 1(1) by (simp add: approach_def x some_then_def ret_io_def)
    next
      case r1: (Some az1)
      have "settles t (of_bool (\<not> az1) + of_bool (\<not> pol) + of_bool (\<not> el)) s1"
        using 1(3) [OF r1] by (simp add: add_ac)
      with 1(2) obtain r2 s2 where 2: "stop_when_there 2 d2 (target t 2) el s1 = Inr (r2, s2)" "link_ok (base s2)"
        "\<And>b1. r2 = Some b1 \<Longrightarrow> settles t (of_bool (\<not> az1) + of_bool (\<not> pol) + of_bool (\<not> b1)) s2"
        "length (feed s2) + of_bool (\<not> el) \<le> length (feed s1)"
        using stop_returns [of t "of_bool (\<not> az1) + of_bool (\<not> pol)" el s1 2 d2] by blast
      show ?thesis
      proof (cases r2)
        case None
        then show ?thesis using False 1(1) 2(1) r1 by (simp add: approach_def x some_then_def ret_io_def)
      next
        case r2: (Some el1)
        have "settles t (of_bool (\<not> az1) + of_bool (\<not> el1) + of_bool (\<not> pol)) s2"
          using 2(3) [OF r2] by (simp add: add_ac)
        with 2(2) obtain r3 s3 where 3: "stop_when_there 3 d3 (target t 3) pol s2 = Inr (r3, s3)" "link_ok (base s3)"
          "\<And>b1. r3 = Some b1 \<Longrightarrow> settles t (of_bool (\<not> az1) + of_bool (\<not> el1) + of_bool (\<not> b1)) s3"
          "length (feed s3) + of_bool (\<not> pol) \<le> length (feed s2)"
          using stop_returns [of t "of_bool (\<not> az1) + of_bool (\<not> el1)" pol s2 3 d3] by blast
        have "length (feed s3) < length (feed s)" using False 1(4) 2(4) 3(4) by (auto simp: of_bool_def split: if_splits)
        then show ?thesis
          using False 1(1) 2(1) 3(1-3) r1 r2
          by (cases r3) (simp_all add: approach_def x some_then_def ret_io_def open_axes_def)
      qed
    qed
  qed
qed

lemma start_unless_returns:
  assumes "link_ok (base s)" "settles t n s"
    and k: "\<And>s1. link_ok (base s1) \<Longrightarrow> settles t n s1 \<Longrightarrow> \<exists>r s'. k s1 = Inr (r, s')"
  shows "\<exists>r s'. start_unless b m d k s = Inr (r, s')"
proof -
  obtain r s1 where 1: "APP_MotorStart m d s = Inr (r, s1)" "link_ok (base s1)" "feed s1 = feed s"
    using obligingE [OF obliging_MotorStart assms(1)] by blast
  have "\<exists>r s'. k s1 = Inr (r, s')" using k [OF 1(2)] settles_feed [OF 1(3)] assms(2) by blast
  then show ?thesis
    using k [OF assms(1,2)] 1(1) by (cases r) (auto simp: start_unless_def ok_then_def ret_io_def)
qed

text \<open>C25: \<open>adapt_target_angle\<close> returns once the readings settle at the target: with the link to the drive unit free, and no answer
  of the drive unit longer than 32 bytes, the call ends if the trace of readings ends with six that have arrived at the target,
  whatever the drive unit answers or fails to answer.\<close>

theorem adapt_returns:
  assumes "settles (tAz, tEl, tPol) 6 s" "link_ok (base s)"
  shows "\<exists>r s'. adapt_target_angle tAz tEl tPol sAz sEl sPol s = Inr (r, s')"
proof (cases "out_of_range s tAz tEl tPol sPol")
  case False
  let ?t = "(tAz, tEl, tPol)"
  have t: "target ?t 1 = tAz" "target ?t 2 = tEl" "target ?t 3 = tPol" by (simp_all add: target_def)
  have l: "\<exists>r s'. loop (approach a tAz b tEl c tPol) (sAz, sEl, sPol) s1 = Inr (r, s')"
    if "link_ok (base s1)" "settles ?t 3 s1" for a b c s1
  proof (rule loop_returns [where I = "\<lambda>x s. settles ?t (open_axes x) s \<and> link_ok (base s)"])
    show "settles ?t (open_axes (sAz, sEl, sPol)) s1 \<and> link_ok (base s1)"
      using that(1) settles_mono [OF that(2), of "open_axes (sAz, sEl, sPol)"] by (simp add: open_axes_def)
  next
    fix x s assume "settles ?t (open_axes x) s \<and> link_ok (base s)"
    then show "\<exists>r s'. approach a tAz b tEl c tPol x s = Inr (r, s') \<and> (\<forall>y. r = Inl y \<longrightarrow>
        (settles ?t (open_axes y) s' \<and> link_ok (base s')) \<and> length (feed s') < length (feed s))"
      using approach_returns [of ?t x s a b c] t by simp
  qed
  have "settles ?t (Suc 5) s" using assms(1) by simp
  from this assms(2) obtain Az s1 where 1: "APP_CurrDegree_Get_FP 1 s = Inr (Az, s1)" "link_ok (base s1)" "settles ?t 5 s1"
    by (rule read_settled)
  have "settles ?t (Suc 4) s1" using 1(3) by simp
  from this 1(2) obtain El s2 where 2: "APP_CurrDegree_Get_FP 2 s1 = Inr (El, s2)" "link_ok (base s2)" "settles ?t 4 s2"
    by (rule read_settled)
  have "settles ?t (Suc 3) s2" using 2(3) by simp
  from this 2(2) obtain Pol s3 where 3: "APP_CurrDegree_Get_FP 3 s2 = Inr (Pol, s3)" "link_ok (base s3)" "settles ?t 3 s3"
    by (rule read_settled)
  define m where "m = loop (approach (dir_to Az tAz) tAz (dir_to El tEl) tEl (dir_to Pol tPol) tPol) (sAz, sEl, sPol)"
  have m: "\<exists>r s'. m s = Inr (r, s')" if "link_ok (base s)" "settles ?t 3 s" for s using l [OF that] by (simp add: m_def)
  have m1: "\<exists>r s'. start_unless sPol 3 (dir_to Pol tPol) m s = Inr (r, s')"
    if "link_ok (base s)" "settles ?t 3 s" for s
    using that m by (rule start_unless_returns)
  have m2: "\<exists>r s'. start_unless sEl 2 (dir_to El tEl) (start_unless sPol 3 (dir_to Pol tPol) m) s = Inr (r, s')"
    if "link_ok (base s)" "settles ?t 3 s" for s
    using that m1 by (rule start_unless_returns)
  have "\<exists>r s'. start_unless sAz 1 (dir_to Az tAz) (start_unless sEl 2 (dir_to El tEl)
      (start_unless sPol 3 (dir_to Pol tPol) m)) s3 = Inr (r, s')"
    using 3(2,3) m2 by (rule start_unless_returns)
  then show ?thesis using False 1(1) 2(1) 3(1) by (simp add: adapt_target_angle_def m_def)
qed (simp add: adapt_target_angle_def)

end
