(* ===== verification/TrackSweep.thy ===== *)
theory TrackSweep
  imports TrackProps
begin

text \<open>
  Every loop of the tracker takes a reading in each turn (the interpretations of
  \<open>turning\<close>), the gradient search is bounded, a sweep finds the strongest signal and the
  antenna goes back to it.
\<close>

section \<open>Every turn takes a reading\<close>

lemma steadyD: "steady m \<Longrightarrow> m s = Inr (x, s') \<Longrightarrow> length (feed s') \<le> length (feed s)"
  by (simp add: steady_def)

lemma degree_takes: "APP_CurrDegree_Get_FP n s = Inr (x, s') \<Longrightarrow> length (feed s') < length (feed s)"
  by (auto simp: APP_CurrDegree_Get_FP_def bind_io_Inr observe_Inr get_io_def set_sta_def)

lemma read_corner_takes: "read_corner m s = Inr (x, s') \<Longrightarrow> steady m \<Longrightarrow> length (feed s') < length (feed s)"
  by (auto simp: read_corner_def bind_io_Inr dest!: degree_takes dest: steadyD)

lemma triangle_takes: "triangle_turn x s = Inr (Inl y, s') \<Longrightarrow> length (feed s') < length (feed s)"
  by (auto simp: triangle_turn_def bind_io_Inr Let_def split: prod.splits if_splits option.splits
      dest!: read_corner_takes [OF _ steady_ag(2)] steadyD [OF steady_goto])

lemma gradient_takes: "gradient_turn x s = Inr (Inl y, s') \<Longrightarrow> length (feed s') < length (feed s)"
  by (auto simp: gradient_turn_def bind_io_Inr Let_def split: prod.splits if_splits option.splits
      dest!: read_corner_takes [OF _ steady_ag(2)] steadyD [OF steady_goto] steadyD [OF steady_step_along]
        steadyD [OF steady_gradient])

lemma stop_takes: "stop_when_there n d x b s = Inr (r, s') \<Longrightarrow> \<not> b \<Longrightarrow> length (feed s') < length (feed s)"
  by (auto simp: stop_when_there_def ok_then_def bind_io_Inr split: if_splits
      dest!: degree_takes steadyD [OF steady_MotorEnd])

lemma approach_takes:
  assumes "approach a b c d e f x s = Inr (Inl y, s')"
  shows "length (feed s') < length (feed s)"
proof -
  obtain az el pol where x: "x = (az, el, pol)" by (cases x)
  obtain az1 el1 pol1 s1 s2 where s: "stop_when_there 1 a b az s = Inr (Some az1, s1)"
    "stop_when_there 2 c d el s1 = Inr (Some el1, s2)" "stop_when_there 3 e f pol s2 = Inr (Some pol1, s')"
    "\<not> (az \<and> el \<and> pol)"
    using assms by (auto simp: approach_def x bind_io_Inr some_then_Inr split: if_splits option.splits)
  show ?thesis
    using s(4) stop_takes [OF s(1)] stop_takes [OF s(2)] stop_takes [OF s(3)]
      steadyD [OF steady_stop s(1)] steadyD [OF steady_stop s(2)] steadyD [OF steady_stop s(3)] by auto
qed

interpretation aim: turning "approach a b c d e f" for a b c d e f
  by unfold_locales (rule approach_takes)

interpretation tri: turning triangle_turn
  by unfold_locales (rule triangle_takes)

interpretation grad: turning gradient_turn
  by unfold_locales (rule gradient_takes)

section \<open>The gradient search ends\<close>

lemma gradient_steps:
  assumes "gradient_turn (d, c, g, k) s = Inr (Inl (d1, c1, g1, k1), s')"
  shows "k \<le> 30" "k1 = k + 1"
  using assms
  by (auto simp: gradient_turn_def bind_io_Inr Let_def split: prod.splits if_splits option.splits)

lemma gradient_n:
  "unat k \<le> 31 \<Longrightarrow> 32 - unat k \<le> n \<Longrightarrow> 32 - unat k \<le> m
    \<Longrightarrow> loop_n n gradient_turn (d, c, g, k) s = loop_n m gradient_turn (d, c, g, k) s"
proof (induction n arbitrary: m d c g k s)
  case (Suc n)
  then obtain j where m: "m = Suc j" by (cases m) auto
  show ?case
  proof (cases "gradient_turn (d, c, g, k) s")
    case (Inr p)
    obtain r s' where p: "p = (r, s')" by (cases p)
    show ?thesis
    proof (cases r)
      case (Inl y)
      obtain d1 c1 g1 k1 where y: "y = (d1, c1, g1, k1)" by (metis prod.collapse)
      have k: "unat k \<le> 30" "unat k1 = unat k + 1"
        using gradient_steps [of d c g k s d1 c1 g1 k1 s'] Inr p Inl y
        by (auto simp: word_le_nat_alt unat_word_ariths)
      have "loop_n n gradient_turn y s' = loop_n j gradient_turn y s'"
        unfolding y by (rule Suc.IH) (use k Suc.prems m in auto)
      then show ?thesis using Inr p Inl by (simp add: m)
    next
      case r: (Inr z)
      then show ?thesis using Inr p by (simp add: m)
    qed
  qed (simp add: m)
qed simp

text \<open>The loop of \<open>APP_Gradient_Track\<close> ends after at most 32 turns.\<close>

theorem gradient_search_bounded:
  "loop gradient_turn (d, new, delta, 0) s = loop_n 32 gradient_turn (d, new, delta, 0) s"
proof (cases "length (feed s) < 32")
  case True
  then show ?thesis unfolding loop_def by (intro grad.loop_n_enough) simp_all
next
  case False
  then show ?thesis unfolding loop_def by (intro gradient_n) simp_all
qed

section \<open>A sweep finds the strongest signal\<close>

text \<open>The readings that are left when the descent to \<open>lo\<close> has ended: it takes readings up to the first that is not a hundredth of
  a degree or more above \<open>lo\<close>. The samples of the ascent to \<open>hi\<close>: pairs of an angle and the power read after it, up to the first
  angle that is less than a hundredth of a degree below \<open>hi\<close>.\<close>

fun after_descent :: "u8 \<Rightarrow> fp32 \<Rightarrow> snapshot list \<Rightarrow> snapshot list" where
  "after_descent n lo [] = []"
| "after_descent n lo (v # vs) = (if APP_GE (seen n v) lo ACCEPTENCE_DOMAIN then after_descent n lo vs else vs)"

fun ascent :: "u8 \<Rightarrow> fp32 \<Rightarrow> snapshot list \<Rightarrow> (fp32 \<times> fp32) list" where
  "ascent n hi (v # w # vs) =
     (seen n v, f32 (seen_mv w / 1000)) # (if APP_GE hi (seen n v) ACCEPTENCE_DOMAIN then ascent n hi vs else [])"
| "ascent n hi _ = []"

fun strongest :: "fp32 \<times> fp32 \<Rightarrow> (fp32 \<times> fp32) list \<Rightarrow> fp32 \<times> fp32" where
  "strongest (b, p) [] = (b, p)"
| "strongest (b, p) ((x, q) # sm) = strongest (if p \<le> q then (x, q) else (b, p)) sm"

lemma strongest_max:
  "strongest (b, p) sm = (b1, p1) \<Longrightarrow> p \<le> p1 \<and> (\<forall>(x, q)\<in>set sm. q \<le> p1)
    \<and> ((b1, p1) \<in> set sm \<or> (b1, p1) = (b, p) \<and> (\<forall>(x, q)\<in>set sm. q < p))"
  by (induction "(b, p)" sm arbitrary: b p rule: strongest.induct) (fastforce split: if_splits)+

lemma degree_Inr: "APP_CurrDegree_Get_FP n s = Inr (x, s') \<longleftrightarrow>
    (\<exists>v vs. feed s = v # vs \<and> x = seen n v \<and> observe s = Inr ((), s') \<and> feed s' = vs)"
  by (auto simp: APP_CurrDegree_Get_FP_def bind_io_Inr observe_Inr get_io_def set_sta_def degree_of_def seen_def
      sta_def upd_sta_def)

lemma power_Inr: "APP_Power_Get s = Inr (x, s') \<longleftrightarrow>
    (\<exists>v vs. feed s = v # vs \<and> x = f32 (seen_mv v / 1000) \<and> observe s = Inr ((), s') \<and> feed s' = vs)"
  by (auto simp: APP_Power_Get_def bind_io_Inr observe_Inr get_io_def set_sta_def sta_def upd_sta_def)

lemma sweep_turn:
  assumes "sweep_body n bound (f32 p, b) s = Inr (r, s')"
  obtains v w vs b1 q where "feed s = v # w # vs" "feed s' = vs" "moves s' = moves s"
    "(b1, f32 q) = (if f32 p \<le> f32 (seen_mv w / 1000) then (seen n v, f32 (seen_mv w / 1000)) else (b, f32 p))"
    "r = (if APP_GE bound (seen n v) ACCEPTENCE_DOMAIN then Inl (f32 q, b1) else Inr (seen n v, f32 q, b1))"
proof -
  obtain v w vs s1 where v: "feed s = v # w # vs" "feed s' = vs" "observe s = Inr ((), s1)" "observe s1 = Inr ((), s')"
    "r = (let p0 = f32 (seen_mv w / 1000); p1 = (if APP_GE p0 (f32 p) 0 then p0 else f32 p);
            b1 = (if APP_GE p0 (f32 p) 0 then seen n v else b)
          in if APP_GE bound (seen n v) ACCEPTENCE_DOMAIN then Inl (p1, b1) else Inr (seen n v, p1, b1))"
    using assms by (auto simp: sweep_body_def bind_io_Inr degree_Inr power_Inr Let_def)
  have "moves s' = moves s" using v(3,4) by (auto simp: observe_Inr)
  moreover have "APP_GE (f32 x) (f32 p) 0 \<longleftrightarrow> f32 p \<le> f32 x" for x by (simp add: APP_GE_def f32_diff_sign)
  ultimately show thesis
    using that [of v w vs "if f32 p \<le> f32 (seen_mv w / 1000) then seen n v else b"
        "if f32 p \<le> f32 (seen_mv w / 1000) then seen_mv w / 1000 else p"] v
    by (simp add: Let_def)
qed

interpretation sweep: turning "sweep_body n b" for n b
  by unfold_locales (auto simp: sweep_body_def bind_io_Inr degree_Inr power_Inr Let_def split: prod.splits)

lemma sweep_loop:
  "loop_n m (sweep_body n bound) (f32 p, b) s = Inr ((x, q, best), s') \<Longrightarrow>
    let sm = ascent n bound (feed s) in sm \<noteq> [] \<and> strongest (b, f32 p) sm = (best, q) \<and> x = fst (last sm)
      \<and> moves s' = moves s"
proof (induction m arbitrary: p b s)
  case (Suc m)
  obtain r s1 where r: "sweep_body n bound (f32 p, b) s = Inr (r, s1)"
    "(case r of Inl y \<Rightarrow> loop_n m (sweep_body n bound) y | Inr z \<Rightarrow> ret_io z) s1 = Inr ((x, q, best), s')"
    using Suc.prems by (auto simp: bind_io_Inr)
  obtain v w vs b1 q1 where v: "feed s = v # w # vs" "feed s1 = vs" "moves s1 = moves s"
    "(b1, f32 q1) = (if f32 p \<le> f32 (seen_mv w / 1000) then (seen n v, f32 (seen_mv w / 1000)) else (b, f32 p))"
    "r = (if APP_GE bound (seen n v) ACCEPTENCE_DOMAIN then Inl (f32 q1, b1) else Inr (seen n v, f32 q1, b1))"
    using r(1) by (rule sweep_turn)
  show ?case
  proof (cases "APP_GE bound (seen n v) ACCEPTENCE_DOMAIN")
    case True
    then have "loop_n m (sweep_body n bound) (f32 q1, b1) s1 = Inr ((x, q, best), s')" using r(2) v(5) by simp
    from Suc.IH [OF this] show ?thesis using v(1-4) True by (simp add: Let_def)
  next
    case False
    then have "(x, q, best) = (seen n v, f32 q1, b1)" "s' = s1" using r(2) v(5) by simp_all
    then show ?thesis using v False by (simp add: Let_def)
  qed
qed simp

text \<open>The commands of the link change nothing in the current state but the moves.\<close>

lemma start_only_moves: "Antenna_DriveStart n d p = Inr (r, p') \<Longrightarrow>
    \<exists>mm. ACUCurrSta (dev p') = (ACUCurrSta (dev p))\<lparr>motor_move := mm\<rparr>"
  by (auto simp: Antenna_DriveStart_def Motor_DriveStart_def Let_def bind_io_Inr sem_pend_def
      send_command_def await_reply_def take_reply_def link_stat_def upd_info_def set_motor_move_def upd_sta_def
      sem_post_def split: if_splits list.splits option.splits)
    (auto intro: exI [of _ "motor_move (ACUCurrSta (dev p))"])

lemma end_only_moves: "Antenna_DriveEnd n d p = Inr (r, p') \<Longrightarrow>
    \<exists>mm. ACUCurrSta (dev p') = (ACUCurrSta (dev p))\<lparr>motor_move := mm\<rparr>"
  by (auto simp: Antenna_DriveEnd_def Motor_DriveEnd_def Let_def bind_io_Inr sem_pend_def
      send_command_def await_reply_def take_reply_def link_stat_def upd_info_def set_motor_move_def upd_sta_def
      sem_post_def split: if_splits list.splits option.splits)
    (auto intro: exI [of _ "motor_move (ACUCurrSta (dev p))"])

definition same_angles :: "trk \<Rightarrow> trk \<Rightarrow> bool" where
  "same_angles s s' \<longleftrightarrow> feed s' = feed s \<and> (\<forall>n. degree_of n (sta s') = degree_of n (sta s))"

lemma on_pdu_angles:
  assumes "on_pdu m s = Inr (r, s')"
    and "\<And>p r p'. m p = Inr (r, p') \<Longrightarrow> \<exists>mm. ACUCurrSta (dev p') = (ACUCurrSta (dev p))\<lparr>motor_move := mm\<rparr>"
  shows "same_angles s s'"
  using assms(1) assms(2) [of "base s"] by (fastforce simp: on_pdu_Inr same_angles_def sta_def degree_of_def)

lemma retry_angles:
  assumes "bind_io (on_pdu m) (\<lambda>r. if r = FAIL then on_pdu m else ret_io SUCC) s = Inr (r, s')"
    and "\<And>p r p'. m p = Inr (r, p') \<Longrightarrow> \<exists>mm. ACUCurrSta (dev p') = (ACUCurrSta (dev p))\<lparr>motor_move := mm\<rparr>"
  shows "same_angles s s'"
proof -
  obtain r1 s1 where 1: "on_pdu m s = Inr (r1, s1)"
    "(if r1 = FAIL then on_pdu m else ret_io SUCC) s1 = Inr (r, s')"
    using assms(1) by (auto simp: bind_io_Inr)
  note a = on_pdu_angles [where m = m, OF _ assms(2)]
  show ?thesis
  proof (cases r1)
    case SUCC
    then show ?thesis using a [OF 1(1)] 1(2) by simp
  next
    case FAIL
    then have "same_angles s1 s'" using 1(2) a by simp
    then show ?thesis using a [OF 1(1)] by (simp add: same_angles_def)
  qed
qed

lemma MotorStart_angles: "APP_MotorStart n d s = Inr (r, s') \<Longrightarrow> same_angles s s'"
  unfolding APP_MotorStart_def by (erule retry_angles) (rule start_only_moves)

lemma MotorEnd_angles: "APP_MotorEnd n d s = Inr (r, s') \<Longrightarrow> same_angles s s'"
  unfolding APP_MotorEnd_def by (erule retry_angles) (rule end_only_moves)

lemma degree_seen: "APP_CurrDegree_Get_FP n s = Inr (x, s') \<Longrightarrow> degree_of n (sta s') = x"
  by (auto simp: APP_CurrDegree_Get_FP_def bind_io_Inr get_io_def)

lemma ok_then_Inr: "ok_then m k s = Inr (Some y, s') \<longleftrightarrow> (\<exists>s1. m s = Inr (SUCC, s1) \<and> k s1 = Inr (Some y, s'))"
  by (auto simp: ok_then_def bind_io_Inr split: if_splits)

lemma descent_loop:
  "loop_n m (\<lambda>_. bind_io (APP_CurrDegree_Get_FP n) (\<lambda>x. ret_io (if APP_GE x bound ACCEPTENCE_DOMAIN then Inl () else Inr x))) u s
      = Inr (x, s') \<Longrightarrow>
    feed s' = after_descent n bound (feed s) \<and> moves s' = moves s \<and> \<not> APP_GE (degree_of n (sta s')) bound ACCEPTENCE_DOMAIN"
proof (induction m arbitrary: u s)
  case (Suc m)
  obtain y s1 where y: "APP_CurrDegree_Get_FP n s = Inr (y, s1)"
    and r: "(case if APP_GE y bound ACCEPTENCE_DOMAIN then Inl () else Inr y of
        Inl z \<Rightarrow> loop_n m (\<lambda>_. bind_io (APP_CurrDegree_Get_FP n) (\<lambda>x. ret_io (if APP_GE x bound ACCEPTENCE_DOMAIN then Inl () else Inr x))) z
      | Inr z \<Rightarrow> ret_io z) s1 = Inr (x, s')"
    using Suc.prems by (auto simp: bind_io_Inr)
  obtain v vs where v: "feed s = v # vs" "y = seen n v" "feed s1 = vs" using y by (auto simp: degree_Inr)
  show ?case
  proof (cases "APP_GE y bound ACCEPTENCE_DOMAIN")
    case True
    then show ?thesis using Suc.IH [of "()" s1] r v degree_moves [OF y] by simp
  next
    case False
    then show ?thesis using r v degree_moves [OF y] degree_seen [OF y] by (simp add: ret_io_def)
  qed
qed simp

lemma down_to_effect:
  assumes "down_to n bound s = Inr (Some (), s')" "is_part n"
  shows "\<not> APP_GE (degree_of n (sta s')) bound ACCEPTENCE_DOMAIN" "feed s' = after_descent n bound (feed s)"
    "length (moves s) = 3 \<longrightarrow> length (moves s') = 3 \<and> moves s' ! (unat n - 1) = 0"
proof -
  obtain s1 x s2 where s: "APP_MotorStart n 1 s = Inr (SUCC, s1)" "drive_down n bound s1 = Inr (x, s2)"
    "APP_MotorEnd n 1 s2 = Inr (SUCC, s')"
    using assms(1) by (auto simp: down_to_def ok_then_Inr bind_io_Inr)
  note a1 = MotorStart_angles [OF s(1)] MotorStart_length [OF s(1)]
    and a3 = MotorEnd_angles [OF s(3)] MotorEnd_effect [OF s(3) assms(2)]
  note l = descent_loop [OF s(2) [unfolded drive_down_def loop_def]]
  show "\<not> APP_GE (degree_of n (sta s')) bound ACCEPTENCE_DOMAIN" "feed s' = after_descent n bound (feed s)"
    "length (moves s) = 3 \<longrightarrow> length (moves s') = 3 \<and> moves s' ! (unat n - 1) = 0"
    using l a1 a3 assms(2) by (auto simp: same_angles_def is_part_def)
qed

lemma up_to_effect:
  assumes "up_to n bound (f32 p, x0) s = Inr (Some (x, q, best), s')" "is_part n"
  shows "let sm = ascent n bound (feed s) in sm \<noteq> [] \<and> strongest (x0, f32 p) sm = (best, q) \<and> x = fst (last sm)"
    "length (moves s) = 3 \<longrightarrow> length (moves s') = 3 \<and> moves s' ! (unat n - 1) = 0"
proof -
  obtain s1 s2 where s: "APP_MotorStart n 2 s = Inr (SUCC, s1)" "sweep_up n bound (f32 p, x0) s1 = Inr ((x, q, best), s2)"
    "APP_MotorEnd n 2 s2 = Inr (SUCC, s')"
    using assms(1) by (auto simp: up_to_def ok_then_Inr bind_io_Inr)
  note a1 = MotorStart_angles [OF s(1)] MotorStart_length [OF s(1)]
    and a3 = MotorEnd_angles [OF s(3)] MotorEnd_effect [OF s(3) assms(2)]
  note l = sweep_loop [OF s(2) [unfolded sweep_up_def loop_def]]
  show "let sm = ascent n bound (feed s) in sm \<noteq> [] \<and> strongest (x0, f32 p) sm = (best, q) \<and> x = fst (last sm)"
    using l a1(1) by (simp add: same_angles_def Let_def)
  show "length (moves s) = 3 \<longrightarrow> length (moves s') = 3 \<and> moves s' ! (unat n - 1) = 0"
    using l a1(2) a3(2) assms(2) by (auto simp: is_part_def Let_def)
qed

text \<open>C15: let \<open>sm\<close> be all samples of the upward sweep of a scan that succeeds: those from the end of the descent to the first angle
  less than a hundredth of a degree below the upper bound. The power that the scan returns is that of one of them, or the one
  it started with if that is stronger than all; none of them is stronger; the antenna was driven to less than a hundredth of a
  degree above the angle of that power, unless the sweep had ended at or below it; and the axis counts as stopped.\<close>

theorem scan_axis_finds_strongest:
  assumes "scan_axis n lo hi (f32 p) x0 s = Inr (Some q, s')" "is_part n" "length (moves s) = 3"
  defines "sm \<equiv> ascent n hi (after_descent n lo (feed s))"
  shows "sm \<noteq> [] \<and> f32 p \<le> q \<and> (\<forall>(x, w)\<in>set sm. w \<le> q)
    \<and> (\<exists>best. ((best, q) \<in> set sm \<or> (best, q) = (x0, f32 p) \<and> (\<forall>(x, w)\<in>set sm. w < f32 p))
        \<and> (\<not> APP_GE (degree_of n (sta s')) best ACCEPTENCE_DOMAIN \<or> APP_GE best (fst (last sm)) 0))
    \<and> moves s' ! (unat n - 1) = 0"
proof -
  obtain s1 x best s2 where s: "down_to n lo s = Inr (Some (), s1)" "up_to n hi (f32 p, x0) s1 = Inr (Some (x, q, best), s2)"
    "(if \<not> APP_GE best x 0 then some_then (down_to n best) (\<lambda>_. ret_io (Some q)) else ret_io (Some q)) s2 = Inr (Some q, s')"
    using assms(1) by (auto simp: scan_axis_def some_then_Inr split: if_splits)
  have m1: "length (moves s1) = 3" using down_to_effect(3) [OF s(1) assms(2)] assms(3) by simp
  have k: "sm \<noteq> []" "strongest (x0, f32 p) sm = (best, q)" "x = fst (last sm)"
    using up_to_effect(1) [OF s(2) assms(2)] unfolding down_to_effect(2) [OF s(1) assms(2)] sm_def by (simp_all add: Let_def)
  have m2: "length (moves s2) = 3" "moves s2 ! (unat n - 1) = 0"
    using up_to_effect(2) [OF s(2) assms(2)] m1 by simp_all
  have "(\<not> APP_GE (degree_of n (sta s')) best ACCEPTENCE_DOMAIN \<or> APP_GE best x 0) \<and> moves s' ! (unat n - 1) = 0"
  proof (cases "APP_GE best x 0")
    case True
    then show ?thesis using s(3) m2 by simp
  next
    case False
    then have "down_to n best s2 = Inr (Some (), s')" using s(3) by (auto simp: some_then_Inr)
    from down_to_effect [OF this assms(2)] show ?thesis using m2 by simp
  qed
  then show ?thesis using strongest_max [OF k(2)] k(1,3) by blast
qed

end
