(* ===== verification/TrackFaults.thy ===== *)
theory TrackFaults
  imports TrackSweep ParamLaws
begin

text \<open>
  Two ways in which driving to an angle goes wrong: an encoder that stops short, and a motor
  that does not start. Then the witnesses of the tracker's properties, on an antenna that
  stands still and a drive unit that acknowledges or is silent.
\<close>

section \<open>Two ways of going wrong\<close>

definition after :: "snapshot \<Rightarrow> snapshot list \<Rightarrow> trk \<Rightarrow> trk" where
  "after v vs s = set_sta (\<lambda>c. c\<lparr>antenna_position := seen_position v, antenna_cabrage := seen_cabrage v,
     antenna_polar := seen_polar v, beacon_rxpower_mv := seen_mv v\<rparr>) (s\<lparr>feed := vs\<rparr>)"

lemma read_after: "feed s = v # vs \<Longrightarrow> APP_CurrDegree_Get_FP n s = Inr (seen n v, after v vs s)"
  by (simp add: APP_CurrDegree_Get_FP_def observe_def get_io_def after_def set_sta_def sta_def upd_sta_def
      degree_of_def seen_def bind_io_def)

lemma after_simps [simp]:
  "feed (after v vs s) = vs" "moves (after v vs s) = moves s" "link_ok (base (after v vs s)) = link_ok (base s)"
  "link_free (base (after v vs s)) = link_free (base s)" "replies (base (after v vs s)) = replies (base s)"
  "sent (base (after v vs s)) = sent (base s)" "ACUParam (dev (base (after v vs s))) = ACUParam (dev (base s))"
  "antenna_position (ACUCurrSta (dev (base (after v vs s)))) = seen_position v"
  by (simp_all add: after_def set_sta_def upd_sta_def link_ok_def link_free_def moves_def moving_def)

text \<open>A drive towards a target within the limits is never refused by them.\<close>

lemma towards_not_refused:
  assumes "motor_position_start a \<le> t" "t \<le> motor_position_end a" "\<not> there (dir_to x t) x t"
    "AntennaParam (ACUParam d) = a" "antenna_position (ACUCurrSta d) = x"
  shows "\<not> soft_limit_refuses d 1 (dir_to x t)"
proof -
  have acc: "0 \<le> ACCEPTENCE_DOMAIN" by (simp add: ACCEPTENCE_DOMAIN_def fround_nonneg)
  have "x \<noteq> t" using assms(3) acc by (auto simp: there_def APP_LE_def)
  moreover have "x < t" if "dir_to x t = 2"
    using that fround_nonneg [of "x - t" 53 "-1074"]
    by (cases "t \<le> x") (auto simp: dir_to_def APP_GE_def split: if_splits)
  moreover have "t < x" if "dir_to x t = 1"
  proof (rule ccontr)
    assume "\<not> t < x"
    then have "f64 (x - t) \<le> 0" by (simp add: fround_nonpos)
    then show False using assms(3) acc that by (simp add: there_def APP_LE_def)
  qed
  moreover have "dir_to x t = 1 \<or> dir_to x t = 2" by (simp add: dir_to_def)
  ultimately show ?thesis using assms(1,2,4,5) by (auto simp: soft_limit_refuses_def Let_def)
qed

lemma drive_started:
  assumes "link_ok p" "is_part n" "\<not> soft_limit_refuses (dev p) n d" "d = 1 \<or> d = 2"
    and r: "replies p = Some r # rs" "4 \<le> length r" "acks r 1"
  obtains p' where "Antenna_DriveStart n d p = Inr (SUCC, p')" "link_ok p'" "replies p' = rs"
    "moving p' = (moving p)[unat n - 1 := d]"
    "\<exists>m. sent p' = sent p @ [[0xBC, 5, 4, 1, 2, n, m, 0xBC + 5 + 4 + 1 + 2 + n + m, 0xCB]]"
proof -
  have "link_free p" "length r \<le> 32" using assms(1) r(1) by (simp_all add: link_ok_def)
  from drive_start_effect [OF this(1) assms(2,4,3) r(1,2) this(2)] r(3)
  obtain p' where p': "Antenna_DriveStart n d p = Inr (SUCC, p')" "replies p' = rs"
    "moving p' = (moving p)[unat n - 1 := d]"
    "\<exists>m. sent p' = sent p @ [[0xBC, 5, 4, 1, 2, n, m, 0xBC + 5 + 4 + 1 + 2 + n + m, 0xCB]]"
    by auto
  then show thesis using that link_ok_start [OF assms(1), of n d] by auto
qed

lemma frozen_loop:
  assumes "feed s = replicate k v" "\<not> there d (seen_position v) t"
  shows "loop_n m (approach d t d2 t2 d3 t3) (False, True, True) s = Inl Unfinished"
  using assms(1)
proof (induction m arbitrary: k s)
  case (Suc m)
  show ?case
  proof (cases k)
    case 0
    then show ?thesis using Suc.prems
      by (simp add: approach_def some_then_def stop_when_there_def APP_CurrDegree_Get_FP_def observe_def bind_io_def)
  next
    case (Suc j)
    then have "APP_CurrDegree_Get_FP 1 s = Inr (seen_position v, after v (replicate j v) s)"
      using Suc.prems read_after [of s v "replicate j v" 1] by (simp add: seen_def)
    then have "approach d t d2 t2 d3 t3 (False, True, True) s = Inr (Inl (False, True, True), after v (replicate j v) s)"
      using assms(2) by (simp add: approach_def some_then_def stop_when_there_def ret_io_def)
    then show ?thesis using Suc.IH [of "after v (replicate j v) s" j] by simp
  qed
qed simp

text \<open>There is no timeout: if the encoder keeps reporting a position short of the target,
  \<open>adapt_target_angle\<close> is still running at the end of a trace of any length, with the motor
  started.\<close>

theorem frozen_reading_never_returns:
  assumes "feed s = replicate k v" "\<not> there (dir_to (seen_position v) tAz) (seen_position v) tAz"
    and "\<not> out_of_range s tAz tEl tPol True" "link_ok (base s)"
    and r: "replies (base s) = Some r # rs" "4 \<le> length r" "acks r 1"
  shows "adapt_target_angle tAz tEl tPol False True True s = Inl Unfinished"
proof (cases "3 \<le> k")
  case True
  then obtain j where k: "k = Suc (Suc (Suc j))" by (metis Suc_le_D eval_nat_numeral(3) numeral_2_eq_2 Suc_le_mono)
  define s1 s2 s3 where "s1 = after v (replicate (Suc (Suc j)) v) s" "s2 = after v (replicate (Suc j) v) s1"
    "s3 = after v (replicate j v) s2"
  have d: "APP_CurrDegree_Get_FP 1 s = Inr (seen_position v, s1)" "APP_CurrDegree_Get_FP 2 s1 = Inr (seen_cabrage v, s2)"
    "APP_CurrDegree_Get_FP 3 s2 = Inr (seen_polar v, s3)"
    using assms(1) by (simp_all add: read_after k s1_s2_s3_def seen_def)
  let ?d = "dir_to (seen_position v) tAz"
  have "\<not> soft_limit_refuses (dev (base s3)) 1 ?d"
    using assms(2,3) by (intro towards_not_refused) (auto simp: s1_s2_s3_def out_of_range_def par_def Let_def)
  moreover have "link_ok (base s3)" "replies (base s3) = Some r # rs" "is_part 1" "?d = 1 \<or> ?d = 2"
    using assms(4) r(1) by (simp_all add: s1_s2_s3_def is_part_def dir_to_def)
  ultimately obtain p where "Antenna_DriveStart 1 ?d (base s3) = Inr (SUCC, p)"
    using drive_started [of "base s3" 1 ?d r rs] r(2,3) by blast
  then have "APP_MotorStart 1 ?d s3 = Inr (SUCC, s3\<lparr>base := p\<rparr>)"
    by (simp add: APP_MotorStart_def on_pdu_def bind_io_def ret_io_def)
  moreover have "feed (s3\<lparr>base := p\<rparr>) = replicate j v" by (simp add: s1_s2_s3_def)
  ultimately show ?thesis
    using assms(3) d frozen_loop [OF _ assms(2)]
    by (simp add: adapt_target_angle_def start_unless_def ok_then_def loop_def del: loop_n.simps)
next
  case False
  then consider "k = 0" | "k = 1" | "k = 2" by linarith
  then show ?thesis
    using assms(1,3)
    by cases (auto simp: adapt_target_angle_def read_after APP_CurrDegree_Get_FP_def observe_def bind_io_def
        get_io_def numeral_2_eq_2)
qed

lemma timeout_fails:
  assumes "link_ok p" "replies p = []" "is_part n"
  shows "\<exists>p' fs. Antenna_DriveStart n d p = Inr (FAIL, p') \<and> link_ok p' \<and> moving p' = moving p
    \<and> replies p' = [] \<and> sent p' = sent p @ fs \<and> (\<forall>f\<in>set fs. f ! 3 = 1)"
proof (cases "soft_limit_refuses (dev p) n d \<or> d \<noteq> 1 \<and> d \<noteq> 2")
  case True
  then show ?thesis using assms by (intro exI [of _ p] exI [of _ "[]"]) (auto simp: Antenna_DriveStart_def)
next
  case False
  then show ?thesis
    using assms
    by (auto simp: link_ok_def link_free_def Antenna_DriveStart_def Motor_DriveStart_def Let_def bind_io_def
        sem_pend_def send_command_def await_reply_def modify_def ret_io_def sem_post_def link_stat_def
        upd_info_def moving_def)
qed

lemma timeout_fails_twice:
  assumes "link_ok (base s)" "replies (base s) = []" "is_part n"
  shows "\<exists>s' fs. APP_MotorStart n d s = Inr (FAIL, s') \<and> moves s' = moves s
    \<and> sent (base s') = sent (base s) @ fs \<and> (\<forall>f\<in>set fs. f ! 3 = 1)"
proof -
  obtain p1 f1 where 1: "Antenna_DriveStart n d (base s) = Inr (FAIL, p1)" "link_ok p1" "moving p1 = moving (base s)"
    "replies p1 = []" "sent p1 = sent (base s) @ f1" "\<forall>f\<in>set f1. f ! 3 = 1"
    using timeout_fails [OF assms] by blast
  obtain p2 f2 where 2: "Antenna_DriveStart n d p1 = Inr (FAIL, p2)" "moving p2 = moving p1"
    "sent p2 = sent p1 @ f2" "\<forall>f\<in>set f2. f ! 3 = 1"
    using timeout_fails [OF 1(2,4) assms(3)] by blast
  show ?thesis
    using 1 2
    by (intro exI [of _ "s\<lparr>base := p2\<rparr>"] exI [of _ "f1 @ f2"])
      (auto simp: APP_MotorStart_def on_pdu_def bind_io_def moves_def)
qed

text \<open>If the azimuth motor starts and the elevation motor cannot be started,
  \<open>adapt_target_angle\<close> fails with the azimuth counted as moving and without having sent any
  stop command (the fourth byte of every frame sent is that of a start).\<close>

theorem failed_start_leaves_motor_running:
  assumes "feed s = v # v # v # vs" "\<not> there (dir_to (seen_position v) tAz) (seen_position v) tAz"
    and "\<not> out_of_range s tAz tEl tPol sPol" "link_ok (base s)" "length (moves s) = 3"
    and r: "replies (base s) = [Some r]" "4 \<le> length r" "acks r 1"
  shows "\<exists>s' fs. adapt_target_angle tAz tEl tPol False False sPol s = Inr (None, s')
    \<and> moves s' ! 0 = dir_to (seen_position v) tAz \<and> sent (base s') = sent (base s) @ fs
    \<and> (\<forall>f\<in>set fs. f ! 3 = 1)"
proof -
  define s1 s2 s3 where "s1 = after v (v # v # vs) s" "s2 = after v (v # vs) s1" "s3 = after v vs s2"
  have d: "APP_CurrDegree_Get_FP 1 s = Inr (seen_position v, s1)" "APP_CurrDegree_Get_FP 2 s1 = Inr (seen_cabrage v, s2)"
    "APP_CurrDegree_Get_FP 3 s2 = Inr (seen_polar v, s3)"
    using assms(1) by (simp_all add: read_after s1_s2_s3_def seen_def)
  let ?d = "dir_to (seen_position v) tAz"
  have "\<not> soft_limit_refuses (dev (base s3)) 1 ?d"
    using assms(2,3) by (intro towards_not_refused) (auto simp: s1_s2_s3_def out_of_range_def par_def Let_def)
  moreover have "link_ok (base s3)" "replies (base s3) = [Some r]" "is_part 1" "?d = 1 \<or> ?d = 2"
    using assms(4) r(1) by (simp_all add: s1_s2_s3_def is_part_def dir_to_def)
  ultimately obtain p where p: "Antenna_DriveStart 1 ?d (base s3) = Inr (SUCC, p)" "link_ok p" "replies p = []"
    "moving p = (moving (base s3))[0 := ?d]" "\<exists>m. sent p = sent (base s3) @ [[0xBC, 5, 4, 1, 2, 1, m, 0xBC + 5 + 4 + 1 + 2 + 1 + m, 0xCB]]"
    using drive_started [of "base s3" 1 ?d r "[]"] r(2,3) by auto
  have st: "APP_MotorStart 1 ?d s3 = Inr (SUCC, s3\<lparr>base := p\<rparr>)"
    using p(1) by (simp add: APP_MotorStart_def on_pdu_def bind_io_def ret_io_def)
  have pt: "link_ok (base (s3\<lparr>base := p\<rparr>))" "replies (base (s3\<lparr>base := p\<rparr>)) = []" "is_part 2"
    using p(2,3) by (simp_all add: is_part_def)
  obtain s4 fs where s4: "APP_MotorStart 2 (dir_to (seen_cabrage v) tEl) (s3\<lparr>base := p\<rparr>) = Inr (FAIL, s4)" "moves s4 = moving p"
    "sent (base s4) = sent p @ fs" "\<forall>f\<in>set fs. f ! 3 = 1"
    using timeout_fails_twice [OF pt, of "dir_to (seen_cabrage v) tEl"] by auto
  have "length (moving (base s3)) = 3" using assms(5) by (simp add: s1_s2_s3_def moves_def [symmetric])
  then have m: "moves s4 ! 0 = ?d" using s4(2) p(4) by simp
  obtain f1 where f1: "sent p = sent (base s) @ [f1]" "f1 ! 3 = 1" using p(5) by (auto simp: s1_s2_s3_def)
  have "adapt_target_angle tAz tEl tPol False False sPol s = Inr (None, s4)"
    using assms(3) d st s4(1) by (simp add: adapt_target_angle_def start_unless_def ok_then_def ret_io_def)
  then show ?thesis using m s4(3,4) f1 by (intro exI [of _ s4] exI [of _ "f1 # fs"]) auto
qed

section \<open>Witnesses\<close>

text \<open>An antenna that may turn from 0 to 90 on every axis, at an idle link.\<close>

definition demo :: "snapshot list \<Rightarrow> bytes option list \<Rightarrow> trk" where
  "demo f rs = \<lparr>base = upd_sta (\<lambda>c. c\<lparr>history_max_mv := 5000, antenna_position := 10\<rparr>) (upd_param (\<lambda>p. p\<lparr>AntennaParam := (AntennaParam p)\<lparr>
       motor_position_end := 90, motor_cabrage_end := 90, motor_polar_end := 90\<rparr>\<rparr>) (idle_link rs)),
     ee = fresh_board, feed = f, rainFlag = 0, follow_log = [], follow_ret = (\<lambda>n. SUCC), stack_addr = 0\<rparr>"

definition demo_at :: "fp32 \<Rightarrow> fp32 \<Rightarrow> fp32 \<Rightarrow> snapshot" where
  "demo_at a e p = \<lparr>seen_position = a, seen_cabrage = e, seen_polar = p, seen_mv = 0\<rparr>"

abbreviation (input) ack_start :: bytes where "ack_start \<equiv> [0xBC, 3, 0x84, 1, 0, 0x44, 0xCB]"
abbreviation (input) ack_stop :: bytes where "ack_stop \<equiv> [0xBC, 3, 0x84, 2, 0, 0x45, 0xCB]"

lemma ACC_pos: "0 < ACCEPTENCE_DOMAIN" "0 \<le> ACCEPTENCE_DOMAIN" "ACCEPTENCE_DOMAIN < 10"
proof -
  have "\<bar>f32 (1 / 100) - 1 / 100\<bar> \<le> 1 / 100 / 16777216" by (rule f32_error) simp
  then show "0 < ACCEPTENCE_DOMAIN" "0 \<le> ACCEPTENCE_DOMAIN" "ACCEPTENCE_DOMAIN < 10"
    unfolding ACCEPTENCE_DOMAIN_def abs_le_iff by linarith+
qed

lemma demo_sel [simp]:
  "feed (demo f rs) = f" "link_free (base (demo f rs))" "replies (base (demo f rs)) = rs"
  "moves (demo f rs) = [0, 0, 0]" "length (moves (demo f rs)) = 3"
  by (simp_all add: demo_def moves_def moving_def upd_sta_def upd_param_def idle_link_def link_free_def
      zero_strACUDevInfo_def zero_strACUCurrSta_def numeral_3_eq_3)

lemma demo_link_ok: "(\<forall>r. Some r \<in> set rs \<longrightarrow> length r \<le> 32) \<Longrightarrow> link_ok (base (demo f rs))"
  by (simp add: link_ok_def)

lemma demo_range: "out_of_range (demo f rs) a e p b \<longleftrightarrow>
    \<not> (0 \<le> a \<and> a \<le> 90 \<and> 0 \<le> e \<and> e \<le> 90 \<and> (b \<or> 0 \<le> p \<and> p \<le> 90))"
  by (auto simp: out_of_range_def par_def demo_def upd_sta_def upd_param_def idle_link_def Let_def
      zero_strACUDevInfo_def zero_strACUSeekSatParam_def zero_strAntennaParam_def)

lemma not_there_10: "dir_to 10 20 = 2" "\<not> there 2 10 20"
proof -
  have "f64 (10 - 20) = - 10" "f64 (20 - 10) = 10"
    using fround_int [of "- 10" 53 "-1074"] fround_int [of 10 53 "-1074"] by simp_all
  moreover note ACC_pos(3)
  ultimately show "dir_to 10 20 = 2" "\<not> there 2 10 20"
    by (simp_all add: dir_to_def APP_GE_def there_def APP_LE_def)
qed

theorem adapt_returns_witness:
  "\<exists>r s'. adapt_target_angle 10 20 30 False False False
      (demo (demo_at 0 0 0 # replicate 6 (demo_at 10 20 30)) []) = Inr (r, s')"
proof (rule adapt_returns)
  have "arrived (10, 20, 30) (demo_at 10 20 30)"
    using ACC_pos by (auto simp: arrived_def there_def APP_LE_def seen_def target_def demo_at_def)
  then show "settles (10, 20, 30) 6 (demo (demo_at 0 0 0 # replicate 6 (demo_at 10 20 30)) [])"
    unfolding settles_def
    by (intro exI [of _ "[demo_at 0 0 0]"] exI [of _ "replicate 6 (demo_at 10 20 30)"]) simp
qed (simp add: demo_link_ok)

theorem frozen_reading_never_returns_witness:
  "adapt_target_angle 20 0 0 False True True (demo (replicate 1000 (demo_at 10 0 0)) [Some ack_start]) = Inl Unfinished"
  by (rule frozen_reading_never_returns [of _ 1000 "demo_at 10 0 0" _ _ _ ack_start "[]"])
    (use not_there_10 in \<open>simp_all add: demo_at_def demo_range demo_link_ok acks_def\<close>)

theorem failed_start_witness:
  "\<exists>s'. adapt_target_angle 20 0 0 False False True (demo (replicate 3 (demo_at 10 0 0)) [Some ack_start]) = Inr (None, s')
    \<and> moves s' ! 0 = 2"
  using failed_start_leaves_motor_running [of "demo (replicate 3 (demo_at 10 0 0)) [Some ack_start]" "demo_at 10 0 0" "[]"
      20 0 0 True ack_start] not_there_10
  by (auto simp: demo_at_def demo_range demo_link_ok acks_def numeral_3_eq_3)

lemma drive_stopped:
  assumes "link_ok p" "is_part n" "replies p = Some r # rs" "4 \<le> length r" "acks r 2"
  obtains p' where "Antenna_DriveEnd n d p = Inr (SUCC, p')" "replies p' = rs" "link_ok p'"
proof -
  have c: "copy_over (map (junk p) [0..<32]) r ! 2 = r ! 2" "copy_over (map (junk p) [0..<32]) r ! 3 = r ! 3"
    using assms(4) by (simp_all add: nth_copy_over)
  have "length r \<le> 32" using assms(1,3) by (simp add: link_ok_def)
  then have "\<exists>p'. Antenna_DriveEnd n d p = Inr (SUCC, p') \<and> replies p' = rs"
    using assms c
    by (simp add: link_ok_def link_free_def Antenna_DriveEnd_def Motor_DriveEnd_def bind_io_def
        sem_pend_def send_command_def await_reply_def take_reply_def modify_def ret_io_def acks_def)
  then show thesis using that link_ok_end [OF assms(1), of n d] by auto
qed

lemma start_keeps_param: "Antenna_DriveStart n d p = Inr (r, p') \<Longrightarrow> ACUParam (dev p') = ACUParam (dev p)"
  by (auto simp: Antenna_DriveStart_def Motor_DriveStart_def Let_def bind_io_Inr sem_pend_def
      send_command_def await_reply_def take_reply_def link_stat_def upd_info_def set_motor_move_def upd_sta_def
      sem_post_def split: if_splits list.splits option.splits)

lemma end_keeps_param: "Antenna_DriveEnd n d p = Inr (r, p') \<Longrightarrow> ACUParam (dev p') = ACUParam (dev p)"
  by (auto simp: Antenna_DriveEnd_def Motor_DriveEnd_def Let_def bind_io_Inr sem_pend_def
      send_command_def await_reply_def take_reply_def link_stat_def upd_info_def set_motor_move_def upd_sta_def
      sem_post_def split: if_splits list.splits option.splits)

text \<open>The azimuth of the antenna of \<open>demo\<close> stands at 10 and the drive unit is about to
  answer \<open>rs\<close>.\<close>

definition stands :: "nat \<Rightarrow> bytes option list \<Rightarrow> trk \<Rightarrow> bool" where
  "stands k rs s \<longleftrightarrow> feed s = replicate k (demo_at 10 20 30) \<and> link_ok (base s) \<and> replies (base s) = rs
     \<and> (let a = AntennaParam (par s) in motor_position_start a = 0 \<and> motor_position_end a = 90)
     \<and> antenna_position (sta s) = 10"

lemma stands_demo: "(\<forall>r. Some r \<in> set rs \<longrightarrow> length r \<le> 32) \<Longrightarrow> stands k rs (demo (replicate k (demo_at 10 20 30)) rs)"
  by (simp add: stands_def demo_link_ok demo_def par_def sta_def upd_sta_def upd_param_def idle_link_def Let_def
      zero_strACUDevInfo_def zero_strACUSeekSatParam_def zero_strAntennaParam_def zero_strACUCurrSta_def)
    (simp add: demo_def [symmetric] demo_link_ok link_ok_def link_free_def)

lemma stands_read:
  assumes "stands (Suc k) rs s"
  obtains s' where "APP_CurrDegree_Get_FP n s = Inr (seen n (demo_at 10 20 30), s')" "stands k rs s'" "observe s = Inr ((), s')"
proof -
  let ?v = "demo_at 10 20 30"
  have "APP_CurrDegree_Get_FP n s = Inr (seen n ?v, after ?v (replicate k ?v) s)"
    using assms by (intro read_after) (simp add: stands_def)
  moreover have "stands k rs (after ?v (replicate k ?v) s)"
    using assms by (simp add: stands_def par_def sta_def demo_at_def)
  moreover have "observe s = Inr ((), after ?v (replicate k ?v) s)"
    using assms by (simp add: observe_def stands_def after_def set_sta_def)
  ultimately show thesis using that by blast
qed

lemma stands_read1:
  "stands k rs s \<Longrightarrow> 0 < k \<Longrightarrow>
    \<exists>s'. APP_CurrDegree_Get_FP n s = Inr (seen n (demo_at 10 20 30), s') \<and> stands (k - 1) rs s'"
  by (cases k) (auto elim: stands_read)

lemma stands_start:
  assumes "stands k (Some ack_start # rs) s" "d = 1 \<or> d = 2"
  obtains s' where "APP_MotorStart 1 d s = Inr (SUCC, s')" "stands k rs s'"
proof -
  have n: "\<not> soft_limit_refuses (dev (base s)) 1 d"
    using assms by (auto simp: stands_def soft_limit_refuses_def Let_def par_def sta_def)
  obtain p where p: "Antenna_DriveStart 1 d (base s) = Inr (SUCC, p)" "link_ok p" "replies p = rs"
    using drive_started [OF _ _ n assms(2), of ack_start rs] assms(1) by (auto simp: stands_def is_part_def acks_def)
  moreover have "stands k rs (s\<lparr>base := p\<rparr>)"
    using assms p start_only_moves [OF p(1)] start_keeps_param [OF p(1)] by (auto simp: stands_def par_def sta_def)
  ultimately show thesis using that by (simp add: APP_MotorStart_def on_pdu_def bind_io_def ret_io_def)
qed

lemma stands_stop:
  assumes "stands k (Some ack_stop # rs) s"
  obtains s' where "APP_MotorEnd 1 d s = Inr (SUCC, s')" "stands k rs s'"
proof -
  obtain p where p: "Antenna_DriveEnd 1 d (base s) = Inr (SUCC, p)" "replies p = rs" "link_ok p"
    using drive_stopped [of "base s" 1 ack_stop rs d] assms(1) by (auto simp: stands_def is_part_def acks_def)
  moreover have "stands k rs (s\<lparr>base := p\<rparr>)"
    using assms p end_only_moves [OF p(1)] end_keeps_param [OF p(1)] by (auto simp: stands_def par_def sta_def)
  ultimately show thesis using that by (simp add: APP_MotorEnd_def on_pdu_def bind_io_def ret_io_def)
qed

lemma seen_demo [simp]: "seen n (demo_at a e p) = (if n = 1 then a else if n = 2 then e else p)"
  by (simp add: seen_def demo_at_def)

theorem adapt_success_stops_witness:
  "\<exists>s'. adapt_target_angle 10 20 30 False True True
      (demo (replicate 4 (demo_at 10 20 30)) [Some ack_start, Some ack_stop]) = Inr (Some (), s') \<and> moves s' ! 0 = 0"
proof -
  let ?s = "demo (replicate 4 (demo_at 10 20 30)) [Some ack_start, Some ack_stop]"
  have s0: "stands 4 [Some ack_start, Some ack_stop] ?s" by (rule stands_demo) auto
  obtain s1 where s1: "APP_CurrDegree_Get_FP 1 ?s = Inr (10, s1)" "stands 3 [Some ack_start, Some ack_stop] s1"
    using stands_read [of 3 _ ?s 1] s0 by auto
  obtain s2 where s2: "APP_CurrDegree_Get_FP 2 s1 = Inr (20, s2)" "stands 2 [Some ack_start, Some ack_stop] s2"
    using stands_read [of 2 _ s1 2] s1(2) by auto
  obtain s3 where s3: "APP_CurrDegree_Get_FP 3 s2 = Inr (30, s3)" "stands 1 [Some ack_start, Some ack_stop] s3"
    using stands_read [of 1 _ s2 3] s2(2) by (auto simp: numeral_2_eq_2)
  have d: "dir_to 10 10 = 1" by (simp add: dir_to_def APP_GE_def)
  obtain s4 where s4: "APP_MotorStart 1 1 s3 = Inr (SUCC, s4)" "stands 1 [Some ack_stop] s4"
    using stands_start [OF s3(2), of 1] by auto
  obtain s5 where s5: "APP_CurrDegree_Get_FP 1 s4 = Inr (10, s5)" "stands 0 [Some ack_stop] s5"
    using stands_read [of 0 _ s4 1] s4(2) by auto
  obtain s6 where s6: "APP_MotorEnd 1 1 s5 = Inr (SUCC, s6)" using stands_stop [OF s5(2), of 1] by auto
  have "there 1 10 10" using ACC_pos by (simp add: there_def APP_LE_def)
  then have "approach 1 10 (dir_to 20 20) 20 (dir_to 30 30) 30 (False, True, True) s4 = Inr (Inl (True, True, True), s6)"
    using s5(1) s6 by (simp add: approach_def some_then_def stop_when_there_def ok_then_def ret_io_def)
  then have "loop (approach 1 10 (dir_to 20 20) 20 (dir_to 30 30) 30) (False, True, True) s4 = Inr (Some (), s6)"
    by (simp add: aim.loop_unfold [of _ _ _ _ _ _ "(False, True, True)"] aim.loop_unfold [of _ _ _ _ _ _ "(True, True, True)"])
      (simp add: approach_def ret_io_def)
  then have "adapt_target_angle 10 20 30 False True True ?s = Inr (Some (), s6)"
    using s1(1) s2(1) s3(1) s4(1) d by (simp add: adapt_target_angle_def demo_range start_unless_def ok_then_def)
  from this adapt_success_stops [OF this] show ?thesis by simp
qed

theorem scan_axis_witness:
  "\<exists>s'. scan_axis 1 20 5 (-1) 10 (demo (replicate 3 (demo_at 10 20 30))
      [Some ack_start, Some ack_stop, Some ack_start, Some ack_stop]) = Inr (Some 0, s') \<and> moves s' ! 0 = 0"
proof -
  let ?rs = "[Some ack_start, Some ack_stop, Some ack_start, Some ack_stop]"
  let ?s = "demo (replicate 3 (demo_at 10 20 30)) ?rs"
  have s0: "stands 3 ?rs ?s" by (rule stands_demo) auto
  obtain s1 where s1: "APP_MotorStart 1 1 ?s = Inr (SUCC, s1)" "stands 3 (tl ?rs) s1"
    using stands_start [OF s0, of 1] by auto
  obtain s2 where s2: "APP_CurrDegree_Get_FP 1 s1 = Inr (10, s2)" "stands 2 (tl ?rs) s2"
    using stands_read [of 2 "tl ?rs" s1 1] s1(2) by auto
  obtain s3 where s3: "APP_MotorEnd 1 1 s2 = Inr (SUCC, s3)" "stands 2 (tl (tl ?rs)) s3"
    using stands_stop [of 2 "tl (tl ?rs)" s2 1] s2(2) by auto
  obtain s4 where s4: "APP_MotorStart 1 2 s3 = Inr (SUCC, s4)" "stands 2 [Some ack_stop] s4"
    using stands_start [of 2 "[Some ack_stop]" s3 2] s3(2) by auto
  obtain s5 where s5: "APP_CurrDegree_Get_FP 1 s4 = Inr (10, s5)" "stands 1 [Some ack_stop] s5"
    using stands_read [of 1 _ s4 1] s4(2) by (auto simp: numeral_2_eq_2)
  obtain s6 where s6: "APP_Power_Get s5 = Inr (0, s6)" "stands 0 [Some ack_stop] s6"
  proof -
    obtain s6 where "observe s5 = Inr ((), s6)" "stands 0 [Some ack_stop] s6"
      using stands_read [of 0 "[Some ack_stop]" s5 1] s5(2) by auto
    then show thesis using that s5(2) by (auto simp: power_Inr stands_def demo_at_def observe_Inr set_sta_def)
  qed
  obtain s7 where s7: "APP_MotorEnd 1 2 s6 = Inr (SUCC, s7)" using stands_stop [OF s6(2), of 2] by auto
  have m1: "f32 (- 1) = - 1" "\<not> APP_GE 10 20 ACCEPTENCE_DOMAIN" "\<not> APP_GE 5 10 ACCEPTENCE_DOMAIN"
      "APP_GE 0 (- 1) 0" "APP_GE 10 10 0"
    using fround_int [of "- 1" 24 "-149"] fround_int [of "- 10" 53 "-1074"] fround_int [of "- 5" 53 "-1074"]
      fround_int [of 1 53 "-1074"] ACC_pos by (simp_all add: APP_GE_def)
  have "drive_down 1 20 s1 = Inr (10, s2)" using s2(1) m1(2) by (simp add: drive_down_def loop_def ret_io_def)
  moreover have "sweep_up 1 5 (- 1, 10) s4 = Inr ((10, 0, 10), s6)"
    using s5(1) s6(1) m1 by (simp add: sweep_up_def loop_def sweep_body_def ret_io_def)
  ultimately have "scan_axis 1 20 5 (- 1) 10 ?s = Inr (Some 0, s7)"
    using s1(1) s3(1) s4(1) s7 m1(5)
    by (simp add: scan_axis_def down_to_def up_to_def some_then_def ok_then_def ret_io_def)
  from this scan_axis_finds_strongest [of 1 20 5 "- 1" 10 ?s 0 s7] m1(1) this show ?thesis
    by (auto simp: is_part_def Let_def)
qed

text \<open>A silent drive unit: the tracker finds too little power, starts a cross scan and gives
  up with the first motor.\<close>

lemma stands_power:
  assumes "stands (Suc k) rs s"
  obtains s' where "APP_Power_Get s = Inr (0, s')" "stands k rs s'"
proof -
  obtain s' where "observe s = Inr ((), s')" "stands k rs s'" using stands_read [OF assms, of 1] by auto
  then show thesis using that assms by (auto simp: power_Inr stands_def demo_at_def observe_Inr set_sta_def)
qed

lemma stands_mean: "stands (n + k) rs s \<Longrightarrow> \<exists>s'. mean_loop n c 0 s = Inr (0, s') \<and> stands k rs s'"
proof (induction n arbitrary: s)
  case (Suc n)
  then obtain s1 where "APP_Power_Get s = Inr (0, s1)" "stands (n + k) rs s1"
    using stands_power [of "n + k" rs s] by auto
  then show ?case using Suc.IH by simp
qed (simp add: ret_io_def)

lemma stands_deviation: "stands (n + k) rs s \<Longrightarrow> \<exists>s'. deviation_loop n 0 0 s = Inr (0, s') \<and> stands k rs s'"
proof (induction n arbitrary: s)
  case (Suc n)
  then obtain s1 where "APP_Power_Get s = Inr (0, s1)" "stands (n + k) rs s1"
    using stands_power [of "n + k" rs s] by auto
  then show ?case using Suc.IH by simp
qed (simp add: ret_io_def)

lemma stands_updates [simp]:
  "stands k rs (set_sta (\<lambda>c. c\<lparr>dev_work_sta := w\<rparr>) s) = stands k rs s"
  "stands k rs (set_sta (\<lambda>c. c\<lparr>AGC_max_mv := x\<rparr>) s) = stands k rs s"
  "stands k rs (s\<lparr>rainFlag := r\<rparr>) = stands k rs s" "stands k rs (s\<lparr>follow_log := l\<rparr>) = stands k rs s"
  by (simp_all add: stands_def set_sta_def upd_sta_def par_def sta_def link_ok_def link_free_def)

lemma stands_log:
  assumes "stands k rs s"
  shows "\<exists>r s'. APP_LogFollowSatRecord c s = Inr (r, s') \<and> stands k rs s'"
proof -
  have l: "\<exists>r s'. APP_LOG_FollowSatRecord c t = Inr (r, s') \<and> stands k rs s'" if "stands k rs t" for t
    using that by (simp add: APP_LOG_FollowSatRecord_def Let_def)
  obtain r1 s1 where 1: "APP_LOG_FollowSatRecord c s = Inr (r1, s1)" "stands k rs s1" using l [OF assms] by blast
  show ?thesis
    using 1 l [OF 1(2)] by (cases r1) (auto simp: APP_LogFollowSatRecord_def bind_io_def ret_io_def)
qed

theorem tracking_ends_in_failure_witness:
  "\<exists>s'. APP_Sat_GradientTrack (demo (replicate 200 (demo_at 10 20 30)) []) = Inr (None, s')
    \<and> dev_work_sta (sta s') = 0x30"
proof -
  let ?s = "demo (replicate 200 (demo_at 10 20 30)) []"
  have h: "history_max ?s = 5" "aim_limit ?s = 0"
    using fround_int [of 5 53 "-1074"] fround_int [of 5 24 "-149"]
    by (simp_all add: history_max_def aim_limit_def demo_def sta_def par_def upd_sta_def upd_param_def idle_link_def
        zero_strACUDevInfo_def zero_strACUSeekSatParam_def zero_strSeekSatParam_def)
  have d: "APP_GE 5 0 0" "\<not> APP_NB 0 5 3"
    using fround_int [of 5 53 "-1074"] fround_int [of "- 5" 53 "-1074"] by (simp_all add: APP_GE_def APP_NB_def)
  define s1 where "s1 = set_sta (\<lambda>c. c\<lparr>AGC_max_mv := f32 (f64 (5 * 1000))\<rparr>) ?s\<lparr>rainFlag := 0\<rparr>"
  have 1: "stands 200 [] s1" unfolding s1_def by (simp add: stands_demo)
  obtain s2 where s2: "APP_CurrDegree_Get_FP 1 s1 = Inr (10, s2)" "stands 199 [] s2"
    using stands_read1 [OF 1, of 1] by auto
  obtain s3 where s3: "APP_CurrDegree_Get_FP 2 s2 = Inr (20, s3)" "stands (30 + 168) [] s3"
    using stands_read1 [OF s2(2), of 2] by auto
  obtain s4 where s4: "mean_loop 30 30 0 s3 = Inr (0, s4)" "stands (50 + 118) [] s4"
    using stands_mean [OF s3(2), of 30] by auto
  obtain s5 where s5: "deviation_loop 50 0 0 s4 = Inr (0, s5)" "stands 118 [] s5"
    using stands_deviation [OF s4(2)] by auto
  define s6 where "s6 = set_sta (\<lambda>c. c\<lparr>dev_work_sta := 0x30\<rparr>) s5"
  obtain r7 s7 where s7: "APP_LogFollowSatRecord LOG_PURS_START s6 = Inr (r7, s7)" "stands 118 [] s7"
    using s5(2) stands_log [of 118 "[]" s6 LOG_PURS_START] by (auto simp: s6_def)
  obtain s8 where s8: "APP_CurrDegree_Get_FP 1 s7 = Inr (10, s8)" "stands 117 [] s8"
    using stands_read1 [OF s7(2), of 1] by auto
  obtain s9 where s9: "APP_CurrDegree_Get_FP 2 s8 = Inr (20, s9)" "stands (Suc 115) [] s9"
    using stands_read1 [OF s8(2), of 2] by auto
  obtain s10 where s10: "APP_Power_Get s9 = Inr (0, s10)" "stands 115 [] s10" using stands_power [OF s9(2)] by auto
  have "link_ok (base s10)" "replies (base s10) = []" "is_part 2"
    using s10(2) by (simp_all add: stands_def is_part_def)
  then obtain s11 where "APP_MotorStart 2 1 s10 = Inr (FAIL, s11)" using timeout_fails_twice by blast
  then have c: "scan_axis 2 lo hi p x s10 = Inr (None, s11)" for lo hi p x
    by (simp add: scan_axis_def some_then_def down_to_def ok_then_def ret_io_def)
  have "cross_scan x y s7 = Inr (None, s11)" for x y
    using s8(1) s9(1) s10(1) c by (simp add: cross_scan_def get_io_def some_then_def Let_def ret_io_def)
  then have "APP_DScale_Cross_Scan_Track 0 5 s7 = Inr (None, s11)"
    by (simp add: APP_DScale_Cross_Scan_Track_def get_io_def getScanRadius_def some_then_def ret_io_def)
  then have "regain 5 0 (10, 20, 0) s7 = Inr (None, s11)" using d(2) by (simp add: regain_def)
  then have "track_turn 5 0 (10, 20, 0) s3 = Inr (Inr None, s11)"
    using s4(1) s5(1) s7(1) d(1)
    by (simp add: track_turn_def APP_Satellite_Drift_Check_def APP_Power_AG_Get_def APP_Power_Deviation_def
        f64_sqrt_def set_work_sta_def alter_def s6_def ret_io_def)
  then have "loop (track_turn 5 0) (10, 20, 0) s3 = Inr (None, s11)" by (simp add: loop_def ret_io_def)
  then have "APP_Sat_GradientTrack ?s = Inr (None, s11)"
    using s2(1) s3(1) h by (simp add: APP_Sat_GradientTrack_def get_io_def alter_def set_rain_def s1_def)
  from this tracking_ends_in_failure [OF this] show ?thesis by blast
qed

end
