(* ===== verification/PcLink.thy ===== *)
theory PcLink
  imports Track PduUart
begin

text \<open>
  The frames that the control PCs (UDP) and the operating panel (OLED, UART 3) exchange with
  the unit, and the dispatch of their commands: the first part of \<open>APP/src/app_pccomm.c\<close> and
  \<open>APP/src/app_oledcomm.c\<close>, the receive side of \<open>HW/hw_oledcomm.c\<close>, and the body of
  \<open>udpecho_thread\<close> (\<open>lwip-1.4.1/src/core/udpecho.c\<close>). A frame is \<open>0xBC\<close>, the number of data bytes, the data, a
  checksum and \<open>0xCB\<close>. The data of a command are its number in two bytes, a length and the
  arguments. The command tables are the parameter \<open>tbl\<close> of the dispatch, lists of numbers
  and handlers in the order of the table.
\<close>

section \<open>State\<close>

text \<open>One \<open>strPCCOMMPro\<close> for each direction, with the buffers its \<open>databuff\<close> pointers lead
  to: \<open>PCCOMMRxBuff[50]\<close>, \<open>OLEDCOMMRxBuff[50]\<close>, and the send buffers from their start.\<close>

record pro =
  rx_datalen :: u8
  rx_data :: bytes
  tx_head :: u8
  tx_datalen :: u8
  tx_end :: u8
  tx_buff :: bytes

record comm =
  mach :: trk
  pc :: pro
  oled :: pro
  uart3 :: uart
  udp_out :: "bytes list"
  uart3_out :: "bytes list"
  opt_events :: "(u32 \<times> bytes) list"
  pc_admin_wait_timeout_cnt :: u32
  PC_admin_old_link_cnt :: u32
  pc_admin_unlink_cnt :: u32

type_synonym 'a cio = "('a, comm) st"

definition change_io :: "(comm \<Rightarrow> comm) \<Rightarrow> unit cio" where
  "change_io f s = Inr ((), f s)"

definition device :: "comm \<Rightarrow> strACUDevInfo" where
  "device s = dev (base (mach s))"

definition set_device :: "(strACUDevInfo \<Rightarrow> strACUDevInfo) \<Rightarrow> comm \<Rightarrow> comm" where
  "set_device f s = s\<lparr>mach := (mach s)\<lparr>base := (base (mach s))\<lparr>dev := f (dev (base (mach s)))\<rparr>\<rparr>\<rparr>"

section \<open>Checking and receiving\<close>

text \<open>The two checks differ in the width of the length only.\<close>

definition APP_PCCOMM_RxBuffCheck :: "bytes \<Rightarrow> u16 \<Rightarrow> fault + status \<times> u16" where
  "APP_PCCOMM_RxBuffCheck buff len0 =
     bind_f (rd buff 0) (\<lambda>h.
       if h \<noteq> 0xBC then Inr (FAIL, len0)
       else bind_f (rd buff 1) (\<lambda>datalen.
         let len = (if unat len0 > unat datalen + 4 then of_nat (unat datalen + 4) else len0) in
         if len = 0 then Inl OutOfBounds
         else bind_f (rd buff (unat len - 1)) (\<lambda>e.
           if e \<noteq> 0xCB then Inr (FAIL, len)
           else if unat len < 2 then Inl OutOfBounds
           else bind_f (TOOL_CheckSum8BitGet buff (unat len - 2)) (\<lambda>checksum.
             bind_f (rd buff (unat len - 2)) (\<lambda>c.
               if checksum \<noteq> c then Inr (FAIL, len) else Inr (SUCC, len))))))"

definition APP_OLEDCOMM_RxBuffCheck :: "bytes \<Rightarrow> u32 \<Rightarrow> fault + status \<times> u32" where
  "APP_OLEDCOMM_RxBuffCheck buff len0 =
     bind_f (rd buff 0) (\<lambda>h.
       if h \<noteq> 0xBC then Inr (FAIL, len0)
       else bind_f (rd buff 1) (\<lambda>datalen.
         let len = (if unat len0 > unat datalen + 4 then of_nat (unat datalen + 4) else len0) in
         if len = 0 then Inl OutOfBounds
         else bind_f (rd buff (unat len - 1)) (\<lambda>e.
           if e \<noteq> 0xCB then Inr (FAIL, len)
           else if unat len < 2 then Inl OutOfBounds
           else bind_f (TOOL_CheckSum8BitGet buff (unat len - 2)) (\<lambda>checksum.
             bind_f (rd buff (unat len - 2)) (\<lambda>c.
               if checksum \<noteq> c then Inr (FAIL, len) else Inr (SUCC, len))))))"

text \<open>\<open>memcpy(databuff, &buff[2], datalen)\<close> into an array of 50 bytes.\<close>

definition take_data :: "bytes \<Rightarrow> pro \<Rightarrow> fault + pro" where
  "take_data buff p =
     (let n = unat (buff ! 1) in
      if n > length (rx_data p) then Inl OutOfBounds
      else Inr (p\<lparr>rx_datalen := buff ! 1, rx_data := copy_over (rx_data p) (take n (drop 2 buff))\<rparr>))"

definition APP_PCCOMM_RxBuffRecv :: "bytes \<Rightarrow> u16 \<Rightarrow> status cio" where
  "APP_PCCOMM_RxBuffRecv p len s =
     (if len \<le> 255 then
        (if unat len > length p then Inl OutOfBounds
         else let buff = copy_over (replicate 259 0) (take (unat len) p) in
           bind_f (APP_PCCOMM_RxBuffCheck buff len) (\<lambda>(r, _).
             if r = FAIL then Inr (FAIL, s)
             else bind_f (take_data buff (pc s)) (\<lambda>q. Inr (SUCC, s\<lparr>pc := q\<rparr>))))
      else Inr (FAIL, s))"

text \<open>The receive interrupt of the panel, and the copy out of its buffer.\<close>

abbreviation (input) SWIFTUART3BuffSize :: nat where "SWIFTUART3BuffSize \<equiv> 64"

definition SWIFT_UART3_IntHandler :: "u8 \<Rightarrow> uart \<Rightarrow> fault + uart" where
  "SWIFT_UART3_IntHandler b u0 =
     (if write_p u0 \<ge> length (pbuff u0) then Inl OutOfBounds
      else let u1 = u0\<lparr>pbuff := (pbuff u0)[write_p u0 := b], write_p := write_p u0 + 1\<rparr>;
               u = (if write_p u1 \<ge> SWIFTUART3BuffSize then u1\<lparr>write_p := 0\<rparr> else u1)
      in if pbuff u ! 0 = 0xBC then
           (if write_p u \<ge> 2 \<and> write_p u \<ge> unat (pbuff u ! 1) + 4 then
              bind_f (rd (pbuff u) (unat (pbuff u ! 1) + 3)) (\<lambda>e.
                if e = 0xCB then Inr (u\<lparr>frame_posts := frame_posts u + 1\<rparr>)
                else Inr (u\<lparr>write_p := 0\<rparr>))
            else Inr u)
         else Inr (u\<lparr>write_p := 0\<rparr>))"

definition SWIFT_UART3_RecvBuff :: "uart \<Rightarrow> bytes \<times> uart" where
  "SWIFT_UART3_RecvBuff u = (take (write_p u) (pbuff u), u\<lparr>write_p := 0\<rparr>)"

definition SWIFT_UART3_RecvBuff_Clear :: "uart \<Rightarrow> uart" where
  "SWIFT_UART3_RecvBuff_Clear u = u\<lparr>write_p := 0, pbuff := replicate SWIFTUART3BuffSize 0\<rparr>"

definition APP_OLEDCOMM_RxBuffRecv :: "status cio" where
  "APP_OLEDCOMM_RxBuffRecv s =
     (case SWIFT_UART3_RecvBuff (uart3 s) of (got, u) \<Rightarrow>
        let s1 = s\<lparr>uart3 := u\<rparr>; buff = copy_over (replicate 259 0) got in
        bind_f (APP_OLEDCOMM_RxBuffCheck buff (of_nat (length got))) (\<lambda>(r, _).
          if r = FAIL then Inr (FAIL, s1)
          else bind_f (take_data buff (oled s1)) (\<lambda>q. Inr (SUCC, s1\<lparr>oled := q\<rparr>))))"

section \<open>Sending\<close>

text \<open>The frame around the data that stand in the send buffer from index 2.\<close>

definition seal_frame :: "pro \<Rightarrow> fault + bytes \<times> pro" where
  "seal_frame p =
     (let i = 2 + unat (tx_datalen p) in
      if i + 2 > length (tx_buff p) then Inl OutOfBounds
      else let b = (tx_buff p)[0 := tx_head p, 1 := tx_datalen p] in
        bind_f (TOOL_CheckSum8BitGet b i) (\<lambda>c.
          let b1 = b[i := c, i + 1 := tx_end p] in Inr (take (i + 2) b1, p\<lparr>tx_buff := b1\<rparr>)))"

definition APP_PCCOMM_TxBuffSend :: "unit cio" where
  "APP_PCCOMM_TxBuffSend s =
     bind_f (seal_frame (pc s)) (\<lambda>(f, q). Inr ((), s\<lparr>pc := q, udp_out := udp_out s @ [f]\<rparr>))"

definition APP_OLEDCOMM_TxBuffSend :: "unit cio" where
  "APP_OLEDCOMM_TxBuffSend s =
     bind_f (seal_frame (oled s)) (\<lambda>(f, q). Inr ((), s\<lparr>oled := q,
       uart3 := SWIFT_UART3_RecvBuff_Clear (uart3 s), uart3_out := uart3_out s @ [f]\<rparr>))"

text \<open>Data into the send buffer, from the place the \<open>databuff\<close> pointer leads to.\<close>

definition put_data :: "bytes \<Rightarrow> pro \<Rightarrow> pro" where
  "put_data d p = p\<lparr>tx_datalen := of_nat (length d), tx_buff := put_at (tx_buff p) 2 d\<rparr>"

definition result_data :: "u16 \<Rightarrow> status \<Rightarrow> bytes" where
  "result_data cmd_id r =
     [ucast (drop_bit 8 ((cmd_id OR 0x8000) AND 0xFF00)), ucast ((cmd_id OR 0x8000) AND 0x00FF), 1,
      (if r = SUCC then 0 else 1)]"

definition APP_PCCOMM_SetResult_Send :: "u16 \<Rightarrow> status \<Rightarrow> unit cio" where
  "APP_PCCOMM_SetResult_Send cmd_id r =
     bind_io (change_io (\<lambda>s. s\<lparr>pc := put_data (result_data cmd_id r) ((pc s)\<lparr>tx_head := 0xBC, tx_end := 0xCB\<rparr>)\<rparr>))
       (\<lambda>_. APP_PCCOMM_TxBuffSend)"

definition APP_OLEDCOMM_SetResult_Send :: "u16 \<Rightarrow> status \<Rightarrow> unit cio" where
  "APP_OLEDCOMM_SetResult_Send cmd_id r =
     bind_io (change_io (\<lambda>s. s\<lparr>oled := put_data (result_data cmd_id r) ((oled s)\<lparr>tx_head := 0xBC, tx_end := 0xCB\<rparr>)\<rparr>))
       (\<lambda>_. APP_OLEDCOMM_TxBuffSend)"

section \<open>Commands\<close>

abbreviation (input) PCHighAdminID :: u16 where "PCHighAdminID \<equiv> 0x021A"

definition cmd_of :: "bytes \<Rightarrow> u16" where
  "cmd_of rxbuff = un16 (rxbuff ! 0) (rxbuff ! 1)"

type_synonym handler = "bytes \<Rightarrow> status cio"

definition set_busy :: "u8 \<Rightarrow> comm \<Rightarrow> comm" where
  "set_busy v = set_device (\<lambda>d. d\<lparr>DeviceInfo := (DeviceInfo d)\<lparr>PCCommStat :=
     (PCCommStat (DeviceInfo d))\<lparr>pc_mcu_busy := v\<rparr>\<rparr>\<rparr>)"

definition sender :: "comm \<Rightarrow> u32" where
  "sender s = pc_dst_IP_addr (PCCommStat (DeviceInfo (device s)))"

definition admin_of :: "comm \<Rightarrow> strDevAdmin" where
  "admin_of s = DevAdmin (ACUCurrSta (device s))"

definition is_control :: "u16 \<Rightarrow> bool" where
  "is_control cmd_id \<longleftrightarrow> cmd_id AND 0x0F00 = 0x0100 \<or> cmd_id AND 0x0F00 = 0x0200"

definition not_entitled :: "u16 \<Rightarrow> comm \<Rightarrow> bool" where
  "not_entitled cmd_id s \<longleftrightarrow> is_control cmd_id \<and> cmd_id \<noteq> PCHighAdminID
     \<and> (sender s \<noteq> adm_pc_admin_ip_addr (admin_of s) \<or> adm_admin_sta (admin_of s) \<noteq> 0x01)"

text \<open>The refusal returns with \<open>mcu_busy\<close> still set.\<close>

definition APP_PCCOMM_CmdDeal :: "(u16 \<times> handler) list \<Rightarrow> status cio" where
  "APP_PCCOMM_CmdDeal tbl s0 =
     (let rxbuff = rx_data (pc s0); cmd_id = cmd_of rxbuff; s = set_busy 1 s0 in
      if not_entitled cmd_id s then
        bind_io (APP_PCCOMM_SetResult_Send cmd_id FAIL) (\<lambda>_. ret_io FAIL) s
      else case map_of tbl cmd_id of
        None \<Rightarrow> Inr (FAIL, set_busy 0 s)
      | Some h \<Rightarrow>
          bind_io (h rxbuff) (\<lambda>r.
          bind_io (if cmd_id AND 0xFF00 = 0x0100 \<or> cmd_id AND 0xFF00 = 0x0200
                   then APP_PCCOMM_SetResult_Send cmd_id r
                   else if cmd_id AND 0xFF00 = 0x0800 \<or> cmd_id AND 0xFF00 = 0x0A00 \<or> cmd_id AND 0xFF00 = 0x0900
                   then APP_PCCOMM_TxBuffSend else ret_io ()) (\<lambda>_.
          bind_io (change_io (set_busy 0)) (\<lambda>_. ret_io r))) s)"

definition APP_PCCOMM_Deal :: "(u16 \<times> handler) list \<Rightarrow> bytes \<Rightarrow> u16 \<Rightarrow> status cio" where
  "APP_PCCOMM_Deal tbl p len =
     bind_io (APP_PCCOMM_RxBuffRecv p len) (\<lambda>r.
       if r = FAIL then ret_io FAIL
       else bind_io (APP_PCCOMM_CmdDeal tbl) (\<lambda>r1. ret_io (if r1 = FAIL then FAIL else SUCC)))"

definition APP_OLEDCOMM_CmdDeal :: "(u16 \<times> handler) list \<Rightarrow> status cio" where
  "APP_OLEDCOMM_CmdDeal tbl s0 =
     (let rxbuff = rx_data (oled s0); cmd_id = cmd_of rxbuff; s = set_busy 1 s0 in
      case map_of tbl cmd_id of
        None \<Rightarrow> Inr (FAIL, set_busy 0 s)
      | Some h \<Rightarrow>
          bind_io (h rxbuff) (\<lambda>r.
          bind_io (if cmd_id AND 0xFF00 = 0x0100 \<or> cmd_id AND 0xFF00 = 0x0200
                   then APP_OLEDCOMM_SetResult_Send cmd_id r
                   else if cmd_id AND 0xFF00 = 0x0800 \<or> cmd_id AND 0xFF00 = 0x0A00
                   then APP_OLEDCOMM_TxBuffSend else ret_io ()) (\<lambda>_.
          bind_io (change_io (set_busy 0)) (\<lambda>_. ret_io r))) s)"

definition APP_OLEDCOMM_Deal :: "(u16 \<times> handler) list \<Rightarrow> status cio" where
  "APP_OLEDCOMM_Deal tbl =
     bind_io APP_OLEDCOMM_RxBuffRecv (\<lambda>r.
       if r = FAIL then ret_io FAIL
       else bind_io (APP_OLEDCOMM_CmdDeal tbl) (\<lambda>r1. ret_io (if r1 = FAIL then FAIL else SUCC)))"

text \<open>What \<open>udpecho_thread\<close> does with a datagram: it notes the sender and counts the
  administrator's datagrams. The call of \<open>APP_PCCOMM_Deal\<close> is commented out there.\<close>

definition set_admin_rec :: "(strDevAdmin \<Rightarrow> strDevAdmin) \<Rightarrow> comm \<Rightarrow> comm" where
  "set_admin_rec f = set_device (\<lambda>d. d\<lparr>ACUCurrSta := (ACUCurrSta d)\<lparr>DevAdmin := f (DevAdmin (ACUCurrSta d))\<rparr>\<rparr>)"

definition udp_received :: "u32 \<Rightarrow> u32 \<Rightarrow> comm \<Rightarrow> comm" where
  "udp_received addr port s0 =
     (let s = set_device (\<lambda>d. d\<lparr>DeviceInfo := (DeviceInfo d)\<lparr>PCCommStat :=
            (PCCommStat (DeviceInfo d))\<lparr>pc_dst_IP_addr := addr, pc_dst_IP_port := port\<rparr>\<rparr>\<rparr>) s0
      in if adm_admin_sta (admin_of s) = 0x01 \<and> sender s = adm_pc_admin_ip_addr (admin_of s)
         then set_admin_rec (\<lambda>a. a\<lparr>adm_pc_admin_link_cnt := adm_pc_admin_link_cnt a + 1\<rparr>) s
         else s)"

end
