(* ===== verification/Admin.thy ===== *)
theory Admin
  imports PcLink
begin

text \<open>
  Who may control the antenna: the commands of the control PCs
  (\<open>APP_PCCOMM_PCAdminSet\<close>) and of the panel (\<open>APP_OLEDCOMM_PCAdminSet\<close>) that ask for,
  grant and give back the control, the drive unit's claim (\<open>pdu_admin\<close> of theory
  \<open>PduLink\<close>), the time-outs of \<open>APP/src/app_monitor.c\<close>, and the step relation they form.
  \<open>role\<close> is the abstract state: nobody, a PC that has asked, a PC in control, the drive unit.
\<close>

section \<open>Commands\<close>

abbreviation (input) LOG_OPT_PC_ASK_FOR_ADMIN :: u32 where "LOG_OPT_PC_ASK_FOR_ADMIN \<equiv> 0x022131"
abbreviation (input) LOG_OPT_OLED_PERMIN_PC_ADMIN :: u32 where "LOG_OPT_OLED_PERMIN_PC_ADMIN \<equiv> 0x022132"
abbreviation (input) LOG_OPT_OLED_REFUSE_PC_ADMIN :: u32 where "LOG_OPT_OLED_REFUSE_PC_ADMIN \<equiv> 0x022133"
abbreviation (input) LOG_OPT_OLED_CANCEL_PC_ADMIN :: u32 where "LOG_OPT_OLED_CANCEL_PC_ADMIN \<equiv> 0x022134"
abbreviation (input) LOG_OPT_TIMEOUT_ACU_REFUS_PC_ADMIN :: u32 where "LOG_OPT_TIMEOUT_ACU_REFUS_PC_ADMIN \<equiv> 0x022135"
abbreviation (input) LOG_OPT_TIMEOUT_ACU_CANCEL_PC_ADMIN :: u32 where "LOG_OPT_TIMEOUT_ACU_CANCEL_PC_ADMIN \<equiv> 0x022136"
abbreviation (input) LOG_OPT_TIMEOUT_PC_CANCEL_PC_ADMIN :: u32 where "LOG_OPT_TIMEOUT_PC_CANCEL_PC_ADMIN \<equiv> 0x022137"
abbreviation (input) LOG_OPT_TIMEOUT_PC_CANCEL_PC_ADMIN_ASK :: u32 where "LOG_OPT_TIMEOUT_PC_CANCEL_PC_ADMIN_ASK \<equiv> 0x022138"

definition optlog_code :: "u32 \<Rightarrow> comm \<Rightarrow> comm" where
  "optlog_code code s = s\<lparr>opt_events := opt_events s @ [(code, [])]\<rparr>"

definition dev_admin :: "comm \<Rightarrow> u8" where
  "dev_admin s = dev_admin_sta (ACUCurrSta (device s))"

text \<open>Both copies of the state, and further fields of the administration record.\<close>

definition put_rights :: "u8 \<Rightarrow> (strDevAdmin \<Rightarrow> strDevAdmin) \<Rightarrow> comm \<Rightarrow> comm" where
  "put_rights v f = set_device (\<lambda>d. d\<lparr>ACUCurrSta := (ACUCurrSta d)\<lparr>dev_admin_sta := v,
     DevAdmin := f ((DevAdmin (ACUCurrSta d))\<lparr>adm_admin_sta := v\<rparr>)\<rparr>\<rparr>)"

definition APP_PCCOMM_PCAdminSet :: handler where
  "APP_PCCOMM_PCAdminSet rxbuff s =
     (if cmd_of rxbuff \<noteq> PCHighAdminID \<or> rxbuff ! 2 \<noteq> 1 then Inr (FAIL, s)
      else let admin_switch = rxbuff ! 3; a = admin_of s in
        if dev_admin s = 0x02 then Inr (if admin_switch > 0 then FAIL else SUCC, s)
        else if dev_admin s = 0x01 then
          (if admin_switch \<ge> 1 then Inr (if sender s = adm_pc_admin_ip_addr a then SUCC else FAIL, s)
           else if sender s = adm_pc_admin_ip_addr a then
             Inr (SUCC, optlog_code LOG_OPT_TIMEOUT_PC_CANCEL_PC_ADMIN (put_rights 0x00
               (\<lambda>a. a\<lparr>adm_pc_admin_deal_sta := 0, adm_pc_admin_ip_addr := 0\<rparr>) s))
           else Inr (SUCC, s))
        else if dev_admin s = 0x00 then
          (if admin_switch > 0 then
             let s1 = set_admin_rec (\<lambda>a. a\<lparr>adm_pc_admin_deal_sta := 0x01\<rparr>) s in
             if adm_pc_admin_ask_ip_addr a \<noteq> 0 then Inr (FAIL, s1)
             else Inr (SUCC, optlog_code LOG_OPT_PC_ASK_FOR_ADMIN (put_rights 0x11
               (\<lambda>a. a\<lparr>adm_pc_admin_ask_ip_addr := sender s\<rparr>) s1))
           else Inr (SUCC, s))
        else if dev_admin s = 0x11 then
          (if admin_switch \<ge> 1 then
             Inr (if sender s \<noteq> adm_pc_admin_ask_ip_addr a then FAIL else SUCC, s)
           else if sender s = adm_pc_admin_ask_ip_addr a then
             Inr (SUCC, optlog_code LOG_OPT_TIMEOUT_PC_CANCEL_PC_ADMIN_ASK (put_rights 0x00
               (\<lambda>a. a\<lparr>adm_pc_admin_deal_sta := 0, adm_pc_admin_ip_addr := 0, adm_pc_admin_ask_ip_addr := 0\<rparr>) s))
           else Inr (SUCC, s))
        else Inr (SUCC, s))"

text \<open>The panel grants without looking at the present state. Its answer counts two bytes, and its
  length field is \<open>2 - 3\<close>; the dispatcher overwrites it with the result.\<close>

definition APP_OLEDCOMM_PCAdminSet :: handler where
  "APP_OLEDCOMM_PCAdminSet rxbuff s =
     (if cmd_of rxbuff \<noteq> PCHighAdminID \<or> rxbuff ! 2 \<noteq> 1 then Inr (FAIL, s)
      else
        let s1 = (if rxbuff ! 3 > 0 then
              optlog_code LOG_OPT_OLED_PERMIN_PC_ADMIN (put_rights 0x01
                (\<lambda>a. a\<lparr>adm_pc_admin_ip_addr := adm_pc_admin_ask_ip_addr a, adm_pc_admin_ask_ip_addr := 0\<rparr>) s)
            else put_rights 0x00 (\<lambda>a. a\<lparr>adm_pc_admin_ip_addr := 0, adm_pc_admin_ask_ip_addr := 0\<rparr>)
              (if dev_admin s = 0x11 then optlog_code LOG_OPT_OLED_REFUSE_PC_ADMIN s
               else if dev_admin s = 0x01 then optlog_code LOG_OPT_OLED_CANCEL_PC_ADMIN s
               else s));
            answer = [ucast (drop_bit 8 ((cmd_of rxbuff OR 0x8000) AND 0xFF00)),
                      ucast ((cmd_of rxbuff OR 0x8000) AND 0x00FF), 2 - 3]
        in Inr (SUCC, s1\<lparr>oled := (oled s1)\<lparr>tx_datalen := 2, tx_buff := put_at (tx_buff (oled s1)) 2 answer\<rparr>\<rparr>))"

section \<open>Time-outs and the drive unit\<close>

definition expire :: "u32 \<Rightarrow> comm \<Rightarrow> comm" where
  "expire code s = optlog_code code (put_rights 0x00 (\<lambda>a. a\<lparr>adm_pc_admin_link_cnt := 0, adm_pc_admin_deal_sta := 0,
     adm_pc_admin_ip_addr := 0, adm_pc_admin_ask_ip_addr := 0\<rparr>) s)"

definition APP_MONITOR_PC_Admin_Timeout_Deal :: "u32 \<Rightarrow> comm \<Rightarrow> comm" where
  "APP_MONITOR_PC_Admin_Timeout_Deal period_ms s =
     (let link_cnt = adm_pc_admin_link_cnt (admin_of s) in
      if dev_admin s = 0x01 then
        (if PC_admin_old_link_cnt s \<noteq> link_cnt
         then s\<lparr>pc_admin_unlink_cnt := 0, PC_admin_old_link_cnt := link_cnt\<rparr>
         else let n = pc_admin_unlink_cnt s + 1 in
           if n * period_ms > 15000
           then expire LOG_OPT_TIMEOUT_ACU_CANCEL_PC_ADMIN (s\<lparr>pc_admin_unlink_cnt := 0\<rparr>)
           else s\<lparr>pc_admin_unlink_cnt := n\<rparr>)
      else
        let s1 = s\<lparr>pc_admin_unlink_cnt := 0, PC_admin_old_link_cnt := 0\<rparr> in
        if dev_admin s = 0x11 then
          (let n = pc_admin_wait_timeout_cnt s + 1 in
           if n * period_ms > 300000
           then expire LOG_OPT_TIMEOUT_ACU_REFUS_PC_ADMIN (s1\<lparr>pc_admin_wait_timeout_cnt := 0\<rparr>)
           else s1\<lparr>pc_admin_wait_timeout_cnt := n\<rparr>)
        else s1\<lparr>pc_admin_wait_timeout_cnt := 0\<rparr>)"

text \<open>The status byte of the drive unit, and what \<open>APP_MONITOR_DevAlarm\<close> does when its link
  is lost.\<close>

definition drive_status :: "u8 \<Rightarrow> comm \<Rightarrow> comm" where
  "drive_status v s = s\<lparr>mach := (mach s)\<lparr>base := pdu_admin v (base (mach s))\<rparr>\<rparr>"

definition drive_lost :: "comm \<Rightarrow> comm" where
  "drive_lost s =
     (if dev_admin s = 0x02 \<or> adm_admin_sta (admin_of s) = 0x02
      then put_rights 0x00 (\<lambda>a. a\<lparr>adm_mode_sta := 0x00\<rparr>) s else s)"

section \<open>Runs\<close>

datatype rights_op = Datagram u32 u32 | PcCmd bytes | PanelCmd bytes | DriveStatus u8 | Tick u32 | DriveLost

fun apply_op :: "rights_op \<Rightarrow> comm \<Rightarrow> fault + comm" where
  "apply_op (Datagram a p) s = Inr (udp_received a p s)"
| "apply_op (PcCmd rx) s = bind_f (APP_PCCOMM_PCAdminSet rx s) (\<lambda>(_, s'). Inr s')"
| "apply_op (PanelCmd rx) s = bind_f (APP_OLEDCOMM_PCAdminSet rx s) (\<lambda>(_, s'). Inr s')"
| "apply_op (DriveStatus v) s = Inr (drive_status v s)"
| "apply_op (Tick p) s = Inr (APP_MONITOR_PC_Admin_Timeout_Deal p s)"
| "apply_op DriveLost s = Inr (drive_lost s)"

inductive rights_step :: "comm \<Rightarrow> rights_op \<Rightarrow> comm \<Rightarrow> bool" where
  "apply_op x s = Inr s' \<Longrightarrow> rights_step s x s'"

inductive_simps rights_step_iff: "rights_step s x s'"

definition no_rights :: "comm \<Rightarrow> bool" where
  "no_rights s \<longleftrightarrow> dev_admin s = 0 \<and> adm_admin_sta (admin_of s) = 0 \<and> adm_pc_admin_ip_addr (admin_of s) = 0
     \<and> adm_pc_admin_ask_ip_addr (admin_of s) = 0"

inductive rights_reach :: "comm \<Rightarrow> rights_op list \<Rightarrow> comm \<Rightarrow> bool" for s0 where
  start: "rights_reach s0 [] s0"
| after: "rights_reach s0 xs s \<Longrightarrow> rights_step s x s' \<Longrightarrow> rights_reach s0 (xs @ [x]) s'"

section \<open>The abstract state\<close>

datatype role = Nobody | Asked u32 | PC u32 | Drive

definition role_of :: "comm \<Rightarrow> role" where
  "role_of s = (if dev_admin s = 0x11 then Asked (adm_pc_admin_ask_ip_addr (admin_of s))
     else if dev_admin s = 0x01 then PC (adm_pc_admin_ip_addr (admin_of s))
     else if dev_admin s = 0x02 then Drive else Nobody)"

definition rights_cmd :: "bytes \<Rightarrow> bool" where
  "rights_cmd rx \<longleftrightarrow> cmd_of rx = PCHighAdminID \<and> rx ! 2 = 1"

text \<open>What an operation may do to the role; \<open>i\<close> is the sender of the last datagram.\<close>

fun next_role :: "rights_op \<Rightarrow> u32 \<Rightarrow> role \<Rightarrow> role \<Rightarrow> bool" where
  "next_role (Datagram _ _) i r r' = (r' = r)"
| "next_role (PcCmd rx) i r r' =
     (if \<not> rights_cmd rx then r' = r
      else if rx ! 3 > 0 then r' = (if r = Nobody then Asked i else r)
      else r' = (if r = Asked i \<or> r = PC i then Nobody else r))"
| "next_role (PanelCmd rx) i r r' =
     (if \<not> rights_cmd rx then r' = r
      else if rx ! 3 > 0 then r' = (case r of Asked j \<Rightarrow> PC j | _ \<Rightarrow> PC 0)
      else r' = Nobody)"
| "next_role (DriveStatus v) i r r' = (r' = (if v > 0 then Drive else if r = Drive then Nobody else r))"
| "next_role (Tick p) i r r' = (r' = r \<or> r \<noteq> Drive \<and> r' = Nobody)"
| "next_role DriveLost i r r' = (r' = (if r = Drive then Nobody else r))"

definition rights_ok :: "comm \<Rightarrow> bool" where
  "rights_ok s \<longleftrightarrow> dev_admin s \<in> {0x00, 0x01, 0x02, 0x11} \<and> adm_admin_sta (admin_of s) = dev_admin s
     \<and> (dev_admin s \<noteq> 0x01 \<longrightarrow> adm_pc_admin_ip_addr (admin_of s) = 0)
     \<and> (dev_admin s \<noteq> 0x11 \<longrightarrow> adm_pc_admin_ask_ip_addr (admin_of s) = 0)"

lemma rights_sel [simp]:
  "dev_admin (put_rights v f s) = v" "admin_of (put_rights v f s) = f ((admin_of s)\<lparr>adm_admin_sta := v\<rparr>)"
  "dev_admin (set_admin_rec g s) = dev_admin s" "admin_of (set_admin_rec g s) = g (admin_of s)"
  "dev_admin (optlog_code c s) = dev_admin s" "admin_of (optlog_code c s) = admin_of s"
  "dev_admin (s\<lparr>oled := q\<rparr>) = dev_admin s" "admin_of (s\<lparr>oled := q\<rparr>) = admin_of s"
  "dev_admin (s\<lparr>pc_admin_unlink_cnt := n\<rparr>) = dev_admin s" "admin_of (s\<lparr>pc_admin_unlink_cnt := n\<rparr>) = admin_of s"
  "dev_admin (s\<lparr>PC_admin_old_link_cnt := n\<rparr>) = dev_admin s" "admin_of (s\<lparr>PC_admin_old_link_cnt := n\<rparr>) = admin_of s"
  "dev_admin (s\<lparr>pc_admin_wait_timeout_cnt := n\<rparr>) = dev_admin s"
  "admin_of (s\<lparr>pc_admin_wait_timeout_cnt := n\<rparr>) = admin_of s"
  by (simp_all add: dev_admin_def admin_of_def put_rights_def set_admin_rec_def set_device_def device_def optlog_code_def)

lemma udp_rights: "dev_admin (udp_received a p s) = dev_admin s"
  "adm_admin_sta (admin_of (udp_received a p s)) = adm_admin_sta (admin_of s)"
  "adm_pc_admin_ip_addr (admin_of (udp_received a p s)) = adm_pc_admin_ip_addr (admin_of s)"
  "adm_pc_admin_ask_ip_addr (admin_of (udp_received a p s)) = adm_pc_admin_ask_ip_addr (admin_of s)"
  by (simp_all add: udp_received_def Let_def set_admin_rec_def set_device_def dev_admin_def admin_of_def device_def)

lemma drive_rights: "dev_admin (drive_status v s) = (if v > 0 then 0x02 else if dev_admin s = 0x02 then 0 else dev_admin s)"
  "rights_ok s \<Longrightarrow> rights_ok (drive_status v s)"
  "role_of (drive_status v s) = (if v > 0 then Drive else if dev_admin s = 0x02 then Nobody else role_of s)"
  by (auto simp: drive_status_def pdu_admin_def set_admin_def upd_param_def upd_sta_def opt_log_event_def dev_admin_def
      device_def rights_ok_def role_of_def admin_of_def)

lemma one_le_u8: "1 \<le> (x :: u8) \<longleftrightarrow> 0 < x"
  by (simp add: word_le_nat_alt word_less_nat_alt Suc_le_eq)

lemma role_Drive: "role_of s = Drive \<longleftrightarrow> dev_admin s = 0x02"
  by (simp add: role_of_def)

text \<open>The four states.\<close>

lemma rights_cases:
  assumes "rights_ok s"
  obtains (nobody) "dev_admin s = 0x00" "role_of s = Nobody" "adm_admin_sta (admin_of s) = 0x00"
      "adm_pc_admin_ip_addr (admin_of s) = 0" "adm_pc_admin_ask_ip_addr (admin_of s) = 0"
    | (asked) "dev_admin s = 0x11" "role_of s = Asked (adm_pc_admin_ask_ip_addr (admin_of s))"
      "adm_admin_sta (admin_of s) = 0x11" "adm_pc_admin_ip_addr (admin_of s) = 0"
    | (pc) "dev_admin s = 0x01" "role_of s = PC (adm_pc_admin_ip_addr (admin_of s))"
      "adm_admin_sta (admin_of s) = 0x01" "adm_pc_admin_ask_ip_addr (admin_of s) = 0"
    | (drive) "dev_admin s = 0x02" "role_of s = Drive" "adm_admin_sta (admin_of s) = 0x02"
      "adm_pc_admin_ip_addr (admin_of s) = 0" "adm_pc_admin_ask_ip_addr (admin_of s) = 0"
proof -
  have "dev_admin s = 0 \<or> dev_admin s = 1 \<or> dev_admin s = 2 \<or> dev_admin s = 0x11"
    using assms by (simp add: rights_ok_def)
  moreover have "adm_admin_sta (admin_of s) = dev_admin s" "dev_admin s \<noteq> 1 \<longrightarrow> adm_pc_admin_ip_addr (admin_of s) = 0"
    "dev_admin s \<noteq> 0x11 \<longrightarrow> adm_pc_admin_ask_ip_addr (admin_of s) = 0"
    using assms by (simp_all add: rights_ok_def)
  ultimately show thesis
    using nobody asked pc drive by (elim disjE) (simp_all add: role_of_def)
qed

lemma pc_cmd_refines:
  assumes "rights_ok s" "APP_PCCOMM_PCAdminSet rx s = Inr (r, s')"
  shows "rights_ok s' \<and> next_role (PcCmd rx) (sender s) (role_of s) (role_of s')"
proof (cases "rights_cmd rx")
  case False
  then have "s' = s" using assms(2) by (auto simp: APP_PCCOMM_PCAdminSet_def rights_cmd_def)
  then show ?thesis using False assms(1) by simp
next
  case True
  then have c: "cmd_of rx = PCHighAdminID" "rx ! 2 = 1" by (simp_all add: rights_cmd_def)
  show ?thesis
  proof (cases "rx ! 3 > 0")
    case sw: True
    show ?thesis
      using assms(1)
      by (cases rule: rights_cases)
        (use assms c True sw in \<open>simp add: APP_PCCOMM_PCAdminSet_def Let_def one_le_u8; auto simp: rights_ok_def role_of_def\<close>)+
  next
    case sw: False
    show ?thesis
      using assms(1)
      by (cases rule: rights_cases)
        (use assms c True sw in \<open>simp add: APP_PCCOMM_PCAdminSet_def Let_def one_le_u8 split: if_splits;
          auto simp: rights_ok_def role_of_def\<close>)+
  qed
qed

lemma tick_refines:
  assumes "rights_ok s"
  shows "rights_ok (APP_MONITOR_PC_Admin_Timeout_Deal p s)
    \<and> next_role (Tick p) i (role_of s) (role_of (APP_MONITOR_PC_Admin_Timeout_Deal p s))"
  using assms
  by (cases rule: rights_cases)
    (simp_all add: APP_MONITOR_PC_Admin_Timeout_Deal_def Let_def expire_def rights_ok_def role_of_def)

text \<open>Every operation keeps the two copies of the state and the addresses consistent, and does
  to the role what \<open>next_role\<close> allows.\<close>

lemma step_refines:
  assumes "rights_ok s" "rights_step s x s'"
  shows "rights_ok s' \<and> next_role x (sender s) (role_of s) (role_of s')"
proof (cases x)
  case (Datagram a p)
  then have "s' = udp_received a p s" using assms(2) by (simp add: rights_step_iff)
  then show ?thesis using Datagram assms(1) by (simp add: rights_ok_def udp_rights role_of_def)
next
  case (PcCmd rx)
  then obtain r where "APP_PCCOMM_PCAdminSet rx s = Inr (r, s')"
    using assms(2) by (auto simp: rights_step_iff bind_f_Inr)
  then show ?thesis unfolding PcCmd by (rule pc_cmd_refines [OF assms(1)])
next
  case (PanelCmd rx)
  then obtain r where p: "APP_OLEDCOMM_PCAdminSet rx s = Inr (r, s')"
    using assms(2) by (auto simp: rights_step_iff bind_f_Inr)
  show ?thesis
    using assms(1) unfolding PanelCmd
    by (cases rule: rights_cases)
      (use p assms(1) in \<open>auto simp: APP_OLEDCOMM_PCAdminSet_def Let_def rights_ok_def role_of_def rights_cmd_def split: if_splits\<close>)
next
  case (DriveStatus v)
  then have "s' = drive_status v s" using assms(2) by (simp add: rights_step_iff)
  then show ?thesis using DriveStatus assms(1) drive_rights [where s = s and v = v] by (simp add: role_Drive)
next
  case (Tick p)
  then have "s' = APP_MONITOR_PC_Admin_Timeout_Deal p s" using assms(2) by (simp add: rights_step_iff)
  then show ?thesis using Tick tick_refines [OF assms(1)] by simp
next
  case DriveLost
  then have e: "s' = drive_lost s" using assms(2) by (simp add: rights_step_iff)
  show ?thesis using assms(1)
    by (cases rule: rights_cases) (simp_all add: e DriveLost drive_lost_def rights_ok_def role_of_def)
qed

end
