(* ===== verification/AdminProps.thy ===== *)
theory AdminProps
  imports Admin PduLaws
begin

text \<open>
  What the command links guarantee: frames arrive as they were sent, control commands are
  carried out for the PC in control only, a PC gets the control only by a permit of its own
  request, and loses it after 15 seconds of silence. And where they fail: data of more than
  50 bytes, a refused command, a permit without a request.
\<close>

section \<open>Frames\<close>

lemma unat_small [simp]:
  "n < 256 \<Longrightarrow> unat (of_nat n :: u8) = n" "n < 65536 \<Longrightarrow> unat (of_nat n :: u16) = n"
  "n < 4294967296 \<Longrightarrow> unat (of_nat n :: u32) = n"
  by (simp_all add: unat_of_nat)

definition frame_of :: "bytes \<Rightarrow> bytes" where
  "frame_of d = (let b = 0xBC # of_nat (length d) # d in b @ [sum_list b, 0xCB])"

lemma length_frame_of [simp]: "length (frame_of d) = length d + 4"
  by (simp add: frame_of_def Let_def)

lemma seal_frame_eq:
  assumes "tx_head p = 0xBC" "tx_end p = 0xCB" "unat (tx_datalen p) + 4 \<le> length (tx_buff p)"
  shows "\<exists>q. seal_frame p = Inr (frame_of (take (unat (tx_datalen p)) (drop 2 (tx_buff p))), q)
    \<and> tx_head q = 0xBC \<and> tx_end q = 0xCB \<and> length (tx_buff q) = length (tx_buff p)"
proof -
  let ?n = "unat (tx_datalen p)" and ?b = "tx_buff p"
  obtain x y r where b: "?b = x # y # r" using assms(3) by (metis Suc_le_length_iff add_2_eq_Suc' numeral_Bit0 add_leD2 add.assoc)
  have r: "?n + 2 \<le> length r" using assms(3) b by simp
  define d where "d = take ?n r"
  have d: "length d = ?n" "take ?n (drop 2 ?b) = d" using r by (simp_all add: d_def b)
  obtain u v t where r2: "r = d @ u # v # t"
  proof -
    have "2 \<le> length (drop ?n r)" using r by simp
    then obtain u v t where "drop ?n r = u # v # t" by (metis Suc_le_length_iff numeral_2_eq_2)
    then show thesis using that by (metis append_take_drop_id d_def)
  qed
  let ?h = "0xBC # tx_datalen p # d"
  have c: "TOOL_CheckSum8BitGet (?b[0 := 0xBC, 1 := tx_datalen p]) (2 + ?n) = Inr (sum_list ?h)"
    using checksum_prefix [of ?h "u # v # t"] d(1) by (simp add: b r2 add.commute)
  have l: "of_nat (length d) = tx_datalen p" by (simp add: d(1))
  have f: "take (2 + ?n + 2) (?b[0 := 0xBC, 1 := tx_datalen p, 2 + ?n := sum_list ?h, 2 + ?n + 1 := 0xCB]) = frame_of d"
    using d(1) l by (simp add: b r2 frame_of_def Let_def list_update_append)
  show ?thesis
    using assms c f d(2) by (simp add: seal_frame_def Let_def)
qed

lemma check_frame:
  assumes "length d \<le> 251" "length (frame_of d @ extra) \<le> 255"
  defines "len \<equiv> of_nat (length (frame_of d @ extra)) :: u16"
  defines "buff \<equiv> copy_over (replicate 259 0) (frame_of d @ extra)"
  shows "\<exists>k. APP_PCCOMM_RxBuffCheck buff len = Inr (SUCC, k)" "unat (buff ! 1) = length d"
    "take (length d) (drop 2 buff) = d" "unat len = length (frame_of d @ extra)" "len \<le> 255"
proof -
  have l: "unat len = length (frame_of d @ extra)"
    using assms(2) unfolding len_def by (intro unat_small) simp
  let ?n = "of_nat (length d) :: u8"
  have n: "unat ?n = length d" using assms(1) by (intro unat_small) simp
  define h where "h = 0xBC # ?n # d"
  have hl: "length h = length d + 2" by (simp add: h_def)
  define rest where "rest = sum_list h # 0xCB # extra @ drop (length d + length extra + 4) (replicate 259 0)"
  have b: "buff = h @ rest"
    unfolding buff_def copy_over_def frame_of_def rest_def by (simp add: Let_def h_def add.commute add.left_commute)
  have e: "buff ! 0 = 0xBC" "buff ! 1 = ?n" by (simp_all add: b h_def)
  have e3: "buff ! (length d + 3) = 0xCB" "buff ! (length d + 2) = sum_list h"
    using nth_append_length_plus [of h rest 1] nth_append_length [of h "sum_list h"]
    by (simp_all add: b hl rest_def add.commute numeral_3_eq_3)
  have c: "TOOL_CheckSum8BitGet buff (length d + 2) = Inr (sum_list h)"
    using checksum_prefix [of h rest] by (simp only: b hl)
  have lb: "length d + 4 \<le> length buff" using hl by (simp add: b rest_def)
  define k where "k = (if unat len > unat ?n + 4 then of_nat (unat ?n + 4) else len)"
  have k: "unat k = length d + 4"
  proof (cases "unat len > length d + 4")
    case True
    then show ?thesis using assms(1) unfolding k_def n by (simp del: of_nat_add of_nat_numeral)
  next
    case False
    then show ?thesis using l unfolding k_def n by simp
  qed
  have "k \<noteq> 0" using k by auto
  have rds: "rd buff 0 = Inr 0xBC" "rd buff (Suc 0) = Inr ?n" "rd buff (length d + 3) = Inr 0xCB"
    "rd buff (length d + 2) = Inr (sum_list h)"
    using lb e e3 unfolding rd_def by (auto simp add: b h_def nth_append)
  show "\<exists>k. APP_PCCOMM_RxBuffCheck buff len = Inr (SUCC, k)"
    unfolding APP_PCCOMM_RxBuffCheck_def Let_def One_nat_def rds bind_f_simps if_False if_True simp_thms k_def [symmetric] k
    using k \<open>k \<noteq> 0\<close> rds c by (simp add: rds add.commute)
  show "unat (buff ! 1) = length d" using e(2) n by simp
  show "take (length d) (drop 2 buff) = d" by (simp add: b h_def)
  show "unat len = length (frame_of d @ extra)" "len \<le> 255"
    using l assms(2) by (simp_all add: word_le_nat_alt)
qed


lemma frame_received:
  assumes "length d \<le> 251" "length (frame_of d @ extra) \<le> 255"
  shows "APP_PCCOMM_RxBuffRecv (frame_of d @ extra) (of_nat (length (frame_of d @ extra))) s =
    (if length d > length (rx_data (pc s)) then Inl OutOfBounds
     else Inr (SUCC, s\<lparr>pc := (pc s)\<lparr>rx_datalen := of_nat (length d), rx_data := copy_over (rx_data (pc s)) d\<rparr>\<rparr>))"
proof -
  note c = check_frame [OF assms]
  let ?b = "copy_over (replicate 259 0) (frame_of d @ extra)" and ?l = "of_nat (length (frame_of d @ extra)) :: u16"
  obtain k where k: "APP_PCCOMM_RxBuffCheck ?b ?l = Inr (SUCC, k)" using c(1) by blast
  have n: "unat (of_nat (length d) :: u8) = length d" using assms(1) by (intro unat_small) simp
  have o: "?b ! 1 = of_nat (length d)" using c(2) n by (simp only: word_unat_eq_iff)
  have t: "take (unat ?l) (frame_of d @ extra) = frame_of d @ extra" unfolding c(4) by (rule take_all) (rule order_refl)
  have "APP_PCCOMM_RxBuffRecv (frame_of d @ extra) ?l s = bind_f (take_data ?b (pc s)) (\<lambda>q. Inr (SUCC, s\<lparr>pc := q\<rparr>))"
    unfolding APP_PCCOMM_RxBuffRecv_def t Let_def k bind_f_simps using c(4,5) by (simp only: if_True split_conv) simp
  then show ?thesis
    by (simp only: take_data_def Let_def c(3) o n if_distrib [where f = "\<lambda>m. bind_f m g" for g] bind_f_simps)
qed

text \<open>What one side sends the other side receives: a frame sealed for at most 50 data
  bytes is accepted, also with bytes behind it, and the data arrive in the receive buffer;
  the rest of the receiver does not change.\<close>

theorem frame_arrives:
  assumes "length d \<le> 50" "length d + 4 \<le> length (tx_buff p)"
    "seal_frame (put_data d (p\<lparr>tx_head := 0xBC, tx_end := 0xCB\<rparr>)) = Inr (f, q)"
    "length (f @ extra) \<le> 255" "length (rx_data (pc s)) = 50"
  shows "APP_PCCOMM_RxBuffRecv (f @ extra) (of_nat (length (f @ extra))) s =
    Inr (SUCC, s\<lparr>pc := (pc s)\<lparr>rx_datalen := of_nat (length d), rx_data := d @ drop (length d) (rx_data (pc s))\<rparr>\<rparr>)"
proof -
  let ?b = "put_at (tx_buff p) 2 d"
  have b: "take (length d) (drop 2 ?b) = d" "length ?b = length (tx_buff p)"
    using assms(2) by (simp_all add: put_at_def)
  have n: "unat (of_nat (length d) :: u8) = length d" using assms(1) by (intro unat_small) simp
  have f: "f = frame_of d"
    using seal_frame_eq [of "put_data d (p\<lparr>tx_head := 0xBC, tx_end := 0xCB\<rparr>)"] assms(2,3) b n
    by (auto simp: put_data_def)
  show ?thesis
    using frame_received [of d extra s] assms(1,4,5) unfolding f by (simp add: copy_over_def)
qed

text \<open>A correct frame with more than 50 data bytes makes the receiver write behind its
  receive buffer.\<close>

theorem long_frame_overruns:
  assumes "50 < length d" "length d \<le> 251" "length (rx_data (pc s)) = 50"
  shows "APP_PCCOMM_RxBuffRecv (frame_of d) (of_nat (length (frame_of d))) s = Inl OutOfBounds"
  using frame_received [of d "[]" s] assms by simp

lemma bind_f_assoc: "bind_f (bind_f m k) g = bind_f m (\<lambda>x. bind_f (k x) g)"
  by (cases m) simp_all

text \<open>The panel's check of a frame and the check of the PC link, two copies of one
  routine that count in 32 and in 16 bits, give the same answer.\<close>

theorem panel_check_is_pc_check:
  "APP_OLEDCOMM_RxBuffCheck buff (ucast len) = bind_f (APP_PCCOMM_RxBuffCheck buff len) (\<lambda>(r, n). Inr (r, ucast n))"
proof -
  have u: "unat (ucast (n :: u16) :: u32) = unat n" for n
    using u16_bound [of n] by (simp add: unsigned_ucast_eq take_bit_eq_mod)
  have n: "unat (x :: u8) + 4 < 65536" "unat x + 4 < 4294967296" for x
    using u8_bound [of x] by simp_all
  have a: "unat (of_nat (unat (x :: u8) + 4) :: u32) = unat x + 4" "unat (of_nat (unat x + 4) :: u16) = unat x + 4" for x
    by (intro unat_small n)+
  have z: "(of_nat (unat (x :: u8) + 4) :: u32) \<noteq> 0" "(of_nat (unat x + 4) :: u16) \<noteq> 0" for x
    using a [of x] by auto
  have c: "(ucast (of_nat (unat (x :: u8) + 4) :: u16) :: u32) = of_nat (unat x + 4)" for x
    by (simp only: word_unat_eq_iff u a)
  have l: "(ucast len :: u32) = 0 \<longleftrightarrow> len = 0"
    by (simp only: word_unat_eq_iff u unat_0)
  show ?thesis
    unfolding APP_OLEDCOMM_RxBuffCheck_def APP_PCCOMM_RxBuffCheck_def Let_def
    by (simp only: bind_f_assoc if_distrib [where f = "\<lambda>m. bind_f m g" for g] if_distrib [where f = unat]
        if_distrib [where f = ucast] if_distrib [where f = "\<lambda>x. x = 0"] bind_f_simps split_conv u a z c l)
qed

section \<open>Rights\<close>

lemma reach_ok:
  assumes "rights_reach s0 xs s" "no_rights s0"
  shows "rights_ok s"
  using assms
proof (induction rule: rights_reach.induct)
  case start
  then show ?case by (simp add: no_rights_def rights_ok_def)
next
  case (after xs s x s')
  then show ?case using step_refines by blast
qed

text \<open>C11: after any sequence of datagrams, commands of PCs and panel, reports of the drive unit
  and ticks since power-on, the two copies of the administration state agree, an address is
  kept in the states that need it only, and the next operation changes the role of the PCs
  exactly as the abstract machine \<open>next_role\<close> does.\<close>

theorem rights_refine_roles:
  assumes "rights_reach s0 xs s" "no_rights s0" "rights_step s x s'"
  shows "rights_ok s \<and> rights_ok s' \<and> next_role x (sender s) (role_of s) (role_of s')"
  using assms(3) reach_ok [OF assms(1,2)] step_refines by blast

lemma asked_from_request:
  assumes "rights_reach s0 xs s" "no_rights s0" "role_of s = Asked i"
  shows "\<exists>us rx vs s1. xs = us @ PcCmd rx # vs \<and> rights_reach s0 us s1 \<and> sender s1 = i \<and> role_of s1 = Nobody
    \<and> rights_cmd rx \<and> rx ! 3 > 0"
  using assms
proof (induction rule: rights_reach.induct)
  case start
  then show ?case by (simp add: no_rights_def role_of_def)
next
  case (after xs s x s')
  have r: "next_role x (sender s) (role_of s) (role_of s')"
    using step_refines [OF reach_ok [OF after(1) after(4)] after(2)] by blast
  show ?case
  proof (cases "role_of s = Asked i")
    case True
    then obtain us rx vs s1 where "xs = us @ PcCmd rx # vs" "rights_reach s0 us s1" "sender s1 = i"
      "role_of s1 = Nobody" "rights_cmd rx" "rx ! 3 > 0" using after(3) after(4) by blast
    then show ?thesis by (intro exI [of _ us] exI [of _ rx] exI [of _ "vs @ [x]"] exI [of _ s1]) simp
  next
    case False
    then obtain rx where x: "x = PcCmd rx" "rights_cmd rx" "rx ! 3 > 0" "role_of s = Nobody" "sender s = i"
      using r after(5) by (cases x) (auto split: if_splits role.splits)
    show ?thesis using x after(1) by (intro exI [of _ xs] exI [of _ rx] exI [of _ "[]"] exI [of _ s]) simp
  qed
qed

text \<open>C1: a PC has the control only when the panel has granted a request and the request was
  that PC's own: before the present state there is a permit of the panel in a state in which
  that PC had asked, and before it that PC's request while nobody had the control.\<close>

theorem control_needs_permit:
  assumes "rights_reach s0 xs s" "no_rights s0" "role_of s = PC i" "i \<noteq> 0"
  shows "\<exists>us rq vs rx ws s1 s2. xs = us @ PcCmd rq # vs @ PanelCmd rx # ws
    \<and> rights_reach s0 us s1 \<and> role_of s1 = Nobody \<and> sender s1 = i \<and> rights_cmd rq \<and> rq ! 3 > 0
    \<and> rights_reach s0 (us @ PcCmd rq # vs) s2 \<and> role_of s2 = Asked i \<and> rights_cmd rx \<and> rx ! 3 > 0"
  using assms
proof (induction rule: rights_reach.induct)
  case start
  then show ?case by (simp add: no_rights_def role_of_def)
next
  case (after xs s x s')
  have r: "next_role x (sender s) (role_of s) (role_of s')"
    using step_refines [OF reach_ok [OF after(1) after(4)] after(2)] by blast
  show ?case
  proof (cases "role_of s = PC i")
    case True
    then obtain us rq vs rx ws s1 s2 where "xs = us @ PcCmd rq # vs @ PanelCmd rx # ws"
      "rights_reach s0 us s1" "role_of s1 = Nobody" "sender s1 = i" "rights_cmd rq" "rq ! 3 > 0"
      "rights_reach s0 (us @ PcCmd rq # vs) s2" "role_of s2 = Asked i" "rights_cmd rx" "rx ! 3 > 0"
      using after(3) after(4,6) by blast
    then show ?thesis
      by (intro exI [of _ us] exI [of _ rq] exI [of _ vs] exI [of _ rx] exI [of _ "ws @ [x]"] exI [of _ s1] exI [of _ s2]) simp
  next
    case False
    then obtain rx where x: "x = PanelCmd rx" "rights_cmd rx" "rx ! 3 > 0" "role_of s = Asked i"
      using r after(5,6) by (cases x) (auto split: if_splits role.splits)
    obtain us rq vs s1 where "xs = us @ PcCmd rq # vs" "rights_reach s0 us s1" "sender s1 = i"
      "role_of s1 = Nobody" "rights_cmd rq" "rq ! 3 > 0"
      using asked_from_request [OF after(1) after(4) x(4)] by blast
    then show ?thesis using x after(1)
      by (intro exI [of _ us] exI [of _ rq] exI [of _ vs] exI [of _ rx] exI [of _ "[]"] exI [of _ s1] exI [of _ s]) simp
  qed
qed

lemma set_busy_sel [simp]:
  "sender (set_busy v s) = sender s" "admin_of (set_busy v s) = admin_of s" "dev_admin (set_busy v s) = dev_admin s"
  "pc (set_busy v s) = pc s" "udp_out (set_busy v s) = udp_out s"
  by (simp_all add: sender_def admin_of_def dev_admin_def set_busy_def set_device_def device_def)

lemma not_entitled_role:
  assumes "rights_ok s"
  shows "not_entitled c s \<longleftrightarrow> is_control c \<and> c \<noteq> PCHighAdminID \<and> role_of s \<noteq> PC (sender s)"
  using assms by (cases rule: rights_cases) (auto simp: not_entitled_def)

lemma result_sent:
  assumes "8 \<le> length (tx_buff (pc s))"
  shows "\<exists>q. APP_PCCOMM_SetResult_Send c r s = Inr ((), s\<lparr>pc := q, udp_out := udp_out s @ [frame_of (result_data c r)]\<rparr>)"
proof -
  define p where "p = put_data (result_data c r) ((pc s)\<lparr>tx_head := 0xBC, tx_end := 0xCB\<rparr>)"
  have l: "length (result_data c r) = 4" by (simp add: result_data_def)
  have p: "tx_head p = 0xBC" "tx_end p = 0xCB" "unat (tx_datalen p) = 4" "length (tx_buff p) = length (tx_buff (pc s))"
    "take 4 (drop 2 (tx_buff p)) = result_data c r"
    using assms l by (simp_all add: p_def put_data_def put_at_def)
  then obtain q where "seal_frame p = Inr (frame_of (result_data c r), q)"
    using seal_frame_eq [of p] assms by auto
  then show ?thesis
    by (auto simp: APP_PCCOMM_SetResult_Send_def APP_PCCOMM_TxBuffSend_def change_io_def bind_io_def p_def)
qed

text \<open>C18: a control command of a PC that is not the one in control runs no handler, whatever the
  command table holds: the PC is told so, the antenna's state stays as it is, except that the
  unit reports itself busy and goes on to do so after the refusal.\<close>

theorem only_admin_commands:
  assumes "rights_ok s" "is_control (cmd_of (rx_data (pc s)))" "cmd_of (rx_data (pc s)) \<noteq> PCHighAdminID"
    "role_of s \<noteq> PC (sender s)" "8 \<le> length (tx_buff (pc s))"
  shows "\<exists>s'. APP_PCCOMM_CmdDeal tbl s = Inr (FAIL, s') \<and> mach s' = mach (set_busy 1 s)
    \<and> udp_out s' = udp_out s @ [frame_of (result_data (cmd_of (rx_data (pc s))) FAIL)]
    \<and> pc_mcu_busy (PCCommStat (DeviceInfo (device s'))) = 1"
proof -
  let ?c = "cmd_of (rx_data (pc s))" and ?s = "set_busy 1 s"
  have ne: "not_entitled ?c ?s"
    using not_entitled_role [OF assms(1), of ?c] assms(2-4) by (simp only: not_entitled_def set_busy_sel) blast
  obtain q where q: "APP_PCCOMM_SetResult_Send ?c FAIL ?s =
      Inr ((), ?s\<lparr>pc := q, udp_out := udp_out ?s @ [frame_of (result_data ?c FAIL)]\<rparr>)"
    using result_sent [of ?s ?c FAIL] assms(5) by auto
  have "APP_PCCOMM_CmdDeal tbl s = Inr (FAIL, ?s\<lparr>pc := q, udp_out := udp_out ?s @ [frame_of (result_data ?c FAIL)]\<rparr>)"
    using ne q by (simp add: APP_PCCOMM_CmdDeal_def Let_def ret_io_def)
  then show ?thesis
    by (simp add: set_busy_def set_device_def device_def)
qed

section \<open>Silence\<close>

text \<open>The state right after a tick that saw a new datagram of the PC in control.\<close>

definition just_heard :: "comm \<Rightarrow> bool" where
  "just_heard s \<longleftrightarrow> dev_admin s = 0x01 \<and> PC_admin_old_link_cnt s = adm_pc_admin_link_cnt (admin_of s)
     \<and> pc_admin_unlink_cnt s = 0"

lemma tick_silent:
  assumes "just_heard s" "0 < period" "unat period * Suc n < 4294967296" "n < 4294967295"
  shows "APP_MONITOR_PC_Admin_Timeout_Deal period (s\<lparr>pc_admin_unlink_cnt := of_nat n\<rparr>) =
    (if unat period * Suc n > 15000
     then expire LOG_OPT_TIMEOUT_ACU_CANCEL_PC_ADMIN (s\<lparr>pc_admin_unlink_cnt := 0\<rparr>)
     else s\<lparr>pc_admin_unlink_cnt := of_nat (Suc n)\<rparr>)"
proof -
  have "unat ((of_nat n + 1) * period) = unat period * Suc n"
  proof -
    have "(of_nat n + 1) * period = of_nat (unat period * Suc n)" by (simp add: algebra_simps)
    then show ?thesis using assms(3) by (simp only: unat_small)
  qed
  then have "(of_nat n + 1) * period > 15000 \<longleftrightarrow> unat period * Suc n > 15000"
    by (simp add: word_less_nat_alt)
  then show ?thesis
    using assms(1) by (simp add: APP_MONITOR_PC_Admin_Timeout_Deal_def Let_def just_heard_def add.commute)
qed

lemma tick_nobody:
  assumes "dev_admin s = 0"
  shows "dev_admin (APP_MONITOR_PC_Admin_Timeout_Deal p s) = 0"
  using assms by (simp add: APP_MONITOR_PC_Admin_Timeout_Deal_def Let_def)

text \<open>C20: a PC in control that falls silent keeps the control for 15 seconds of the monitor's
  ticks and no longer: after n ticks of a period it has it if and only if they last at most
  15000 ms.\<close>

theorem control_ends_after_silence:
  assumes "just_heard s" "0 < period"
  shows "role_of ((APP_MONITOR_PC_Admin_Timeout_Deal period ^^ n) s) =
    (if unat period * n \<le> 15000 then PC (adm_pc_admin_ip_addr (admin_of s)) else Nobody)"
proof -
  let ?t = "APP_MONITOR_PC_Admin_Timeout_Deal period"
  have p: "0 < unat period" using assms(2) by (simp add: word_less_nat_alt)
  have a: "(?t ^^ n) s = s\<lparr>pc_admin_unlink_cnt := of_nat n\<rparr>" if "unat period * n \<le> 15000" for n
    using that
  proof (induction n)
    case 0
    then show ?case using assms(1) by (simp add: just_heard_def)
  next
    case (Suc n)
    have "Suc n \<le> unat period * Suc n" using p by (cases "unat period") simp_all
    then have "n < 4294967295" using Suc.prems by linarith
    then show ?case
      using Suc tick_silent [OF assms, of n] by simp
  qed
  have b: "dev_admin ((?t ^^ n) s) = 0" if "unat period * n > 15000" for n
    using that
  proof (induction n)
    case (Suc n)
    show ?case
    proof (cases "unat period * n \<le> 15000")
      case True
      have "n \<le> unat period * n" using p by (cases "unat period") simp_all
      then have "n < 4294967295" using True by linarith
      moreover have "unat period * Suc n < 4294967296"
      proof (cases n)
        case 0
        then show ?thesis using u32_bound [of period] by simp
      next
        case (Suc m)
        then have "unat period \<le> 15000" using True by simp
        then show ?thesis using True unfolding mult_Suc_right by linarith
      qed
      ultimately show ?thesis
        using a [OF True] tick_silent [OF assms, of n] Suc.prems by (simp add: expire_def)
    next
      case False
      then show ?thesis using Suc.IH tick_nobody by simp
    qed
  qed simp
  show ?thesis
  proof (cases "unat period * n \<le> 15000")
    case True
    then show ?thesis using a [OF True] assms(1) by (simp add: role_of_def just_heard_def)
  next
    case False
    then show ?thesis using b [of n] by (simp add: role_of_def)
  qed
qed

text \<open>A permit of the panel while no PC has asked makes the address 0.0.0.0 administrator:
  whoever had the control loses it, and every PC is refused its control commands and the
  control itself.\<close>

theorem unasked_permit_shuts_out:
  assumes "rights_ok s" "\<And>i. role_of s \<noteq> Asked i" "rights_cmd rx" "rx ! 3 > 0"
  shows "\<exists>s'. APP_OLEDCOMM_PCAdminSet rx s = Inr (SUCC, s') \<and> role_of s' = PC 0
    \<and> (\<forall>a p c. a \<noteq> 0 \<and> is_control c \<and> c \<noteq> PCHighAdminID \<longrightarrow> not_entitled c (udp_received a p s'))
    \<and> (\<forall>a p. a \<noteq> 0 \<longrightarrow> APP_PCCOMM_PCAdminSet rx (udp_received a p s') = Inr (FAIL, udp_received a p s'))"
proof -
  obtain s' where s': "APP_OLEDCOMM_PCAdminSet rx s = Inr (SUCC, s')"
    using assms(3) by (simp add: APP_OLEDCOMM_PCAdminSet_def rights_cmd_def Let_def)
  have "rights_step s (PanelCmd rx) s'" using s' by (simp add: rights_step_iff)
  note ok = step_refines [OF assms(1) this]
  have r: "role_of s' = PC 0" using ok assms(2-4) by (auto split: role.splits)
  then have d: "dev_admin s' = 0x01" "adm_pc_admin_ip_addr (admin_of s') = 0"
    by (simp_all add: role_of_def split: if_splits)
  have snd: "sender (udp_received a p s') = a" for a p
    by (simp add: udp_received_def Let_def sender_def device_def set_admin_rec_def set_device_def)
  have "not_entitled c (udp_received a p s')" if "a \<noteq> 0" "is_control c" "c \<noteq> PCHighAdminID" for a p c
    using that d by (simp add: not_entitled_def snd udp_rights)
  moreover have "APP_PCCOMM_PCAdminSet rx (udp_received a p s') = Inr (FAIL, udp_received a p s')" if "a \<noteq> 0" for a p
    using that d assms(3,4) by (simp add: APP_PCCOMM_PCAdminSet_def rights_cmd_def Let_def snd udp_rights one_le_u8)
  ultimately show ?thesis using s' r by blast
qed

section \<open>Concrete runs\<close>

definition idle_pro :: pro where
  "idle_pro = \<lparr>rx_datalen = 0, rx_data = replicate 50 0, tx_head = 0, tx_datalen = 0, tx_end = 0, tx_buff = replicate 64 0\<rparr>"

definition idle_comm :: comm where
  "idle_comm = \<lparr>mach = \<lparr>base = idle_link [], ee = fresh_board, feed = [], rainFlag = 0, follow_log = [],
       follow_ret = (\<lambda>n. SUCC), stack_addr = 0\<rparr>,
     pc = idle_pro, oled = idle_pro, uart3 = uart_init, udp_out = [], uart3_out = [], opt_events = [],
     pc_admin_wait_timeout_cnt = 0, PC_admin_old_link_cnt = 0, pc_admin_unlink_cnt = 0\<rparr>"

abbreviation (input) want_control :: bytes where "want_control \<equiv> [0x02, 0x1A, 1, 1]"

lemma idle_comm_sel [simp]:
  "pc idle_comm = idle_pro" "rx_data idle_pro = replicate 50 0" "tx_buff idle_pro = replicate 64 0"
  "no_rights idle_comm" "sender idle_comm = 0" "dev_admin idle_comm = 0"
  by (simp_all add: idle_comm_def idle_pro_def no_rights_def dev_admin_def admin_of_def sender_def device_def idle_link_def
      zero_strACUDevInfo_def zero_strACUCurrSta_def zero_strDevAdmin_def zero_strDeviceInfo_def zero_strPCCommStat_def)

lemma idle_ok [simp]: "rights_ok idle_comm"
  by (rule reach_ok [OF rights_reach.start]) simp

lemma want_control_cmd [simp]: "rights_cmd want_control" "cmd_of want_control = PCHighAdminID"
  by (simp_all add: rights_cmd_def cmd_of_def un16_def push_bit_eq_mult)

theorem frame_arrives_witness:
  "\<exists>f q s'. seal_frame (put_data [1, 2, 3] (idle_pro\<lparr>tx_head := 0xBC, tx_end := 0xCB\<rparr>)) = Inr (f, q)
    \<and> APP_PCCOMM_RxBuffRecv (f @ [9]) (of_nat (length (f @ [9]))) idle_comm = Inr (SUCC, s')
    \<and> take 3 (rx_data (pc s')) = [1, 2, 3]"
proof -
  let ?p = "put_data [1, 2, 3] (idle_pro\<lparr>tx_head := 0xBC, tx_end := 0xCB\<rparr>)"
  obtain q where q: "seal_frame ?p = Inr (frame_of [1, 2, 3], q)"
    using seal_frame_eq [of ?p] by (auto simp: put_data_def put_at_def)
  show ?thesis
    using q frame_arrives [of "[1, 2, 3]" idle_pro "frame_of [1, 2, 3]" q "[9]" idle_comm]
    by (intro exI [of _ "frame_of [1, 2, 3]"] exI [of _ q]) auto
qed

theorem long_frame_witness:
  "APP_PCCOMM_RxBuffRecv (frame_of (replicate 51 7)) (of_nat (length (frame_of (replicate 51 7)))) idle_comm = Inl OutOfBounds"
  by (rule long_frame_overruns) simp_all

theorem rights_refine_witness:
  "rights_ok (udp_received 7 5 idle_comm)
    \<and> next_role (Datagram 7 5) 0 (role_of idle_comm) (role_of (udp_received 7 5 idle_comm))"
  using rights_refine_roles [OF rights_reach.start, of idle_comm "Datagram 7 5" "udp_received 7 5 idle_comm"]
  by (simp add: rights_step_iff)

lemma granted_run:
  "\<exists>s. rights_reach idle_comm [Datagram 7 5, PcCmd want_control, PanelCmd want_control] s \<and> role_of s = PC 7"
proof -
  let ?s1 = "udp_received 7 5 idle_comm"
  have n: "sender ?s1 = 7"
    by (simp add: udp_received_def Let_def sender_def device_def set_admin_rec_def set_device_def)
  have 1: "rights_reach idle_comm ([] @ [Datagram 7 5]) ?s1"
    by (intro rights_reach.after [OF rights_reach.start]) (simp add: rights_step_iff)
  have ok1: "rights_ok ?s1" "role_of ?s1 = Nobody"
    using reach_ok [OF 1] by (simp_all add: role_of_def udp_rights)
  have a0: "adm_pc_admin_ask_ip_addr (admin_of ?s1) = 0" using ok1 by (auto simp: rights_ok_def udp_rights)
  obtain s2 where s2: "APP_PCCOMM_PCAdminSet want_control ?s1 = Inr (SUCC, s2)"
    using a0 by (simp add: APP_PCCOMM_PCAdminSet_def udp_rights Let_def)
  have st2: "rights_step ?s1 (PcCmd want_control) s2" using s2 by (simp add: rights_step_iff)
  note 2 = rights_reach.after [OF 1 st2] and ok2 = step_refines [OF ok1(1) st2]
  obtain s3 where s3: "APP_OLEDCOMM_PCAdminSet want_control s2 = Inr (SUCC, s3)"
    by (simp add: APP_OLEDCOMM_PCAdminSet_def Let_def)
  have st3: "rights_step s2 (PanelCmd want_control) s3" using s3 by (simp add: rights_step_iff)
  have "rights_ok s2" using ok2 by simp
  note 3 = rights_reach.after [OF 2 st3] and ok3 = step_refines [OF this st3]
  show ?thesis using 3 ok2 ok3 ok1(2) n by (intro exI [of _ s3]) simp
qed

theorem control_needs_permit_witness:
  "\<exists>xs s. rights_reach idle_comm xs s \<and> role_of s = PC 7 \<and>
    (\<exists>us rq vs rx ws. xs = us @ PcCmd rq # vs @ PanelCmd rx # ws)"
proof -
  let ?xs = "[Datagram 7 5, PcCmd want_control, PanelCmd want_control]"
  obtain s where s: "rights_reach idle_comm ?xs s" "role_of s = PC 7" using granted_run by blast
  have "\<exists>us rq vs rx ws. ?xs = us @ PcCmd rq # vs @ PanelCmd rx # ws"
    using control_needs_permit [OF s(1) _ s(2)] by (simp only: idle_comm_sel) (simp, blast)
  then show ?thesis using s by blast
qed

theorem only_admin_commands_witness:
  "\<exists>s'. APP_PCCOMM_CmdDeal [] (idle_comm\<lparr>pc := idle_pro\<lparr>rx_data := 0x02 # 0x01 # replicate 48 0\<rparr>\<rparr>) = Inr (FAIL, s')
    \<and> pc_mcu_busy (PCCommStat (DeviceInfo (device s'))) = 1"
proof -
  let ?s = "idle_comm\<lparr>pc := idle_pro\<lparr>rx_data := 0x02 # 0x01 # replicate 48 0\<rparr>\<rparr>"
  have d: "dev_admin ?s = 0" "admin_of ?s = admin_of idle_comm"
    using idle_comm_sel(6) by (simp_all add: dev_admin_def admin_of_def device_def)
  have c: "cmd_of (rx_data (pc ?s)) = 0x0201" by (simp add: cmd_of_def un16_def push_bit_eq_mult)
  have "rights_ok ?s" using idle_ok d by (simp add: rights_ok_def)
  then show ?thesis
    using only_admin_commands [of ?s "[]"] c d by (auto simp: is_control_def role_of_def)
qed

theorem control_ends_witness:
  "\<exists>s. just_heard s \<and> role_of ((APP_MONITOR_PC_Admin_Timeout_Deal 100 ^^ 151) s) = Nobody"
proof -
  let ?s = "put_rights 0x01 (\<lambda>a. a\<lparr>adm_pc_admin_link_cnt := 0\<rparr>) idle_comm"
  have h: "just_heard ?s"
    by (simp add: just_heard_def) (simp add: idle_comm_def put_rights_def set_device_def)
  show ?thesis using control_ends_after_silence [OF h, of 100 151] h by auto
qed

theorem unasked_permit_witness:
  "\<exists>s'. APP_OLEDCOMM_PCAdminSet want_control idle_comm = Inr (SUCC, s') \<and> role_of s' = PC 0"
proof -
  have "role_of idle_comm = Nobody" by (simp add: role_of_def)
  then show ?thesis using unasked_permit_shuts_out [of idle_comm want_control] by auto
qed

end
