(* ===== verification/Encoder.thy ===== *)
theory Encoder
  imports FP32 Params
begin

text \<open>
  The three angle encoders: their serial ports (\<open>HW/hw_eleccoder.c\<close>), the exchanges of
  \<open>APP/src/app_eleccoder.c\<close> and the conversion of counts to degrees. The code has one copy of
  every function for each of the ports UART 5 (azimuth), UART 2 (elevation) and UART 1
  (polarisation); here it is one function of the port's number, which is the index of its
  arrays, with the names of the copies beside it.
\<close>

section \<open>Ports\<close>

text \<open>
  \<open>predict\<close> is \<open>SWIFT_UARTn_Predict_RevBytes\<close>, \<open>rev_sem\<close>, \<open>send_sem\<close> and \<open>user_sem\<close> count
  \<open>SWIFT_UARTn_Rev_Sem\<close>, \<open>SWIFT_UARTn_Send_Sem\<close> and \<open>APP_..ElecCoder_Sem\<close>. \<open>arrivals\<close> is the
  encoder: for every exchange the bytes that arrive before the wait for the answer ends and
  those that arrive after the exchange, before the next one; a list that ends is an encoder
  that is silent from then on.
\<close>

record chan =
  cbuff :: bytes
  cwrite :: nat
  predict :: u8
  rev_sem :: nat
  send_sem :: nat
  user_sem :: nat
  arrivals :: "(bytes \<times> bytes) list"
  csent :: "bytes list"

abbreviation (input) SWIFTUART5BuffSize :: nat where "SWIFTUART5BuffSize \<equiv> 32"

definition SWIFT_UART5_IntHandler :: "u8 \<Rightarrow> chan \<Rightarrow> fault + chan" where
  "SWIFT_UART5_IntHandler b c0 =
     (if cwrite c0 \<ge> length (cbuff c0) then Inl OutOfBounds
      else let c1 = c0\<lparr>cbuff := (cbuff c0)[cwrite c0 := b], cwrite := cwrite c0 + 1\<rparr>;
               c = (if cwrite c1 \<ge> SWIFTUART5BuffSize then c1\<lparr>cwrite := 0\<rparr> else c1)
      in Inr (if cwrite c \<ge> unat (predict c) \<and> predict c > 0 then c\<lparr>rev_sem := rev_sem c + 1\<rparr> else c))"

definition SWIFT_UART2_IntHandler :: "u8 \<Rightarrow> chan \<Rightarrow> fault + chan" where
  "SWIFT_UART2_IntHandler = SWIFT_UART5_IntHandler"

definition SWIFT_UART1_IntHandler :: "u8 \<Rightarrow> chan \<Rightarrow> fault + chan" where
  "SWIFT_UART1_IntHandler = SWIFT_UART5_IntHandler"

fun int_handler :: "nat \<Rightarrow> u8 \<Rightarrow> chan \<Rightarrow> fault + chan" where
  "int_handler a = (if a = 0 then SWIFT_UART5_IntHandler else if a = 1 then SWIFT_UART2_IntHandler
     else SWIFT_UART1_IntHandler)"

fun interrupts :: "nat \<Rightarrow> bytes \<Rightarrow> chan \<Rightarrow> fault + chan" where
  "interrupts a [] c = Inr c"
| "interrupts a (b # bs) c = bind_f (int_handler a b c) (interrupts a bs)"

definition RecvBuff_Clear :: "chan \<Rightarrow> chan" where
  "RecvBuff_Clear c = c\<lparr>cbuff := replicate SWIFTUART5BuffSize 0, cwrite := 0\<rparr>"

text \<open>\<open>SWIFT_UARTn_SendBuff\<close>, and \<open>SWIFT_UARTn_RecvBuff\<close> into \<open>Revbuff[8]\<close>, with the length.\<close>

definition SendBuff :: "bytes \<Rightarrow> (unit, chan) st" where
  "SendBuff b c = (if send_sem c = 0 then Inl Blocked
     else Inr ((), (RecvBuff_Clear c)\<lparr>csent := csent c @ [b]\<rparr>))"

definition RecvBuff :: "(bytes \<times> nat, chan) st" where
  "RecvBuff c = (if cwrite c > 8 then Inl OutOfBounds
     else Inr ((copy_over (replicate 8 0) (take (cwrite c) (cbuff c)), cwrite c), c\<lparr>cwrite := 0\<rparr>))"

text \<open>\<open>BSP_OS_Sem_Pend(&SWIFT_UARTn_Rev_Sem, ELEC_ENCODER_DELAY_TIMEOUT)\<close>.\<close>

definition await_answer :: "nat \<Rightarrow> (bool, chan) st" where
  "await_answer a c0 =
     bind_f (interrupts a (case arrivals c0 of [] \<Rightarrow> [] | (now, later) # _ \<Rightarrow> now) c0) (\<lambda>c.
       if rev_sem c = 0 then Inr (False, c) else Inr (True, c\<lparr>rev_sem := rev_sem c - 1\<rparr>))"

definition next_arrivals :: "nat \<Rightarrow> (unit, chan) st" where
  "next_arrivals a c = (case arrivals c of [] \<Rightarrow> Inr ((), c)
     | (now, later) # rest \<Rightarrow> bind_f (interrupts a later (c\<lparr>arrivals := rest\<rparr>)) (\<lambda>c1. Inr ((), c1)))"

definition change_c :: "(chan \<Rightarrow> chan) \<Rightarrow> (unit, chan) st" where
  "change_c f c = Inr ((), f c)"

text \<open>
  One exchange: a command byte and the number of bytes the answer has. \<open>Busy\<close> is the port
  that another task keeps, \<open>Bad\<close> an answer that is late, long or wrong.
\<close>

datatype outcome = Busy | Bad | Good bytes

definition drop_answer :: "(outcome, chan) st" where
  "drop_answer = bind_io (change_c (\<lambda>c. c\<lparr>predict := 0, user_sem := user_sem c + 1\<rparr>)) (\<lambda>_. ret_io Bad)"

definition exchange :: "nat \<Rightarrow> u8 \<Rightarrow> u8 \<Rightarrow> (bytes \<Rightarrow> bool) \<Rightarrow> (outcome, chan) st" where
  "exchange a cmd n right c0 =
     (if user_sem c0 = 0 then Inr (Busy, c0)
      else bind_io (change_c (\<lambda>c. c\<lparr>user_sem := user_sem c - 1, predict := n\<rparr>)) (\<lambda>_.
        bind_io (SendBuff [cmd]) (\<lambda>_.
        bind_io (await_answer a) (\<lambda>answered.
        bind_io (if \<not> answered then drop_answer
          else bind_io RecvBuff (\<lambda>(Revbuff, len).
            if len > unat n \<or> \<not> right Revbuff then drop_answer
            else bind_io (change_c (\<lambda>c. c\<lparr>user_sem := user_sem c + 1\<rparr>)) (\<lambda>_. ret_io (Good Revbuff)))) (\<lambda>r.
        bind_io (next_arrivals a) (\<lambda>_. ret_io r))))) c0)"

section \<open>Encoders\<close>

text \<open>\<open>observed\<close> is what the task that reads the encoders leaves in \<open>EleccoderData.data\<close> before
  each sample of \<open>APP_ElecEncoder_DataAddDir_Adjust\<close>.\<close>

record enc =
  eep :: eew
  ports :: "chan list"
  Elec_coder_UlinkCnt :: "u8 list"
  observed :: "u32 list"

type_synonym 'a eio = "('a, enc) st"

definition coder :: "nat \<Rightarrow> enc \<Rightarrow> strEleccoderInfo" where
  "coder a s = EleccoderInfo (DeviceInfo (acu (eep s))) ! a"

definition set_coder :: "nat \<Rightarrow> (strEleccoderInfo \<Rightarrow> strEleccoderInfo) \<Rightarrow> enc \<Rightarrow> enc" where
  "set_coder a f s = s\<lparr>eep := (eep s)\<lparr>acu := (acu (eep s))\<lparr>DeviceInfo := (DeviceInfo (acu (eep s)))\<lparr>EleccoderInfo :=
     (EleccoderInfo (DeviceInfo (acu (eep s))))[a := f (coder a s)]\<rparr>\<rparr>\<rparr>\<rparr>"

definition change_e :: "(enc \<Rightarrow> enc) \<Rightarrow> unit eio" where
  "change_e f s = Inr ((), f s)"

definition on_port :: "nat \<Rightarrow> ('a, chan) st \<Rightarrow> 'a eio" where
  "on_port a m s = bind_f (m (ports s ! a)) (\<lambda>(x, c). Inr (x, s\<lparr>ports := (ports s)[a := c]\<rparr>))"

definition set_conf :: "(strEleccoderConf \<Rightarrow> strEleccoderConf) \<Rightarrow> strEleccoderInfo \<Rightarrow> strEleccoderInfo" where
  "set_conf f i = i\<lparr>EleccoderConf := f (EleccoderConf i)\<rparr>"

definition linked :: "strEleccoderInfo \<Rightarrow> strEleccoderInfo" where
  "linked i = i\<lparr>EleccoderStat := (EleccoderStat i)\<lparr>es_link_stat := COMM_LINK, es_dev_stat := 0\<rparr>\<rparr>"

section \<open>Counts and degrees\<close>

text \<open>\<open>pow(2, bit_num)\<close> is exact; \<open>bit_num\<close> is 17 or 12. The products with it are computed in
  double precision unless a cast says otherwise.\<close>

abbreviation (input) full_circle :: "nat \<Rightarrow> enc \<Rightarrow> rat" where
  "full_circle a s \<equiv> 2 ^ unat (ec_bit_num (EleccoderConf (coder a s)))"

definition APP_ElecEncoder_DegreeInt2Data :: "u8 \<Rightarrow> u32 \<Rightarrow> enc \<Rightarrow> u32" where
  "APP_ElecEncoder_DegreeInt2Data addr degree s =
     (let degree_int = drop_bit 16 (degree AND 0xFFFF0000);
          degree_fra = f32 (fp_of_u32 (degree AND 0x0000FFFF) / 10000);
          degree_fp32 = f32 (fp_of_u32 degree_int + degree_fra)
      in fp_to_u32 (f64 (f64 (degree_fp32 * full_circle (unat addr - 1) s) / 360)))"

definition APP_ElecEncoder_Data2DegreeInt :: "u8 \<Rightarrow> u32 \<Rightarrow> enc \<Rightarrow> u32" where
  "APP_ElecEncoder_Data2DegreeInt addr data s =
     (let degree = f32 (f64 (of_nat (unat (data * 360)) / full_circle (unat addr - 1) s));
          degree_int = fp_to_u32 (of_int \<lfloor>degree\<rfloor>);
          degree_fra = fp_to_u32 (f32 (f32 (degree - fp_of_u32 degree_int) * 10000))
      in push_bit 16 (degree_int AND 0x0000FFFF) + (degree_fra AND 0x0000FFFF))"

definition APP_ElecEncoder_DegreeFloat2Data :: "u8 \<Rightarrow> fp32 \<Rightarrow> enc \<Rightarrow> u32" where
  "APP_ElecEncoder_DegreeFloat2Data addr degree s =
     fp_to_u32 (f64 (f64 (degree * full_circle (unat addr - 1) s) / 360))"

definition APP_ElecEncoder_Data2DegreeFloat :: "u8 \<Rightarrow> u32 \<Rightarrow> enc \<Rightarrow> fp32" where
  "APP_ElecEncoder_Data2DegreeFloat addr data s =
     f32 (f32 (fp_of_u32 data * 360) / f32 (full_circle (unat addr - 1) s))"

section \<open>Exchanges\<close>

text \<open>The direction of counting: set, and asked for.\<close>

definition DataAddDir_Set :: "nat \<Rightarrow> u8 \<Rightarrow> status eio" where
  "DataAddDir_Set a dir0 =
     (let dir = (if dir0 = 0xE1 then 0xE1 else 0xE2) in
      bind_io (on_port a (exchange a dir 1 (\<lambda>b. b ! 0 = dir))) (\<lambda>r. case r of
        Good _ \<Rightarrow> bind_io (change_e (set_coder a (\<lambda>i. linked (set_conf (\<lambda>c. c\<lparr>ec_count_mode := dir\<rparr>) i)))) (\<lambda>_. ret_io SUCC)
      | _ \<Rightarrow> ret_io FAIL))"

definition DataAddDir_Que :: "nat \<Rightarrow> u8 option eio" where
  "DataAddDir_Que a =
     bind_io (on_port a (exchange a 0xC9 1 (\<lambda>b. b ! 0 AND 0xF0 = 0xE0))) (\<lambda>r. case r of
       Good b \<Rightarrow> bind_io (change_e (set_coder a (\<lambda>i. linked (set_conf (\<lambda>c. c\<lparr>ec_count_mode := b ! 0\<rparr>) i)))) (\<lambda>_. ret_io (Some (b ! 0)))
     | _ \<Rightarrow> ret_io None)"

definition Addr_Que :: "nat \<Rightarrow> u8 option eio" where
  "Addr_Que a =
     bind_io (on_port a (exchange a 0xC7 1 (\<lambda>b. b ! 0 AND 0xF0 = 0xC0))) (\<lambda>r. case r of
       Good b \<Rightarrow> bind_io (change_e (set_coder a (\<lambda>i. linked (set_conf (\<lambda>c. c\<lparr>ec_addr := b ! 0 - 0xC0\<rparr>) i)))) (\<lambda>_. ret_io (Some (b ! 0 - 0xC0)))
     | _ \<Rightarrow> ret_io None)"

definition Addr_Set :: "nat \<Rightarrow> u8 \<Rightarrow> status eio" where
  "Addr_Set a addr =
     bind_io (on_port a (exchange a (0xB0 + addr) 1 (\<lambda>b. b ! 0 = 0xB0 + addr))) (\<lambda>r. case r of
       Good _ \<Rightarrow> bind_io (change_e (set_coder a (\<lambda>i. linked (set_conf (\<lambda>c. c\<lparr>ec_addr := addr\<rparr>) i)))) (\<lambda>_. ret_io SUCC)
     | _ \<Rightarrow> ret_io FAIL)"

text \<open>The reading: six bytes of an encoder with more than 16 bits, five of another.\<close>

abbreviation (input) ELEC_ENCODER_UNLINK_NUM :: u8 where "ELEC_ENCODER_UNLINK_NUM \<equiv> 3"

definition is_long :: "nat \<Rightarrow> enc \<Rightarrow> bool" where
  "is_long a s \<longleftrightarrow> ec_bit_num (EleccoderConf (coder a s)) > 16"

definition answer_ok :: "bool \<Rightarrow> bytes \<Rightarrow> bool" where
  "answer_ok long b \<longleftrightarrow> b ! 0 = 0x5A \<and>
     (if long then (b ! 0 + b ! 1 + b ! 2 + b ! 3 + b ! 4) AND 0x7F = b ! 5
      else (b ! 0 + b ! 1 + b ! 2 + b ! 3) AND 0x7F = b ! 4)"

definition answer_data :: "bool \<Rightarrow> bytes \<Rightarrow> u32" where
  "answer_data long b = (if long then push_bit 16 (ucast (b ! 2)) + push_bit 8 (ucast (b ! 3)) + ucast (b ! 4)
     else push_bit 8 (ucast (b ! 2 AND 0x0F)) + ucast (b ! 3))"

definition count_unlinked :: "nat \<Rightarrow> enc \<Rightarrow> enc" where
  "count_unlinked a s0 =
     (let s = s0\<lparr>Elec_coder_UlinkCnt := (Elec_coder_UlinkCnt s0)[a := Elec_coder_UlinkCnt s0 ! a + 1]\<rparr>
      in if Elec_coder_UlinkCnt s ! a > ELEC_ENCODER_UNLINK_NUM
         then set_coder a (\<lambda>i. i\<lparr>EleccoderStat := (EleccoderStat i)\<lparr>es_link_stat := COMM_UNLINK\<rparr>\<rparr>) s else s)"

definition new_reading :: "nat \<Rightarrow> u32 \<Rightarrow> enc \<Rightarrow> enc" where
  "new_reading a data s =
     (set_coder a (\<lambda>i. linked (i\<lparr>EleccoderData :=
         \<lparr>ed_data = data, ed_degree = APP_ElecEncoder_Data2DegreeFloat (of_nat (a + 1)) data s\<rparr>\<rparr>)) s)
       \<lparr>Elec_coder_UlinkCnt := (Elec_coder_UlinkCnt s)[a := 0]\<rparr>"

definition CurrData_Get :: "nat \<Rightarrow> u32 option eio" where
  "CurrData_Get a s0 =
     (let long = is_long a s0 in
      bind_io (on_port a (exchange a (0xA0 + ec_addr (EleccoderConf (coder a s0))) (if long then 6 else 5) (answer_ok long)))
        (\<lambda>r. case r of
          Busy \<Rightarrow> ret_io None
        | Bad \<Rightarrow> bind_io (change_e (count_unlinked a)) (\<lambda>_. ret_io None)
        | Good b \<Rightarrow> bind_io (change_e (new_reading a (answer_data long b))) (\<lambda>_. ret_io (Some (answer_data long b)))) s0)"

definition APP_ElecEncoder_Position_DataAddDir_Set :: "u8 \<Rightarrow> status eio" where
  "APP_ElecEncoder_Position_DataAddDir_Set = DataAddDir_Set 0"
definition APP_ElecEncoder_Cabrage_DataAddDir_Set :: "u8 \<Rightarrow> status eio" where
  "APP_ElecEncoder_Cabrage_DataAddDir_Set = DataAddDir_Set 1"
definition APP_ElecEncoder_Polarization_DataAddDir_Set :: "u8 \<Rightarrow> status eio" where
  "APP_ElecEncoder_Polarization_DataAddDir_Set = DataAddDir_Set 2"
definition APP_ElecEncoder_Position_DataAddDir_Que :: "u8 option eio" where
  "APP_ElecEncoder_Position_DataAddDir_Que = DataAddDir_Que 0"
definition APP_ElecEncoder_Cabrage_DataAddDir_Que :: "u8 option eio" where
  "APP_ElecEncoder_Cabrage_DataAddDir_Que = DataAddDir_Que 1"
definition APP_ElecEncoder_Polarization_DataAddDir_Que :: "u8 option eio" where
  "APP_ElecEncoder_Polarization_DataAddDir_Que = DataAddDir_Que 2"
definition APP_ElecEncoder_Position_Addr_Que :: "u8 option eio" where
  "APP_ElecEncoder_Position_Addr_Que = Addr_Que 0"
definition APP_ElecEncoder_Cabrage_Addr_Que :: "u8 option eio" where
  "APP_ElecEncoder_Cabrage_Addr_Que = Addr_Que 1"
definition APP_ElecEncoder_Polarization_Addr_Que :: "u8 option eio" where
  "APP_ElecEncoder_Polarization_Addr_Que = Addr_Que 2"
definition APP_ElecEncoder_Position_Addr_Set :: "u8 \<Rightarrow> status eio" where
  "APP_ElecEncoder_Position_Addr_Set = Addr_Set 0"
definition APP_ElecEncoder_Cabrage_Addr_Set :: "u8 \<Rightarrow> status eio" where
  "APP_ElecEncoder_Cabrage_Addr_Set = Addr_Set 1"
definition APP_ElecEncoder_Polarization_Addr_Set :: "u8 \<Rightarrow> status eio" where
  "APP_ElecEncoder_Polarization_Addr_Set = Addr_Set 2"
definition APP_ElecEncoder_Position_CurrData_Get :: "u32 option eio" where
  "APP_ElecEncoder_Position_CurrData_Get = CurrData_Get 0"
definition APP_ElecEncoder_Cabrage_CurrData_Get :: "u32 option eio" where
  "APP_ElecEncoder_Cabrage_CurrData_Get = CurrData_Get 1"
definition APP_ElecEncoder_Polarization_CurrData_Get :: "u32 option eio" where
  "APP_ElecEncoder_Polarization_CurrData_Get = CurrData_Get 2"

definition APP_ElecEncoder_DataAddDir_Set :: "u8 \<Rightarrow> u8 \<Rightarrow> status eio" where
  "APP_ElecEncoder_DataAddDir_Set addr dir =
     (if addr = 1 then APP_ElecEncoder_Position_DataAddDir_Set dir
      else if addr = 2 then APP_ElecEncoder_Cabrage_DataAddDir_Set dir
      else APP_ElecEncoder_Polarization_DataAddDir_Set dir)"

definition APP_ElecEncoder_DataAddDir_Get :: "u8 \<Rightarrow> u8 option eio" where
  "APP_ElecEncoder_DataAddDir_Get addr =
     (if addr = 1 then APP_ElecEncoder_Position_DataAddDir_Que
      else if addr = 2 then APP_ElecEncoder_Cabrage_DataAddDir_Que
      else APP_ElecEncoder_Polarization_DataAddDir_Que)"

definition APP_ElecEncoder_CurrData_Get :: "u8 \<Rightarrow> u32 option eio" where
  "APP_ElecEncoder_CurrData_Get addr =
     (if addr = 1 then APP_ElecEncoder_Position_CurrData_Get
      else if addr = 2 then APP_ElecEncoder_Cabrage_CurrData_Get
      else APP_ElecEncoder_Polarization_CurrData_Get)"

section \<open>Initialisation\<close>

text \<open>\<open>SWIFT_UART2_Init\<close> clears the buffer of UART 5 instead of its own.\<close>

definition init_port :: "chan \<Rightarrow> chan" where
  "init_port c = c\<lparr>cwrite := 0, rev_sem := 0, send_sem := 1\<rparr>"

definition SWIFT_UART5_Init :: "enc \<Rightarrow> enc" where
  "SWIFT_UART5_Init s = s\<lparr>ports := (ports s)[0 := init_port ((ports s ! 0)\<lparr>cbuff := replicate 32 0\<rparr>)]\<rparr>"

definition SWIFT_UART2_Init :: "enc \<Rightarrow> enc" where
  "SWIFT_UART2_Init s = s\<lparr>ports := (ports s)[0 := (ports s ! 0)\<lparr>cbuff := replicate 32 0\<rparr>, 1 := init_port (ports s ! 1)]\<rparr>"

definition SWIFT_UART1_Init :: "enc \<Rightarrow> enc" where
  "SWIFT_UART1_Init s = s\<lparr>ports := (ports s)[2 := init_port ((ports s ! 2)\<lparr>cbuff := replicate 32 0\<rparr>)]\<rparr>"

definition init_conf :: "u8 \<Rightarrow> u8 \<Rightarrow> unit eio" where
  "init_conf addr bits =
     (let a = unat addr - 1 in
      bind_io (change_e (set_coder a (set_conf (\<lambda>c. c\<lparr>ec_addr := addr, ec_comm_interface := 0, ec_comm_rate := 9600\<rparr>)))) (\<lambda>_.
      bind_io (\<lambda>s. bind_f (APP_PARAM_ElecCode_count_mode_Read addr (ec_count_mode (EleccoderConf (coder a s))) (eep s))
          (\<lambda>((_, m), w). Inr (m, s\<lparr>eep := w\<rparr>))) (\<lambda>m.
        change_e (set_coder a (set_conf (\<lambda>c. c\<lparr>ec_count_mode := m, ec_bit_num := bits\<rparr>))))))"

definition APP_ElecEncoder_Init :: "status eio" where
  "APP_ElecEncoder_Init =
     bind_io (init_conf 1 17) (\<lambda>_. bind_io (change_e SWIFT_UART5_Init) (\<lambda>_.
     bind_io (init_conf 2 17) (\<lambda>_. bind_io (change_e SWIFT_UART2_Init) (\<lambda>_.
     bind_io (init_conf 3 12) (\<lambda>_. bind_io (change_e SWIFT_UART1_Init) (\<lambda>_.
     bind_io (change_e (\<lambda>s. s\<lparr>ports := map (\<lambda>c. c\<lparr>user_sem := 1\<rparr>) (ports s)\<rparr>)) (\<lambda>_. ret_io SUCC)))))))"

end
