(* ===== verification/Angles.thy ===== *)
theory Angles
  imports Encoder
begin

text \<open>
  From encoder readings to the antenna's angles: the two conversions of
  \<open>APP/src/app_monitor.c\<close> and \<open>APP_ElecEncoder_DataAddDir_Adjust\<close>, which finds out which way an
  encoder counts. A local variable that a path of the C code reads before it has a value is a
  parameter: \<open>stack\<close> holds what stood in its place.
\<close>

section \<open>Degrees of the antenna\<close>

definition coder_of :: "nat \<Rightarrow> strACUDevInfo \<Rightarrow> strEleccoderInfo" where
  "coder_of a d = EleccoderInfo (DeviceInfo d) ! a"

definition map_of_axis :: "nat \<Rightarrow> strACUDevInfo \<Rightarrow> strElecCoderMapAntenna" where
  "map_of_axis a d = ElecCoderMapAntenna (AllElecCoderMapAntenna (DeviceInfo d)) ! a"

definition has_link :: "nat \<Rightarrow> strACUDevInfo \<Rightarrow> bool" where
  "has_link a d \<longleftrightarrow> es_link_stat (EleccoderStat (coder_of a d)) = COMM_LINK"

definition same_mode :: "nat \<Rightarrow> strACUDevInfo \<Rightarrow> bool" where
  "same_mode a d \<longleftrightarrow> ElecCoder_count_mode (map_of_axis a d) = ec_count_mode (EleccoderConf (coder_of a d))"

definition d_value :: "nat \<Rightarrow> fp32 \<Rightarrow> strACUDevInfo \<Rightarrow> fp32" where
  "d_value a degree d = f32 (degree - ElecCoder_degree (map_of_axis a d))"

definition mapped :: "nat \<Rightarrow> fp32 \<Rightarrow> strACUDevInfo \<Rightarrow> fp32" where
  "mapped a degree d =
     (if same_mode a d then f32 (Antenna_degree (map_of_axis a d) + d_value a degree d)
      else f32 (Antenna_degree (map_of_axis a d) - d_value a degree d))"

definition wrap_position :: "fp32 \<Rightarrow> fp32" where
  "wrap_position x = (if x < 0 then f32 (x + 360) else if x \<ge> 360 then f32 (x - 360) else x)"

definition wrap_cabrage :: "fp32 \<Rightarrow> fp32" where
  "wrap_cabrage x = (if x < 0 then 0 else if x \<ge> 360 then f32 (x - 360) else x)"

definition wrap_polar :: "fp32 \<Rightarrow> fp32" where
  "wrap_polar x = (if x \<le> -180 then f32 (x + 360) else if x \<ge> 180 then f32 (x - 360) else x)"

definition polar_type :: "strACUDevInfo \<Rightarrow> fp32 \<Rightarrow> fp32" where
  "polar_type d x =
     (if SatPolarType (AllElecCoderMapAntenna (DeviceInfo d)) = 2 then f32 (x - 90)
      else if SatPolarType (AllElecCoderMapAntenna (DeviceInfo d)) = 1 then f32 (x + 90) else x)"

definition three_coders :: "strACUDevInfo \<Rightarrow> bool" where
  "three_coders d \<longleftrightarrow> ant_elec_coder_num (AntennaParam (ACUParam d)) = 3"

text \<open>The elevation with a reversed encoder: the difference is assigned to
  \<open>antenna_position_degree\<close>, which nothing reads any more.\<close>

definition APP_MONITOR_LocallAntennaRealDegreeDataGet :: "fp32 \<times> fp32 \<times> fp32 \<Rightarrow> strACUDevInfo \<Rightarrow> strACUDevInfo" where
  "APP_MONITOR_LocallAntennaRealDegreeDataGet stack d =
     (let (stack_position, stack_cabrage, stack_polar) = stack;
          degree = (\<lambda>a. ed_degree (EleccoderData (coder_of a d)));
          position = (if has_link 0 d then wrap_position (mapped 0 (degree 0) d) else stack_position);
          cabrage = (if has_link 1 d then wrap_cabrage (if same_mode 1 d then mapped 1 (degree 1) d else stack_cabrage)
                     else stack_cabrage);
          polar = (if three_coders d \<and> has_link 2 d then wrap_polar (mapped 2 (degree 2) d) else stack_polar)
      in d\<lparr>ACUCurrSta := (ACUCurrSta d)\<lparr>antenna_position := position, antenna_cabrage := cabrage,
             antenna_polar := polar_type d polar\<rparr>\<rparr>)"

text \<open>The same for one axis and a given degree, or nothing.\<close>

definition APP_MONITOR_LocallAntennaAdjustDegreeDataGet :: "u8 \<Rightarrow> fp32 \<Rightarrow> strACUDevInfo \<Rightarrow> fp32 option" where
  "APP_MONITOR_LocallAntennaAdjustDegreeDataGet part_id degree d =
     (if has_link 0 d \<and> part_id = motor_position_id then Some (wrap_position (mapped 0 degree d))
      else if has_link 1 d \<and> part_id = motor_cabrage_id then Some (wrap_cabrage (mapped 1 degree d))
      else if three_coders d \<and> has_link 2 d \<and> part_id = motor_polar_id
      then Some (polar_type d (wrap_polar (mapped 2 degree d)))
      else None)"

section \<open>Which way an encoder counts\<close>

definition sample :: "nat \<Rightarrow> u32 eio" where
  "sample a s = (case observed s of [] \<Rightarrow> Inr (ed_data (EleccoderData (coder a s)), s)
     | x # xs \<Rightarrow> Inr (x, set_coder a (\<lambda>i. i\<lparr>EleccoderData := (EleccoderData i)\<lparr>ed_data := x\<rparr>\<rparr>) (s\<lparr>observed := xs\<rparr>)))"

definition add_flag :: "u32 \<Rightarrow> u32 \<Rightarrow> u8" where
  "add_flag x y = (if x < y then 1 else 0)"

text \<open>When the first two comparisons differ the flag is taken from the samples.\<close>

definition add_flag_now :: "u32 \<Rightarrow> u32 \<Rightarrow> u32 \<Rightarrow> u32 \<Rightarrow> u8" where
  "add_flag_now d0 d1 d2 d3 =
     (if add_flag d0 d1 = add_flag d1 d2 then add_flag d0 d1
      else if add_flag d0 d1 = add_flag d2 d3 then ucast d0 else ucast d1)"

definition set_twice :: "u8 \<Rightarrow> u8 \<Rightarrow> status eio" where
  "set_twice part mode =
     bind_io (APP_ElecEncoder_DataAddDir_Set part mode) (\<lambda>r.
       if r = FAIL then APP_ElecEncoder_DataAddDir_Set part mode else ret_io r)"

definition save_mode :: "u8 \<Rightarrow> u8 \<Rightarrow> status eio" where
  "save_mode part mode s = bind_f (APP_PARAM_ElecCode_count_mode_Save part mode (eep s)) (\<lambda>(r, w). Inr (r, s\<lparr>eep := w\<rparr>))"

definition APP_ElecEncoder_DataAddDir_Adjust :: "u8 \<Rightarrow> u8 \<Rightarrow> u8 \<Rightarrow> status eio" where
  "APP_ElecEncoder_DataAddDir_Adjust stack part dir =
     (let add_dir_will = (if dir = ANTENNA_DIR_RIGHT_UP_CLOCK then 1 else 0); a = unat part - 1 in
      bind_io (sample a) (\<lambda>d0. bind_io (sample a) (\<lambda>d1. bind_io (sample a) (\<lambda>d2. bind_io (sample a) (\<lambda>d3.
      if (d0 = d1 \<and> d0 = d2) \<or> (d1 = d2 \<and> d1 = d3) then ret_io FAIL
      else bind_io (APP_ElecEncoder_DataAddDir_Get part) (\<lambda>m.
        let mode = (case m of None \<Rightarrow> stack | Some x \<Rightarrow> x);
            turn = add_dir_will \<noteq> add_flag_now d0 d1 d2 d3;
            mode1 = (if \<not> turn then mode else if mode = 0xE1 then 0xE2 else 0xE1) in
        bind_io (if turn then set_twice part mode1 else ret_io SUCC) (\<lambda>r.
          if r = FAIL then ret_io FAIL
          else bind_io (save_mode part mode1) (\<lambda>q.
            bind_io (if q = FAIL then save_mode part mode1 else ret_io q) (\<lambda>_.
            bind_io (change_e (set_coder a (set_conf (\<lambda>c. c\<lparr>ec_count_mode := mode1\<rparr>)))) (\<lambda>_. ret_io r))))))))))"

end
