(* ===== verification/EncoderLaws.thy ===== *)
theory EncoderLaws
  imports Encoder
begin

text \<open>
  The exchanges with the encoders: the ports stay usable whatever arrives on them, as long as
  no burst exceeds the local buffer; a reading is taken from a complete, checked answer only;
  an encoder that is silent loses its link after the fourth try.
\<close>

section \<open>One port\<close>

definition free :: "chan \<Rightarrow> bool" where
  "free c \<longleftrightarrow> user_sem c = 1 \<and> send_sem c = 1 \<and> length (cbuff c) = 32 \<and> cwrite c < 32"

definition short :: "chan \<Rightarrow> bool" where
  "short c \<longleftrightarrow> (\<forall>(now, later) \<in> set (arrivals c). length now \<le> 8)"

lemma int_handler_same [simp]: "int_handler a = SWIFT_UART5_IntHandler"
  by (simp add: SWIFT_UART2_IntHandler_def SWIFT_UART1_IntHandler_def fun_eq_iff)

declare int_handler.simps [simp del]

lemma handler_eq:
  assumes "length (cbuff c) = 32" "cwrite c < 32"
  shows "SWIFT_UART5_IntHandler b c = Inr (c\<lparr>cbuff := (cbuff c)[cwrite c := b], cwrite := (cwrite c + 1) mod 32,
    rev_sem := rev_sem c + (if unat (predict c) \<le> (cwrite c + 1) mod 32 \<and> predict c > 0 then 1 else 0)\<rparr>)"
proof (cases "cwrite c = 31")
  case True
  then show ?thesis using assms by (simp add: SWIFT_UART5_IntHandler_def Let_def)
next
  case False
  then have "cwrite c + 1 < 32" using assms by simp
  then show ?thesis using assms by (simp add: SWIFT_UART5_IntHandler_def Let_def)
qed

lemma interrupts_run:
  assumes "length (cbuff c) = 32" "cwrite c < 32"
  shows "\<exists>c'. interrupts a bs c = Inr c' \<and> length (cbuff c') = 32 \<and> cwrite c' < 32 \<and> user_sem c' = user_sem c
    \<and> send_sem c' = send_sem c \<and> predict c' = predict c \<and> arrivals c' = arrivals c \<and> csent c' = csent c
    \<and> (predict c = 0 \<longrightarrow> rev_sem c' = rev_sem c)"
  using assms
proof (induction bs arbitrary: c)
  case (Cons b bs)
  have "\<exists>c1. SWIFT_UART5_IntHandler b c = Inr c1 \<and> length (cbuff c1) = 32 \<and> cwrite c1 < 32 \<and> user_sem c1 = user_sem c
    \<and> send_sem c1 = send_sem c \<and> predict c1 = predict c \<and> arrivals c1 = arrivals c \<and> csent c1 = csent c
    \<and> (predict c = 0 \<longrightarrow> rev_sem c1 = rev_sem c)"
    using Cons.prems handler_eq [OF Cons.prems, of b] by simp
  then obtain c1 where "SWIFT_UART5_IntHandler b c = Inr c1" "length (cbuff c1) = 32" "cwrite c1 < 32" "user_sem c1 = user_sem c"
    "send_sem c1 = send_sem c" "predict c1 = predict c" "arrivals c1 = arrivals c" "csent c1 = csent c"
    "predict c = 0 \<longrightarrow> rev_sem c1 = rev_sem c" by blast
  then show ?case using Cons.IH [of c1] by simp
qed simp

text \<open>Bytes that arrive into an empty buffer and stay within it.\<close>

lemma interrupts_fill:
  assumes "length (cbuff c) = 32" "cwrite c + length bs < 32"
  shows "interrupts a bs c = Inr (c\<lparr>cbuff := take (cwrite c) (cbuff c) @ bs @ drop (cwrite c + length bs) (cbuff c),
    cwrite := cwrite c + length bs,
    rev_sem := rev_sem c + (if predict c = 0 then 0
      else length (filter (\<lambda>i. unat (predict c) \<le> i) [cwrite c + 1..<cwrite c + length bs + 1]))\<rparr>)"
  using assms
proof (induction bs arbitrary: c)
  case (Cons b bs)
  define c1 where "c1 = c\<lparr>cbuff := (cbuff c)[cwrite c := b], cwrite := cwrite c + 1,
    rev_sem := rev_sem c + (if unat (predict c) \<le> cwrite c + 1 \<and> predict c > 0 then 1 else 0)\<rparr>"
  have h: "SWIFT_UART5_IntHandler b c = Inr c1"
    using Cons.prems handler_eq [of c b] by (simp add: c1_def)
  have l: "length (cbuff c1) = 32" "cwrite c1 + length bs < 32" using Cons.prems by (simp_all add: c1_def)
  have b: "take (cwrite c + 1) ((cbuff c)[cwrite c := b]) = take (cwrite c) (cbuff c) @ [b]"
    using Cons.prems by (simp add: take_Suc_conv_app_nth)
  have u: "[cwrite c + 1..<cwrite c + length (b # bs) + 1] = (cwrite c + 1) # [cwrite c + 2..<cwrite c + 1 + length bs + 1]"
    using upt_conv_Cons [of "cwrite c + 1" "cwrite c + 1 + length bs + 1"] by simp
  have p: "0 < predict c \<longleftrightarrow> predict c \<noteq> 0" by (simp add: word_neq_0_conv)
  show ?case
    unfolding interrupts.simps int_handler_same h bind_f_simps Cons.IH [OF l] u
    using b Cons.prems by (simp add: c1_def p)
qed simp

lemma free_clear [simp]: "length (cbuff (RecvBuff_Clear c)) = 32" "cwrite (RecvBuff_Clear c) = 0"
  "user_sem (RecvBuff_Clear c) = user_sem c" "send_sem (RecvBuff_Clear c) = send_sem c" "predict (RecvBuff_Clear c) = predict c"
  "arrivals (RecvBuff_Clear c) = arrivals c" "rev_sem (RecvBuff_Clear c) = rev_sem c" "csent (RecvBuff_Clear c) = csent c"
  by (simp_all add: RecvBuff_Clear_def)

abbreviation (input) now_of :: "chan \<Rightarrow> bytes" where
  "now_of c \<equiv> (case arrivals c of [] \<Rightarrow> [] | (now, later) # _ \<Rightarrow> now)"
abbreviation (input) later_of :: "chan \<Rightarrow> bytes" where
  "later_of c \<equiv> (case arrivals c of [] \<Rightarrow> [] | (now, later) # _ \<Rightarrow> later)"

text \<open>The wait after a command was sent: what the interrupt left, and whether it posted.\<close>

lemma await_run:
  assumes "send_sem c = 1" "length (now_of c) < 32"
  shows "\<exists>w c'. bind_io (SendBuff [cmd]) (\<lambda>_. await_answer a) c = Inr (w, c')
    \<and> (w \<longleftrightarrow> 0 < rev_sem c \<or> predict c \<noteq> 0 \<and> unat (predict c) \<le> length (now_of c))
    \<and> cwrite c' = length (now_of c) \<and> take (cwrite c') (cbuff c') = now_of c \<and> length (cbuff c') = 32
    \<and> user_sem c' = user_sem c \<and> send_sem c' = 1 \<and> predict c' = predict c \<and> arrivals c' = arrivals c
    \<and> csent c' = csent c @ [[cmd]]
    \<and> rev_sem c' = rev_sem c + (if predict c = 0 then 0 else length (now_of c) + 1 - unat (predict c)) - 1"
proof -
  let ?c = "(RecvBuff_Clear c)\<lparr>csent := csent c @ [[cmd]]\<rparr>" and ?n = "length (now_of c)"
  have f: "length (filter (\<lambda>i. k \<le> i) [1..<n + 1]) = n + 1 - k" if "0 < k" for k n
  proof (induction n)
    case (Suc n)
    then show ?case using that by auto
  qed (use that in simp)
  have n: "interrupts a (now_of c) ?c = Inr (?c\<lparr>cbuff := now_of c @ drop ?n (cbuff ?c), cwrite := ?n,
      rev_sem := rev_sem c + (if predict c = 0 then 0 else ?n + 1 - unat (predict c))\<rparr>)"
    using interrupts_fill [of ?c "now_of c" a] assms(2) f [of "unat (predict c)"]
    by (auto simp: word_neq_0_conv [symmetric] unat_gt_0)
  have p: "predict c \<noteq> 0 \<Longrightarrow> 0 < unat (predict c)" by (simp add: unat_gt_0)
  show ?thesis
    using assms n p unfolding bind_io_def SendBuff_def await_answer_def
    by (auto simp: Let_def)
qed

definition settled :: "u8 \<Rightarrow> (bytes \<Rightarrow> bool) \<Rightarrow> chan \<Rightarrow> bool" where
  "settled n right c \<longleftrightarrow> (0 < rev_sem c \<or> unat n \<le> length (now_of c)) \<and> length (now_of c) \<le> unat n
     \<and> right (copy_over (replicate 8 0) (now_of c))"

lemma next_run:
  assumes "length (cbuff c) = 32" "cwrite c < 32"
  shows "\<exists>c'. next_arrivals a c = Inr ((), c') \<and> length (cbuff c') = 32 \<and> cwrite c' < 32 \<and> user_sem c' = user_sem c
    \<and> send_sem c' = send_sem c \<and> predict c' = predict c \<and> arrivals c' = tl (arrivals c) \<and> csent c' = csent c
    \<and> (predict c = 0 \<or> later_of c = [] \<longrightarrow> rev_sem c' = rev_sem c)"
proof (cases "arrivals c")
  case Nil
  then show ?thesis using assms by (simp add: next_arrivals_def)
next
  case (Cons x rest)
  then obtain now later where x: "arrivals c = (now, later) # rest" by (cases x) auto
  obtain c' where "interrupts a later (c\<lparr>arrivals := rest\<rparr>) = Inr c'" "length (cbuff c') = 32" "cwrite c' < 32"
    "user_sem c' = user_sem c" "send_sem c' = send_sem c" "predict c' = predict c" "arrivals c' = rest" "csent c' = csent c"
    "predict c = 0 \<longrightarrow> rev_sem c' = rev_sem c"
    using interrupts_run [of "c\<lparr>arrivals := rest\<rparr>" a later] assms by auto
  then show ?thesis using x by (cases later) (auto simp: next_arrivals_def)
qed

lemma bind_io_assoc: "bind_io (bind_io m k) l = bind_io m (\<lambda>x. bind_io (k x) l)"
  by (auto simp: fun_eq_iff bind_io_def bind_f_def split: sum.splits)

lemma exchange_split:
  assumes "user_sem c \<noteq> 0" "bind_io (SendBuff [cmd]) (\<lambda>_. await_answer a) (c\<lparr>user_sem := user_sem c - 1, predict := n\<rparr>) = Inr (w, c1)"
  shows "exchange a cmd n right c = bind_io (if \<not> w then drop_answer
      else bind_io RecvBuff (\<lambda>(Revbuff, len).
        if len > unat n \<or> \<not> right Revbuff then drop_answer
        else bind_io (change_c (\<lambda>c. c\<lparr>user_sem := user_sem c + 1\<rparr>)) (\<lambda>_. ret_io (Good Revbuff)))) (\<lambda>r.
    bind_io (next_arrivals a) (\<lambda>_. ret_io r)) c1"
proof -
  have "exchange a cmd n right c = bind_io (bind_io (SendBuff [cmd]) (\<lambda>_. await_answer a)) (\<lambda>w.
      bind_io (if \<not> w then drop_answer
      else bind_io RecvBuff (\<lambda>(Revbuff, len).
        if len > unat n \<or> \<not> right Revbuff then drop_answer
        else bind_io (change_c (\<lambda>c. c\<lparr>user_sem := user_sem c + 1\<rparr>)) (\<lambda>_. ret_io (Good Revbuff)))) (\<lambda>r.
      bind_io (next_arrivals a) (\<lambda>_. ret_io r))) (c\<lparr>user_sem := user_sem c - 1, predict := n\<rparr>)"
    unfolding bind_io_assoc using assms(1)
    by (simp add: exchange_def bind_io_def [of "change_c f" for f] change_c_def)
  then show ?thesis by (simp only: bind_io_def [of "bind_io (SendBuff [cmd]) (\<lambda>_. await_answer a)"] assms(2) bind_f_simps split_conv)
qed

lemma exchange_run:
  assumes "free c" "length (now_of c) \<le> 8" "n \<noteq> 0"
  shows "\<exists>c'. exchange a cmd n right c =
      Inr (if settled n right c then Good (copy_over (replicate 8 0) (now_of c)) else Bad, c')
    \<and> free c' \<and> arrivals c' = tl (arrivals c) \<and> csent c' = csent c @ [[cmd]]
    \<and> predict c' = (if settled n right c then n else 0)
    \<and> (\<not> settled n right c \<or> later_of c = [] \<longrightarrow> rev_sem c' = rev_sem c + (length (now_of c) + 1 - unat n) - 1)"
proof -
  let ?c = "c\<lparr>user_sem := user_sem c - 1, predict := n\<rparr>" and ?now = "now_of c"
  have u: "user_sem c = 1" "send_sem c = 1" using assms(1) by (simp_all add: free_def)
  have "length (now_of ?c) < 32" using assms(2) by simp
  moreover have "send_sem ?c = 1" using u by simp
  ultimately obtain w c1 where "bind_io (SendBuff [cmd]) (\<lambda>_. await_answer a) ?c = Inr (w, c1)"
    "w \<longleftrightarrow> 0 < rev_sem ?c \<or> predict ?c \<noteq> 0 \<and> unat (predict ?c) \<le> length (now_of ?c)"
    "cwrite c1 = length (now_of ?c)" "take (cwrite c1) (cbuff c1) = now_of ?c" "length (cbuff c1) = 32"
    "user_sem c1 = user_sem ?c" "send_sem c1 = 1" "predict c1 = predict ?c" "arrivals c1 = arrivals ?c" "csent c1 = csent ?c @ [[cmd]]"
    "rev_sem c1 = rev_sem ?c + (if predict ?c = 0 then 0 else length (now_of ?c) + 1 - unat (predict ?c)) - 1"
    using await_run by blast
  then have w: "bind_io (SendBuff [cmd]) (\<lambda>_. await_answer a) ?c = Inr (w, c1)"
    "w \<longleftrightarrow> 0 < rev_sem c \<or> unat n \<le> length ?now" "cwrite c1 = length ?now" "take (cwrite c1) (cbuff c1) = ?now"
    "length (cbuff c1) = 32" "user_sem c1 = 0" "send_sem c1 = 1" "predict c1 = n" "arrivals c1 = arrivals c"
    "csent c1 = csent c @ [[cmd]]" "rev_sem c1 = rev_sem c + (length ?now + 1 - unat n) - 1"
    using assms(3) u by simp_all
  let ?R = "copy_over (replicate 8 0) ?now"
  define c2 where "c2 = (if w then c1\<lparr>cwrite := 0\<rparr> else c1)"
  define c3 where "c3 = (if settled n right c then c2\<lparr>user_sem := 1\<rparr> else c2\<lparr>predict := 0, user_sem := 1\<rparr>)"
  have "exchange a cmd n right c = bind_io (next_arrivals a) (\<lambda>_. ret_io (if settled n right c then Good ?R else Bad)) c3"
  proof -
    have r: "RecvBuff c1 = Inr ((?R, length ?now), c1\<lparr>cwrite := 0\<rparr>)"
      using assms(2) w(3,4) by (simp add: RecvBuff_def)
    have d: "drop_answer x = Inr (Bad, x\<lparr>predict := 0, user_sem := user_sem x + 1\<rparr>)" for x
      by (simp add: drop_answer_def change_c_def bind_io_def ret_io_def)
    have e: "user_sem c \<noteq> 0" using u by simp
    show ?thesis
    proof (cases w)
      case False
      then have "\<not> settled n right c" using w(2) by (simp add: settled_def)
      then show ?thesis
        unfolding exchange_split [OF e w(1)] using w(6) False by (simp add: bind_io_def [of drop_answer] d c3_def c2_def)
    next
      case True
      then have "settled n right c \<longleftrightarrow> length ?now \<le> unat n \<and> right ?R" using w(2) by (auto simp: settled_def)
      then show ?thesis
        unfolding exchange_split [OF e w(1)] using w(6) True
        by (cases "settled n right c")
          (auto simp add: bind_io_assoc bind_io_def [of RecvBuff] r bind_io_def [of drop_answer] bind_io_def [of "change_c f" for f] change_c_def d c3_def c2_def)
    qed
  qed
  moreover have "length (cbuff c3) = 32" "cwrite c3 < 32" "user_sem c3 = 1" "send_sem c3 = 1" "arrivals c3 = arrivals c"
    "csent c3 = csent c @ [[cmd]]" "rev_sem c3 = rev_sem c + (length ?now + 1 - unat n) - 1"
    "predict c3 = (if settled n right c then n else 0)"
    using w assms(2) by (simp_all add: c3_def c2_def)
  moreover obtain c4 where "next_arrivals a c3 = Inr ((), c4)" "length (cbuff c4) = 32" "cwrite c4 < 32" "user_sem c4 = user_sem c3"
    "send_sem c4 = send_sem c3" "predict c4 = predict c3" "arrivals c4 = tl (arrivals c3)" "csent c4 = csent c3"
    "predict c3 = 0 \<or> later_of c3 = [] \<longrightarrow> rev_sem c4 = rev_sem c3"
    using next_run [OF calculation(2,3)] by blast
  ultimately show ?thesis
    by (intro exI [of _ c4]) (auto simp: free_def bind_io_def ret_io_def)
qed

lemma burst_overruns:
  assumes "free c" "8 < length (now_of c)" "length (now_of c) < 32" "0 < n" "unat n \<le> 8"
  shows "exchange a cmd n right c = Inl OutOfBounds"
proof -
  let ?c = "c\<lparr>user_sem := user_sem c - 1, predict := n\<rparr>"
  have n: "n \<noteq> 0" using assms(4) by auto
  have "length (now_of ?c) < 32" "send_sem ?c = 1" using assms(1,3) by (simp_all add: free_def)
  then obtain w c1 where w: "bind_io (SendBuff [cmd]) (\<lambda>_. await_answer a) ?c = Inr (w, c1)"
    "w \<longleftrightarrow> 0 < rev_sem ?c \<or> predict ?c \<noteq> 0 \<and> unat (predict ?c) \<le> length (now_of ?c)" "cwrite c1 = length (now_of ?c)"
    using await_run by blast
  have "w" "cwrite c1 = length (now_of c)" using w(2,3) n assms(2,5) by simp_all
  then have "RecvBuff c1 = Inl OutOfBounds" using assms(2) by (simp add: RecvBuff_def)
  moreover have "user_sem c \<noteq> 0" using assms(1) by (simp add: free_def)
  ultimately show ?thesis
    unfolding exchange_split [OF \<open>user_sem c \<noteq> 0\<close> w(1)] using \<open>w\<close> by (simp add: bind_io_assoc)
qed

section \<open>All ports\<close>

definition ready :: "enc \<Rightarrow> bool" where
  "ready s \<longleftrightarrow> length (ports s) = 3 \<and> length (Elec_coder_UlinkCnt s) = 3
     \<and> length (EleccoderInfo (DeviceInfo (acu (eep s)))) = 3 \<and> (\<forall>c \<in> set (ports s). free c \<and> short c)"

lemma ready_port: "ready s \<Longrightarrow> a < 3 \<Longrightarrow> free (ports s ! a) \<and> length (now_of (ports s ! a)) \<le> 8 \<and> short (ports s ! a)"
proof -
  assume "ready s" "a < 3"
  then have "ports s ! a \<in> set (ports s)" by (simp add: ready_def)
  then have "free (ports s ! a)" "short (ports s ! a)" using \<open>ready s\<close> by (simp_all add: ready_def)
  then show ?thesis by (auto simp: short_def split: list.splits)
qed

lemma short_tl: "short c \<Longrightarrow> arrivals c' = tl (arrivals c) \<Longrightarrow> short c'"
  by (cases "arrivals c") (auto simp: short_def)

lemma ready_sel [simp]:
  "ports (set_coder a f s) = ports s" "Elec_coder_UlinkCnt (set_coder a f s) = Elec_coder_UlinkCnt s"
  "coder b (s\<lparr>ports := p\<rparr>) = coder b s" "coder b (s\<lparr>Elec_coder_UlinkCnt := u\<rparr>) = coder b s"
  "ready (s\<lparr>Elec_coder_UlinkCnt := (Elec_coder_UlinkCnt s)[a := v]\<rparr>) = ready s" "ready (set_coder a f s) = ready s"
  by (simp_all add: ready_def set_coder_def coder_def)

lemma coder_set [simp]:
  "ready s \<Longrightarrow> a < 3 \<Longrightarrow> coder b (set_coder a f s) = (if b = a then f (coder a s) else coder b s)"
  by (simp add: ready_def coder_def set_coder_def nth_list_update)

lemma ready_change:
  assumes "ready s" "free c" "short c"
  shows "ready (s\<lparr>ports := (ports s)[a := c]\<rparr>)"
  using assms by (auto simp: ready_def dest: set_update_subset_insert [THEN subsetD])

lemma port_run:
  assumes "ready s" "a < 3" "n \<noteq> 0"
  defines "c \<equiv> ports s ! a"
  shows "\<exists>c'. on_port a (exchange a cmd n right) s =
      Inr (if settled n right c then Good (copy_over (replicate 8 0) (now_of c)) else Bad, s\<lparr>ports := (ports s)[a := c']\<rparr>)
    \<and> ready (s\<lparr>ports := (ports s)[a := c']\<rparr>) \<and> arrivals c' = tl (arrivals c) \<and> csent c' = csent c @ [[cmd]]
    \<and> predict c' = (if settled n right c then n else 0)
    \<and> (\<not> settled n right c \<or> later_of c = [] \<longrightarrow> rev_sem c' = rev_sem c + (length (now_of c) + 1 - unat n) - 1)"
proof -
  have c: "free c" "length (now_of c) \<le> 8" "short c" using ready_port [OF assms(1,2)] by (simp_all add: c_def)
  obtain c' where "exchange a cmd n right c = Inr (if settled n right c then Good (copy_over (replicate 8 0) (now_of c)) else Bad, c')"
    "free c'" "arrivals c' = tl (arrivals c)" "csent c' = csent c @ [[cmd]]" "predict c' = (if settled n right c then n else 0)"
    "\<not> settled n right c \<or> later_of c = [] \<longrightarrow> rev_sem c' = rev_sem c + (length (now_of c) + 1 - unat n) - 1"
    using exchange_run [OF c(1,2) assms(3)] by blast
  then show ?thesis
    using ready_change [OF assms(1) \<open>free c'\<close> short_tl [OF c(3)]] by (intro exI [of _ c']) (simp add: on_port_def c_def)
qed

text \<open>The answer a port holds to the reading command.\<close>

definition reading :: "nat \<Rightarrow> enc \<Rightarrow> u32 option" where
  "reading a s = (let c = ports s ! a; long = is_long a s in
     if settled (if long then 6 else 5) (answer_ok long) c
     then Some (answer_data long (copy_over (replicate 8 0) (now_of c))) else None)"

lemma read_run:
  assumes "ready s" "a < 3"
  shows "\<exists>c'. let s1 = s\<lparr>ports := (ports s)[a := c']\<rparr> in
      CurrData_Get a s = Inr (reading a s, case reading a s of None \<Rightarrow> count_unlinked a s1 | Some d \<Rightarrow> new_reading a d s1)
    \<and> ready s1 \<and> arrivals c' = tl (arrivals (ports s ! a))
    \<and> csent c' = csent (ports s ! a) @ [[0xA0 + ec_addr (EleccoderConf (coder a s))]]
    \<and> (reading a s = None \<or> later_of (ports s ! a) = [] \<longrightarrow> rev_sem c' = rev_sem (ports s ! a)
        + (length (now_of (ports s ! a)) + 1 - (if is_long a s then 6 else 5)) - 1)
    \<and> predict c' = (if reading a s = None then 0 else if is_long a s then 6 else 5)"
proof -
  let ?n = "if is_long a s then 6 else 5 :: u8"
  have n: "?n \<noteq> 0" "unat ?n = (if is_long a s then 6 else 5)" by simp_all
  show ?thesis
    using port_run [OF assms n(1), of "0xA0 + ec_addr (EleccoderConf (coder a s))" "answer_ok (is_long a s)"]
    unfolding n(2)
    by (elim exE, rule_tac x = c' in exI)
      (auto simp: CurrData_Get_def Let_def reading_def bind_io_def change_e_def ret_io_def)
qed

end
