(* ===== verification/EncoderProps.thy ===== *)
theory EncoderProps
  imports EncoderLaws
begin

text \<open>
  What the encoder exchanges guarantee: any sequence of them returns and leaves the ports
  usable, a reading is taken from a complete checked answer only, its degrees are within the
  circle, and a silent encoder loses its link. And what they do not: a burst, a surplus byte, a
  flipped upper bit.
\<close>

section \<open>Any sequence of exchanges\<close>

datatype coder_cmd = SetDir nat u8 | QueDir nat | SetAddr nat u8 | QueAddr nat | Read nat

fun cmd_axis :: "coder_cmd \<Rightarrow> nat" where
  "cmd_axis (SetDir a _) = a" | "cmd_axis (QueDir a) = a" | "cmd_axis (SetAddr a _) = a" | "cmd_axis (QueAddr a) = a"
| "cmd_axis (Read a) = a"

fun run_cmd :: "coder_cmd \<Rightarrow> enc \<Rightarrow> fault + enc" where
  "run_cmd (SetDir a d) s = bind_f (DataAddDir_Set a d s) (\<lambda>(_, s'). Inr s')"
| "run_cmd (QueDir a) s = bind_f (DataAddDir_Que a s) (\<lambda>(_, s'). Inr s')"
| "run_cmd (SetAddr a v) s = bind_f (Addr_Set a v s) (\<lambda>(_, s'). Inr s')"
| "run_cmd (QueAddr a) s = bind_f (Addr_Que a s) (\<lambda>(_, s'). Inr s')"
| "run_cmd (Read a) s = bind_f (CurrData_Get a s) (\<lambda>(_, s'). Inr s')"

fun run_cmds :: "coder_cmd list \<Rightarrow> enc \<Rightarrow> fault + enc" where
  "run_cmds [] s = Inr s"
| "run_cmds (x # xs) s = bind_f (run_cmd x s) (run_cmds xs)"

definition sent_bytes :: "nat \<Rightarrow> enc \<Rightarrow> nat" where
  "sent_bytes a s = length (concat (csent (ports s ! a)))"

lemma ready_count [simp]: "ready (count_unlinked a s) = ready s" "ports (count_unlinked a s) = ports s"
  by (simp_all add: count_unlinked_def Let_def)

lemma ready_new [simp]: "ready (new_reading a d s) = ready s" "ports (new_reading a d s) = ports s"
  by (simp_all add: new_reading_def ready_def set_coder_def)

lemma exchange_then:
  assumes "ready s" "a < 3" "n \<noteq> 0"
    "\<And>r t. \<exists>x t'. k r t = Inr (x, t') \<and> ports t' = ports t \<and> ready t' = ready t"
  shows "\<exists>x s'. bind_io (on_port a (exchange a cmd n right)) k s = Inr (x, s') \<and> ready s'
    \<and> (\<forall>b < 3. sent_bytes b s' = sent_bytes b s + (if b = a then 1 else 0))"
proof -
  obtain r c' where r: "on_port a (exchange a cmd n right) s = Inr (r, s\<lparr>ports := (ports s)[a := c']\<rparr>)"
    "ready (s\<lparr>ports := (ports s)[a := c']\<rparr>)" "csent c' = csent (ports s ! a) @ [[cmd]]"
    using port_run [OF assms(1-3), of cmd right] by blast
  obtain x s' where s': "k r (s\<lparr>ports := (ports s)[a := c']\<rparr>) = Inr (x, s')" "ports s' = (ports s)[a := c']" "ready s'"
    using assms(4) [of r "s\<lparr>ports := (ports s)[a := c']\<rparr>"] r(2) by auto
  have "length (ports s) = 3" using assms(1) by (simp add: ready_def)
  then show ?thesis
    using r s' by (intro exI [of _ x] exI [of _ s']) (auto simp: bind_io_def sent_bytes_def nth_list_update)
qed

definition keeps_ready :: "nat \<Rightarrow> 'x eio \<Rightarrow> bool" where
  "keeps_ready a op \<longleftrightarrow> (\<forall>s. ready s \<longrightarrow> (\<exists>x s'. op s = Inr (x, s') \<and> ready s'
     \<and> (\<forall>b < 3. sent_bytes b s' = sent_bytes b s + (if b = a then 1 else 0))))"

lemma exchange_keeps:
  assumes "a < 3" "n \<noteq> 0" "\<And>r t. \<exists>x t'. k r t = Inr (x, t') \<and> ports t' = ports t \<and> ready t' = ready t"
  shows "keeps_ready a (bind_io (on_port a (exchange a cmd n right)) k)"
  unfolding keeps_ready_def
proof (intro allI impI)
  fix s :: enc assume "ready s"
  then show "\<exists>x s'. bind_io (on_port a (exchange a cmd n right)) k s = Inr (x, s') \<and> ready s'
      \<and> (\<forall>b < 3. sent_bytes b s' = sent_bytes b s + (if b = a then 1 else 0))"
    by (rule exchange_then [OF _ assms(1,2)]) (rule assms(3))
qed

lemma change_then: "bind_io (change_e f) (\<lambda>_. ret_io y) t = Inr (y, f t)"
  by (simp add: bind_io_def change_e_def ret_io_def)

lemma operations_keep:
  assumes "a < 3"
  shows "keeps_ready a (DataAddDir_Set a v)" "keeps_ready a (DataAddDir_Que a)" "keeps_ready a (Addr_Set a v)"
    "keeps_ready a (Addr_Que a)" "keeps_ready a (CurrData_Get a)"
proof -
  show "keeps_ready a (DataAddDir_Set a v)" "keeps_ready a (DataAddDir_Que a)" "keeps_ready a (Addr_Set a v)"
    "keeps_ready a (Addr_Que a)"
    unfolding DataAddDir_Set_def DataAddDir_Que_def Addr_Set_def Addr_Que_def Let_def
    by (intro exchange_keeps assms; auto simp: change_then ret_io_def split: outcome.splits)+
  have "keeps_ready a (bind_io (on_port a (exchange a cmd n right)) (\<lambda>r. case r of Busy \<Rightarrow> ret_io None
      | Bad \<Rightarrow> bind_io (change_e (count_unlinked a)) (\<lambda>_. ret_io None)
      | Good b \<Rightarrow> bind_io (change_e (new_reading a (answer_data l b))) (\<lambda>_. ret_io (Some (answer_data l b)))))"
    if "n \<noteq> 0" for cmd n right l
    by (intro exchange_keeps assms that; auto simp: change_then ret_io_def split: outcome.splits)
  note read = this [unfolded keeps_ready_def, rule_format]
  show "keeps_ready a (CurrData_Get a)"
    unfolding keeps_ready_def CurrData_Get_def Let_def by (intro allI impI read) simp_all
qed

lemma run_cmd_ready:
  assumes "ready s" "cmd_axis x < 3"
  shows "\<exists>s'. run_cmd x s = Inr s' \<and> ready s' \<and> (\<forall>a < 3. sent_bytes a s' = sent_bytes a s + (if a = cmd_axis x then 1 else 0))"
proof -
  have drop: "\<exists>s'. bind_f (m s) (\<lambda>(_, s'). Inr s') = Inr s' \<and> ready s'
      \<and> (\<forall>b < 3. sent_bytes b s' = sent_bytes b s + (if b = cmd_axis x then 1 else 0))"
    if "keeps_ready (cmd_axis x) m" for m :: "'x eio"
    using that assms(1) unfolding keeps_ready_def by fastforce
  note k = operations_keep [OF assms(2)]
  show ?thesis
  proof (cases x)
    case (SetDir a v)
    then show ?thesis using drop [OF k(1) [of v]] by simp
  next
    case (QueDir a)
    then show ?thesis using drop [OF k(2)] by simp
  next
    case (SetAddr a v)
    then show ?thesis using drop [OF k(3) [of v]] by simp
  next
    case (QueAddr a)
    then show ?thesis using drop [OF k(4)] by simp
  next
    case (Read a)
    then show ?thesis using drop [OF k(5)] by simp
  qed
qed

text \<open>C36: while no burst exceeds the eight bytes of the local buffer, any sequence of exchanges
  with the three encoders returns, whatever the encoders answer: every exchange sends one byte,
  none waits for ever, and every port is free afterwards.\<close>

theorem encoder_ports_stay_usable:
  assumes "ready s" "\<forall>x \<in> set xs. cmd_axis x < 3"
  shows "\<exists>s'. run_cmds xs s = Inr s' \<and> ready s'
    \<and> (\<forall>a < 3. sent_bytes a s' = sent_bytes a s + length (filter (\<lambda>x. cmd_axis x = a) xs))"
  using assms
proof (induction xs arbitrary: s)
  case (Cons x xs)
  obtain s1 where s1: "run_cmd x s = Inr s1" "ready s1"
    "\<forall>a < 3. sent_bytes a s1 = sent_bytes a s + (if a = cmd_axis x then 1 else 0)"
    using run_cmd_ready [of s x] Cons.prems by auto
  have "\<forall>x \<in> set xs. cmd_axis x < 3" using Cons.prems by simp
  then obtain s' where "run_cmds xs s1 = Inr s'" "ready s'"
    "\<forall>a < 3. sent_bytes a s' = sent_bytes a s1 + length (filter (\<lambda>x. cmd_axis x = a) xs)"
    using Cons.IH [OF s1(2)] by blast
  then show ?case using s1 by auto
qed simp

text \<open>A burst of 9 to 31 bytes during the wait for an answer is copied over the end of the
  local buffer of eight bytes.\<close>

theorem encoder_burst_overruns:
  assumes "length (ports s) = 3" "a < 3" "free (ports s ! a)" "arrivals (ports s ! a) = (burst, later) # rest"
    "8 < length burst" "length burst < 32"
  shows "CurrData_Get a s = Inl OutOfBounds"
proof -
  have "exchange a cmd n (answer_ok l) (ports s ! a) = Inl OutOfBounds" if "n = 5 \<or> n = 6" for cmd n l
    using burst_overruns [of "ports s ! a" n a cmd "answer_ok l"] assms that by auto
  then show ?thesis by (simp add: CurrData_Get_def Let_def bind_io_def on_port_def)
qed

section \<open>Readings\<close>

text \<open>A complete, checked answer of the encoder on a port.\<close>

definition whole_answer :: "bool \<Rightarrow> bytes \<Rightarrow> bool" where
  "whole_answer long b \<longleftrightarrow> length b = (if long then 6 else 5) \<and> answer_ok long b"

lemma answer_padded:
  assumes "length b = (if long then 6 else 5)"
  shows "answer_ok long (copy_over (replicate 8 0) b) = answer_ok long b"
    "answer_data long (copy_over (replicate 8 0) b) = answer_data long b"
proof -
  have n: "copy_over (replicate 8 0) b ! i = b ! i" if "i < (if long then 6 else 5)" for i
    using that assms by (simp add: nth_copy_over)
  show "answer_ok long (copy_over (replicate 8 0) b) = answer_ok long b"
    "answer_data long (copy_over (replicate 8 0) b) = answer_data long b"
    using n by (simp_all add: answer_ok_def answer_data_def)
qed

lemma reading_whole:
  assumes "rev_sem (ports s ! a) = 0"
  shows "reading a s = (if whole_answer (is_long a s) (now_of (ports s ! a))
    then Some (answer_data (is_long a s) (now_of (ports s ! a))) else None)"
proof -
  let ?b = "now_of (ports s ! a)" and ?n = "if is_long a s then 6 else 5 :: u8"
  have n: "unat ?n = (if is_long a s then 6 else 5)" by simp
  have "settled ?n (answer_ok (is_long a s)) (ports s ! a) \<longleftrightarrow> whole_answer (is_long a s) ?b"
    using answer_padded(1) [of ?b "is_long a s"] assms unfolding settled_def whole_answer_def n by auto
  then show ?thesis
    using answer_padded(2) [of ?b "is_long a s"] by (simp add: reading_def Let_def whole_answer_def)
qed

lemma coder_new:
  assumes "ready s" "a < 3"
  shows "coder b (new_reading a d s) = (if b = a then linked ((coder a s)\<lparr>EleccoderData :=
      \<lparr>ed_data = d, ed_degree = APP_ElecEncoder_Data2DegreeFloat (of_nat (a + 1)) d s\<rparr>\<rparr>) else coder b s)"
  using assms by (simp add: new_reading_def)

lemma coder_count:
  assumes "ready s" "a < 3"
  shows "coder b (count_unlinked a s) = (if b = a \<and> Elec_coder_UlinkCnt s ! a + 1 > 3
    then (coder a s)\<lparr>EleccoderStat := (EleccoderStat (coder a s))\<lparr>es_link_stat := COMM_UNLINK\<rparr>\<rparr> else coder b s)"
proof -
  have "a < length (Elec_coder_UlinkCnt s)" using assms by (simp add: ready_def)
  then show ?thesis using assms by (auto simp: count_unlinked_def Let_def)
qed

text \<open>C21: on free ports whose bursts have at most eight bytes, and where the port read holds no stale post of its receive semaphore,
  a reading succeeds exactly if the encoder answers with a complete frame whose mark and checksum are right; it then stores the
  count and the degrees computed from it and the link counts as up. Otherwise the last reading stays, and the other encoders are
  not touched in either case. Nothing is claimed after a surplus byte has left a post behind (\<open>hw_eleccoder.c:97\<close>).\<close>

theorem encoder_reading_exact:
  assumes "ready s" "a < 3" "rev_sem (ports s ! a) = 0"
  defines "b \<equiv> now_of (ports s ! a)" and "long \<equiv> is_long a s"
  shows "\<exists>s'. CurrData_Get a s = Inr (if whole_answer long b then Some (answer_data long b) else None, s')
    \<and> (\<forall>i. i \<noteq> a \<longrightarrow> coder i s' = coder i s)
    \<and> (if whole_answer long b
       then ed_data (EleccoderData (coder a s')) = answer_data long b
         \<and> ed_degree (EleccoderData (coder a s')) = APP_ElecEncoder_Data2DegreeFloat (of_nat (a + 1)) (answer_data long b) s
         \<and> es_link_stat (EleccoderStat (coder a s')) = COMM_LINK \<and> Elec_coder_UlinkCnt s' ! a = 0
       else EleccoderData (coder a s') = EleccoderData (coder a s) \<and> Elec_coder_UlinkCnt s' ! a = Elec_coder_UlinkCnt s ! a + 1)"
proof -
  obtain c' where c': "CurrData_Get a s = Inr (reading a s, case reading a s of
        None \<Rightarrow> count_unlinked a (s\<lparr>ports := (ports s)[a := c']\<rparr>)
      | Some d \<Rightarrow> new_reading a d (s\<lparr>ports := (ports s)[a := c']\<rparr>))" "ready (s\<lparr>ports := (ports s)[a := c']\<rparr>)"
    using read_run [OF assms(1,2)] unfolding Let_def by blast
  have l: "a < length (Elec_coder_UlinkCnt s)" using assms(1,2) by (simp add: ready_def)
  have r: "reading a s = (if whole_answer long b then Some (answer_data long b) else None)"
    using reading_whole [OF assms(3)] by (simp add: b_def long_def)
  have u: "Elec_coder_UlinkCnt (count_unlinked a t) ! a = Elec_coder_UlinkCnt t ! a + 1"
    "Elec_coder_UlinkCnt (new_reading a d t) ! a = 0" if "Elec_coder_UlinkCnt t = Elec_coder_UlinkCnt s" for t d
    using that l by (simp_all add: count_unlinked_def new_reading_def Let_def)
  have deg: "APP_ElecEncoder_Data2DegreeFloat x d (s\<lparr>ports := p\<rparr>) = APP_ElecEncoder_Data2DegreeFloat x d s" for x d p
    by (simp add: APP_ElecEncoder_Data2DegreeFloat_def)
  show ?thesis
  proof (cases "whole_answer long b")
    case True
    then show ?thesis
      using c' r u(2) [of "s\<lparr>ports := (ports s)[a := c']\<rparr>"]
      by (simp add: coder_new [OF c'(2) assms(2)] linked_def deg)
  next
    case False
    then show ?thesis
      using c' r u(1) [of "s\<lparr>ports := (ports s)[a := c']\<rparr>"]
      by (simp add: coder_count [OF c'(2) assms(2)])
  qed
qed

section \<open>Silence\<close>

definition silent :: "nat \<Rightarrow> enc \<Rightarrow> bool" where
  "silent a s \<longleftrightarrow> ready s \<and> arrivals (ports s ! a) = [] \<and> rev_sem (ports s ! a) = 0"

fun reads :: "nat \<Rightarrow> u32 option eio \<Rightarrow> u32 option list eio" where
  "reads 0 read = ret_io []"
| "reads (Suc n) read = bind_io (reads n read) (\<lambda>xs. bind_io read (\<lambda>x. ret_io (xs @ [x])))"

text \<open>What the monitoring of a link relies on: a reading of a silent encoder fails, counts, and
  takes the link down when the count exceeds three.\<close>

locale sensor =
  fixes read :: "u32 option eio" and a :: nat
  assumes missed: "silent a s \<Longrightarrow> \<exists>s'. read s = Inr (None, s') \<and> silent a s'
      \<and> Elec_coder_UlinkCnt s' ! a = Elec_coder_UlinkCnt s ! a + 1
      \<and> es_link_stat (EleccoderStat (coder a s')) = (if Elec_coder_UlinkCnt s ! a + 1 > 3 then COMM_UNLINK
          else es_link_stat (EleccoderStat (coder a s)))
      \<and> EleccoderData (coder a s') = EleccoderData (coder a s)"
begin

lemma lost:
  assumes "silent a s" "Elec_coder_UlinkCnt s ! a = 0" "es_link_stat (EleccoderStat (coder a s)) = COMM_LINK"
  shows "\<exists>s'. reads n read s = Inr (replicate n None, s') \<and> silent a s'
    \<and> es_link_stat (EleccoderStat (coder a s')) = (if n \<le> 3 then COMM_LINK else COMM_UNLINK)
    \<and> (n \<le> 3 \<longrightarrow> Elec_coder_UlinkCnt s' ! a = of_nat n)
    \<and> EleccoderData (coder a s') = EleccoderData (coder a s)"
proof (induction n)
  case 0
  then show ?case using assms by (simp add: ret_io_def)
next
  case (Suc n)
  then obtain s1 where s1: "reads n read s = Inr (replicate n None, s1)" "silent a s1"
    "es_link_stat (EleccoderStat (coder a s1)) = (if n \<le> 3 then COMM_LINK else COMM_UNLINK)"
    "n \<le> 3 \<longrightarrow> Elec_coder_UlinkCnt s1 ! a = of_nat n" "EleccoderData (coder a s1) = EleccoderData (coder a s)" by blast
  obtain s2 where s2: "read s1 = Inr (None, s2)" "silent a s2" "Elec_coder_UlinkCnt s2 ! a = Elec_coder_UlinkCnt s1 ! a + 1"
    "es_link_stat (EleccoderStat (coder a s2)) = (if Elec_coder_UlinkCnt s1 ! a + 1 > 3 then COMM_UNLINK
       else es_link_stat (EleccoderStat (coder a s1)))" "EleccoderData (coder a s2) = EleccoderData (coder a s1)"
    using missed [OF s1(2)] by blast
  have "Elec_coder_UlinkCnt s1 ! a + 1 > 3 \<longleftrightarrow> n = 3" if "n \<le> 3"
    using that s1(4) by (auto simp: le_Suc_eq numeral_3_eq_3)
  then show ?case
    using s1 s2 by (auto simp: bind_io_def replicate_append_same ret_io_def)
qed

end

lemma silent_read:
  assumes "a < 3" "silent a s"
  shows "\<exists>s'. CurrData_Get a s = Inr (None, s') \<and> silent a s'
      \<and> Elec_coder_UlinkCnt s' ! a = Elec_coder_UlinkCnt s ! a + 1
      \<and> es_link_stat (EleccoderStat (coder a s')) = (if Elec_coder_UlinkCnt s ! a + 1 > 3 then COMM_UNLINK
          else es_link_stat (EleccoderStat (coder a s)))
      \<and> EleccoderData (coder a s') = EleccoderData (coder a s)"
proof -
  have s: "ready s" "arrivals (ports s ! a) = []" "rev_sem (ports s ! a) = 0" using assms(2) by (simp_all add: silent_def)
  have r: "reading a s = None" using reading_whole [OF s(3)] s(2) by (simp add: whole_answer_def split: if_splits)
  obtain c' where c': "CurrData_Get a s = Inr (None, count_unlinked a (s\<lparr>ports := (ports s)[a := c']\<rparr>))"
    "ready (s\<lparr>ports := (ports s)[a := c']\<rparr>)" "arrivals c' = []" "rev_sem c' = 0"
    using read_run [OF s(1) assms(1)] s(2,3) unfolding r Let_def by auto
  have l: "a < length (Elec_coder_UlinkCnt s)" "a < length (ports s)" using s(1) assms(1) by (simp_all add: ready_def)
  have "silent a (count_unlinked a (s\<lparr>ports := (ports s)[a := c']\<rparr>))" using c' l by (simp add: silent_def)
  moreover have "Elec_coder_UlinkCnt (count_unlinked a (s\<lparr>ports := (ports s)[a := c']\<rparr>)) ! a = Elec_coder_UlinkCnt s ! a + 1"
    using l by (simp add: count_unlinked_def Let_def)
  ultimately show ?thesis using c'(1) by (simp add: coder_count [OF c'(2) assms(1)])
qed

interpretation azimuth: sensor APP_ElecEncoder_Position_CurrData_Get 0
  by unfold_locales (unfold APP_ElecEncoder_Position_CurrData_Get_def, rule silent_read, simp_all)

interpretation elevation: sensor APP_ElecEncoder_Cabrage_CurrData_Get 1
  by unfold_locales (unfold APP_ElecEncoder_Cabrage_CurrData_Get_def, rule silent_read, simp_all)

interpretation polarisation: sensor APP_ElecEncoder_Polarization_CurrData_Get 2
  by unfold_locales (unfold APP_ElecEncoder_Polarization_CurrData_Get_def, rule silent_read, simp_all)

text \<open>An encoder that is silent keeps its link for three readings and loses it with the
  fourth, for good as long as it is silent; all the readings fail and the last one stays.\<close>

theorem silent_encoder_loses_link:
  assumes "addr \<in> {1, 2, 3}" "a = unat addr - 1" "silent a s" "Elec_coder_UlinkCnt s ! a = 0"
    "es_link_stat (EleccoderStat (coder a s)) = COMM_LINK"
  shows "\<exists>s'. reads n (APP_ElecEncoder_CurrData_Get addr) s = Inr (replicate n None, s')
    \<and> es_link_stat (EleccoderStat (coder a s')) = (if n \<le> 3 then COMM_LINK else COMM_UNLINK)
    \<and> EleccoderData (coder a s') = EleccoderData (coder a s)"
proof -
  consider "addr = 1" "a = 0" | "addr = 2" "a = 1" | "addr = 3" "a = 2" using assms(1,2) by auto
  then show ?thesis
  proof cases
    case 1
    then show ?thesis using azimuth.lost [of s n] assms(3-5) by (auto simp: APP_ElecEncoder_CurrData_Get_def)
  next
    case 2
    then show ?thesis using elevation.lost [of s n] assms(3-5) by (auto simp: APP_ElecEncoder_CurrData_Get_def)
  next
    case 3
    then show ?thesis using polarisation.lost [of s n] assms(3-5) by (auto simp: APP_ElecEncoder_CurrData_Get_def)
  qed
qed

section \<open>Where it fails\<close>

lemma answer_length: "whole_answer long b \<Longrightarrow> length b = (if long then 6 else 5)"
  by (simp add: whole_answer_def)

lemma read_fails:
  assumes "ready s" "a < 3" "reading a s = None"
  shows "\<exists>s'. CurrData_Get a s = Inr (None, s') \<and> ready s' \<and> arrivals (ports s' ! a) = tl (arrivals (ports s ! a))
    \<and> rev_sem (ports s' ! a) = rev_sem (ports s ! a) + (length (now_of (ports s ! a)) + 1 - (if is_long a s then 6 else 5)) - 1
    \<and> is_long a s' = is_long a s"
proof -
  obtain c' where c': "CurrData_Get a s = Inr (None, count_unlinked a (s\<lparr>ports := (ports s)[a := c']\<rparr>))"
    "ready (s\<lparr>ports := (ports s)[a := c']\<rparr>)" "arrivals c' = tl (arrivals (ports s ! a))"
    "rev_sem c' = rev_sem (ports s ! a) + (length (now_of (ports s ! a)) + 1 - (if is_long a s then 6 else 5)) - 1"
    using read_run [OF assms(1,2)] unfolding assms(3) Let_def by auto
  have l: "a < length (ports s)" using assms(1,2) by (simp add: ready_def)
  have "is_long a (count_unlinked a (s\<lparr>ports := (ports s)[a := c']\<rparr>)) = is_long a s"
    by (simp add: is_long_def coder_count [OF c'(2) assms(2)])
  then show ?thesis using c' l by simp
qed

text \<open>One byte too many costs two readings. The byte after the answer posts the semaphore a
  second time, so the first reading is rejected as too long, the next one returns at once and
  finds an empty buffer, while the right answer to it arrives behind; the third one succeeds.\<close>

theorem surplus_byte_costs_two_readings:
  assumes "ready s" "a < 3" "rev_sem (ports s ! a) = 0" "whole_answer (is_long a s) b"
    "arrivals (ports s ! a) = (b @ [x], []) # ([], b) # (b, []) # rest"
  shows "\<exists>s'. reads 3 (CurrData_Get a) s = Inr ([None, None, Some (answer_data (is_long a s) b)], s')"
proof -
  let ?l = "is_long a s"
  note b = answer_length [OF assms(4)]
  have n1: "now_of (ports s ! a) = b @ [x]" using assms(5) by simp
  have "reading a s = None" using b n1 assms(3) by (simp only: reading_whole whole_answer_def) auto
  then obtain s1 where s1: "CurrData_Get a s = Inr (None, s1)" "ready s1" "arrivals (ports s1 ! a) = ([], b) # (b, []) # rest"
    "rev_sem (ports s1 ! a) = 1" "is_long a s1 = ?l"
    using read_fails [OF assms(1,2)] assms(3,5) b n1 by auto
  have "reading a s1 = None"
    using s1(3) by (simp add: reading_def Let_def settled_def answer_ok_def copy_over_def)
  then obtain s2 where s2: "CurrData_Get a s1 = Inr (None, s2)" "ready s2" "arrivals (ports s2 ! a) = (b, []) # rest"
    "rev_sem (ports s2 ! a) = 0" "is_long a s2 = ?l"
    using read_fails [OF s1(2) assms(2)] s1(3-5) by auto
  have "reading a s2 = Some (answer_data ?l b)"
    using reading_whole [OF s2(4)] s2(3,5) assms(4) by simp
  then obtain s3 where s3: "CurrData_Get a s2 = Inr (Some (answer_data ?l b), s3)"
    using read_run [OF s2(2) assms(2)] unfolding Let_def by auto
  show ?thesis
    using s1(1) s2(1) s3 by (simp add: numeral_3_eq_3 bind_io_def ret_io_def)
qed

lemma mask7_plus_128: "((x :: u8) + 128) AND 0x7F = x AND 0x7F"
proof -
  have m: "y AND 0x7F = take_bit 7 y" for y :: u8 by (simp add: take_bit_eq_mask mask_eq_exp_minus_1)
  have "unat (x + 128) = (unat x + 128) mod 256" by (simp add: unat_word_ariths)
  moreover have "(unat x + 128) mod 256 mod 128 = unat x mod 128" by (simp add: mod_mod_cancel)
  ultimately show ?thesis
    unfolding m word_unat_eq_iff unsigned_take_bit_eq unfolding take_bit_eq_mod by simp
qed

text \<open>The checksum covers seven bits of the sum: an answer whose last data byte has its upper
  bit flipped is accepted as well, 128 counts away.\<close>

theorem upper_bit_unchecked:
  assumes "whole_answer True b"
  shows "whole_answer True (b[4 := b ! 4 + 128]) \<and> answer_data True (b[4 := b ! 4 + 128]) \<noteq> answer_data True b"
proof -
  have l: "length b = 6" using assms by (simp add: whole_answer_def)
  have s: "(b ! 0 + b ! 1 + b ! 2 + b ! 3 + (b ! 4 + 128)) AND 0x7F = (b ! 0 + b ! 1 + b ! 2 + b ! 3 + b ! 4) AND 0x7F"
    using mask7_plus_128 [of "b ! 0 + b ! 1 + b ! 2 + b ! 3 + b ! 4"] by (simp add: add.assoc)
  have "b ! 4 + 128 \<noteq> b ! 4" by simp
  then have "(ucast (b ! 4 + 128) :: u32) \<noteq> ucast (b ! 4)" by (metis unat_u32_of_u8 word_unat_eq_iff)
  moreover have n: "b[4 := v] ! 0 = b ! 0" "b[4 := v] ! 1 = b ! 1" "b[4 := v] ! 2 = b ! 2" "b[4 := v] ! 3 = b ! 3"
    "b[4 := v] ! 4 = v" "b[4 := v] ! 5 = b ! 5" for v using l by simp_all
  moreover have "whole_answer True (b[4 := b ! 4 + 128])"
    using assms s unfolding whole_answer_def answer_ok_def n length_list_update if_True by metis
  ultimately show ?thesis by (simp add: answer_data_def l)
qed

section \<open>Degrees\<close>

lemma f32_mono: "x \<le> y \<Longrightarrow> f32 x \<le> f32 y"
  by (rule fround_mono) simp_all

lemma f32_int [simp]: "f32 360 = 360" "f32 131072 = 131072" "f32 4096 = 4096"
  using f32_of_nat [of 360] f32_of_nat [of 131072] f32_of_nat [of 4096] by simp_all

text \<open>The degrees of a 17-bit encoder, whose counts are below 131072, lie on the circle, grow
  with the count and are within a ten-thousandth of a degree of the exact value.\<close>

theorem degrees_of_counts:
  assumes "ec_bit_num (EleccoderConf (coder (unat addr - 1) s)) = 17" "unat d < 131072" "unat d' \<le> unat d"
  shows "0 \<le> APP_ElecEncoder_Data2DegreeFloat addr d s \<and> APP_ElecEncoder_Data2DegreeFloat addr d s \<le> 360
    \<and> APP_ElecEncoder_Data2DegreeFloat addr d' s \<le> APP_ElecEncoder_Data2DegreeFloat addr d s
    \<and> \<bar>APP_ElecEncoder_Data2DegreeFloat addr d s - of_nat (unat d) * 360 / 131072\<bar> \<le> 1 / 10000"
proof -
  have e: "APP_ElecEncoder_Data2DegreeFloat addr x s = f32 (f32 (of_nat (unat x) * 360) / 131072)" if "unat x < 131072" for x
    using that assms(1) by (simp add: APP_ElecEncoder_Data2DegreeFloat_def fp_of_u32_exact)
  define k where "k = unat d"
  define x where "x = (of_nat k :: rat)"
  have k: "k \<le> 131071" "unat d' \<le> k" using assms(2,3) by (simp_all add: k_def)
  have dd: "(of_nat (unat d') :: rat) \<le> of_nat (unat d)" "unat d' < 131072" using assms(2,3) by (simp_all only: of_nat_le_iff)
  define y where "y = f32 (x * 360)"
  have x1: "x \<le> 131071"
    using k(1) unfolding x_def by linarith
  have m: "APP_ElecEncoder_Data2DegreeFloat addr d' s \<le> APP_ElecEncoder_Data2DegreeFloat addr d s"
    unfolding e [OF assms(2)] e [OF dd(2)] using dd(1) by (intro f32_mono divide_right_mono mult_right_mono) simp_all
  show ?thesis
  proof (cases "k = 0")
    case True
    then have "APP_ElecEncoder_Data2DegreeFloat addr d s = 0" using e [OF assms(2)] by (simp add: k_def)
    then show ?thesis using m True by (simp add: k_def)
  next
    case False
    then have "1 \<le> x" by (simp add: x_def)
    then have yb: "\<bar>y - x * 360\<bar> \<le> x * 360 / 16777216" unfolding y_def by (intro f32_error) simp
    then have y: "359 \<le> y" "y \<le> 47185570" using x1 \<open>1 \<le> x\<close> unfolding abs_le_iff by simp_all
    then have z: "\<bar>f32 (y / 131072) - y / 131072\<bar> \<le> y / 131072 / 16777216" by (intro f32_error) simp
    have "f32 (y / 131072) \<le> f32 360" "f32 0 \<le> f32 (y / 131072)" using y by (intro f32_mono; simp)+
    moreover have "\<bar>f32 (y / 131072) - x * 360 / 131072\<bar> \<le> 1 / 10000"
      using yb z y(2) x1 unfolding abs_le_iff by (simp add: field_simps)
    ultimately show ?thesis using m unfolding e [OF assms(2)] by (simp only: k_def [symmetric] x_def [symmetric] y_def [symmetric]) simp
  qed
qed

end
