(* ===== verification/AngleProps.thy ===== *)
theory AngleProps
  imports Angles EncoderProps ParamLaws
begin

text \<open>
  The angles the unit reports: their ranges, the agreement of the two conversions and the case in
  which they do not agree, and what the adjustment of the counting direction makes of its samples.
  Then the witnesses of the encoder properties.
\<close>

section \<open>Angles\<close>

definition sane :: "nat \<Rightarrow> strACUDevInfo \<Rightarrow> bool" where
  "sane a d \<longleftrightarrow> 0 \<le> ElecCoder_degree (map_of_axis a d) \<and> ElecCoder_degree (map_of_axis a d) \<le> 360
     \<and> 0 \<le> ed_degree (EleccoderData (coder_of a d)) \<and> ed_degree (EleccoderData (coder_of a d)) \<le> 360"

lemma f32_between:
  assumes "of_int k \<le> x" "x \<le> of_int l" "\<bar>k\<bar> < 16777216" "\<bar>l\<bar> < 16777216"
  shows "of_int k \<le> f32 x" "f32 x \<le> of_int l"
  using f32_mono [OF assms(1)] f32_mono [OF assms(2)] fround_int [of k 24 "-149"] fround_int [of l 24 "-149"] assms(3,4)
  by simp_all

lemma mapped_range:
  assumes "sane a d" "of_int l \<le> Antenna_degree (map_of_axis a d)" "Antenna_degree (map_of_axis a d) \<le> of_int u" "\<bar>l\<bar> < 1000" "\<bar>u\<bar> < 1000"
  shows "of_int (l - 360) \<le> mapped a (ed_degree (EleccoderData (coder_of a d))) d"
    "mapped a (ed_degree (EleccoderData (coder_of a d))) d \<le> of_int (u + 360)"
proof -
  let ?e = "ed_degree (EleccoderData (coder_of a d))"
  have "of_int (- 360) \<le> ?e - ElecCoder_degree (map_of_axis a d)" "?e - ElecCoder_degree (map_of_axis a d) \<le> of_int 360"
    using assms(1) by (simp_all add: sane_def)
  then have v: "of_int (- 360) \<le> d_value a ?e d" "d_value a ?e d \<le> of_int 360"
    unfolding d_value_def using f32_between [of "- 360" "?e - ElecCoder_degree (map_of_axis a d)" 360] by simp_all
  show "of_int (l - 360) \<le> mapped a ?e d" "mapped a ?e d \<le> of_int (u + 360)"
    unfolding mapped_def using v assms(2-5)
      f32_between [of "l - 360" "Antenna_degree (map_of_axis a d) + d_value a ?e d" "u + 360"]
      f32_between [of "l - 360" "Antenna_degree (map_of_axis a d) - d_value a ?e d" "u + 360"] by simp_all
qed

text \<open>C22: with three encoders that are all linked, the elevation encoder counting in the direction of its mapping, and the encoder
  readings and the mapping within their ranges, so are the angles the unit reports: azimuth and elevation in 0 to 360 degrees, the
  polarisation within 270 degrees either side. For a reversed elevation encoder see
  \<open>conversions_agree_but_reversed_elevation\<close>.\<close>

theorem angle_ranges:
  fixes stack :: "fp32 \<times> fp32 \<times> fp32"
  assumes "\<forall>a < 3. sane a d \<and> has_link a d" "three_coders d" "same_mode 1 d"
    "0 \<le> Antenna_degree (map_of_axis 0 d)" "Antenna_degree (map_of_axis 0 d) \<le> 360"
    "0 \<le> Antenna_degree (map_of_axis 1 d)" "Antenna_degree (map_of_axis 1 d) \<le> 360"
    "- 180 \<le> Antenna_degree (map_of_axis 2 d)" "Antenna_degree (map_of_axis 2 d) \<le> 180"
  defines "c \<equiv> ACUCurrSta (APP_MONITOR_LocallAntennaRealDegreeDataGet stack d)"
  shows "0 \<le> antenna_position c \<and> antenna_position c \<le> 360 \<and> 0 \<le> antenna_cabrage c \<and> antenna_cabrage c \<le> 360
    \<and> - 270 \<le> antenna_polar c \<and> antenna_polar c \<le> 270"
proof -
  let ?e = "\<lambda>a. ed_degree (EleccoderData (coder_of a d))"
  have s: "sane 0 d" "sane 1 d" "sane 2 d" "has_link 0 d" "has_link 1 d" "has_link 2 d" using assms(1) by auto
  have m: "- 360 \<le> mapped 0 (?e 0) d" "mapped 0 (?e 0) d \<le> 720" "- 360 \<le> mapped 1 (?e 1) d" "mapped 1 (?e 1) d \<le> 720"
    "- 540 \<le> mapped 2 (?e 2) d" "mapped 2 (?e 2) d \<le> 540"
    using mapped_range [OF s(1), of 0 360] mapped_range [OF s(2), of 0 360] mapped_range [OF s(3), of "- 180" 180] assms(4-9)
    by simp_all
  have "0 \<le> wrap_position x \<and> wrap_position x \<le> 360" if "- 360 \<le> x" "x \<le> 720" for x
    using that f32_between [of 0 "x + 360" 360] f32_between [of 0 "x - 360" 360] by (auto simp: wrap_position_def)
  moreover have "0 \<le> wrap_cabrage x \<and> wrap_cabrage x \<le> 360" if "- 360 \<le> x" "x \<le> 720" for x
    using that f32_between [of 0 "x - 360" 360] by (auto simp: wrap_cabrage_def)
  moreover have "- 270 \<le> polar_type d (wrap_polar x) \<and> polar_type d (wrap_polar x) \<le> 270" if "- 540 \<le> x" "x \<le> 540" for x
  proof -
    have "- 180 \<le> wrap_polar x \<and> wrap_polar x \<le> 180"
      using that f32_between [of "- 180" "x + 360" 180] f32_between [of "- 180" "x - 360" 180] by (auto simp: wrap_polar_def)
    then show ?thesis
      using f32_between [of "- 270" "wrap_polar x - 90" 90] f32_between [of "- 90" "wrap_polar x + 90" 270] by (auto simp: polar_type_def)
  qed
  ultimately show ?thesis
    using m s assms(2,3) by (simp add: c_def APP_MONITOR_LocallAntennaRealDegreeDataGet_def Let_def split: prod.splits)
qed

text \<open>C35: the conversion of a given degree agrees with the conversion of the current readings on
  every linked axis, except for an elevation encoder that counts the other way round: then the
  elevation the unit reports does not depend on the encoder at all, it is what the stack held.\<close>

theorem conversions_agree_but_reversed_elevation:
  fixes stack :: "fp32 \<times> fp32 \<times> fp32" and d :: strACUDevInfo
  defines "c \<equiv> ACUCurrSta (APP_MONITOR_LocallAntennaRealDegreeDataGet stack d)"
    and "e \<equiv> (\<lambda>a. ed_degree (EleccoderData (coder_of a d)))"
  shows "(has_link 0 d \<longrightarrow> APP_MONITOR_LocallAntennaAdjustDegreeDataGet motor_position_id (e 0) d = Some (antenna_position c))
    \<and> (has_link 1 d \<and> same_mode 1 d \<longrightarrow>
        APP_MONITOR_LocallAntennaAdjustDegreeDataGet motor_cabrage_id (e 1) d = Some (antenna_cabrage c))
    \<and> (has_link 2 d \<and> three_coders d \<longrightarrow>
        APP_MONITOR_LocallAntennaAdjustDegreeDataGet motor_polar_id (e 2) d = Some (antenna_polar c))
    \<and> (has_link 1 d \<and> \<not> same_mode 1 d \<longrightarrow> antenna_cabrage c = wrap_cabrage (fst (snd stack)))"
  by (auto simp: c_def e_def APP_MONITOR_LocallAntennaRealDegreeDataGet_def APP_MONITOR_LocallAntennaAdjustDegreeDataGet_def
      Let_def split: prod.splits)

section \<open>The counting direction\<close>

lemma board_ok_acu [simp]: "board_ok (w\<lparr>acu := x\<rparr>) = board_ok w"
  by (simp add: board_ok_def bus_ok_def at24cm01_def)

lemma set_coder_sel [simp]: "board_ok (eep (set_coder a f s)) = board_ok (eep s)" "observed (set_coder a f s) = observed s"
  by (simp_all add: set_coder_def)

text \<open>A one-byte exchange with a prompt answer.\<close>

lemma one_byte:
  assumes "ready s" "a < 3" "rev_sem (ports s ! a) = 0" "arrivals (ports s ! a) = ([m], []) # rest" "right (m # replicate 7 0)"
  shows "\<exists>c'. on_port a (exchange a cmd 1 right) s = Inr (Good (m # replicate 7 0), s\<lparr>ports := (ports s)[a := c']\<rparr>)
    \<and> ready (s\<lparr>ports := (ports s)[a := c']\<rparr>) \<and> arrivals c' = rest \<and> csent c' = csent (ports s ! a) @ [[cmd]] \<and> rev_sem c' = 0"
proof -
  have r: "copy_over (replicate 8 0) [m] = m # replicate 7 0" by (simp add: copy_over_def numeral_eq_Suc)
  have "settled 1 right (ports s ! a)" using assms(3-5) by (simp add: settled_def r)
  then show ?thesis using port_run [OF assms(1,2), of 1 cmd right] assms(3,4) r by auto
qed

lemma mode_asked:
  assumes "ready s" "a < 3" "rev_sem (ports s ! a) = 0" "arrivals (ports s ! a) = ([m], []) # rest" "m AND 0xF0 = 0xE0"
  shows "\<exists>s'. DataAddDir_Que a s = Inr (Some m, s') \<and> ready s' \<and> arrivals (ports s' ! a) = rest \<and> rev_sem (ports s' ! a) = 0
    \<and> csent (ports s' ! a) = csent (ports s ! a) @ [[0xC9]] \<and> board_ok (eep s') = board_ok (eep s)"
proof -
  have l: "a < length (ports s)" using assms(1,2) by (simp add: ready_def)
  show ?thesis
    using one_byte [OF assms(1-4), of "\<lambda>b. b ! 0 AND 0xF0 = 0xE0" "0xC9"] assms(5) l
    by (auto simp: DataAddDir_Que_def bind_io_def [of "on_port a m" for m] change_then)
qed

lemma mode_set:
  assumes "ready s" "a < 3" "rev_sem (ports s ! a) = 0" "arrivals (ports s ! a) = ([m], []) # rest" "m = 0xE1 \<or> m = 0xE2"
  shows "\<exists>s'. DataAddDir_Set a m s = Inr (SUCC, s') \<and> ready s' \<and> csent (ports s' ! a) = csent (ports s ! a) @ [[m]]
    \<and> board_ok (eep s') = board_ok (eep s)"
proof -
  have l: "a < length (ports s)" using assms(1,2) by (simp add: ready_def)
  have m: "(if m = 0xE1 then 0xE1 else 0xE2) = m" using assms(5) by auto
  show ?thesis
    using one_byte [OF assms(1-4), of "\<lambda>b. b ! 0 = m" m] l
    by (auto simp: DataAddDir_Set_def m bind_io_def [of "on_port a m" for m] change_then)
qed

lemma mode_saved:
  assumes "board_ok (eep s)" "part \<in> {1, 2, 3}"
  shows "\<exists>w. save_mode part m s = Inr (SUCC, s\<lparr>eep := w\<rparr>) \<and> acu w = acu (eep s)"
proof -
  have "fits (0x00DA + ucast part - 1, savebuff [m], of_nat (length [m]))"
    using assms(2) by (auto simp: fits_def)
  then show ?thesis
    using APP_PARAM_Save_works [OF assms(1)]
    by (fastforce simp: save_mode_def APP_PARAM_ElecCode_count_mode_Save_def save_param_def)
qed

lemma dispatch_mode:
  assumes "part \<in> {1, 2, 3}"
  shows "APP_ElecEncoder_DataAddDir_Get part = DataAddDir_Que (unat part - 1)"
    "APP_ElecEncoder_DataAddDir_Set part = DataAddDir_Set (unat part - 1)"
  using assms by (auto simp: fun_eq_iff APP_ElecEncoder_DataAddDir_Get_def APP_ElecEncoder_DataAddDir_Set_def
      APP_ElecEncoder_Position_DataAddDir_Que_def APP_ElecEncoder_Cabrage_DataAddDir_Que_def
      APP_ElecEncoder_Polarization_DataAddDir_Que_def APP_ElecEncoder_Position_DataAddDir_Set_def
      APP_ElecEncoder_Cabrage_DataAddDir_Set_def APP_ElecEncoder_Polarization_DataAddDir_Set_def)

lemma sampled:
  assumes "ready s" "a < 3" "observed s = [d0, d1, d2, d3]"
  obtains s' where "ready s'" "ports s' = ports s" "board_ok (eep s') = board_ok (eep s)"
    "\<And>k. (bind_io (sample a) (\<lambda>d0. bind_io (sample a) (\<lambda>d1. bind_io (sample a) (\<lambda>d2. bind_io (sample a) (\<lambda>d3. k d0 d1 d2 d3)))) :: status eio) s
      = k d0 d1 d2 d3 s'"
proof -
  have obs: "ready (t\<lparr>observed := xs\<rparr>) = ready t" "ports (t\<lparr>observed := xs\<rparr>) = ports t" "eep (t\<lparr>observed := xs\<rparr>) = eep t" for t xs
    by (simp_all add: ready_def)
  have one: "\<exists>t'. (\<forall>k :: u32 \<Rightarrow> status eio. bind_io (sample a) k t = k x t') \<and> observed t' = xs \<and> ready t' \<and> ports t' = ports t
      \<and> board_ok (eep t') = board_ok (eep t)" if "ready t" "observed t = x # xs" for t x xs
    using that by (auto simp: sample_def bind_io_def obs)
  obtain t1 where 1: "\<forall>k :: u32 \<Rightarrow> status eio. bind_io (sample a) k s = k d0 t1" "observed t1 = [d1, d2, d3]" "ready t1" "ports t1 = ports s"
    "board_ok (eep t1) = board_ok (eep s)" using one [OF assms(1,3)] by blast
  obtain t2 where 2: "\<forall>k :: u32 \<Rightarrow> status eio. bind_io (sample a) k t1 = k d1 t2" "observed t2 = [d2, d3]" "ready t2" "ports t2 = ports t1"
    "board_ok (eep t2) = board_ok (eep t1)" using one [OF 1(3,2)] by blast
  obtain t3 where 3: "\<forall>k :: u32 \<Rightarrow> status eio. bind_io (sample a) k t2 = k d2 t3" "observed t3 = [d3]" "ready t3" "ports t3 = ports t2"
    "board_ok (eep t3) = board_ok (eep t2)" using one [OF 2(3,2)] by blast
  obtain t4 where 4: "\<forall>k :: u32 \<Rightarrow> status eio. bind_io (sample a) k t3 = k d3 t4" "observed t4 = []" "ready t4" "ports t4 = ports t3"
    "board_ok (eep t4) = board_ok (eep t3)" using one [OF 3(3,2)] by blast
  show thesis by (rule that [OF 4(3)]) (simp_all add: 1 2 3 4)
qed

lemma adjust_run:
  assumes s: "ready s" "board_ok (eep s)" "part \<in> {1, 2, 3}" "a = unat part - 1" "rev_sem (ports s ! a) = 0"
    and d: "observed s = [d0, d1, d2, d3]" "\<not> ((d0 = d1 \<and> d0 = d2) \<or> (d1 = d2 \<and> d1 = d3))"
    and m: "m = 0xE1 \<and> m' = 0xE2 \<or> m = 0xE2 \<and> m' = 0xE1" "arrivals (ports s ! a) = ([m], []) # ([m'], []) # rest"
    and t: "turn \<longleftrightarrow> (if dir = ANTENNA_DIR_RIGHT_UP_CLOCK then 1 else 0) \<noteq> add_flag_now d0 d1 d2 d3"
  shows "\<exists>s'. APP_ElecEncoder_DataAddDir_Adjust stack part dir s = Inr (SUCC, s')
    \<and> csent (ports s' ! a) = csent (ports s ! a) @ [[0xC9]] @ (if turn then [[m']] else [])
    \<and> ec_count_mode (EleccoderConf (coder a s')) = (if turn then m' else m)"
proof -
  have a: "a < 3" using s(3,4) by auto
  obtain s1 where s1: "ready s1" "ports s1 = ports s" "board_ok (eep s1) = board_ok (eep s)"
    "\<And>k. (bind_io (sample a) (\<lambda>d0. bind_io (sample a) (\<lambda>d1. bind_io (sample a) (\<lambda>d2. bind_io (sample a) (\<lambda>d3. k d0 d1 d2 d3)))) :: status eio) s
      = k d0 d1 d2 d3 s1" using sampled [OF s(1) a d(1)] by blast
  have "m AND 0xF0 = 0xE0" using m(1) by auto
  then obtain s2 where s2: "DataAddDir_Que a s1 = Inr (Some m, s2)" "ready s2" "arrivals (ports s2 ! a) = ([m'], []) # rest"
    "rev_sem (ports s2 ! a) = 0" "csent (ports s2 ! a) = csent (ports s ! a) @ [[0xC9]]" "board_ok (eep s2)"
    using mode_asked [OF s1(1) a] s1 s(2,5) m(2) by auto
  obtain s3 where s3: "(if turn then DataAddDir_Set a m' else ret_io SUCC) s2 = Inr (SUCC, s3)" "ready s3" "board_ok (eep s3)"
    "csent (ports s3 ! a) = csent (ports s ! a) @ [[0xC9]] @ (if turn then [[m']] else [])"
    using mode_set [OF s2(2) a s2(4,3)] m(1) s2 by (cases turn) (auto simp: ret_io_def)
  let ?m = "if turn then m' else m"
  obtain w where w: "save_mode part ?m s3 = Inr (SUCC, s3\<lparr>eep := w\<rparr>)" "acu w = acu (eep s3)"
    using mode_saved [OF s3(3) s(3)] by blast
  define s4 where "s4 = set_coder a (set_conf (\<lambda>c. c\<lparr>ec_count_mode := ?m\<rparr>)) (s3\<lparr>eep := w\<rparr>)"
  have r4: "ready (s3\<lparr>eep := w\<rparr>)" using s3(2) w(2) by (simp add: ready_def)
  have m1: "(if \<not> turn then m else if m = 0xE1 then 0xE2 else 0xE1) = ?m" using m(1) by auto
  have du: "APP_ElecEncoder_DataAddDir_Get part = DataAddDir_Que a" "APP_ElecEncoder_DataAddDir_Set part = DataAddDir_Set a"
    using dispatch_mode [OF s(3)] s(4) by simp_all
  have tw: "(if turn then set_twice part m' else ret_io SUCC) s2 = Inr (SUCC, s3)"
    using s3(1) by (cases turn) (simp_all add: set_twice_def du bind_io_def ret_io_def)
  have "APP_ElecEncoder_DataAddDir_Adjust stack part dir s = Inr (SUCC, s4)"
    unfolding APP_ElecEncoder_DataAddDir_Adjust_def Let_def s(4) [symmetric] s1(4) if_not_P [OF d(2)] du(1)
      t [symmetric] bind_io_def [of "DataAddDir_Que a"] s2(1) bind_f_simps split_conv option.case m1
    using tw w(1) by (cases turn) (simp_all add: bind_io_def s4_def change_e_def ret_io_def)
  moreover have "csent (ports s4 ! a) = csent (ports s ! a) @ [[0xC9]] @ (if turn then [[m']] else [])"
    using s3(4) by (simp add: s4_def)
  moreover have "ec_count_mode (EleccoderConf (coder a s4)) = ?m"
    unfolding s4_def coder_set [OF r4 a] by (simp add: set_conf_def)
  ultimately show ?thesis by blast
qed

text \<open>The adjustment asks the encoder how it counts and turns it round when the samples say
  that it counts against the antenna's direction. When the first two comparisons of samples agree
  they decide; when they differ it is not the majority of the three that decides but whether the
  low byte of a sample is the wanted 0 or 1.\<close>

theorem adjust_follows_first_two_samples:
  assumes "ready s" "board_ok (eep s)" "part \<in> {1, 2, 3}" "a = unat part - 1" "rev_sem (ports s ! a) = 0"
    "observed s = [d0, d1, d2, d3]" "\<not> ((d0 = d1 \<and> d0 = d2) \<or> (d1 = d2 \<and> d1 = d3))"
    "m = 0xE1 \<and> m' = 0xE2 \<or> m = 0xE2 \<and> m' = 0xE1" "arrivals (ports s ! a) = ([m], []) # ([m'], []) # rest"
    "turn \<longleftrightarrow> (if (d0 < d1) = (d1 < d2) then (dir = ANTENNA_DIR_RIGHT_UP_CLOCK) \<noteq> (d0 < d1)
       else (if dir = ANTENNA_DIR_RIGHT_UP_CLOCK then 1 else 0 :: u8) \<noteq> ucast (if (d0 < d1) = (d2 < d3) then d0 else d1))"
  shows "\<exists>s'. APP_ElecEncoder_DataAddDir_Adjust stack part dir s = Inr (SUCC, s')
    \<and> csent (ports s' ! a) = csent (ports s ! a) @ [[0xC9]] @ (if turn then [[m']] else [])
    \<and> ec_count_mode (EleccoderConf (coder a s')) = (if turn then m' else m)"
proof (rule adjust_run [OF assms(1-9)])
  show "turn \<longleftrightarrow> (if dir = ANTENNA_DIR_RIGHT_UP_CLOCK then 1 else 0) \<noteq> add_flag_now d0 d1 d2 d3"
    unfolding assms(10) by (auto simp: add_flag_now_def add_flag_def)
qed

section \<open>Concrete runs\<close>

definition idle_port :: "(bytes \<times> bytes) list \<Rightarrow> chan" where
  "idle_port xs = \<lparr>cbuff = replicate 32 0, cwrite = 0, predict = 0, rev_sem = 0, send_sem = 1, user_sem = 1,
     arrivals = xs, csent = []\<rparr>"

definition long_coder :: strEleccoderInfo where
  "long_coder = zero_strEleccoderInfo\<lparr>EleccoderConf := zero_strEleccoderConf\<lparr>ec_bit_num := 17\<rparr>\<rparr>"

definition three_coders_dev :: strACUDevInfo where
  "three_coders_dev = zero_strACUDevInfo\<lparr>DeviceInfo := zero_strDeviceInfo\<lparr>EleccoderInfo := replicate 3 long_coder\<rparr>,
     ACUParam := zero_strACUSeekSatParam\<lparr>AntennaParam := zero_strAntennaParam\<lparr>ant_elec_coder_num := 3\<rparr>\<rparr>\<rparr>"

definition test_bench :: "(bytes \<times> bytes) list \<Rightarrow> u32 list \<Rightarrow> enc" where
  "test_bench xs os = \<lparr>eep = fresh_board\<lparr>acu := three_coders_dev\<rparr>, ports = [idle_port xs, idle_port [], idle_port []],
     Elec_coder_UlinkCnt = [0, 0, 0], observed = os\<rparr>"

abbreviation (input) answer_1020 :: bytes where "answer_1020 \<equiv> [0x5A, 0, 0, 0x10, 0x20, 0x0A]"

lemma less_3_cases: "(i :: nat) < 3 \<Longrightarrow> i = 0 \<or> i = 1 \<or> i = 2"
  by auto

lemma bench_coder: "i < 3 \<Longrightarrow> coder i (test_bench xs os) = long_coder"
  by (simp add: coder_def test_bench_def three_coders_dev_def)

lemma bench_sel [simp]:
  "ports (test_bench xs os) ! 0 = idle_port xs" "observed (test_bench xs os) = os" "board_ok (eep (test_bench xs os))"
  "Elec_coder_UlinkCnt (test_bench xs os) ! 0 = 0" "is_long 0 (test_bench xs os)"
  "arrivals (idle_port xs) = xs" "rev_sem (idle_port xs) = 0" "free (idle_port xs)" "csent (idle_port xs) = []"
  "length (ports (test_bench xs os)) = 3"
  "es_link_stat (EleccoderStat (coder 0 (test_bench xs os))) = COMM_LINK"
  by (simp_all add: test_bench_def idle_port_def free_def is_long_def coder_def three_coders_dev_def long_coder_def
      zero_strEleccoderInfo_def zero_strEleccoderStat_def)

lemma bench_ready: "\<forall>(now, later) \<in> set xs. length now \<le> 8 \<Longrightarrow> ready (test_bench xs os)"
  by (simp add: ready_def short_def test_bench_def three_coders_dev_def idle_port_def free_def)

lemma answer_1020 [simp]: "whole_answer True answer_1020" "answer_data True answer_1020 = 0x1020"
  by (simp_all add: whole_answer_def answer_ok_def answer_data_def push_bit_eq_mult)

theorem encoder_ports_witness:
  "\<exists>s'. run_cmds [Read 0, SetDir 1 0xE1, Read 0] (test_bench [(answer_1020, []), ([1, 2], [3])] []) = Inr s' \<and> ready s'"
  using encoder_ports_stay_usable [of "test_bench [(answer_1020, []), ([1, 2], [3])] []" "[Read 0, SetDir 1 0xE1, Read 0]"]
    bench_ready [of "[(answer_1020, []), ([1, 2], [3])]"] by auto

theorem encoder_burst_witness: "CurrData_Get 0 (test_bench [(replicate 9 0, [])] []) = Inl OutOfBounds"
  by (rule encoder_burst_overruns [of _ _ "replicate 9 0" "[]" "[]"]) simp_all

theorem encoder_reading_witness:
  "\<exists>s'. CurrData_Get 0 (test_bench [(answer_1020, [])] []) = Inr (Some 0x1020, s')
    \<and> ed_data (EleccoderData (coder 0 s')) = 0x1020"
  using encoder_reading_exact [of "test_bench [(answer_1020, [])] []" 0] bench_ready [of "[(answer_1020, [])]" "[]"] by auto

theorem silent_encoder_witness:
  "\<exists>s'. reads 5 (APP_ElecEncoder_CurrData_Get 1) (test_bench [] []) = Inr (replicate 5 None, s')
    \<and> es_link_stat (EleccoderStat (coder 0 s')) = COMM_UNLINK"
  using silent_encoder_loses_link [of 1 0 "test_bench [] []" 5] bench_ready [of "[]" "[]"] by (auto simp: silent_def)

theorem surplus_byte_witness:
  "\<exists>s'. reads 3 (CurrData_Get 0) (test_bench [(answer_1020 @ [9], []), ([], answer_1020), (answer_1020, [])] [])
    = Inr ([None, None, Some 0x1020], s')"
  using surplus_byte_costs_two_readings [of "test_bench [(answer_1020 @ [9], []), ([], answer_1020), (answer_1020, [])] []" 0 answer_1020 9 "[]"]
    bench_ready [of "[(answer_1020 @ [9], []), ([], answer_1020), (answer_1020, [])]" "[]"] by simp

theorem upper_bit_witness: "whole_answer True [0x5A, 0, 0, 0x10, 0xA0, 0x0A]"
  using upper_bit_unchecked [OF answer_1020(1)] by simp

theorem degrees_witness:
  "\<bar>APP_ElecEncoder_Data2DegreeFloat 1 0x10000 (test_bench [] []) - 180\<bar> \<le> 1 / 10000"
  using degrees_of_counts [of 1 "test_bench [] []" "0x10000" 0] bench_coder [of 0 "[]" "[]"] by (simp add: long_coder_def)

lemma three_coders_dev_sel:
  "three_coders three_coders_dev"
  "a < 3 \<Longrightarrow> sane a three_coders_dev \<and> has_link a three_coders_dev \<and> same_mode a three_coders_dev"
  "a < 3 \<Longrightarrow> map_of_axis a three_coders_dev = zero_strElecCoderMapAntenna"
  "a < 3 \<Longrightarrow> coder_of a three_coders_dev = long_coder"
proof -
  show m: "map_of_axis a three_coders_dev = zero_strElecCoderMapAntenna" if "a < 3" for a
    using that by (simp add: map_of_axis_def three_coders_dev_def zero_strDeviceInfo_def zero_strAllElecCoderMapAntenna_def)
  show c: "coder_of a three_coders_dev = long_coder" if "a < 3" for a
    using that by (simp add: coder_of_def three_coders_dev_def)
  show "sane a three_coders_dev \<and> has_link a three_coders_dev \<and> same_mode a three_coders_dev" if "a < 3" for a
    using that by (simp add: sane_def has_link_def same_mode_def m c long_coder_def zero_strEleccoderInfo_def zero_strEleccoderStat_def
        zero_strEleccoderData_def zero_strElecCoderMapAntenna_def zero_strEleccoderConf_def)
  show "three_coders three_coders_dev" by (simp add: three_coders_def three_coders_dev_def)
qed

theorem angle_ranges_witness:
  "antenna_position (ACUCurrSta (APP_MONITOR_LocallAntennaRealDegreeDataGet (7, 7, 7) three_coders_dev)) \<le> 360"
  using angle_ranges [of three_coders_dev "(7, 7, 7)"] three_coders_dev_sel
  by (simp add: zero_strElecCoderMapAntenna_def)

text \<open>A board whose elevation encoder counts the other way round.\<close>

definition reversed_dev :: strACUDevInfo where
  "reversed_dev = three_coders_dev\<lparr>DeviceInfo := (DeviceInfo three_coders_dev)\<lparr>EleccoderInfo :=
     replicate 3 (long_coder\<lparr>EleccoderConf := (EleccoderConf long_coder)\<lparr>ec_count_mode := 0xE2\<rparr>\<rparr>)\<rparr>\<rparr>"

theorem conversions_witness:
  "APP_MONITOR_LocallAntennaAdjustDegreeDataGet motor_position_id 0 three_coders_dev =
     Some (antenna_position (ACUCurrSta (APP_MONITOR_LocallAntennaRealDegreeDataGet (7, 7, 7) three_coders_dev)))
   \<and> antenna_cabrage (ACUCurrSta (APP_MONITOR_LocallAntennaRealDegreeDataGet (7, 200, 7) reversed_dev)) = 200"
  using conversions_agree_but_reversed_elevation [of three_coders_dev "(7, 7, 7)"]
    conversions_agree_but_reversed_elevation [of reversed_dev "(7, 200, 7)"] three_coders_dev_sel
  by (simp add: reversed_dev_def has_link_def same_mode_def coder_of_def map_of_axis_def three_coders_dev_def
      long_coder_def zero_strEleccoderInfo_def zero_strEleccoderStat_def zero_strEleccoderData_def
      zero_strEleccoderConf_def zero_strDeviceInfo_def zero_strAllElecCoderMapAntenna_def
      zero_strElecCoderMapAntenna_def wrap_cabrage_def)

theorem adjust_witness:
  "\<exists>s'. APP_ElecEncoder_DataAddDir_Adjust 0 1 ANTENNA_DIR_RIGHT_UP_CLOCK (test_bench [([0xE1], []), ([0xE2], [])] [5, 4, 6, 7])
    = Inr (SUCC, s') \<and> ec_count_mode (EleccoderConf (coder 0 s')) = 0xE2"
  using adjust_follows_first_two_samples [of "test_bench [([0xE1], []), ([0xE2], [])] [5, 4, 6, 7]" 1 0 5 4 6 7 "0xE1" "0xE2" "[]" True
      ANTENNA_DIR_RIGHT_UP_CLOCK 0] bench_ready [of "[([0xE1], []), ([0xE2], [])]" "[5, 4, 6, 7]"] by auto

end
