(* ===== verification/Monitor.thy ===== *)
theory Monitor
  imports PduLaws FP32
begin

text \<open>
  The periodic supervision of the unit, \<open>APP/src/app_monitor.c\<close> from line 353 on, the buzzer of
  \<open>APP/src/app_buzzer.c\<close>, the temperature sensor of \<open>HW/ic_ad7814.c\<close> and the functions of
  \<open>APP/src/main.c\<close> that end a task. The static variables of the functions are fields of the
  state; \<open>gps_alarm_flag\<close>, which is never read, is left out. \<open>killed\<close> are the calls of
  \<open>OSTaskDel\<close>, \<open>warn_log\<close> the codes given to \<open>APP_WarnLOG_SaveCode\<close>. Between two calls
  the other tasks write the device record.
\<close>

section \<open>State\<close>

record mon =
  core :: pdu
  gps_timeout_cnt :: u32
  alarm_now :: bytes
  alarm_buzzer_refresh :: bool
  limit_alarm_cnt :: bytes
  Task_Run_Flag :: bytes
  killed :: "nat list"
  warn_log :: "u32 list"
  old_degree :: "fp32 list"
  scan_cnt :: u32
  err_cnt :: bytes

type_synonym 'a mio = "('a, mon) st"

definition update :: "(mon \<Rightarrow> mon) \<Rightarrow> unit mio" where
  "update f s = Inr ((), f s)"

definition on_link :: "'a pio \<Rightarrow> 'a mio" where
  "on_link m s = bind_f (m (core s)) (\<lambda>(x, p). Inr (x, s\<lparr>core := p\<rparr>))"

definition board :: "mon \<Rightarrow> strACUDevInfo" where
  "board s = dev (core s)"

definition cur :: "mon \<Rightarrow> strACUCurrSta" where
  "cur s = ACUCurrSta (board s)"

definition set_cur :: "(strACUCurrSta \<Rightarrow> strACUCurrSta) \<Rightarrow> mon \<Rightarrow> mon" where
  "set_cur f s = s\<lparr>core := upd_sta f (core s)\<rparr>"

definition set_info :: "(strDeviceInfo \<Rightarrow> strDeviceInfo) \<Rightarrow> mon \<Rightarrow> mon" where
  "set_info f s = s\<lparr>core := upd_info f (core s)\<rparr>"

definition APP_WarnLOG_SaveCode :: "u32 \<Rightarrow> mon \<Rightarrow> mon" where
  "APP_WarnLOG_SaveCode code s = s\<lparr>warn_log := warn_log s @ [code]\<rparr>"

section \<open>Buzzer\<close>

definition APP_BUZZER_BeepOpt :: "u16 \<Rightarrow> u16 \<Rightarrow> u8 \<Rightarrow> u32 \<Rightarrow> mon \<Rightarrow> mon" where
  "APP_BUZZER_BeepOpt ms period flick cnt = set_info (\<lambda>i. i\<lparr>BuzzerInfo := (BuzzerInfo i)\<lparr>
     bz_flick_flag := flick, bz_beep_ms := ms, bz_period_ms := period, bz_beep_cnt := cnt\<rparr>\<rparr>)"

definition APP_BUZZER_Switch :: "u8 \<Rightarrow> mon \<Rightarrow> mon" where
  "APP_BUZZER_Switch v = set_info (\<lambda>i. i\<lparr>BuzzerInfo := (BuzzerInfo i)\<lparr>bz_buzzer_switch := (if v > 0 then 1 else 0)\<rparr>\<rparr>)"

text \<open>The static counter \<open>ms_cnt\<close> and the delay to be waited.\<close>

definition APP_BUZZER_Deal :: "u32 \<Rightarrow> strBuzzerInfo \<Rightarrow> u32 \<Rightarrow> u16 \<times> u32" where
  "APP_BUZZER_Deal period_ms b ms_cnt =
     (if bz_buzzer_switch b = 1 then
        (if ms_cnt * period_ms \<ge> ucast (bz_period_ms b) \<and> bz_flick_flag b > 0
         then (bz_beep_ms b, 1) else (0, ms_cnt + 1))
      else (0, ms_cnt))"

section \<open>Alarm bits\<close>

abbreviation (input) LOG_WARN_CODER_AZ :: u32 where "LOG_WARN_CODER_AZ \<equiv> 0x010101"
abbreviation (input) LOG_WARN_CODER_EL :: u32 where "LOG_WARN_CODER_EL \<equiv> 0x010102"
abbreviation (input) LOG_WARN_CODER_PL :: u32 where "LOG_WARN_CODER_PL \<equiv> 0x010103"
abbreviation (input) LOG_WARN_BEACON_ERR :: u32 where "LOG_WARN_BEACON_ERR \<equiv> 0x010201"
abbreviation (input) LOG_WARN_ACU_EEPROM_ERR :: u32 where "LOG_WARN_ACU_EEPROM_ERR \<equiv> 0x010301"
abbreviation (input) LOG_WARN_PDU_ERR :: u32 where "LOG_WARN_PDU_ERR \<equiv> 0x010401"
abbreviation (input) LOG_WARN_PDU_MOTOR_AZ_RIGHT_LIMIT :: u32 where "LOG_WARN_PDU_MOTOR_AZ_RIGHT_LIMIT \<equiv> 0x010412"
abbreviation (input) LOG_WARN_PDU_MOTOR_AZ_LEFT_LIMIT :: u32 where "LOG_WARN_PDU_MOTOR_AZ_LEFT_LIMIT \<equiv> 0x010413"
abbreviation (input) LOG_WARN_PDU_MOTOR_EL_UP_LIMIT :: u32 where "LOG_WARN_PDU_MOTOR_EL_UP_LIMIT \<equiv> 0x010422"
abbreviation (input) LOG_WARN_PDU_MOTOR_EL_DOWN_LIMIT :: u32 where "LOG_WARN_PDU_MOTOR_EL_DOWN_LIMIT \<equiv> 0x010423"
abbreviation (input) LOG_WARN_PDU_MOTOR_PL_UP_LIMIT :: u32 where "LOG_WARN_PDU_MOTOR_PL_UP_LIMIT \<equiv> 0x010432"
abbreviation (input) LOG_WARN_PDU_MOTOR_PL_DOWN_LIMIT :: u32 where "LOG_WARN_PDU_MOTOR_PL_DOWN_LIMIT \<equiv> 0x010433"
abbreviation (input) LOG_WARN_PDU_GPS_POSITIONING_FAIL :: u32 where "LOG_WARN_PDU_GPS_POSITIONING_FAIL \<equiv> 0x010492"
abbreviation (input) LOG_OPT_STANDBY_MODE_BY_ACU :: u32 where "LOG_OPT_STANDBY_MODE_BY_ACU \<equiv> 0x020501"
abbreviation (input) WORKSTA_NORMAL :: u32 where "WORKSTA_NORMAL \<equiv> 0"
abbreviation (input) WORKSTA_ALARM :: u32 where "WORKSTA_ALARM \<equiv> 1"

definition raise_alarm :: "nat \<Rightarrow> u8 \<Rightarrow> mon \<Rightarrow> mon" where
  "raise_alarm i m s = s\<lparr>alarm_now := (alarm_now s)[i := alarm_now s ! i OR m]\<rparr>"

definition clear_alarm :: "nat \<Rightarrow> u8 \<Rightarrow> mon \<Rightarrow> mon" where
  "clear_alarm i m s = s\<lparr>alarm_now := (alarm_now s)[i := alarm_now s ! i AND NOT m]\<rparr>"

text \<open>An alarm with a log code is logged while it is not yet among the published ones.\<close>

definition alarm_if :: "bool \<Rightarrow> nat \<Rightarrow> u8 \<Rightarrow> u32 option \<Rightarrow> mon \<Rightarrow> mon" where
  "alarm_if on i m code s =
     (if on then
        let s1 = raise_alarm i m s in
        case code of None \<Rightarrow> s1
        | Some c \<Rightarrow> if dev_alarm_buff (cur s1) ! i AND m \<noteq> alarm_now s1 ! i AND m
                    then APP_WarnLOG_SaveCode c s1 else s1
      else clear_alarm i m s)"

definition coder_lost :: "nat \<Rightarrow> strACUDevInfo \<Rightarrow> bool" where
  "coder_lost a d \<longleftrightarrow> (a = 2 \<longrightarrow> ant_elec_coder_num (AntennaParam (ACUParam d)) = 3)
     \<and> es_link_stat (EleccoderStat (EleccoderInfo (DeviceInfo d) ! a)) = COMM_UNLINK"

definition beacon_lost :: "strACUDevInfo \<Rightarrow> bool" where
  "beacon_lost d \<longleftrightarrow> bs_link_stat (BeaconStat (BeaconInfo (DeviceInfo d))) = COMM_UNLINK"

definition drive_link_lost :: "strACUDevInfo \<Rightarrow> bool" where
  "drive_link_lost d \<longleftrightarrow> pdu_link_stat (PDUommStat (DeviceInfo d)) = COMM_UNLINK"

definition device_alarms :: "mon \<Rightarrow> mon" where
  "device_alarms s =
     (let d = board s;
          s1 = alarm_if (coder_lost 0 d) 0 0x01 (Some LOG_WARN_CODER_AZ) s;
          s2 = alarm_if (coder_lost 1 d) 0 0x02 (Some LOG_WARN_CODER_EL) s1;
          s3 = alarm_if (coder_lost 2 d) 0 0x04 (Some LOG_WARN_CODER_PL) s2;
          s4 = alarm_if (beacon_lost d) 1 0x01 (Some LOG_WARN_BEACON_ERR) s3;
          s5 = alarm_if (ee_link_stat (EEPROMInfo (DeviceInfo d)) = COMM_UNLINK) 2 0x01
                 (Some LOG_WARN_ACU_EEPROM_ERR) s4
      in alarm_if (fl_link_stat (SPIFlashInfo (DeviceInfo d)) = COMM_UNLINK) 2 0x02 None s5)"

text \<open>The losses that count as high alarms.\<close>

definition high_loss :: "strACUDevInfo \<Rightarrow> bool" where
  "high_loss d \<longleftrightarrow> coder_lost 0 d \<or> coder_lost 1 d \<or> coder_lost 2 d \<or> beacon_lost d \<or> drive_link_lost d"

section \<open>Limits\<close>

fun limit_mark :: "nat \<Rightarrow> u8 \<Rightarrow> u8 \<times> u32" where
  "limit_mark a dir =
     (if a = 0 then (if dir = 1 then (0x04, LOG_WARN_PDU_MOTOR_AZ_LEFT_LIMIT) else (0x08, LOG_WARN_PDU_MOTOR_AZ_RIGHT_LIMIT))
      else if a = 1 then (if dir = 1 then (0x02, LOG_WARN_PDU_MOTOR_EL_DOWN_LIMIT) else (0x01, LOG_WARN_PDU_MOTOR_EL_UP_LIMIT))
      else (if dir = 1 then (0x20, LOG_WARN_PDU_MOTOR_PL_DOWN_LIMIT) else (0x10, LOG_WARN_PDU_MOTOR_PL_UP_LIMIT)))"

definition set_limit_cnt :: "nat \<Rightarrow> u8 \<Rightarrow> mon \<Rightarrow> mon" where
  "set_limit_cnt a v s = s\<lparr>limit_alarm_cnt := (limit_alarm_cnt s)[a := v]\<rparr>"

definition set_limit_sta :: "nat \<Rightarrow> u8 \<Rightarrow> mon \<Rightarrow> mon" where
  "set_limit_sta a v = set_cur (\<lambda>c. c\<lparr>motor_limit_sta := (motor_limit_sta c)[a := v]\<rparr>)"

text \<open>The numbers of the limits are those of the directions. The result says whether the limit
  has been entered.\<close>

definition limit_entered :: "nat \<Rightarrow> u8 \<Rightarrow> bool mio" where
  "limit_entered a dir =
     bind_io (update (\<lambda>s. raise_alarm 5 (fst (limit_mark a dir)) s)) (\<lambda>_.
     bind_io (update (set_limit_sta a dir)) (\<lambda>_.
     bind_io (\<lambda>s. if motor_move (cur s) ! a = dir
                  then bind_io (on_link (Antenna_DriveEnd (of_nat (a + 1)) dir)) (\<lambda>_. ret_io ()) s
                  else ret_io () s) (\<lambda>_.
     bind_io (update (APP_WarnLOG_SaveCode (snd (limit_mark a dir)))) (\<lambda>_. ret_io True))))"

definition limit_reached :: "nat \<Rightarrow> u8 \<Rightarrow> bool mio" where
  "limit_reached a dir s0 =
     (let s = set_limit_cnt a (limit_alarm_cnt s0 ! a + 1) s0 in
      if limit_alarm_cnt s ! a \<ge> 3 then
        bind_io (if motor_limit_sta (cur s) ! a \<noteq> dir then limit_entered a dir else ret_io False) (\<lambda>h.
        bind_io (update (set_limit_cnt a 0)) (\<lambda>_. ret_io h)) s
      else ret_io False s)"

definition limit_left :: "nat \<Rightarrow> mon \<Rightarrow> mon" where
  "limit_left a s = set_limit_cnt a 0 (clear_alarm 5 (fst (limit_mark a 1) OR fst (limit_mark a 2)) (set_limit_sta a 0 s))"

definition watch_limit :: "nat \<Rightarrow> bool mio" where
  "watch_limit a s =
     (if (a = 2 \<longrightarrow> ant_elec_coder_num (AntennaParam (ACUParam (board s))) = 3)
         \<and> es_link_stat (EleccoderStat (EleccoderInfo (DeviceInfo (board s)) ! a)) = COMM_LINK
      then case axis (board s) (of_nat (a + 1)) of (x, lo, hi) \<Rightarrow>
        (if x \<le> lo then limit_reached a 1 s
         else if x \<ge> hi then limit_reached a 2 s
         else Inr (False, limit_left a s))
      else Inr (False, limit_left a s))"

text \<open>A lost drive unit gives up its rights; the limits are watched only while it is there.\<close>

definition drive_unit_lost :: "mon \<Rightarrow> mon" where
  "drive_unit_lost s0 =
     (let s = alarm_if True 3 0x01 (Some LOG_WARN_PDU_ERR) s0 in
      if dev_admin_sta (cur s) = 0x02 \<or> adm_admin_sta (DevAdmin (cur s)) = 0x02
      then set_cur (\<lambda>c. c\<lparr>dev_admin_sta := 0, DevAdmin := (DevAdmin c)\<lparr>adm_admin_sta := 0, adm_mode_sta := 0\<rparr>\<rparr>) s
      else s)"

definition watch_drive :: "bool mio" where
  "watch_drive s =
     (if drive_link_lost (board s) then Inr (False, drive_unit_lost s)
      else bind_io (update (clear_alarm 3 0x01)) (\<lambda>_.
           bind_io (watch_limit 0) (\<lambda>h0. bind_io (watch_limit 1) (\<lambda>h1. bind_io (watch_limit 2) (\<lambda>h2.
             ret_io (h0 \<or> h1 \<or> h2))))) s)"

section \<open>Receiver position, publication of the alarms, reaction\<close>

definition set_gps_stat :: "u32 \<Rightarrow> mon \<Rightarrow> mon" where
  "set_gps_stat v = set_info (\<lambda>i. i\<lparr>GPSInfo := (GPSInfo i)\<lparr>GPSStat := (GPSStat (GPSInfo i))\<lparr>gpss_dev_stat := v\<rparr>\<rparr>\<rparr>)"

definition watch_gps :: "u32 \<Rightarrow> mon \<Rightarrow> mon" where
  "watch_gps period_ms s =
     (if lp_data_src_flag (LocalPositionParam (ACUParam (board s))) = 0 then
        (if gps_valid (GPSData (GPSInfo (DeviceInfo (board s)))) = 0x41
         then clear_alarm 4 0x02 (set_gps_stat WORKSTA_NORMAL (s\<lparr>gps_timeout_cnt := 0\<rparr>))
         else let s1 = s\<lparr>gps_timeout_cnt := gps_timeout_cnt s + 1\<rparr> in
           if gps_timeout_cnt s1 * period_ms div 1000 > 20
           then alarm_if True 4 0x02 (Some LOG_WARN_PDU_GPS_POSITIONING_FAIL) (set_gps_stat WORKSTA_ALARM s1)
           else s1)
      else clear_alarm 4 0x02 s)"

definition refresh_alarms :: "mon \<Rightarrow> mon" where
  "refresh_alarms s = (set_cur (\<lambda>c. c\<lparr>dev_alarm_reflash_flag := (dev_alarm_reflash_flag c)[0 := 1, 1 := 1]\<rparr>) s)
     \<lparr>alarm_buzzer_refresh := True\<rparr>"

definition any_alarm :: "bytes \<Rightarrow> u8" where
  "any_alarm b = (if list_all (\<lambda>x. x = 0) b then 0 else 1)"

definition publish_alarms :: "mon \<Rightarrow> mon" where
  "publish_alarms s =
     (let flag = any_alarm (alarm_now s);
          s1 = (if dev_alarm_flag (cur s) \<noteq> flag
                then refresh_alarms (set_cur (\<lambda>c. c\<lparr>dev_alarm_flag := flag\<rparr>) s) else s)
      in if dev_alarm_flag (cur s1) > 0 then
           let s2 = (if alarm_now s1 \<noteq> dev_alarm_buff (cur s1) then refresh_alarms s1 else s1)
           in set_cur (\<lambda>c. c\<lparr>dev_alarm_buff := alarm_now s2\<rparr>) s2
         else set_cur (\<lambda>c. c\<lparr>dev_alarm_buff := replicate 6 0\<rparr>) s1)"

text \<open>\<open>TaskSatelliteTrackDel\<close>, \<open>TaskSatGradientTrackDel\<close> and \<open>TaskAntennaRecordGotoDel\<close>: only the
  first two delete a task.\<close>

definition TaskDel :: "nat \<Rightarrow> mon \<Rightarrow> mon" where
  "TaskDel i s = s\<lparr>Task_Run_Flag := (Task_Run_Flag s)[i := 0], killed := (if i < 2 then killed s @ [i] else killed s)\<rparr>"

definition end_task :: "nat \<Rightarrow> unit mio" where
  "end_task i s =
     (if Task_Run_Flag s ! i > 0 then
        bind_io (on_link Antenna_AllDriveEnd) (\<lambda>r.
        bind_io (if r = FAIL then bind_io (on_link Antenna_AllDriveEnd) (\<lambda>_. ret_io ()) else ret_io ()) (\<lambda>_.
          update (TaskDel i))) s
      else ret_io () s)"

definition to_standby :: "mon \<Rightarrow> mon" where
  "to_standby s =
     (if SeekSat_Mode (SeekSatParam (ACUParam (board s))) \<ge> 1
      then s\<lparr>core := opt_log_event LOG_OPT_STANDBY_MODE_BY_ACU (upd_sta (\<lambda>c. c\<lparr>dev_work_sta := 0\<rparr>)
             (upd_param (\<lambda>p. p\<lparr>SeekSatParam := (SeekSatParam p)\<lparr>SeekSat_Mode := 0\<rparr>\<rparr>) (core s)))\<rparr>
      else s)"

definition beep :: "mon \<Rightarrow> mon" where
  "beep s =
     (if alarm_buzzer_refresh s
      then (if dev_alarm_flag (cur s) > 0
            then APP_BUZZER_BeepOpt 50 500 1 10000 (APP_BUZZER_Switch 1 s)
            else APP_BUZZER_BeepOpt 0 0 0 0 (APP_BUZZER_Switch 0 s))\<lparr>alarm_buzzer_refresh := False\<rparr>
      else s)"

definition react :: "bool \<Rightarrow> unit mio" where
  "react high s =
     (if dev_alarm_flag (cur s) > 0 \<and> high
      then bind_io (end_task 0) (\<lambda>_. bind_io (end_task 1) (\<lambda>_. bind_io (end_task 2) (\<lambda>_.
             update (\<lambda>s. beep (to_standby s))))) s
      else Inr ((), beep s))"

definition settle_work_sta :: "mon \<Rightarrow> mon" where
  "settle_work_sta s =
     (if dev_work_sta (cur s) > 0 \<and> SeekSat_Mode (SeekSatParam (ACUParam (board s))) = 0
      then set_cur (\<lambda>c. c\<lparr>dev_work_sta := 0\<rparr>) s else s)"

definition APP_MONITOR_DevHWSta :: "u32 \<Rightarrow> unit mio" where
  "APP_MONITOR_DevHWSta period_ms s0 =
     bind_io (update device_alarms) (\<lambda>_.
     bind_io watch_drive (\<lambda>h.
     bind_io (update (\<lambda>s. publish_alarms (watch_gps period_ms s))) (\<lambda>_.
     bind_io (react (high_loss (board s0) \<or> h)) (\<lambda>_.
       update settle_work_sta)))) s0"

section \<open>Drifting axes\<close>

text \<open>The tolerances are double constants.\<close>

definition drifted :: "fp32 \<Rightarrow> fp32 \<Rightarrow> rat \<Rightarrow> bool" where
  "drifted old x tol \<longleftrightarrow> old > f64 (x + f64 tol) \<or> old < f64 (x - f64 tol)"

definition watch_axis :: "rat \<Rightarrow> nat \<Rightarrow> unit mio" where
  "watch_axis tol i s =
     (let x = ed_degree (EleccoderData (EleccoderInfo (DeviceInfo (board s)) ! i)) in
      if drifted (old_degree s ! i) x tol then
        let s1 = s\<lparr>old_degree := (old_degree s)[i := x], err_cnt := (err_cnt s)[i := err_cnt s ! i + 1]\<rparr> in
        if err_cnt s1 ! i \<ge> 10
        then bind_io (on_link (Antenna_DriveEnd (of_nat (i + 1)) 0)) (\<lambda>_. ret_io ())
               (s1\<lparr>err_cnt := (err_cnt s1)[i := 0]\<rparr>)
        else Inr ((), s1)
      else Inr ((), s\<lparr>err_cnt := (err_cnt s)[i := 0]\<rparr>))"

definition APP_MONITOR_DevMotorMonitor :: "u32 \<Rightarrow> unit mio" where
  "APP_MONITOR_DevMotorMonitor period_ms s0 =
     (if SeekSat_Mode (SeekSatParam (ACUParam (board s0))) = 0 then
        let s = s0\<lparr>scan_cnt := scan_cnt s0 + 1\<rparr> in
        if period_ms * scan_cnt s \<ge> 1000
        then bind_io (watch_axis (8 / 1000) 0) (\<lambda>_. bind_io (watch_axis (8 / 1000) 1) (\<lambda>_. (\<lambda>t.
               if ant_elec_coder_num (AntennaParam (ACUParam (board t))) \<ge> 3 then watch_axis (2 / 10) 2 t
               else Inr ((), t)))) (s\<lparr>scan_cnt := 0\<rparr>)
        else Inr ((), s)
      else Inr ((), s0))"

section \<open>Alarm codes\<close>

text \<open>Byte, bit and code of every alarm, in the order of the tests.\<close>

definition alarm_table :: "(nat \<times> u8 \<times> bytes) list" where
  "alarm_table =
     [(0, 0x01, [1, 1, 1]), (0, 0x02, [1, 1, 2]), (0, 0x04, [1, 1, 3]),
      (1, 0x01, [1, 2, 1]), (1, 0x02, [1, 2, 2]), (1, 0x04, [1, 2, 3]),
      (2, 0x01, [1, 3, 1]), (2, 0x02, [1, 3, 2]),
      (3, 0x01, [1, 4, 1]), (4, 0x02, [1, 4, 2]),
      (5, 0x01, [1, 4, 3]), (5, 0x02, [1, 4, 4]), (5, 0x04, [1, 4, 5]),
      (5, 0x08, [1, 4, 6]), (5, 0x10, [1, 4, 7]), (5, 0x20, [1, 4, 8])]"

definition APP_MONITOR_AlarmStaCodeDeal :: "bytes \<Rightarrow> bytes \<times> u32" where
  "APP_MONITOR_AlarmStaCodeDeal alarms =
     (let AlarmCodebuff = concat (map (\<lambda>(i, m, code). if alarms ! i AND m \<noteq> 0 then code else []) alarm_table)
      in (AlarmCodebuff, ucast (of_nat (length AlarmCodebuff) :: u8)))"

text \<open>One branch of \<open>APP_MONITOR_AlarmStaWrite2Flash\<close>: three bytes are put into the local array
  \<open>AlarmCodebuff[3]\<close> from \<open>index\<close> on; \<open>again\<close> says whether the branch ends with \<open>index = 0\<close>.
  The calls that stored the code are commented out.\<close>

definition new_code :: "bytes \<Rightarrow> bytes \<Rightarrow> nat \<times> u8 \<times> bytes \<Rightarrow> bool \<Rightarrow> nat \<times> bytes \<Rightarrow> fault + nat \<times> bytes" where
  "new_code old new entry again st =
     (case (entry, st) of ((i, m, code), (index, buff)) \<Rightarrow>
        if old ! i AND m \<noteq> new ! i AND m \<and> new ! i AND m > 0
        then if index + 3 > length buff then Inl OutOfBounds
             else Inr (if again then 0 else index + 3, take index buff @ code @ drop (index + 3) buff)
        else Inr (index, buff))"

fun new_codes :: "bytes \<Rightarrow> bytes \<Rightarrow> ((nat \<times> u8 \<times> bytes) \<times> bool) list \<Rightarrow> nat \<times> bytes \<Rightarrow> fault + nat \<times> bytes" where
  "new_codes old new [] st = Inr st"
| "new_codes old new ((e, again) # es) st = bind_f (new_code old new e again st) (new_codes old new es)"

text \<open>The last branch tests the bit of the one before it again.\<close>

definition write_table :: "((nat \<times> u8 \<times> bytes) \<times> bool) list" where
  "write_table = map (\<lambda>e. (e, fst e \<noteq> 2 \<or> fst (snd e) \<noteq> 0x02)) (butlast alarm_table) @ [((5, 0x10, [1, 4, 8]), True)]"

definition APP_MONITOR_AlarmStaWrite2Flash :: "bytes \<Rightarrow> bytes \<Rightarrow> fault + unit" where
  "APP_MONITOR_AlarmStaWrite2Flash old new = bind_f (new_codes old new write_table (0, replicate 3 0)) (\<lambda>_. Inr ())"

section \<open>Temperature and the PC's silence\<close>

text \<open>The word read over SPI carries the sign in bit 14 and quarters of a degree in bits 5 to 14.
  The result of the division is stored in eight bits.\<close>

definition AD7814_TempGet :: "u16 \<Rightarrow> int" where
  "AD7814_TempGet data =
     (let magnitude = uint (drop_bit 5 (data AND NOT 0x4000));
          temp = sint (word_of_int (magnitude * 25 div 100) :: 8 word)
      in if data AND 0x4000 \<noteq> 0 then sint (word_of_int (- temp) :: 8 word) else temp)"

text \<open>The static sum and count of \<open>APP_MONITOR_Temperature_Get\<close>, and the new temperature after ten
  samples. The sum of ten samples needs no more than 12 bits.\<close>

definition APP_MONITOR_Temperature_Get :: "u16 \<Rightarrow> int \<times> u8 \<Rightarrow> (int \<times> u8) \<times> int option" where
  "APP_MONITOR_Temperature_Get data st =
     (case st of (temp, cnt) \<Rightarrow>
        let temp1 = temp + AD7814_TempGet data; cnt1 = cnt + 1
        in if cnt1 \<ge> 10 then ((0, 0), Some (sgn temp1 * (\<bar>temp1\<bar> div uint cnt1))) else ((temp1, cnt1), None))"

text \<open>The statics \<open>PC_admin_old_link_cnt\<close> and \<open>pc_admin_unlink_cnt\<close> of the function.\<close>

definition APP_MONITOR_ETH_AdminUnlinkTimeout_Get :: "strDevAdmin \<Rightarrow> u32 \<times> u32 \<Rightarrow> u32 \<times> u32" where
  "APP_MONITOR_ETH_AdminUnlinkTimeout_Get a st =
     (case st of (old, n) \<Rightarrow>
        if adm_admin_sta a = 0x01 then
          (if old \<noteq> adm_pc_admin_link_cnt a then (adm_pc_admin_link_cnt a, 0) else (old, n + 1))
        else (adm_pc_admin_link_cnt a - 1, 0))"

end
