(* ===== verification/MonitorLaws.thy ===== *)
theory MonitorLaws
  imports Monitor
begin

text \<open>
  How the parts of the supervision of theory \<open>Monitor\<close> change the state. \<open>obeys R m\<close> says that a
  step of \<open>m\<close> that returns is one of \<open>R\<close>; the locale \<open>frame\<close> has the rules for a reflexive and
  transitive \<open>R\<close>, which is interpreted by what a stop command may change (\<open>drives\<close>) and by
  what the watch of the limits may change (\<open>watches\<close>).
\<close>

section \<open>Frames\<close>

definition obeys :: "('s \<Rightarrow> 's \<Rightarrow> bool) \<Rightarrow> ('a, 's) st \<Rightarrow> bool" where
  "obeys R m \<longleftrightarrow> (\<forall>s x s'. m s = Inr (x, s') \<longrightarrow> R s s')"

lemma obeysI: "(\<And>s x s'. m s = Inr (x, s') \<Longrightarrow> R s s') \<Longrightarrow> obeys R m"
  by (simp add: obeys_def)

lemma obeysD: "obeys R m \<Longrightarrow> m s = Inr (x, s') \<Longrightarrow> R s s'"
  by (simp add: obeys_def)

lemma obeys_mono: "obeys R m \<Longrightarrow> (\<And>s s'. R s s' \<Longrightarrow> Q s s') \<Longrightarrow> obeys Q m"
  by (auto simp: obeys_def)

lemma update_Inr [simp]: "update f s = Inr (x, s') \<longleftrightarrow> s' = f s"
  by (auto simp: update_def)

lemma bind_update [simp]: "bind_io (update f) k s = k () (f s)"
  by (simp add: bind_io_def update_def)

locale frame =
  fixes R :: "'s \<Rightarrow> 's \<Rightarrow> bool"
  assumes stay: "R s s" and step: "R s t \<Longrightarrow> R t u \<Longrightarrow> R s u"
begin

lemma ret: "obeys R (ret_io x)"
  by (auto simp: obeys_def stay)

lemma seq: "obeys R m \<Longrightarrow> (\<And>x. obeys R (k x)) \<Longrightarrow> obeys R (bind_io m k)"
  unfolding obeys_def bind_io_Inr using step by blast

lemma cond: "(c \<Longrightarrow> obeys R m) \<Longrightarrow> (\<not> c \<Longrightarrow> obeys R n) \<Longrightarrow> obeys R (if c then m else n)"
  by simp

lemma cond_at: "obeys R m \<Longrightarrow> obeys R n \<Longrightarrow> obeys R (\<lambda>s. if c s then m s else n s)"
  by (simp add: obeys_def)

lemma two: "R s t \<Longrightarrow> obeys R m \<Longrightarrow> m t = Inr (x, u) \<Longrightarrow> R s u"
  using step obeysD by metis

end

section \<open>Stop commands\<close>

text \<open>Everything of the device record but the state of the drive unit link and the motions.\<close>

definition rest :: "strACUDevInfo \<Rightarrow> strACUDevInfo" where
  "rest d = d\<lparr>DeviceInfo := (DeviceInfo d)\<lparr>PDUommStat := zero_strPDUCommStat\<rparr>,
     ACUCurrSta := (ACUCurrSta d)\<lparr>motor_move := []\<rparr>\<rparr>"

definition drives :: "mon \<Rightarrow> mon \<Rightarrow> bool" where
  "drives s s' \<longleftrightarrow> s'\<lparr>core := core s\<rparr> = s \<and> rest (board s') = rest (board s)
     \<and> opt_log (core s') = opt_log (core s) \<and> (\<exists>fs. sent (core s') = sent (core s) @ fs)"

interpretation drv: frame drives
proof
  fix s t u
  show "drives s s" by (simp add: drives_def)
  assume a: "drives s t" and b: "drives t u"
  then have "u\<lparr>core := core s\<rparr> = (u\<lparr>core := core t\<rparr>)\<lparr>core := core s\<rparr>" by simp
  also have "\<dots> = s" using a b by (simp add: drives_def)
  finally have "u\<lparr>core := core s\<rparr> = s" .
  then show "drives s u" using a b by (auto simp: drives_def)
qed

lemma DriveEnd_rest:
  assumes "Antenna_DriveEnd p d s = Inr (r, s')"
  shows "rest (dev s') = rest (dev s)" "opt_log s' = opt_log s" "\<exists>fs. sent s' = sent s @ fs"
  using assms
  by (auto simp: Antenna_DriveEnd_def Motor_DriveEnd_def bind_io_Inr sem_pend_def sem_post_def send_command_def
      await_reply_def take_reply_def link_stat_def upd_info_def set_motor_move_def upd_sta_def rest_def
      split: if_splits list.splits option.splits)

lemma on_link_Inr: "on_link m s = Inr (x, s') \<longleftrightarrow> (\<exists>p. m (core s) = Inr (x, p) \<and> s' = s\<lparr>core := p\<rparr>)"
  by (auto simp: on_link_def bind_f_Inr)

lemma on_link_bind: "on_link (bind_io m k) = bind_io (on_link m) (\<lambda>x. on_link (k x))"
  by (rule ext) (auto simp: on_link_def bind_io_def bind_f_def split: sum.splits)

lemma drives_stop: "obeys drives (on_link (Antenna_DriveEnd p d))"
  by (rule obeysI) (auto simp: on_link_Inr drives_def board_def DriveEnd_rest dest: DriveEnd_rest(3))

lemma drives_ret: "obeys drives (on_link (ret_io x))"
  by (rule obeysI) (auto simp: on_link_Inr drives_def)

lemma drives_stop_all: "obeys drives (on_link Antenna_AllDriveEnd)"
proof -
  have "obeys drives (on_link (stop_axis p r))" for p r
    unfolding stop_axis_def on_link_bind
    by (intro drv.seq drives_stop) (auto simp: on_link_bind intro!: drv.seq drives_stop drives_ret)
  then show ?thesis
    unfolding Antenna_AllDriveEnd_def on_link_bind by (intro drv.seq)
qed

lemma all_stop_sent:
  assumes "Antenna_AllDriveEnd s = Inr (r, s')"
  shows "\<exists>fs. sent s' = sent s @ fs \<and> {stop_frame 1, stop_frame 2, stop_frame 3} \<subseteq> set fs"
proof -
  obtain r1 s1 r2 s2 where s: "stop_axis 1 SUCC s = Inr (r1, s1)" "stop_axis 2 r1 s1 = Inr (r2, s2)"
    "stop_axis 3 r2 s2 = Inr (r, s')"
    using assms by (auto simp: Antenna_AllDriveEnd_def bind_io_Inr)
  have p: "is_part 1" "is_part 2" "is_part 3" by (simp_all add: is_part_def)
  obtain f1 f2 f3 where "sent s' = sent s @ f1 @ f2 @ f3" "stop_frame 1 \<in> set f1"
    "stop_frame 2 \<in> set f2" "stop_frame 3 \<in> set f3"
    using stop_axis_effect(1) [OF s(1) p(1)] stop_axis_effect(1) [OF s(2) p(2)] stop_axis_effect(1) [OF s(3) p(3)] by auto
  then show ?thesis by auto
qed

lemma drives_sel:
  assumes "drives s s'"
  shows "alarm_now s' = alarm_now s" "gps_timeout_cnt s' = gps_timeout_cnt s"
    "alarm_buzzer_refresh s' = alarm_buzzer_refresh s" "limit_alarm_cnt s' = limit_alarm_cnt s"
    "Task_Run_Flag s' = Task_Run_Flag s" "killed s' = killed s" "warn_log s' = warn_log s"
  using assms unfolding drives_def by (metis mon.select_convs mon.surjective mon.update_convs(1))+

lemma rest_sel:
  assumes "rest d = rest e"
  shows "ACUParam d = ACUParam e" "dev_alarm_buff (ACUCurrSta d) = dev_alarm_buff (ACUCurrSta e)"
    "dev_alarm_flag (ACUCurrSta d) = dev_alarm_flag (ACUCurrSta e)"
    "motor_limit_sta (ACUCurrSta d) = motor_limit_sta (ACUCurrSta e)"
    "EleccoderInfo (DeviceInfo d) = EleccoderInfo (DeviceInfo e)"
    "dev_work_sta (ACUCurrSta d) = dev_work_sta (ACUCurrSta e)"
proof -
  have "f (rest d) = f (rest e)" for f :: "strACUDevInfo \<Rightarrow> 'x" using assms by simp
  from this [of ACUParam] show "ACUParam d = ACUParam e" by (simp add: rest_def)
  have c: "f (ACUCurrSta (rest d)) = f (ACUCurrSta (rest e))" for f :: "strACUCurrSta \<Rightarrow> 'x" using assms by simp
  from c [of dev_alarm_buff] show "dev_alarm_buff (ACUCurrSta d) = dev_alarm_buff (ACUCurrSta e)" by (simp add: rest_def)
  from c [of dev_alarm_flag] show "dev_alarm_flag (ACUCurrSta d) = dev_alarm_flag (ACUCurrSta e)" by (simp add: rest_def)
  from c [of motor_limit_sta] show "motor_limit_sta (ACUCurrSta d) = motor_limit_sta (ACUCurrSta e)" by (simp add: rest_def)
  from c [of dev_work_sta] show "dev_work_sta (ACUCurrSta d) = dev_work_sta (ACUCurrSta e)" by (simp add: rest_def)
  have "EleccoderInfo (DeviceInfo (rest d)) = EleccoderInfo (DeviceInfo (rest e))" using assms by simp
  then show "EleccoderInfo (DeviceInfo d) = EleccoderInfo (DeviceInfo e)" by (simp add: rest_def)
qed

section \<open>Alarm bytes\<close>

lemma masked_update:
  "(x OR m) AND n = (x AND n) OR (m AND n)" "(x AND NOT m) AND n = x AND (NOT m AND n)" for x m n :: u8
  by (rule bit_word_eqI; auto simp: bit_simps)+

declare limit_mark.simps [simp del]

definition lim_bits :: "nat \<Rightarrow> u8" where
  "lim_bits a = fst (limit_mark a 1) OR fst (limit_mark a 2)"

lemma limit_left_eq: "limit_left a s = set_limit_cnt a 0 (clear_alarm 5 (lim_bits a) (set_limit_sta a 0 s))"
  by (simp add: limit_left_def lim_bits_def)

lemma limit_bits_apart:
  "a < 3 \<Longrightarrow> b < 3 \<Longrightarrow> a \<noteq> b \<Longrightarrow> dir = 1 \<or> dir = 2 \<Longrightarrow> fst (limit_mark a dir) AND lim_bits b = 0"
  by (auto simp: limit_mark.simps lim_bits_def less_Suc_eq numeral_3_eq_3)

lemma limit_bits_clear:
  "a < 3 \<Longrightarrow> b < 3 \<Longrightarrow> a \<noteq> b \<Longrightarrow> NOT (lim_bits a) AND lim_bits b = lim_bits b"
  "NOT m AND m = 0" for m :: u8
  by (auto simp: limit_mark.simps lim_bits_def less_Suc_eq numeral_3_eq_3)

text \<open>The alarm bits of an axis agree with its limit state.\<close>

definition limit_ok :: "nat \<Rightarrow> mon \<Rightarrow> bool" where
  "limit_ok a s \<longleftrightarrow> (let l = motor_limit_sta (cur s) ! a; b = alarm_now s ! 5 in
     if l = 0 then b AND lim_bits a = 0
     else (l = 1 \<or> l = 2) \<and> b AND fst (limit_mark a l) \<noteq> 0)"

definition sized :: "mon \<Rightarrow> bool" where
  "sized s \<longleftrightarrow> length (alarm_now s) = 6 \<and> length (limit_alarm_cnt s) = 3 \<and> length (motor_limit_sta (cur s)) = 3
     \<and> length (Task_Run_Flag s) = 3"

lemma small_updates [simp]:
  "board (raise_alarm i m s) = board s" "board (clear_alarm i m s) = board s" "board (APP_WarnLOG_SaveCode c s) = board s"
  "board (set_limit_cnt a v s) = board s" "cur (set_cur f s) = f (cur s)"
  "core (raise_alarm i m s) = core s" "core (clear_alarm i m s) = core s" "core (APP_WarnLOG_SaveCode c s) = core s"
  "core (set_limit_cnt a v s) = core s" "ACUParam (board (set_cur f s)) = ACUParam (board s)"
  "DeviceInfo (board (set_cur f s)) = DeviceInfo (board s)"
  "sent (core (set_cur f s)) = sent (core s)" "opt_log (core (set_cur f s)) = opt_log (core s)"
  "cur (raise_alarm i m s) = cur s" "cur (clear_alarm i m s) = cur s" "cur (APP_WarnLOG_SaveCode c s) = cur s"
  "cur (set_limit_cnt a v s) = cur s"
  by (simp_all add: raise_alarm_def clear_alarm_def APP_WarnLOG_SaveCode_def set_limit_cnt_def board_def cur_def
      set_cur_def upd_sta_def)

lemma alarm_bytes [simp]:
  "alarm_now (raise_alarm i m s) = (alarm_now s)[i := alarm_now s ! i OR m]"
  "alarm_now (clear_alarm i m s) = (alarm_now s)[i := alarm_now s ! i AND NOT m]"
  "alarm_now (APP_WarnLOG_SaveCode c s) = alarm_now s" "alarm_now (set_limit_cnt a v s) = alarm_now s"
  "alarm_now (set_cur f s) = alarm_now s"
  "limit_alarm_cnt (raise_alarm i m s) = limit_alarm_cnt s" "limit_alarm_cnt (clear_alarm i m s) = limit_alarm_cnt s"
  "limit_alarm_cnt (APP_WarnLOG_SaveCode c s) = limit_alarm_cnt s"
  "limit_alarm_cnt (set_limit_cnt a v s) = (limit_alarm_cnt s)[a := v]" "limit_alarm_cnt (set_cur f s) = limit_alarm_cnt s"
  "Task_Run_Flag (raise_alarm i m s) = Task_Run_Flag s" "Task_Run_Flag (clear_alarm i m s) = Task_Run_Flag s"
  "Task_Run_Flag (APP_WarnLOG_SaveCode c s) = Task_Run_Flag s" "Task_Run_Flag (set_limit_cnt a v s) = Task_Run_Flag s"
  "Task_Run_Flag (set_cur f s) = Task_Run_Flag s"
  "warn_log (raise_alarm i m s) = warn_log s" "warn_log (clear_alarm i m s) = warn_log s"
  "warn_log (APP_WarnLOG_SaveCode c s) = warn_log s @ [c]" "warn_log (set_limit_cnt a v s) = warn_log s"
  "warn_log (set_cur f s) = warn_log s"
  by (simp_all add: raise_alarm_def clear_alarm_def APP_WarnLOG_SaveCode_def set_limit_cnt_def set_cur_def)

section \<open>What the watch of the limits changes\<close>

definition rest_lim :: "strACUDevInfo \<Rightarrow> strACUDevInfo" where
  "rest_lim d = (rest d)\<lparr>ACUCurrSta := (ACUCurrSta (rest d))\<lparr>motor_limit_sta := []\<rparr>\<rparr>"

definition watches :: "mon \<Rightarrow> mon \<Rightarrow> bool" where
  "watches s s' \<longleftrightarrow> rest_lim (board s') = rest_lim (board s) \<and> opt_log (core s') = opt_log (core s)
     \<and> (\<exists>fs. sent (core s') = sent (core s) @ fs) \<and> (\<exists>ws. warn_log s' = warn_log s @ ws)
     \<and> length (alarm_now s') = length (alarm_now s) \<and> (\<forall>i. i \<noteq> 5 \<longrightarrow> alarm_now s' ! i = alarm_now s ! i)
     \<and> length (limit_alarm_cnt s') = length (limit_alarm_cnt s)
     \<and> length (motor_limit_sta (cur s')) = length (motor_limit_sta (cur s))
     \<and> Task_Run_Flag s' = Task_Run_Flag s"

text \<open>What the watch of another axis leaves alone.\<close>

definition beside :: "nat \<Rightarrow> mon \<Rightarrow> mon \<Rightarrow> bool" where
  "beside b s s' \<longleftrightarrow> motor_limit_sta (cur s') ! b = motor_limit_sta (cur s) ! b
     \<and> limit_alarm_cnt s' ! b = limit_alarm_cnt s ! b
     \<and> alarm_now s' ! 5 AND lim_bits b = alarm_now s ! 5 AND lim_bits b
     \<and> motor_move (cur s') ! b = motor_move (cur s) ! b"

interpretation wat: frame watches
  by unfold_locales (auto simp: watches_def)

interpretation bes: frame "beside b" for b
  by unfold_locales (auto simp: beside_def)

lemma drives_watches: "drives s s' \<Longrightarrow> watches s s'"
proof -
  assume d: "drives s s'"
  then have r: "rest (board s') = rest (board s)" by (simp add: drives_def)
  then have "rest_lim (board s') = rest_lim (board s)" by (simp add: rest_lim_def)
  then show ?thesis
    using d drives_sel [OF d] rest_sel [OF r]
    by (simp add: watches_def beside_def drives_def cur_def)
qed

lemma rest_lim_sel:
  assumes "rest_lim d = rest_lim e"
  shows "ACUParam d = ACUParam e" "dev_alarm_buff (ACUCurrSta d) = dev_alarm_buff (ACUCurrSta e)"
    "dev_alarm_flag (ACUCurrSta d) = dev_alarm_flag (ACUCurrSta e)"
    "EleccoderInfo (DeviceInfo d) = EleccoderInfo (DeviceInfo e)"
    "antenna_position (ACUCurrSta d) = antenna_position (ACUCurrSta e)"
    "antenna_cabrage (ACUCurrSta d) = antenna_cabrage (ACUCurrSta e)"
    "antenna_polar (ACUCurrSta d) = antenna_polar (ACUCurrSta e)"
proof -
  have "ACUParam (rest_lim d) = ACUParam (rest_lim e)" using assms by simp
  then show "ACUParam d = ACUParam e" by (simp add: rest_lim_def rest_def)
  have c: "f (ACUCurrSta (rest_lim d)) = f (ACUCurrSta (rest_lim e))" for f :: "strACUCurrSta \<Rightarrow> 'x" using assms by simp
  from c [of dev_alarm_buff] show "dev_alarm_buff (ACUCurrSta d) = dev_alarm_buff (ACUCurrSta e)"
    by (simp add: rest_lim_def rest_def)
  from c [of dev_alarm_flag] show "dev_alarm_flag (ACUCurrSta d) = dev_alarm_flag (ACUCurrSta e)"
    by (simp add: rest_lim_def rest_def)
  from c [of antenna_position] show "antenna_position (ACUCurrSta d) = antenna_position (ACUCurrSta e)"
    by (simp add: rest_lim_def rest_def)
  from c [of antenna_cabrage] show "antenna_cabrage (ACUCurrSta d) = antenna_cabrage (ACUCurrSta e)"
    by (simp add: rest_lim_def rest_def)
  from c [of antenna_polar] show "antenna_polar (ACUCurrSta d) = antenna_polar (ACUCurrSta e)"
    by (simp add: rest_lim_def rest_def)
  have "EleccoderInfo (DeviceInfo (rest_lim d)) = EleccoderInfo (DeviceInfo (rest_lim e))" using assms by simp
  then show "EleccoderInfo (DeviceInfo d) = EleccoderInfo (DeviceInfo e)" by (simp add: rest_lim_def rest_def)
qed

text \<open>The small updates of the watch of axis \<open>a\<close>.\<close>

lemma watch_updates:
  "watches s (raise_alarm 5 m s)" "watches s (clear_alarm 5 m s)" "watches s (set_limit_cnt a v s)"
  "watches s (set_limit_sta a v s)" "watches s (APP_WarnLOG_SaveCode c s)"
  by (simp_all add: watches_def set_limit_sta_def)
    (simp_all add: rest_lim_def rest_def cur_def board_def set_cur_def upd_sta_def)

lemma beside_updates:
  assumes "a < 3" "b < 3" "a \<noteq> b" "dir = 1 \<or> dir = 2" "length (alarm_now s) = 6"
  shows "beside b s (raise_alarm 5 (fst (limit_mark a dir)) s)" "beside b s (clear_alarm 5 (lim_bits a) s)"
    "beside b s (set_limit_cnt a v s)" "beside b s (set_limit_sta a v s)" "beside b s (APP_WarnLOG_SaveCode c s)"
  using assms limit_bits_apart [OF assms(1-4)] limit_bits_clear(1) [OF assms(1-3)]
  by (simp_all add: beside_def set_limit_sta_def masked_update)

text \<open>New frames and new log codes.\<close>

definition sends :: "mon \<Rightarrow> mon \<Rightarrow> bytes \<Rightarrow> bool" where
  "sends s s' f \<longleftrightarrow> (\<exists>fs. sent (core s') = sent (core s) @ fs \<and> f \<in> set fs)"

definition logs :: "mon \<Rightarrow> mon \<Rightarrow> u32 \<Rightarrow> bool" where
  "logs s s' c \<longleftrightarrow> (\<exists>ws. warn_log s' = warn_log s @ ws \<and> c \<in> set ws)"

lemma sends_after: "sends s t f \<Longrightarrow> watches t u \<Longrightarrow> sends s u f"
  "watches s t \<Longrightarrow> sends t u f \<Longrightarrow> sends s u f"
  by (fastforce simp: sends_def watches_def)+

lemma logs_after: "logs s t c \<Longrightarrow> watches t u \<Longrightarrow> logs s u c"
  "watches s t \<Longrightarrow> logs t u c \<Longrightarrow> logs s u c"
  by (fastforce simp: logs_def watches_def)+

abbreviation (input) axis_id :: "nat \<Rightarrow> u8" where "axis_id a \<equiv> of_nat (a + 1)"

lemma axis_id:
  assumes "a < 3"
  shows "is_part (axis_id a)" "unat (axis_id a) - 1 = a"
proof -
  from assms consider "a = 0" | "a = 1" | "a = 2" by linarith
  then have "is_part (axis_id a) \<and> unat (axis_id a) - 1 = a" by cases (simp_all add: is_part_def)
  then show "is_part (axis_id a)" "unat (axis_id a) - 1 = a" by simp_all
qed

lemma stop_beside:
  assumes "on_link (Antenna_DriveEnd (axis_id a) d) s = Inr (r, t)" "a < 3" "b \<noteq> a"
  shows "beside b s t"
proof -
  have d: "drives s t" using obeysD [OF drives_stop assms(1)] .
  obtain p where "Antenna_DriveEnd (axis_id a) d (core s) = Inr (r, p)" "t = s\<lparr>core := p\<rparr>"
    using assms(1) by (auto simp: on_link_Inr)
  then have "motor_move (cur t) ! b = motor_move (cur s) ! b"
    using DriveEnd_effect [of "axis_id a" d "core s" r p] axis_id [OF assms(2)] assms(3)
    by (simp add: moving_def cur_def board_def split: if_splits)
  then show ?thesis
    using d drives_sel [OF d] rest_sel(4) [of "board t" "board s"] by (simp add: beside_def drives_def cur_def)
qed

lemma mark_raised: "length (alarm_now s) = 6 \<Longrightarrow> a < 3 \<Longrightarrow> dir = 1 \<or> dir = 2 \<Longrightarrow>
    (alarm_now s ! 5 OR fst (limit_mark a dir)) AND fst (limit_mark a dir) \<noteq> 0"
proof -
  have "(x OR m) AND m = m" for x m :: u8 by (rule bit_word_eqI) (auto simp: bit_simps)
  moreover assume "a < 3" "dir = 1 \<or> dir = 2"
  ultimately show ?thesis by (auto simp: limit_mark.simps)
qed

lemma limit_entered_effect:
  assumes "limit_entered a dir s = Inr (h, s')" "a < 3" "dir = 1 \<or> dir = 2" "sized s"
  shows "h \<and> watches s s' \<and> (\<forall>b < 3. b \<noteq> a \<longrightarrow> beside b s s') \<and> motor_limit_sta (cur s') ! a = dir
    \<and> limit_alarm_cnt s' = limit_alarm_cnt s \<and> alarm_now s' ! 5 AND fst (limit_mark a dir) \<noteq> 0
    \<and> logs s s' (snd (limit_mark a dir)) \<and> (motor_move (cur s) ! a = dir \<longrightarrow> sends s s' (stop_frame (axis_id a)))"
proof -
  let ?s = "set_limit_sta a dir (raise_alarm 5 (fst (limit_mark a dir)) s)"
  obtain t where t: "(if motor_move (cur ?s) ! a = dir then bind_io (on_link (Antenna_DriveEnd (axis_id a) dir)) (\<lambda>_. ret_io ()) ?s
      else ret_io () ?s) = Inr ((), t)"
    and h: "h" and s': "s' = APP_WarnLOG_SaveCode (snd (limit_mark a dir)) t"
    using assms(1) by (auto simp: limit_entered_def bind_io_Inr)
  have len: "length (alarm_now s) = 6" "a < length (motor_limit_sta (cur s))" using assms(2,4) by (simp_all add: sized_def)
  have d: "drives ?s t"
    using t obeysD [OF drives_stop] drv.stay by (auto simp: bind_io_Inr split: if_splits)
  have w1: "watches s ?s" by (rule wat.step [OF watch_updates(1,4)])
  have w2: "watches t s'" unfolding s' by (rule watch_updates(5))
  have w: "watches s s'" using w1 w2 drives_watches [OF d] wat.step by blast
  have b: "beside b s s'" if b: "b < 3" "b \<noteq> a" for b
  proof -
    note u = beside_updates [OF assms(2) b(1) b(2) [symmetric] assms(3)]
    have "beside b s ?s" using bes.step [OF u(1) u(4)] len(1) by (simp)
    moreover have "beside b ?s t"
      using t stop_beside [OF _ assms(2) b(2)] bes.stay by (auto simp: bind_io_Inr split: if_splits)
    moreover have "length (alarm_now t) = 6" using drives_sel(1) [OF d] len(1) by (simp add: set_limit_sta_def)
    ultimately show ?thesis unfolding s' using u(5) bes.step by blast
  qed
  have l: "motor_limit_sta (cur t) = motor_limit_sta (cur ?s)"
    using d rest_sel(4) [of "board t" "board ?s"] by (simp add: drives_def cur_def)
  have "sends ?s t (stop_frame (axis_id a))" if "motor_move (cur s) ! a = dir"
  proof -
    have "motor_move (cur ?s) ! a = dir" using that by (simp add: set_limit_sta_def)
    then obtain r p where "Antenna_DriveEnd (axis_id a) dir (core ?s) = Inr (r, p)" "t = ?s\<lparr>core := p\<rparr>"
      using t by (auto simp: bind_io_Inr on_link_Inr)
    then show ?thesis using DriveEnd_effect axis_id(1) [OF assms(2)] by (fastforce simp: sends_def)
  qed
  then have "motor_move (cur s) ! a = dir \<longrightarrow> sends s s' (stop_frame (axis_id a))"
    using sends_after w1 w2 by blast
  moreover have "alarm_now s' ! 5 AND fst (limit_mark a dir) \<noteq> 0"
    using mark_raised [OF len(1) assms(2,3)] drives_sel(1) [OF d] len(1)
    unfolding s' by (simp add: set_limit_sta_def)
  moreover have "limit_alarm_cnt s' = limit_alarm_cnt s" "logs s s' (snd (limit_mark a dir))"
    using drives_sel(4,7) [OF d] unfolding s' by (auto simp: set_limit_sta_def logs_def)
  moreover have "motor_limit_sta (cur s') ! a = dir"
    using l len(2) unfolding s' by (simp add: set_limit_sta_def)
  ultimately show ?thesis using h w b by blast
qed

text \<open>One reading at a limit: the first two only count.\<close>

lemma limit_reached_effect:
  assumes "limit_reached a dir s = Inr (h, s')" "a < 3" "dir = 1 \<or> dir = 2" "sized s"
  shows "watches s s'" "b < 3 \<Longrightarrow> b \<noteq> a \<Longrightarrow> beside b s s'" "limit_ok a s \<Longrightarrow> limit_ok a s'"
    "limit_alarm_cnt s ! a < 2 \<Longrightarrow> s' = set_limit_cnt a (limit_alarm_cnt s ! a + 1) s \<and> \<not> h"
    "limit_alarm_cnt s ! a = 2 \<Longrightarrow> motor_limit_sta (cur s) ! a \<noteq> dir \<Longrightarrow>
       h \<and> motor_limit_sta (cur s') ! a = dir \<and> logs s s' (snd (limit_mark a dir))
       \<and> (motor_move (cur s) ! a = dir \<longrightarrow> sends s s' (stop_frame (axis_id a)))"
proof -
  let ?n = "limit_alarm_cnt s ! a + 1"
  let ?s = "set_limit_cnt a ?n s"
  have len: "length (alarm_now s) = 6" "a < length (limit_alarm_cnt s)" "sized ?s"
    using assms(2,4) by (simp_all add: sized_def)
  have c: "limit_alarm_cnt ?s ! a = ?n" using len(2) by simp
  have small: "limit_alarm_cnt s ! a < 2 \<Longrightarrow> \<not> ?n \<ge> 3" "limit_alarm_cnt s ! a = 2 \<Longrightarrow> ?n \<ge> 3"
    by (simp_all add: word_less_nat_alt word_le_nat_alt unat_word_ariths)
  have u: "watches s ?s" "b < 3 \<Longrightarrow> b \<noteq> a \<Longrightarrow> beside b s ?s" for b
    using watch_updates(3) beside_updates(3) [OF assms(2) _ _ assms(3) len(1)] by blast+
  have lim: "limit_ok a t" if "limit_ok a s" "motor_limit_sta (cur t) ! a = motor_limit_sta (cur s) ! a"
    "alarm_now t = alarm_now s" for t
    using that by (simp add: limit_ok_def)
  consider "\<not> ?n \<ge> 3" "s' = ?s" "\<not> h"
    | t where "?n \<ge> 3" "motor_limit_sta (cur s) ! a \<noteq> dir" "limit_entered a dir ?s = Inr (h, t)" "s' = set_limit_cnt a 0 t"
    | "?n \<ge> 3" "motor_limit_sta (cur s) ! a = dir" "s' = set_limit_cnt a 0 ?s" "\<not> h"
    using assms(1) c by (auto simp: limit_reached_def Let_def bind_io_Inr split: if_splits)
  then have "watches s s' \<and> (\<forall>b < 3. b \<noteq> a \<longrightarrow> beside b s s') \<and> (limit_ok a s \<longrightarrow> limit_ok a s')
    \<and> (limit_alarm_cnt s ! a < 2 \<longrightarrow> s' = ?s \<and> \<not> h)
    \<and> (limit_alarm_cnt s ! a = 2 \<longrightarrow> motor_limit_sta (cur s) ! a \<noteq> dir \<longrightarrow>
         h \<and> motor_limit_sta (cur s') ! a = dir \<and> logs s s' (snd (limit_mark a dir))
         \<and> (motor_move (cur s) ! a = dir \<longrightarrow> sends s s' (stop_frame (axis_id a))))"
  proof cases
    case 1
    then show ?thesis using u small lim by auto
  next
    case 2
    note e = limit_entered_effect [OF 2(3) assms(2,3) len(3)]
    have t: "watches t s'" unfolding 2(4) by (rule watch_updates(3))
    have lt: "length (alarm_now t) = 6" using e len(1) by (simp add: watches_def)
    have "beside b s s'" if "b < 3" "b \<noteq> a" for b
      using e u(2) beside_updates(3) [OF assms(2) that(1) that(2) [symmetric] assms(3) lt] that bes.step
      unfolding 2(4) by blast
    moreover have "watches s s'" using u(1) e t wat.step by blast
    moreover have "limit_ok a s'"
      using e assms(3) unfolding 2(4) by (auto simp: limit_ok_def)
    moreover have "motor_move (cur s) ! a = dir \<longrightarrow> sends s s' (stop_frame (axis_id a))"
    proof
      assume "motor_move (cur s) ! a = dir"
      then have "sends ?s t (stop_frame (axis_id a))" using e by simp
      then show "sends s s' (stop_frame (axis_id a))" using sends_after u(1) \<open>watches t s'\<close> by blast
    qed
    moreover have "logs s s' (snd (limit_mark a dir))"
      using e logs_after u(1) t by blast
    ultimately show ?thesis using e small 2(1) unfolding 2(4) by auto
  next
    case 3
    have "watches s s'" using u(1) watch_updates(3) wat.step unfolding 3(3) by blast
    moreover have "beside b s s'" if "b < 3" "b \<noteq> a" for b
      using u(2) [OF that] beside_updates(3) [OF assms(2) that(1) that(2) [symmetric] assms(3), of ?s] len(1) bes.step
      unfolding 3(3) by (metis alarm_bytes(4))
    ultimately show ?thesis using lim [of s'] small 3 by auto
  qed
  then show "watches s s'" "b < 3 \<Longrightarrow> b \<noteq> a \<Longrightarrow> beside b s s'" "limit_ok a s \<Longrightarrow> limit_ok a s'"
    "limit_alarm_cnt s ! a < 2 \<Longrightarrow> s' = ?s \<and> \<not> h"
    "limit_alarm_cnt s ! a = 2 \<Longrightarrow> motor_limit_sta (cur s) ! a \<noteq> dir \<Longrightarrow>
       h \<and> motor_limit_sta (cur s') ! a = dir \<and> logs s s' (snd (limit_mark a dir))
       \<and> (motor_move (cur s) ! a = dir \<longrightarrow> sends s s' (stop_frame (axis_id a)))" by blast+
qed

text \<open>The encoder of the axis is used and linked, and the reading is at the limit in direction \<open>dir\<close>.\<close>

definition watched :: "nat \<Rightarrow> strACUDevInfo \<Rightarrow> bool" where
  "watched a d \<longleftrightarrow> (a = 2 \<longrightarrow> ant_elec_coder_num (AntennaParam (ACUParam d)) = 3)
     \<and> es_link_stat (EleccoderStat (EleccoderInfo (DeviceInfo d) ! a)) = COMM_LINK"

definition beyond :: "nat \<Rightarrow> u8 \<Rightarrow> strACUDevInfo \<Rightarrow> bool" where
  "beyond a dir d \<longleftrightarrow> (case axis d (axis_id a) of (x, lo, hi) \<Rightarrow> if x \<le> lo then dir = 1 else x \<ge> hi \<and> dir = 2)"

lemma watch_limit_cases:
  obtains dir where "watched a (board s)" "beyond a dir (board s)" "dir = 1 \<or> dir = 2"
    "watch_limit a s = limit_reached a dir s"
  | "\<And>dir. \<not> (watched a (board s) \<and> beyond a dir (board s))" "watch_limit a s = Inr (False, limit_left a s)"
proof -
  obtain x lo hi where ax: "axis (board s) (axis_id a) = (x, lo, hi)" by (cases "axis (board s) (axis_id a)")
  consider "watched a (board s)" "x \<le> lo" | "watched a (board s)" "\<not> x \<le> lo" "x \<ge> hi"
    | "\<not> watched a (board s) \<or> \<not> x \<le> lo \<and> \<not> x \<ge> hi" by blast
  then show thesis
  proof cases
    case 1
    then show thesis using that(1) [of 1] ax by (simp add: watch_limit_def watched_def beyond_def)
  next
    case 2
    then show thesis using that(1) [of 2] ax by (simp add: watch_limit_def watched_def beyond_def)
  next
    case 3
    then show thesis using that(2) ax by (auto simp: watch_limit_def watched_def beyond_def)
  qed
qed

lemma watch_limit_effect:
  assumes "watch_limit a s = Inr (h, s')" "a < 3" "sized s"
  shows "watches s s'" "b < 3 \<Longrightarrow> b \<noteq> a \<Longrightarrow> beside b s s'" "limit_ok a s \<Longrightarrow> limit_ok a s'"
proof -
  have "watches s s' \<and> (\<forall>b < 3. b \<noteq> a \<longrightarrow> beside b s s') \<and> (limit_ok a s \<longrightarrow> limit_ok a s')"
  proof (rule watch_limit_cases [of a s])
    fix dir :: u8 assume d: "dir = 1 \<or> dir = 2" and r: "watch_limit a s = limit_reached a dir s"
    show ?thesis using limit_reached_effect(1-3) [OF _ assms(2) d assms(3)] assms(1) r by auto
  next
    assume "watch_limit a s = Inr (False, limit_left a s)"
    then have s': "s' = limit_left a s" using assms(1) by simp
    have len: "length (alarm_now s) = 6" "a < length (motor_limit_sta (cur s))" using assms(2,3) by (simp_all add: sized_def)
    have "watches s s'"
      unfolding s' limit_left_eq by (rule wat.step [OF wat.step [OF watch_updates(4) watch_updates(2)] watch_updates(3)])
    moreover have "beside b s s'" if "b < 3" "b \<noteq> a" for b
    proof -
      note u = beside_updates [OF assms(2) that(1) that(2) [symmetric], of 1]
      have "beside b s (set_limit_sta a 0 s)" using u(4) len by simp
      moreover have "length (alarm_now (set_limit_sta a 0 s)) = 6" using len by (simp add: set_limit_sta_def)
      ultimately show ?thesis
        unfolding s' limit_left_eq using bes.step [OF bes.step [OF _ u(2)] u(3)] by simp
    qed
    moreover have "limit_ok a s'"
      using len limit_bits_clear(2) unfolding s' limit_left_eq
      by (simp add: limit_ok_def set_limit_sta_def masked_update)
    ultimately show ?thesis by blast
  qed
  then show "watches s s'" "b < 3 \<Longrightarrow> b \<noteq> a \<Longrightarrow> beside b s s'" "limit_ok a s \<Longrightarrow> limit_ok a s'" by blast+
qed

lemma watches_sized: "watches s s' \<Longrightarrow> sized s \<Longrightarrow> sized s'"
  by (simp add: watches_def sized_def)

lemma beside_ok: "beside b s s' \<Longrightarrow> limit_ok b s \<Longrightarrow> limit_ok b s'"
proof -
  have a: "lim_bits b AND fst (limit_mark b l) = fst (limit_mark b l)" if "l = 1 \<or> l = 2" for l
    using that by (auto simp: lim_bits_def masked_update)
  have *: "x AND fst (limit_mark b l) = y AND fst (limit_mark b l)"
    if "x AND lim_bits b = y AND lim_bits b" "l = 1 \<or> l = 2" for x y l
  proof -
    have "(x AND lim_bits b) AND fst (limit_mark b l) = (y AND lim_bits b) AND fst (limit_mark b l)" using that(1) by simp
    then show ?thesis using a [OF that(2)] by (simp add: and.assoc)
  qed
  show "beside b s s' \<Longrightarrow> limit_ok b s \<Longrightarrow> limit_ok b s'"
    using * [where x = "alarm_now s' ! 5" and y = "alarm_now s ! 5" and l = 1]
      * [where x = "alarm_now s' ! 5" and y = "alarm_now s ! 5" and l = 2] by (auto simp: beside_def limit_ok_def Let_def split: if_splits)
qed

section \<open>The parts of a tick\<close>

lemma alarm_if_sel [simp]:
  "alarm_now (alarm_if on i m c s) = (alarm_now s)[i := if on then alarm_now s ! i OR m else alarm_now s ! i AND NOT m]"
  "core (alarm_if on i m c s) = core s" "board (alarm_if on i m c s) = board s" "cur (alarm_if on i m c s) = cur s"
  "limit_alarm_cnt (alarm_if on i m c s) = limit_alarm_cnt s" "Task_Run_Flag (alarm_if on i m c s) = Task_Run_Flag s"
  by (simp_all add: alarm_if_def Let_def split: option.split)

lemma alarm_if_log: "\<exists>ws. warn_log (alarm_if on i m c s) = warn_log s @ ws"
  by (auto simp: alarm_if_def Let_def split: option.split)

definition alarm_sources :: "strACUDevInfo \<Rightarrow> (nat \<times> u8 \<times> bool) list" where
  "alarm_sources d = [(0, 0x01, coder_lost 0 d), (0, 0x02, coder_lost 1 d), (0, 0x04, coder_lost 2 d),
     (1, 0x01, beacon_lost d), (2, 0x01, ee_link_stat (EEPROMInfo (DeviceInfo d)) = COMM_UNLINK),
     (2, 0x02, fl_link_stat (SPIFlashInfo (DeviceInfo d)) = COMM_UNLINK)]"

lemma device_alarms_sel [simp]:
  "core (device_alarms s) = core s" "board (device_alarms s) = board s" "cur (device_alarms s) = cur s"
  "limit_alarm_cnt (device_alarms s) = limit_alarm_cnt s" "Task_Run_Flag (device_alarms s) = Task_Run_Flag s"
  "length (alarm_now (device_alarms s)) = length (alarm_now s)"
  "i > 2 \<Longrightarrow> alarm_now (device_alarms s) ! i = alarm_now s ! i"
  by (simp_all add: device_alarms_def Let_def)

lemma device_alarms_log: "\<exists>ws. warn_log (device_alarms s) = warn_log s @ ws"
  unfolding device_alarms_def Let_def using alarm_if_log by (metis append.assoc)

lemma device_alarm_bits:
  assumes "sized s" "(i, m, on) \<in> set (alarm_sources (board s))"
  shows "alarm_now (device_alarms s) ! i AND m \<noteq> 0 \<longleftrightarrow> on"
proof -
  have [simp]: "m AND m = m" for m :: u8 by simp
  have len: "length (alarm_now s) = 6" using assms(1) by (simp add: sized_def)
  consider "(i, m, on) = (0, 1, coder_lost 0 (board s))" | "(i, m, on) = (0, 2, coder_lost 1 (board s))"
    | "(i, m, on) = (0, 4, coder_lost 2 (board s))" | "(i, m, on) = (1, 1, beacon_lost (board s))"
    | "(i, m, on) = (2, 1, ee_link_stat (EEPROMInfo (DeviceInfo (board s))) = COMM_UNLINK)"
    | "(i, m, on) = (2, 2, fl_link_stat (SPIFlashInfo (DeviceInfo (board s))) = COMM_UNLINK)"
    using assms(2) by (auto simp: alarm_sources_def)
  then show ?thesis
    by cases (simp_all add: device_alarms_def Let_def len masked_update and.assoc)
qed

lemma watch_drive_cases:
  assumes "watch_drive s = Inr (h, s')"
  obtains "drive_link_lost (board s)" "\<not> h" "s' = drive_unit_lost s"
  | h0 s0 h1 s1 h2 where "\<not> drive_link_lost (board s)" "watch_limit 0 (clear_alarm 3 1 s) = Inr (h0, s0)"
    "watch_limit 1 s0 = Inr (h1, s1)" "watch_limit 2 s1 = Inr (h2, s')" "h = (h0 \<or> h1 \<or> h2)"
proof (cases "drive_link_lost (board s)")
  case True
  then show thesis using assms that(1) by (simp add: watch_drive_def)
next
  case False
  then have "\<exists>h0 s0 h1 s1 h2. watch_limit 0 (clear_alarm 3 1 s) = Inr (h0, s0) \<and> watch_limit 1 s0 = Inr (h1, s1)
      \<and> watch_limit 2 s1 = Inr (h2, s') \<and> h = (h0 \<or> h1 \<or> h2)"
    using assms by (fastforce simp: watch_drive_def bind_io_Inr)
  then show thesis using that(2) [OF False] by blast
qed

lemma drive_unit_lost_sel [simp]:
  "alarm_now (drive_unit_lost s) = (alarm_now s)[3 := alarm_now s ! 3 OR 1]"
  "limit_alarm_cnt (drive_unit_lost s) = limit_alarm_cnt s" "Task_Run_Flag (drive_unit_lost s) = Task_Run_Flag s"
  "sent (core (drive_unit_lost s)) = sent (core s)" "ACUParam (board (drive_unit_lost s)) = ACUParam (board s)"
  "motor_limit_sta (cur (drive_unit_lost s)) = motor_limit_sta (cur s)"
  "dev_alarm_buff (cur (drive_unit_lost s)) = dev_alarm_buff (cur s)"
  by (simp_all add: drive_unit_lost_def Let_def)

text \<open>What the drive unit's part of the tick does to alarm bytes and limits.\<close>

lemma watch_drive_effect:
  assumes "watch_drive s = Inr (h, s')" "sized s"
  shows "sized s'" "i \<noteq> 3 \<Longrightarrow> i \<noteq> 5 \<Longrightarrow> alarm_now s' ! i = alarm_now s ! i"
    "a < 3 \<Longrightarrow> limit_ok a s \<Longrightarrow> limit_ok a s'" "alarm_now s' ! 3 AND 1 \<noteq> 0 \<longleftrightarrow> drive_link_lost (board s)"
    "\<exists>fs. sent (core s') = sent (core s) @ fs" "Task_Run_Flag s' = Task_Run_Flag s"
    "ACUParam (board s') = ACUParam (board s)"
proof -
  have len: "length (alarm_now s) = 6" using assms(2) by (simp add: sized_def)
  have "sized s' \<and> (\<forall>i. i \<noteq> 3 \<longrightarrow> i \<noteq> 5 \<longrightarrow> alarm_now s' ! i = alarm_now s ! i)
    \<and> (\<forall>a < 3. limit_ok a s \<longrightarrow> limit_ok a s') \<and> (alarm_now s' ! 3 AND 1 \<noteq> 0 \<longleftrightarrow> drive_link_lost (board s))
    \<and> (\<exists>fs. sent (core s') = sent (core s) @ fs) \<and> Task_Run_Flag s' = Task_Run_Flag s
    \<and> ACUParam (board s') = ACUParam (board s)"
    using assms(1)
  proof (cases rule: watch_drive_cases)
    case 1
    then show ?thesis
      using assms(2) len masked_update(1) [of "alarm_now s ! 3" 1 1] by (simp add: sized_def limit_ok_def)
  next
    case (2 h0 s0 h1 s1 h2)
    let ?c = "clear_alarm 3 1 s"
    have z: "sized ?c" using assms(2) by (simp add: sized_def)
    note e0 = watch_limit_effect [OF 2(2) _ z]
    then have z0: "sized s0" using watches_sized z by simp
    note e1 = watch_limit_effect [OF 2(3) _ z0]
    then have z1: "sized s1" using watches_sized z0 by simp
    note e2 = watch_limit_effect [OF 2(4) _ z1]
    have w: "watches ?c s'" using wat.step [OF wat.step [OF e0(1) e1(1)] e2(1)] by simp
    have ok: "limit_ok a ?c = limit_ok a s" for a by (simp add: limit_ok_def)
    have "limit_ok a s'" if "limit_ok a s" "a < 3" for a
    proof -
      have "limit_ok a s0" using that ok e0(2) [of a] e0(3) beside_ok by (cases "a = 0") auto
      then have "limit_ok a s1" using that e1(2) [of a] e1(3) beside_ok by (cases "a = 1") auto
      then show ?thesis using that e2(2) [of a] e2(3) beside_ok by (cases "a = 2") auto
    qed
    moreover have "alarm_now s' ! 3 AND 1 = 0"
      using w len by (simp add: watches_def masked_update and.assoc)
    moreover have "sized s'" using watches_sized [OF w z] .
    ultimately show ?thesis
      using w 2(1) rest_lim_sel(1) [of "board s'" "board ?c"] by (auto simp: watches_def)
  qed
  then show "sized s'" "i \<noteq> 3 \<Longrightarrow> i \<noteq> 5 \<Longrightarrow> alarm_now s' ! i = alarm_now s ! i"
    "a < 3 \<Longrightarrow> limit_ok a s \<Longrightarrow> limit_ok a s'" "alarm_now s' ! 3 AND 1 \<noteq> 0 \<longleftrightarrow> drive_link_lost (board s)"
    "\<exists>fs. sent (core s') = sent (core s) @ fs" "Task_Run_Flag s' = Task_Run_Flag s"
    "ACUParam (board s') = ACUParam (board s)" by blast+
qed

lemma info_updates [simp]:
  "cur (set_info f s) = cur s" "ACUParam (board (set_info f s)) = ACUParam (board s)" "sent (core (set_info f s)) = sent (core s)"
  "alarm_now (set_info f s) = alarm_now s" "limit_alarm_cnt (set_info f s) = limit_alarm_cnt s"
  "Task_Run_Flag (set_info f s) = Task_Run_Flag s" "alarm_buzzer_refresh (set_info f s) = alarm_buzzer_refresh s"
  "alarm_buzzer_refresh (set_cur g s) = alarm_buzzer_refresh s" "warn_log (set_info f s) = warn_log s"
  by (simp_all add: set_info_def set_cur_def upd_info_def cur_def board_def)

lemma watch_gps_sel [simp]:
  "i \<noteq> 4 \<Longrightarrow> alarm_now (watch_gps p s) ! i = alarm_now s ! i" "length (alarm_now (watch_gps p s)) = length (alarm_now s)"
  "limit_alarm_cnt (watch_gps p s) = limit_alarm_cnt s" "Task_Run_Flag (watch_gps p s) = Task_Run_Flag s"
  "cur (watch_gps p s) = cur s" "ACUParam (board (watch_gps p s)) = ACUParam (board s)"
  "sent (core (watch_gps p s)) = sent (core s)"
  by (simp_all add: watch_gps_def Let_def set_gps_stat_def) (auto simp: cur_def board_def)

lemma any_alarm: "length b = 6 \<Longrightarrow> any_alarm b = 0 \<longleftrightarrow> b = replicate 6 0" "any_alarm b \<le> 1"
  "any_alarm b > 0 \<longleftrightarrow> any_alarm b = 1" "i < length b \<Longrightarrow> b ! i \<noteq> 0 \<Longrightarrow> any_alarm b = 1"
  by (auto simp: any_alarm_def list_all_iff replicate_eqI)

lemma refresh_sel [simp]:
  "alarm_now (refresh_alarms s) = alarm_now s" "limit_alarm_cnt (refresh_alarms s) = limit_alarm_cnt s"
  "Task_Run_Flag (refresh_alarms s) = Task_Run_Flag s" "ACUParam (board (refresh_alarms s)) = ACUParam (board s)"
  "sent (core (refresh_alarms s)) = sent (core s)" "dev_alarm_buff (cur (refresh_alarms s)) = dev_alarm_buff (cur s)"
  "dev_alarm_flag (cur (refresh_alarms s)) = dev_alarm_flag (cur s)"
  "motor_limit_sta (cur (refresh_alarms s)) = motor_limit_sta (cur s)" "moving (core (refresh_alarms s)) = moving (core s)"
  by (simp_all add: refresh_alarms_def set_cur_def cur_def board_def upd_sta_def moving_def)

lemma publish_effect:
  assumes "length (alarm_now s) = 6"
  shows "dev_alarm_buff (cur (publish_alarms s)) = alarm_now s"
    "dev_alarm_flag (cur (publish_alarms s)) = any_alarm (alarm_now s)"
proof -
  let ?f = "any_alarm (alarm_now s)"
  have f: "?f \<noteq> 0 \<Longrightarrow> 0 < ?f" by (simp add: word_gt_0)
  have "dev_alarm_buff (cur (publish_alarms s)) = alarm_now s \<and> dev_alarm_flag (cur (publish_alarms s)) = ?f"
  proof (cases "?f = 0")
    case True
    then show ?thesis
      using any_alarm(1) [OF assms] by (cases "dev_alarm_flag (cur s) = 0") (simp_all add: publish_alarms_def Let_def)
  next
    case False
    then show ?thesis
      using f by (cases "dev_alarm_flag (cur s) = ?f") (simp_all add: publish_alarms_def Let_def)
  qed
  then show "dev_alarm_buff (cur (publish_alarms s)) = alarm_now s" "dev_alarm_flag (cur (publish_alarms s)) = ?f"
    by simp_all
qed

lemma publish_sel [simp]:
  "alarm_now (publish_alarms s) = alarm_now s" "limit_alarm_cnt (publish_alarms s) = limit_alarm_cnt s"
  "Task_Run_Flag (publish_alarms s) = Task_Run_Flag s" "ACUParam (board (publish_alarms s)) = ACUParam (board s)"
  "sent (core (publish_alarms s)) = sent (core s)" "motor_limit_sta (cur (publish_alarms s)) = motor_limit_sta (cur s)"
  by (simp_all add: publish_alarms_def Let_def)

section \<open>The reaction\<close>

definition keeps_alarms :: "mon \<Rightarrow> mon \<Rightarrow> bool" where
  "keeps_alarms s s' \<longleftrightarrow> alarm_now s' = alarm_now s \<and> limit_alarm_cnt s' = limit_alarm_cnt s
     \<and> dev_alarm_buff (cur s') = dev_alarm_buff (cur s) \<and> dev_alarm_flag (cur s') = dev_alarm_flag (cur s)
     \<and> motor_limit_sta (cur s') = motor_limit_sta (cur s) \<and> length (Task_Run_Flag s') = length (Task_Run_Flag s)
     \<and> (\<exists>fs. sent (core s') = sent (core s) @ fs)"

interpretation kal: frame keeps_alarms
  by unfold_locales (auto simp: keeps_alarms_def)

lemma drives_keeps: "drives s s' \<Longrightarrow> keeps_alarms s s'"
  using drives_sel [of s s'] rest_sel [of "board s'" "board s"] by (auto simp: keeps_alarms_def drives_def cur_def)

lemma keeps_updates: "keeps_alarms s (TaskDel i s)" "keeps_alarms s (to_standby s)" "keeps_alarms s (beep s)"
  "keeps_alarms s (settle_work_sta s)"
  by (simp_all add: keeps_alarms_def TaskDel_def to_standby_def beep_def settle_work_sta_def APP_BUZZER_BeepOpt_def
      APP_BUZZER_Switch_def cur_def board_def upd_sta_def upd_param_def opt_log_event_def set_info_def upd_info_def)
    (simp_all add: set_cur_def upd_sta_def)

lemma end_task_effect:
  assumes "end_task i s = Inr ((), s')"
  shows "keeps_alarms s s'" "i < length (Task_Run_Flag s) \<Longrightarrow> Task_Run_Flag s' ! i = 0"
    "j \<noteq> i \<Longrightarrow> Task_Run_Flag s' ! j = Task_Run_Flag s ! j" "ACUParam (board s') = ACUParam (board s)"
    "Task_Run_Flag s ! i > 0 \<Longrightarrow> p = 1 \<or> p = 2 \<or> p = 3 \<Longrightarrow> sends s s' (stop_frame p)"
proof -
  have "keeps_alarms s s' \<and> (i < length (Task_Run_Flag s) \<longrightarrow> Task_Run_Flag s' ! i = 0)
    \<and> (j \<noteq> i \<longrightarrow> Task_Run_Flag s' ! j = Task_Run_Flag s ! j) \<and> ACUParam (board s') = ACUParam (board s)
    \<and> (Task_Run_Flag s ! i > 0 \<longrightarrow> p = 1 \<or> p = 2 \<or> p = 3 \<longrightarrow> sends s s' (stop_frame p))"
  proof (cases "Task_Run_Flag s ! i > 0")
    case False
    then have "Task_Run_Flag s ! i = 0" by (simp add: word_gt_0)
    then show ?thesis using assms False by (simp add: end_task_def kal.stay)
  next
    case True
    obtain r t u where r: "on_link Antenna_AllDriveEnd s = Inr (r, t)"
      "(if r = FAIL then bind_io (on_link Antenna_AllDriveEnd) (\<lambda>_. ret_io ()) else ret_io ()) t = Inr ((), u)"
      "s' = TaskDel i u"
      using assms True by (auto simp: end_task_def bind_io_Inr)
    have d: "drives s t" "drives t u"
      using obeysD [OF drives_stop_all] r(1,2) drv.stay by (auto simp: bind_io_Inr split: if_splits)
    have "sends s t (stop_frame p)" if p: "p = 1 \<or> p = 2 \<or> p = 3"
    proof -
      obtain q where q: "Antenna_AllDriveEnd (core s) = Inr (r, q)" "t = s\<lparr>core := q\<rparr>" using r(1) by (auto simp: on_link_Inr)
      show ?thesis using all_stop_sent [OF q(1)] p unfolding q(2) sends_def by auto
    qed
    then have "p = 1 \<or> p = 2 \<or> p = 3 \<longrightarrow> sends s s' (stop_frame p)"
      using d(2) unfolding r(3) by (fastforce simp: sends_def drives_def TaskDel_def)
    moreover have "keeps_alarms s s'"
      using drives_keeps [OF d(1)] drives_keeps [OF d(2)] keeps_updates(1) kal.step unfolding r(3) by blast
    moreover have "ACUParam (board s') = ACUParam (board s)"
      using d rest_sel(1) [of "board u" "board t"] rest_sel(1) [of "board t" "board s"] unfolding r(3)
      by (simp add: drives_def TaskDel_def board_def)
    ultimately show ?thesis
      using drives_sel(5) [OF d(1)] drives_sel(5) [OF d(2)] unfolding r(3) by (simp add: TaskDel_def)
  qed
  then show "keeps_alarms s s'" "i < length (Task_Run_Flag s) \<Longrightarrow> Task_Run_Flag s' ! i = 0"
    "j \<noteq> i \<Longrightarrow> Task_Run_Flag s' ! j = Task_Run_Flag s ! j" "ACUParam (board s') = ACUParam (board s)"
    "Task_Run_Flag s ! i > 0 \<Longrightarrow> p = 1 \<or> p = 2 \<or> p = 3 \<Longrightarrow> sends s s' (stop_frame p)" by blast+
qed

end
