(* ===== verification/MonitorProps.thy ===== *)
theory MonitorProps
  imports MonitorLaws
begin

text \<open>
  Properties of the supervision: what a tick publishes, what happens at a limit and on a high
  alarm, what it misses, and the tables of alarm codes.
\<close>

section \<open>A tick\<close>

lemma tickE:
  assumes "APP_MONITOR_DevHWSta p s = Inr ((), s')"
  obtains h t u where "watch_drive (device_alarms s) = Inr (h, t)"
    "react (high_loss (board s) \<or> h) (publish_alarms (watch_gps p t)) = Inr ((), u)" "s' = settle_work_sta u"
  using assms by (auto simp: APP_MONITOR_DevHWSta_def bind_io_Inr)

lemma one_le_or_zero: "1 \<le> x \<or> x = 0" for x :: u8
  by (cases "x = 0") (simp_all add: word_le_nat_alt Suc_le_eq unat_gt_0)

lemma react_effect:
  assumes "react high s = Inr ((), s')" "length (Task_Run_Flag s) = 3"
  shows "keeps_alarms s s'"
    "high \<Longrightarrow> dev_alarm_flag (cur s) > 0 \<Longrightarrow> Task_Run_Flag s' = [0, 0, 0]
       \<and> SeekSat_Mode (SeekSatParam (ACUParam (board s'))) = 0"
    "high \<Longrightarrow> dev_alarm_flag (cur s) > 0 \<Longrightarrow> i < 3 \<Longrightarrow> Task_Run_Flag s ! i > 0 \<Longrightarrow> q = 1 \<or> q = 2 \<or> q = 3 \<Longrightarrow>
       sends s s' (stop_frame q)"
proof -
  have "keeps_alarms s s' \<and> (high \<and> dev_alarm_flag (cur s) > 0 \<longrightarrow> Task_Run_Flag s' = [0, 0, 0]
       \<and> SeekSat_Mode (SeekSatParam (ACUParam (board s'))) = 0
       \<and> (i < 3 \<longrightarrow> Task_Run_Flag s ! i > 0 \<longrightarrow> q = 1 \<or> q = 2 \<or> q = 3 \<longrightarrow> sends s s' (stop_frame q)))"
  proof (cases "high \<and> dev_alarm_flag (cur s) > 0")
    case False
    then have "s' = beep s" using assms(1) by (auto simp: react_def)
    then show ?thesis using keeps_updates(3) False by auto
  next
    case True
    obtain t u v where 1: "end_task 0 s = Inr ((), t)" "end_task 1 t = Inr ((), u)" "end_task 2 u = Inr ((), v)"
      and s': "s' = beep (to_standby v)"
      using assms(1) True by (auto simp: react_def bind_io_Inr)
    note e = end_task_effect [OF 1(1)] and f = end_task_effect [OF 1(2)] and g = end_task_effect [OF 1(3)]
    have len: "length (Task_Run_Flag t) = 3" "length (Task_Run_Flag u) = 3" "length (Task_Run_Flag v) = 3"
      using e(1) f(1) g(1) assms(2) by (simp_all add: keeps_alarms_def)
    have v: "keeps_alarms v s'" unfolding s' using keeps_updates(2,3) kal.step by blast
    have k: "keeps_alarms s s'" using kal.step [OF kal.step [OF e(1) f(1)] kal.step [OF g(1) v]] .
    have "Task_Run_Flag v ! 0 = 0" "Task_Run_Flag v ! 1 = 0" "Task_Run_Flag v ! 2 = 0"
      using e(2) f(2) g(2) f(3) [of 0] g(3) [of 0] g(3) [of 1] len assms(2) by simp_all
    then have z: "Task_Run_Flag v = [0, 0, 0]"
      using len(3) by (auto simp: numeral_3_eq_3 numeral_2_eq_2 length_Suc_conv)
    have "Task_Run_Flag s' = [0, 0, 0]"
      unfolding s' by (simp add: beep_def APP_BUZZER_BeepOpt_def APP_BUZZER_Switch_def to_standby_def z)
    moreover have "SeekSat_Mode (SeekSatParam (ACUParam (board s'))) = 0"
      using one_le_or_zero [of "SeekSat_Mode (SeekSatParam (ACUParam (board v)))"]
      unfolding s' by (auto simp add: beep_def APP_BUZZER_BeepOpt_def APP_BUZZER_Switch_def to_standby_def board_def
          set_info_def upd_info_def upd_sta_def upd_param_def opt_log_event_def)
    moreover have "sends s s' (stop_frame q)" if i: "i < 3" "Task_Run_Flag s ! i > 0" and q: "q = 1 \<or> q = 2 \<or> q = 3"
    proof -
      have a: "sends x y w \<Longrightarrow> keeps_alarms y z \<Longrightarrow> sends x z w" "keeps_alarms x y \<Longrightarrow> sends y z w \<Longrightarrow> sends x z w" for x y z w
        by (fastforce simp: sends_def keeps_alarms_def)+
      consider "i = 0" | "i = 1" | "i = 2" using i(1) by linarith
      then show ?thesis
      proof cases
        case 1
        then have "sends s t (stop_frame q)" using e(5) i(2) q by simp
        then show ?thesis using a(1) f(1) g(1) v kal.step by blast
      next
        case 2
        then have "sends t u (stop_frame q)" using f(5) e(3) [of 1] i(2) q by simp
        then show ?thesis using a e(1) g(1) v kal.step by blast
      next
        case 3
        then have "sends u v (stop_frame q)" using g(5) e(3) [of 2] f(3) [of 2] i(2) q by simp
        then show ?thesis using a e(1) f(1) v kal.step by blast
      qed
    qed
    ultimately show ?thesis using k by blast
  qed
  then show "keeps_alarms s s'"
    "high \<Longrightarrow> dev_alarm_flag (cur s) > 0 \<Longrightarrow> Task_Run_Flag s' = [0, 0, 0]
       \<and> SeekSat_Mode (SeekSatParam (ACUParam (board s'))) = 0"
    "high \<Longrightarrow> dev_alarm_flag (cur s) > 0 \<Longrightarrow> i < 3 \<Longrightarrow> Task_Run_Flag s ! i > 0 \<Longrightarrow> q = 1 \<or> q = 2 \<or> q = 3 \<Longrightarrow>
       sends s s' (stop_frame q)" by blast+
qed

text \<open>What a tick does to the alarm bytes.\<close>

lemma tick_effect:
  assumes "APP_MONITOR_DevHWSta p s = Inr ((), s')" "sized s"
  shows "sized s'" "dev_alarm_buff (cur s') = alarm_now s'" "dev_alarm_flag (cur s') = any_alarm (alarm_now s')"
    "(i, m, on) \<in> set (alarm_sources (board s)) \<Longrightarrow> alarm_now s' ! i AND m \<noteq> 0 \<longleftrightarrow> on"
    "alarm_now s' ! 3 AND 1 \<noteq> 0 \<longleftrightarrow> drive_link_lost (board s)"
    "a < 3 \<Longrightarrow> limit_ok a s \<Longrightarrow> limit_ok a s'"
    "\<exists>fs. sent (core s') = sent (core s) @ fs"
proof -
  obtain h t u where t: "watch_drive (device_alarms s) = Inr (h, t)"
    and u: "react (high_loss (board s) \<or> h) (publish_alarms (watch_gps p t)) = Inr ((), u)" and s': "s' = settle_work_sta u"
    using tickE [OF assms(1)] .
  have z: "sized (device_alarms s)" using assms(2) by (simp add: sized_def)
  note w = watch_drive_effect [OF t z]
  let ?g = "watch_gps p t" let ?p = "publish_alarms ?g"
  have len: "length (alarm_now ?g) = 6" "length (Task_Run_Flag ?p) = 3" using w(1) by (simp_all add: sized_def)
  have k: "keeps_alarms ?p s'"
    using react_effect(1) [OF u len(2)] keeps_updates(4) kal.step unfolding s' by blast
  have a: "alarm_now s' = alarm_now ?g" using k by (simp add: keeps_alarms_def)
  show "sized s'" using k w(1) by (simp add: sized_def keeps_alarms_def)
  show "dev_alarm_buff (cur s') = alarm_now s'" "dev_alarm_flag (cur s') = any_alarm (alarm_now s')"
    using k publish_effect [OF len(1)] by (simp_all add: keeps_alarms_def)
  show "alarm_now s' ! i AND m \<noteq> 0 \<longleftrightarrow> on" if "(i, m, on) \<in> set (alarm_sources (board s))"
  proof -
    have "i < 3" using that by (auto simp: alarm_sources_def)
    then have "alarm_now s' ! i = alarm_now (device_alarms s) ! i" using w(2) [of i] a by simp
    then show ?thesis using device_alarm_bits [OF assms(2) that] by simp
  qed
  show "alarm_now s' ! 3 AND 1 \<noteq> 0 \<longleftrightarrow> drive_link_lost (board s)" using w(4) a by simp
  show "limit_ok a s'" if "a < 3" "limit_ok a s"
  proof -
    have "limit_ok a (device_alarms s)" using that(2) by (simp add: limit_ok_def)
    then show ?thesis using w(3) [OF that(1)] k by (simp add: limit_ok_def keeps_alarms_def)
  qed
  show "\<exists>fs. sent (core s') = sent (core s) @ fs" using w(5) k by (auto simp: keeps_alarms_def)
qed

section \<open>Limits\<close>

lemma watches_same: "watches s t \<Longrightarrow> watched a (board t) = watched a (board s) \<and> beyond a dir (board t) = beyond a dir (board s)"
  using rest_lim_sel [of "board t" "board s"]
  by (simp add: watches_def watched_def beyond_def axis_def Let_def)

lemma watch_limit_there:
  assumes "watch_limit a s = Inr (h, s')" "watched a (board s)" "beyond a dir (board s)"
  shows "limit_reached a dir s = Inr (h, s')" "dir = 1 \<or> dir = 2"
proof -
  have "limit_reached a dir s = Inr (h, s') \<and> (dir = 1 \<or> dir = 2)"
  proof (rule watch_limit_cases [of a s])
    fix d assume d: "watched a (board s)" "beyond a d (board s)" "d = 1 \<or> d = 2" "watch_limit a s = limit_reached a d s"
    then have "d = dir" using assms(3) by (auto simp: beyond_def split: if_splits)
    then show ?thesis using d assms(1) by simp
  qed (use assms(2,3) in blast)
  then show "limit_reached a dir s = Inr (h, s')" "dir = 1 \<or> dir = 2" by simp_all
qed

text \<open>The link to the drive unit is up, the encoder of the axis \<open>a\<close> is used and linked, and the axis stands at its limit in
  direction \<open>dir\<close>, which has not been noted yet.\<close>

definition at_new_limit :: "nat \<Rightarrow> u8 \<Rightarrow> mon \<Rightarrow> bool" where
  "at_new_limit a dir s \<longleftrightarrow> \<not> drive_link_lost (board s) \<and> watched a (board s) \<and> beyond a dir (board s)
     \<and> motor_limit_sta (cur s) ! a \<noteq> dir"

text \<open>The watch of the three axes, seen from one of them.\<close>

lemma watch_drive_axis:
  assumes "watch_drive s = Inr (h, t)" "sized s" "a < 3" "at_new_limit a dir s"
  obtains u v g where "limit_reached a dir u = Inr (g, v)" "dir = 1 \<or> dir = 2" "sized u"
    "watches (clear_alarm 3 1 s) u" "beside a (clear_alarm 3 1 s) u" "watches v t" "beside a v t"
  using assms(1)
proof (cases rule: watch_drive_cases)
  case 1
  then show thesis using assms(4) by (simp add: at_new_limit_def)
next
  case (2 h0 s0 h1 s1 h2)
  let ?c = "clear_alarm 3 1 s"
  have c: "sized ?c" "watched a (board ?c)" "beyond a dir (board ?c)"
    using assms(2,4) by (simp_all add: sized_def at_new_limit_def)
  note e0 = watch_limit_effect [OF 2(2) _ c(1), simplified]
  have z0: "sized s0" using watches_sized [OF e0(1) c(1)] .
  note e1 = watch_limit_effect [OF 2(3) _ z0, simplified]
  have z1: "sized s1" using watches_sized [OF e1(1) z0] .
  note e2 = watch_limit_effect [OF 2(4) _ z1, simplified]
  have m0: "watched a (board s0)" "beyond a dir (board s0)" using watches_same [OF e0(1)] c by blast+
  have m1: "watched a (board s1)" "beyond a dir (board s1)" using watches_same [OF e1(1)] m0 by blast+
  consider "a = 0" | "a = 1" | "a = 2" using assms(3) by linarith
  then show thesis
  proof cases
    case 1
    then show thesis
      using that [OF watch_limit_there [OF 2(2)[folded 1] c(2,3)]  c(1) wat.stay bes.stay]
        wat.step [OF e1(1) e2(1)] bes.step [OF e1(2) e2(2)] by simp
  next
    case a: 2
    then show thesis
      using that [OF watch_limit_there [OF 2(3)[folded a] m0] z0 e0(1)] e0(2) e2 by simp
  next
    case a: 3
    have "beside a ?c s1" using bes.step [OF e0(2) e1(2)] a by simp
    then show thesis
      using that [OF watch_limit_there [OF 2(4)[folded a] m1] z1 wat.step [OF e0(1) e1(1)] _ wat.stay bes.stay] by simp
  qed
qed

lemma tick_limit:
  assumes "APP_MONITOR_DevHWSta p s = Inr ((), s')" "sized s" "a < 3" "at_new_limit a dir s"
  shows "limit_alarm_cnt s ! a < 2 \<Longrightarrow> limit_alarm_cnt s' ! a = limit_alarm_cnt s ! a + 1"
    "limit_alarm_cnt s ! a = 2 \<Longrightarrow> motor_limit_sta (cur s') ! a = dir
       \<and> (motor_move (cur s) ! a = dir \<longrightarrow> sends s s' (stop_frame (axis_id a)))"
proof -
  obtain h t u where t: "watch_drive (device_alarms s) = Inr (h, t)"
    and u: "react (high_loss (board s) \<or> h) (publish_alarms (watch_gps p t)) = Inr ((), u)" and s': "s' = settle_work_sta u"
    using tickE [OF assms(1)] .
  have z: "sized (device_alarms s)" using assms(2) by (simp add: sized_def)
  have l: "at_new_limit a dir (device_alarms s)" using assms(4) by (simp add: at_new_limit_def)
  obtain v w g where r: "limit_reached a dir v = Inr (g, w)" "dir = 1 \<or> dir = 2" "sized v"
    and b: "watches (clear_alarm 3 1 (device_alarms s)) v" "beside a (clear_alarm 3 1 (device_alarms s)) v"
    and d: "watches w t" "beside a w t"
    using watch_drive_axis [OF t z assms(3) l] .
  note e = limit_reached_effect [OF r(1) assms(3) r(2,3)]
  have len: "length (Task_Run_Flag (publish_alarms (watch_gps p t))) = 3" "a < length (limit_alarm_cnt v)"
    using watch_drive_effect(1) [OF t z] r(3) assms(3) by (simp_all add: sized_def)
  have k: "keeps_alarms (publish_alarms (watch_gps p t)) s'"
    using react_effect(1) [OF u len(1)] keeps_updates(4) kal.step unfolding s' by blast
  have v: "limit_alarm_cnt v ! a = limit_alarm_cnt s ! a" "motor_limit_sta (cur v) ! a = motor_limit_sta (cur s) ! a"
    "motor_move (cur v) ! a = motor_move (cur s) ! a" "\<exists>fs. sent (core v) = sent (core s) @ fs"
    using b by (simp_all add: beside_def watches_def)
  have w: "limit_alarm_cnt s' ! a = limit_alarm_cnt w ! a" "motor_limit_sta (cur s') ! a = motor_limit_sta (cur w) ! a"
    "\<exists>fs. sent (core s') = sent (core w) @ fs"
    using d k by (auto simp: keeps_alarms_def beside_def watches_def)
  show "limit_alarm_cnt s ! a < 2 \<Longrightarrow> limit_alarm_cnt s' ! a = limit_alarm_cnt s ! a + 1"
    using e(4) v(1) w(1) len(2) by simp
  assume c: "limit_alarm_cnt s ! a = 2"
  have "sends v w (stop_frame (axis_id a)) \<Longrightarrow> sends s s' (stop_frame (axis_id a))"
    using v(4) w(3) by (fastforce simp: sends_def)
  then show "motor_limit_sta (cur s') ! a = dir \<and> (motor_move (cur s) ! a = dir \<longrightarrow> sends s s' (stop_frame (axis_id a)))"
    using e(5) c v w(2) assms(4) by (auto simp: at_new_limit_def)
qed

text \<open>C5: an axis that stands at a limit in three consecutive ticks, with the link to the drive unit and its encoder up, the limit
  not yet noted and its counter at 0 before the first, and that moves outwards at the third, is sent a stop by the third, which
  notes the limit: whatever the other tasks do to the link, the device record and the run flags in between, the drive unit
  answers, or other alarms there are. Nothing is claimed for a limit that is noted already (\<open>app_monitor.c:969\<close>).\<close>

theorem limit_stops_axis:
  assumes "a < 3" "sized s1" "limit_alarm_cnt s1 ! a = 0"
    and ticks: "APP_MONITOR_DevHWSta p s1 = Inr ((), t1)" "APP_MONITOR_DevHWSta p s2 = Inr ((), t2)"
      "APP_MONITOR_DevHWSta p s3 = Inr ((), t3)"
    and others: "s2 = t1\<lparr>core := c2, Task_Run_Flag := f2\<rparr>" "s3 = t2\<lparr>core := c3, Task_Run_Flag := f3\<rparr>" "sized s2" "sized s3"
    and limit: "at_new_limit a dir s1" "at_new_limit a dir s2" "at_new_limit a dir s3" "motor_move (cur s3) ! a = dir"
  shows "sends s3 t3 (stop_frame (axis_id a)) \<and> motor_limit_sta (cur t3) ! a = dir"
proof -
  have "limit_alarm_cnt s2 ! a = 1"
    using tick_limit(1) [OF ticks(1) assms(2,1) limit(1)] assms(3) others(1) by simp
  then have "limit_alarm_cnt s3 ! a = 2"
    using tick_limit(1) [OF ticks(2) others(3) assms(1) limit(2)] others(2) by simp
  then show ?thesis
    using tick_limit(2) [OF ticks(3) others(4) assms(1) limit(3)] limit(4) by simp
qed

section \<open>Published alarms\<close>

text \<open>The state while the unit is supervised: ticks of both monitors, and other tasks in between,
  which write everything but the limit states.\<close>

definition just_started :: "mon \<Rightarrow> bool" where
  "just_started s \<longleftrightarrow> sized s \<and> alarm_now s = replicate 6 0 \<and> motor_limit_sta (cur s) = replicate 3 0"

inductive supervised :: "mon \<Rightarrow> bool" where
  start: "just_started s \<Longrightarrow> supervised s"
| tick: "supervised s \<Longrightarrow> APP_MONITOR_DevHWSta p s = Inr ((), s') \<Longrightarrow> supervised s'"
| motors: "supervised s \<Longrightarrow> APP_MONITOR_DevMotorMonitor p s = Inr ((), s') \<Longrightarrow> supervised s'"
| others: "supervised s \<Longrightarrow> motor_limit_sta (ACUCurrSta (dev c)) = motor_limit_sta (cur s) \<Longrightarrow> length f = 3 \<Longrightarrow>
    supervised (s\<lparr>core := c, Task_Run_Flag := f\<rparr>)"

lemma tick_byte_1:
  assumes "APP_MONITOR_DevHWSta p s = Inr ((), s')" "sized s"
  shows "alarm_now s' ! 1 AND 6 = alarm_now s ! 1 AND 6"
proof -
  obtain h t u where t: "watch_drive (device_alarms s) = Inr (h, t)"
    and u: "react (high_loss (board s) \<or> h) (publish_alarms (watch_gps p t)) = Inr ((), u)" and s': "s' = settle_work_sta u"
    using tickE [OF assms(1)] .
  have z: "sized (device_alarms s)" using assms(2) by (simp add: sized_def)
  have len: "length (Task_Run_Flag (publish_alarms (watch_gps p t))) = 3"
    using watch_drive_effect(1) [OF t z] by (simp add: sized_def)
  have "keeps_alarms (publish_alarms (watch_gps p t)) s'"
    using react_effect(1) [OF u len] keeps_updates(4) kal.step unfolding s' by blast
  then have "alarm_now s' ! 1 = alarm_now (device_alarms s) ! 1"
    using watch_drive_effect(2) [OF t z, of 1] by (simp add: keeps_alarms_def)
  also have "\<dots> AND 6 = alarm_now s ! 1 AND 6"
    using assms(2) by (simp add: device_alarms_def Let_def sized_def masked_update and.assoc)
  finally show ?thesis .
qed

text \<open>The watch of drifting axes touches none of the alarms.\<close>

definition apart :: "mon \<Rightarrow> mon \<Rightarrow> bool" where
  "apart s s' \<longleftrightarrow> alarm_now s' = alarm_now s \<and> limit_alarm_cnt s' = limit_alarm_cnt s
     \<and> motor_limit_sta (cur s') = motor_limit_sta (cur s) \<and> Task_Run_Flag s' = Task_Run_Flag s
     \<and> rest (board s') = rest (board s)"

interpretation apt: frame apart
  by unfold_locales (auto simp: apart_def)

lemma drives_apart: "drives s t \<Longrightarrow> apart s t"
  using drives_sel [of s t] rest_sel(4) [of "board t" "board s"] by (simp add: apart_def drives_def cur_def)

lemma watch_axis_apart: "obeys apart (watch_axis tol i)"
proof (rule obeysI)
  fix s x s' assume r: "watch_axis tol i s = Inr (x, s')"
  let ?x = "ed_degree (EleccoderData (EleccoderInfo (DeviceInfo (board s)) ! i))"
  let ?s = "s\<lparr>old_degree := (old_degree s)[i := ?x], err_cnt := (err_cnt s)[i := err_cnt s ! i + 1]\<rparr>"
  let ?t = "?s\<lparr>err_cnt := (err_cnt ?s)[i := 0]\<rparr>"
  have u: "apart s ?t" "apart s ?s" "apart s (s\<lparr>err_cnt := (err_cnt s)[i := 0]\<rparr>)"
    by (simp_all add: apart_def cur_def board_def)
  consider q where "on_link (Antenna_DriveEnd (of_nat (i + 1)) 0) ?t = Inr (q, s')" | "s' = ?s"
    | "s' = s\<lparr>err_cnt := (err_cnt s)[i := 0]\<rparr>"
    using r by (auto simp: watch_axis_def Let_def bind_io_Inr split: if_splits)
  then show "apart s s'"
    using u drives_apart obeysD [OF drives_stop] apt.step by cases blast+
qed

lemma motors_apart:
  assumes "APP_MONITOR_DevMotorMonitor p s = Inr ((), s')"
  shows "apart s s'"
proof -
  let ?s = "s\<lparr>scan_cnt := scan_cnt s + 1\<rparr>"
  have u: "apart s ?s" "apart s (?s\<lparr>scan_cnt := 0\<rparr>)" by (simp_all add: apart_def cur_def board_def)
  let ?w = "bind_io (watch_axis (8 / 1000) 0) (\<lambda>_. bind_io (watch_axis (8 / 1000) 1) (\<lambda>_. (\<lambda>t.
               if ant_elec_coder_num (AntennaParam (ACUParam (board t))) \<ge> 3 then watch_axis (2 / 10) 2 t
               else Inr ((), t))))"
  have o: "obeys apart ?w"
    by (intro apt.seq watch_axis_apart apt.cond_at) (auto simp: obeys_def apt.stay)
  show ?thesis
  proof -
    have "s' = s \<or> s' = ?s \<or> ?w (?s\<lparr>scan_cnt := 0\<rparr>) = Inr ((), s')"
      using assms by (simp add: APP_MONITOR_DevMotorMonitor_def Let_def split: if_splits)
    then show ?thesis using u apt.stay apt.step [OF u(2) obeysD [OF o]] by blast
  qed
qed

definition alarms_inv :: "mon \<Rightarrow> bool" where
  "alarms_inv s \<longleftrightarrow> sized s \<and> (\<forall>a < 3. limit_ok a s) \<and> alarm_now s ! 1 AND 6 = 0"

lemma supervised_inv: "supervised s \<Longrightarrow> alarms_inv s"
proof (induction rule: supervised.induct)
  case (start s)
  then show ?case by (auto simp: alarms_inv_def just_started_def limit_ok_def)
next
  case (tick s p s')
  then show ?case using tick_effect(1,6) [OF tick.hyps(2)] tick_byte_1 [OF tick.hyps(2)] by (simp add: alarms_inv_def)
next
  case (motors s p s')
  then show ?case using motors_apart [OF motors.hyps(2)] by (simp add: alarms_inv_def apart_def sized_def limit_ok_def)
next
  case (others s c f)
  then show ?case by (simp add: alarms_inv_def sized_def limit_ok_def cur_def board_def)
qed

text \<open>The watch of an axis that is off its limits, or whose encoder is not watched.\<close>

definition off_limits :: "nat \<Rightarrow> strACUDevInfo \<Rightarrow> bool" where
  "off_limits a d \<longleftrightarrow> \<not> (watched a d \<and> (beyond a 1 d \<or> beyond a 2 d))"

lemma watch_limit_off:
  assumes "watch_limit a s = Inr (h, s')" "off_limits a (board s)" "a < 3" "sized s"
  shows "motor_limit_sta (cur s') ! a = 0"
proof (rule watch_limit_cases [of a s])
  fix dir :: u8 assume "watched a (board s)" "beyond a dir (board s)" "dir = 1 \<or> dir = 2"
  then show ?thesis using assms(2) by (auto simp: off_limits_def)
next
  assume "watch_limit a s = Inr (False, limit_left a s)"
  then show ?thesis
    using assms(1,3,4) by (simp add: limit_left_eq set_limit_sta_def sized_def)
qed

lemma watch_drive_off:
  assumes "watch_drive s = Inr (h, t)" "sized s" "a < 3" "\<not> drive_link_lost (board s)" "off_limits a (board s)"
  shows "motor_limit_sta (cur t) ! a = 0"
  using assms(1)
proof (cases rule: watch_drive_cases)
  case 1
  then show ?thesis using assms(4) by simp
next
  case (2 h0 s0 h1 s1 h2)
  let ?c = "clear_alarm 3 1 s"
  have c: "sized ?c" "off_limits a (board ?c)" using assms(2,5) by (simp_all add: sized_def)
  note e0 = watch_limit_effect [OF 2(2) _ c(1), simplified]
  have z0: "sized s0" using watches_sized [OF e0(1) c(1)] .
  note e1 = watch_limit_effect [OF 2(3) _ z0, simplified]
  have z1: "sized s1" using watches_sized [OF e1(1) z0] .
  note e2 = watch_limit_effect [OF 2(4) _ z1, simplified]
  have m0: "off_limits a (board s0)" using watches_same [OF e0(1)] c(2) by (simp add: off_limits_def)
  have m1: "off_limits a (board s1)" using watches_same [OF e1(1)] m0 by (simp add: off_limits_def)
  consider "a = 0" | "a = 1" | "a = 2" using assms(3) by linarith
  then show ?thesis
  proof cases
    case 1
    have "motor_limit_sta (cur s0) ! a = 0" using watch_limit_off [OF 2(2)[folded 1] c(2) assms(3) c(1)] .
    then show ?thesis using e1(2) [of a] e2(2) [of a] 1 by (simp add: beside_def)
  next
    case a: 2
    have "motor_limit_sta (cur s1) ! a = 0"
      using watch_limit_off [OF 2(3)[folded a] m0 assms(3) z0] .
    then show ?thesis using e2(2) [of a] a by (simp add: beside_def)
  next
    case a: 3
    show ?thesis using watch_limit_off [OF 2(4)[folded a] m1 assms(3) z1] .
  qed
qed

lemma tick_off:
  assumes "APP_MONITOR_DevHWSta p s = Inr ((), s')" "sized s" "a < 3" "\<not> drive_link_lost (board s)" "off_limits a (board s)"
  shows "motor_limit_sta (cur s') ! a = 0"
proof -
  obtain h t u where t: "watch_drive (device_alarms s) = Inr (h, t)"
    and u: "react (high_loss (board s) \<or> h) (publish_alarms (watch_gps p t)) = Inr ((), u)" and s': "s' = settle_work_sta u"
    using tickE [OF assms(1)] .
  have z: "sized (device_alarms s)" using assms(2) by (simp add: sized_def)
  have len: "length (Task_Run_Flag (publish_alarms (watch_gps p t))) = 3"
    using watch_drive_effect(1) [OF t z] by (simp add: sized_def)
  have "keeps_alarms (publish_alarms (watch_gps p t)) s'"
    using react_effect(1) [OF u len] keeps_updates(4) kal.step unfolding s' by blast
  then show ?thesis using watch_drive_off [OF t z assms(3)] assms(4,5) by (simp add: keeps_alarms_def)
qed

text \<open>C13: after every tick of a supervised unit the published alarm bytes say of the three encoders, the beacon receiver, the
  EEPROM and the flash whether each is lost, and of the drive unit whether its link is lost. Of each axis they have the bit of the limit that was last noted, none if no limit is noted, and
  none if, with the link to the drive unit up, the axis is off its limits or its encoder is not watched. Nothing is
  claimed of the bit of the limit opposite to the last. The alarm flag says whether any bit is set.\<close>

theorem published_alarms:
  assumes "supervised s" "APP_MONITOR_DevHWSta p s = Inr ((), s')"
  defines "B \<equiv> dev_alarm_buff (cur s')"
  shows "(\<forall>(i, m, on) \<in> set (alarm_sources (board s)). B ! i AND m \<noteq> 0 \<longleftrightarrow> on)
    \<and> (B ! 3 AND 1 \<noteq> 0 \<longleftrightarrow> drive_link_lost (board s))
    \<and> (\<forall>a < 3. \<forall>dir \<in> {1, 2}. motor_limit_sta (cur s') ! a = dir \<longrightarrow> B ! 5 AND fst (limit_mark a dir) \<noteq> 0)
    \<and> (\<forall>a < 3. motor_limit_sta (cur s') ! a = 0 \<longrightarrow> B ! 5 AND lim_bits a = 0)
    \<and> (\<forall>a < 3. \<not> drive_link_lost (board s) \<longrightarrow> off_limits a (board s) \<longrightarrow> B ! 5 AND lim_bits a = 0)
    \<and> (dev_alarm_flag (cur s') = 1 \<longleftrightarrow> (\<exists>b \<in> set B. b \<noteq> 0))"
proof -
  have i: "alarms_inv s" using supervised_inv [OF assms(1)] .
  then have z: "sized s" by (simp add: alarms_inv_def)
  note e = tick_effect [OF assms(2) z]
  have B: "B = alarm_now s'" unfolding B_def by (rule e(2))
  have l: "limit_ok a s'" if "a < 3" for a using e(6) that i by (simp add: alarms_inv_def)
  have "dev_alarm_flag (cur s') = 1 \<longleftrightarrow> (\<exists>b \<in> set B. b \<noteq> 0)"
    unfolding e(3) B by (auto simp: any_alarm_def list_all_iff)
  moreover have "\<forall>(i, m, on) \<in> set (alarm_sources (board s)). B ! i AND m \<noteq> 0 \<longleftrightarrow> on"
    unfolding B using e(4) by blast
  moreover have "B ! 5 AND fst (limit_mark a dir) \<noteq> 0"
    if "a < 3" "dir \<in> {1, 2}" "motor_limit_sta (cur s') ! a = dir" for a dir
    unfolding B using l [OF that(1)] that(2,3) by (auto simp: limit_ok_def)
  moreover have "B ! 5 AND lim_bits a = 0" if "a < 3" "motor_limit_sta (cur s') ! a = 0" for a
    unfolding B using l [OF that(1)] that(2) by (simp add: limit_ok_def)
  moreover have "B ! 5 AND lim_bits a = 0" if "a < 3" "\<not> drive_link_lost (board s)" "off_limits a (board s)" for a
    unfolding B using l [OF that(1)] tick_off [OF assms(2) z that] by (simp add: limit_ok_def)
  ultimately show ?thesis using e(5) B by blast
qed

text \<open>The alarms of the beacon receiver that \<open>app_beacon.c\<close> puts into the published bytes (bits
  1 and 2 of byte 1) are gone after the next tick: the monitor copies its own bytes over them.\<close>

theorem beacon_alarms_wiped:
  assumes "supervised s" "APP_MONITOR_DevHWSta p s = Inr ((), s')"
  shows "dev_alarm_buff (cur s') ! 1 AND 0x06 = 0"
proof -
  have i: "alarms_inv s" using supervised_inv [OF assms(1)] .
  then have z: "sized s" by (simp add: alarms_inv_def)
  show ?thesis using tick_effect(2) [OF assms(2) z] tick_byte_1 [OF assms(2) z] i by (simp add: alarms_inv_def)
qed

section \<open>High alarms\<close>

text \<open>C6: a lost encoder, beacon receiver or drive unit ends every tracking task in the same tick: no task runs afterwards and the
  unit is in standby. If a tracking task was running the three axes are sent a stop; nothing is claimed for an axis that is driven
  by hand when none was (\<open>app_monitor.c:1218\<close>).\<close>

theorem high_alarm_forces_standby:
  assumes "APP_MONITOR_DevHWSta p s = Inr ((), s')" "sized s" "high_loss (board s)"
  shows "Task_Run_Flag s' = [0, 0, 0] \<and> SeekSat_Mode (SeekSatParam (ACUParam (board s'))) = 0
    \<and> dev_work_sta (cur s') = 0
    \<and> ((\<exists>i < 3. Task_Run_Flag s ! i > 0) \<longrightarrow> (\<forall>q \<in> {1, 2, 3}. sends s s' (stop_frame q)))"
proof -
  obtain h t u where t: "watch_drive (device_alarms s) = Inr (h, t)"
    and u: "react (high_loss (board s) \<or> h) (publish_alarms (watch_gps p t)) = Inr ((), u)" and s': "s' = settle_work_sta u"
    using tickE [OF assms(1)] .
  have z: "sized (device_alarms s)" using assms(2) by (simp add: sized_def)
  note w = watch_drive_effect [OF t z]
  let ?p = "publish_alarms (watch_gps p t)"
  have len: "length (Task_Run_Flag ?p) = 3" "length (alarm_now (watch_gps p t)) = 6" using w(1) by (simp_all add: sized_def)
  note e = react_effect [OF u len(1)]
  note tick = tick_effect [OF assms(1,2)]
  have zs: "length (alarm_now s') = 6" using tick(1) by (simp add: sized_def)
  have "\<exists>i < 6. alarm_now s' ! i \<noteq> 0"
  proof -
    have *: "\<exists>i < 6. alarm_now s' ! i \<noteq> 0" if "alarm_now s' ! i AND m \<noteq> 0" "i < 6" for i m
      using that by (intro exI [of _ i]) auto
    let ?b = "board s"
    have src: "(0, 1, coder_lost 0 ?b) \<in> set (alarm_sources ?b)" "(0, 2, coder_lost 1 ?b) \<in> set (alarm_sources ?b)"
      "(0, 4, coder_lost 2 ?b) \<in> set (alarm_sources ?b)" "(1, 1, beacon_lost ?b) \<in> set (alarm_sources ?b)"
      by (simp_all add: alarm_sources_def)
    have "alarm_now s' ! 0 AND 1 \<noteq> 0 \<or> alarm_now s' ! 0 AND 2 \<noteq> 0 \<or> alarm_now s' ! 0 AND 4 \<noteq> 0
      \<or> alarm_now s' ! 1 AND 1 \<noteq> 0 \<or> alarm_now s' ! 3 AND 1 \<noteq> 0"
      using src [THEN tick(4)] tick(5) assms(3) by (simp only: high_loss_def)
    then show ?thesis using * [where i = 0 and m = 1] * [where i = 0 and m = 2] * [where i = 0 and m = 4]
        * [where i = 1 and m = 1] * [where i = 3 and m = 1] by auto
  qed
  then have "any_alarm (alarm_now s') = 1" using any_alarm(4) zs by metis
  moreover have "alarm_now s' = alarm_now (watch_gps p t)"
    using kal.step [OF e(1) keeps_updates(4)] unfolding s' by (simp add: keeps_alarms_def)
  ultimately have f: "dev_alarm_flag (cur ?p) > 0" using publish_effect(2) [OF len(2)] by simp
  have k: "Task_Run_Flag s' = Task_Run_Flag u" "ACUParam (board s') = ACUParam (board u)" "sent (core s') = sent (core u)"
    unfolding s' by (simp_all add: settle_work_sta_def)
  have "dev_work_sta (cur s') = 0"
    using e(2) f assms(3) unfolding s' by (auto simp: settle_work_sta_def word_gt_0)
  moreover have "sends s s' (stop_frame q)" if "i < 3" "Task_Run_Flag s ! i > 0" "q \<in> {1, 2, 3}" for i q
    using e(3) [of i q] f assms(3) that w(5,6) k(3) by (fastforce simp: sends_def)
  ultimately show ?thesis using e(2) f assms(3) k by auto
qed

end
