(* ===== verification/MonitorRuns.thy ===== *)
theory MonitorRuns
  imports MonitorProps
begin

text \<open>
  What the supervision misses, the tables of alarm codes, the temperature sensor, and runs of the
  monitor on concrete units.
\<close>

section \<open>An axis that is not watched\<close>

text \<open>Nothing is sent and no motion changes.\<close>

definition same_motion :: "mon \<Rightarrow> mon \<Rightarrow> bool" where
  "same_motion s s' \<longleftrightarrow> sent (core s') = sent (core s) \<and> motor_move (cur s') = motor_move (cur s)
     \<and> Task_Run_Flag s' = Task_Run_Flag s \<and> (\<forall>a. watched a (board s') \<longleftrightarrow> watched a (board s))"

interpretation sam: frame same_motion
  by unfold_locales (auto simp: same_motion_def)

lemma same_motion_parts:
  "same_motion s (limit_left a s)" "same_motion s (clear_alarm i m s)" "same_motion s (drive_unit_lost s)"
  "same_motion s (publish_alarms s)" "same_motion s (watch_gps p s)" "same_motion s (beep (to_standby s))"
  "same_motion s (settle_work_sta s)" "same_motion s (device_alarms s)" "same_motion s (beep s)"
proof -
  have i: "sent (core (set_info f x)) = sent (core x)" "cur (set_info f x) = cur x" "Task_Run_Flag (set_info f x) = Task_Run_Flag x" for f x
    by simp_all
  show "same_motion s (limit_left a s)" "same_motion s (clear_alarm i m s)" "same_motion s (drive_unit_lost s)"
    "same_motion s (settle_work_sta s)" "same_motion s (device_alarms s)"
    by (simp_all add: same_motion_def watched_def limit_left_def set_limit_sta_def drive_unit_lost_def Let_def settle_work_sta_def)
  show "same_motion s (publish_alarms s)"
    by (simp add: same_motion_def watched_def publish_alarms_def refresh_alarms_def Let_def)
      (simp add: set_cur_def cur_def board_def upd_sta_def)
  show "same_motion s (watch_gps p s)"
    by (simp add: same_motion_def watched_def) (simp add: watch_gps_def Let_def set_gps_stat_def set_info_def upd_info_def board_def)
  show "same_motion s (beep s)" "same_motion s (beep (to_standby s))"
    by (simp_all add: same_motion_def watched_def beep_def to_standby_def APP_BUZZER_BeepOpt_def APP_BUZZER_Switch_def
        set_info_def upd_info_def board_def cur_def opt_log_event_def upd_sta_def upd_param_def)
qed

text \<open>A high alarm does nothing about an axis that is driven by hand: with its encoder lost no
  limit is watched, no task is running, and the tick sends nothing; the axis keeps turning.\<close>

theorem lost_encoder_motor_runs_on:
  assumes "\<forall>a < 3. \<not> watched a (board s)" "Task_Run_Flag s = [0, 0, 0]"
  shows "\<exists>s'. APP_MONITOR_DevHWSta p s = Inr ((), s') \<and> sent (core s') = sent (core s)
    \<and> motor_move (cur s') = motor_move (cur s)"
proof -
  have lim: "watch_limit a x = Inr (False, limit_left a x)" if "a < 3" "same_motion s x" for a x
    using assms(1) that by (rule_tac watch_limit_cases [of a x]) (auto simp: same_motion_def)
  obtain h t where t: "watch_drive (device_alarms s) = Inr (h, t)" "same_motion s t"
  proof (cases "drive_link_lost (board s)")
    case True
    then show thesis
      using that [of False "drive_unit_lost (device_alarms s)"] sam.step [OF same_motion_parts(8) same_motion_parts(3)]
      by (simp add: watch_drive_def)
  next
    case False
    let ?c = "clear_alarm 3 1 (device_alarms s)"
    let ?x = "limit_left 0 ?c" let ?y = "limit_left 1 ?x" let ?z = "limit_left 2 ?y"
    have c: "same_motion s ?c" using sam.step [OF same_motion_parts(8) same_motion_parts(2)] .
    have x: "same_motion s ?x" using sam.step [OF c same_motion_parts(1)] .
    have y: "same_motion s ?y" using sam.step [OF x same_motion_parts(1)] .
    have z: "same_motion s ?z" using sam.step [OF y same_motion_parts(1)] .
    show thesis
      using that [OF _ z, of False] lim [OF _ c, of 0] lim [OF _ x, of 1] lim [OF _ y, of 2] False
      by (simp add: watch_drive_def bind_io_def ret_io_def update_def)
  qed
  let ?p = "publish_alarms (watch_gps p t)"
  have p: "same_motion s ?p" using sam.step [OF t(2) sam.step [OF same_motion_parts(5) same_motion_parts(4)]] .
  have e: "end_task i ?p = Inr ((), ?p)" if "i < 3" for i
    using p assms(2) that by (auto simp: end_task_def ret_io_def same_motion_def less_Suc_eq numeral_3_eq_3)
  obtain u where u: "react (high_loss (board s) \<or> h) ?p = Inr ((), u)" "same_motion s u"
  proof (cases "dev_alarm_flag (cur ?p) > 0 \<and> (high_loss (board s) \<or> h)")
    case True
    then have "react (high_loss (board s) \<or> h) ?p = Inr ((), beep (to_standby ?p))"
      using e [of 0] e [of 1] e [of 2] by (simp add: react_def bind_io_def update_def)
    then show thesis using that sam.step [OF p same_motion_parts(6)] by blast
  next
    case False
    then have "react (high_loss (board s) \<or> h) ?p = Inr ((), beep ?p)" by (auto simp: react_def)
    then show thesis using that sam.step [OF p same_motion_parts(9)] by blast
  qed
  have "APP_MONITOR_DevHWSta p s = Inr ((), settle_work_sta u)"
    using t(1) u(1) by (simp add: APP_MONITOR_DevHWSta_def bind_io_def update_def)
  then show ?thesis using sam.step [OF u(2) same_motion_parts(7)] by (auto simp: same_motion_def)
qed

section \<open>Alarm codes\<close>

text \<open>Blocks of equal length, each present or absent, are told from their concatenation.\<close>

lemma block_at_front:
  assumes "\<forall>x \<in> set xs. (g x = code x \<or> g x = []) \<and> length (code x) = n" "concat (map g xs) = c @ r" "length c = n" "0 < n"
  shows "c \<in> code ` set xs"
  using assms
proof (induction xs)
  case (Cons x xs)
  then show ?case by (cases "g x = []") auto
qed simp

lemma blocks_unique:
  assumes "\<forall>x \<in> set xs. (f x = code x \<or> f x = []) \<and> (g x = code x \<or> g x = []) \<and> length (code x) = n"
    "distinct (map code xs)" "concat (map f xs) = concat (map g xs)" "0 < n" "x \<in> set xs"
  shows "f x = g x"
  using assms
proof (induction xs)
  case (Cons y xs)
  have c: "length (code y) = n" "code y \<notin> code ` set xs" using Cons.prems(1,2) by auto
  have no: "h y = code y \<Longrightarrow> k y = [] \<Longrightarrow> h y @ concat (map h xs) = k y @ concat (map k xs)
      \<Longrightarrow> \<forall>x \<in> set xs. (k x = code x \<or> k x = []) \<and> length (code x) = n \<Longrightarrow> False" for h k
    using block_at_front [of xs k code n "code y" "concat (map h xs)"] c Cons.prems(4) by auto
  have y: "f y = g y"
    using no [of f g] no [of g f] Cons.prems(1,3) by (cases "f y = g y") auto
  show ?case
  proof (cases "x = y")
    case True
    then show ?thesis using y by simp
  next
    case False
    show ?thesis
    proof (rule Cons.IH)
      show "concat (map f xs) = concat (map g xs)" using Cons.prems(3) y by simp
      show "\<forall>x \<in> set xs. (f x = code x \<or> f x = []) \<and> (g x = code x \<or> g x = []) \<and> length (code x) = n"
        by (rule ballI) (rule Cons.prems(1) [rule_format], simp)
      show "distinct (map code xs)" using Cons.prems(2) by simp
      show "0 < n" by (rule Cons.prems(4))
      show "x \<in> set xs" using Cons.prems(5) False by simp
    qed
  qed
qed simp

lemma blocks_length: "\<forall>x \<in> set xs. length (f x) \<le> n \<Longrightarrow> length (concat (map f xs)) \<le> n * length xs"
  by (induction xs) auto

lemma alarm_table_props: "distinct (map (snd \<circ> snd) alarm_table)" "\<forall>(i, m, c) \<in> set alarm_table. length c = 3"
  "3 * length alarm_table = 48"
  by (simp_all add: alarm_table_def)

text \<open>The codes sent to PCs and panel tell exactly which of the sixteen tabled alarms are set, in
  at most 48 bytes whose number is the length reported.\<close>

theorem alarm_codes_tell_alarms:
  shows "(APP_MONITOR_AlarmStaCodeDeal b = APP_MONITOR_AlarmStaCodeDeal c) =
      list_all (\<lambda>(i, m, code). (b ! i AND m = 0) = (c ! i AND m = 0)) alarm_table
    \<and> unat (snd (APP_MONITOR_AlarmStaCodeDeal b)) = length (fst (APP_MONITOR_AlarmStaCodeDeal b))
    \<and> length (fst (APP_MONITOR_AlarmStaCodeDeal b)) \<le> 48"
proof -
  let ?f = "\<lambda>b (i, m, code). if b ! i AND m \<noteq> 0 then code else ([] :: bytes)"
  have len: "length (concat (map (?f b) alarm_table)) \<le> 48"
  proof -
    have "length (concat (map (?f b) alarm_table)) \<le> 3 * length alarm_table"
      by (rule blocks_length) (use alarm_table_props(2) in auto)
    then show ?thesis by (simp only: alarm_table_props(3))
  qed
  have "concat (map (?f b) alarm_table) = concat (map (?f c) alarm_table)
      \<longleftrightarrow> list_all (\<lambda>(i, m, code). (b ! i AND m = 0) = (c ! i AND m = 0)) alarm_table"
  proof
    assume e: "concat (map (?f b) alarm_table) = concat (map (?f c) alarm_table)"
    have b: "\<forall>x \<in> set alarm_table. (?f b x = (snd \<circ> snd) x \<or> ?f b x = []) \<and> (?f c x = (snd \<circ> snd) x \<or> ?f c x = [])
        \<and> length ((snd \<circ> snd) x) = 3"
      using alarm_table_props(2) by auto
    have "?f b x = ?f c x" if "x \<in> set alarm_table" for x
      using blocks_unique [OF b alarm_table_props(1) e _ that] by simp
    then show "list_all (\<lambda>(i, m, code). (b ! i AND m = 0) = (c ! i AND m = 0)) alarm_table"
      using alarm_table_props(2) by (fastforce simp: list_all_iff split: if_splits)
  next
    assume "list_all (\<lambda>(i, m, code). (b ! i AND m = 0) = (c ! i AND m = 0)) alarm_table"
    then have "\<forall>x \<in> set alarm_table. ?f b x = ?f c x" by (auto simp: list_all_iff)
    then have "map (?f b) alarm_table = map (?f c) alarm_table" by (intro map_cong refl) blast
    then show "concat (map (?f b) alarm_table) = concat (map (?f c) alarm_table)" by (simp only:)
  qed
  moreover have "unat (ucast (of_nat (length (concat (map (?f b) alarm_table))) :: u8) :: u32)
      = length (concat (map (?f b) alarm_table))"
    using len by (simp add: unat_of_nat)
  ultimately show ?thesis
    using len by (auto simp: APP_MONITOR_AlarmStaCodeDeal_def Let_def)
qed

section \<open>Temperature\<close>

lemma sint_small: "0 \<le> x \<Longrightarrow> x < 128 \<Longrightarrow> sint (word_of_int x :: 8 word) = x \<and> sint (word_of_int (- x) :: 8 word) = - x"
proof -
  have "sint (word_of_int y :: 8 word) = signed_take_bit 7 y" for y by (subst sint_sbintrunc') simp
  from this [of x] this [of "- x"]
  show "0 \<le> x \<Longrightarrow> x < 128 \<Longrightarrow> sint (word_of_int x :: 8 word) = x \<and> sint (word_of_int (- x) :: 8 word) = - x"
    using signed_take_bit_int_eq_self [of 7 x] signed_take_bit_int_eq_self [of 7 "- x"] by simp
qed

text \<open>The temperature is right exactly above the freezing point: a code of \<open>q\<close> quarters of a
  degree is read as its floor in degrees for \<open>q \<ge> 0\<close>, and as \<open>-(512 + q) div 4\<close> below.\<close>

theorem temperature_below_zero:
  assumes "-512 \<le> q" "q < 512"
  shows "AD7814_TempGet (push_bit 5 (word_of_int (q mod 1024))) = (if q \<ge> 0 then q div 4 else - ((512 + q) div 4))"
proof -
  define n where "n = q mod 1024"
  have n: "0 \<le> n" "n < 1024" by (simp_all add: n_def)
  let ?w = "word_of_int n :: u16" let ?d = "push_bit 5 ?w"
  have b: "bit ?w i = bit n i" if "i < 16" for i using that by (simp add: bit_word_of_int_iff)
  have hi: "\<not> bit n i" if "i \<ge> 10" for i
  proof -
    have "n = take_bit 10 n" using n by (simp add: take_bit_int_eq_self)
    then show ?thesis using that by (metis bit_take_bit_iff not_le)
  qed
  define k :: nat where "k = 14"
  have p: "(0x4000 :: u16) = push_bit k 1" by (simp add: k_def)
  have sign: "?d AND 0x4000 \<noteq> 0 \<longleftrightarrow> bit n 9"
  proof -
    have "?d AND 0x4000 \<noteq> 0 \<longleftrightarrow> bit ?d k"
      unfolding p bit_iff_and_push_bit_not_eq_0 ..
    then show ?thesis using b [of 9] by (simp add: bit_push_bit_iff k_def)
  qed
  have "drop_bit 5 (?d AND NOT 0x4000) = take_bit 9 ?w"
  proof (rule bit_word_eqI)
    fix i assume "i < LENGTH(16)"
    then show "bit (drop_bit 5 (?d AND NOT 0x4000)) i = bit (take_bit 9 ?w) i"
      unfolding p using b hi [of i] by (simp add: bit_simps) (cases "10 \<le> i"; auto simp: k_def)
  qed
  then have "uint (drop_bit 5 (?d AND NOT 0x4000)) = take_bit 9 (uint ?w)" by (simp only: unsigned_take_bit_eq)
  then have mag: "uint (drop_bit 5 (?d AND NOT 0x4000)) = n mod 512"
    using n by (simp add: take_bit_eq_mod uint_word_of_int)
  have m: "(n mod 512) * 25 div 100 = n mod 512 div 4" by linarith
  have "0 \<le> n mod 512 div 4" "n mod 512 div 4 < 128" by auto
  note s = sint_small [OF this]
  have neg: "bit n 9 \<longleftrightarrow> q < 0"
  proof -
    have "q < 0 \<Longrightarrow> (q + 1024) mod 1024 = q + 1024" using assms by (intro mod_pos_pos_trivial) auto
    then have "n = (if q < 0 then q + 1024 else q)" using assms by (auto simp: n_def)
    then have "n div 512 = (if q < 0 then 1 else 0)" using assms by (auto simp: div_pos_pos_trivial)
    then show ?thesis by (simp add: bit_iff_odd)
  qed
  have "AD7814_TempGet ?d = (if bit n 9 then - (n mod 512 div 4) else n mod 512 div 4)"
    using s by (simp only: AD7814_TempGet_def Let_def mag sign m)
  moreover have "n mod 512 = (if q < 0 then 512 + q else q)"
  proof -
    have "q mod 512 = (if q < 0 then 512 + q else q)"
    proof (cases "q < 0")
      case True
      then have "(512 + q) mod 512 = 512 + q" using assms by (intro mod_pos_pos_trivial) auto
      moreover have "(512 + q) mod 512 = q mod 512" by (rule mod_add_self1)
      ultimately have "q mod 512 = 512 + q" by metis
      then show ?thesis using True by presburger
    next
      case False
      then have "q mod 512 = q" using assms by (intro mod_pos_pos_trivial) auto
      then show ?thesis using False by presburger
    qed
    then show ?thesis by (simp add: n_def mod_mod_cancel)
  qed
  ultimately show ?thesis using neg by (simp add: n_def)
qed

text \<open>When the flash alarm and the drive unit alarm are new together,
  \<open>APP_MONITOR_AlarmStaWrite2Flash\<close> overruns its array.\<close>

theorem alarm_write_overruns:
  assumes "old ! 2 AND 2 = 0" "new ! 2 AND 2 \<noteq> 0" "old ! 3 AND 1 = 0" "new ! 3 AND 1 \<noteq> 0"
  shows "APP_MONITOR_AlarmStaWrite2Flash old new = Inl OutOfBounds"
proof -
  have g: "new ! 2 AND 2 > 0" "new ! 3 AND 1 > 0" using assms(2,4) by (simp_all add: word_gt_0)
  show ?thesis
    using assms g
    by (simp add: APP_MONITOR_AlarmStaWrite2Flash_def write_table_def alarm_table_def new_code_def)
qed

section \<open>Concrete runs\<close>

text \<open>A unit at work: all devices linked, the azimuth at its left limit and moving left, a task
  running. \<open>lost\<close> is the same with the azimuth encoder gone.\<close>

definition work_dev :: strACUDevInfo where
  "work_dev = zero_strACUDevInfo\<lparr>ACUParam := zero_strACUSeekSatParam\<lparr>SeekSatParam := zero_strSeekSatParam\<lparr>SeekSat_Mode := 2\<rparr>,
       AntennaParam := zero_strAntennaParam\<lparr>motor_position_start := 1, motor_position_end := 300,
         motor_cabrage_start := -1, motor_cabrage_end := 80\<rparr>\<rparr>,
     ACUCurrSta := zero_strACUCurrSta\<lparr>motor_move := [1, 0, 0]\<rparr>\<rparr>"

definition working :: "bytes \<Rightarrow> mon" where
  "working f = \<lparr>core = (idle_link [])\<lparr>dev := work_dev\<rparr>, gps_timeout_cnt = 0, alarm_now = replicate 6 0,
     alarm_buzzer_refresh = False, limit_alarm_cnt = [0, 0, 0], Task_Run_Flag = f, killed = [], warn_log = [],
     old_degree = [0, 0, 0], scan_cnt = 0, err_cnt = [0, 0, 0]\<rparr>"

definition lost_dev :: strACUDevInfo where
  "lost_dev = work_dev\<lparr>DeviceInfo := zero_strDeviceInfo\<lparr>EleccoderInfo := replicate 3 (zero_strEleccoderInfo\<lparr>EleccoderStat :=
     zero_strEleccoderStat\<lparr>es_link_stat := COMM_UNLINK\<rparr>\<rparr>)\<rparr>\<rparr>"

definition lost :: "bytes \<Rightarrow> mon" where
  "lost f = (working f)\<lparr>core := (idle_link [])\<lparr>dev := lost_dev\<rparr>\<rparr>"

lemma working_sel [simp]:
  "length f = 3 \<Longrightarrow> sized (working f)" "length f = 3 \<Longrightarrow> sized (lost f)" "high_loss (board (lost f))"
  "a < 3 \<Longrightarrow> \<not> watched a (board (lost f))" "Task_Run_Flag (working f) = f" "Task_Run_Flag (lost f) = f"
  by (simp_all add: sized_def lost_def working_def cur_def board_def work_dev_def lost_dev_def zero_strACUCurrSta_def
      high_loss_def coder_lost_def watched_def zero_strEleccoderStat_def)

definition after_tick :: "mon \<Rightarrow> mon" where
  "after_tick s = (case APP_MONITOR_DevHWSta 100 s of Inr (_, s') \<Rightarrow> s' | Inl _ \<Rightarrow> s)"

lemma ticks_return: "\<not> isl (APP_MONITOR_DevHWSta 100 (working [1, 0, 0]))"
  by code_simp


lemma working_limit: "at_new_limit 0 1 (working f)" "motor_move (cur (working f)) ! 0 = 1" "limit_alarm_cnt (working f) ! 0 = 0"
  by (simp_all add: working_def at_new_limit_def drive_link_lost_def watched_def beyond_def axis_def Let_def board_def cur_def
      work_dev_def zero_strACUDevInfo_def zero_strDeviceInfo_def zero_strPDUCommStat_def zero_strEleccoderInfo_def zero_strEleccoderStat_def
      zero_strACUCurrSta_def)

lemma ticks_run:
  "APP_MONITOR_DevHWSta 100 (working [1, 0, 0]) = Inr ((), after_tick (working [1, 0, 0]))"
  "APP_MONITOR_DevHWSta 100 (lost [1, 0, 0]) = Inr ((), after_tick (lost [1, 0, 0]))"
proof -
  have "\<not> isl (APP_MONITOR_DevHWSta 100 (working [1, 0, 0]))" "\<not> isl (APP_MONITOR_DevHWSta 100 (lost [1, 0, 0]))" by code_simp+
  then show "APP_MONITOR_DevHWSta 100 (working [1, 0, 0]) = Inr ((), after_tick (working [1, 0, 0]))"
    "APP_MONITOR_DevHWSta 100 (lost [1, 0, 0]) = Inr ((), after_tick (lost [1, 0, 0]))"
    by (auto simp: after_tick_def isl_def split: sum.splits)
qed

text \<open>The second and the third tick find the unit as it was at the first.\<close>

definition again :: "mon \<Rightarrow> mon" where
  "again s = (after_tick s)\<lparr>core := core (working [1, 0, 0]), Task_Run_Flag := [1, 0, 0]\<rparr>"

lemma again_runs:
  "APP_MONITOR_DevHWSta 100 (again (working [1, 0, 0])) = Inr ((), after_tick (again (working [1, 0, 0])))"
  "APP_MONITOR_DevHWSta 100 (again (again (working [1, 0, 0]))) = Inr ((), after_tick (again (again (working [1, 0, 0]))))"
proof -
  have "\<not> isl (APP_MONITOR_DevHWSta 100 (again (working [1, 0, 0])))"
    "\<not> isl (APP_MONITOR_DevHWSta 100 (again (again (working [1, 0, 0]))))" by code_simp+
  then show "APP_MONITOR_DevHWSta 100 (again (working [1, 0, 0])) = Inr ((), after_tick (again (working [1, 0, 0])))"
    "APP_MONITOR_DevHWSta 100 (again (again (working [1, 0, 0]))) = Inr ((), after_tick (again (again (working [1, 0, 0]))))"
    by (auto simp: after_tick_def isl_def split: sum.splits)
qed

lemma sized_again: "sized s \<Longrightarrow> APP_MONITOR_DevHWSta 100 s = Inr ((), after_tick s) \<Longrightarrow> sized (again s)"
  using tick_effect(1) [of 100 s "after_tick s"] working_sel(1) [of "[1, 0, 0]"]
  by (simp add: again_def sized_def cur_def board_def)

theorem limit_stops_axis_witness:
  "sends (again (again (working [1, 0, 0]))) (after_tick (again (again (working [1, 0, 0])))) (stop_frame (axis_id 0))"
proof -
  have z: "sized (again (working [1, 0, 0]))" using sized_again ticks_run(1) by simp
  have b: "at_new_limit 0 1 (again s)" "motor_move (cur (again s)) ! 0 = 1" for s
    using working_limit [of "[1, 0, 0]"] by (simp_all add: again_def at_new_limit_def board_def cur_def)
  show ?thesis
    by (rule limit_stops_axis [OF _ _ working_limit(3) ticks_run(1) again_runs again_def again_def z
          sized_again [OF z again_runs(1)] working_limit(1) b(1,1) b(2), THEN conjunct1]) simp_all
qed

lemma lost_supervised: "supervised (lost [1, 0, 0])"
  by (rule supervised.start) (simp add: just_started_def, simp add: lost_def working_def cur_def board_def lost_dev_def
      work_dev_def zero_strACUCurrSta_def)

theorem published_alarms_witness: "dev_alarm_buff (cur (after_tick (lost [1, 0, 0]))) ! 0 AND 1 \<noteq> 0"
  using published_alarms [OF lost_supervised ticks_run(2)]
  by (auto simp: alarm_sources_def coder_lost_def lost_def working_def lost_dev_def board_def zero_strEleccoderStat_def)

theorem beacon_alarms_wiped_witness: "dev_alarm_buff (cur (after_tick (lost [1, 0, 0]))) ! 1 AND 0x06 = 0"
  using beacon_alarms_wiped [OF lost_supervised ticks_run(2)] .

theorem high_alarm_witness:
  "Task_Run_Flag (after_tick (lost [1, 0, 0])) = [0, 0, 0] \<and> sends (lost [1, 0, 0]) (after_tick (lost [1, 0, 0])) (stop_frame 2)"
proof -
  have "\<exists>i < 3. Task_Run_Flag (lost [1, 0, 0]) ! i > 0" by (rule exI [of _ 0]) simp
  then show ?thesis using high_alarm_forces_standby [OF ticks_run(2)] by simp
qed

theorem lost_encoder_witness:
  "\<exists>s'. APP_MONITOR_DevHWSta 100 (lost [0, 0, 0]) = Inr ((), s') \<and> motor_move (cur s') = [1, 0, 0]"
proof -
  have m: "motor_move (cur (lost [0, 0, 0])) = [1, 0, 0]"
    by (simp add: lost_def working_def cur_def board_def lost_dev_def work_dev_def)
  show ?thesis using lost_encoder_motor_runs_on [of "lost [0, 0, 0]" 100] unfolding m by auto
qed

theorem temperature_witness: "AD7814_TempGet 0x7FE0 = -127"
  using temperature_below_zero [of "-1"] by simp

theorem alarm_write_witness: "APP_MONITOR_AlarmStaWrite2Flash [0, 0, 0, 0, 0, 0] [0, 0, 2, 1, 0, 0] = Inl OutOfBounds"
  using alarm_write_overruns [of "[0, 0, 0, 0, 0, 0]" "[0, 0, 2, 1, 0, 0]"] by simp

end
