(* ===== verification/Beacon.thy ===== *)
theory Beacon
  imports Monitor
begin

text \<open>
  The receiver of the beacon signal: its serial port, \<open>HW/hw_beacon.c\<close>, and the exchanges of
  \<open>APP/src/app_beacon.c\<close>. The port was handed over to the debug shell: the interrupt handler
  that is compiled only wakes the shell, the one that collects the frames of the receiver is
  kept under \<open>#if 0\<close>. Both are modelled, and \<open>vector\<close> says which one is installed; in the program it
  is always \<open>ShellRx\<close>, because \<open>BeaconRx\<close> stands for code that is not compiled.
\<close>

section \<open>Serial port\<close>

datatype handler = ShellRx | BeaconRx

text \<open>\<open>arriving\<close> is the line: for every exchange the bytes that arrive before its wait ends by
  timeout, and those that arrive after the exchange, before the next one. A line that ends
  is silent from then on.\<close>

record bport =
  uart_buff :: bytes
  write_p :: nat
  Beacon2MCU_Sem :: nat
  SWIFT_UART6_Rev_Sem :: nat
  SWIFT_UART6_Send_Sem :: nat
  vector :: handler
  arriving :: "(bytes \<times> bytes) list"
  commands :: "bytes list"

abbreviation (input) SWIFTUART6BuffSize :: nat where "SWIFTUART6BuffSize \<equiv> 128"

definition SWIFT_UART6_Init :: "bport \<Rightarrow> bport" where
  "SWIFT_UART6_Init p = p\<lparr>uart_buff := replicate 32 0 @ drop 32 (uart_buff p), write_p := 0,
     Beacon2MCU_Sem := 0, SWIFT_UART6_Send_Sem := 1, SWIFT_UART6_Rev_Sem := 0,
     vector := ShellRx\<rparr>"

text \<open>The handler that is compiled: it leaves the byte in the port for the shell.\<close>

definition SWIFT_UART6_IntHandler :: "u8 \<Rightarrow> bport \<Rightarrow> fault + bport" where
  "SWIFT_UART6_IntHandler b p = Inr (p\<lparr>SWIFT_UART6_Rev_Sem := SWIFT_UART6_Rev_Sem p + 1\<rparr>)"

text \<open>The handler under \<open>#if 0\<close> (lines 127 to 157), which is not compiled: no state of the program has it installed. It is modelled to
  say what the exchanges were written for. After a wrap-around of \<open>write_p\<close> the byte before the buffer is read.\<close>

definition Beacon_IntHandler :: "u8 \<Rightarrow> bport \<Rightarrow> fault + bport" where
  "Beacon_IntHandler b p0 =
     (if write_p p0 \<ge> length (uart_buff p0) then Inl OutOfBounds
      else let p1 = p0\<lparr>uart_buff := (uart_buff p0)[write_p p0 := b], write_p := write_p p0 + 1\<rparr>;
               p = (if write_p p1 \<ge> SWIFTUART6BuffSize then p1\<lparr>write_p := 0\<rparr> else p1)
      in if uart_buff p ! 0 = 0x3E then
           if write_p p = 0 then Inl OutOfBounds
           else if uart_buff p ! (write_p p - 1) = 0x0A then
             if write_p p < 2 then Inl OutOfBounds
             else if uart_buff p ! (write_p p - 2) = 0x0D
             then Inr (p\<lparr>Beacon2MCU_Sem := Beacon2MCU_Sem p + 1\<rparr>)
             else Inr p
           else Inr p
         else Inr (p\<lparr>write_p := 0\<rparr>))"

definition uart6_byte :: "u8 \<Rightarrow> bport \<Rightarrow> fault + bport" where
  "uart6_byte b p = (case vector p of ShellRx \<Rightarrow> SWIFT_UART6_IntHandler b p | BeaconRx \<Rightarrow> Beacon_IntHandler b p)"

fun uart6_bytes :: "bytes \<Rightarrow> bport \<Rightarrow> fault + bport" where
  "uart6_bytes [] p = Inr p"
| "uart6_bytes (b # bs) p = bind_f (uart6_byte b p) (uart6_bytes bs)"

definition SWIFT_UART6_SendBuff :: "bytes \<Rightarrow> (unit, bport) st" where
  "SWIFT_UART6_SendBuff b p = (if SWIFT_UART6_Send_Sem p = 0 then Inl Blocked
     else Inr ((), p\<lparr>commands := commands p @ [b]\<rparr>))"

text \<open>The bytes received, copied into an array of 100.\<close>

definition SWIFT_UART6_RecvBuff :: "(bytes, bport) st" where
  "SWIFT_UART6_RecvBuff p = (if write_p p > 100 then Inl OutOfBounds
     else Inr (take (write_p p) (uart_buff p), p\<lparr>write_p := 0\<rparr>))"

text \<open>\<open>BSP_OS_Sem_Pend(&Beacon2MCU_Sem, timeout_ms)\<close>: it returns with the first post, or at once
  when an earlier one is left. The bytes that have not arrived by then are returned.\<close>

fun await_beacon :: "bytes \<Rightarrow> (bool \<times> bytes, bport) st" where
  "await_beacon [] p = (if Beacon2MCU_Sem p > 0 then Inr ((True, []), p\<lparr>Beacon2MCU_Sem := Beacon2MCU_Sem p - 1\<rparr>)
     else Inr ((False, []), p))"
| "await_beacon (b # bs) p = (if Beacon2MCU_Sem p > 0 then Inr ((True, b # bs), p\<lparr>Beacon2MCU_Sem := Beacon2MCU_Sem p - 1\<rparr>)
     else bind_f (uart6_byte b p) (await_beacon bs))"

text \<open>A command and its answer, \<open>None\<close> after a timeout: the part that the four pairs of
  \<open>..CmdSend\<close> and \<open>..ResultGet\<close> have in common.\<close>

definition beacon_exchange :: "bytes \<Rightarrow> (bytes option, bport) st" where
  "beacon_exchange cmd p0 =
     (case (case arriving p0 of [] \<Rightarrow> ([], []) | x # _ \<Rightarrow> x) of (now, later) \<Rightarrow>
        bind_io (SWIFT_UART6_SendBuff cmd) (\<lambda>_.
        bind_io (await_beacon now) (\<lambda>(answered, rest).
        bind_io SWIFT_UART6_RecvBuff (\<lambda>recvbuff. (\<lambda>p.
        bind_f (uart6_bytes (rest @ later) (p\<lparr>arriving := tl (arriving p)\<rparr>)) (\<lambda>p1.
          Inr (if answered then Some recvbuff else None, p1)))))) p0)"

section \<open>Commands and answers\<close>

definition digit :: "u32 \<Rightarrow> u8" where
  "digit d = ucast (d + 0x30)"

definition APP_BEACON_SetFreqCmd :: "u32 \<Rightarrow> bytes" where
  "APP_BEACON_SetFreqCmd freq =
     [0x3C, 0x46, digit (freq div 1000000), digit (freq mod 1000000 div 100000), digit (freq mod 100000 div 10000),
      digit (freq mod 10000 div 1000), 0x2E, digit (freq mod 1000 div 100), digit (freq mod 100 div 10),
      digit (freq mod 10), 0x0D, 0x0A]"

definition APP_BEACON_SetFreqResult :: "bytes option \<Rightarrow> status" where
  "APP_BEACON_SetFreqResult r = (case r of None \<Rightarrow> FAIL | Some b \<Rightarrow>
     if length b \<noteq> 4 then FAIL else if b ! 0 \<noteq> 0x3E then FAIL
     else if b ! 1 = 0x54 then SUCC else FAIL)"

definition APP_BEACON_QueBeaconCheckCmd :: bytes where
  "APP_BEACON_QueBeaconCheckCmd = [0x7B, 0x43, 0x0D, 0x0A]"

text \<open>The three results of the check.\<close>

datatype check = Works | Alarmed | NoAnswer

definition APP_BEACON_QueBeaconCheckResult :: "bytes option \<Rightarrow> check" where
  "APP_BEACON_QueBeaconCheckResult r = (case r of None \<Rightarrow> NoAnswer | Some b \<Rightarrow>
     if length b \<noteq> 4 then NoAnswer else if b ! 0 \<noteq> 0x3E then NoAnswer
     else if b ! 1 = 0x56 then Works else Alarmed)"

definition APP_BEACON_SetAGCOutputRangeCmd :: "u8 \<Rightarrow> bytes" where
  "APP_BEACON_SetAGCOutputRangeCmd flag = [0x3C, 0x44, flag mod 10 + 0x30, 0x0D, 0x0A]"

definition APP_BEACON_SetAGCOutputRangeResult :: "bytes option \<Rightarrow> u8 \<Rightarrow> status" where
  "APP_BEACON_SetAGCOutputRangeResult r flag = (case r of None \<Rightarrow> FAIL | Some b \<Rightarrow>
     if length b \<noteq> 5 then FAIL else if b ! 0 \<noteq> 0x3E then FAIL
     else if b ! 1 = 0x38 \<and> b ! 2 = 0x35 \<and> flag = 0 then SUCC
     else if b ! 1 = 0x37 \<and> b ! 2 = 0x38 \<and> flag = 1 then SUCC
     else if b ! 1 = 0x37 \<and> b ! 2 = 0x30 \<and> flag = 2 then SUCC
     else FAIL)"

definition APP_BEACON_QueAGCCmd :: bytes where
  "APP_BEACON_QueAGCCmd = [0x3C, 0x41, 0x53, 0x4B, 0x0D, 0x0A]"

text \<open>\<open>(recvbuff[i] - 0x30) * k\<close>: only the first digit is checked to be one, and the product wraps.\<close>

definition digit_at :: "bytes \<Rightarrow> nat \<Rightarrow> u32 \<Rightarrow> u32" where
  "digit_at b i k = (ucast (b ! i) - 0x30) * k"

text \<open>The reading in mV and in dB, \<open>None\<close> for \<open>FAIL\<close>: then the caller does not look at them.\<close>

definition APP_BEACON_QueAGCResult :: "bytes option \<Rightarrow> (u32 \<times> u32) option" where
  "APP_BEACON_QueAGCResult r = (case r of None \<Rightarrow> None | Some b \<Rightarrow>
     if length b < 10 then None else if b ! 0 \<noteq> 0x3E then None
     else if b ! 1 \<noteq> 0x44 \<and> b ! 1 \<noteq> 0x45 then None
     else if b ! 1 = 0x44 then Some (0, 0)
     else if b ! 2 > 0x39 \<or> b ! 2 < 0x30 then None
     else Some (digit_at b 2 1000 + digit_at b 4 100 + digit_at b 5 10,
       if length b = 10 then digit_at b 6 1000 + digit_at b 7 100
       else digit_at b 6 1000 + digit_at b 7 100 + digit_at b 8 10))"

section \<open>Operations\<close>

record bea =
  watch :: mon
  port6 :: bport
  Beacon_Err_cnt :: u8
  APP_Beacon_Send_Sem :: nat

type_synonym 'a bio = "('a, bea) st"

abbreviation (input) LOG_WARN_BEACON_SET_FREQ_FAIL :: u32 where "LOG_WARN_BEACON_SET_FREQ_FAIL \<equiv> 0x010202"
abbreviation (input) LOG_WARN_BEACON_SET_GAIN_FAIL :: u32 where "LOG_WARN_BEACON_SET_GAIN_FAIL \<equiv> 0x010203"

definition change_b :: "(bea \<Rightarrow> bea) \<Rightarrow> unit bio" where
  "change_b f s = Inr ((), f s)"

definition on_port6 :: "('a, bport) st \<Rightarrow> 'a bio" where
  "on_port6 m s = bind_f (m (port6 s)) (\<lambda>(x, p). Inr (x, s\<lparr>port6 := p\<rparr>))"

definition beacon :: "bea \<Rightarrow> strBeaconInfo" where
  "beacon s = BeaconInfo (DeviceInfo (board (watch s)))"

definition set_beacon :: "(strBeaconInfo \<Rightarrow> strBeaconInfo) \<Rightarrow> bea \<Rightarrow> bea" where
  "set_beacon f s = s\<lparr>watch := set_info (\<lambda>i. i\<lparr>BeaconInfo := f (BeaconInfo i)\<rparr>) (watch s)\<rparr>"

definition set_bconf :: "(strBeaconConf \<Rightarrow> strBeaconConf) \<Rightarrow> bea \<Rightarrow> bea" where
  "set_bconf f = set_beacon (\<lambda>i. i\<lparr>BeaconConf := f (BeaconConf i)\<rparr>)"

definition set_bstat :: "(strBeaconStat \<Rightarrow> strBeaconStat) \<Rightarrow> bea \<Rightarrow> bea" where
  "set_bstat f = set_beacon (\<lambda>i. i\<lparr>BeaconStat := f (BeaconStat i)\<rparr>)"

definition set_bdata :: "u32 \<Rightarrow> u32 \<Rightarrow> bea \<Rightarrow> bea" where
  "set_bdata mv db = set_beacon (\<lambda>i. i\<lparr>BeaconData := (BeaconData i)\<lparr>data_mv := mv, data_dbm := db\<rparr>\<rparr>)"

definition set_bcur :: "(strACUCurrSta \<Rightarrow> strACUCurrSta) \<Rightarrow> bea \<Rightarrow> bea" where
  "set_bcur f s = s\<lparr>watch := set_cur f (watch s)\<rparr>"

definition set_balarm :: "(u8 \<Rightarrow> u8) \<Rightarrow> bea \<Rightarrow> bea" where
  "set_balarm f = set_bcur (\<lambda>c. c\<lparr>dev_alarm_buff := (dev_alarm_buff c)[1 := f (dev_alarm_buff c ! 1)]\<rparr>)"

definition set_err :: "u8 \<Rightarrow> bea \<Rightarrow> bea" where
  "set_err n s = s\<lparr>Beacon_Err_cnt := n\<rparr>"

definition warn :: "u32 \<Rightarrow> bea \<Rightarrow> bea" where
  "warn code s = s\<lparr>watch := APP_WarnLOG_SaveCode code (watch s)\<rparr>"

definition beacon_pend :: "unit bio" where
  "beacon_pend s = (if APP_Beacon_Send_Sem s = 0 then Inl Blocked
     else Inr ((), s\<lparr>APP_Beacon_Send_Sem := APP_Beacon_Send_Sem s - 1\<rparr>))"

definition beacon_post :: "bea \<Rightarrow> bea" where
  "beacon_post s = s\<lparr>APP_Beacon_Send_Sem := APP_Beacon_Send_Sem s + 1\<rparr>"

definition freq_set :: "u32 \<Rightarrow> bea \<Rightarrow> bea" where
  "freq_set freq s =
     (let s1 = set_err 0 (set_bstat (\<lambda>t. t\<lparr>bs_link_stat := COMM_LINK\<rparr>) (set_bconf (\<lambda>c. c\<lparr>bc_work_freq := freq\<rparr>) s));
          s2 = beacon_post (set_bstat (\<lambda>t. t\<lparr>bs_dev_stat := bs_dev_stat t AND 0x01\<rparr>) s1)
      in set_balarm (\<lambda>a. a AND NOT 0x02) s2)"

definition freq_failed :: "bea \<Rightarrow> bea" where
  "freq_failed s =
     (let s1 = beacon_post (set_bstat (\<lambda>t. t\<lparr>bs_comm_stat := 1\<rparr>) s);
          s2 = set_bstat (\<lambda>t. t\<lparr>bs_dev_stat := bs_dev_stat t OR 0x01\<rparr>) s1
      in warn LOG_WARN_BEACON_SET_FREQ_FAIL (set_balarm (\<lambda>a. a OR 0x02) s2))"

definition APP_BEACON_SetFreq :: "u32 \<Rightarrow> status bio" where
  "APP_BEACON_SetFreq freq =
     bind_io beacon_pend (\<lambda>_.
       if freq < 950000 \<or> freq > 2150000 then bind_io (change_b beacon_post) (\<lambda>_. ret_io FAIL)
       else bind_io (on_port6 (beacon_exchange (APP_BEACON_SetFreqCmd freq))) (\<lambda>r.
         if APP_BEACON_SetFreqResult r = SUCC then bind_io (change_b (freq_set freq)) (\<lambda>_. ret_io SUCC)
         else bind_io (change_b freq_failed) (\<lambda>_. ret_io FAIL)))"

text \<open>One more failure: \<open>lost\<close> acts on the new count, which then starts again from 20.\<close>

definition count_failure :: "(u8 \<Rightarrow> bea \<Rightarrow> bea) \<Rightarrow> bea \<Rightarrow> bea" where
  "count_failure lost s =
     (let n = Beacon_Err_cnt s + 1; s1 = lost n (set_err n s)
      in beacon_post (if n > 100 then set_err 20 s1 else s1))"

definition check_lost :: "u8 \<Rightarrow> bea \<Rightarrow> bea" where
  "check_lost n = (if n = 10 then set_bstat (\<lambda>t. t\<lparr>bs_comm_stat := 1\<rparr>) else (\<lambda>s. s))"

definition answered_well :: "bea \<Rightarrow> bea" where
  "answered_well s = set_bstat (\<lambda>t. t\<lparr>bs_comm_stat := 0\<rparr>) (set_err 0 s)"

definition APP_BEACON_QueBeaconCheck :: "check bio" where
  "APP_BEACON_QueBeaconCheck =
     bind_io beacon_pend (\<lambda>_.
     bind_io (on_port6 (beacon_exchange APP_BEACON_QueBeaconCheckCmd)) (\<lambda>r.
       case APP_BEACON_QueBeaconCheckResult r of
         Works \<Rightarrow> bind_io (change_b (\<lambda>s. beacon_post (answered_well
           (set_bstat (\<lambda>t. t\<lparr>bs_link_stat := COMM_LINK\<rparr>) s)))) (\<lambda>_. ret_io Works)
       | Alarmed \<Rightarrow> bind_io (change_b (\<lambda>s. beacon_post (answered_well
           (set_bstat (\<lambda>t. t\<lparr>bs_dev_stat := WORKSTA_ALARM\<rparr>) s)))) (\<lambda>_. ret_io Alarmed)
       | NoAnswer \<Rightarrow> bind_io (change_b (count_failure check_lost)) (\<lambda>_. ret_io NoAnswer)))"

definition range_flag :: "u8 \<Rightarrow> u8" where
  "range_flag f = (if f = 0x85 then 0 else if f = 0x78 then 1 else 2)"

definition range_set :: "u8 \<Rightarrow> bea \<Rightarrow> bea" where
  "range_set flag s =
     (let s1 = set_bstat (\<lambda>t. t\<lparr>bs_link_stat := COMM_LINK\<rparr>) (set_bconf (\<lambda>c. c\<lparr>bc_agc_output_range := flag\<rparr>) s);
          s2 = set_bstat (\<lambda>t. t\<lparr>bs_dev_stat := bs_dev_stat t AND NOT 0x02\<rparr>) (beacon_post (answered_well s1))
      in set_balarm (\<lambda>a. a AND NOT 0x04) s2)"

definition range_failed :: "bea \<Rightarrow> bea" where
  "range_failed s =
     warn LOG_WARN_BEACON_SET_GAIN_FAIL (set_balarm (\<lambda>a. a OR 0x04)
       (set_bstat (\<lambda>t. t\<lparr>bs_dev_stat := bs_dev_stat t OR 0x02\<rparr>) (beacon_post s)))"

definition APP_BEACON_SetAGCOutputRange :: "u8 \<Rightarrow> status bio" where
  "APP_BEACON_SetAGCOutputRange flag =
     bind_io beacon_pend (\<lambda>_.
     bind_io (on_port6 (beacon_exchange (APP_BEACON_SetAGCOutputRangeCmd (range_flag flag)))) (\<lambda>r.
       if APP_BEACON_SetAGCOutputRangeResult r (range_flag flag) = SUCC
       then bind_io (change_b (range_set flag)) (\<lambda>_. ret_io SUCC)
       else bind_io (change_b range_failed) (\<lambda>_. ret_io FAIL)))"

text \<open>\<open>(-agc_db)/100\<close> in signed arithmetic, truncated towards zero.\<close>

definition rxpower_db :: "u32 \<Rightarrow> fp32" where
  "rxpower_db db = (let x = - sint db in f32 (of_int (sgn x * (\<bar>x\<bar> div 100))))"

definition publish_power :: "bea \<Rightarrow> bea" where
  "publish_power s =
     (let d = BeaconData (beacon s)
      in set_bcur (\<lambda>c. c\<lparr>beacon_rxpower_mv := fp_of_u32 (data_mv d), beacon_rxpower_db := rxpower_db (data_dbm d)\<rparr>) s)"

definition agc_read :: "u32 \<Rightarrow> u32 \<Rightarrow> bea \<Rightarrow> bea" where
  "agc_read mv db s =
     beacon_post (publish_power (answered_well
       (set_bstat (\<lambda>t. t\<lparr>bs_dev_stat := WORKSTA_NORMAL, bs_link_stat := COMM_LINK\<rparr>) (set_bdata mv db s))))"

definition agc_lost :: "u8 \<Rightarrow> bea \<Rightarrow> bea" where
  "agc_lost n s = (if n \<ge> 10
     then set_bstat (\<lambda>t. t\<lparr>bs_comm_stat := 1, bs_link_stat := COMM_UNLINK\<rparr>) (set_bdata 0 8600 s)
     else s)"

definition APP_BEACON_QueAGC :: "status bio" where
  "APP_BEACON_QueAGC =
     bind_io beacon_pend (\<lambda>_.
     bind_io (on_port6 (beacon_exchange APP_BEACON_QueAGCCmd)) (\<lambda>r.
       case APP_BEACON_QueAGCResult r of
         Some (mv, db) \<Rightarrow> bind_io (change_b (agc_read mv db)) (\<lambda>_. ret_io SUCC)
       | None \<Rightarrow> bind_io (change_b (count_failure agc_lost)) (\<lambda>_. ret_io FAIL)))"

definition APP_BEACON_Init :: "status bio" where
  "APP_BEACON_Init =
     bind_io (change_b (\<lambda>s. s\<lparr>port6 := SWIFT_UART6_Init (port6 s), APP_Beacon_Send_Sem := 1\<rparr>)) (\<lambda>_. APP_BEACON_QueAGC)"

end
