(* ===== verification/BeaconProps.thy ===== *)
theory BeaconProps
  imports Beacon MonitorLaws
begin

text \<open>
  Properties of the exchange with the beacon receiver: under the handler that is compiled, that of the shell, no
  exchange is answered; and no sequence of operations blocks. What the exchanges were written for is
  shown for the handler under \<open>#if 0\<close>, \<open>vector p = BeaconRx\<close>: frames are collected and read exactly, late
  answers, frequencies.
\<close>

section \<open>The receiver's frames\<close>

definition idle :: "bport \<Rightarrow> bool" where
  "idle p \<longleftrightarrow> vector p = BeaconRx \<and> write_p p = 0 \<and> Beacon2MCU_Sem p = 0 \<and> length (uart_buff p) = 128
     \<and> SWIFT_UART6_Send_Sem p > 0"

text \<open>A port that holds a frame nobody has taken yet.\<close>

definition holds :: "bytes \<Rightarrow> bport \<Rightarrow> bool" where
  "holds f p \<longleftrightarrow> vector p = BeaconRx \<and> write_p p = length f \<and> Beacon2MCU_Sem p = 1 \<and> length (uart_buff p) = 128
     \<and> SWIFT_UART6_Send_Sem p > 0 \<and> take (length f) (uart_buff p) = f"

lemma Beacon_noise:
  "b \<noteq> 0x3E \<Longrightarrow> write_p p = 0 \<Longrightarrow> length (uart_buff p) = 128 \<Longrightarrow>
   Beacon_IntHandler b p = Inr (p\<lparr>uart_buff := (uart_buff p)[0 := b], write_p := 0\<rparr>)"
  by (simp add: Beacon_IntHandler_def Let_def)

lemma Beacon_head:
  "write_p p = 0 \<Longrightarrow> length (uart_buff p) = 128 \<Longrightarrow>
   Beacon_IntHandler 0x3E p = Inr (p\<lparr>uart_buff := (uart_buff p)[0 := 0x3E], write_p := 1\<rparr>)"
  by (simp add: Beacon_IntHandler_def Let_def)

lemma Beacon_body:
  assumes "length (uart_buff p) = 128" "0 < write_p p" "write_p p < 127" "uart_buff p ! 0 = 0x3E"
  shows "Beacon_IntHandler b p =
    Inr ((p\<lparr>uart_buff := (uart_buff p)[write_p p := b], write_p := write_p p + 1\<rparr>)
         \<lparr>Beacon2MCU_Sem := Beacon2MCU_Sem p + (if b = 0x0A \<and> uart_buff p ! (write_p p - 1) = 0x0D then 1 else 0)\<rparr>)"
  using assms by (auto simp: Beacon_IntHandler_def Let_def nth_list_update)


text \<open>Noise before a frame is dropped byte by byte.\<close>

lemma await_noise:
  assumes "0x3E \<notin> set noise" "vector p = BeaconRx" "write_p p = 0" "Beacon2MCU_Sem p = 0" "length (uart_buff p) = 128"
  shows "\<exists>ub. length ub = 128 \<and> await_beacon (noise @ bs) p = await_beacon bs (p\<lparr>uart_buff := ub\<rparr>)"
  using assms
proof (induction noise arbitrary: p)
  case Nil
  show ?case by (rule exI [of _ "uart_buff p"]) (use Nil in simp)
next
  case (Cons b noise)
  let ?q = "p\<lparr>uart_buff := (uart_buff p)[0 := b]\<rparr>"
  have "uart6_byte b p = Inr ?q"
    using Cons.prems Beacon_noise [of b p] by (cases p) (auto simp: uart6_byte_def)
  moreover obtain ub where "length ub = 128" "await_beacon (noise @ bs) ?q = await_beacon bs (?q\<lparr>uart_buff := ub\<rparr>)"
    using Cons.IH [of ?q] Cons.prems by auto
  ultimately show ?case using Cons.prems(4) by (auto simp: bind_f_def)
qed

lemma bytes_noise:
  assumes "0x3E \<notin> set noise" "vector p = BeaconRx" "write_p p = 0" "length (uart_buff p) = 128"
  shows "\<exists>ub. length ub = 128 \<and> uart6_bytes noise p = Inr (p\<lparr>uart_buff := ub\<rparr>)"
  using assms
proof (induction noise arbitrary: p)
  case Nil
  show ?case by (rule exI [of _ "uart_buff p"]) (use Nil in simp)
next
  case (Cons b noise)
  let ?q = "p\<lparr>uart_buff := (uart_buff p)[0 := b]\<rparr>"
  have "uart6_byte b p = Inr ?q"
    using Cons.prems Beacon_noise [of b p] by (cases p) (auto simp: uart6_byte_def)
  moreover obtain ub where "length ub = 128" "uart6_bytes noise ?q = Inr (?q\<lparr>uart_buff := ub\<rparr>)"
    using Cons.IH [of ?q] Cons.prems by auto
  ultimately show ?case by auto
qed

text \<open>The bytes of a frame are collected; the frame counts with its line feed.\<close>

lemma take_grow: "n < length xs \<Longrightarrow> take n xs = ys \<Longrightarrow> take (Suc n) (xs[n := b]) = ys @ [b]"
  by (auto simp: take_Suc_conv_app_nth)

lemma frame_body:
  assumes "0x0A \<notin> set body" "vector p = BeaconRx" "length (uart_buff p) = 128" "0 < write_p p"
    "write_p p + length body < 127" "uart_buff p ! 0 = 0x3E"
  shows "\<exists>ub. length ub = 128 \<and> ub ! 0 = 0x3E \<and> take (write_p p + length body) ub = take (write_p p) (uart_buff p) @ body
    \<and> (\<forall>bs. uart6_bytes (body @ bs) p = uart6_bytes bs (p\<lparr>uart_buff := ub, write_p := write_p p + length body\<rparr>))
    \<and> (Beacon2MCU_Sem p = 0 \<longrightarrow>
       (\<forall>bs. await_beacon (body @ bs) p = await_beacon bs (p\<lparr>uart_buff := ub, write_p := write_p p + length body\<rparr>)))"
  using assms
proof (induction body arbitrary: p)
  case Nil
  show ?case by (rule exI [of _ "uart_buff p"]) (use Nil in simp)
next
  case (Cons b body)
  let ?q = "p\<lparr>uart_buff := (uart_buff p)[write_p p := b], write_p := write_p p + 1\<rparr>"
  have q: "uart6_byte b p = Inr ?q"
    using Cons.prems Beacon_body [of p b] by (cases p) (auto simp: uart6_byte_def)
  have "take (write_p ?q) (uart_buff ?q) = take (write_p p) (uart_buff p) @ [b]"
    using Cons.prems by (simp add: take_Suc_conv_app_nth)
  moreover have "uart_buff ?q ! 0 = 0x3E" using Cons.prems by (simp add: nth_list_update)
  ultimately obtain ub where ub: "length ub = 128" "ub ! 0 = 0x3E"
    "take (write_p p + length (b # body)) ub = take (write_p p) (uart_buff p) @ b # body"
    "\<And>bs. uart6_bytes (body @ bs) ?q = uart6_bytes bs (p\<lparr>uart_buff := ub, write_p := write_p p + length (b # body)\<rparr>)"
    "\<And>bs. Beacon2MCU_Sem p = 0 \<Longrightarrow>
     await_beacon (body @ bs) ?q = await_beacon bs (p\<lparr>uart_buff := ub, write_p := write_p p + length (b # body)\<rparr>)"
    using Cons.IH [of ?q] Cons.prems by auto
  then show ?case using q by (intro exI [of _ ub]) auto
qed

definition framed :: "bytes \<Rightarrow> bool" where
  "framed f \<longleftrightarrow> (\<exists>body. f = 0x3E # body @ [0x0D, 0x0A] \<and> 0x0A \<notin> set body \<and> length body < 90)"

lemma frame_collected:
  assumes f: "framed f" and p: "vector p = BeaconRx" "write_p p = 0" "length (uart_buff p) = 128"
  shows "\<exists>ub. length ub = 128 \<and> take (length f) ub = f \<and>
    uart6_bytes f p = Inr (p\<lparr>uart_buff := ub, write_p := length f, Beacon2MCU_Sem := Beacon2MCU_Sem p + 1\<rparr>) \<and>
    (Beacon2MCU_Sem p = 0 \<longrightarrow>
     await_beacon (f @ bs) p = Inr ((True, bs), p\<lparr>uart_buff := ub, write_p := length f, Beacon2MCU_Sem := 0\<rparr>))"
proof -
  obtain body where body: "f = 0x3E # body @ [0x0D, 0x0A]" "0x0A \<notin> set body" "length body < 90"
    using f by (auto simp: framed_def)
  let ?q = "p\<lparr>uart_buff := (uart_buff p)[0 := 0x3E], write_p := 1\<rparr>"
  have 1: "uart6_byte 0x3E p = Inr ?q" using p Beacon_head [of p] by (simp add: uart6_byte_def)
  have t: "take 1 (uart_buff ?q) = [0x3E]" using p(3) by (cases "uart_buff p") simp_all
  obtain ub where ub: "length ub = 128" "ub ! 0 = 0x3E" "take (length body + 2) ub = 0x3E # body @ [0x0D]"
    "\<And>cs. uart6_bytes (body @ [0x0D] @ cs) ?q = uart6_bytes cs (p\<lparr>uart_buff := ub, write_p := length body + 2\<rparr>)"
    "\<And>cs. Beacon2MCU_Sem p = 0 \<Longrightarrow> await_beacon (body @ [0x0D] @ cs) ?q
      = await_beacon cs (p\<lparr>uart_buff := ub, write_p := length body + 2\<rparr>)"
  proof -
    have "write_p ?q + length (body @ [0x0D]) < 127" "0x0A \<notin> set (body @ [0x0D])" "uart_buff ?q ! 0 = 0x3E"
      using body(2,3) p(3) by (cases "uart_buff p"; simp)+
    then obtain ub where "length ub = 128" "ub ! 0 = 0x3E" "take (length body + 2) ub = 0x3E # body @ [0x0D]"
      "\<forall>cs. uart6_bytes (body @ [0x0D] @ cs) ?q = uart6_bytes cs (p\<lparr>uart_buff := ub, write_p := length body + 2\<rparr>)"
      "Beacon2MCU_Sem p = 0 \<longrightarrow> (\<forall>cs. await_beacon (body @ [0x0D] @ cs) ?q
        = await_beacon cs (p\<lparr>uart_buff := ub, write_p := length body + 2\<rparr>))"
      using frame_body [of "body @ [0x0D]" ?q] p t [unfolded One_nat_def] by auto
    then show ?thesis by (intro that [of ub]) simp_all
  qed
  let ?r = "p\<lparr>uart_buff := ub, write_p := length body + 2\<rparr>"
  have last: "ub ! (length body + 1) = 0x0D"
  proof -
    have "take (length body + 2) ub ! (length body + 1) = 0x0D" unfolding ub(3) by (simp add: nth_append)
    then show ?thesis by simp
  qed
  let ?e = "ub[length body + 2 := 0x0A]"
  have 2: "uart6_byte 0x0A ?r = Inr (p\<lparr>uart_buff := ?e, write_p := length f, Beacon2MCU_Sem := Beacon2MCU_Sem p + 1\<rparr>)"
    using Beacon_body [of ?r "0x0A"] ub(1,2) last p body(1,3) by (simp add: uart6_byte_def)
  have "take (length f) ?e = f" using ub(1,3) body(1,3) by (simp add: take_Suc_conv_app_nth)
  moreover have "uart6_bytes f p = Inr (p\<lparr>uart_buff := ?e, write_p := length f, Beacon2MCU_Sem := Beacon2MCU_Sem p + 1\<rparr>)"
    using 1 2 ub(4) [of "[0x0A]"] body(1) by simp
  moreover have "await_beacon (f @ bs) p = Inr ((True, bs), p\<lparr>uart_buff := ?e, write_p := length f, Beacon2MCU_Sem := 0\<rparr>)"
    if "Beacon2MCU_Sem p = 0"
  proof -
    have "await_beacon (f @ bs) p = await_beacon (body @ [0x0D] @ 0x0A # bs) ?q" using 1 that body(1) by simp
    also have "\<dots> = await_beacon (0x0A # bs) ?r" by (rule ub(5) [OF that])
    also have "\<dots> = await_beacon bs (p\<lparr>uart_buff := ?e, write_p := length f, Beacon2MCU_Sem := 1\<rparr>)"
      using 2 that by simp
    also have "\<dots> = Inr ((True, bs), p\<lparr>uart_buff := ?e, write_p := length f, Beacon2MCU_Sem := 0\<rparr>)"
      by (cases bs) simp_all
    finally show ?thesis .
  qed
  ultimately show ?thesis using ub(1) by (intro exI [of _ ?e]) simp
qed


text \<open>An answer in time: noise, then the frame. The port is idle again.\<close>

lemma exchange_in_time:
  assumes p: "idle p" "arriving p = (noise @ f, later) # ls" and f: "framed f" "0x3E \<notin> set noise" "0x3E \<notin> set later"
  shows "\<exists>p'. beacon_exchange cmd p = Inr (Some f, p') \<and> idle p' \<and> arriving p' = ls \<and> commands p' = commands p @ [cmd]"
proof -
  let ?p1 = "p\<lparr>commands := commands p @ [cmd]\<rparr>"
  obtain ub where ub: "length ub = 128" "await_beacon (noise @ f) ?p1 = await_beacon f (?p1\<lparr>uart_buff := ub\<rparr>)"
    using await_noise [of noise ?p1 f] p(1) f(2) by (auto simp: idle_def)
  let ?p2 = "?p1\<lparr>uart_buff := ub\<rparr>"
  obtain uc where uc: "length uc = 128" "take (length f) uc = f"
    "await_beacon (f @ []) ?p2 = Inr ((True, []), ?p2\<lparr>uart_buff := uc, write_p := length f, Beacon2MCU_Sem := 0\<rparr>)"
    using frame_collected [OF f(1), of ?p2 "[]"] p(1) ub(1) by (auto simp: idle_def)
  let ?p3 = "?p2\<lparr>uart_buff := uc, Beacon2MCU_Sem := 0, write_p := 0, arriving := ls\<rparr>"
  obtain ud where "length ud = 128" "uart6_bytes later ?p3 = Inr (?p3\<lparr>uart_buff := ud\<rparr>)"
    using bytes_noise [OF f(3), of ?p3] p(1) uc(1) by (auto simp: idle_def)
  moreover have "length f \<le> 100" using f(1) by (auto simp: framed_def)
  ultimately show ?thesis
    using p ub uc by (auto simp: idle_def beacon_exchange_def SWIFT_UART6_SendBuff_def SWIFT_UART6_RecvBuff_def bind_io_def)
qed

text \<open>A silent or late receiver: the frame that comes after the wait is held for the next exchange.\<close>

lemma exchange_late:
  assumes p: "idle p" "arriving p = ([], f) # ls" and f: "framed f"
  shows "\<exists>p'. beacon_exchange cmd p = Inr (None, p') \<and> holds f p' \<and> arriving p' = ls"
proof -
  let ?p3 = "p\<lparr>commands := commands p @ [cmd], write_p := 0, arriving := ls\<rparr>"
  obtain ud where "length ud = 128" "take (length f) ud = f"
    "uart6_bytes f ?p3 = Inr (?p3\<lparr>uart_buff := ud, write_p := length f, Beacon2MCU_Sem := 1\<rparr>)"
    using frame_collected [OF f, of ?p3] p(1) by (auto simp: idle_def)
  then show ?thesis
    using p by (auto simp: idle_def holds_def beacon_exchange_def SWIFT_UART6_SendBuff_def SWIFT_UART6_RecvBuff_def bind_io_def)
qed

lemma exchange_held:
  assumes p: "holds g p" "arriving p = ([], f) # ls" and f: "framed f" "framed g"
  shows "\<exists>p'. beacon_exchange cmd p = Inr (Some g, p') \<and> holds f p' \<and> arriving p' = ls"
proof -
  let ?p3 = "p\<lparr>commands := commands p @ [cmd], Beacon2MCU_Sem := 0, write_p := 0, arriving := ls\<rparr>"
  obtain ud where "length ud = 128" "take (length f) ud = f"
    "uart6_bytes f ?p3 = Inr (?p3\<lparr>uart_buff := ud, write_p := length f, Beacon2MCU_Sem := 1\<rparr>)"
    using frame_collected [OF f(1), of ?p3] p(1) by (auto simp: holds_def)
  moreover have "length g \<le> 100" using f(2) by (auto simp: framed_def)
  ultimately show ?thesis
    using p by (auto simp: holds_def beacon_exchange_def SWIFT_UART6_SendBuff_def SWIFT_UART6_RecvBuff_def bind_io_def)
qed

text \<open>The handler of the shell: no exchange is answered.\<close>

definition deaf :: "bport \<Rightarrow> bool" where
  "deaf p \<longleftrightarrow> vector p = ShellRx \<and> write_p p = 0 \<and> Beacon2MCU_Sem p = 0 \<and> SWIFT_UART6_Send_Sem p > 0"

lemma deaf_bytes: "deaf p \<Longrightarrow> \<exists>n. uart6_bytes bs p = Inr (p\<lparr>SWIFT_UART6_Rev_Sem := n\<rparr>)"
proof (induction bs arbitrary: p)
  case Nil
  show ?case by (rule exI [of _ "SWIFT_UART6_Rev_Sem p"]) simp
next
  case (Cons b bs)
  then show ?case
    using Cons.IH [of "p\<lparr>SWIFT_UART6_Rev_Sem := SWIFT_UART6_Rev_Sem p + 1\<rparr>"]
    by (simp add: uart6_byte_def SWIFT_UART6_IntHandler_def deaf_def)
qed

lemma deaf_await: "deaf p \<Longrightarrow> \<exists>n. await_beacon bs p = Inr ((False, []), p\<lparr>SWIFT_UART6_Rev_Sem := n\<rparr>)"
proof (induction bs arbitrary: p)
  case Nil
  show ?case by (rule exI [of _ "SWIFT_UART6_Rev_Sem p"]) (use Nil in \<open>simp add: deaf_def\<close>)
next
  case (Cons b bs)
  then show ?case
    using Cons.IH [of "p\<lparr>SWIFT_UART6_Rev_Sem := SWIFT_UART6_Rev_Sem p + 1\<rparr>"]
    by (simp add: uart6_byte_def SWIFT_UART6_IntHandler_def deaf_def)
qed

lemma exchange_deaf:
  assumes p: "deaf p"
  shows "\<exists>p'. beacon_exchange cmd p = Inr (None, p') \<and> deaf p'"
proof -
  obtain now later where x: "(case arriving p of [] \<Rightarrow> ([], []) | x # _ \<Rightarrow> x) = (now, later)" by fastforce
  let ?p1 = "p\<lparr>commands := commands p @ [cmd]\<rparr>"
  have d1: "deaf ?p1" using p by (simp add: deaf_def)
  obtain n where n: "await_beacon now ?p1 = Inr ((False, []), ?p1\<lparr>SWIFT_UART6_Rev_Sem := n\<rparr>)"
    using deaf_await [OF d1] by blast
  let ?p2 = "?p1\<lparr>SWIFT_UART6_Rev_Sem := n, write_p := 0, arriving := tl (arriving p)\<rparr>"
  have d2: "deaf ?p2" using p by (simp add: deaf_def)
  obtain m where m: "uart6_bytes later ?p2 = Inr (?p2\<lparr>SWIFT_UART6_Rev_Sem := m\<rparr>)"
    using deaf_bytes [OF d2] by blast
  have "beacon_exchange cmd p = Inr (None, ?p2\<lparr>SWIFT_UART6_Rev_Sem := m\<rparr>)"
    using p n m by (simp add: beacon_exchange_def x SWIFT_UART6_SendBuff_def SWIFT_UART6_RecvBuff_def bind_io_def deaf_def)
  moreover have "deaf (?p2\<lparr>SWIFT_UART6_Rev_Sem := m\<rparr>)" using p by (simp add: deaf_def)
  ultimately show ?thesis by blast
qed


section \<open>Operations in terms of their exchange\<close>

lemmas beacon_defs = set_beacon_def set_bconf_def set_bstat_def set_bdata_def set_bcur_def set_balarm_def set_err_def
  warn_def beacon_post_def beacon_def board_def cur_def set_info_def set_cur_def upd_info_def upd_sta_def
  APP_WarnLOG_SaveCode_def answered_well_def count_failure_def

lemmas op_defs = beacon_pend_def change_b_def on_port6_def bind_io_def

lemma QueAGC_read:
  assumes "0 < APP_Beacon_Send_Sem s" "beacon_exchange APP_BEACON_QueAGCCmd (port6 s) = Inr (r, p)"
    "APP_BEACON_QueAGCResult r = Some (mv, db)"
  shows "APP_BEACON_QueAGC s
    = Inr (SUCC, agc_read mv db (s\<lparr>APP_Beacon_Send_Sem := APP_Beacon_Send_Sem s - 1, port6 := p\<rparr>))"
  using assms by (simp add: APP_BEACON_QueAGC_def op_defs)

lemma QueAGC_fail:
  assumes "0 < APP_Beacon_Send_Sem s" "beacon_exchange APP_BEACON_QueAGCCmd (port6 s) = Inr (r, p)"
    "APP_BEACON_QueAGCResult r = None"
  shows "APP_BEACON_QueAGC s
    = Inr (FAIL, count_failure agc_lost (s\<lparr>APP_Beacon_Send_Sem := APP_Beacon_Send_Sem s - 1, port6 := p\<rparr>))"
  using assms by (simp add: APP_BEACON_QueAGC_def op_defs)

lemma agc_read_effect [simp]:
  "port6 (agc_read mv db s) = port6 s"
  "APP_Beacon_Send_Sem (agc_read mv db s) = APP_Beacon_Send_Sem s + 1"
  "Beacon_Err_cnt (agc_read mv db s) = 0"
  "bs_link_stat (BeaconStat (beacon (agc_read mv db s))) = COMM_LINK"
  "beacon_rxpower_mv (cur (watch (agc_read mv db s))) = fp_of_u32 mv"
  "beacon_rxpower_db (cur (watch (agc_read mv db s))) = rxpower_db db"
  by (simp_all add: agc_read_def publish_power_def beacon_defs Let_def)

lemma agc_lost_effect [simp]:
  "port6 (count_failure agc_lost s) = port6 s"
  "APP_Beacon_Send_Sem (count_failure agc_lost s) = APP_Beacon_Send_Sem s + 1"
  "ACUCurrSta (board (watch (count_failure agc_lost s))) = ACUCurrSta (board (watch s))"
  "Beacon_Err_cnt (count_failure agc_lost s) = (let n = Beacon_Err_cnt s + 1 in if n > 100 then 20 else n)"
  "bs_link_stat (BeaconStat (beacon (count_failure agc_lost s)))
    = (if Beacon_Err_cnt s + 1 \<ge> 10 then COMM_UNLINK else bs_link_stat (BeaconStat (beacon s)))"
  by (simp_all add: agc_lost_def beacon_defs Let_def)

section \<open>What a reading says\<close>

text \<open>The answer of a working receiver: \<open>v\<close> hundredths of a volt and \<open>w\<close> tens of the unit in
  which the attenuation is counted, three digits each.\<close>

definition dig :: "nat \<Rightarrow> u8" where
  "dig d = of_nat (d mod 10 + 48)"

definition agc_answer :: "nat \<Rightarrow> nat \<Rightarrow> bytes" where
  "agc_answer v w = [0x3E, 0x45, dig (v div 100), 0x2E, dig (v div 10), dig v,
     dig (w div 100), dig (w div 10), dig w, 0x0D, 0x0A]"

lemma dig_cases: "dig d \<in> {0x30, 0x31, 0x32, 0x33, 0x34, 0x35, 0x36, 0x37, 0x38, 0x39}"
proof -
  have "d mod 10 \<in> {0, 1, 2, 3, 4, 5, 6, 7, 8, 9}" using mod_less_divisor [of 10 d] by (simp, arith)
  then show ?thesis by (auto simp: dig_def)
qed

lemma dig_value: "(ucast (dig d) :: u32) - 0x30 = of_nat (d mod 10)"
proof -
  have "d mod 10 \<in> {0, 1, 2, 3, 4, 5, 6, 7, 8, 9}" using mod_less_divisor [of 10 d] by (simp, arith)
  then show ?thesis by (auto simp: dig_def)
qed

lemma dig_range: "dig d \<ge> 0x30" "dig d \<le> 0x39" "dig d \<noteq> 0x0A" "dig d \<noteq> 0x3E"
  using dig_cases [of d] by auto

lemma framed_agc: "framed (agc_answer v w)"
proof -
  have "agc_answer v w = 0x3E # [0x45, dig (v div 100), 0x2E, dig (v div 10), dig v,
     dig (w div 100), dig (w div 10), dig w] @ [0x0D, 0x0A]" by (simp add: agc_answer_def)
  moreover have "0x0A \<notin> set [0x45, dig (v div 100), 0x2E, dig (v div 10), dig v,
     dig (w div 100), dig (w div 10), dig w]" using dig_range(3) by (auto simp: eq_commute [of "0x0A"])
  ultimately show ?thesis unfolding framed_def by (intro exI conjI) auto
qed

lemma three_digits: "v < 1000 \<Longrightarrow> v div 100 mod 10 * 1000 + v div 10 mod 10 * 100 + v mod 10 * 10 = (10 * v :: nat)"
proof -
  assume v: "v < 1000"
  have "v div 100 = v div 10 div 10" by (simp add: div_mult2_eq [symmetric])
  moreover have "v div 10 = 10 * (v div 10 div 10) + v div 10 mod 10" "v = 10 * (v div 10) + v mod 10" by simp_all
  moreover have "v div 10 div 10 < 10" using v by (simp add: div_mult2_eq [symmetric])
  ultimately show ?thesis by (simp only: mod_less)
qed

lemma agc_answer_read:
  assumes "v < 1000" "w < 1000"
  shows "APP_BEACON_QueAGCResult (Some (agc_answer v w)) = Some (of_nat (10 * v), of_nat (10 * w))"
proof -
  have n: "(of_nat (d div 100 mod 10) :: u32) * 1000 + of_nat (d div 10 mod 10) * 100 + of_nat (d mod 10) * 10
    = of_nat (10 * d)" if "d < 1000" for d
    using arg_cong [OF three_digits [OF that], of "of_nat :: nat \<Rightarrow> u32"] by simp
  have "\<not> dig (v div 100) > 0x39 \<and> \<not> dig (v div 100) < 0x30" using dig_range(1,2) by (simp add: not_less)
  then show ?thesis
    using n [OF assms(1)] n [OF assms(2)]
    by (simp add: APP_BEACON_QueAGCResult_def agc_answer_def digit_at_def dig_value)
qed

lemma rxpower_db_of: "w < 1000 \<Longrightarrow> rxpower_db (of_nat (10 * w)) = - of_nat (w div 10)"
proof -
  assume w: "w < 1000"
  have s: "sint (of_nat (10 * w) :: u32) = 10 * int w"
  proof -
    have "(of_nat (10 * w) :: u32) = word_of_int (10 * int w)" by simp
    then show ?thesis using w by (simp only: sint_sbintrunc') (simp add: signed_take_bit_int_eq_self)
  qed
  have "sgn (- (10 * int w)) * (\<bar>- (10 * int w)\<bar> div 100) = - int (w div 10)"
    by (cases "w = 0") (simp_all add: zdiv_int div_mult2_eq [symmetric])
  then show ?thesis
    using f32_of_nat [of "w div 10"] fround_minus [of 24 "-149" "of_nat (w div 10)"] w
    unfolding rxpower_db_def Let_def s by simp
qed


section \<open>Properties\<close>

definition rx_mv :: "bea \<Rightarrow> fp32" where
  "rx_mv s = beacon_rxpower_mv (cur (watch s))"

definition rx_db :: "bea \<Rightarrow> fp32" where
  "rx_db s = beacon_rxpower_db (cur (watch s))"

definition link_of :: "bea \<Rightarrow> u8" where
  "link_of s = bs_link_stat (BeaconStat (beacon s))"

text \<open>With the handler that was written for the receiver, which is not compiled, an answer that comes in time, behind
  noise without \<open>0x3E\<close>, is read exactly: the tracking sees the voltage and the attenuation, without its fraction,
  the link is up, the failures are forgotten and the port and its semaphores are ready again.\<close>

theorem agc_query_exact:
  assumes "0 < APP_Beacon_Send_Sem s" "idle (port6 s)" "arriving (port6 s) = (noise @ agc_answer v w, later) # ls"
    "0x3E \<notin> set noise" "0x3E \<notin> set later" "v < 1000" "w < 1000"
  shows "\<exists>s'. APP_BEACON_QueAGC s = Inr (SUCC, s') \<and> rx_mv s' = of_nat (10 * v) \<and> rx_db s' = - of_nat (w div 10)
    \<and> link_of s' = COMM_LINK \<and> Beacon_Err_cnt s' = 0 \<and> idle (port6 s') \<and> arriving (port6 s') = ls
    \<and> APP_Beacon_Send_Sem s' = APP_Beacon_Send_Sem s"
proof -
  obtain p where p: "beacon_exchange APP_BEACON_QueAGCCmd (port6 s) = Inr (Some (agc_answer v w), p)" "idle p"
    "arriving p = ls"
    using exchange_in_time [OF assms(2,3) framed_agc assms(4,5)] by blast
  have "fp_of_u32 (of_nat (10 * v)) = of_nat (10 * v)"
    using fp_of_u32_exact [of "of_nat (10 * v)"] assms(6) by (simp add: unat_of_nat del: of_nat_mult)
  then show ?thesis
    using QueAGC_read [OF assms(1) p(1) agc_answer_read [OF assms(6,7)]] p(2,3) rxpower_db_of [OF assms(7)] assms(1)
    by (simp add: rx_mv_def rx_db_def link_of_def)
qed

text \<open>A series of queries: what each returned and the power that was published after it.\<close>

fun agc_polls :: "nat \<Rightarrow> (status \<times> fp32) list bio" where
  "agc_polls 0 = ret_io []"
| "agc_polls (Suc n) = bind_io APP_BEACON_QueAGC (\<lambda>r s.
     bind_io (agc_polls n) (\<lambda>rs. ret_io ((r, rx_mv s) # rs)) s)"

definition late :: "nat \<times> nat \<Rightarrow> bytes \<times> bytes" where
  "late a = ([], agc_answer (fst a) (snd a))"

lemma late_polls:
  assumes "0 < APP_Beacon_Send_Sem s" "holds (agc_answer (fst a) (snd a)) (port6 s)" "arriving (port6 s) = map late as"
    "\<forall>x \<in> set (a # as). fst x < 1000 \<and> snd x < 1000"
  shows "\<exists>s'. agc_polls (length as) s
    = Inr (map (\<lambda>x. (SUCC, of_nat (10 * fst x))) (butlast (a # as)), s')"
  using assms
proof (induction as arbitrary: a s)
  case Nil
  show ?case by (simp add: ret_io_def)
next
  case (Cons b as)
  have r: "APP_BEACON_QueAGCResult (Some (agc_answer (fst a) (snd a))) = Some (of_nat (10 * fst a), of_nat (10 * snd a))"
    using agc_answer_read Cons.prems(4) by simp
  obtain p where p: "beacon_exchange APP_BEACON_QueAGCCmd (port6 s) = Inr (Some (agc_answer (fst a) (snd a)), p)"
    "holds (agc_answer (fst b) (snd b)) p" "arriving p = map late as"
    using exchange_held [OF Cons.prems(2) _ framed_agc framed_agc] Cons.prems(3) by (force simp: late_def)
  let ?s = "agc_read (of_nat (10 * fst a)) (of_nat (10 * snd a)) (s\<lparr>APP_Beacon_Send_Sem := APP_Beacon_Send_Sem s - 1, port6 := p\<rparr>)"
  have q: "APP_BEACON_QueAGC s = Inr (SUCC, ?s)" by (rule QueAGC_read [OF Cons.prems(1) p(1) r])
  have "fp_of_u32 (of_nat (10 * fst a)) = of_nat (10 * fst a)"
    using fp_of_u32_exact [of "of_nat (10 * fst a)"] Cons.prems(4) by (simp add: unat_of_nat del: of_nat_mult)
  moreover obtain s' where "agc_polls (length as) ?s = Inr (map (\<lambda>x. (SUCC, of_nat (10 * fst x))) (butlast (b # as)), s')"
    using Cons.IH [of ?s b] Cons.prems(1,4) p(2,3) by auto
  ultimately show ?case using q by (simp add: rx_mv_def bind_io_def ret_io_def)
qed

text \<open>A receiver whose answers all come after the wait for them is never reported lost, but is read
  one query late from then on: the first query fails, and every other one succeeds with the answer
  to the query before it, because nothing empties the port before a command is sent.\<close>

theorem late_answers_shift_readings:
  assumes "0 < APP_Beacon_Send_Sem s" "idle (port6 s)" "arriving (port6 s) = map late (a # as)"
    "\<forall>x \<in> set (a # as). fst x < 1000 \<and> snd x < 1000"
  shows "\<exists>s'. agc_polls (length (a # as)) s
    = Inr ((FAIL, rx_mv s) # map (\<lambda>x. (SUCC, of_nat (10 * fst x))) (butlast (a # as)), s')"
proof -
  obtain p where p: "beacon_exchange APP_BEACON_QueAGCCmd (port6 s) = Inr (None, p)"
    "holds (agc_answer (fst a) (snd a)) p" "arriving p = map late as"
    using exchange_late [OF assms(2) _ framed_agc] assms(3) by (force simp: late_def)
  let ?s = "count_failure agc_lost (s\<lparr>APP_Beacon_Send_Sem := APP_Beacon_Send_Sem s - 1, port6 := p\<rparr>)"
  have "APP_BEACON_QueAGC s = Inr (FAIL, ?s)"
    by (rule QueAGC_fail [OF assms(1) p(1)]) (simp add: APP_BEACON_QueAGCResult_def)
  moreover have "rx_mv ?s = rx_mv s" by (simp add: rx_mv_def cur_def)
  moreover obtain s' where "agc_polls (length as) ?s = Inr (map (\<lambda>x. (SUCC, of_nat (10 * fst x))) (butlast (a # as)), s')"
    using late_polls [of ?s a as] assms(1,4) p(2,3) by auto
  ultimately show ?thesis by (simp add: bind_io_def ret_io_def)
qed

lemma deaf_polls:
  assumes "0 < APP_Beacon_Send_Sem s" "deaf (port6 s)" "unat (Beacon_Err_cnt s) \<le> 100"
    "unat (Beacon_Err_cnt s) \<ge> 10 \<longrightarrow> link_of s = COMM_UNLINK"
  shows "\<exists>s'. agc_polls n s = Inr (replicate n (FAIL, rx_mv s), s') \<and> 0 < APP_Beacon_Send_Sem s' \<and> deaf (port6 s')
    \<and> rx_mv s' = rx_mv s \<and> (unat (Beacon_Err_cnt s) + n \<ge> 10 \<longrightarrow> link_of s' = COMM_UNLINK)"
  using assms
proof (induction n arbitrary: s)
  case 0
  then show ?case by (simp add: ret_io_def)
next
  case (Suc n)
  obtain p where p: "beacon_exchange APP_BEACON_QueAGCCmd (port6 s) = Inr (None, p)" "deaf p"
    using exchange_deaf [OF Suc.prems(2)] by blast
  let ?s = "count_failure agc_lost (s\<lparr>APP_Beacon_Send_Sem := APP_Beacon_Send_Sem s - 1, port6 := p\<rparr>)"
  have q: "APP_BEACON_QueAGC s = Inr (FAIL, ?s)"
    by (rule QueAGC_fail [OF Suc.prems(1) p(1)]) (simp add: APP_BEACON_QueAGCResult_def)
  have r: "rx_mv ?s = rx_mv s" by (simp add: rx_mv_def cur_def)
  have u: "unat (Beacon_Err_cnt s + 1) = unat (Beacon_Err_cnt s) + 1"
    using Suc.prems(3) by (simp add: unat_word_ariths)
  have e: "unat (Beacon_Err_cnt ?s) = (if unat (Beacon_Err_cnt s) = 100 then 20 else unat (Beacon_Err_cnt s) + 1)"
    using Suc.prems(3) u by (auto simp: Let_def word_less_nat_alt)
  have l: "link_of ?s = (if unat (Beacon_Err_cnt s) + 1 \<ge> 10 then COMM_UNLINK else link_of s)"
    unfolding link_of_def agc_lost_effect(5) using u by (simp add: word_le_nat_alt beacon_def)
  obtain s' where "agc_polls n ?s = Inr (replicate n (FAIL, rx_mv ?s), s')" "0 < APP_Beacon_Send_Sem s'" "deaf (port6 s')"
    "rx_mv s' = rx_mv ?s" "unat (Beacon_Err_cnt ?s) + n \<ge> 10 \<longrightarrow> link_of s' = COMM_UNLINK"
    using Suc.IH [of ?s] Suc.prems(1,3,4) p(2) e l by (auto split: if_splits)
  then show ?case using q r e l by (auto simp: bind_io_def ret_io_def split: if_splits)
qed

text \<open>C23: under the interrupt handler that is compiled the beacon receiver is never heard, whatever it sends: after
  \<open>APP_BEACON_Init\<close>, which installs the handler and whose own query fails, with the error counter at 0 before, all of nine or more
  further queries fail, the link is reported lost, and the power that the tracking reads stays what it was before.\<close>

theorem shell_handler_loses_beacon:
  assumes "Beacon_Err_cnt s = 0" "9 \<le> n"
  shows "\<exists>s0 s'. APP_BEACON_Init s = Inr (FAIL, s0) \<and> agc_polls n s0 = Inr (replicate n (FAIL, rx_mv s), s')
    \<and> link_of s' = COMM_UNLINK \<and> rx_mv s' = rx_mv s"
proof -
  let ?s = "s\<lparr>port6 := SWIFT_UART6_Init (port6 s), APP_Beacon_Send_Sem := 1\<rparr>"
  have d: "0 < APP_Beacon_Send_Sem ?s" "deaf (port6 ?s)" by (simp_all add: deaf_def SWIFT_UART6_Init_def)
  obtain s0 s' where "APP_BEACON_QueAGC ?s = Inr (FAIL, s0)" "agc_polls n s0 = Inr (replicate n (FAIL, rx_mv s), s')"
    "link_of s' = COMM_UNLINK" "rx_mv s' = rx_mv s"
    using deaf_polls [OF d, of "Suc n"] assms by (auto simp: bind_io_Inr rx_mv_def)
  then show ?thesis by (simp add: APP_BEACON_Init_def op_defs)
qed

text \<open>The decimal number in a frequency command.\<close>

definition freq_of :: "bytes \<Rightarrow> nat" where
  "freq_of b = foldl (\<lambda>n i. 10 * n + (unat (b ! i) - 48)) 0 [2, 3, 4, 5, 7, 8, 9]"

lemma unat_digit: "d < 10 \<Longrightarrow> unat (digit d) = unat d + 48"
  by (simp add: digit_def unsigned_ucast_eq take_bit_eq_mod unat_word_ariths word_less_nat_alt)

lemma decimal_step: "0 < m \<Longrightarrow> 10 * (n div (10 * m)) + n mod (10 * m) div m = (n div m :: nat)"
proof -
  assume m: "0 < m"
  have "n mod (m * 10) div m = n div m mod 10" using m by (simp add: mod_mult2_eq)
  moreover have "n div (m * 10) = n div m div 10" by (simp add: div_mult2_eq)
  ultimately show ?thesis by (simp add: mult.commute [of _ 10])
qed

lemma freq_of_cmd:
  assumes "freq < 10000000"
  shows "freq_of (APP_BEACON_SetFreqCmd freq) = unat freq"
proof -
  let ?n = "unat freq"
  have n: "?n < 10000000" using assms by (simp add: word_less_nat_alt)
  have d: "unat (digit d) - 48 = unat d" if "unat d < 10" for d
    using unat_digit [of d] that by (simp add: word_less_nat_alt)
  have u: "unat (freq div 1000000) = ?n div 1000000" "unat (freq mod 1000000 div 100000) = ?n mod 1000000 div 100000"
    "unat (freq mod 100000 div 10000) = ?n mod 100000 div 10000" "unat (freq mod 10000 div 1000) = ?n mod 10000 div 1000"
    "unat (freq mod 1000 div 100) = ?n mod 1000 div 100" "unat (freq mod 100 div 10) = ?n mod 100 div 10"
    "unat (freq mod 10) = ?n mod 10"
    by (simp_all add: unat_div_distrib unat_mod_distrib)
  have b: "?n div 1000000 < 10" "?n mod 1000000 div 100000 < 10" "?n mod 100000 div 10000 < 10" "?n mod 10000 div 1000 < 10"
    "?n mod 1000 div 100 < 10" "?n mod 100 div 10 < 10" "?n mod 10 < 10"
    using n by (simp_all add: less_mult_imp_div_less)
  have s: "10 * (?n div 1000000) + ?n mod 1000000 div 100000 = ?n div 100000"
    "10 * (?n div 100000) + ?n mod 100000 div 10000 = ?n div 10000"
    "10 * (?n div 10000) + ?n mod 10000 div 1000 = ?n div 1000"
    "10 * (?n div 1000) + ?n mod 1000 div 100 = ?n div 100" "10 * (?n div 100) + ?n mod 100 div 10 = ?n div 10"
    "10 * (?n div 10) + ?n mod 10 = ?n"
    using decimal_step [of 100000 ?n] decimal_step [of 10000 ?n] decimal_step [of 1000 ?n] decimal_step [of 100 ?n]
      decimal_step [of 10 ?n] by simp_all
  show ?thesis
    unfolding freq_of_def APP_BEACON_SetFreqCmd_def using b
    by (simp add: d u) (use s in linarith)
qed

text \<open>A frequency is only set between 950 and 2150 MHz, and then the command carries exactly its
  decimal digits; when the receiver confirms it in time, it becomes the working frequency and the
  alarm of a failed setting is withdrawn, but the device status, which the code masks with
  \<open>0x01\<close> instead of its complement, keeps the mark of that failure.\<close>

theorem set_freq_confirmed:
  assumes "0 < APP_Beacon_Send_Sem s" "idle (port6 s)"
    "arriving (port6 s) = (noise @ [0x3E, 0x54, 0x0D, 0x0A], later) # ls" "0x3E \<notin> set noise" "0x3E \<notin> set later"
    "950000 \<le> freq" "freq \<le> 2150000" "length (dev_alarm_buff (cur (watch s))) = 6"
  shows "\<exists>s' cmd. APP_BEACON_SetFreq freq s = Inr (SUCC, s') \<and> commands (port6 s') = commands (port6 s) @ [cmd]
    \<and> freq_of cmd = unat freq \<and> take 2 cmd = [0x3C, 0x46] \<and> drop 10 cmd = [0x0D, 0x0A]
    \<and> bc_work_freq (BeaconConf (beacon s')) = freq \<and> link_of s' = COMM_LINK
    \<and> \<not> bit (dev_alarm_buff (cur (watch s')) ! 1) 1
    \<and> bit (bs_dev_stat (BeaconStat (beacon s'))) 0 = bit (bs_dev_stat (BeaconStat (beacon s))) 0
    \<and> idle (port6 s') \<and> APP_Beacon_Send_Sem s' = APP_Beacon_Send_Sem s"
proof -
  have f: "framed [0x3E, 0x54, 0x0D, 0x0A]" unfolding framed_def by (rule exI [of _ "[0x54]"]) simp
  obtain p where p: "beacon_exchange (APP_BEACON_SetFreqCmd freq) (port6 s) = Inr (Some [0x3E, 0x54, 0x0D, 0x0A], p)" "idle p"
    "commands p = commands (port6 s) @ [APP_BEACON_SetFreqCmd freq]"
    using exchange_in_time [OF assms(2,3) f assms(4,5)] by blast
  let ?s = "freq_set freq (s\<lparr>APP_Beacon_Send_Sem := APP_Beacon_Send_Sem s - 1, port6 := p\<rparr>)"
  have 1: "APP_BEACON_SetFreq freq s = Inr (SUCC, ?s)"
    using assms(1,6,7) p(1) by (simp add: APP_BEACON_SetFreq_def op_defs APP_BEACON_SetFreqResult_def not_less)
  have 2: "freq_of (APP_BEACON_SetFreqCmd freq) = unat freq"
    using assms(7) by (intro freq_of_cmd) (simp add: word_less_nat_alt word_le_nat_alt)
  have 3: "port6 ?s = p" "APP_Beacon_Send_Sem ?s = APP_Beacon_Send_Sem s" "bc_work_freq (BeaconConf (beacon ?s)) = freq"
    "link_of ?s = COMM_LINK" "bs_dev_stat (BeaconStat (beacon ?s)) = bs_dev_stat (BeaconStat (beacon s)) AND 0x01"
    "dev_alarm_buff (cur (watch ?s)) ! 1 = dev_alarm_buff (cur (watch s)) ! 1 AND NOT 0x02"
    using assms(1,8) by (simp_all add: freq_set_def link_of_def beacon_defs Let_def)
  have 4: "\<not> bit (x AND NOT 0x02) 1" for x :: u8 by (simp add: bit_simps)
  have 5: "bit (x AND 0x01) 0 = bit x 0" for x :: u32 by (simp add: bit_simps)
  show ?thesis
    by (rule exI [of _ ?s], rule exI [of _ "APP_BEACON_SetFreqCmd freq"])
      (use 1 2 3 4 5 p(2,3) in \<open>simp add: APP_BEACON_SetFreqCmd_def\<close>)
qed


section \<open>Sequences of operations\<close>

datatype beacon_op = SetFreq u32 | BeaconCheck | SetRange u8 | QueAGC

definition ignore :: "'a bio \<Rightarrow> unit bio" where
  "ignore m = bind_io m (\<lambda>_. ret_io ())"

fun beacon_do :: "beacon_op \<Rightarrow> unit bio" where
  "beacon_do (SetFreq f) = ignore (APP_BEACON_SetFreq f)"
| "beacon_do BeaconCheck = ignore APP_BEACON_QueBeaconCheck"
| "beacon_do (SetRange f) = ignore (APP_BEACON_SetAGCOutputRange f)"
| "beacon_do QueAGC = ignore APP_BEACON_QueAGC"

fun beacon_run :: "beacon_op list \<Rightarrow> unit bio" where
  "beacon_run [] = ret_io ()"
| "beacon_run (x # xs) = bind_io (beacon_do x) (\<lambda>_. beacon_run xs)"

text \<open>A step on the port keeps its semaphore and stops only outside an array.\<close>

definition port_safe :: "('a, bport) st \<Rightarrow> bool" where
  "port_safe m \<longleftrightarrow> (\<forall>p. 0 < SWIFT_UART6_Send_Sem p \<longrightarrow>
     (\<exists>x p'. m p = Inr (x, p') \<and> SWIFT_UART6_Send_Sem p' = SWIFT_UART6_Send_Sem p \<and> vector p' = vector p) \<or> m p = Inl OutOfBounds)"

lemma byte_safe: "uart6_byte b p = Inr p' \<Longrightarrow> SWIFT_UART6_Send_Sem p' = SWIFT_UART6_Send_Sem p \<and> vector p' = vector p"
  "uart6_byte b p = Inl e \<Longrightarrow> e = OutOfBounds"
  by (auto simp: uart6_byte_def SWIFT_UART6_IntHandler_def Beacon_IntHandler_def Let_def split: handler.splits if_splits)

lemma bytes_safe: "uart6_bytes bs p = Inr p' \<Longrightarrow> SWIFT_UART6_Send_Sem p' = SWIFT_UART6_Send_Sem p \<and> vector p' = vector p"
  "uart6_bytes bs p = Inl e \<Longrightarrow> e = OutOfBounds"
  by (induction bs arbitrary: p) (auto simp: bind_f_Inr bind_f_Inl dest: byte_safe)

lemma await_safe:
  "await_beacon bs p = Inr (x, p') \<Longrightarrow> SWIFT_UART6_Send_Sem p' = SWIFT_UART6_Send_Sem p \<and> vector p' = vector p"
  "await_beacon bs p = Inl e \<Longrightarrow> e = OutOfBounds"
  by (induction bs arbitrary: p) (auto simp: bind_f_Inr bind_f_Inl dest: byte_safe split: if_splits)

lemma exchange_safe: "port_safe (beacon_exchange cmd)"
proof -
  have "\<exists>x p'. beacon_exchange cmd p = Inr (x, p') \<and> SWIFT_UART6_Send_Sem p' = SWIFT_UART6_Send_Sem p \<and> vector p' = vector p"
    if p: "0 < SWIFT_UART6_Send_Sem p" "beacon_exchange cmd p \<noteq> Inl OutOfBounds" for p
  proof -
    obtain now later where x: "(case arriving p of [] \<Rightarrow> ([], []) | x # _ \<Rightarrow> x) = (now, later)" by fastforce
    let ?p1 = "p\<lparr>commands := commands p @ [cmd]\<rparr>"
    note e = beacon_exchange_def x SWIFT_UART6_SendBuff_def SWIFT_UART6_RecvBuff_def bind_io_def
    have "await_beacon now ?p1 \<noteq> Inl OutOfBounds" using p by (auto simp: e)
    then obtain y p2 where 2: "await_beacon now ?p1 = Inr (y, p2)"
      by (cases "await_beacon now ?p1") (auto dest: await_safe(2))
    have w: "\<not> write_p p2 > 100" using p 2 by (auto simp: e split: prod.splits if_splits)
    let ?p3 = "p2\<lparr>write_p := 0, arriving := tl (arriving p2)\<rparr>"
    have "uart6_bytes (snd y @ later) ?p3 \<noteq> Inl OutOfBounds" using p 2 w by (auto simp: e split: prod.splits)
    then obtain p4 where 4: "uart6_bytes (snd y @ later) ?p3 = Inr p4"
      by (cases "uart6_bytes (snd y @ later) ?p3") (auto dest: bytes_safe(2))
    show ?thesis
      using p(1) 2 4 w await_safe(1) [OF 2] bytes_safe(1) [OF 4] by (auto simp: e split: prod.splits)
  qed
  then show ?thesis unfolding port_safe_def by blast
qed

text \<open>An operation on the receiver returns its semaphores; it can only stop outside an array.\<close>

definition beacon_safe :: "'a bio \<Rightarrow> bool" where
  "beacon_safe m \<longleftrightarrow> (\<forall>s. 0 < APP_Beacon_Send_Sem s \<and> 0 < SWIFT_UART6_Send_Sem (port6 s) \<longrightarrow>
     (\<exists>x s'. m s = Inr (x, s') \<and> APP_Beacon_Send_Sem s' = APP_Beacon_Send_Sem s
       \<and> SWIFT_UART6_Send_Sem (port6 s') = SWIFT_UART6_Send_Sem (port6 s)) \<or> m s = Inl OutOfBounds)"


lemma safe_op:
  assumes g: "\<And>r s. APP_Beacon_Send_Sem (g r s) = APP_Beacon_Send_Sem s + 1" "\<And>r s. port6 (g r s) = port6 s"
    and k: "\<And>r. k r = bind_io (change_b (g r)) (\<lambda>_. ret_io (h r))"
  shows "beacon_safe (bind_io beacon_pend (\<lambda>_. bind_io (on_port6 (beacon_exchange cmd)) k))"
proof -
  have "(\<exists>x s'. bind_io beacon_pend (\<lambda>_. bind_io (on_port6 (beacon_exchange cmd)) k) s = Inr (x, s')
      \<and> APP_Beacon_Send_Sem s' = APP_Beacon_Send_Sem s
      \<and> SWIFT_UART6_Send_Sem (port6 s') = SWIFT_UART6_Send_Sem (port6 s))
    \<or> bind_io beacon_pend (\<lambda>_. bind_io (on_port6 (beacon_exchange cmd)) k) s = Inl OutOfBounds"
    if s: "0 < APP_Beacon_Send_Sem s" "0 < SWIFT_UART6_Send_Sem (port6 s)" for s
  proof (cases "beacon_exchange cmd (port6 s)")
    case (Inl e)
    then have "e = OutOfBounds" using exchange_safe [of cmd, unfolded port_safe_def, rule_format, OF s(2)] by auto
    then show ?thesis using Inl s by (simp add: op_defs)
  next
    case (Inr y)
    obtain r p where y: "y = (r, p)" by fastforce
    have "SWIFT_UART6_Send_Sem p = SWIFT_UART6_Send_Sem (port6 s)"
      using exchange_safe [of cmd, unfolded port_safe_def, rule_format, OF s(2)] Inr unfolding y by auto
    then show ?thesis using Inr s g unfolding y by (simp add: op_defs k ret_io_def)
  qed
  then show ?thesis unfolding beacon_safe_def by blast
qed

lemma SetFreq_safe: "beacon_safe (APP_BEACON_SetFreq freq)"
proof (cases "freq < 950000 \<or> freq > 2150000")
  case True
  then show ?thesis by (auto simp: beacon_safe_def APP_BEACON_SetFreq_def op_defs beacon_post_def)
next
  case False
  define g where "g r = (if APP_BEACON_SetFreqResult r = SUCC then freq_set freq else freq_failed)" for r
  have "beacon_safe (bind_io beacon_pend (\<lambda>_. bind_io (on_port6 (beacon_exchange (APP_BEACON_SetFreqCmd freq)))
    (\<lambda>r. if APP_BEACON_SetFreqResult r = SUCC then bind_io (change_b (freq_set freq)) (\<lambda>_. ret_io SUCC)
         else bind_io (change_b freq_failed) (\<lambda>_. ret_io FAIL))))"
    by (rule safe_op [where g = g and h = APP_BEACON_SetFreqResult])
      (auto simp: g_def freq_set_def freq_failed_def beacon_defs Let_def intro: status.exhaust)
  then show ?thesis using False by (simp add: APP_BEACON_SetFreq_def)
qed

lemma Check_safe: "beacon_safe APP_BEACON_QueBeaconCheck"
  unfolding APP_BEACON_QueBeaconCheck_def
  by (rule safe_op [where h = APP_BEACON_QueBeaconCheckResult and g = "\<lambda>r. case APP_BEACON_QueBeaconCheckResult r of
      Works \<Rightarrow> (\<lambda>s. beacon_post (answered_well (set_bstat (\<lambda>t. t\<lparr>bs_link_stat := COMM_LINK\<rparr>) s)))
    | Alarmed \<Rightarrow> (\<lambda>s. beacon_post (answered_well (set_bstat (\<lambda>t. t\<lparr>bs_dev_stat := WORKSTA_ALARM\<rparr>) s)))
    | NoAnswer \<Rightarrow> count_failure check_lost"])
    (simp_all add: check_lost_def beacon_defs Let_def split: check.splits)

lemma SetRange_safe: "beacon_safe (APP_BEACON_SetAGCOutputRange flag)"
proof -
  define ok where "ok r = (APP_BEACON_SetAGCOutputRangeResult r (range_flag flag) = SUCC)" for r
  show ?thesis
    unfolding APP_BEACON_SetAGCOutputRange_def ok_def [symmetric]
    by (rule safe_op [where h = "\<lambda>r. if ok r then SUCC else FAIL" and g = "\<lambda>r. if ok r then range_set flag else range_failed"])
      (simp_all add: range_set_def range_failed_def beacon_defs Let_def)
qed

lemma QueAGC_safe: "beacon_safe APP_BEACON_QueAGC"
  unfolding APP_BEACON_QueAGC_def
  by (rule safe_op [where h = "\<lambda>r. case APP_BEACON_QueAGCResult r of Some _ \<Rightarrow> SUCC | None \<Rightarrow> FAIL"
      and g = "\<lambda>r. case APP_BEACON_QueAGCResult r of Some (mv, db) \<Rightarrow> agc_read mv db | None \<Rightarrow> count_failure agc_lost"])
    (auto split: option.splits)

lemma ignore_safe: "beacon_safe m \<Longrightarrow> beacon_safe (ignore m)"
  unfolding beacon_safe_def ignore_def by (fastforce simp: bind_io_def ret_io_def)

lemma beacon_do_safe: "beacon_safe (beacon_do x)"
  by (cases x) (simp_all add: ignore_safe SetFreq_safe Check_safe SetRange_safe QueAGC_safe)

text \<open>No order of operations on the receiver ever blocks: each gives back the semaphores it
  takes, whatever the receiver sends, and only an answer longer than the arrays stops one.\<close>

theorem beacon_never_blocks:
  assumes "0 < APP_Beacon_Send_Sem s" "0 < SWIFT_UART6_Send_Sem (port6 s)"
  shows "(\<exists>s'. beacon_run ops s = Inr ((), s') \<and> APP_Beacon_Send_Sem s' = APP_Beacon_Send_Sem s
      \<and> SWIFT_UART6_Send_Sem (port6 s') = SWIFT_UART6_Send_Sem (port6 s))
    \<or> beacon_run ops s = Inl OutOfBounds"
  using assms
proof (induction ops arbitrary: s)
  case Nil
  then show ?case by (simp add: ret_io_def)
next
  case (Cons x xs)
  show ?case
  proof (cases "beacon_do x s")
    case (Inl e)
    then show ?thesis using beacon_do_safe [of x] Cons.prems unfolding beacon_safe_def by fastforce
  next
    case (Inr y)
    obtain s1 where y: "y = ((), s1)" by (cases y) auto
    have "APP_Beacon_Send_Sem s1 = APP_Beacon_Send_Sem s" "SWIFT_UART6_Send_Sem (port6 s1) = SWIFT_UART6_Send_Sem (port6 s)"
      using beacon_do_safe [of x] Cons.prems Inr unfolding beacon_safe_def y by fastforce+
    then show ?thesis using Cons.IH [of s1] Cons.prems Inr y by simp
  qed
qed


section \<open>Witnesses\<close>

definition test_port :: "(bytes \<times> bytes) list \<Rightarrow> bport" where
  "test_port l = \<lparr>uart_buff = replicate 128 0, write_p = 0, Beacon2MCU_Sem = 0, SWIFT_UART6_Rev_Sem = 0,
     SWIFT_UART6_Send_Sem = 1, vector = BeaconRx, arriving = l, commands = []\<rparr>"

definition test_watch :: mon where
  "test_watch = \<lparr>core = \<lparr>dev = zero_strACUDevInfo, APP_PDU_Send_Sem = 1, SWIFT_UART4_Send_Sem = 1, sent = [],
     replies = [], junk = (\<lambda>_. 0), opt_log = []\<rparr>, gps_timeout_cnt = 0, alarm_now = replicate 6 0,
     alarm_buzzer_refresh = False, limit_alarm_cnt = [0, 0, 0], Task_Run_Flag = [0, 0, 0], killed = [],
     warn_log = [], old_degree = [0, 0, 0], scan_cnt = 0, err_cnt = [0, 0, 0]\<rparr>"

definition test_beacon :: "(bytes \<times> bytes) list \<Rightarrow> bea" where
  "test_beacon l = \<lparr>watch = test_watch, port6 = test_port l, Beacon_Err_cnt = 0, APP_Beacon_Send_Sem = 1\<rparr>"

lemma test_beacon_ready [simp]:
  "APP_Beacon_Send_Sem (test_beacon l) = 1" "Beacon_Err_cnt (test_beacon l) = 0" "idle (port6 (test_beacon l))"
  "arriving (port6 (test_beacon l)) = l" "commands (port6 (test_beacon l)) = []" "SWIFT_UART6_Send_Sem (port6 (test_beacon l)) = 1"
  "length (dev_alarm_buff (cur (watch (test_beacon l)))) = 6" "rx_mv (test_beacon l) = 0"
  by (simp_all add: test_beacon_def test_port_def test_watch_def idle_def rx_mv_def cur_def board_def
      zero_strACUDevInfo_def zero_strACUCurrSta_def)

theorem agc_query_exact_witness:
  "\<exists>s'. APP_BEACON_QueAGC (test_beacon [([0x00, 0x41] @ agc_answer 512 437, [])]) = Inr (SUCC, s')
    \<and> rx_mv s' = 5120 \<and> rx_db s' = - 43"
  using agc_query_exact [of "test_beacon [([0x00, 0x41] @ agc_answer 512 437, [])]" "[0x00, 0x41]" 512 437 "[]" "[]"] by auto

theorem late_answers_shift_readings_witness:
  "\<exists>s'. agc_polls 3 (test_beacon (map late [(512, 437), (500, 440), (480, 441)]))
    = Inr ([(FAIL, 0), (SUCC, 5120), (SUCC, 5000)], s')"
  using late_answers_shift_readings [of "test_beacon (map late [(512, 437), (500, 440), (480, 441)])" "(512, 437)"
      "[(500, 440), (480, 441)]"] by (simp add: numeral_3_eq_3)

theorem shell_handler_loses_beacon_witness:
  "\<exists>s0 s'. APP_BEACON_Init (test_beacon []) = Inr (FAIL, s0) \<and> agc_polls 9 s0 = Inr (replicate 9 (FAIL, 0), s')
    \<and> link_of s' = COMM_UNLINK"
  using shell_handler_loses_beacon [of "test_beacon []" 9] by auto

theorem set_freq_confirmed_witness:
  "\<exists>s' cmd. APP_BEACON_SetFreq 1234567 (test_beacon [([0x3E, 0x54, 0x0D, 0x0A], [])]) = Inr (SUCC, s')
    \<and> commands (port6 s') = [cmd] \<and> freq_of cmd = 1234567"
  using set_freq_confirmed [of "test_beacon [([0x3E, 0x54, 0x0D, 0x0A], [])]" "[]" "[]" "[]" 1234567] by auto

theorem beacon_never_blocks_witness:
  "(\<exists>s'. beacon_run [QueAGC, SetRange 0x85, BeaconCheck] (test_beacon []) = Inr ((), s') \<and> APP_Beacon_Send_Sem s' = 1)
    \<or> beacon_run [QueAGC, SetRange 0x85, BeaconCheck] (test_beacon []) = Inl OutOfBounds"
  using beacon_never_blocks [of "test_beacon []" "[QueAGC, SetRange 0x85, BeaconCheck]"] by auto

end
