(* ===== verification/Control.thy ===== *)
theory Control
  imports Beacon Angles PcLink Log
begin

text \<open>
  The commands by which a control PC operates the antenna: the handlers of
  \<open>APP/src/app_pccomm.c\<close> behind the table \<open>PCCOMMCmdDealTbl\<close> that change something, other than those
  of the administration (theory \<open>Admin\<close>), and the theoretical angles of \<open>APP/src/app_monitor.c\<close>
  that some of them compute. A handler gets the bytes of the command, \<open>rxbuff\<close>: its number, a
  length and the arguments.

  The components that the handlers call keep a copy each of the device record; the state \<open>ctl\<close>
  holds them, and the copy of the monitor counts: \<open>on_eeprom\<close> and \<open>on_coders\<close> pass it in and take it back.
  The delays of a few milliseconds have no effect. An entry of the operation log is recorded
  in \<open>journal\<close> with its code and data; theory \<open>Log\<close> has what saving it does.
\<close>

section \<open>State\<close>

text \<open>\<open>at_history\<close> and \<open>at_rxpower\<close> are the addresses of \<open>history_max_mv\<close> and \<open>beacon_rxpower_mv\<close>,
  \<open>at_null\<close> is the float that stands at address 0, and \<open>started\<close> are the tasks created.\<close>

record ctl =
  rcv :: bea
  coders :: enc
  AntennaDir :: u16
  started :: "nat list"
  journal :: "(u32 \<times> bytes) list"
  at_history :: u32
  at_rxpower :: u32
  at_null :: fp32

type_synonym 'a ctio = "('a, ctl) st"
type_synonym command = "bytes \<Rightarrow> status ctio"

definition alter :: "(ctl \<Rightarrow> ctl) \<Rightarrow> unit ctio" where
  "alter f s = Inr ((), f s)"

definition info :: "ctl \<Rightarrow> strACUDevInfo" where
  "info s = board (watch (rcv s))"

definition set_unit :: "(strACUDevInfo \<Rightarrow> strACUDevInfo) \<Rightarrow> ctl \<Rightarrow> ctl" where
  "set_unit f s = s\<lparr>rcv := (rcv s)\<lparr>watch := (watch (rcv s))\<lparr>core := (core (watch (rcv s)))\<lparr>dev := f (info s)\<rparr>\<rparr>\<rparr>\<rparr>"

definition set_param :: "(strACUSeekSatParam \<Rightarrow> strACUSeekSatParam) \<Rightarrow> ctl \<Rightarrow> ctl" where
  "set_param f = set_unit (\<lambda>d. d\<lparr>ACUParam := f (ACUParam d)\<rparr>)"

definition set_antenna :: "(strAntennaParam \<Rightarrow> strAntennaParam) \<Rightarrow> ctl \<Rightarrow> ctl" where
  "set_antenna f = set_param (\<lambda>p. p\<lparr>AntennaParam := f (AntennaParam p)\<rparr>)"

definition set_seek :: "(strSeekSatParam \<Rightarrow> strSeekSatParam) \<Rightarrow> ctl \<Rightarrow> ctl" where
  "set_seek f = set_param (\<lambda>p. p\<lparr>SeekSatParam := f (SeekSatParam p)\<rparr>)"

definition set_mode :: "u8 \<Rightarrow> ctl \<Rightarrow> ctl" where
  "set_mode v = set_seek (\<lambda>p. p\<lparr>SeekSat_Mode := v\<rparr>)"

definition set_sta :: "(strACUCurrSta \<Rightarrow> strACUCurrSta) \<Rightarrow> ctl \<Rightarrow> ctl" where
  "set_sta f = set_unit (\<lambda>d. d\<lparr>ACUCurrSta := f (ACUCurrSta d)\<rparr>)"

definition set_work :: "u8 \<Rightarrow> ctl \<Rightarrow> ctl" where
  "set_work v = set_sta (\<lambda>c. c\<lparr>dev_work_sta := v\<rparr>)"

definition set_sats :: "(strSATList \<Rightarrow> strSATList) \<Rightarrow> ctl \<Rightarrow> ctl" where
  "set_sats f = set_unit (\<lambda>d. d\<lparr>SATList := f (SATList d)\<rparr>)"

definition set_records :: "(strAntennaRecordList \<Rightarrow> strAntennaRecordList) \<Rightarrow> ctl \<Rightarrow> ctl" where
  "set_records f = set_unit (\<lambda>d. d\<lparr>AntennaRecordList := f (AntennaRecordList d)\<rparr>)"

definition seek_mode :: "ctl \<Rightarrow> u8" where
  "seek_mode s = SeekSat_Mode (SeekSatParam (ACUParam (info s)))"

definition antenna :: "ctl \<Rightarrow> strAntennaParam" where
  "antenna s = AntennaParam (ACUParam (info s))"

definition running :: "nat \<Rightarrow> ctl \<Rightarrow> bool" where
  "running i s \<longleftrightarrow> Task_Run_Flag (watch (rcv s)) ! i > 0"

definition logged :: "u32 \<Rightarrow> bytes \<Rightarrow> ctl \<Rightarrow> ctl" where
  "logged code b s = s\<lparr>journal := journal s @ [(code, b)]\<rparr>"

section \<open>Calls into the other components\<close>

definition on_eeprom :: "'a io \<Rightarrow> 'a ctio" where
  "on_eeprom m s = bind_f (m ((eep (coders s))\<lparr>acu := info s\<rparr>)) (\<lambda>(x, w).
     Inr (x, set_unit (\<lambda>_. acu w) (s\<lparr>coders := (coders s)\<lparr>eep := w\<rparr>\<rparr>)))"

definition on_coders :: "'a eio \<Rightarrow> 'a ctio" where
  "on_coders m s = bind_f (m ((coders s)\<lparr>eep := (eep (coders s))\<lparr>acu := info s\<rparr>\<rparr>)) (\<lambda>(x, e).
     Inr (x, set_unit (\<lambda>_. acu (eep e)) (s\<lparr>coders := e\<rparr>)))"

definition on_rcv :: "'a bio \<Rightarrow> 'a ctio" where
  "on_rcv m s = bind_f (m (rcv s)) (\<lambda>(x, r). Inr (x, s\<lparr>rcv := r\<rparr>))"

definition on_drive :: "'a pio \<Rightarrow> 'a ctio" where
  "on_drive m = on_rcv (\<lambda>r. bind_f (on_link m (watch r)) (\<lambda>(x, w). Inr (x, r\<lparr>watch := w\<rparr>)))"

text \<open>\<open>if( Antenna_AllDriveEnd() == FAIL) Antenna_AllDriveEnd();\<close>\<close>

definition stop_all :: "unit ctio" where
  "stop_all = bind_io (on_drive Antenna_AllDriveEnd) (\<lambda>r.
     if r = FAIL then bind_io (on_drive Antenna_AllDriveEnd) (\<lambda>_. ret_io ()) else ret_io ())"

definition set_tasks :: "(mon \<Rightarrow> mon) \<Rightarrow> ctl \<Rightarrow> ctl" where
  "set_tasks f s = s\<lparr>rcv := (rcv s)\<lparr>watch := f (watch (rcv s))\<rparr>\<rparr>"

text \<open>\<open>if( Task_Run_Flag[i] > 0 ) Task..Del();\<close>\<close>

definition delete_running :: "nat \<Rightarrow> ctl \<Rightarrow> ctl" where
  "delete_running i s = (if running i s then set_tasks (TaskDel i) s else s)"

definition delete_all :: "ctl \<Rightarrow> ctl" where
  "delete_all s = delete_running 2 (delete_running 1 (delete_running 0 s))"

text \<open>A tracking task sets its flag when it runs; the creation of the third is commented out,
  only its flag is set.\<close>

definition TaskSatelliteTrackCreate :: "ctl \<Rightarrow> ctl" where
  "TaskSatelliteTrackCreate s = s\<lparr>started := started s @ [0]\<rparr>"

definition TaskSatGradientTrackCreate :: "ctl \<Rightarrow> ctl" where
  "TaskSatGradientTrackCreate s = s\<lparr>started := started s @ [1]\<rparr>"

definition TaskAntennaRecordGotoCreate :: "ctl \<Rightarrow> ctl" where
  "TaskAntennaRecordGotoCreate = set_tasks (\<lambda>w. w\<lparr>Task_Run_Flag := (Task_Run_Flag w)[2 := 1]\<rparr>)"

section \<open>Mode of operation\<close>

abbreviation (input) AimAtSatModeSelID :: u16 where "AimAtSatModeSelID \<equiv> 0x0201"
abbreviation (input) LOG_OPT_HAND_AIM_STAR_BEGIN_BY_PC :: u32 where "LOG_OPT_HAND_AIM_STAR_BEGIN_BY_PC \<equiv> 0x020211"
abbreviation (input) LOG_OPT_HAND_AIM_STAR_END_BY_PC :: u32 where "LOG_OPT_HAND_AIM_STAR_END_BY_PC \<equiv> 0x020212"
abbreviation (input) LOG_OPT_AUTO_AIM_STAR_BEGIN_BY_PC :: u32 where "LOG_OPT_AUTO_AIM_STAR_BEGIN_BY_PC \<equiv> 0x020111"
abbreviation (input) LOG_OPT_AUTO_AIM_STAR_END_BY_PC :: u32 where "LOG_OPT_AUTO_AIM_STAR_END_BY_PC \<equiv> 0x020112"
abbreviation (input) LOG_OPT_FOLLOW_STAR_BEGIN_BY_PC :: u32 where "LOG_OPT_FOLLOW_STAR_BEGIN_BY_PC \<equiv> 0x020411"
abbreviation (input) LOG_OPT_FOLLOW_STAR_END_BY_PC :: u32 where "LOG_OPT_FOLLOW_STAR_END_BY_PC \<equiv> 0x020412"
abbreviation (input) LOG_OPT_ANTENNA_POSE_STOP_BY_PC :: u32 where "LOG_OPT_ANTENNA_POSE_STOP_BY_PC \<equiv> 0x020305"

definition ended_mode :: "u8 \<Rightarrow> nat \<Rightarrow> u32 \<Rightarrow> ctl \<Rightarrow> ctl" where
  "ended_mode m task code s = (if seek_mode s = m then logged code [] (delete_running task s) else s)"

definition begin_mode :: "(ctl \<Rightarrow> ctl) \<Rightarrow> unit ctio" where
  "begin_mode f = bind_io (alter delete_all) (\<lambda>_. bind_io stop_all (\<lambda>_. alter f))"

definition APP_PCCOMM_AimAtSatModeSel :: command where
  "APP_PCCOMM_AimAtSatModeSel rxbuff =
     (let mode = rxbuff ! 3 in
      if cmd_of rxbuff \<noteq> AimAtSatModeSelID \<or> rxbuff ! 2 \<noteq> 1 then ret_io FAIL
      else bind_io
        (if mode = 0x01 then begin_mode (\<lambda>s. set_work 0x11 (logged LOG_OPT_HAND_AIM_STAR_BEGIN_BY_PC [] s))
         else if mode = 0x02 then begin_mode (\<lambda>s. logged LOG_OPT_AUTO_AIM_STAR_BEGIN_BY_PC []
           (TaskSatelliteTrackCreate (set_work 0x20 s)))
         else if mode = 0x03 then begin_mode (\<lambda>s. logged LOG_OPT_FOLLOW_STAR_BEGIN_BY_PC []
           (TaskSatGradientTrackCreate (set_work 0x30 s)))
         else if mode = 0x00 then
           bind_io (alter (\<lambda>s. ended_mode 0x03 1 LOG_OPT_FOLLOW_STAR_END_BY_PC
             (ended_mode 0x04 2 LOG_OPT_ANTENNA_POSE_STOP_BY_PC
             (ended_mode 0x02 0 LOG_OPT_AUTO_AIM_STAR_END_BY_PC
             (ended_mode 0x01 2 LOG_OPT_HAND_AIM_STAR_END_BY_PC s))))) (\<lambda>_.
           bind_io stop_all (\<lambda>_. alter (set_work 0x00)))
         else ret_io ())
        (\<lambda>_. bind_io (alter (set_mode mode)) (\<lambda>_. ret_io SUCC)))"

section \<open>Driving by hand\<close>

abbreviation (input) AntennaSigleStepCtrID :: u16 where "AntennaSigleStepCtrID \<equiv> 0x0203"
abbreviation (input) AntennaDegreeCtrID :: u16 where "AntennaDegreeCtrID \<equiv> 0x0204"

text \<open>The PC counts the directions the other way round.\<close>

definition pc_dir :: "u8 \<Rightarrow> u8 option" where
  "pc_dir dir = (if dir = 0x01 then Some ANTENNA_DIR_RIGHT_UP_CLOCK
     else if dir = 0x02 then Some ANTENNA_DIR_LEFT_DOWN_ANTICLOCK else None)"

definition APP_PCCOMM_AntennaSigleStepCtr :: command where
  "APP_PCCOMM_AntennaSigleStepCtr rxbuff s =
     (if seek_mode s \<noteq> 0x01 then Inr (FAIL, s)
      else if cmd_of rxbuff \<noteq> AntennaSigleStepCtrID \<or> rxbuff ! 2 \<noteq> 2 then Inr (FAIL, s)
      else case pc_dir (rxbuff ! 4) of None \<Rightarrow> Inr (FAIL, s)
      | Some dir \<Rightarrow>
          if is_part (rxbuff ! 3) then
            bind_io (alter (set_work 0x10)) (\<lambda>_.
            bind_io (on_drive (Motor_TimeConfigDrive (rxbuff ! 3) dir)) (\<lambda>sta.
            bind_io (alter (set_work 0x11)) (\<lambda>_. ret_io sta))) s
          else Inr (FAIL, s))"

text \<open>\<open>(FP32)(.. signed sum of shifts ..)/1000.0\<close>: the division is a double one.\<close>

definition hand_degree :: "bytes \<Rightarrow> nat \<Rightarrow> fp32" where
  "hand_degree b i = fp_div1000d (fp_of_s32 (int32_at b i))"

definition hand_aims :: "bytes \<Rightarrow> ctl \<Rightarrow> ctl" where
  "hand_aims b = set_antenna (\<lambda>a. a\<lparr>aim_position_hand := hand_degree b 3, aim_cabrage_hand := hand_degree b 7,
     aim_polar_hand := hand_degree b 11\<rparr>)"

definition hand_aims_allowed :: "strAntennaParam \<Rightarrow> bool" where
  "hand_aims_allowed a \<longleftrightarrow>
     \<not> (aim_position_hand a \<le> motor_position_start a \<or> aim_position_hand a \<ge> motor_position_end a)
     \<and> \<not> (aim_cabrage_hand a \<le> motor_cabrage_start a \<or> aim_cabrage_hand a \<ge> motor_cabrage_end a)
     \<and> (ant_elec_coder_num a \<ge> 3 \<longrightarrow>
        \<not> (aim_polar_hand a \<le> motor_polar_start a \<or> aim_polar_hand a \<ge> motor_polar_end a))"

definition APP_PCCOMM_AntennaTurnCtr :: command where
  "APP_PCCOMM_AntennaTurnCtr rxbuff s =
     (if seek_mode s \<noteq> 0x01 then Inr (FAIL, s)
      else if cmd_of rxbuff \<noteq> AntennaDegreeCtrID then Inr (FAIL, s)
      else if rxbuff ! 2 = 0 then Inr (SUCC, delete_running 2 s)
      else if rxbuff ! 2 \<noteq> 12 then Inr (FAIL, s)
      else let s1 = hand_aims rxbuff s in
        if hand_aims_allowed (antenna s1) then Inr (SUCC, TaskAntennaRecordGotoCreate s1) else Inr (FAIL, s1))"

section \<open>Satellites\<close>

abbreviation (input) SatParamSetID :: u16 where "SatParamSetID \<equiv> 0x0101"
abbreviation (input) SatDelID :: u16 where "SatDelID \<equiv> 0x0108"
abbreviation (input) SatSelID :: u16 where "SatSelID \<equiv> 0x0211"
abbreviation (input) LOG_OPT_ADD_STAR :: u32 where "LOG_OPT_ADD_STAR \<equiv> 0x021301"
abbreviation (input) LOG_OPT_REVISE_STAR_PARAM :: u32 where "LOG_OPT_REVISE_STAR_PARAM \<equiv> 0x021302"
abbreviation (input) LOG_OPT_DEL_STAR :: u32 where "LOG_OPT_DEL_STAR \<equiv> 0x021303"
abbreviation (input) LOG_OPT_SEL_STAR_BY_PC :: u32 where "LOG_OPT_SEL_STAR_BY_PC \<equiv> 0x021304"

text \<open>The first index below the bound at which the list holds \<open>x\<close>.\<close>

fun index_of :: "'a \<Rightarrow> 'a list \<Rightarrow> nat option" where
  "index_of x [] = None"
| "index_of x (y # ys) = (if y = x then Some 0 else map_option Suc (index_of x ys))"

definition sats :: "ctl \<Rightarrow> strSATList" where
  "sats s = SATList (info s)"

text \<open>\<open>Sat_ID[i] = v\<close>, a byte-indexed store that may lie outside the array.\<close>

definition put_sat :: "u8 \<Rightarrow> unit ctio" where
  "put_sat i s =
     (if i = 0 \<or> unat i > length (Sat_ID (sats s)) then Inl OutOfBounds
      else Inr ((), set_sats (\<lambda>l. l\<lparr>Sat_ID := (Sat_ID l)[unat i - 1 := i], SatList_Refresh_flag := 0x01\<rparr>) s))"

definition sat_of_cmd :: "u8 \<Rightarrow> bytes \<Rightarrow> strSatParam" where
  "sat_of_cmd i b = \<lparr>sat_id = i, sat_name = take 16 (drop 4 b), sat_lon_flag = b ! 20,
     sat_lon = fp_div1000 (fp_of_s32 (int32_at b 21)), sat_freq = int32_at b 25, sat_polar_type = b ! 29\<rparr>"

definition APP_PCCOMM_SatParamSet :: command where
  "APP_PCCOMM_SatParamSet rxbuff s =
     (if cmd_of rxbuff \<noteq> SatParamSetID \<or> rxbuff ! 2 \<noteq> 0x1B then Inr (FAIL, s)
      else if rxbuff ! 3 = 0x00 \<and> Sat_Total_num (sats s) \<ge> of_nat SAT_MAX_NUM then Inr (FAIL, s)
      else
        let slot = (if rxbuff ! 3 = 0x00 then index_of 0 (Sat_ID (sats s)) else None);
            sat = sat_of_cmd (case slot of Some i \<Rightarrow> of_nat (i + 1) | None \<Rightarrow> rxbuff ! 3) rxbuff
        in bind_io (on_eeprom (APP_PARAM_SatParam_Save sat)) (\<lambda>r.
          if r = FAIL then ret_io FAIL
          else if slot \<noteq> None then
            bind_io (alter (set_sats (\<lambda>l. l\<lparr>Sat_Total_num := Sat_Total_num l + 1\<rparr>))) (\<lambda>_.
            bind_io (\<lambda>s1. on_eeprom (APP_PARAM_SatTotalNum_Save (Sat_Total_num (sats s1))) s1) (\<lambda>_.
            bind_io (put_sat (sat_id sat)) (\<lambda>_.
            bind_io (alter (logged LOG_OPT_ADD_STAR (APP_LOG_SatParam2Logbuff sat))) (\<lambda>_. ret_io SUCC))))
          else
            bind_io (put_sat (sat_id sat)) (\<lambda>_.
            bind_io (alter (logged LOG_OPT_REVISE_STAR_PARAM (APP_LOG_SatParam2Logbuff sat))) (\<lambda>_. ret_io SUCC))) s)"

text \<open>One number of a delete command. The structure that is logged is a static one: it keeps what the
  call before it left when the satellite cannot be read; \<open>DelSatParam\<close> is threaded through.\<close>

definition delete_sat :: "u8 \<Rightarrow> strSatParam \<Rightarrow> strSatParam ctio" where
  "delete_sat i old s =
     (case index_of i (Sat_ID (sats s)) of None \<Rightarrow> Inr (old, s)
      | Some k \<Rightarrow>
          bind_io (alter (set_sats (\<lambda>l. l\<lparr>Sat_ID := (Sat_ID l)[k := 0], SatList_Refresh_flag := 0x01,
            Sat_Total_num := (if Sat_Total_num l > 0 then Sat_Total_num l - 1 else Sat_Total_num l)\<rparr>))) (\<lambda>_.
          bind_io (on_eeprom (APP_PARAM_SatParam_Read (old\<lparr>sat_id := i\<rparr>))) (\<lambda>(_, sat).
          bind_io (on_eeprom (APP_PARAM_Sat_Del sat)) (\<lambda>_.
          bind_io (alter (logged LOG_OPT_DEL_STAR (APP_LOG_SatParam2Logbuff sat))) (\<lambda>_. ret_io sat)))) s)"

fun delete_sats :: "bytes \<Rightarrow> strSatParam \<Rightarrow> strSatParam ctio" where
  "delete_sats [] old = ret_io old"
| "delete_sats (i # is) old = bind_io (delete_sat i old) (delete_sats is)"

text \<open>The numbers are read from the 50 bytes of the receive buffer.\<close>

definition APP_PCCOMM_DelSatSet :: "strSatParam \<Rightarrow> bytes \<Rightarrow> (status \<times> strSatParam) ctio" where
  "APP_PCCOMM_DelSatSet DelSatParam rxbuff s =
     (if cmd_of rxbuff \<noteq> SatDelID then Inr ((FAIL, DelSatParam), s)
      else if 3 + unat (rxbuff ! 2) > length rxbuff then Inl OutOfBounds
      else bind_io (delete_sats (take (unat (rxbuff ! 2)) (drop 3 rxbuff)) DelSatParam) (\<lambda>sat.
           bind_io (\<lambda>s1. on_eeprom (APP_PARAM_SatTotalNum_Save (Sat_Total_num (sats s1))) s1) (\<lambda>_. ret_io (SUCC, sat))) s)"


section \<open>Theoretical angles\<close>

text \<open>The transcendental functions of the mathematical library, on doubles.\<close>

record libm =
  m_sin :: "rat \<Rightarrow> rat"
  m_cos :: "rat \<Rightarrow> rat"
  m_tan :: "rat \<Rightarrow> rat"
  m_atan2 :: "rat \<Rightarrow> rat \<Rightarrow> rat"
  m_pow :: "rat \<Rightarrow> rat \<Rightarrow> rat"

definition M_PI :: fp32 where
  "M_PI = f32 (f64 (314159265358979323846 / 100000000000000000000))"

definition radians :: "fp32 \<Rightarrow> fp32" where
  "radians x = f32 (f32 (x * M_PI) / 180)"

definition degrees :: "fp32 \<Rightarrow> fp32" where
  "degrees x = f32 (x * f32 (180 / M_PI))"

definition APP_AIMDEGREE_Cabrage_Get :: "libm \<Rightarrow> u8 \<Rightarrow> fp32 \<Rightarrow> fp32 \<Rightarrow> fp32 \<Rightarrow> fp32 \<Rightarrow> fault + fp32" where
  "APP_AIMDEGREE_Cabrage_Get m antenna_type slon local_lon local_lat corr_val =
     (let c = f64 (m_cos m (f32 (radians slon - radians local_lon)) * m_cos m (radians local_lat));
          r = f64 (1 - m_pow m c 2)
      in if r < 0 then Inl NonFinite
         else let cabrage = degrees (f32 (m_atan2 m (f64 (c - f64 (151266 / 1000000))) (f64_sqrt r)))
         in Inr (if antenna_type = 1 then f32 (cabrage - corr_val)
                 else if antenna_type = 2 then f32 (cabrage + corr_val) else cabrage))"

definition APP_AIMDEGREE_Position_Get :: "libm \<Rightarrow> fp32 \<Rightarrow> fp32 \<Rightarrow> fp32 \<Rightarrow> fp32" where
  "APP_AIMDEGREE_Position_Get m slon local_lon local_lat =
     f32 (180 - degrees (f32 (m_atan2 m (m_tan m (f32 (radians slon - radians local_lon)))
       (m_sin m (radians local_lat)))))"

definition APP_AIMDEGREE_Polar_Get :: "libm \<Rightarrow> fp32 \<Rightarrow> fp32 \<Rightarrow> fp32 \<Rightarrow> fp32" where
  "APP_AIMDEGREE_Polar_Get m slon local_lon local_lat =
     degrees (f32 (m_atan2 m (m_sin m (f32 (radians slon - radians local_lon)))
       (m_tan m (radians local_lat))))"

definition APP_MONITOR_AimDegree_Get :: "libm \<Rightarrow> unit ctio" where
  "APP_MONITOR_AimDegree_Get m s =
     (let p = ACUParam (info s); lon = sat_lon (CurrSatParam p);
          local_lon = lp_lon (LocalPositionParam p); local_lat = lp_lat (LocalPositionParam p);
          corr_val = fp_div1000 (fp_of_u32 (ant_offset_angle (AntennaParam p)));
          polar = APP_AIMDEGREE_Polar_Get m lon local_lon local_lat
      in bind_f (APP_AIMDEGREE_Cabrage_Get m (ant_type (AntennaParam p)) lon local_lon local_lat corr_val) (\<lambda>cabrage.
        Inr ((), set_antenna (\<lambda>a. a\<lparr>aim_cabrage := cabrage,
          aim_position := APP_AIMDEGREE_Position_Get m lon local_lon local_lat,
          aim_polar := (if sat_polar_type (CurrSatParam p) = 0x59
                        then if polar < 0 then f32 (polar + 90) else f32 (polar - 90) else polar)\<rparr>) s)))"

section \<open>Selection of a satellite\<close>

definition beacon_freq :: "u32 \<Rightarrow> strAntennaParam \<Rightarrow> u32" where
  "beacon_freq freq a = (if freq > ant_lo_freq a then freq - ant_lo_freq a else ant_lo_freq a - freq)"

definition refresh_param :: "ctl \<Rightarrow> ctl" where
  "refresh_param = set_sta (\<lambda>c. c\<lparr>dev_param_reflash_flag := (dev_param_reflash_flag c)[0 := 0x01, 1 := 0x01]\<rparr>)"

text \<open>\<open>stack\<close> is what the uninitialised local structure holds: it is used when the satellite cannot be
  read. \<open>APP_PARAM_HistoryMaxMv_Save(0)\<close> passes a null pointer.\<close>

definition APP_PCCOMM_SelSat :: "libm \<Rightarrow> strSatParam \<Rightarrow> command" where
  "APP_PCCOMM_SelSat m stack rxbuff s0 =
     (let i = rxbuff ! 3 in
      if cmd_of rxbuff \<noteq> SatSelID \<or> rxbuff ! 2 \<noteq> 1 then Inr (FAIL, s0)
      else if i = 0 \<or> unat i > length (Sat_ID (sats s0)) then Inl OutOfBounds
      else if i \<noteq> Sat_ID (sats s0) ! (unat i - 1) then Inr (FAIL, s0)
      else bind_io (on_eeprom (APP_PARAM_SatCurrID_Save i)) (\<lambda>_.
        bind_io (on_eeprom (APP_PARAM_SatParam_Read (stack\<lparr>sat_id := i\<rparr>))) (\<lambda>(_, sat). (\<lambda>s.
        bind_io (on_rcv (APP_BEACON_SetFreq (beacon_freq (sat_freq sat) (antenna s)))) (\<lambda>r.
          if r = FAIL then ret_io FAIL
          else bind_io (alter (set_param (\<lambda>p. p\<lparr>CurrSatParam := sat\<rparr>))) (\<lambda>_.
            bind_io (APP_MONITOR_AimDegree_Get m) (\<lambda>_.
            bind_io (\<lambda>s1. on_eeprom (APP_PARAM_HistoryMaxMv_Save 0 (at_null s1)) s1) (\<lambda>_.
            bind_io (on_eeprom (APP_PARAM_CurrSatParam_Save sat)) (\<lambda>_.
            bind_io (alter (\<lambda>s1. logged LOG_OPT_SEL_STAR_BY_PC (APP_LOG_SatParam2Logbuff (CurrSatParam (ACUParam (info s1))))
              (refresh_param s1))) (\<lambda>_. ret_io SUCC)))))) s))) s0)"

section \<open>Recorded positions\<close>

abbreviation (input) AntennaRecordID :: u16 where "AntennaRecordID \<equiv> 0x0202"
abbreviation (input) AntennaRecordGotoID :: u16 where "AntennaRecordGotoID \<equiv> 0x0206"
abbreviation (input) AntennaRecordDelID :: u16 where "AntennaRecordDelID \<equiv> 0x0207"
abbreviation (input) LOG_OPT_ANTENNA_POSE_RECORD_BY_PC :: u32 where "LOG_OPT_ANTENNA_POSE_RECORD_BY_PC \<equiv> 0x020301"
abbreviation (input) LOG_OPT_ANTENNA_POSE_DEL_BY_PC :: u32 where "LOG_OPT_ANTENNA_POSE_DEL_BY_PC \<equiv> 0x020303"
abbreviation (input) LOG_OPT_ANTENNA_POSE_APP_BY_PC :: u32 where "LOG_OPT_ANTENNA_POSE_APP_BY_PC \<equiv> 0x020304"

definition records :: "ctl \<Rightarrow> strAntennaRecordList" where
  "records s = AntennaRecordList (info s)"

definition pose_log :: "strSatParam \<Rightarrow> strAntennaParam \<Rightarrow> fp32 \<Rightarrow> fp32 \<Rightarrow> fp32 \<Rightarrow> bytes" where
  "pose_log sat a AZ EL PL = APP_LOG_SatParam2Logbuff sat @ APP_LOG_AntennaParam2Logbuff a
     @ APP_LOG_AntennaPoseData2Logbuff AZ EL PL"

text \<open>The 66 bytes of a record.\<close>

definition record_of :: "u8 \<Rightarrow> strACUDevInfo \<Rightarrow> bytes" where
  "record_of i d =
     (let t = SysDateTime d; sat = CurrSatParam (ACUParam d); a = AntennaParam (ACUParam d); c = ACUCurrSta d in
      [i] @ be16 (sdt_year t) @ [sdt_month t, sdt_day t, sdt_hour t, sdt_min t, sdt_senc t]
      @ sat_name sat @ [sat_lon_flag sat] @ be32 (fp_to_u32 (fp_mul1000 (sat_lon sat))) @ be32 (sat_freq sat) @ [sat_polar_type sat]
      @ [ant_type a] @ be32 (ant_offset_angle a) @ [ant_caliber a] @ be32 (ant_lo_freq a) @ [ant_gain_range_flag a, ant_elec_coder_num a]
      @ be32 (fp_to_u32 (beacon_rxpower_mv c)) @ be32 (fp_to_u32 (fp_mul1000 (beacon_rxpower_db c)))
      @ be32 (fp_to_u32 (fp_mul1000 (antenna_position c))) @ be32 (fp_to_u32 (fp_mul1000 (antenna_cabrage c)))
      @ (if ant_elec_coder_num a \<ge> 3 then be32 (fp_to_s32 (fp_mul1000 (antenna_polar c))) else [0, 0, 0, 0]))"

definition put_record :: "u8 \<Rightarrow> unit ctio" where
  "put_record i s =
     (if i = 0 \<or> unat i > length (record_ID (records s)) then Inl OutOfBounds
      else Inr ((), set_records (\<lambda>l. l\<lparr>record_ID := (record_ID l)[unat i - 1 := i]\<rparr>) s))"

definition count_record :: "u32 \<Rightarrow> unit ctio" where
  "count_record n s =
     (let n1 = (if n > of_nat ANTENNA_RECORD_MAX_NUM then of_nat ANTENNA_RECORD_MAX_NUM else n) in
      if n1 \<noteq> record_Total_num (records s) then
        bind_io (on_eeprom (APP_PARAM_AntennaRecord_TotalNum_Save n1)) (\<lambda>_.
          alter (set_records (\<lambda>l. l\<lparr>record_Total_num := n1\<rparr>))) s
      else Inr ((), s))"

text \<open>With every slot in use and a smaller count the number stays 0. The name has 16 bytes.\<close>

definition APP_PCCOMM_AntennaRecord :: command where
  "APP_PCCOMM_AntennaRecord rxbuff s =
     (if cmd_of rxbuff \<noteq> AntennaRecordID \<or> rxbuff ! 2 \<noteq> 0 then Inr (FAIL, s)
      else if record_Total_num (records s) \<ge> of_nat ANTENNA_RECORD_MAX_NUM then Inr (FAIL, s)
      else
        let i = (case index_of 0 (record_ID (records s)) of None \<Rightarrow> 0 | Some k \<Rightarrow> of_nat (k + 1));
            b = copy_over (replicate 80 0) (record_of i (info s))
        in bind_io (on_eeprom (APP_PARAM_AntennaRecord_Save i b 66)) (\<lambda>r.
          if r = FAIL then ret_io FAIL
          else bind_io (put_record i) (\<lambda>_.
            bind_io (count_record (record_Total_num (records s) + 1)) (\<lambda>_.
            bind_io (alter (\<lambda>s1. let d = info s1; c = ACUCurrSta d in
              logged LOG_OPT_ANTENNA_POSE_RECORD_BY_PC (pose_log (CurrSatParam (ACUParam d)) (AntennaParam (ACUParam d))
                (antenna_position c) (antenna_cabrage c) (antenna_polar c)) s1)) (\<lambda>_. ret_io SUCC)))) s)"

text \<open>One number of a delete command. The static structures are cleared after every use; the count
  is not saved.\<close>

definition delete_record :: "u8 \<Rightarrow> unit ctio" where
  "delete_record i s =
     (case index_of i (record_ID (records s)) of None \<Rightarrow> Inr ((), s)
      | Some k \<Rightarrow>
          bind_io (alter (set_records (\<lambda>l. l\<lparr>record_ID := (record_ID l)[k := 0],
            record_Total_num := (if record_Total_num l > 0 then record_Total_num l - 1 else record_Total_num l)\<rparr>))) (\<lambda>_.
          bind_io (on_eeprom (APP_PARAM_AntennaRecord_Read2Struct i (zero_strSatParam, zero_strAntennaParam, 0, 0, 0)))
            (\<lambda>(_, sat, a, AZ, EL, PL).
          bind_io (alter (logged LOG_OPT_ANTENNA_POSE_DEL_BY_PC (pose_log sat a AZ EL PL))) (\<lambda>_.
          bind_io (on_eeprom (APP_PARAM_AntennaRecord_Save i (replicate 64 0) 64)) (\<lambda>_. ret_io ())))) s)"

fun delete_records :: "bytes \<Rightarrow> unit ctio" where
  "delete_records [] = ret_io ()"
| "delete_records (i # is) = bind_io (delete_record i) (\<lambda>_. delete_records is)"

definition APP_PCCOMM_DelAntennaRecord :: command where
  "APP_PCCOMM_DelAntennaRecord rxbuff s =
     (if cmd_of rxbuff \<noteq> AntennaRecordDelID then Inr (FAIL, s)
      else if 3 + unat (rxbuff ! 2) > length rxbuff then Inl OutOfBounds
      else bind_io (delete_records (take (unat (rxbuff ! 2)) (drop 3 rxbuff))) (\<lambda>_. ret_io SUCC) s)"

text \<open>Whatever is running is ended before the command is looked at; of several tasks only one.\<close>

definition leave_mode :: "unit ctio" where
  "leave_mode s =
     (if seek_mode s \<noteq> 0x00 then
        bind_io (alter (\<lambda>s. set_mode 0x00 (if running 2 s then delete_running 2 s
          else if running 1 s then delete_running 1 s else delete_running 0 s))) (\<lambda>_. stop_all) s
      else Inr ((), s))"

definition same_antenna :: "bytes \<Rightarrow> strAntennaParam \<Rightarrow> bool" where
  "same_antenna b a \<longleftrightarrow> b ! 34 = ant_type a \<and> int32_at b 35 = ant_offset_angle a \<and> b ! 39 = ant_caliber a"

definition sat_of_record :: "bytes \<Rightarrow> strSatParam" where
  "sat_of_record b = \<lparr>sat_id = 0x00, sat_name = take 16 (drop 8 b), sat_lon_flag = b ! 24,
     sat_lon = fp_div1000 (fp_of_s32 (int32_at b 25)), sat_freq = int32_at b 29, sat_polar_type = b ! 33\<rparr>"

definition aims_of_record :: "bytes \<Rightarrow> strAntennaParam \<Rightarrow> strAntennaParam" where
  "aims_of_record b a = a\<lparr>aim_cabrage := fp_div1000 (fp_of_s32 (int32_at b 58)),
     aim_position := fp_div1000 (fp_of_s32 (int32_at b 54)), aim_polar := fp_div1000 (fp_of_s32 (int32_at b 62))\<rparr>"

definition goto_record :: "bytes \<Rightarrow> status ctio" where
  "goto_record b s0 =
     (if \<not> same_antenna b (antenna s0) then Inr (FAIL, s0)
      else bind_io (alter (set_param (\<lambda>p. p\<lparr>CurrSatParam := sat_of_record b\<rparr>))) (\<lambda>_.
        bind_io (on_rcv (APP_BEACON_SetFreq (beacon_freq (int32_at b 29) (antenna s0)))) (\<lambda>r.
          if r = FAIL then ret_io FAIL
          else
            let mv = fp_of_u32 (int32_at b 46) in
            bind_io (alter (set_sta (\<lambda>c. c\<lparr>history_max_mv := mv, AGC_max_mv := mv\<rparr>))) (\<lambda>_.
            bind_io (\<lambda>s. on_eeprom (APP_PARAM_HistoryMaxMv_Save (at_history s) mv) s) (\<lambda>_.
            bind_io (alter (\<lambda>s. set_mode 0x04 (set_antenna (aims_of_record b) s))) (\<lambda>_.
            bind_io (alter (\<lambda>s. let p = ACUParam (info s); a = AntennaParam p in
              logged LOG_OPT_ANTENNA_POSE_APP_BY_PC
                (pose_log (CurrSatParam p) a (aim_position a) (aim_cabrage a) (aim_polar a)) s)) (\<lambda>_.
            bind_io (\<lambda>s. on_eeprom (APP_PARAM_CurrSatParam_Save (CurrSatParam (ACUParam (info s)))) s) (\<lambda>_.
            bind_io (alter (\<lambda>s. TaskAntennaRecordGotoCreate (set_work 0x40 (refresh_param s)))) (\<lambda>_.
              ret_io SUCC)))))))) s0)"

definition APP_PCCOMM_AntennaRecordGoto :: command where
  "APP_PCCOMM_AntennaRecordGoto rxbuff =
     bind_io leave_mode (\<lambda>_ s.
       let i = rxbuff ! 3 in
       if cmd_of rxbuff \<noteq> AntennaRecordGotoID then Inr (FAIL, s)
       else if i > of_nat ANTENNA_RECORD_MAX_NUM \<or> i = 0 then Inr (FAIL, s)
       else if i \<notin> set (record_ID (records s)) then Inr (FAIL, s)
       else bind_io (on_eeprom (APP_PARAM_AntennaRecord_Read i (replicate 100 0))) (\<lambda>(r, b).
         if r = FAIL then ret_io FAIL
         else if i \<noteq> b ! 0 then ret_io FAIL
         else goto_record b) s)"

end
