(* ===== verification/Setup.thy ===== *)
theory Setup
  imports Control
begin

text \<open>
  The commands of a control PC that set the antenna up: its parameters, the adjustment of the encoders,
  of the turning directions and of the limits, the position of the station, the network and the
  factory settings, all of \<open>APP/src/app_pccomm.c\<close>. \<open>m\<close> is the mathematical library.
\<close>

section \<open>Antenna parameters\<close>

abbreviation (input) AntennaParamSetID :: u16 where "AntennaParamSetID \<equiv> 0x0102"
abbreviation (input) AntennaParamAdjustID :: u16 where "AntennaParamAdjustID \<equiv> 0x0103"
abbreviation (input) LOG_OPT_ANTENNA_PARAM_SET_BY_PC :: u32 where "LOG_OPT_ANTENNA_PARAM_SET_BY_PC \<equiv> 0x021101"
abbreviation (input) LOG_OPT_ANTENNA_CODER_DATA_ADJUST :: u32 where "LOG_OPT_ANTENNA_CODER_DATA_ADJUST \<equiv> 0x021221"

definition clear_all_records :: "unit ctio" where
  "clear_all_records =
     bind_io (alter (set_records (\<lambda>_. zero_strAntennaRecordList))) (\<lambda>_.
     bind_io (on_eeprom (APP_PARAM_AntennaRecord_TotalNum_Save 0x00)) (\<lambda>_.
     bind_io (on_eeprom APP_PARAM_AntennaRecord_AllClear) (\<lambda>_. ret_io ())))"

definition antenna_of_cmd :: "bytes \<Rightarrow> strAntennaParam \<Rightarrow> strAntennaParam" where
  "antenna_of_cmd b a = a\<lparr>ant_type := b ! 3, ant_offset_angle := (if b ! 3 = 0x00 then 0x00 else int32_at b 4),
     ant_caliber := b ! 8, ant_lo_freq := int32_at b 9, ant_gain_range_flag := b ! 13, ant_elec_coder_num := b ! 14\<rparr>"

definition scan_ranges :: "u32 \<Rightarrow> bytes \<Rightarrow> bytes" where
  "scan_ranges lo_freq r = (if lo_freq \<ge> 8000000 then r[0 := 2, 1 := 5, 2 := 10] else r[0 := 5, 1 := 8, 2 := 12])"

definition set_gain_range :: "u8 \<Rightarrow> status ctio" where
  "set_gain_range flag s =
     (if flag \<noteq> bc_agc_output_range (BeaconConf (BeaconInfo (DeviceInfo (info s)))) then
        bind_io (on_rcv (APP_BEACON_SetAGCOutputRange flag)) (\<lambda>r.
          if r = FAIL then ret_io FAIL
          else bind_io (alter (\<lambda>s1. s1\<lparr>rcv := set_bconf (\<lambda>c. c\<lparr>bc_agc_output_range := flag\<rparr>) (rcv s1)\<rparr>)) (\<lambda>_. ret_io SUCC)) s
      else Inr (SUCC, s))"

text \<open>The recorded positions belong to a frequency band: they are cleared when the band of the local
  oscillator changes.\<close>

definition APP_PCCOMM_AntennaParamSet :: "libm \<Rightarrow> command" where
  "APP_PCCOMM_AntennaParamSet m rxbuff =
     (if cmd_of rxbuff \<noteq> AntennaParamSetID then ret_io FAIL
      else bind_io (set_gain_range (rxbuff ! 13)) (\<lambda>r.
        if r = FAIL then ret_io FAIL
        else let new = int32_at rxbuff 9 in
          bind_io (\<lambda>s. if (ant_lo_freq (antenna s) \<ge> 8000000 \<and> new < 8000000)
                         \<or> (ant_lo_freq (antenna s) < 8000000 \<and> new \<ge> 8000000)
                       then clear_all_records s else Inr ((), s)) (\<lambda>_.
          bind_io (alter (set_antenna (antenna_of_cmd rxbuff))) (\<lambda>_.
          bind_io (APP_MONITOR_AimDegree_Get m) (\<lambda>_.
          bind_io (alter (\<lambda>s. set_seek (\<lambda>k. k\<lparr>ScanRange_param := scan_ranges (ant_lo_freq (antenna s)) (ScanRange_param k)\<rparr>) s)) (\<lambda>_.
          bind_io (\<lambda>s. on_eeprom (APP_PARAM_AntennaParam_Save (antenna s)) s) (\<lambda>q.
            if q = FAIL then ret_io FAIL
            else bind_io (alter (\<lambda>s. logged LOG_OPT_ANTENNA_PARAM_SET_BY_PC (APP_LOG_AntennaParam2Logbuff (antenna s)) s))
                   (\<lambda>_. ret_io SUCC))))))))"

text \<open>The present encoder angles are declared to be the theoretical angles. The structure is a local one, \<open>stack\<close>;
  with two encoders the entry of the polarisation and the type are never set.\<close>

definition adjusted_map :: "strAllElecCoderMapAntenna \<Rightarrow> strACUDevInfo \<Rightarrow> strAllElecCoderMapAntenna option" where
  "adjusted_map stack d =
     (let a = AntennaParam (ACUParam d);
          entry = (\<lambda>i deg. \<lparr>ElecCoder_count_mode = ec_count_mode (EleccoderConf (coder_of i d)),
             ElecCoder_degree = ed_degree (EleccoderData (coder_of i d)), Antenna_degree = deg\<rparr>);
          two = (ElecCoderMapAntenna stack)[0 := entry 0 (aim_position a), 1 := entry 1 (aim_cabrage a)]
      in if \<not> has_link 0 d \<or> \<not> has_link 1 d then None
         else if ant_elec_coder_num a \<ge> 3 then
           (if \<not> has_link 2 d then None
            else if sat_polar_type (CurrSatParam (ACUParam d)) = 0x59 then
              (if aim_polar a < 0
               then Some (stack\<lparr>ElecCoderMapAntenna := two[2 := entry 2 (f32 (aim_polar a + 90))], SatPolarType := 2\<rparr>)
               else Some (stack\<lparr>ElecCoderMapAntenna := two[2 := entry 2 (f32 (aim_polar a - 90))], SatPolarType := 1\<rparr>))
            else Some (stack\<lparr>ElecCoderMapAntenna := two[2 := entry 2 (aim_polar a)], SatPolarType := 0\<rparr>))
         else Some (stack\<lparr>ElecCoderMapAntenna := two\<rparr>))"

definition APP_PCCOMM_AntennaParamAdjustSet :: "strAllElecCoderMapAntenna \<Rightarrow> command" where
  "APP_PCCOMM_AntennaParamAdjustSet stack rxbuff s =
     (if cmd_of rxbuff \<noteq> AntennaParamAdjustID then Inr (FAIL, s)
      else case adjusted_map stack (info s) of None \<Rightarrow> Inr (FAIL, s)
      | Some e \<Rightarrow>
          bind_io (on_eeprom (APP_PARAM_ElecCode_Map_AntennaDegree_Save e)) (\<lambda>r.
            if r = FAIL then ret_io FAIL
            else bind_io (alter (set_unit (\<lambda>d. d\<lparr>DeviceInfo := (DeviceInfo d)\<lparr>AllElecCoderMapAntenna := e\<rparr>\<rparr>))) (\<lambda>_.
              bind_io clear_all_records (\<lambda>_.
              bind_io (alter (logged LOG_OPT_ANTENNA_CODER_DATA_ADJUST [])) (\<lambda>_. ret_io SUCC)))) s)"

section \<open>Position of the station, time source and threshold\<close>

abbreviation (input) LocalParamSetID :: u16 where "LocalParamSetID \<equiv> 0x0104"
abbreviation (input) LocalParamSrcSelSetID :: u16 where "LocalParamSrcSelSetID \<equiv> 0x0105"
abbreviation (input) SysDateTimeSrcSelSetID :: u16 where "SysDateTimeSrcSelSetID \<equiv> 0x0107"
abbreviation (input) AimAtSatParamSetID :: u16 where "AimAtSatParamSetID \<equiv> 0x010A"
abbreviation (input) AGCRecordID :: u16 where "AGCRecordID \<equiv> 0x0209"
abbreviation (input) LOG_OPT_SET_LOCALL_PARAM :: u32 where "LOG_OPT_SET_LOCALL_PARAM \<equiv> 0x021401"
abbreviation (input) LOG_OPT_SET_FOLLOW_STATR_MIN_LIMIT_PARAM :: u32 where
  "LOG_OPT_SET_FOLLOW_STATR_MIN_LIMIT_PARAM \<equiv> 0x021501"

definition set_local :: "(strLocalPositionParam \<Rightarrow> strLocalPositionParam) \<Rightarrow> ctl \<Rightarrow> ctl" where
  "set_local f = set_param (\<lambda>p. p\<lparr>LocalPositionParam := f (LocalPositionParam p)\<rparr>)"

definition set_hand :: "(strHandLocalPositionParam \<Rightarrow> strHandLocalPositionParam) \<Rightarrow> ctl \<Rightarrow> ctl" where
  "set_hand f = set_unit (\<lambda>d. d\<lparr>DeviceInfo := (DeviceInfo d)\<lparr>HandLocalPositionParam := f (HandLocalPositionParam (DeviceInfo d))\<rparr>\<rparr>)"

definition hand_of_cmd :: "bytes \<Rightarrow> strHandLocalPositionParam \<Rightarrow> strHandLocalPositionParam" where
  "hand_of_cmd b h = h\<lparr>hp_lon_flag := b ! 3, hp_lon := fp_div1000 (fp_of_s32 (int32_at b 4)), hp_lat_flag := b ! 8,
     hp_lat := fp_div1000 (fp_of_s32 (int32_at b 9)), hp_height := int32_at b 13\<rparr>"

text \<open>The height reaches the EEPROM only. \<open>stack\<close> is the local structure.\<close>

definition APP_PCCOMM_LocalParamSet :: "libm \<Rightarrow> strHandLocalPositionParam \<Rightarrow> command" where
  "APP_PCCOMM_LocalParamSet m stack rxbuff s =
     (if cmd_of rxbuff \<noteq> LocalParamSetID \<or> rxbuff ! 2 \<noteq> 0x0E then Inr (FAIL, s)
      else
        let h = hand_of_cmd rxbuff stack; l = LocalPositionParam (ACUParam (info s)) in
        bind_io
          (if hp_lon_flag h \<noteq> lp_lon_flag l \<or> hp_lon h \<noteq> lp_lon l \<or> hp_lat_flag h \<noteq> lp_lat_flag l \<or> hp_lat h \<noteq> lp_lat l then
             bind_io (alter (set_local (\<lambda>l. l\<lparr>lp_lon_flag := hp_lon_flag h, lp_lon := hp_lon h, lp_lat_flag := hp_lat_flag h,
               lp_lat := hp_lat h, lp_data_src_flag := 0x01\<rparr>))) (\<lambda>_.
             bind_io (alter (set_hand (\<lambda>q. q\<lparr>hp_lon_flag := hp_lon_flag h, hp_lon := hp_lon h, hp_lat_flag := hp_lat_flag h,
               hp_lat := hp_lat h\<rparr>))) (\<lambda>_.
             bind_io (APP_MONITOR_AimDegree_Get m) (\<lambda>_.
             bind_io (on_eeprom (APP_PARAM_LocallHandParam_Save h)) (\<lambda>_. ret_io ()))))
           else ret_io ()) (\<lambda>_.
        bind_io (alter (\<lambda>s1. logged LOG_OPT_SET_LOCALL_PARAM
          (APP_LOG_LocallParam2Logbuff (HandLocalPositionParam (DeviceInfo (info s1)))) s1)) (\<lambda>_. ret_io SUCC)) s)"

text \<open>The three sources of the position: receiver, by hand, and by hand as the last choice copies it, which
  divides the degrees by 1000 once more.\<close>

definition from_gps :: "strGPSData \<Rightarrow> strLocalPositionParam \<Rightarrow> strLocalPositionParam" where
  "from_gps g l = l\<lparr>lp_lon_flag := gps_lon_flag g, lp_lon := fp_div1000d (fp_of_u32 (gps_lon g)), lp_lat_flag := gps_lat_flag g,
     lp_lat := fp_div1000d (fp_of_u32 (gps_lat g)), lp_height := gps_height g,
     lp_valid_flag := (if gps_valid g = 0x41 then 1 else 0)\<rparr>"

definition from_hand :: "strHandLocalPositionParam \<Rightarrow> strLocalPositionParam \<Rightarrow> strLocalPositionParam" where
  "from_hand h l = l\<lparr>lp_lon_flag := hp_lon_flag h, lp_lon := hp_lon h, lp_lat_flag := hp_lat_flag h, lp_lat := hp_lat h,
     lp_height := hp_height h, lp_valid_flag := hp_valid_flag h\<rparr>"

definition from_hand_divided :: "strHandLocalPositionParam \<Rightarrow> strLocalPositionParam \<Rightarrow> strLocalPositionParam" where
  "from_hand_divided h l = l\<lparr>lp_lon_flag := hp_lon_flag h, lp_lon := fp_div1000d (hp_lon h), lp_lat_flag := hp_lat_flag h,
     lp_lat := fp_div1000d (hp_lat h), lp_height := hp_height h, lp_valid_flag := hp_valid_flag h\<rparr>"

definition take_source :: "u8 \<Rightarrow> ctl \<Rightarrow> ctl" where
  "take_source src s0 =
     (let s = set_local (\<lambda>l. l\<lparr>lp_data_src_flag := src\<rparr>) s0;
          g = GPSData (GPSInfo (DeviceInfo (info s))); h = HandLocalPositionParam (DeviceInfo (info s))
      in set_local (if src = 0x02 then from_gps g else if src = 0x01 then from_hand h
           else if gps_valid g = 0x41 then from_gps g
           else if hp_valid_flag h > 0 then from_hand_divided h else from_gps g) s)"

definition APP_PCCOMM_LocalParamSrcSelSet :: "libm \<Rightarrow> command" where
  "APP_PCCOMM_LocalParamSrcSelSet m rxbuff =
     (if cmd_of rxbuff \<noteq> LocalParamSrcSelSetID \<or> rxbuff ! 2 \<noteq> 1 then ret_io FAIL
      else bind_io (alter (take_source (rxbuff ! 3))) (\<lambda>_.
        bind_io (APP_MONITOR_AimDegree_Get m) (\<lambda>_.
        bind_io (\<lambda>s. on_eeprom (APP_PARAM_LocallParamSrc_Save (lp_data_src_flag (LocalPositionParam (ACUParam (info s))))) s)
          (\<lambda>_. ret_io SUCC))))"

definition APP_PCCOMM_SysDateTimeSrcSelSet :: command where
  "APP_PCCOMM_SysDateTimeSrcSelSet rxbuff s0 =
     (if cmd_of rxbuff \<noteq> SysDateTimeSrcSelSetID \<or> rxbuff ! 2 \<noteq> 1 then Inr (FAIL, s0)
      else
        let s = set_unit (\<lambda>d. d\<lparr>SysDateTime := (SysDateTime d)\<lparr>sdt_src_flag := ucast (rxbuff ! 3)\<rparr>\<rparr>) s0;
            g = GPSData (GPSInfo (DeviceInfo (info s)))
        in Inr (SUCC, if (rxbuff ! 3 = 0x02 \<or> rxbuff ! 3 = 0x00) \<and> gps_valid g = 0x41
                      then set_unit (\<lambda>d. d\<lparr>SysDateTime := (SysDateTime d)\<lparr>sdt_year := gps_year g, sdt_month := gps_month g,
                        sdt_day := gps_day g, sdt_hour := gps_hour g, sdt_min := gps_min g, sdt_senc := gps_sec g,
                        sdt_ms := gps_ms g\<rparr>\<rparr>) s
                      else s))"

definition APP_PCCOMM_AimAtSatParamSet :: command where
  "APP_PCCOMM_AimAtSatParamSet rxbuff =
     (if cmd_of rxbuff \<noteq> AimAtSatParamSetID then ret_io FAIL
      else bind_io (alter (set_seek (\<lambda>k. k\<lparr>AimAtSat_Limit_mv := int32_at rxbuff 3\<rparr>))) (\<lambda>_.
        bind_io (\<lambda>s. on_eeprom (APP_PARAM_AimAtSatParamLimitmv_Save (SeekSatParam (ACUParam (info s)))) s) (\<lambda>_.
        bind_io (alter (logged LOG_OPT_SET_FOLLOW_STATR_MIN_LIMIT_PARAM (take 4 (drop 3 rxbuff)))) (\<lambda>_. ret_io SUCC))))"

definition APP_PCCOMM_AGCRecord :: command where
  "APP_PCCOMM_AGCRecord rxbuff s =
     (if cmd_of rxbuff \<noteq> AGCRecordID \<or> rxbuff ! 2 \<noteq> 0 then Inr (FAIL, s)
      else on_eeprom (APP_PARAM_HistoryMaxMv_Save (at_rxpower s) (beacon_rxpower_mv (ACUCurrSta (info s)))) s)"

section \<open>Directions and limits\<close>

abbreviation (input) AntennaTurnDirAdjustBeginSetID :: u16 where "AntennaTurnDirAdjustBeginSetID \<equiv> 0x010B"
abbreviation (input) AntennaTurnDirAdjustFinishSetID :: u16 where "AntennaTurnDirAdjustFinishSetID \<equiv> 0x010C"
abbreviation (input) AntennaHardWareLimitSetID :: u16 where "AntennaHardWareLimitSetID \<equiv> 0x010E"
abbreviation (input) MOTOR_DIR_ANTICLOCK :: u8 where "MOTOR_DIR_ANTICLOCK \<equiv> 0x01"
abbreviation (input) MOTOR_DIR_CLOCK :: u8 where "MOTOR_DIR_CLOCK \<equiv> 0x02"

text \<open>The motor is started without the semaphore of the link and without a look at the limits.\<close>

definition APP_PCCOMM_AntennaTurnDirAdjustBegin :: command where
  "APP_PCCOMM_AntennaTurnDirAdjustBegin rxbuff =
     (if cmd_of rxbuff \<noteq> AntennaTurnDirAdjustBeginSetID \<or> \<not> is_part (rxbuff ! 3) \<or> pc_dir (rxbuff ! 4) = None then ret_io FAIL
      else bind_io (on_drive (Motor_DriveStart (rxbuff ! 3) MOTOR_DIR_CLOCK)) (\<lambda>r.
        if r = FAIL then ret_io FAIL
        else bind_io (alter (\<lambda>s. set_mode 0x01 (s\<lparr>AntennaDir := push_bit 8 (ucast (rxbuff ! 3)) + ucast MOTOR_DIR_CLOCK\<rparr>)))
               (\<lambda>_. ret_io SUCC)))"

definition turning_part :: "ctl \<Rightarrow> u8" where
  "turning_part s = ucast (drop_bit 8 (AntennaDir s AND 0xFF00))"

definition turning_dir :: "ctl \<Rightarrow> u8" where
  "turning_dir s = ucast (AntennaDir s AND 0x00FF)"

definition give_up :: "status ctio" where
  "give_up = bind_io (alter (set_mode 0x00)) (\<lambda>_. ret_io FAIL)"

definition map_dir :: "u8 \<Rightarrow> u8 \<Rightarrow> ctl \<Rightarrow> ctl" where
  "map_dir part dir s = set_antenna (\<lambda>a. a\<lparr>AntennaDirMapMotor := (AntennaDirMapMotor a)[unat part - 1 :=
     (AntennaDirMapMotor a ! (unat part - 1))\<lparr>antenna_part := part, motor_dir :=
       (motor_dir (AntennaDirMapMotor a ! (unat part - 1)))[0 := (if dir = turning_dir s then MOTOR_DIR_ANTICLOCK else MOTOR_DIR_CLOCK),
         1 := (if dir = turning_dir s then MOTOR_DIR_CLOCK else MOTOR_DIR_ANTICLOCK)]\<rparr>]\<rparr>) s"

definition end_turn :: "status ctio" where
  "end_turn = (\<lambda>s. on_drive (Motor_DriveEnd (turning_part s) (turning_dir s)) s)"

text \<open>\<open>mode\<close> is what an uninitialised variable of \<open>APP_ElecEncoder_DataAddDir_Adjust\<close> holds. Before any
  adjustment has begun \<open>AntennaDir\<close> is 0.\<close>

definition finish_turn :: "u8 \<Rightarrow> u8 \<Rightarrow> u8 \<Rightarrow> status ctio" where
  "finish_turn mode part dir =
     bind_io (alter (map_dir part dir)) (\<lambda>_.
     bind_io (\<lambda>s. on_eeprom (APP_PARAM_AntennaDir_Map_MotorDir_Save part (AntennaDirMapMotor (antenna s) ! (unat part - 1))) s) (\<lambda>r.
       if r = FAIL then give_up
       else bind_io (on_coders (APP_ElecEncoder_DataAddDir_Adjust mode part dir)) (\<lambda>sta.
         bind_io end_turn (\<lambda>e.
         bind_io (if e = FAIL then bind_io (alter (set_mode 0x00)) (\<lambda>_. end_turn) else ret_io SUCC) (\<lambda>e2.
           if e2 = FAIL then ret_io FAIL
           else bind_io (alter (\<lambda>s. set_mode 0x00 (logged (0x021200 + ucast part) [] s))) (\<lambda>_. ret_io sta))))))"

definition APP_PCCOMM_AntennaTurnDirAdjustFinish :: "u8 \<Rightarrow> command" where
  "APP_PCCOMM_AntennaTurnDirAdjustFinish mode rxbuff s =
     (let part = rxbuff ! 3 in
      if cmd_of rxbuff \<noteq> AntennaTurnDirAdjustFinishSetID then give_up s
      else case pc_dir (rxbuff ! 4) of None \<Rightarrow> give_up s
      | Some dir \<Rightarrow>
          if turning_part s \<noteq> part then bind_io end_turn (\<lambda>_. give_up) s
          else if \<not> is_part part then Inl OutOfBounds
          else finish_turn mode part dir s)"

fun limit_code :: "u8 \<Rightarrow> u32 option" where
  "limit_code p = (if p = 0x10 then Some 0x021212 else if p = 0x11 then Some 0x021211
     else if p = 0x20 then Some 0x021214 else if p = 0x21 then Some 0x021213
     else if p = 0x30 then Some 0x021215 else if p = 0x31 then Some 0x021216 else None)"

text \<open>A limit is set three degrees inside the present angle, rounded inwards. The angle is stored in
  place, so that without a link to the encoder the old limit is moved.\<close>

definition inwards :: "bool \<Rightarrow> fp32 \<Rightarrow> fp32" where
  "inwards up x = (if up then f32 (of_int \<lceil>f32 (x + 3)\<rceil>) else f32 (of_int \<lfloor>f32 (x - 3)\<rfloor>))"

definition new_limit :: "u8 \<Rightarrow> fp32 option \<Rightarrow> strAntennaParam \<Rightarrow> strAntennaParam" where
  "new_limit p degree a =
     (let now = (\<lambda>old. case degree of None \<Rightarrow> old | Some x \<Rightarrow> x) in
      if p = 0x10 then a\<lparr>motor_position_start := inwards True (now (motor_position_start a))\<rparr>
      else if p = 0x11 then a\<lparr>motor_position_end := inwards False (now (motor_position_end a))\<rparr>
      else if p = 0x20 then a\<lparr>motor_cabrage_start := inwards True (now (motor_cabrage_start a))\<rparr>
      else if p = 0x21 then a\<lparr>motor_cabrage_end := inwards False (now (motor_cabrage_end a))\<rparr>
      else if p = 0x30 then a\<lparr>motor_polar_end := inwards False (now (motor_polar_end a))\<rparr>
      else a\<lparr>motor_polar_start := inwards True (now (motor_polar_start a))\<rparr>)"

definition APP_PCCOMM_AntennaHargWareLimitAdjust :: command where
  "APP_PCCOMM_AntennaHargWareLimitAdjust rxbuff s =
     (let p = rxbuff ! 3 in
      if cmd_of rxbuff \<noteq> AntennaHardWareLimitSetID then Inr (FAIL, s)
      else case limit_code p of None \<Rightarrow> Inr (FAIL, s)
      | Some log_code \<Rightarrow>
          let part = drop_bit 4 (p AND 0xF0); data = ed_data (EleccoderData (coder_of (unat part - 1) (info s))) in
          bind_io (on_eeprom (APP_PARAM_HardWareLimit_Save part p data)) (\<lambda>r.
            if r = FAIL then ret_io FAIL
            else bind_io (alter (\<lambda>s1. let degree = APP_ElecEncoder_Data2DegreeFloat part data
                     ((coders s1)\<lparr>eep := (eep (coders s1))\<lparr>acu := info s1\<rparr>\<rparr>) in
                   logged log_code [] (set_antenna (new_limit p
                     (APP_MONITOR_LocallAntennaAdjustDegreeDataGet part degree (info s1))) s1))) (\<lambda>_. ret_io SUCC)) s)"

section \<open>Network and factory settings\<close>

abbreviation (input) NetWorkSetID :: u16 where "NetWorkSetID \<equiv> 0x0215"
abbreviation (input) FactoryResetID :: u16 where "FactoryResetID \<equiv> 0x0221"

definition le32_at :: "bytes \<Rightarrow> nat \<Rightarrow> u32" where
  "le32_at b i = un32 (b ! (i + 3)) (b ! (i + 2)) (b ! (i + 1)) (b ! i)"

definition network :: "ctl \<Rightarrow> strNetWork" where
  "network s = NetWork (DeviceInfo (info s))"

definition change_net :: "u32 \<Rightarrow> (strNetWork \<Rightarrow> u32) \<Rightarrow> (strNetWork \<Rightarrow> strNetWork) \<Rightarrow> u32 \<Rightarrow> bytes \<Rightarrow> ctl \<Rightarrow> ctl" where
  "change_net v get put code b s =
     (if v \<noteq> get (network s)
      then logged code b (set_unit (\<lambda>d. d\<lparr>DeviceInfo := (DeviceInfo d)\<lparr>NetWork := put (NetWork (DeviceInfo d))\<rparr>\<rparr>) s) else s)"

text \<open>\<open>LWIP_NetworkConfigChange\<close> passes the three addresses to the network interface, \<open>None\<close> when it is not
  called.\<close>

definition APP_PCCOMM_NetWorkSet :: "bytes \<Rightarrow> (status \<times> (u32 \<times> u32 \<times> u32) option) ctio" where
  "APP_PCCOMM_NetWorkSet rxbuff s =
     (let ip = le32_at rxbuff 3; mask = le32_at rxbuff 7; gate = le32_at rxbuff 11 in
      if cmd_of rxbuff \<noteq> NetWorkSetID \<or> rxbuff ! 2 \<noteq> 12 then Inr ((FAIL, None), s)
      else if mask AND 0xFF000000 = 0xFF000000 then Inr ((FAIL, None), s)
      else if ip AND 0x00FFFFFF \<noteq> gate AND 0x00FFFFFF then Inr ((FAIL, None), s)
      else if ip \<noteq> nw_ip_addr (network s) \<or> mask \<noteq> nw_mask (network s) \<or> gate \<noteq> nw_gate (network s) then
        bind_io (alter (\<lambda>s. change_net gate nw_gate (\<lambda>n. n\<lparr>nw_gate := gate\<rparr>) 0x021603 (take 4 (drop 11 rxbuff))
          (change_net mask nw_mask (\<lambda>n. n\<lparr>nw_mask := mask\<rparr>) 0x021602 (take 4 (drop 7 rxbuff))
          (change_net ip nw_ip_addr (\<lambda>n. n\<lparr>nw_ip_addr := ip\<rparr>) 0x021601 (take 4 (drop 3 rxbuff)) s)))) (\<lambda>_.
        bind_io (\<lambda>s. on_eeprom (APP_PARAM_NetWork_Save (network s)) s) (\<lambda>_. (\<lambda>s.
          Inr ((SUCC, Some (nw_ip_addr (network s), nw_mask (network s), nw_gate (network s))), s)))) s
      else Inr ((SUCC, None), s))"

definition save_limit :: "u8 \<Rightarrow> u8 \<Rightarrow> unit ctio" where
  "save_limit part p = bind_io (on_eeprom (APP_PARAM_HardWareLimit_Save part p 0x00)) (\<lambda>_. ret_io ())"

definition APP_PCCOMM_FactoryReset :: command where
  "APP_PCCOMM_FactoryReset rxbuff =
     (if cmd_of rxbuff \<noteq> FactoryResetID then ret_io FAIL
      else bind_io (save_limit motor_position_id 0x10) (\<lambda>_. bind_io (save_limit motor_position_id 0x11) (\<lambda>_.
        bind_io (save_limit motor_cabrage_id 0x20) (\<lambda>_. bind_io (save_limit motor_cabrage_id 0x21) (\<lambda>_.
        bind_io (save_limit motor_polar_id 0x30) (\<lambda>_. bind_io (save_limit motor_polar_id 0x31) (\<lambda>_.
        bind_io (alter (set_antenna (\<lambda>a. a\<lparr>motor_position_start := 100, motor_position_end := 260, motor_cabrage_start := 5,
          motor_cabrage_end := 85, motor_polar_start := -90, motor_polar_end := 90\<rparr>))) (\<lambda>_. ret_io SUCC))))))))"

end
