(* ===== verification/ControlLaws.thy ===== *)
theory ControlLaws
  imports Setup BeaconProps ParamLaws
begin

text \<open>
  What the calls into the other components do to the state of the commands: a save or a read of a
  parameter leaves the device record alone but for the state of the EEPROM, on any hardware, and does its work on
  a working board.
\<close>

section \<open>Reading the state\<close>

lemma alter_Inr [simp]: "alter f s = Inr (x, s') \<longleftrightarrow> s' = f s"
  by (auto simp: alter_def)

lemma bind_alter [simp]: "bind_io (alter f) k s = k () (f s)"
  by (simp add: bind_io_def alter_def)

lemma info_set_unit [simp]: "info (set_unit f s) = f (info s)"
  by (simp add: info_def set_unit_def board_def)

lemma set_unit_sel [simp]:
  "coders (set_unit f s) = coders s" "AntennaDir (set_unit f s) = AntennaDir s" "started (set_unit f s) = started s"
  "journal (set_unit f s) = journal s" "at_history (set_unit f s) = at_history s" "at_null (set_unit f s) = at_null s"
  "port6 (rcv (set_unit f s)) = port6 (rcv s)" "APP_Beacon_Send_Sem (rcv (set_unit f s)) = APP_Beacon_Send_Sem (rcv s)"
  "Task_Run_Flag (watch (rcv (set_unit f s))) = Task_Run_Flag (watch (rcv s))"
  "sent (core (watch (rcv (set_unit f s)))) = sent (core (watch (rcv s)))"
  "killed (watch (rcv (set_unit f s))) = killed (watch (rcv s))"
  by (simp_all add: set_unit_def)

lemma info_other [simp]:
  "info (s\<lparr>coders := e\<rparr>) = info s" "info (s\<lparr>started := l\<rparr>) = info s" "info (s\<lparr>AntennaDir := a\<rparr>) = info s"
  "info (s\<lparr>journal := j\<rparr>) = info s" "info (logged c b s) = info s" "coders (logged c b s) = coders s"
  by (simp_all add: info_def logged_def)

lemmas setters = set_param_def set_antenna_def set_seek_def set_mode_def set_sta_def set_work_def set_sats_def set_records_def
lemmas getters = seek_mode_def antenna_def sats_def records_def

lemma index_of_Some: "index_of x ys = Some k \<Longrightarrow> k < length ys \<and> ys ! k = x \<and> (\<forall>j < k. ys ! j \<noteq> x)"
proof (induction ys arbitrary: k)
  case (Cons y ys)
  then show ?case by (cases k) (auto simp: nth_Cons' split: if_splits)
qed simp

lemma index_of_None: "index_of x ys = None \<longleftrightarrow> x \<notin> set ys"
  by (induction ys) auto

section \<open>The EEPROM\<close>

definition chip :: "ctl \<Rightarrow> eew" where
  "chip s = eep (coders s)"

text \<open>Only the state of the EEPROM may differ.\<close>

definition but_eeprom :: "strACUDevInfo \<Rightarrow> strACUDevInfo \<Rightarrow> bool" where
  "but_eeprom d d' \<longleftrightarrow> (\<exists>e. d' = d\<lparr>DeviceInfo := (DeviceInfo d)\<lparr>EEPROMInfo := e\<rparr>\<rparr>)"

lemma but_eeprom_refl: "but_eeprom d d"
  unfolding but_eeprom_def by (rule exI [of _ "EEPROMInfo (DeviceInfo d)"]) simp

lemma but_eeprom_trans: "but_eeprom d e \<Longrightarrow> but_eeprom e f \<Longrightarrow> but_eeprom d f"
  by (auto simp: but_eeprom_def)

lemma but_eeprom_sel:
  assumes "but_eeprom d d'"
  shows "SATList d' = SATList d" "AntennaRecordList d' = AntennaRecordList d" "ACUParam d' = ACUParam d"
    "ACUCurrSta d' = ACUCurrSta d" "SysDateTime d' = SysDateTime d" "BeaconInfo (DeviceInfo d') = BeaconInfo (DeviceInfo d)"
  using assms by (auto simp: but_eeprom_def)

text \<open>A call into the EEPROM changes the copy of the chip, and of the device record what \<open>but_eeprom\<close> allows.\<close>

definition chip_only :: "ctl \<Rightarrow> ctl \<Rightarrow> bool" where
  "chip_only s s' \<longleftrightarrow> but_eeprom (info s) (info s')
     \<and> s' = set_unit (\<lambda>_. info s') (s\<lparr>coders := (coders s)\<lparr>eep := chip s'\<rparr>\<rparr>)"

lemma chip_set_unit [simp]: "chip (set_unit f s) = chip s"
  by (simp add: chip_def)

lemma chip_other [simp]: "chip (logged c b s) = chip s" "chip (s\<lparr>journal := j\<rparr>) = chip s"
  "chip (s\<lparr>coders := (coders s)\<lparr>eep := w\<rparr>\<rparr>) = w"
  by (simp_all add: chip_def logged_def)

lemma chip_only_sel:
  assumes "chip_only s s'"
  shows "sats s' = sats s" "records s' = records s" "antenna s' = antenna s" "seek_mode s' = seek_mode s"
    "journal s' = journal s" "started s' = started s" "port6 (rcv s') = port6 (rcv s)"
    "APP_Beacon_Send_Sem (rcv s') = APP_Beacon_Send_Sem (rcv s)" "AntennaDir s' = AntennaDir s"
    "Task_Run_Flag (watch (rcv s')) = Task_Run_Flag (watch (rcv s))"
    "sent (core (watch (rcv s'))) = sent (core (watch (rcv s)))" "ACUParam (info s') = ACUParam (info s)"
    "ACUCurrSta (info s') = ACUCurrSta (info s)" "at_history s' = at_history s"
proof -
  have e: "but_eeprom (info s) (info s')" "s' = set_unit (\<lambda>_. info s') (s\<lparr>coders := (coders s)\<lparr>eep := chip s'\<rparr>\<rparr>)"
    using assms by (auto simp: chip_only_def)
  show "sats s' = sats s" "records s' = records s" "antenna s' = antenna s" "seek_mode s' = seek_mode s"
    "ACUParam (info s') = ACUParam (info s)" "ACUCurrSta (info s') = ACUCurrSta (info s)"
    using but_eeprom_sel [OF e(1)] by (simp_all add: getters)
  have "f s' = f (set_unit (\<lambda>_. info s') (s\<lparr>coders := (coders s)\<lparr>eep := chip s'\<rparr>\<rparr>))" for f :: "ctl \<Rightarrow> 'a"
    using arg_cong [OF e(2), of f] .
  from this [of journal] this [of started] this [of AntennaDir] this [of at_history]
  show "journal s' = journal s" "started s' = started s" "AntennaDir s' = AntennaDir s" "at_history s' = at_history s"
    by simp_all
  have f: "f (rcv s') = f (rcv (set_unit (\<lambda>_. info s') (s\<lparr>coders := (coders s)\<lparr>eep := chip s'\<rparr>\<rparr>)))" for f :: "bea \<Rightarrow> 'a"
    using arg_cong [OF e(2), of "\<lambda>x. f (rcv x)"] .
  from f [of port6] show "port6 (rcv s') = port6 (rcv s)" by simp
  from f [of APP_Beacon_Send_Sem] show "APP_Beacon_Send_Sem (rcv s') = APP_Beacon_Send_Sem (rcv s)" by simp
  from f [of "\<lambda>r. Task_Run_Flag (watch r)"]
  show "Task_Run_Flag (watch (rcv s')) = Task_Run_Flag (watch (rcv s))" by simp
  from f [of "\<lambda>r. sent (core (watch r))"]
  show "sent (core (watch (rcv s'))) = sent (core (watch (rcv s)))" by simp
qed

lemma chip_only_trans: "chip_only s t \<Longrightarrow> chip_only t u \<Longrightarrow> chip_only s u"
proof -
  assume a: "chip_only s t" and b: "chip_only t u"
  have "u = set_unit (\<lambda>_. info u) (t\<lparr>coders := (coders t)\<lparr>eep := chip u\<rparr>\<rparr>)"
    and t: "t = set_unit (\<lambda>_. info t) (s\<lparr>coders := (coders s)\<lparr>eep := chip t\<rparr>\<rparr>)"
    using a b unfolding chip_only_def by blast+
  note this(1)
  also have "set_unit (\<lambda>_. info u) (t\<lparr>coders := (coders t)\<lparr>eep := chip u\<rparr>\<rparr>)
    = set_unit (\<lambda>_. info u) (s\<lparr>coders := (coders s)\<lparr>eep := chip u\<rparr>\<rparr>)"
    by (subst (1 2) t) (simp add: set_unit_def)
  finally show ?thesis using but_eeprom_trans a b unfolding chip_only_def by blast
qed

lemma board_ok_of_acu [simp]: "board_ok (w\<lparr>acu := d\<rparr>) = board_ok w"
  by (simp add: board_ok_def)

lemma region_acu [simp]: "region (w\<lparr>acu := d\<rparr>) = region w"
  by (simp add: region_def fun_eq_iff)

lemma set_link_but: "but_eeprom (acu w) (acu (set_link v w))"
  by (auto simp: but_eeprom_def set_link_def)

text \<open>On any hardware a call into the EEPROM changes no more than that.\<close>

definition within_eeprom :: "eew \<Rightarrow> eew \<Rightarrow> bool" where
  "within_eeprom w w' \<longleftrightarrow> but_eeprom (acu w) (acu w')"

interpretation wee: frame within_eeprom
  by unfold_locales (auto simp: within_eeprom_def intro: but_eeprom_refl but_eeprom_trans)

lemma writes_acu: "writes w w' \<Longrightarrow> acu w' = acu w"
  by (auto simp: writes_def)

lemma comm_err_but: "but_eeprom (acu w) (acu (comm_err w))"
  using set_link_but [of "w\<lparr>EEPROM_COMM_err_cnt := EEPROM_COMM_err_cnt w + 1\<rparr>" COMM_UNLINK]
  by (simp add: comm_err_def Let_def but_eeprom_refl)

lemma save_within: "obeys within_eeprom (APP_PARAM_Save a xs n)"
proof (rule obeysI)
  fix w r w'
  assume s: "APP_PARAM_Save a xs n w = Inr (r, w')"
  obtain r1 w1 where 1: "HW_EEPROM_WriteBuffer (ucast a) xs (unat n) w = (r1, w1)" by fastforce
  obtain r2 got w2 where 2: "HW_EEPROM_ReadBuffer (ucast a) (unat n) w1 = ((r2, got), w2)" by (metis surj_pair)
  have "acu w1 = acu w" using writes_acu [OF WriteBuffer_writes [of w "ucast a" xs "unat n"]] 1 by simp
  moreover have "acu w2 = acu w1" using writes_acu [OF reads_writes [OF ReadBuffer_reads(1) [OF 2]]] .
  ultimately show "within_eeprom w w'"
    using s 1 2 comm_err_but [of w1] comm_err_but [of w2]
    by (auto simp: APP_PARAM_Save_def within_eeprom_def but_eeprom_refl split: if_splits)
qed

lemma read_loop_within: "obeys within_eeprom (read_loop a buff i n)"
proof -
  have "read_loop a buff i n w = Inr (r, w') \<Longrightarrow> within_eeprom w w'" for w r w'
  proof (induction a buff i n w arbitrary: r w' rule: read_loop.induct)
    case (1 a buff i n w)
    let ?k = "if n > 256 then 256 else n"
    obtain r1 got w1 where 2: "HW_EEPROM_ReadBuffer (ucast a) ?k w = ((r1, got), w1)" by (metis surj_pair)
    have e: "acu w1 = acu w" using writes_acu [OF reads_writes [OF ReadBuffer_reads(1) [OF 2]]] .
    show ?case
    proof (cases "n = 0 \<or> r1 = FAIL")
      case True
      then show ?thesis using 1(2) 2 e comm_err_but [of w1]
        by (auto simp: read_loop.simps [of a buff i n w] Let_def within_eeprom_def but_eeprom_refl split: if_splits)
    next
      case False
      then have "within_eeprom w1 w'"
        using 1 2 by (simp add: read_loop.simps [of a buff i n w] Let_def split: if_splits)
      then show ?thesis using e by (simp add: within_eeprom_def)
    qed
  qed
  then show ?thesis by (rule obeysI)
qed

lemma read_within: "obeys within_eeprom (APP_PARAM_Read a buff n)"
proof -
  have "obeys within_eeprom (\<lambda>w. if r = FAIL then Inr ((FAIL, b), w)
      else Inr ((SUCC, b), set_link COMM_LINK (w\<lparr>EEPROM_COMM_err_cnt := 0\<rparr>)))" for r and b :: bytes
    using set_link_but [of "w\<lparr>EEPROM_COMM_err_cnt := 0\<rparr>" COMM_LINK for w]
    by (auto simp: obeys_def within_eeprom_def but_eeprom_refl)
  then show ?thesis
    unfolding APP_PARAM_Read_def case_prod_unfold by (intro wee.seq read_loop_within)
qed

lemma read_param_within: "obeys within_eeprom (read_param a k n old f)"
  unfolding read_param_def case_prod_unfold by (intro wee.seq read_within wee.ret)

lemma save_param_within: "obeys within_eeprom (save_param a xs)"
  unfolding save_param_def by (rule save_within)

lemma on_eeprom_chip_only:
  assumes "obeys within_eeprom m" "on_eeprom m s = Inr (x, s')"
  shows "chip_only s s'"
proof -
  obtain w where w: "m ((chip s)\<lparr>acu := info s\<rparr>) = Inr (x, w)"
    "s' = set_unit (\<lambda>_. acu w) (s\<lparr>coders := (coders s)\<lparr>eep := w\<rparr>\<rparr>)"
    using assms(2) by (auto simp: on_eeprom_def bind_f_Inr chip_def)
  have "but_eeprom (info s) (acu w)" using obeysD [OF assms(1) w(1)] by (simp add: within_eeprom_def)
  then show ?thesis using w(2) by (simp add: chip_only_def)
qed

text \<open>A save and a read on a working board.\<close>

lemma save_on_board:
  assumes w: "board_ok (chip s)" and f: "fits (a, xs, n)"
  shows "\<exists>s'. on_eeprom (APP_PARAM_Save a xs n) s = Inr (SUCC, s') \<and> board_ok (chip s') \<and> chip_only s s'
    \<and> info s' = info s \<and> region (chip s') a (unat n) = take (unat n) xs
    \<and> (\<forall>b k. apart a (unat n) b k \<longrightarrow> unat b + k \<le> 65536 \<longrightarrow> region (chip s') b k = region (chip s) b k)"
proof -
  let ?w = "(chip s)\<lparr>acu := info s\<rparr>"
  have w': "board_ok ?w" using w by simp
  obtain w1 where 1: "APP_PARAM_Save a xs n ?w = Inr (SUCC, w1)" "board_ok w1"
    "\<And>b k. apart a (unat n) b k \<Longrightarrow> unat b + k \<le> 65536 \<Longrightarrow> region w1 b k = region ?w b k"
    using ee.save_works [OF w' f] by blast
  have "acu w1 = info s" using APP_PARAM_Save_works [OF w' f] 1(1) by auto
  moreover have "region w1 a (unat n) = take (unat n) xs" using ee.save_view [OF 1(1)] f by (simp add: fits_def)
  ultimately show ?thesis
    using 1 by (intro exI [of _ "set_unit (\<lambda>_. info s) (s\<lparr>coders := (coders s)\<lparr>eep := w1\<rparr>\<rparr>)"])
      (simp add: on_eeprom_def chip_def [symmetric] chip_only_def but_eeprom_refl)
qed

lemma save_param_on_board:
  assumes "board_ok (chip s)" "0 < length xs" "length xs \<le> 32" "unat a + length xs \<le> 65536"
  shows "\<exists>s'. on_eeprom (save_param a xs) s = Inr (SUCC, s') \<and> board_ok (chip s') \<and> chip_only s s'
    \<and> info s' = info s \<and> region (chip s') a (length xs) = xs
    \<and> (\<forall>b k. apart a (length xs) b k \<longrightarrow> unat b + k \<le> 65536 \<longrightarrow> region (chip s') b k = region (chip s) b k)"
  using save_on_board [OF assms(1), of a "savebuff xs" "of_nat (length xs)"] assms
  by (simp add: save_param_def fits_def unat_length_u16)

lemma read_on_board:
  assumes w: "board_ok (chip s)" and n: "0 < unat n" "unat n \<le> 256" "unat n \<le> length buff"
  shows "\<exists>s'. on_eeprom (APP_PARAM_Read a buff n) s = Inr ((SUCC, copy_over buff (region (chip s) a (unat n))), s')
    \<and> board_ok (chip s') \<and> chip_only s s' \<and> region (chip s') = region (chip s)"
proof -
  let ?w = "(chip s)\<lparr>acu := info s\<rparr>"
  have w': "board_ok ?w" using w by simp
  obtain t where t: "APP_PARAM_Read a buff n ?w = Inr ((SUCC, copy_over buff (region ?w a (unat n))),
      set_link COMM_LINK (?w\<lparr>tick := t, EEPROM_COMM_err_cnt := 0\<rparr>))"
    using APP_PARAM_Read_works [OF w' n] by blast
  let ?v = "set_link COMM_LINK (?w\<lparr>tick := t, EEPROM_COMM_err_cnt := 0\<rparr>)"
  have v: "board_ok ?v" "region ?v = region (chip s)" "but_eeprom (info s) (acu ?v)"
    using w set_link_but [of "?w\<lparr>tick := t, EEPROM_COMM_err_cnt := 0\<rparr>"] by (simp_all add: region_def fun_eq_iff)
  show ?thesis
    using t v by (intro exI [of _ "set_unit (\<lambda>_. acu ?v) (s\<lparr>coders := (coders s)\<lparr>eep := ?v\<rparr>\<rparr>)"])
      (simp add: on_eeprom_def chip_def [symmetric] chip_only_def)
qed

lemma on_eeprom_bind: "on_eeprom (bind_io m (\<lambda>x. ret_io (f x))) s = bind_io (on_eeprom m) (\<lambda>x. ret_io (f x)) s"
  by (simp add: on_eeprom_def bind_io_def ret_io_def bind_f_def split: sum.splits prod.splits)

text \<open>A unit that was just switched on, with an erased memory and silent devices but for the beacon receiver.\<close>

definition blank :: "(bytes \<times> bytes) list \<Rightarrow> ctl" where
  "blank l = \<lparr>rcv = test_beacon l, coders = \<lparr>eep = fresh_board\<lparr>chip_mem := \<lambda>_. 0\<rparr>, ports = [],
     Elec_coder_UlinkCnt = [0, 0, 0], observed = []\<rparr>, AntennaDir = 0, started = [], journal = [],
     at_history = 0x20000100, at_rxpower = 0x20000104, at_null = 0\<rparr>"

lemma blank_sel [simp]:
  "info (blank l) = zero_strACUDevInfo"
  "board_ok (chip (blank l))" "rcv (blank l) = test_beacon l" "journal (blank l) = []" "started (blank l) = []"
  by (simp_all add: blank_def chip_def info_def test_beacon_def test_watch_def board_def)

lemma blank_region [simp]: "region (chip (blank l)) a n = replicate n 0"
  by (simp add: blank_def chip_def region_def chip_bytes_def list_eq_iff_nth_eq)

section \<open>Theoretical angles\<close>

text \<open>What the theoretical angles need of the mathematical library: a cosine and the square of such a value are at most 1.\<close>

definition libm_ok :: "libm \<Rightarrow> bool" where
  "libm_ok m \<longleftrightarrow> (\<forall>x. \<bar>m_cos m x\<bar> \<le> 1) \<and> (\<forall>c. \<bar>c\<bar> \<le> 1 \<longrightarrow> m_pow m c 2 \<le> 1)"

lemma f64_unit: "\<bar>x\<bar> \<le> 1 \<Longrightarrow> \<bar>f64 x\<bar> \<le> 1"
proof -
  assume x: "\<bar>x\<bar> \<le> 1"
  have one: "f64 1 = 1" by code_simp
  have "f64 x \<le> f64 1" "f64 (- 1) \<le> f64 x" using x by (auto intro!: fround_mono)
  moreover have "f64 (- 1) = - 1" by code_simp
  ultimately show ?thesis using one by linarith
qed

lemma AimDegree_runs:
  assumes "libm_ok m"
  shows "\<exists>f. APP_MONITOR_AimDegree_Get m s = Inr ((), set_antenna f s)"
proof -
  have "0 \<le> f64 (1 - m_pow m (f64 (m_cos m x * m_cos m y)) 2)" for x y
  proof -
    have "\<bar>m_cos m x * m_cos m y\<bar> \<le> 1"
      using assms mult_mono [of "\<bar>m_cos m x\<bar>" 1 "\<bar>m_cos m y\<bar>" 1] by (simp add: libm_ok_def abs_mult)
    then have "m_pow m (f64 (m_cos m x * m_cos m y)) 2 \<le> 1" using assms f64_unit by (simp add: libm_ok_def)
    then show ?thesis by (simp add: fround_nonneg)
  qed
  then show ?thesis
    by (auto simp: APP_MONITOR_AimDegree_Get_def APP_AIMDEGREE_Cabrage_Get_def Let_def not_less [symmetric])
qed

text \<open>A library for examples.\<close>

definition flat_libm :: libm where
  "flat_libm = \<lparr>m_sin = (\<lambda>_. 0), m_cos = (\<lambda>_. 1), m_tan = (\<lambda>_. 0), m_atan2 = (\<lambda>_ _. 0), m_pow = (\<lambda>_ _. 1)\<rparr>"

lemma flat_libm_ok: "libm_ok flat_libm"
  by (simp add: libm_ok_def flat_libm_def)

end
