(* ===== verification/SatTable.thy ===== *)
theory SatTable
  imports ControlLaws
begin

text \<open>
  The commands that add, revise and delete satellites, on a working board: they refine an abstract table, a
  partial map from the number of a satellite to its parameters. The numbers in use are kept in the list
  \<open>Sat_ID\<close> of the device record, the parameters in the EEPROM, where a longitude loses what is
  below a thousandth of a degree.
\<close>

section \<open>The abstract table\<close>

type_synonym sat_table = "u8 \<rightharpoonup> strSatParam"

definition kept :: "strSatParam \<Rightarrow> strSatParam" where
  "kept x = x\<lparr>sat_lon := stored_milli (sat_lon x)\<rparr>"

text \<open>The numbers are 1 to 100; a new satellite gets the lowest that is free.\<close>

definition sat_numbers :: "u8 list" where
  "sat_numbers = map of_nat [1..<101]"

definition free_number :: "sat_table \<Rightarrow> u8 option" where
  "free_number m = find (\<lambda>i. m i = None) sat_numbers"

definition set_spec :: "bytes \<Rightarrow> sat_table \<Rightarrow> status \<times> sat_table" where
  "set_spec c m =
     (if c ! 3 = 0 then
        (case free_number m of None \<Rightarrow> (FAIL, m) | Some i \<Rightarrow> (SUCC, m(i \<mapsto> kept (sat_of_cmd i c))))
      else (SUCC, m(c ! 3 \<mapsto> kept (sat_of_cmd (c ! 3) c))))"

definition delete_spec :: "bytes \<Rightarrow> sat_table \<Rightarrow> sat_table" where
  "delete_spec is m = (\<lambda>i. if i \<in> set is then None else m i)"

section \<open>The concrete table\<close>

definition stored_sat :: "ctl \<Rightarrow> u8 \<Rightarrow> strSatParam" where
  "stored_sat s i = sat_at (copy_over (replicate 32 0) (region (chip s) (sat_addr i) 27))"

text \<open>Slot \<open>k\<close> of the list holds 0 or its own number, the count is that of the slots in use, in the record and in the
  EEPROM, and the parameters stored for a number begin with it if and only if it is in use.\<close>

definition in_use :: "u8 list \<Rightarrow> nat" where
  "in_use xs = length (filter (\<lambda>i. i \<noteq> 0) xs)"

definition slots_ok :: "u8 list \<Rightarrow> bool" where
  "slots_ok xs \<longleftrightarrow> length xs = 100 \<and> (\<forall>k < 100. xs ! k = 0 \<or> unat (xs ! k) = k + 1)"

definition listed :: "ctl \<Rightarrow> u8 \<Rightarrow> bool" where
  "listed s i \<longleftrightarrow> i \<noteq> 0 \<and> i \<in> set (Sat_ID (sats s))"

definition table_of :: "ctl \<Rightarrow> sat_table" where
  "table_of s = (\<lambda>i. if listed s i then Some (stored_sat s i) else None)"

definition table_in :: "ctl \<Rightarrow> bool" where
  "table_in s \<longleftrightarrow> board_ok (chip s) \<and> slots_ok (Sat_ID (sats s))
     \<and> Sat_Total_num (sats s) = of_nat (in_use (Sat_ID (sats s)))
     \<and> (\<forall>i. 1 \<le> unat i \<longrightarrow> unat i \<le> 100 \<longrightarrow> (region (chip s) (sat_addr i) 27 ! 0 = i \<longleftrightarrow> listed s i))"

definition table_ok :: "ctl \<Rightarrow> bool" where
  "table_ok s \<longleftrightarrow> table_in s \<and> region (chip s) APP_EEPROM_Sat_TotalNum_ADDR 2 = be16 (Sat_Total_num (sats s))"

subsection \<open>The list of the numbers\<close>

lemma of_nat_u8_eq: "m < 256 \<Longrightarrow> n < 256 \<Longrightarrow> (of_nat m :: u8) = of_nat n \<longleftrightarrow> m = n"
  by (auto simp: word_unat_eq_iff unat_of_nat)

lemma slot_value:
  assumes "slots_ok xs" "k < 100" "xs ! k = i" "i \<noteq> 0"
  shows "unat i = k + 1"
  using assms by (auto simp: slots_ok_def)

text \<open>A number in use stands in its own slot.\<close>

lemma listed_iff:
  assumes "slots_ok xs" "i \<noteq> 0"
  shows "i \<in> set xs \<longleftrightarrow> 1 \<le> unat i \<and> unat i \<le> 100 \<and> xs ! (unat i - 1) = i"
proof
  assume "i \<in> set xs"
  then obtain k where "k < 100" "xs ! k = i" using assms(1) by (auto simp: in_set_conv_nth slots_ok_def)
  then show "1 \<le> unat i \<and> unat i \<le> 100 \<and> xs ! (unat i - 1) = i" using slot_value [OF assms(1)] assms(2) by auto
next
  assume "1 \<le> unat i \<and> unat i \<le> 100 \<and> xs ! (unat i - 1) = i"
  then show "i \<in> set xs" using assms(1) by (auto simp: slots_ok_def in_set_conv_nth intro!: exI [of _ "unat i - 1"])
qed

lemma index_of_listed:
  assumes "slots_ok xs" "i \<noteq> 0"
  shows "index_of i xs = (if i \<in> set xs then Some (unat i - 1) else None)"
proof (cases "index_of i xs")
  case (Some k)
  then have "k < length xs" "xs ! k = i" using index_of_Some by fastforce+
  moreover have "i \<in> set xs" using Some index_of_None [of i xs] by auto
  ultimately show ?thesis using slot_value [OF assms(1) _ _ assms(2), of k] Some assms(1) by (auto simp: slots_ok_def)
qed (simp add: index_of_None [symmetric])

lemma slots_put:
  assumes "slots_ok xs" "1 \<le> unat i"
  shows "slots_ok (xs[unat i - 1 := i])"
  unfolding slots_ok_def
proof (intro conjI allI impI)
  fix k :: nat
  assume "k < 100"
  then show "xs[unat i - 1 := i] ! k = 0 \<or> unat (xs[unat i - 1 := i] ! k) = k + 1"
    using assms by (cases "k = unat i - 1") (auto simp: slots_ok_def)
qed (use assms(1) in \<open>simp add: slots_ok_def\<close>)

lemma slots_clear: "slots_ok xs \<Longrightarrow> slots_ok (xs[k := 0])"
  by (simp add: slots_ok_def) (metis nth_list_update_eq nth_list_update_neq)

lemma listed_put:
  assumes "slots_ok xs" "1 \<le> unat i" "unat i \<le> 100" "j \<noteq> 0"
  shows "j \<in> set (xs[unat i - 1 := i]) \<longleftrightarrow> j = i \<or> j \<in> set xs"
proof -
  have "j = i" if "1 \<le> unat j" "unat j - 1 = unat i - 1" using that assms(2) by (auto simp: word_unat_eq_iff)
  moreover have "length xs = 100" using assms(1) by (simp add: slots_ok_def)
  ultimately show ?thesis
    using listed_iff [OF slots_put [OF assms(1,2)] assms(4)] listed_iff [OF assms(1,4)] assms
    by (auto simp: nth_list_update split: if_splits)
qed

lemma listed_clear:
  assumes "slots_ok xs" "i \<noteq> 0" "i \<in> set xs" "j \<noteq> 0"
  shows "j \<in> set (xs[unat i - 1 := 0]) \<longleftrightarrow> j \<noteq> i \<and> j \<in> set xs"
proof -
  have i: "1 \<le> unat i" "unat i \<le> 100" using listed_iff [OF assms(1,2)] assms(3) by auto
  have "j = i" if "1 \<le> unat j" "unat j - 1 = unat i - 1" using that i by (auto simp: word_unat_eq_iff)
  moreover have "length xs = 100" using assms(1) by (simp add: slots_ok_def)
  ultimately show ?thesis
    using listed_iff [OF slots_clear [OF assms(1)] assms(4)] listed_iff [OF assms(1,4)] i assms(4)
    by (auto simp: nth_list_update split: if_splits)
qed

lemma in_use_le: "slots_ok xs \<Longrightarrow> in_use xs \<le> 100"
  using length_filter_le [of "\<lambda>i. i \<noteq> 0" xs] by (simp add: in_use_def slots_ok_def)

lemma in_use_update:
  "k < length xs \<Longrightarrow> xs ! k = 0 \<Longrightarrow> x \<noteq> 0 \<Longrightarrow> in_use (xs[k := x]) = Suc (in_use xs)"
  "k < length xs \<Longrightarrow> xs ! k \<noteq> 0 \<Longrightarrow> x = 0 \<Longrightarrow> Suc (in_use (xs[k := x])) = in_use xs"
  "k < length xs \<Longrightarrow> xs ! k \<noteq> 0 \<Longrightarrow> x \<noteq> 0 \<Longrightarrow> in_use (xs[k := x]) = in_use xs"
  unfolding in_use_def by (induction xs arbitrary: k) (auto split: nat.splits simp: nth_Cons')

lemma full_iff: "slots_ok xs \<Longrightarrow> in_use xs \<ge> 100 \<longleftrightarrow> 0 \<notin> set xs"
proof -
  assume "slots_ok xs"
  then have "length xs = 100" by (simp add: slots_ok_def)
  moreover have "length (filter (\<lambda>i. i \<noteq> 0) xs) < length xs \<longleftrightarrow> 0 \<in> set xs"
    by (induction xs) (auto simp: less_Suc_eq_le)
  ultimately show ?thesis by (auto simp: in_use_def not_less)
qed


section \<open>Steps\<close>

text \<open>A slot of the table is apart from every other one and from the count.\<close>

lemma sat_apart:
  "i \<noteq> j \<Longrightarrow> m \<le> 27 \<Longrightarrow> apart (sat_addr i) m (sat_addr j) 27"
  "apart 0xA00 2 (sat_addr j) 27" "m \<le> 27 \<Longrightarrow> apart (sat_addr i) m 0xA00 2"
  "unat (sat_addr i) + 27 \<le> 65536"
  using u8_bound [of i] by (auto simp: apart_def unat_sat_addr word_unat_eq_iff)

lemma sat_at_bytes:
  "length (sat_name x) = 16 \<Longrightarrow> sat_at (copy_over (replicate 32 0) (sat_bytes (sat_id x) x)) = kept x"
  by (simp add: sat_at_def sat_bytes_def unpacked stored_milli_def kept_def)


lemma put_table:
  assumes s: "table_in s" and i: "1 \<le> unat i" "unat i \<le> 100" and x: "sat_id x = i" "length (sat_name x) = 16"
    and c: "board_ok (chip s1)" "region (chip s1) (sat_addr i) 27 = sat_bytes i x"
      "\<And>j. j \<noteq> i \<Longrightarrow> region (chip s1) (sat_addr j) 27 = region (chip s) (sat_addr j) 27"
    and l: "Sat_ID (sats s1) = (Sat_ID (sats s))[unat i - 1 := i]"
      "Sat_Total_num (sats s1) = (if listed s i then Sat_Total_num (sats s) else Sat_Total_num (sats s) + 1)"
  shows "table_in s1 \<and> table_of s1 = (table_of s)(i \<mapsto> kept x)"
proof -
  let ?xs = "Sat_ID (sats s)"
  have ok: "slots_ok ?xs" and n: "Sat_Total_num (sats s) = of_nat (in_use ?xs)"
    using s by (simp_all add: table_in_def)
  have i0: "i \<noteq> 0" using i by auto
  have j: "listed s1 j \<longleftrightarrow> j = i \<or> listed s j" for j
    using listed_put [OF ok i] i0 by (cases "j = 0") (simp_all add: listed_def l)
  have len: "length ?xs = 100" using ok by (simp add: slots_ok_def)
  have "unat i - 1 < 100" using i by simp
  then have "?xs ! (unat i - 1) = 0 \<or> unat (?xs ! (unat i - 1)) = unat i - 1 + 1" using ok unfolding slots_ok_def by blast
  then have "?xs ! (unat i - 1) = 0 \<or> ?xs ! (unat i - 1) = i" using i by (simp add: word_unat_eq_iff)
  then have "in_use (?xs[unat i - 1 := i]) = (if listed s i then in_use ?xs else Suc (in_use ?xs))"
    using in_use_update [of "unat i - 1" ?xs i] listed_iff [OF ok i0] i i0 len by (auto simp: listed_def)
  then have "Sat_Total_num (sats s1) = of_nat (in_use (Sat_ID (sats s1)))"
    by (simp add: l n)
  moreover have "region (chip s1) (sat_addr j) 27 ! 0 = j \<longleftrightarrow> listed s1 j" if "1 \<le> unat j" "unat j \<le> 100" for j
    using that s c(2,3) j by (cases "j = i") (auto simp: table_in_def sat_bytes_def)
  moreover have "slots_ok (Sat_ID (sats s1))" using slots_put [OF ok i(1)] l by simp
  ultimately have "table_in s1" using c(1) unfolding table_in_def by blast
  moreover have "stored_sat s1 i = kept x" using sat_at_bytes [OF x(2)] c(2) x(1) by (simp add: stored_sat_def)
  then have "table_of s1 = (table_of s)(i \<mapsto> kept x)"
    using j c(3) by (auto simp: table_of_def fun_eq_iff stored_sat_def)
  ultimately show ?thesis by blast
qed

lemma find_map: "find P (map f xs) = map_option f (find (P \<circ> f) xs)"
  by (induction xs) auto

lemma index_of_find: "index_of x ys = find (\<lambda>k. ys ! k = x) [0..<length ys]"
proof (induction ys)
  case (Cons y ys)
  have "[0..<length (y # ys)] = 0 # map Suc [0..<length ys]" by (simp add: upt_conv_Cons map_Suc_upt del: upt_Suc)
  then show ?case using Cons by (simp add: find_map comp_def del: upt_Suc)
qed simp

text \<open>The lowest free number of the table is that of the first empty slot.\<close>

lemma free_number_index:
  assumes "slots_ok (Sat_ID (sats s))"
  shows "free_number (table_of s) = map_option (\<lambda>k. of_nat (k + 1)) (index_of 0 (Sat_ID (sats s)))"
proof -
  let ?xs = "Sat_ID (sats s)"
  have "table_of s (of_nat (k + 1)) = None \<longleftrightarrow> ?xs ! k = 0" if "k < 100" for k
  proof -
    have u: "unat (of_nat (k + 1) :: u8) = k + 1" using that unat_of_nat [where 'a = 8, of "k + 1"] by simp
    then have i0: "(of_nat (k + 1) :: u8) \<noteq> 0" by (metis unat_0 add_is_0 one_neq_zero)
    have "?xs ! k = 0 \<or> ?xs ! k = of_nat (k + 1)" using assms that u by (auto simp: slots_ok_def word_unat_eq_iff)
    then show ?thesis using listed_iff [OF assms i0] u i0 that by (auto simp: table_of_def listed_def)
  qed
  then have f: "find (\<lambda>k. table_of s (of_nat (k + 1)) = None) [0..<100] = find (\<lambda>k. ?xs ! k = 0) [0..<100]"
    by (intro find_cong) auto
  have n: "sat_numbers = map (\<lambda>k. of_nat (k + 1)) [0..<100]"
    by (simp add: sat_numbers_def upt_conv_Cons map_Suc_upt [symmetric] comp_def flip: One_nat_def del: upt_Suc)
  have len: "length ?xs = 100" using assms by (simp add: slots_ok_def)
  show ?thesis unfolding free_number_def n find_map comp_def f index_of_find len ..
qed


text \<open>A satellite is read.\<close>

lemma sat_read:
  assumes "board_ok (chip s)" "i \<noteq> 0"
  shows "\<exists>s'. on_eeprom (APP_PARAM_SatParam_Read (stack\<lparr>sat_id := i\<rparr>)) s
      = Inr (if region (chip s) (sat_addr i) 27 ! 0 = i then (SUCC, stored_sat s i) else (FAIL, stack\<lparr>sat_id := i\<rparr>), s')
    \<and> board_ok (chip s') \<and> chip_only s s' \<and> region (chip s') = region (chip s)"
proof -
  obtain s' where s': "on_eeprom (APP_PARAM_Read (sat_addr i) (replicate 32 0) 27) s
      = Inr ((SUCC, copy_over (replicate 32 0) (region (chip s) (sat_addr i) 27)), s')"
    "board_ok (chip s')" "chip_only s s'" "region (chip s') = region (chip s)"
    using read_on_board [OF assms(1), of 27 "replicate 32 0" "sat_addr i"] by auto
  then show ?thesis
    using assms(2)
    by (intro exI [of _ s']) (auto simp: APP_PARAM_SatParam_Read_def on_eeprom_bind case_prod_unfold stored_sat_def
      bind_io_def ret_io_def nth_copy_over)
qed

subsection \<open>Adding and revising\<close>

lemma set_sats_simps [simp]:
  "chip (set_sats f s) = chip s" "sats (set_sats f s) = f (sats s)"
  "chip (logged code b s) = chip s" "sats (logged code b s) = sats s"
  by (simp_all add: set_sats_def sats_def)

lemma put_sat_ok:
  "1 \<le> unat i \<Longrightarrow> unat i \<le> length (Sat_ID (sats s)) \<Longrightarrow> put_sat i s
    = Inr ((), set_sats (\<lambda>l. l\<lparr>Sat_ID := (Sat_ID l)[unat i - 1 := i], SatList_Refresh_flag := 0x01\<rparr>) s)"
  by (auto simp: put_sat_def)

lemma length_sat_bytes: "length (sat_name x) = 16 \<Longrightarrow> length (sat_bytes i x) = 27"
  by (simp add: sat_bytes_def)

text \<open>The slot of a satellite is written.\<close>

lemma save_sat:
  assumes "board_ok (chip s)" "sat_id x = i" "1 \<le> unat i" "length (sat_name x) = 16"
  shows "\<exists>s'. on_eeprom (APP_PARAM_SatParam_Save x) s = Inr (SUCC, s') \<and> board_ok (chip s') \<and> chip_only s s'
    \<and> region (chip s') (sat_addr i) 27 = sat_bytes i x
    \<and> (\<forall>j. j \<noteq> i \<longrightarrow> region (chip s') (sat_addr j) 27 = region (chip s) (sat_addr j) 27)
    \<and> region (chip s') 0xA00 2 = region (chip s) 0xA00 2"
proof -
  have i: "i \<noteq> 0" using assms(3) by auto
  let ?b = "sat_bytes i x"
  have n: "0 < length ?b" "length ?b \<le> 32" "unat (sat_addr i) + length ?b \<le> 65536" "length ?b = 27"
    using length_sat_bytes [OF assms(4)] sat_apart(4) by simp_all
  obtain s' where s': "on_eeprom (save_param (sat_addr i) ?b) s = Inr (SUCC, s')" "board_ok (chip s')" "chip_only s s'"
    "region (chip s') (sat_addr i) 27 = ?b"
    "\<And>b k. apart (sat_addr i) 27 b k \<Longrightarrow> unat b + k \<le> 65536 \<Longrightarrow> region (chip s') b k = region (chip s) b k"
    using save_param_on_board [OF assms(1) n(1-3)] n(4) by auto
  have "APP_PARAM_SatParam_Save x = save_param (sat_addr i) ?b"
    using i assms(2) by (simp add: APP_PARAM_SatParam_Save_def)
  then show ?thesis using s' sat_apart by (intro exI [of _ s']) simp
qed

text \<open>The count is written.\<close>

lemma save_count:
  assumes "board_ok (chip s)"
  shows "\<exists>s'. on_eeprom (APP_PARAM_SatTotalNum_Save n) s = Inr (SUCC, s') \<and> board_ok (chip s') \<and> chip_only s s'
    \<and> region (chip s') 0xA00 2 = be16 n
    \<and> (\<forall>j. region (chip s') (sat_addr j) 27 = region (chip s) (sat_addr j) 27)"
proof -
  obtain s' where "on_eeprom (save_param 0xA00 (be16 n)) s = Inr (SUCC, s')" "board_ok (chip s')" "chip_only s s'"
    "region (chip s') 0xA00 2 = be16 n"
    "\<And>b k. apart 0xA00 2 b k \<Longrightarrow> unat b + k \<le> 65536 \<Longrightarrow> region (chip s') b k = region (chip s) b k"
    using save_param_on_board [where s = s and xs = "be16 n" and a = "0xA00"] assms by auto
  then show ?thesis using sat_apart by (intro exI [of _ s']) (simp add: APP_PARAM_SatTotalNum_Save_def)
qed


definition satcmd :: "bytes \<Rightarrow> bool" where
  "satcmd c \<longleftrightarrow> length c = 50 \<and> cmd_of c = SatParamSetID \<and> c ! 2 = 0x1B"

lemma sat_of_cmd_sel [simp]:
  "sat_id (sat_of_cmd i c) = i" "length c = 50 \<Longrightarrow> length (sat_name (sat_of_cmd i c)) = 16"
  by (simp_all add: sat_of_cmd_def)

lemma table_free:
  assumes "table_in s"
  shows "Sat_Total_num (sats s) \<ge> 100 \<longleftrightarrow> index_of 0 (Sat_ID (sats s)) = None"
proof -
  let ?xs = "Sat_ID (sats s)"
  have ok: "slots_ok ?xs" and n: "Sat_Total_num (sats s) = of_nat (in_use ?xs)"
    using assms by (simp_all add: table_in_def)
  have "unat (Sat_Total_num (sats s)) = in_use ?xs" using n in_use_le [OF ok] by (simp add: unat_of_nat)
  then show ?thesis using full_iff [OF ok] by (simp add: word_le_nat_alt index_of_None)
qed

text \<open>A new satellite.\<close>

lemma add_runs:
  assumes s: "table_ok s" and c: "satcmd c" "c ! 3 = 0" and k: "index_of 0 (Sat_ID (sats s)) = Some k"
  defines "i \<equiv> of_nat (k + 1)"
  shows "\<exists>s'. APP_PCCOMM_SatParamSet c s = Inr (SUCC, s') \<and> table_ok s'
    \<and> table_of s' = (table_of s)(i \<mapsto> kept (sat_of_cmd i c))"
proof -
  let ?x = "sat_of_cmd i c"
  let ?xs = "Sat_ID (sats s)"
  have b: "board_ok (chip s)" and ok: "slots_ok ?xs" using s by (simp_all add: table_ok_def table_in_def)
  have k1: "k < 100" "?xs ! k = 0" using index_of_Some [OF k] ok by (simp_all add: slots_ok_def)
  then have i: "unat i = k + 1" using unat_of_nat [where 'a = 8, of "k + 1"] by (simp add: i_def)
  then have i0: "i \<noteq> 0" by auto
  have new: "\<not> listed s i" using listed_iff [OF ok i0] i k1 i0 by (simp add: listed_def)
  have room: "\<not> Sat_Total_num (sats s) \<ge> 100" using table_free k s by (simp add: table_ok_def)
  have x: "sat_id ?x = i" "length (sat_name ?x) = 16" "1 \<le> unat i" using c i by (simp_all add: satcmd_def)
  obtain s1 where s1: "on_eeprom (APP_PARAM_SatParam_Save ?x) s = Inr (SUCC, s1)" "board_ok (chip s1)" "chip_only s s1"
    "region (chip s1) (sat_addr i) 27 = sat_bytes i ?x"
    "\<And>j. j \<noteq> i \<Longrightarrow> region (chip s1) (sat_addr j) 27 = region (chip s) (sat_addr j) 27"
    using save_sat [OF b x(1,3,2)] by blast
  let ?s2 = "set_sats (\<lambda>l. l\<lparr>Sat_Total_num := Sat_Total_num l + 1\<rparr>) s1"
  obtain s3 where s3: "on_eeprom (APP_PARAM_SatTotalNum_Save (Sat_Total_num (sats ?s2))) ?s2 = Inr (SUCC, s3)"
    "board_ok (chip s3)" "chip_only ?s2 s3" "region (chip s3) 0xA00 2 = be16 (Sat_Total_num (sats ?s2))"
    "\<And>j. region (chip s3) (sat_addr j) 27 = region (chip ?s2) (sat_addr j) 27"
    using save_count [of ?s2 "Sat_Total_num (sats ?s2)"] s1(2) by auto
  let ?s4 = "set_sats (\<lambda>l. l\<lparr>Sat_ID := (Sat_ID l)[unat i - 1 := i], SatList_Refresh_flag := 0x01\<rparr>) s3"
  let ?s5 = "logged LOG_OPT_ADD_STAR (APP_LOG_SatParam2Logbuff ?x) ?s4"
  have l: "sats s3 = (sats s)\<lparr>Sat_Total_num := Sat_Total_num (sats s) + 1\<rparr>"
    using chip_only_sel(1) [OF s1(3)] chip_only_sel(1) [OF s3(3)] by simp
  have p: "put_sat i s3 = Inr ((), ?s4)" using put_sat_ok x(3) i k1(1) ok l by (simp add: slots_ok_def)
  have "table_in ?s5 \<and> table_of ?s5 = (table_of s)(i \<mapsto> kept ?x)"
    by (rule put_table) (use s x i k1 s1 s3 l new in \<open>simp_all add: table_ok_def\<close>)
  moreover have "region (chip ?s5) 0xA00 2 = be16 (Sat_Total_num (sats ?s5))"
    using s3(4) l chip_only_sel(1) [OF s1(3)] by simp
  moreover have "APP_PCCOMM_SatParamSet c s = Inr (SUCC, ?s5)"
    using c room k s1(1) s3(1) p
    by (simp add: APP_PCCOMM_SatParamSet_def satcmd_def Let_def bind_io_def i_def alter_def ret_io_def)
  ultimately show ?thesis unfolding table_ok_def by blast
qed


text \<open>A satellite in the list.\<close>

lemma revise_runs:
  assumes s: "table_ok s" and c: "satcmd c" and i: "c ! 3 = i" "listed s i"
  shows "\<exists>s'. APP_PCCOMM_SatParamSet c s = Inr (SUCC, s') \<and> table_ok s'
    \<and> table_of s' = (table_of s)(i \<mapsto> kept (sat_of_cmd i c))"
proof -
  let ?x = "sat_of_cmd i c"
  let ?xs = "Sat_ID (sats s)"
  have b: "board_ok (chip s)" and ok: "slots_ok ?xs" using s by (simp_all add: table_ok_def table_in_def)
  have i0: "i \<noteq> 0" using i(2) by (simp add: listed_def)
  have u: "1 \<le> unat i" "unat i \<le> 100" using listed_iff [OF ok i0] i(2) by (auto simp: listed_def)
  have x: "sat_id ?x = i" "length (sat_name ?x) = 16" using c by (simp_all add: satcmd_def)
  obtain s1 where s1: "on_eeprom (APP_PARAM_SatParam_Save ?x) s = Inr (SUCC, s1)" "board_ok (chip s1)" "chip_only s s1"
    "region (chip s1) (sat_addr i) 27 = sat_bytes i ?x" "region (chip s1) 0xA00 2 = region (chip s) 0xA00 2"
    "\<And>j. j \<noteq> i \<Longrightarrow> region (chip s1) (sat_addr j) 27 = region (chip s) (sat_addr j) 27"
    using save_sat [OF b x(1) u(1) x(2)] by blast
  let ?s4 = "set_sats (\<lambda>l. l\<lparr>Sat_ID := (Sat_ID l)[unat i - 1 := i], SatList_Refresh_flag := 0x01\<rparr>) s1"
  let ?s5 = "logged LOG_OPT_REVISE_STAR_PARAM (APP_LOG_SatParam2Logbuff ?x) ?s4"
  have l: "sats s1 = sats s" using chip_only_sel(1) [OF s1(3)] .
  have p: "put_sat i s1 = Inr ((), ?s4)" using put_sat_ok u ok l by (simp add: slots_ok_def)
  have "table_in ?s5 \<and> table_of ?s5 = (table_of s)(i \<mapsto> kept ?x)"
    by (rule put_table) (use s x u s1 l i(2) in \<open>simp_all add: table_ok_def\<close>)
  moreover have "region (chip ?s5) 0xA00 2 = be16 (Sat_Total_num (sats ?s5))"
    using s1(5) s l by (simp add: table_ok_def)
  moreover have "APP_PCCOMM_SatParamSet c s = Inr (SUCC, ?s5)"
    using c i(1) i0 s1(1) p
    by (simp add: APP_PCCOMM_SatParamSet_def satcmd_def Let_def bind_io_def alter_def ret_io_def)
  ultimately show ?thesis unfolding table_ok_def by blast
qed

lemma full_runs:
  assumes "table_ok s" "satcmd c" "c ! 3 = 0" "index_of 0 (Sat_ID (sats s)) = None"
  shows "APP_PCCOMM_SatParamSet c s = Inr (FAIL, s)"
  using assms table_free by (simp add: table_ok_def satcmd_def APP_PCCOMM_SatParamSet_def)

lemma set_refines:
  assumes s: "table_ok s" and c: "satcmd c" "c ! 3 = 0 \<or> c ! 3 \<in> dom (table_of s)"
  shows "\<exists>s'. APP_PCCOMM_SatParamSet c s = Inr (fst (set_spec c (table_of s)), s') \<and> table_ok s'
    \<and> table_of s' = snd (set_spec c (table_of s))"
proof (cases "c ! 3 = 0")
  case True
  have "free_number (table_of s) = map_option (\<lambda>k. of_nat (k + 1)) (index_of 0 (Sat_ID (sats s)))"
    using s by (intro free_number_index) (simp add: table_ok_def table_in_def)
  then show ?thesis
    using True full_runs [OF s c(1) True] add_runs [OF s c(1) True] s
    by (cases "index_of 0 (Sat_ID (sats s))") (auto simp: set_spec_def)
next
  case False
  then have "listed s (c ! 3)" using c(2) by (auto simp: table_of_def split: if_splits)
  then show ?thesis using revise_runs [OF s c(1) refl] False by (simp add: set_spec_def)
qed

subsection \<open>Deleting\<close>

lemma clear_table:
  assumes s: "table_in s" and i: "listed s i"
    and c: "board_ok (chip s1)"
      "\<And>j. j \<noteq> i \<Longrightarrow> region (chip s1) (sat_addr j) 27 = region (chip s) (sat_addr j) 27"
      "region (chip s1) (sat_addr i) 27 ! 0 \<noteq> i"
    and l: "Sat_ID (sats s1) = (Sat_ID (sats s))[unat i - 1 := 0]"
      "Sat_Total_num (sats s1) = (if Sat_Total_num (sats s) > 0 then Sat_Total_num (sats s) - 1 else Sat_Total_num (sats s))"
  shows "table_in s1 \<and> table_of s1 = (table_of s)(i := None)"
proof -
  let ?xs = "Sat_ID (sats s)"
  have ok: "slots_ok ?xs" and n: "Sat_Total_num (sats s) = of_nat (in_use ?xs)"
    using s by (simp_all add: table_in_def)
  have i0: "i \<noteq> 0" "i \<in> set ?xs" using i by (simp_all add: listed_def)
  have j: "listed s1 j \<longleftrightarrow> j \<noteq> i \<and> listed s j" for j
    using listed_clear [OF ok i0] by (cases "j = 0") (simp_all add: listed_def l)
  have len: "length ?xs = 100" using ok by (simp add: slots_ok_def)
  have u: "1 \<le> unat i" "unat i \<le> 100" "?xs ! (unat i - 1) = i" using listed_iff [OF ok i0(1)] i0(2) by auto
  then have "Suc (in_use (?xs[unat i - 1 := 0])) = in_use ?xs" using in_use_update(2) [of "unat i - 1" ?xs 0] i0 len by simp
  then obtain m where m: "in_use ?xs = Suc m" "in_use (?xs[unat i - 1 := 0]) = m" by auto
  then have "Sat_Total_num (sats s) > 0" using n in_use_le [OF ok] unat_of_nat [where 'a = 16, of "Suc m"]
    by (simp add: word_less_nat_alt del: of_nat_Suc)
  then have "Sat_Total_num (sats s1) = of_nat (in_use (Sat_ID (sats s1)))"
    using m(2) by (simp add: l n m(1))
  moreover have "region (chip s1) (sat_addr j) 27 ! 0 = j \<longleftrightarrow> listed s1 j" if "1 \<le> unat j" "unat j \<le> 100" for j
    using that s c(2,3) j i by (cases "j = i") (auto simp: table_in_def)
  moreover have "slots_ok (Sat_ID (sats s1))" using slots_clear [OF ok] l by simp
  ultimately have "table_in s1" using c(1) unfolding table_in_def by blast
  moreover have "table_of s1 = (table_of s)(i := None)"
    using j c(2) by (auto simp: table_of_def fun_eq_iff stored_sat_def)
  ultimately show ?thesis by blast
qed


lemma delete_sat_listed:
  assumes s: "table_in s" and i: "listed s i"
  shows "\<exists>s'. delete_sat i old s = Inr (stored_sat s i, s') \<and> table_in s' \<and> table_of s' = (table_of s)(i := None)"
proof -
  let ?xs = "Sat_ID (sats s)"
  have b: "board_ok (chip s)" and ok: "slots_ok ?xs" and h: "region (chip s) (sat_addr i) 27 ! 0 = i"
    using s i listed_iff [of ?xs i] by (simp_all add: table_in_def listed_def)
  have i0: "i \<noteq> 0" "i \<in> set ?xs" using i by (simp_all add: listed_def)
  let ?s1 = "set_sats (\<lambda>l. l\<lparr>Sat_ID := (Sat_ID l)[unat i - 1 := 0], SatList_Refresh_flag := 0x01,
            Sat_Total_num := (if Sat_Total_num l > 0 then Sat_Total_num l - 1 else Sat_Total_num l)\<rparr>) s"
  obtain s2 where s2: "on_eeprom (APP_PARAM_Read (sat_addr i) (replicate 32 0) 27) ?s1
      = Inr ((SUCC, copy_over (replicate 32 0) (region (chip s) (sat_addr i) 27)), s2)"
    "board_ok (chip s2)" "chip_only ?s1 s2" "region (chip s2) = region (chip s)"
    using read_on_board [of ?s1 27 "replicate 32 0" "sat_addr i"] b by auto
  have id: "sat_id (stored_sat s i) = i" using h by (simp add: stored_sat_def sat_at_def nth_copy_over)
  have z: "copy_over (replicate 32 0) (region (chip s) (sat_addr i) 27) ! 0 = i" using h by (simp add: nth_copy_over)
  have r: "on_eeprom (APP_PARAM_SatParam_Read (old\<lparr>sat_id := i\<rparr>)) ?s1 = Inr ((SUCC, stored_sat s i), s2)"
    using s2(1) i0(1) z
    by (simp add: APP_PARAM_SatParam_Read_def on_eeprom_bind case_prod_unfold stored_sat_def bind_io_def ret_io_def)
  have f: "fits (sat_addr i, replicate 32 0, 1)" using sat_apart(4) [of i] by (simp add: fits_def)
  obtain s3 where s3: "on_eeprom (APP_PARAM_Save (sat_addr i) (replicate 32 0) 1) s2 = Inr (SUCC, s3)"
    "board_ok (chip s3)" "chip_only s2 s3"
    "\<And>b k. apart (sat_addr i) 1 b k \<Longrightarrow> unat b + k \<le> 65536 \<Longrightarrow> region (chip s3) b k = region (chip s2) b k"
    "region (chip s3) (sat_addr i) 1 = [0]"
    using save_on_board [OF s2(2) f] by auto
  have gone: "region (chip s3) (sat_addr i) 27 ! 0 \<noteq> i" using region_head [of 27] s3(5) i0(1) by simp
  have d: "on_eeprom (APP_PARAM_Sat_Del (stored_sat s i)) s2 = Inr (SUCC, s3)"
    using s3(1) i0(1) id by (simp add: APP_PARAM_Sat_Del_def)
  let ?s4 = "logged LOG_OPT_DEL_STAR (APP_LOG_SatParam2Logbuff (stored_sat s i)) s3"
  have l: "sats s3 = sats ?s1" using chip_only_sel(1) [OF s2(3)] chip_only_sel(1) [OF s3(3)] by simp
  have "table_in ?s4 \<and> table_of ?s4 = (table_of s)(i := None)"
    by (rule clear_table [OF s i]) (use gone l s2 s3 sat_apart in \<open>simp_all\<close>)
  moreover have "delete_sat i old s = Inr (stored_sat s i, ?s4)"
    using index_of_listed [OF ok i0(1)] i0(2) r d
    by (simp add: delete_sat_def bind_io_def alter_def ret_io_def)
  ultimately show ?thesis by blast
qed

lemma delete_sats_run:
  assumes "table_in s" "0 \<notin> set is"
  shows "\<exists>sat s'. delete_sats is old s = Inr (sat, s') \<and> table_in s' \<and> table_of s' = delete_spec is (table_of s)"
  using assms
proof (induction "is" arbitrary: s old)
  case (Cons i "is")
  have "\<exists>sat s1. delete_sat i old s = Inr (sat, s1) \<and> table_in s1 \<and> table_of s1 = (table_of s)(i := None)"
  proof (cases "listed s i")
    case True
    then show ?thesis using delete_sat_listed [OF Cons.prems(1)] by blast
  next
    case False
    then have "index_of i (Sat_ID (sats s)) = None" using Cons.prems(2) by (auto simp: index_of_None listed_def)
    moreover have "table_of s = (table_of s)(i := None)" using False by (auto simp: table_of_def fun_eq_iff)
    ultimately show ?thesis using Cons.prems(1) by (simp add: delete_sat_def)
  qed
  then obtain sat s1 where 1: "delete_sat i old s = Inr (sat, s1)" "table_in s1" "table_of s1 = (table_of s)(i := None)"
    by blast
  then obtain sat' s' where "delete_sats is sat s1 = Inr (sat', s')" "table_in s'"
    "table_of s' = delete_spec is (table_of s1)"
    using Cons.IH [of s1 sat] Cons.prems(2) 1(2) by (metis list.set_intros(2))
  with 1 show ?case by (auto simp: bind_io_def delete_spec_def fun_eq_iff)
qed (simp add: ret_io_def delete_spec_def)

definition delcmd :: "bytes \<Rightarrow> bool" where
  "delcmd c \<longleftrightarrow> length c = 50 \<and> cmd_of c = SatDelID \<and> unat (c ! 2) \<le> 47 \<and> 0 \<notin> set (take (unat (c ! 2)) (drop 3 c))"

lemma delete_refines:
  assumes s: "table_ok s" and c: "delcmd c"
  shows "\<exists>sat s'. APP_PCCOMM_DelSatSet old c s = Inr ((SUCC, sat), s') \<and> table_ok s'
    \<and> table_of s' = delete_spec (take (unat (c ! 2)) (drop 3 c)) (table_of s)"
proof -
  obtain sat s1 where 1: "delete_sats (take (unat (c ! 2)) (drop 3 c)) old s = Inr (sat, s1)" "table_in s1"
    "table_of s1 = delete_spec (take (unat (c ! 2)) (drop 3 c)) (table_of s)"
    using delete_sats_run s c unfolding delcmd_def table_ok_def by meson
  obtain s2 where 2: "on_eeprom (APP_PARAM_SatTotalNum_Save (Sat_Total_num (sats s1))) s1 = Inr (SUCC, s2)"
    "board_ok (chip s2)" "chip_only s1 s2" "region (chip s2) 0xA00 2 = be16 (Sat_Total_num (sats s1))"
    "\<And>j. region (chip s2) (sat_addr j) 27 = region (chip s1) (sat_addr j) 27"
    using save_count [of s1 "Sat_Total_num (sats s1)"] 1(2) unfolding table_in_def by blast
  have l: "sats s2 = sats s1" using chip_only_sel(1) [OF 2(3)] .
  then have "listed s2 = listed s1" by (simp add: fun_eq_iff listed_def)
  then have "table_ok s2" "table_of s2 = table_of s1"
    using 1(2) 2 l by (simp_all add: table_ok_def table_in_def table_of_def stored_sat_def fun_eq_iff)
  moreover have "APP_PCCOMM_DelSatSet old c s = Inr ((SUCC, sat), s2)"
    using c 1(1) 2(1) by (simp add: APP_PCCOMM_DelSatSet_def delcmd_def bind_io_def ret_io_def)
  ultimately show ?thesis using 1(3) by auto
qed


section \<open>Sequences of commands\<close>

text \<open>The commands of a sequence, with the structure that \<open>APP_PCCOMM_DelSatSet\<close> keeps between its calls.\<close>

fun sat_commands :: "bytes list \<Rightarrow> strSatParam \<Rightarrow> status list ctio" where
  "sat_commands [] old = ret_io []"
| "sat_commands (c # cs) old =
     bind_io (if cmd_of c = SatDelID then APP_PCCOMM_DelSatSet old c
              else bind_io (APP_PCCOMM_SatParamSet c) (\<lambda>r. ret_io (r, old))) (\<lambda>(r, sat).
     bind_io (sat_commands cs sat) (\<lambda>rs. ret_io (r # rs)))"

definition sat_step :: "bytes \<Rightarrow> sat_table \<Rightarrow> status \<times> sat_table" where
  "sat_step c m = (if cmd_of c = SatDelID then (SUCC, delete_spec (take (unat (c ! 2)) (drop 3 c)) m) else set_spec c m)"

fun sat_spec :: "bytes list \<Rightarrow> sat_table \<Rightarrow> status list \<times> sat_table" where
  "sat_spec [] m = ([], m)"
| "sat_spec (c # cs) m = (case sat_step c m of (r, m1) \<Rightarrow> case sat_spec cs m1 of (rs, m2) \<Rightarrow> (r # rs, m2))"

text \<open>The commands of a client that knows the table: it revises what is there and never deletes number 0.\<close>

fun sat_allowed :: "bytes list \<Rightarrow> sat_table \<Rightarrow> bool" where
  "sat_allowed [] m = True"
| "sat_allowed (c # cs) m \<longleftrightarrow> (delcmd c \<or> satcmd c \<and> (c ! 3 = 0 \<or> m (c ! 3) \<noteq> None)) \<and> sat_allowed cs (snd (sat_step c m))"

text \<open>C9: the commands that add, revise and delete satellites refine a partial map from numbers to parameters. Let the board work,
  the table be consistent (list, stored parameters and both counts agree), and let a sequence of well-formed commands revise only
  numbers that are in the table at that point and never delete number 0. Then every command is answered as the map answers it, a
  new satellite gets the lowest free number, a full table refuses it, and the table is consistent and is the map afterwards. Nothing
  is claimed for other numbers (\<open>app_pccomm.c:398\<close> and \<open>:942\<close>).\<close>

theorem satellite_table_is_map:
  assumes "table_ok s" "sat_allowed cs (table_of s)"
  shows "\<exists>s'. sat_commands cs old s = Inr (fst (sat_spec cs (table_of s)), s') \<and> table_ok s'
    \<and> table_of s' = snd (sat_spec cs (table_of s))"
  using assms
proof (induction cs arbitrary: s old)
  case (Cons c cs)
  have "\<exists>sat s1. (if cmd_of c = SatDelID then APP_PCCOMM_DelSatSet old c
      else bind_io (APP_PCCOMM_SatParamSet c) (\<lambda>r. ret_io (r, old))) s = Inr ((fst (sat_step c (table_of s)), sat), s1)
    \<and> table_ok s1 \<and> table_of s1 = snd (sat_step c (table_of s))"
  proof (cases "delcmd c")
    case True
    then show ?thesis using delete_refines [OF Cons.prems(1) True, of old] by (auto simp: delcmd_def sat_step_def)
  next
    case False
    then have c: "satcmd c" "c ! 3 = 0 \<or> c ! 3 \<in> dom (table_of s)" using Cons.prems(2) by auto
    then show ?thesis using set_refines [OF Cons.prems(1) c]
      by (auto simp: satcmd_def sat_step_def bind_io_def ret_io_def)
  qed
  then obtain sat s1 where 1: "(if cmd_of c = SatDelID then APP_PCCOMM_DelSatSet old c
      else bind_io (APP_PCCOMM_SatParamSet c) (\<lambda>r. ret_io (r, old))) s = Inr ((fst (sat_step c (table_of s)), sat), s1)"
    "table_ok s1" "table_of s1 = snd (sat_step c (table_of s))" by blast
  then have "sat_allowed cs (table_of s1)" using Cons.prems(2) by simp
  from Cons.IH [OF 1(2) this, of sat] show ?case
    by (auto simp: bind_io_def 1(1) ret_io_def 1(3) case_prod_unfold)
qed (simp add: ret_io_def)

section \<open>Witnesses\<close>

lemma blank_table: "table_ok (blank l)" "table_of (blank l) = Map.empty"
  by (auto simp: table_ok_def table_in_def sats_def zero_strACUDevInfo_def zero_strSATList_def slots_ok_def
      in_use_def listed_def table_of_def numeral_2_eq_2 be16_def)

definition sat_frame :: "u8 \<Rightarrow> bytes" where
  "sat_frame i = [1, 1, 0x1B, i] @ replicate 46 0"

definition del_frame :: "u8 \<Rightarrow> bytes" where
  "del_frame i = [1, 8, 1, i] @ replicate 46 0"

theorem satellite_table_is_map_witness:
  "\<exists>s'. sat_commands [sat_frame 0, sat_frame 0, del_frame 1, sat_frame 2, sat_frame 0] zero_strSatParam (blank [])
      = Inr ([SUCC, SUCC, SUCC, SUCC, SUCC], s') \<and> dom (table_of s') = {1, 2}"
proof -
  let ?cs = "[sat_frame 0, sat_frame 0, del_frame 1, sat_frame 2, sat_frame 0]"
  have n: "sat_numbers = 1 # 2 # map of_nat [3..<101]"
    by (simp add: sat_numbers_def upt_conv_Cons)
  have "cmd_of (sat_frame i) = SatParamSetID" "cmd_of (del_frame i) = SatDelID" for i
    by (simp_all add: cmd_of_def un16_def sat_frame_def del_frame_def)
  then have "sat_allowed ?cs Map.empty" "fst (sat_spec ?cs Map.empty) = [SUCC, SUCC, SUCC, SUCC, SUCC]"
    "dom (snd (sat_spec ?cs Map.empty)) = {1, 2}"
    by (auto simp: satcmd_def delcmd_def sat_step_def set_spec_def delete_spec_def free_number_def n sat_frame_def del_frame_def split: if_splits)
  then show ?thesis using satellite_table_is_map [OF blank_table(1), of ?cs _ zero_strSatParam] blank_table(2) by metis
qed

end
