(* ===== verification/Rtc.thy ===== *)
theory Rtc
  imports Calendar PcLink
begin

text \<open>
  \<open>HW/ic_ds1302.c\<close>, the driver of the clock chip on three pins, and the two functions of
  \<open>APP/src/app_datetime.c\<close> that save a date in the chip and take it back.

  The chip is a parameter, the function \<open>chip_pins\<close> of the state: what a new level on its pins does.
  \<open>ds1302_pins\<close> is what its data sheet promises, and \<open>is_ds1302\<close> the hypothesis that the chip behaves so:
  a command is a byte that is clocked in, lowest bit first, while the enable pin is high; after a
  command to write, the next eight rising edges take the data, after a command to read each
  falling edge puts out one bit. The registers keep still during one call of the driver. Bit 7 of
  register 7 protects the others; the driver never clears it.
\<close>

section \<open>The chip\<close>

record ds1302 =
  ds_sck :: bool
  ds_bits :: "bool list"
  ds_out :: bool
  ds_regs :: "nat \<Rightarrow> u8"

definition byte_of :: "bool list \<Rightarrow> u8" where
  "byte_of bs = horner_sum of_bool 2 bs"

text \<open>A command byte has bit 7 set, bit 6 clear for the clock registers, the register in bits 1 to
  5 and in bit 0 whether to read.\<close>

definition clock_command :: "u8 \<Rightarrow> bool" where
  "clock_command c \<longleftrightarrow> bit c 7 \<and> \<not> bit c 6"

definition reg_of :: "u8 \<Rightarrow> nat" where
  "reg_of c = unat (drop_bit 1 (c AND 0x3E))"

definition unprotected :: "(nat \<Rightarrow> u8) \<Rightarrow> bool" where
  "unprotected r \<longleftrightarrow> \<not> bit (r 7) 7"

text \<open>What the level of the three pins, enable, clock and data, does.\<close>

definition ds1302_pins :: "bool \<Rightarrow> bool \<Rightarrow> bool \<Rightarrow> ds1302 \<Rightarrow> ds1302" where
  "ds1302_pins ce sck dat c =
     (let c1 = c\<lparr>ds_sck := sck\<rparr>; n = length (ds_bits c); cmd = byte_of (take 8 (ds_bits c))
      in if \<not> ce then c1\<lparr>ds_bits := []\<rparr>
         else if sck \<and> \<not> ds_sck c then
           (let c2 = c1\<lparr>ds_bits := ds_bits c @ [dat]\<rparr>
            in if n = 15 \<and> clock_command cmd \<and> \<not> bit cmd 0
                  \<and> (unprotected (ds_regs c) \<or> reg_of cmd = 7)
               then c2\<lparr>ds_regs := (ds_regs c)(reg_of cmd := byte_of (drop 8 (ds_bits c) @ [dat]))\<rparr>
               else c2)
         else if \<not> sck \<and> ds_sck c \<and> 8 \<le> n \<and> n < 16 \<and> clock_command cmd \<and> bit cmd 0 then
           c1\<lparr>ds_out := bit (ds_regs c (reg_of cmd)) (n - 8)\<rparr>
         else c1)"

section \<open>State\<close>

text \<open>The levels of the pins, whether the data pin is an output, the answers to
  \<open>BSP_OS_Sem_Pend(&DS1302_Sem,100)\<close> and the values of a call that has left by the bare \<open>return;\<close>.\<close>

record rtcw =
  rtc_chip :: ds1302
  chip_pins :: "bool \<Rightarrow> bool \<Rightarrow> bool \<Rightarrow> ds1302 \<Rightarrow> ds1302"
  rtc_cs :: bool
  rtc_sck :: bool
  rtc_data :: bool
  data_is_output :: bool
  pend_ok :: "nat \<Rightarrow> bool"
  rtc_indet :: "nat \<Rightarrow> u8"
  rtc_tick :: nat

definition is_ds1302 :: "rtcw \<Rightarrow> bool" where
  "is_ds1302 w \<longleftrightarrow> chip_pins w = ds1302_pins"

definition drive_pins :: "rtcw \<Rightarrow> rtcw" where
  "drive_pins w = w\<lparr>rtc_chip := chip_pins w (rtc_cs w) (rtc_sck w) (rtc_data w) (rtc_chip w)\<rparr>"

section \<open>The driver\<close>

definition DS1302_CS_Enable :: "rtcw \<Rightarrow> rtcw" where
  "DS1302_CS_Enable w = drive_pins (w\<lparr>rtc_cs := True\<rparr>)"

definition DS1302_CS_Disable :: "rtcw \<Rightarrow> rtcw" where
  "DS1302_CS_Disable w = drive_pins (w\<lparr>rtc_cs := False\<rparr>)"

definition DS1302_SPI_SCK_High :: "rtcw \<Rightarrow> rtcw" where
  "DS1302_SPI_SCK_High w = drive_pins (w\<lparr>rtc_sck := True\<rparr>)"

definition DS1302_SPI_SCK_Low :: "rtcw \<Rightarrow> rtcw" where
  "DS1302_SPI_SCK_Low w = drive_pins (w\<lparr>rtc_sck := False\<rparr>)"

definition DS1302_SPI_DATA_Output_High :: "rtcw \<Rightarrow> rtcw" where
  "DS1302_SPI_DATA_Output_High w = drive_pins (w\<lparr>rtc_data := True\<rparr>)"

definition DS1302_SPI_DATA_Output_Low :: "rtcw \<Rightarrow> rtcw" where
  "DS1302_SPI_DATA_Output_Low w = drive_pins (w\<lparr>rtc_data := False\<rparr>)"

definition DS1302_SPI_DATA_Input_Read :: "rtcw \<Rightarrow> u8" where
  "DS1302_SPI_DATA_Input_Read w = (if (if data_is_output w then rtc_data w else ds_out (rtc_chip w)) then 1 else 0)"

text \<open>\<open>for(i=8;i>0;i--)\<close> over a byte that goes out, lowest bit first.\<close>

fun shift_out :: "nat \<Rightarrow> u8 \<Rightarrow> rtcw \<Rightarrow> rtcw" where
  "shift_out 0 temp w = w"
| "shift_out (Suc i) temp w =
     (let w1 = DS1302_SPI_SCK_Low w;
          w2 = (if temp AND 0x01 \<noteq> 0 then DS1302_SPI_DATA_Output_High w1 else DS1302_SPI_DATA_Output_Low w1);
          w3 = DS1302_SPI_SCK_High w2
      in shift_out i (drop_bit 1 temp) w3)"

text \<open>\<open>for(i=0;i<8;i++)\<close> over a byte that comes in, from bit \<open>i\<close> on with \<open>n\<close> bits to go.\<close>

fun shift_in :: "nat \<Rightarrow> nat \<Rightarrow> u8 \<Rightarrow> rtcw \<Rightarrow> u8 \<times> rtcw" where
  "shift_in i 0 reg_data w = (reg_data, w)"
| "shift_in i (Suc n) reg_data w =
     (let w1 = DS1302_SPI_SCK_High (DS1302_SPI_SCK_Low w)
      in shift_in (Suc i) n (reg_data OR push_bit i (DS1302_SPI_DATA_Input_Read w1)) w1)"

definition rtc_pend :: "rtcw \<Rightarrow> bool \<times> rtcw" where
  "rtc_pend w = (pend_ok w (rtc_tick w), w\<lparr>rtc_tick := Suc (rtc_tick w)\<rparr>)"

text \<open>The start of a transaction: the enable pin goes low, the data pin becomes an output, the
  clock pin goes low and the enable pin high.\<close>

definition start_transfer :: "rtcw \<Rightarrow> rtcw" where
  "start_transfer w = DS1302_CS_Enable (DS1302_SPI_SCK_Low ((DS1302_CS_Disable w)\<lparr>data_is_output := True\<rparr>))"

definition DS1302_WriteReg :: "u8 \<Rightarrow> u8 \<Rightarrow> rtcw \<Rightarrow> rtcw" where
  "DS1302_WriteReg reg_addr reg_data w =
     (case rtc_pend w of (ok, w1) \<Rightarrow>
        if ok then DS1302_CS_Disable (shift_out 8 reg_data (shift_out 8 reg_addr (start_transfer w1))) else w1)"

definition DS1302_ReadReg :: "u8 \<Rightarrow> rtcw \<Rightarrow> u8 \<times> rtcw" where
  "DS1302_ReadReg reg_addr w =
     (case rtc_pend w of (ok, w1) \<Rightarrow>
        if \<not> ok then (rtc_indet w1 (rtc_tick w1), w1)
        else (case shift_in 0 8 0 ((shift_out 8 reg_addr (start_transfer w1))\<lparr>data_is_output := False\<rparr>) of
          (reg_data, w2) \<Rightarrow> (reg_data, DS1302_CS_Disable w2)))"

text \<open>Two decimal digits in a byte: the functions that read differ in the tens that they keep.
  \<open>BYTE\<close> is the conversion of the \<open>int\<close> to \<open>INT8U\<close>.\<close>

definition two_digits :: "u8 \<Rightarrow> u8 \<Rightarrow> u8" where
  "two_digits tens reg_data = drop_bit 4 (reg_data AND tens) * 10 + (reg_data AND 0x0F) mod 10"

definition from_digits :: "u8 \<Rightarrow> u8" where
  "from_digits v = push_bit 4 (v div 10) + v mod 10"

definition DS1302_ReadSecond :: "rtcw \<Rightarrow> u8 \<times> rtcw" where
  "DS1302_ReadSecond w = (case DS1302_ReadReg 0x81 w of (d, w1) \<Rightarrow> (two_digits 0x70 d, w1))"

definition DS1302_ReadMinute :: "rtcw \<Rightarrow> u8 \<times> rtcw" where
  "DS1302_ReadMinute w = (case DS1302_ReadReg 0x83 w of (d, w1) \<Rightarrow> (two_digits 0x70 d, w1))"

definition DS1302_ReadHour :: "rtcw \<Rightarrow> u8 \<times> rtcw" where
  "DS1302_ReadHour w = (case DS1302_ReadReg 0x85 w of (d, w1) \<Rightarrow> (two_digits 0x10 d, w1))"

definition DS1302_ReadDay :: "rtcw \<Rightarrow> u8 \<times> rtcw" where
  "DS1302_ReadDay w = (case DS1302_ReadReg 0x87 w of (d, w1) \<Rightarrow> (two_digits 0x30 d, w1))"

definition DS1302_ReadMonth :: "rtcw \<Rightarrow> u8 \<times> rtcw" where
  "DS1302_ReadMonth w = (case DS1302_ReadReg 0x89 w of (d, w1) \<Rightarrow> (two_digits 0x10 d, w1))"

definition DS1302_ReadYear :: "rtcw \<Rightarrow> u8 \<times> rtcw" where
  "DS1302_ReadYear w = (case DS1302_ReadReg 0x8D w of (d, w1) \<Rightarrow> (two_digits 0xF0 d, w1))"

definition DS1302_ReadWeekday :: "rtcw \<Rightarrow> u8 \<times> rtcw" where
  "DS1302_ReadWeekday w = DS1302_ReadReg 0x8B w"

text \<open>A write function fails when what it reads back differs.\<close>

definition read_back :: "('s \<Rightarrow> u8 \<times> 's) \<Rightarrow> u8 \<Rightarrow> 's \<Rightarrow> status \<times> 's" where
  "read_back get v w = (case get w of (x, w1) \<Rightarrow> (if x \<noteq> v then FAIL else SUCC, w1))"

definition DS1302_WriteSecond :: "u8 \<Rightarrow> rtcw \<Rightarrow> status \<times> rtcw" where
  "DS1302_WriteSecond sec w = read_back DS1302_ReadSecond sec (DS1302_WriteReg 0x80 (from_digits sec) w)"

definition DS1302_WriteMinute :: "u8 \<Rightarrow> rtcw \<Rightarrow> status \<times> rtcw" where
  "DS1302_WriteMinute mi w = read_back DS1302_ReadMinute mi (DS1302_WriteReg 0x82 (from_digits mi) w)"

definition DS1302_WriteHour :: "u8 \<Rightarrow> rtcw \<Rightarrow> status \<times> rtcw" where
  "DS1302_WriteHour hour w = read_back DS1302_ReadHour hour (DS1302_WriteReg 0x84 (from_digits hour) w)"

definition DS1302_WriteDay :: "u8 \<Rightarrow> rtcw \<Rightarrow> status \<times> rtcw" where
  "DS1302_WriteDay day w = read_back DS1302_ReadDay day (DS1302_WriteReg 0x86 (from_digits day) w)"

definition DS1302_WriteMonth :: "u8 \<Rightarrow> rtcw \<Rightarrow> status \<times> rtcw" where
  "DS1302_WriteMonth month w = read_back DS1302_ReadMonth month (DS1302_WriteReg 0x88 (from_digits month) w)"

definition DS1302_WriteYear :: "u8 \<Rightarrow> rtcw \<Rightarrow> status \<times> rtcw" where
  "DS1302_WriteYear year w = read_back DS1302_ReadYear year (DS1302_WriteReg 0x8C (from_digits year) w)"

definition DS1302_WriteWeekday :: "u8 \<Rightarrow> rtcw \<Rightarrow> status \<times> rtcw" where
  "DS1302_WriteWeekday weekday w = read_back DS1302_ReadWeekday weekday (DS1302_WriteReg 0x8A weekday w)"

section \<open>Saving and reading a date\<close>

fun in_turn :: "('s \<Rightarrow> status \<times> 's) list \<Rightarrow> 's \<Rightarrow> status \<times> 's" where
  "in_turn [] w = (SUCC, w)"
| "in_turn (f # fs) w = (case f w of (r, w1) \<Rightarrow> if r = FAIL then (FAIL, w1) else in_turn fs w1)"

text \<open>The year is an \<open>INT16U\<close>; its last two digits become an \<open>INT8U\<close>.\<close>

definition DATETIME_SavetoRtcIC :: "strSysDateTime \<Rightarrow> rtcw \<Rightarrow> status \<times> rtcw" where
  "DATETIME_SavetoRtcIC t =
     in_turn [DS1302_WriteYear (ucast (sdt_year t mod 100)), DS1302_WriteMonth (sdt_month t), DS1302_WriteDay (sdt_day t),
       DS1302_WriteHour (sdt_hour t), DS1302_WriteMinute (sdt_min t), DS1302_WriteSecond (sdt_senc t)]"

definition DATETIME_ReadFromRtcIC :: "strSysDateTime \<Rightarrow> rtcw \<Rightarrow> strSysDateTime \<times> rtcw" where
  "DATETIME_ReadFromRtcIC t w =
     (case DS1302_ReadYear w of (y, w1) \<Rightarrow> case DS1302_ReadMonth w1 of (m, w2) \<Rightarrow>
      case DS1302_ReadDay w2 of (d, w3) \<Rightarrow> case DS1302_ReadHour w3 of (h, w4) \<Rightarrow>
      case DS1302_ReadMinute w4 of (mi, w5) \<Rightarrow> case DS1302_ReadSecond w5 of (s, w6) \<Rightarrow>
        (t\<lparr>sdt_year := ucast y + 2000, sdt_month := m, sdt_day := d, sdt_hour := h,
           sdt_min := mi mod 60, sdt_senc := s mod 60\<rparr>, w6))"

text \<open>\<open>APP_PCCOMM_SysDateTimeSet\<close> (\<open>APP/src/app_pccomm.c\<close>): a control PC sets the date unless the GPS
  receiver has one. \<open>now\<close> is the tick count of the system.\<close>

abbreviation (input) SysDateTimeSetID :: u16 where "SysDateTimeSetID \<equiv> 0x0106"

definition APP_PCCOMM_SysDateTimeSet :: "u32 \<Rightarrow> bytes \<Rightarrow> strACUDevInfo \<times> rtcw \<Rightarrow> status \<times> strACUDevInfo \<times> rtcw" where
  "APP_PCCOMM_SysDateTimeSet now rx =
     (\<lambda>(d, w). if cmd_of rx \<noteq> SysDateTimeSetID \<or> rx ! 2 \<noteq> 7 then (FAIL, d, w)
        else if gps_valid (GPSData (GPSInfo (DeviceInfo d))) = 0x41 then (SUCC, d, w)
        else (let t = (SysDateTime d)\<lparr>sdt_year := un16 (rx ! 3) (rx ! 4), sdt_month := rx ! 5, sdt_day := rx ! 6, sdt_hour := rx ! 7,
                    sdt_min := rx ! 8, sdt_senc := rx ! 9, sdt_ms := 0, sdt_systick := now\<rparr>
              in case DATETIME_SavetoRtcIC t w of (r, w1) \<Rightarrow> (r, d\<lparr>SysDateTime := t\<rparr>, w1)))"

end
