(* ===== verification/Startup.thy ===== *)
theory Startup
  imports SatTable Rtc
begin

text \<open>
  \<open>APP_PARAM_Init\<close> (\<open>APP/src/app_param_save_read.c\<close>): what a unit takes from its clock and its EEPROM when it is
  switched on, in the order of the code: the date, the map of the encoders, the list of the satellites, the parameters of the
  antenna, the limits of the axes, the position of the station, the theoretical angles, the frequency of the beacon receiver, the
  list of the recorded positions, the largest signal, and the mode if the unit has been reset over the network.
  Local variables that the code leaves uninitialised are parameters: \<open>stack\<close> the structure, \<open>buff\<close> the read buffer of 100
  bytes and \<open>cnt\<close> the count of a limit. The state of the clock chip is carried along beside the state \<open>ctl\<close>.
\<close>

text \<open>A step that depends on the state it starts from.\<close>

definition look :: "(ctl \<Rightarrow> 'a ctio) \<Rightarrow> 'a ctio" where
  "look f s = f s s"

section \<open>Lists\<close>

definition set_map :: "(strAllElecCoderMapAntenna \<Rightarrow> strAllElecCoderMapAntenna) \<Rightarrow> ctl \<Rightarrow> ctl" where
  "set_map f = set_unit (\<lambda>d. d\<lparr>DeviceInfo := (DeviceInfo d)\<lparr>AllElecCoderMapAntenna := f (AllElecCoderMapAntenna (DeviceInfo d))\<rparr>\<rparr>)"

definition known_polar_type :: "strAllElecCoderMapAntenna \<Rightarrow> strAllElecCoderMapAntenna" where
  "known_polar_type e =
     (if SatPolarType e \<noteq> 0x00 \<and> SatPolarType e \<noteq> 0x01 \<and> SatPolarType e \<noteq> 0x02 then e\<lparr>SatPolarType := 0x00\<rparr> else e)"

definition init_map :: "unit ctio" where
  "init_map = look (\<lambda>s.
     bind_io (on_eeprom (APP_PARAM_ElecCode_Map_AntennaDegree_Read (AllElecCoderMapAntenna (DeviceInfo (info s)))))
       (\<lambda>(_, e). alter (set_map (\<lambda>_. known_polar_type e))))"

abbreviation (input) SAT_MAX_NUM :: nat where "SAT_MAX_NUM \<equiv> 100"

definition curr_sat :: "ctl \<Rightarrow> strSatParam" where
  "curr_sat s = CurrSatParam (ACUParam (info s))"

definition set_curr_sat :: "(strSatParam \<Rightarrow> strSatParam) \<Rightarrow> ctl \<Rightarrow> ctl" where
  "set_curr_sat f = set_param (\<lambda>p. p\<lparr>CurrSatParam := f (CurrSatParam p)\<rparr>)"

definition init_total :: "unit ctio" where
  "init_total =
     bind_io (look (\<lambda>s. on_eeprom (APP_PARAM_SatTotalNum_Read (Sat_Total_num (sats s))))) (\<lambda>(_, n).
       alter (set_sats (\<lambda>l. l\<lparr>Sat_Total_num := (if n > of_nat SAT_MAX_NUM then 0x00 else n)\<rparr>)))"

definition init_curr :: "unit ctio" where
  "init_curr = bind_io (look (\<lambda>s. on_eeprom (APP_PARAM_CurrSatParam_Read (curr_sat s)))) (\<lambda>(_, x).
     alter (set_curr_sat (\<lambda>_. x)))"

text \<open>A satellite that has been read, into slot \<open>i\<close>.\<close>

definition init_slot :: "nat \<Rightarrow> strSatParam \<Rightarrow> unit ctio" where
  "init_slot i x =
     bind_io (alter (\<lambda>s. if sat_id x = sat_id (curr_sat s) \<and> sat_id (curr_sat s) > 0 \<or> Sat_Total_num (sats s) = 1
                         then set_curr_sat (\<lambda>_. x) s else s)) (\<lambda>_.
     bind_io (alter (set_sats (\<lambda>l. l\<lparr>Sat_ID := (Sat_ID l)[i := sat_id x]\<rparr>))) (\<lambda>_. look (\<lambda>s.
       if sat_id (curr_sat s) = 0x00 then
         bind_io (alter (set_curr_sat (\<lambda>c. c\<lparr>sat_id := Sat_ID (sats s) ! i\<rparr>))) (\<lambda>_.
         bind_io (look (\<lambda>s1. on_eeprom (APP_PARAM_SatCurrID_Save (sat_id (curr_sat s1))))) (\<lambda>_. ret_io ()))
       else ret_io ())))"

text \<open>\<open>for(i=0;i<SAT_MAX_NUM;i++)\<close> from \<open>i\<close> on, with \<open>n\<close> the satellites still to be found.\<close>

fun init_slots :: "nat list \<Rightarrow> u16 \<Rightarrow> strSatParam \<Rightarrow> u16 ctio" where
  "init_slots [] n stack = ret_io n"
| "init_slots (i # is) n stack =
     (if n = 0x00 then ret_io n
      else bind_io (on_eeprom (APP_PARAM_SatParam_Read (stack\<lparr>sat_id := of_nat (i + 1)\<rparr>))) (\<lambda>(r, x).
        if r = FAIL then init_slots is n x
        else bind_io (init_slot i x) (\<lambda>_. init_slots is (n - 1) x)))"

definition init_missing :: "u16 \<Rightarrow> unit ctio" where
  "init_missing n =
     (if n > 0 then bind_io (alter (set_sats (\<lambda>l. l\<lparr>Sat_Total_num := Sat_Total_num l - n\<rparr>))) (\<lambda>_.
        bind_io (look (\<lambda>s. on_eeprom (APP_PARAM_SatTotalNum_Save (Sat_Total_num (sats s))))) (\<lambda>_. ret_io ()))
      else ret_io ())"

definition init_satellites :: "strSatParam \<Rightarrow> unit ctio" where
  "init_satellites stack =
     bind_io init_total (\<lambda>_. bind_io init_curr (\<lambda>_. look (\<lambda>s.
       bind_io (init_slots [0..<SAT_MAX_NUM] (Sat_Total_num (sats s)) stack) init_missing)))"

section \<open>Antenna\<close>

definition init_scan :: "ctl \<Rightarrow> ctl" where
  "init_scan s = set_seek (\<lambda>k. k\<lparr>ScanRange_param := (if ant_lo_freq (antenna s) \<ge> 80000000
     then (ScanRange_param k)[0 := 2, 1 := 5] else (ScanRange_param k)[0 := 5, 1 := 8])\<rparr>) s"

definition init_antenna :: "unit ctio" where
  "init_antenna =
     bind_io (look (\<lambda>s. on_eeprom (APP_PARAM_AntennaParam_Read (antenna s)))) (\<lambda>(_, a).
     bind_io (alter (set_antenna (\<lambda>_. a))) (\<lambda>_.
     bind_io (look (\<lambda>s. on_eeprom (APP_PARAM_AimAtSatParamLimitmv_Read (SeekSatParam (ACUParam (info s)))))) (\<lambda>(_, k).
     bind_io (alter (\<lambda>s. init_scan (set_seek (\<lambda>_. k) s))) (\<lambda>_.
     bind_io (look (\<lambda>s. on_eeprom (APP_PARAM_AntennaDir_Map_MotorDir_Read (antenna s)))) (\<lambda>(_, a1).
       alter (set_antenna (\<lambda>_. a1)))))))"

text \<open>A limit of an axis. \<open>cnt\<close> keeps its value when the EEPROM cannot be read. Without an angle from the encoder the limit is
  computed from the one before. The upper limits are rounded down after three degrees are taken off, the lower ones up after
  three are added.\<close>

datatype bound = Lower | Upper

definition within_limit :: "bound \<Rightarrow> fp32 \<Rightarrow> fp32" where
  "within_limit b x = (case b of Lower \<Rightarrow> fp_of_s32 (fp_to_s32 (of_int \<lceil>f32 (x + 3)\<rceil>))
     | Upper \<Rightarrow> fp_of_s32 (fp_to_s32 (of_int \<lfloor>f32 (x - 3)\<rfloor>)))"

definition init_limit :: "u8 \<Rightarrow> u8 \<Rightarrow> bound \<Rightarrow> fp32 \<Rightarrow> (strAntennaParam \<Rightarrow> fp32) \<Rightarrow> (fp32 \<Rightarrow> strAntennaParam \<Rightarrow> strAntennaParam)
    \<Rightarrow> u32 \<Rightarrow> u32 ctio" where
  "init_limit part code b preset sel upd cnt0 =
     bind_io (on_eeprom (APP_PARAM_HardWareLimit_Read part code cnt0)) (\<lambda>(_, cnt).
     bind_io (alter (\<lambda>s. if cnt = 0x00 then set_antenna (upd preset) s
       else let degree = APP_ElecEncoder_Data2DegreeFloat part cnt ((coders s)\<lparr>eep := (eep (coders s))\<lparr>acu := info s\<rparr>\<rparr>);
                x = (case APP_MONITOR_LocallAntennaAdjustDegreeDataGet part degree (info s) of Some y \<Rightarrow> y | None \<Rightarrow> sel (antenna s))
            in set_antenna (upd (within_limit b x)) s)) (\<lambda>_. ret_io cnt))"

definition init_limits :: "u32 \<Rightarrow> unit ctio" where
  "init_limits cnt =
     bind_io (init_limit 0x01 0x10 Lower 110 motor_position_start (\<lambda>x a. a\<lparr>motor_position_start := x\<rparr>) cnt) (\<lambda>cnt.
     bind_io (init_limit 0x01 0x11 Upper 260 motor_position_end (\<lambda>x a. a\<lparr>motor_position_end := x\<rparr>) cnt) (\<lambda>cnt.
     bind_io (init_limit 0x02 0x20 Lower 5 motor_cabrage_start (\<lambda>x a. a\<lparr>motor_cabrage_start := x\<rparr>) cnt) (\<lambda>cnt.
     bind_io (init_limit 0x02 0x21 Upper 85 motor_cabrage_end (\<lambda>x a. a\<lparr>motor_cabrage_end := x\<rparr>) cnt) (\<lambda>cnt.
     bind_io (init_limit 0x03 0x30 Upper 90 motor_polar_end (\<lambda>x a. a\<lparr>motor_polar_end := x\<rparr>) cnt) (\<lambda>cnt.
     bind_io (init_limit 0x03 0x31 Lower (- 90) motor_polar_start (\<lambda>x a. a\<lparr>motor_polar_start := x\<rparr>) cnt) (\<lambda>_. ret_io ()))))))"

section \<open>Position, beacon, records\<close>

definition init_position :: "unit ctio" where
  "init_position =
     bind_io (alter (set_local (\<lambda>l. l\<lparr>lp_data_src_flag := 0x00\<rparr>))) (\<lambda>_.
     bind_io (look (\<lambda>s. on_eeprom (APP_PARAM_LocallHandParam_Read (HandLocalPositionParam (DeviceInfo (info s)))))) (\<lambda>(_, h).
     bind_io (alter (set_hand (\<lambda>_. h))) (\<lambda>_.
       alter (set_local (\<lambda>l. l\<lparr>lp_lon_flag := hp_lon_flag h, lp_lon := hp_lon h, lp_lat_flag := hp_lat_flag h, lp_lat := hp_lat h\<rparr>)))))"

definition init_beacon :: "unit ctio" where
  "init_beacon = look (\<lambda>s.
     bind_io (on_rcv APP_BEACON_QueAGC) (\<lambda>_.
     bind_io (on_rcv (APP_BEACON_SetFreq (beacon_freq (sat_freq (curr_sat s)) (antenna s)))) (\<lambda>_.
       alter (\<lambda>s1. set_seek (\<lambda>k. k\<lparr>ScanRange_param := scan_ranges (ant_lo_freq (antenna s1)) (ScanRange_param k)\<rparr>) s1))))"

fun init_record_list :: "nat list \<Rightarrow> u16 \<Rightarrow> bytes \<Rightarrow> u16 ctio" where
  "init_record_list [] n buff = ret_io n"
| "init_record_list (i # is) n buff =
     bind_io (on_eeprom (APP_PARAM_AntennaRecord_Read (of_nat (i + 1)) buff)) (\<lambda>(_, b).
       if b ! 0 = of_nat (i + 1) then
         bind_io (alter (set_records (\<lambda>l. l\<lparr>record_ID := (record_ID l)[i := of_nat (i + 1)]\<rparr>))) (\<lambda>_.
           init_record_list is (n + 1) b)
       else init_record_list is n b)"

definition init_records :: "bytes \<Rightarrow> unit ctio" where
  "init_records buff =
     bind_io (look (\<lambda>s. on_eeprom (APP_PARAM_AntennaRecord_TotalNum_Read (record_Total_num (records s))))) (\<lambda>(_, total).
     bind_io (alter (set_records (\<lambda>l. l\<lparr>record_Total_num := total\<rparr>))) (\<lambda>_.
     bind_io (init_record_list [0..<ANTENNA_RECORD_MAX_NUM] 0 buff) (\<lambda>n. look (\<lambda>s.
       if ucast n \<noteq> record_Total_num (records s) then
         bind_io (alter (set_records (\<lambda>l. l\<lparr>record_Total_num := ucast n\<rparr>))) (\<lambda>_.
         bind_io (on_eeprom (APP_PARAM_AntennaRecord_TotalNum_Save (ucast n))) (\<lambda>_. ret_io ()))
       else ret_io ()))))"

section \<open>Signal and mode\<close>

definition limit_mv :: "u32 \<Rightarrow> u32" where
  "limit_mv x = (if x < 1000 \<or> x > 3000 then 1000 else x)"

definition init_signal :: "unit ctio" where
  "init_signal =
     bind_io (look (\<lambda>s. on_eeprom (APP_PARAM_HistoryMaxMv_Read (history_max_mv (ACUCurrSta (info s)))))) (\<lambda>(_, x).
     bind_io (alter (set_sta (\<lambda>c. c\<lparr>history_max_mv := x\<rparr>))) (\<lambda>_.
     bind_io (look (\<lambda>s. on_eeprom (APP_PARAM_AimAtSatParamLimitmv_Read (SeekSatParam (ACUParam (info s)))))) (\<lambda>(_, k).
       alter (set_seek (\<lambda>_. k\<lparr>AimAtSat_Limit_mv := limit_mv (AimAtSat_Limit_mv k)\<rparr>)))))"

definition init_mode :: "unit ctio" where
  "init_mode =
     bind_io (on_eeprom APP_PARAM_EthRelinkResetMCUFlag_Read) (\<lambda>f.
       if f > 0 then
         bind_io (look (\<lambda>s. on_eeprom (APP_PARAM_AimAtSatMode_Read (seek_mode s)))) (\<lambda>(_, m).
         bind_io (alter (set_mode m)) (\<lambda>_.
         bind_io (look (\<lambda>s. on_eeprom (APP_PARAM_AimAtSatWorkSta_Read (dev_work_sta (ACUCurrSta (info s)))))) (\<lambda>(_, w).
           alter (set_work w))))
       else alter (\<lambda>s. set_work 0x00 (set_mode 0x00 s)))"

definition ascii :: "string \<Rightarrow> bytes" where
  "ascii = map (\<lambda>c. of_nat (of_char c))"

definition init_version :: "ctl \<Rightarrow> ctl" where
  "init_version = set_unit (\<lambda>d. d\<lparr>Version := (Version d)[0 := (Version d ! 0)
     \<lparr>ver_softver := copy_over (ver_softver (Version d ! 0)) (ascii ''EMS V1.01.B030  ''),
      ver_hardver := copy_over (ver_hardver (Version d ! 0)) (ascii ''HW V1.01.B010   '')\<rparr>]\<rparr>)"

text \<open>The whole, with the clock chip beside the state.\<close>

definition APP_PARAM_Init :: "libm \<Rightarrow> strSatParam \<Rightarrow> bytes \<Rightarrow> u32 \<Rightarrow> rtcw \<Rightarrow> rtcw ctio" where
  "APP_PARAM_Init m stack buff cnt w s =
     (case DATETIME_ReadFromRtcIC (SysDateTime (info s)) w of (t, w1) \<Rightarrow>
       bind_io (alter (set_unit (\<lambda>d. d\<lparr>SysDateTime := t\<rparr>))) (\<lambda>_.
       bind_io init_map (\<lambda>_.
       bind_io (init_satellites stack) (\<lambda>_.
       bind_io init_antenna (\<lambda>_.
       bind_io (init_limits cnt) (\<lambda>_.
       bind_io init_position (\<lambda>_.
       bind_io (APP_MONITOR_AimDegree_Get m) (\<lambda>_.
       bind_io init_beacon (\<lambda>_.
       bind_io (init_records buff) (\<lambda>_.
       bind_io init_signal (\<lambda>_.
       bind_io (alter refresh_param) (\<lambda>_.
       bind_io init_mode (\<lambda>_.
       bind_io (alter init_version) (\<lambda>_. ret_io w1))))))))))))) s)"

end
