(* ===== verification/ControlProps.thy ===== *)
theory ControlProps
  imports ControlLaws
begin

text \<open>
  Properties of the commands that drive the antenna and keep positions: what the change of the mode stops,
  what a refused command has already done, and what a recorded position is when it is
  approached again.
\<close>

section \<open>The drive unit\<close>

abbreviation (input) frames_sent :: "ctl \<Rightarrow> bytes list" where
  "frames_sent s \<equiv> sent (core (watch (rcv s)))"

abbreviation (input) stops :: "bytes set" where
  "stops \<equiv> {stop_frame 1, stop_frame 2, stop_frame 3}"

lemma on_drive_Inr:
  "on_drive m s = Inr (x, s') \<longleftrightarrow> (\<exists>p. m (core (watch (rcv s))) = Inr (x, p)
     \<and> s' = s\<lparr>rcv := (rcv s)\<lparr>watch := (watch (rcv s))\<lparr>core := p\<rparr>\<rparr>\<rparr>)"
  by (auto simp: on_drive_def on_rcv_def bind_f_Inr on_link_Inr)

text \<open>A stop of all axes sends a stop frame to each, and changes nothing but the link.\<close>

definition stopped_from :: "ctl \<Rightarrow> ctl \<Rightarrow> bool" where
  "stopped_from s s' \<longleftrightarrow> (\<exists>w. drives (watch (rcv s)) w \<and> s' = s\<lparr>rcv := (rcv s)\<lparr>watch := w\<rparr>\<rparr>)
     \<and> (\<exists>fs. frames_sent s' = frames_sent s @ fs \<and> stops \<subseteq> set fs)"

lemma all_end:
  assumes "on_drive Antenna_AllDriveEnd s = Inr (r, t)"
  shows "stopped_from s t"
proof -
  obtain p where p: "Antenna_AllDriveEnd (core (watch (rcv s))) = Inr (r, p)"
    "t = s\<lparr>rcv := (rcv s)\<lparr>watch := (watch (rcv s))\<lparr>core := p\<rparr>\<rparr>\<rparr>"
    using assms by (auto simp: on_drive_Inr)
  have "on_link Antenna_AllDriveEnd (watch (rcv s)) = Inr (r, (watch (rcv s))\<lparr>core := p\<rparr>)"
    using p(1) by (auto simp: on_link_Inr)
  then have "drives (watch (rcv s)) ((watch (rcv s))\<lparr>core := p\<rparr>)" using obeysD [OF drives_stop_all] by blast
  with p(2) all_stop_sent [OF p(1)] show ?thesis
    unfolding stopped_from_def by (intro conjI exI [of _ "(watch (rcv s))\<lparr>core := p\<rparr>"]) auto
qed

lemma stopped_twice: "stopped_from s t \<Longrightarrow> stopped_from t u \<Longrightarrow> stopped_from s u"
  unfolding stopped_from_def using drv.step by fastforce

lemma stop_all_effect: "stop_all s = Inr (u, s') \<Longrightarrow> stopped_from s s'"
  unfolding stop_all_def bind_io_Inr
  by (auto simp: bind_io_Inr split: if_splits intro: all_end stopped_twice)

lemma stopped_sel:
  assumes "stopped_from s s'"
  shows "seek_mode s' = seek_mode s" "running i s' = running i s" "antenna s' = antenna s" "journal s' = journal s"
    "started s' = started s" "coders s' = coders s" "ACUParam (info s') = ACUParam (info s)"
    "dev_work_sta (ACUCurrSta (info s')) = dev_work_sta (ACUCurrSta (info s))" "killed (watch (rcv s')) = killed (watch (rcv s))"
proof -
  obtain w where w: "drives (watch (rcv s)) w" "s' = s\<lparr>rcv := (rcv s)\<lparr>watch := w\<rparr>\<rparr>"
    using assms by (auto simp: stopped_from_def)
  then have r: "rest (info s') = rest (info s)" by (simp add: drives_def info_def)
  show "running i s' = running i s" "journal s' = journal s" "started s' = started s" "coders s' = coders s"
    "killed (watch (rcv s')) = killed (watch (rcv s))"
    using w drives_sel [OF w(1)] by (simp_all add: running_def)
  show "seek_mode s' = seek_mode s" "antenna s' = antenna s" "ACUParam (info s') = ACUParam (info s)"
    "dev_work_sta (ACUCurrSta (info s')) = dev_work_sta (ACUCurrSta (info s))"
    using rest_sel [OF r] by (simp_all add: getters)
qed

section \<open>Change of the mode\<close>

lemma info_tasks [simp]: "info (set_tasks (TaskDel i) s) = info s" "frames_sent (set_tasks (TaskDel i) s) = frames_sent s"
  by (simp_all add: info_def set_tasks_def board_def TaskDel_def)

lemma delete_running_sel [simp]:
  "info (delete_running i s) = info s" "frames_sent (delete_running i s) = frames_sent s"
  "seek_mode (delete_running i s) = seek_mode s"
  by (simp_all add: delete_running_def seek_mode_def)

lemma running_delete:
  "length (Task_Run_Flag (watch (rcv s))) = 3 \<Longrightarrow> i < 3 \<Longrightarrow> running j (delete_running i s) \<longleftrightarrow> j \<noteq> i \<and> running j s"
  "length (Task_Run_Flag (watch (rcv (delete_running i s)))) = length (Task_Run_Flag (watch (rcv s)))"
  by (auto simp: delete_running_def running_def set_tasks_def TaskDel_def nth_list_update)

lemma delete_all_sel:
  "frames_sent (delete_all s) = frames_sent s" "info (delete_all s) = info s"
  "length (Task_Run_Flag (watch (rcv s))) = 3 \<Longrightarrow> i < 3 \<Longrightarrow> \<not> running i (delete_all s)"
  by (auto simp: delete_all_def running_delete numeral_3_eq_3 less_Suc_eq)

text \<open>The task that belongs to a mode.\<close>

definition mode_task :: "u8 \<Rightarrow> nat" where
  "mode_task m = (if m = 2 then 0 else if m = 3 then 1 else 2)"

lemma small_steps [simp]:
  "frames_sent (set_work v s) = frames_sent s" "running i (set_work v s) = running i s" "seek_mode (set_work v s) = seek_mode s"
  "frames_sent (set_mode v s) = frames_sent s" "running i (set_mode v s) = running i s" "seek_mode (set_mode v s) = v"
  "frames_sent (logged k b s) = frames_sent s" "running i (logged k b s) = running i s" "seek_mode (logged k b s) = seek_mode s"
  "frames_sent (TaskSatelliteTrackCreate s) = frames_sent s" "running i (TaskSatelliteTrackCreate s) = running i s"
  "frames_sent (TaskSatGradientTrackCreate s) = frames_sent s" "running i (TaskSatGradientTrackCreate s) = running i s"
  by (simp_all add: setters running_def seek_mode_def logged_def TaskSatelliteTrackCreate_def TaskSatGradientTrackCreate_def)

lemma begin_mode_effect:
  "begin_mode f s = Inr (u, s') \<Longrightarrow> \<exists>t. stopped_from (delete_all s) t \<and> s' = f t"
  by (auto simp: begin_mode_def bind_io_Inr dest: stop_all_effect)

lemma ended_mode_sel:
  assumes "length (Task_Run_Flag (watch (rcv s))) = 3" "k < 3"
  shows "frames_sent (ended_mode m k l s) = frames_sent s" "seek_mode (ended_mode m k l s) = seek_mode s"
    "running j (ended_mode m k l s) \<longleftrightarrow> running j s \<and> \<not> (seek_mode s = m \<and> j = k)"
    "length (Task_Run_Flag (watch (rcv (ended_mode m k l s)))) = 3"
  using assms by (auto simp: ended_mode_def running_delete) (simp_all add: logged_def running_delete)

text \<open>C4: a command of a PC that selects a mode, with one data byte, and that returns, has succeeded and stored the mode, whatever
  the drive unit answered. If the mode is at most 3 a stop command has been sent to each axis when it returns, and the task of the
  mode before, one of 1 to 4, does not run; for the modes 1 to 3 none of the three tracking tasks does. A mode above 3 is stored
  with nothing ended, stopped or changed beside it.\<close>

theorem mode_change_stops:
  assumes "APP_PCCOMM_AimAtSatModeSel c s = Inr (r, s')" "cmd_of c = AimAtSatModeSelID" "c ! 2 = 1"
    "length (Task_Run_Flag (watch (rcv s))) = 3"
  shows "r = SUCC \<and> seek_mode s' = c ! 3
    \<and> (if c ! 3 \<le> 3
       then (\<exists>fs. frames_sent s' = frames_sent s @ fs \<and> stops \<subseteq> set fs)
         \<and> (seek_mode s \<in> {1, 2, 3, 4} \<longrightarrow> \<not> running (mode_task (seek_mode s)) s')
         \<and> (c ! 3 \<noteq> 0 \<longrightarrow> (\<forall>i < 3. \<not> running i s'))
       else s' = set_mode (c ! 3) s)"
proof -
  have new: "(\<exists>fs. frames_sent t = frames_sent s @ fs \<and> stops \<subseteq> set fs) \<and> (i < 3 \<longrightarrow> \<not> running i t)"
    if b: "begin_mode f s = Inr (u, t')" and e: "\<And>x. frames_sent (f x) = frames_sent x"
      "\<And>i x. running i (f x) = running i x" "t = set_mode m t'" for f u t t' i m
  proof -
    obtain x where x: "stopped_from (delete_all s) x" "t' = f x" using begin_mode_effect [OF b] by blast
    then obtain fs where "frames_sent x = frames_sent s @ fs" "stops \<subseteq> set fs"
      by (auto simp: stopped_from_def delete_all_sel)
    then show ?thesis using x stopped_sel(2) [OF x(1)] delete_all_sel(3) [OF assms(4)] e by simp
  qed
  have mt: "mode_task (seek_mode s) < 3" by (simp add: mode_task_def)
  consider "c ! 3 = 0" | "c ! 3 \<in> {1, 2, 3}" | "\<not> c ! 3 \<le> 3"
    by (cases "unat (c ! 3) \<in> {0, 1, 2, 3}") (auto simp: word_le_nat_alt word_unat_eq_iff)
  then show ?thesis
  proof cases
    case 1
    let ?e = "\<lambda>s. ended_mode 3 1 LOG_OPT_FOLLOW_STAR_END_BY_PC (ended_mode 4 2 LOG_OPT_ANTENNA_POSE_STOP_BY_PC
      (ended_mode 2 0 LOG_OPT_AUTO_AIM_STAR_END_BY_PC (ended_mode 1 2 LOG_OPT_HAND_AIM_STAR_END_BY_PC s)))"
    obtain t where t: "stopped_from (?e s) t" "r = SUCC" "s' = set_mode 0 (set_work 0 t)"
      using assms(1-3) 1 by (auto simp: APP_PCCOMM_AimAtSatModeSel_def Let_def bind_io_Inr ret_io_def dest: stop_all_effect)
    have "frames_sent (?e s) = frames_sent s"
      "seek_mode s \<in> {1, 2, 3, 4} \<longrightarrow> \<not> running (mode_task (seek_mode s)) (?e s)"
      using assms(4) by (auto simp: ended_mode_sel mode_task_def)
    then show ?thesis using 1 t stopped_sel(2) [OF t(1)] by (auto simp: stopped_from_def)
  next
    case 2
    then have le: "c ! 3 \<le> 3" "c ! 3 \<noteq> 0" by auto
    obtain f t where t: "begin_mode f s = Inr ((), t)" "\<And>x. frames_sent (f x) = frames_sent x"
      "\<And>i x. running i (f x) = running i x" "r = SUCC" "s' = set_mode (c ! 3) t"
      using assms(1-3) 2 by (auto simp: APP_PCCOMM_AimAtSatModeSel_def Let_def bind_io_Inr ret_io_def)
    show ?thesis using new [OF t(1-3,5)] t(4,5) le mt by auto
  next
    case 3
    then have "c ! 3 \<noteq> 0" "c ! 3 \<noteq> 1" "c ! 3 \<noteq> 2" "c ! 3 \<noteq> 3" by auto
    then show ?thesis using assms(1-3) 3
      by (auto simp: APP_PCCOMM_AimAtSatModeSel_def Let_def ret_io_def)
  qed
qed


section \<open>Commands that are refused too late\<close>

text \<open>A command to go to a recorded position that is refused, because its number is wrong or no position is
  recorded under it, has already ended the mode of operation and sent a stop command to each axis; what the
  antenna does is still shown as before.\<close>

theorem refused_goto_stops:
  assumes "seek_mode s \<noteq> 0" "cmd_of c \<noteq> AntennaRecordGotoID \<or> c ! 3 \<notin> set (record_ID (records s))"
    "APP_PCCOMM_AntennaRecordGoto c s = Inr (r, s')"
  shows "r = FAIL \<and> seek_mode s' = 0 \<and> dev_work_sta (ACUCurrSta (info s')) = dev_work_sta (ACUCurrSta (info s))
    \<and> (\<exists>fs. frames_sent s' = frames_sent s @ fs \<and> stops \<subseteq> set fs)"
proof -
  let ?t = "set_mode 0 (if running 2 s then delete_running 2 s
          else if running 1 s then delete_running 1 s else delete_running 0 s)"
  obtain u where u: "stop_all ?t = Inr ((), u)" "(\<lambda>x. APP_PCCOMM_AntennaRecordGoto c s = x) (Inr (r, s'))"
    "leave_mode s = Inr ((), u)"
    using assms(1,3) by (auto simp: APP_PCCOMM_AntennaRecordGoto_def leave_mode_def bind_io_Inr)
  have st: "stopped_from ?t u" using stop_all_effect [OF u(1)] .
  have "rest (info u) = rest (info ?t)" using st by (auto simp: stopped_from_def drives_def info_def)
  then have "AntennaRecordList (rest (info u)) = AntennaRecordList (rest (info ?t))" by simp
  then have rec: "records u = records s" by (simp add: getters setters rest_def)
  have "r = FAIL \<and> s' = u"
    using assms(2,3) u(3) rec by (auto simp: APP_PCCOMM_AntennaRecordGoto_def bind_io_def Let_def split: if_splits)
  moreover have "dev_work_sta (ACUCurrSta (info ?t)) = dev_work_sta (ACUCurrSta (info s))"
    by (simp add: setters)
  ultimately show ?thesis using st stopped_sel [OF st] by (auto simp: stopped_from_def)
qed

lemma on_eeprom_sent:
  assumes "on_eeprom m s = Inr (x, s')"
  shows "frames_sent s' = frames_sent s \<and> port6 (rcv s') = port6 (rcv s)"
  using assms by (auto simp: on_eeprom_def bind_f_Inr)

definition save_dir_fails :: "u8 \<Rightarrow> ctl \<Rightarrow> bool" where
  "save_dir_fails part s \<longleftrightarrow> (case on_eeprom (APP_PARAM_AntennaDir_Map_MotorDir_Save part
     (AntennaDirMapMotor (antenna s) ! (unat part - 1))) s of Inr (FAIL, _) \<Rightarrow> True | _ \<Rightarrow> False)"

text \<open>The end of the adjustment of a turning direction that gives up, because the command is not understood
  or the EEPROM does not take the result, leaves the motor that the beginning started turning: no
  frame is sent to the drive unit, and the mode becomes standby.\<close>

theorem failed_adjustment_leaves_motor:
  assumes "cmd_of c \<noteq> AntennaTurnDirAdjustFinishSetID \<or> pc_dir (c ! 4) = None
      \<or> turning_part s = c ! 3 \<and> (\<forall>dir. pc_dir (c ! 4) = Some dir \<longrightarrow> save_dir_fails (c ! 3) (map_dir (c ! 3) dir s))"
    "APP_PCCOMM_AntennaTurnDirAdjustFinish mode c s = Inr (r, s')"
  shows "r = FAIL \<and> frames_sent s' = frames_sent s \<and> seek_mode s' = 0"
proof (cases "cmd_of c = AntennaTurnDirAdjustFinishSetID \<and> pc_dir (c ! 4) \<noteq> None")
  case False
  then have "s' = set_mode 0 s \<and> r = FAIL"
    using assms(2) by (auto simp: APP_PCCOMM_AntennaTurnDirAdjustFinish_def give_up_def ret_io_def Let_def split: if_splits)
  then show ?thesis by simp
next
  case True
  then obtain dir where d: "pc_dir (c ! 4) = Some dir" "turning_part s = c ! 3" "save_dir_fails (c ! 3) (map_dir (c ! 3) dir s)"
    using assms(1) by auto
  then obtain t where t: "on_eeprom (APP_PARAM_AntennaDir_Map_MotorDir_Save (c ! 3)
      (AntennaDirMapMotor (antenna (map_dir (c ! 3) dir s)) ! (unat (c ! 3) - 1))) (map_dir (c ! 3) dir s) = Inr (FAIL, t)"
    by (auto simp: save_dir_fails_def split: sum.splits prod.splits status.splits)
  have "frames_sent t = frames_sent s" using on_eeprom_sent [OF t] by (simp add: map_dir_def setters)
  moreover have "s' = set_mode 0 t \<and> r = FAIL"
    using assms(2) True d t
    by (auto simp: APP_PCCOMM_AntennaTurnDirAdjustFinish_def finish_turn_def give_up_def Let_def ret_io_def
        split: if_splits)
  ultimately show ?thesis by simp
qed

section \<open>Limits without an encoder\<close>

fun times :: "nat \<Rightarrow> status ctio \<Rightarrow> status list ctio" where
  "times 0 m = ret_io []"
| "times (Suc n) m = bind_io m (\<lambda>r. bind_io (times n m) (\<lambda>rs. ret_io (r # rs)))"

lemma inwards_nat: "k + 3 < 16777216 \<Longrightarrow> inwards True (of_nat k) = of_nat (k + 3)"
proof -
  assume "k + 3 < 16777216"
  from f32_of_nat [OF this] have f: "f32 (of_nat k + 3) = of_nat k + 3" by simp
  have c: "rat_of_int \<lceil>of_nat k + (3 :: rat)\<rceil> = of_nat k + 3" by (simp add: ceiling_add_of_int [of _ 3, simplified])
  show ?thesis unfolding inwards_def if_True f c f by simp
qed

lemma limit_slot_fits:
  "unat (APP_EEPROM_PositionHardLimit_ADDR + (ucast (1 :: u8) - 1) * 16 + ucast ((0x10 :: u8) AND 0x0F) * 4) + 4 \<le> 65536"
  by simp

definition unlinked_at :: "nat \<Rightarrow> ctl \<Rightarrow> bool" where
  "unlinked_at k s \<longleftrightarrow> board_ok (chip s) \<and> \<not> has_link 0 (info s) \<and> motor_position_start (antenna s) = of_nat k"

lemma adjust_once:
  assumes s: "unlinked_at k s" and k: "k + 3 < 16777216" and c: "cmd_of c = AntennaHardWareLimitSetID" "c ! 3 = 0x10"
  shows "\<exists>s'. APP_PCCOMM_AntennaHargWareLimitAdjust c s = Inr (SUCC, s') \<and> unlinked_at (k + 3) s'"
proof -
  let ?d = "ed_data (EleccoderData (coder_of 0 (info s)))"
  obtain t where t: "on_eeprom (APP_PARAM_HardWareLimit_Save 1 0x10 ?d) s = Inr (SUCC, t)" "board_ok (chip t)" "info t = info s"
    using save_param_on_board [where s = s and xs = "be32 ?d" and a = "APP_EEPROM_PositionHardLimit_ADDR"] s
    by (auto simp: APP_PARAM_HardWareLimit_Save_def unlinked_at_def)
  have n: "APP_MONITOR_LocallAntennaAdjustDegreeDataGet 1 x (info s) = None" for x
    using s by (simp add: APP_MONITOR_LocallAntennaAdjustDegreeDataGet_def unlinked_at_def)
  have e: "new_limit 0x10 None = (\<lambda>a. a\<lparr>motor_position_start := inwards True (motor_position_start a)\<rparr>)"
    by (simp add: new_limit_def fun_eq_iff)
  let ?s' = "logged 0x021212 [] (set_antenna (\<lambda>a. a\<lparr>motor_position_start := inwards True (motor_position_start a)\<rparr>) t)"
  have "APP_PCCOMM_AntennaHargWareLimitAdjust c s = Inr (SUCC, ?s')"
    using c t n by (simp add: APP_PCCOMM_AntennaHargWareLimitAdjust_def Let_def e bind_io_def ret_io_def alter_def)
  moreover have "unlinked_at (k + 3) ?s'"
    using s t k inwards_nat [OF k] by (simp add: unlinked_at_def setters getters has_link_def coder_of_def)
  ultimately show ?thesis by blast
qed

text \<open>While the azimuth encoder has no link, every command that sets the hardware limit at the present
  position succeeds, and moves the old limit three degrees into the range instead.\<close>

theorem limit_creeps_without_encoder:
  assumes "unlinked_at k s" "k + 3 * n < 16777216" "cmd_of c = AntennaHardWareLimitSetID" "c ! 3 = 0x10"
  shows "\<exists>s'. times n (APP_PCCOMM_AntennaHargWareLimitAdjust c) s = Inr (replicate n SUCC, s')
    \<and> motor_position_start (antenna s') = of_nat (k + 3 * n)"
  using assms
proof (induction n arbitrary: k s)
  case (Suc n)
  obtain t where t: "APP_PCCOMM_AntennaHargWareLimitAdjust c s = Inr (SUCC, t)" "unlinked_at (k + 3) t"
    using adjust_once [OF Suc.prems(1) _ Suc.prems(3,4)] Suc.prems(2) by auto
  have "k + 3 + 3 * n < 16777216" using Suc.prems(2) by simp
  from Suc.IH [OF t(2) this Suc.prems(3,4)] show ?case
    by (auto simp: bind_io_def t(1) ret_io_def algebra_simps)
qed (simp add: ret_io_def unlinked_at_def)

section \<open>Witnesses\<close>

definition mode_frame :: "u8 \<Rightarrow> bytes" where
  "mode_frame m = [2, 1, 1, m]"

theorem mode_change_stops_witness:
  "\<exists>s'. APP_PCCOMM_AimAtSatModeSel (mode_frame 2) (blank []) = Inr (SUCC, s') \<and> stops \<subseteq> set (frames_sent s')"
proof -
  have "\<not> isl (APP_PCCOMM_AimAtSatModeSel (mode_frame 2) (blank []))" by code_simp
  then obtain r s' where s': "APP_PCCOMM_AimAtSatModeSel (mode_frame 2) (blank []) = Inr (r, s')"
    by (cases "APP_PCCOMM_AimAtSatModeSel (mode_frame 2) (blank [])") auto
  from mode_change_stops [OF this] show ?thesis
    using s' by (auto simp: mode_frame_def cmd_of_def un16_def test_beacon_def test_watch_def)
qed


lemma not_isl: "\<not> isl x \<Longrightarrow> \<exists>r s. x = Inr (r, s)"
  by (cases x) auto

text \<open>The antenna is in mode 4, and its position 3 is asked for, which was never recorded.\<close>

theorem refused_goto_stops_witness:
  "\<exists>s'. APP_PCCOMM_AntennaRecordGoto [2, 6, 1, 3] (set_mode 4 (blank [])) = Inr (FAIL, s') \<and> seek_mode s' = 0
    \<and> stops \<subseteq> set (frames_sent s')"
proof -
  have "\<not> isl (APP_PCCOMM_AntennaRecordGoto [2, 6, 1, 3] (set_mode 4 (blank [])))" by code_simp
  then obtain r s' where s': "APP_PCCOMM_AntennaRecordGoto [2, 6, 1, 3] (set_mode 4 (blank [])) = Inr (r, s')"
    using not_isl by blast
  have "3 \<notin> set (record_ID (records (set_mode 4 (blank []))))"
    by (simp add: setters getters zero_strACUDevInfo_def zero_strAntennaRecordList_def)
  then show ?thesis
    using refused_goto_stops [OF _ _ s'] s' by (auto simp: test_beacon_def test_watch_def)
qed

text \<open>The azimuth motor turns, and a write to the EEPROM, whose function ends without a return value, yields \<open>FAIL\<close>.\<close>

definition turning :: ctl where
  "turning = (blank [])\<lparr>coders := \<lparr>eep = fresh_board\<lparr>indet := \<lambda>_. FAIL\<rparr>, ports = [], Elec_coder_UlinkCnt = [0, 0, 0], observed = []\<rparr>,
     AntennaDir := 0x0102\<rparr>"

theorem failed_adjustment_leaves_motor_witness:
  "\<exists>s'. APP_PCCOMM_AntennaTurnDirAdjustFinish 0 [1, 0x0C, 2, 1, 1] turning = Inr (FAIL, s') \<and> frames_sent s' = []"
proof -
  have "\<not> isl (APP_PCCOMM_AntennaTurnDirAdjustFinish 0 [1, 0x0C, 2, 1, 1] turning)" by code_simp
  then obtain r s' where s': "APP_PCCOMM_AntennaTurnDirAdjustFinish 0 [1, 0x0C, 2, 1, 1] turning = Inr (r, s')"
    using not_isl by blast
  have "save_dir_fails 1 (map_dir 1 2 turning)" by code_simp
  moreover have "turning_part turning = 1" by (simp add: turning_part_def turning_def)
  ultimately show ?thesis
    using failed_adjustment_leaves_motor [OF _ s'] s'
    by (auto simp: pc_dir_def turning_def test_beacon_def test_watch_def)
qed


theorem limit_creeps_without_encoder_witness:
  "\<exists>s'. times 5 (APP_PCCOMM_AntennaHargWareLimitAdjust [1, 0x0E, 1, 0x10]) (set_antenna (\<lambda>a. a\<lparr>motor_position_start := 110\<rparr>)
      (set_unit (\<lambda>d. d\<lparr>DeviceInfo := (DeviceInfo d)\<lparr>EleccoderInfo := map (\<lambda>e. e\<lparr>EleccoderStat :=
         (EleccoderStat e)\<lparr>es_link_stat := COMM_UNLINK\<rparr>\<rparr>) (EleccoderInfo (DeviceInfo d))\<rparr>\<rparr>) (blank [])))
      = Inr (replicate 5 SUCC, s') \<and> motor_position_start (antenna s') = 125"
proof -
  let ?s = "set_antenna (\<lambda>a. a\<lparr>motor_position_start := 110\<rparr>)
      (set_unit (\<lambda>d. d\<lparr>DeviceInfo := (DeviceInfo d)\<lparr>EleccoderInfo := map (\<lambda>e. e\<lparr>EleccoderStat :=
         (EleccoderStat e)\<lparr>es_link_stat := COMM_UNLINK\<rparr>\<rparr>) (EleccoderInfo (DeviceInfo d))\<rparr>\<rparr>) (blank []))"
  have "unlinked_at 110 ?s"
    by (simp add: unlinked_at_def setters getters has_link_def coder_of_def zero_strACUDevInfo_def zero_strDeviceInfo_def)
  from limit_creeps_without_encoder [OF this, of 5 "[1, 0x0E, 1, 0x10]"] show ?thesis
    by (simp add: cmd_of_def un16_def)
qed

end
