(* ===== verification/RecordProps.thy ===== *)
theory RecordProps
  imports ControlProps
begin

text \<open>
  The recorded positions on a working board: what an approach of a position restores of what its recording stored,
  and what a deletion of position 0 destroys.
\<close>

section \<open>Deleting\<close>

lemma read_param_on_board:
  assumes "board_ok (chip s)" "0 < unat n" "unat n \<le> 256" "unat n \<le> k"
  shows "\<exists>s'. on_eeprom (read_param a k n old f) s
      = Inr ((SUCC, f (copy_over (replicate k 0) (region (chip s) a (unat n)))), s')
    \<and> board_ok (chip s') \<and> chip_only s s' \<and> region (chip s') = region (chip s)"
proof -
  obtain s' where "on_eeprom (APP_PARAM_Read a (replicate k 0) n) s
      = Inr ((SUCC, copy_over (replicate k 0) (region (chip s) a (unat n))), s')"
    "board_ok (chip s')" "chip_only s s'" "region (chip s') = region (chip s)"
    using read_on_board [OF assms(1-3), of "replicate k 0" a] assms(4) by auto
  then show ?thesis
    by (intro exI [of _ s']) (simp add: read_param_def case_prod_unfold on_eeprom_bind bind_io_def ret_io_def)
qed

lemma set_records_simps [simp]:
  "chip (set_records f s) = chip s" "records (set_records f s) = f (records s)" "records (logged k b s) = records s"
  by (simp_all add: set_records_def records_def)

lemma region_part:
  assumes "unat a \<le> unat b" "unat b + k \<le> unat a + n"
  shows "region w b k = take k (drop (unat b - unat a) (region w a n))"
proof (rule nth_equalityI)
  fix i
  assume "i < length (region w b k)"
  then have "i < k" "unat b - unat a + i < n" "unat a + (unat b - unat a + i) = unat b + i" using assms by auto
  then show "region w b k ! i = take k (drop (unat b - unat a) (region w a n)) ! i"
    by (simp add: region_def chip_bytes_def)
qed (use assms in simp)

definition zeroed_slots :: "(u16 \<times> nat) list" where
  "zeroed_slots = filter (\<lambda>(a, m). 0xC0 \<le> unat a \<and> unat a + m \<le> 0x100) param_layout"

lemma zeroed_slots_list: "map fst zeroed_slots = [0xC0, 0xC4, 0xD0, 0xD2, 0xD4, 0xDA, 0xDB, 0xDC, 0xE0]"
proof -
  let ?P = "\<lambda>(a :: u16, m). 0xC0 \<le> unat a \<and> unat a + m \<le> 0x100"
  have "filter ?P (map (\<lambda>i. (antenna_record_addr (of_nat i), 80)) [1..<Suc ANTENNA_RECORD_MAX_NUM]) = []"
    "filter ?P (map (\<lambda>i. (sat_addr (of_nat i), 27)) [1..<Suc SAT_MAX_NUM]) = []"
    by (auto simp: filter_empty_conv unat_record_addr unat_sat_addr unat_of_nat)
  then show ?thesis unfolding zeroed_slots_def param_layout_def filter_append by (simp del: upt_Suc)
qed

text \<open>C40: on a working board a command that deletes the recorded position 0 is accepted as soon as a slot of the list is free. The
  nine parameter slots from \<open>0xC0\<close> to \<open>0xFF\<close>, those of the limits of the polarisation, the turning directions of the motors, the
  counting directions of the encoders and the date of the last power-on, hold zeros afterwards; the list is the same, and one record less
  is counted, if any was.\<close>

theorem delete_record_zero_wipes:
  assumes w: "board_ok (chip s)" and c: "4 \<le> length c" "cmd_of c = AntennaRecordDelID" "c ! 2 = 1" "c ! 3 = 0"
    and free: "0 \<in> set (record_ID (records s))"
  shows "\<exists>s'. APP_PCCOMM_DelAntennaRecord c s = Inr (SUCC, s') \<and> record_ID (records s') = record_ID (records s)
    \<and> record_Total_num (records s') = (if record_Total_num (records s) > 0 then record_Total_num (records s) - 1 else 0)
    \<and> map fst zeroed_slots = [0xC0, 0xC4, 0xD0, 0xD2, 0xD4, 0xDA, 0xDB, 0xDC, 0xE0]
    \<and> (\<forall>(a, m) \<in> set zeroed_slots. region (chip s') a m = replicate m 0)"
proof -
  obtain k where k: "index_of 0 (record_ID (records s)) = Some k" using free index_of_None by fastforce
  let ?s1 = "set_records (\<lambda>l. l\<lparr>record_ID := (record_ID l)[k := 0],
            record_Total_num := (if record_Total_num l > 0 then record_Total_num l - 1 else record_Total_num l)\<rparr>) s"
  obtain sat a AZ EL PL s2 where s2: "on_eeprom (APP_PARAM_AntennaRecord_Read2Struct 0 (zero_strSatParam, zero_strAntennaParam, 0, 0, 0)) ?s1
      = Inr ((SUCC, sat, a, AZ, EL, PL), s2)" "board_ok (chip s2)" "chip_only ?s1 s2"
    using read_param_on_board [of ?s1 80 100] w unfolding APP_PARAM_AntennaRecord_Read2Struct_def
    by (fastforce simp: split_paired_all)
  let ?s3 = "logged LOG_OPT_ANTENNA_POSE_DEL_BY_PC (pose_log sat a AZ EL PL) s2"
  have f: "fits (antenna_record_addr 0, replicate 64 0, 64)" by (simp add: fits_def unat_record_addr)
  obtain s4 where s4: "on_eeprom (APP_PARAM_AntennaRecord_Save 0 (replicate 64 0) 64) ?s3 = Inr (SUCC, s4)"
    "chip_only ?s3 s4" "region (chip s4) (antenna_record_addr 0) 64 = replicate 64 0"
    using save_on_board [of ?s3, OF _ f] s2(2) unfolding APP_PARAM_AntennaRecord_Save_def by auto
  have d: "take (unat (c ! 2)) (drop 3 c) = [0]" using c by (cases "drop 3 c") (auto simp: nth_via_drop)
  have "APP_PCCOMM_DelAntennaRecord c s = Inr (SUCC, s4)"
    using c d k s2(1) s4(1) by (simp add: APP_PCCOMM_DelAntennaRecord_def delete_record_def bind_io_def ret_io_def alter_def)
  moreover have "records s4 = records ?s1" using chip_only_sel(2) [OF s2(3)] chip_only_sel(2) [OF s4(2)] by simp
  moreover have "(record_ID (records s))[k := 0] = record_ID (records s)"
    using index_of_Some [OF k] by (simp add: list_update_same_conv)
  moreover have "region (chip s4) b m = replicate m 0" if "(b, m) \<in> set zeroed_slots" for b m
    using that region_part [of "antenna_record_addr 0" b m 64 "chip s4"] s4(3)
    by (auto simp: zeroed_slots_def unat_record_addr)
  moreover have "map fst zeroed_slots = [0xC0, 0xC4, 0xD0, 0xD2, 0xD4, 0xDA, 0xDB, 0xDC, 0xE0]"
    by (rule zeroed_slots_list)
  ultimately show ?thesis by (intro exI [of _ s4]) (auto simp: word_gt_0)
qed


section \<open>What a record holds\<close>

text \<open>An angle after it was stored in thousandths and read back as a signed number.\<close>

definition recorded_milli :: "fp32 \<Rightarrow> fp32" where
  "recorded_milli x = fp_div1000 (fp_of_s32 (fp_to_u32 (fp_mul1000 x)))"

definition recorded_polar :: "strACUDevInfo \<Rightarrow> fp32" where
  "recorded_polar d = (if ant_elec_coder_num (AntennaParam (ACUParam d)) \<ge> 3
     then fp_div1000 (fp_of_s32 (fp_to_s32 (fp_mul1000 (antenna_polar (ACUCurrSta d))))) else 0)"

lemma zero_milli: "fp_div1000 (fp_of_s32 (un32 0 0 0 0)) = 0"
  by code_simp

lemma length_record_of: "length (sat_name (CurrSatParam (ACUParam d))) = 16 \<Longrightarrow> length (record_of i d) = 66"
  by (simp add: record_of_def Let_def)

lemma record_nth:
  assumes n: "length (sat_name (CurrSatParam (ACUParam d))) = 16"
  shows "record_of i d ! 0 = i" "take 16 (drop 8 (record_of i d)) = sat_name (CurrSatParam (ACUParam d))"
    "record_of i d ! 24 = sat_lon_flag (CurrSatParam (ACUParam d))"
    "int32_at (record_of i d) 25 = fp_to_u32 (fp_mul1000 (sat_lon (CurrSatParam (ACUParam d))))"
    "int32_at (record_of i d) 29 = sat_freq (CurrSatParam (ACUParam d))"
    "record_of i d ! 33 = sat_polar_type (CurrSatParam (ACUParam d))"
    "record_of i d ! 34 = ant_type (AntennaParam (ACUParam d))"
    "int32_at (record_of i d) 35 = ant_offset_angle (AntennaParam (ACUParam d))"
    "record_of i d ! 39 = ant_caliber (AntennaParam (ACUParam d))"
    "int32_at (record_of i d) 54 = fp_to_u32 (fp_mul1000 (antenna_position (ACUCurrSta d)))"
    "int32_at (record_of i d) 58 = fp_to_u32 (fp_mul1000 (antenna_cabrage (ACUCurrSta d)))"
    "fp_div1000 (fp_of_s32 (int32_at (record_of i d) 62)) = recorded_polar d"
proof -
  obtain x1 x2 x3 x4 x5 x6 x7 x8 x9 x10 x11 x12 x13 x14 x15 x16 where
    "sat_name (CurrSatParam (ACUParam d)) = [x1, x2, x3, x4, x5, x6, x7, x8, x9, x10, x11, x12, x13, x14, x15, x16]"
    using n by (auto simp: numeral_eq_Suc length_Suc_conv)
  then show "record_of i d ! 0 = i" "take 16 (drop 8 (record_of i d)) = sat_name (CurrSatParam (ACUParam d))"
    "record_of i d ! 24 = sat_lon_flag (CurrSatParam (ACUParam d))"
    "int32_at (record_of i d) 25 = fp_to_u32 (fp_mul1000 (sat_lon (CurrSatParam (ACUParam d))))"
    "int32_at (record_of i d) 29 = sat_freq (CurrSatParam (ACUParam d))"
    "record_of i d ! 33 = sat_polar_type (CurrSatParam (ACUParam d))"
    "record_of i d ! 34 = ant_type (AntennaParam (ACUParam d))"
    "int32_at (record_of i d) 35 = ant_offset_angle (AntennaParam (ACUParam d))"
    "record_of i d ! 39 = ant_caliber (AntennaParam (ACUParam d))"
    "int32_at (record_of i d) 54 = fp_to_u32 (fp_mul1000 (antenna_position (ACUCurrSta d)))"
    "int32_at (record_of i d) 58 = fp_to_u32 (fp_mul1000 (antenna_cabrage (ACUCurrSta d)))"
    "fp_div1000 (fp_of_s32 (int32_at (record_of i d) 62)) = recorded_polar d"
    by (simp_all add: record_of_def Let_def int32_at_def be16_def recorded_polar_def nth_append nth_Cons' zero_milli)
qed


section \<open>Approaching a record\<close>

lemma FAIL_or_SUCC: "x \<noteq> FAIL \<longleftrightarrow> x = SUCC"
  by (cases x) auto

lemma SetFreq_keeps:
  assumes "APP_BEACON_SetFreq f r = Inr (x, r')"
  shows "ACUParam (board (watch r')) = ACUParam (board (watch r))"
    "Task_Run_Flag (watch r') = Task_Run_Flag (watch r)"
  using assms
  by (auto simp: APP_BEACON_SetFreq_def bind_io_Inr beacon_pend_def change_b_def on_port6_def bind_f_Inr
      freq_set_def freq_failed_def beacon_defs beacon_post_def warn_def Let_def set_info_def set_cur_def upd_info_def
      upd_sta_def board_def APP_WarnLOG_SaveCode_def split: if_splits)

lemma on_rcv_SetFreq:
  assumes "on_rcv (APP_BEACON_SetFreq f) s = Inr (x, s')"
  shows "ACUParam (info s') = ACUParam (info s)" "Task_Run_Flag (watch (rcv s')) = Task_Run_Flag (watch (rcv s))"
    "coders s' = coders s"
proof -
  obtain r where r: "APP_BEACON_SetFreq f (rcv s) = Inr (x, r)" "s' = s\<lparr>rcv := r\<rparr>"
    using assms by (auto simp: on_rcv_def bind_f_Inr)
  show "ACUParam (info s') = ACUParam (info s)" "Task_Run_Flag (watch (rcv s')) = Task_Run_Flag (watch (rcv s))"
    "coders s' = coders s"
    using SetFreq_keeps [OF r(1)] r(2) by (simp_all add: info_def)
qed

lemma HistoryMaxMv_keeps:
  assumes "on_eeprom (APP_PARAM_HistoryMaxMv_Save p v) s = Inr (x, s')"
  shows "ACUParam (info s') = ACUParam (info s)" "running i s' = running i s"
    "length (Task_Run_Flag (watch (rcv s'))) = length (Task_Run_Flag (watch (rcv s)))"
proof -
  have "on_eeprom (save_param APP_EEPROM_HISTORY_MAX_MV_ADDR (be32 p))
      (set_unit (\<lambda>d. d\<lparr>ACUCurrSta := (ACUCurrSta d)\<lparr>history_max_mv := v, AGC_max_mv := v\<rparr>\<rparr>) s) = Inr (x, s')"
    using assms unfolding on_eeprom_def APP_PARAM_HistoryMaxMv_Save_def by (simp add: set_unit_def info_def board_def)
  note c = chip_only_sel [OF on_eeprom_chip_only [OF save_param_within this]]
  show "ACUParam (info s') = ACUParam (info s)" "running i s' = running i s"
    "length (Task_Run_Flag (watch (rcv s'))) = length (Task_Run_Flag (watch (rcv s)))"
    using c by (simp_all add: running_def)
qed

lemma goto_create [simp]:
  "info (TaskAntennaRecordGotoCreate s) = info s"
  "length (Task_Run_Flag (watch (rcv s))) = 3 \<Longrightarrow> running 2 (TaskAntennaRecordGotoCreate s)"
  by (simp_all add: TaskAntennaRecordGotoCreate_def set_tasks_def info_def board_def running_def)

text \<open>Whatever the devices answer, an approach that succeeds takes its angles and its satellite from the record.\<close>

lemma goto_record_effect:
  assumes "goto_record b s = Inr (SUCC, s')" "length (Task_Run_Flag (watch (rcv s))) = 3"
  shows "antenna s' = aims_of_record b (antenna s)" "CurrSatParam (ACUParam (info s')) = sat_of_record b"
    "seek_mode s' = 4" "running 2 s'" "dev_work_sta (ACUCurrSta (info s')) = 0x40"
proof -
  let ?mv = "fp_of_u32 (int32_at b 46)"
  let ?s2 = "\<lambda>s1. set_sta (\<lambda>c. c\<lparr>history_max_mv := ?mv, AGC_max_mv := ?mv\<rparr>) s1"
  let ?s4 = "\<lambda>s3. set_mode 0x04 (set_antenna (aims_of_record b) s3)"
  obtain s1 q s3 bs q2 s5 where 1: "on_rcv (APP_BEACON_SetFreq (beacon_freq (int32_at b 29) (antenna s)))
      (set_param (\<lambda>p. p\<lparr>CurrSatParam := sat_of_record b\<rparr>) s) = Inr (SUCC, s1)"
    and 3: "on_eeprom (APP_PARAM_HistoryMaxMv_Save (at_history (?s2 s1)) ?mv) (?s2 s1) = Inr (q, s3)"
    and 5: "on_eeprom (APP_PARAM_CurrSatParam_Save (CurrSatParam (ACUParam (info (?s4 s3)))))
      (logged LOG_OPT_ANTENNA_POSE_APP_BY_PC bs (?s4 s3)) = Inr (q2, s5)"
    "s' = TaskAntennaRecordGotoCreate (set_work 0x40 (refresh_param s5))"
    using assms(1) by (auto simp: goto_record_def bind_io_Inr Let_def FAIL_or_SUCC split: if_splits)
  note r = on_rcv_SetFreq [OF 1] and h = HistoryMaxMv_keeps [OF 3]
  note c = chip_only_sel [OF on_eeprom_chip_only [OF save_param_within 5(1) [unfolded APP_PARAM_CurrSatParam_Save_def]]]
  have p: "ACUParam (info s5) = ACUParam (info (?s4 s3))" using c by simp
  have "ACUParam (info s3) = (ACUParam (info s))\<lparr>CurrSatParam := sat_of_record b\<rparr>" using h r by (simp add: setters)
  then show "antenna s' = aims_of_record b (antenna s)" "CurrSatParam (ACUParam (info s')) = sat_of_record b" "seek_mode s' = 4"
    using p 5(2) by (simp_all add: getters setters refresh_param_def)
  have "length (Task_Run_Flag (watch (rcv s5))) = 3" using c h r assms(2) by (simp add: setters logged_def)
  then show "running 2 s'" "dev_work_sta (ACUCurrSta (info s')) = 0x40"
    using 5(2) by (simp_all add: setters refresh_param_def)
qed


lemma leave_mode_keeps:
  assumes "leave_mode s = Inr (u, t)"
  shows "antenna t = antenna s" "chip t = chip s"
    "length (Task_Run_Flag (watch (rcv t))) = length (Task_Run_Flag (watch (rcv s)))"
proof -
  let ?d = "set_mode 0x00 (if running 2 s then delete_running 2 s else if running 1 s then delete_running 1 s
      else delete_running 0 s)"
  have d: "coders (delete_running i s) = coders s" "antenna (delete_running i s) = antenna s" for i
    by (simp_all add: delete_running_def set_tasks_def antenna_def info_def board_def TaskDel_def)
  have e: "coders (set_mode v r) = coders r" "antenna (set_mode v r) = antenna r"
    "Task_Run_Flag (watch (rcv (set_mode v r))) = Task_Run_Flag (watch (rcv r))" for v r
    by (simp_all add: setters getters)
  have r: "coders ?d = coders s" "antenna ?d = antenna s"
    "length (Task_Run_Flag (watch (rcv ?d))) = length (Task_Run_Flag (watch (rcv s)))"
    by (simp_all add: d e running_delete)
  have k: "coders t = coders u \<and> antenna t = antenna u
    \<and> length (Task_Run_Flag (watch (rcv t))) = length (Task_Run_Flag (watch (rcv u)))" if s: "stopped_from u t" for u
  proof -
    obtain w where w: "drives (watch (rcv u)) w" "t = u\<lparr>rcv := (rcv u)\<lparr>watch := w\<rparr>\<rparr>"
      using s unfolding stopped_from_def by blast
    then show ?thesis using drives_sel(5) [OF w(1)] stopped_sel(3) [OF s] by simp
  qed
  have "t = s \<or> stopped_from ?d t"
    using assms stop_all_effect [of ?d "()" t] unfolding leave_mode_def bind_alter by (simp split: if_splits)
  then show "antenna t = antenna s" "chip t = chip s"
    "length (Task_Run_Flag (watch (rcv t))) = length (Task_Run_Flag (watch (rcv s)))"
    using k [of ?d] r by (auto simp only: chip_def)
qed

lemma record_slots_apart:
  assumes "1 \<le> unat i"
  shows "apart APP_EEPROM_AntennaRecord_TotalNum_ADDR 4 (antenna_record_addr i) 66"
    "unat i \<le> 10 \<Longrightarrow> unat (antenna_record_addr i) + 80 \<le> 65536"
  using assms by (auto simp: apart_def unat_record_addr)

text \<open>What the approach finds again of the state in which the position was recorded.\<close>

definition same_rcv :: "ctl \<Rightarrow> ctl \<Rightarrow> bool" where
  "same_rcv s t \<longleftrightarrow> ACUParam (info t) = ACUParam (info s) \<and> Task_Run_Flag (watch (rcv t)) = Task_Run_Flag (watch (rcv s))
     \<and> port6 (rcv t) = port6 (rcv s) \<and> APP_Beacon_Send_Sem (rcv t) = APP_Beacon_Send_Sem (rcv s)"

lemma same_rcv_trans: "same_rcv s t \<Longrightarrow> same_rcv t u \<Longrightarrow> same_rcv s u"
  by (simp add: same_rcv_def)

lemma same_rcv_records: "same_rcv s (set_records f s)"
  by (simp add: same_rcv_def setters)

lemma chip_only_rcv: "chip_only s t \<Longrightarrow> same_rcv s t"
  using chip_only_sel [of s t] by (simp add: same_rcv_def)

lemma same_rcv_sel: "same_rcv s t \<Longrightarrow> antenna t = antenna s \<and> seek_mode t = seek_mode s"
  by (simp add: same_rcv_def getters)

lemma count_record_keeps:
  assumes "board_ok (chip s)" "1 \<le> unat i"
  shows "\<exists>v. count_record n s = Inr ((), v) \<and> board_ok (chip v)
    \<and> region (chip v) (antenna_record_addr i) 66 = region (chip s) (antenna_record_addr i) 66
    \<and> same_rcv s v \<and> record_ID (records v) = record_ID (records s)"
proof -
  have *: "\<exists>v. bind_io (on_eeprom (APP_PARAM_AntennaRecord_TotalNum_Save m)) (\<lambda>_. alter (set_records (\<lambda>l. l\<lparr>record_Total_num := m\<rparr>))) s
      = Inr ((), v) \<and> board_ok (chip v)
      \<and> region (chip v) (antenna_record_addr i) 66 = region (chip s) (antenna_record_addr i) 66
      \<and> same_rcv s v \<and> record_ID (records v) = record_ID (records s)" for m
  proof -
    have "unat (antenna_record_addr i) + 66 \<le> 65536" using u8_bound [of i] by (simp add: unat_record_addr)
    then obtain t where t: "on_eeprom (APP_PARAM_AntennaRecord_TotalNum_Save m) s = Inr (SUCC, t)" "board_ok (chip t)"
      "chip_only s t" "region (chip t) (antenna_record_addr i) 66 = region (chip s) (antenna_record_addr i) 66"
      using save_param_on_board [where s = s and xs = "be32 m" and a = APP_EEPROM_AntennaRecord_TotalNum_ADDR]
        record_slots_apart(1) [OF assms(2)] assms(1) by (auto simp: APP_PARAM_AntennaRecord_TotalNum_Save_def)
    then show ?thesis
      using chip_only_sel(2) [OF t(3)] same_rcv_trans [OF chip_only_rcv [OF t(3)] same_rcv_records]
      by (simp add: bind_io_def alter_def)
  qed
  have "same_rcv s s" by (simp add: same_rcv_def)
  then show ?thesis using * assms(1) unfolding count_record_def Let_def by auto
qed

lemma history_on_board:
  assumes "board_ok (chip s)"
  shows "\<exists>t. on_eeprom (APP_PARAM_HistoryMaxMv_Save p v) s = Inr (SUCC, t) \<and> board_ok (chip t)"
proof -
  let ?s = "set_unit (\<lambda>d. d\<lparr>ACUCurrSta := (ACUCurrSta d)\<lparr>history_max_mv := v, AGC_max_mv := v\<rparr>\<rparr>) s"
  have "on_eeprom (APP_PARAM_HistoryMaxMv_Save p v) s = on_eeprom (save_param APP_EEPROM_HISTORY_MAX_MV_ADDR (be32 p)) ?s"
    unfolding on_eeprom_def APP_PARAM_HistoryMaxMv_Save_def by (simp add: set_unit_def info_def board_def)
  then show ?thesis
    using save_param_on_board [where s = ?s and xs = "be32 p" and a = APP_EEPROM_HISTORY_MAX_MV_ADDR] assms by auto
qed

lemma record_runs:
  assumes w: "board_ok (chip s)" and wf: "acu_wf (info s)"
    and c: "cmd_of c = AntennaRecordID" "c ! 2 = 0" and room: "record_Total_num (records s) < 10"
    and k: "index_of 0 (record_ID (records s)) = Some k"
  defines "i \<equiv> of_nat (k + 1)"
  shows "\<exists>s1. APP_PCCOMM_AntennaRecord c s = Inr (SUCC, s1) \<and> board_ok (chip s1)
    \<and> region (chip s1) (antenna_record_addr i) 66 = record_of i (info s) \<and> i \<in> set (record_ID (records s1)) \<and> same_rcv s s1"
    "1 \<le> unat i" "unat i \<le> 10"
proof -
  have n: "length (sat_name (CurrSatParam (ACUParam (info s)))) = 16" and l: "length (record_ID (records s)) = 10"
    using wf by (simp_all add: acu_wf_def getters)
  have "k < 10" using index_of_Some [OF k] l by simp
  then have u: "unat i = k + 1" using unat_of_nat [where 'a = 8, of "k + 1"] by (simp add: i_def)
  then show i: "1 \<le> unat i" "unat i \<le> 10" using \<open>k < 10\<close> by simp_all
  let ?b = "copy_over (replicate 80 0) (record_of i (info s))"
  have "fits (antenna_record_addr i, ?b, 66)"
    using record_slots_apart(2) [OF i] length_record_of [OF n, of i] by (simp add: fits_def copy_over_def)
  from save_on_board [OF w this] obtain t where t: "on_eeprom (APP_PARAM_AntennaRecord_Save i ?b 66) s = Inr (SUCC, t)"
    "board_ok (chip t)" "chip_only s t" "region (chip t) (antenna_record_addr i) 66 = take 66 ?b"
    unfolding APP_PARAM_AntennaRecord_Save_def by auto
  let ?t2 = "set_records (\<lambda>l. l\<lparr>record_ID := (record_ID l)[unat i - 1 := i]\<rparr>) t"
  have rt: "records t = records s" using chip_only_sel(2) [OF t(3)] .
  have p: "put_record i t = Inr ((), ?t2)" using i l rt by (auto simp: put_record_def)
  have t2: "same_rcv s ?t2" using chip_only_rcv [OF t(3)] same_rcv_records same_rcv_trans by blast
  obtain v where v: "count_record (record_Total_num (records s) + 1) ?t2 = Inr ((), v)" "board_ok (chip v)"
    "region (chip v) (antenna_record_addr i) 66 = take 66 ?b" "same_rcv ?t2 v" "record_ID (records v) = record_ID (records ?t2)"
    using count_record_keeps [of ?t2 i "record_Total_num (records s) + 1"] t(2,4) i(1) by auto
  let ?bs = "let d = info v; c = ACUCurrSta d in pose_log (CurrSatParam (ACUParam d)) (AntennaParam (ACUParam d))
    (antenna_position c) (antenna_cabrage c) (antenna_polar c)"
  have full: "\<not> record_Total_num (records s) \<ge> of_nat 10" using room by simp
  have k': "(case index_of 0 (record_ID (records s)) of None \<Rightarrow> 0 | Some k \<Rightarrow> of_nat (k + 1)) = i"
    by (simp add: k i_def)
  have e: "APP_PCCOMM_AntennaRecord c s = Inr (SUCC, logged LOG_OPT_ANTENNA_POSE_RECORD_BY_PC ?bs v)"
    unfolding APP_PCCOMM_AntennaRecord_def k' Let_def
    using c t(1) p v(1) full by (simp add: bind_io_def ret_io_def alter_def)
  have "i \<in> set (record_ID (records ?t2))" using l i rt by (simp add: set_update_memI)
  moreover have "same_rcv s (logged q bs v)" for q bs
    using same_rcv_trans [OF t2 v(4)] by (simp add: same_rcv_def logged_def)
  moreover have "take 66 ?b = record_of i (info s)" using length_record_of [OF n, of i] by (simp add: copy_over_def)
  ultimately show "\<exists>s1. APP_PCCOMM_AntennaRecord c s = Inr (SUCC, s1) \<and> board_ok (chip s1)
    \<and> region (chip s1) (antenna_record_addr i) 66 = record_of i (info s) \<and> i \<in> set (record_ID (records s1)) \<and> same_rcv s s1"
    using e v by auto
qed

text \<open>An approach of a record on a working board whose receiver confirms the frequency.\<close>

lemma SetFreq_again:
  assumes "APP_BEACON_SetFreq f r = Inr (x, r')" "port6 q = port6 r" "APP_Beacon_Send_Sem q = APP_Beacon_Send_Sem r"
  shows "\<exists>q'. APP_BEACON_SetFreq f q = Inr (x, q')"
  using assms
  by (auto simp: APP_BEACON_SetFreq_def bind_io_def beacon_pend_def change_b_def on_port6_def bind_f_def ret_io_def
      split: sum.splits prod.splits if_splits)

definition confirms :: "u32 \<Rightarrow> ctl \<Rightarrow> bool" where
  "confirms f s \<longleftrightarrow> (case APP_BEACON_SetFreq f (rcv s) of Inr (SUCC, _) \<Rightarrow> True | _ \<Rightarrow> False)"

lemma confirms_again:
  assumes "confirms f s" "port6 (rcv t) = port6 (rcv s)" "APP_Beacon_Send_Sem (rcv t) = APP_Beacon_Send_Sem (rcv s)"
  shows "\<exists>t'. on_rcv (APP_BEACON_SetFreq f) t = Inr (SUCC, t')"
proof -
  obtain r where "APP_BEACON_SetFreq f (rcv s) = Inr (SUCC, r)"
    using assms(1) by (auto simp: confirms_def split: sum.splits prod.splits status.splits)
  from SetFreq_again [OF this assms(2,3)] show ?thesis by (auto simp: on_rcv_def bind_f_def)
qed

lemma goto_record_runs:
  assumes w: "board_ok (chip s)" and a: "same_antenna b (antenna s)"
    and f: "confirms (beacon_freq (int32_at b 29) (antenna s)) s"
  shows "\<exists>s'. goto_record b s = Inr (SUCC, s')"
proof -
  let ?mv = "fp_of_u32 (int32_at b 46)"
  let ?s0 = "set_param (\<lambda>p. p\<lparr>CurrSatParam := sat_of_record b\<rparr>) s"
  obtain s1 where 1: "on_rcv (APP_BEACON_SetFreq (beacon_freq (int32_at b 29) (antenna s))) ?s0 = Inr (SUCC, s1)"
    using confirms_again [OF f, of ?s0] by (auto simp: setters)
  let ?s2 = "set_sta (\<lambda>c. c\<lparr>history_max_mv := ?mv, AGC_max_mv := ?mv\<rparr>) s1"
  have "board_ok (chip ?s2)" using w on_rcv_SetFreq(3) [OF 1] by (simp add: chip_def setters)
  then obtain s3 where 3: "on_eeprom (APP_PARAM_HistoryMaxMv_Save (at_history ?s2) ?mv) ?s2 = Inr (SUCC, s3)" "board_ok (chip s3)"
    using history_on_board by blast
  let ?s4 = "set_mode 0x04 (set_antenna (aims_of_record b) s3)"
  let ?s5 = "\<lambda>bs. logged LOG_OPT_ANTENNA_POSE_APP_BY_PC bs ?s4"
  have p: "CurrSatParam (ACUParam (info ?s4)) = sat_of_record b"
    using HistoryMaxMv_keeps(1) [OF 3(1)] on_rcv_SetFreq(1) [OF 1] by (simp add: setters)
  have l: "0 < length (sat_bytes 0 (sat_of_record b))" "length (sat_bytes 0 (sat_of_record b)) \<le> 32"
    by (simp_all add: sat_bytes_def sat_of_record_def)
  have "\<exists>s6. on_eeprom (APP_PARAM_CurrSatParam_Save (CurrSatParam (ACUParam (info ?s4)))) (?s5 bs) = Inr (SUCC, s6)" for bs
    unfolding APP_PARAM_CurrSatParam_Save_def p
    using save_param_on_board [where s = "?s5 bs" and xs = "sat_bytes 0 (sat_of_record b)" and a = APP_EEPROM_CurrSatParam_ADDR] l 3(2)
    by (fastforce simp: setters)
  then obtain s6 where "on_eeprom (APP_PARAM_CurrSatParam_Save (CurrSatParam (ACUParam (info ?s4))))
      (?s5 (let p = ACUParam (info ?s4); a = AntennaParam p in
         pose_log (CurrSatParam p) a (aim_position a) (aim_cabrage a) (aim_polar a))) = Inr (SUCC, s6)" by blast
  then have "goto_record b s = Inr (SUCC, TaskAntennaRecordGotoCreate (set_work 0x40 (refresh_param s6)))"
    using a 1 3(1) by (simp add: goto_record_def bind_io_def ret_io_def alter_def Let_def)
  then show ?thesis by blast
qed

lemma SetFreq_unheard:
  assumes "0 < APP_Beacon_Send_Sem r" "deaf (port6 r)"
  shows "\<exists>r'. APP_BEACON_SetFreq f r = Inr (FAIL, r') \<and> APP_Beacon_Send_Sem r' = APP_Beacon_Send_Sem r \<and> deaf (port6 r')"
proof -
  obtain p where "beacon_exchange (APP_BEACON_SetFreqCmd f) (port6 r) = Inr (None, p)" "deaf p"
    using exchange_deaf [OF assms(2)] by blast
  then show ?thesis
    using assms by (auto simp: APP_BEACON_SetFreq_def op_defs APP_BEACON_SetFreqResult_def freq_failed_def beacon_post_def
        beacon_defs Let_def)
qed

text \<open>A position recorded in standby is found again by the command that approaches it.\<close>

lemma recorded_found:
  assumes w: "board_ok (chip s)" "acu_wf (info s)" "seek_mode s = 0"
    and room: "record_Total_num (records s) < 10" and k: "index_of 0 (record_ID (records s)) = Some k"
    and c: "cmd_of c = AntennaRecordID" "c ! 2 = 0" "cmd_of c' = AntennaRecordGotoID" "c' ! 3 = of_nat (k + 1)"
  defines "d \<equiv> info s" and "sat \<equiv> CurrSatParam (ACUParam (info s))"
  shows "\<exists>s1 b u. APP_PCCOMM_AntennaRecord c s = Inr (SUCC, s1) \<and> APP_PCCOMM_AntennaRecordGoto c' s1 = goto_record b u
    \<and> board_ok (chip u) \<and> same_rcv s u \<and> same_antenna b (antenna u) \<and> int32_at b 29 = sat_freq sat
    \<and> aims_of_record b (antenna u) = (antenna s)\<lparr>aim_position := recorded_milli (antenna_position (ACUCurrSta d)),
        aim_cabrage := recorded_milli (antenna_cabrage (ACUCurrSta d)), aim_polar := recorded_polar d\<rparr>
    \<and> sat_of_record b = sat\<lparr>sat_id := 0, sat_lon := recorded_milli (sat_lon sat)\<rparr>"
proof -
  let ?i = "of_nat (k + 1) :: u8"
  have n: "length (sat_name (CurrSatParam (ACUParam d))) = 16" using w(2) by (simp add: acu_wf_def d_def)
  obtain s1 where a: "APP_PCCOMM_AntennaRecord c s = Inr (SUCC, s1)" "board_ok (chip s1)"
    "region (chip s1) (antenna_record_addr ?i) 66 = record_of ?i d" "?i \<in> set (record_ID (records s1))" "same_rcv s s1"
    using record_runs(1) [OF w(1,2) c(1,2) room k] unfolding d_def by blast
  note i = record_runs(2,3) [OF w(1,2) c(1,2) room k]
  have t: "leave_mode s1 = Inr ((), s1)" using same_rcv_sel [OF a(5)] w(3) by (simp add: leave_mode_def)
  define b where "b = copy_over (replicate 100 0) (region (chip s1) (antenna_record_addr ?i) 80)"
  obtain u where u: "on_eeprom (APP_PARAM_AntennaRecord_Read ?i (replicate 100 0)) s1 = Inr ((SUCC, b), u)"
    "chip_only s1 u" "board_ok (chip u)"
    using read_on_board [of s1 80 "replicate 100 0" "antenna_record_addr ?i"] a(2)
    unfolding APP_PARAM_AntennaRecord_Read_def b_def by auto
  have "region (chip s1) (antenna_record_addr ?i) 66 = take 66 (region (chip s1) (antenna_record_addr ?i) 80)"
    using region_part [of "antenna_record_addr ?i" "antenna_record_addr ?i" 66 80 "chip s1"] by simp
  then have h: "take 66 b = record_of ?i d" using a(3) by (simp add: b_def copy_over_def)
  have j: "b ! j = record_of ?i d ! j" if "j < 66" for j using h that by (metis nth_take)
  have v: "int32_at b j = int32_at (record_of ?i d) j" if "j < 63" for j using that by (simp add: int32_at_def j)
  have m: "take 16 (drop 8 b) = take 16 (drop 8 (record_of ?i d))"
  proof -
    have "take 24 b = take 24 (take 66 b)" by simp
    then show ?thesis by (simp add: take_drop h)
  qed
  note x = same_rcv_trans [OF a(5) chip_only_rcv [OF u(2)]]
  have same: "same_antenna b (antenna u)"
    using record_nth [of d ?i, OF n] same_rcv_sel [OF x] by (simp add: same_antenna_def j v d_def antenna_def)
  have fr: "int32_at b 29 = sat_freq sat" using record_nth(5) [of d ?i, OF n] by (simp add: v d_def sat_def)
  have "\<not> ?i > 10" "?i \<noteq> 0" using i by (auto simp: word_less_nat_alt)
  moreover have "b ! 0 = ?i" using record_nth(1) [of d ?i, OF n] j by simp
  ultimately have g: "APP_PCCOMM_AntennaRecordGoto c' s1 = goto_record b u"
    using c(3,4) a(4) u(1) t by (simp add: APP_PCCOMM_AntennaRecordGoto_def bind_io_def Let_def)
  have "aims_of_record b (antenna u) = (antenna s)\<lparr>aim_position := recorded_milli (antenna_position (ACUCurrSta d)),
      aim_cabrage := recorded_milli (antenna_cabrage (ACUCurrSta d)), aim_polar := recorded_polar d\<rparr>"
    using record_nth [of d ?i, OF n] same_rcv_sel [OF x] by (simp add: aims_of_record_def v recorded_milli_def)
  moreover have "sat_of_record b = sat\<lparr>sat_id := 0, sat_lon := recorded_milli (sat_lon sat)\<rparr>"
    using record_nth [of d ?i, OF n] by (simp add: sat_of_record_def v j m recorded_milli_def d_def sat_def)
  ultimately show ?thesis using a(1) g u(3) x same fr by blast
qed

text \<open>With a receiver that confirms the frequency, on a working board in standby, the antenna aims at the angles of the record cut
  to thousandths of a degree, its satellite is restored, its longitude cut in the same way, the mode becomes 4, and the run flag
  of the task that drives there is set. No receiver confirms under the handler that is compiled, see the next property.\<close>

theorem recorded_position_approached:
  assumes w: "board_ok (chip s)" "acu_wf (info s)" "length (Task_Run_Flag (watch (rcv s))) = 3" "seek_mode s = 0"
    and room: "record_Total_num (records s) < 10" and k: "index_of 0 (record_ID (records s)) = Some k"
    and c: "cmd_of c = AntennaRecordID" "c ! 2 = 0" "cmd_of c' = AntennaRecordGotoID" "c' ! 3 = of_nat (k + 1)"
  defines "d \<equiv> info s" and "sat \<equiv> CurrSatParam (ACUParam (info s))"
  assumes f: "confirms (beacon_freq (sat_freq sat) (antenna s)) s"
  shows "\<exists>s1 s2. APP_PCCOMM_AntennaRecord c s = Inr (SUCC, s1) \<and> APP_PCCOMM_AntennaRecordGoto c' s1 = Inr (SUCC, s2)
    \<and> antenna s2 = (antenna s)\<lparr>aim_position := recorded_milli (antenna_position (ACUCurrSta d)),
        aim_cabrage := recorded_milli (antenna_cabrage (ACUCurrSta d)), aim_polar := recorded_polar d\<rparr>
    \<and> CurrSatParam (ACUParam (info s2)) = sat\<lparr>sat_id := 0, sat_lon := recorded_milli (sat_lon sat)\<rparr>
    \<and> seek_mode s2 = 4 \<and> running 2 s2 \<and> dev_work_sta (ACUCurrSta (info s2)) = 0x40"
proof -
  obtain s1 b u where u: "APP_PCCOMM_AntennaRecord c s = Inr (SUCC, s1)" "APP_PCCOMM_AntennaRecordGoto c' s1 = goto_record b u"
    "board_ok (chip u)" "same_rcv s u" "same_antenna b (antenna u)" "int32_at b 29 = sat_freq sat"
    "aims_of_record b (antenna u) = (antenna s)\<lparr>aim_position := recorded_milli (antenna_position (ACUCurrSta d)),
        aim_cabrage := recorded_milli (antenna_cabrage (ACUCurrSta d)), aim_polar := recorded_polar d\<rparr>"
    "sat_of_record b = sat\<lparr>sat_id := 0, sat_lon := recorded_milli (sat_lon sat)\<rparr>"
    using recorded_found [OF w(1,2,4) room k c] unfolding d_def sat_def by blast
  have "confirms (beacon_freq (int32_at b 29) (antenna u)) u"
    using f u(4,6) same_rcv_sel [OF u(4)] SetFreq_again [of _ "rcv s" SUCC _ "rcv u"]
    by (fastforce simp: confirms_def same_rcv_def split: sum.splits prod.splits status.splits)
  then obtain s2 where go: "goto_record b u = Inr (SUCC, s2)" using goto_record_runs [OF u(3,5)] by blast
  have "length (Task_Run_Flag (watch (rcv u))) = 3" using u(4) w(3) by (simp add: same_rcv_def)
  then show ?thesis using goto_record_effect [OF go] u(1,2,7,8) go by auto
qed

text \<open>C14: under the handler of the receiver's port that is compiled no recorded position is approached. Let a unit with a working
  board in standby have a free record slot, the semaphore of the receiver free and its port as the driver initialises it. A
  position is recorded with success; the command that approaches it finds the record, and fails: the angles aimed at, the mode
  and the run flags stay what they were, but the selected satellite has been replaced by that of the record, without its number
  and with its longitude cut to thousandths of a degree.\<close>

theorem recorded_position_not_approached:
  assumes w: "board_ok (chip s)" "acu_wf (info s)" "seek_mode s = 0"
    and room: "record_Total_num (records s) < 10" and k: "index_of 0 (record_ID (records s)) = Some k"
    and c: "cmd_of c = AntennaRecordID" "c ! 2 = 0" "cmd_of c' = AntennaRecordGotoID" "c' ! 3 = of_nat (k + 1)"
    and p: "0 < APP_Beacon_Send_Sem (rcv s)" "deaf (port6 (rcv s))"
  defines "sat \<equiv> CurrSatParam (ACUParam (info s))"
  shows "\<exists>s1 s2. APP_PCCOMM_AntennaRecord c s = Inr (SUCC, s1) \<and> APP_PCCOMM_AntennaRecordGoto c' s1 = Inr (FAIL, s2)
    \<and> antenna s2 = antenna s \<and> seek_mode s2 = 0 \<and> Task_Run_Flag (watch (rcv s2)) = Task_Run_Flag (watch (rcv s))
    \<and> CurrSatParam (ACUParam (info s2)) = sat\<lparr>sat_id := 0, sat_lon := recorded_milli (sat_lon sat)\<rparr>"
proof -
  obtain s1 b u where u: "APP_PCCOMM_AntennaRecord c s = Inr (SUCC, s1)" "APP_PCCOMM_AntennaRecordGoto c' s1 = goto_record b u"
    "same_rcv s u" "same_antenna b (antenna u)" "sat_of_record b = sat\<lparr>sat_id := 0, sat_lon := recorded_milli (sat_lon sat)\<rparr>"
    using recorded_found [OF w room k c] unfolding sat_def by blast
  let ?v = "set_param (\<lambda>p. p\<lparr>CurrSatParam := sat_of_record b\<rparr>) u"
  have "0 < APP_Beacon_Send_Sem (rcv ?v)" "deaf (port6 (rcv ?v))" using u(3) p by (simp_all add: same_rcv_def setters)
  then obtain r where "APP_BEACON_SetFreq (beacon_freq (int32_at b 29) (antenna u)) (rcv ?v) = Inr (FAIL, r)"
    using SetFreq_unheard by blast
  then obtain s2 where s2: "on_rcv (APP_BEACON_SetFreq (beacon_freq (int32_at b 29) (antenna u))) ?v = Inr (FAIL, s2)"
    by (simp add: on_rcv_def)
  note e = on_rcv_SetFreq [OF s2]
  have "APP_PCCOMM_AntennaRecordGoto c' s1 = Inr (FAIL, s2)"
    using u(2,4) s2 by (simp add: goto_record_def bind_io_def alter_def)
  moreover have "antenna s2 = antenna s" "seek_mode s2 = 0" "Task_Run_Flag (watch (rcv s2)) = Task_Run_Flag (watch (rcv s))"
    "CurrSatParam (ACUParam (info s2)) = sat_of_record b"
    using e u(3) w(3) by (simp_all add: same_rcv_def setters getters)
  ultimately show ?thesis using u(1,5) by auto
qed

section \<open>Witnesses\<close>

theorem delete_record_zero_wipes_witness:
  "\<exists>s'. APP_PCCOMM_DelAntennaRecord [2, 7, 1, 0] (blank []) = Inr (SUCC, s') \<and> region (chip s') 0xE0 7 = replicate 7 0"
proof -
  have "0 \<in> set (record_ID (records (blank [])))"
    by (simp add: getters zero_strACUDevInfo_def zero_strAntennaRecordList_def)
  moreover have "(0xE0, 7) \<in> set zeroed_slots" using layout_some(2) by (simp add: zeroed_slots_def)
  ultimately show ?thesis
    using delete_record_zero_wipes [of "blank []" "[2, 7, 1, 0]"] by (fastforce simp: cmd_of_def un16_def)
qed

text \<open>The antenna looks at azimuth 180 and elevation 45, and the beacon receiver confirms the frequency.\<close>

definition looking :: ctl where
  "looking = set_sta (\<lambda>c. c\<lparr>antenna_position := 180, antenna_cabrage := 45\<rparr>)
     (set_param (\<lambda>p. p\<lparr>CurrSatParam := (CurrSatParam p)\<lparr>sat_freq := 1000000\<rparr>\<rparr>) (blank [([0x3E, 0x54, 0x0D, 0x0A], [])]))"

theorem recorded_position_approached_witness:
  "\<exists>s1 s2. APP_PCCOMM_AntennaRecord [2, 2, 0] looking = Inr (SUCC, s1)
    \<and> APP_PCCOMM_AntennaRecordGoto [2, 6, 1, 1] s1 = Inr (SUCC, s2) \<and> aim_position (antenna s2) = 180"
proof -
  have m: "recorded_milli 180 = 180"
    using f32_of_nat [of 180000] f32_of_nat [of 180]
    by (simp add: recorded_milli_def fp_mul1000_def fp_to_u32_def trunc_rat_def fp_of_s32_def fp_div1000_def)
  have "confirms 1000000 looking" by code_simp
  then have f: "confirms (beacon_freq (sat_freq (CurrSatParam (ACUParam (info looking)))) (antenna looking)) looking"
    by (simp add: beacon_freq_def looking_def setters getters zero_strACUDevInfo_def zero_strACUSeekSatParam_def zero_strAntennaParam_def)
  have wf: "acu_wf (info looking)" using zero_acu_wf by (simp add: looking_def setters acu_wf_def)
  have i: "info looking = zero_strACUDevInfo\<lparr>ACUParam := (ACUParam zero_strACUDevInfo)\<lparr>CurrSatParam :=
      (CurrSatParam (ACUParam zero_strACUDevInfo))\<lparr>sat_freq := 1000000\<rparr>\<rparr>,
      ACUCurrSta := (ACUCurrSta zero_strACUDevInfo)\<lparr>antenna_position := 180, antenna_cabrage := 45\<rparr>\<rparr>"
    by (simp add: looking_def setters)
  have l: "board_ok (chip looking)" "length (Task_Run_Flag (watch (rcv looking))) = 3" "seek_mode looking = 0"
    "record_Total_num (records looking) < 10"
    "index_of 0 (record_ID (records looking)) = Some 0" "antenna_position (ACUCurrSta (info looking)) = 180"
    subgoal by (simp add: looking_def setters)
    subgoal by (simp add: looking_def setters test_beacon_def test_watch_def)
    subgoal by (simp add: getters i zero_strACUDevInfo_def zero_strACUSeekSatParam_def zero_strSeekSatParam_def)
    subgoal by (simp add: getters i zero_strACUDevInfo_def zero_strAntennaRecordList_def)
    subgoal by (simp add: getters i zero_strACUDevInfo_def zero_strAntennaRecordList_def numeral_eq_Suc)
    subgoal by (simp add: i)
    done
  have c: "cmd_of [2, 2, 0] = AntennaRecordID" "[2, 2, 0 :: u8] ! 2 = 0" "cmd_of [2, 6, 1, 1] = AntennaRecordGotoID"
    "[2, 6, 1, 1 :: u8] ! 3 = of_nat (0 + 1)" by (simp_all add: cmd_of_def un16_def)
  from recorded_position_approached [OF l(1) wf l(2-5) c f] m l(6) show ?thesis by auto
qed

theorem recorded_position_not_approached_witness:
  "\<exists>s s1 s2. APP_PCCOMM_AntennaRecord [2, 2, 0] s = Inr (SUCC, s1) \<and> APP_PCCOMM_AntennaRecordGoto [2, 6, 1, 1] s1 = Inr (FAIL, s2)
    \<and> sat_id (CurrSatParam (ACUParam (info s))) = 7 \<and> sat_id (CurrSatParam (ACUParam (info s2))) = 0"
proof -
  let ?b = "set_param (\<lambda>p. p\<lparr>CurrSatParam := (CurrSatParam p)\<lparr>sat_id := 7\<rparr>\<rparr>) (blank [])"
  let ?s = "?b\<lparr>rcv := (rcv ?b)\<lparr>port6 := SWIFT_UART6_Init (port6 (rcv ?b))\<rparr>\<rparr>"
  have i: "info ?s = zero_strACUDevInfo\<lparr>ACUParam := (ACUParam zero_strACUDevInfo)\<lparr>CurrSatParam :=
      (CurrSatParam (ACUParam zero_strACUDevInfo))\<lparr>sat_id := 7\<rparr>\<rparr>\<rparr>"
  proof -
    have "info ?s = info ?b" by (simp add: info_def)
    then show ?thesis by (simp add: setters)
  qed
  have b: "board_ok (chip ?s)" by (simp add: chip_def setters blank_def fresh_board_ok)
  have wf: "acu_wf (info ?s)" using zero_acu_wf unfolding i by (simp add: acu_wf_def)
  have m: "seek_mode ?s = 0" "record_Total_num (records ?s) < 10" "sat_id (CurrSatParam (ACUParam (info ?s))) = 7"
    by (simp_all add: getters i zero_strACUDevInfo_def zero_strACUSeekSatParam_def zero_strSeekSatParam_def
        zero_strAntennaRecordList_def)
  have k: "index_of 0 (record_ID (records ?s)) = Some 0"
    by (simp add: getters i zero_strACUDevInfo_def zero_strAntennaRecordList_def numeral_eq_Suc)
  have p: "0 < APP_Beacon_Send_Sem (rcv ?s)" "deaf (port6 (rcv ?s))"
    by (simp_all add: setters deaf_def SWIFT_UART6_Init_def)
  have c: "cmd_of [2, 2, 0] = AntennaRecordID" "[2, 2, 0 :: u8] ! 2 = 0" "cmd_of [2, 6, 1, 1] = AntennaRecordGotoID"
    "[2, 6, 1, 1 :: u8] ! 3 = of_nat (0 + 1)" by (simp_all add: cmd_of_def un16_def)
  obtain s1 s2 x where r: "APP_PCCOMM_AntennaRecord [2, 2, 0] ?s = Inr (SUCC, s1)" "APP_PCCOMM_AntennaRecordGoto [2, 6, 1, 1] s1 = Inr (FAIL, s2)"
    "CurrSatParam (ACUParam (info s2)) = (CurrSatParam (ACUParam (info ?s)))\<lparr>sat_id := 0, sat_lon := x\<rparr>"
    using recorded_position_not_approached [OF b wf m(1,2) k c p] by blast
  have "sat_id (CurrSatParam (ACUParam (info s2))) = 0" unfolding r(3) by simp
  then show ?thesis using r(1,2) m(3) by blast
qed

end
