(* ===== verification/RtcProps.thy ===== *)
theory RtcProps
  imports Rtc
begin

text \<open>
  The transactions of the clock driver (theory \<open>Rtc\<close>) read and write the registers of the chip, bit by
  bit; what a date that is saved reads back as. The locale \<open>registers\<close> is the contract between the
  functions on registers and those on dates; the interpretation \<open>clock\<close> shows that the driver keeps it.
\<close>

section \<open>The contract of the register functions\<close>

locale registers =
  fixes put :: "u8 \<Rightarrow> u8 \<Rightarrow> 's \<Rightarrow> 's"
    and get :: "u8 \<Rightarrow> 's \<Rightarrow> u8 \<times> 's"
    and reg :: "'s \<Rightarrow> nat \<Rightarrow> u8"
    and ready :: "'s \<Rightarrow> bool"
  assumes put: "\<lbrakk>ready s; clock_command a; \<not> bit a 0; reg_of a < 7\<rbrakk>
      \<Longrightarrow> ready (put a d s) \<and> reg (put a d s) = (reg s)(reg_of a := d)"
    and get: "\<lbrakk>ready s; clock_command b; bit b 0\<rbrakk>
      \<Longrightarrow> \<exists>s'. get b s = (reg s (reg_of b), s') \<and> ready s' \<and> reg s' = reg s"
begin

text \<open>A value that is written and read back with a mask for the tens.\<close>

lemma written:
  assumes "ready s" "clock_command a" "\<not> bit a 0" "reg_of a < 7" "clock_command b" "bit b 0" "reg_of b = reg_of a"
  shows "\<exists>s'. ready s' \<and> reg s' = (reg s)(reg_of a := from_digits v)
    \<and> read_back (\<lambda>s. case get b s of (d, s1) \<Rightarrow> (two_digits m d, s1)) v (put a (from_digits v) s)
       = (if two_digits m (from_digits v) = v then SUCC else FAIL, s')"
proof -
  note p = put [OF assms(1-4), of "from_digits v"]
  obtain s' where "get b (put a (from_digits v) s) = (reg (put a (from_digits v) s) (reg_of b), s')"
    "ready s'" "reg s' = reg (put a (from_digits v) s)"
    using get [of "put a (from_digits v) s" b] p assms(5,6) by blast
  then show ?thesis
    using p assms(7) by (intro exI [of _ s']) (auto simp: read_back_def)
qed

end

section \<open>Bits on the pins\<close>

text \<open>In a transfer that has clocked in \<open>bs\<close>.\<close>

definition transfer :: "bool list \<Rightarrow> (nat \<Rightarrow> u8) \<Rightarrow> (nat \<Rightarrow> bool) \<Rightarrow> rtcw \<Rightarrow> bool" where
  "transfer bs r p w \<longleftrightarrow> is_ds1302 w \<and> rtc_cs w \<and> ds_sck (rtc_chip w) = rtc_sck w \<and> ds_bits (rtc_chip w) = bs
     \<and> ds_regs (rtc_chip w) = r \<and> pend_ok w = p"

lemmas pin_defs = DS1302_CS_Enable_def DS1302_CS_Disable_def DS1302_SPI_SCK_High_def DS1302_SPI_SCK_Low_def
  DS1302_SPI_DATA_Output_High_def DS1302_SPI_DATA_Output_Low_def drive_pins_def

lemma start_transfer_transfer:
  assumes "is_ds1302 w" "pend_ok w = p" "ds_regs (rtc_chip w) = r"
  shows "transfer [] r p (start_transfer w)"
  using assms by (simp add: start_transfer_def transfer_def pin_defs is_ds1302_def ds1302_pins_def Let_def)

definition out_bit :: "bool \<Rightarrow> rtcw \<Rightarrow> rtcw" where
  "out_bit b w = DS1302_SPI_SCK_High ((if b then DS1302_SPI_DATA_Output_High else DS1302_SPI_DATA_Output_Low)
     (DS1302_SPI_SCK_Low w))"

lemma shift_out_Suc: "shift_out (Suc i) t w = shift_out i (drop_bit 1 t) (out_bit (bit t 0) w)"
proof -
  have "(t AND 1 \<noteq> 0) = bit t 0" by (simp add: bit_0 and_one_eq mod2_eq_if)
  then show ?thesis by (simp add: out_bit_def Let_def)
qed

lemma sck_low:
  assumes "transfer bs r p w"
  shows "transfer bs r p (DS1302_SPI_SCK_Low w) \<and> \<not> rtc_sck (DS1302_SPI_SCK_Low w)"
  using assms by (simp add: transfer_def pin_defs is_ds1302_def ds1302_pins_def Let_def)

lemma data_level:
  assumes "transfer bs r p w" "\<not> rtc_sck w"
    and w1: "w1 = (if b then DS1302_SPI_DATA_Output_High else DS1302_SPI_DATA_Output_Low) w"
  shows "transfer bs r p w1 \<and> \<not> rtc_sck w1 \<and> rtc_data w1 = b"
  using assms by (cases b) (simp_all add: transfer_def pin_defs is_ds1302_def ds1302_pins_def Let_def)

lemma sck_high:
  assumes "transfer bs r p w" "\<not> rtc_sck w" "length bs \<noteq> 15 \<or> bit (byte_of (take 8 bs)) 0"
  shows "transfer (bs @ [rtc_data w]) r p (DS1302_SPI_SCK_High w) \<and> rtc_sck (DS1302_SPI_SCK_High w)"
  using assms by (auto simp add: transfer_def pin_defs is_ds1302_def ds1302_pins_def Let_def)

lemma out_bit_transfer:
  assumes "transfer bs r p w" "length bs \<noteq> 15"
  shows "transfer (bs @ [b]) r p (out_bit b w)"
proof -
  note low = sck_low [OF assms(1)]
  note level = data_level [OF conjunct1 [OF low] conjunct2 [OF low] refl, of b]
  show ?thesis
    unfolding out_bit_def using sck_high [OF conjunct1 [OF level]] level assms(2) by simp
qed

lemma shift_out_transfer:
  "\<lbrakk>transfer bs r p w; length bs + n \<le> 15\<rbrakk> \<Longrightarrow> transfer (bs @ map (bit t) [0..<n]) r p (shift_out n t w)"
proof (induction n arbitrary: bs t w)
  case (Suc n)
  have "transfer (bs @ [bit t 0]) r p (out_bit (bit t 0) w)"
    using Suc.prems by (intro out_bit_transfer) auto
  from Suc.IH [OF this, of "drop_bit 1 t"] Suc.prems(2) show ?case
    by (simp add: shift_out_Suc bit_drop_bit_eq upt_conv_Cons map_Suc_upt [symmetric] comp_def
        del: upt_Suc shift_out.simps)
qed simp

text \<open>The whole of a byte that is clocked out reaches the chip as that byte.\<close>

lemma byte_of_bits [simp]: "byte_of (map (bit (t :: u8)) [0..<8]) = t"
  by (simp add: byte_of_def horner_sum_bit_eq_take_bit del: upt_Suc) (simp add: take_bit_word_eq_self)

lemma sck_high_writes:
  assumes "transfer bs r p w" "\<not> rtc_sck w" "length bs = 15" "clock_command (byte_of (take 8 bs))"
    "\<not> bit (byte_of (take 8 bs)) 0" "unprotected r"
  shows "transfer (bs @ [rtc_data w]) (r(reg_of (byte_of (take 8 bs)) := byte_of (drop 8 bs @ [rtc_data w]))) p
    (DS1302_SPI_SCK_High w)"
  using assms by (simp add: transfer_def pin_defs is_ds1302_def ds1302_pins_def Let_def)

lemma last_bit_writes:
  assumes "transfer bs r p w" "length bs = 15" "clock_command (byte_of (take 8 bs))" "\<not> bit (byte_of (take 8 bs)) 0"
    "unprotected r"
  shows "transfer (bs @ [b]) (r(reg_of (byte_of (take 8 bs)) := byte_of (drop 8 bs @ [b]))) p (out_bit b w)"
proof -
  note low = sck_low [OF assms(1)]
  note level = data_level [OF conjunct1 [OF low] conjunct2 [OF low] refl, of b]
  show ?thesis
    unfolding out_bit_def using sck_high_writes [OF conjunct1 [OF level] _ assms(2-)] level by simp
qed

lemma shift_out_add: "shift_out (n + k) t w = shift_out k (drop_bit n t) (shift_out n t w)"
  by (induction n arbitrary: t w) (simp_all add: shift_out_Suc del: shift_out.simps(2))

lemma upto_8: "[0..<8] = [0..<7] @ [7 :: nat]"
  by (simp add: upt_conv_Cons)

lemma end_transfer:
  assumes "transfer bs r p w"
  shows "is_ds1302 (DS1302_CS_Disable w) \<and> pend_ok (DS1302_CS_Disable w) = p \<and> ds_regs (rtc_chip (DS1302_CS_Disable w)) = r"
  using assms by (auto simp: transfer_def pin_defs is_ds1302_def ds1302_pins_def Let_def)

definition ready :: "rtcw \<Rightarrow> bool" where
  "ready w \<longleftrightarrow> is_ds1302 w \<and> (\<forall>n. pend_ok w n) \<and> unprotected (ds_regs (rtc_chip w))"

lemma WriteReg_writes:
  assumes "ready w" "clock_command a" "\<not> bit a 0" "reg_of a < 7"
  shows "ready (DS1302_WriteReg a d w) \<and> ds_regs (rtc_chip (DS1302_WriteReg a d w)) = (ds_regs (rtc_chip w))(reg_of a := d)"
proof -
  let ?r = "ds_regs (rtc_chip w)" and ?p = "pend_ok w"
  let ?w = "w\<lparr>rtc_tick := Suc (rtc_tick w)\<rparr>" and ?a = "map (bit a) [0..<8]" and ?d = "map (bit d) [0..<7]"
  have len: "length ?a = 8" "length ?d = 7" by simp_all
  have "transfer [] ?r ?p (start_transfer ?w)"
    using assms(1) by (intro start_transfer_transfer) (auto simp: ready_def is_ds1302_def)
  from shift_out_transfer [OF this, of 8 a]
  have "transfer ?a ?r ?p (shift_out 8 a (start_transfer ?w))" by (simp del: upt_Suc)
  from shift_out_transfer [OF this, of 7 d]
  have "transfer (?a @ ?d) ?r ?p (shift_out 7 d (shift_out 8 a (start_transfer ?w)))" (is "transfer _ _ _ ?v")
    by (simp del: upt_Suc)
  from last_bit_writes [OF this, of "bit d 7"] assms
  have "transfer (?a @ ?d @ [bit d 7]) (?r(reg_of a := byte_of (?d @ [bit d 7]))) ?p (out_bit (bit d 7) ?v)"
    by (simp add: ready_def del: upt_Suc)
  moreover have "?d @ [bit d 7] = map (bit d) [0..<8]" by (simp add: upto_8 del: upt_Suc)
  moreover have "out_bit (bit d 7) ?v = shift_out 8 d (shift_out 8 a (start_transfer ?w))"
    using shift_out_add [of 7 1 d] by (simp add: shift_out_Suc bit_drop_bit_eq del: shift_out.simps(2))
  ultimately have "transfer (?a @ map (bit d) [0..<8]) (?r(reg_of a := d)) ?p (shift_out 8 d (shift_out 8 a (start_transfer ?w)))"
    by (simp del: upt_Suc shift_out.simps)
  from end_transfer [OF this] assms(1,4) show ?thesis
    by (simp add: DS1302_WriteReg_def rtc_pend_def ready_def unprotected_def del: upt_Suc shift_out.simps)
qed

section \<open>Bits from the chip\<close>

text \<open>Reading bit \<open>n\<close> of a register.\<close>

lemma sck_low_puts:
  assumes "transfer bs r p w" "rtc_sck w" "length bs = 8 + n" "n < 8"
    "clock_command (byte_of (take 8 bs))" "bit (byte_of (take 8 bs)) 0"
  shows "ds_out (rtc_chip (DS1302_SPI_SCK_Low w)) = bit (r (reg_of (byte_of (take 8 bs)))) n"
  using assms by (simp add: transfer_def pin_defs is_ds1302_def ds1302_pins_def Let_def)

lemma sck_high_out:
  assumes "transfer bs r p w" "\<not> rtc_sck w"
  shows "ds_out (rtc_chip (DS1302_SPI_SCK_High w)) = ds_out (rtc_chip w)"
  using assms by (simp add: transfer_def pin_defs is_ds1302_def ds1302_pins_def Let_def)

lemma clock_keeps_direction [simp]:
  "data_is_output (DS1302_SPI_SCK_High w) = data_is_output w" "data_is_output (DS1302_SPI_SCK_Low w) = data_is_output w"
  by (simp_all add: pin_defs)

lemma in_bit_transfer:
  assumes "transfer bs r p w" "length bs = 8 + n" "n < 8" "rtc_sck w" "\<not> data_is_output w"
    "clock_command (byte_of (take 8 bs))" "bit (byte_of (take 8 bs)) 0"
  defines "w1 \<equiv> DS1302_SPI_SCK_High (DS1302_SPI_SCK_Low w)"
  shows "\<exists>b. transfer (bs @ [b]) r p w1 \<and> rtc_sck w1 \<and> \<not> data_is_output w1
    \<and> DS1302_SPI_DATA_Input_Read w1 = of_bool (bit (r (reg_of (byte_of (take 8 bs)))) n)"
proof -
  note low = sck_low [OF assms(1)]
  have "ds_out (rtc_chip w1) = bit (r (reg_of (byte_of (take 8 bs)))) n"
    unfolding w1_def using sck_high_out low sck_low_puts [OF assms(1,4,2,3,6,7)] by metis
  then show ?thesis
    using sck_high [of bs r p "DS1302_SPI_SCK_Low w"] low assms(5,7)
    by (auto simp: w1_def DS1302_SPI_DATA_Input_Read_def)
qed

lemma shift_in_reads:
  assumes "transfer bs r p w" "length bs = 8 + i" "i + n = 8" "rtc_sck w" "\<not> data_is_output w"
    "take 8 bs = map (bit a) [0..<8]" "clock_command a" "bit a 0" "acc = take_bit i (r (reg_of a))"
  shows "\<exists>w' bs'. shift_in i n acc w = (r (reg_of a), w') \<and> transfer bs' r p w'"
  using assms
proof (induction n arbitrary: i acc bs w)
  case 0
  then show ?case by (auto simp: take_bit_word_eq_self)
next
  case (Suc n)
  let ?w1 = "DS1302_SPI_SCK_High (DS1302_SPI_SCK_Low w)"
  have a: "byte_of (take 8 bs) = a" using Suc.prems(6) by simp
  obtain b where b: "transfer (bs @ [b]) r p ?w1" "rtc_sck ?w1" "\<not> data_is_output ?w1"
    "DS1302_SPI_DATA_Input_Read ?w1 = of_bool (bit (r (reg_of a)) i)"
    using in_bit_transfer [OF Suc.prems(1,2) _ Suc.prems(4,5)] Suc.prems(3,7,8) a by auto
  have "acc OR push_bit i (of_bool (bit (r (reg_of a)) i)) = take_bit (Suc i) (r (reg_of a))"
    unfolding Suc.prems(9) by (rule bit_eqI) (auto simp: bit_simps less_Suc_eq)
  with Suc.IH [OF b(1), of "Suc i"] Suc.prems b show ?case
    by (simp add: Let_def del: upt_Suc)
qed

lemma sck_out_bit: "rtc_sck (out_bit b w)"
  by (simp add: out_bit_def DS1302_SPI_SCK_High_def drive_pins_def)

lemma sck_shift_out: "rtc_sck (shift_out (Suc n) t w)"
  by (induction n arbitrary: t w) (simp_all only: shift_out_Suc shift_out.simps(1) sck_out_bit)

lemma ReadReg_reads:
  assumes "ready w" "clock_command a" "bit a 0"
  shows "\<exists>w'. DS1302_ReadReg a w = (ds_regs (rtc_chip w) (reg_of a), w') \<and> ready w' \<and> ds_regs (rtc_chip w') = ds_regs (rtc_chip w)"
proof -
  let ?r = "ds_regs (rtc_chip w)" and ?p = "pend_ok w" and ?a = "map (bit a) [0..<8]"
  let ?w = "w\<lparr>rtc_tick := Suc (rtc_tick w)\<rparr>"
  let ?v = "(shift_out 8 a (start_transfer ?w))\<lparr>data_is_output := False\<rparr>"
  have "transfer [] ?r ?p (start_transfer ?w)"
    using assms(1) by (intro start_transfer_transfer) (auto simp: ready_def is_ds1302_def)
  from shift_out_transfer [OF this, of 8 a]
  have t: "transfer ?a ?r ?p ?v" by (simp add: transfer_def is_ds1302_def del: upt_Suc shift_out.simps)
  have s: "rtc_sck ?v" using sck_shift_out [of 7 a "start_transfer ?w"] by (simp del: shift_out.simps)
  obtain w' bs' where "shift_in 0 8 0 ?v = (?r (reg_of a), w')" "transfer bs' ?r ?p w'"
    using shift_in_reads [OF t, of 0 8 a 0] s assms(2,3) by (auto simp del: upt_Suc)
  then show ?thesis
    using end_transfer [of bs' ?r ?p w'] assms(1)
    by (auto simp: DS1302_ReadReg_def rtc_pend_def ready_def simp del: shift_out.simps shift_in.simps)
qed

interpretation clock: registers DS1302_WriteReg DS1302_ReadReg "\<lambda>w. ds_regs (rtc_chip w)" ready
  by unfold_locales (use WriteReg_writes ReadReg_reads in blast)+

section \<open>Two decimal digits\<close>

lemma below_100: "(\<forall>v. v < 100 \<longrightarrow> P (v :: u8)) \<longleftrightarrow> list_all (\<lambda>i. P (of_nat i)) [0..<100]"
proof
  assume *: "list_all (\<lambda>i. P (of_nat i)) [0..<100]"
  show "\<forall>v. v < 100 \<longrightarrow> P (v :: u8)"
  proof (intro allI impI)
    fix v :: u8
    assume "v < 100"
    then have "unat v \<in> set [0..<100]" by (simp add: word_less_nat_alt)
    with * have "P (of_nat (unat v))" by (simp only: list_all_iff)
    then show "P v" by simp
  qed
qed (auto simp: list_all_iff word_less_nat_alt unat_of_nat simp del: upt_Suc)

lemma digits_all: "\<forall>v. v < 100 \<longrightarrow> two_digits 0xF0 (from_digits v) = v
    \<and> (v < 80 \<longrightarrow> two_digits 0x70 (from_digits v) = v) \<and> (v < 40 \<longrightarrow> two_digits 0x30 (from_digits v) = v)
    \<and> (v < 40 \<longrightarrow> two_digits 0x10 (from_digits v) = v mod 20)"
  by (subst below_100) code_simp

lemma digits [simp]:
  "v < 100 \<Longrightarrow> two_digits 0xF0 (from_digits v) = v"
  "v < 80 \<Longrightarrow> two_digits 0x70 (from_digits v) = v"
  "v < 40 \<Longrightarrow> two_digits 0x30 (from_digits v) = v"
  "v < 40 \<Longrightarrow> two_digits 0x10 (from_digits v) = v mod 20"
proof -
  have "v < 80 \<Longrightarrow> v < 100" "v < 40 \<Longrightarrow> v < 100" by (simp_all add: word_less_nat_alt)
  then show "v < 100 \<Longrightarrow> two_digits 0xF0 (from_digits v) = v" "v < 80 \<Longrightarrow> two_digits 0x70 (from_digits v) = v"
    "v < 40 \<Longrightarrow> two_digits 0x30 (from_digits v) = v" "v < 40 \<Longrightarrow> two_digits 0x10 (from_digits v) = v mod 20"
    using digits_all by blast+
qed

section \<open>The functions on one field\<close>

lemma command_bytes [simp]:
  "clock_command 0x80" "clock_command 0x82" "clock_command 0x84" "clock_command 0x86" "clock_command 0x88" "clock_command 0x8C"
  "clock_command 0x81" "clock_command 0x83" "clock_command 0x85" "clock_command 0x87" "clock_command 0x89" "clock_command 0x8D"
  "reg_of 0x80 = 0" "reg_of 0x82 = 1" "reg_of 0x84 = 2" "reg_of 0x86 = 3" "reg_of 0x88 = 4" "reg_of 0x8C = 6"
  "reg_of 0x81 = 0" "reg_of 0x83 = 1" "reg_of 0x85 = 2" "reg_of 0x87 = 3" "reg_of 0x89 = 4" "reg_of 0x8D = 6"
  by code_simp+

abbreviation (input) regs :: "rtcw \<Rightarrow> nat \<Rightarrow> u8" where "regs w \<equiv> ds_regs (rtc_chip w)"

text \<open>\<open>writes_field f i m v\<close>: writing \<open>v\<close> by \<open>f\<close> puts its digits in register \<open>i\<close> and succeeds when they
  survive the mask \<open>m\<close> of the function that reads.\<close>

definition writes_field :: "(u8 \<Rightarrow> rtcw \<Rightarrow> status \<times> rtcw) \<Rightarrow> nat \<Rightarrow> u8 \<Rightarrow> bool" where
  "writes_field f i m \<longleftrightarrow> (\<forall>v w. ready w \<longrightarrow> (\<exists>w'. ready w' \<and> regs w' = (regs w)(i := from_digits v)
     \<and> f v w = (if two_digits m (from_digits v) = v then SUCC else FAIL, w')))"

lemma writes_fields:
  "writes_field DS1302_WriteSecond 0 0x70" "writes_field DS1302_WriteMinute 1 0x70" "writes_field DS1302_WriteHour 2 0x10"
  "writes_field DS1302_WriteDay 3 0x30" "writes_field DS1302_WriteMonth 4 0x10" "writes_field DS1302_WriteYear 6 0xF0"
  unfolding writes_field_def DS1302_WriteSecond_def DS1302_WriteMinute_def DS1302_WriteHour_def DS1302_WriteDay_def
    DS1302_WriteMonth_def DS1302_WriteYear_def DS1302_ReadSecond_def [abs_def] DS1302_ReadMinute_def [abs_def]
    DS1302_ReadHour_def [abs_def] DS1302_ReadDay_def [abs_def] DS1302_ReadMonth_def [abs_def] DS1302_ReadYear_def [abs_def]
  subgoal using clock.written [where a = "0x80" and b = "0x81" and m = "0x70"] by simp
  subgoal using clock.written [where a = "0x82" and b = "0x83" and m = "0x70"] by simp
  subgoal using clock.written [where a = "0x84" and b = "0x85" and m = "0x10"] by simp
  subgoal using clock.written [where a = "0x86" and b = "0x87" and m = "0x30"] by simp
  subgoal using clock.written [where a = "0x88" and b = "0x89" and m = "0x10"] by simp
  subgoal using clock.written [where a = "0x8C" and b = "0x8D" and m = "0xF0"] by simp
  done

text \<open>The next field of a date that is saved.\<close>

lemma in_turn_field:
  assumes "writes_field f i m" "ready w"
  shows "\<exists>w'. ready w' \<and> regs w' = (regs w)(i := from_digits v)
    \<and> in_turn (f v # fs) w = (if two_digits m (from_digits v) = v then in_turn fs w' else (FAIL, w'))"
proof -
  obtain w' where "ready w'" "regs w' = (regs w)(i := from_digits v)"
    "f v w = (if two_digits m (from_digits v) = v then SUCC else FAIL, w')"
    using assms unfolding writes_field_def by blast
  then show ?thesis by auto
qed

section \<open>Dates\<close>

definition chip_shows :: "strSysDateTime \<Rightarrow> rtcw \<Rightarrow> bool" where
  "chip_shows t w \<longleftrightarrow> regs w 0 = from_digits (sdt_senc t) \<and> regs w 1 = from_digits (sdt_min t)
     \<and> regs w 2 = from_digits (sdt_hour t) \<and> regs w 3 = from_digits (sdt_day t)
     \<and> regs w 4 = from_digits (sdt_month t) \<and> regs w 6 = from_digits (ucast (sdt_year t mod 100))"

definition this_century :: "strSysDateTime \<Rightarrow> bool" where
  "this_century t \<longleftrightarrow> valid_time t \<and> 2000 \<le> sdt_year t \<and> sdt_year t < 2100"

text \<open>What \<open>DATETIME_ReadFromRtcIC\<close> makes of registers.\<close>

definition date_of_regs :: "(nat \<Rightarrow> u8) \<Rightarrow> strSysDateTime \<Rightarrow> strSysDateTime" where
  "date_of_regs r t = t\<lparr>sdt_year := ucast (two_digits 0xF0 (r 6)) + 2000, sdt_month := two_digits 0x10 (r 4),
     sdt_day := two_digits 0x30 (r 3), sdt_hour := two_digits 0x10 (r 2), sdt_min := two_digits 0x70 (r 1) mod 60,
     sdt_senc := two_digits 0x70 (r 0) mod 60\<rparr>"

lemma ReadFromRtcIC_regs:
  assumes "ready w"
  shows "\<exists>w'. DATETIME_ReadFromRtcIC t w = (date_of_regs (regs w) t, w') \<and> ready w' \<and> regs w' = regs w"
proof -
  obtain w1 where 1: "DS1302_ReadReg 0x8D w = (regs w 6, w1)" "ready w1" "regs w1 = regs w"
    using clock.get [OF assms, where b = "0x8D"] by auto
  obtain w2 where 2: "DS1302_ReadReg 0x89 w1 = (regs w 4, w2)" "ready w2" "regs w2 = regs w"
    using clock.get [OF 1(2), where b = "0x89"] 1(3) by auto
  obtain w3 where 3: "DS1302_ReadReg 0x87 w2 = (regs w 3, w3)" "ready w3" "regs w3 = regs w"
    using clock.get [OF 2(2), where b = "0x87"] 2(3) by auto
  obtain w4 where 4: "DS1302_ReadReg 0x85 w3 = (regs w 2, w4)" "ready w4" "regs w4 = regs w"
    using clock.get [OF 3(2), where b = "0x85"] 3(3) by auto
  obtain w5 where 5: "DS1302_ReadReg 0x83 w4 = (regs w 1, w5)" "ready w5" "regs w5 = regs w"
    using clock.get [OF 4(2), where b = "0x83"] 4(3) by auto
  obtain w6 where 6: "DS1302_ReadReg 0x81 w5 = (regs w 0, w6)" "ready w6" "regs w6 = regs w"
    using clock.get [OF 5(2), where b = "0x81"] 5(3) by auto
  show ?thesis
    using 1 2 3 4 5 6
    by (intro exI [of _ w6]) (simp add: DATETIME_ReadFromRtcIC_def DS1302_ReadYear_def DS1302_ReadMonth_def DS1302_ReadDay_def
      DS1302_ReadHour_def DS1302_ReadMinute_def DS1302_ReadSecond_def date_of_regs_def)
qed

text \<open>A chip that shows a date of this century reads back as that date, except for the hours from 20
  on: the function that reads the hour masks the tens with 0x10.\<close>

lemma year_digits:
  assumes "2000 \<le> y" "y < 2100"
  shows "ucast (ucast (y mod 100) :: u8) + 2000 = (y :: u16)" "ucast (y mod 100) < (100 :: u8)"
proof -
  have y: "unat y \<ge> 2000" "unat y < 2100" using assms by (simp_all add: word_le_nat_alt word_less_nat_alt)
  have m: "unat (ucast (y mod 100) :: u8) = unat y mod 100"
    by (simp only: unat_u8_of_u16 unat_mod_distrib) (simp add: mod_mod_cancel mod_less)
  have "unat y = (unat y - 2000) + 100 * 20" using y by simp
  then have "unat y mod 100 = (unat y - 2000) mod 100" by (metis mod_mult_self2)
  then have "unat y mod 100 = unat y - 2000" using y by simp
  with m y show "ucast (ucast (y mod 100) :: u8) + 2000 = y"
    by (simp add: word_unat_eq_iff unat_word_ariths)
  show "ucast (y mod 100) < (100 :: u8)" using m by (simp add: word_less_nat_alt)
qed

lemma valid_time_bounds:
  assumes "valid_time t"
  shows "sdt_month t < 20" "sdt_month t < 40" "sdt_day t < 40" "sdt_hour t < 40" "sdt_min t < 80" "sdt_senc t < 80"
    "sdt_min t mod 60 = sdt_min t" "sdt_senc t mod 60 = sdt_senc t"
proof -
  have "month_len l m \<le> 31" for l m by (simp add: month_len_def)
  then have "unat (sdt_day t) \<le> 31" using assms unfolding valid_time_def valid_date_def by (meson le_trans)
  then show "sdt_month t < 20" "sdt_month t < 40" "sdt_day t < 40" "sdt_hour t < 40" "sdt_min t < 80" "sdt_senc t < 80"
    "sdt_min t mod 60 = sdt_min t" "sdt_senc t mod 60 = sdt_senc t"
    using assms by (auto simp: valid_time_def valid_date_def word_less_nat_alt word_unat_eq_iff unat_mod_distrib)
qed

lemma small_mod [simp]: "v < m \<Longrightarrow> v mod m = (v :: u8)"
  by (simp add: word_less_nat_alt word_unat_eq_iff unat_mod_distrib)

text \<open>The fields of the date, the others stay.\<close>

definition with_date :: "strSysDateTime \<Rightarrow> u8 \<Rightarrow> strSysDateTime \<Rightarrow> strSysDateTime" where
  "with_date t h t0 = t0\<lparr>sdt_year := sdt_year t, sdt_month := sdt_month t, sdt_day := sdt_day t, sdt_hour := h,
     sdt_min := sdt_min t, sdt_senc := sdt_senc t\<rparr>"

lemma shown_date:
  assumes "chip_shows t w" "this_century t"
  shows "date_of_regs (regs w) t0 = with_date t (sdt_hour t mod 20) t0"
  using assms valid_time_bounds [of t] year_digits [of "sdt_year t"]
  by (simp add: chip_shows_def date_of_regs_def with_date_def this_century_def)

text \<open>Saving: the registers of the fields in turn, up to the first that does not read back.\<close>

lemma SavetoRtcIC_until_hour:
  assumes "ready w" "this_century t"
  shows "\<exists>w'. ready w' \<and> regs w' = (regs w)(6 := from_digits (ucast (sdt_year t mod 100)), 4 := from_digits (sdt_month t),
      3 := from_digits (sdt_day t), 2 := from_digits (sdt_hour t))
    \<and> DATETIME_SavetoRtcIC t w = (if sdt_hour t mod 20 = sdt_hour t
        then in_turn [DS1302_WriteMinute (sdt_min t), DS1302_WriteSecond (sdt_senc t)] w' else (FAIL, w'))"
proof -
  have v: "valid_time t" and y: "2000 \<le> sdt_year t" "sdt_year t < 2100"
    using assms(2) by (simp_all add: this_century_def)
  note b = valid_time_bounds [OF v]
  note step = in_turn_field [OF writes_fields(6)] in_turn_field [OF writes_fields(5)] in_turn_field [OF writes_fields(4)]
    in_turn_field [OF writes_fields(3)]
  let ?h = "DS1302_WriteHour (sdt_hour t)" and ?r = "[DS1302_WriteMinute (sdt_min t), DS1302_WriteSecond (sdt_senc t)]"
  let ?d = "DS1302_WriteDay (sdt_day t)" and ?m = "DS1302_WriteMonth (sdt_month t)"
  obtain w1 where 1: "ready w1" "regs w1 = (regs w)(6 := from_digits (ucast (sdt_year t mod 100)))"
    "DATETIME_SavetoRtcIC t w = in_turn (?m # ?d # ?h # ?r) w1"
    using step(1) [OF assms(1), of "ucast (sdt_year t mod 100)" "?m # ?d # ?h # ?r"] year_digits [OF y]
    unfolding DATETIME_SavetoRtcIC_def by auto
  obtain w2 where 2: "ready w2" "regs w2 = (regs w1)(4 := from_digits (sdt_month t))"
    "in_turn (?m # ?d # ?h # ?r) w1 = in_turn (?d # ?h # ?r) w2"
    using step(2) [OF 1(1), of "sdt_month t" "?d # ?h # ?r"] b by auto
  obtain w3 where 3: "ready w3" "regs w3 = (regs w2)(3 := from_digits (sdt_day t))"
    "in_turn (?d # ?h # ?r) w2 = in_turn (?h # ?r) w3"
    using step(3) [OF 2(1), of "sdt_day t" "?h # ?r"] b by auto
  obtain w4 where 4: "ready w4" "regs w4 = (regs w3)(2 := from_digits (sdt_hour t))"
    "in_turn (?h # ?r) w3 = (if sdt_hour t mod 20 = sdt_hour t then in_turn ?r w4 else (FAIL, w4))"
    using step(4) [OF 3(1), of "sdt_hour t" ?r] b by auto
  show ?thesis using 1 2 3 4 by (intro exI [of _ w4]) simp
qed

lemma mod_20:
  fixes h :: u8
  assumes "h < 24"
  shows "h mod 20 = (if h < 20 then h else h - 20)"
proof -
  have "unat h mod 20 = (if unat h < 20 then unat h else unat h - 20)"
    using assms by (auto simp: word_less_nat_alt le_mod_geq not_less)
  then show ?thesis
    by (simp add: word_less_nat_alt word_unat_eq_iff unat_mod_distrib unat_sub word_le_nat_alt)
qed

text \<open>C28: A valid date from 2000 to 2099 with an hour below 20 that is saved in a clock chip whose registers are
  not protected is read back as it was; the fields that the chip does not hold stay as they are.\<close>

theorem date_survives_in_clock:
  assumes "ready w" "this_century t" "sdt_hour t < 20"
  shows "\<exists>w1 w2. DATETIME_SavetoRtcIC t w = (SUCC, w1) \<and> chip_shows t w1
    \<and> DATETIME_ReadFromRtcIC t0 w1 = (with_date t (sdt_hour t) t0, w2)"
proof -
  have v: "valid_time t" using assms(2) by (simp add: this_century_def)
  let ?m = "DS1302_WriteMinute (sdt_min t)" and ?s = "DS1302_WriteSecond (sdt_senc t)"
  obtain w' where w': "ready w'" "regs w' = (regs w)(6 := from_digits (ucast (sdt_year t mod 100)),
      4 := from_digits (sdt_month t), 3 := from_digits (sdt_day t), 2 := from_digits (sdt_hour t))"
    "DATETIME_SavetoRtcIC t w = in_turn [?m, ?s] w'"
    using SavetoRtcIC_until_hour [OF assms(1,2)] assms(3) by auto
  obtain w3 where w3: "ready w3" "regs w3 = (regs w')(1 := from_digits (sdt_min t))" "in_turn [?m, ?s] w' = in_turn [?s] w3"
    using in_turn_field [OF writes_fields(2) w'(1), of "sdt_min t" "[?s]"] valid_time_bounds [OF v] by auto
  obtain w4 where w4: "ready w4" "regs w4 = (regs w3)(0 := from_digits (sdt_senc t))" "in_turn [?s] w3 = (SUCC, w4)"
    using in_turn_field [OF writes_fields(1) w3(1), of "sdt_senc t" "[]"] valid_time_bounds [OF v] by auto
  have "chip_shows t w4" using w'(2) w3(2) w4(2) by (simp add: chip_shows_def)
  with ReadFromRtcIC_regs [OF w4(1), of t0] shown_date [OF _ assms(2)] w'(3) w3(3) w4(3) assms(3)
  show ?thesis by auto
qed

text \<open>C33: Between 20:00 and 23:59 a date cannot be set. The function that reads the hour masks the tens with 0x10,
  hours from 20 on do not read back, so \<open>DATETIME_SavetoRtcIC\<close> fails: year, month, day and hour are in the chip,
  minute and second keep what they were, and the date read back is 20 hours early.\<close>

theorem evening_date_refused:
  assumes "ready w" "this_century t" "20 \<le> sdt_hour t"
  shows "\<exists>w1 w2 t1. DATETIME_SavetoRtcIC t w = (FAIL, w1) \<and> regs w1 0 = regs w 0 \<and> regs w1 1 = regs w 1
    \<and> DATETIME_ReadFromRtcIC t0 w1 = (t1, w2) \<and> sdt_hour t1 = sdt_hour t - 20 \<and> sdt_day t1 = sdt_day t
    \<and> sdt_month t1 = sdt_month t \<and> sdt_year t1 = sdt_year t"
proof -
  have v: "valid_time t" and y: "2000 \<le> sdt_year t" "sdt_year t < 2100"
    using assms(2) by (simp_all add: this_century_def)
  have "sdt_hour t < 24" using v by (simp add: valid_time_def)
  then have h: "sdt_hour t mod 20 = sdt_hour t - 20"
    using mod_20 [of "sdt_hour t"] assms(3) by (simp add: not_less)
  moreover have "sdt_hour t - 20 \<noteq> sdt_hour t" by simp
  ultimately obtain w' where w': "ready w'" "regs w' = (regs w)(6 := from_digits (ucast (sdt_year t mod 100)),
      4 := from_digits (sdt_month t), 3 := from_digits (sdt_day t), 2 := from_digits (sdt_hour t))"
    "DATETIME_SavetoRtcIC t w = (FAIL, w')"
    using SavetoRtcIC_until_hour [OF assms(1,2)] by auto
  from ReadFromRtcIC_regs [OF w'(1), of t0] w' h valid_time_bounds [OF v] year_digits [OF y]
  show ?thesis by (auto simp: date_of_regs_def)
qed

text \<open>A chip that counts on to an hour from 20 on shows its date 20 hours early: every entry of a log, which
  takes its time from the chip, and the software clock after it are wrong between 20:00 and midnight.\<close>

theorem evening_shown_20_hours_early:
  assumes "ready w" "this_century t" "chip_shows t w"
  shows "\<exists>w1. DATETIME_ReadFromRtcIC t0 w
    = (with_date t (if sdt_hour t < 20 then sdt_hour t else sdt_hour t - 20) t0, w1)"
proof -
  have "sdt_hour t < 24" using assms(2) by (simp add: this_century_def valid_time_def)
  with ReadFromRtcIC_regs [OF assms(1), of t0] shown_date [OF assms(3,2)] mod_20 [of "sdt_hour t"] show ?thesis
    by auto
qed

section \<open>Witnesses\<close>

definition new_clock :: rtcw where
  "new_clock = \<lparr>rtc_chip = \<lparr>ds_sck = False, ds_bits = [], ds_out = False, ds_regs = (\<lambda>_. 0)\<rparr>, chip_pins = ds1302_pins,
     rtc_cs = False, rtc_sck = False, rtc_data = False, data_is_output = False, pend_ok = (\<lambda>_. True), rtc_indet = (\<lambda>_. 0), rtc_tick = 0\<rparr>"

definition at_hour :: "u8 \<Rightarrow> strSysDateTime" where
  "at_hour h = \<lparr>sdt_year = 2021, sdt_month = 12, sdt_day = 31, sdt_hour = h, sdt_min = 59, sdt_senc = 58,
     sdt_ms = 0, sdt_systick = 0, sdt_src_flag = 0\<rparr>"

lemma new_clock_ready: "ready new_clock"
  by (simp add: ready_def new_clock_def is_ds1302_def unprotected_def)

lemma at_hour_valid: "this_century (at_hour 19)" "this_century (at_hour 21)"
  by code_simp+

theorem date_survives_in_clock_witness:
  "\<exists>w1 w2. DATETIME_SavetoRtcIC (at_hour 19) new_clock = (SUCC, w1) \<and> chip_shows (at_hour 19) w1
    \<and> DATETIME_ReadFromRtcIC (at_hour 0) w1 = (with_date (at_hour 19) 19 (at_hour 0), w2)"
  using date_survives_in_clock [OF new_clock_ready at_hour_valid(1), of "at_hour 0"] by (simp add: at_hour_def)

theorem evening_date_refused_witness:
  "\<exists>w1 w2 t1. DATETIME_SavetoRtcIC (at_hour 21) new_clock = (FAIL, w1)
    \<and> DATETIME_ReadFromRtcIC (at_hour 0) w1 = (t1, w2) \<and> sdt_hour t1 = 1"
  using evening_date_refused [OF new_clock_ready at_hour_valid(2), of "at_hour 0"] by (auto simp: at_hour_def)

theorem evening_shown_20_hours_early_witness:
  "\<exists>w1. DATETIME_ReadFromRtcIC (at_hour 0) (new_clock\<lparr>rtc_chip := (rtc_chip new_clock)\<lparr>ds_regs := (\<lambda>_. 0)
      (0 := 0x58, 1 := 0x59, 2 := 0x21, 3 := 0x31, 4 := 0x12, 6 := 0x21)\<rparr>\<rparr>) = (with_date (at_hour 21) 1 (at_hour 0), w1)"
proof -
  let ?w = "new_clock\<lparr>rtc_chip := (rtc_chip new_clock)\<lparr>ds_regs := (\<lambda>_. 0)
      (0 := 0x58, 1 := 0x59, 2 := 0x21, 3 := 0x31, 4 := 0x12, 6 := 0x21)\<rparr>\<rparr>"
  have "ready ?w" by (simp add: ready_def new_clock_def is_ds1302_def unprotected_def)
  moreover have "chip_shows (at_hour 21) ?w" by (simp add: chip_shows_def at_hour_def new_clock_def) code_simp
  ultimately show ?thesis
    using evening_shown_20_hours_early [OF _ at_hour_valid(2), of ?w "at_hour 0"] by (simp add: at_hour_def)
qed

end
