(* ===== verification/Query.thy ===== *)
theory Query
  imports Setup
begin

text \<open>
  The queries of the control PCs and of the operating panel: the handlers of \<open>APP/src/app_pccomm.c\<close> and
  \<open>APP/src/app_oledcomm.c\<close> that answer with parameters, states and lists (the logs are in theory \<open>Log\<close>). An answer
  is put into the send buffer, \<open>PCCOMMTxBuff[1500]\<close> or \<open>OLEDCOMMTxBuff[64]\<close>, from index 2 on, where the
  pointer \<open>txbuff\<close> leads: the number of the command with its highest bit set, a length, and the data. The frame
  around it is that of theory \<open>PcLink\<close>. A list is sent in frames of its own before the answer.
\<close>

section \<open>State\<close>

text \<open>\<open>tx_buf\<close> is the send buffer, \<open>tx_count\<close> the byte \<open>*txbufflen\<close>, \<open>outbox\<close> what has been sent and
  \<open>panel_rx\<close> the receive buffer of the panel, which is cleared when something is sent to it.\<close>

record desk =
  unit_of :: ctl
  tx_buf :: bytes
  tx_count :: u8
  outbox :: "bytes list"
  panel_rx :: uart

type_synonym 'a dio = "('a, desk) st"
type_synonym inquiry = "bytes \<Rightarrow> status dio"

definition act :: "(desk \<Rightarrow> desk) \<Rightarrow> unit dio" where
  "act f s = Inr ((), f s)"

definition on_unit :: "'a ctio \<Rightarrow> 'a dio" where
  "on_unit m s = bind_f (m (unit_of s)) (\<lambda>(x, u). Inr (x, s\<lparr>unit_of := u\<rparr>))"

definition put_tx :: "nat \<Rightarrow> bytes \<Rightarrow> unit dio" where
  "put_tx i d s = (if i + length d > length (tx_buf s) then Inl OutOfBounds else Inr ((), s\<lparr>tx_buf := put_at (tx_buf s) i d\<rparr>))"

definition reply_head :: "u16 \<Rightarrow> u8 \<Rightarrow> bytes" where
  "reply_head cmd_id n = [ucast (drop_bit 8 ((cmd_id OR 0x8000) AND 0xFF00)), ucast ((cmd_id OR 0x8000) AND 0x00FF), n]"

text \<open>The data from \<open>txbuff[3]\<close> on, then \<open>*txbufflen = index\<close>, then the head with \<open>*txbufflen - 3\<close>.\<close>

definition answer :: "u16 \<Rightarrow> bytes \<Rightarrow> status dio" where
  "answer cmd_id d =
     bind_io (put_tx 5 d) (\<lambda>_.
     bind_io (act (\<lambda>s. s\<lparr>tx_count := of_nat (3 + length d)\<rparr>)) (\<lambda>_.
     bind_io (\<lambda>s. put_tx 2 (reply_head cmd_id (tx_count s - 3)) s) (\<lambda>_. ret_io SUCC)))"

definition asked_for :: "u16 \<Rightarrow> (strACUDevInfo \<Rightarrow> bytes) \<Rightarrow> inquiry" where
  "asked_for cmd_id f rxbuff s =
     (if cmd_of rxbuff \<noteq> cmd_id then Inr (FAIL, s) else answer cmd_id (f (info (unit_of s))) s)"

section \<open>Parameters\<close>

abbreviation (input) CurrSatParamQueID :: u16 where "CurrSatParamQueID \<equiv> 0x0801"
abbreviation (input) AllSaveSatParamQueID :: u16 where "AllSaveSatParamQueID \<equiv> 0x0802"
abbreviation (input) AntennaParamQueID :: u16 where "AntennaParamQueID \<equiv> 0x0803"
abbreviation (input) AntennaAdjustParamQueID :: u16 where "AntennaAdjustParamQueID \<equiv> 0x0804"
abbreviation (input) LocalParamQueID :: u16 where "LocalParamQueID \<equiv> 0x0805"
abbreviation (input) DevSysDateTimeQueID :: u16 where "DevSysDateTimeQueID \<equiv> 0x0806"
abbreviation (input) NetWorkQueID :: u16 where "NetWorkQueID \<equiv> 0x0807"
abbreviation (input) AimAtSatTheoreticalDegreeQueID :: u16 where "AimAtSatTheoreticalDegreeQueID \<equiv> 0x080A"
abbreviation (input) AntennaRecordQueID :: u16 where "AntennaRecordQueID \<equiv> 0x080B"
abbreviation (input) MotorSoftLimitQueID :: u16 where "MotorSoftLimitQueID \<equiv> 0x080C"
abbreviation (input) AimAtSatParamQueID :: u16 where "AimAtSatParamQueID \<equiv> 0x080D"
abbreviation (input) DevStaQueID :: u16 where "DevStaQueID \<equiv> 0x0810"
abbreviation (input) DevAdminQueID :: u16 where "DevAdminQueID \<equiv> 0x0811"
abbreviation (input) CurrWarnStaQueID :: u16 where "CurrWarnStaQueID \<equiv> 0x0812"
abbreviation (input) VersionQueID :: u16 where "VersionQueID \<equiv> 0x0A01"

definition sat_data :: "strSatParam \<Rightarrow> bytes" where
  "sat_data x = [sat_id x] @ sat_name x @ [sat_lon_flag x] @ be32 (fp_to_u32 (fp_mul1000 (sat_lon x))) @ be32 (sat_freq x)
     @ [sat_polar_type x]"

definition antenna_data :: "strAntennaParam \<Rightarrow> bytes" where
  "antenna_data a = [ant_type a] @ be32 (ant_offset_angle a) @ [ant_caliber a] @ be32 (ant_lo_freq a)
     @ [ant_gain_range_flag a, ant_elec_coder_num a]"

text \<open>The highest byte of the degrees is shifted by 16 places only.\<close>

definition local_degree :: "fp32 \<Rightarrow> bytes" where
  "local_degree x = (let d = fp_to_u32 (fp_mul1000 x) in
     [ucast (drop_bit 16 (d AND 0xFF000000)), ucast (drop_bit 16 (d AND 0x00FF0000)),
      ucast (drop_bit 8 (d AND 0x0000FF00)), ucast (d AND 0x000000FF)])"

definition local_data :: "strLocalPositionParam \<Rightarrow> bytes" where
  "local_data l = [lp_lon_flag l] @ local_degree (lp_lon l) @ [lp_lat_flag l] @ local_degree (lp_lat l) @ be32 (lp_height l)
     @ [lp_data_src_flag l]"

definition date_data :: "strSysDateTime \<Rightarrow> bytes" where
  "date_data t = be16 (sdt_year t) @ [sdt_month t, sdt_day t, sdt_hour t, sdt_min t, sdt_senc t, ucast (sdt_src_flag t)]"

definition le32 :: "u32 \<Rightarrow> bytes" where
  "le32 x = [ucast (x AND 0x000000FF), ucast (drop_bit 8 (x AND 0x0000FF00)),
     ucast (drop_bit 16 (x AND 0x00FF0000)), ucast (drop_bit 24 (x AND 0xFF000000))]"

definition net_data :: "strNetWork \<Rightarrow> bytes" where
  "net_data n = le32 (nw_ip_addr n) @ le32 (nw_mask n) @ le32 (nw_gate n)"

definition aim_data :: "strAntennaParam \<Rightarrow> bytes" where
  "aim_data a = be32 (fp_to_u32 (fp_mul1000 (aim_position a))) @ be32 (fp_to_u32 (fp_mul1000 (aim_cabrage a)))
     @ be32 (fp_to_s32 (fp_mul1000 (aim_polar a)))"

definition limit_data :: "strAntennaParam \<Rightarrow> bytes" where
  "limit_data a = be32 (fp_to_u32 (fp_mul1000 (motor_position_start a))) @ be32 (fp_to_u32 (fp_mul1000 (motor_position_end a)))
     @ be32 (fp_to_u32 (fp_mul1000 (motor_cabrage_start a))) @ be32 (fp_to_u32 (fp_mul1000 (motor_cabrage_end a)))
     @ be32 (fp_to_s32 (fp_mul1000 (motor_polar_start a))) @ be32 (fp_to_s32 (fp_mul1000 (motor_polar_end a)))"

definition APP_PCCOMM_CurrSatParamQue :: inquiry where
  "APP_PCCOMM_CurrSatParamQue = asked_for CurrSatParamQueID (\<lambda>d. sat_data (CurrSatParam (ACUParam d)))"

definition APP_PCCOMM_AntennaParamQue :: inquiry where
  "APP_PCCOMM_AntennaParamQue = asked_for AntennaParamQueID (\<lambda>d. antenna_data (AntennaParam (ACUParam d)))"

text \<open>Nothing is put into the send buffer: what was sent before is sent again.\<close>

definition APP_PCCOMM_AntennaAdjustParamQue :: inquiry where
  "APP_PCCOMM_AntennaAdjustParamQue rxbuff = ret_io (if cmd_of rxbuff \<noteq> AntennaAdjustParamQueID then FAIL else SUCC)"

definition APP_PCCOMM_LocalParamQue :: inquiry where
  "APP_PCCOMM_LocalParamQue = asked_for LocalParamQueID (\<lambda>d. local_data (LocalPositionParam (ACUParam d)))"

definition APP_PCCOMM_DevSysDateTimeQue :: inquiry where
  "APP_PCCOMM_DevSysDateTimeQue = asked_for DevSysDateTimeQueID (\<lambda>d. date_data (SysDateTime d))"

definition APP_PCCOMM_NetWorkQue :: inquiry where
  "APP_PCCOMM_NetWorkQue = asked_for NetWorkQueID (\<lambda>d. net_data (NetWork (DeviceInfo d)))"

definition APP_PCCOMM_AimAtSatDegreeQue :: inquiry where
  "APP_PCCOMM_AimAtSatDegreeQue = asked_for AimAtSatTheoreticalDegreeQueID (\<lambda>d. aim_data (AntennaParam (ACUParam d)))"

definition APP_PCCOMM_MotorSoftLimitQue :: inquiry where
  "APP_PCCOMM_MotorSoftLimitQue = asked_for MotorSoftLimitQueID (\<lambda>d. limit_data (AntennaParam (ACUParam d)))"

definition APP_PCCOMM_AimAtSatParamQue :: inquiry where
  "APP_PCCOMM_AimAtSatParamQue = asked_for AimAtSatParamQueID (\<lambda>d. be32 (AimAtSat_Limit_mv (SeekSatParam (ACUParam d))))"

section \<open>State of the unit\<close>

definition motion_data :: "strACUCurrSta \<Rightarrow> bytes" where
  "motion_data c = be32 (fp_to_u32 (fp_mul1000 (antenna_position c))) @ be32 (fp_to_u32 (fp_mul1000 (antenna_cabrage c)))
     @ be32 (fp_to_s32 (fp_mul1000 (antenna_polar c))) @ be32 (fp_to_u32 (beacon_rxpower_mv c))
     @ be32 (fp_to_s32 (fp_mul1000 (beacon_rxpower_db c)))
     @ [dev_move_sta c, dev_admin_sta c, dev_work_sta c, dev_alarm_flag c]"

definition state_data :: "strACUDevInfo \<Rightarrow> bytes" where
  "state_data d = (let c = ACUCurrSta d in
     motion_data c @ [dev_alarm_reflash_flag c ! 0, SeekSat_Mode (SeekSatParam (ACUParam d)), dev_param_reflash_flag c ! 0]
     @ be32 (fp_to_u32 (AGC_max_mv c)))"

definition alarms_seen :: "nat \<Rightarrow> ctl \<Rightarrow> ctl" where
  "alarms_seen k = set_sta (\<lambda>c. c\<lparr>dev_alarm_reflash_flag := (dev_alarm_reflash_flag c)[k := 0x00]\<rparr>)"

definition params_seen :: "ctl \<Rightarrow> ctl" where
  "params_seen = set_sta (\<lambda>c. c\<lparr>dev_param_reflash_flag := (dev_param_reflash_flag c)[0 := 0x00]\<rparr>)"

definition and_then :: "(ctl \<Rightarrow> ctl) \<Rightarrow> status \<Rightarrow> status dio" where
  "and_then f r = (if r = SUCC then bind_io (on_unit (alter f)) (\<lambda>_. ret_io SUCC) else ret_io FAIL)"

definition APP_PCCOMM_DevStaQue :: inquiry where
  "APP_PCCOMM_DevStaQue rxbuff =
     bind_io (asked_for DevStaQueID state_data rxbuff) (and_then (\<lambda>s. params_seen (alarms_seen 0 s)))"

definition APP_PCCOMM_DevAdminQue :: inquiry where
  "APP_PCCOMM_DevAdminQue = asked_for DevAdminQueID (\<lambda>d. [dev_admin_sta (ACUCurrSta d)])"

definition alarm_data :: "strACUDevInfo \<Rightarrow> bytes" where
  "alarm_data d = fst (APP_MONITOR_AlarmStaCodeDeal (dev_alarm_buff (ACUCurrSta d)))"

definition APP_PCCOMM_DevAlarmQue :: inquiry where
  "APP_PCCOMM_DevAlarmQue rxbuff = bind_io (asked_for CurrWarnStaQueID alarm_data rxbuff) (and_then (alarms_seen 0))"

text \<open>The version of the drive unit is blank unless the unit answers.\<close>

definition blank_drive_version :: "ctl \<Rightarrow> ctl" where
  "blank_drive_version = set_unit (\<lambda>d. d\<lparr>Version := (Version d)[1 := (Version d ! 1)
     \<lparr>ver_softver := replicate 16 0x20, ver_hardver := replicate 16 0x20\<rparr>]\<rparr>)"

definition version_data :: "strACUDevInfo \<Rightarrow> bytes" where
  "version_data d = ver_softver (Version d ! 0) @ ver_hardver (Version d ! 0) @ ver_softver (Version d ! 1) @ ver_hardver (Version d ! 1)"

definition version_query :: inquiry where
  "version_query rxbuff =
     (if cmd_of rxbuff \<noteq> VersionQueID then ret_io FAIL
      else bind_io (on_unit (alter blank_drive_version)) (\<lambda>_.
        bind_io (on_unit (on_drive APP_PDUCOMM_VersionQue)) (\<lambda>_.
          asked_for VersionQueID version_data rxbuff)))"

definition APP_PCCOMM_VersionQue :: inquiry where
  "APP_PCCOMM_VersionQue = version_query"

section \<open>Lists\<close>

text \<open>A frame at \<open>index\<close>; the checksum is taken over the bytes of the frame before it.\<close>

definition put_frame :: "nat \<Rightarrow> bytes \<Rightarrow> unit dio" where
  "put_frame index b s = bind_f (sealed b) (\<lambda>f. put_tx index f s)"

definition APP_UDP_Send :: "nat \<Rightarrow> unit dio" where
  "APP_UDP_Send n = act (\<lambda>s. s\<lparr>outbox := outbox s @ [take n (tx_buf s)]\<rparr>)"

definition SWIFT_UART3_Send :: "nat \<Rightarrow> unit dio" where
  "SWIFT_UART3_Send n = act (\<lambda>s. s\<lparr>outbox := outbox s @ [take n (tx_buf s)], panel_rx := SWIFT_UART3_RecvBuff_Clear (panel_rx s)\<rparr>)"

definition list_frame :: "strSatParam \<Rightarrow> bytes" where
  "list_frame x = [0xBC, 30] @ reply_head AllSaveSatParamQueID 27 @ sat_data x"

text \<open>\<open>for(i=0;i<SAT_MAX_NUM;i++)\<close> over what is left of \<open>Sat_ID\<close>: the satellites shown, \<open>shown\<close>, those since the last
  datagram, \<open>num\<close>, and \<open>index\<close>. The result is the last \<open>(num, index)\<close>. \<open>x\<close> is the local structure.\<close>

fun list_sats :: "bytes \<Rightarrow> u8 \<Rightarrow> u8 \<Rightarrow> nat \<Rightarrow> strSatParam \<Rightarrow> (u8 \<times> nat) dio" where
  "list_sats [] shown num index x = ret_io (num, index)"
| "list_sats (i # is) shown num index x =
     (if i = 0 then list_sats is shown num index (x\<lparr>sat_id := i\<rparr>)
      else bind_io (on_unit (on_eeprom (APP_PARAM_SatParam_Read (x\<lparr>sat_id := i\<rparr>)))) (\<lambda>(r, x1).
        if r = FAIL then list_sats is shown num index x1
        else bind_io (put_frame index (list_frame x1)) (\<lambda>_.
          bind_io (if num + 1 \<ge> 40 then APP_UDP_Send (index + 34) else ret_io ()) (\<lambda>_ s.
            let num1 = (if num + 1 \<ge> 40 then 0 else num + 1); index1 = (if num + 1 \<ge> 40 then 0 else index + 34)
            in if ucast (shown + 1) \<ge> Sat_Total_num (sats (unit_of s)) then Inr ((num1, index1), s)
               else list_sats is (shown + 1) num1 index1 x1 s))))"

definition end_of_list :: "u16 \<Rightarrow> bytes \<Rightarrow> status dio" where
  "end_of_list cmd_id d = bind_io (put_tx 2 (reply_head cmd_id (of_nat (length d)) @ d)) (\<lambda>_.
     bind_io (act (\<lambda>s. s\<lparr>tx_count := of_nat (3 + length d)\<rparr>)) (\<lambda>_. ret_io SUCC))"

definition APP_PCCOMM_SaveAllSatParamQue :: "strSatParam \<Rightarrow> inquiry" where
  "APP_PCCOMM_SaveAllSatParamQue stack rxbuff s =
     (if cmd_of rxbuff \<noteq> AllSaveSatParamQueID then Inr (FAIL, s)
      else bind_io (list_sats (Sat_ID (sats (unit_of s))) 0 0 0 stack) (\<lambda>(num, index).
        bind_io (if num < 40 \<and> num > 0 then APP_UDP_Send index else ret_io ()) (\<lambda>_.
          end_of_list AllSaveSatParamQueID (replicate 27 0xFF))) s)"

text \<open>Each record is shown with its first 34 bytes and the signal.\<close>

definition record_frame :: "bytes \<Rightarrow> bytes" where
  "record_frame b = [0xBC, 0x29] @ reply_head AntennaRecordQueID 0x26 @ take 34 b @ take 4 (drop 46 b)"

definition valid_record :: "u8 \<Rightarrow> bool" where
  "valid_record i \<longleftrightarrow> 0 < i \<and> i \<le> of_nat ANTENNA_RECORD_MAX_NUM"

text \<open>\<open>None\<close> when a record cannot be read; else the index behind the last frame and what \<open>readbuff\<close> holds.\<close>

fun list_records :: "bytes \<Rightarrow> nat \<Rightarrow> bytes \<Rightarrow> nat option dio" where
  "list_records [] index b = ret_io (Some index)"
| "list_records (i # is) index b =
     (if \<not> valid_record i then list_records is index b
      else bind_io (on_unit (on_eeprom (APP_PARAM_AntennaRecord_Read i b))) (\<lambda>(r, b1).
        if r = FAIL then ret_io None
        else bind_io (put_frame index (record_frame b1)) (\<lambda>_. list_records is (index + 45) b1)))"

definition APP_PCCOMM_AntennaRecordQue :: "bytes \<Rightarrow> inquiry" where
  "APP_PCCOMM_AntennaRecordQue readbuff rxbuff s =
     (if cmd_of rxbuff \<noteq> AntennaRecordQueID then Inr (FAIL, s)
      else bind_io (list_records (record_ID (records (unit_of s))) 0 readbuff) (\<lambda>r. case r of
        None \<Rightarrow> ret_io FAIL
      | Some index \<Rightarrow> bind_io (APP_UDP_Send index) (\<lambda>_. end_of_list AntennaRecordQueID (replicate 38 0xFF))) s)"

section \<open>Table\<close>

text \<open>The queries of \<open>PCCOMMCmdDealTbl\<close> in the order of the table, but those of the logs. \<open>stack\<close> and \<open>readbuff\<close> are
  local variables of the handlers of the lists.\<close>

definition pc_queries :: "strSatParam \<Rightarrow> bytes \<Rightarrow> (u16 \<times> inquiry) list" where
  "pc_queries stack readbuff =
     [(CurrSatParamQueID, APP_PCCOMM_CurrSatParamQue), (AllSaveSatParamQueID, APP_PCCOMM_SaveAllSatParamQue stack),
      (AntennaParamQueID, APP_PCCOMM_AntennaParamQue), (AntennaAdjustParamQueID, APP_PCCOMM_AntennaAdjustParamQue),
      (LocalParamQueID, APP_PCCOMM_LocalParamQue), (DevSysDateTimeQueID, APP_PCCOMM_DevSysDateTimeQue),
      (NetWorkQueID, APP_PCCOMM_NetWorkQue), (AimAtSatTheoreticalDegreeQueID, APP_PCCOMM_AimAtSatDegreeQue),
      (AntennaRecordQueID, APP_PCCOMM_AntennaRecordQue readbuff), (MotorSoftLimitQueID, APP_PCCOMM_MotorSoftLimitQue),
      (AimAtSatParamQueID, APP_PCCOMM_AimAtSatParamQue), (DevStaQueID, APP_PCCOMM_DevStaQue),
      (DevAdminQueID, APP_PCCOMM_DevAdminQue), (CurrWarnStaQueID, APP_PCCOMM_DevAlarmQue), (VersionQueID, APP_PCCOMM_VersionQue)]"

end
