(* ===== verification/QueryProps.thy ===== *)
theory QueryProps
  imports Query SatTable
begin

text \<open>
  What the queries answer (theory \<open>Query\<close>): the list of the satellites is that of the table, and what a PC has set is
  what it gets.
\<close>

section \<open>Send buffer\<close>

lemma put_tx_ok:
  "i + length d \<le> length (tx_buf s) \<Longrightarrow> put_tx i d s = Inr ((), s\<lparr>tx_buf := put_at (tx_buf s) i d\<rparr>)"
  by (simp add: put_tx_def)

lemma put_at_length [simp]: "i + length d \<le> length b \<Longrightarrow> length (put_at b i d) = length b"
  by (simp add: put_at_def)

lemma put_at_next: "i \<le> length b \<Longrightarrow> take (i + length d) (put_at b i d) = take i b @ d"
  by (simp add: put_at_def)

lemma put_at_put_at: "i + length c + length d \<le> length b \<Longrightarrow> put_at (put_at b (i + length c) d) i c = put_at b i (c @ d)"
  by (simp add: put_at_def add.assoc)

definition reply :: "u16 \<Rightarrow> bytes \<Rightarrow> bytes" where
  "reply cmd_id d = reply_head cmd_id (of_nat (length d)) @ d"

lemma length_reply_head [simp]: "length (reply_head c n) = 3"
  by (simp add: reply_head_def)

lemma answer_runs:
  assumes "5 + length d \<le> length (tx_buf s)" "length d < 253"
  shows "answer c d s = Inr (SUCC, s\<lparr>tx_count := of_nat (3 + length d), tx_buf := put_at (tx_buf s) 2 (reply c d)\<rparr>)"
proof -
  have "(of_nat (3 + length d) :: u8) - 3 = of_nat (length d)" by simp
  moreover have "put_at (put_at (tx_buf s) 5 d) 2 (reply_head c (of_nat (length d))) = put_at (tx_buf s) 2 (reply c d)"
    using put_at_put_at [of 2 "reply_head c (of_nat (length d))" d "tx_buf s"] assms(1) by (simp add: reply_def)
  ultimately show ?thesis using assms(1)
    by (simp add: answer_def put_tx_ok act_def bind_io_def ret_io_def)
qed

section \<open>The list of the satellites\<close>

text \<open>The frame for a satellite, and the frames for a table in the order of the numbers.\<close>

definition sat_line :: "strSatParam \<Rightarrow> bytes" where
  "sat_line x = list_frame x @ [sum_list (list_frame x), 0xCB]"

definition sat_listing :: "sat_table \<Rightarrow> bytes list" where
  "sat_listing m = map (\<lambda>i. sat_line (the (m i))) (filter (\<lambda>i. m i \<noteq> None) sat_numbers)"

lemma length_sat_line: "length (sat_name x) = 16 \<Longrightarrow> length (sat_line x) = 34"
  by (simp add: sat_line_def list_frame_def sat_data_def reply_head_def)

lemma stored_name [simp]: "length (sat_name (stored_sat s i)) = 16"
  by (simp add: stored_sat_def sat_at_def region_def copy_over_def)

lemma put_frame_ok:
  "i + 34 \<le> length (tx_buf s) \<Longrightarrow> length (sat_name x) = 16
    \<Longrightarrow> put_frame i (list_frame x) s = Inr ((), s\<lparr>tx_buf := put_at (tx_buf s) i (sat_line x)\<rparr>)"
  using length_sat_line [of x] by (simp add: put_frame_def put_tx_ok sat_line_def)

text \<open>What stays while the list is read: the unit but for the chip, the chip's memory and the size of the buffer.\<close>

definition kept_unit :: "desk \<Rightarrow> desk \<Rightarrow> bool" where
  "kept_unit s s' \<longleftrightarrow> (unit_of s' = unit_of s \<or> chip_only (unit_of s) (unit_of s')) \<and> board_ok (chip (unit_of s'))
     \<and> region (chip (unit_of s')) = region (chip (unit_of s)) \<and> length (tx_buf s') = length (tx_buf s)"

text \<open>The satellites \<open>is\<close> are still to come, \<open>n\<close> frames wait in the buffer.\<close>

definition to_list :: "bytes \<Rightarrow> nat \<Rightarrow> nat \<Rightarrow> desk \<Rightarrow> bool" where
  "to_list is t n s \<longleftrightarrow> board_ok (chip (unit_of s)) \<and> length (tx_buf s) = 1500 \<and> n < 40 \<and> t + length is \<le> 100
     \<and> Sat_Total_num (sats (unit_of s)) = of_nat (t + length (filter (\<lambda>i. i \<noteq> 0) is))
     \<and> (\<forall>i \<in> set is. i \<noteq> 0 \<longrightarrow> region (chip (unit_of s)) (sat_addr i) 27 ! 0 = i)"

definition lines_of :: "ctl \<Rightarrow> bytes \<Rightarrow> bytes" where
  "lines_of u is = concat (map (\<lambda>i. sat_line (stored_sat u i)) (filter (\<lambda>i. i \<noteq> 0) is))"

lemma lines_of_simps:
  "lines_of u [] = []" "lines_of u (0 # is) = lines_of u is"
  "i \<noteq> 0 \<Longrightarrow> lines_of u (i # is) = sat_line (stored_sat u i) @ lines_of u is"
  by (simp_all add: lines_of_def)

text \<open>What is sent and what is left in the buffer, as one stream; every datagram is full.\<close>

definition streamed :: "desk \<Rightarrow> nat \<Rightarrow> bytes \<Rightarrow> desk \<Rightarrow> nat \<Rightarrow> bool" where
  "streamed s n b s' n' \<longleftrightarrow> (\<exists>ds. outbox s' = outbox s @ ds \<and> (\<forall>d \<in> set ds. length d = 1360)
     \<and> concat ds @ take (34 * n') (tx_buf s') = take (34 * n) (tx_buf s) @ b)"


lemma kept_unit_trans: "kept_unit s t \<Longrightarrow> kept_unit t u \<Longrightarrow> kept_unit s u"
  using chip_only_trans by (auto simp: kept_unit_def)

lemma streamed_trans: "streamed s n b t m \<Longrightarrow> streamed t m c u k \<Longrightarrow> streamed s n (b @ c) u k"
  unfolding streamed_def
proof (elim exE conjE)
  fix ds es
  assume 1: "outbox t = outbox s @ ds" "\<forall>d\<in>set ds. length d = 1360" "concat ds @ take (34 * m) (tx_buf t) = take (34 * n) (tx_buf s) @ b"
    and 2: "outbox u = outbox t @ es" "\<forall>d\<in>set es. length d = 1360" "concat es @ take (34 * k) (tx_buf u) = take (34 * m) (tx_buf t) @ c"
  then have "concat (ds @ es) @ take (34 * k) (tx_buf u) = concat ds @ take (34 * m) (tx_buf t) @ c" by simp
  also have "\<dots> = take (34 * n) (tx_buf s) @ b @ c" using arg_cong [OF 1(3), of "\<lambda>x. x @ c"] by simp
  finally have "concat (ds @ es) @ take (34 * k) (tx_buf u) = take (34 * n) (tx_buf s) @ b @ c" .
  then show "\<exists>ds. outbox u = outbox s @ ds \<and> (\<forall>d\<in>set ds. length d = 1360)
      \<and> concat ds @ take (34 * k) (tx_buf u) = take (34 * n) (tx_buf s) @ b @ c"
    using 1 2 by (intro exI [of _ "ds @ es"]) auto
qed

lemma small_u8: "n < 40 \<Longrightarrow> (of_nat n + 1 :: u8) \<ge> 40 \<longleftrightarrow> n = 39"
proof -
  assume "n < 40"
  then have "unat (of_nat n + 1 :: u8) = n + 1" using unat_of_nat [where 'a = 8, of "n + 1"] by (simp add: add.commute)
  moreover have "unat (40 :: u8) = 40" by simp
  ultimately show ?thesis using \<open>n < 40\<close> by (simp only: word_le_nat_alt) auto
qed

lemma count_done:
  assumes "t + m < 100"
  shows "(of_nat (t + Suc m) :: u16) \<le> ucast (of_nat t + 1 :: u8) \<longleftrightarrow> m = 0"
proof -
  have "unat (of_nat t + 1 :: u8) = t + 1" using unat_of_nat [where 'a = 8, of "t + 1"] assms by (simp add: add.commute)
  moreover have "unat (of_nat (t + Suc m) :: u16) = t + Suc m" using unat_of_nat [where 'a = 16, of "t + Suc m"] assms by simp
  ultimately show ?thesis by (simp only: word_le_nat_alt unat_u16_of_u8) auto
qed

text \<open>One satellite.\<close>

lemma list_one:
  assumes l: "to_list (i # is) t n s" and i: "i \<noteq> 0"
  defines "n1 \<equiv> (if n = 39 then 0 else n + 1)"
  shows "\<exists>s1. list_sats (i # is) (of_nat t) (of_nat n) (34 * n) x s
      = (if filter (\<lambda>i. i \<noteq> 0) is = [] then Inr ((of_nat n1, 34 * n1), s1)
         else list_sats is (of_nat t + 1) (of_nat n1) (34 * n1) (stored_sat (unit_of s) i) s1)
    \<and> to_list is (t + 1) n1 s1 \<and> kept_unit s s1 \<and> streamed s n (sat_line (stored_sat (unit_of s) i)) s1 n1"
proof -
  let ?x = "stored_sat (unit_of s) i"
  have b: "board_ok (chip (unit_of s))" "n < 40" "length (tx_buf s) = 1500" "region (chip (unit_of s)) (sat_addr i) 27 ! 0 = i"
    "t + length is < 100" "Sat_Total_num (sats (unit_of s)) = of_nat (t + Suc (length (filter (\<lambda>i. i \<noteq> 0) is)))"
    "\<forall>j \<in> set is. j \<noteq> 0 \<longrightarrow> region (chip (unit_of s)) (sat_addr j) 27 ! 0 = j"
    using l i by (auto simp: to_list_def)
  obtain u1 where u1: "on_eeprom (APP_PARAM_SatParam_Read (x\<lparr>sat_id := i\<rparr>)) (unit_of s) = Inr ((SUCC, ?x), u1)"
    "board_ok (chip u1)" "chip_only (unit_of s) u1" "region (chip u1) = region (chip (unit_of s))"
    using sat_read [OF b(1) i, of x] b(4) by auto
  let ?s2 = "s\<lparr>unit_of := u1, tx_buf := put_at (tx_buf s) (34 * n) (sat_line ?x)\<rparr>"
  let ?s1 = "if n = 39 then ?s2\<lparr>outbox := outbox s @ [take 1360 (tx_buf ?s2)]\<rparr> else ?s2"
  have len: "length (sat_line ?x) = 34" by (simp add: length_sat_line)
  have room: "34 * n + 34 \<le> 1500" using b(2) by simp
  have put: "put_frame (34 * n) (list_frame ?x) (s\<lparr>unit_of := u1\<rparr>) = Inr ((), ?s2)"
    using put_frame_ok [of "34 * n" "s\<lparr>unit_of := u1\<rparr>" ?x] room b(3) by simp
  have same: "sats u1 = sats (unit_of s)" using chip_only_sel(1) [OF u1(3)] .
  have m: "t + length (filter (\<lambda>i. i \<noteq> 0) is) < 100" using b(5) length_filter_le [of "\<lambda>i. i \<noteq> 0" "is"] by linarith
  have ended: "Sat_Total_num (sats u1) \<le> ucast (of_nat t + 1 :: u8) \<longleftrightarrow> filter (\<lambda>i. i \<noteq> 0) is = []"
    unfolding same b(6) using count_done [OF m] by simp
  have "list_sats (i # is) (of_nat t) (of_nat n) (34 * n) x s
      = (if filter (\<lambda>i. i \<noteq> 0) is = [] then Inr ((of_nat n1, 34 * n1), ?s1)
         else list_sats is (of_nat t + 1) (of_nat n1) (34 * n1) ?x ?s1)"
    using i small_u8 [OF b(2)] u1(1) put n1_def ended
    by (cases "n = 39") (simp_all add: on_unit_def bind_io_def APP_UDP_Send_def act_def ret_io_def add.commute)
  moreover have "to_list is (t + 1) n1 ?s1"
    using b u1 len room same by (simp add: to_list_def n1_def)
  moreover have "kept_unit s ?s1" using u1 len room b(3) by (simp add: kept_unit_def)
  moreover have "take (34 * n + 34) (tx_buf ?s2) = take (34 * n) (tx_buf s) @ sat_line ?x"
    using put_at_next [of "34 * n" "tx_buf s" "sat_line ?x"] len room b(3) by simp
  then have "streamed s n (sat_line ?x) ?s1 n1" using len room b(3)
    by (auto simp: streamed_def n1_def add.commute)
  ultimately show ?thesis by blast
qed

lemma of_nat_step: "(of_nat (t + 1) :: u8) = of_nat t + 1"
  by simp

lemma list_sats_run:
  assumes "to_list is t n s"
  shows "\<exists>s' n'. list_sats is (of_nat t) (of_nat n) (34 * n) x s = Inr ((of_nat n', 34 * n'), s') \<and> n' < 40
    \<and> kept_unit s s' \<and> streamed s n (lines_of (unit_of s) is) s' n'"
  using assms
proof (induction "is" arbitrary: t n s x)
  case Nil
  then show ?case by (intro exI [of _ s] exI [of _ n]) (simp add: to_list_def kept_unit_def streamed_def lines_of_simps ret_io_def)
next
  case (Cons i "is")
  show ?case
  proof (cases "i = 0")
    case True
    then have "to_list is t n s" using Cons.prems by (simp add: to_list_def)
    then show ?thesis using Cons.IH True by (simp add: lines_of_simps)
  next
    case False
    define n1 where "n1 = (if n = 39 then 0 else n + 1)"
    obtain s1 where s1: "list_sats (i # is) (of_nat t) (of_nat n) (34 * n) x s
      = (if filter (\<lambda>i. i \<noteq> 0) is = [] then Inr ((of_nat n1, 34 * n1), s1)
         else list_sats is (of_nat t + 1) (of_nat n1) (34 * n1) (stored_sat (unit_of s) i) s1)"
      "to_list is (t + 1) n1 s1" "kept_unit s s1" "streamed s n (sat_line (stored_sat (unit_of s) i)) s1 n1"
      using list_one [OF Cons.prems False] unfolding n1_def by blast
    show ?thesis
    proof (cases "filter (\<lambda>i. i \<noteq> 0) is = []")
      case True
      moreover have "n1 < 40" using Cons.prems by (simp add: n1_def to_list_def)
      moreover have "lines_of (unit_of s) is = []" using True by (simp add: lines_of_def)
      ultimately show ?thesis using s1 False by (intro exI [of _ s1] exI [of _ n1]) (simp add: lines_of_simps)
    next
      case more: False
      obtain s2 n2 where s2: "list_sats is (of_nat t + 1) (of_nat n1) (34 * n1) (stored_sat (unit_of s) i) s1 = Inr ((of_nat n2, 34 * n2), s2)"
        "n2 < 40" "kept_unit s1 s2" "streamed s1 n1 (lines_of (unit_of s1) is) s2 n2"
        using Cons.IH [OF s1(2)] unfolding of_nat_step by blast
      have "lines_of (unit_of s1) is = lines_of (unit_of s) is"
        using s1(3) by (simp add: kept_unit_def lines_of_def stored_sat_def)
      then show ?thesis using s1(1) more s2 streamed_trans [OF s1(4) s2(4)] kept_unit_trans [OF s1(3) s2(3)] False
        by (intro exI [of _ s2] exI [of _ n2]) (simp add: lines_of_simps)
    qed
  qed
qed


text \<open>The slots in use are the numbers of the table in their order.\<close>

lemma listed_numbers:
  assumes "slots_ok (Sat_ID (sats u))"
  shows "filter (\<lambda>i. i \<noteq> 0) (Sat_ID (sats u)) = filter (\<lambda>i. table_of u i \<noteq> None) sat_numbers"
proof -
  let ?xs = "Sat_ID (sats u)"
  have len: "length ?xs = 100" using assms by (simp add: slots_ok_def)
  have slot: "table_of u (of_nat (k + 1)) \<noteq> None \<longleftrightarrow> ?xs ! k \<noteq> 0" "?xs ! k \<noteq> 0 \<Longrightarrow> ?xs ! k = of_nat (k + 1)" if "k < 100" for k
  proof -
    have n: "unat (of_nat (k + 1) :: u8) = k + 1" using that unat_of_nat [where 'a = 8, of "k + 1"] by simp
    then have n0: "(of_nat (k + 1) :: u8) \<noteq> 0" by (metis unat_0 add_is_0 one_neq_zero)
    have v: "?xs ! k = 0 \<or> ?xs ! k = of_nat (k + 1)" using assms that n by (auto simp: slots_ok_def word_unat_eq_iff)
    then show "?xs ! k \<noteq> 0 \<Longrightarrow> ?xs ! k = of_nat (k + 1)" by blast
    show "table_of u (of_nat (k + 1)) \<noteq> None \<longleftrightarrow> ?xs ! k \<noteq> 0"
      using v n n0 that listed_iff [OF assms n0] by (auto simp: table_of_def listed_def)
  qed
  have "filter (\<lambda>i. i \<noteq> 0) ?xs = map (\<lambda>k. ?xs ! k) (filter (\<lambda>k. ?xs ! k \<noteq> 0) [0..<100])"
    using map_nth [of ?xs] len filter_map [of "\<lambda>i. i \<noteq> 0" "\<lambda>k. ?xs ! k" "[0..<100]"] by (simp add: comp_def)
  also have "\<dots> = map (\<lambda>k. of_nat (k + 1)) (filter (\<lambda>k. table_of u (of_nat (k + 1)) \<noteq> None) [0..<100])"
    using slot by (intro map_cong filter_cong) auto
  also have "\<dots> = filter (\<lambda>i. table_of u i \<noteq> None) (map (\<lambda>k. of_nat (k + 1)) [0..<100])"
    by (simp add: filter_map comp_def)
  also have "map (\<lambda>k. of_nat (k + 1)) [0..<100] = sat_numbers"
    by (simp add: sat_numbers_def upt_conv_Cons map_Suc_upt [symmetric] comp_def flip: One_nat_def del: upt_Suc)
  finally show ?thesis .
qed

lemma lines_are_listing:
  assumes "slots_ok (Sat_ID (sats u))"
  shows "lines_of u (Sat_ID (sats u)) = concat (sat_listing (table_of u))"
  unfolding lines_of_def sat_listing_def listed_numbers [OF assms]
  by (intro arg_cong [where f = concat] map_cong) (auto simp: table_of_def)

lemma end_of_list_runs:
  assumes "5 + length d \<le> length (tx_buf s)"
  shows "end_of_list c d s = Inr (SUCC, s\<lparr>tx_buf := put_at (tx_buf s) 2 (reply c d), tx_count := of_nat (3 + length d)\<rparr>)"
  using assms by (simp add: end_of_list_def put_tx_ok act_def bind_io_def ret_io_def reply_def)

lemma kept_table:
  assumes "kept_unit s s'" "table_ok (unit_of s)"
  shows "table_ok (unit_of s')" "table_of (unit_of s') = table_of (unit_of s)"
proof -
  have "sats (unit_of s') = sats (unit_of s)" using assms(1) chip_only_sel(1) by (auto simp: kept_unit_def)
  then show "table_ok (unit_of s')" "table_of (unit_of s') = table_of (unit_of s)" using assms
    by (auto simp: kept_unit_def table_ok_def table_in_def listed_def table_of_def stored_sat_def)
qed

text \<open>C24: on a working board with a consistent table, the count \<open>Sat_Total_num\<close> equal to the number of slots in use among others,
  the list query of a PC sends exactly one frame for each satellite of the table, in the order of their numbers, in datagrams of at
  most 1360 bytes; it ends with an answer of the value 0xFF and leaves the table as it is. Nothing is claimed for
  a table whose count is wrong (\<open>app_pccomm.c:398\<close>).\<close>

theorem satellites_listed:
  assumes "table_ok (unit_of s)" "cmd_of rx = AllSaveSatParamQueID" "length (tx_buf s) = 1500"
  shows "\<exists>s' ds. APP_PCCOMM_SaveAllSatParamQue stack rx s = Inr (SUCC, s')
    \<and> outbox s' = outbox s @ ds \<and> concat ds = concat (sat_listing (table_of (unit_of s))) \<and> (\<forall>d \<in> set ds. length d \<le> 1360)
    \<and> take 32 (tx_buf s') = take 2 (tx_buf s') @ reply AllSaveSatParamQueID (replicate 27 0xFF) \<and> tx_count s' = 30
    \<and> table_ok (unit_of s') \<and> table_of (unit_of s') = table_of (unit_of s)"
proof -
  let ?xs = "Sat_ID (sats (unit_of s))"
  have ok: "slots_ok ?xs" using assms(1) by (simp add: table_ok_def table_in_def)
  have "region (chip (unit_of s)) (sat_addr i) 27 ! 0 = i" if "i \<in> set ?xs" "i \<noteq> 0" for i
    using that assms(1) listed_iff [OF ok that(2)] by (auto simp: table_ok_def table_in_def listed_def)
  then have "to_list ?xs 0 0 s" using assms(1,3) ok by (auto simp: to_list_def table_ok_def table_in_def slots_ok_def in_use_def)
  from list_sats_run [OF this, of stack] obtain s1 n where s1:
    "list_sats ?xs 0 0 0 stack s = Inr ((of_nat n, 34 * n), s1)" "n < 40" "kept_unit s s1"
    "streamed s 0 (lines_of (unit_of s) ?xs) s1 n" by auto
  then obtain ds where ds: "outbox s1 = outbox s @ ds" "\<forall>d \<in> set ds. length d = 1360"
    "concat ds @ take (34 * n) (tx_buf s1) = lines_of (unit_of s) ?xs" by (auto simp: streamed_def)
  have n: "(of_nat n :: u8) < 40 \<and> (of_nat n :: u8) > 0 \<longleftrightarrow> n > 0"
    using s1(2) unat_of_nat [where 'a = 8, of n] by (auto simp: word_less_nat_alt)
  let ?s2 = "if n > 0 then s1\<lparr>outbox := outbox s1 @ [take (34 * n) (tx_buf s1)]\<rparr> else s1"
  let ?s3 = "?s2\<lparr>tx_buf := put_at (tx_buf ?s2) 2 (reply AllSaveSatParamQueID (replicate 27 0xFF)), tx_count := 30\<rparr>"
  have len: "length (tx_buf s1) = 1500" using s1(3) assms(3) by (simp add: kept_unit_def)
  have "APP_PCCOMM_SaveAllSatParamQue stack rx s = Inr (SUCC, ?s3)"
    using assms(2) s1(1) n end_of_list_runs [of "replicate 27 0xFF" ?s2 AllSaveSatParamQueID] len
    by (auto simp: APP_PCCOMM_SaveAllSatParamQue_def bind_io_def APP_UDP_Send_def act_def ret_io_def)
  moreover have "outbox ?s3 = outbox s @ (ds @ (if n > 0 then [take (34 * n) (tx_buf s1)] else []))" using ds(1) by simp
  moreover have "concat (ds @ (if n > 0 then [take (34 * n) (tx_buf s1)] else [])) = concat (sat_listing (table_of (unit_of s)))"
    using ds(3) lines_are_listing [OF ok] by auto
  moreover have "\<forall>d \<in> set (ds @ (if n > 0 then [take (34 * n) (tx_buf s1)] else [])). length d \<le> 1360"
    using ds(2) s1(2) len by auto
  moreover have "take 32 (tx_buf ?s3) = take 2 (tx_buf ?s3) @ reply AllSaveSatParamQueID (replicate 27 0xFF)"
    using len by (simp add: put_at_def reply_def)
  moreover have "table_ok (unit_of ?s3)" "table_of (unit_of ?s3) = table_of (unit_of s)"
    using kept_table [OF s1(3) assms(1)] by simp_all
  ultimately show ?thesis by (intro exI [of _ ?s3]) auto
qed


section \<open>What is set is shown\<close>

lemma asked_for_runs:
  assumes "cmd_of rx = c" "length (f (info (unit_of s))) < 248" "length (tx_buf s) = 1500"
  shows "asked_for c f rx s = Inr (SUCC, s\<lparr>tx_count := of_nat (3 + length (f (info (unit_of s)))),
    tx_buf := put_at (tx_buf s) 2 (reply c (f (info (unit_of s))))\<rparr>)"
  using assms answer_runs [of "f (info (unit_of s))" s c] by (simp add: asked_for_def)

lemma le32_eq: "le32 x = [ucast x, ucast (drop_bit 8 x), ucast (drop_bit 16 x), ucast (drop_bit 24 x)]"
  by (simp add: le32_def masked_byte_3 masked_byte_2 masked_byte_1 masked_byte_0)

lemma le32_reverse: "le32 x = rev (be32 x)"
  by (simp add: le32_eq be32_eq)

lemma be32_int32_at: "i + 4 \<le> length b \<Longrightarrow> be32 (int32_at b i) = take 4 (drop i b)"
  by (simp add: int32_at_def take_Suc_conv_app_nth numeral_eq_Suc nth_append)

lemma le32_at_back: "i + 4 \<le> length b \<Longrightarrow> le32 (le32_at b i) = take 4 (drop i b)"
  by (simp add: le32_reverse le32_at_def take_Suc_conv_app_nth numeral_eq_Suc nth_append)


lemma network_change:
  "network (change_net v get put code b s) = (if v \<noteq> get (network s) then put (network s) else network s)"
  "chip (change_net v get put code b s) = chip s"
  by (simp_all add: change_net_def network_def)

definition net_of_cmd :: "bytes \<Rightarrow> strNetWork \<Rightarrow> strNetWork" where
  "net_of_cmd c n = n\<lparr>nw_ip_addr := le32_at c 3, nw_mask := le32_at c 7, nw_gate := le32_at c 11\<rparr>"

lemma NetWorkSet_runs:
  assumes "board_ok (chip u)" "cmd_of c = NetWorkSetID" "c ! 2 = 12" "le32_at c 7 AND 0xFF000000 \<noteq> 0xFF000000"
    "le32_at c 3 AND 0x00FFFFFF = le32_at c 11 AND 0x00FFFFFF"
  shows "\<exists>r u'. APP_PCCOMM_NetWorkSet c u = Inr ((SUCC, r), u') \<and> network u' = net_of_cmd c (network u)"
proof (cases "net_of_cmd c (network u) = network u")
  case True
  then have "le32_at c 3 = nw_ip_addr (network u)" "le32_at c 7 = nw_mask (network u)" "le32_at c 11 = nw_gate (network u)"
    by (metis net_of_cmd_def strNetWork.select_convs(1) strNetWork.surjective strNetWork.update_convs(1-3),
        metis net_of_cmd_def strNetWork.select_convs(2) strNetWork.surjective strNetWork.update_convs(1-3),
        metis net_of_cmd_def strNetWork.select_convs(3) strNetWork.surjective strNetWork.update_convs(1-3))
  then show ?thesis using assms True by (simp add: APP_PCCOMM_NetWorkSet_def Let_def)
next
  case False
  then have d: "le32_at c 3 \<noteq> nw_ip_addr (network u) \<or> le32_at c 7 \<noteq> nw_mask (network u) \<or> le32_at c 11 \<noteq> nw_gate (network u)"
    by (auto simp: net_of_cmd_def)
  let ?u = "change_net (le32_at c 11) nw_gate (\<lambda>n. n\<lparr>nw_gate := le32_at c 11\<rparr>) 0x021603 (take 4 (drop 11 c))
          (change_net (le32_at c 7) nw_mask (\<lambda>n. n\<lparr>nw_mask := le32_at c 7\<rparr>) 0x021602 (take 4 (drop 7 c))
          (change_net (le32_at c 3) nw_ip_addr (\<lambda>n. n\<lparr>nw_ip_addr := le32_at c 3\<rparr>) 0x021601 (take 4 (drop 3 c)) u))"
  have n: "network ?u = net_of_cmd c (network u)" by (simp add: network_change net_of_cmd_def)
  obtain u' where u': "on_eeprom (APP_PARAM_NetWork_Save (network ?u)) ?u = Inr (SUCC, u')" "info u' = info ?u"
    using save_param_on_board [where s = ?u and a = APP_EEPROM_NetWork_ADDR
        and xs = "be32 (nw_ip_addr (network ?u)) @ be32 (nw_mask (network ?u)) @ be32 (nw_gate (network ?u))"] assms(1)
    by (auto simp: APP_PARAM_NetWork_Save_def network_change)
  have "network u' = network ?u" using u'(2) by (simp add: network_def)
  moreover have "\<exists>r. APP_PCCOMM_NetWorkSet c u = Inr ((SUCC, r), u')"
    using assms d u'(1) by (simp add: APP_PCCOMM_NetWorkSet_def Let_def bind_io_def alter_def)
  ultimately show ?thesis using n by metis
qed

text \<open>C29: the addresses that a PC sets are accepted and shown: on a working board a set command whose gateway is in the
  network of the address, and whose mask does not end with 255, succeeds, and the query that follows answers with the
  twelve bytes of the command.\<close>

theorem network_set_is_shown:
  assumes "board_ok (chip (unit_of s))" "cmd_of c = NetWorkSetID" "c ! 2 = 12" "length c = 50"
    "le32_at c 7 AND 0xFF000000 \<noteq> 0xFF000000" "le32_at c 3 AND 0x00FFFFFF = le32_at c 11 AND 0x00FFFFFF"
    and "cmd_of q = NetWorkQueID" "length (tx_buf s) = 1500"
  shows "\<exists>r u s'. APP_PCCOMM_NetWorkSet c (unit_of s) = Inr ((SUCC, r), u)
    \<and> APP_PCCOMM_NetWorkQue q (s\<lparr>unit_of := u\<rparr>) = Inr (SUCC, s')
    \<and> take (3 + 12) (drop 2 (tx_buf s')) = reply NetWorkQueID (take 12 (drop 3 c)) \<and> tx_count s' = 15"
proof -
  obtain r u where u: "APP_PCCOMM_NetWorkSet c (unit_of s) = Inr ((SUCC, r), u)" "network u = net_of_cmd c (network (unit_of s))"
    using NetWorkSet_runs [OF assms(1-3,5,6)] by blast
  have "net_data (NetWork (DeviceInfo (info u))) = le32 (le32_at c 3) @ le32 (le32_at c 7) @ le32 (le32_at c 11)"
    using u(2) by (simp add: net_data_def network_def net_of_cmd_def)
  also have "\<dots> = take 4 (drop 3 c) @ take 4 (drop 7 c) @ take 4 (drop 11 c)" using assms(4) by (simp add: le32_at_back)
  also have "\<dots> = take 12 (drop 3 c)"
    using take_add [of 4 8 "drop 3 c"] take_add [of 4 4 "drop 7 c"] by simp
  finally have d: "net_data (NetWork (DeviceInfo (info u))) = take 12 (drop 3 c)" .
  then show ?thesis
    using u(1) assms(4,7,8) asked_for_runs [of q NetWorkQueID "\<lambda>d. net_data (NetWork (DeviceInfo d))" "s\<lparr>unit_of := u\<rparr>"]
    by (auto simp: APP_PCCOMM_NetWorkQue_def put_at_def reply_def)
qed

section \<open>Witnesses\<close>

lemma two_satellites: "\<exists>s. table_ok s \<and> dom (table_of s) = {1, 2}"
proof -
  have n: "sat_numbers = 1 # 2 # map of_nat [3..<101]"
    by (simp add: sat_numbers_def upt_conv_Cons)
  have c: "satcmd (sat_frame 0)" "sat_frame 0 ! 3 = 0" by (simp_all add: satcmd_def sat_frame_def cmd_of_def un16_def)
  obtain s1 where s1: "table_ok s1" "table_of s1 = snd (set_spec (sat_frame 0) Map.empty)"
    using set_refines [OF blank_table(1) c(1)] c(2) blank_table(2) by auto
  obtain s2 where s2: "table_ok s2" "table_of s2 = snd (set_spec (sat_frame 0) (table_of s1))"
    using set_refines [OF s1(1) c(1)] c(2) by auto
  have "dom (table_of s2) = {1, 2}"
    using s1(2) s2(2) c(2) by (auto simp: set_spec_def free_number_def n split: if_splits)
  then show ?thesis using s2(1) by blast
qed

definition desk_of :: "nat \<Rightarrow> ctl \<Rightarrow> desk" where
  "desk_of n u = \<lparr>unit_of = u, tx_buf = replicate n 0, tx_count = 0, outbox = [],
     panel_rx = \<lparr>pbuff = replicate 64 0, write_p = 0, frame_posts = 0, pdu_linked = False\<rparr>\<rparr>"

lemma desk_of_sel [simp]: "unit_of (desk_of n u) = u" "tx_buf (desk_of n u) = replicate n 0" "outbox (desk_of n u) = []"
  by (simp_all add: desk_of_def)

theorem satellites_listed_witness:
  "\<exists>u s' ds. APP_PCCOMM_SaveAllSatParamQue zero_strSatParam (0x08 # 0x02 # replicate 48 0) (desk_of 1500 u) = Inr (SUCC, s')
    \<and> dom (table_of u) = {1, 2} \<and> outbox s' = ds \<and> concat ds = sat_line (stored_sat u 1) @ sat_line (stored_sat u 2)"
proof -
  obtain u where u: "table_ok u" "dom (table_of u) = {1, 2}" using two_satellites by blast
  have n: "sat_numbers = 1 # 2 # map of_nat [3..<101]" by (simp add: sat_numbers_def upt_conv_Cons)
  have out: "table_of u i = None" if "i \<noteq> 1" "i \<noteq> 2" for i using u(2) that by blast
  have far: "(of_nat k :: u8) \<noteq> 1 \<and> (of_nat k :: u8) \<noteq> 2" if "k \<in> {3..<101}" for k
    using that of_nat_u8_eq [of k 1] of_nat_u8_eq [of k 2] by simp
  have "filter (\<lambda>i. table_of u i \<noteq> None) (map of_nat [3..<101]) = []"
    using far out by (auto simp: filter_empty_conv)
  moreover have one: "table_of u 1 = Some (stored_sat u 1)" "table_of u 2 = Some (stored_sat u 2)"
    using u(2) by (auto simp: table_of_def dom_def split: if_splits)
  ultimately have l: "sat_listing (table_of u) = [sat_line (stored_sat u 1), sat_line (stored_sat u 2)]"
    by (simp add: sat_listing_def n)
  have c: "cmd_of (0x08 # 0x02 # replicate 48 0) = AllSaveSatParamQueID" by (simp add: cmd_of_def un16_def)
  show ?thesis
    using satellites_listed [of "desk_of 1500 u" "0x08 # 0x02 # replicate 48 0" zero_strSatParam] u c l by auto
qed

theorem network_set_is_shown_witness:
  "\<exists>r u s'. APP_PCCOMM_NetWorkSet ([2, 0x15, 12, 192, 168, 1, 10, 255, 255, 255, 0, 192, 168, 1, 1] @ replicate 35 0) (blank []) = Inr ((SUCC, r), u)
    \<and> APP_PCCOMM_NetWorkQue (0x08 # 0x07 # replicate 48 0) ((desk_of 1500 (blank []))\<lparr>unit_of := u\<rparr>) = Inr (SUCC, s')
    \<and> take 15 (drop 2 (tx_buf s')) = [0x88, 0x07, 12, 192, 168, 1, 10, 255, 255, 255, 0, 192, 168, 1, 1]"
proof -
  let ?c = "[2, 0x15, 12, 192, 168, 1, 10, 255, 255, 255, 0, 192, 168, 1, 1] @ replicate 35 (0 :: u8)"
  have n: "cmd_of ?c = NetWorkSetID" "cmd_of (0x08 # 0x07 # replicate 48 0) = NetWorkQueID"
    "le32_at ?c 7 AND 0xFF000000 \<noteq> 0xFF000000" "le32_at ?c 3 AND 0x00FFFFFF = le32_at ?c 11 AND 0x00FFFFFF"
    by (simp_all add: cmd_of_def un16_def le32_at_def un32_def nth_append push_bit_eq_mult)
  have r: "reply NetWorkQueID (take 12 (drop 3 ?c)) = [0x88, 0x07, 12, 192, 168, 1, 10, 255, 255, 255, 0, 192, 168, 1, 1]"
    by (simp add: reply_def reply_head_def)
  show ?thesis
    using network_set_is_shown [of "desk_of 1500 (blank [])" ?c "0x08 # 0x07 # replicate 48 0"] n r by auto
qed

end
