(* ===== verification/StartupProps.thy ===== *)
theory StartupProps
  imports Startup RecordProps RtcProps QueryProps
begin

text \<open>
  What of the memory survives a restart (theory \<open>Startup\<close>): the table of the satellites does, the number of the
  satellite that was selected does not.
\<close>

section \<open>The selected satellite\<close>

lemma set_curr_sat_simps [simp]:
  "chip (set_curr_sat f s) = chip s" "sats (set_curr_sat f s) = sats s" "curr_sat (set_curr_sat f s) = f (curr_sat s)"
  "curr_sat (set_sats g s) = curr_sat s"
  by (simp_all add: set_curr_sat_def curr_sat_def setters getters)

lemma chip_only_curr: "chip_only s s' \<Longrightarrow> curr_sat s' = curr_sat s"
  using chip_only_sel(12) by (simp add: curr_sat_def)

section \<open>The list of the satellites\<close>

text \<open>The least number in use, and what becomes of the structure \<open>c\<close> of the selected satellite, which is stored
  without its number.\<close>

definition first_listed :: "bytes \<Rightarrow> u8" where
  "first_listed xs = hd (filter (\<lambda>i. i \<noteq> 0) xs)"

definition restored :: "(u8 \<Rightarrow> strSatParam) \<Rightarrow> bytes \<Rightarrow> strSatParam \<Rightarrow> strSatParam" where
  "restored st xs c = (if in_use xs = 0 then c else if in_use xs = 1 then st (first_listed xs) else c\<lparr>sat_id := first_listed xs\<rparr>)"

text \<open>The list \<open>xs\<close> has been rebuilt up to slot \<open>k\<close>: the chip is that of the state \<open>s0\<close> but for the number of the
  selected satellite.\<close>

definition rebuilt :: "ctl \<Rightarrow> bytes \<Rightarrow> strSatParam \<Rightarrow> nat \<Rightarrow> ctl \<Rightarrow> bool" where
  "rebuilt s0 xs c k s \<longleftrightarrow> board_ok (chip s) \<and> Sat_ID (sats s) = take k xs @ replicate (100 - k) 0
     \<and> Sat_Total_num (sats s) = of_nat (in_use xs)
     \<and> (\<forall>b n. apart APP_EEPROM_Sat_CurrID_ADDR 1 b n \<longrightarrow> unat b + n \<le> 65536 \<longrightarrow> region (chip s) b n = region (chip s0) b n)
     \<and> curr_sat s = (if in_use (take k xs) = 0 then c else restored (stored_sat s0) xs c)"

definition sat_slots :: "ctl \<Rightarrow> bytes \<Rightarrow> bool" where
  "sat_slots s0 xs \<longleftrightarrow> slots_ok xs
     \<and> (\<forall>k < 100. region (chip s0) (sat_addr (of_nat (k + 1))) 27 ! 0 = of_nat (k + 1) \<longleftrightarrow> xs ! k \<noteq> 0)"

lemma in_use_split: "in_use (xs @ ys) = in_use xs + in_use ys" "in_use [] = 0"
  "in_use (x # xs) = (if x = 0 then 0 else 1) + in_use xs"
  by (simp_all add: in_use_def)

lemma in_use_take_Suc: "k < length xs \<Longrightarrow> in_use (take (Suc k) xs) = in_use (take k xs) + (if xs ! k = 0 then 0 else 1)"
  by (simp add: take_Suc_conv_app_nth in_use_split)

lemma in_use_drop: "k < length xs \<Longrightarrow> in_use (drop k xs) = (if xs ! k = 0 then 0 else 1) + in_use (drop (Suc k) xs)"
  by (simp add: Cons_nth_drop_Suc [symmetric] in_use_split)

lemma first_listed_take:
  assumes "in_use (take k xs) = 0" "k < length xs" "xs ! k \<noteq> 0"
  shows "first_listed xs = xs ! k"
proof -
  have "filter (\<lambda>i. i \<noteq> 0) (take k xs) = []" using assms(1) by (simp add: in_use_def)
  then have "filter (\<lambda>i. i \<noteq> 0) xs = filter (\<lambda>i. i \<noteq> 0) (drop k xs)"
    by (metis append_take_drop_id append_Nil filter_append)
  then show ?thesis using assms(2,3) by (simp add: first_listed_def Cons_nth_drop_Suc [symmetric])
qed

lemma first_in_take:
  assumes "in_use (take k xs) \<noteq> 0"
  shows "first_listed xs \<in> set (take k xs) \<and> first_listed xs \<noteq> 0"
proof -
  let ?f = "filter (\<lambda>i. i \<noteq> (0 :: u8))"
  have n: "?f (take k xs) \<noteq> []" using assms by (simp add: in_use_def)
  have "first_listed xs = hd (?f (take k xs @ drop k xs))" by (simp only: first_listed_def append_take_drop_id)
  also have "\<dots> = hd (?f (take k xs))" unfolding filter_append using n by (rule hd_append2)
  finally have "first_listed xs = hd (?f (take k xs))" .
  then show ?thesis using hd_in_set [OF n] by auto
qed

lemma slot_zero: "in_use xs = 0 \<Longrightarrow> k < length xs \<Longrightarrow> xs ! k = 0"
  by (auto simp: in_use_def filter_empty_conv)

lemma zeros_Suc: "k < 100 \<Longrightarrow> replicate (100 - k) (0 :: u8) = 0 # replicate (100 - Suc k) 0"
  by (metis Suc_diff_Suc replicate_Suc)

lemma list_step:
  assumes "k < 100" "length xs = 100"
  shows "(take k xs @ replicate (100 - k) 0)[k := xs ! k] = take (Suc k) xs @ replicate (100 - Suc k) (0 :: u8)"
  unfolding zeros_Suc [OF assms(1)] using assms by (simp add: list_update_append take_Suc_conv_app_nth)

lemma rebuilt_chip_only:
  "\<lbrakk>rebuilt s0 xs c k s; chip_only s s'; board_ok (chip s'); region (chip s') = region (chip s)\<rbrakk> \<Longrightarrow> rebuilt s0 xs c k s'"
  using chip_only_sel(1) [of s s'] chip_only_curr [of s s'] by (simp add: rebuilt_def)

text \<open>An empty slot.\<close>

lemma rebuilt_skip:
  assumes "rebuilt s0 xs c k s" "k < 100" "length xs = 100" "xs ! k = 0"
  shows "rebuilt s0 xs c (Suc k) s"
proof -
  have "take k xs @ replicate (100 - k) 0 = take (Suc k) xs @ replicate (100 - Suc k) 0"
    unfolding zeros_Suc [OF assms(2)] using assms(2-4) by (simp add: take_Suc_conv_app_nth)
  then show ?thesis using assms in_use_take_Suc [of k xs] by (simp add: rebuilt_def)
qed

text \<open>A slot in use: the structure of the selected satellite is replaced when it is the only one, and numbered when it is the
  first.\<close>

lemma curr_id_apart:
  "apart APP_EEPROM_Sat_CurrID_ADDR 1 (sat_addr j) 27" "apart APP_EEPROM_Sat_CurrID_ADDR 1 APP_EEPROM_Sat_TotalNum_ADDR 2"
  "unat (sat_addr j) + 27 \<le> 65536"
  using u8_bound [of j] by (auto simp: apart_def unat_sat_addr)

lemma save_curr_id:
  assumes "board_ok (chip s)"
  shows "\<exists>s'. on_eeprom (APP_PARAM_SatCurrID_Save i) s = Inr (SUCC, s') \<and> board_ok (chip s') \<and> chip_only s s'
    \<and> (\<forall>b n. apart APP_EEPROM_Sat_CurrID_ADDR 1 b n \<longrightarrow> unat b + n \<le> 65536 \<longrightarrow> region (chip s') b n = region (chip s) b n)"
  using save_param_on_board [where s = s and xs = "[i]" and a = APP_EEPROM_Sat_CurrID_ADDR] assms
  by (auto simp: APP_PARAM_SatCurrID_Save_def)

definition in_slot :: "nat \<Rightarrow> u8 \<Rightarrow> ctl \<Rightarrow> ctl" where
  "in_slot i n = set_sats (\<lambda>l. l\<lparr>Sat_ID := (Sat_ID l)[i := n]\<rparr>)"

lemma in_slot_simps [simp]:
  "chip (in_slot i n s) = chip s" "curr_sat (in_slot i n s) = curr_sat s"
  "Sat_ID (sats (in_slot i n s)) = (Sat_ID (sats s))[i := n]" "Sat_Total_num (sats (in_slot i n s)) = Sat_Total_num (sats s)"
  by (simp_all add: in_slot_def)

lemma init_slot_cases:
  "Sat_Total_num (sats s) = 1 \<Longrightarrow> sat_id x \<noteq> 0 \<Longrightarrow>
     init_slot i x s = Inr ((), in_slot i (sat_id x) (set_curr_sat (\<lambda>_. x) s))"
  "Sat_Total_num (sats s) \<noteq> 1 \<Longrightarrow> sat_id x \<noteq> sat_id (curr_sat s) \<Longrightarrow> sat_id (curr_sat s) \<noteq> 0 \<Longrightarrow>
     init_slot i x s = Inr ((), in_slot i (sat_id x) s)"
  by (auto simp: init_slot_def look_def ret_io_def in_slot_def [symmetric])

lemma init_slot_first:
  assumes "Sat_Total_num (sats s) \<noteq> 1" "sat_id (curr_sat s) = 0" "i < length (Sat_ID (sats s))" "board_ok (chip s)"
  shows "\<exists>s'. init_slot i x s = Inr ((), s') \<and> board_ok (chip s') \<and> sats s' = sats (in_slot i (sat_id x) s)
    \<and> curr_sat s' = (curr_sat s)\<lparr>sat_id := sat_id x\<rparr>
    \<and> (\<forall>b n. apart APP_EEPROM_Sat_CurrID_ADDR 1 b n \<longrightarrow> unat b + n \<le> 65536 \<longrightarrow> region (chip s') b n = region (chip s) b n)"
proof -
  let ?s3 = "set_curr_sat (\<lambda>c. c\<lparr>sat_id := sat_id x\<rparr>) (in_slot i (sat_id x) s)"
  have b: "board_ok (chip ?s3)" using assms(4) by simp
  obtain s4 where s4: "on_eeprom (APP_PARAM_SatCurrID_Save (sat_id (curr_sat ?s3))) ?s3 = Inr (SUCC, s4)"
    "board_ok (chip s4)" "chip_only ?s3 s4"
    "\<forall>b n. apart APP_EEPROM_Sat_CurrID_ADDR 1 b n \<longrightarrow> unat b + n \<le> 65536 \<longrightarrow> region (chip s4) b n = region (chip ?s3) b n"
    using save_curr_id [OF b] by blast
  have "init_slot i x s = Inr ((), s4)"
    using s4(1) assms(1-3) by (simp add: init_slot_def look_def in_slot_def [symmetric] bind_io_def alter_def ret_io_def)
  then show ?thesis using s4(2,4) chip_only_sel(1) [OF s4(3)] chip_only_curr [OF s4(3)] by simp
qed

lemma rebuilt_slot:
  assumes r: "rebuilt s0 xs c k s" and k: "k < 100" "xs ! k \<noteq> 0" and xs: "sat_slots s0 xs"
    and c: "sat_id c = 0" and x: "x = stored_sat s0 (xs ! k)" "sat_id x = xs ! k"
  shows "\<exists>s'. init_slot k x s = Inr ((), s') \<and> rebuilt s0 xs c (Suc k) s'"
proof -
  have len: "length xs = 100" using xs by (simp add: sat_slots_def slots_ok_def)
  have le: "in_use (take (Suc k) xs) \<le> in_use xs"
    using in_use_split(1) [of "take (Suc k) xs" "drop (Suc k) xs"] by simp
  have "in_use xs \<le> 100" using xs in_use_le by (simp add: sat_slots_def)
  then have one: "Sat_Total_num (sats s) = 1 \<longleftrightarrow> in_use xs = 1"
    using r unat_of_nat [where 'a = 16, of "in_use xs"] by (auto simp: rebuilt_def word_unat_eq_iff)
  have grown: "in_use (take (Suc k) xs) = Suc (in_use (take k xs))" using in_use_take_Suc [of k xs] k len by simp
  have l: "Sat_ID (sats (in_slot k (sat_id x) s)) = take (Suc k) xs @ replicate (100 - Suc k) 0"
    using r list_step [OF k(1) len] x(2) by (simp add: rebuilt_def)
  consider (only) "in_use xs = 1" | (first) "in_use xs \<noteq> 1" "in_use (take k xs) = 0" | (more) "in_use (take k xs) \<noteq> 0" "in_use xs \<noteq> 1"
    by blast
  then show ?thesis
  proof cases
    case only
    then have "in_use (take k xs) = 0" using le grown by simp
    then have "first_listed xs = xs ! k" using first_listed_take k len by simp
    then have "rebuilt s0 xs c (Suc k) (in_slot k (sat_id x) (set_curr_sat (\<lambda>_. x) s))"
      using r l x only by (simp add: rebuilt_def restored_def grown)
    then show ?thesis using init_slot_cases(1) [of s x k] one only x(2) k(2) by auto
  next
    case first
    then have f: "first_listed xs = xs ! k" using first_listed_take k len by simp
    have cur: "curr_sat s = c" using r first by (simp add: rebuilt_def)
    have "k < length (Sat_ID (sats s))" using r k len by (simp add: rebuilt_def)
    moreover have "board_ok (chip s)" using r by (simp add: rebuilt_def)
    ultimately obtain s' where s': "init_slot k x s = Inr ((), s')" "board_ok (chip s')" "sats s' = sats (in_slot k (sat_id x) s)"
      "curr_sat s' = (curr_sat s)\<lparr>sat_id := sat_id x\<rparr>"
      "\<forall>b n. apart APP_EEPROM_Sat_CurrID_ADDR 1 b n \<longrightarrow> unat b + n \<le> 65536 \<longrightarrow> region (chip s') b n = region (chip s) b n"
      using init_slot_first [of s k x] one first cur c by auto
    have "in_use xs \<noteq> 0" using le grown by simp
    then have "rebuilt s0 xs c (Suc k) s'"
      using s' l r x(2) cur f first by (simp add: rebuilt_def restored_def grown)
    then show ?thesis using s'(1) by blast
  next
    case more
    have "in_use xs \<noteq> 0" using le grown by simp
    then have cur: "curr_sat s = c\<lparr>sat_id := first_listed xs\<rparr>" using r more by (simp add: rebuilt_def restored_def)
    have f: "first_listed xs \<in> set (take k xs)" "first_listed xs \<noteq> 0" using first_in_take [OF more(1)] by blast+
    have "xs ! k \<notin> set (take k xs)"
    proof
      assume "xs ! k \<in> set (take k xs)"
      then obtain j where "j < k" "xs ! j = xs ! k" using k(1) len by (auto simp: in_set_conv_nth)
      then show False using slot_value [of xs j "xs ! k"] slot_value [of xs k "xs ! k"] xs k by (auto simp: sat_slots_def)
    qed
    then have "sat_id x \<noteq> sat_id (curr_sat s)" using f x(2) cur by auto
    moreover have "rebuilt s0 xs c (Suc k) (in_slot k (sat_id x) s)"
      using r l more cur by (simp add: rebuilt_def restored_def grown)
    ultimately show ?thesis using init_slot_cases(2) [of s x k] one more f(2) cur by auto
  qed
qed

text \<open>The loop finds every satellite and ends with none missing.\<close>

lemma of_nat_slot: "k < 100 \<Longrightarrow> unat (of_nat (k + 1) :: u8) = k + 1" "k < 100 \<Longrightarrow> (of_nat (k + 1) :: u8) \<noteq> 0"
  using unat_of_nat [where 'a = 8, of "k + 1"] by (auto simp: word_unat_eq_iff)

lemma slot_number: "slots_ok xs \<Longrightarrow> k < 100 \<Longrightarrow> xs ! k \<noteq> 0 \<Longrightarrow> xs ! k = of_nat (k + 1)"
  using of_nat_slot [of k] by (auto simp: slots_ok_def word_unat_eq_iff)

lemma rebuilt_end:
  assumes "rebuilt s0 xs c k s" "in_use (drop k xs) = 0" "k \<le> 100" "length xs = 100"
  shows "rebuilt s0 xs c 100 s"
  using assms
proof (induction "100 - k" arbitrary: k)
  case (Suc d)
  then have k: "k < 100" by simp
  then have "xs ! k = 0" "in_use (drop (Suc k) xs) = 0" using Suc.prems(2,4) in_use_drop [of k xs] by (simp_all split: if_splits)
  then show ?case using Suc.hyps(1) [of "Suc k"] Suc.hyps(2) rebuilt_skip [OF Suc.prems(1) k Suc.prems(4)] Suc.prems(4) k by simp
qed simp

lemma init_slots_run:
  assumes "rebuilt s0 xs c k s" "k \<le> 100" "sat_slots s0 xs" "sat_id c = 0"
  shows "\<exists>s'. init_slots [k..<100] (of_nat (in_use (drop k xs))) stack s = Inr (0, s') \<and> rebuilt s0 xs c 100 s'"
  using assms(1,2)
proof (induction "100 - k" arbitrary: k s stack)
  case 0
  then show ?case using assms(3) by (auto simp: ret_io_def in_use_split sat_slots_def slots_ok_def)
next
  case (Suc d)
  have xs: "slots_ok xs" "length xs = 100" using assms(3) by (simp_all add: sat_slots_def slots_ok_def)
  have k: "k < 100" and u: "[k..<100] = k # [Suc k..<100]" using Suc.hyps(2) upt_conv_Cons by simp_all
  have "d = 100 - Suc k" using Suc.hyps(2) k by simp
  note IH = Suc.hyps(1) [OF this]
  let ?i = "of_nat (k + 1) :: u8"
  have n: "(of_nat (in_use (drop k xs)) :: u16) = 0 \<longleftrightarrow> in_use (drop k xs) = 0"
    using in_use_split(1) [of "take k xs" "drop k xs"] in_use_le [OF xs(1)] unat_of_nat [where 'a = 16, of "in_use (drop k xs)"]
    by (auto simp: word_unat_eq_iff)
  show ?case
  proof (cases "in_use (drop k xs) = 0")
    case True
    then show ?thesis using rebuilt_end [OF Suc.prems(1) True Suc.prems(2) xs(2)] u by (auto simp: ret_io_def)
  next
    case False
    have b: "board_ok (chip s)" using Suc.prems(1) by (simp add: rebuilt_def)
    have reg: "region (chip s) (sat_addr j) 27 = region (chip s0) (sat_addr j) 27" for j
      using Suc.prems(1) curr_id_apart(1,3) [of j] by (simp add: rebuilt_def)
    obtain s1 where s1: "on_eeprom (APP_PARAM_SatParam_Read (stack\<lparr>sat_id := ?i\<rparr>)) s
        = Inr (if xs ! k \<noteq> 0 then (SUCC, stored_sat s0 ?i) else (FAIL, stack\<lparr>sat_id := ?i\<rparr>), s1)"
      "rebuilt s0 xs c k s1"
      using sat_read [where stack = stack, OF b of_nat_slot(2) [OF k]] rebuilt_chip_only [OF Suc.prems(1)] reg assms(3) k
      unfolding sat_slots_def stored_sat_def by auto
    show ?thesis
    proof (cases "xs ! k = 0")
      case True
      have "\<exists>s'. init_slots [Suc k..<100] (of_nat (in_use (drop (Suc k) xs))) (stack\<lparr>sat_id := ?i\<rparr>) s1 = Inr (0, s')
        \<and> rebuilt s0 xs c 100 s'"
        using IH [OF rebuilt_skip [OF s1(2) k xs(2) True]] k by simp
      then show ?thesis using True n False s1(1) in_use_drop [of k xs] k xs(2) by (simp add: u bind_io_def del: of_nat_Suc)
    next
      case used: False
      have i: "xs ! k = ?i" using slot_number [OF xs(1) k used] .
      have "region (chip s0) (sat_addr ?i) 27 ! 0 = ?i" using assms(3) used k unfolding sat_slots_def by blast
      then have "sat_id (stored_sat s0 ?i) = ?i" by (simp add: stored_sat_def sat_at_def nth_copy_over del: of_nat_Suc of_nat_add)
      then obtain s2 where s2: "init_slot k (stored_sat s0 ?i) s1 = Inr ((), s2)" "rebuilt s0 xs c (Suc k) s2"
        using rebuilt_slot [OF s1(2) k used assms(3,4), of "stored_sat s0 ?i"] i by auto
      have "of_nat (in_use (drop k xs)) - 1 = (of_nat (in_use (drop (Suc k) xs)) :: u16)"
        using in_use_drop [of k xs] k xs(2) used by simp
      moreover obtain s' where "init_slots [Suc k..<100] (of_nat (in_use (drop (Suc k) xs))) (stored_sat s0 ?i) s2 = Inr (0, s')"
        "rebuilt s0 xs c 100 s'"
        using IH [OF s2(2)] k by auto
      ultimately show ?thesis using used n False s1(1) s2(1) by (simp add: u bind_io_def del: of_nat_Suc of_nat_add)
    qed
  qed
qed

text \<open>The structure of the selected satellite in the memory.\<close>

definition stored_curr :: "ctl \<Rightarrow> strSatParam" where
  "stored_curr s = sat_at (copy_over (replicate 32 0) (region (chip s) APP_EEPROM_CurrSatParam_ADDR 27))"

text \<open>A unit that has just been switched on: the memory of \<open>s\<close>, an empty list of satellites, and devices that are free.\<close>

definition same_memory :: "ctl \<Rightarrow> ctl \<Rightarrow> bool" where
  "same_memory s s0 \<longleftrightarrow> board_ok (chip s0) \<and> region (chip s0) = region (chip s) \<and> Sat_ID (sats s0) = replicate 100 0"

text \<open>The part of the start that rebuilds the list.\<close>

lemma init_satellites_run:
  assumes s: "table_ok s" "same_memory s s0" and c: "sat_id (stored_curr s) = 0"
  shows "\<exists>s'. init_satellites stack s0 = Inr ((), s') \<and> table_ok s' \<and> table_of s' = table_of s
    \<and> curr_sat s' = restored (stored_sat s) (Sat_ID (sats s)) (stored_curr s)"
proof -
  let ?xs = "Sat_ID (sats s)"
  have ok: "slots_ok ?xs" and len: "length ?xs = 100" and n: "Sat_Total_num (sats s) = of_nat (in_use ?xs)"
    using s(1) by (simp_all add: table_ok_def table_in_def slots_ok_def)
  have total: "un16 (be16 (Sat_Total_num (sats s)) ! 0) (be16 (Sat_Total_num (sats s)) ! 1) = Sat_Total_num (sats s)"
    by simp
  have small: "\<not> of_nat SAT_MAX_NUM < Sat_Total_num (sats s)"
    using in_use_le [OF ok] unat_of_nat [where 'a = 16, of "in_use ?xs"] n by (simp add: word_less_nat_alt)
  obtain s1 where s1: "on_eeprom (APP_PARAM_SatTotalNum_Read (Sat_Total_num (sats s0))) s0 = Inr ((SUCC, Sat_Total_num (sats s)), s1)"
    "board_ok (chip s1)" "chip_only s0 s1" "region (chip s1) = region (chip s)"
    using read_param_on_board [of s0 2 32 "0xA00" "Sat_Total_num (sats s0)" "\<lambda>b. un16 (b ! 0) (b ! 1)"] s total
    by (auto simp: same_memory_def table_ok_def APP_PARAM_SatTotalNum_Read_def nth_copy_over be16_def)
  let ?s2 = "set_sats (\<lambda>l. l\<lparr>Sat_Total_num := Sat_Total_num (sats s)\<rparr>) s1"
  have t: "init_total s0 = Inr ((), ?s2)"
    using s1(1) small by (simp add: init_total_def look_def bind_io_def alter_def)
  obtain s3 where s3: "on_eeprom (APP_PARAM_CurrSatParam_Read (curr_sat ?s2)) ?s2 = Inr ((SUCC, stored_curr s), s3)"
    "board_ok (chip s3)" "chip_only ?s2 s3" "region (chip s3) = region (chip s)"
    using read_param_on_board [of ?s2 27 32 "0xA20" "curr_sat ?s2" sat_at] s1(2,4)
    by (auto simp: APP_PARAM_CurrSatParam_Read_def stored_curr_def)
  let ?s4 = "set_curr_sat (\<lambda>_. stored_curr s) s3"
  have u: "init_curr ?s2 = Inr ((), ?s4)" using s3(1) by (simp add: init_curr_def look_def bind_io_def alter_def)
  have l: "sats s3 = (sats s0)\<lparr>Sat_Total_num := Sat_Total_num (sats s)\<rparr>"
    using chip_only_sel(1) [OF s3(3)] chip_only_sel(1) [OF s1(3)] by simp
  have "rebuilt s ?xs (stored_curr s) 0 ?s4"
    using s3(2,4) l n s(2) by (simp add: rebuilt_def same_memory_def in_use_split)
  moreover have "sat_slots s ?xs"
  proof -
    have "region (chip s) (sat_addr (of_nat (k + 1))) 27 ! 0 = of_nat (k + 1) \<longleftrightarrow> ?xs ! k \<noteq> 0" if k: "k < 100" for k
    proof -
      have "?xs ! k = 0 \<or> ?xs ! k = of_nat (k + 1)" using slot_number [OF ok k] by blast
      then have "listed s (of_nat (k + 1)) \<longleftrightarrow> ?xs ! k \<noteq> 0"
        using listed_iff [OF ok of_nat_slot(2) [OF k]] of_nat_slot [OF k] k by (auto simp: listed_def)
      then show ?thesis using s(1) of_nat_slot(1) [OF k] k unfolding table_ok_def table_in_def by auto
    qed
    with ok show ?thesis unfolding sat_slots_def by blast
  qed
  ultimately obtain s5 where s5: "init_slots [0..<100] (of_nat (in_use (drop 0 ?xs))) stack ?s4 = Inr (0, s5)"
    "rebuilt s ?xs (stored_curr s) 100 s5"
    using init_slots_run [of s ?xs "stored_curr s" 0 ?s4] c by blast
  have "Sat_Total_num (sats ?s4) = of_nat (in_use (drop 0 ?xs))" using l n by simp
  then have "init_satellites stack s0 = Inr ((), s5)"
    using t u s5(1) by (simp add: init_satellites_def look_def bind_io_def init_missing_def ret_io_def)
  moreover have f: "Sat_ID (sats s5) = ?xs" "Sat_Total_num (sats s5) = Sat_Total_num (sats s)" "board_ok (chip s5)"
    "region (chip s5) (sat_addr j) 27 = region (chip s) (sat_addr j) 27" "region (chip s5) 0xA00 2 = region (chip s) 0xA00 2"
    "curr_sat s5 = restored (stored_sat s) ?xs (stored_curr s)" for j
    using s5(2) len n curr_id_apart by (simp_all add: rebuilt_def restored_def)
  then have "table_ok s5" "table_of s5 = table_of s"
    using s(1) by (simp_all add: table_ok_def table_in_def table_of_def listed_def stored_sat_def fun_eq_iff)
  ultimately show ?thesis using f(6) by blast
qed


text \<open>It leaves the receiver alone.\<close>

definition same_receiver :: "ctl \<Rightarrow> ctl \<Rightarrow> bool" where
  "same_receiver s s' \<longleftrightarrow> APP_Beacon_Send_Sem (rcv s') = APP_Beacon_Send_Sem (rcv s) \<and> port6 (rcv s') = port6 (rcv s)"

interpretation receiver: frame same_receiver
  by unfold_locales (simp_all add: same_receiver_def)

lemma alter_receiver:
  "obeys same_receiver (alter (set_sats f))" "obeys same_receiver (alter (set_curr_sat g))"
  "obeys same_receiver (alter (\<lambda>s. if c s then set_curr_sat g s else s))"
  by (auto simp: obeys_def same_receiver_def set_curr_sat_def setters)

lemma eeprom_receiver: "obeys within_eeprom m \<Longrightarrow> obeys same_receiver (on_eeprom m)"
  using on_eeprom_chip_only chip_only_sel(7,8) unfolding obeys_def same_receiver_def by metis

lemma sat_calls_within:
  "obeys within_eeprom (APP_PARAM_SatParam_Read x)" "obeys within_eeprom (APP_PARAM_SatCurrID_Save i)"
  "obeys within_eeprom (APP_PARAM_SatTotalNum_Save n)" "obeys within_eeprom (APP_PARAM_SatTotalNum_Read n)"
  "obeys within_eeprom (APP_PARAM_CurrSatParam_Read x)"
  unfolding APP_PARAM_SatParam_Read_def APP_PARAM_SatCurrID_Save_def APP_PARAM_SatTotalNum_Save_def
    APP_PARAM_SatTotalNum_Read_def APP_PARAM_CurrSatParam_Read_def case_prod_unfold
  by (intro wee.cond wee.seq wee.ret read_within save_param_within read_param_within)+

lemma look_receiver: "(\<And>t. obeys same_receiver (f t)) \<Longrightarrow> obeys same_receiver (look f)"
  by (simp add: obeys_def look_def)

lemmas receiver_rules = receiver.seq receiver.ret receiver.cond look_receiver alter_receiver eeprom_receiver sat_calls_within

lemma init_slot_receiver: "obeys same_receiver (init_slot i x)"
  unfolding init_slot_def by (intro receiver_rules)

lemma init_slots_receiver: "obeys same_receiver (init_slots is n x)"
  by (induction "is" arbitrary: n x) (auto simp: case_prod_unfold intro!: receiver_rules init_slot_receiver)

lemma init_satellites_receiver: "obeys same_receiver (init_satellites stack)"
  unfolding init_satellites_def init_total_def init_curr_def init_missing_def case_prod_unfold
  by (intro receiver_rules init_slots_receiver)

section \<open>The rest of the start\<close>

text \<open>Steps that return when \<open>P\<close> holds of the state, and relate it to the next by \<open>R\<close>.\<close>

definition goes :: "('s \<Rightarrow> bool) \<Rightarrow> ('s \<Rightarrow> 's \<Rightarrow> bool) \<Rightarrow> ('a, 's) st \<Rightarrow> bool" where
  "goes P R m \<longleftrightarrow> (\<forall>s. P s \<longrightarrow> (\<exists>x s'. m s = Inr (x, s') \<and> R s s'))"

locale returning =
  fixes P :: "'s \<Rightarrow> bool" and R :: "'s \<Rightarrow> 's \<Rightarrow> bool"
  assumes stay: "P s \<Longrightarrow> R s s" and step: "R s t \<Longrightarrow> R t u \<Longrightarrow> R s u" and kept: "R s t \<Longrightarrow> P t"
begin

lemma ret: "goes P R (ret_io x)"
  by (simp add: goes_def ret_io_def stay)

lemma seq: "goes P R m \<Longrightarrow> (\<And>x. goes P R (k x)) \<Longrightarrow> goes P R (bind_io m k)"
  unfolding goes_def bind_io_def using step kept by fastforce

lemma cond: "goes P R m \<Longrightarrow> goes P R n \<Longrightarrow> goes P R (if c then m else n)"
  by simp

end

text \<open>A working EEPROM, the semaphore of the receiver free, and its port as \<open>SWIFT_UART6_Init\<close> leaves it: the handler that is
  compiled is installed and nothing has been received.\<close>

definition fine :: "ctl \<Rightarrow> bool" where
  "fine s \<longleftrightarrow> board_ok (chip s) \<and> 0 < APP_Beacon_Send_Sem (rcv s) \<and> deaf (port6 (rcv s))"

lemma init_port_deaf: "deaf (SWIFT_UART6_Init p)"
  by (simp add: deaf_def SWIFT_UART6_Init_def)

definition same_sats :: "ctl \<Rightarrow> ctl \<Rightarrow> bool" where
  "same_sats s s' \<longleftrightarrow> sats s' = sats s \<and> curr_sat s' = curr_sat s \<and> fine s'
     \<and> (\<forall>b n. apart APP_EEPROM_AntennaRecord_TotalNum_ADDR 4 b n \<longrightarrow> unat b + n \<le> 65536 \<longrightarrow> region (chip s') b n = region (chip s) b n)"

interpretation later: returning fine same_sats
  by unfold_locales (auto simp: same_sats_def)

definition quiet :: "(ctl \<Rightarrow> ctl) \<Rightarrow> bool" where
  "quiet f \<longleftrightarrow> (\<forall>s. sats (f s) = sats s \<and> curr_sat (f s) = curr_sat s \<and> chip (f s) = chip s
     \<and> APP_Beacon_Send_Sem (rcv (f s)) = APP_Beacon_Send_Sem (rcv s) \<and> port6 (rcv (f s)) = port6 (rcv s))"

abbreviation (input) goes_on :: "'a ctio \<Rightarrow> bool" where "goes_on \<equiv> goes fine same_sats"

lemma alter_goes: "quiet f \<Longrightarrow> goes_on (alter f)"
  by (auto simp: quiet_def goes_def alter_def same_sats_def fine_def)

lemma chip_goes:
  assumes "chip_only s s'" "board_ok (chip s')" "region (chip s') = region (chip s)" "fine s"
  shows "same_sats s s'"
  using chip_only_sel(1,7,8) [OF assms(1)] chip_only_curr [OF assms(1)] assms(2-4) by (simp add: same_sats_def fine_def)

lemma read_goes: "\<lbrakk>0 < unat n; unat n \<le> 256; unat n \<le> k\<rbrakk> \<Longrightarrow> goes_on (on_eeprom (read_param a k n old f))"
  using read_param_on_board [of _ n k a old f] chip_goes unfolding goes_def fine_def by meson

lemma reads_go:
  "goes_on (on_eeprom (APP_PARAM_ElecCode_Map_AntennaDegree_Read e))" "goes_on (on_eeprom (APP_PARAM_AntennaParam_Read a))"
  "goes_on (on_eeprom (APP_PARAM_AimAtSatParamLimitmv_Read k))" "goes_on (on_eeprom (APP_PARAM_AntennaDir_Map_MotorDir_Read a))"
  "goes_on (on_eeprom (APP_PARAM_HardWareLimit_Read p l d))" "goes_on (on_eeprom (APP_PARAM_LocallHandParam_Read h))"
  "goes_on (on_eeprom (APP_PARAM_AntennaRecord_TotalNum_Read n))" "goes_on (on_eeprom (APP_PARAM_HistoryMaxMv_Read x))"
  "goes_on (on_eeprom (APP_PARAM_AimAtSatMode_Read i))" "goes_on (on_eeprom (APP_PARAM_AimAtSatWorkSta_Read i))"
  unfolding APP_PARAM_ElecCode_Map_AntennaDegree_Read_def APP_PARAM_AntennaParam_Read_def APP_PARAM_AimAtSatParamLimitmv_Read_def
    APP_PARAM_AntennaDir_Map_MotorDir_Read_def APP_PARAM_HardWareLimit_Read_def APP_PARAM_LocallHandParam_Read_def
    APP_PARAM_AntennaRecord_TotalNum_Read_def APP_PARAM_HistoryMaxMv_Read_def APP_PARAM_AimAtSatMode_Read_def
    APP_PARAM_AimAtSatWorkSta_Read_def
  by (intro read_goes; simp)+

lemma flag_goes: "goes_on (on_eeprom APP_PARAM_EthRelinkResetMCUFlag_Read)"
proof -
  have "\<exists>x s'. on_eeprom APP_PARAM_EthRelinkResetMCUFlag_Read s = Inr (x, s') \<and> same_sats s s'" if "fine s" for s
  proof -
    obtain s' where "on_eeprom (APP_PARAM_Read APP_EEPROM_Reset_Flag_ADDR (replicate 32 0) 1) s
        = Inr ((SUCC, copy_over (replicate 32 0) (region (chip s) APP_EEPROM_Reset_Flag_ADDR 1)), s')"
      "board_ok (chip s')" "chip_only s s'" "region (chip s') = region (chip s)"
      using read_on_board [of s 1 "replicate 32 0" APP_EEPROM_Reset_Flag_ADDR] \<open>fine s\<close> by (auto simp: fine_def)
    then show ?thesis using chip_goes \<open>fine s\<close>
      by (auto simp: APP_PARAM_EthRelinkResetMCUFlag_Read_def case_prod_unfold on_eeprom_bind bind_io_def ret_io_def)
  qed
  then show ?thesis by (simp add: goes_def)
qed

lemma count_goes: "goes_on (on_eeprom (APP_PARAM_AntennaRecord_TotalNum_Save n))"
proof -
  have "\<exists>x s'. on_eeprom (APP_PARAM_AntennaRecord_TotalNum_Save n) s = Inr (x, s') \<and> same_sats s s'" if "fine s" for s
  proof -
    obtain s' where s': "on_eeprom (APP_PARAM_AntennaRecord_TotalNum_Save n) s = Inr (SUCC, s')" "board_ok (chip s')" "chip_only s s'"
      "\<And>b k. apart APP_EEPROM_AntennaRecord_TotalNum_ADDR 4 b k \<Longrightarrow> unat b + k \<le> 65536 \<Longrightarrow> region (chip s') b k = region (chip s) b k"
      using save_param_on_board [where s = s and xs = "be32 n" and a = APP_EEPROM_AntennaRecord_TotalNum_ADDR] \<open>fine s\<close>
      by (auto simp: APP_PARAM_AntennaRecord_TotalNum_Save_def fine_def)
    then show ?thesis using chip_only_sel(1,7,8) [OF s'(3)] chip_only_curr [OF s'(3)] \<open>fine s\<close>
      by (auto simp: same_sats_def fine_def)
  qed
  then show ?thesis by (simp add: goes_def)
qed

text \<open>The receiver.\<close>

definition hears_nothing :: "'a bio \<Rightarrow> bool" where
  "hears_nothing m \<longleftrightarrow> (\<forall>r. 0 < APP_Beacon_Send_Sem r \<longrightarrow> deaf (port6 r) \<longrightarrow>
     (\<exists>x r'. m r = Inr (x, r') \<and> APP_Beacon_Send_Sem r' = APP_Beacon_Send_Sem r \<and> deaf (port6 r')))"

lemma SetFreq_deaf: "hears_nothing (APP_BEACON_SetFreq f)"
  unfolding hears_nothing_def using SetFreq_unheard by blast

lemma QueAGC_deaf: "hears_nothing APP_BEACON_QueAGC"
  unfolding hears_nothing_def
proof (intro allI impI)
  fix r :: bea assume r: "0 < APP_Beacon_Send_Sem r" "deaf (port6 r)"
  obtain p where "beacon_exchange APP_BEACON_QueAGCCmd (port6 r) = Inr (None, p)" "deaf p"
    using exchange_deaf [OF r(2)] by blast
  then show "\<exists>x r'. APP_BEACON_QueAGC r = Inr (x, r') \<and> APP_Beacon_Send_Sem r' = APP_Beacon_Send_Sem r \<and> deaf (port6 r')"
    using r by (auto simp: APP_BEACON_QueAGC_def op_defs APP_BEACON_QueAGCResult_def count_failure_def agc_lost_def beacon_post_def
        beacon_defs Let_def)
qed

lemma beacon_goes:
  assumes "hears_nothing m" "\<And>r x r'. m r = Inr (x, r') \<Longrightarrow> ACUParam (board (watch r')) = ACUParam (board (watch r))
    \<and> SATList (board (watch r')) = SATList (board (watch r))"
  shows "goes_on (on_rcv m)"
proof -
  have "\<exists>x s'. on_rcv m s = Inr (x, s') \<and> same_sats s s'" if f: "fine s" for s
  proof -
    obtain x r where r: "m (rcv s) = Inr (x, r)" "APP_Beacon_Send_Sem r = APP_Beacon_Send_Sem (rcv s)" "deaf (port6 r)"
      using assms(1) [unfolded hears_nothing_def, rule_format, of "rcv s"] f by (auto simp: fine_def)
    have "same_sats s (s\<lparr>rcv := r\<rparr>)"
      using assms(2) [OF r(1)] r(2,3) f by (simp add: same_sats_def fine_def getters curr_sat_def info_def chip_def)
    then show ?thesis using r(1) by (auto simp: on_rcv_def)
  qed
  then show ?thesis by (simp add: goes_def)
qed

text \<open>What the receiver leaves alone.\<close>

definition settings :: "bea \<Rightarrow> strACUSeekSatParam \<times> strSATList" where
  "settings r = (ACUParam (board (watch r)), SATList (board (watch r)))"

lemma settings_set [simp]:
  "settings (set_bconf f r) = settings r" "settings (set_bstat g r) = settings r" "settings (set_bdata x y r) = settings r"
  "settings (set_bcur h r) = settings r" "settings (set_balarm k r) = settings r" "settings (set_err n r) = settings r"
  "settings (warn c r) = settings r" "settings (beacon_post r) = settings r" "settings (r\<lparr>port6 := p\<rparr>) = settings r"
  "settings (r\<lparr>APP_Beacon_Send_Sem := m\<rparr>) = settings r"
  by (simp_all add: settings_def set_bconf_def set_bstat_def set_bdata_def set_bcur_def set_balarm_def set_err_def warn_def
      beacon_post_def set_beacon_def board_def set_info_def set_cur_def upd_info_def upd_sta_def APP_WarnLOG_SaveCode_def)

lemma settings_ops [simp]:
  "settings (freq_set f r) = settings r" "settings (freq_failed r) = settings r" "settings (publish_power r) = settings r"
  "settings (agc_read mv db r) = settings r" "settings (agc_lost n r) = settings r"
  by (simp_all add: freq_set_def freq_failed_def publish_power_def agc_read_def agc_lost_def answered_well_def Let_def)

lemma settings_lost [simp]: "settings (count_failure agc_lost r) = settings r"
  by (simp add: count_failure_def Let_def)

lemma settings_steps:
  "beacon_pend r = Inr (x, r') \<Longrightarrow> settings r' = settings r" "on_port6 m r = Inr (y, r') \<Longrightarrow> settings r' = settings r"
  "change_b f r = Inr (z, r') \<Longrightarrow> (\<And>r. settings (f r) = settings r) \<Longrightarrow> settings r' = settings r"
  by (auto simp: beacon_pend_def on_port6_def bind_f_Inr change_b_def split: if_splits)

lemma SetFreq_settings: "APP_BEACON_SetFreq f r = Inr (x, r') \<Longrightarrow> settings r' = settings r"
  unfolding APP_BEACON_SetFreq_def bind_io_Inr by (auto simp: bind_io_Inr dest!: settings_steps split: if_splits)

lemma QueAGC_settings: "APP_BEACON_QueAGC r = Inr (x, r') \<Longrightarrow> settings r' = settings r"
  unfolding APP_BEACON_QueAGC_def bind_io_Inr by (auto simp: bind_io_Inr dest!: settings_steps split: option.splits prod.splits)

lemma receiver_goes: "goes_on (on_rcv APP_BEACON_QueAGC)" "goes_on (on_rcv (APP_BEACON_SetFreq f))"
  using QueAGC_settings SetFreq_settings by (auto intro!: beacon_goes QueAGC_deaf SetFreq_deaf simp: settings_def)


lemma look_goes: "(\<And>s. goes_on (f s)) \<Longrightarrow> goes_on (look f)"
  by (simp add: goes_def look_def)

lemma quiet_setters [simp]:
  "quiet (set_antenna f)" "quiet (set_seek g)" "quiet (set_local h)" "quiet (set_hand k)" "quiet (set_records l)" "quiet (set_sta m)"
  "quiet (set_mode v)" "quiet (set_work v)" "quiet (set_map e)" "quiet refresh_param" "quiet init_version"
  by (simp_all add: quiet_def set_local_def set_hand_def set_map_def refresh_param_def init_version_def curr_sat_def setters getters)

lemma quiet_comp: "quiet f \<Longrightarrow> quiet g \<Longrightarrow> quiet (\<lambda>s. g (f s))"
  by (simp add: quiet_def)

lemma quiet_choice: "(\<And>s. quiet (f s)) \<Longrightarrow> quiet (\<lambda>s. f s s)"
  by (simp add: quiet_def)

lemmas goes_rules = later.seq later.ret later.cond look_goes alter_goes reads_go flag_goes count_goes receiver_goes

lemma init_map_goes: "goes_on init_map"
  unfolding init_map_def case_prod_unfold by (intro goes_rules quiet_setters)

lemma init_antenna_goes: "goes_on init_antenna"
  unfolding init_antenna_def case_prod_unfold init_scan_def
  by (intro goes_rules quiet_setters quiet_comp [of "set_seek f" for f])
    (simp add: quiet_def curr_sat_def setters getters)

lemma init_limit_goes: "goes_on (init_limit p c b x sel upd d)"
proof -
  have "quiet (\<lambda>s. if e = 0 then set_antenna (upd x) s else set_antenna (upd (within_limit b (y s))) s)" for e :: u32 and y
    by (simp add: quiet_def curr_sat_def setters getters)
  then show ?thesis
    unfolding init_limit_def case_prod_unfold Let_def by (intro goes_rules)
qed

lemma init_limits_goes: "goes_on (init_limits d)"
  unfolding init_limits_def by (intro goes_rules init_limit_goes)

lemma init_position_goes: "goes_on init_position"
  unfolding init_position_def case_prod_unfold by (intro goes_rules quiet_setters)

lemma init_beacon_goes: "goes_on init_beacon"
  unfolding init_beacon_def by (intro goes_rules) (simp add: quiet_def curr_sat_def setters getters)

lemma init_signal_goes: "goes_on init_signal"
  unfolding init_signal_def case_prod_unfold by (intro goes_rules quiet_setters)

lemma init_mode_goes: "goes_on init_mode"
  unfolding init_mode_def case_prod_unfold by (intro goes_rules quiet_setters quiet_comp [of "set_mode 0"])

lemma init_record_list_goes: "length buff = 100 \<Longrightarrow> goes_on (init_record_list is n buff)"
proof (induction "is" arbitrary: n buff)
  case Nil
  then show ?case by (simp add: later.ret)
next
  case (Cons i "is")
  have "\<exists>x s'. init_record_list (i # is) n buff s = Inr (x, s') \<and> same_sats s s'"
    if s: "fine s" for s
  proof -
    let ?a = "antenna_record_addr (of_nat (i + 1))"
    let ?b = "copy_over buff (region (chip s) ?a 80)"
    obtain s1 where s1: "on_eeprom (APP_PARAM_AntennaRecord_Read (of_nat (i + 1)) buff) s = Inr ((SUCC, ?b), s1)"
      "board_ok (chip s1)" "chip_only s s1" "region (chip s1) = region (chip s)"
      using read_on_board [of s 80 buff ?a] s Cons.prems unfolding APP_PARAM_AntennaRecord_Read_def fine_def by auto
    have b: "length ?b = 100" using Cons.prems by (simp add: copy_over_def)
    let ?m = "if ?b ! 0 = of_nat (i + 1)
        then bind_io (alter (set_records (\<lambda>l. l\<lparr>record_ID := (record_ID l)[i := of_nat (i + 1)]\<rparr>))) (\<lambda>_. init_record_list is (n + 1) ?b)
        else init_record_list is n ?b"
    have go: "goes_on ?m"
      by (intro goes_rules quiet_setters Cons.IH [OF b])
    have same: "same_sats s s1" using chip_goes [OF s1(3,2,4) s] .
    then have f1: "fine s1" by (simp add: same_sats_def)
    have eq: "init_record_list (i # is) n buff s = ?m s1" using s1(1) by (simp add: bind_io_def)
    show ?thesis unfolding eq using go f1 later.step [OF same] unfolding goes_def by blast
  qed
  then show ?case by (simp only: goes_def) blast
qed

lemma init_records_goes: "length buff = 100 \<Longrightarrow> goes_on (init_records buff)"
  unfolding init_records_def case_prod_unfold by (intro goes_rules quiet_setters init_record_list_goes)


lemma AimDegree_goes:
  assumes "libm_ok m"
  shows "goes_on (APP_MONITOR_AimDegree_Get m)"
proof -
  have "\<exists>f. APP_MONITOR_AimDegree_Get m s = Inr ((), set_antenna f s)" for s by (rule AimDegree_runs [OF assms])
  then show ?thesis
    using alter_goes [OF quiet_setters(1)] unfolding goes_def alter_def by fastforce
qed

lemma bind_run: "m s = Inr (x, s1) \<Longrightarrow> bind_io m k s = k x s1"
  by (simp add: bind_io_def)

lemma init_map_memory:
  assumes "same_memory s s0" "fine s0"
  shows "\<exists>s1. init_map (set_unit (\<lambda>d. d\<lparr>SysDateTime := t\<rparr>) s0) = Inr ((), s1) \<and> same_memory s s1 \<and> fine s1"
proof -
  let ?s = "set_unit (\<lambda>d. d\<lparr>SysDateTime := t\<rparr>) s0"
  let ?e = "AllElecCoderMapAntenna (DeviceInfo (info ?s))"
  have b: "board_ok (chip ?s)" using assms(2) by (simp add: fine_def)
  obtain s1 e where s1: "on_eeprom (APP_PARAM_ElecCode_Map_AntennaDegree_Read ?e) ?s = Inr ((SUCC, e), s1)"
    "board_ok (chip s1)" "chip_only ?s s1" "region (chip s1) = region (chip ?s)"
    using read_param_on_board [OF b, of 28 32] unfolding APP_PARAM_ElecCode_Map_AntennaDegree_Read_def by fastforce
  have "init_map ?s = Inr ((), set_map (\<lambda>_. known_polar_type e) s1)"
    using s1(1) by (simp add: init_map_def look_def bind_io_def alter_def)
  moreover have "sats s1 = sats s0" using chip_only_sel(1) [OF s1(3)] by (simp add: getters)
  ultimately show ?thesis
    using s1(2,4) assms chip_only_sel(7,8) [OF s1(3)]
    by (simp add: same_memory_def fine_def set_map_def getters)
qed

text \<open>C10: The table of the satellites survives a restart. Let \<open>s\<close> have a consistent table and the selected satellite stored without
  a number, as the commands of the unit store it, and let \<open>s0\<close> be a unit that is switched on with the memory of \<open>s\<close>, its
  EEPROM working and the port of the receiver as its driver initialises it. Then \<open>APP_PARAM_Init\<close> returns, and list, counts and
  parameters of the satellites are those of \<open>s\<close>: the same numbers with the same parameters.\<close>

theorem restart_keeps_satellites:
  assumes "table_ok s" "same_memory s s0" "fine s0" "sat_id (stored_curr s) = 0" "libm_ok m" "length buff = 100"
  shows "\<exists>w1 s'. APP_PARAM_Init m stack buff cnt w s0 = Inr (w1, s') \<and> table_ok s' \<and> table_of s' = table_of s"
proof -
  obtain t w1 where w: "DATETIME_ReadFromRtcIC (SysDateTime (info s0)) w = (t, w1)" by fastforce
  obtain s1 where s1: "init_map (set_unit (\<lambda>d. d\<lparr>SysDateTime := t\<rparr>) s0) = Inr ((), s1)" "same_memory s s1" "fine s1"
    using init_map_memory [OF assms(2,3)] by blast
  obtain s2 where s2: "init_satellites stack s1 = Inr ((), s2)" "table_ok s2" "table_of s2 = table_of s" "fine s2"
  proof -
    obtain s2 where r: "init_satellites stack s1 = Inr ((), s2)" "table_ok s2" "table_of s2 = table_of s"
      using init_satellites_run [OF assms(1) s1(2) assms(4)] by blast
    have "same_receiver s1 s2" using obeysD [OF init_satellites_receiver r(1)] .
    then have "fine s2" using s1(3) r(2) by (simp add: fine_def same_receiver_def table_ok_def table_in_def)
    with r show thesis using that by blast
  qed
  let ?later = "bind_io init_antenna (\<lambda>_. bind_io (init_limits cnt) (\<lambda>_. bind_io init_position (\<lambda>_.
    bind_io (APP_MONITOR_AimDegree_Get m) (\<lambda>_. bind_io init_beacon (\<lambda>_. bind_io (init_records buff) (\<lambda>_. bind_io init_signal (\<lambda>_.
    bind_io (alter refresh_param) (\<lambda>_. bind_io init_mode (\<lambda>_. bind_io (alter init_version) (\<lambda>_. ret_io w1))))))))))"
  have init: "APP_PARAM_Init m stack buff cnt w s0 = ?later s2"
    by (simp only: APP_PARAM_Init_def w prod.case bind_alter bind_run [where m = init_map, OF s1(1)] bind_run [where m = "init_satellites stack", OF s2(1)])
  have "goes_on ?later"
    by (intro goes_rules init_antenna_goes init_limits_goes init_position_goes AimDegree_goes [OF assms(5)] init_beacon_goes
      init_records_goes [OF assms(6)] init_signal_goes init_mode_goes quiet_setters)
  then obtain x s' where 1: "?later s2 = Inr (x, s')" "same_sats s2 s'" using s2(4) unfolding goes_def by blast
  have "apart APP_EEPROM_AntennaRecord_TotalNum_ADDR 4 (sat_addr j) 27" "apart APP_EEPROM_AntennaRecord_TotalNum_ADDR 4 0xA00 2"
    "unat (sat_addr j) + 27 \<le> 65536" for j
    using u8_bound [of j] by (auto simp: apart_def unat_sat_addr)
  then have "region (chip s') (sat_addr j) 27 = region (chip s2) (sat_addr j) 27"
    "region (chip s') 0xA00 2 = region (chip s2) 0xA00 2" for j
    using 1(2) unfolding same_sats_def by (blast, simp)
  then have "table_ok s' \<and> table_of s' = table_of s2"
    using 1(2) s2(2)
    by (simp add: same_sats_def fine_def table_ok_def table_in_def table_of_def listed_def stored_sat_def fun_eq_iff)
  then show ?thesis using 1(1) init s2(3) by auto
qed

section \<open>The selected satellite\<close>

lemma first_listed_least:
  assumes "slots_ok xs" "i \<in> set xs" "i \<noteq> 0"
  shows "first_listed xs \<in> set xs" "first_listed xs \<noteq> 0" "unat (first_listed xs) \<le> unat i"
proof -
  obtain k where k: "k < 100" "xs ! k = i" using assms by (auto simp: in_set_conv_nth slots_ok_def)
  have len: "length xs = 100" using assms(1) by (simp add: slots_ok_def)
  have "i \<in> set (take (Suc k) xs)" using k len by (auto simp: in_set_conv_nth)
  then have "in_use (take (Suc k) xs) \<noteq> 0" using assms(3) by (auto simp: in_use_def filter_empty_conv)
  from first_in_take [OF this] have f: "first_listed xs \<in> set (take (Suc k) xs)" "first_listed xs \<noteq> 0" by blast+
  then show "first_listed xs \<in> set xs" "first_listed xs \<noteq> 0" by (auto dest: in_set_takeD)
  obtain j where "j \<le> k" "xs ! j = first_listed xs" using f(1) k len by (auto simp: in_set_conv_nth less_Suc_eq_le)
  then show "unat (first_listed xs) \<le> unat i"
    using slot_value [OF assms(1), of j] slot_value [OF assms(1), of k] k f(2) assms(3) by simp
qed

lemma two_in_use:
  assumes "slots_ok xs" "i \<in> set xs" "j \<in> set xs" "i \<noteq> 0" "j \<noteq> 0" "i \<noteq> j"
  shows "2 \<le> in_use xs"
proof -
  have "card {i, j} \<le> card (set (filter (\<lambda>i. i \<noteq> 0) xs))" using assms by (intro card_mono) auto
  also have "\<dots> \<le> in_use xs" unfolding in_use_def by (rule card_length)
  finally show ?thesis using assms(6) by simp
qed

text \<open>Storing the satellite that has been selected leaves the table alone.\<close>

lemma save_curr_sat:
  assumes "table_ok s" "length (sat_name x) = 16"
  shows "\<exists>s'. on_eeprom (APP_PARAM_CurrSatParam_Save x) s = Inr (SUCC, s') \<and> table_ok s' \<and> table_of s' = table_of s
    \<and> sats s' = sats s \<and> stored_curr s' = (kept x)\<lparr>sat_id := 0\<rparr>"
proof -
  let ?b = "sat_bytes 0 x"
  have n: "0 < length ?b" "length ?b \<le> 32" "unat (0xA20 :: u16) + length ?b \<le> 65536" "length ?b = 27"
    using length_sat_bytes [OF assms(2)] by simp_all
  have b: "board_ok (chip s)" using assms(1) by (simp add: table_ok_def table_in_def)
  obtain s' where s': "on_eeprom (save_param 0xA20 ?b) s = Inr (SUCC, s')" "board_ok (chip s')" "chip_only s s'"
    "region (chip s') 0xA20 27 = ?b"
    "\<And>b k. apart 0xA20 27 b k \<Longrightarrow> unat b + k \<le> 65536 \<Longrightarrow> region (chip s') b k = region (chip s) b k"
    using save_param_on_board [OF b n(1-3)] n(4) by auto
  have l: "sats s' = sats s" using chip_only_sel(1) [OF s'(3)] .
  have "apart 0xA20 27 (sat_addr j) 27" if "1 \<le> unat j" for j
    using that u8_bound [of j] by (auto simp: apart_def unat_sat_addr)
  then have r: "region (chip s') (sat_addr j) 27 = region (chip s) (sat_addr j) 27" if "1 \<le> unat j" for j
    using s'(5) sat_apart(4) that by simp
  have n0: "1 \<le> unat j" if "j \<noteq> 0" for j :: u8 using that by (simp add: Suc_le_eq unat_gt_0)
  have "region (chip s') 0xA00 2 = region (chip s) 0xA00 2" using s'(5) by (simp add: apart_def)
  then have "table_ok s'" "table_of s' = table_of s"
    using assms(1) l s'(2) r n0
    by (auto simp: table_ok_def table_in_def table_of_def listed_def stored_sat_def fun_eq_iff)
  moreover have "stored_curr s' = (kept x)\<lparr>sat_id := 0\<rparr>"
    using sat_at_bytes [of "x\<lparr>sat_id := 0\<rparr>"] assms(2) s'(4) by (simp add: stored_curr_def sat_bytes_def kept_def)
  ultimately show ?thesis using s'(1) l by (auto simp: APP_PARAM_CurrSatParam_Save_def)
qed

text \<open>C30: With two or more satellites in the table a restart gives the selected satellite the number of another one: it is
  stored without its number, and the start numbers it with the least number in the list while it keeps the parameters of the
  satellite that was selected.\<close>

theorem restart_misnumbers_selected:
  assumes "table_ok s" "{i, j} \<subseteq> dom (table_of s)" "i \<noteq> j" "length (sat_name x) = 16"
    and "on_eeprom (APP_PARAM_CurrSatParam_Save x) s = Inr (SUCC, s1)" "same_memory s1 s0"
  shows "\<exists>s' n. init_satellites stack s0 = Inr ((), s') \<and> curr_sat s' = (kept x)\<lparr>sat_id := n\<rparr>
    \<and> n \<in> dom (table_of s) \<and> unat n \<le> min (unat i) (unat j)"
proof -
  have s1: "table_ok s1" "sats s1 = sats s" "stored_curr s1 = (kept x)\<lparr>sat_id := 0\<rparr>"
    using save_curr_sat [OF assms(1,4)] assms(5) by auto
  let ?xs = "Sat_ID (sats s)"
  have ok: "slots_ok ?xs" using assms(1) by (simp add: table_ok_def table_in_def)
  have ij: "i \<noteq> 0" "j \<noteq> 0" "i \<in> set ?xs" "j \<in> set ?xs"
    using assms(2) by (auto simp: table_of_def listed_def split: if_splits)
  have "restored (stored_sat s1) ?xs (stored_curr s1) = (kept x)\<lparr>sat_id := first_listed ?xs\<rparr>"
    using two_in_use [OF ok ij(3,4,1,2) assms(3)] s1(3) by (simp add: restored_def)
  moreover obtain s' where "init_satellites stack s0 = Inr ((), s')"
    "curr_sat s' = restored (stored_sat s1) (Sat_ID (sats s1)) (stored_curr s1)"
    using init_satellites_run [OF s1(1) assms(6)] s1(3) by auto
  moreover have "first_listed ?xs \<in> dom (table_of s)"
    using first_listed_least(1,2) [OF ok ij(3,1)] by (auto simp: table_of_def listed_def)
  moreover have "unat (first_listed ?xs) \<le> min (unat i) (unat j)"
    using first_listed_least(3) [OF ok ij(3,1)] first_listed_least(3) [OF ok ij(4,2)] by simp
  ultimately show ?thesis unfolding s1(2) by (intro exI conjI) auto
qed

section \<open>Witnesses\<close>

text \<open>Two satellites are in the table of a new unit.\<close>

text \<open>A unit with the memory of \<open>s\<close> after power has returned.\<close>

definition powered :: "ctl \<Rightarrow> ctl" where
  "powered s = (blank [])\<lparr>coders := (coders (blank []))\<lparr>eep := chip s\<rparr>,
     rcv := (rcv (blank []))\<lparr>port6 := SWIFT_UART6_Init (port6 (rcv (blank [])))\<rparr>\<rparr>"

lemma powered_memory: "board_ok (chip s) \<Longrightarrow> same_memory s (powered s)" "board_ok (chip s) \<Longrightarrow> fine (powered s)"
  by (simp_all add: same_memory_def powered_def fine_def init_port_deaf sats_def zero_strACUDevInfo_def zero_strSATList_def
      info_def board_def chip_def test_beacon_def test_watch_def)

theorem restart_keeps_satellites_witness:
  "\<exists>s s0 w1 s'. dom (table_of s) = {1, 2} \<and> APP_PARAM_Init flat_libm zero_strSatParam (replicate 100 0) 0 new_clock s0 = Inr (w1, s')
    \<and> table_ok s' \<and> dom (table_of s') = {1, 2}"
proof -
  obtain s where s: "table_ok s" "dom (table_of s) = {1, 2}" using two_satellites by blast
  obtain s1 where s1: "table_ok s1" "table_of s1 = table_of s" "stored_curr s1 = (kept zero_strSatParam)\<lparr>sat_id := 0\<rparr>"
    using save_curr_sat [OF s(1), of zero_strSatParam] by (auto simp: zero_strSatParam_def)
  have b: "board_ok (chip s1)" using s1(1) by (simp add: table_ok_def table_in_def)
  show ?thesis
    using restart_keeps_satellites [OF s1(1) powered_memory [OF b], of flat_libm "replicate 100 0" zero_strSatParam 0 new_clock]
      s(2) s1(2,3) by (intro exI [of _ s1] exI [of _ "powered s1"]) (auto simp: flat_libm_ok)
qed

theorem restart_misnumbers_selected_witness:
  "\<exists>s s1 s'. on_eeprom (APP_PARAM_CurrSatParam_Save (zero_strSatParam\<lparr>sat_id := 2, sat_freq := 4000000\<rparr>)) s = Inr (SUCC, s1)
    \<and> init_satellites zero_strSatParam (powered s1) = Inr ((), s') \<and> sat_id (curr_sat s') = 1 \<and> sat_freq (curr_sat s') = 4000000"
proof -
  let ?x = "zero_strSatParam\<lparr>sat_id := 2, sat_freq := 4000000\<rparr>"
  obtain s where s: "table_ok s" "dom (table_of s) = {1, 2}" using two_satellites by blast
  have x: "length (sat_name ?x) = 16" by (simp add: zero_strSatParam_def)
  obtain s1 where s1: "on_eeprom (APP_PARAM_CurrSatParam_Save ?x) s = Inr (SUCC, s1)" "table_ok s1"
    using save_curr_sat [OF s(1) x] by blast
  have "same_memory s1 (powered s1)" using s1(2) by (simp add: table_ok_def table_in_def powered_memory)
  from restart_misnumbers_selected [OF s(1) _ _ x s1(1) this, of 1 2 zero_strSatParam] s(2)
  obtain s' n where s': "init_satellites zero_strSatParam (powered s1) = Inr ((), s')" "curr_sat s' = (kept ?x)\<lparr>sat_id := n\<rparr>"
    "n \<in> {1, 2}" "unat n \<le> 1" by auto
  then have "n = 1" by auto
  then show ?thesis using s1(1) s'(1,2) by (intro exI [of _ s] exI [of _ s1] exI [of _ s']) (simp add: kept_def)
qed

end
