(* ===== verification/Panel.thy ===== *)
theory Panel
  imports Query Rtc
begin

text \<open>
  The operating panel: the handlers of \<open>APP/src/app_oledcomm.c\<close> behind the table \<open>OLEDCOMMCmdDealTbl\<close>, but those of
  the administration (theory \<open>Admin\<close>). Most repeat a handler of the control PCs (theories \<open>Control\<close>, \<open>Setup\<close>,
  \<open>Query\<close>); where the statements are the same but for the code of the log entry or the place of a flag, the
  definition refers to the parts of the other one. The panel's send buffer has 64 bytes.
\<close>

section \<open>Position and time\<close>

text \<open>Other than for a PC, the copy of the position that was set by hand is not changed in the record, the PCs and
  the panel are told, and the log has the local structure \<open>stack\<close>.\<close>

definition APP_OLEDCOMM_LocalParamSet :: "libm \<Rightarrow> strHandLocalPositionParam \<Rightarrow> command" where
  "APP_OLEDCOMM_LocalParamSet m stack rxbuff s =
     (if cmd_of rxbuff \<noteq> LocalParamSetID \<or> rxbuff ! 2 \<noteq> 0x0E then Inr (FAIL, s)
      else
        let h = hand_of_cmd rxbuff stack; l = LocalPositionParam (ACUParam (info s)) in
        bind_io
          (if hp_lon_flag h \<noteq> lp_lon_flag l \<or> hp_lon h \<noteq> lp_lon l \<or> hp_lat_flag h \<noteq> lp_lat_flag l \<or> hp_lat h \<noteq> lp_lat l then
             bind_io (alter (set_local (\<lambda>l. l\<lparr>lp_lon_flag := hp_lon_flag h, lp_lon := hp_lon h, lp_lat_flag := hp_lat_flag h,
               lp_lat := hp_lat h, lp_data_src_flag := 0x01\<rparr>))) (\<lambda>_.
             bind_io (APP_MONITOR_AimDegree_Get m) (\<lambda>_.
             bind_io (on_eeprom (APP_PARAM_LocallHandParam_Save h)) (\<lambda>_. alter refresh_param)))
           else ret_io ()) (\<lambda>_.
        bind_io (alter (logged LOG_OPT_SET_LOCALL_PARAM (APP_LOG_LocallParam2Logbuff h))) (\<lambda>_. ret_io SUCC)) s)"

text \<open>The degrees of the receiver are divided by 100 here, or not at all.\<close>

definition fp_div100 :: "fp32 \<Rightarrow> fp32" where
  "fp_div100 x = f32 (x / 100)"

definition with_gps :: "(fp32 \<Rightarrow> fp32) \<Rightarrow> strGPSData \<Rightarrow> strLocalPositionParam \<Rightarrow> strLocalPositionParam" where
  "with_gps scale g l = l\<lparr>lp_lon_flag := gps_lon_flag g, lp_lon := scale (fp_of_u32 (gps_lon g)), lp_lat_flag := gps_lat_flag g,
     lp_lat := scale (fp_of_u32 (gps_lat g)), lp_height := gps_height g, lp_valid_flag := (if gps_valid g = 0x41 then 1 else 0)\<rparr>"

definition panel_source :: "u8 \<Rightarrow> ctl \<Rightarrow> ctl" where
  "panel_source src s0 =
     (let s = set_local (\<lambda>l. l\<lparr>lp_data_src_flag := src\<rparr>) s0;
          g = GPSData (GPSInfo (DeviceInfo (info s))); h = HandLocalPositionParam (DeviceInfo (info s))
      in set_local (if src = 0x02 then with_gps fp_div100 g else if src = 0x01 then from_hand h
           else if gps_valid g = 0x41 then with_gps (\<lambda>x. x) g
           else if hp_valid_flag h > 0 then from_hand h else with_gps fp_div100 g) s)"

definition APP_OLEDCOMM_LocalParamSrcSelSet :: "libm \<Rightarrow> command" where
  "APP_OLEDCOMM_LocalParamSrcSelSet m rxbuff =
     (if cmd_of rxbuff \<noteq> LocalParamSrcSelSetID \<or> rxbuff ! 2 \<noteq> 1 then ret_io FAIL
      else bind_io (alter (panel_source (rxbuff ! 3))) (\<lambda>_.
        bind_io (APP_MONITOR_AimDegree_Get m) (\<lambda>_.
        bind_io (\<lambda>s. on_eeprom (APP_PARAM_LocallParamSrc_Save (lp_data_src_flag (LocalPositionParam (ACUParam (info s))))) s)
          (\<lambda>_. ret_io SUCC))))"

text \<open>Without the source set to "by hand" the date is dropped, and the answer is a success; the clock chip is not set.\<close>

definition APP_OLEDCOMM_SysDateTimeSet :: "u32 \<Rightarrow> command" where
  "APP_OLEDCOMM_SysDateTimeSet now rx s =
     (if cmd_of rx \<noteq> SysDateTimeSetID \<or> rx ! 2 \<noteq> 7 then Inr (FAIL, s)
      else if gps_valid (GPSData (GPSInfo (DeviceInfo (info s)))) = 0x41 then Inr (SUCC, s)
      else Inr (SUCC, if sdt_src_flag (SysDateTime (info s)) = 0x01
        then set_unit (\<lambda>d. d\<lparr>SysDateTime := (SysDateTime d)\<lparr>sdt_year := un16 (rx ! 3) (rx ! 4), sdt_month := rx ! 5,
          sdt_day := rx ! 6, sdt_hour := rx ! 7, sdt_min := rx ! 8, sdt_senc := rx ! 9, sdt_ms := 0, sdt_systick := now\<rparr>\<rparr>) s
        else s))"

definition APP_OLEDCOMM_SysDateTimeSrcSelSet :: command where
  "APP_OLEDCOMM_SysDateTimeSrcSelSet rxbuff s0 =
     (if cmd_of rxbuff \<noteq> SysDateTimeSrcSelSetID \<or> rxbuff ! 2 \<noteq> 1 then Inr (FAIL, s0)
      else
        let s = set_unit (\<lambda>d. d\<lparr>SysDateTime := (SysDateTime d)\<lparr>sdt_src_flag := ucast (rxbuff ! 3)\<rparr>\<rparr>) s0;
            g = GPSData (GPSInfo (DeviceInfo (info s))); src = sdt_src_flag (SysDateTime (info s))
        in Inr (SUCC, if (src = 0x02 \<or> src = 0x00) \<and> gps_valid g = 0x41
                      then set_unit (\<lambda>d. d\<lparr>SysDateTime := (SysDateTime d)\<lparr>sdt_year := gps_year g, sdt_month := gps_month g,
                        sdt_day := gps_day g, sdt_hour := gps_hour g, sdt_min := gps_min g, sdt_senc := gps_sec g,
                        sdt_ms := gps_ms g\<rparr>\<rparr>) s
                      else s))"

section \<open>Mode of operation and driving by hand\<close>

abbreviation (input) LOG_OPT_HAND_AIM_STAR_BEGIN_BY_OLED :: u32 where "LOG_OPT_HAND_AIM_STAR_BEGIN_BY_OLED \<equiv> 0x020221"
abbreviation (input) LOG_OPT_HAND_AIM_STAR_END_BY_OLED :: u32 where "LOG_OPT_HAND_AIM_STAR_END_BY_OLED \<equiv> 0x020222"
abbreviation (input) LOG_OPT_AUTO_AIM_STAR_BEGIN_BY_OLED :: u32 where "LOG_OPT_AUTO_AIM_STAR_BEGIN_BY_OLED \<equiv> 0x020121"
abbreviation (input) LOG_OPT_AUTO_AIM_STAR_END_BY_OLED :: u32 where "LOG_OPT_AUTO_AIM_STAR_END_BY_OLED \<equiv> 0x020122"
abbreviation (input) LOG_OPT_FOLLOW_STAR_BEGIN_BY_OLED :: u32 where "LOG_OPT_FOLLOW_STAR_BEGIN_BY_OLED \<equiv> 0x020421"
abbreviation (input) LOG_OPT_FOLLOW_STAR_END_BY_OLED :: u32 where "LOG_OPT_FOLLOW_STAR_END_BY_OLED \<equiv> 0x020422"
abbreviation (input) LOG_OPT_ANTENNA_POSE_STOP_BY_OLED :: u32 where "LOG_OPT_ANTENNA_POSE_STOP_BY_OLED \<equiv> 0x020315"

definition APP_OLEDCOMM_AimAtSatModeSel :: command where
  "APP_OLEDCOMM_AimAtSatModeSel rxbuff =
     (let mode = rxbuff ! 3 in
      if cmd_of rxbuff \<noteq> AimAtSatModeSelID \<or> rxbuff ! 2 \<noteq> 1 then ret_io FAIL
      else bind_io
        (if mode = 0x01 then begin_mode (\<lambda>s. set_work 0x11 (logged LOG_OPT_HAND_AIM_STAR_BEGIN_BY_OLED [] s))
         else if mode = 0x02 then begin_mode (\<lambda>s. logged LOG_OPT_AUTO_AIM_STAR_BEGIN_BY_OLED []
           (TaskSatelliteTrackCreate (set_work 0x20 s)))
         else if mode = 0x03 then begin_mode (\<lambda>s. logged LOG_OPT_FOLLOW_STAR_BEGIN_BY_OLED []
           (TaskSatGradientTrackCreate (set_work 0x30 s)))
         else if mode = 0x00 then
           bind_io (alter (\<lambda>s. ended_mode 0x03 1 LOG_OPT_FOLLOW_STAR_END_BY_OLED
             (ended_mode 0x04 2 LOG_OPT_ANTENNA_POSE_STOP_BY_OLED
             (ended_mode 0x02 0 LOG_OPT_AUTO_AIM_STAR_END_BY_OLED
             (ended_mode 0x01 2 LOG_OPT_HAND_AIM_STAR_END_BY_OLED s))))) (\<lambda>_.
           bind_io stop_all (\<lambda>_. alter (set_work 0x00)))
         else ret_io ())
        (\<lambda>_. bind_io (alter (set_mode mode)) (\<lambda>_. ret_io SUCC)))"

definition APP_OLEDCOMM_AntennaSigleStepCtr :: command where
  "APP_OLEDCOMM_AntennaSigleStepCtr rxbuff s =
     (if seek_mode s \<noteq> 0x01 then Inr (FAIL, s)
      else if cmd_of rxbuff \<noteq> AntennaSigleStepCtrID \<or> rxbuff ! 2 \<noteq> 2 then Inr (FAIL, s)
      else case pc_dir (rxbuff ! 4) of None \<Rightarrow> Inr (FAIL, s)
      | Some dir \<Rightarrow>
          if is_part (rxbuff ! 3) then
            bind_io (alter (set_work 0x10)) (\<lambda>_.
            bind_io (on_drive (Motor_TimeConfigDrive (rxbuff ! 3) dir)) (\<lambda>sta.
            bind_io (alter (set_work 0x11)) (\<lambda>_. ret_io sta))) s
          else Inr (FAIL, s))"

text \<open>The polarisation is compared with its limits whatever the number of encoders. The command is not in the table of the panel.\<close>

definition panel_aims_allowed :: "strAntennaParam \<Rightarrow> bool" where
  "panel_aims_allowed a \<longleftrightarrow>
     \<not> (aim_position_hand a \<le> motor_position_start a \<or> aim_position_hand a \<ge> motor_position_end a)
     \<and> \<not> (aim_cabrage_hand a \<le> motor_cabrage_start a \<or> aim_cabrage_hand a \<ge> motor_cabrage_end a)
     \<and> \<not> (aim_polar_hand a \<le> motor_polar_start a \<or> aim_polar_hand a \<ge> motor_polar_end a)"

definition APP_OLEDCOMM_AntennaTurnCtr :: command where
  "APP_OLEDCOMM_AntennaTurnCtr rxbuff s =
     (if seek_mode s \<noteq> 0x01 then Inr (FAIL, s)
      else if cmd_of rxbuff \<noteq> AntennaDegreeCtrID then Inr (FAIL, s)
      else if rxbuff ! 2 = 0 then Inr (SUCC, delete_running 2 s)
      else if rxbuff ! 2 \<noteq> 12 then Inr (FAIL, s)
      else let s1 = hand_aims rxbuff s in
        if panel_aims_allowed (antenna s1) then Inr (SUCC, TaskAntennaRecordGotoCreate s1) else Inr (FAIL, s1))"

section \<open>Satellites and recorded positions\<close>

abbreviation (input) LOG_OPT_SEL_STAR_BY_OLED :: u32 where "LOG_OPT_SEL_STAR_BY_OLED \<equiv> 0x021314"
abbreviation (input) LOG_OPT_ANTENNA_POSE_RECORD_BY_OLED :: u32 where "LOG_OPT_ANTENNA_POSE_RECORD_BY_OLED \<equiv> 0x020311"
abbreviation (input) LOG_OPT_ANTENNA_POSE_DEL_BY_OLED :: u32 where "LOG_OPT_ANTENNA_POSE_DEL_BY_OLED \<equiv> 0x020313"
abbreviation (input) LOG_OPT_ANTENNA_POSE_APP_BY_OLED :: u32 where "LOG_OPT_ANTENNA_POSE_APP_BY_OLED \<equiv> 0x020314"

definition APP_OLEDCOMM_SelSat :: "libm \<Rightarrow> strSatParam \<Rightarrow> command" where
  "APP_OLEDCOMM_SelSat m stack rxbuff s0 =
     (let i = rxbuff ! 3 in
      if cmd_of rxbuff \<noteq> SatSelID \<or> rxbuff ! 2 \<noteq> 1 then Inr (FAIL, s0)
      else if i = 0 \<or> unat i > length (Sat_ID (sats s0)) then Inl OutOfBounds
      else if i \<noteq> Sat_ID (sats s0) ! (unat i - 1) then Inr (FAIL, s0)
      else bind_io (on_eeprom (APP_PARAM_SatCurrID_Save i)) (\<lambda>_.
        bind_io (on_eeprom (APP_PARAM_SatParam_Read (stack\<lparr>sat_id := i\<rparr>))) (\<lambda>(_, sat). (\<lambda>s.
        bind_io (on_rcv (APP_BEACON_SetFreq (beacon_freq (sat_freq sat) (antenna s)))) (\<lambda>r.
          if r = FAIL then ret_io FAIL
          else bind_io (alter (set_param (\<lambda>p. p\<lparr>CurrSatParam := sat\<rparr>))) (\<lambda>_.
            bind_io (APP_MONITOR_AimDegree_Get m) (\<lambda>_.
            bind_io (\<lambda>s1. on_eeprom (APP_PARAM_HistoryMaxMv_Save 0 (at_null s1)) s1) (\<lambda>_.
            bind_io (on_eeprom (APP_PARAM_CurrSatParam_Save sat)) (\<lambda>_.
            bind_io (alter (\<lambda>s1. logged LOG_OPT_SEL_STAR_BY_OLED (APP_LOG_SatParam2Logbuff (CurrSatParam (ACUParam (info s1))))
              (refresh_param s1))) (\<lambda>_. ret_io SUCC)))))) s))) s0)"

text \<open>The date is read from the clock chip, \<open>w\<close>, before it is recorded.\<close>

definition APP_OLEDCOMM_AntennaRecord :: "rtcw \<Rightarrow> bytes \<Rightarrow> (status \<times> rtcw) ctio" where
  "APP_OLEDCOMM_AntennaRecord w rxbuff s0 =
     (if cmd_of rxbuff \<noteq> AntennaRecordID \<or> rxbuff ! 2 \<noteq> 0 then Inr ((FAIL, w), s0)
      else if record_Total_num (records s0) \<ge> of_nat ANTENNA_RECORD_MAX_NUM then Inr ((FAIL, w), s0)
      else case DATETIME_ReadFromRtcIC (SysDateTime (info s0)) w of (t, w1) \<Rightarrow>
        let s = set_unit (\<lambda>d. d\<lparr>SysDateTime := t\<rparr>) s0;
            i = (case index_of 0 (record_ID (records s)) of None \<Rightarrow> 0 | Some k \<Rightarrow> of_nat (k + 1));
            b = copy_over (replicate 80 0) (record_of i (info s))
        in bind_io (on_eeprom (APP_PARAM_AntennaRecord_Save i b 66)) (\<lambda>r.
          if r = FAIL then ret_io (FAIL, w1)
          else bind_io (put_record i) (\<lambda>_.
            bind_io (count_record (record_Total_num (records s) + 1)) (\<lambda>_.
            bind_io (alter (\<lambda>s1. let d = info s1; c = ACUCurrSta d in
              logged LOG_OPT_ANTENNA_POSE_RECORD_BY_OLED (pose_log (CurrSatParam (ACUParam d)) (AntennaParam (ACUParam d))
                (antenna_position c) (antenna_cabrage c) (antenna_polar c)) s1)) (\<lambda>_. ret_io (SUCC, w1))))) s)"

definition panel_goto_record :: "bytes \<Rightarrow> status ctio" where
  "panel_goto_record b s0 =
     (if \<not> same_antenna b (antenna s0) then Inr (FAIL, s0)
      else bind_io (alter (set_param (\<lambda>p. p\<lparr>CurrSatParam := sat_of_record b\<rparr>))) (\<lambda>_.
        bind_io (on_rcv (APP_BEACON_SetFreq (beacon_freq (int32_at b 29) (antenna s0)))) (\<lambda>r.
          if r = FAIL then ret_io FAIL
          else
            let mv = fp_of_u32 (int32_at b 46) in
            bind_io (alter (set_sta (\<lambda>c. c\<lparr>history_max_mv := mv, AGC_max_mv := mv\<rparr>))) (\<lambda>_.
            bind_io (\<lambda>s. on_eeprom (APP_PARAM_HistoryMaxMv_Save (at_history s) mv) s) (\<lambda>_.
            bind_io (alter (\<lambda>s. set_mode 0x04 (set_antenna (aims_of_record b) s))) (\<lambda>_.
            bind_io (alter (\<lambda>s. let p = ACUParam (info s); a = AntennaParam p in
              logged LOG_OPT_ANTENNA_POSE_APP_BY_OLED
                (pose_log (CurrSatParam p) a (aim_position a) (aim_cabrage a) (aim_polar a)) s)) (\<lambda>_.
            bind_io (\<lambda>s. on_eeprom (APP_PARAM_CurrSatParam_Save (CurrSatParam (ACUParam (info s)))) s) (\<lambda>_.
            bind_io (alter (\<lambda>s. TaskAntennaRecordGotoCreate (set_work 0x40 (refresh_param s)))) (\<lambda>_.
              ret_io SUCC)))))))) s0)"

definition APP_OLEDCOMM_AntennaRecordGoto :: command where
  "APP_OLEDCOMM_AntennaRecordGoto rxbuff =
     bind_io leave_mode (\<lambda>_ s.
       let i = rxbuff ! 3 in
       if cmd_of rxbuff \<noteq> AntennaRecordGotoID then Inr (FAIL, s)
       else if i > of_nat ANTENNA_RECORD_MAX_NUM \<or> i = 0 then Inr (FAIL, s)
       else if i \<notin> set (record_ID (records s)) then Inr (FAIL, s)
       else bind_io (on_eeprom (APP_PARAM_AntennaRecord_Read i (replicate 100 0))) (\<lambda>(r, b).
         if r = FAIL then ret_io FAIL
         else if i \<noteq> b ! 0 then ret_io FAIL
         else panel_goto_record b) s)"

definition panel_delete_record :: "u8 \<Rightarrow> unit ctio" where
  "panel_delete_record i s =
     (case index_of i (record_ID (records s)) of None \<Rightarrow> Inr ((), s)
      | Some k \<Rightarrow>
          bind_io (alter (set_records (\<lambda>l. l\<lparr>record_ID := (record_ID l)[k := 0],
            record_Total_num := (if record_Total_num l > 0 then record_Total_num l - 1 else record_Total_num l)\<rparr>))) (\<lambda>_.
          bind_io (on_eeprom (APP_PARAM_AntennaRecord_Read2Struct i (zero_strSatParam, zero_strAntennaParam, 0, 0, 0)))
            (\<lambda>(_, sat, a, AZ, EL, PL).
          bind_io (alter (logged LOG_OPT_ANTENNA_POSE_DEL_BY_OLED (pose_log sat a AZ EL PL))) (\<lambda>_.
          bind_io (on_eeprom (APP_PARAM_AntennaRecord_Save i (replicate 64 0) 64)) (\<lambda>_. ret_io ())))) s)"

fun panel_delete_records :: "bytes \<Rightarrow> unit ctio" where
  "panel_delete_records [] = ret_io ()"
| "panel_delete_records (i # is) = bind_io (panel_delete_record i) (\<lambda>_. panel_delete_records is)"

definition APP_OLEDCOMM_DelAntennaRecord :: command where
  "APP_OLEDCOMM_DelAntennaRecord rxbuff s =
     (if cmd_of rxbuff \<noteq> AntennaRecordDelID then Inr (FAIL, s)
      else if 3 + unat (rxbuff ! 2) > length rxbuff then Inl OutOfBounds
      else bind_io (panel_delete_records (take (unat (rxbuff ! 2)) (drop 3 rxbuff))) (\<lambda>_. ret_io SUCC) s)"

definition APP_OLEDCOMM_AGCRecord :: command where
  "APP_OLEDCOMM_AGCRecord rxbuff s =
     (if cmd_of rxbuff \<noteq> AGCRecordID \<or> rxbuff ! 2 \<noteq> 0 then Inr (FAIL, s)
      else on_eeprom (APP_PARAM_HistoryMaxMv_Save (at_rxpower s) (beacon_rxpower_mv (ACUCurrSta (info s)))) s)"

section \<open>Network\<close>

text \<open>Neither the length of the command nor the network of the gateway is looked at.\<close>

definition APP_OLEDCOMM_NetWorkSet :: "bytes \<Rightarrow> (status \<times> (u32 \<times> u32 \<times> u32) option) ctio" where
  "APP_OLEDCOMM_NetWorkSet rxbuff s =
     (let ip = le32_at rxbuff 3; mask = le32_at rxbuff 7; gate = le32_at rxbuff 11 in
      if cmd_of rxbuff \<noteq> NetWorkSetID then Inr ((FAIL, None), s)
      else if mask AND 0xFF000000 = 0xFF000000 then Inr ((FAIL, None), s)
      else if ip \<noteq> nw_ip_addr (network s) \<or> mask \<noteq> nw_mask (network s) \<or> gate \<noteq> nw_gate (network s) then
        bind_io (alter (\<lambda>s. change_net gate nw_gate (\<lambda>n. n\<lparr>nw_gate := gate\<rparr>) 0x021613 (take 4 (drop 11 rxbuff))
          (change_net mask nw_mask (\<lambda>n. n\<lparr>nw_mask := mask\<rparr>) 0x021612 (take 4 (drop 7 rxbuff))
          (change_net ip nw_ip_addr (\<lambda>n. n\<lparr>nw_ip_addr := ip\<rparr>) 0x021611 (take 4 (drop 3 rxbuff)) s)))) (\<lambda>_.
        bind_io (\<lambda>s. on_eeprom (APP_PARAM_NetWork_Save (network s)) s) (\<lambda>_. (\<lambda>s.
          Inr ((SUCC, Some (nw_ip_addr (network s), nw_mask (network s), nw_gate (network s))), s)))) s
      else Inr ((SUCC, None), s))"

section \<open>Queries\<close>

definition APP_OLEDCOMM_CurrSatParamQue :: inquiry where
  "APP_OLEDCOMM_CurrSatParamQue = asked_for CurrSatParamQueID (\<lambda>d. sat_data (CurrSatParam (ACUParam d)))"

definition APP_OLEDCOMM_AntennaParamQue :: inquiry where
  "APP_OLEDCOMM_AntennaParamQue = asked_for AntennaParamQueID (\<lambda>d. antenna_data (AntennaParam (ACUParam d)))"

definition APP_OLEDCOMM_AntennaAdjustParamQue :: inquiry where
  "APP_OLEDCOMM_AntennaAdjustParamQue rxbuff = ret_io (if cmd_of rxbuff \<noteq> AntennaAdjustParamQueID then FAIL else SUCC)"

definition APP_OLEDCOMM_LocalParamQue :: inquiry where
  "APP_OLEDCOMM_LocalParamQue = asked_for LocalParamQueID (\<lambda>d. local_data (LocalPositionParam (ACUParam d)))"

definition APP_OLEDCOMM_DevSysDateTimeQue :: inquiry where
  "APP_OLEDCOMM_DevSysDateTimeQue = asked_for DevSysDateTimeQueID (\<lambda>d. date_data (SysDateTime d))"

definition APP_OLEDCOMM_NetWorkQue :: inquiry where
  "APP_OLEDCOMM_NetWorkQue = asked_for NetWorkQueID (\<lambda>d. net_data (NetWork (DeviceInfo d)))"

definition APP_OLEDCOMM_AimAtSatDegreeQue :: inquiry where
  "APP_OLEDCOMM_AimAtSatDegreeQue = asked_for AimAtSatTheoreticalDegreeQueID (\<lambda>d. aim_data (AntennaParam (ACUParam d)))"

definition APP_OLEDCOMM_MotorSoftLimitQue :: inquiry where
  "APP_OLEDCOMM_MotorSoftLimitQue = asked_for MotorSoftLimitQueID (\<lambda>d. limit_data (AntennaParam (ACUParam d)))"

text \<open>The panel's flag is shown and not cleared.\<close>

definition panel_state_data :: "strACUDevInfo \<Rightarrow> bytes" where
  "panel_state_data d = (let c = ACUCurrSta d in
     motion_data c @ [dev_alarm_reflash_flag c ! 1, SeekSat_Mode (SeekSatParam (ACUParam d))])"

definition APP_OLEDCOMM_DevStaQue :: inquiry where
  "APP_OLEDCOMM_DevStaQue = asked_for DevStaQueID panel_state_data"

definition APP_OLEDCOMM_DevAdminQue :: inquiry where
  "APP_OLEDCOMM_DevAdminQue = asked_for DevAdminQueID (\<lambda>d. [dev_admin_sta (ACUCurrSta d)])"

definition APP_OLEDCOMM_DevAlarmQue :: inquiry where
  "APP_OLEDCOMM_DevAlarmQue rxbuff = bind_io (asked_for CurrWarnStaQueID alarm_data rxbuff) (and_then (alarms_seen 1))"

definition APP_OLEDCOMM_VersionQue :: inquiry where
  "APP_OLEDCOMM_VersionQue = version_query"

text \<open>The queries of the logs are empty, and not in the table.\<close>

definition APP_OLEDCOMM_OptLogQue :: inquiry where
  "APP_OLEDCOMM_OptLogQue rxbuff = ret_io (if cmd_of rxbuff \<noteq> 0x0902 then FAIL else SUCC)"

definition APP_OLEDCOMM_WarnLogQue :: inquiry where
  "APP_OLEDCOMM_WarnLogQue rxbuff = ret_io (if cmd_of rxbuff \<noteq> 0x0901 then FAIL else SUCC)"

text \<open>The lists go out frame by frame, each from the start of the buffer.\<close>

fun panel_list_sats :: "bytes \<Rightarrow> u8 \<Rightarrow> strSatParam \<Rightarrow> unit dio" where
  "panel_list_sats [] shown x = ret_io ()"
| "panel_list_sats (i # is) shown x =
     (if i = 0 then panel_list_sats is shown (x\<lparr>sat_id := i\<rparr>)
      else bind_io (on_unit (on_eeprom (APP_PARAM_SatParam_Read (x\<lparr>sat_id := i\<rparr>)))) (\<lambda>(r, x1).
        if r = FAIL then panel_list_sats is shown x1
        else bind_io (put_frame 0 (list_frame x1)) (\<lambda>_.
          bind_io (SWIFT_UART3_Send 34) (\<lambda>_ s.
            if ucast (shown + 1) \<ge> Sat_Total_num (sats (unit_of s)) then Inr ((), s)
            else panel_list_sats is (shown + 1) x1 s))))"

definition APP_OLEDCOMM_SaveAllSatParamQue :: "strSatParam \<Rightarrow> inquiry" where
  "APP_OLEDCOMM_SaveAllSatParamQue stack rxbuff s =
     (if cmd_of rxbuff \<noteq> AllSaveSatParamQueID then Inr (FAIL, s)
      else bind_io (panel_list_sats (Sat_ID (sats (unit_of s))) 0 stack) (\<lambda>_.
        end_of_list AllSaveSatParamQueID (replicate 27 0xFF)) s)"

fun panel_list_records :: "bytes \<Rightarrow> bytes \<Rightarrow> status dio" where
  "panel_list_records [] b = ret_io SUCC"
| "panel_list_records (i # is) b =
     (if \<not> valid_record i then panel_list_records is b
      else bind_io (on_unit (on_eeprom (APP_PARAM_AntennaRecord_Read i b))) (\<lambda>(r, b1).
        if r = FAIL then ret_io FAIL
        else bind_io (put_frame 0 (record_frame b1)) (\<lambda>_.
          bind_io (SWIFT_UART3_Send 45) (\<lambda>_. panel_list_records is b1))))"

definition APP_OLEDCOMM_AntennaRecordQue :: "bytes \<Rightarrow> inquiry" where
  "APP_OLEDCOMM_AntennaRecordQue readbuff rxbuff s =
     (if cmd_of rxbuff \<noteq> AntennaRecordQueID then Inr (FAIL, s)
      else bind_io (panel_list_records (record_ID (records (unit_of s))) readbuff) (\<lambda>r.
        if r = FAIL then ret_io FAIL else end_of_list AntennaRecordQueID (replicate 34 0xFF)) s)"

text \<open>\<open>AskForPCAdmin\<close> builds a frame in a local array and sends as many bytes of the send buffer.\<close>

definition APP_OLEDCOMM_AskForPCAdmin :: "unit dio" where
  "APP_OLEDCOMM_AskForPCAdmin s =
     bind_f (sealed [0xBC, 0x03, 0x02, 0x1A, 0x00]) (\<lambda>txbuff. SWIFT_UART3_Send (length txbuff) s)"

section \<open>Table\<close>

text \<open>The commands of \<open>OLEDCOMMCmdDealTbl\<close> in the order of the table, but those that set the date, record a position, set
  the network or the administration, which work on more than the unit; and the queries. The parameters are local variables of
  the handlers and the mathematical library.\<close>

definition panel_commands :: "libm \<Rightarrow> strHandLocalPositionParam \<Rightarrow> strSatParam \<Rightarrow> (u16 \<times> command) list" where
  "panel_commands m hand sat =
     [(LocalParamSetID, APP_OLEDCOMM_LocalParamSet m hand), (LocalParamSrcSelSetID, APP_OLEDCOMM_LocalParamSrcSelSet m),
      (SysDateTimeSrcSelSetID, APP_OLEDCOMM_SysDateTimeSrcSelSet), (AimAtSatModeSelID, APP_OLEDCOMM_AimAtSatModeSel),
      (AntennaSigleStepCtrID, APP_OLEDCOMM_AntennaSigleStepCtr), (AntennaRecordGotoID, APP_OLEDCOMM_AntennaRecordGoto),
      (AntennaRecordDelID, APP_OLEDCOMM_DelAntennaRecord), (AGCRecordID, APP_OLEDCOMM_AGCRecord), (SatSelID, APP_OLEDCOMM_SelSat m sat)]"

definition panel_queries :: "strSatParam \<Rightarrow> bytes \<Rightarrow> (u16 \<times> inquiry) list" where
  "panel_queries stack readbuff =
     [(CurrSatParamQueID, APP_OLEDCOMM_CurrSatParamQue), (AllSaveSatParamQueID, APP_OLEDCOMM_SaveAllSatParamQue stack),
      (AntennaParamQueID, APP_OLEDCOMM_AntennaParamQue), (AntennaAdjustParamQueID, APP_OLEDCOMM_AntennaAdjustParamQue),
      (LocalParamQueID, APP_OLEDCOMM_LocalParamQue), (DevSysDateTimeQueID, APP_OLEDCOMM_DevSysDateTimeQue),
      (NetWorkQueID, APP_OLEDCOMM_NetWorkQue), (AimAtSatTheoreticalDegreeQueID, APP_OLEDCOMM_AimAtSatDegreeQue),
      (AntennaRecordQueID, APP_OLEDCOMM_AntennaRecordQue readbuff), (MotorSoftLimitQueID, APP_OLEDCOMM_MotorSoftLimitQue),
      (DevStaQueID, APP_OLEDCOMM_DevStaQue), (DevAdminQueID, APP_OLEDCOMM_DevAdminQue),
      (CurrWarnStaQueID, APP_OLEDCOMM_DevAlarmQue), (VersionQueID, APP_OLEDCOMM_VersionQue)]"

end
