(* ===== verification/PanelProps.thy ===== *)
theory PanelProps
  imports QueryProps Panel
begin

text \<open>
  Queries do not disturb the unit; how the panel (theory \<open>Panel\<close>) differs from a control PC, and where it does not.
\<close>

section \<open>Queries disturb nothing\<close>

text \<open>Of the device record a query may change the state of the EEPROM, the version of the drive unit, and the flags that say what
  has been seen; it sends the drive unit nothing but the question for its version; and it starts or ends no task.\<close>

definition settled :: "strACUDevInfo \<Rightarrow> strACUDevInfo" where
  "settled d = d\<lparr>DeviceInfo := (DeviceInfo d)\<lparr>EEPROMInfo := zero_strEEPROMInfo\<rparr>, Version := [],
     ACUCurrSta := (ACUCurrSta d)\<lparr>dev_alarm_reflash_flag := [], dev_param_reflash_flag := []\<rparr>\<rparr>"

definition version_question :: bytes where
  "version_question = [0xBC, 0x03, 0x0C, 0x0A, 0x00, 0xD5, 0xCB]"

definition undisturbed :: "ctl \<Rightarrow> ctl \<Rightarrow> bool" where
  "undisturbed u u' \<longleftrightarrow> settled (info u') = settled (info u) \<and> journal u' = journal u \<and> started u' = started u
     \<and> Task_Run_Flag (watch (rcv u')) = Task_Run_Flag (watch (rcv u))
     \<and> (\<exists>n. sent (core (watch (rcv u'))) = sent (core (watch (rcv u))) @ replicate n version_question)"

definition desk_undisturbed :: "desk \<Rightarrow> desk \<Rightarrow> bool" where
  "desk_undisturbed s s' \<longleftrightarrow> undisturbed (unit_of s) (unit_of s')"

interpretation calm: frame undisturbed
proof
  fix s t u
  show "undisturbed s s" by (simp add: undisturbed_def exI [of _ 0])
  assume "undisturbed s t" "undisturbed t u"
  then obtain m n where "sent (core (watch (rcv u))) = sent (core (watch (rcv s))) @ replicate m version_question @ replicate n version_question"
    "settled (info u) = settled (info s)" "journal u = journal s" "started u = started s"
    "Task_Run_Flag (watch (rcv u)) = Task_Run_Flag (watch (rcv s))"
    by (auto simp: undisturbed_def)
  then show "undisturbed s u" by (auto simp: undisturbed_def replicate_add [symmetric])
qed

interpretation desk: frame desk_undisturbed
  by unfold_locales (auto simp: desk_undisturbed_def intro: calm.stay calm.step)

lemma eeprom_undisturbed: "obeys within_eeprom m \<Longrightarrow> obeys undisturbed (on_eeprom m)"
proof (rule obeysI)
  fix s x s'
  assume "obeys within_eeprom m" "on_eeprom m s = Inr (x, s')"
  then have c: "chip_only s s'" by (rule on_eeprom_chip_only)
  then obtain e where "info s' = (info s)\<lparr>DeviceInfo := (DeviceInfo (info s))\<lparr>EEPROMInfo := e\<rparr>\<rparr>"
    by (auto simp: chip_only_def but_eeprom_def)
  then show "undisturbed s s'" using chip_only_sel [OF c] by (auto simp: undisturbed_def settled_def intro: exI [of _ 0])
qed

lemma alter_undisturbed:
  "obeys undisturbed (alter (alarms_seen k))" "obeys undisturbed (alter (\<lambda>s. params_seen (alarms_seen k s)))"
  "obeys undisturbed (alter blank_drive_version)"
  by (auto simp: obeys_def alter_def undisturbed_def settled_def alarms_seen_def params_seen_def blank_drive_version_def
      set_sta_def set_unit_def info_def board_def intro: exI [of _ 0])

lemma version_sent:
  assumes "APP_PDUCOMM_VersionQue p = Inr (x, p')"
  shows "settled (dev p') = settled (dev p)" "\<exists>n. sent p' = sent p @ replicate n version_question"
  using assms
  by (auto simp: APP_PDUCOMM_VersionQue_def bind_io_Inr sem_pend_def sem_post_def send_command_def await_reply_def take_reply_def
      modify_def set_pdu_version_def settled_def version_question_def intro!: exI [of _ 1] split: if_splits list.splits option.splits)

lemma drive_undisturbed: "obeys undisturbed (on_drive APP_PDUCOMM_VersionQue)"
  by (rule obeysI) (auto simp: on_drive_def on_rcv_def on_link_def bind_f_Inr undisturbed_def info_def board_def dest: version_sent)

lemma on_unit_undisturbed: "obeys undisturbed m \<Longrightarrow> obeys desk_undisturbed (on_unit m)"
  by (auto simp: obeys_def on_unit_def desk_undisturbed_def bind_f_Inr)

lemma tx_undisturbed:
  "obeys desk_undisturbed (put_tx i d)" "obeys desk_undisturbed (APP_UDP_Send n)" "obeys desk_undisturbed (SWIFT_UART3_Send n)"
  "obeys desk_undisturbed (act (\<lambda>s. s\<lparr>tx_count := c\<rparr>))" "obeys desk_undisturbed (\<lambda>s. put_tx i (f s) s)"
  "obeys desk_undisturbed (put_frame i b)"
  by (auto simp: obeys_def put_tx_def APP_UDP_Send_def SWIFT_UART3_Send_def act_def put_frame_def desk_undisturbed_def
      calm.stay split: if_splits)

lemma Record_Read_within: "obeys within_eeprom (APP_PARAM_AntennaRecord_Read i b)"
  unfolding APP_PARAM_AntennaRecord_Read_def case_prod_unfold
  by (intro wee.cond wee.seq wee.ret read_within save_param_within read_param_within)

lemma SatParam_Read_within: "obeys within_eeprom (APP_PARAM_SatParam_Read x)"
  unfolding APP_PARAM_SatParam_Read_def case_prod_unfold
  by (intro wee.cond wee.seq wee.ret read_within save_param_within read_param_within)

lemmas desk_rules = desk.seq desk.ret desk.cond tx_undisturbed on_unit_undisturbed eeprom_undisturbed alter_undisturbed
  drive_undisturbed Record_Read_within SatParam_Read_within

lemma at_undisturbed: "(\<And>t. obeys desk_undisturbed (f t)) \<Longrightarrow> obeys desk_undisturbed (\<lambda>s. f s s)"
  by (simp add: obeys_def)

lemma answer_undisturbed: "obeys desk_undisturbed (answer c d)"
  unfolding answer_def by (intro desk_rules)

lemma asked_undisturbed: "obeys desk_undisturbed (asked_for c f rx)"
  unfolding asked_for_def [abs_def] using answer_undisturbed desk.stay by (auto simp: obeys_def)

lemma end_undisturbed: "obeys desk_undisturbed (end_of_list c d)"
  unfolding end_of_list_def by (intro desk_rules)

lemma version_undisturbed: "obeys desk_undisturbed (version_query rx)"
  unfolding version_query_def by (intro desk_rules asked_undisturbed)

lemma and_then_undisturbed: "obeys undisturbed (alter f) \<Longrightarrow> obeys desk_undisturbed (and_then f r)"
  unfolding and_then_def by (intro desk_rules)

lemma list_sats_undisturbed: "obeys desk_undisturbed (list_sats is shown num index x)"
proof (induction "is" arbitrary: shown num index x)
  case (Cons i "is")
  have "obeys desk_undisturbed (\<lambda>s. if c s then Inr (r, s) else list_sats is p q k y s)" for c r p q k y
    using Cons desk.stay by (auto simp: obeys_def)
  then show ?case unfolding list_sats.simps case_prod_unfold Let_def
    by (intro desk_rules Cons)
qed (auto intro: desk_rules)

lemma panel_list_sats_undisturbed: "obeys desk_undisturbed (panel_list_sats is shown x)"
proof (induction "is" arbitrary: shown x)
  case (Cons i "is")
  have "obeys desk_undisturbed (\<lambda>s. if c s then Inr (r, s) else panel_list_sats is p y s)" for c r p y
    using Cons desk.stay by (auto simp: obeys_def)
  then show ?case unfolding panel_list_sats.simps case_prod_unfold
    by (intro desk_rules Cons)
qed (auto intro: desk_rules)

lemma list_records_undisturbed: "obeys desk_undisturbed (list_records is index b)"
  "obeys desk_undisturbed (panel_list_records is b)"
  by (induction "is" arbitrary: index b) (auto simp: case_prod_unfold intro!: desk_rules)

lemma None_undisturbed: "obeys desk_undisturbed m \<Longrightarrow> (\<And>x. obeys desk_undisturbed (f x))
    \<Longrightarrow> obeys desk_undisturbed (case r of None \<Rightarrow> m | Some x \<Rightarrow> f x)"
  by (cases r) simp_all

lemma lists_undisturbed:
  "obeys desk_undisturbed (APP_PCCOMM_SaveAllSatParamQue stack rx)" "obeys desk_undisturbed (APP_PCCOMM_AntennaRecordQue b rx)"
  "obeys desk_undisturbed (APP_OLEDCOMM_SaveAllSatParamQue stack rx)" "obeys desk_undisturbed (APP_OLEDCOMM_AntennaRecordQue b rx)"
proof -
  have g: "obeys desk_undisturbed (\<lambda>s. if c then Inr (FAIL, s) else f s s)" if "\<And>t. obeys desk_undisturbed (f t)" for c f
    using that desk.stay by (auto simp: obeys_def)
  show "obeys desk_undisturbed (APP_PCCOMM_SaveAllSatParamQue stack rx)"
    unfolding APP_PCCOMM_SaveAllSatParamQue_def [abs_def] case_prod_unfold
    by (intro g desk_rules list_sats_undisturbed end_undisturbed)
  show "obeys desk_undisturbed (APP_PCCOMM_AntennaRecordQue b rx)"
    unfolding APP_PCCOMM_AntennaRecordQue_def [abs_def]
    by (intro g desk_rules list_records_undisturbed end_undisturbed None_undisturbed)
  show "obeys desk_undisturbed (APP_OLEDCOMM_SaveAllSatParamQue stack rx)"
    unfolding APP_OLEDCOMM_SaveAllSatParamQue_def [abs_def]
    by (intro g desk_rules panel_list_sats_undisturbed end_undisturbed)
  show "obeys desk_undisturbed (APP_OLEDCOMM_AntennaRecordQue b rx)"
    unfolding APP_OLEDCOMM_AntennaRecordQue_def [abs_def]
    by (intro g desk_rules list_records_undisturbed end_undisturbed)
qed

lemma seen_undisturbed:
  "obeys desk_undisturbed (APP_PCCOMM_DevStaQue rx)" "obeys desk_undisturbed (APP_PCCOMM_DevAlarmQue rx)"
  "obeys desk_undisturbed (APP_OLEDCOMM_DevAlarmQue rx)"
  unfolding APP_PCCOMM_DevStaQue_def APP_PCCOMM_DevAlarmQue_def APP_OLEDCOMM_DevAlarmQue_def
  by (intro desk.seq asked_undisturbed and_then_undisturbed alter_undisturbed)+

text \<open>C19: no query of a PC but the two of the logs, and no query of the panel, disturbs the unit, whatever bytes it has: when it
  returns, parameters, tables, mode, angles and alarms are what they were, no task has been started or ended, no operation has
  been logged, and the drive unit has been asked for its version at most. The queries of the logs are those of
  \<open>log_query_newest_first\<close>; for the version query of the panel see \<open>panel_version_query_overruns\<close>.\<close>

theorem queries_disturb_nothing:
  assumes "(c, h) \<in> set (pc_queries stack buff @ panel_queries stack buff)" "h rx s = Inr (r, s')"
  shows "undisturbed (unit_of s) (unit_of s')"
proof -
  have "obeys desk_undisturbed (h rx)"
    using assms(1)
    by (auto simp: pc_queries_def panel_queries_def lists_undisturbed asked_undisturbed version_undisturbed
      APP_PCCOMM_CurrSatParamQue_def APP_PCCOMM_AntennaParamQue_def APP_PCCOMM_AntennaAdjustParamQue_def APP_PCCOMM_LocalParamQue_def
      APP_PCCOMM_DevSysDateTimeQue_def APP_PCCOMM_NetWorkQue_def APP_PCCOMM_AimAtSatDegreeQue_def APP_PCCOMM_MotorSoftLimitQue_def
      APP_PCCOMM_AimAtSatParamQue_def APP_PCCOMM_DevAdminQue_def
      APP_PCCOMM_VersionQue_def APP_OLEDCOMM_CurrSatParamQue_def APP_OLEDCOMM_AntennaParamQue_def
      APP_OLEDCOMM_AntennaAdjustParamQue_def APP_OLEDCOMM_LocalParamQue_def APP_OLEDCOMM_DevSysDateTimeQue_def
      APP_OLEDCOMM_NetWorkQue_def APP_OLEDCOMM_AimAtSatDegreeQue_def APP_OLEDCOMM_MotorSoftLimitQue_def APP_OLEDCOMM_DevStaQue_def
      APP_OLEDCOMM_DevAdminQue_def APP_OLEDCOMM_VersionQue_def intro: seen_undisturbed desk.ret)
  from obeysD [OF this assms(2)] show ?thesis by (simp add: desk_undisturbed_def)
qed

section \<open>The panel's answer with the versions\<close>

text \<open>The texts of the versions have 16 bytes.\<close>

definition version_texts :: "strACUDevInfo \<Rightarrow> bool" where
  "version_texts d \<longleftrightarrow> length (Version d) = 2 \<and> (\<forall>v \<in> set (Version d). length (ver_softver v) = 16 \<and> length (ver_hardver v) = 16)"

lemma version_texts_update:
  assumes "version_texts d" "length (ver_softver v) = 16" "length (ver_hardver v) = 16"
  shows "version_texts (d\<lparr>Version := (Version d)[1 := v]\<rparr>)"
  using assms set_update_subset_insert [of "Version d" 1 v] by (auto simp: version_texts_def)

lemma version_kept:
  assumes "version_texts (dev p)" "APP_PDUCOMM_VersionQue p = Inr (r, p')"
  shows "version_texts (dev p')"
  using assms version_texts_update [OF assms(1)]
  by (auto simp: APP_PDUCOMM_VersionQue_def bind_io_Inr sem_pend_def sem_post_def send_command_def await_reply_def take_reply_def
      modify_def set_pdu_version_def length_copy_over split: if_splits list.splits option.splits)

lemma version_faults:
  assumes "APP_PDU_Send_Sem p > 0" "SWIFT_UART4_Send_Sem p > 0" "APP_PDUCOMM_VersionQue p = Inl e"
  shows "e = OutOfBounds"
  using assms
  by (auto simp: APP_PDUCOMM_VersionQue_def bind_io_def sem_pend_def sem_post_def send_command_def await_reply_def take_reply_def
      modify_def ret_io_def split: if_splits list.splits option.splits)

lemma length_version_data: "version_texts d \<Longrightarrow> length (version_data d) = 64"
  by (cases "Version d"; cases "tl (Version d)") (auto simp: version_texts_def version_data_def)

text \<open>C31: the answer of the panel with the versions does not fit its send buffer of 64 bytes: with the link to the drive unit
  free every version query of the panel writes past the end of the array, whatever the drive unit answers.\<close>

theorem panel_version_query_overruns:
  assumes "cmd_of rx = VersionQueID" "length (tx_buf s) = 64" "version_texts (info (unit_of s))"
    and "APP_PDU_Send_Sem (core (watch (rcv (unit_of s)))) > 0" "SWIFT_UART4_Send_Sem (core (watch (rcv (unit_of s)))) > 0"
  shows "APP_OLEDCOMM_VersionQue rx s = Inl OutOfBounds"
proof -
  let ?u = "blank_drive_version (unit_of s)"
  let ?p = "core (watch (rcv ?u))"
  have p: "version_texts (dev ?p)" "APP_PDU_Send_Sem ?p > 0" "SWIFT_UART4_Send_Sem ?p > 0"
    using assms(4,5) version_texts_update [OF assms(3)]
    by (auto simp: blank_drive_version_def set_unit_def)
  have start: "APP_OLEDCOMM_VersionQue rx s = bind_io (on_unit (on_drive APP_PDUCOMM_VersionQue))
      (\<lambda>_. asked_for VersionQueID version_data rx) (s\<lparr>unit_of := ?u\<rparr>)"
    using assms(1) by (simp add: APP_OLEDCOMM_VersionQue_def version_query_def bind_io_def on_unit_def alter_def)
  show ?thesis
  proof (cases "APP_PDUCOMM_VersionQue ?p")
    case (Inl e)
    then have "e = OutOfBounds" using version_faults [OF p(2,3)] by blast
    then show ?thesis using Inl start by (simp add: bind_io_def on_unit_def on_drive_def on_rcv_def on_link_def)
  next
    case (Inr q)
    then obtain r p' where q: "APP_PDUCOMM_VersionQue ?p = Inr (r, p')" by (cases q) simp
    then have "length (version_data (dev p')) = 64" using version_kept [OF p(1)] length_version_data by blast
    then show ?thesis using q start assms(1,2)
      by (simp add: bind_io_def on_unit_def on_drive_def on_rcv_def on_link_def asked_for_def answer_def put_tx_def info_def board_def)
  qed
qed

section \<open>Panel and PC agree\<close>

text \<open>Two states that differ in the codes of log entries only, in the digit that says who gave the command.\<close>

definition masked :: "(u32 \<times> bytes) list \<Rightarrow> (u32 \<times> bytes) list" where
  "masked = map (\<lambda>(code, b). (code AND 0xFFFFFF0F, b))"

definition alike :: "ctl \<Rightarrow> ctl \<Rightarrow> bool" where
  "alike s t \<longleftrightarrow> (\<exists>j. t = s\<lparr>journal := j\<rparr> \<and> masked j = masked (journal s))"

lemma alikeI: "s\<lparr>journal := journal t\<rparr> = t \<Longrightarrow> masked (journal t) = masked (journal s) \<Longrightarrow> alike s t"
  unfolding alike_def by metis

lemma alikeE: "alike s t \<Longrightarrow> (\<And>j. t = s\<lparr>journal := j\<rparr> \<Longrightarrow> masked j = masked (journal s) \<Longrightarrow> P) \<Longrightarrow> P"
  by (auto simp: alike_def)

definition agree :: "'a ctio \<Rightarrow> 'a ctio \<Rightarrow> bool" where
  "agree m n \<longleftrightarrow> (\<forall>s t. alike s t \<longrightarrow> rel_sum (=) (rel_prod (=) alike) (m s) (n t))"

lemma agreeI: "(\<And>s t. alike s t \<Longrightarrow> rel_sum (=) (rel_prod (=) alike) (m s) (n t)) \<Longrightarrow> agree m n"
  by (simp add: agree_def)

lemma agreeD: "agree m n \<Longrightarrow> alike s t \<Longrightarrow> rel_sum (=) (rel_prod (=) alike) (m s) (n t)"
  by (simp add: agree_def)

lemma agree_bind:
  assumes "agree m n" "\<And>x. agree (k x) (l x)"
  shows "agree (bind_io m k) (bind_io n l)"
proof (rule agreeI)
  fix s t
  assume "alike s t"
  then have "rel_sum (=) (rel_prod (=) alike) (m s) (n t)" using assms(1) by (rule agreeD [rotated])
  then show "rel_sum (=) (rel_prod (=) alike) (bind_io m k s) (bind_io n l t)"
    by (cases "m s"; cases "n t") (auto simp: bind_io_def intro: agreeD [OF assms(2)])
qed

lemma agree_ret: "agree (ret_io x) (ret_io x)"
  by (simp add: agree_def ret_io_def)

lemma agree_if: "(c \<Longrightarrow> agree m m') \<Longrightarrow> (\<not> c \<Longrightarrow> agree n n') \<Longrightarrow> agree (if c then m else n) (if c then m' else n')"
  by simp

lemma agree_alter: "(\<And>s t. alike s t \<Longrightarrow> alike (f s) (g t)) \<Longrightarrow> agree (alter f) (alter g)"
  by (simp add: agree_def alter_def)

text \<open>A step that looks at the state.\<close>

lemma agree_look: "(\<And>s t. alike s t \<Longrightarrow> agree (f s) (g t)) \<Longrightarrow> agree (\<lambda>s. f s s) (\<lambda>s. g s s)"
  by (simp add: agree_def)

lemma alike_sel:
  assumes "alike s t"
  shows "info t = info s" "rcv t = rcv s" "coders t = coders s" "at_history t = at_history s" "at_rxpower t = at_rxpower s"
    "at_null t = at_null s" "seek_mode t = seek_mode s" "antenna t = antenna s" "sats t = sats s" "records t = records s"
    "running i t = running i s"
  using assms by (auto simp: alike_def info_def getters running_def)

lemma agree_calls: "agree (on_eeprom m) (on_eeprom m)" "agree (on_rcv n) (on_rcv n)" "agree (on_drive d) (on_drive d)"
proof -
  show "agree (on_eeprom m) (on_eeprom m)"
  proof (rule agreeI)
    fix s t
    assume a: "alike s t"
    then obtain j where "t = s\<lparr>journal := j\<rparr>" "masked j = masked (journal s)" by (auto simp: alike_def)
    then show "rel_sum (=) (rel_prod (=) alike) (on_eeprom m s) (on_eeprom m t)"
      using alike_sel [OF a]
      by (cases "m ((eep (coders s))\<lparr>acu := info s\<rparr>)") (auto simp: on_eeprom_def set_unit_def intro!: alikeI)
  qed
  have r: "agree (on_rcv n) (on_rcv n)" for n :: "'x bio"
  proof (rule agreeI)
    fix s t
    assume "alike s t"
    then show "rel_sum (=) (rel_prod (=) alike) (on_rcv n s) (on_rcv n t)"
      by (cases "n (rcv s)") (auto simp: on_rcv_def elim!: alikeE intro!: alikeI)
  qed
  show "agree (on_rcv n) (on_rcv n)" by (rule r)
  show "agree (on_drive d) (on_drive d)" unfolding on_drive_def by (rule r)
qed

lemma alike_logged:
  "alike s t \<Longrightarrow> c AND 0xFFFFFF0F = d AND 0xFFFFFF0F \<Longrightarrow> alike (logged c b s) (logged d b t)"
  by (auto simp: logged_def masked_def elim!: alikeE intro!: alikeI)

lemma alike_set:
  assumes "alike s t"
  shows "alike (set_unit f s) (set_unit f t)" "alike (set_tasks g s) (set_tasks g t)"
    "alike (s\<lparr>started := x\<rparr>) (t\<lparr>started := x\<rparr>)"
  using assms by (auto simp: set_unit_def set_tasks_def info_def board_def elim!: alikeE intro!: alikeI)

lemma alike_steps:
  assumes "alike s t"
  shows "alike (set_work w s) (set_work w t)" "alike (set_mode m s) (set_mode m t)" "alike (delete_running i s) (delete_running i t)"
    "alike (delete_all s) (delete_all t)" "alike (TaskSatelliteTrackCreate s) (TaskSatelliteTrackCreate t)"
    "alike (TaskSatGradientTrackCreate s) (TaskSatGradientTrackCreate t)"
    "alike (TaskAntennaRecordGotoCreate s) (TaskAntennaRecordGotoCreate t)" "alike (refresh_param s) (refresh_param t)"
    "alike (set_param f s) (set_param f t)" "alike (set_sta g s) (set_sta g t)" "alike (set_antenna h s) (set_antenna h t)"
    "alike (set_records l s) (set_records l t)"
proof -
  have d: "alike (delete_running i s) (delete_running i t)" if "alike s t" for i s t
    using alike_set(2) [OF that] alike_sel(11) [OF that] that by (simp add: delete_running_def)
  show "alike (delete_running i s) (delete_running i t)" using d [OF assms] .
  show "alike (delete_all s) (delete_all t)" unfolding delete_all_def by (intro d assms)
  show "alike (TaskSatelliteTrackCreate s) (TaskSatelliteTrackCreate t)" "alike (TaskSatGradientTrackCreate s) (TaskSatGradientTrackCreate t)"
    using assms by (auto simp: TaskSatelliteTrackCreate_def TaskSatGradientTrackCreate_def elim!: alikeE intro!: alikeI)
  show "alike (TaskAntennaRecordGotoCreate s) (TaskAntennaRecordGotoCreate t)"
    unfolding TaskAntennaRecordGotoCreate_def by (rule alike_set(2) [OF assms])
qed (simp_all add: setters refresh_param_def alike_set(1) [OF assms])

lemma agree_stop: "agree stop_all stop_all"
  unfolding stop_all_def by (intro agree_bind agree_calls agree_if agree_ret)

lemma agree_begin: "(\<And>s t. alike s t \<Longrightarrow> alike (f s) (g t)) \<Longrightarrow> agree (begin_mode f) (begin_mode g)"
  unfolding begin_mode_def by (intro agree_bind agree_alter agree_stop alike_steps)

lemma alike_ended:
  assumes "alike s t" "c AND 0xFFFFFF0F = d AND 0xFFFFFF0F"
  shows "alike (ended_mode m i c s) (ended_mode m i d t)"
  using assms alike_sel(7) [OF assms(1)] by (simp add: ended_mode_def alike_logged alike_steps)

lemma agree_ModeSel: "agree (APP_OLEDCOMM_AimAtSatModeSel rx) (APP_PCCOMM_AimAtSatModeSel rx)"
  unfolding APP_OLEDCOMM_AimAtSatModeSel_def APP_PCCOMM_AimAtSatModeSel_def Let_def
  by (intro agree_bind agree_if agree_ret agree_begin agree_alter agree_stop alike_steps alike_logged alike_ended) simp_all

text \<open>Results of two handlers in two states.\<close>

abbreviation same_result :: "fault + 'a \<times> ctl \<Rightarrow> fault + 'a \<times> ctl \<Rightarrow> bool" where
  "same_result \<equiv> rel_sum (=) (rel_prod (=) alike)"

lemma same_bind:
  "agree m n \<Longrightarrow> (\<And>x. agree (k x) (l x)) \<Longrightarrow> alike s t \<Longrightarrow> same_result (bind_io m k s) (bind_io n l t)"
  by (rule agreeD [OF agree_bind])

lemma same_ret: "alike s t \<Longrightarrow> same_result (Inr (x, s)) (Inr (x, t))"
  by simp

lemma same_if: "(c \<Longrightarrow> same_result m m') \<Longrightarrow> (\<not> c \<Longrightarrow> same_result n n')
    \<Longrightarrow> same_result (if c then m else n) (if c then m' else n')"
  by simp

lemma same_fault: "same_result (Inl e) (Inl e)"
  by simp

lemmas same_rules = same_if same_ret same_fault same_bind

lemma agree_eeprom_look:
  "(\<And>s t. alike s t \<Longrightarrow> f s = g t) \<Longrightarrow> agree (\<lambda>s. on_eeprom (f s) s) (\<lambda>s. on_eeprom (g s) s)"
proof (rule agreeI)
  fix s t
  assume "\<And>s t. alike s t \<Longrightarrow> f s = g t" "alike s t"
  then show "same_result (on_eeprom (f s) s) (on_eeprom (g t) t)" using agreeD [OF agree_calls(1)] by metis
qed

lemmas agree_rules = agree_bind agree_if agree_ret agree_alter agree_calls agree_stop agree_eeprom_look

lemma agree_Step: "agree (APP_OLEDCOMM_AntennaSigleStepCtr rx) (APP_PCCOMM_AntennaSigleStepCtr rx)"
proof (rule agreeI)
  fix s t
  assume a: "alike s t"
  show "same_result (APP_OLEDCOMM_AntennaSigleStepCtr rx s) (APP_PCCOMM_AntennaSigleStepCtr rx t)"
    unfolding APP_OLEDCOMM_AntennaSigleStepCtr_def APP_PCCOMM_AntennaSigleStepCtr_def alike_sel [OF a]
    by (cases "pc_dir (rx ! 4)") (auto intro!: same_rules agree_rules alike_steps a)
qed

lemma agree_AGC: "agree (APP_OLEDCOMM_AGCRecord rx) (APP_PCCOMM_AGCRecord rx)"
proof (rule agreeI)
  fix s t
  assume a: "alike s t"
  show "same_result (APP_OLEDCOMM_AGCRecord rx s) (APP_PCCOMM_AGCRecord rx t)"
    unfolding APP_OLEDCOMM_AGCRecord_def APP_PCCOMM_AGCRecord_def alike_sel [OF a]
    using a by (auto intro: agreeD [OF agree_calls(1)])
qed

lemma agree_DateSrc: "agree (APP_OLEDCOMM_SysDateTimeSrcSelSet rx) (APP_PCCOMM_SysDateTimeSrcSelSet rx)"
proof (rule agreeI)
  fix s t
  assume a: "alike s t"
  have src: "ucast (x :: u8) = (2 :: u32) \<longleftrightarrow> x = 2" "ucast (x :: u8) = (0 :: u32) \<longleftrightarrow> x = 0" for x
    by (auto simp: word_unat_eq_iff)
  show "same_result (APP_OLEDCOMM_SysDateTimeSrcSelSet rx s) (APP_PCCOMM_SysDateTimeSrcSelSet rx t)"
    unfolding APP_OLEDCOMM_SysDateTimeSrcSelSet_def APP_PCCOMM_SysDateTimeSrcSelSet_def Let_def
    using a alike_sel(1) [OF a] src by (auto simp: alike_set)
qed

lemma agree_delete: "agree (panel_delete_record i) (delete_record i)"
proof (rule agreeI)
  fix s t
  assume a: "alike s t"
  show "same_result (panel_delete_record i s) (delete_record i t)"
    unfolding panel_delete_record_def delete_record_def alike_sel [OF a]
    by (cases "index_of i (record_ID (records s))")
      (auto simp: case_prod_unfold intro!: same_rules agree_rules alike_steps alike_logged a)
qed

lemma agree_deletes: "agree (panel_delete_records is) (delete_records is)"
  by (induction "is") (auto intro!: agree_rules agree_delete)

lemma agree_Del: "agree (APP_OLEDCOMM_DelAntennaRecord rx) (APP_PCCOMM_DelAntennaRecord rx)"
  by (rule agreeI) (auto simp: APP_OLEDCOMM_DelAntennaRecord_def APP_PCCOMM_DelAntennaRecord_def
    intro!: same_rules agree_rules agree_deletes)

lemma agree_leave: "agree leave_mode leave_mode"
proof (rule agreeI)
  fix s t
  assume a: "alike s t"
  have "agree (alter (\<lambda>s. set_mode 0x00 (if running 2 s then delete_running 2 s
          else if running 1 s then delete_running 1 s else delete_running 0 s)))
     (alter (\<lambda>s. set_mode 0x00 (if running 2 s then delete_running 2 s
          else if running 1 s then delete_running 1 s else delete_running 0 s)))"
  proof (rule agree_alter)
    fix s t
    assume b: "alike s t"
    show "alike (set_mode 0x00 (if running 2 s then delete_running 2 s
          else if running 1 s then delete_running 1 s else delete_running 0 s))
      (set_mode 0x00 (if running 2 t then delete_running 2 t else if running 1 t then delete_running 1 t else delete_running 0 t))"
      using alike_sel(11) [OF b] by (simp add: alike_steps b)
  qed
  then show "same_result (leave_mode s) (leave_mode t)"
    unfolding leave_mode_def alike_sel [OF a] using a by (intro same_rules agree_stop)
qed

lemma agree_goto_record: "agree (panel_goto_record b) (goto_record b)"
proof (rule agreeI)
  fix s t
  assume a: "alike s t"
  show "same_result (panel_goto_record b s) (goto_record b t)"
    unfolding panel_goto_record_def goto_record_def alike_sel [OF a] Let_def
    by (intro same_rules agree_rules alike_steps alike_logged a)
      (simp_all add: alike_sel alike_steps alike_logged)
qed

lemma agree_Goto: "agree (APP_OLEDCOMM_AntennaRecordGoto rx) (APP_PCCOMM_AntennaRecordGoto rx)"
  unfolding APP_OLEDCOMM_AntennaRecordGoto_def APP_PCCOMM_AntennaRecordGoto_def Let_def
proof (intro agree_bind agree_leave, rule agreeI)
  fix x :: unit and s t :: ctl
  assume a: "alike s t"
  show "same_result
     (if cmd_of rx \<noteq> AntennaRecordGotoID then Inr (FAIL, s)
      else if rx ! 3 > of_nat ANTENNA_RECORD_MAX_NUM \<or> rx ! 3 = 0 then Inr (FAIL, s)
      else if rx ! 3 \<notin> set (record_ID (records s)) then Inr (FAIL, s)
      else bind_io (on_eeprom (APP_PARAM_AntennaRecord_Read (rx ! 3) (replicate 100 0))) (\<lambda>(r, b).
         if r = FAIL then ret_io FAIL else if rx ! 3 \<noteq> b ! 0 then ret_io FAIL else panel_goto_record b) s)
     (if cmd_of rx \<noteq> AntennaRecordGotoID then Inr (FAIL, t)
      else if rx ! 3 > of_nat ANTENNA_RECORD_MAX_NUM \<or> rx ! 3 = 0 then Inr (FAIL, t)
      else if rx ! 3 \<notin> set (record_ID (records t)) then Inr (FAIL, t)
      else bind_io (on_eeprom (APP_PARAM_AntennaRecord_Read (rx ! 3) (replicate 100 0))) (\<lambda>(r, b).
         if r = FAIL then ret_io FAIL else if rx ! 3 \<noteq> b ! 0 then ret_io FAIL else goto_record b) t)"
    unfolding alike_sel [OF a] case_prod_unfold by (intro same_rules agree_rules agree_goto_record a)
qed

lemma agree_AimDegree: "agree (APP_MONITOR_AimDegree_Get m) (APP_MONITOR_AimDegree_Get m)"
proof (rule agreeI)
  fix s t
  assume a: "alike s t"
  show "same_result (APP_MONITOR_AimDegree_Get m s) (APP_MONITOR_AimDegree_Get m t)"
    unfolding APP_MONITOR_AimDegree_Get_def Let_def alike_sel [OF a]
    by (auto simp: bind_f_def alike_steps a split: sum.splits)
qed

lemma agree_SelSat: "agree (APP_OLEDCOMM_SelSat m stack rx) (APP_PCCOMM_SelSat m stack rx)"
proof (rule agreeI)
  fix s t
  assume a: "alike s t"
  have tail: "agree (\<lambda>s. bind_io (on_rcv (APP_BEACON_SetFreq (beacon_freq (sat_freq x) (antenna s)))) (K s) s)
      (\<lambda>s. bind_io (on_rcv (APP_BEACON_SetFreq (beacon_freq (sat_freq x) (antenna s)))) (L s) s)"
    if "\<And>r s t. agree (K s r) (L t r)" for x K L
  proof (rule agreeI)
    fix s t
    assume b: "alike s t"
    show "same_result (bind_io (on_rcv (APP_BEACON_SetFreq (beacon_freq (sat_freq x) (antenna s)))) (K s) s)
      (bind_io (on_rcv (APP_BEACON_SetFreq (beacon_freq (sat_freq x) (antenna t)))) (L t) t)"
      unfolding alike_sel [OF b] by (intro same_bind agree_calls that b)
  qed
  show "same_result (APP_OLEDCOMM_SelSat m stack rx s) (APP_PCCOMM_SelSat m stack rx t)"
    unfolding APP_OLEDCOMM_SelSat_def APP_PCCOMM_SelSat_def alike_sel [OF a] Let_def case_prod_unfold
    by (intro same_rules agree_rules tail agree_AimDegree a) (simp_all add: alike_sel alike_steps alike_logged)
qed

text \<open>The commands that the panel and the PCs share.\<close>

definition shared_commands :: "libm \<Rightarrow> strSatParam \<Rightarrow> (command \<times> command) list" where
  "shared_commands m stack =
     [(APP_OLEDCOMM_AimAtSatModeSel, APP_PCCOMM_AimAtSatModeSel), (APP_OLEDCOMM_AntennaSigleStepCtr, APP_PCCOMM_AntennaSigleStepCtr),
      (APP_OLEDCOMM_AntennaRecordGoto, APP_PCCOMM_AntennaRecordGoto), (APP_OLEDCOMM_DelAntennaRecord, APP_PCCOMM_DelAntennaRecord),
      (APP_OLEDCOMM_AGCRecord, APP_PCCOMM_AGCRecord), (APP_OLEDCOMM_SelSat m stack, APP_PCCOMM_SelSat m stack),
      (APP_OLEDCOMM_SysDateTimeSrcSelSet, APP_PCCOMM_SysDateTimeSrcSelSet)]"

text \<open>C12: seven commands do the same from the panel as from a PC, in every state and for all bytes: they give the same result or
  fault, and leave the unit the same but for the digit of the log code that says who gave the command.\<close>

theorem panel_agrees_with_pc:
  assumes "(p, q) \<in> set (shared_commands m stack)" "alike s t"
  shows "same_result (p rx s) (q rx t)"
proof -
  have "agree (p rx) (q rx)"
    using assms(1) agree_ModeSel agree_Step agree_Goto agree_Del agree_AGC agree_SelSat agree_DateSrc
    by (auto simp: shared_commands_def)
  then show ?thesis using assms(2) by (rule agreeD)
qed

section \<open>The panel misreads the receiver\<close>

definition station :: "ctl \<Rightarrow> strLocalPositionParam" where
  "station s = LocalPositionParam (ACUParam (info s))"

lemma station_source: "station (set_local f s) = f (station s)"
  by (simp add: station_def set_local_def setters)

lemma after_source:
  assumes "board_ok (chip s)" "libm_ok m"
  shows "\<exists>u. bind_io (APP_MONITOR_AimDegree_Get m) (\<lambda>_.
      bind_io (\<lambda>s. on_eeprom (APP_PARAM_LocallParamSrc_Save (lp_data_src_flag (LocalPositionParam (ACUParam (info s))))) s)
        (\<lambda>_. ret_io SUCC)) s = Inr (SUCC, u) \<and> station u = station s"
proof -
  obtain f where f: "APP_MONITOR_AimDegree_Get m s = Inr ((), set_antenna f s)" using AimDegree_runs [OF assms(2)] by blast
  let ?s = "set_antenna f s"
  have c: "board_ok (chip ?s)" using assms(1) by (simp add: setters)
  obtain u where u: "on_eeprom (APP_PARAM_LocallParamSrc_Save (lp_data_src_flag (LocalPositionParam (ACUParam (info ?s))))) ?s = Inr (SUCC, u)"
    "info u = info ?s"
    using save_param_on_board [where s = ?s and a = APP_EEPROM_LocallParamSrc_ADDR
        and xs = "[lp_data_src_flag (LocalPositionParam (ACUParam (info ?s)))]"] c
    by (auto simp: APP_PARAM_LocallParamSrc_Save_def)
  have "station u = station s" using u(2) by (simp add: station_def setters)
  then show ?thesis using f u(1) by (intro exI [of _ u]) (simp add: bind_io_def ret_io_def)
qed

lemma whole_degrees:
  assumes "unat (u :: u32) = 1000 * n" "n \<le> 360"
  shows "fp_of_u32 u = of_nat (1000 * n)" "fp_div1000d (fp_of_u32 u) = of_nat n" "fp_div100 (fp_of_u32 u) = of_nat (10 * n)"
proof -
  show u: "fp_of_u32 u = of_nat (1000 * n)" using fp_of_u32_exact [of u] assms by simp
  have "f64 (of_nat n) = of_nat n" using fround_int [of "int n" 53 "-1074"] assms(2) by simp
  then show "fp_div1000d (fp_of_u32 u) = of_nat n" using f32_of_nat [of n] assms(2) by (simp add: u fp_div1000d_def)
  show "fp_div100 (fp_of_u32 u) = of_nat (10 * n)" using f32_of_nat [of "10 * n"] assms(2) by (simp add: u fp_div100_def)
qed

text \<open>C32: the panel misreads the position of the receiver, which comes in thousandths of a degree. When the receiver is
  selected as the source of the position, a PC sets a longitude of \<open>n\<close> degrees to \<open>n\<close>, the panel to ten times \<open>n\<close>; with the
  automatic choice and a valid position the panel sets it to a thousand times \<open>n\<close>.\<close>

theorem panel_misreads_receiver:
  assumes "board_ok (chip s)" "libm_ok m" "cmd_of rx = LocalParamSrcSelSetID" "rx ! 2 = 1"
    and "unat (gps_lon (GPSData (GPSInfo (DeviceInfo (info s))))) = 1000 * n" "n \<le> 360"
    and "rx ! 3 = 2 \<or> rx ! 3 = 0 \<and> gps_valid (GPSData (GPSInfo (DeviceInfo (info s)))) = 0x41"
  shows "\<exists>p q. APP_PCCOMM_LocalParamSrcSelSet m rx s = Inr (SUCC, p) \<and> lp_lon (station p) = of_nat n
    \<and> APP_OLEDCOMM_LocalParamSrcSelSet m rx s = Inr (SUCC, q)
    \<and> lp_lon (station q) = of_nat ((if rx ! 3 = 2 then 10 else 1000) * n)"
proof -
  have d: "DeviceInfo (info (set_local f s)) = DeviceInfo (info s)" for f
    by (simp add: set_local_def setters)
  have c: "board_ok (chip (take_source x s))" "board_ok (chip (panel_source x s))" for x
    using assms(1) by (simp_all add: take_source_def panel_source_def Let_def set_local_def setters)
  obtain p where p: "APP_PCCOMM_LocalParamSrcSelSet m rx s = Inr (SUCC, p)" "station p = station (take_source (rx ! 3) s)"
    using after_source [OF c(1) assms(2), of "rx ! 3"] assms(3,4) by (auto simp: APP_PCCOMM_LocalParamSrcSelSet_def)
  obtain q where q: "APP_OLEDCOMM_LocalParamSrcSelSet m rx s = Inr (SUCC, q)" "station q = station (panel_source (rx ! 3) s)"
    using after_source [OF c(2) assms(2), of "rx ! 3"] assms(3,4) by (auto simp: APP_OLEDCOMM_LocalParamSrcSelSet_def)
  have "lp_lon (station p) = of_nat n" "lp_lon (station q) = of_nat ((if rx ! 3 = 2 then 10 else 1000) * n)"
    using assms(7) p q whole_degrees [OF assms(5,6)]
    by (auto simp: take_source_def panel_source_def Let_def station_source from_gps_def with_gps_def d)
  with p(1) q(1) show ?thesis by blast
qed

section \<open>Witnesses\<close>

theorem queries_disturb_nothing_witness:
  "\<exists>s'. APP_OLEDCOMM_NetWorkQue [0x08, 0x07] (desk_of 64 (blank [])) = Inr (SUCC, s')
    \<and> undisturbed (blank []) (unit_of s') \<and> tx_count s' = 15"
proof -
  have m: "(NetWorkQueID, APP_OLEDCOMM_NetWorkQue) \<in> set (pc_queries zero_strSatParam [] @ panel_queries zero_strSatParam [])"
    by (simp add: panel_queries_def)
  obtain s' where "APP_OLEDCOMM_NetWorkQue [0x08, 0x07] (desk_of 64 (blank [])) = Inr (SUCC, s')" "tx_count s' = 15"
    using answer_runs [of "net_data (NetWork (DeviceInfo zero_strACUDevInfo))" "desk_of 64 (blank [])" NetWorkQueID]
    by (auto simp: APP_OLEDCOMM_NetWorkQue_def asked_for_def cmd_of_def un16_def net_data_def le32_def)
  then show ?thesis using queries_disturb_nothing [OF m] by force
qed

lemma blank_versions: "version_texts (info (blank []))"
  by (simp add: version_texts_def zero_strACUDevInfo_def zero_strVersion_def)

theorem panel_version_query_overruns_witness:
  "APP_OLEDCOMM_VersionQue [0x0A, 0x01] (desk_of 64 (blank [])) = Inl OutOfBounds"
  using panel_version_query_overruns [of "[0x0A, 0x01]" "desk_of 64 (blank [])"] blank_versions
  by (simp add: cmd_of_def un16_def test_beacon_def test_watch_def)

definition journal_after :: "fault + status \<times> ctl \<Rightarrow> (u32 \<times> bytes) list option" where
  "journal_after r = (case r of Inl e \<Rightarrow> None | Inr (x, s) \<Rightarrow> if x = SUCC then Some (journal s) else None)"

theorem panel_agrees_with_pc_witness:
  "same_result (APP_OLEDCOMM_AimAtSatModeSel [2, 1, 1, 0] (set_mode 2 (blank []))) (APP_PCCOMM_AimAtSatModeSel [2, 1, 1, 0] (set_mode 2 (blank [])))
    \<and> journal_after (APP_PCCOMM_AimAtSatModeSel [2, 1, 1, 0] (set_mode 2 (blank []))) = Some [(0x020112, [])]
    \<and> journal_after (APP_OLEDCOMM_AimAtSatModeSel [2, 1, 1, 0] (set_mode 2 (blank []))) = Some [(0x020122, [])]"
proof (intro conjI)
  have "(APP_OLEDCOMM_AimAtSatModeSel, APP_PCCOMM_AimAtSatModeSel) \<in> set (shared_commands flat_libm zero_strSatParam)"
    by (simp add: shared_commands_def)
  moreover have "alike s s" for s by (auto simp: alike_def intro: exI [of _ "journal s"])
  ultimately show "same_result (APP_OLEDCOMM_AimAtSatModeSel [2, 1, 1, 0] (set_mode 2 (blank [])))
      (APP_PCCOMM_AimAtSatModeSel [2, 1, 1, 0] (set_mode 2 (blank [])))"
    by (rule panel_agrees_with_pc)
  show "journal_after (APP_PCCOMM_AimAtSatModeSel [2, 1, 1, 0] (set_mode 2 (blank []))) = Some [(0x020112, [])]" by code_simp
  show "journal_after (APP_OLEDCOMM_AimAtSatModeSel [2, 1, 1, 0] (set_mode 2 (blank []))) = Some [(0x020122, [])]" by code_simp
qed

lemma gps_at_105: "unat (gps_lon (GPSData (GPSInfo (DeviceInfo (info (set_unit (\<lambda>d. d\<lparr>DeviceInfo := (DeviceInfo d)\<lparr>GPSInfo :=
    (GPSInfo (DeviceInfo d))\<lparr>GPSData := (GPSData (GPSInfo (DeviceInfo d)))\<lparr>gps_lon := 105000\<rparr>\<rparr>\<rparr>\<rparr>) s)))))) = 1000 * 105"
  by simp

theorem panel_misreads_receiver_witness:
  "\<exists>s p q. APP_PCCOMM_LocalParamSrcSelSet flat_libm ([1, 5, 1, 2] @ replicate 46 0) s = Inr (SUCC, p) \<and> lp_lon (station p) = 105
    \<and> APP_OLEDCOMM_LocalParamSrcSelSet flat_libm ([1, 5, 1, 2] @ replicate 46 0) s = Inr (SUCC, q) \<and> lp_lon (station q) = 1050"
proof -
  let ?s = "set_unit (\<lambda>d. d\<lparr>DeviceInfo := (DeviceInfo d)\<lparr>GPSInfo :=
    (GPSInfo (DeviceInfo d))\<lparr>GPSData := (GPSData (GPSInfo (DeviceInfo d)))\<lparr>gps_lon := 105000\<rparr>\<rparr>\<rparr>\<rparr>) (blank [])"
  let ?c = "[1, 5, 1, 2] @ replicate 46 (0 :: u8)"
  have c: "cmd_of ?c = LocalParamSrcSelSetID" "?c ! 2 = 1" "?c ! 3 = 2" by (simp_all add: cmd_of_def un16_def)
  show ?thesis
    using panel_misreads_receiver [OF _ flat_libm_ok c(1,2) gps_at_105, of "blank []"] c(3) by auto
qed

end
