(* ===== verification/ControlTypes.thy ===== *)
theory ControlTypes
  imports PanelProps
begin

text \<open>
  The types of the device record: its arrays keep their lengths, \<open>acu_wf\<close>, whatever command a PC or the panel
  sends, on any hardware. \<open>gives ok P m\<close> is the judgement that \<open>m\<close>, run in a state that is \<open>ok\<close>, leaves such a state and
  returns a value with \<open>P\<close>; there is a rule for every construct of the commands and one for every call into
  another component.
\<close>

section \<open>The judgement\<close>

definition gives :: "('s \<Rightarrow> bool) \<Rightarrow> ('a \<Rightarrow> bool) \<Rightarrow> ('a, 's) st \<Rightarrow> bool" where
  "gives ok P m \<longleftrightarrow> (\<forall>s x s'. ok s \<longrightarrow> m s = Inr (x, s') \<longrightarrow> ok s' \<and> P x)"

abbreviation keeps :: "('s \<Rightarrow> bool) \<Rightarrow> ('a, 's) st \<Rightarrow> bool" where
  "keeps ok m \<equiv> gives ok (\<lambda>_. True) m"

lemma givesI: "(\<And>s x s'. ok s \<Longrightarrow> m s = Inr (x, s') \<Longrightarrow> ok s' \<and> P x) \<Longrightarrow> gives ok P m"
  by (auto simp: gives_def)

lemma givesD: "gives ok P m \<Longrightarrow> ok s \<Longrightarrow> m s = Inr (x, s') \<Longrightarrow> ok s' \<and> P x"
  by (auto simp: gives_def)

lemma gives_ret: "P x \<Longrightarrow> gives ok P (ret_io x)"
  by (simp add: gives_def)

lemma gives_stay: "P x \<Longrightarrow> gives ok P (\<lambda>s. Inr (x, s))"
  by (simp add: gives_def)

lemma gives_fault: "gives ok P (\<lambda>s. Inl e)"
  by (simp add: gives_def)

lemma gives_seq: "gives ok P m \<Longrightarrow> (\<And>x. P x \<Longrightarrow> gives ok Q (k x)) \<Longrightarrow> gives ok Q (bind_io m k)"
  unfolding gives_def bind_io_Inr by blast

lemma keeps_seq: "keeps ok m \<Longrightarrow> (\<And>x. gives ok Q (k x)) \<Longrightarrow> gives ok Q (bind_io m k)"
  unfolding gives_def bind_io_Inr by blast

lemma gives_if: "(c \<Longrightarrow> gives ok P m) \<Longrightarrow> (\<not> c \<Longrightarrow> gives ok P n) \<Longrightarrow> gives ok P (if c then m else n)"
  by simp

lemma gives_option: "gives ok P m \<Longrightarrow> (\<And>x. gives ok P (f x)) \<Longrightarrow> gives ok P (case r of None \<Rightarrow> m | Some x \<Rightarrow> f x)"
  by (cases r) simp_all

text \<open>A step that looks at the state: it has the type for every state that is \<open>ok\<close>.\<close>

lemma gives_look:
  assumes "\<And>t. ok t \<Longrightarrow> gives ok P (f t)"
  shows "gives ok P (\<lambda>s. f s s)"
proof (rule givesI)
  fix s x s'
  assume "ok s" "f s s = Inr (x, s')"
  then show "ok s' \<and> P x" using givesD [OF assms] by blast
qed

lemma gives_weaken: "gives ok P m \<Longrightarrow> (\<And>x. P x \<Longrightarrow> Q x) \<Longrightarrow> gives ok Q m"
  unfolding gives_def by blast

lemma keeps_weaken: "gives ok P m \<Longrightarrow> keeps ok m"
  unfolding gives_def by blast

lemma gives_obeys: "obeys R m \<Longrightarrow> (\<And>s s'. ok s \<Longrightarrow> R s s' \<Longrightarrow> ok s') \<Longrightarrow> keeps ok m"
  unfolding gives_def obeys_def by blast

text \<open>The same of the outcome of one run, for a step that is written with its state.\<close>

definition fine :: "('s \<Rightarrow> bool) \<Rightarrow> ('a \<Rightarrow> bool) \<Rightarrow> fault + 'a \<times> 's \<Rightarrow> bool" where
  "fine ok P r \<longleftrightarrow> (\<forall>x s'. r = Inr (x, s') \<longrightarrow> ok s' \<and> P x)"

lemma gives_fine: "(\<And>s. ok s \<Longrightarrow> fine ok P (m s)) \<Longrightarrow> gives ok P m"
  by (simp add: fine_def gives_def)

lemma fine_gives: "gives ok P m \<Longrightarrow> ok s \<Longrightarrow> fine ok P (m s)"
  unfolding gives_def fine_def by blast

lemma fine_if: "(c \<Longrightarrow> fine ok P a) \<Longrightarrow> (\<not> c \<Longrightarrow> fine ok P b) \<Longrightarrow> fine ok P (if c then a else b)"
  by simp

lemma fine_option: "fine ok P a \<Longrightarrow> (\<And>x. r = Some x \<Longrightarrow> fine ok P (f x)) \<Longrightarrow> fine ok P (case r of None \<Rightarrow> a | Some x \<Rightarrow> f x)"
  by (cases r) simp_all

lemma fine_Inr: "ok s \<Longrightarrow> P x \<Longrightarrow> fine ok P (Inr (x, s))"
  by (simp add: fine_def)

lemma fine_Inl: "fine ok P (Inl e)"
  by (simp add: fine_def)

section \<open>The components\<close>

abbreviation mem_ok :: "eew \<Rightarrow> bool" where "mem_ok w \<equiv> acu_wf (acu w)"
abbreviation enc_ok :: "enc \<Rightarrow> bool" where "enc_ok e \<equiv> acu_wf (acu (eep e))"
abbreviation pdu_ok :: "pdu \<Rightarrow> bool" where "pdu_ok p \<equiv> acu_wf (dev p)"
abbreviation bea_ok :: "bea \<Rightarrow> bool" where "bea_ok b \<equiv> acu_wf (board (watch b))"
abbreviation ctl_ok :: "ctl \<Rightarrow> bool" where "ctl_ok s \<equiv> acu_wf (info s)"

subsection \<open>EEPROM\<close>

lemma but_eeprom_wf: "acu_wf d \<Longrightarrow> but_eeprom d d' \<Longrightarrow> acu_wf d'"
  by (auto simp: but_eeprom_def acu_wf_def)

lemma mem_within: "obeys within_eeprom m \<Longrightarrow> keeps mem_ok m"
  by (erule gives_obeys) (auto simp: within_eeprom_def intro: but_eeprom_wf)

lemma History_keeps: "keeps mem_ok (APP_PARAM_HistoryMaxMv_Save p v)"
proof (rule givesI)
  fix w x w'
  assume w: "mem_ok w" "APP_PARAM_HistoryMaxMv_Save p v w = Inr (x, w')"
  let ?w = "w\<lparr>acu := (acu w)\<lparr>ACUCurrSta := (ACUCurrSta (acu w))\<lparr>history_max_mv := v, AGC_max_mv := v\<rparr>\<rparr>\<rparr>"
  have "mem_ok ?w" using w(1) by (simp add: acu_wf_def)
  then show "mem_ok w' \<and> True"
    using w(2) givesD [OF mem_within [OF save_param_within]] unfolding APP_PARAM_HistoryMaxMv_Save_def by blast
qed

text \<open>What a read leaves in the buffer fits it.\<close>

lemma length_put_at: "i + length xs \<le> length b \<Longrightarrow> length (put_at b i xs) = length b"
  by (simp add: put_at_def)

lemma read_loop_length: "read_loop a b i n w = Inr ((r, b'), w') \<Longrightarrow> length b' = length b"
proof (induction a b i n w arbitrary: r b' w' rule: read_loop.induct)
  case (1 a b i n w)
  let ?k = "if n > 256 then 256 else n"
  obtain r1 got w1 where 2: "HW_EEPROM_ReadBuffer (ucast a) ?k w = ((r1, got), w1)" by (metis surj_pair)
  show ?case
  proof (cases "n = 0 \<or> r1 = FAIL \<or> i + length got > length b")
    case True
    then show ?thesis using 1(2) 2
      by (auto simp: read_loop.simps [of a b i n w] Let_def length_put_at split: if_splits)
  next
    case False
    then have "length b' = length (put_at b i got)"
      using 1 2 by (simp add: read_loop.simps [of a b i n w] Let_def split: if_splits)
    then show ?thesis using False by (simp add: length_put_at)
  qed
qed

lemma Read_gives: "gives mem_ok (\<lambda>(r, b). length b = length buff) (APP_PARAM_Read a buff n)"
proof (rule givesI)
  fix w x w'
  assume w: "mem_ok w" "APP_PARAM_Read a buff n w = Inr (x, w')"
  have "mem_ok w'" using givesD [OF mem_within [OF read_within] w] by simp
  moreover obtain r b w1 where "read_loop a buff 0 (unat n) w = Inr ((r, b), w1)" "snd x = b"
    using w(2) by (auto simp: APP_PARAM_Read_def bind_io_Inr split: if_splits prod.splits)
  ultimately show "mem_ok w' \<and> (case x of (r, b) \<Rightarrow> length b = length buff)"
    using read_loop_length by (cases x) auto
qed

lemma sat_at_name: "length b = 32 \<Longrightarrow> length (sat_name (sat_at b)) = 16"
  by (simp add: sat_at_def)

lemma SatParam_Read_gives:
  assumes "length (sat_name x) = 16"
  shows "gives mem_ok (\<lambda>(r, y). length (sat_name y) = 16) (APP_PARAM_SatParam_Read x)"
  unfolding APP_PARAM_SatParam_Read_def
  by (intro gives_if gives_ret gives_seq [OF Read_gives]) (auto simp: assms sat_at_name split: prod.splits intro!: gives_ret)

lemma Record_Read_gives: "gives mem_ok (\<lambda>(r, b). length b = length buff) (APP_PARAM_AntennaRecord_Read i buff)"
  unfolding APP_PARAM_AntennaRecord_Read_def by (rule Read_gives)

lemma clear_records_within: "obeys within_eeprom (clear_records n a)"
  by (induction n arbitrary: a) (auto intro: wee.ret wee.seq save_within)

lemma saves_within:
  "obeys within_eeprom (APP_PARAM_SatParam_Save x)" "obeys within_eeprom (APP_PARAM_SatTotalNum_Save n)"
  "obeys within_eeprom (APP_PARAM_Sat_Del x)" "obeys within_eeprom (APP_PARAM_SatCurrID_Save i)"
  "obeys within_eeprom (APP_PARAM_CurrSatParam_Save x)" "obeys within_eeprom (APP_PARAM_AntennaRecord_TotalNum_Save k)"
  "obeys within_eeprom (APP_PARAM_AntennaRecord_Save i b l)" "obeys within_eeprom (APP_PARAM_AntennaRecord_Read2Struct i old)"
  "obeys within_eeprom APP_PARAM_AntennaRecord_AllClear" "obeys within_eeprom (APP_PARAM_AntennaParam_Save a)"
  "obeys within_eeprom (APP_PARAM_ElecCode_Map_AntennaDegree_Save e)" "obeys within_eeprom (APP_PARAM_LocallHandParam_Save h)"
  "obeys within_eeprom (APP_PARAM_LocallParamSrc_Save i)" "obeys within_eeprom (APP_PARAM_AimAtSatParamLimitmv_Save q)"
  "obeys within_eeprom (APP_PARAM_HardWareLimit_Save i j k)" "obeys within_eeprom (APP_PARAM_AntennaDir_Map_MotorDir_Save i dm)"
  "obeys within_eeprom (APP_PARAM_NetWork_Save nw)" "obeys within_eeprom (APP_PARAM_ElecCode_count_mode_Save i j)"
  unfolding APP_PARAM_SatParam_Save_def APP_PARAM_SatTotalNum_Save_def APP_PARAM_Sat_Del_def APP_PARAM_SatCurrID_Save_def
    APP_PARAM_CurrSatParam_Save_def APP_PARAM_AntennaRecord_TotalNum_Save_def APP_PARAM_AntennaRecord_Save_def
    APP_PARAM_AntennaRecord_Read2Struct_def APP_PARAM_AntennaRecord_AllClear_def APP_PARAM_AntennaParam_Save_def
    APP_PARAM_ElecCode_Map_AntennaDegree_Save_def APP_PARAM_LocallHandParam_Save_def APP_PARAM_LocallParamSrc_Save_def
    APP_PARAM_AimAtSatParamLimitmv_Save_def APP_PARAM_HardWareLimit_Save_def APP_PARAM_AntennaDir_Map_MotorDir_Save_def
    APP_PARAM_NetWork_Save_def APP_PARAM_ElecCode_count_mode_Save_def
  by (intro wee.cond wee.ret save_param_within save_within read_param_within clear_records_within)+

lemma on_eeprom_gives: "gives mem_ok P m \<Longrightarrow> gives ctl_ok P (on_eeprom m)"
proof (rule givesI)
  fix s x s'
  assume "gives mem_ok P m" "ctl_ok s" "on_eeprom m s = Inr (x, s')"
  then show "ctl_ok s' \<and> P x" using givesD [of mem_ok P m "(eep (coders s))\<lparr>acu := info s\<rparr>" x]
    by (auto simp: on_eeprom_def bind_f_Inr)
qed

lemmas saved = on_eeprom_gives [OF mem_within] on_eeprom_gives [OF History_keeps]

subsection \<open>Encoders\<close>

lemma set_coder_ok [simp]: "enc_ok (set_coder a f e) = enc_ok e"
  by (simp add: set_coder_def acu_wf_def)

lemma change_e_keeps: "(\<And>e. enc_ok e \<Longrightarrow> enc_ok (f e)) \<Longrightarrow> keeps enc_ok (change_e f)"
  by (simp add: gives_def change_e_def)

lemma on_port_keeps: "keeps enc_ok (on_port a m)"
  by (auto simp: gives_def on_port_def bind_f_Inr)

lemma sample_keeps: "keeps enc_ok (sample a)"
proof (rule givesI)
  fix e x e'
  assume e: "enc_ok e" "sample a e = Inr (x, e')"
  show "enc_ok e' \<and> True"
  proof (cases "observed e")
    case Nil
    then show ?thesis using e by (auto simp: sample_def)
  next
    case (Cons y ys)
    then have "e' = set_coder a (\<lambda>i. i\<lparr>EleccoderData := (EleccoderData i)\<lparr>ed_data := y\<rparr>\<rparr>) (e\<lparr>observed := ys\<rparr>)"
      using e(2) by (auto simp: sample_def)
    then show ?thesis using e(1) by simp
  qed
qed

lemma outcome_keeps: "gives ok P m \<Longrightarrow> gives ok P n \<Longrightarrow> (\<And>b. gives ok P (f b))
    \<Longrightarrow> gives ok P (case r of Busy \<Rightarrow> m | Bad \<Rightarrow> n | Good b \<Rightarrow> f b)"
  by (cases r) simp_all

lemma coder_calls_keep:
  "keeps enc_ok (DataAddDir_Set a m)" "keeps enc_ok (DataAddDir_Que a)"
  unfolding DataAddDir_Set_def DataAddDir_Que_def Let_def
  by (intro keeps_seq on_port_keeps outcome_keeps gives_ret change_e_keeps; simp)+

lemma save_mode_keeps: "keeps enc_ok (save_mode a m)"
proof (rule givesI)
  fix e x e'
  assume "enc_ok e" "save_mode a m e = Inr (x, e')"
  then show "enc_ok e' \<and> True" using givesD [OF mem_within [OF saves_within(18)]]
    unfolding save_mode_def bind_f_Inr by fastforce
qed

lemma Adjust_keeps: "keeps enc_ok (APP_ElecEncoder_DataAddDir_Adjust st i d)"
proof -
  have s: "keeps enc_ok (APP_ElecEncoder_DataAddDir_Set i m)" for m
    by (simp add: APP_ElecEncoder_DataAddDir_Set_def APP_ElecEncoder_Position_DataAddDir_Set_def
      APP_ElecEncoder_Cabrage_DataAddDir_Set_def APP_ElecEncoder_Polarization_DataAddDir_Set_def coder_calls_keep)
  have g: "keeps enc_ok (APP_ElecEncoder_DataAddDir_Get i)"
    by (simp add: APP_ElecEncoder_DataAddDir_Get_def APP_ElecEncoder_Position_DataAddDir_Que_def
      APP_ElecEncoder_Cabrage_DataAddDir_Que_def APP_ElecEncoder_Polarization_DataAddDir_Que_def coder_calls_keep)
  show ?thesis
    unfolding APP_ElecEncoder_DataAddDir_Adjust_def Let_def set_twice_def
    by (intro keeps_seq sample_keeps gives_if gives_ret s g save_mode_keeps change_e_keeps; simp)
qed

lemma on_coders_keeps: "keeps enc_ok m \<Longrightarrow> keeps ctl_ok (on_coders m)"
proof (rule givesI)
  fix s x s'
  assume "keeps enc_ok m" "ctl_ok s" "on_coders m s = Inr (x, s')"
  then show "ctl_ok s' \<and> True"
    using givesD [of enc_ok _ m "(coders s)\<lparr>eep := (eep (coders s))\<lparr>acu := info s\<rparr>\<rparr>" x]
    by (auto simp: on_coders_def bind_f_Inr)
qed

subsection \<open>Drive unit and beacon receiver\<close>

lemma modify_keeps: "(\<And>p. pdu_ok p \<Longrightarrow> pdu_ok (f p)) \<Longrightarrow> keeps pdu_ok (modify f)"
  by (simp add: gives_def modify_def)

lemma link_keeps:
  "keeps pdu_ok (send_command c)" "keeps pdu_ok await_reply" "keeps pdu_ok (take_reply n r)" "keeps pdu_ok sem_pend"
  "keeps pdu_ok (modify sem_post)" "keeps pdu_ok (modify (link_stat v))" "keeps pdu_ok (modify (set_motor_move i d))"
  "keeps pdu_ok (modify (\<lambda>p. p))"
  by (auto simp: gives_def send_command_def await_reply_def take_reply_def sem_pend_def sem_post_def modify_def link_stat_def
      set_motor_move_def upd_info_def upd_sta_def acu_wf_def bind_f_Inr split: if_splits list.splits)

lemma modify_if: "keeps pdu_ok (modify f) \<Longrightarrow> keeps pdu_ok (modify g) \<Longrightarrow> keeps pdu_ok (modify (if c then f else g))"
  by simp

lemma motors_keep:
  "keeps pdu_ok (Motor_DriveStart i d)" "keeps pdu_ok (Motor_DriveEnd i d)"
  unfolding Motor_DriveStart_def Motor_DriveEnd_def
  by (intro keeps_seq gives_option gives_ret link_keeps TrueI)+

lemma DriveEnd_keeps: "keeps pdu_ok (Antenna_DriveEnd i d)"
  unfolding Antenna_DriveEnd_def
  by (intro keeps_seq gives_if gives_ret link_keeps motors_keep modify_if TrueI)

lemma DriveStart_keeps: "keeps pdu_ok (Antenna_DriveStart i d)"
proof (rule givesI)
  fix p x p'
  assume p: "pdu_ok p" "Antenna_DriveStart i d p = Inr (x, p')"
  have g: "keeps pdu_ok (bind_io sem_pend (\<lambda>_. bind_io (Motor_DriveStart i k) (\<lambda>sta.
      bind_io (modify (if sta = SUCC then set_motor_move i d else (\<lambda>s. s))) (\<lambda>_. bind_io (modify sem_post) (\<lambda>_. ret_io sta)))))" for k
    by (intro keeps_seq gives_ret link_keeps motors_keep modify_if TrueI)
  show "pdu_ok p' \<and> True"
    using p givesD [OF g p(1)] unfolding Antenna_DriveStart_def Let_def by (auto split: if_splits)
qed

lemma drives_keep: "keeps pdu_ok Antenna_AllDriveEnd" "keeps pdu_ok (Motor_TimeConfigDrive i d)"
  unfolding Antenna_AllDriveEnd_def stop_axis_def Motor_TimeConfigDrive_def
  by (intro keeps_seq gives_if gives_ret DriveEnd_keeps DriveStart_keeps TrueI)+

lemma change_b_keeps: "(\<And>b. bea_ok b \<Longrightarrow> bea_ok (f b)) \<Longrightarrow> keeps bea_ok (change_b f)"
  by (simp add: gives_def change_b_def)

lemma beacon_keeps: "keeps bea_ok beacon_pend" "keeps bea_ok (on_port6 m)"
  by (auto simp: gives_def beacon_pend_def on_port6_def bind_f_Inr split: if_splits)

lemma beacon_sets [simp]:
  "bea_ok (set_bstat f b) = bea_ok b" "bea_ok (set_bconf g b) = bea_ok b" "bea_ok (set_balarm h b) = bea_ok b"
  "bea_ok (set_err n b) = bea_ok b" "bea_ok (warn c b) = bea_ok b" "bea_ok (beacon_post b) = bea_ok b"
  by (simp_all add: beacon_defs acu_wf_def board_def upd_info_def upd_sta_def set_info_def set_cur_def)

lemma receiver_calls_keep: "keeps bea_ok (APP_BEACON_SetFreq n)" "keeps bea_ok (APP_BEACON_SetAGCOutputRange k)"
  unfolding APP_BEACON_SetFreq_def APP_BEACON_SetAGCOutputRange_def
  by (intro keeps_seq beacon_keeps gives_if gives_ret change_b_keeps;
      simp add: freq_set_def freq_failed_def range_set_def range_failed_def answered_well_def Let_def)+

lemma on_rcv_keeps: "keeps bea_ok m \<Longrightarrow> keeps ctl_ok (on_rcv m)"
  unfolding gives_def on_rcv_def info_def bind_f_Inr by fastforce

lemma on_drive_keeps:
  assumes "keeps pdu_ok m"
  shows "keeps ctl_ok (on_drive m)"
proof -
  have "keeps bea_ok (\<lambda>r. bind_f (on_link m (watch r)) (\<lambda>(x, w). Inr (x, r\<lparr>watch := w\<rparr>)))"
    using assms unfolding gives_def on_link_def board_def bind_f_Inr by fastforce
  then show ?thesis unfolding on_drive_def by (rule on_rcv_keeps)
qed

lemmas called = on_coders_keeps [OF Adjust_keeps] on_drive_keeps [OF drives_keep(1)] on_drive_keeps [OF drives_keep(2)]
  on_drive_keeps [OF motors_keep(1)] on_drive_keeps [OF motors_keep(2)] on_rcv_keeps [OF receiver_calls_keep(1)]
  on_rcv_keeps [OF receiver_calls_keep(2)]

section \<open>Commands\<close>

lemma alter_keeps: "(\<And>s. ctl_ok s \<Longrightarrow> ctl_ok (f s)) \<Longrightarrow> keeps ctl_ok (alter f)"
  by (simp add: gives_def alter_def)

lemma info_set_tasks [simp]: "info (set_tasks (TaskDel i) s) = info s"
  "info (set_tasks (\<lambda>w. w\<lparr>Task_Run_Flag := fs\<rparr>) s) = info s" "info (set_tasks (\<lambda>w. w\<lparr>Task_Run_Flag := h w\<rparr>) s) = info s"
  by (simp_all add: set_tasks_def TaskDel_def info_def board_def)

lemma info_delete [simp]: "info (delete_running i s) = info s" "info (delete_all s) = info s"
  "info (TaskAntennaRecordGotoCreate s) = info s" "info (TaskSatelliteTrackCreate s) = info s"
  "info (TaskSatGradientTrackCreate s) = info s" "info (ended_mode m t c s) = info s"
  by (simp_all add: delete_running_def delete_all_def TaskAntennaRecordGotoCreate_def TaskSatelliteTrackCreate_def
    TaskSatGradientTrackCreate_def ended_mode_def)

lemma stop_keeps: "keeps ctl_ok stop_all"
  unfolding stop_all_def by (intro keeps_seq gives_if gives_ret called TrueI)

lemma begin_keeps: "(\<And>s. ctl_ok s \<Longrightarrow> ctl_ok (f s)) \<Longrightarrow> keeps ctl_ok (begin_mode f)"
  unfolding begin_mode_def by (intro keeps_seq alter_keeps stop_keeps) simp_all

lemmas changes = setters refresh_param_def acu_wf_def hand_aims_def

lemmas rules = keeps_seq gives_if gives_ret gives_stay gives_fault gives_option called saved saves_within stop_keeps TrueI

subsection \<open>Modes, driving by hand, satellites\<close>

lemma Mode_keeps: "keeps ctl_ok (APP_PCCOMM_AimAtSatModeSel rx)" "keeps ctl_ok (APP_OLEDCOMM_AimAtSatModeSel rx)"
  unfolding APP_PCCOMM_AimAtSatModeSel_def APP_OLEDCOMM_AimAtSatModeSel_def Let_def
  by (intro rules begin_keeps alter_keeps; simp add: changes)+

lemma fine_bind: "gives ok Q (bind_io m k) \<Longrightarrow> ok s \<Longrightarrow> fine ok Q (bind_io m k s)"
  by (rule fine_gives)

lemmas finely = fine_if fine_option fine_Inr fine_Inl fine_bind

lemma Step_keeps: "keeps ctl_ok (APP_PCCOMM_AntennaSigleStepCtr rx)" "keeps ctl_ok (APP_OLEDCOMM_AntennaSigleStepCtr rx)"
  by (rule gives_fine, unfold APP_PCCOMM_AntennaSigleStepCtr_def APP_OLEDCOMM_AntennaSigleStepCtr_def,
      intro finely rules alter_keeps; simp add: changes)+

lemma Turn_keeps: "keeps ctl_ok (APP_PCCOMM_AntennaTurnCtr rx)" "keeps ctl_ok (APP_OLEDCOMM_AntennaTurnCtr rx)"
  by (rule gives_fine, unfold APP_PCCOMM_AntennaTurnCtr_def APP_OLEDCOMM_AntennaTurnCtr_def Let_def,
      intro finely; simp add: changes)+

lemma put_sat_keeps: "keeps ctl_ok (put_sat i)"
  by (rule gives_fine, unfold put_sat_def, intro finely; simp add: changes)

lemma total_keeps: "keeps ctl_ok (\<lambda>s. on_eeprom (APP_PARAM_SatTotalNum_Save (Sat_Total_num (sats s))) s)"
  by (rule gives_look) (intro rules)

lemma SatSet_keeps: "keeps ctl_ok (APP_PCCOMM_SatParamSet rx)"
  by (rule gives_fine, unfold APP_PCCOMM_SatParamSet_def Let_def,
      intro finely rules alter_keeps put_sat_keeps total_keeps; simp add: changes)

lemma named: "gives ok (\<lambda>(r, y). Q y) m \<Longrightarrow> (\<And>r y. Q y \<Longrightarrow> gives ok P (k r y)) \<Longrightarrow> gives ok P (bind_io m (\<lambda>(r, y). k r y))"
  by (erule gives_seq) (auto split: prod.split)

lemma delete_sat_gives:
  assumes "length (sat_name old) = 16"
  shows "gives ctl_ok (\<lambda>x. length (sat_name x) = 16) (delete_sat i old)"
proof -
  have "length (sat_name (old\<lparr>sat_id := i\<rparr>)) = 16" using assms by simp
  from on_eeprom_gives [OF SatParam_Read_gives [OF this]]
  have r: "gives ctl_ok (\<lambda>(r, y). length (sat_name y) = 16) (on_eeprom (APP_PARAM_SatParam_Read (old\<lparr>sat_id := i\<rparr>)))" .
  show ?thesis
    by (rule gives_fine, unfold delete_sat_def, intro finely keeps_seq [OF alter_keeps] named [OF r] rules alter_keeps;
        simp add: changes assms)
qed

lemma delete_sats_keeps: "length (sat_name old) = 16 \<Longrightarrow> gives ctl_ok (\<lambda>x. length (sat_name x) = 16) (delete_sats is old)"
  by (induction "is" arbitrary: old) (auto intro: gives_ret gives_seq [OF delete_sat_gives])

lemma DelSat_keeps: "length (sat_name old) = 16 \<Longrightarrow> keeps ctl_ok (APP_PCCOMM_DelSatSet old rx)"
  by (rule gives_fine, unfold APP_PCCOMM_DelSatSet_def,
      intro finely keeps_seq [OF keeps_weaken [OF delete_sats_keeps]] rules total_keeps; simp)

lemma Aim_keeps: "keeps ctl_ok (APP_MONITOR_AimDegree_Get m)"
  by (rule gives_fine, auto simp: APP_MONITOR_AimDegree_Get_def Let_def bind_f_def fine_def changes split: sum.splits)

lemma look_keeps:
  "keeps ctl_ok (\<lambda>s. on_eeprom (APP_PARAM_HistoryMaxMv_Save p (at_null s)) s)"
  "keeps ctl_ok (\<lambda>s. on_eeprom (APP_PARAM_HistoryMaxMv_Save (at_history s) v) s)"
  "keeps ctl_ok (\<lambda>s. on_eeprom (APP_PARAM_CurrSatParam_Save (CurrSatParam (ACUParam (info s)))) s)"
  "keeps ctl_ok (\<lambda>s. on_eeprom (APP_PARAM_AntennaParam_Save (antenna s)) s)"
  "keeps ctl_ok (\<lambda>s. on_eeprom (APP_PARAM_LocallParamSrc_Save (lp_data_src_flag (LocalPositionParam (ACUParam (info s))))) s)"
  "keeps ctl_ok (\<lambda>s. on_eeprom (APP_PARAM_AimAtSatParamLimitmv_Save (SeekSatParam (ACUParam (info s)))) s)"
  "keeps ctl_ok (\<lambda>s. on_eeprom (APP_PARAM_NetWork_Save (network s)) s)"
  "keeps ctl_ok (\<lambda>s. on_eeprom (APP_PARAM_AntennaDir_Map_MotorDir_Save i (AntennaDirMapMotor (antenna s) ! k)) s)"
  "keeps ctl_ok (\<lambda>s. on_drive (Motor_DriveEnd (turning_part s) (turning_dir s)) s)"
  by (rule gives_look, intro rules)+

lemma SelSat_keeps:
  assumes "length (sat_name x) = 16"
  shows "keeps ctl_ok (APP_PCCOMM_SelSat m x rx)" "keeps ctl_ok (APP_OLEDCOMM_SelSat m x rx)"
proof -
  have "length (sat_name (x\<lparr>sat_id := rx ! 3\<rparr>)) = 16" using assms by simp
  from on_eeprom_gives [OF SatParam_Read_gives [OF this]]
  have r: "gives ctl_ok (\<lambda>(r, y). length (sat_name y) = 16) (on_eeprom (APP_PARAM_SatParam_Read (x\<lparr>sat_id := rx ! 3\<rparr>)))" .
  have seen: "gives ctl_ok P (\<lambda>s. bind_io (on_rcv (APP_BEACON_SetFreq (h (antenna s)))) k s)"
    if "\<And>q. gives ctl_ok P (k q)" for h k and P :: "status \<Rightarrow> bool"
    by (rule gives_look) (intro rules that)
  show "keeps ctl_ok (APP_PCCOMM_SelSat m x rx)" "keeps ctl_ok (APP_OLEDCOMM_SelSat m x rx)"
    by (rule gives_fine, unfold APP_PCCOMM_SelSat_def APP_OLEDCOMM_SelSat_def Let_def,
        intro finely named [OF r] seen look_keeps rules Aim_keeps alter_keeps; simp add: changes)+
qed

subsection \<open>Recorded positions\<close>

lemma put_record_keeps: "keeps ctl_ok (put_record i)"
  by (rule gives_fine, unfold put_record_def, intro finely; simp add: changes)

lemma recount_keeps: "keeps ctl_ok (count_record n)"
  by (rule gives_fine, unfold count_record_def Let_def, intro finely rules alter_keeps; simp add: changes)

lemma Record_keeps: "keeps ctl_ok (APP_PCCOMM_AntennaRecord rx)"
  by (rule gives_fine, unfold APP_PCCOMM_AntennaRecord_def Let_def,
      intro finely rules alter_keeps put_record_keeps recount_keeps; simp)

lemma Read2Struct_keeps: "(\<And>a b c d e f. gives ctl_ok P (k a b c d e f))
    \<Longrightarrow> gives ctl_ok P (bind_io (on_eeprom (APP_PARAM_AntennaRecord_Read2Struct i old)) (\<lambda>(a, b, c, d, e, f). k a b c d e f))"
  by (rule keeps_seq [OF saved(1) [OF saves_within(8)]]) (simp add: case_prod_unfold)

lemma delete_record_keeps: "keeps ctl_ok (delete_record i)" "keeps ctl_ok (panel_delete_record i)"
  by (rule gives_fine, unfold delete_record_def panel_delete_record_def,
      intro finely keeps_seq [OF alter_keeps] Read2Struct_keeps rules alter_keeps; simp add: changes)+

lemma delete_records_keeps: "keeps ctl_ok (delete_records is)" "keeps ctl_ok (panel_delete_records is)"
  by (induction "is") (auto intro: rules delete_record_keeps)

lemma DelRecord_keeps: "keeps ctl_ok (APP_PCCOMM_DelAntennaRecord rx)" "keeps ctl_ok (APP_OLEDCOMM_DelAntennaRecord rx)"
  by (rule gives_fine, unfold APP_PCCOMM_DelAntennaRecord_def APP_OLEDCOMM_DelAntennaRecord_def,
      intro finely rules delete_records_keeps; simp)+

lemma leave_keeps: "keeps ctl_ok leave_mode"
  by (rule gives_fine, unfold leave_mode_def, intro finely rules alter_keeps; simp add: changes)

lemma goto_keeps:
  assumes "length b = 100"
  shows "keeps ctl_ok (goto_record b)" "keeps ctl_ok (panel_goto_record b)"
  by (rule gives_fine, unfold goto_record_def panel_goto_record_def Let_def,
      intro finely rules alter_keeps look_keeps; simp add: changes sat_of_record_def aims_of_record_def assms)+

lemma Goto_keeps: "keeps ctl_ok (APP_PCCOMM_AntennaRecordGoto rx)" "keeps ctl_ok (APP_OLEDCOMM_AntennaRecordGoto rx)"
proof -
  have r: "gives ctl_ok (\<lambda>(r, b). length b = 100) (on_eeprom (APP_PARAM_AntennaRecord_Read (rx ! 3) (replicate 100 0)))"
    using on_eeprom_gives [OF Record_Read_gives [of "replicate 100 0"]] by simp
  have g: "keeps ctl_ok (bind_io leave_mode (\<lambda>_ s. if cmd_of rx \<noteq> AntennaRecordGotoID then Inr (FAIL, s)
       else if rx ! 3 > of_nat ANTENNA_RECORD_MAX_NUM \<or> rx ! 3 = 0 then Inr (FAIL, s)
       else if rx ! 3 \<notin> set (record_ID (records s)) then Inr (FAIL, s)
       else bind_io (on_eeprom (APP_PARAM_AntennaRecord_Read (rx ! 3) (replicate 100 0))) (\<lambda>(r, b).
         if r = FAIL then ret_io FAIL
         else if rx ! 3 \<noteq> b ! 0 then ret_io FAIL else h b) s))" if h: "\<And>b. length b = 100 \<Longrightarrow> keeps ctl_ok (h b)" for h
    by (rule keeps_seq [OF leave_keeps], rule gives_fine, intro finely named [OF r] rules h; simp)
  show "keeps ctl_ok (APP_PCCOMM_AntennaRecordGoto rx)" "keeps ctl_ok (APP_OLEDCOMM_AntennaRecordGoto rx)"
    unfolding APP_PCCOMM_AntennaRecordGoto_def APP_OLEDCOMM_AntennaRecordGoto_def Let_def
    by (rule g, rule goto_keeps, simp)+
qed

lemma AGC_keeps: "keeps ctl_ok (APP_PCCOMM_AGCRecord rx)" "keeps ctl_ok (APP_OLEDCOMM_AGCRecord rx)"
  by (rule gives_fine, unfold APP_PCCOMM_AGCRecord_def APP_OLEDCOMM_AGCRecord_def, intro finely fine_gives [OF saved(2)]; simp)+

subsection \<open>Setting up\<close>

lemma clear_keeps: "keeps ctl_ok clear_all_records"
  unfolding clear_all_records_def
  by (intro rules alter_keeps; simp add: changes zero_strAntennaRecordList_def)

lemma gain_keeps: "keeps ctl_ok (set_gain_range f)"
proof (rule gives_fine)
  fix s
  assume s: "ctl_ok s"
  have b: "keeps ctl_ok (alter (\<lambda>s1. s1\<lparr>rcv := set_bconf g (rcv s1)\<rparr>))" for g
    by (rule alter_keeps) (simp add: info_def)
  show "fine ctl_ok (\<lambda>_. True) (set_gain_range f s)"
    unfolding set_gain_range_def by (intro finely rules b; simp add: s)
qed

lemma length_scan [simp]: "length (scan_ranges n r) = length r"
  by (simp add: scan_ranges_def)

lemma AntennaSet_keeps: "keeps ctl_ok (APP_PCCOMM_AntennaParamSet m rx)"
proof -
  have c: "keeps ctl_ok (\<lambda>s. if h s then clear_all_records s else Inr ((), s))" for h
    by (rule gives_fine, intro finely fine_gives [OF clear_keeps]; simp)
  show ?thesis unfolding APP_PCCOMM_AntennaParamSet_def Let_def
    by (intro rules gain_keeps c Aim_keeps look_keeps alter_keeps; simp add: changes antenna_of_cmd_def)
qed

lemma adjusted_map_length:
  "adjusted_map e d = Some e' \<Longrightarrow> length (ElecCoderMapAntenna e) = 3 \<Longrightarrow> length (ElecCoderMapAntenna e') = 3"
  by (auto simp: adjusted_map_def Let_def split: if_splits)

lemma AdjustSet_keeps:
  "length (ElecCoderMapAntenna e) = 3 \<Longrightarrow> keeps ctl_ok (APP_PCCOMM_AntennaParamAdjustSet e rx)"
  by (rule gives_fine, unfold APP_PCCOMM_AntennaParamAdjustSet_def,
      intro finely rules alter_keeps clear_keeps; simp add: changes adjusted_map_length)

lemma Local_keeps: "keeps ctl_ok (APP_PCCOMM_LocalParamSet m h rx)" "keeps ctl_ok (APP_OLEDCOMM_LocalParamSet m h rx)"
  by (rule gives_fine, unfold APP_PCCOMM_LocalParamSet_def APP_OLEDCOMM_LocalParamSet_def Let_def,
      intro finely rules alter_keeps Aim_keeps; simp add: changes set_local_def set_hand_def)+

lemma source_keeps: "keeps ctl_ok (alter (take_source n))" "keeps ctl_ok (alter (panel_source n))"
  by (rule alter_keeps, simp add: take_source_def panel_source_def set_local_def changes Let_def)+

lemma LocalSrc_keeps: "keeps ctl_ok (APP_PCCOMM_LocalParamSrcSelSet m rx)" "keeps ctl_ok (APP_OLEDCOMM_LocalParamSrcSelSet m rx)"
  unfolding APP_PCCOMM_LocalParamSrcSelSet_def APP_OLEDCOMM_LocalParamSrcSelSet_def
  by (intro rules source_keeps Aim_keeps look_keeps)+

lemma DateSrc_keeps: "keeps ctl_ok (APP_PCCOMM_SysDateTimeSrcSelSet rx)" "keeps ctl_ok (APP_OLEDCOMM_SysDateTimeSrcSelSet rx)"
  by (rule gives_fine, unfold APP_PCCOMM_SysDateTimeSrcSelSet_def APP_OLEDCOMM_SysDateTimeSrcSelSet_def Let_def,
      intro finely; simp add: changes)+

lemma AimParam_keeps: "keeps ctl_ok (APP_PCCOMM_AimAtSatParamSet rx)"
  unfolding APP_PCCOMM_AimAtSatParamSet_def by (intro rules alter_keeps look_keeps; simp add: changes)

lemma TurnBegin_keeps: "keeps ctl_ok (APP_PCCOMM_AntennaTurnDirAdjustBegin rx)"
  unfolding APP_PCCOMM_AntennaTurnDirAdjustBegin_def by (intro rules alter_keeps; simp add: changes)

lemma give_up_keeps: "keeps ctl_ok give_up" "keeps ctl_ok end_turn"
  unfolding give_up_def end_turn_def by (intro rules alter_keeps look_keeps; simp add: changes)+

lemma map_dir_keeps: "is_part part \<Longrightarrow> keeps ctl_ok (alter (map_dir part dir))"
proof (rule alter_keeps)
  fix s
  assume p: "is_part part" and s: "ctl_ok s"
  let ?ms = "AntennaDirMapMotor (antenna s)"
  have ms: "length ?ms = 3" "\<forall>m \<in> set ?ms. length (motor_dir m) = 2" using s by (simp_all add: acu_wf_def antenna_def)
  have "unat part - 1 < 3" using p by (auto simp: is_part_def)
  then have "length (motor_dir (?ms ! (unat part - 1))) = 2" using ms by simp
  then show "ctl_ok (map_dir part dir s)"
    using s ms(2) unfolding map_dir_def antenna_def
    by (auto simp: changes dest!: subsetD [OF set_update_subset_insert])
qed

lemma TurnFinish_keeps: "keeps ctl_ok (APP_PCCOMM_AntennaTurnDirAdjustFinish mode rx)"
proof -
  have f: "keeps ctl_ok (finish_turn mode part dir)" if "is_part part" for part dir
    unfolding finish_turn_def
    by (intro rules map_dir_keeps that look_keeps give_up_keeps alter_keeps; simp add: changes)
  show ?thesis
    by (rule gives_fine, unfold APP_PCCOMM_AntennaTurnDirAdjustFinish_def Let_def,
        intro finely fine_gives [OF give_up_keeps(1)] fine_gives [OF f] rules give_up_keeps; simp)
qed

lemma new_limit_dirs [simp]: "AntennaDirMapMotor (new_limit p x a) = AntennaDirMapMotor a"
  by (simp add: new_limit_def Let_def)

lemma Limit_keeps: "keeps ctl_ok (APP_PCCOMM_AntennaHargWareLimitAdjust rx)"
  by (rule gives_fine, unfold APP_PCCOMM_AntennaHargWareLimitAdjust_def Let_def,
      intro finely rules alter_keeps; simp add: changes)

lemma change_net_keeps: "ctl_ok s \<Longrightarrow> (\<And>n. nw_mac (put n) = nw_mac n) \<Longrightarrow> ctl_ok (change_net v get put c b s)"
  by (simp add: change_net_def acu_wf_def)

lemma Net_keeps: "keeps ctl_ok (APP_PCCOMM_NetWorkSet rx)" "keeps ctl_ok (APP_OLEDCOMM_NetWorkSet rx)"
  by (rule gives_fine, unfold APP_PCCOMM_NetWorkSet_def APP_OLEDCOMM_NetWorkSet_def Let_def,
      intro finely rules alter_keeps look_keeps change_net_keeps gives_fine; simp)+

lemma Factory_keeps: "keeps ctl_ok (APP_PCCOMM_FactoryReset rx)"
  unfolding APP_PCCOMM_FactoryReset_def save_limit_def by (intro rules alter_keeps; simp add: changes)

lemma PanelRecord_keeps: "keeps ctl_ok (APP_OLEDCOMM_AntennaRecord w rx)"
  by (rule gives_fine, unfold APP_OLEDCOMM_AntennaRecord_def Let_def case_prod_unfold,
      intro finely rules alter_keeps put_record_keeps recount_keeps; simp add: changes)

lemma PanelDate_keeps: "keeps ctl_ok (APP_OLEDCOMM_SysDateTimeSet now rx)"
  by (rule gives_fine, unfold APP_OLEDCOMM_SysDateTimeSet_def, intro finely; simp add: changes)

section \<open>The tables\<close>

text \<open>The commands of \<open>PCCOMMCmdDealTbl\<close> in the order of the table, but those that set the date and the administration. \<open>m\<close> is the
  mathematical library; the others are what the local and static variables of the handlers hold.\<close>

definition pc_commands ::
    "libm \<Rightarrow> strHandLocalPositionParam \<Rightarrow> strSatParam \<Rightarrow> strAllElecCoderMapAntenna \<Rightarrow> u8 \<Rightarrow> (u16 \<times> command) list" where
  "pc_commands m hand sat emap mode =
     [(SatParamSetID, APP_PCCOMM_SatParamSet), (AntennaParamSetID, APP_PCCOMM_AntennaParamSet m),
      (AntennaParamAdjustID, APP_PCCOMM_AntennaParamAdjustSet emap), (LocalParamSetID, APP_PCCOMM_LocalParamSet m hand),
      (LocalParamSrcSelSetID, APP_PCCOMM_LocalParamSrcSelSet m), (SysDateTimeSrcSelSetID, APP_PCCOMM_SysDateTimeSrcSelSet),
      (SatDelID, \<lambda>rx. bind_io (APP_PCCOMM_DelSatSet sat rx) (\<lambda>(r, _). ret_io r)),
      (AimAtSatParamSetID, APP_PCCOMM_AimAtSatParamSet), (AntennaTurnDirAdjustBeginSetID, APP_PCCOMM_AntennaTurnDirAdjustBegin),
      (AntennaTurnDirAdjustFinishSetID, APP_PCCOMM_AntennaTurnDirAdjustFinish mode),
      (AntennaHardWareLimitSetID, APP_PCCOMM_AntennaHargWareLimitAdjust), (AimAtSatModeSelID, APP_PCCOMM_AimAtSatModeSel),
      (AntennaRecordID, APP_PCCOMM_AntennaRecord), (AntennaSigleStepCtrID, APP_PCCOMM_AntennaSigleStepCtr),
      (AntennaDegreeCtrID, APP_PCCOMM_AntennaTurnCtr), (AntennaRecordGotoID, APP_PCCOMM_AntennaRecordGoto),
      (AntennaRecordDelID, APP_PCCOMM_DelAntennaRecord), (AGCRecordID, APP_PCCOMM_AGCRecord), (SatSelID, APP_PCCOMM_SelSat m sat),
      (NetWorkSetID, \<lambda>rx. bind_io (APP_PCCOMM_NetWorkSet rx) (\<lambda>(r, _). ret_io r)), (FactoryResetID, APP_PCCOMM_FactoryReset)]"

lemma drop_result: "keeps ok m \<Longrightarrow> keeps ok (bind_io m (\<lambda>(r, _). ret_io r))"
  by (rule keeps_seq) (simp_all add: case_prod_unfold gives_ret)

lemma commands_keep:
  assumes "(c, h) \<in> set (pc_commands m hand sat emap mode @ panel_commands m hand sat)" "length (sat_name sat) = 16"
    "length (ElecCoderMapAntenna emap) = 3"
  shows "keeps ctl_ok (h rx)"
  using assms(1)
  by (auto simp: pc_commands_def panel_commands_def intro!: drop_result
    SatSet_keeps AntennaSet_keeps AdjustSet_keeps [OF assms(3)] Local_keeps LocalSrc_keeps DateSrc_keeps DelSat_keeps [OF assms(2)]
    AimParam_keeps TurnBegin_keeps TurnFinish_keeps Limit_keeps Mode_keeps Record_keeps Step_keeps Turn_keeps Goto_keeps DelRecord_keeps
    AGC_keeps SelSat_keeps [OF assms(2)] Net_keeps Factory_keeps)

text \<open>A session: commands one after the other, each handler with what its variables hold at that time; a fault ends it.\<close>

fun session :: "(command \<times> bytes) list \<Rightarrow> unit ctio" where
  "session [] = ret_io ()"
| "session ((h, rx) # cs) = bind_io (h rx) (\<lambda>_. session cs)"

definition known_command :: "libm \<Rightarrow> command \<Rightarrow> bool" where
  "known_command m h \<longleftrightarrow> (\<exists>c hand sat emap mode. length (sat_name sat) = 16 \<and> length (ElecCoderMapAntenna emap) = 3
     \<and> (c, h) \<in> set (pc_commands m hand sat emap mode @ panel_commands m hand sat))"

lemma known_keeps: "known_command m h \<Longrightarrow> keeps ctl_ok (h rx)"
  unfolding known_command_def using commands_keep by blast

text \<open>The device record keeps its type: after any sequence of commands of PCs and panel, whatever their bytes, on any hardware and
  whatever the uninitialised variables hold, every array of the record has its length.\<close>

theorem commands_keep_types:
  assumes "\<forall>(h, rx) \<in> set cs. known_command m h" "acu_wf (info s)" "session cs s = Inr (u, s')"
  shows "acu_wf (info s')"
proof -
  have "keeps ctl_ok (session cs)" using assms(1)
    by (induction cs rule: session.induct) (auto intro: rules known_keeps)
  from givesD [OF this assms(2,3)] show ?thesis by simp
qed

theorem commands_keep_types_witness:
  "\<exists>s'. session [(APP_PCCOMM_AntennaTurnCtr, [2, 4, 0]), (APP_OLEDCOMM_AimAtSatModeSel, [2, 1, 1, 1])] (blank []) = Inr ((), s')
     \<and> acu_wf (info s')"
proof -
  let ?cs = "[(APP_PCCOMM_AntennaTurnCtr, [2, 4, 0 :: u8]), (APP_OLEDCOMM_AimAtSatModeSel, [2, 1, 1, 1])]"
  have k: "known_command flat_libm APP_PCCOMM_AntennaTurnCtr" "known_command flat_libm APP_OLEDCOMM_AimAtSatModeSel"
    unfolding known_command_def
    by (intro exI [of _ AntennaDegreeCtrID] exI [of _ zero_strSatParam] exI [of _ zero_strAllElecCoderMapAntenna] exI;
      simp add: pc_commands_def zero_strSatParam_def zero_strAllElecCoderMapAntenna_def)
      (intro exI [of _ AimAtSatModeSelID] exI [of _ zero_strSatParam] exI [of _ zero_strAllElecCoderMapAntenna] exI;
      simp add: panel_commands_def zero_strSatParam_def zero_strAllElecCoderMapAntenna_def)
  have "\<not> isl (session ?cs (blank []))" by code_simp
  then obtain s' where s': "session ?cs (blank []) = Inr ((), s')" by (cases "session ?cs (blank [])") auto
  have "\<forall>(h, rx) \<in> set ?cs. known_command flat_libm h" using k by simp
  from commands_keep_types [OF this _ s'] show ?thesis using s' zero_acu_wf by simp
qed

end
