(* ===== verification/RecordGoto.thy ===== *)
theory RecordGoto
  imports TrackFaults
begin

text \<open>
  \<open>TaskAntennaRecordGoto\<close> of \<open>APP/src/main.c\<close>, the task that drives to a recorded position (mode 4) or to the angles
  given by hand (mode 1). It waits for its flag \<open>Task_Run_Flag[2]\<close>, makes one run from the label \<open>_Begin\<close> to the label
  \<open>_END\<close>, and waits again; \<open>goto_run\<close> is one run. As in theory \<open>Track\<close> every reading of an angle takes the next element of
  \<open>feed\<close>; two readings in one condition are two elements.

  \<open>cancel\<close> is what another task has done before each reading of the flag at the end of a turn: \<open>Some m\<close> cleared it and set the mode
  to \<open>m\<close>. When the trace is used up nobody clears it any more. The local variables of the function keep their values between two runs and
  are not initialised: a run gets them as an argument. The result says how the label \<open>_END\<close> is reached: \<open>None\<close> by a
  \<open>goto\<close>.
\<close>

section \<open>State\<close>

record gto =
  trk :: trk
  cancel :: "u8 option list"
  run_flag :: bool

type_synonym 'a gio = "('a, gto) st"

definition on_trk :: "'a tio \<Rightarrow> 'a gio" where
  "on_trk m s = bind_f (m (trk s)) (\<lambda>(x, t). Inr (x, s\<lparr>trk := t\<rparr>))"

text \<open>\<open>dir\<close>, \<open>cmp_dir\<close>, \<open>motor_run_flag\<close>, \<open>err_cnt\<close> and the old angle of one axis.\<close>

record axis =
  ax_dir :: u8
  ax_cmp_dir :: u8
  ax_run :: bool
  ax_err_cnt :: u32
  ax_old :: fp32

text \<open>Position, elevation, polarisation.\<close>

type_synonym axes = "axis \<times> axis \<times> axis"
type_synonym aims = "fp32 \<times> fp32 \<times> fp32"

text \<open>\<open>D_value\<close> is a float, the distance below which an axis has not moved a double.\<close>

definition D_value :: "u8 \<Rightarrow> fp32" where
  "D_value part = (if part = motor_polar_id then f32 (f64 (5 / 100)) else f32 (f64 (1 / 100)))"

definition slack :: "u8 \<Rightarrow> rat" where
  "slack part = (if part = motor_polar_id then f64 (2 / 10) else f64 (8 / 1000))"

section \<open>One axis\<close>

text \<open>The direction towards the aim, 0 within \<open>D_value\<close>.\<close>

definition side :: "u8 \<Rightarrow> fp32 \<Rightarrow> u8 tio" where
  "side part aim =
     bind_io (APP_CurrDegree_Get_FP part) (\<lambda>x.
       if x > f32 (aim + D_value part) then ret_io ANTENNA_DIR_LEFT_DOWN_ANTICLOCK
       else bind_io (APP_CurrDegree_Get_FP part) (\<lambda>y.
         ret_io (if y < f32 (aim - D_value part) then ANTENNA_DIR_RIGHT_UP_CLOCK else 0)))"

text \<open>\<open>if(f() == FAIL) \<lbrace> if(f() == FAIL) goto _END; \<rbrace>\<close> is \<open>APP_MotorStart\<close> and \<open>APP_MotorEnd\<close> of theory \<open>Track\<close>.\<close>

definition start_axis :: "u8 \<Rightarrow> fp32 \<Rightarrow> axis \<Rightarrow> axis option tio" where
  "start_axis part aim a =
     bind_io (side part aim) (\<lambda>dir.
       if dir > 0 then ok_then (APP_MotorStart part dir) (ret_io (Some (a\<lparr>ax_dir := dir, ax_run := True\<rparr>)))
       else ret_io (Some (a\<lparr>ax_dir := dir, ax_run := False\<rparr>)))"

definition end_axis :: "u8 \<Rightarrow> axis \<Rightarrow> axis option tio" where
  "end_axis part a = ok_then (APP_MotorEnd part 0) (ret_io (Some (a\<lparr>ax_run := False\<rparr>)))"

definition not_moved :: "u8 \<Rightarrow> fp32 \<Rightarrow> bool tio" where
  "not_moved part old =
     bind_io (APP_CurrDegree_Get_FP part) (\<lambda>x.
       if old \<le> f64 (x + slack part) then
         bind_io (APP_CurrDegree_Get_FP part) (\<lambda>y. ret_io (old \<ge> f64 (y - slack part)))
       else ret_io False)"

definition watch_axis :: "u8 \<Rightarrow> axis \<Rightarrow> axis option tio" where
  "watch_axis part a =
     bind_io (not_moved part (ax_old a)) (\<lambda>stuck.
       if stuck then
         let b = a\<lparr>ax_err_cnt := ax_err_cnt a + 1\<rparr> in
         if ax_err_cnt b > 1000 then end_axis part b else ret_io (Some b)
       else bind_io (APP_CurrDegree_Get_FP part) (\<lambda>z. ret_io (Some (a\<lparr>ax_old := z, ax_err_cnt := 0\<rparr>))))"

text \<open>An axis that has arrived is stopped twice: \<open>cmp_dir\<close> is 0 then, which is not \<open>dir\<close>.\<close>

definition turn_axis :: "u8 \<Rightarrow> fp32 \<Rightarrow> axis \<Rightarrow> axis option tio" where
  "turn_axis part aim a =
     (if \<not> ax_run a then ret_io (Some a)
      else bind_io (side part aim) (\<lambda>c.
        let a1 = a\<lparr>ax_cmp_dir := c\<rparr> in
        some_then (if c = 0 then end_axis part a1 else ret_io (Some a1)) (\<lambda>a2.
        some_then (if ax_dir a2 \<noteq> ax_cmp_dir a2 then end_axis part a2 else ret_io (Some a2)) (\<lambda>a3.
          watch_axis part a3))))"

section \<open>One run\<close>

definition three_coders :: "bool tio" where
  "three_coders = get_io (\<lambda>s. ant_elec_coder_num (AntennaParam (par s)) \<ge> 3)"

definition with_polar :: "(axis \<Rightarrow> axis option tio) \<Rightarrow> axis \<Rightarrow> axis option tio" where
  "with_polar f a = bind_io three_coders (\<lambda>three. if three then f a else ret_io (Some a))"

text \<open>The three axes one after the other.\<close>

definition in_turn :: "(u8 \<Rightarrow> fp32 \<Rightarrow> axis \<Rightarrow> axis option tio) \<Rightarrow> aims \<Rightarrow> axes \<Rightarrow> axes option tio" where
  "in_turn f = (\<lambda>(az, el, pl) (a, e, p).
     some_then (f motor_position_id az a) (\<lambda>a1.
     some_then (f motor_cabrage_id el e) (\<lambda>e1.
     some_then (with_polar (f motor_polar_id pl) p) (\<lambda>p1. ret_io (Some (a1, e1, p1))))))"

definition all_ended :: "axes \<Rightarrow> bool" where
  "all_ended = (\<lambda>(a, e, p). \<not> ax_run a \<and> \<not> ax_run e \<and> \<not> ax_run p)"

definition set_mode :: "u8 \<Rightarrow> gto \<Rightarrow> gto" where
  "set_mode v s = s\<lparr>trk := (trk s)\<lparr>base := upd_param (\<lambda>p. p\<lparr>SeekSatParam := (SeekSatParam p)\<lparr>SeekSat_Mode := v\<rparr>\<rparr>) (base (trk s))\<rparr>\<rparr>"

definition look_flag :: "bool gio" where
  "look_flag s = (case cancel s of [] \<Rightarrow> Inr (run_flag s, s)
     | c # cs \<Rightarrow> (let s1 = s\<lparr>cancel := cs\<rparr>; s2 = (case c of None \<Rightarrow> s1 | Some m \<Rightarrow> set_mode m (s1\<lparr>run_flag := False\<rparr>))
         in Inr (run_flag s2, s2)))"

text \<open>A turn takes a reading of an angle or of the flag, or nothing changes any more: \<open>fuel_for\<close> turns are enough.\<close>

fun drive_loop :: "nat \<Rightarrow> aims \<Rightarrow> axes \<Rightarrow> axes option gio" where
  "drive_loop 0 t x s = Inl Unfinished"
| "drive_loop (Suc n) t x s =
     bind_io (on_trk (in_turn turn_axis t x)) (\<lambda>r. case r of None \<Rightarrow> ret_io None
       | Some y \<Rightarrow> if all_ended y then ret_io (Some y)
           else bind_io look_flag (\<lambda>b. if \<not> b then ret_io None else drive_loop n t y)) s"

definition fuel_for :: "gto \<Rightarrow> nat" where
  "fuel_for s = Suc (length (feed (trk s)) + length (cancel s))"

definition drive_pass :: "aims \<Rightarrow> axes \<Rightarrow> axes option gio" where
  "drive_pass t x =
     bind_io (on_trk (in_turn start_axis t x)) (\<lambda>r. case r of None \<Rightarrow> ret_io None
       | Some y \<Rightarrow> (\<lambda>s. drive_loop (fuel_for s) t y s))"

fun passes :: "nat \<Rightarrow> aims \<Rightarrow> axes \<Rightarrow> unit option gio" where
  "passes 0 t x = ret_io (Some ())"
| "passes (Suc n) t x = bind_io (drive_pass t x) (\<lambda>r. case r of None \<Rightarrow> ret_io None | Some y \<Rightarrow> passes n t y)"

definition alter_g :: "(gto \<Rightarrow> gto) \<Rightarrow> unit gio" where
  "alter_g f s = Inr ((), f s)"

definition mode_of :: "gto \<Rightarrow> u8" where
  "mode_of s = SeekSat_Mode (SeekSatParam (par (trk s)))"

definition set_work :: "u8 \<Rightarrow> gto \<Rightarrow> gto" where
  "set_work v s = s\<lparr>trk := set_sta (\<lambda>c. c\<lparr>dev_work_sta := v\<rparr>) (trk s)\<rparr>"

text \<open>In another mode the aims of the run before are used.\<close>

definition aims_for :: "aims \<Rightarrow> gto \<Rightarrow> aims" where
  "aims_for old s =
     (let a = AntennaParam (par (trk s)) in
      if mode_of s = 0x04 then (aim_position a, aim_cabrage a, aim_polar a)
      else if mode_of s = 0x01 then (aim_position_hand a, aim_cabrage_hand a, aim_polar_hand a)
      else old)"

definition note_begin :: "gto \<Rightarrow> gto" where
  "note_begin s = (if mode_of s = 0x04 then set_work 0x40 s else if mode_of s = 0x01 then set_work 0x10 s else s)"

definition note_end :: "gto \<Rightarrow> gto" where
  "note_end s =
     (if mode_of s = 0x00 then set_work 0x00 s
      else if mode_of s = 0x04 then set_work 0x00 (set_mode 0x00 s)
      else if mode_of s = 0x01 then set_work 0x11 s else s)\<lparr>run_flag := False\<rparr>"

definition cleared :: "axes \<Rightarrow> axes" where
  "cleared = (\<lambda>(a, e, p). (a\<lparr>ax_run := False, ax_err_cnt := 0\<rparr>, e\<lparr>ax_run := False, ax_err_cnt := 0\<rparr>,
     p\<lparr>ax_run := False, ax_err_cnt := 0\<rparr>))"

definition goto_run :: "aims \<Rightarrow> axes \<Rightarrow> unit option gio" where
  "goto_run old x s =
     bind_io (alter_g (\<lambda>s. note_begin (s\<lparr>run_flag := True\<rparr>))) (\<lambda>_.
     bind_io (passes 3 (aims_for old s) (cleared x)) (\<lambda>r.
     bind_io (alter_g note_end) (\<lambda>_. ret_io r))) s"

end
