(* ===== verification/GotoProps.thy ===== *)
theory GotoProps
  imports RecordGoto
begin

text \<open>
  The drive to a recorded position: when it comes to its end all axes stand; on an antenna that does not move it
  ends; a drive that is cancelled, or that cannot start an axis, leaves the others turning.
\<close>

section \<open>A completed run stops every axis\<close>

text \<open>An axis that is not marked as running stands.\<close>

definition standing :: "axes \<Rightarrow> trk \<Rightarrow> bool" where
  "standing = (\<lambda>(a, e, p) s. length (moves s) = 3 \<and> (\<not> ax_run a \<longrightarrow> moves s ! 0 = 0) \<and> (\<not> ax_run e \<longrightarrow> moves s ! 1 = 0)
     \<and> (\<not> ax_run p \<longrightarrow> moves s ! 2 = 0))"

text \<open>A step that acts on one axis: the others keep what they do, and this one stands unless it is marked.\<close>

definition handles :: "nat \<Rightarrow> axis option tio \<Rightarrow> bool \<Rightarrow> bool" where
  "handles i m run \<longleftrightarrow> (\<forall>s a s'. m s = Inr (Some a, s') \<longrightarrow> length (moves s) = 3 \<longrightarrow> (\<not> run \<longrightarrow> moves s ! i = 0) \<longrightarrow>
     length (moves s') = 3 \<and> (\<not> ax_run a \<longrightarrow> moves s' ! i = 0) \<and> (\<forall>j. j \<noteq> i \<longrightarrow> moves s' ! j = moves s ! j))"

lemma handlesD:
  assumes "handles i m run" "m s = Inr (Some a, s')" "length (moves s) = 3" "\<not> run \<longrightarrow> moves s ! i = 0"
  shows "length (moves s') = 3" "\<not> ax_run a \<longrightarrow> moves s' ! i = 0" "j \<noteq> i \<Longrightarrow> moves s' ! j = moves s ! j"
  using assms unfolding handles_def by blast+

lemma side_moves: "side n aim s = Inr (d, s') \<Longrightarrow> moves s' = moves s"
  by (auto simp: side_def bind_io_Inr dest!: degree_moves split: if_splits)

lemma not_moved_moves: "not_moved n x s = Inr (b, s') \<Longrightarrow> moves s' = moves s"
  by (auto simp: not_moved_def bind_io_Inr dest!: degree_moves split: if_splits)

lemma MotorStart_others:
  assumes "APP_MotorStart n d s = Inr (r, s')" "j \<noteq> unat n - 1"
  shows "moves s' ! j = moves s ! j"
proof -
  have e: "moving p' ! j = moving p ! j" if "Antenna_DriveStart n d p = Inr (q, p')" for p p' q
    using that assms(2)
    by (auto simp: Antenna_DriveStart_def Motor_DriveStart_def Let_def bind_io_Inr sem_pend_def
      send_command_def await_reply_def take_reply_def split: if_splits list.splits option.splits)
  show ?thesis using assms(1) by (auto simp: APP_MotorStart_def bind_io_Inr on_pdu_Inr moves_def dest!: e split: if_splits)
qed

lemma handles_ret: "handles i (ret_io (Some a)) (ax_run a)"
  by (simp add: handles_def)

lemma handles_start:
  assumes "unat n = Suc i"
  shows "handles i (start_axis n aim a) False"
  unfolding handles_def
proof (intro allI impI)
  fix s b s'
  assume s: "start_axis n aim a s = Inr (Some b, s')" "length (moves s) = 3" "\<not> False \<longrightarrow> moves s ! i = 0"
  obtain d s1 where d: "side n aim s = Inr (d, s1)" using s(1) by (auto simp: start_axis_def bind_io_Inr)
  note m = side_moves [OF d]
  show "length (moves s') = 3 \<and> (\<not> ax_run b \<longrightarrow> moves s' ! i = 0) \<and> (\<forall>j. j \<noteq> i \<longrightarrow> moves s' ! j = moves s ! j)"
  proof (cases "d > 0")
    case True
    then obtain r where "APP_MotorStart n d s1 = Inr (r, s')" "b = a\<lparr>ax_dir := d, ax_run := True\<rparr>"
      using s(1) d by (auto simp: start_axis_def bind_io_Inr ok_then_def split: if_splits)
    then show ?thesis using MotorStart_length MotorStart_others [of n d s1 r s'] m s(2) assms by fastforce
  next
    case False
    then show ?thesis using s d m by (simp add: start_axis_def bind_io_Inr)
  qed
qed

lemma handles_end:
  assumes "is_part n" "unat n = Suc i"
  shows "handles i (end_axis n a) run"
proof -
  have "i < 3" using assms by (auto simp: is_part_def)
  then show ?thesis
    using assms MotorEnd_effect [of n 0 _ SUCC]
    by (auto simp: handles_def end_axis_def ok_then_def bind_io_Inr split: if_splits)
qed

lemma handles_bind:
  assumes "\<And>s x s'. m s = Inr (x, s') \<Longrightarrow> moves s' = moves s" "\<And>x. handles i (k x) run"
  shows "handles i (bind_io m k) run"
  unfolding handles_def
proof (intro allI impI)
  fix s a s'
  assume s: "bind_io m k s = Inr (Some a, s')" "length (moves s) = 3" "\<not> run \<longrightarrow> moves s ! i = 0"
  obtain x s1 where x: "m s = Inr (x, s1)" "k x s1 = Inr (Some a, s')" using s(1) by (auto simp: bind_io_Inr)
  have "moves s1 = moves s" using assms(1) x(1) by blast
  then show "length (moves s') = 3 \<and> (\<not> ax_run a \<longrightarrow> moves s' ! i = 0) \<and> (\<forall>j. j \<noteq> i \<longrightarrow> moves s' ! j = moves s ! j)"
    using assms(2) [of x] x(2) s(2,3) unfolding handles_def by metis
qed

lemma handles_then:
  assumes "handles i m run" "\<And>a. handles i (k a) (ax_run a)"
  shows "handles i (some_then m k) run"
  unfolding handles_def
proof (intro allI impI)
  fix s b s'
  assume s: "some_then m k s = Inr (Some b, s')" "length (moves s) = 3" "\<not> run \<longrightarrow> moves s ! i = 0"
  obtain a s1 where a: "m s = Inr (Some a, s1)" "k a s1 = Inr (Some b, s')" using s(1) by (auto simp: some_then_Inr)
  show "length (moves s') = 3 \<and> (\<not> ax_run b \<longrightarrow> moves s' ! i = 0) \<and> (\<forall>j. j \<noteq> i \<longrightarrow> moves s' ! j = moves s ! j)"
  proof -
    note 1 = handlesD [OF assms(1) a(1) s(2,3)]
    note 2 = handlesD [OF assms(2) a(2) 1(1,2)]
    show ?thesis using 1(3) 2 by metis
  qed
qed

lemma handles_if: "(c \<Longrightarrow> handles i m run) \<Longrightarrow> (\<not> c \<Longrightarrow> handles i n run) \<Longrightarrow> handles i (if c then m else n) run"
  by simp

lemma handles_same: "handles i (ret_io (Some b)) run" if "ax_run b = run"
  using handles_ret [of i b] that by simp

lemma handles_watch: "is_part n \<Longrightarrow> unat n = Suc i \<Longrightarrow> handles i (watch_axis n a) (ax_run a)"
  unfolding watch_axis_def Let_def
  by (intro handles_bind handles_if handles_end handles_same) (auto dest: not_moved_moves degree_moves)

lemma handles_turn: "is_part n \<Longrightarrow> unat n = Suc i \<Longrightarrow> handles i (turn_axis n aim a) (ax_run a)"
  unfolding turn_axis_def Let_def
  by (intro handles_bind handles_if handles_end handles_same handles_then handles_watch) (auto dest: side_moves)

lemma handles_polar: "handles i (f a) (ax_run a) \<Longrightarrow> handles i (with_polar f a) (ax_run a)"
  unfolding with_polar_def three_coders_def
  by (intro handles_bind handles_if handles_same) (auto simp: get_io_def)

lemma in_turn_standing:
  assumes "in_turn f (az, el, pl) (a, e, p) s = Inr (Some y, s')" "standing (a, e, p) s"
    and "handles 0 (f 1 az a) (ax_run a)" "handles 1 (f 2 el e) (ax_run e)" "handles 2 (f 3 pl p) (ax_run p)"
  shows "standing y s'"
proof -
  obtain a1 s1 e1 s2 p1 where "f 1 az a s = Inr (Some a1, s1)" "f 2 el e s1 = Inr (Some e1, s2)"
    "with_polar (f 3 pl) p s2 = Inr (Some p1, s')" "y = (a1, e1, p1)"
    using assms(1) by (auto simp: in_turn_def some_then_Inr)
  note y = this
  have s: "length (moves s) = 3" "\<not> ax_run a \<longrightarrow> moves s ! 0 = 0" "\<not> ax_run e \<longrightarrow> moves s ! 1 = 0" "\<not> ax_run p \<longrightarrow> moves s ! 2 = 0"
    using assms(2) by (simp_all add: standing_def)
  note 1 = handlesD [OF assms(3) y(1) s(1,2)]
  have e: "\<not> ax_run e \<longrightarrow> moves s1 ! 1 = 0" using s(3) 1(3) [of 1] by simp
  note 2 = handlesD [OF assms(4) y(2) 1(1) e]
  have p: "\<not> ax_run p \<longrightarrow> moves s2 ! 2 = 0" using s(4) 1(3) [of 2] 2(3) [of 2] by simp
  have "handles 2 (with_polar (f 3 pl) p) (ax_run p)" using assms(5) by (rule handles_polar)
  note 3 = handlesD [OF this y(3) 2(1) p]
  show ?thesis using 1(2) 2(2) 2(3) [of 0] 3 y(4) by (simp add: standing_def)
qed

lemma turn_standing:
  assumes "in_turn turn_axis t x s = Inr (Some y, s')" "standing x s"
  shows "standing y s'"
proof -
  obtain az el pl a e p where x: "t = (az, el, pl)" "x = (a, e, p)" by (metis prod.collapse)
  show ?thesis using assms unfolding x
    by (rule in_turn_standing) (rule handles_turn; simp add: is_part_def)+
qed

lemma start_standing:
  assumes "in_turn start_axis t x s = Inr (Some y, s')" "standing x s" "all_ended x"
  shows "standing y s'"
proof -
  obtain az el pl a e p where x: "t = (az, el, pl)" "x = (a, e, p)" by (metis prod.collapse)
  have r: "\<not> ax_run a" "\<not> ax_run e" "\<not> ax_run p" using assms(3) by (simp_all add: x all_ended_def)
  show ?thesis using assms(1,2) unfolding x
    by (rule in_turn_standing) (use r handles_start [of 1 0] handles_start [of 2 1] handles_start [of 3 2] in simp_all)
qed

lemma on_trk_Inr: "on_trk m s = Inr (x, s') \<longleftrightarrow> (\<exists>t. m (trk s) = Inr (x, t) \<and> s' = s\<lparr>trk := t\<rparr>)"
  by (auto simp: on_trk_def bind_f_Inr)

lemma moves_mode [simp]: "moves (trk (set_mode v s)) = moves (trk s)" "moves (trk (set_work v s)) = moves (trk s)"
  by (simp_all add: set_mode_def set_work_def moves_def moving_def set_sta_def upd_param_def upd_sta_def)

lemma flag_mode [simp]: "run_flag (set_mode v s) = run_flag s"
  by (simp add: set_mode_def)

lemma look_moves: "look_flag s = Inr (b, s') \<Longrightarrow> moves (trk s') = moves (trk s)"
  by (auto simp: look_flag_def Let_def split: list.splits option.splits)

lemma drive_loop_standing:
  "drive_loop n t x s = Inr (Some y, s') \<Longrightarrow> standing x (trk s) \<Longrightarrow> standing y (trk s') \<and> all_ended y"
proof (induction n t x s arbitrary: y s' rule: drive_loop.induct)
  case (2 n t x s)
  then obtain z t1 where 1: "in_turn turn_axis t x (trk s) = Inr (Some z, t1)"
    "(if all_ended z then ret_io (Some z) else bind_io look_flag (\<lambda>b. if \<not> b then ret_io None else drive_loop n t z)) (s\<lparr>trk := t1\<rparr>)
       = Inr (Some y, s')"
    by (auto simp: bind_io_Inr on_trk_Inr split: option.splits)
  have z: "standing z t1" using turn_standing [OF 1(1)] 2 by simp
  show ?case
  proof (cases "all_ended z")
    case True
    then show ?thesis using 1(2) z by auto
  next
    case False
    then obtain s2 where b: "look_flag (s\<lparr>trk := t1\<rparr>) = Inr (True, s2)" "drive_loop n t z s2 = Inr (Some y, s')"
      using 1(2) by (auto simp: bind_io_Inr split: if_splits)
    then have "standing z (trk s2)" using z look_moves [OF b(1)] by (auto simp: standing_def)
    then show ?thesis using 2(1) [OF False, of True] b(2) by simp
  qed
qed simp

lemma drive_pass_standing:
  assumes "drive_pass t x s = Inr (Some y, s')" "standing x (trk s)" "all_ended x"
  shows "standing y (trk s') \<and> all_ended y"
proof -
  obtain z t1 where z: "in_turn start_axis t x (trk s) = Inr (Some z, t1)"
    "drive_loop (fuel_for (s\<lparr>trk := t1\<rparr>)) t z (s\<lparr>trk := t1\<rparr>) = Inr (Some y, s')"
    using assms(1) by (auto simp: drive_pass_def bind_io_Inr on_trk_Inr split: option.splits)
  have "standing z (trk (s\<lparr>trk := t1\<rparr>))" using start_standing [OF z(1) assms(2,3)] by simp
  then show ?thesis using drive_loop_standing [OF z(2)] by blast
qed

lemma passes_standing:
  "passes n t x s = Inr (Some u, s') \<Longrightarrow> standing x (trk s) \<Longrightarrow> all_ended x \<Longrightarrow> \<exists>y. standing y (trk s') \<and> all_ended y"
proof (induction n t x arbitrary: s rule: passes.induct)
  case (2 n t x)
  then obtain y s1 where y: "drive_pass t x s = Inr (Some y, s1)" "passes n t y s1 = Inr (Some u, s')"
    by (auto simp: bind_io_Inr split: option.splits)
  show ?case using drive_pass_standing [OF y(1) 2(3,4)] 2(1) y(2) by blast
qed auto

lemma begin_moves: "moves (trk (note_begin s)) = moves (trk s)" "moves (trk (note_end s)) = moves (trk s)"
  by (simp_all add: note_begin_def note_end_def)

text \<open>A drive to a recorded position that comes to its end, with the antenna standing when it begins, leaves every axis
  stopped, whatever the encoders and the drive unit do meanwhile.\<close>

theorem completed_goto_stands:
  assumes "goto_run old x s = Inr (Some (), s')" "moves (trk s) = [0, 0, 0]"
  shows "moves (trk s') = [0, 0, 0]"
proof -
  let ?s = "note_begin (s\<lparr>run_flag := True\<rparr>)"
  obtain s1 where s1: "passes 3 (aims_for old s) (cleared x) ?s = Inr (Some (), s1)" "s' = note_end s1"
    using assms(1) by (auto simp: goto_run_def bind_io_def alter_g_def ret_io_def bind_f_Inr split: prod.splits)
  have "all_ended (cleared x)" by (simp add: all_ended_def cleared_def split: prod.split)
  moreover have "standing (cleared x) (trk ?s)" using assms(2) by (simp add: standing_def begin_moves split: prod.split)
  ultimately obtain y where "standing y (trk s1)" "all_ended y" using passes_standing [OF s1(1)] by blast
  then have "length (moves (trk s1)) = 3" "\<forall>i < 3. moves (trk s1) ! i = 0"
    by (auto simp: standing_def all_ended_def less_Suc_eq numeral_3_eq_3 numeral_2_eq_2)
  then have "moves (trk s1) = [0, 0, 0]" by (auto simp: list_eq_iff_nth_eq less_Suc_eq numeral_3_eq_3)
  then show ?thesis using s1(2) by (simp add: begin_moves)
qed

section \<open>On an antenna that does not move the run ends\<close>

text \<open>At least \<open>k\<close> more readings, all of them \<open>v\<close>; \<open>three\<close> says whether there are three encoders.\<close>

definition frozen :: "bool \<Rightarrow> snapshot \<Rightarrow> nat \<Rightarrow> trk \<Rightarrow> bool" where
  "frozen three v k s \<longleftrightarrow> (\<exists>n \<ge> k. feed s = replicate n v) \<and> link_ok (base s)
     \<and> (ant_elec_coder_num (AntennaParam (par s)) \<ge> 3) = three"

text \<open>A step that needs \<open>c\<close> readings at most returns a value with \<open>P\<close>.\<close>

definition finishes :: "bool \<Rightarrow> snapshot \<Rightarrow> nat \<Rightarrow> ('a \<Rightarrow> bool) \<Rightarrow> 'a tio \<Rightarrow> bool" where
  "finishes three v c P m \<longleftrightarrow> (\<forall>k s. frozen three v (k + c) s \<longrightarrow> (\<exists>x s'. m s = Inr (x, s') \<and> frozen three v k s' \<and> P x))"

lemma frozen_less: "frozen t v k s \<Longrightarrow> j \<le> k \<Longrightarrow> frozen t v j s"
  by (auto simp: frozen_def intro: order_trans)

lemma endsI: "(\<And>k s. frozen t v (k + c) s \<Longrightarrow> \<exists>x s'. m s = Inr (x, s') \<and> frozen t v k s' \<and> P x) \<Longrightarrow> finishes t v c P m"
  by (simp add: finishes_def)

lemma ends_bind:
  assumes "finishes t v c P m" "\<And>x. P x \<Longrightarrow> finishes t v d Q (k x)"
  shows "finishes t v (c + d) Q (bind_io m k)"
proof (rule endsI)
  fix j s
  assume "frozen t v (j + (c + d)) s"
  then have "frozen t v ((j + d) + c) s" by (simp add: add_ac)
  then obtain x s1 where x: "m s = Inr (x, s1)" "frozen t v (j + d) s1" "P x" using assms(1) unfolding finishes_def by blast
  then obtain y s2 where "k x s1 = Inr (y, s2)" "frozen t v j s2" "Q y" using assms(2) unfolding finishes_def by blast
  then show "\<exists>y s'. bind_io m k s = Inr (y, s') \<and> frozen t v j s' \<and> Q y" using x(1) by auto
qed

lemma ends_less:
  assumes "finishes t v c P m" "c \<le> d" "\<And>x. P x \<Longrightarrow> Q x"
  shows "finishes t v d Q m"
proof (rule endsI)
  fix k s
  assume "frozen t v (k + d) s"
  then have "frozen t v (k + c) s" by (rule frozen_less) (simp add: assms(2))
  then show "\<exists>x s'. m s = Inr (x, s') \<and> frozen t v k s' \<and> Q x" using assms(1,3) unfolding finishes_def by blast
qed

lemma ends_ret: "P x \<Longrightarrow> finishes t v c P (ret_io x)"
  unfolding finishes_def using frozen_less le_add1 by (fastforce simp: ret_io_def)

lemma ends_if: "(c \<Longrightarrow> finishes t v d P m) \<Longrightarrow> (\<not> c \<Longrightarrow> finishes t v d P n) \<Longrightarrow> finishes t v d P (if c then m else n)"
  by simp

lemma ends_read: "finishes t v 1 (\<lambda>x. x = seen n v) (APP_CurrDegree_Get_FP n)"
proof (rule endsI)
  fix k s
  assume f: "frozen t v (k + 1) s"
  then obtain i where i: "k + 1 \<le> i" "feed s = replicate i v" by (auto simp: frozen_def)
  then obtain j where j: "feed s = replicate (Suc j) v" "k \<le> j" by (cases i) auto
  have "APP_CurrDegree_Get_FP n s = Inr (seen n v, after v (replicate j v) s)" using j(1) by (intro read_after) simp
  moreover have "frozen t v k (after v (replicate j v) s)" using f j by (auto simp: frozen_def par_def)
  ultimately show "\<exists>x s'. APP_CurrDegree_Get_FP n s = Inr (x, s') \<and> frozen t v k s' \<and> x = seen n v" by blast
qed

lemma frozen_base: "frozen t v k s \<Longrightarrow> link_ok p \<Longrightarrow> ACUParam (dev p) = ACUParam (dev (base s)) \<Longrightarrow> frozen t v k (s\<lparr>base := p\<rparr>)"
  by (simp add: frozen_def par_def)

lemma ends_pdu:
  assumes "\<And>p. link_ok p \<Longrightarrow> \<exists>r p'. m p = Inr (r, p') \<and> link_ok p'"
    and "\<And>p r p'. m p = Inr (r, p') \<Longrightarrow> ACUParam (dev p') = ACUParam (dev p)"
  shows "finishes t v 0 (\<lambda>_. True) (on_pdu m)"
proof (rule endsI)
  fix k s
  assume f: "frozen t v (k + 0) s"
  then have "link_ok (base s)" by (simp add: frozen_def)
  then obtain r p where p: "m (base s) = Inr (r, p)" "link_ok p" using assms(1) by blast
  then show "\<exists>x s'. on_pdu m s = Inr (x, s') \<and> frozen t v k s' \<and> True"
    using frozen_base [OF _ p(2) assms(2) [OF p(1)]] f by (auto simp: on_pdu_def)
qed

lemma ends_motor: "finishes t v 0 (\<lambda>_. True) (APP_MotorStart n d)" "finishes t v 0 (\<lambda>_. True) (APP_MotorEnd n d)"
proof -
  have s: "finishes t v 0 (\<lambda>_. True) (on_pdu (Antenna_DriveStart n d))" using link_ok_start start_keeps_param by (rule ends_pdu)
  have e: "finishes t v 0 (\<lambda>_. True) (on_pdu (Antenna_DriveEnd n d))" using link_ok_end end_keeps_param by (rule ends_pdu)
  have two: "finishes t v 0 (\<lambda>_. True) (bind_io m (\<lambda>r. if r = FAIL then m else ret_io SUCC))"
    if "finishes t v 0 (\<lambda>_. True) m" for m :: "status tio"
    using ends_bind [OF that, where d = 0 and Q = "\<lambda>_. True" and k = "\<lambda>r. if r = FAIL then m else ret_io SUCC"] that
    by (simp add: ends_ret ends_if)
  show "finishes t v 0 (\<lambda>_. True) (APP_MotorStart n d)" "finishes t v 0 (\<lambda>_. True) (APP_MotorEnd n d)"
    unfolding APP_MotorStart_def APP_MotorEnd_def by (rule two, rule s, rule two, rule e)
qed

text \<open>What a reading decides.\<close>

definition near :: "u8 \<Rightarrow> fp32 \<Rightarrow> fp32 \<Rightarrow> bool" where
  "near n old x \<longleftrightarrow> old \<le> f64 (x + slack n) \<and> old \<ge> f64 (x - slack n)"

lemma ends_then_read:
  "(\<And>x. x = seen n v \<Longrightarrow> finishes t v c Q (k x)) \<Longrightarrow> finishes t v (Suc c) Q (bind_io (APP_CurrDegree_Get_FP n) k)"
  using ends_bind [OF ends_read [of t v n], where d = c and Q = Q and k = k] by simp

lemma ends_side: "finishes t v 2 (\<lambda>_. True) (side n aim)"
  unfolding side_def numeral_2_eq_2 by (intro ends_then_read ends_if ends_ret TrueI)

lemma ends_not_moved: "finishes t v 2 (\<lambda>b. b = near n old (seen n v)) (not_moved n old)"
  unfolding not_moved_def numeral_2_eq_2
  by (intro ends_then_read ends_if ends_ret) (auto simp: near_def)

lemma ends_ok: "finishes t v 0 (\<lambda>_. True) m \<Longrightarrow> P None \<Longrightarrow> finishes t v c P k \<Longrightarrow> finishes t v c P (ok_then m k)"
  unfolding ok_then_def by (rule ends_bind [of t v 0 "\<lambda>_. True" m, simplified add_0]) (simp_all add: ends_ret)

lemma ends_some:
  assumes "finishes t v c P m" "Q None" "\<And>a. P (Some a) \<Longrightarrow> finishes t v d Q (k a)"
  shows "finishes t v (c + d) Q (some_then m k)"
  unfolding some_then_def using assms(1) by (rule ends_bind) (auto simp: assms(2,3) ends_ret split: option.split)

text \<open>How many more turns an axis can run: 1000 without moving, and one to notice.\<close>

definition left :: "snapshot \<Rightarrow> u8 \<Rightarrow> axis \<Rightarrow> nat" where
  "left v n a = (if \<not> ax_run a then 0 else if near n (ax_old a) (seen n v) then Suc (1001 - unat (ax_err_cnt a)) else 1003)"

definition counts :: "nat \<Rightarrow> axis \<Rightarrow> bool" where
  "counts c a \<longleftrightarrow> unat (ax_err_cnt a) \<le> (if ax_run a then c else Suc c)"

text \<open>The readings are numbers that the comparison in double precision can hold.\<close>

definition readable :: "snapshot \<Rightarrow> bool" where
  "readable v \<longleftrightarrow> (\<forall>n. f64 (seen n v) = seen n v)"

lemma near_self: "readable v \<Longrightarrow> near n (seen n v) (seen n v)"
proof -
  assume r: "readable v"
  have s: "0 \<le> slack n" by (simp add: slack_def fround_nonneg)
  have "f64 (seen n v) \<le> f64 (seen n v + slack n)" "f64 (seen n v - slack n) \<le> f64 (seen n v)"
    using s by (auto intro!: fround_mono)
  then show ?thesis using r by (simp add: near_def readable_def)
qed

lemma unat_next: "unat (w :: u32) \<le> c \<Longrightarrow> c \<le> 2000 \<Longrightarrow> unat (w + 1) = unat w + 1"
  by (simp add: unat_word_ariths)

text \<open>A turn of an axis: it stops, or it has fewer turns left.\<close>

definition nearer :: "snapshot \<Rightarrow> u8 \<Rightarrow> nat \<Rightarrow> axis \<Rightarrow> axis \<Rightarrow> bool" where
  "nearer v n c a b \<longleftrightarrow> counts c b \<and> (ax_run b \<longrightarrow> ax_run a \<and> left v n b < left v n a) \<and> left v n b \<le> left v n a"

definition likely :: "('a \<Rightarrow> bool) \<Rightarrow> 'a option \<Rightarrow> bool" where
  "likely P r \<longleftrightarrow> (case r of None \<Rightarrow> True | Some x \<Rightarrow> P x)"

lemma likely_simps [simp]: "likely P None" "likely P (Some x) = P x"
  by (simp_all add: likely_def)

lemma ends_end_axis: "P (a\<lparr>ax_run := False\<rparr>) \<Longrightarrow> finishes t v c (likely P) (end_axis n a)"
  unfolding end_axis_def by (intro ends_ok ends_motor ends_ret) simp_all

lemma ends_watch:
  assumes "readable v" "1000 \<le> c" "c \<le> 1999" "unat (ax_err_cnt a) \<le> c"
    and "ax_run b" "ax_old b = ax_old a" "ax_err_cnt b = ax_err_cnt a"
  shows "finishes t v 3 (likely (nearer v n c b)) (watch_axis n a)"
proof -
  have l: "left v n b = (if near n (ax_old a) (seen n v) then Suc (1001 - unat (ax_err_cnt a)) else 1003)"
    using assms by (simp add: left_def)
  have inc: "unat (ax_err_cnt a + 1) = unat (ax_err_cnt a) + 1" using assms by (intro unat_next) auto
  have "finishes t v (2 + 1) (likely (nearer v n c b)) (watch_axis n a)"
    unfolding watch_axis_def Let_def
  proof (rule ends_bind [OF ends_not_moved])
    fix stuck
    assume stuck: "stuck = near n (ax_old a) (seen n v)"
    show "finishes t v 1 (likely (nearer v n c b)) (if stuck
        then if 1000 < ax_err_cnt (a\<lparr>ax_err_cnt := ax_err_cnt a + 1\<rparr>) then end_axis n (a\<lparr>ax_err_cnt := ax_err_cnt a + 1\<rparr>)
             else ret_io (Some (a\<lparr>ax_err_cnt := ax_err_cnt a + 1\<rparr>))
        else bind_io (APP_CurrDegree_Get_FP n) (\<lambda>z. ret_io (Some (a\<lparr>ax_old := z, ax_err_cnt := 0\<rparr>))))"
    proof (cases stuck)
      case True
      have "nearer v n c b (a\<lparr>ax_err_cnt := ax_err_cnt a + 1, ax_run := False\<rparr>)"
        using inc assms(4) by (simp add: nearer_def counts_def left_def)
      moreover have "nearer v n c b (a\<lparr>ax_err_cnt := ax_err_cnt a + 1\<rparr>)" if "\<not> 1000 < ax_err_cnt a + 1"
      proof -
        have "unat (ax_err_cnt a + 1) \<le> 1000" using that by (simp add: word_less_nat_alt not_less)
        then show ?thesis using inc assms(2,5) l True stuck by (auto simp: nearer_def counts_def left_def)
      qed
      ultimately show ?thesis using True by (auto intro: ends_if ends_end_axis ends_ret)
    next
      case False
      have "nearer v n c b (a\<lparr>ax_old := seen n v, ax_err_cnt := 0\<rparr>)"
        using assms(5) l False stuck near_self [OF assms(1)] by (auto simp: nearer_def counts_def left_def)
      then have "finishes t v (Suc 0) (likely (nearer v n c b))
          (bind_io (APP_CurrDegree_Get_FP n) (\<lambda>z. ret_io (Some (a\<lparr>ax_old := z, ax_err_cnt := 0\<rparr>))))"
        by (intro ends_then_read ends_ret) simp
      then show ?thesis using False by simp
    qed
  qed
  then show ?thesis by simp
qed

lemma ends_turn:
  assumes "readable v" "1000 \<le> c" "c \<le> 1999" "counts c a"
  shows "finishes t v 5 (likely (nearer v n c a)) (turn_axis n aim a)"
proof (cases "ax_run a")
  case False
  then show ?thesis using assms(4) by (simp add: turn_axis_def nearer_def ends_ret)
next
  case True
  let ?same = "\<lambda>b. ax_old b = ax_old a \<and> ax_err_cnt b = ax_err_cnt a"
  have cnt: "unat (ax_err_cnt a) \<le> c" using True assms(4) by (simp add: counts_def)
  have w: "finishes t v 3 (likely (nearer v n c a)) (watch_axis n b)" if "?same b" for b
    using that cnt True by (intro ends_watch assms) simp_all
  have e: "finishes t v 0 (likely ?same) (if q then end_axis n b else ret_io (Some b))" if "?same b" for q b
    using that by (auto intro: ends_end_axis ends_ret)
  have k: "finishes t v (0 + (0 + 3)) (likely (nearer v n c a))
      (some_then (if q then end_axis n a1 else ret_io (Some a1)) (\<lambda>a2.
       some_then (if ax_dir a2 \<noteq> ax_cmp_dir a2 then end_axis n a2 else ret_io (Some a2)) (watch_axis n)))"
    if "?same a1" for q a1
    using that by (intro ends_some [OF e] ends_some [OF e] w) simp_all
  have "finishes t v (2 + 3) (likely (nearer v n c a)) (turn_axis n aim a)"
    unfolding turn_axis_def using True
    by (simp only: if_not_P not_not, intro ends_bind [OF ends_side]) (use k in \<open>simp add: Let_def\<close>)
  then show ?thesis by simp
qed

lemma ends_polar:
  assumes "t \<Longrightarrow> finishes t v c (likely P) (f a)" "\<not> t \<Longrightarrow> P a"
  shows "finishes t v c (likely P) (with_polar f a)"
proof (rule endsI)
  fix k s
  assume s: "frozen t v (k + c) s"
  then have "three_coders s = Inr (t, s)" by (simp add: three_coders_def get_io_def frozen_def)
  then have "with_polar f a s = (if t then f a s else Inr (Some a, s))" by (simp add: with_polar_def ret_io_def)
  then show "\<exists>x s'. with_polar f a s = Inr (x, s') \<and> frozen t v k s' \<and> likely P x"
    using assms s frozen_less [OF s, of k] unfolding finishes_def by (cases t) auto
qed

text \<open>The three axes.\<close>

definition lefts :: "snapshot \<Rightarrow> axes \<Rightarrow> nat" where
  "lefts v = (\<lambda>(a, e, p). left v 1 a + left v 2 e + left v 3 p)"

definition in_step :: "bool \<Rightarrow> nat \<Rightarrow> axes \<Rightarrow> bool" where
  "in_step three c = (\<lambda>(a, e, p). counts c a \<and> counts c e \<and> counts c p \<and> (ax_run p \<longrightarrow> three))"

lemma ends_in_turn:
  assumes "finishes t v c (likely P) (f 1 az a)" "finishes t v c (likely Q) (f 2 el e)"
    and "t \<Longrightarrow> finishes t v c (likely R) (f 3 pl p)" "\<not> t \<Longrightarrow> R p"
  shows "finishes t v (c + (c + c)) (likely (\<lambda>(a, e, p). P a \<and> Q e \<and> R p)) (in_turn f (az, el, pl) (a, e, p))"
proof -
  have r: "finishes t v 0 (likely (\<lambda>(a, e, p). P a \<and> Q e \<and> R p)) (ret_io (Some (b, d, q)))" if "P b" "Q d" "R q" for b d q
    using that by (intro ends_ret) simp
  have "finishes t v (c + (c + (c + 0))) (likely (\<lambda>(a, e, p). P a \<and> Q e \<and> R p)) (in_turn f (az, el, pl) (a, e, p))"
    unfolding in_turn_def prod.case
    by (intro ends_some [OF assms(1)] ends_some [OF assms(2)] ends_some [OF ends_polar [where f = "f 3 pl", OF assms(3,4)]] r) simp_all
  then show ?thesis by simp
qed

lemma ends_turns:
  assumes "readable v" "1000 \<le> c" "c \<le> 1999" "in_step t c x"
  shows "finishes t v 15 (likely (\<lambda>y. in_step t c y \<and> (all_ended y \<or> lefts v y < lefts v x))) (in_turn turn_axis aims x)"
proof -
  obtain a e p where x: "x = (a, e, p)" by (metis prod.collapse)
  obtain az el pl where aims: "aims = (az, el, pl)" by (metis prod.collapse)
  have c: "counts c a" "counts c e" "counts c p" "ax_run p \<longrightarrow> t" using assms(4) by (simp_all add: x in_step_def)
  have p: "nearer v 3 c p p" if "\<not> t" using that c by (auto simp: nearer_def)
  have "finishes t v (5 + (5 + 5)) (likely (\<lambda>(b, d, q). nearer v 1 c a b \<and> nearer v 2 c e d \<and> nearer v 3 c p q))
      (in_turn turn_axis (az, el, pl) (a, e, p))"
    using c p by (intro ends_in_turn ends_turn assms(1-3))
  then show ?thesis unfolding x aims
    by (rule ends_less) (auto simp: likely_def nearer_def in_step_def all_ended_def lefts_def c(4) split: option.splits)
qed

lemma left_bound: "left v n a \<le> 1003"
  using diff_le_self [of 1001 "unat (ax_err_cnt a)"] by (auto simp: left_def intro: le_trans)

lemma lefts_bound: "lefts v x \<le> 3009"
  using left_bound [of v 1 "fst x"] left_bound [of v 2 "fst (snd x)"] left_bound [of v 3 "snd (snd x)"]
  by (simp add: lefts_def split_beta)

lemma frozen_mode [simp]: "frozen t v k (trk (set_mode m s)) = frozen t v k (trk s)"
  "frozen t v k (trk (set_work w s)) = frozen t v k (trk s)"
  by (simp_all add: frozen_def set_mode_def set_work_def set_sta_def upd_param_def upd_sta_def par_def link_ok_def link_free_def)

lemma look_returns: "\<exists>b s'. look_flag s = Inr (b, s') \<and> (\<forall>t v k. frozen t v k (trk s') = frozen t v k (trk s))"
  by (cases "cancel s"; cases "hd (cancel s)") (auto simp: look_flag_def Let_def)

lemma on_trk_ends:
  assumes "finishes t v c P m" "frozen t v (k + c) (trk s)"
  shows "\<exists>x u. on_trk m s = Inr (x, s\<lparr>trk := u\<rparr>) \<and> frozen t v k u \<and> P x"
  using assms unfolding finishes_def on_trk_def by force

lemma drive_loop_returns:
  assumes "readable v" "1000 \<le> c" "c \<le> 1999"
  shows "lefts v x \<le> m \<Longrightarrow> m < n \<Longrightarrow> in_step t c x \<Longrightarrow> frozen t v (k + 15 * Suc m) (trk s)
    \<Longrightarrow> \<exists>r s'. drive_loop n aims x s = Inr (r, s') \<and> frozen t v k (trk s') \<and> likely (\<lambda>y. in_step t c y \<and> all_ended y) r"
proof (induction m arbitrary: x n s)
  case (Suc m)
  then obtain n1 where n: "n = Suc n1" "m < n1" by (cases n) auto
  have "frozen t v ((k + 15 * Suc m) + 15) (trk s)" using Suc.prems(4) by (simp add: algebra_simps)
  from on_trk_ends [OF ends_turns [OF assms Suc.prems(3)] this]
  obtain r u where r: "on_trk (in_turn turn_axis aims x) s = Inr (r, s\<lparr>trk := u\<rparr>)" "frozen t v (k + 15 * Suc m) u"
    "likely (\<lambda>y. in_step t c y \<and> (all_ended y \<or> lefts v y < lefts v x)) r" by blast
  have u: "frozen t v k u" using r(2) by (rule frozen_less) simp
  show ?case
  proof (cases r)
    case None
    then show ?thesis using r(1) u by (simp add: n(1))
  next
    case (Some y)
    obtain b s2 where b: "look_flag (s\<lparr>trk := u\<rparr>) = Inr (b, s2)" "\<And>j. frozen t v j (trk s2) = frozen t v j u"
      using look_returns [of "s\<lparr>trk := u\<rparr>"] by auto
    show ?thesis
    proof (cases "all_ended y \<or> \<not> b")
      case True
      then show ?thesis using r u b Some by (cases "all_ended y") (auto simp: n(1))
    next
      case False
      then have y: "in_step t c y" "lefts v y \<le> m" using r(3) Some Suc.prems(1) by simp_all
      have "frozen t v (k + 15 * Suc m) (trk s2)" using r(2) b(2) by simp
      from Suc.IH [OF y(2) n(2) y(1) this] show ?thesis using r(1) b(1) Some False by (simp add: n(1))
    qed
  qed
next
  case 0
  then obtain n1 where n: "n = Suc n1" by (cases n) auto
  have "frozen t v (k + 15) (trk s)" using 0(4) by simp
  from on_trk_ends [OF ends_turns [OF assms 0(3)] this]
  obtain r u where r: "on_trk (in_turn turn_axis aims x) s = Inr (r, s\<lparr>trk := u\<rparr>)" "frozen t v k u"
    "likely (\<lambda>y. in_step t c y \<and> (all_ended y \<or> lefts v y < lefts v x)) r" by blast
  then show ?case using 0(1) by (cases r) (auto simp: n)
qed

lemma ends_start: "counts c a \<Longrightarrow> finishes t v 2 (likely (counts (Suc c))) (start_axis n aim a)"
  unfolding start_axis_def
  by (rule ends_bind [OF ends_side, where d = 0, simplified add_0_right])
    (auto simp: counts_def split: if_splits intro!: ends_ok ends_motor ends_ret)

lemma ends_starts:
  assumes "in_step t c x" "all_ended x"
  shows "finishes t v 6 (likely (in_step t (Suc c))) (in_turn start_axis aims x)"
proof -
  obtain a e p where x: "x = (a, e, p)" by (metis prod.collapse)
  obtain az el pl where aims: "aims = (az, el, pl)" by (metis prod.collapse)
  have c: "counts c a" "counts c e" "counts c p" "\<not> ax_run p" using assms by (simp_all add: x in_step_def all_ended_def)
  have pol: "finishes t v 2 (likely (\<lambda>q. counts (Suc c) q \<and> (ax_run q \<longrightarrow> t))) (start_axis 3 pl p)" if t
    using ends_start [OF c(3)] by (rule ends_less) (auto simp: that likely_def split: option.splits)
  have "finishes t v (2 + (2 + 2)) (likely (\<lambda>(b, d, q). counts (Suc c) b \<and> counts (Suc c) d \<and> (counts (Suc c) q \<and> (ax_run q \<longrightarrow> t))))
      (in_turn start_axis (az, el, pl) (a, e, p))"
    using c by (intro ends_in_turn ends_start pol) (simp_all add: counts_def)
  then show ?thesis unfolding x aims
    by (rule ends_less) (auto simp: likely_def in_step_def split: option.splits)
qed

abbreviation (input) pass_readings :: nat where "pass_readings \<equiv> 6 + 15 * Suc 3009"

lemma drive_pass_returns:
  assumes "readable v" "1000 \<le> c" "c < 1999" "in_step t c x" "all_ended x" "frozen t v (k + pass_readings) (trk s)"
  shows "\<exists>r s'. drive_pass aims x s = Inr (r, s') \<and> frozen t v k (trk s') \<and> likely (\<lambda>y. in_step t (Suc c) y \<and> all_ended y) r"
proof -
  have f: "frozen t v ((k + 15 * Suc 3009) + 6) (trk s)" using assms(6) by (simp add: algebra_simps)
  from on_trk_ends [OF ends_starts [OF assms(4,5)] f]
  obtain r u where r: "on_trk (in_turn start_axis aims x) s = Inr (r, s\<lparr>trk := u\<rparr>)" "frozen t v (k + 15 * Suc 3009) u"
    "likely (in_step t (Suc c)) r" by blast
  show ?thesis
  proof (cases r)
    case None
    then show ?thesis using r frozen_less [OF r(2), of k] by (simp add: drive_pass_def)
  next
    case (Some y)
    let ?s = "s\<lparr>trk := u\<rparr>"
    have "15 * Suc 3009 \<le> length (feed u)" using r(2) by (auto simp: frozen_def)
    then have "3009 < fuel_for ?s" by (simp add: fuel_for_def)
    then have "\<exists>q s'. drive_loop (fuel_for ?s) aims y ?s = Inr (q, s') \<and> frozen t v k (trk s')
        \<and> likely (\<lambda>y. in_step t (Suc c) y \<and> all_ended y) q"
      using r(2,3) assms(2,3) Some by (intro drive_loop_returns [OF assms(1) _ _ lefts_bound]) simp_all
    then show ?thesis using r(1) Some by (simp add: drive_pass_def)
  qed
qed

lemma passes_return:
  "readable v \<Longrightarrow> 1000 \<le> c \<Longrightarrow> c + n < 1999 \<Longrightarrow> in_step t c x \<Longrightarrow> all_ended x \<Longrightarrow> frozen t v (n * pass_readings) (trk s)
    \<Longrightarrow> \<exists>r s'. passes n aims x s = Inr (r, s')"
proof (induction n arbitrary: c x s)
  case (Suc n)
  have "frozen t v (n * pass_readings + pass_readings) (trk s)" using Suc.prems(6) by (simp add: algebra_simps)
  then obtain r s1 where r: "drive_pass aims x s = Inr (r, s1)" "frozen t v (n * pass_readings) (trk s1)"
    "likely (\<lambda>y. in_step t (Suc c) y \<and> all_ended y) r"
    using drive_pass_returns [OF Suc.prems(1,2) _ Suc.prems(4,5)] Suc.prems(3) by (metis (no_types, lifting) add_lessD1)
  then show ?case using Suc.IH [of "Suc c" _ s1] Suc.prems(1-3) by (cases r) auto
qed simp

text \<open>With an antenna that does not move, for any aim and whatever the drive unit answers, the run ends: after 1000
  turns without a movement an axis is stopped. (The drive of the tracking, \<open>adapt_target_angle\<close>, has no such limit.)\<close>

theorem blocked_goto_ends:
  assumes "feed (trk s) = replicate k v" "140000 \<le> k" "readable v" "link_ok (base (trk s))"
  shows "\<exists>r s'. goto_run old x s = Inr (r, s') \<and> \<not> run_flag s'"
proof -
  let ?s = "note_begin (s\<lparr>run_flag := True\<rparr>)"
  define t where "t = (ant_elec_coder_num (AntennaParam (par (trk s))) \<ge> 3)"
  have "frozen t v (3 * pass_readings) (trk s)" using assms by (auto simp: frozen_def t_def)
  then have f: "frozen t v (3 * pass_readings) (trk ?s)" by (simp add: note_begin_def)
  have "in_step t 1000 (cleared x)" "all_ended (cleared x)"
    by (simp_all add: in_step_def cleared_def counts_def all_ended_def split: prod.split)
  from passes_return [OF assms(3) _ _ this f, of "aims_for old s"]
  obtain r s1 where "passes 3 (aims_for old s) (cleared x) ?s = Inr (r, s1)" by auto
  then show ?thesis by (simp add: goto_run_def bind_io_def alter_g_def ret_io_def note_end_def)
qed

section \<open>A cancelled run\<close>

lemma after_after [simp]: "after v vs (after v ws s) = after v vs s"
  by (simp add: after_def set_sta_def upd_sta_def)

lemma after_base: "(after v vs s)\<lparr>base := p\<rparr> = s\<lparr>feed := vs, base := p\<rparr>"
  by (simp add: after_def set_sta_def)

text \<open>The antenna stands to the right of the aim in azimuth, and at the aim in elevation.\<close>

definition beside_aim :: "snapshot \<Rightarrow> fp32 \<Rightarrow> fp32 \<Rightarrow> bool" where
  "beside_aim v az el \<longleftrightarrow> f32 (az + D_value 1) < seen_position v
     \<and> seen_cabrage v \<le> f32 (el + D_value 2) \<and> f32 (el - D_value 2) \<le> seen_cabrage v"

lemma side_beside:
  assumes "beside_aim v az el"
  shows "feed s = v # vs \<Longrightarrow> side 1 az s = Inr (1, after v vs s)"
    "feed s = v # v # vs \<Longrightarrow> side 2 el s = Inr (0, after v vs s)"
  using assms read_after [of s v vs 1] read_after [of s v "v # vs" 2] read_after [of "after v (v # vs) s" v vs 2]
  by (simp_all add: side_def beside_aim_def seen_def ret_io_def)

lemma watch_running:
  assumes "feed s = v # v # v # vs" "ax_err_cnt a = 0"
  shows "\<exists>b ws. watch_axis 1 a s = Inr (Some b, after v ws s) \<and> ax_run b = ax_run a"
  using assms read_after [of s v "v # v # vs" 1] read_after [of "after v (v # v # vs) s" v "v # vs" 1]
    read_after [of "after v (v # vs) s" v vs 1]
  by (auto simp: watch_axis_def not_moved_def bind_io_def ret_io_def Let_def)

lemma MotorStart_works:
  assumes "link_ok (base s)" "\<not> soft_limit_refuses (dev (base s)) 1 d" "d = 1 \<or> d = 2"
    and r: "replies (base s) = Some r # rs" "4 \<le> length r" "acks r 1"
  shows "\<exists>p f. APP_MotorStart 1 d s = Inr (SUCC, s\<lparr>base := p\<rparr>) \<and> moving p = (moves s)[0 := d] \<and> link_ok p \<and> replies p = rs
    \<and> ACUParam (dev p) = ACUParam (dev (base s)) \<and> sent p = sent (base s) @ [f] \<and> f ! 3 = 1"
proof -
  have part: "is_part 1" by (simp add: is_part_def)
  obtain p where p: "Antenna_DriveStart 1 d (base s) = Inr (SUCC, p)" "moving p = (moving (base s))[unat (1 :: u8) - 1 := d]"
    "\<exists>m. sent p = sent (base s) @ [[0xBC, 5, 4, 1, 2, 1, m, 0xBC + 5 + 4 + 1 + 2 + 1 + m, 0xCB]]" "link_ok p" "replies p = rs"
    by (rule drive_started [OF assms(1) part assms(2,3) r(1-3)]) blast
  then show ?thesis using start_keeps_param [OF p(1)]
    by (auto simp: APP_MotorStart_def on_pdu_def bind_io_def ret_io_def moves_def)
qed

lemma MotorEnd_works:
  assumes "link_ok (base s)" "replies (base s) = Some r # rs" "4 \<le> length r" "acks r 2"
  shows "\<exists>p. APP_MotorEnd 1 0 s = Inr (SUCC, s\<lparr>base := p\<rparr>) \<and> link_ok p \<and> replies p = rs \<and> ACUParam (dev p) = ACUParam (dev (base s))"
proof -
  have part: "is_part 1" by (simp add: is_part_def)
  obtain p where p: "Antenna_DriveEnd 1 0 (base s) = Inr (SUCC, p)" "replies p = rs" "link_ok p"
    by (rule drive_stopped [OF assms(1) part assms(2-4)]) blast
  then show ?thesis using end_keeps_param [OF p(1)]
    by (auto simp: APP_MotorEnd_def on_pdu_def bind_io_def ret_io_def)
qed

text \<open>The first pass: the azimuth is started, and still marked as running after the first turn.\<close>

definition few_coders :: "trk \<Rightarrow> bool" where
  "few_coders s \<longleftrightarrow> ant_elec_coder_num (AntennaParam (par s)) < 3"

lemma few_after [simp]: "few_coders (after v vs s) = few_coders s"
  by (simp add: few_coders_def par_def)

lemma few_polar: "few_coders s \<Longrightarrow> with_polar f a s = Inr (Some a, s)"
  by (simp add: with_polar_def three_coders_def get_io_def few_coders_def bind_io_def ret_io_def not_le [symmetric])

lemma azimuth_started:
  assumes "feed s = v # v # v # vs" "beside_aim v az el" "few_coders s" "\<not> seen_position v \<le> motor_position_start (AntennaParam (par s))"
    and r: "link_ok (base s)" "replies (base s) = Some r # rs" "4 \<le> length r" "acks r 1"
  shows "\<exists>b d p0 u f. in_turn start_axis (az, el, pl) (a, e, p) s = Inr (Some (b, d, p), u) \<and> ax_run b \<and> ax_dir b = 1
    \<and> ax_err_cnt b = ax_err_cnt a \<and> \<not> ax_run d \<and> feed u = vs \<and> few_coders u \<and> moves u = (moves s)[0 := 1]
    \<and> sent (base u) = sent (base s) @ [f] \<and> f ! 3 = 1"
proof -
  let ?s1 = "after v (v # v # vs) s"
  have "\<not> soft_limit_refuses (dev (base ?s1)) 1 1"
    using assms(4) by (simp add: soft_limit_refuses_def Let_def par_def)
  with MotorStart_works [of ?s1 1 r rs] r obtain q f where
    q: "APP_MotorStart 1 1 ?s1 = Inr (SUCC, ?s1\<lparr>base := q\<rparr>)" "moving q = (moves s)[0 := 1]"
      "ACUParam (dev q) = ACUParam (dev (base s))" "sent q = sent (base s) @ [f]" "f ! 3 = 1" by auto
  let ?s2 = "?s1\<lparr>base := q\<rparr>"
  have feed2: "feed ?s2 = v # v # vs" by simp
  have "start_axis 1 az a s = Inr (Some (a\<lparr>ax_dir := 1, ax_run := True\<rparr>), ?s2)"
    using side_beside(1) [OF assms(2) assms(1)] q(1) by (simp add: start_axis_def ok_then_def ret_io_def)
  moreover have "start_axis 2 el e ?s2 = Inr (Some (e\<lparr>ax_dir := 0, ax_run := False\<rparr>), after v vs ?s2)"
    using side_beside(2) [OF assms(2) feed2] by (simp add: start_axis_def ret_io_def)
  moreover have "few_coders (after v vs ?s2)" using assms(3) q(3) by (simp add: few_coders_def par_def)
  ultimately show ?thesis
    using few_polar [of "after v vs ?s2" "start_axis 3 pl" p] q(2,4,5)
    by (auto simp: in_turn_def some_then_def ret_io_def moves_def [symmetric])
qed

lemma azimuth_turns:
  assumes "feed s = v # v # v # v # vs" "beside_aim v az el" "few_coders s" "ax_run a" "ax_dir a = 1" "ax_err_cnt a = 0" "\<not> ax_run e"
  shows "\<exists>b ws. in_turn turn_axis (az, el, pl) (a, e, p) s = Inr (Some (b, e, p), after v ws s) \<and> ax_run b"
proof -
  let ?s1 = "after v (v # v # v # vs) s"
  obtain b ws where b: "watch_axis 1 (a\<lparr>ax_cmp_dir := 1\<rparr>) ?s1 = Inr (Some b, after v ws s)" "ax_run b"
    using watch_running [of ?s1 v vs "a\<lparr>ax_cmp_dir := 1\<rparr>"] assms(4,6) by auto
  have "turn_axis 1 az a s = Inr (Some b, after v ws s)"
    using side_beside(1) [OF assms(2,1)] b(1) assms(4,5) by (simp add: turn_axis_def some_then_def Let_def)
  moreover have "turn_axis 2 el e (after v ws s) = Inr (Some e, after v ws s)"
    using assms(7) by (simp add: turn_axis_def ret_io_def)
  ultimately show ?thesis
    using few_polar [of "after v ws s" "turn_axis 3 pl" p] assms(3) b(2) by (auto simp: in_turn_def some_then_def ret_io_def)
qed

text \<open>A drive to a recorded position that is cancelled while an axis turns ends without a stop command: the azimuth, just
  started, is still turning when the task has gone back to waiting.\<close>

theorem cancelled_goto_keeps_turning:
  assumes m: "mode_of s = 0x04" "a = AntennaParam (par (trk s))" "ant_elec_coder_num a < 3"
    and f: "feed (trk s) = replicate 8 v @ vs" "beside_aim v (aim_position a) (aim_cabrage a)"
    and l: "link_ok (base (trk s))" "\<not> seen_position v \<le> motor_position_start a" "length (moves (trk s)) = 3"
    and r: "replies (base (trk s)) = Some r # rs" "4 \<le> length r" "acks r 1"
    and c: "cancel s = Some mode # cs"
  shows "\<exists>s'. goto_run old x s = Inr (None, s') \<and> \<not> run_flag s' \<and> moves (trk s') ! 0 = 1
    \<and> (\<exists>start. sent (base (trk s')) = sent (base (trk s)) @ [start] \<and> start ! 3 = 1)"
proof -
  let ?s = "note_begin (s\<lparr>run_flag := True\<rparr>)" and ?t = "set_sta (\<lambda>c. c\<lparr>dev_work_sta := 0x40\<rparr>) (trk s)"
  obtain ca ce cp where x: "cleared x = (ca, ce, cp)" by (metis prod.collapse)
  then have ca: "ax_err_cnt ca = 0" by (auto simp: cleared_def split: prod.splits)
  have t: "trk ?s = ?t" "cancel ?s = Some mode # cs" using m(1) c by (simp_all add: note_begin_def mode_of_def set_work_def)
  have keep: "feed ?t = replicate 8 v @ vs" "link_ok (base ?t)" "replies (base ?t) = Some r # rs" "few_coders ?t" "par ?t = par (trk s)"
    "moves ?t = moves (trk s)" "sent (base ?t) = sent (base (trk s))"
    using f l r m by (simp_all add: set_sta_def upd_sta_def par_def few_coders_def moves_def moving_def link_ok_def link_free_def)
  have eight: "replicate 8 v @ vs = v # v # v # v # v # v # v # v # vs" by (simp add: eval_nat_numeral)
  from azimuth_started [of ?t v "v # v # v # v # v # vs" "aim_position a" "aim_cabrage a" r rs "aim_polar a" ca ce cp]
  obtain b d u fr where u: "in_turn start_axis (aim_position a, aim_cabrage a, aim_polar a) (ca, ce, cp) ?t = Inr (Some (b, d, cp), u)"
    "ax_run b" "ax_dir b = 1" "ax_err_cnt b = 0" "\<not> ax_run d" "feed u = v # v # v # v # v # vs" "few_coders u"
    "moves u = (moves (trk s))[0 := 1]" "sent (base u) = sent (base (trk s)) @ [fr]" "fr ! 3 = 1"
    using keep f(2) l(2) r(2,3) m(2) eight ca by auto
  from azimuth_turns [OF u(6) f(2) u(7,2-5), of "aim_polar a" cp]
  obtain b2 ws where b2: "in_turn turn_axis (aim_position a, aim_cabrage a, aim_polar a) (b, d, cp) u
      = Inr (Some (b2, d, cp), after v ws u)" "ax_run b2" by auto
  have aims: "aims_for old s = (aim_position a, aim_cabrage a, aim_polar a)" using m by (simp add: aims_for_def Let_def)
  let ?e = "set_mode mode (?s\<lparr>trk := after v ws u, cancel := cs, run_flag := False\<rparr>)"
  have loop: "drive_loop (Suc n) (aims_for old s) (b, d, cp) (?s\<lparr>trk := u\<rparr>) = Inr (None, ?e)" for n
    using b2 t(2) by (simp add: aims on_trk_def bind_io_def look_flag_def Let_def all_ended_def ret_io_def)
  have "drive_pass (aims_for old s) (cleared x) ?s = Inr (None, ?e)"
    using u(1) loop by (simp add: drive_pass_def on_trk_def bind_io_def aims x t(1) fuel_for_def del: drive_loop.simps)
  then have "goto_run old x s = Inr (None, note_end ?e)"
    by (simp add: goto_run_def alter_g_def bind_io_def ret_io_def numeral_3_eq_3)
  moreover have "moves (trk (note_end ?e)) = (moves (trk s))[0 := 1]" using u(8) by (simp add: begin_moves)
  moreover have "sent (base (trk (note_end ?e))) = sent (base (trk s)) @ [fr]"
    using u(9) by (simp add: note_end_def set_mode_def set_work_def set_sta_def upd_param_def upd_sta_def)
  ultimately show ?thesis using u(10) l(3) by (simp add: note_end_def)
qed

section \<open>Examples\<close>

text \<open>The antenna of \<open>demo\<close> with two encoders, in mode 4 with the aim \<open>az\<close> and elevation 0.\<close>

definition recorded :: "fp32 \<Rightarrow> snapshot list \<Rightarrow> bytes option list \<Rightarrow> u8 option list \<Rightarrow> gto" where
  "recorded az f rs cs = \<lparr>trk = (demo f rs)\<lparr>base := upd_param (\<lambda>p. p\<lparr>AntennaParam := (AntennaParam p)\<lparr>aim_position := az\<rparr>,
     SeekSatParam := (SeekSatParam p)\<lparr>SeekSat_Mode := 0x04\<rparr>\<rparr>) (base (demo f rs))\<rparr>, cancel = cs, run_flag = False\<rparr>"

definition fresh_axes :: axes where
  "fresh_axes = (let a = \<lparr>ax_dir = 0, ax_cmp_dir = 0, ax_run = False, ax_err_cnt = 0, ax_old = 0\<rparr> in (a, a, a))"

lemma recorded_sel [simp]:
  "feed (trk (recorded az f rs cs)) = f" "cancel (recorded az f rs cs) = cs" "mode_of (recorded az f rs cs) = 4"
  "replies (base (trk (recorded az f rs cs))) = rs" "moves (trk (recorded az f rs cs)) = [0, 0, 0]"
  "aim_position (AntennaParam (par (trk (recorded az f rs cs)))) = az"
  "aim_cabrage (AntennaParam (par (trk (recorded az f rs cs)))) = 0"
  "motor_position_start (AntennaParam (par (trk (recorded az f rs cs)))) = 0"
  "motor_position_end (AntennaParam (par (trk (recorded az f rs cs)))) = 90"
  "ant_elec_coder_num (AntennaParam (par (trk (recorded az f rs cs)))) = 0"
  by (simp_all add: recorded_def mode_of_def par_def upd_param_def moves_def moving_def)
    (simp_all add: demo_def upd_param_def upd_sta_def idle_link_def zero_strACUDevInfo_def zero_strACUCurrSta_def
      zero_strACUSeekSatParam_def zero_strAntennaParam_def numeral_3_eq_3)

lemma recorded_link: "(\<forall>r. Some r \<in> set rs \<longrightarrow> length r \<le> 32) \<Longrightarrow> link_ok (base (trk (recorded az f rs cs)))"
  using demo_link_ok [of rs f] by (simp add: recorded_def upd_param_def link_ok_def link_free_def)

lemma D_value_bounds: "0 \<le> D_value n" "D_value n \<le> 1"
proof -
  have "fround 24 (-149) (fround 53 (-1074) x) \<le> 1" if "0 \<le> x" "x \<le> 1" for x :: rat
  proof -
    have one: "fround 53 (-1074) 1 = 1" "fround 24 (-149) 1 = 1" by code_simp+
    have "fround 53 (-1074) x \<le> 1" using fround_mono [OF that(2), of 53 "-1074"] one(1) by simp
    then show ?thesis using fround_mono [of "fround 53 (-1074) x" 1 24 "-149"] one(2) by simp
  qed
  then show "D_value n \<le> 1" by (simp add: D_value_def)
  show "0 \<le> D_value n" by (simp add: D_value_def fround_nonneg)
qed

lemma slack_bounds: "0 \<le> slack n" "slack n \<le> 1"
proof -
  have "fround 53 (-1074) x \<le> 1" if "x \<le> 1" for x :: rat
  proof -
    have "fround 53 (-1074) 1 = 1" by code_simp
    then show ?thesis using fround_mono [OF that, of 53 "-1074"] by simp
  qed
  then show "slack n \<le> 1" by (simp add: slack_def)
  show "0 \<le> slack n" by (simp add: slack_def fround_nonneg)
qed

lemma f32_in_range: "of_int (int a) \<le> x \<Longrightarrow> a < 16777216 \<Longrightarrow> of_nat a \<le> f32 x" "x \<le> of_int (int a) \<Longrightarrow> a < 16777216 \<Longrightarrow> f32 x \<le> of_nat a"
  using fround_mono [of "of_nat a" x 24 "-149"] fround_mono [of x "of_nat a" 24 "-149"] f32_of_nat [of a] by simp_all

lemma side_at:
  assumes "feed s = v # v # vs" "seen n v \<le> f32 (aim + D_value n)"
  shows "side n aim s = Inr (if seen n v < f32 (aim - D_value n) then 2 else 0, after v vs s)"
  using assms read_after [of s v "v # vs" n] read_after [of "after v (v # vs) s" v vs n]
  by (simp add: side_def ret_io_def)

text \<open>The azimuth at 10 and then at 20, with the aim at 20.\<close>

lemma at_20:
  "feed s = demo_at 10 0 0 # demo_at 10 0 0 # vs \<Longrightarrow> side 1 20 s = Inr (2, after (demo_at 10 0 0) vs s)"
  "feed s = demo_at 20 0 0 # demo_at 20 0 0 # vs \<Longrightarrow> side 1 20 s = Inr (0, after (demo_at 20 0 0) vs s)"
  "feed s = demo_at 20 0 0 # demo_at 20 0 0 # vs \<Longrightarrow> side 2 0 s = Inr (0, after (demo_at 20 0 0) vs s)"
proof -
  have 1: "20 \<le> f32 (20 + D_value 1)" "19 \<le> f32 (20 - D_value 1)" "f32 (20 - D_value 1) \<le> 20"
    using D_value_bounds [of 1] f32_in_range(1) [where a = 20 and x = "20 + D_value 1"] f32_in_range(1) [where a = 19 and x = "20 - D_value 1"]
      f32_in_range(2) [where a = 20 and x = "20 - D_value 1"] by simp_all
  have 2: "0 \<le> f32 (D_value 2)" "f32 (- D_value 2) \<le> 0"
    using D_value_bounds [of 2] by (simp_all add: fround_nonneg fround_nonpos)
  show "feed s = demo_at 10 0 0 # demo_at 10 0 0 # vs \<Longrightarrow> side 1 20 s = Inr (2, after (demo_at 10 0 0) vs s)"
    "feed s = demo_at 20 0 0 # demo_at 20 0 0 # vs \<Longrightarrow> side 1 20 s = Inr (0, after (demo_at 20 0 0) vs s)"
    "feed s = demo_at 20 0 0 # demo_at 20 0 0 # vs \<Longrightarrow> side 2 0 s = Inr (0, after (demo_at 20 0 0) vs s)"
    using 1 2 by (simp_all add: side_at)
qed

lemma at_20_moved: "\<not> near 1 0 20" "0 \<le> f64 (20 + slack 1)"
proof -
  have "f64 19 \<le> f64 (20 - slack 1)" using slack_bounds [of 1] by (intro fround_mono) simp_all
  moreover have "f64 19 = 19" using fround_int [of 19 53 "-1074"] by simp
  ultimately show "\<not> near 1 0 20" by (simp add: near_def)
  show "0 \<le> f64 (20 + slack 1)" using slack_bounds [of 1] by (simp add: fround_nonneg)
qed

lemma watch_moved:
  assumes "feed s = demo_at 20 0 0 # demo_at 20 0 0 # demo_at 20 0 0 # vs" "ax_old a = 0"
  shows "watch_axis 1 a s = Inr (Some (a\<lparr>ax_old := 20, ax_err_cnt := 0\<rparr>), after (demo_at 20 0 0) vs s)"
  using assms at_20_moved read_after [of s _ "demo_at 20 0 0 # demo_at 20 0 0 # vs" 1]
    read_after [of "after _ (demo_at 20 0 0 # demo_at 20 0 0 # vs) s" _ "demo_at 20 0 0 # vs" 1]
    read_after [of "after _ (demo_at 20 0 0 # vs) s" _ vs 1]
  by (simp add: watch_axis_def not_moved_def near_def ret_io_def)

text \<open>A pass with the antenna at the aim.\<close>

lemma idle_pass:
  assumes "feed (trk s) = demo_at 20 0 0 # demo_at 20 0 0 # demo_at 20 0 0 # demo_at 20 0 0 # vs" "few_coders (trk s)"
    "\<not> ax_run p"
  shows "\<exists>b d. drive_pass (20, 0, pl) (a, e, p) s = Inr (Some (b, d, p), s\<lparr>trk := after (demo_at 20 0 0) vs (trk s)\<rparr>)"
proof -
  let ?v = "demo_at 20 0 0" and ?b = "a\<lparr>ax_dir := 0, ax_run := False\<rparr>" and ?d = "e\<lparr>ax_dir := 0, ax_run := False\<rparr>"
  let ?u = "after ?v vs (trk s)"
  have "start_axis 1 20 a (trk s) = Inr (Some ?b, after ?v (?v # ?v # vs) (trk s))"
    using at_20(2) [OF assms(1)] by (simp add: start_axis_def ret_io_def)
  moreover have "start_axis 2 0 e (after ?v (?v # ?v # vs) (trk s)) = Inr (Some ?d, ?u)"
    using at_20(3) [of "after ?v (?v # ?v # vs) (trk s)" vs] by (simp add: start_axis_def ret_io_def)
  ultimately have start: "in_turn start_axis (20, 0, pl) (a, e, p) (trk s) = Inr (Some (?b, ?d, p), ?u)"
    using few_polar [of ?u "start_axis 3 pl" p] assms(2) by (simp add: in_turn_def some_then_def ret_io_def)
  have "in_turn turn_axis (20, 0, pl) (?b, ?d, p) ?u = Inr (Some (?b, ?d, p), ?u)"
    using few_polar [of ?u "turn_axis 3 pl" p] assms(2) by (simp add: in_turn_def some_then_def turn_axis_def ret_io_def)
  then have "drive_loop (Suc n) (20, 0, pl) (?b, ?d, p) (s\<lparr>trk := ?u\<rparr>) = Inr (Some (?b, ?d, p), s\<lparr>trk := ?u\<rparr>)" for n
    using assms(3) by (simp add: on_trk_def bind_io_def ret_io_def all_ended_def)
  then show ?thesis using start by (auto simp: drive_pass_def on_trk_def bind_io_def fuel_for_def simp del: drive_loop.simps)
qed

text \<open>A pass that drives there.\<close>

lemma driving_pass:
  assumes "feed (trk s) = demo_at 10 0 0 # demo_at 10 0 0 # replicate 7 (demo_at 20 0 0) @ vs" "few_coders (trk s)"
    and "\<not> ax_run p" "ax_old a = 0" "link_ok (base (trk s))" "replies (base (trk s)) = [Some ack_start, Some ack_stop, Some ack_stop]"
    and "motor_position_end (AntennaParam (par (trk s))) = 90" "motor_position_start (AntennaParam (par (trk s))) = 0"
  shows "\<exists>b d u. drive_pass (20, 0, pl) (a, e, p) s = Inr (Some (b, d, p), s\<lparr>trk := u\<rparr>) \<and> feed u = vs \<and> few_coders u"
proof -
  let ?v = "demo_at 20 0 0" and ?t = "trk s"
  let ?t1 = "after (demo_at 10 0 0) (replicate 7 ?v @ vs) ?t"
  have many: "replicate 7 ?v @ vs = ?v # ?v # ?v # ?v # ?v # ?v # ?v # vs" by (simp add: eval_nat_numeral)
  have s1: "side 1 20 ?t = Inr (2, ?t1)" using at_20(1) [OF assms(1)] .
  have "\<not> soft_limit_refuses (dev (base ?t1)) 1 2"
    using assms(7,8) by (simp add: soft_limit_refuses_def Let_def demo_at_def par_def)
  with MotorStart_works [of ?t1 2 ack_start "[Some ack_stop, Some ack_stop]"] assms(5,6) obtain p1 where
    p1: "APP_MotorStart 1 2 ?t1 = Inr (SUCC, ?t1\<lparr>base := p1\<rparr>)" "link_ok p1" "replies p1 = [Some ack_stop, Some ack_stop]"
      "ACUParam (dev p1) = ACUParam (dev (base ?t))" by (auto simp: acks_def)
  let ?t2 = "?t1\<lparr>base := p1\<rparr>" and ?b = "a\<lparr>ax_dir := 2, ax_run := True\<rparr>" and ?d = "e\<lparr>ax_dir := 0, ax_run := False\<rparr>"
  let ?t3 = "after ?v (?v # ?v # ?v # ?v # ?v # vs) ?t2" and ?t4 = "after ?v (?v # ?v # ?v # vs) ?t2"
  have few: "few_coders ?t2" using assms(2) p1(4) by (simp add: few_coders_def par_def)
  have "start_axis 1 20 a ?t = Inr (Some ?b, ?t2)" using s1 p1(1) by (simp add: start_axis_def ok_then_def ret_io_def)
  moreover have "start_axis 2 0 e ?t2 = Inr (Some ?d, ?t3)"
    using at_20(3) [of ?t2] by (simp add: start_axis_def ret_io_def many)
  ultimately have start: "in_turn start_axis (20, 0, pl) (a, e, p) ?t = Inr (Some (?b, ?d, p), ?t3)"
    using few few_polar [of ?t3 "start_axis 3 pl" p] by (simp add: in_turn_def some_then_def ret_io_def)
  obtain p2 where p2: "APP_MotorEnd 1 0 ?t4 = Inr (SUCC, ?t4\<lparr>base := p2\<rparr>)" "link_ok p2" "replies p2 = [Some ack_stop]"
    "ACUParam (dev p2) = ACUParam (dev p1)" using MotorEnd_works [of ?t4 ack_stop] p1(2,3) by (auto simp: acks_def)
  obtain p3 where p3: "APP_MotorEnd 1 0 (?t4\<lparr>base := p2\<rparr>) = Inr (SUCC, ?t4\<lparr>base := p3\<rparr>)"
    "ACUParam (dev p3) = ACUParam (dev p2)" using MotorEnd_works [of "?t4\<lparr>base := p2\<rparr>" ack_stop] p2(2,3) by (auto simp: acks_def)
  let ?b2 = "a\<lparr>ax_dir := 2, ax_cmp_dir := 0, ax_run := False\<rparr>" and ?u = "after ?v vs (?t4\<lparr>base := p3\<rparr>)"
  let ?b3 = "?b2\<lparr>ax_old := 20, ax_err_cnt := 0\<rparr>"
  have "side 1 20 ?t3 = Inr (0, ?t4)" using at_20(2) [of ?t3 "?v # ?v # ?v # vs"] by simp
  moreover have "watch_axis 1 ?b2 (?t4\<lparr>base := p3\<rparr>) = Inr (Some ?b3, ?u)" by (rule watch_moved) (simp_all add: assms(4))
  ultimately have "turn_axis 1 20 ?b ?t3 = Inr (Some ?b3, ?u)"
    using p2(1) p3(1) by (simp add: turn_axis_def end_axis_def some_then_def ok_then_def ret_io_def Let_def)
  moreover have fu: "few_coders ?u" using few p2(4) p3(2) by (simp add: few_coders_def par_def)
  ultimately have "in_turn turn_axis (20, 0, pl) (?b, ?d, p) ?t3 = Inr (Some (?b3, ?d, p), ?u)"
    using few_polar [of ?u "turn_axis 3 pl" p] by (simp add: in_turn_def some_then_def turn_axis_def [of 2] ret_io_def)
  then have "drive_loop (Suc n) (20, 0, pl) (?b, ?d, p) (s\<lparr>trk := ?t3\<rparr>) = Inr (Some (?b3, ?d, p), s\<lparr>trk := ?u\<rparr>)" for n
    using assms(3) by (simp add: on_trk_def bind_io_def ret_io_def all_ended_def)
  then have "drive_pass (20, 0, pl) (a, e, p) s = Inr (Some (?b3, ?d, p), s\<lparr>trk := ?u\<rparr>)"
    using start by (simp add: drive_pass_def on_trk_def bind_io_def fuel_for_def del: drive_loop.simps)
  then show ?thesis using fu by fastforce
qed

theorem completed_goto_stands_witness:
  "\<exists>s'. goto_run (0, 0, 0) fresh_axes (recorded 20 (replicate 2 (demo_at 10 0 0) @ replicate 15 (demo_at 20 0 0))
      [Some ack_start, Some ack_stop, Some ack_stop] []) = Inr (Some (), s') \<and> moves (trk s') = [0, 0, 0]"
proof -
  let ?v = "demo_at 20 0 0"
  let ?s = "recorded 20 (replicate 2 (demo_at 10 0 0) @ replicate 15 ?v) [Some ack_start, Some ack_stop, Some ack_stop] []"
  let ?s1 = "note_begin (?s\<lparr>run_flag := True\<rparr>)"
  obtain a e p where x: "cleared fresh_axes = (a, e, p)" "ax_old a = 0" "\<not> ax_run p" by (auto simp: cleared_def fresh_axes_def Let_def)
  obtain pl where aims: "aims_for (0, 0, 0) ?s = (20, 0, pl)" by (simp add: aims_for_def Let_def)
  have f: "feed (trk ?s1) = demo_at 10 0 0 # demo_at 10 0 0 # replicate 7 ?v @ replicate 8 ?v"
    by (simp add: note_begin_def set_work_def set_sta_def eval_nat_numeral)
  have w: "par (trk ?s1) = par (trk ?s)" "link_ok (base (trk ?s1)) = link_ok (base (trk ?s))" "replies (base (trk ?s1)) = replies (base (trk ?s))"
    by (simp_all add: note_begin_def set_work_def set_sta_def upd_sta_def par_def link_ok_def link_free_def)
  have r: "few_coders (trk ?s1)" "link_ok (base (trk ?s1))" "replies (base (trk ?s1)) = [Some ack_start, Some ack_stop, Some ack_stop]"
    "motor_position_end (AntennaParam (par (trk ?s1))) = 90" "motor_position_start (AntennaParam (par (trk ?s1))) = 0"
    unfolding few_coders_def w by (simp_all add: recorded_link)
  obtain b d u where 1: "drive_pass (20, 0, pl) (a, e, p) ?s1 = Inr (Some (b, d, p), ?s1\<lparr>trk := u\<rparr>)" "feed u = replicate 8 ?v" "few_coders u"
    using driving_pass [OF f r(1) x(3) x(2) r(2) r(3) r(4) r(5)] by blast
  have eight: "replicate 8 ?v = ?v # ?v # ?v # ?v # ?v # ?v # ?v # ?v # []" by (simp add: eval_nat_numeral)
  obtain b2 d2 where 2: "drive_pass (20, 0, pl) (b, d, p) (?s1\<lparr>trk := u\<rparr>)
      = Inr (Some (b2, d2, p), ?s1\<lparr>trk := after ?v [?v, ?v, ?v, ?v] u\<rparr>)"
    using idle_pass [of "?s1\<lparr>trk := u\<rparr>" "[?v, ?v, ?v, ?v]" p pl b d] 1(2,3) x(3) eight by auto
  obtain b3 d3 where 3: "drive_pass (20, 0, pl) (b2, d2, p) (?s1\<lparr>trk := after ?v [?v, ?v, ?v, ?v] u\<rparr>)
      = Inr (Some (b3, d3, p), ?s1\<lparr>trk := after ?v [] u\<rparr>)"
    using idle_pass [of "?s1\<lparr>trk := after ?v [?v, ?v, ?v, ?v] u\<rparr>" "[]" p pl b2 d2] 1(3) x(3) by auto
  have "goto_run (0, 0, 0) fresh_axes ?s = Inr (Some (), note_end (?s1\<lparr>trk := after ?v [] u\<rparr>))"
    using 1(1) 2 3 by (simp add: goto_run_def alter_g_def bind_io_def ret_io_def numeral_3_eq_3 aims x(1))
  from completed_goto_stands [OF this] this show ?thesis by simp
qed

theorem blocked_goto_ends_witness:
  "\<exists>r s'. goto_run (0, 0, 0) fresh_axes (recorded 20 (replicate 140000 (demo_at 10 0 0)) [Some ack_start] []) = Inr (r, s') \<and> \<not> run_flag s'"
  using fround_int [of 10 53 "-1074"] fround_int [of 0 53 "-1074"]
  by (intro blocked_goto_ends [of _ 140000 "demo_at 10 0 0"] recorded_link) (simp_all add: readable_def)

theorem cancelled_goto_keeps_turning_witness:
  "\<exists>s'. goto_run (0, 0, 0) fresh_axes (recorded 5 (replicate 8 (demo_at 10 0 0)) [Some ack_start] [Some 0]) = Inr (None, s')
    \<and> moves (trk s') ! 0 = 1"
proof -
  have "f32 (5 + D_value 1) \<le> 6" using D_value_bounds [of 1] f32_in_range(2) [where a = 6 and x = "5 + D_value 1"] by simp
  then have "beside_aim (demo_at 10 0 0) 5 0"
    using D_value_bounds [of 2] by (simp add: beside_aim_def demo_at_def fround_nonneg fround_nonpos)
  then show ?thesis
    using cancelled_goto_keeps_turning [of "recorded 5 (replicate 8 (demo_at 10 0 0)) [Some ack_start] [Some 0]" _ "demo_at 10 0 0" "[]"
      ack_start "[]" 0 "[]" "(0, 0, 0)" fresh_axes]
    by (auto simp: recorded_link acks_def demo_at_def)
qed

end
