(* ===== verification/Spec2Isabelle.thy ===== *)
theory Spec2Isabelle
  imports Tool Calendar ParamLaws PduUart PduLaws SemLock LogProps TrackFaults AdminProps AngleProps MonitorRuns BeaconProps SatTable StartupProps RtcProps PanelProps ControlTypes GotoProps
begin

text \<open>
  Verification development for the firmware of the antenna control unit (ACU) in this repository.

  \<^bold>\<open>The program.\<close> The ACU points a satellite antenna. It runs on an STM32F2 under uC/OS-III. Tasks of
  \<open>APP/src\<close> share one global record, \<open>ACUDevInfo\<close> (\<open>APP/inc/devdef.h\<close>), and talk to the hardware through the
  drivers of \<open>HW\<close>: a drive unit on UART 4 that turns the three axes and holds the satellite receiver of the
  position, three angle encoders on UARTs 5, 2 and 1, a receiver of the beacon signal, an EEPROM for
  parameters, a serial flash for logs, an operating panel on UART 3, and control PCs over UDP. The
  tracking task drives the axes and searches the strongest signal; the monitor publishes alarms, stops
  axes at their limits and takes back the control from silent PCs; the command links let one PC at a
  time control the antenna when the panel permits it.

  \<^bold>\<open>This version.\<close> The repository holds the program at a stage of its bring-up: \<open>BSP_Init\<close> has the set-up of the drivers in
  comments, \<open>TaskCreate\<close> starts the debug shell only, the calls of \<open>APP_PCCOMM_Deal\<close> (\<open>udpecho.c\<close>) and of the tracking (\<open>main.c\<close>,
  lines 300 and 826) are in comments, and \<open>APP_PARAM_Init\<close> and the monitor have no caller. The development verifies the
  functions of \<open>APP/src\<close> and \<open>HW\<close> as they are compiled, from the states that their own initialisations leave. The one exception is
  \<open>Beacon_IntHandler\<close>, which is under \<open>#if 0\<close>: it is modelled to say what the exchanges with the receiver were written for, and
  the numbered properties are about the handler that is compiled.

  \<^bold>\<open>Conventions.\<close> A C structure is a record of theory \<open>DevDef\<close>, an array a list, an \<open>INT8U\<close>, \<open>INT16U\<close>,
  \<open>INT32U\<close> a word of that width, an \<open>FP32\<close> a rational that is rounded after every operation (\<open>FP32\<close>: round to
  nearest even, no infinities; a not-a-number result is the fault \<open>NonFinite\<close>). A function that changes
  the state has the type \<open>state \<Rightarrow> fault + result \<times> state\<close>; \<open>SUCC\<close> and \<open>FAIL\<close> are results, a \<open>fault\<close> is what
  keeps a call from returning: a semaphore that nobody posts (\<open>Blocked\<close>), an access outside an array
  (\<open>OutOfBounds\<close>), a loop that is still running when its environment trace ends (\<open>Unfinished\<close>). What other
  tasks, interrupts and devices do meanwhile is an explicit trace in the state: \<open>replies\<close> of the drive
  unit, \<open>feed\<close> of angles and signal seen by the tracking, \<open>arrivals\<close> of encoder bytes, \<open>observed\<close> encoder
  readings, the chip behind the flash and EEPROM drivers. A theorem that says a call returns is proved for
  all traces it names. Static variables of a C function are fields of the state of its theory.
  Delays have no effect on the state.

  \<^bold>\<open>Theories and source files.\<close>

  \<^item> \<open>Prelude\<close>: words, bytes, the result monad, the collection \<open>faults\<close> and \<open>bytes_eq\<close>.
  \<^item> \<open>FP32\<close>: binary32 and binary64 rounding, conversions, monotony of rounding.
  \<^item> \<open>DevDef\<close>: \<open>APP/inc/devdef.h\<close>, all structures, and their zero values.
  \<^item> \<open>Tool\<close>: \<open>app_tool.c\<close>, checksum and packing. \<open>Calendar\<close>: \<open>app_datetime.c\<close>, the software clock, and the
    time zone shift of \<open>app_gps.c\<close>.
  \<^item> \<open>Eeprom\<close>: \<open>HW/hw_eeprom.c\<close>, bus, page and buffer writes. \<open>ParamStore\<close>, \<open>Params\<close>: \<open>app_param_save_read.c\<close>, verified
    saves and every parameter. \<open>ParamLaws\<close>: round trips, slots apart, refinement of a map from slots to bytes.
  \<^item> \<open>PduUart\<close>: \<open>HW/hw_pducomm.c\<close>, receive interrupt, with its invariant as reachability. \<open>PduLink\<close>:
    \<open>app_motor.c\<close>, \<open>app_pducomm.c\<close>, \<open>app_gps.c\<close>. \<open>PduLaws\<close>: limits, frames, stops, balance of the link semaphore
    (locale \<open>link_commands\<close>), and that a command returns if no answer is too long (locale \<open>prompt_commands\<close>).
  \<^item> \<open>SemLock\<close>: \<open>BSP/src/bsp_os.c\<close> over \<open>os_sem.c\<close>, posting to all waiting tasks.
  \<^item> \<open>Flash\<close>: \<open>HW/ic_n25q128.c\<close>. \<open>Log\<close>, \<open>LogLaws\<close>, \<open>LogProps\<close>: \<open>app_log.c\<close>, both logs; a log refines a list.
  \<^item> \<open>Track\<close>: \<open>app_satellite_track.c\<close>. \<open>TrackLaws\<close>, \<open>TrackProps\<close>, \<open>TrackSweep\<close>, \<open>TrackFaults\<close>: driving to an angle
    stops, returns and fails as stated, the sweeps find the maximum.
  \<^item> \<open>RecordGoto\<close>: \<open>TaskAntennaRecordGoto\<close> of \<open>main.c\<close>, which drives to a recorded position or to angles given by hand. \<open>GotoProps\<close>:
    a run that completes leaves the axes stopped, a blocked antenna does not keep it, a cancelled one does not stop them.
  \<^item> \<open>PcLink\<close>: frames and dispatch of \<open>app_pccomm.c\<close>, \<open>app_oledcomm.c\<close>, \<open>hw_oledcomm.c\<close>, \<open>udpecho.c\<close>. \<open>Admin\<close>, \<open>AdminProps\<close>:
    the administration rights, which refine the abstract roles \<open>Nobody\<close>, \<open>Asked\<close>, \<open>PC\<close>, \<open>Drive\<close>.
  \<^item> \<open>Encoder\<close>, \<open>EncoderLaws\<close>, \<open>EncoderProps\<close>: \<open>hw_eleccoder.c\<close> and \<open>app_eleccoder.c\<close> (locale \<open>sensor\<close>, interpreted by
    the three encoders). \<open>Angles\<close>, \<open>AngleProps\<close>: angles of \<open>app_monitor.c\<close> from encoder readings.
  \<^item> \<open>Monitor\<close>: the supervision of \<open>app_monitor.c\<close>, the buzzer settings of \<open>app_buzzer.c\<close>, the sensor of
    \<open>ic_ad7814.c\<close>. \<open>MonitorLaws\<close>: what its parts may change (locale \<open>frame\<close>). \<open>MonitorProps\<close>, \<open>MonitorRuns\<close>: alarms,
    limits, reactions, gaps.
  \<^item> \<open>Beacon\<close>: the receiver of the beacon signal, \<open>app_beacon.c\<close> over the interrupt of \<open>hw_beacon.c\<close>. \<open>BeaconProps\<close>: under
    the handler that is compiled no exchange is answered; no call waits; and for the handler under \<open>#if 0\<close> what a query
    of the signal reads and what a late answer does.
  \<^item> \<open>Control\<close>, \<open>Setup\<close>: the commands of \<open>app_pccomm.c\<close> that change the mode, move the antenna, edit the tables of
    satellites and of recorded positions, and set parameters; the theoretical aim angles of \<open>app_monitor.c\<close> with the functions of
    libm as a parameter. \<open>ControlLaws\<close>, \<open>ControlProps\<close>: what the commands may change (locale \<open>frame\<close> again), a change of the
    mode stops the axes. \<open>SatTable\<close>: the table of satellites refines a map. \<open>RecordProps\<close>: recorded positions, what an
    approach finds again of them and why it fails. \<open>ControlTypes\<close>: the arrays of the device record keep their lengths
    under every command.
  \<^item> \<open>Rtc\<close>: \<open>ic_ds1302.c\<close>, the clock chip bit by bit on its three pins, and the functions of \<open>app_datetime.c\<close> and
    \<open>app_pccomm.c\<close> over it; the chip is a parameter. \<open>RtcProps\<close> (locale \<open>registers\<close>): a saved date is read back, but not one
    of the evening.
  \<^item> \<open>Startup\<close>: \<open>APP_PARAM_Init\<close>, in the stages of its body. \<open>StartupProps\<close> (locale \<open>returning\<close>): the satellites survive
    a restart, the selected one gets another number.
  \<^item> \<open>Query\<close>: the queries of \<open>app_pccomm.c\<close>, which answer with the state as bytes; \<open>Panel\<close>: the handlers of \<open>app_oledcomm.c\<close>,
    which share most of their bodies with those of the PCs. \<open>QueryProps\<close>: the answer lists the table of satellites, a
    saved network address is the one shown. \<open>PanelProps\<close>: no query disturbs the state the tasks work on; a command of the
    panel does what the same command of a PC does, where the code agrees, and where it does not.

  \<^bold>\<open>Bounds.\<close> The loops of \<open>Track\<close> run on fuel: \<open>loop\<close> takes one more turn than the trace \<open>feed\<close> is long, which is
  enough because every turn consumes a reading; \<open>adapt_returns\<close> shows that enough readings let it
  return, \<open>frozen_reading_never_returns\<close> that a stuck encoder does not. \<open>RecordGoto\<close> has the same fuel for its loop, and \<open>passes\<close>
  counts the three turns of its outer one; \<open>blocked_goto_ends\<close> shows that 140000 readings are enough for a whole run on a blocked
  antenna. The waiting loops of the EEPROM and flash
  drivers run on the number of polls the chip needs. Other recursions are structural.

  \<^bold>\<open>Not modelled.\<close> The third-party code (uC/OS-III but for its semaphores, uC/LIB, lwIP, the
  chip library) and the board support package set registers or lie outside the program's own
  logic. The pin, clock and DMA set-up of the drivers, LED, watchdog and the debug shell
  have no logic that a property could be about. The
  drift record of the log and the test of the Ethernet link are not modelled.
\<close>

end
